(* ===== verification/Froth_Prelude.thy ===== *)
theory Froth_Prelude
  imports Main "HOL-Library.Word" "HOL-Library.Monad_Syntax"
begin

unbundle bit_operations_syntax

section \<open>Prelude: error codes, early return, bytes and byte-level storage\<close>

text \<open>
  What every component shares: the error codes of \<^verbatim>\<open>src/src/froth_types.h\<close> with the
  early return of its \<^verbatim>\<open>FROTH_TRY\<close> macro, the two integer widths the code mixes with
  its 32-bit cells (\<open>size_t\<close> as \<open>nat\<close> below \<open>SIZE_MAX\<close>), C strings and
  little-endian words in byte storage, and the generic list lemmas the proofs reuse.
  A C function that returns a status and writes through out-pointers becomes a function into
  \<open>froth_error + 'a\<close>; one that also mutates its structure returns the structure beside
  the result on every path, because the code leaves partial updates behind on errors too.
  Pointers passed between the modelled functions are never NULL, so the code's NULL guards
  have no counterpart.
\<close>

named_theorems wf_intros \<open>introduction rules for the components' well-formedness predicates\<close>
named_theorems frame_simps \<open>what an operation leaves unchanged\<close>
named_theorems word_bytes \<open>little-endian bytes of words and back\<close>

subsection \<open>Error codes (froth_types.h)\<close>

datatype froth_error =
    FROTH_ERROR_STACK_OVERFLOW
  | FROTH_ERROR_STACK_UNDERFLOW
  | FROTH_ERROR_TYPE_MISMATCH
  | FROTH_ERROR_UNDEFINED_WORD
  | FROTH_ERROR_DIVISION_BY_ZERO
  | FROTH_ERROR_HEAP_OUT_OF_MEMORY
  | FROTH_ERROR_IO
  | FROTH_ERROR_VALUE_OVERFLOW
  | FROTH_ERROR_BOUNDS
  | FROTH_ERROR_PROGRAM_INTERRUPTED
  | FROTH_ERROR_SLOT_TABLE_FULL
  | FROTH_ERROR_CALL_DEPTH
  | FROTH_ERROR_RESET
  | FROTH_ERROR_CELLSPACE_FULL
  | FROTH_ERROR_TOPLEVEL_ONLY
  | FROTH_ERROR_BUSY
  | FROTH_ERROR_NOT_PERSISTABLE
  | FROTH_ERROR_BSTRING_TOO_LONG
  | FROTH_ERROR_UNTERMINATED_STRING
  | FROTH_ERROR_INVALID_ESCAPE
  | FROTH_ERROR_SIGNATURE
  | FROTH_ERROR_SNAPSHOT_OVERFLOW
  | FROTH_ERROR_SNAPSHOT_FORMAT
  | FROTH_ERROR_SNAPSHOT_UNRESOLVED
  | FROTH_ERROR_SNAPSHOT_BAD_CRC
  | FROTH_ERROR_SNAPSHOT_INCOMPAT
  | FROTH_ERROR_SNAPSHOT_NO_SNAPSHOT
  | FROTH_ERROR_SNAPSHOT_BAD_NAME
  | FROTH_ERROR_LINK_OVERFLOW
  | FROTH_ERROR_LINK_COBS_DECODE
  | FROTH_ERROR_LINK_BAD_MAGIC
  | FROTH_ERROR_LINK_BAD_VERSION
  | FROTH_ERROR_LINK_BAD_CRC
  | FROTH_ERROR_LINK_TOO_LARGE
  | FROTH_ERROR_LINK_UNKNOWN_TYPE

text \<open>
  The constructors are the codes the modelled files use; the remaining numbers of the C
  enumeration (those of an older reader) are not produced by them.
  \<open>FROTH_OK\<close> is the \<open>Inr\<close> side of a result.
\<close>

type_synonym 'a result = "froth_error + 'a"

fun FROTH_TRY :: "'a result \<Rightarrow> ('a \<Rightarrow> 'b result) \<Rightarrow> 'b result" where
  "FROTH_TRY (Inl e) k = Inl e"
| "FROTH_TRY (Inr x) k = k x"

lemma FROTH_TRY_Inr_iff:
  "FROTH_TRY m k = Inr y \<longleftrightarrow> (\<exists>x. m = Inr x \<and> k x = Inr y)"
  by (cases m) auto

lemma FROTH_TRY_Inl_iff:
  "FROTH_TRY m k = Inl e \<longleftrightarrow> m = Inl e \<or> (\<exists>x. m = Inr x \<and> k x = Inl e)"
  by (cases m) auto

lemma FROTH_TRY_cong [fundef_cong]:
  "m = m' \<Longrightarrow> (\<And>x. m' = Inr x \<Longrightarrow> k x = k' x) \<Longrightarrow> FROTH_TRY m k = FROTH_TRY m' k'"
  by (cases m') auto

text \<open>A guard: the code's \<^verbatim>\<open>if (!ok) return err;\<close>.\<close>

definition guard_or :: "bool \<Rightarrow> froth_error \<Rightarrow> unit result" where
  "guard_or ok err = (if ok then Inr () else Inl err)"

lemma guard_or_Inr [simp]: "guard_or ok err = Inr u \<longleftrightarrow> ok"
  by (simp add: guard_or_def)

lemma guard_or_simps [simp]: "guard_or True err = Inr ()" "guard_or False err = Inl err"
  by (simp_all add: guard_or_def)

subsection \<open>Integer ranges and target sizes\<close>

text \<open>
  \<open>size_t\<close> and object sizes are those of the 64-bit host build, which the repository's
  default \<^verbatim>\<open>make build\<close> produces (\<^verbatim>\<open>CMakeLists.txt\<close>, \<^verbatim>\<open>boards/posix/board.json\<close>).
\<close>

definition SIZE_MAX :: nat where "SIZE_MAX = 2 ^ 64 - 1"
definition UINT32_MAX :: nat where "UINT32_MAX = 2 ^ 32 - 1"
definition UINT16_MAX :: nat where "UINT16_MAX = 2 ^ 16 - 1"
definition INT32_MAX :: nat where "INT32_MAX = 2 ^ 31 - 1"
definition ALIGNOF_MAX_ALIGN :: nat where "ALIGNOF_MAX_ALIGN = 16"

subsection \<open>Bytes, C strings, storage updates\<close>

type_synonym byte = "8 word"

definition c_string :: "byte list \<Rightarrow> byte list" where
  "c_string bs = takeWhile (\<lambda>b. b \<noteq> 0) bs"

lemma c_string_append_nul: "0 \<notin> set s \<Longrightarrow> c_string (s @ 0 # t) = s"
proof -
  assume "0 \<notin> set s"
  then have "\<forall>b \<in> set s. b \<noteq> 0" by auto
  then show ?thesis by (simp add: c_string_def takeWhile_append)
qed

text \<open>\<open>store_at data off bs\<close> is \<^verbatim>\<open>memcpy(data + off, bs, n)\<close> inside an array.\<close>

definition store_at :: "'a list \<Rightarrow> nat \<Rightarrow> 'a list \<Rightarrow> 'a list" where
  "store_at xs off ys = take off xs @ ys @ drop (off + length ys) xs"

definition load_at :: "'a list \<Rightarrow> nat \<Rightarrow> nat \<Rightarrow> 'a list" where
  "load_at xs off n = take n (drop off xs)"

lemma length_store_at [simp]:
  "off + length ys \<le> length xs \<Longrightarrow> length (store_at xs off ys) = length xs"
  by (simp add: store_at_def)

lemma length_load_at: "length (load_at xs off n) = min n (length xs - off)"
  by (simp add: load_at_def)

lemma load_store_same:
  "off + length ys \<le> length xs \<Longrightarrow> load_at (store_at xs off ys) off (length ys) = ys"
  by (simp add: store_at_def load_at_def)

lemma nth_store_at:
  "off + length ys \<le> length xs \<Longrightarrow> i < length xs \<Longrightarrow>
   store_at xs off ys ! i = (if off \<le> i \<and> i < off + length ys then ys ! (i - off) else xs ! i)"
  by (auto simp: store_at_def nth_append min_def)

lemma load_store_disjoint:
  assumes "off + length ys \<le> length xs" and "o2 + n \<le> off \<or> off + length ys \<le> o2"
  shows "load_at (store_at xs off ys) o2 n = load_at xs o2 n"
proof (rule nth_equalityI)
  show "length (load_at (store_at xs off ys) o2 n) = length (load_at xs o2 n)"
    using assms(1) by (simp add: length_load_at)
next
  fix i assume "i < length (load_at (store_at xs off ys) o2 n)"
  then have "i < n" "o2 + i < length xs"
    using assms(1) by (auto simp: length_load_at)
  then show "load_at (store_at xs off ys) o2 n ! i = load_at xs o2 n ! i"
    using assms by (auto simp: load_at_def nth_store_at)
qed

lemma load_at_add: "load_at xs off (m + n) = load_at xs off m @ load_at xs (off + m) n"
  by (simp add: load_at_def take_add add.commute)

subsection \<open>Little-endian words\<close>

definition le16 :: "16 word \<Rightarrow> byte list" where
  "le16 v = [ucast (v AND 0xFF), ucast (drop_bit 8 v AND 0xFF)]"

definition le32 :: "32 word \<Rightarrow> byte list" where
  "le32 v = [ucast (v AND 0xFF), ucast (drop_bit 8 v AND 0xFF),
             ucast (drop_bit 16 v AND 0xFF), ucast (drop_bit 24 v AND 0xFF)]"

definition of_le16 :: "byte \<Rightarrow> byte \<Rightarrow> 16 word" where
  "of_le16 b0 b1 = ucast b0 OR push_bit 8 (ucast b1)"

definition of_le32 :: "byte \<Rightarrow> byte \<Rightarrow> byte \<Rightarrow> byte \<Rightarrow> 32 word" where
  "of_le32 b0 b1 b2 b3 =
     ucast b0 OR push_bit 8 (ucast b1) OR push_bit 16 (ucast b2) OR push_bit 24 (ucast b3)"

lemma length_le16 [simp]: "length (le16 v) = 2"
  by (simp add: le16_def)

lemma length_le32 [simp]: "length (le32 v) = 4"
  by (simp add: le32_def)

lemma ucast_and_0xFF: "(ucast ((v :: 'a::len word) AND 0xFF) :: byte) = ucast v"
proof (rule bit_word_eqI)
  fix n assume "n < LENGTH(8)"
  moreover have "(0xFF :: 'a word) = mask 8"
    by (simp add: mask_eq_exp_minus_1)
  ultimately show "bit (ucast (v AND 0xFF) :: byte) n = bit (ucast v :: byte) n"
    by (simp only: bit_ucast_iff bit_and_iff bit_mask_iff) (auto dest: bit_imp_le_length)
qed

lemma of_le16_le16 [simp, word_bytes]:
  "of_le16 (ucast (v AND 0xFF)) (ucast (drop_bit 8 v AND 0xFF)) = (v :: 16 word)"
proof (rule bit_word_eqI)
  fix n assume n: "n < LENGTH(16)"
  show "bit (of_le16 (ucast (v AND 0xFF)) (ucast (drop_bit 8 v AND 0xFF))) n = bit v n"
    using n unfolding ucast_and_0xFF of_le16_def
    by (auto simp: bit_or_iff bit_push_bit_iff bit_drop_bit_eq bit_ucast_iff)
qed

lemma of_le32_le32 [simp, word_bytes]:
  "of_le32 (ucast (v AND 0xFF)) (ucast (drop_bit 8 v AND 0xFF))
     (ucast (drop_bit 16 v AND 0xFF)) (ucast (drop_bit 24 v AND 0xFF)) = (v :: 32 word)"
proof (rule bit_word_eqI)
  fix n assume n: "n < LENGTH(32)"
  then have "n < 8 \<or> (8 \<le> n \<and> n < 16) \<or> (16 \<le> n \<and> n < 24) \<or> (24 \<le> n \<and> n < 32)" by auto
  then show "bit (of_le32 (ucast (v AND 0xFF)) (ucast (drop_bit 8 v AND 0xFF))
     (ucast (drop_bit 16 v AND 0xFF)) (ucast (drop_bit 24 v AND 0xFF))) n = bit v n"
    unfolding ucast_and_0xFF of_le32_def
    by (elim disjE; cases "bit v n";
        simp add: bit_or_iff bit_push_bit_iff bit_drop_bit_eq bit_ucast_iff; arith)
qed

lemma byte_bit_high: "8 \<le> n \<Longrightarrow> \<not> bit (b :: byte) n"
  using bit_imp_le_length [of b n] by auto

lemma le32_of_le32 [simp, word_bytes]: "le32 (of_le32 a b c d) = [a, b, c, d]"
proof -
  have "(ucast (of_le32 a b c d) :: byte) = a"
    by (rule bit_word_eqI) (simp add: of_le32_def bit_or_iff bit_push_bit_iff bit_ucast_iff)
  moreover have "(ucast (drop_bit 8 (of_le32 a b c d)) :: byte) = b"
    by (rule bit_word_eqI)
       (simp add: of_le32_def bit_or_iff bit_push_bit_iff bit_drop_bit_eq bit_ucast_iff byte_bit_high)
  moreover have "(ucast (drop_bit 16 (of_le32 a b c d)) :: byte) = c"
    by (rule bit_word_eqI)
       (simp add: of_le32_def bit_or_iff bit_push_bit_iff bit_drop_bit_eq bit_ucast_iff byte_bit_high)
  moreover have "(ucast (drop_bit 24 (of_le32 a b c d)) :: byte) = d"
    by (rule bit_word_eqI)
       (simp add: of_le32_def bit_or_iff bit_push_bit_iff bit_drop_bit_eq bit_ucast_iff byte_bit_high)
  ultimately show ?thesis by (simp add: le32_def ucast_and_0xFF)
qed

lemma le16_of_le16 [simp, word_bytes]: "le16 (of_le16 a b) = [a, b]"
proof -
  have "(ucast (of_le16 a b) :: byte) = a"
    by (rule bit_word_eqI) (simp add: of_le16_def bit_or_iff bit_push_bit_iff bit_ucast_iff)
  moreover have "(ucast (drop_bit 8 (of_le16 a b)) :: byte) = b"
    by (rule bit_word_eqI)
       (simp add: of_le16_def bit_or_iff bit_push_bit_iff bit_drop_bit_eq bit_ucast_iff byte_bit_high)
  ultimately show ?thesis by (simp add: le16_def ucast_and_0xFF)
qed

subsection \<open>Generic lemmas on options and lists\<close>

lemma option_eqI: "(\<And>i. a = Some i \<longleftrightarrow> b = Some i) \<Longrightarrow> a = b"
  by (cases a; cases b) auto

lemma nth_list_update_if:
  "i < length xs \<Longrightarrow> xs[j := x] ! i = (if i = j then x else xs ! i)"
  by simp

lemma sum_list_update_nat:
  "i < length xs \<Longrightarrow> sum_list (xs[i := (x::nat)]) + xs ! i = sum_list xs + x"
  by (induction xs arbitrary: i) (auto split: nat.splits)

lemma sum_list_map_update:
  "i < length xs \<Longrightarrow>
   (\<Sum>y\<leftarrow>xs[i := x]. (f y :: nat)) + f (xs ! i) = (\<Sum>y\<leftarrow>xs. f y) + f x"
  by (induction xs arbitrary: i) (auto split: nat.splits)

lemma sum_list_member_le: "x \<in> set xs \<Longrightarrow> (f x :: nat) \<le> (\<Sum>y\<leftarrow>xs. f y)"
  by (induction xs) auto

end
