(* ===== verification/Froth_Crc.thy ===== *)
theory Froth_Crc
  imports Froth_Prelude
begin

section \<open>CRC-32 (froth_crc32.c)\<close>

text \<open>
  The bitwise IEEE 802.3 checksum that guards the snapshot header and payload. The inner loop
  is eight iterations of \<open>crc32_bit\<close>, the outer loop a fold over the bytes. The lemmas
  show that feeding chunks is feeding their concatenation, and that every step is injective,
  so that a change confined to one byte always changes the checksum.
\<close>

definition crc32_bit :: "32 word \<Rightarrow> 32 word" where
  "crc32_bit crc = (if crc AND 1 \<noteq> 0 then drop_bit 1 crc XOR 0xEDB88320 else drop_bit 1 crc)"

definition crc32_byte :: "byte \<Rightarrow> 32 word \<Rightarrow> 32 word" where
  "crc32_byte b crc = (crc32_bit ^^ 8) (crc XOR ucast b)"

definition froth_crc32_update :: "32 word \<Rightarrow> byte list \<Rightarrow> 32 word" where
  "froth_crc32_update crc bs = fold crc32_byte bs crc"

definition froth_crc32 :: "byte list \<Rightarrow> 32 word" where
  "froth_crc32 bs = froth_crc32_update 0xFFFFFFFF bs XOR 0xFFFFFFFF"

lemma froth_crc32_update_append [simp]:
  "froth_crc32_update crc (xs @ ys) = froth_crc32_update (froth_crc32_update crc xs) ys"
  by (simp add: froth_crc32_update_def)

lemma froth_crc32_update_Cons:
  "froth_crc32_update crc (b # bs) = froth_crc32_update (crc32_byte b crc) bs"
  by (simp add: froth_crc32_update_def)

lemma xor_right_cancel: "v XOR k = w XOR k \<longleftrightarrow> v = (w :: 'a::len word)"
  by (metis xor.assoc xor.right_neutral xor_self_eq)

lemma and_1_eq_0_iff: "(w AND 1 = (0 :: 32 word)) \<longleftrightarrow> \<not> bit w 0"
  by (simp add: bit_0 flip: even_iff_mod_2_eq_zero) (simp add: even_iff_mod_2_eq_zero and_one_eq)

text \<open>The polynomial has its top bit set, so the bit shifted out can be read off the result.\<close>

lemma crc32_bit_top: "bit (crc32_bit w) 31 \<longleftrightarrow> bit w 0"
proof -
  have "bit (0xEDB88320 :: 32 word) 31" by simp
  moreover have "\<not> bit (drop_bit 1 w) 31"
    using bit_imp_le_length [of w 32] by (auto simp: bit_drop_bit_eq)
  ultimately show ?thesis
    by (simp add: crc32_bit_def and_1_eq_0_iff bit_xor_iff)
qed

lemma crc32_bit_shift:
  "drop_bit 1 w = (if bit (crc32_bit w) 31 then crc32_bit w XOR 0xEDB88320 else crc32_bit w)"
proof (cases "bit w 0")
  case True
  then have "crc32_bit w = drop_bit 1 w XOR 0xEDB88320"
    by (simp add: crc32_bit_def and_1_eq_0_iff)
  then have eq: "crc32_bit w XOR 0xEDB88320 = drop_bit 1 w"
    by (metis xor.assoc xor.right_neutral xor_self_eq)
  from True have "bit (crc32_bit w) 31" by (simp only: crc32_bit_top)
  then show ?thesis by (simp only: if_True eq)
next
  case False
  then have "crc32_bit w = drop_bit 1 w"
    by (simp add: crc32_bit_def and_1_eq_0_iff)
  moreover from False have "\<not> bit (crc32_bit w) 31" by (simp only: crc32_bit_top not_False_eq_True)
  ultimately show ?thesis by (simp only: if_False)
qed

lemma inj_crc32_bit: "inj crc32_bit"
proof (rule injI)
  fix v w assume eq: "crc32_bit v = crc32_bit w"
  then have low: "bit v 0 = bit w 0" and shift: "drop_bit 1 v = drop_bit 1 w"
    using crc32_bit_top [of v] crc32_bit_top [of w] crc32_bit_shift [of v] crc32_bit_shift [of w]
    by simp_all
  show "v = w"
  proof (rule bit_word_eqI)
    fix n show "bit v n = bit w n"
    proof (cases n)
      case 0
      with low show ?thesis by simp
    next
      case (Suc m)
      have "bit (drop_bit 1 v) m = bit (drop_bit 1 w) m" using shift by simp
      with Suc show ?thesis by (simp add: bit_drop_bit_eq)
    qed
  qed
qed

lemma inj_crc32_byte: "inj (crc32_byte b)"
proof (rule injI)
  fix v w assume "crc32_byte b v = crc32_byte b w"
  then have "v XOR ucast b = w XOR ucast b"
    unfolding crc32_byte_def by (rule injD [OF inj_fn [OF inj_crc32_bit]])
  then show "v = w" by (simp only: xor_right_cancel)
qed

lemma inj_froth_crc32_update: "inj (\<lambda>crc. froth_crc32_update crc bs)"
proof (induction bs)
  case Nil
  then show ?case by (simp add: froth_crc32_update_def)
next
  case (Cons b bs)
  show ?case
  proof (rule injI)
    fix v w assume "froth_crc32_update v (b # bs) = froth_crc32_update w (b # bs)"
    then have "crc32_byte b v = crc32_byte b w"
      by (simp only: froth_crc32_update_Cons) (rule injD [OF Cons.IH])
    then show "v = w" by (rule injD [OF inj_crc32_byte])
  qed
qed

lemma crc32_byte_neq:
  assumes "b \<noteq> b'"
  shows "crc32_byte b crc \<noteq> crc32_byte b' crc"
proof
  assume "crc32_byte b crc = crc32_byte b' crc"
  then have "crc XOR ucast b = crc XOR ucast b'"
    unfolding crc32_byte_def by (rule injD [OF inj_fn [OF inj_crc32_bit]])
  then have "ucast b XOR crc = ucast b' XOR crc" by (simp only: xor.commute)
  then have "(ucast b :: 32 word) = ucast b'" by (simp only: xor_right_cancel)
  then have "uint (ucast b :: 32 word) = uint (ucast b' :: 32 word)" by simp
  then have "uint b = uint b'" by (simp add: uint_up_ucast is_up)
  with assms show False by (simp add: word_uint_eq_iff)
qed

lemma crc32_update_byte_change:
  assumes "b \<noteq> b'"
  shows "froth_crc32 (pre @ b # post) \<noteq> froth_crc32 (pre @ b' # post)"
proof -
  let ?c = "froth_crc32_update 0xFFFFFFFF pre"
  have "froth_crc32_update (crc32_byte b ?c) post \<noteq> froth_crc32_update (crc32_byte b' ?c) post"
    using injD [OF inj_froth_crc32_update [of post]] crc32_byte_neq [OF assms, of ?c] by blast
  then have "froth_crc32_update (crc32_byte b ?c) post XOR 0xFFFFFFFF \<noteq>
      froth_crc32_update (crc32_byte b' ?c) post XOR 0xFFFFFFFF"
    by (simp only: xor_right_cancel not_False_eq_True simp_thms)
  then show ?thesis
    by (simp only: froth_crc32_def froth_crc32_update_Cons froth_crc32_update_append) simp
qed

subsection \<open>A change within four neighbouring bytes\<close>

text \<open>The step is linear over exclusive or, and shifting the bits of a byte in from above undoes it, so four
bytes enter the checksum as one word.\<close>

lemma crc32_bit_xor: "crc32_bit (v XOR w) = crc32_bit v XOR crc32_bit w"
  unfolding crc32_bit_def and_1_eq_0_iff
  by (cases "bit v 0"; cases "bit w 0") (simp_all add: bit_xor_iff drop_bit_xor ac_simps)

lemma crc32_bits_xor: "(crc32_bit ^^ n) (v XOR w) = (crc32_bit ^^ n) v XOR (crc32_bit ^^ n) w"
  by (induction n) (simp_all add: crc32_bit_xor)

lemma crc32_bits_push:
  assumes "\<And>k. 32 - n \<le> k \<Longrightarrow> \<not> bit w k" "n \<le> 32"
  shows "(crc32_bit ^^ n) (push_bit n w) = w"
  using assms
proof (induction n arbitrary: w)
  case (Suc n)
  have "\<not> Suc n \<le> 0" by simp
  then have low: "\<not> bit (push_bit (Suc n) w) 0" by (auto simp only: bit_push_bit_iff)
  have "drop_bit 1 (push_bit (Suc n) w) = push_bit n w"
  proof (rule bit_word_eqI)
    fix k assume "k < LENGTH(32)"
    then show "bit (drop_bit 1 (push_bit (Suc n) w)) k = bit (push_bit n w) k"
      using Suc.prems(1) [of "k - n"] Suc.prems(2)
      by (cases "k = 31") (auto simp: bit_drop_bit_eq bit_push_bit_iff possible_bit_word simp del: push_bit_Suc)
  qed
  then have "crc32_bit (push_bit (Suc n) w) = push_bit n w"
    using low by (simp add: crc32_bit_def and_1_eq_0_iff)
  then have "(crc32_bit ^^ Suc n) (push_bit (Suc n) w) = (crc32_bit ^^ n) (push_bit n w)"
    by (simp only: funpow_Suc_right o_apply)
  then show ?case using Suc.IH [of w] Suc.prems by (simp add: Suc_diff_le)
qed simp

lemma crc32_byte_push:
  assumes "n \<le> 24"
  shows "crc32_byte b ((crc32_bit ^^ n) v) = (crc32_bit ^^ (8 + n)) (v XOR push_bit n (ucast b))"
proof -
  have "(crc32_bit ^^ n) (push_bit n (ucast b)) = (ucast b :: 32 word)"
    using assms by (intro crc32_bits_push) (auto simp: bit_ucast_iff byte_bit_high)
  then show ?thesis
    by (simp only: crc32_byte_def funpow_add o_apply crc32_bits_xor [of n])
qed

lemma crc32_word:
  "fold crc32_byte [a, b, c, d] crc = (crc32_bit ^^ 32) (crc XOR of_le32 a b c d)"
proof -
  have join: "of_le32 a b c d = ucast a XOR push_bit 8 (ucast b) XOR push_bit 16 (ucast c) XOR push_bit 24 (ucast d)"
  proof (rule bit_word_eqI)
    fix n assume "n < LENGTH(32)"
    then have "n < 8 \<or> (\<exists>m. n = m + 8 \<and> m < 8) \<or> (\<exists>m. n = m + 16 \<and> m < 8) \<or> (\<exists>m. n = m + 24 \<and> m < 8)"
      by simp presburger
    then show "bit (of_le32 a b c d) n =
        bit (ucast a XOR push_bit 8 (ucast b) XOR push_bit 16 (ucast c) XOR push_bit 24 (ucast d) :: 32 word) n"
      by (elim disjE exE)
         (simp_all add: of_le32_def bit_or_iff bit_xor_iff bit_push_bit_iff bit_ucast_iff byte_bit_high)
  qed
  have step: "crc32_byte a crc = (crc32_bit ^^ 8) (crc XOR ucast a)" by (simp add: crc32_byte_def)
  have "fold crc32_byte [a, b, c, d] crc =
      (crc32_bit ^^ (8 + (8 + (8 + 8)))) (crc XOR ucast a XOR push_bit 8 (ucast b)
         XOR push_bit (8 + 8) (ucast c) XOR push_bit (8 + (8 + 8)) (ucast d))"
    by (simp only: fold_simps o_apply id_apply step crc32_byte_push [where n = 8]
        crc32_byte_push [where n = "8 + 8"] crc32_byte_push [where n = "8 + (8 + 8)"]) (simp add: xor.assoc)
  moreover have "crc XOR ucast a XOR push_bit 8 (ucast b) XOR push_bit (8 + 8) (ucast c) XOR
      push_bit (8 + (8 + 8)) (ucast d) = crc XOR of_le32 a b c d"
    by (simp add: join)
  moreover have "8 + (8 + (8 + 8)) = (32 :: nat)" by simp
  ultimately show ?thesis by (simp only: xor.assoc)
qed

lemma crc32_word_change:
  assumes "froth_crc32 (pre @ [a, b, c, d] @ post) = froth_crc32 (pre @ [a', b', c', d'] @ post)"
  shows "[a, b, c, d] = [a', b', c', d']"
proof -
  have "froth_crc32_update (fold crc32_byte [a, b, c, d] (froth_crc32_update 0xFFFFFFFF pre)) post =
      froth_crc32_update (fold crc32_byte [a', b', c', d'] (froth_crc32_update 0xFFFFFFFF pre)) post"
    using assms unfolding froth_crc32_def froth_crc32_update_append xor_right_cancel
    by (simp only: froth_crc32_update_def)
  then have "fold crc32_byte [a, b, c, d] (froth_crc32_update 0xFFFFFFFF pre) =
      fold crc32_byte [a', b', c', d'] (froth_crc32_update 0xFFFFFFFF pre)"
    by (rule injD [OF inj_froth_crc32_update])
  then have "froth_crc32_update 0xFFFFFFFF pre XOR of_le32 a b c d =
      froth_crc32_update 0xFFFFFFFF pre XOR of_le32 a' b' c' d'"
    unfolding crc32_word by (rule injD [OF inj_fn [OF inj_crc32_bit]])
  then have "of_le32 a b c d = of_le32 a' b' c' d'"
    by (simp only: xor.commute [of "froth_crc32_update _ _"] xor_right_cancel)
  then show ?thesis by (metis le32_of_le32)
qed

subsection \<open>Changed bytes\<close>

lemma crc32_list_update:
  assumes "i < length bs" "b \<noteq> bs ! i"
  shows "froth_crc32 (bs[i := b]) \<noteq> froth_crc32 bs"
  using crc32_update_byte_change [OF assms(2), of "take i bs" "drop (Suc i) bs"] assms(1)
  by (simp add: upd_conv_take_nth_drop id_take_nth_drop [symmetric])

text \<open>C32. Feeding a stream in chunks is feeding their concatenation, and a payload whose
  bytes differ from the checksummed one in exactly one position never has the same checksum:
  a corrupted byte of a stored snapshot is always detected.\<close>

theorem crc32_detects_byte_change:
  assumes "b \<noteq> b'"
  shows "froth_crc32 (pre @ b # post) \<noteq> froth_crc32 (pre @ b' # post) \<and>
         froth_crc32_update 0xFFFFFFFF (pre @ b # post) =
           froth_crc32_update (froth_crc32_update 0xFFFFFFFF pre) (b # post)"
  using crc32_update_byte_change [OF assms] by simp

theorem crc32_detects_byte_change_witness:
  "froth_crc32 [1, 2, 3] \<noteq> froth_crc32 [1, 7, 3]"
  using crc32_detects_byte_change [of 2 7 "[1]" "[3]"] by simp

lemma crc32_byte_unfold:
  "crc32_byte b crc = crc32_bit (crc32_bit (crc32_bit (crc32_bit (crc32_bit (crc32_bit
     (crc32_bit (crc32_bit (crc XOR ucast b))))))))"
  by (simp add: crc32_byte_def eval_nat_numeral)

text \<open>The standard check value of the CRC-32 catalogue, for the nine digits.\<close>

lemma crc32_check_value:
  "froth_crc32 [0x31, 0x32, 0x33, 0x34, 0x35, 0x36, 0x37, 0x38, 0x39] = 0xCBF43926"
  by (simp add: froth_crc32_def froth_crc32_update_def crc32_byte_unfold crc32_bit_def)

end
