(* ===== verification/Froth_Heap.thy ===== *)
theory Froth_Heap
  imports Froth_Prelude
begin

section \<open>The name heap (froth_heap.c)\<close>

text \<open>
  A bump allocator over \<open>FROTH_HEAP_SIZE\<close> bytes. Offsets are the code's 32-bit unsigned
  cells, so the alignment arithmetic of \<open>froth_heap_allocate_cells\<close> is done in words and
  could wrap; the lemmas show that with a well-formed pointer it does not.
\<close>

definition FROTH_HEAP_SIZE :: "32 word" where "FROTH_HEAP_SIZE = 6144"
definition SIZEOF_CELL :: "32 word" where "SIZEOF_CELL = 4"

record froth_heap =
  heap_data :: "byte list"
  heap_pointer :: "32 word"
  heap_high_water :: "32 word"

definition froth_heap_allocate_bytes ::
  "32 word \<Rightarrow> froth_heap \<Rightarrow> 32 word result \<times> froth_heap" where
  "froth_heap_allocate_bytes sz heap =
     (if FROTH_HEAP_SIZE < sz \<or> FROTH_HEAP_SIZE - sz < heap_pointer heap
      then (Inl FROTH_ERROR_HEAP_OUT_OF_MEMORY, heap)
      else let start = heap_pointer heap;
               p = heap_pointer heap + sz
           in (Inr start, heap\<lparr>heap_pointer := p,
                 heap_high_water := (if heap_high_water heap < p then p
                                     else heap_high_water heap)\<rparr>))"

definition froth_heap_allocate_cells ::
  "32 word \<Rightarrow> froth_heap \<Rightarrow> 32 word result \<times> froth_heap" where
  "froth_heap_allocate_cells count heap =
     (let alignment = SIZEOF_CELL - 1;
          aligned = (heap_pointer heap + alignment) AND NOT alignment
      in if FROTH_HEAP_SIZE div SIZEOF_CELL < count \<or> FROTH_HEAP_SIZE < aligned
         then (Inl FROTH_ERROR_HEAP_OUT_OF_MEMORY, heap)
         else let requested = count * SIZEOF_CELL in
           if FROTH_HEAP_SIZE - aligned < requested
           then (Inl FROTH_ERROR_HEAP_OUT_OF_MEMORY, heap)
           else let p = aligned + count * SIZEOF_CELL
             in (Inr aligned, heap\<lparr>heap_pointer := p,
                   heap_high_water := (if heap_high_water heap < p then p
                                       else heap_high_water heap)\<rparr>))"

definition froth_heap_debug_reset_high_water :: "froth_heap \<Rightarrow> froth_heap" where
  "froth_heap_debug_reset_high_water heap = heap\<lparr>heap_high_water := heap_pointer heap\<rparr>"

definition heap_wf :: "froth_heap \<Rightarrow> bool" where
  "heap_wf heap \<longleftrightarrow> heap_pointer heap \<le> heap_high_water heap \<and>
     heap_high_water heap \<le> FROTH_HEAP_SIZE \<and>
     length (heap_data heap) = unat FROTH_HEAP_SIZE"

lemma unat_heap_size: "unat FROTH_HEAP_SIZE = 6144"
  by (simp add: FROTH_HEAP_SIZE_def)

lemma unat_plus_le:
  fixes a b c :: "32 word"
  assumes "a \<le> c" "b \<le> c - a"
  shows "unat (b + a) = unat b + unat a" "b + a \<le> c"
proof -
  have "unat (c - a) = unat c - unat a" using assms(1) by (simp add: unat_sub)
  then have "unat b + unat a \<le> unat c"
    using assms by (simp add: word_le_nat_alt)
  moreover have "unat c < 2 ^ LENGTH(32)" by (rule unsigned_less)
  ultimately show "unat (b + a) = unat b + unat a"
    by (simp add: unat_word_ariths)
  with \<open>unat b + unat a \<le> unat c\<close> show "b + a \<le> c" by (simp add: word_le_nat_alt)
qed

lemma allocate_bytes_Inr:
  assumes "heap_wf heap" "froth_heap_allocate_bytes sz heap = (Inr start, heap')"
  shows "unat (heap_pointer heap) + unat sz \<le> unat FROTH_HEAP_SIZE"
    and "start = heap_pointer heap" and "unat (heap_pointer heap') = unat start + unat sz"
    and "heap_data heap' = heap_data heap" and "heap_wf heap'"
proof -
  from assms(2) have le: "sz \<le> FROTH_HEAP_SIZE" "heap_pointer heap \<le> FROTH_HEAP_SIZE - sz"
    by (auto simp: froth_heap_allocate_bytes_def Let_def split: if_splits)
  note sum = unat_plus_le [OF le]
  then show "unat (heap_pointer heap) + unat sz \<le> unat FROTH_HEAP_SIZE"
    by (simp add: word_le_nat_alt)
  show "start = heap_pointer heap" "unat (heap_pointer heap') = unat start + unat sz"
    "heap_data heap' = heap_data heap" "heap_wf heap'"
    using assms sum
    by (auto simp: froth_heap_allocate_bytes_def heap_wf_def Let_def split: if_splits)
qed

lemma allocate_bytes_Inl:
  assumes "froth_heap_allocate_bytes sz heap = (Inl e, heap')"
  shows "unat FROTH_HEAP_SIZE < unat (heap_pointer heap) + unat sz"
    and "e = FROTH_ERROR_HEAP_OUT_OF_MEMORY" and "heap' = heap"
proof -
  have no: "FROTH_HEAP_SIZE < sz \<or> FROTH_HEAP_SIZE - sz < heap_pointer heap"
    using assms by (auto simp: froth_heap_allocate_bytes_def Let_def split: if_splits)
  show "unat FROTH_HEAP_SIZE < unat (heap_pointer heap) + unat sz"
  proof (cases "FROTH_HEAP_SIZE < sz")
    case True
    then show ?thesis by (simp add: word_less_nat_alt)
  next
    case False
    then have "unat (FROTH_HEAP_SIZE - sz) = unat FROTH_HEAP_SIZE - unat sz"
      by (simp add: unat_sub)
    with False no show ?thesis by (auto simp: word_less_nat_alt)
  qed
  show "e = FROTH_ERROR_HEAP_OUT_OF_MEMORY" "heap' = heap"
    using assms by (auto simp: froth_heap_allocate_bytes_def Let_def split: if_splits)
qed

text \<open>C31. An allocation of bytes succeeds exactly when the request fits behind the pointer;
  then it returns the old pointer, the new pointer is the sum without wrap-around and stays
  within the heap, and the bytes stored so far are untouched; a failed one changes nothing.\<close>

theorem heap_allocate_bytes_spec:
  assumes "heap_wf heap"
  shows "case froth_heap_allocate_bytes sz heap of
      (Inr start, heap') \<Rightarrow>
        unat (heap_pointer heap) + unat sz \<le> unat FROTH_HEAP_SIZE \<and>
        start = heap_pointer heap \<and>
        unat (heap_pointer heap') = unat start + unat sz \<and>
        heap_data heap' = heap_data heap \<and> heap_wf heap'
    | (Inl e, heap') \<Rightarrow>
        unat FROTH_HEAP_SIZE < unat (heap_pointer heap) + unat sz \<and>
        e = FROTH_ERROR_HEAP_OUT_OF_MEMORY \<and> heap' = heap"
proof -
  obtain r heap' where eq: "froth_heap_allocate_bytes sz heap = (r, heap')" by fastforce
  show ?thesis
    using allocate_bytes_Inl [of sz heap _ heap'] allocate_bytes_Inr [OF assms, of sz _ heap']
    by (cases r) (simp_all add: eq)
qed

definition empty_heap :: froth_heap where
  "empty_heap = \<lparr>heap_data = replicate 6144 0, heap_pointer = 0, heap_high_water = 0\<rparr>"

lemma heap_wf_empty [wf_intros]: "heap_wf empty_heap"
  by (simp add: heap_wf_def empty_heap_def FROTH_HEAP_SIZE_def)

theorem heap_allocate_bytes_spec_witness:
  "heap_wf empty_heap \<and> heap_wf (snd (froth_heap_allocate_bytes 12 empty_heap))"
proof -
  have ok: "froth_heap_allocate_bytes 12 empty_heap =
      (Inr 0, empty_heap\<lparr>heap_pointer := 12, heap_high_water := 12\<rparr>)"
    by (simp add: froth_heap_allocate_bytes_def empty_heap_def FROTH_HEAP_SIZE_def Let_def)
  show ?thesis
    using heap_allocate_bytes_spec [OF heap_wf_empty, of 12] heap_wf_empty by (simp add: ok)
qed

end
