(* ===== verification/Froth_Cellspace.thy ===== *)
theory Froth_Cellspace
  imports Froth_Prelude
begin

section \<open>The cell space (froth_cellspace.c)\<close>

text \<open>
  A fixed array of 32-bit cells with a bump pointer \<open>used\<close>, and a seed: the prefix of
  cells that belongs to the base image, kept in a second array so that a reset can put it back.
  Indices and counts are the code's signed cells, here \<open>int\<close>; the counters are unsigned
  cells, here \<open>nat\<close>, and \<open>cellspace_wf\<close> bounds them below \<open>2 ^ 31\<close>, so neither
  the sums nor the signed/unsigned comparisons of the code can wrap.
\<close>

type_synonym cell = "32 word"

record froth_cellspace =
  cs_data :: "cell list"
  cs_base_seed :: "cell list"
  cs_used :: nat
  cs_high_water :: nat
  cs_capacity :: nat
  cs_base_mark :: nat

definition froth_cellspace_init :: "froth_cellspace \<Rightarrow> froth_cellspace" where
  "froth_cellspace_init cs = cs\<lparr>cs_used := 0, cs_high_water := 0, cs_base_mark := 0,
     cs_data := replicate (cs_capacity cs) 0, cs_base_seed := replicate (cs_capacity cs) 0\<rparr>"

definition froth_cellspace_allot ::
  "int \<Rightarrow> froth_cellspace \<Rightarrow> nat result \<times> froth_cellspace" where
  "froth_cellspace_allot count cs =
     (if count < 0 then (Inl FROTH_ERROR_BOUNDS, cs)
      else let requested = nat count in
        if cs_capacity cs < requested \<or> cs_capacity cs - requested < cs_used cs
        then (Inl FROTH_ERROR_CELLSPACE_FULL, cs)
        else let used' = cs_used cs + requested in
          (Inr (cs_used cs),
           cs\<lparr>cs_data := store_at (cs_data cs) (cs_used cs) (replicate requested 0),
              cs_used := used',
              cs_high_water := (if cs_high_water cs < used' then used' else cs_high_water cs)\<rparr>))"

definition froth_cellspace_fetch :: "froth_cellspace \<Rightarrow> int \<Rightarrow> cell result" where
  "froth_cellspace_fetch cs index =
     (if index < 0 \<or> int (cs_used cs) \<le> index then Inl FROTH_ERROR_BOUNDS
      else Inr (cs_data cs ! nat index))"

definition froth_cellspace_store ::
  "int \<Rightarrow> cell \<Rightarrow> froth_cellspace \<Rightarrow> unit result \<times> froth_cellspace" where
  "froth_cellspace_store index val cs =
     (if index < 0 \<or> int (cs_used cs) \<le> index then (Inl FROTH_ERROR_BOUNDS, cs)
      else (Inr (), cs\<lparr>cs_data := (cs_data cs)[nat index := val]\<rparr>))"

definition froth_cellspace_capture_base_seed :: "froth_cellspace \<Rightarrow> froth_cellspace" where
  "froth_cellspace_capture_base_seed cs =
     cs\<lparr>cs_base_seed := store_at (cs_base_seed cs) 0 (take (cs_used cs) (cs_data cs)),
        cs_base_mark := cs_used cs,
        cs_high_water := (if cs_high_water cs < cs_used cs then cs_used cs
                          else cs_high_water cs)\<rparr>"

definition froth_cellspace_reset_to_base :: "froth_cellspace \<Rightarrow> froth_cellspace" where
  "froth_cellspace_reset_to_base cs =
     cs\<lparr>cs_data := store_at (cs_data cs) 0 (take (cs_base_mark cs) (cs_base_seed cs)),
        cs_used := cs_base_mark cs\<rparr>"

definition froth_cellspace_debug_reset_high_water :: "froth_cellspace \<Rightarrow> froth_cellspace" where
  "froth_cellspace_debug_reset_high_water cs = cs\<lparr>cs_high_water := cs_used cs\<rparr>"

subsection \<open>Well-formedness and the operations that keep it\<close>

definition cellspace_wf :: "froth_cellspace \<Rightarrow> bool" where
  "cellspace_wf cs \<longleftrightarrow> length (cs_data cs) = cs_capacity cs \<and>
     length (cs_base_seed cs) = cs_capacity cs \<and> cs_used cs \<le> cs_capacity cs \<and>
     cs_base_mark cs \<le> cs_capacity cs \<and> cs_capacity cs \<le> INT32_MAX"

lemma cellspace_wf_init [wf_intros]:
  "cs_capacity cs \<le> INT32_MAX \<Longrightarrow> cellspace_wf (froth_cellspace_init cs)"
  by (simp add: cellspace_wf_def froth_cellspace_init_def)

lemma cellspace_wf_allot [wf_intros]:
  "cellspace_wf cs \<Longrightarrow> cellspace_wf (snd (froth_cellspace_allot count cs))"
  by (auto simp: cellspace_wf_def froth_cellspace_allot_def Let_def)

lemma cellspace_wf_store [wf_intros]:
  "cellspace_wf cs \<Longrightarrow> cellspace_wf (snd (froth_cellspace_store index v cs))"
  by (auto simp: cellspace_wf_def froth_cellspace_store_def)

lemma cellspace_wf_capture [wf_intros]:
  "cellspace_wf cs \<Longrightarrow> cellspace_wf (froth_cellspace_capture_base_seed cs)"
  by (auto simp: cellspace_wf_def froth_cellspace_capture_base_seed_def)

lemma cellspace_wf_reset [wf_intros]:
  "cellspace_wf cs \<Longrightarrow> cellspace_wf (froth_cellspace_reset_to_base cs)"
  by (auto simp: cellspace_wf_def froth_cellspace_reset_to_base_def)

text \<open>C29. An allotment succeeds exactly when the count is non-negative and fits; the cells it
  returns start at the old end, are zero, and lie inside the array; cells in use keep their
  contents; a refused allotment changes nothing and names the reason.\<close>

theorem cellspace_allot_spec:
  assumes "cellspace_wf cs"
  shows "case froth_cellspace_allot count cs of
      (Inr base, cs') \<Rightarrow> 0 \<le> count \<and> base = cs_used cs \<and>
        int (cs_used cs') = int base + count \<and> cs_used cs' \<le> cs_capacity cs' \<and>
        load_at (cs_data cs') base (nat count) = replicate (nat count) 0 \<and>
        take (cs_used cs) (cs_data cs') = take (cs_used cs) (cs_data cs) \<and> cellspace_wf cs'
    | (Inl e, cs') \<Rightarrow> cs' = cs \<and>
        (if count < 0 then e = FROTH_ERROR_BOUNDS
         else e = FROTH_ERROR_CELLSPACE_FULL \<and>
              int (cs_capacity cs) < int (cs_used cs) + count)"
proof -
  have "load_at (store_at (cs_data cs) (cs_used cs) (replicate n 0)) (cs_used cs) n =
      replicate n 0" if "cs_used cs + n \<le> cs_capacity cs" for n
    using load_store_same [of "cs_used cs" "replicate n 0" "cs_data cs"] that assms
    by (simp add: cellspace_wf_def)
  then show ?thesis
    using assms cellspace_wf_allot [OF assms, of count]
    by (auto simp: froth_cellspace_allot_def Let_def store_at_def cellspace_wf_def)
qed

definition sample_cellspace :: froth_cellspace where
  "sample_cellspace = froth_cellspace_init
     \<lparr>cs_data = [], cs_base_seed = [], cs_used = 0, cs_high_water = 0, cs_capacity = 256,
      cs_base_mark = 0\<rparr>"

lemma cellspace_wf_sample: "cellspace_wf sample_cellspace"
  unfolding sample_cellspace_def by (rule cellspace_wf_init) (simp add: INT32_MAX_def)

theorem cellspace_allot_spec_witness:
  "cellspace_wf sample_cellspace \<and>
   cs_used (snd (froth_cellspace_allot 3 sample_cellspace)) = 3"
proof -
  have "cs_used sample_cellspace = 0" "cs_capacity sample_cellspace = 256"
    by (simp_all add: sample_cellspace_def froth_cellspace_init_def)
  then show ?thesis
    using cellspace_allot_spec [OF cellspace_wf_sample, of 3] cellspace_wf_sample
    by (auto split: prod.splits sum.splits)
qed

subsection \<open>The base seed survives every later operation\<close>

text \<open>The operations user code can trigger between the capture of the seed and a reset.\<close>

inductive cellspace_step :: "froth_cellspace \<Rightarrow> froth_cellspace \<Rightarrow> bool" where
  step_allot: "cellspace_step cs (snd (froth_cellspace_allot count cs))"
| step_store: "cellspace_step cs (snd (froth_cellspace_store index v cs))"
| step_reset: "cellspace_step cs (froth_cellspace_reset_to_base cs)"
| step_high_water: "cellspace_step cs (froth_cellspace_debug_reset_high_water cs)"

definition same_seed :: "froth_cellspace \<Rightarrow> froth_cellspace \<Rightarrow> bool" where
  "same_seed cs cs' \<longleftrightarrow> cs_base_seed cs' = cs_base_seed cs \<and>
     cs_base_mark cs' = cs_base_mark cs \<and> cs_capacity cs' = cs_capacity cs"

lemma cellspace_step_seed:
  "cellspace_step cs cs' \<Longrightarrow> cellspace_wf cs \<Longrightarrow> cellspace_wf cs' \<and> same_seed cs cs'"
  by (induction rule: cellspace_step.induct)
     (auto intro: wf_intros simp: same_seed_def froth_cellspace_allot_def
        froth_cellspace_store_def froth_cellspace_reset_to_base_def
        froth_cellspace_debug_reset_high_water_def cellspace_wf_def Let_def)

lemma cellspace_steps_seed:
  "cellspace_step\<^sup>*\<^sup>* cs cs' \<Longrightarrow> cellspace_wf cs \<Longrightarrow> cellspace_wf cs' \<and> same_seed cs cs'"
proof (induction rule: rtranclp_induct)
  case base
  then show ?case by (simp add: same_seed_def)
next
  case (step cs1 cs2)
  then show ?case using cellspace_step_seed [of cs1 cs2] by (auto simp: same_seed_def)
qed

text \<open>C30. Whatever user code allots, stores or resets after the base seed was captured, a reset
  gives back exactly the cells in use at the capture, with their contents.\<close>

theorem reset_restores_captured_seed:
  assumes "cellspace_wf cs"
    and "cellspace_step\<^sup>*\<^sup>* (froth_cellspace_capture_base_seed cs) cs'"
  shows "cs_used (froth_cellspace_reset_to_base cs') = cs_used cs \<and>
    take (cs_used cs) (cs_data (froth_cellspace_reset_to_base cs')) =
      take (cs_used cs) (cs_data cs)"
proof -
  let ?c = "froth_cellspace_capture_base_seed cs"
  have "cellspace_wf cs' \<and> same_seed ?c cs'"
    using cellspace_steps_seed [OF assms(2)] cellspace_wf_capture [OF assms(1)] by blast
  with assms(1) show ?thesis
    by (auto simp: same_seed_def froth_cellspace_reset_to_base_def cellspace_wf_def
        froth_cellspace_capture_base_seed_def store_at_def)
qed

theorem reset_restores_captured_seed_witness:
  "cs_used (froth_cellspace_reset_to_base
     (snd (froth_cellspace_allot 5 (froth_cellspace_capture_base_seed sample_cellspace)))) = 0"
proof -
  have "cellspace_step\<^sup>*\<^sup>* (froth_cellspace_capture_base_seed sample_cellspace)
     (snd (froth_cellspace_allot 5 (froth_cellspace_capture_base_seed sample_cellspace)))"
    by (rule r_into_rtranclp) (rule step_allot)
  from reset_restores_captured_seed [OF cellspace_wf_sample this] show ?thesis
    by (simp add: sample_cellspace_def froth_cellspace_init_def)
qed

end
