(* ===== verification/Froth_Name_Table.thy ===== *)
theory Froth_Name_Table
  imports Froth_Prelude
begin

section \<open>The interface of a table of interned names\<close>

text \<open>
  Two components give names stable numbers: the slot table (a name is looked up and, when it
  is missing, a slot is created for it) and the symbol table of the snapshot encoder. Their
  clients rely on the same contract, stated here once: \<open>find\<close> looks a name up,
  \<open>create\<close> appends a missing one, \<open>intern\<close> is the code's find-or-create. What the
  clients need follows inside the locale: a name keeps its number through every later
  interning, different names get different numbers, and interning twice is interning once.
\<close>

locale name_table =
  fixes find :: "'s \<Rightarrow> 'k \<Rightarrow> nat option"
    and create :: "'k \<Rightarrow> 's \<Rightarrow> nat result \<times> 's"
    and intern :: "'k \<Rightarrow> 's \<Rightarrow> nat result \<times> 's"
    and inv :: "'s \<Rightarrow> bool"
    and valid :: "'k \<Rightarrow> bool"
  assumes intern_eq:
      "inv s \<Longrightarrow> valid k \<Longrightarrow> intern k s = (case find s k of Some i \<Rightarrow> (Inr i, s) | None \<Rightarrow> create k s)"
    and create_find:
      "inv s \<Longrightarrow> valid k \<Longrightarrow> find s k = None \<Longrightarrow> create k s = (Inr i, s') \<Longrightarrow>
       find s' = (find s)(k := Some i)"
    and create_inv:
      "inv s \<Longrightarrow> valid k \<Longrightarrow> find s k = None \<Longrightarrow> create k s = (Inr i, s') \<Longrightarrow> inv s'"
    and create_fresh:
      "inv s \<Longrightarrow> valid k \<Longrightarrow> find s k = None \<Longrightarrow> create k s = (Inr i, s') \<Longrightarrow>
       find s k' \<noteq> Some i"
    and create_error: "inv s \<Longrightarrow> create k s = (Inl e, s') \<Longrightarrow> s' = s"
begin

lemma intern_error: "inv s \<Longrightarrow> valid k \<Longrightarrow> intern k s = (Inl e, s') \<Longrightarrow> s' = s \<and> find s k = None"
  by (auto simp: intern_eq dest: create_error split: option.splits)

lemma intern_inv: "inv s \<Longrightarrow> valid k \<Longrightarrow> intern k s = (r, s') \<Longrightarrow> inv s'"
  by (cases r) (auto simp: intern_eq dest: create_error create_inv split: option.splits)

lemma intern_find:
  "inv s \<Longrightarrow> valid k \<Longrightarrow> intern k s = (Inr i, s') \<Longrightarrow> find s' = (find s)(k := Some i)"
  by (auto simp: intern_eq fun_upd_idem_iff dest: create_find split: option.splits)

lemma intern_stable:
  assumes "inv s" "valid k" "intern k s = (r, s')" "find s k' = Some j"
  shows "find s' k' = Some j"
proof (cases r)
  case (Inl e)
  with assms intern_error [of s k e s'] show ?thesis by auto
next
  case (Inr i)
  with assms(1-3) have "find s' = (find s)(k := Some i)"
    using intern_find by blast
  moreover have "i = j" if "k = k'"
    using that assms Inr by (auto simp: intern_eq)
  ultimately show ?thesis using assms(4) by auto
qed

lemma intern_idem:
  "inv s \<Longrightarrow> valid k \<Longrightarrow> intern k s = (Inr i, s') \<Longrightarrow> intern k s' = (Inr i, s')"
  using intern_find [of s k i s'] intern_inv [of s k "Inr i" s'] by (auto simp: intern_eq)

lemma intern_fresh:
  "inv s \<Longrightarrow> valid k \<Longrightarrow> find s k = None \<Longrightarrow> intern k s = (Inr i, s') \<Longrightarrow> find s k' \<noteq> Some i"
  by (auto simp: intern_eq dest: create_fresh)

text \<open>Interning a list of names, the first failure stopping it.\<close>

primrec intern_all :: "'k list \<Rightarrow> 's \<Rightarrow> nat list result \<times> 's" where
  "intern_all [] s = (Inr [], s)"
| "intern_all (k # ks) s =
     (case intern k s of
        (Inl e, s') \<Rightarrow> (Inl e, s')
      | (Inr i, s') \<Rightarrow>
          (case intern_all ks s' of
             (Inl e, s'') \<Rightarrow> (Inl e, s'')
           | (Inr ns, s'') \<Rightarrow> (Inr (i # ns), s'')))"

lemma intern_all_stable:
  "inv s \<Longrightarrow> \<forall>k \<in> set ks. valid k \<Longrightarrow> intern_all ks s = (r, s') \<Longrightarrow> find s k' = Some j \<Longrightarrow>
   inv s' \<and> find s' k' = Some j"
proof (induction ks arbitrary: s r)
  case (Cons k ks)
  obtain q s1 where q: "intern k s = (q, s1)" by fastforce
  then have "inv s1" "find s1 k' = Some j"
    using Cons.prems intern_inv intern_stable by auto
  with Cons q show ?case by (auto split: sum.splits prod.splits)
qed simp

text \<open>Every name of the list is found under the number it was given, at the end.\<close>

lemma intern_all_found:
  "inv s \<Longrightarrow> \<forall>k \<in> set ks. valid k \<Longrightarrow> intern_all ks s = (Inr ns, s') \<Longrightarrow>
   map (find s') ks = map Some ns"
proof (induction ks arbitrary: s ns)
  case (Cons k ks)
  obtain i s1 js where i: "intern k s = (Inr i, s1)"
    and js: "intern_all ks s1 = (Inr js, s')" and ns: "ns = i # js"
    using Cons.prems(3) by (auto split: sum.splits prod.splits)
  have "inv s1" "find s1 k = Some i"
    using i Cons.prems intern_inv intern_find by (auto simp: fun_upd_same)
  moreover from this have "find s' k = Some i"
    using intern_all_stable [of s1 ks "Inr js" s' k i] js Cons.prems(2) by simp
  ultimately show ?case using Cons.IH [of s1 js] Cons.prems(2) js ns by simp
qed simp

end

end
