(* ===== verification/Froth_Slots.thy ===== *)
theory Froth_Slots
  imports Froth_Heap Froth_Cellspace Froth_Name_Table
begin

section \<open>The slot table (froth_slot_table.c)\<close>

text \<open>
  The table of named slots: an array of \<open>FROTH_SLOT_TABLE_SIZE\<close> entries filled up to
  \<open>slot_pointer\<close>. A name is a pointer into the name heap, so the operations that read or
  create names take the heap as well; \<open>sl_name = None\<close> is the code's NULL name, a hole left
  by a reset. The locale \<open>name_table\<close> is interpreted here on find-or-create.
\<close>

definition FROTH_SLOT_TABLE_SIZE :: nat where "FROTH_SLOT_TABLE_SIZE = 128"
definition FROTH_SLOT_ARITY_UNKNOWN :: byte where "FROTH_SLOT_ARITY_UNKNOWN = 0xFF"

record froth_slot =
  sl_name :: "nat option"
  sl_impl :: cell
  sl_prim :: "nat option"
  sl_overlay :: byte
  sl_impl_bound :: byte
  sl_in_arity :: byte
  sl_out_arity :: byte

record slot_table =
  st_slots :: "froth_slot list"
  st_pointer :: nat
  st_high_water :: nat

definition zero_slot :: froth_slot where
  "zero_slot = \<lparr>sl_name = None, sl_impl = 0, sl_prim = None, sl_overlay = 0, sl_impl_bound = 0,
     sl_in_arity = 0, sl_out_arity = 0\<rparr>"

definition index_has_slot_assigned :: "slot_table \<Rightarrow> nat \<Rightarrow> bool" where
  "index_has_slot_assigned t i \<longleftrightarrow> i < st_pointer t \<and> sl_name (st_slots t ! i) \<noteq> None"

definition slot_name_at :: "froth_heap \<Rightarrow> nat \<Rightarrow> byte list" where
  "slot_name_at heap off = c_string (drop off (heap_data heap))"

definition froth_slot_name_matches :: "froth_heap \<Rightarrow> nat \<Rightarrow> byte list \<Rightarrow> bool" where
  "froth_slot_name_matches heap off name \<longleftrightarrow>
     length (slot_name_at heap off) = length name \<and> slot_name_at heap off = name"

fun slot_find_loop :: "froth_heap \<Rightarrow> byte list \<Rightarrow> froth_slot list \<Rightarrow> nat \<Rightarrow> nat result" where
  "slot_find_loop heap name [] ip = Inl FROTH_ERROR_UNDEFINED_WORD"
| "slot_find_loop heap name (s # ss) ip =
     (case sl_name s of
        None \<Rightarrow> slot_find_loop heap name ss (Suc ip)
      | Some off \<Rightarrow> if froth_slot_name_matches heap off name then Inr ip
                    else slot_find_loop heap name ss (Suc ip))"

definition froth_slot_find_name_n :: "froth_heap \<Rightarrow> slot_table \<Rightarrow> byte list \<Rightarrow> nat result" where
  "froth_slot_find_name_n heap t name =
     slot_find_loop heap name (take (st_pointer t) (st_slots t)) 0"

definition froth_slot_create_n ::
  "byte list \<Rightarrow> froth_heap \<times> slot_table \<Rightarrow> nat result \<times> (froth_heap \<times> slot_table)" where
  "froth_slot_create_n name = (\<lambda>(heap, t).
     if FROTH_SLOT_TABLE_SIZE \<le> st_pointer t
     then (Inl FROTH_ERROR_SLOT_TABLE_FULL, (heap, t))
     else case froth_heap_allocate_bytes (word_of_nat (length name + 1)) heap of
         (Inl e, heap') \<Rightarrow> (Inl FROTH_ERROR_HEAP_OUT_OF_MEMORY, (heap', t))
       | (Inr loc, heap') \<Rightarrow>
           let heap'' = heap'\<lparr>heap_data := store_at (heap_data heap') (unat loc) (name @ [0])\<rparr>;
               slot = \<lparr>sl_name = Some (unat loc), sl_impl = 0, sl_prim = None, sl_overlay = 0,
                       sl_impl_bound = 0, sl_in_arity = FROTH_SLOT_ARITY_UNKNOWN,
                       sl_out_arity = FROTH_SLOT_ARITY_UNKNOWN\<rparr>;
               p = Suc (st_pointer t)
           in (Inr (st_pointer t),
               (heap'', t\<lparr>st_slots := (st_slots t)[st_pointer t := slot], st_pointer := p,
                  st_high_water := (if st_high_water t < p then p else st_high_water t)\<rparr>)))"

definition froth_slot_find_name_or_create_n ::
  "byte list \<Rightarrow> froth_heap \<times> slot_table \<Rightarrow> nat result \<times> (froth_heap \<times> slot_table)" where
  "froth_slot_find_name_or_create_n name st =
     (case froth_slot_find_name_n (fst st) (snd st) name of
        Inr i \<Rightarrow> (Inr i, st)
      | Inl e \<Rightarrow> froth_slot_create_n name st)"

subsection \<open>Bindings, arities and overlay flags\<close>

text \<open>Every accessor starts with the same guard; \<open>slot_update\<close> is its write form.\<close>

definition slot_update ::
  "nat \<Rightarrow> (froth_slot \<Rightarrow> froth_slot) \<Rightarrow> slot_table \<Rightarrow> unit result \<times> slot_table" where
  "slot_update i f t =
     (if \<not> index_has_slot_assigned t i then (Inl FROTH_ERROR_UNDEFINED_WORD, t)
      else (Inr (), t\<lparr>st_slots := (st_slots t)[i := f (st_slots t ! i)]\<rparr>))"

definition froth_slot_get_impl :: "slot_table \<Rightarrow> nat \<Rightarrow> cell result" where
  "froth_slot_get_impl t i =
     (if \<not> index_has_slot_assigned t i then Inl FROTH_ERROR_UNDEFINED_WORD
      else if sl_impl_bound (st_slots t ! i) = 0 then Inl FROTH_ERROR_UNDEFINED_WORD
      else Inr (sl_impl (st_slots t ! i)))"

definition froth_slot_get_prim :: "slot_table \<Rightarrow> nat \<Rightarrow> nat result" where
  "froth_slot_get_prim t i =
     (if \<not> index_has_slot_assigned t i then Inl FROTH_ERROR_UNDEFINED_WORD
      else case sl_prim (st_slots t ! i) of
          None \<Rightarrow> Inl FROTH_ERROR_UNDEFINED_WORD
        | Some p \<Rightarrow> Inr p)"

definition froth_slot_set_impl :: "nat \<Rightarrow> cell \<Rightarrow> slot_table \<Rightarrow> unit result \<times> slot_table" where
  "froth_slot_set_impl i v = slot_update i (\<lambda>s. s\<lparr>sl_impl := v, sl_impl_bound := 1\<rparr>)"

definition froth_slot_set_prim ::
  "nat \<Rightarrow> nat option \<Rightarrow> slot_table \<Rightarrow> unit result \<times> slot_table" where
  "froth_slot_set_prim i p = slot_update i (\<lambda>s. s\<lparr>sl_prim := p\<rparr>)"

definition froth_slot_clear_binding :: "nat \<Rightarrow> slot_table \<Rightarrow> unit result \<times> slot_table" where
  "froth_slot_clear_binding i = slot_update i (\<lambda>s. s\<lparr>sl_impl := 0, sl_prim := None,
     sl_impl_bound := 0, sl_in_arity := FROTH_SLOT_ARITY_UNKNOWN,
     sl_out_arity := FROTH_SLOT_ARITY_UNKNOWN\<rparr>)"

definition froth_slot_get_name :: "froth_heap \<Rightarrow> slot_table \<Rightarrow> nat \<Rightarrow> byte list result" where
  "froth_slot_get_name heap t i =
     (if \<not> index_has_slot_assigned t i then Inl FROTH_ERROR_UNDEFINED_WORD
      else Inr (slot_name_at heap (the (sl_name (st_slots t ! i)))))"

definition froth_slot_set_overlay :: "nat \<Rightarrow> byte \<Rightarrow> slot_table \<Rightarrow> unit result \<times> slot_table" where
  "froth_slot_set_overlay i ov = slot_update i (\<lambda>s. s\<lparr>sl_overlay := ov\<rparr>)"

definition froth_slot_get_arity :: "slot_table \<Rightarrow> nat \<Rightarrow> (byte \<times> byte) result" where
  "froth_slot_get_arity t i =
     (if \<not> index_has_slot_assigned t i then Inl FROTH_ERROR_UNDEFINED_WORD
      else Inr (sl_in_arity (st_slots t ! i), sl_out_arity (st_slots t ! i)))"

definition froth_slot_set_arity ::
  "nat \<Rightarrow> byte \<Rightarrow> byte \<Rightarrow> slot_table \<Rightarrow> unit result \<times> slot_table" where
  "froth_slot_set_arity i n_in n_out t =
     (if \<not> index_has_slot_assigned t i then (Inl FROTH_ERROR_UNDEFINED_WORD, t)
      else if n_in = FROTH_SLOT_ARITY_UNKNOWN \<or> n_out = FROTH_SLOT_ARITY_UNKNOWN
      then (Inl FROTH_ERROR_BOUNDS, t)
      else slot_update i (\<lambda>s. s\<lparr>sl_in_arity := n_in, sl_out_arity := n_out\<rparr>) t)"

definition froth_slot_clear_arity :: "nat \<Rightarrow> slot_table \<Rightarrow> unit result \<times> slot_table" where
  "froth_slot_clear_arity i = slot_update i (\<lambda>s. s\<lparr>sl_in_arity := FROTH_SLOT_ARITY_UNKNOWN,
     sl_out_arity := FROTH_SLOT_ARITY_UNKNOWN\<rparr>)"

definition froth_slot_is_overlay :: "slot_table \<Rightarrow> nat \<Rightarrow> bool" where
  "froth_slot_is_overlay t i \<longleftrightarrow>
     index_has_slot_assigned t i \<and> sl_overlay (st_slots t ! i) \<noteq> 0"

definition froth_slot_debug_reset_high_water :: "slot_table \<Rightarrow> slot_table" where
  "froth_slot_debug_reset_high_water t = t\<lparr>st_high_water := st_pointer t\<rparr>"

subsection \<open>Resets\<close>

definition reset_slot :: "froth_slot \<Rightarrow> froth_slot" where
  "reset_slot s = s\<lparr>sl_name := None, sl_impl := 0, sl_prim := None, sl_overlay := 0,
     sl_impl_bound := 0, sl_in_arity := FROTH_SLOT_ARITY_UNKNOWN,
     sl_out_arity := FROTH_SLOT_ARITY_UNKNOWN\<rparr>"

fun reset_overlay_loop :: "froth_slot list \<Rightarrow> nat \<Rightarrow> nat \<Rightarrow> froth_slot list \<times> nat" where
  "reset_overlay_loop [] i new_pointer = ([], new_pointer)"
| "reset_overlay_loop (s # ss) i new_pointer =
     (if sl_overlay s \<noteq> 0
      then let (rest, p) = reset_overlay_loop ss (Suc i) new_pointer in (reset_slot s # rest, p)
      else if sl_name s \<noteq> None
      then let (rest, p) = reset_overlay_loop ss (Suc i) (Suc i) in (s # rest, p)
      else let (rest, p) = reset_overlay_loop ss (Suc i) new_pointer in (s # rest, p))"

definition froth_slot_reset_overlay :: "slot_table \<Rightarrow> slot_table" where
  "froth_slot_reset_overlay t =
     (let (ss, p) = reset_overlay_loop (take (st_pointer t) (st_slots t)) 0 0
      in t\<lparr>st_slots := ss @ drop (st_pointer t) (st_slots t), st_pointer := p\<rparr>)"

definition froth_slot_reset_all :: "slot_table \<Rightarrow> slot_table" where
  "froth_slot_reset_all t = t\<lparr>st_slots := replicate FROTH_SLOT_TABLE_SIZE zero_slot,
     st_pointer := 0, st_high_water := 0\<rparr>"

subsection \<open>Labels: the names as the lookups see them\<close>

definition slot_label :: "froth_heap \<Rightarrow> froth_slot \<Rightarrow> byte list option" where
  "slot_label heap s = map_option (slot_name_at heap) (sl_name s)"

definition slots_wf :: "froth_heap \<times> slot_table \<Rightarrow> bool" where
  "slots_wf st \<longleftrightarrow> (case st of (heap, t) \<Rightarrow>
     heap_wf heap \<and> length (st_slots t) = FROTH_SLOT_TABLE_SIZE \<and>
     st_pointer t \<le> FROTH_SLOT_TABLE_SIZE \<and>
     (\<forall>i < st_pointer t. \<forall>off. sl_name (st_slots t ! i) = Some off \<longrightarrow>
        off + length (slot_name_at heap off) < unat (heap_pointer heap)) \<and>
     (\<forall>i < st_pointer t. \<forall>j < st_pointer t. \<forall>n. slot_label heap (st_slots t ! i) = Some n \<longrightarrow>
        slot_label heap (st_slots t ! j) = Some n \<longrightarrow> i = j))"

definition valid_slot_name :: "byte list \<Rightarrow> bool" where
  "valid_slot_name name \<longleftrightarrow> 0 \<notin> set name \<and> length name + 1 < 2 ^ 32"

definition slot_lookup :: "froth_heap \<times> slot_table \<Rightarrow> byte list \<Rightarrow> nat option" where
  "slot_lookup st name =
     (case froth_slot_find_name_n (fst st) (snd st) name of Inl e \<Rightarrow> None | Inr i \<Rightarrow> Some i)"

lemma slot_find_loop_Inr:
  "slot_find_loop heap name ss ip = Inr i \<Longrightarrow>
   ip \<le> i \<and> i - ip < length ss \<and> slot_label heap (ss ! (i - ip)) = Some name"
proof (induction ss arbitrary: ip)
  case (Cons s ss)
  show ?case
  proof (cases "slot_label heap s = Some name")
    case True
    with Cons.prems have "i = ip"
      by (auto simp: slot_label_def froth_slot_name_matches_def)
    with True show ?thesis by simp
  next
    case False
    with Cons.prems have "slot_find_loop heap name ss (Suc ip) = Inr i"
      by (auto simp: slot_label_def froth_slot_name_matches_def split: option.splits if_splits)
    from Cons.IH [OF this] have "Suc ip \<le> i" "i - Suc ip < length ss"
      "slot_label heap (ss ! (i - Suc ip)) = Some name" by auto
    moreover from this(1) have "i - ip = Suc (i - Suc ip)" by arith
    ultimately show ?thesis by simp
  qed
qed simp

lemma slot_find_loop_Inl:
  "slot_find_loop heap name ss ip = Inl e \<Longrightarrow>
   e = FROTH_ERROR_UNDEFINED_WORD \<and> (\<forall>s \<in> set ss. slot_label heap s \<noteq> Some name)"
proof (induction ss arbitrary: ip)
  case (Cons s ss)
  then have "slot_label heap s \<noteq> Some name"
    and "slot_find_loop heap name ss (Suc ip) = Inl e"
    by (auto simp: slot_label_def froth_slot_name_matches_def split: option.splits if_splits)
  with Cons.IH [of "Suc ip"] show ?case by simp
qed simp

text \<open>In a well-formed table a lookup finds a name exactly at the slot that carries it.\<close>

lemma slot_lookup_iff:
  assumes "slots_wf (heap, t)"
  shows "slot_lookup (heap, t) name = Some i \<longleftrightarrow>
     i < st_pointer t \<and> slot_label heap (st_slots t ! i) = Some name"
proof
  assume "slot_lookup (heap, t) name = Some i"
  then have "slot_find_loop heap name (take (st_pointer t) (st_slots t)) 0 = Inr i"
    by (auto simp: slot_lookup_def froth_slot_find_name_n_def split: sum.splits)
  from slot_find_loop_Inr [OF this]
  show "i < st_pointer t \<and> slot_label heap (st_slots t ! i) = Some name" by auto
next
  assume i: "i < st_pointer t \<and> slot_label heap (st_slots t ! i) = Some name"
  show "slot_lookup (heap, t) name = Some i"
  proof (cases "slot_find_loop heap name (take (st_pointer t) (st_slots t)) 0")
    case (Inl e)
    moreover have "st_slots t ! i \<in> set (take (st_pointer t) (st_slots t))"
      using i assms by (auto simp: slots_wf_def in_set_conv_nth intro!: exI [of _ i])
    ultimately show ?thesis using slot_find_loop_Inl [OF Inl] i by blast
  next
    case (Inr j)
    from slot_find_loop_Inr [OF this] i assms have "j = i"
      by (auto simp: slots_wf_def)
    with Inr show ?thesis by (simp add: slot_lookup_def froth_slot_find_name_n_def)
  qed
qed

lemma slot_lookup_None_iff:
  assumes "slots_wf (heap, t)"
  shows "slot_lookup (heap, t) name = None \<longleftrightarrow>
     (\<forall>i < st_pointer t. slot_label heap (st_slots t ! i) \<noteq> Some name)"
proof (cases "slot_lookup (heap, t) name")
  case None
  then show ?thesis using slot_lookup_iff [OF assms, of name] by force
next
  case (Some i)
  then show ?thesis using slot_lookup_iff [OF assms, of name i] by auto
qed

subsection \<open>Creating a slot\<close>

lemma c_string_prefix:
  "length (c_string xs) < n \<Longrightarrow> take n ys = take n xs \<Longrightarrow> c_string ys = c_string xs"
proof (induction xs arbitrary: n ys)
  case Nil
  then show ?case by (cases n) (auto simp: c_string_def)
next
  case (Cons x xs)
  then obtain m where m: "n = Suc m" by (cases n) auto
  with Cons.prems(2) obtain zs where ys: "ys = x # zs" "take m zs = take m xs"
    by (cases ys) auto
  show ?case
  proof (cases "x = 0")
    case True
    with ys show ?thesis by (simp add: c_string_def)
  next
    case False
    with Cons.prems(1) m have "length (c_string xs) < m" by (simp add: c_string_def)
    from Cons.IH [OF this ys(2)] False ys(1) show ?thesis by (simp add: c_string_def)
  qed
qed

text \<open>Bytes written behind the names leave the names alone.\<close>

lemma slot_name_at_store:
  assumes "off + length (slot_name_at heap off) < p" "p + length bs \<le> length (heap_data heap)"
    and "heap_data heap' = store_at (heap_data heap) p bs"
  shows "slot_name_at heap' off = slot_name_at heap off"
  unfolding slot_name_at_def
proof (rule c_string_prefix)
  show "length (c_string (drop off (heap_data heap))) < p - off"
    using assms(1) by (simp add: slot_name_at_def)
  show "take (p - off) (drop off (heap_data heap')) = take (p - off) (drop off (heap_data heap))"
    using assms by (simp add: store_at_def take_drop)
qed

lemma slot_create_Inr:
  assumes wf: "slots_wf (heap, t)" and name: "valid_slot_name name"
    and create: "froth_slot_create_n name (heap, t) = (Inr i, (heap', t'))"
  shows "i = st_pointer t" and "st_pointer t' = Suc (st_pointer t)"
    and "i < length (st_slots t)"
    and "\<And>j. j < st_pointer t \<Longrightarrow> st_slots t' ! j = st_slots t ! j"
    and "\<And>j. j < st_pointer t \<Longrightarrow>
           slot_label heap' (st_slots t' ! j) = slot_label heap (st_slots t ! j)"
    and "slot_label heap' (st_slots t' ! i) = Some name"
    and "heap_wf heap'" and "length (st_slots t') = length (st_slots t)"
    and "\<And>j off. j \<le> st_pointer t \<Longrightarrow> sl_name (st_slots t' ! j) = Some off \<Longrightarrow>
           off + length (slot_name_at heap' off) < unat (heap_pointer heap')"
proof -
  have hwf: "heap_wf heap" and lens: "length (st_slots t) = FROTH_SLOT_TABLE_SIZE"
    using wf by (auto simp: slots_wf_def)
  obtain loc h1 where alloc:
      "froth_heap_allocate_bytes (word_of_nat (length name + 1)) heap = (Inr loc, h1)"
    and ptr: "st_pointer t < FROTH_SLOT_TABLE_SIZE"
    and h': "heap' = h1\<lparr>heap_data := store_at (heap_data h1) (unat loc) (name @ [0])\<rparr>"
    and t': "i = st_pointer t" "st_pointer t' = Suc (st_pointer t)"
      "st_slots t' = (st_slots t)[st_pointer t := \<lparr>sl_name = Some (unat loc), sl_impl = 0,
        sl_prim = None, sl_overlay = 0, sl_impl_bound = 0,
        sl_in_arity = FROTH_SLOT_ARITY_UNKNOWN, sl_out_arity = FROTH_SLOT_ARITY_UNKNOWN\<rparr>]"
    using create by (auto simp: froth_slot_create_n_def Let_def split: if_splits prod.splits sum.splits)
  note a = allocate_bytes_Inr [OF hwf alloc]
  have sz: "unat (word_of_nat (length name + 1) :: 32 word) = length name + 1"
    by (rule of_nat_inverse [OF refl]) (use name in \<open>simp add: valid_slot_name_def\<close>)
  have fits: "unat loc + length (name @ [0]) \<le> length (heap_data heap)"
    using a sz hwf by (simp add: heap_wf_def)
  have data': "heap_data heap' = store_at (heap_data heap) (unat loc) (name @ [0])"
    using h' a(4) by simp
  have drop: "drop (unat loc) (heap_data heap') =
      name @ 0 # drop (unat loc + length (name @ [0])) (heap_data heap)"
    using data' fits by (simp add: store_at_def)
  have new: "slot_name_at heap' (unat loc) = name"
    using name by (simp add: slot_name_at_def drop c_string_append_nul valid_slot_name_def)
  have old: "slot_name_at heap' off = slot_name_at heap off"
    "off + length (slot_name_at heap off) < unat (heap_pointer heap)"
    if "j < st_pointer t" "sl_name (st_slots t ! j) = Some off" for j off
  proof -
    show "off + length (slot_name_at heap off) < unat (heap_pointer heap)"
      using wf that by (auto simp: slots_wf_def)
    then show "slot_name_at heap' off = slot_name_at heap off"
      using slot_name_at_store [OF _ fits data'] a(2) by simp
  qed
  show "i = st_pointer t" "st_pointer t' = Suc (st_pointer t)" "i < length (st_slots t)"
    "length (st_slots t') = length (st_slots t)"
    using t' ptr lens by simp_all
  show "st_slots t' ! j = st_slots t ! j" if "j < st_pointer t" for j
    using that t' by simp
  show "slot_label heap' (st_slots t' ! j) = slot_label heap (st_slots t ! j)"
    if "j < st_pointer t" for j
    using that t' old(1) by (cases "sl_name (st_slots t ! j)") (simp_all add: slot_label_def)
  show "slot_label heap' (st_slots t' ! i) = Some name"
    using t' ptr lens new by (simp add: slot_label_def)
  show "heap_wf heap'" using a(5) h' fits a(4) by (simp add: heap_wf_def)
  show "off + length (slot_name_at heap' off) < unat (heap_pointer heap')"
    if "j \<le> st_pointer t" "sl_name (st_slots t' ! j) = Some off" for j off
  proof (cases "j = st_pointer t")
    case True
    then have "off = unat loc" using that t' ptr lens by simp
    then show ?thesis using new a(3) sz h' by simp
  next
    case False
    then have "j < st_pointer t" "sl_name (st_slots t ! j) = Some off" using that t' by simp_all
    then show ?thesis using old [of j off] a(2,3) h' by simp
  qed
qed

lemma slot_create_wf:
  assumes wf: "slots_wf (heap, t)" and name: "valid_slot_name name"
    and fresh: "slot_lookup (heap, t) name = None"
    and create: "froth_slot_create_n name (heap, t) = (Inr i, (heap', t'))"
  shows "slots_wf (heap', t')"
proof -
  note c = slot_create_Inr [OF wf name create]
  have label: "slot_label heap' (st_slots t' ! j) =
      (if j = i then Some name else slot_label heap (st_slots t ! j))" if "j < st_pointer t'" for j
    using that c by auto
  have "a = b" if ab: "a < st_pointer t'" "b < st_pointer t'"
    "slot_label heap' (st_slots t' ! a) = Some n" "slot_label heap' (st_slots t' ! b) = Some n" for a b n
    using ab label [OF ab(1)] label [OF ab(2)] wf fresh c(1,2)
    by (auto simp: slot_lookup_None_iff [OF wf] slots_wf_def split: if_splits)
  then show ?thesis
    using wf c by (auto simp: slots_wf_def less_Suc_eq_le)
qed

lemma slot_create_lookup:
  assumes wf: "slots_wf (heap, t)" and name: "valid_slot_name name"
    and fresh: "slot_lookup (heap, t) name = None"
    and create: "froth_slot_create_n name (heap, t) = (Inr i, (heap', t'))"
  shows "slot_lookup (heap', t') = (slot_lookup (heap, t))(name := Some i)"
proof (rule ext)
  fix k
  note c = slot_create_Inr [OF wf name create]
  note wf' = slot_create_wf [OF assms]
  have label: "slot_label heap' (st_slots t' ! j) =
      (if j = i then Some name else slot_label heap (st_slots t ! j))" if "j < st_pointer t'" for j
    using that c by auto
  have "slot_lookup (heap', t') k = Some j \<longleftrightarrow> ((slot_lookup (heap, t))(name := Some i)) k = Some j" for j
    using label [of j] c(1,2) fresh
    by (auto simp: slot_lookup_iff [OF wf] slot_lookup_iff [OF wf'] slot_lookup_None_iff [OF wf]
        less_Suc_eq)
  then show "slot_lookup (heap', t') k = ((slot_lookup (heap, t))(name := Some i)) k"
    by (rule option_eqI)
qed

lemma slot_create_Inl: "froth_slot_create_n name st = (Inl e, st') \<Longrightarrow> st' = st"
  by (auto simp: froth_slot_create_n_def Let_def split: if_splits prod.splits sum.splits
      dest: allocate_bytes_Inl(3))

lemma slot_intern_eq:
  "froth_slot_find_name_or_create_n k st =
     (case slot_lookup st k of Some i \<Rightarrow> (Inr i, st) | None \<Rightarrow> froth_slot_create_n k st)"
  by (auto simp: froth_slot_find_name_or_create_n_def slot_lookup_def split: sum.splits)

interpretation slot_names: name_table slot_lookup froth_slot_create_n
  froth_slot_find_name_or_create_n slots_wf valid_slot_name
proof (unfold_locales, goal_cases)
  case (1 s k)
  show ?case by (rule slot_intern_eq)
next
  case (2 s k i s')
  then show ?case by (cases s; cases s') (auto intro: slot_create_lookup)
next
  case (3 s k i s')
  then show ?case by (cases s; cases s') (auto intro: slot_create_wf)
next
  case (4 s k i s' k')
  then show ?case
    using slot_create_Inr(1) [of "fst s" "snd s" k i "fst s'" "snd s'"]
      slot_lookup_iff [of "fst s" "snd s" k' i] by auto
next
  case (5 s k e s')
  then show ?case by (auto dest: slot_create_Inl)
qed

subsection \<open>Properties of the slot table\<close>

text \<open>C25. Find-or-create gives a name a slot and keeps it: afterwards the name is found at the
  returned index, every other lookup is what it was, the table is still well-formed, and a
  second call returns the same index and changes nothing. A failure changes nothing.\<close>

theorem slot_find_or_create_spec:
  assumes "slots_wf st" and "valid_slot_name name"
  shows "case froth_slot_find_name_or_create_n name st of
      (Inr i, st') \<Rightarrow>
        slots_wf st' \<and> slot_lookup st' = (slot_lookup st)(name := Some i) \<and>
        froth_slot_find_name_or_create_n name st' = (Inr i, st')
    | (Inl e, st') \<Rightarrow> st' = st \<and> slot_lookup st name = None"
proof -
  obtain r st' where eq: "froth_slot_find_name_or_create_n name st = (r, st')"
    by (metis surj_pair)
  show ?thesis
  proof (cases r)
    case (Inl e)
    with slot_names.intern_error [OF assms, of e st'] show ?thesis by (simp add: eq)
  next
    case (Inr i)
    with slot_names.intern_inv [OF assms, of r st'] slot_names.intern_find [OF assms, of i st']
      slot_names.intern_idem [OF assms, of i st'] show ?thesis by (simp add: eq)
  qed
qed

definition empty_slots :: slot_table where
  "empty_slots = \<lparr>st_slots = replicate FROTH_SLOT_TABLE_SIZE zero_slot, st_pointer = 0,
     st_high_water = 0\<rparr>"

lemma slots_wf_empty: "slots_wf (empty_heap, empty_slots)"
  by (simp add: slots_wf_def heap_wf_empty empty_slots_def)

theorem slot_find_or_create_spec_witness:
  "slots_wf (snd (froth_slot_find_name_or_create_n [0x61, 0x62] (empty_heap, empty_slots)))"
proof -
  have "valid_slot_name [0x61, 0x62]" by (simp add: valid_slot_name_def)
  from slot_find_or_create_spec [OF slots_wf_empty this] slots_wf_empty show ?thesis
    by (auto split: prod.splits sum.splits)
qed

lemma reset_overlay_loop_spec:
  "np \<le> i \<Longrightarrow> reset_overlay_loop ss i np = (ss', p) \<Longrightarrow>
   ss' = map (\<lambda>s. if sl_overlay s \<noteq> 0 then reset_slot s else s) ss \<and> np \<le> p \<and> p \<le> i + length ss \<and>
   (\<forall>k < length ss. sl_overlay (ss ! k) = 0 \<longrightarrow> sl_name (ss ! k) \<noteq> None \<longrightarrow> i + k < p) \<and>
   (p = np \<or> (\<exists>k < length ss. sl_overlay (ss ! k) = 0 \<and> sl_name (ss ! k) \<noteq> None \<and> p = Suc (i + k)))"
proof (induction ss arbitrary: i np ss' p)
  case (Cons s ss)
  define np' where "np' = (if sl_overlay s = 0 \<and> sl_name s \<noteq> None then Suc i else np)"
  obtain rest where rest: "reset_overlay_loop ss (Suc i) np' = (rest, p)"
    and ss': "ss' = (if sl_overlay s \<noteq> 0 then reset_slot s else s) # rest"
    using Cons.prems(2) by (auto simp: np'_def split: if_splits prod.splits)
  have "np' \<le> Suc i" using Cons.prems(1) by (simp add: np'_def)
  note IH = Cons.IH [OF this rest]
  have "\<forall>k < length (s # ss). sl_overlay ((s # ss) ! k) = 0 \<longrightarrow> sl_name ((s # ss) ! k) \<noteq> None \<longrightarrow>
      i + k < p"
    using IH by (auto simp: nth_Cons np'_def split: nat.splits if_splits)
  moreover have "p = np \<or> (\<exists>k < length (s # ss). sl_overlay ((s # ss) ! k) = 0 \<and>
      sl_name ((s # ss) ! k) \<noteq> None \<and> p = Suc (i + k))"
  proof -
    consider "p = np'" | k where "k < length ss" "sl_overlay (ss ! k) = 0" "sl_name (ss ! k) \<noteq> None"
      "p = Suc (Suc i + k)" using IH by blast
    then show ?thesis
    proof cases
      case 1
      then show ?thesis by (auto simp: np'_def intro!: exI [of _ 0])
    next
      case (2 k)
      then show ?thesis by (intro disjI2 exI [of _ "Suc k"]) simp
    qed
  qed
  ultimately show ?case using IH ss' Cons.prems(1) by (auto simp: np'_def split: if_splits)
qed simp

text \<open>Erasing names or shortening the table keeps it well-formed.\<close>

lemma slots_wf_weaken:
  assumes wf: "slots_wf (heap, t)"
    and ptr: "st_pointer t' \<le> st_pointer t" and len: "length (st_slots t') = length (st_slots t)"
    and name: "\<And>k. k < st_pointer t \<Longrightarrow>
      sl_name (st_slots t' ! k) = None \<or> sl_name (st_slots t' ! k) = sl_name (st_slots t ! k)"
  shows "slots_wf (heap, t')"
proof -
  have same: "sl_name (st_slots t ! k) = Some off \<and> k < st_pointer t"
    if "k < st_pointer t'" "sl_name (st_slots t' ! k) = Some off" for k off
    using that name [of k] ptr by auto
  have "a = b" if ab: "a < st_pointer t'" "b < st_pointer t'"
    "slot_label heap (st_slots t' ! a) = Some n" "slot_label heap (st_slots t' ! b) = Some n" for a b n
  proof -
    obtain x y where "sl_name (st_slots t' ! a) = Some x" "slot_name_at heap x = n"
      "sl_name (st_slots t' ! b) = Some y" "slot_name_at heap y = n"
      using ab(3,4) by (auto simp: slot_label_def)
    with same [OF ab(1)] same [OF ab(2)] wf show ?thesis
      by (simp add: slots_wf_def slot_label_def)
  qed
  moreover have "off + length (slot_name_at heap off) < unat (heap_pointer heap)"
    if "k < st_pointer t'" "sl_name (st_slots t' ! k) = Some off" for k off
    using same [OF that] wf by (auto simp: slots_wf_def)
  ultimately show ?thesis using wf ptr len by (simp add: slots_wf_def)
qed

lemma reset_overlay_slots:
  assumes "slots_wf (heap, t)"
  shows "st_pointer (froth_slot_reset_overlay t) \<le> st_pointer t"
    and "length (st_slots (froth_slot_reset_overlay t)) = length (st_slots t)"
    and "\<And>k. k < st_pointer t \<Longrightarrow> st_slots (froth_slot_reset_overlay t) ! k =
           (if sl_overlay (st_slots t ! k) \<noteq> 0 then reset_slot (st_slots t ! k) else st_slots t ! k)"
    and "\<And>k. k < st_pointer t \<Longrightarrow> sl_overlay (st_slots t ! k) = 0 \<Longrightarrow>
           sl_name (st_slots t ! k) \<noteq> None \<Longrightarrow> k < st_pointer (froth_slot_reset_overlay t)"
proof -
  let ?ss = "take (st_pointer t) (st_slots t)"
  obtain ss' p where loop: "reset_overlay_loop ?ss 0 0 = (ss', p)" by fastforce
  have len: "length ?ss = st_pointer t" "st_pointer t \<le> length (st_slots t)"
    using assms by (auto simp: slots_wf_def)
  note spec = reset_overlay_loop_spec [OF le0 loop]
  have t': "froth_slot_reset_overlay t =
      t\<lparr>st_slots := ss' @ drop (st_pointer t) (st_slots t), st_pointer := p\<rparr>"
    by (simp add: froth_slot_reset_overlay_def loop)
  show "st_pointer (froth_slot_reset_overlay t) \<le> st_pointer t"
    "length (st_slots (froth_slot_reset_overlay t)) = length (st_slots t)"
    using spec len by (simp_all add: t')
  show "st_slots (froth_slot_reset_overlay t) ! k =
      (if sl_overlay (st_slots t ! k) \<noteq> 0 then reset_slot (st_slots t ! k) else st_slots t ! k)"
    if "k < st_pointer t" for k
    using that spec len by (simp add: t' nth_append)
  show "k < st_pointer (froth_slot_reset_overlay t)"
    if "k < st_pointer t" "sl_overlay (st_slots t ! k) = 0" "sl_name (st_slots t ! k) \<noteq> None" for k
    using that spec len by (auto simp: t')
qed

text \<open>C24. Resetting the overlay forgets exactly the overlay slots: afterwards no slot is an
  overlay slot, a name that stood in a base slot is still found at the same index, a name that
  stood in an overlay slot is not found, no other name appears, and the table stays
  well-formed.\<close>

theorem slot_reset_overlay_spec:
  assumes "slots_wf (heap, t)"
  shows "slots_wf (heap, froth_slot_reset_overlay t) \<and>
    (\<forall>i. \<not> froth_slot_is_overlay (froth_slot_reset_overlay t) i) \<and>
    slot_lookup (heap, froth_slot_reset_overlay t) name =
      (case slot_lookup (heap, t) name of
         Some i \<Rightarrow> if froth_slot_is_overlay t i then None else Some i
       | None \<Rightarrow> None)"
proof -
  note r = reset_overlay_slots [OF assms]
  have wf': "slots_wf (heap, froth_slot_reset_overlay t)"
    by (rule slots_wf_weaken [OF assms r(1,2)]) (auto simp: r(3) reset_slot_def)
  moreover have "\<not> froth_slot_is_overlay (froth_slot_reset_overlay t) i" for i
    using r(1) r(3) [of i]
    by (auto simp: froth_slot_is_overlay_def index_has_slot_assigned_def reset_slot_def split: if_splits)
  moreover have *: "slot_lookup (heap, froth_slot_reset_overlay t) name = Some i \<longleftrightarrow>
      slot_lookup (heap, t) name = Some i \<and> \<not> froth_slot_is_overlay t i" for i
    using r(1) r(3) [of i] r(4) [of i]
    by (auto simp: slot_lookup_iff [OF assms] slot_lookup_iff [OF wf'] froth_slot_is_overlay_def
        index_has_slot_assigned_def slot_label_def reset_slot_def split: if_splits)
  moreover have "slot_lookup (heap, froth_slot_reset_overlay t) name =
      (case slot_lookup (heap, t) name of
         Some i \<Rightarrow> if froth_slot_is_overlay t i then None else Some i
       | None \<Rightarrow> None)"
    by (rule option_eqI) (auto simp: * split: option.split)
  ultimately show ?thesis by blast
qed

theorem slot_reset_overlay_spec_witness:
  "slots_wf (empty_heap, froth_slot_reset_overlay empty_slots)"
  using slot_reset_overlay_spec [OF slots_wf_empty, of "[]"] by blast

subsection \<open>Bindings\<close>

lemma slot_update_Inr:
  "slot_update i f t = (Inr u, t') \<longleftrightarrow>
   index_has_slot_assigned t i \<and> t' = t\<lparr>st_slots := (st_slots t)[i := f (st_slots t ! i)]\<rparr>"
  by (auto simp: slot_update_def)

lemma slot_update_Inl:
  "slot_update i f t = (Inl e, t') \<longleftrightarrow>
   \<not> index_has_slot_assigned t i \<and> e = FROTH_ERROR_UNDEFINED_WORD \<and> t' = t"
  by (auto simp: slot_update_def)

lemma assigned_lt: "slots_wf (heap, t) \<Longrightarrow> index_has_slot_assigned t i \<Longrightarrow> i < length (st_slots t)"
  by (auto simp: slots_wf_def index_has_slot_assigned_def)

text \<open>Updates that keep the name field keep the table well-formed and every lookup.\<close>

lemma slot_update_wf:
  assumes "slots_wf (heap, t)" "\<And>s. sl_name (f s) = sl_name s"
  shows "slots_wf (heap, snd (slot_update i f t))"
    and "slot_lookup (heap, snd (slot_update i f t)) = slot_lookup (heap, t)"
proof -
  let ?t = "snd (slot_update i f t)"
  have ptr: "st_pointer ?t = st_pointer t" "length (st_slots ?t) = length (st_slots t)"
    by (auto simp: slot_update_def)
  have name: "sl_name (st_slots ?t ! j) = sl_name (st_slots t ! j)"
    if "j < length (st_slots t)" for j
    using that assms(2) by (cases "i = j") (auto simp: slot_update_def nth_list_update_if)
  have name': "sl_name (st_slots ?t ! j) = sl_name (st_slots t ! j)" if "j < st_pointer t" for j
    using that name assms(1) by (auto simp: slots_wf_def)
  show wf': "slots_wf (heap, ?t)"
    using slots_wf_weaken [OF assms(1), of ?t] ptr name' by simp
  show "slot_lookup (heap, ?t) = slot_lookup (heap, t)"
  proof (rule ext)
    fix k
    have "slot_lookup (heap, ?t) k = Some j \<longleftrightarrow> slot_lookup (heap, t) k = Some j" for j
      using ptr name' by (auto simp: slot_lookup_iff [OF assms(1)] slot_lookup_iff [OF wf'] slot_label_def)
    then show "slot_lookup (heap, ?t) k = slot_lookup (heap, t) k" by (rule option_eqI)
  qed
qed

text \<open>Writing one slot leaves every other entry of the table and its extent as they are.\<close>

lemma slot_update_others:
  "j \<noteq> i \<Longrightarrow> st_slots (snd (slot_update i f t)) ! j = st_slots t ! j"
  "st_pointer (snd (slot_update i f t)) = st_pointer t"
  "st_high_water (snd (slot_update i f t)) = st_high_water t"
  by (simp_all add: slot_update_def)

text \<open>C26. Setting and clearing a slot's value: after a set, the value stored is the value read
  back; after a clear that follows it, a read is an undefined word and the arity is unknown. Neither
  the set nor the clear changes any field of another slot, the number of slots in use, or what any
  name finds, and both keep the table well-formed. An index without a slot is refused by both with
  an undefined-word error and nothing changes.\<close>

theorem slot_binding_spec:
  assumes "slots_wf (heap, t)"
  shows "case froth_slot_set_impl i v t of
      (Inr u, t') \<Rightarrow>
        froth_slot_get_impl t' i = Inr v \<and>
        froth_slot_get_impl (snd (froth_slot_clear_binding i t')) i =
          Inl FROTH_ERROR_UNDEFINED_WORD \<and>
        (\<forall>j. j \<noteq> i \<longrightarrow> froth_slot_get_impl t' j = froth_slot_get_impl t j) \<and>
        slots_wf (heap, t') \<and> slot_lookup (heap, t') = slot_lookup (heap, t) \<and>
        st_pointer t' = st_pointer t \<and>
        (\<forall>j. j \<noteq> i \<longrightarrow> st_slots t' ! j = st_slots t ! j) \<and>
        (case froth_slot_clear_binding i t' of
           (Inr u, t'') \<Rightarrow>
             froth_slot_get_arity t'' i = Inr (FROTH_SLOT_ARITY_UNKNOWN, FROTH_SLOT_ARITY_UNKNOWN) \<and>
             (\<forall>j. j \<noteq> i \<longrightarrow> froth_slot_get_impl t'' j = froth_slot_get_impl t j) \<and>
             (\<forall>j. j \<noteq> i \<longrightarrow> st_slots t'' ! j = st_slots t ! j) \<and>
             st_pointer t'' = st_pointer t \<and>
             slots_wf (heap, t'') \<and> slot_lookup (heap, t'') = slot_lookup (heap, t)
         | (Inl e, t'') \<Rightarrow> False)
    | (Inl e, t') \<Rightarrow>
        e = FROTH_ERROR_UNDEFINED_WORD \<and> t' = t \<and>
        froth_slot_get_impl t i = Inl FROTH_ERROR_UNDEFINED_WORD \<and>
        froth_slot_clear_binding i t = (Inl FROTH_ERROR_UNDEFINED_WORD, t)"
proof (cases "index_has_slot_assigned t i")
  case False
  then show ?thesis
    by (simp add: froth_slot_set_impl_def froth_slot_clear_binding_def slot_update_def
        froth_slot_get_impl_def)
next
  case True
  let ?f = "\<lambda>s. s\<lparr>sl_impl := v, sl_impl_bound := 1\<rparr>"
  let ?g = "\<lambda>s. s\<lparr>sl_impl := 0, sl_prim := None, sl_impl_bound := 0,
     sl_in_arity := FROTH_SLOT_ARITY_UNKNOWN, sl_out_arity := FROTH_SLOT_ARITY_UNKNOWN\<rparr>"
  let ?t1 = "snd (slot_update i ?f t)"
  let ?t2 = "snd (slot_update i ?g ?t1)"
  have one: "slots_wf (heap, ?t1)" "slot_lookup (heap, ?t1) = slot_lookup (heap, t)"
    using slot_update_wf [OF assms, of ?f i] by simp_all
  have two: "slots_wf (heap, ?t2)" "slot_lookup (heap, ?t2) = slot_lookup (heap, t)"
    using slot_update_wf [OF one(1), of ?g i] one(2) by simp_all
  have assigned: "index_has_slot_assigned ?t1 i" "index_has_slot_assigned ?t2 i"
    using True assigned_lt [OF assms True]
    by (simp_all add: slot_update_def index_has_slot_assigned_def)
  have others: "froth_slot_get_impl ?t1 j = froth_slot_get_impl t j"
    "froth_slot_get_impl ?t2 j = froth_slot_get_impl t j" if "j \<noteq> i" for j
    using that by (simp_all add: froth_slot_get_impl_def index_has_slot_assigned_def slot_update_others)
  have here: "st_slots ?t1 ! i = ?f (st_slots t ! i)" "st_slots ?t2 ! i = ?g (?f (st_slots t ! i))"
    using True assigned assigned_lt [OF assms True] by (simp_all add: slot_update_def)
  have "froth_slot_set_impl i v t = (Inr (), ?t1)" "froth_slot_clear_binding i ?t1 = (Inr (), ?t2)"
    using True assigned by (simp_all add: froth_slot_set_impl_def froth_slot_clear_binding_def slot_update_def)
  then show ?thesis
    using one two others assigned here
    by (simp add: froth_slot_get_impl_def froth_slot_get_arity_def slot_update_others)
qed

text \<open>A table with two slots, the first of them bound.\<close>

definition two_names :: "froth_heap \<times> slot_table" where
  "two_names = snd (froth_slot_find_name_or_create_n [98]
     (snd (froth_slot_find_name_or_create_n [97] (empty_heap, empty_slots))))"

lemma two_names_table:
  "slots_wf two_names" "st_pointer (snd two_names) = 2"
  "sl_name (st_slots (snd two_names) ! 0) = Some 0" "sl_name (st_slots (snd two_names) ! 1) = Some 2"
proof -
  have names: "valid_slot_name [97]" "valid_slot_name [98]" by (simp_all add: valid_slot_name_def)
  have "slots_wf (snd (froth_slot_find_name_or_create_n [97] (empty_heap, empty_slots)))"
    using slot_names.intern_inv [OF slots_wf_empty names(1)] by (metis surj_pair snd_conv)
  then show "slots_wf two_names"
    unfolding two_names_def using slot_names.intern_inv [OF _ names(2)] by (metis surj_pair snd_conv)
  let ?h = "empty_heap\<lparr>heap_data := 97 # 0 # replicate 6142 0, heap_pointer := 2, heap_high_water := 2\<rparr>"
  let ?slot = "\<lambda>off. \<lparr>sl_name = Some off, sl_impl = 0, sl_prim = None, sl_overlay = 0, sl_impl_bound = 0,
     sl_in_arity = FROTH_SLOT_ARITY_UNKNOWN, sl_out_arity = FROTH_SLOT_ARITY_UNKNOWN\<rparr>"
  have table_size: "0 < FROTH_SLOT_TABLE_SIZE" "1 < FROTH_SLOT_TABLE_SIZE"
    "\<not> FROTH_SLOT_TABLE_SIZE \<le> Suc 0" by (simp_all add: FROTH_SLOT_TABLE_SIZE_def)
  let ?t = "\<lparr>st_slots = (replicate FROTH_SLOT_TABLE_SIZE zero_slot)[0 := ?slot 0], st_pointer = 1,
     st_high_water = 1\<rparr>"
  have first: "froth_slot_find_name_or_create_n [97] (empty_heap, empty_slots) = (Inr 0, (?h, ?t))"
    by (simp add: froth_slot_find_name_or_create_n_def froth_slot_find_name_n_def empty_slots_def
        froth_slot_create_n_def froth_heap_allocate_bytes_def FROTH_HEAP_SIZE_def Let_def
        store_at_def empty_heap_def table_size drop_replicate)
  have front: "take (Suc 0) ((replicate FROTH_SLOT_TABLE_SIZE zero_slot)[0 := ?slot 0]) = [?slot 0]"
    by (simp add: FROTH_SLOT_TABLE_SIZE_def take_Suc_conv_app_nth)
  have second: "snd (snd (froth_slot_find_name_or_create_n [98] (?h, ?t))) =
     \<lparr>st_slots = (replicate FROTH_SLOT_TABLE_SIZE zero_slot)[0 := ?slot 0, 1 := ?slot 2],
      st_pointer = 2, st_high_water = 2\<rparr>"
    by (simp add: froth_slot_find_name_or_create_n_def froth_slot_find_name_n_def front
        froth_slot_create_n_def froth_heap_allocate_bytes_def FROTH_HEAP_SIZE_def Let_def
        empty_heap_def table_size froth_slot_name_matches_def slot_name_at_def c_string_def)
  show "st_pointer (snd two_names) = 2"
    "sl_name (st_slots (snd two_names) ! 0) = Some 0" "sl_name (st_slots (snd two_names) ! 1) = Some 2"
    unfolding two_names_def first snd_conv second by (simp_all add: FROTH_SLOT_TABLE_SIZE_def)
qed

theorem slot_binding_spec_witness:
  "froth_slot_get_impl (snd (froth_slot_set_impl 1 9 (snd two_names))) 1 = Inr 9 \<and>
   slots_wf (fst two_names, snd (froth_slot_clear_binding 1 (snd (froth_slot_set_impl 1 9 (snd two_names)))))"
proof -
  have wf: "slots_wf (fst two_names, snd two_names)" using two_names_table(1) by simp
  have "index_has_slot_assigned (snd two_names) 1"
    using two_names_table by (simp add: index_has_slot_assigned_def)
  then have run: "froth_slot_set_impl 1 9 (snd two_names) =
      (Inr (), snd (froth_slot_set_impl 1 9 (snd two_names)))"
    by (simp add: froth_slot_set_impl_def slot_update_def)
  from slot_binding_spec [OF wf, of 1 9] show ?thesis
    by (subst (asm) run) (auto split: prod.splits sum.splits)
qed

end
