(* ===== verification/Frothy_Value.thy ===== *)
theory Frothy_Value
  imports Froth_Prelude
begin

section \<open>Tagged values (frothy_value.c, the value half)\<close>

text \<open>
  A value is one 32-bit word whose two low bits are its tag: a 30-bit signed integer, a
  special (nil and the booleans), a slot designator or an object reference. \<open>int32_t\<close>
  arguments are 32-bit words read with \<open>sint\<close>, the 64-bit intermediate of the arithmetic
  builtins is a 64-bit word.
\<close>

type_synonym frothy_value = "32 word"

definition FROTHY_VALUE_TAG_MASK :: frothy_value where "FROTHY_VALUE_TAG_MASK = 3"
definition FROTHY_VALUE_TAG_INT :: frothy_value where "FROTHY_VALUE_TAG_INT = 0"
definition FROTHY_VALUE_TAG_SLOT :: frothy_value where "FROTHY_VALUE_TAG_SLOT = 2"
definition FROTHY_VALUE_TAG_OBJECT :: frothy_value where "FROTHY_VALUE_TAG_OBJECT = 3"

definition FROTHY_SPECIAL_NIL :: frothy_value where "FROTHY_SPECIAL_NIL = 1"
definition FROTHY_SPECIAL_FALSE :: frothy_value where "FROTHY_SPECIAL_FALSE = 5"
definition FROTHY_SPECIAL_TRUE :: frothy_value where "FROTHY_SPECIAL_TRUE = 9"

definition FROTHY_VALUE_INT_MIN :: int where "FROTHY_VALUE_INT_MIN = - (2 ^ 29)"
definition FROTHY_VALUE_INT_MAX :: int where "FROTHY_VALUE_INT_MAX = 2 ^ 29 - 1"

definition frothy_value_is_int :: "frothy_value \<Rightarrow> bool" where
  "frothy_value_is_int v \<longleftrightarrow> v AND FROTHY_VALUE_TAG_MASK = FROTHY_VALUE_TAG_INT"

definition frothy_value_is_object_ref :: "frothy_value \<Rightarrow> bool" where
  "frothy_value_is_object_ref v \<longleftrightarrow> v AND FROTHY_VALUE_TAG_MASK = FROTHY_VALUE_TAG_OBJECT"

definition frothy_value_is_slot_designator :: "frothy_value \<Rightarrow> bool" where
  "frothy_value_is_slot_designator v \<longleftrightarrow> v AND FROTHY_VALUE_TAG_MASK = FROTHY_VALUE_TAG_SLOT"

definition frothy_value_is_bool :: "frothy_value \<Rightarrow> bool" where
  "frothy_value_is_bool v \<longleftrightarrow> v = FROTHY_SPECIAL_TRUE \<or> v = FROTHY_SPECIAL_FALSE"

definition frothy_value_is_nil :: "frothy_value \<Rightarrow> bool" where
  "frothy_value_is_nil v \<longleftrightarrow> v = FROTHY_SPECIAL_NIL"

definition frothy_value_make_bool :: "bool \<Rightarrow> frothy_value" where
  "frothy_value_make_bool b = (if b then FROTHY_SPECIAL_TRUE else FROTHY_SPECIAL_FALSE)"

definition frothy_value_make_nil :: frothy_value where
  "frothy_value_make_nil = FROTHY_SPECIAL_NIL"

definition frothy_value_as_bool :: "frothy_value \<Rightarrow> bool" where
  "frothy_value_as_bool v \<longleftrightarrow> v = FROTHY_SPECIAL_TRUE"

definition frothy_object_value :: "nat \<Rightarrow> frothy_value" where
  "frothy_object_value object_id = push_bit 2 (word_of_nat object_id) OR FROTHY_VALUE_TAG_OBJECT"

definition frothy_value_object_index :: "frothy_value \<Rightarrow> nat" where
  "frothy_value_object_index v = unat (drop_bit 2 v)"

definition frothy_slot_value :: "nat \<Rightarrow> frothy_value" where
  "frothy_slot_value slot_index = push_bit 2 (word_of_nat slot_index) OR FROTHY_VALUE_TAG_SLOT"

definition frothy_value_slot_index :: "frothy_value \<Rightarrow> nat" where
  "frothy_value_slot_index v = unat (drop_bit 2 v)"

definition frothy_value_make_int :: "32 word \<Rightarrow> frothy_value result" where
  "frothy_value_make_int v =
     (if sint v < FROTHY_VALUE_INT_MIN \<or> FROTHY_VALUE_INT_MAX < sint v
      then Inl FROTH_ERROR_VALUE_OVERFLOW
      else Inr (push_bit 2 v))"

definition frothy_value_as_int :: "frothy_value \<Rightarrow> 32 word" where
  "frothy_value_as_int v = signed_drop_bit 2 v"

definition frothy_value_wrap_int :: "64 word \<Rightarrow> 32 word" where
  "frothy_value_wrap_int raw =
     (let msk = push_bit 30 1 - 1 :: 32 word;
          sign = push_bit 29 1 :: 32 word;
          bits = ucast raw AND msk
      in if bits AND sign \<noteq> 0 then bits OR NOT msk else bits)"

definition frothy_value_to_cell :: "frothy_value \<Rightarrow> 32 word" where
  "frothy_value_to_cell v = v"

definition frothy_value_from_cell :: "32 word \<Rightarrow> frothy_value" where
  "frothy_value_from_cell c = c"

lemmas value_tag_defs =
  frothy_value_is_int_def frothy_value_is_object_ref_def frothy_value_is_slot_designator_def
  frothy_value_is_bool_def frothy_value_is_nil_def frothy_value_make_bool_def
  frothy_value_make_nil_def frothy_value_as_bool_def FROTHY_VALUE_TAG_MASK_def
  FROTHY_VALUE_TAG_INT_def FROTHY_VALUE_TAG_SLOT_def FROTHY_VALUE_TAG_OBJECT_def
  FROTHY_SPECIAL_NIL_def FROTHY_SPECIAL_FALSE_def FROTHY_SPECIAL_TRUE_def

subsection \<open>Integers\<close>

lemma and_3_mask: "(v :: 32 word) AND 3 = take_bit 2 v"
proof -
  have "(3 :: 32 word) = mask 2" by (simp add: mask_eq_exp_minus_1)
  then show ?thesis by (simp add: take_bit_eq_mask)
qed

lemma sint_small_bits:
  assumes "sint (v :: 32 word) \<ge> - (2 ^ 29)" "sint v < 2 ^ 29"
  shows "signed_drop_bit 2 (push_bit 2 v) = v"
proof -
  have "sint (v * 4) = signed_take_bit 31 (sint v * 4)"
    using sint_word_ariths(3) [of v 4] by simp
  then have "sint (push_bit 2 v) = signed_take_bit 31 (4 * sint v)"
    by (simp add: push_bit_eq_mult mult.commute)
  also have "\<dots> = 4 * sint v"
    by (rule signed_take_bit_int_eq_self) (use assms in simp_all)
  finally have *: "sint (push_bit 2 v) = 4 * sint v" .
  have "sint (signed_drop_bit 2 (push_bit 2 v)) = sint v"
    by (simp add: sint_signed_drop_bit_eq * drop_bit_eq_div)
  then show ?thesis by (rule signed_word_eqI)
qed

lemma is_int_push_bit: "frothy_value_is_int (push_bit 2 v)"
  by (simp add: value_tag_defs and_3_mask take_bit_push_bit)

lemma is_int_iff_push:
  assumes "frothy_value_is_int v"
  shows "push_bit 2 (signed_drop_bit 2 v) = v"
proof (rule bit_word_eqI)
  fix n assume n: "n < LENGTH(32)"
  have "\<not> bit v n" if "n < 2"
  proof -
    have "take_bit 2 v = 0" using assms by (simp add: value_tag_defs and_3_mask)
    then have "\<not> bit (take_bit 2 v) n" by simp
    with that show ?thesis by (simp add: bit_take_bit_iff)
  qed
  moreover have "2 + (n - 2) = n" if "\<not> n < 2" using that by simp
  ultimately show "bit (push_bit 2 (signed_drop_bit 2 v)) n = bit v n"
    using n by (cases "n < 2") (simp_all add: bit_push_bit_iff bit_signed_drop_bit_iff)
qed

lemma sint_as_int_range:
  "- (2 ^ 29) \<le> sint (signed_drop_bit 2 (v :: 32 word))" "sint (signed_drop_bit 2 v) < 2 ^ 29"
proof -
  have "- (2 ^ 31) \<le> sint v" "sint v < 2 ^ 31"
    using sint_ge [of v] sint_lt [of v] by simp_all
  then show "- (2 ^ 29) \<le> sint (signed_drop_bit 2 v)" "sint (signed_drop_bit 2 v) < 2 ^ 29"
    by (simp_all add: sint_signed_drop_bit_eq drop_bit_eq_div)
qed

lemma make_int_as_int: "frothy_value_is_int v \<Longrightarrow> frothy_value_make_int (frothy_value_as_int v) = Inr v"
  using sint_as_int_range [of v] is_int_iff_push [of v]
  by (simp add: frothy_value_make_int_def frothy_value_as_int_def FROTHY_VALUE_INT_MIN_def
      FROTHY_VALUE_INT_MAX_def)

lemma make_int_Inr:
  "frothy_value_make_int v = Inr w \<longleftrightarrow>
   (- (2 ^ 29) \<le> sint v \<and> sint v < 2 ^ 29) \<and> w = push_bit 2 v"
  by (auto simp: frothy_value_make_int_def FROTHY_VALUE_INT_MIN_def FROTHY_VALUE_INT_MAX_def)

lemma make_int_roundtrip:
  "frothy_value_make_int v = Inr w \<Longrightarrow> frothy_value_is_int w \<and> frothy_value_as_int w = v"
  by (auto simp: make_int_Inr is_int_push_bit frothy_value_as_int_def intro: sint_small_bits)

text \<open>C28. Boxing an integer fails exactly outside the 30-bit range, and boxing and unboxing are
inverse to each other: an integer that is boxed is read back unchanged, and every value with the
integer tag is the box of the integer it reads as.\<close>

theorem value_int_box_unbox:
  "(frothy_value_make_int v = Inl FROTH_ERROR_VALUE_OVERFLOW \<longleftrightarrow>
      sint v < - (2 ^ 29) \<or> 2 ^ 29 \<le> sint v) \<and>
   (frothy_value_make_int v = Inr w \<longleftrightarrow> frothy_value_is_int w \<and> frothy_value_as_int w = v)"
proof (rule conjI)
  show "frothy_value_make_int v = Inl FROTH_ERROR_VALUE_OVERFLOW \<longleftrightarrow>
      sint v < - (2 ^ 29) \<or> 2 ^ 29 \<le> sint v"
    by (auto simp: frothy_value_make_int_def FROTHY_VALUE_INT_MIN_def FROTHY_VALUE_INT_MAX_def)
  show "frothy_value_make_int v = Inr w \<longleftrightarrow> frothy_value_is_int w \<and> frothy_value_as_int w = v"
    using make_int_roundtrip make_int_as_int by blast
qed

subsection \<open>Wrap-around\<close>

lemma wrap_int_signed_take_bit:
  "frothy_value_wrap_int raw = signed_take_bit 29 (ucast raw)"
proof (rule bit_word_eqI)
  fix n assume n: "n < LENGTH(32)"
  have msk: "push_bit 30 1 - 1 = (mask 30 :: 32 word)" by (simp add: mask_eq_exp_minus_1)
  have sign: "(ucast raw AND mask 30) AND push_bit 29 1 \<noteq> (0 :: 32 word) \<longleftrightarrow> bit raw 29"
    unfolding bit_iff_and_push_bit_not_eq_0 [symmetric]
    by (simp add: bit_and_iff bit_ucast_iff bit_mask_iff)
  consider "n < 29" | "n = 29" | "29 < n" by linarith
  then show "bit (frothy_value_wrap_int raw) n = bit (signed_take_bit 29 (ucast raw :: 32 word)) n"
    using n unfolding frothy_value_wrap_int_def Let_def msk sign
    by cases (auto simp: bit_signed_take_bit_iff bit_or_iff bit_and_iff bit_not_iff bit_mask_iff
        bit_ucast_iff min_def)
qed

lemma sint_wrap_int:
  "sint (frothy_value_wrap_int raw) = (sint raw + 2 ^ 29) mod 2 ^ 30 - 2 ^ 29"
proof -
  have "sint (frothy_value_wrap_int raw) = signed_take_bit 29 (sint raw)"
  proof (rule bit_eqI)
    fix n
    show "bit (sint (frothy_value_wrap_int raw)) n = bit (signed_take_bit 29 (sint raw)) n"
      by (auto simp: wrap_int_signed_take_bit bit_sint_iff bit_signed_take_bit_iff bit_ucast_iff
          min_def)
  qed
  also have "\<dots> = (sint raw + 2 ^ 29) mod 2 ^ 30 - 2 ^ 29"
    by (simp add: signed_take_bit_eq_take_bit_shift take_bit_eq_mod)
  finally show ?thesis .
qed

text \<open>C27. The wrap of a 64-bit intermediate is the unique 30-bit signed integer congruent to it
modulo 2^30, it equals the intermediate when that already fits, and boxing it never
overflows.\<close>

theorem value_wrap_int_spec:
  "sint (frothy_value_wrap_int raw) = (sint raw + 2 ^ 29) mod 2 ^ 30 - 2 ^ 29 \<and>
   (sint raw < - (2 ^ 29) \<or> 2 ^ 29 \<le> sint raw \<or> sint (frothy_value_wrap_int raw) = sint raw) \<and>
   (\<exists>v. frothy_value_make_int (frothy_value_wrap_int raw) = Inr v \<and>
        frothy_value_as_int v = frothy_value_wrap_int raw)"
proof (intro conjI)
  show s: "sint (frothy_value_wrap_int raw) = (sint raw + 2 ^ 29) mod 2 ^ 30 - 2 ^ 29"
    by (rule sint_wrap_int)
  show "sint raw < - (2 ^ 29) \<or> 2 ^ 29 \<le> sint raw \<or> sint (frothy_value_wrap_int raw) = sint raw"
    unfolding s by (cases "- (2 ^ 29) \<le> sint raw \<and> sint raw < 2 ^ 29") auto
  have "frothy_value_make_int (frothy_value_wrap_int raw) = Inr (push_bit 2 (frothy_value_wrap_int raw))"
    using s by (simp add: make_int_Inr)
  then show "\<exists>v. frothy_value_make_int (frothy_value_wrap_int raw) = Inr v \<and>
        frothy_value_as_int v = frothy_value_wrap_int raw"
    using make_int_roundtrip by blast
qed

subsection \<open>Tags\<close>

lemma drop_bit_tagged:
  "drop_bit 2 (push_bit 2 w OR t) = (take_bit 30 w :: 32 word)" if "drop_bit 2 t = 0"
proof (rule bit_word_eqI)
  fix n assume n: "n < LENGTH(32)"
  have "\<not> bit (drop_bit 2 t) n" using that by simp
  then show "bit (drop_bit 2 (push_bit 2 w OR t)) n = bit (take_bit 30 w) n"
    using n by (auto simp: bit_drop_bit_eq bit_or_iff bit_push_bit_iff bit_take_bit_iff)
qed

lemma take_bit_word_of_nat: "i < 2 ^ 30 \<Longrightarrow> unat (take_bit 30 (word_of_nat i :: 32 word)) = i"
  by (simp add: unsigned_take_bit_eq unsigned_of_nat take_bit_nat_eq_self)

lemma object_value_index [simp]:
  "i < 2 ^ 30 \<Longrightarrow> frothy_value_object_index (frothy_object_value i) = i"
  "i < 2 ^ 30 \<Longrightarrow> frothy_value_slot_index (frothy_slot_value i) = i"
  unfolding frothy_value_object_index_def frothy_object_value_def FROTHY_VALUE_TAG_OBJECT_def
    frothy_value_slot_index_def frothy_slot_value_def FROTHY_VALUE_TAG_SLOT_def
  by (subst drop_bit_tagged, simp, simp only: take_bit_word_of_nat)+

lemma take_bit_tagged: "take_bit 2 (push_bit 2 w OR t) = (take_bit 2 t :: 32 word)"
  by (simp add: take_bit_or take_bit_push_bit)

lemma object_value_tag [simp]:
  "frothy_value_is_object_ref (frothy_object_value i)"
  "frothy_value_is_slot_designator (frothy_slot_value i)"
  unfolding value_tag_defs frothy_object_value_def frothy_slot_value_def and_3_mask
    take_bit_tagged by simp_all

lemma tag_exclusive:
  "frothy_value_is_object_ref v \<Longrightarrow> \<not> frothy_value_is_int v"
  "frothy_value_is_object_ref v \<Longrightarrow> \<not> frothy_value_is_slot_designator v"
  "frothy_value_is_slot_designator v \<Longrightarrow> \<not> frothy_value_is_int v"
  "frothy_value_is_bool v \<Longrightarrow> \<not> frothy_value_is_object_ref v"
  "frothy_value_is_bool v \<Longrightarrow> \<not> frothy_value_is_int v"
  "frothy_value_is_bool v \<Longrightarrow> \<not> frothy_value_is_slot_designator v"
  "frothy_value_is_nil v \<Longrightarrow> \<not> frothy_value_is_object_ref v"
  "frothy_value_is_nil v \<Longrightarrow> \<not> frothy_value_is_int v"
  "frothy_value_is_nil v \<Longrightarrow> \<not> frothy_value_is_slot_designator v"
  "frothy_value_is_nil v \<Longrightarrow> \<not> frothy_value_is_bool v"
  by (auto simp: value_tag_defs)

lemma is_object_ref_special [simp]:
  "\<not> frothy_value_is_object_ref frothy_value_make_nil"
  "\<not> frothy_value_is_object_ref (frothy_value_make_bool b)"
  "\<not> frothy_value_is_object_ref 0"
  by (simp_all add: value_tag_defs)

end
