(* ===== verification/Frothy_IR.thy ===== *)
theory Frothy_IR
  imports Frothy_Value
begin

section \<open>The IR of a compiled program (frothy_ir.h, frothy_ir.c)\<close>

text \<open>
  A program is three arrays: literals, nodes, and the link array that holds argument lists,
  sequence items and record field names. Nodes refer to each other by index. Strings are
  NUL-terminated in C: they are byte lists here, read through \<open>c_string\<close> wherever the code
  calls \<open>strlen\<close>. A program owns its arrays (\<open>FROTHY_IR_STORAGE_DYNAMIC\<close>) or is a view of a
  packed block of the runtime's payload arena (\<open>FROTHY_IR_STORAGE_VIEW\<close>); the base of a view
  is its offset in that arena. The packed block's size computation and the copy that fills it
  are modelled with the cursor arithmetic of the code; failure of the C heap (\<open>malloc\<close>) is
  not.
\<close>

type_synonym node_id = nat

datatype frothy_ir_literal =
    LITERAL_INT "32 word"
  | LITERAL_BOOL bool
  | LITERAL_NIL
  | LITERAL_TEXT "byte list"

datatype frothy_ir_builtin =
    BUILTIN_NONE | BUILTIN_CELLS | BUILTIN_NOT | BUILTIN_NEGATE | BUILTIN_ADD | BUILTIN_SUB
  | BUILTIN_MUL | BUILTIN_DIV | BUILTIN_REM | BUILTIN_LT | BUILTIN_LE | BUILTIN_GT | BUILTIN_GE
  | BUILTIN_EQ | BUILTIN_NEQ

datatype frothy_ir_node =
    NODE_LIT (lit_id: nat)
  | NODE_READ_LOCAL (local_index: nat)
  | NODE_WRITE_LOCAL (local_index: nat) (value_node: node_id)
  | NODE_READ_SLOT (slot_name: "byte list")
  | NODE_WRITE_SLOT (slot_name: "byte list") (value_node: node_id) (require_existing: bool)
  | NODE_READ_SLOT_FALLBACK (primary_slot_name: "byte list") (fallback_slot_name: "byte list")
  | NODE_WRITE_SLOT_FALLBACK (primary_slot_name: "byte list") (fallback_slot_name: "byte list")
      (value_node: node_id) (require_existing: bool)
  | NODE_SLOT_DESIGNATOR (slot_name: "byte list")
  | NODE_RECORD_DEF (record_name: "byte list") (first_field: nat) (field_count: nat)
  | NODE_READ_INDEX (base_node: node_id) (index_node: node_id)
  | NODE_WRITE_INDEX (base_node: node_id) (index_node: node_id) (value_node: node_id)
  | NODE_READ_FIELD (base_node: node_id) (field_name: "byte list")
  | NODE_WRITE_FIELD (base_node: node_id) (field_name: "byte list") (value_node: node_id)
  | NODE_FN (fn_arity: nat) (fn_local_count: nat) (body_node: node_id)
  | NODE_CALL (call_builtin: frothy_ir_builtin) (callee_node: node_id) (first_arg: nat)
      (arg_count: nat)
  | NODE_IF (condition_node: node_id) (then_branch: node_id) (else_branch: node_id)
      (has_else_branch: bool)
  | NODE_WHILE (condition_node: node_id) (body_node: node_id)
  | NODE_SEQ (first_item: nat) (item_count: nat)

datatype frothy_ir_storage = STORAGE_DYNAMIC | STORAGE_VIEW

record frothy_ir_program =
  ir_literals :: "frothy_ir_literal list"
  ir_nodes :: "frothy_ir_node list"
  ir_links :: "node_id list"
  ir_root :: node_id
  ir_root_local_count :: nat
  ir_storage_kind :: frothy_ir_storage
  ir_storage_base :: nat
  ir_storage_size :: nat

definition FROTHY_IR_NODE_INVALID :: node_id where "FROTHY_IR_NODE_INVALID = SIZE_MAX"
definition FROTHY_IR_LITERAL_CAPACITY :: nat where "FROTHY_IR_LITERAL_CAPACITY = 128"
definition FROTHY_IR_NODE_CAPACITY :: nat where "FROTHY_IR_NODE_CAPACITY = 512"
definition FROTHY_IR_LINK_CAPACITY :: nat where "FROTHY_IR_LINK_CAPACITY = 512"

text \<open>Sizes and alignments of the C structures on the 64-bit host.\<close>

definition SIZEOF_IR_LITERAL :: nat where "SIZEOF_IR_LITERAL = 16"
definition SIZEOF_IR_NODE :: nat where "SIZEOF_IR_NODE = 40"
definition SIZEOF_IR_NODE_ID :: nat where "SIZEOF_IR_NODE_ID = 8"
definition ALIGNOF_IR :: nat where "ALIGNOF_IR = 8"

definition frothy_ir_program_init :: frothy_ir_program where
  "frothy_ir_program_init = \<lparr>ir_literals = [], ir_nodes = [], ir_links = [],
     ir_root = FROTHY_IR_NODE_INVALID, ir_root_local_count = 0,
     ir_storage_kind = STORAGE_DYNAMIC, ir_storage_base = 0, ir_storage_size = 0\<rparr>"

definition strlen :: "byte list \<Rightarrow> nat" where "strlen s = length (c_string s)"

subsection \<open>Packed size\<close>

definition frothy_ir_align_up :: "nat \<Rightarrow> nat \<Rightarrow> nat" where
  "frothy_ir_align_up v alignment =
     (if alignment = 0 then v
      else let remainder = v mod alignment
           in if remainder = 0 then v else (v + (alignment - remainder)) mod 2 ^ 64)"

definition frothy_ir_add_size :: "nat \<Rightarrow> nat \<Rightarrow> nat result" where
  "frothy_ir_add_size lhs rhs =
     (if SIZE_MAX - rhs < lhs then Inl FROTH_ERROR_HEAP_OUT_OF_MEMORY else Inr (lhs + rhs))"

text \<open>The strings of a node, in the order both passes visit them.\<close>

fun node_strings :: "frothy_ir_node \<Rightarrow> byte list list" where
  "node_strings (NODE_READ_SLOT n) = [n]"
| "node_strings (NODE_READ_SLOT_FALLBACK p f) = [p, f]"
| "node_strings (NODE_WRITE_SLOT n v r) = [n]"
| "node_strings (NODE_WRITE_SLOT_FALLBACK p f v r) = [p, f]"
| "node_strings (NODE_SLOT_DESIGNATOR n) = [n]"
| "node_strings (NODE_RECORD_DEF n a b) = [n]"
| "node_strings (NODE_READ_FIELD b n) = [n]"
| "node_strings (NODE_WRITE_FIELD b n v) = [n]"
| "node_strings nd = []"

fun literal_strings :: "frothy_ir_literal \<Rightarrow> byte list list" where
  "literal_strings (LITERAL_TEXT t) = [t]"
| "literal_strings l = []"

fun add_string_bytes :: "byte list list \<Rightarrow> nat \<Rightarrow> nat result" where
  "add_string_bytes [] acc = Inr acc"
| "add_string_bytes (s # ss) acc =
     FROTH_TRY (frothy_ir_add_size acc (strlen s + 1)) (add_string_bytes ss)"

definition frothy_ir_program_string_bytes :: "frothy_ir_program \<Rightarrow> nat result" where
  "frothy_ir_program_string_bytes p =
     FROTH_TRY (add_string_bytes (concat (map literal_strings (ir_literals p))) 0)
       (add_string_bytes (concat (map node_strings (ir_nodes p))))"

definition add_array :: "nat \<Rightarrow> nat \<Rightarrow> nat \<Rightarrow> nat result" where
  "add_array n size_of v =
     (if 0 < n
      then frothy_ir_add_size (frothy_ir_align_up v ALIGNOF_IR) ((n * size_of) mod 2 ^ 64)
      else Inr v)"

definition frothy_ir_program_packed_size :: "nat \<Rightarrow> nat \<Rightarrow> nat \<Rightarrow> nat \<Rightarrow> nat result" where
  "frothy_ir_program_packed_size literal_count node_count link_count string_bytes =
     FROTH_TRY (add_array literal_count SIZEOF_IR_LITERAL 0) (\<lambda>v.
     FROTH_TRY (add_array node_count SIZEOF_IR_NODE v) (\<lambda>v.
     FROTH_TRY (add_array link_count SIZEOF_IR_NODE_ID v) (\<lambda>v.
     frothy_ir_add_size v string_bytes)))"

definition frothy_ir_program_clone_packed_size :: "frothy_ir_program \<Rightarrow> nat result" where
  "frothy_ir_program_clone_packed_size p =
     FROTH_TRY (frothy_ir_program_string_bytes p) (\<lambda>string_bytes.
     frothy_ir_program_packed_size (length (ir_literals p)) (length (ir_nodes p))
       (length (ir_links p)) string_bytes)"

subsection \<open>Packed views and the packed copy\<close>

text \<open>
  \<open>frothy_ir_program_init_packed_view\<close> lays the three arrays out in the block and returns the
  cursor where the strings start; the arrays it leaves are zero-filled, which the copy below
  overwrites completely.
\<close>

definition frothy_ir_program_init_packed_view ::
  "nat \<Rightarrow> nat \<Rightarrow> nat \<Rightarrow> nat \<Rightarrow> nat \<Rightarrow> (frothy_ir_program \<times> nat) result" where
  "frothy_ir_program_init_packed_view base storage_size literal_count node_count link_count =
     FROTH_TRY (frothy_ir_program_packed_size literal_count node_count link_count 0)
       (\<lambda>array_bytes.
     if storage_size < array_bytes then Inl FROTH_ERROR_HEAP_OUT_OF_MEMORY
     else
       let c0 = 0;
           c1 = (if 0 < literal_count
                 then frothy_ir_align_up c0 ALIGNOF_IR + literal_count * SIZEOF_IR_LITERAL else c0);
           c2 = (if 0 < node_count
                 then frothy_ir_align_up c1 ALIGNOF_IR + node_count * SIZEOF_IR_NODE else c1);
           c3 = (if 0 < link_count
                 then frothy_ir_align_up c2 ALIGNOF_IR + link_count * SIZEOF_IR_NODE_ID else c2)
       in Inr (frothy_ir_program_init\<lparr>
                 ir_literals := replicate literal_count (LITERAL_INT 0),
                 ir_nodes := replicate node_count (NODE_LIT 0),
                 ir_links := replicate link_count 0,
                 ir_storage_kind := STORAGE_VIEW, ir_storage_base := base,
                 ir_storage_size := storage_size\<rparr>, c3))"

text \<open>The cursor and the end are offsets from the block's base.\<close>

definition frothy_ir_copy_packed_string ::
  "byte list \<Rightarrow> nat \<Rightarrow> nat \<Rightarrow> (byte list \<times> nat) result" where
  "frothy_ir_copy_packed_string text cursor storage_end =
     (if storage_end - cursor < strlen text + 1 then Inl FROTH_ERROR_HEAP_OUT_OF_MEMORY
      else Inr (c_string text, cursor + (strlen text + 1)))"

fun copy_literal_strings ::
  "frothy_ir_literal list \<Rightarrow> nat \<Rightarrow> nat \<Rightarrow> (frothy_ir_literal list \<times> nat) result" where
  "copy_literal_strings [] cursor storage_end = Inr ([], cursor)"
| "copy_literal_strings (LITERAL_TEXT t # ls) cursor storage_end =
     FROTH_TRY (frothy_ir_copy_packed_string t cursor storage_end) (\<lambda>(t', cursor).
     FROTH_TRY (copy_literal_strings ls cursor storage_end) (\<lambda>(ls', cursor).
     Inr (LITERAL_TEXT t' # ls', cursor)))"
| "copy_literal_strings (l # ls) cursor storage_end =
     FROTH_TRY (copy_literal_strings ls cursor storage_end) (\<lambda>(ls', cursor).
     Inr (l # ls', cursor))"

definition copy_one :: "byte list \<Rightarrow> (byte list \<Rightarrow> frothy_ir_node) \<Rightarrow> nat \<Rightarrow> nat \<Rightarrow>
  (frothy_ir_node \<times> nat) result" where
  "copy_one s mk cursor storage_end =
     FROTH_TRY (frothy_ir_copy_packed_string s cursor storage_end) (\<lambda>(s', cursor).
     Inr (mk s', cursor))"

definition copy_two :: "byte list \<Rightarrow> byte list \<Rightarrow> (byte list \<Rightarrow> byte list \<Rightarrow> frothy_ir_node) \<Rightarrow>
  nat \<Rightarrow> nat \<Rightarrow> (frothy_ir_node \<times> nat) result" where
  "copy_two s1 s2 mk cursor storage_end =
     FROTH_TRY (frothy_ir_copy_packed_string s1 cursor storage_end) (\<lambda>(s1', cursor).
     FROTH_TRY (frothy_ir_copy_packed_string s2 cursor storage_end) (\<lambda>(s2', cursor).
     Inr (mk s1' s2', cursor)))"

fun copy_node_strings :: "frothy_ir_node \<Rightarrow> nat \<Rightarrow> nat \<Rightarrow> (frothy_ir_node \<times> nat) result" where
  "copy_node_strings (NODE_READ_SLOT n) = copy_one n NODE_READ_SLOT"
| "copy_node_strings (NODE_READ_SLOT_FALLBACK p f) = copy_two p f NODE_READ_SLOT_FALLBACK"
| "copy_node_strings (NODE_WRITE_SLOT n v r) = copy_one n (\<lambda>n. NODE_WRITE_SLOT n v r)"
| "copy_node_strings (NODE_WRITE_SLOT_FALLBACK p f v r) =
     copy_two p f (\<lambda>p f. NODE_WRITE_SLOT_FALLBACK p f v r)"
| "copy_node_strings (NODE_SLOT_DESIGNATOR n) = copy_one n NODE_SLOT_DESIGNATOR"
| "copy_node_strings (NODE_RECORD_DEF n a b) = copy_one n (\<lambda>n. NODE_RECORD_DEF n a b)"
| "copy_node_strings (NODE_READ_FIELD b n) = copy_one n (NODE_READ_FIELD b)"
| "copy_node_strings (NODE_WRITE_FIELD b n v) = copy_one n (\<lambda>n. NODE_WRITE_FIELD b n v)"
| "copy_node_strings nd = (\<lambda>cursor storage_end. Inr (nd, cursor))"

fun copy_all_node_strings ::
  "frothy_ir_node list \<Rightarrow> nat \<Rightarrow> nat \<Rightarrow> (frothy_ir_node list \<times> nat) result" where
  "copy_all_node_strings [] cursor storage_end = Inr ([], cursor)"
| "copy_all_node_strings (nd # nds) cursor storage_end =
     FROTH_TRY (copy_node_strings nd cursor storage_end) (\<lambda>(nd', cursor).
     FROTH_TRY (copy_all_node_strings nds cursor storage_end) (\<lambda>(nds', cursor).
     Inr (nd' # nds', cursor)))"

definition frothy_ir_program_clone_packed ::
  "frothy_ir_program \<Rightarrow> nat \<Rightarrow> nat \<Rightarrow> frothy_ir_program result" where
  "frothy_ir_program_clone_packed source base storage_size =
     FROTH_TRY (frothy_ir_program_clone_packed_size source) (\<lambda>needed.
     if storage_size < needed then Inl FROTH_ERROR_HEAP_OUT_OF_MEMORY
     else
       FROTH_TRY (frothy_ir_program_init_packed_view base storage_size
         (length (ir_literals source)) (length (ir_nodes source)) (length (ir_links source)))
         (\<lambda>(dest, cursor).
       FROTH_TRY (copy_literal_strings (ir_literals source) cursor storage_size)
         (\<lambda>(literals, cursor).
       FROTH_TRY (copy_all_node_strings (ir_nodes source) cursor storage_size)
         (\<lambda>(nodes, cursor).
       Inr (dest\<lparr>ir_root := ir_root source, ir_root_local_count := ir_root_local_count source,
              ir_literals := literals, ir_nodes := nodes, ir_links := ir_links source\<rparr>)))))"

subsection \<open>The deep copy on the C heap\<close>

fun clone_literal :: "frothy_ir_literal \<Rightarrow> frothy_ir_literal" where
  "clone_literal (LITERAL_TEXT t) = LITERAL_TEXT (c_string t)"
| "clone_literal l = l"

fun clone_node :: "frothy_ir_node \<Rightarrow> frothy_ir_node" where
  "clone_node (NODE_READ_SLOT n) = NODE_READ_SLOT (c_string n)"
| "clone_node (NODE_READ_SLOT_FALLBACK p f) = NODE_READ_SLOT_FALLBACK (c_string p) (c_string f)"
| "clone_node (NODE_WRITE_SLOT n v r) = NODE_WRITE_SLOT (c_string n) v r"
| "clone_node (NODE_WRITE_SLOT_FALLBACK p f v r) =
     NODE_WRITE_SLOT_FALLBACK (c_string p) (c_string f) v r"
| "clone_node (NODE_SLOT_DESIGNATOR n) = NODE_SLOT_DESIGNATOR (c_string n)"
| "clone_node (NODE_RECORD_DEF n a b) = NODE_RECORD_DEF (c_string n) a b"
| "clone_node (NODE_READ_FIELD b n) = NODE_READ_FIELD b (c_string n)"
| "clone_node (NODE_WRITE_FIELD b n v) = NODE_WRITE_FIELD b (c_string n) v"
| "clone_node nd = nd"

definition frothy_ir_program_clone :: "frothy_ir_program \<Rightarrow> frothy_ir_program" where
  "frothy_ir_program_clone source = frothy_ir_program_init\<lparr>
     ir_root := ir_root source, ir_root_local_count := ir_root_local_count source,
     ir_literals := map clone_literal (ir_literals source),
     ir_nodes := map clone_node (ir_nodes source), ir_links := ir_links source\<rparr>"

subsection \<open>Size computation and copy agree\<close>

definition strings_size :: "byte list list \<Rightarrow> nat" where
  "strings_size ss = (\<Sum>s\<leftarrow>ss. strlen s + 1)"

lemma strings_size_simps [simp]:
  "strings_size [] = 0" "strings_size (s # ss) = strlen s + 1 + strings_size ss"
  "strings_size (ss @ ts) = strings_size ss + strings_size ts"
  by (simp_all add: strings_size_def)

lemma add_size_Inr:
  "frothy_ir_add_size a b = Inr c \<longleftrightarrow> c = a + b \<and> a \<le> SIZE_MAX - b"
  by (auto simp: frothy_ir_add_size_def)

lemma add_string_bytes_Inr: "add_string_bytes ss acc = Inr n \<Longrightarrow> n = acc + strings_size ss"
proof (induction ss arbitrary: acc)
  case (Cons s ss)
  from Cons.prems have "add_string_bytes ss (acc + (strlen s + 1)) = Inr n"
    by (auto simp: FROTH_TRY_Inr_iff add_size_Inr)
  from Cons.IH [OF this] show ?case by simp
qed simp

lemma string_bytes_Inr:
  "frothy_ir_program_string_bytes p = Inr n \<Longrightarrow>
   n = strings_size (concat (map literal_strings (ir_literals p)))
     + strings_size (concat (map node_strings (ir_nodes p)))"
  by (auto simp: frothy_ir_program_string_bytes_def FROTH_TRY_Inr_iff dest!: add_string_bytes_Inr)

definition packed_arrays_size :: "nat \<Rightarrow> nat \<Rightarrow> nat \<Rightarrow> nat" where
  "packed_arrays_size l n k = l * SIZEOF_IR_LITERAL + n * SIZEOF_IR_NODE + k * SIZEOF_IR_NODE_ID"

definition packed_counts_ok :: "nat \<Rightarrow> nat \<Rightarrow> nat \<Rightarrow> bool" where
  "packed_counts_ok l n k \<longleftrightarrow> packed_arrays_size l n k < 2 ^ 64"

text \<open>All three element sizes are multiples of the alignment, so no padding is ever added.\<close>

lemma align_up_multiple [simp]: "frothy_ir_align_up (8 * m) 8 = 8 * m"
  by (simp add: frothy_ir_align_up_def)

lemma align_sizes: "SIZEOF_IR_LITERAL = 8 * 2" "SIZEOF_IR_NODE = 8 * 5" "SIZEOF_IR_NODE_ID = 8 * 1"
  "ALIGNOF_IR = 8"
  by (simp_all add: SIZEOF_IR_LITERAL_def SIZEOF_IR_NODE_def SIZEOF_IR_NODE_ID_def ALIGNOF_IR_def)

lemma add_array_multiple:
  assumes "8 * (m + n * k) < 2 ^ 64"
  shows "add_array n (8 * k) (8 * m) = Inr (8 * (m + n * k))"
proof -
  have eq: "n * (8 * k) = 8 * (n * k)" by simp
  have "8 * (n * k) < 2 ^ 64" using assms unfolding distrib_left by linarith
  then have "8 * (n * k) mod 2 ^ 64 = 8 * (n * k)" by (rule mod_less)
  then show ?thesis
    using assms unfolding add_array_def eq
    by (auto simp: align_sizes(4) add_size_Inr SIZE_MAX_def)
qed

lemma packed_size_eq:
  assumes "packed_counts_ok l n k"
  shows "frothy_ir_program_packed_size l n k b =
    frothy_ir_add_size (packed_arrays_size l n k) b"
proof -
  have b: "8 * (0 + l * 2) < 2 ^ 64" "8 * (l * 2 + n * 5) < 2 ^ 64"
    "8 * (l * 2 + n * 5 + k * 1) < 2 ^ 64"
    using assms by (simp_all add: packed_counts_ok_def packed_arrays_size_def align_sizes)
  have "8 * (l * 2 + n * 5 + k * 1) = packed_arrays_size l n k"
    by (simp add: packed_arrays_size_def align_sizes)
  then show ?thesis
    using add_array_multiple [OF b(1)] add_array_multiple [OF b(2)] add_array_multiple [OF b(3)]
    unfolding frothy_ir_program_packed_size_def align_sizes(1,2,3) by simp
qed

lemma init_packed_view_eq:
  assumes "packed_counts_ok l n k" "packed_arrays_size l n k \<le> sz"
  shows "\<exists>p. frothy_ir_program_init_packed_view base sz l n k = Inr (p, packed_arrays_size l n k)
    \<and> ir_storage_kind p = STORAGE_VIEW \<and> ir_storage_base p = base \<and> ir_storage_size p = sz"
proof -
  have "frothy_ir_program_packed_size l n k 0 = Inr (packed_arrays_size l n k)"
    using assms(1) by (simp add: packed_size_eq add_size_Inr packed_counts_ok_def SIZE_MAX_def)
  moreover have "frothy_ir_align_up (l * 16) 8 = l * 16"
    "frothy_ir_align_up (l * 16 + n * 40) 8 = l * 16 + n * 40"
    "frothy_ir_align_up (n * 40) 8 = n * 40" "frothy_ir_align_up 0 8 = 0"
    by (simp_all add: frothy_ir_align_up_def)
  ultimately show ?thesis
    using assms(2)
    by (simp add: frothy_ir_program_init_packed_view_def Let_def packed_arrays_size_def
        SIZEOF_IR_LITERAL_def SIZEOF_IR_NODE_def SIZEOF_IR_NODE_ID_def ALIGNOF_IR_def)
qed

lemma copy_packed_string_ok:
  "cursor + (strlen s + 1) \<le> e \<Longrightarrow>
   frothy_ir_copy_packed_string s cursor e = Inr (c_string s, cursor + (strlen s + 1))"
  by (simp add: frothy_ir_copy_packed_string_def)

lemma copy_literal_strings_ok:
  "cursor + strings_size (concat (map literal_strings ls)) \<le> e \<Longrightarrow>
   copy_literal_strings ls cursor e =
     Inr (map clone_literal ls, cursor + strings_size (concat (map literal_strings ls)))"
proof (induction ls arbitrary: cursor)
  case (Cons l ls)
  then show ?case by (cases l) (simp_all add: copy_packed_string_ok)
qed simp

lemma copy_node_strings_ok:
  "cursor + strings_size (node_strings nd) \<le> e \<Longrightarrow>
   copy_node_strings nd cursor e = Inr (clone_node nd, cursor + strings_size (node_strings nd))"
  by (cases nd) (simp_all add: copy_one_def copy_two_def copy_packed_string_ok)

lemma copy_all_node_strings_ok:
  "cursor + strings_size (concat (map node_strings nds)) \<le> e \<Longrightarrow>
   copy_all_node_strings nds cursor e =
     Inr (map clone_node nds, cursor + strings_size (concat (map node_strings nds)))"
  by (induction nds arbitrary: cursor) (simp_all add: copy_node_strings_ok)

lemma clone_packed_ok:
  assumes ok: "packed_counts_ok (length (ir_literals p)) (length (ir_nodes p)) (length (ir_links p))"
    and size: "frothy_ir_program_clone_packed_size p = Inr n" and "n \<le> sz"
  shows "frothy_ir_program_clone_packed p base sz =
    Inr ((frothy_ir_program_clone p)\<lparr>ir_storage_kind := STORAGE_VIEW, ir_storage_base := base,
           ir_storage_size := sz\<rparr>)"
proof -
  let ?ls = "strings_size (concat (map literal_strings (ir_literals p)))"
  let ?ns = "strings_size (concat (map node_strings (ir_nodes p)))"
  let ?a = "packed_arrays_size (length (ir_literals p)) (length (ir_nodes p)) (length (ir_links p))"
  have n: "n = ?a + (?ls + ?ns)"
    using size by (auto simp: frothy_ir_program_clone_packed_size_def FROTH_TRY_Inr_iff
        packed_size_eq [OF ok] add_size_Inr dest: string_bytes_Inr)
  then have "?a \<le> sz" using assms(3) by simp
  from init_packed_view_eq [OF ok this] obtain q where
    q: "frothy_ir_program_init_packed_view base sz (length (ir_literals p)) (length (ir_nodes p))
          (length (ir_links p)) = Inr (q, ?a)"
    and q': "ir_storage_kind q = STORAGE_VIEW" "ir_storage_base q = base" "ir_storage_size q = sz"
    by blast
  have "copy_literal_strings (ir_literals p) ?a sz =
      Inr (map clone_literal (ir_literals p), ?a + ?ls)"
    by (rule copy_literal_strings_ok) (use n assms(3) in simp)
  moreover have "copy_all_node_strings (ir_nodes p) (?a + ?ls) sz =
      Inr (map clone_node (ir_nodes p), ?a + ?ls + ?ns)"
    by (rule copy_all_node_strings_ok) (use n assms(3) in simp)
  ultimately show ?thesis
    using size assms(3) q q'
    by (simp add: frothy_ir_program_clone_packed_def frothy_ir_program_clone_def
        frothy_ir_program_init_def)
qed

text \<open>Programs within the parser's capacities, with NUL-free strings.\<close>

definition ir_program_wf :: "frothy_ir_program \<Rightarrow> bool" where
  "ir_program_wf p \<longleftrightarrow>
     length (ir_literals p) \<le> FROTHY_IR_LITERAL_CAPACITY \<and>
     length (ir_nodes p) \<le> FROTHY_IR_NODE_CAPACITY \<and>
     length (ir_links p) \<le> FROTHY_IR_LINK_CAPACITY \<and>
     (\<forall>l \<in> set (ir_literals p). \<forall>s \<in> set (literal_strings l). 0 \<notin> set s) \<and>
     (\<forall>nd \<in> set (ir_nodes p). \<forall>s \<in> set (node_strings nd). 0 \<notin> set s)"

lemma ir_program_wf_counts:
  "ir_program_wf p \<Longrightarrow>
   packed_counts_ok (length (ir_literals p)) (length (ir_nodes p)) (length (ir_links p))"
  by (simp add: ir_program_wf_def packed_counts_ok_def packed_arrays_size_def
      FROTHY_IR_LITERAL_CAPACITY_def FROTHY_IR_NODE_CAPACITY_def FROTHY_IR_LINK_CAPACITY_def
      SIZEOF_IR_LITERAL_def SIZEOF_IR_NODE_def SIZEOF_IR_NODE_ID_def)

lemma c_string_nul_free: "0 \<notin> set s \<Longrightarrow> c_string s = s"
  using c_string_append_nul [of s "[]"] unfolding c_string_def takeWhile_eq_all_conv by blast

lemma clone_literal_wf: "\<forall>s \<in> set (literal_strings l). 0 \<notin> set s \<Longrightarrow> clone_literal l = l"
  by (cases l) (simp_all add: c_string_nul_free)

lemma clone_node_wf: "\<forall>s \<in> set (node_strings nd). 0 \<notin> set s \<Longrightarrow> clone_node nd = nd"
  by (cases nd) (simp_all add: c_string_nul_free)

lemma clone_wf:
  assumes "ir_program_wf p"
  shows "map clone_literal (ir_literals p) = ir_literals p" "map clone_node (ir_nodes p) = ir_nodes p"
proof -
  show "map clone_literal (ir_literals p) = ir_literals p"
    by (rule map_idI, rule clone_literal_wf) (use assms in \<open>simp add: ir_program_wf_def\<close>)
  show "map clone_node (ir_nodes p) = ir_nodes p"
    by (rule map_idI, rule clone_node_wf) (use assms in \<open>simp add: ir_program_wf_def\<close>)
qed

text \<open>C23. The size pass and the copy pass of a packed clone agree: whenever the block is at
least as long as the size computed for a well-formed program, the packed copy succeeds, no string
copy runs past the end of the block, and the view has the same literals, nodes, links and root as
the source.\<close>

theorem clone_packed_spec:
  assumes "ir_program_wf p" and "frothy_ir_program_clone_packed_size p = Inr n" and "n \<le> sz"
  shows "frothy_ir_program_clone_packed p base sz =
    Inr (p\<lparr>ir_storage_kind := STORAGE_VIEW, ir_storage_base := base, ir_storage_size := sz\<rparr>)"
proof -
  have "(frothy_ir_program_clone p)\<lparr>ir_storage_kind := STORAGE_VIEW, ir_storage_base := base,
          ir_storage_size := sz\<rparr>
      = p\<lparr>ir_storage_kind := STORAGE_VIEW, ir_storage_base := base, ir_storage_size := sz\<rparr>"
    using clone_wf [OF assms(1)]
    by (cases p) (simp add: frothy_ir_program_clone_def frothy_ir_program_init_def)
  with clone_packed_ok [OF ir_program_wf_counts [OF assms(1)] assms(2,3), of base]
  show ?thesis by simp
qed

definition sample_program :: frothy_ir_program where
  "sample_program = \<lparr>ir_literals = [LITERAL_TEXT [104, 105], LITERAL_INT 7],
     ir_nodes = [NODE_LIT 0, NODE_WRITE_SLOT [97] 0 False, NODE_READ_SLOT [97], NODE_SEQ 0 2],
     ir_links = [1, 2], ir_root = 3, ir_root_local_count = 0, ir_storage_kind = STORAGE_DYNAMIC,
     ir_storage_base = 0, ir_storage_size = 0\<rparr>"

lemma sample_program_wf: "ir_program_wf sample_program"
  by (simp add: ir_program_wf_def sample_program_def FROTHY_IR_LITERAL_CAPACITY_def
      FROTHY_IR_NODE_CAPACITY_def FROTHY_IR_LINK_CAPACITY_def)

lemma sample_program_size: "frothy_ir_program_clone_packed_size sample_program = Inr 215"
  by (simp add: sample_program_def frothy_ir_program_clone_packed_size_def
      frothy_ir_program_string_bytes_def frothy_ir_program_packed_size_def add_array_def
      frothy_ir_add_size_def frothy_ir_align_up_def strlen_def c_string_def SIZE_MAX_def
      SIZEOF_IR_LITERAL_def SIZEOF_IR_NODE_def SIZEOF_IR_NODE_ID_def ALIGNOF_IR_def)

lemma clone_packed_spec_witness:
  "ir_program_wf sample_program \<and> frothy_ir_program_clone_packed_size sample_program = Inr 215 \<and>
   frothy_ir_program_clone_packed sample_program 32 224 =
     Inr (sample_program\<lparr>ir_storage_kind := STORAGE_VIEW, ir_storage_base := 32,
       ir_storage_size := 224\<rparr>)"
  using clone_packed_spec [OF sample_program_wf sample_program_size, of 224 32]
    sample_program_wf sample_program_size by simp

end
