(* ===== verification/Frothy_Spans.thy ===== *)
theory Frothy_Spans
  imports Froth_Prelude "HOL-Library.Multiset"
begin

section \<open>Free-span lists and the span allocator contract\<close>

text \<open>
  \<^verbatim>\<open>frothy_value.c\<close> manages two arenas, payload bytes and cells, with the same
  algorithm: a list of free spans sorted by offset, first fit taken from the front of a span,
  a bump of the arena's extent when nothing fits, and on release an ordered insert, a merge of
  touching neighbours and a trim of the spans that reach the extent. The loops are here once;
  the locale \<open>span_allocator\<close> is the contract the object store relies on, interpreted on
  both arenas in \<open>Frothy_Runtime\<close>.

  The central notion is \<open>cover\<close>: how many spans of a list contain an address. An arena is
  consistent (\<open>span_inv\<close>) when every address below the extent is covered exactly once by the
  free and the owned spans together, and no other address is covered at all; disjointness,
  absence of leaks and bounds all follow from that equation.
\<close>

record frothy_span =
  sp_offset :: nat
  sp_length :: nat

abbreviation sp_end :: "frothy_span \<Rightarrow> nat" where
  "sp_end s \<equiv> sp_offset s + sp_length s"

definition mk_span :: "nat \<Rightarrow> nat \<Rightarrow> frothy_span" where
  "mk_span off len = \<lparr>sp_offset = off, sp_length = len\<rparr>"

lemma mk_span_sel [simp]: "sp_offset (mk_span off len) = off" "sp_length (mk_span off len) = len"
  by (simp_all add: mk_span_def)

subsection \<open>The loops of the C code\<close>

text \<open>Insert before the first span whose offset is not smaller.\<close>

fun span_insert :: "frothy_span \<Rightarrow> frothy_span list \<Rightarrow> frothy_span list" where
  "span_insert s [] = [s]"
| "span_insert s (t # ts) =
     (if sp_offset t < sp_offset s then t # span_insert s ts else s # t # ts)"

text \<open>Merge a span into its predecessor when they touch or overlap.\<close>

fun span_merge :: "frothy_span list \<Rightarrow> frothy_span list" where
  "span_merge [] = []"
| "span_merge [s] = [s]"
| "span_merge (s # t # ts) =
     (if sp_end s < sp_offset t then s # span_merge (t # ts)
      else if sp_end s < sp_end t
      then span_merge (s\<lparr>sp_length := sp_end t - sp_offset s\<rparr> # ts)
      else span_merge (s # ts))"

text \<open>Give the spans at the end of the arena back to the bump pointer; the list is reversed.\<close>

fun span_trim_rev :: "frothy_span list \<Rightarrow> nat \<Rightarrow> frothy_span list \<times> nat" where
  "span_trim_rev [] extent = ([], extent)"
| "span_trim_rev (s # ss) extent =
     (if sp_end s = extent then span_trim_rev ss (sp_offset s) else (s # ss, extent))"

definition span_trim :: "frothy_span list \<Rightarrow> nat \<Rightarrow> frothy_span list \<times> nat" where
  "span_trim ss extent = (case span_trim_rev (rev ss) extent of (rs, e) \<Rightarrow> (rev rs, e))"

text \<open>The release: nothing for an empty span, else insert, merge, trim.\<close>

definition span_release :: "frothy_span \<Rightarrow> frothy_span list \<Rightarrow> nat \<Rightarrow> frothy_span list \<times> nat" where
  "span_release s ss extent =
     (if sp_length s = 0 then (ss, extent) else span_trim (span_merge (span_insert s ss)) extent)"

text \<open>First fit, from the front of the span.\<close>

fun span_take :: "nat \<Rightarrow> frothy_span list \<Rightarrow> (nat \<times> frothy_span list) option" where
  "span_take n [] = None"
| "span_take n (s # ss) =
     (if sp_length s < n
      then case span_take n ss of None \<Rightarrow> None | Some (off, rest) \<Rightarrow> Some (off, s # rest)
      else if sp_length s - n = 0 then Some (sp_offset s, ss)
      else Some (sp_offset s, mk_span (sp_offset s + n) (sp_length s - n) # ss))"

subsection \<open>Cover counts\<close>

definition covers :: "frothy_span \<Rightarrow> nat \<Rightarrow> bool" where
  "covers s x \<longleftrightarrow> sp_offset s \<le> x \<and> x < sp_end s"

primrec cover :: "frothy_span list \<Rightarrow> nat \<Rightarrow> nat" where
  "cover [] x = 0"
| "cover (s # ss) x = (if covers s x then 1 else 0) + cover ss x"

lemma cover_append [simp]: "cover (xs @ ys) x = cover xs x + cover ys x"
  by (induction xs) auto

lemma cover_rev [simp]: "cover (rev xs) x = cover xs x"
  by (induction xs) auto

lemma cover_empty_span [simp]: "sp_length s = 0 \<Longrightarrow> cover (s # ss) x = cover ss x"
  by (simp add: covers_def)

lemma cover_ge_1: "s \<in> set ss \<Longrightarrow> covers s x \<Longrightarrow> 1 \<le> cover ss x"
  by (induction ss) auto

lemma cover_pos_iff: "0 < cover ss x \<longleftrightarrow> (\<exists>s \<in> set ss. covers s x)"
  by (induction ss) auto

lemma cover_two:
  "i < j \<Longrightarrow> j < length ss \<Longrightarrow> covers (ss ! i) x \<Longrightarrow> covers (ss ! j) x \<Longrightarrow> 2 \<le> cover ss x"
proof (induction ss arbitrary: i j)
  case (Cons s ss)
  show ?case
  proof (cases i)
    case 0
    with Cons.prems obtain j' where j': "j = Suc j'" by (cases j) auto
    with Cons.prems have "ss ! j' \<in> set ss" "covers (ss ! j') x" by simp_all
    then have "1 \<le> cover ss x" by (rule cover_ge_1)
    with 0 Cons.prems show ?thesis by simp
  next
    case (Suc i')
    with Cons.prems obtain j' where "j = Suc j'" by (cases j) auto
    with Suc Cons.IH [of i' j'] Cons.prems show ?thesis by simp
  qed
qed simp

text \<open>
  \<open>separated\<close> is what the code keeps of the free list between operations: sorted, no empty
  span, a gap between neighbours. \<open>ordered\<close> is what it has between the insert and the merge.
\<close>

definition ordered :: "frothy_span list \<Rightarrow> bool" where
  "ordered ss \<longleftrightarrow> sorted_wrt (\<lambda>s t. sp_end s \<le> sp_offset t) ss \<and> (\<forall>s \<in> set ss. 0 < sp_length s)"

definition separated :: "frothy_span list \<Rightarrow> bool" where
  "separated ss \<longleftrightarrow> sorted_wrt (\<lambda>s t. sp_end s < sp_offset t) ss \<and> (\<forall>s \<in> set ss. 0 < sp_length s)"

lemma separated_Nil [simp]: "separated []"
  by (simp add: separated_def)

lemma separated_Cons:
  "separated (s # ss) \<longleftrightarrow>
   0 < sp_length s \<and> (\<forall>t \<in> set ss. sp_end s < sp_offset t) \<and> separated ss"
  by (auto simp: separated_def)

lemma ordered_Cons:
  "ordered (s # ss) \<longleftrightarrow>
   0 < sp_length s \<and> (\<forall>t \<in> set ss. sp_end s \<le> sp_offset t) \<and> ordered ss"
  by (auto simp: ordered_def)

lemma separated_nth:
  "separated ss \<Longrightarrow> i < j \<Longrightarrow> j < length ss \<Longrightarrow> sp_end (ss ! i) < sp_offset (ss ! j)"
  using sorted_wrt_nth_less [of "\<lambda>s t. sp_end s < sp_offset t" ss i j]
  by (simp add: separated_def)

lemma set_span_insert: "set (span_insert s ss) = insert s (set ss)"
  by (induction ss) auto

lemma cover_span_insert: "cover (span_insert s ss) x = cover (s # ss) x"
  by (induction ss) auto

text \<open>A span that overlaps none of the free ones is inserted at its place.\<close>

lemma disjoint_spans:
  assumes "\<forall>x. cover (s # ss) x \<le> 1" "t \<in> set ss" "0 < sp_length s" "0 < sp_length t"
  shows "sp_end s \<le> sp_offset t \<or> sp_end t \<le> sp_offset s"
proof (rule ccontr)
  assume overlap: "\<not> ?thesis"
  let ?x = "max (sp_offset s) (sp_offset t)"
  have "covers s ?x" "covers t ?x" using overlap assms(3,4) by (auto simp: covers_def)
  moreover from this have "1 \<le> cover ss ?x" using cover_ge_1 assms(2) by blast
  ultimately show False using spec [OF assms(1), of ?x] by simp
qed

lemma cover_tail_le_1: "\<forall>x. cover (s # t # ts) x \<le> 1 \<Longrightarrow> \<forall>x. cover (s # ts) x \<le> 1"
proof
  fix x assume "\<forall>x. cover (s # t # ts) x \<le> 1"
  from spec [OF this, of x] show "cover (s # ts) x \<le> 1" by (simp split: if_splits)
qed

lemma separated_ordered: "separated ss \<Longrightarrow> ordered ss"
  unfolding separated_def ordered_def by (auto elim: sorted_wrt_mono_rel [rotated])

lemma ordered_span_insert:
  "separated ss \<Longrightarrow> 0 < sp_length s \<Longrightarrow> \<forall>x. cover (s # ss) x \<le> 1 \<Longrightarrow> ordered (span_insert s ss)"
proof (induction ss)
  case (Cons t ts)
  have apart: "sp_end s \<le> sp_offset u \<or> sp_end u \<le> sp_offset s" if "u \<in> set (t # ts)" for u
  proof -
    have "0 < sp_length u" using that Cons.prems(1) unfolding separated_def by blast
    with disjoint_spans [OF Cons.prems(3) that Cons.prems(2)] show ?thesis by blast
  qed
  have ord: "ordered (t # ts)" using Cons.prems(1) by (rule separated_ordered)
  show ?case
  proof (cases "sp_offset t < sp_offset s")
    case True
    have "ordered (span_insert s ts)"
      using Cons.IH Cons.prems cover_tail_le_1 [OF Cons.prems(3)] by (simp add: separated_Cons)
    moreover have "sp_end t \<le> sp_offset s" using apart [of t] True Cons.prems(2) by auto
    ultimately show ?thesis
      using True ord by (auto simp: ordered_Cons set_span_insert)
  next
    case False
    have "sp_end s \<le> sp_offset u" if u: "u \<in> set (t # ts)" for u
    proof -
      have "sp_offset t \<le> sp_offset u" "0 < sp_length u" using u ord
        by (auto simp: ordered_Cons ordered_def)
      then show ?thesis using apart [OF u] False by auto
    qed
    with False ord Cons.prems(2) show ?thesis by (simp add: ordered_Cons)
  qed
qed (simp add: ordered_def)

lemma span_merge_set:
  "u \<in> set (span_merge ss) \<Longrightarrow> \<exists>v \<in> set ss. sp_offset u = sp_offset v"
  by (induction ss rule: span_merge.induct) (auto split: if_splits)

lemma span_merge_spec:
  "ordered ss \<Longrightarrow> separated (span_merge ss) \<and> (\<forall>x. cover (span_merge ss) x = cover ss x)"
proof (induction ss rule: span_merge.induct)
  case (3 s t ts)
  show ?case
  proof (cases "sp_end s < sp_offset t")
    case True
    have gap: "sp_end s < sp_offset u" if "u \<in> set (span_merge (t # ts))" for u
      using span_merge_set [OF that] 3(4) True by (fastforce simp: ordered_Cons)
    with True 3 show ?thesis by (auto simp: ordered_Cons separated_Cons)
  next
    case False
    then have touch: "sp_end s = sp_offset t" "0 < sp_length s" "0 < sp_length t"
      using 3(4) by (auto simp: ordered_Cons)
    let ?u = "s\<lparr>sp_length := sp_end t - sp_offset s\<rparr>"
    have "ordered (?u # ts)" using 3(4) touch by (auto simp: ordered_Cons)
    moreover have "cover (?u # ts) x = cover (s # t # ts) x" for x
      using touch by (auto simp: covers_def)
    ultimately show ?thesis using 3(2) False touch by auto
  qed
qed (auto simp: ordered_def separated_def)

text \<open>The trim gives back exactly the addresses between the new extent and the old one.\<close>

lemma sorted_rev_trim:
  "span_trim_rev rs e = (rs', e') \<Longrightarrow>
   sorted_wrt (\<lambda>t s. sp_end s < sp_offset t) rs \<Longrightarrow> (\<forall>s \<in> set rs. sp_end s \<le> e) \<Longrightarrow>
   e' \<le> e \<and> (\<exists>pre. rs = pre @ rs') \<and> (\<forall>s \<in> set rs'. sp_end s < e') \<and>
   (\<forall>x. cover rs x = cover rs' x + (if e' \<le> x \<and> x < e then 1 else 0))"
proof (induction rs e arbitrary: rs' e' rule: span_trim_rev.induct)
  case (2 s ss e)
  have below: "\<forall>t \<in> set ss. sp_end t < sp_offset s" using 2(3) by simp
  show ?case
  proof (cases "sp_end s = e")
    case True
    have "\<forall>t \<in> set ss. sp_end t \<le> sp_offset s" using below by (auto intro: less_imp_le)
    then have "e' \<le> sp_offset s \<and> (\<exists>pre. ss = pre @ rs') \<and> (\<forall>s \<in> set rs'. sp_end s < e') \<and>
      (\<forall>x. cover ss x = cover rs' x + (if e' \<le> x \<and> x < sp_offset s then 1 else 0))"
      using 2(1) [OF True, of rs' e'] 2(2,3) True by simp
    then have IH: "e' \<le> sp_offset s" "\<exists>pre. ss = pre @ rs'" "\<forall>s \<in> set rs'. sp_end s < e'"
      "\<forall>x. cover ss x = cover rs' x + (if e' \<le> x \<and> x < sp_offset s then 1 else 0)"
      by blast+
    obtain pre where "ss = pre @ rs'" using IH(2) by blast
    then have "\<exists>pre. s # ss = pre @ rs'" by (intro exI [of _ "s # pre"]) simp
    with IH True show ?thesis by (auto simp: covers_def)
  next
    case False
    then have "sp_end s < e" using 2(4) by simp
    then have "\<forall>u \<in> set (s # ss). sp_end u < e" using below by fastforce
    with False 2(2) show ?thesis by auto
  qed
qed simp

lemma span_trim_spec:
  assumes "separated ss" and "\<forall>s \<in> set ss. sp_end s \<le> e" and "span_trim ss e = (ss', e')"
  shows "separated ss' \<and> e' \<le> e \<and> (\<forall>s \<in> set ss'. sp_end s < e') \<and>
    (\<forall>x. cover ss x = cover ss' x + (if e' \<le> x \<and> x < e then 1 else 0))"
proof -
  obtain rs where rs: "span_trim_rev (rev ss) e = (rs, e')" and ss': "ss' = rev rs"
    using assms(3) by (auto simp: span_trim_def split: prod.splits)
  have "sorted_wrt (\<lambda>t s. sp_end s < sp_offset t) (rev ss)"
    using assms(1) by (simp add: separated_def sorted_wrt_rev)
  from sorted_rev_trim [OF rs this] assms(2)
  have trimmed: "e' \<le> e \<and> (\<exists>pre. rev ss = pre @ rs) \<and> (\<forall>s \<in> set rs. sp_end s < e') \<and>
    (\<forall>x. cover ss x = cover rs x + (if e' \<le> x \<and> x < e then 1 else 0))"
    by simp
  then obtain pre where "rev ss = pre @ rs" by blast
  then have "ss = rev rs @ rev pre"
    by (metis rev_append rev_rev_ident)
  then have "separated ss'"
    using assms(1) ss' by (auto simp: separated_def sorted_wrt_append)
  with trimmed ss' show ?thesis by simp
qed

lemma span_take_spec:
  "span_take n ss = Some (off, ss') \<Longrightarrow> 0 < n \<Longrightarrow> separated ss \<Longrightarrow>
   separated ss' \<and> (\<forall>x. cover ss x = cover ss' x + cover [mk_span off n] x) \<and>
   (\<forall>b. (\<forall>u \<in> set ss. b < sp_offset u) \<longrightarrow> (\<forall>u \<in> set ss'. b < sp_offset u)) \<and>
   (\<forall>e. (\<forall>u \<in> set ss. sp_end u < e) \<longrightarrow> (\<forall>u \<in> set ss'. sp_end u < e) \<and> off + n < e) \<and>
   length ss' \<le> length ss"
proof (induction ss arbitrary: ss')
  case (Cons s ss)
  show ?case
  proof (cases "sp_length s < n")
    case True
    then obtain r where r: "span_take n ss = Some (off, r)" "ss' = s # r"
      using Cons.prems(1) by (auto split: option.splits)
    show ?thesis
      using Cons.IH [OF r(1) Cons.prems(2)] Cons.prems(3) r(2) by (auto simp: separated_Cons)
  next
    case False
    with Cons.prems show ?thesis
      by (auto simp: separated_Cons covers_def split: if_splits)
  qed
qed simp

lemma span_take_None: "span_take n ss = None \<longleftrightarrow> (\<forall>s \<in> set ss. sp_length s < n)"
  by (induction ss) (auto split: option.splits)

subsection \<open>Consistent arenas\<close>

text \<open>
  \<open>arena_ok free extent owned\<close>: the free list is in normal form and stays strictly below
  the extent, and the free and the owned spans partition the addresses below the extent.
\<close>

definition arena_ok :: "frothy_span list \<Rightarrow> nat \<Rightarrow> frothy_span list \<Rightarrow> bool" where
  "arena_ok fs extent owned \<longleftrightarrow>
     separated fs \<and> (\<forall>u \<in> set fs. sp_end u < extent) \<and> (\<forall>u \<in> set owned. 0 < sp_length u) \<and>
     (\<forall>x. cover fs x + cover owned x = (if x < extent then 1 else 0))"

lemma arena_ok_empty [simp]: "arena_ok [] 0 []"
  by (simp add: arena_ok_def)

lemma cover_perm: "mset xs = mset ys \<Longrightarrow> cover xs x = cover ys x"
proof -
  have *: "cover zs x = size (filter_mset (\<lambda>s. covers s x) (mset zs))" for zs
    by (induction zs) auto
  show "mset xs = mset ys \<Longrightarrow> cover xs x = cover ys x" by (simp add: *)
qed

lemma arena_ok_perm: "mset xs = mset ys \<Longrightarrow> arena_ok fs e xs \<longleftrightarrow> arena_ok fs e ys"
  unfolding arena_ok_def using cover_perm [of xs ys] mset_eq_setD [of xs ys] by simp

lemma arena_owned_end:
  assumes "arena_ok fs e owned" "u \<in> set owned"
  shows "sp_end u \<le> e"
proof -
  have "0 < sp_length u" using assms unfolding arena_ok_def by blast
  then have "covers u (sp_end u - 1)" by (auto simp: covers_def)
  then have "1 \<le> cover owned (sp_end u - 1)" using assms(2) by (rule cover_ge_1 [rotated])
  moreover have "cover fs (sp_end u - 1) + cover owned (sp_end u - 1)
      = (if sp_end u - 1 < e then 1 else 0)"
    using assms(1) unfolding arena_ok_def by blast
  ultimately show ?thesis using \<open>0 < sp_length u\<close> by (auto split: if_splits)
qed

lemma cover_disjoint:
  assumes "\<forall>x. cover ss x \<le> 1" "\<forall>s \<in> set ss. 0 < sp_length s" "i < j" "j < length ss"
  shows "sp_end (ss ! i) \<le> sp_offset (ss ! j) \<or> sp_end (ss ! j) \<le> sp_offset (ss ! i)"
proof (rule ccontr)
  assume overlap: "\<not> ?thesis"
  let ?x = "max (sp_offset (ss ! i)) (sp_offset (ss ! j))"
  have "0 < sp_length (ss ! i)" "0 < sp_length (ss ! j)" using assms by auto
  with overlap have "covers (ss ! i) ?x" "covers (ss ! j) ?x" by (auto simp: covers_def)
  with assms(3,4) have "2 \<le> cover ss ?x" by (rule cover_two)
  with spec [OF assms(1), of ?x] show False by linarith
qed

lemma arena_owned_disjoint:
  assumes "arena_ok fs e owned" "i < j" "j < length owned"
  shows "sp_end (owned ! i) \<le> sp_offset (owned ! j) \<or> sp_end (owned ! j) \<le> sp_offset (owned ! i)"
proof (rule cover_disjoint [OF _ _ assms(2,3)])
  show "\<forall>x. cover owned x \<le> 1"
  proof
    fix x
    have "cover fs x + cover owned x = (if x < e then 1 else 0)"
      using assms(1) unfolding arena_ok_def by blast
    then show "cover owned x \<le> 1" by (simp split: if_splits)
  qed
qed (use assms(1) in \<open>auto simp: arena_ok_def\<close>)

text \<open>Nothing owned means nothing allocated: the release gives every address back.\<close>

lemma arena_no_leak:
  assumes "arena_ok fs e []"
  shows "fs = [] \<and> e = 0"
proof -
  have fs: "\<forall>u \<in> set fs. sp_end u < e" "\<forall>x. cover fs x = (if x < e then 1 else 0)"
    using assms unfolding arena_ok_def by auto
  have "e = 0"
  proof (rule ccontr)
    assume "e \<noteq> 0"
    with fs(2) have "0 < cover fs (e - 1)" by simp
    then obtain u where "u \<in> set fs" "covers u (e - 1)" by (auto simp: cover_pos_iff)
    with fs(1) show False by (fastforce simp: covers_def)
  qed
  with fs(1) show ?thesis by (cases fs) auto
qed

lemma arena_take:
  assumes "arena_ok fs e owned" "span_take n fs = Some (off, fs')" "0 < n"
  shows "arena_ok fs' e (mk_span off n # owned)" "length fs' \<le> length fs"
proof -
  have "separated fs" "\<forall>u \<in> set fs. sp_end u < e" using assms(1) by (simp_all add: arena_ok_def)
  with span_take_spec [OF assms(2,3)] have
    "separated fs'" "\<forall>u \<in> set fs'. sp_end u < e" "length fs' \<le> length fs"
    and cov: "\<forall>x. cover fs x = cover fs' x + cover [mk_span off n] x"
    by blast+
  moreover have "cover fs' x + cover (mk_span off n # owned) x = (if x < e then 1 else 0)" for x
  proof -
    have "cover fs x + cover owned x = (if x < e then 1 else 0)"
      using assms(1) unfolding arena_ok_def by blast
    with spec [OF cov, of x] show ?thesis by simp
  qed
  ultimately show "arena_ok fs' e (mk_span off n # owned)" "length fs' \<le> length fs"
    using assms(1,3) by (auto simp: arena_ok_def)
qed

lemma arena_bump:
  assumes "arena_ok fs e owned" "0 < n"
  shows "arena_ok fs (e + n) (mk_span e n # owned)"
proof -
  have "cover fs x + cover (mk_span e n # owned) x = (if x < e + n then 1 else 0)" for x
  proof -
    have "cover fs x + cover owned x = (if x < e then 1 else 0)"
      using assms(1) unfolding arena_ok_def by blast
    then show ?thesis by (auto simp: covers_def)
  qed
  with assms show ?thesis by (auto simp: arena_ok_def)
qed

lemma arena_release:
  assumes "arena_ok fs e (s # owned)" "span_release s fs e = (fs', e')"
  shows "arena_ok fs' e' owned" "e' \<le> e"
proof -
  have s: "0 < sp_length s" and sep: "separated fs" and below: "\<forall>u \<in> set fs. sp_end u < e"
    using assms(1) by (auto simp: arena_ok_def)
  have cov: "cover (s # fs) x + cover owned x = (if x < e then 1 else 0)" for x
  proof -
    have "cover fs x + cover (s # owned) x = (if x < e then 1 else 0)"
      using assms(1) unfolding arena_ok_def by blast
    then show ?thesis by simp
  qed
  have "\<forall>x. cover (s # fs) x \<le> 1"
  proof
    fix x show "cover (s # fs) x \<le> 1" using cov [of x] by (simp split: if_splits)
  qed
  with ordered_span_insert [OF sep s] have "ordered (span_insert s fs)" .
  from span_merge_spec [OF this] have m: "separated (span_merge (span_insert s fs))"
    and mc: "\<And>x. cover (span_merge (span_insert s fs)) x = cover (s # fs) x"
    by (simp_all only: cover_span_insert simp_thms)
  have "sp_end u \<le> e" if "u \<in> set (span_merge (span_insert s fs))" for u
  proof -
    have "0 < sp_length u" using that m unfolding separated_def by blast
    then have "covers u (sp_end u - 1)" by (auto simp: covers_def)
    then have "1 \<le> cover (span_merge (span_insert s fs)) (sp_end u - 1)"
      using that by (rule cover_ge_1 [rotated])
    then have "1 \<le> cover (s # fs) (sp_end u - 1)" by (simp only: mc)
    with cov [of "sp_end u - 1"] \<open>0 < sp_length u\<close> show ?thesis by (simp split: if_splits)
  qed
  moreover have "span_trim (span_merge (span_insert s fs)) e = (fs', e')"
    using assms(2) s by (simp add: span_release_def)
  ultimately have t: "separated fs'" "e' \<le> e" "\<forall>u \<in> set fs'. sp_end u < e'"
    and tc: "\<forall>x. cover (span_merge (span_insert s fs)) x
      = cover fs' x + (if e' \<le> x \<and> x < e then 1 else 0)"
    using span_trim_spec [OF m, of e fs' e'] by blast+
  have "cover fs' x + cover owned x = (if x < e' then 1 else 0)" for x
    using cov [of x] spec [OF tc, of x] mc [of x] t(2) by (simp split: if_splits)
  with t assms(1) show "arena_ok fs' e' owned" "e' \<le> e" by (auto simp: arena_ok_def)
qed

text \<open>There are never more free spans than owned ones: each is followed by an owned address.\<close>

lemma arena_free_count:
  assumes ok: "arena_ok fs e owned"
  shows "length fs \<le> length owned"
proof -
  have one: "cover fs x + cover owned x = (if x < e then 1 else 0)" for x
    using ok unfolding arena_ok_def by blast
  have sep: "separated fs" and below: "\<forall>u \<in> set fs. sp_end u < e"
    using ok by (simp_all add: arena_ok_def)
  have follow: "\<exists>o' \<in> set owned. covers o' (sp_end (fs ! i))" if "i < length fs" for i
  proof -
    have "\<not> covers (fs ! j) (sp_end (fs ! i))" if j: "j < length fs" for j
    proof (cases "i < j")
      case True
      with j sep have "sp_end (fs ! i) < sp_offset (fs ! j)" by (simp add: separated_nth)
      then show ?thesis by (simp add: covers_def)
    next
      case False
      then have "sp_end (fs ! j) \<le> sp_end (fs ! i)"
        using separated_nth [OF sep, of j i] \<open>i < length fs\<close> by (cases "i = j") auto
      then show ?thesis by (simp add: covers_def)
    qed
    then have "cover fs (sp_end (fs ! i)) = 0"
      by (metis cover_pos_iff gr0I in_set_conv_nth)
    with one [of "sp_end (fs ! i)"] below \<open>i < length fs\<close>
    have "0 < cover owned (sp_end (fs ! i))" by simp
    then show ?thesis by (simp add: cover_pos_iff)
  qed
  define f where "f i = (SOME o'. o' \<in> set owned \<and> covers o' (sp_end (fs ! i)))" for i
  have f: "f i \<in> set owned \<and> covers (f i) (sp_end (fs ! i))" if "i < length fs" for i
    unfolding f_def by (rule someI_ex) (use follow [OF that] in blast)
  have differ: "f i \<noteq> f j" if ij: "i < j" "j < length fs" for i j
  proof
    assume eq: "f i = f j"
    have "sp_end (fs ! i) < sp_offset (fs ! j)" "0 < sp_length (fs ! j)"
      using ij sep separated_nth [OF sep, of i j] by (auto simp: separated_def)
    moreover have "covers (f i) (sp_end (fs ! i))" "covers (f i) (sp_end (fs ! j))"
      using f [of i] f [of j] ij eq by auto
    ultimately have "covers (f i) (sp_offset (fs ! j))" "covers (fs ! j) (sp_offset (fs ! j))"
      by (auto simp: covers_def)
    moreover have "f i \<in> set owned" "fs ! j \<in> set fs" using f [of i] ij by auto
    ultimately have "1 \<le> cover owned (sp_offset (fs ! j))" "1 \<le> cover fs (sp_offset (fs ! j))"
      using cover_ge_1 by blast+
    with one [of "sp_offset (fs ! j)"] show False by (simp split: if_splits)
  qed
  have "inj_on f {..<length fs}"
    by (rule inj_onI) (metis differ lessThan_iff linorder_neqE_nat)
  then have "card {..<length fs} \<le> card (set owned)"
    by (rule card_inj_on_le) (use f in auto)
  also have "\<dots> \<le> length owned" by (rule card_length)
  finally show ?thesis by simp
qed

lemma length_span_insert [simp]: "length (span_insert s ss) = Suc (length ss)"
  by (induction ss) auto

text \<open>The normal form is unique: the owned spans determine the free list and the extent.\<close>

lemma separated_tail_uncovered:
  "separated (s # ss) \<Longrightarrow> x \<le> sp_end s \<Longrightarrow> cover ss x = 0"
  by (induction ss) (auto simp: separated_Cons covers_def)

lemma separated_cover_unique:
  "separated fs \<Longrightarrow> separated gs \<Longrightarrow> (\<And>x. cover fs x = cover gs x) \<Longrightarrow> fs = gs"
proof (induction fs arbitrary: gs)
  case Nil
  show ?case
  proof (cases gs)
    case (Cons t ts)
    then have "0 < cover gs (sp_offset t)" using Nil.prems(2) by (simp add: separated_Cons covers_def)
    then show ?thesis using Nil.prems(3) [of "sp_offset t"] by simp
  qed simp
next
  case (Cons s ss)
  have s: "0 < sp_length s" using Cons.prems(1) by (simp add: separated_Cons)
  have "0 < cover (s # ss) (sp_offset s)" using s by (simp add: covers_def)
  then obtain t ts where gs: "gs = t # ts" using Cons.prems(3) [of "sp_offset s"] by (cases gs) auto
  have t: "0 < sp_length t" using Cons.prems(2) by (simp add: gs separated_Cons)
  have head: "cover (u # us) x = (if covers u x then 1 else 0)"
    if "separated (u # us)" "x \<le> sp_end u" for u us x
    using separated_tail_uncovered [OF that] by simp
  have low: "sp_offset u \<le> x" if "separated (u # us)" "0 < cover (u # us) x" for u us x
    using head [OF that(1), of x] that(2) by (cases "x \<le> sp_end u") (auto simp: covers_def split: if_splits)
  have "0 < cover (t # ts) (sp_offset s)"
    using \<open>0 < cover (s # ss) (sp_offset s)\<close> Cons.prems(3) [of "sp_offset s"] by (simp only: gs)
  then have "sp_offset t \<le> sp_offset s" using low Cons.prems(2) by (simp only: gs)
  moreover have "0 < cover (t # ts) (sp_offset t)" using t by (simp add: covers_def)
  then have "0 < cover (s # ss) (sp_offset t)" using Cons.prems(3) [of "sp_offset t"] by (simp only: gs)
  then have "sp_offset s \<le> sp_offset t" using low Cons.prems(1) by blast
  ultimately have off: "sp_offset s = sp_offset t" by simp
  have "\<not> sp_end s < sp_end t"
    using head [of s ss "sp_end s"] head [of t ts "sp_end s"] Cons.prems(1,2)
      Cons.prems(3) [of "sp_end s"] off by (auto simp: gs covers_def)
  moreover have "\<not> sp_end t < sp_end s"
    using head [of s ss "sp_end t"] head [of t ts "sp_end t"] Cons.prems(1,2)
      Cons.prems(3) [of "sp_end t"] off by (auto simp: gs covers_def)
  ultimately have "s = t" using off by (cases s; cases t) simp
  moreover have "ss = ts"
  proof (rule Cons.IH)
    fix x show "cover ss x = cover ts x" using Cons.prems(3) [of x] \<open>s = t\<close> by (simp add: gs)
  qed (use Cons.prems in \<open>simp_all add: gs separated_Cons\<close>)
  ultimately show ?case by (simp add: gs)
qed

lemma arena_extent_le:
  assumes "arena_ok fs e owned" "arena_ok gs e' owned"
  shows "e' \<le> e"
proof (rule ccontr)
  assume "\<not> e' \<le> e"
  then have lt: "e < e'" by simp
  have "cover fs (e' - 1) + cover owned (e' - 1) = (if e' - 1 < e then 1 else 0)"
    "cover gs (e' - 1) + cover owned (e' - 1) = (if e' - 1 < e' then 1 else 0)"
    using assms unfolding arena_ok_def by blast+
  moreover have "\<not> e' - 1 < e" "e' - 1 < e'" using lt by auto
  ultimately have "0 < cover gs (e' - 1)" by (simp only: if_True if_False)
  then obtain u where "u \<in> set gs" "covers u (e' - 1)" by (auto simp: cover_pos_iff)
  moreover have "\<forall>u \<in> set gs. sp_end u < e'" using assms(2) by (simp add: arena_ok_def)
  ultimately show False by (auto simp: covers_def)
qed

lemma arena_unique:
  assumes "arena_ok fs e owned" "arena_ok gs e' owned"
  shows "fs = gs \<and> e = e'"
proof -
  have e: "e = e'" using arena_extent_le [OF assms] arena_extent_le [OF assms(2,1)] by simp
  have "fs = gs"
  proof (rule separated_cover_unique)
    fix x
    have "cover fs x + cover owned x = (if x < e then 1 else 0)"
      "cover gs x + cover owned x = (if x < e' then 1 else 0)"
      using assms unfolding arena_ok_def by blast+
    with e show "cover fs x = cover gs x" by (simp split: if_splits)
  qed (use assms in \<open>simp_all add: arena_ok_def\<close>)
  with e show ?thesis by simp
qed

subsection \<open>The allocator contract\<close>

text \<open>
  What the object store relies on: \<open>take\<close> on the free list first, the bump only when no free
  span is long enough, an error that leaves the arena alone when the bump does not fit, and a
  release that is the insert-merge-trim above. \<open>units\<close> is the size rounding of the arena
  (alignment for payload bytes, none for cells).
\<close>

locale span_allocator =
  fixes free :: "'s \<Rightarrow> frothy_span list"
    and extent :: "'s \<Rightarrow> nat"
    and limit :: "'s \<Rightarrow> nat"
    and units :: "nat \<Rightarrow> nat"
    and alloc :: "nat \<Rightarrow> 's \<Rightarrow> nat result \<times> 's"
    and release :: "frothy_span \<Rightarrow> 's \<Rightarrow> 's"
    and usable :: "nat \<Rightarrow> 's \<Rightarrow> bool"
  assumes alloc_take:
      "usable len s \<Longrightarrow> span_take (units len) (free s) = Some (off, fs) \<Longrightarrow>
       \<exists>s'. alloc len s = (Inr off, s') \<and> free s' = fs \<and> extent s' = extent s \<and> limit s' = limit s"
    and alloc_bump:
      "usable len s \<Longrightarrow> span_take (units len) (free s) = None \<Longrightarrow>
       extent s + units len \<le> limit s \<Longrightarrow>
       \<exists>s'. alloc len s = (Inr (extent s), s') \<and> free s' = free s \<and>
            extent s' = extent s + units len \<and> limit s' = limit s"
    and alloc_full:
      "usable len s \<Longrightarrow> span_take (units len) (free s) = None \<Longrightarrow>
       \<not> extent s + units len \<le> limit s \<Longrightarrow> \<exists>err. alloc len s = (Inl err, s)"
    and release_spans:
      "(free (release sp s), extent (release sp s)) = span_release sp (free s) (extent s)"
    and release_limit: "limit (release sp s) = limit s"
    and usable_units: "usable len s \<Longrightarrow> 0 < units len"
begin

abbreviation ok :: "'s \<Rightarrow> frothy_span list \<Rightarrow> bool" where
  "ok s owned \<equiv> arena_ok (free s) (extent s) owned \<and> extent s \<le> limit s"

lemma alloc_ok:
  assumes "ok s owned" "usable len s" "alloc len s = (Inr off, s')"
  shows "ok s' (mk_span off (units len) # owned)" "length (free s') \<le> length (free s)"
    "limit s' = limit s"
proof -
  have n: "0 < units len" using assms(2) by (rule usable_units)
  have "ok s' (mk_span off (units len) # owned) \<and> length (free s') \<le> length (free s)
    \<and> limit s' = limit s"
  proof (cases "span_take (units len) (free s)")
    case None
    show ?thesis
    proof (cases "extent s + units len \<le> limit s")
      case True
      with alloc_bump [OF assms(2) None] assms(3) arena_bump [OF conjunct1 [OF assms(1)] n]
      show ?thesis by auto
    next
      case False
      with alloc_full [OF assms(2) None] assms(3) show ?thesis by auto
    qed
  next
    case (Some p)
    then obtain o' fs where p: "span_take (units len) (free s) = Some (o', fs)" by (cases p) auto
    from alloc_take [OF assms(2) p] assms(1,3) arena_take [OF conjunct1 [OF assms(1)] p n]
    show ?thesis by auto
  qed
  then show "ok s' (mk_span off (units len) # owned)" "length (free s') \<le> length (free s)"
    "limit s' = limit s" by simp_all
qed

lemma alloc_error:
  assumes "usable len s" "alloc len s = (Inl err, s')"
  shows "s' = s \<and> (\<forall>u \<in> set (free s). sp_length u < units len) \<and>
    limit s < extent s + units len"
proof (cases "span_take (units len) (free s)")
  case None
  show ?thesis
  proof (cases "extent s + units len \<le> limit s")
    case True
    with alloc_bump [OF assms(1) None] assms(2) show ?thesis by auto
  next
    case False
    with alloc_full [OF assms(1) None] assms(2) None show ?thesis
      by (auto simp: span_take_None)
  qed
next
  case (Some p)
  with alloc_take [OF assms(1), of "fst p" "snd p"] assms(2) show ?thesis by auto
qed

lemma release_ok:
  assumes "ok s (sp # owned)"
  shows "ok (release sp s) owned" "length (free (release sp s)) \<le> length owned"
proof -
  have r: "span_release sp (free s) (extent s)
      = (free (release sp s), extent (release sp s))" by (simp only: release_spans)
  from arena_release [OF conjunct1 [OF assms] r]
  show ok': "ok (release sp s) owned" using assms release_limit [of sp s] by simp
  then show "length (free (release sp s)) \<le> length owned" using arena_free_count by blast
qed

lemma ok_perm: "mset xs = mset ys \<Longrightarrow> ok s xs \<longleftrightarrow> ok s ys"
  using arena_ok_perm by blast

lemma owned_within: "ok s owned \<Longrightarrow> u \<in> set owned \<Longrightarrow> sp_end u \<le> limit s"
  using arena_owned_end by fastforce

lemma owned_disjoint:
  "ok s owned \<Longrightarrow> i < j \<Longrightarrow> j < length owned \<Longrightarrow>
   sp_end (owned ! i) \<le> sp_offset (owned ! j) \<or> sp_end (owned ! j) \<le> sp_offset (owned ! i)"
  using arena_owned_disjoint by blast

text \<open>Giving an allocation back at once restores the arena exactly.\<close>

lemma rollback:
  assumes "ok s owned" "usable len s" "alloc len s = (Inr off, s')"
  shows "free (release (mk_span off (units len)) s') = free s"
    "extent (release (mk_span off (units len)) s') = extent s"
  using arena_unique [OF conjunct1 [OF assms(1)]
      conjunct1 [OF release_ok(1) [OF alloc_ok(1) [OF assms]]]] by simp_all

lemma all_released: "ok s [] \<Longrightarrow> free s = [] \<and> extent s = 0"
  using arena_no_leak by blast

end

end
