(* ===== verification/Frothy_Store.thy ===== *)
theory Frothy_Store
  imports Frothy_Spans Frothy_IR Froth_Cellspace
begin

section \<open>The object store of the runtime: state and arenas (frothy_value.h, frothy_value.c)\<close>

text \<open>
  The runtime holds the object table, the payload arena (bytes for texts, packed code, record
  definitions and record fields), the cell arena (the shared cell space) with one list of free
  spans each, the evaluator's value arena, and the bookkeeping of high-water marks and test
  limits. An object's C union becomes a datatype; the table is the prefix of the C array up to
  \<open>object_count\<close>. The two arenas satisfy one contract, \<open>span_allocator\<close>, interpreted here for
  each of them.
\<close>

datatype frothy_object_as =
    OBJECT_FREE
  | OBJECT_TEXT (as_payload: frothy_span) (text_length: nat)
  | OBJECT_CELLS (cells_span: frothy_span)
  | OBJECT_CODE (as_payload: frothy_span) (code_arity: nat) (code_local_count: nat)
      (code_body: node_id) (code_program: frothy_ir_program)
  | OBJECT_NATIVE (native_fn: nat) (native_context: nat) (native_name: "byte list")
      (native_arity: nat)
  | OBJECT_RECORD_DEF (as_payload: frothy_span) (def_field_count: nat)
  | OBJECT_RECORD (as_payload: frothy_span) (record_definition: frothy_value)
      (record_field_count: nat)

record frothy_object =
  ob_refcount :: nat
  ob_live :: bool
  ob_as :: frothy_object_as

record frothy_runtime =
  rt_objects :: "frothy_object list"
  rt_object_capacity :: nat
  rt_live_object_count :: nat
  rt_object_high_water :: nat
  rt_free_spans :: "frothy_span list"
  rt_payload_free_spans :: "frothy_span list"
  rt_payload_capacity :: nat
  rt_payload_extent :: nat
  rt_payload_bytes_used :: nat
  rt_payload_bytes_high_water :: nat
  rt_payload_bytes :: "byte list"
  rt_eval_values :: "frothy_value list"
  rt_eval_value_capacity :: nat
  rt_eval_value_limit :: nat
  rt_eval_value_used :: nat
  rt_eval_value_high_water :: nat
  rt_cellspace :: froth_cellspace
  rt_ffi_error_code :: "froth_error option"
  rt_ffi_error_kind :: "byte list option"
  rt_ffi_error_origin :: "byte list option"
  rt_ffi_error_detail :: "byte list option"
  rt_test_object_limit :: nat
  rt_test_fail_next_append :: bool
  rt_reset_epoch :: "32 word"

definition FROTHY_OBJECT_CAPACITY :: nat where "FROTHY_OBJECT_CAPACITY = 128"
definition FROTHY_PAYLOAD_CAPACITY :: nat where "FROTHY_PAYLOAD_CAPACITY = 90112"
definition FROTHY_EVAL_VALUE_CAPACITY :: nat where "FROTHY_EVAL_VALUE_CAPACITY = 256"

definition frothy_object_reset :: frothy_object where
  "frothy_object_reset = \<lparr>ob_refcount = 0, ob_live = False, ob_as = OBJECT_FREE\<rparr>"

text \<open>The C structure's arrays have fixed sizes; \<open>runtime_sized\<close> is the same initialisation with
  the sizes as parameters, which the witnesses use.\<close>

definition runtime_sized :: "nat \<Rightarrow> nat \<Rightarrow> nat \<Rightarrow> froth_cellspace \<Rightarrow> frothy_runtime" where
  "runtime_sized objects payload eval cs = \<lparr>rt_objects = [], rt_object_capacity = objects,
     rt_live_object_count = 0, rt_object_high_water = 0, rt_free_spans = [],
     rt_payload_free_spans = [], rt_payload_capacity = payload, rt_payload_extent = 0,
     rt_payload_bytes_used = 0, rt_payload_bytes_high_water = 0,
     rt_payload_bytes = replicate payload 0, rt_eval_values = replicate eval 0,
     rt_eval_value_capacity = eval, rt_eval_value_limit = eval, rt_eval_value_used = 0,
     rt_eval_value_high_water = 0, rt_cellspace = cs, rt_ffi_error_code = None,
     rt_ffi_error_kind = None, rt_ffi_error_origin = None, rt_ffi_error_detail = None,
     rt_test_object_limit = objects, rt_test_fail_next_append = False, rt_reset_epoch = 0\<rparr>"

definition frothy_runtime_init :: "froth_cellspace \<Rightarrow> frothy_runtime" where
  "frothy_runtime_init cs =
     runtime_sized FROTHY_OBJECT_CAPACITY FROTHY_PAYLOAD_CAPACITY FROTHY_EVAL_VALUE_CAPACITY cs"

subsection \<open>The payload arena\<close>

definition frothy_add_size :: "nat \<Rightarrow> nat \<Rightarrow> nat result" where
  "frothy_add_size lhs rhs =
     (if SIZE_MAX - rhs < lhs then Inl FROTH_ERROR_HEAP_OUT_OF_MEMORY else Inr (lhs + rhs))"

definition frothy_payload_align_up :: "nat \<Rightarrow> nat result" where
  "frothy_payload_align_up v =
     (let remainder = v mod ALIGNOF_MAX_ALIGN
      in if remainder = 0 then Inr v
         else let padding = ALIGNOF_MAX_ALIGN - remainder
              in if SIZE_MAX - padding < v then Inl FROTH_ERROR_HEAP_OUT_OF_MEMORY
                 else Inr (v + padding))"

definition frothy_runtime_add_payload_free_span ::
  "nat \<Rightarrow> nat \<Rightarrow> frothy_runtime \<Rightarrow> frothy_runtime" where
  "frothy_runtime_add_payload_free_span offset len rt =
     (let (spans, extent) =
        span_release (mk_span offset len) (rt_payload_free_spans rt) (rt_payload_extent rt)
      in rt\<lparr>rt_payload_free_spans := spans, rt_payload_extent := extent\<rparr>)"

definition frothy_runtime_take_payload_free_span ::
  "nat \<Rightarrow> frothy_runtime \<Rightarrow> nat option \<times> frothy_runtime" where
  "frothy_runtime_take_payload_free_span len rt =
     (case span_take len (rt_payload_free_spans rt) of
        None \<Rightarrow> (None, rt)
      | Some (offset, spans) \<Rightarrow> (Some offset, rt\<lparr>rt_payload_free_spans := spans\<rparr>))"

definition note_payload_used :: "nat \<Rightarrow> frothy_runtime \<Rightarrow> frothy_runtime" where
  "note_payload_used reserved rt =
     (let used = rt_payload_bytes_used rt + reserved
      in rt\<lparr>rt_payload_bytes_used := used,
            rt_payload_bytes_high_water := (if rt_payload_bytes_high_water rt < used then used
                                            else rt_payload_bytes_high_water rt)\<rparr>)"

definition frothy_runtime_alloc_payload ::
  "nat \<Rightarrow> frothy_runtime \<Rightarrow> frothy_span result \<times> frothy_runtime" where
  "frothy_runtime_alloc_payload len rt =
     (case frothy_payload_align_up len of
        Inl e \<Rightarrow> (Inl e, rt)
      | Inr reserved \<Rightarrow>
          if reserved = 0 then (Inr (mk_span 0 0), rt)
          else case frothy_runtime_take_payload_free_span reserved rt of
              (Some offset, rt') \<Rightarrow> (Inr (mk_span offset reserved), note_payload_used reserved rt')
            | (None, rt') \<Rightarrow>
                if rt_payload_capacity rt' < reserved \<or>
                   rt_payload_capacity rt' - reserved < rt_payload_extent rt'
                then (Inl FROTH_ERROR_HEAP_OUT_OF_MEMORY, rt')
                else let offset = rt_payload_extent rt'
                     in (Inr (mk_span offset reserved),
                         note_payload_used reserved
                           (rt'\<lparr>rt_payload_extent := rt_payload_extent rt' + reserved\<rparr>)))"

definition frothy_runtime_release_payload ::
  "frothy_span \<Rightarrow> frothy_runtime \<Rightarrow> frothy_runtime" where
  "frothy_runtime_release_payload span rt =
     (if sp_length span = 0 then rt
      else frothy_runtime_add_payload_free_span (sp_offset span) (sp_length span)
             (rt\<lparr>rt_payload_bytes_used := rt_payload_bytes_used rt - sp_length span\<rparr>))"

definition payload_units :: "nat \<Rightarrow> nat" where
  "payload_units len = 16 * ((len + 15) div 16)"

lemma align_up_Inr: "len \<le> SIZE_MAX - 15 \<Longrightarrow> frothy_payload_align_up len = Inr (payload_units len)"
proof -
  assume bound: "len \<le> SIZE_MAX - 15"
  have split: "len = 16 * (len div 16) + len mod 16" by simp
  show ?thesis
  proof (cases "len mod 16 = 0")
    case True
    then show ?thesis
      by (auto simp: frothy_payload_align_up_def payload_units_def ALIGNOF_MAX_ALIGN_def)
  next
    case False
    define q r where "q = len div 16" and "r = len mod 16"
    have len: "len = 16 * q + r" and r: "0 < r" "r < 16"
      using split False by (simp_all add: q_def r_def)
    have "(len + 15) div 16 = Suc q" unfolding len using r by (intro div_nat_eqI) simp_all
    then have "payload_units len = 16 * Suc q" by (simp only: payload_units_def)
    moreover have "16 * Suc q = 16 * q + r + (16 - r)" using r by simp
    ultimately have "payload_units len = len + (16 - r)" by (simp only: len)
    then have "payload_units len = len + (16 - len mod 16)" by (simp only: r_def)
    with False bound show ?thesis
      by (simp add: frothy_payload_align_up_def ALIGNOF_MAX_ALIGN_def SIZE_MAX_def Let_def)
  qed
qed

lemma payload_units_ge: "len \<le> payload_units len"
proof -
  have "len + 15 = 16 * ((len + 15) div 16) + (len + 15) mod 16" by simp
  moreover have "(len + 15) mod 16 < 16" by simp
  ultimately have "len \<le> 16 * ((len + 15) div 16)" by presburger
  then show ?thesis by (simp only: payload_units_def)
qed

lemma payload_units_pos: "0 < len \<Longrightarrow> 0 < payload_units len"
  using payload_units_ge [of len] by linarith

text \<open>The address-level view of the allocation, as the contract has it.\<close>

definition payload_alloc_offset :: "nat \<Rightarrow> frothy_runtime \<Rightarrow> nat result \<times> frothy_runtime" where
  "payload_alloc_offset len rt =
     (case frothy_runtime_alloc_payload len rt of
        (Inl e, rt') \<Rightarrow> (Inl e, rt') | (Inr sp, rt') \<Rightarrow> (Inr (sp_offset sp), rt'))"

definition payload_usable :: "nat \<Rightarrow> frothy_runtime \<Rightarrow> bool" where
  "payload_usable len rt \<longleftrightarrow> 0 < len \<and> len \<le> SIZE_MAX - 15"

interpretation payload_arena: span_allocator
  rt_payload_free_spans rt_payload_extent rt_payload_capacity payload_units
  payload_alloc_offset frothy_runtime_release_payload payload_usable
proof (unfold_locales, goal_cases)
  case (1 len s off fs)
  then show ?case
    using payload_units_pos [of len]
    by (auto simp: payload_usable_def payload_alloc_offset_def frothy_runtime_alloc_payload_def
        align_up_Inr frothy_runtime_take_payload_free_span_def note_payload_used_def Let_def)
next
  case (2 len s)
  then show ?case
    using payload_units_pos [of len]
    by (auto simp: payload_usable_def payload_alloc_offset_def frothy_runtime_alloc_payload_def
        align_up_Inr frothy_runtime_take_payload_free_span_def note_payload_used_def Let_def)
next
  case (3 len s)
  then show ?case
    using payload_units_pos [of len]
    by (auto simp: payload_usable_def payload_alloc_offset_def frothy_runtime_alloc_payload_def
        align_up_Inr frothy_runtime_take_payload_free_span_def)
next
  case (4 sp s)
  then show ?case
    by (cases sp) (auto simp: frothy_runtime_release_payload_def span_release_def mk_span_def
        frothy_runtime_add_payload_free_span_def split: prod.splits)
next
  case (5 sp s)
  then show ?case
    by (simp add: frothy_runtime_release_payload_def frothy_runtime_add_payload_free_span_def
        split: prod.splits)
next
  case (6 len s)
  then show ?case by (simp add: payload_usable_def payload_units_pos)
qed

lemma alloc_payload_length:
  "frothy_runtime_alloc_payload len rt = (Inr sp, rt') \<Longrightarrow> len \<le> SIZE_MAX - 15 \<Longrightarrow>
   sp_length sp = payload_units len"
  by (auto simp: frothy_runtime_alloc_payload_def align_up_Inr
      split: if_splits prod.splits option.splits)

lemma alloc_payload_offset:
  "frothy_runtime_alloc_payload len rt = (Inr sp, rt') \<Longrightarrow>
   payload_alloc_offset len rt = (Inr (sp_offset sp), rt')"
  by (simp add: payload_alloc_offset_def)

subsection \<open>The cell arena\<close>

text \<open>
  Spans of cells are pairs of signed cells in C; every span lies inside the cell space, whose
  capacity is below \<open>2 ^ 31\<close> (\<open>cellspace_wf\<close>), so the natural numbers here are exact.
\<close>

definition frothy_runtime_add_free_span ::
  "nat \<Rightarrow> nat \<Rightarrow> frothy_runtime \<Rightarrow> frothy_runtime" where
  "frothy_runtime_add_free_span base len rt =
     (let (spans, used) =
        span_release (mk_span base len) (rt_free_spans rt) (cs_used (rt_cellspace rt))
      in rt\<lparr>rt_free_spans := spans, rt_cellspace := (rt_cellspace rt)\<lparr>cs_used := used\<rparr>\<rparr>)"

definition frothy_runtime_take_free_span ::
  "nat \<Rightarrow> frothy_runtime \<Rightarrow> nat option \<times> frothy_runtime" where
  "frothy_runtime_take_free_span len rt =
     (case span_take len (rt_free_spans rt) of
        None \<Rightarrow> (None, rt)
      | Some (base, spans) \<Rightarrow> (Some base, rt\<lparr>rt_free_spans := spans\<rparr>))"

text \<open>The first step of \<open>frothy_runtime_alloc_cells\<close>: a free span, or an allotment.\<close>

definition take_cells :: "nat \<Rightarrow> frothy_runtime \<Rightarrow> nat result \<times> frothy_runtime" where
  "take_cells len rt =
     (case frothy_runtime_take_free_span len rt of
        (Some base, rt') \<Rightarrow> (Inr base, rt')
      | (None, rt') \<Rightarrow>
          (case froth_cellspace_allot (int len) (rt_cellspace rt') of
             (r, cs) \<Rightarrow> (r, rt'\<lparr>rt_cellspace := cs\<rparr>)))"

definition cells_usable :: "nat \<Rightarrow> frothy_runtime \<Rightarrow> bool" where
  "cells_usable len rt \<longleftrightarrow> 0 < len"

definition release_cells :: "frothy_span \<Rightarrow> frothy_runtime \<Rightarrow> frothy_runtime" where
  "release_cells sp = frothy_runtime_add_free_span (sp_offset sp) (sp_length sp)"

interpretation cell_arena: span_allocator
  rt_free_spans "\<lambda>rt. cs_used (rt_cellspace rt)" "\<lambda>rt. cs_capacity (rt_cellspace rt)" "\<lambda>len. len"
  take_cells release_cells cells_usable
proof (unfold_locales, goal_cases)
  case (1 len s off fs)
  then show ?case by (auto simp: take_cells_def frothy_runtime_take_free_span_def)
next
  case (2 len s)
  then show ?case
    by (auto simp: take_cells_def frothy_runtime_take_free_span_def froth_cellspace_allot_def
        Let_def)
next
  case (3 len s)
  then show ?case
    by (auto simp: take_cells_def frothy_runtime_take_free_span_def froth_cellspace_allot_def)
next
  case (4 sp s)
  then show ?case
    by (cases sp) (auto simp: release_cells_def frothy_runtime_add_free_span_def span_release_def
        mk_span_def split: prod.splits)
next
  case (5 sp s)
  then show ?case
    by (simp add: release_cells_def frothy_runtime_add_free_span_def split: prod.splits)
next
  case (6 len s)
  then show ?case by (simp add: cells_usable_def)
qed

subsection \<open>What the arena operations leave unchanged\<close>

lemma release_payload_frame [frame_simps]:
  "rt_objects (frothy_runtime_release_payload sp rt) = rt_objects rt"
  "rt_cellspace (frothy_runtime_release_payload sp rt) = rt_cellspace rt"
  "rt_free_spans (frothy_runtime_release_payload sp rt) = rt_free_spans rt"
  "rt_payload_bytes (frothy_runtime_release_payload sp rt) = rt_payload_bytes rt"
  "rt_payload_capacity (frothy_runtime_release_payload sp rt) = rt_payload_capacity rt"
  "rt_live_object_count (frothy_runtime_release_payload sp rt) = rt_live_object_count rt"
  "rt_object_capacity (frothy_runtime_release_payload sp rt) = rt_object_capacity rt"
  "rt_test_object_limit (frothy_runtime_release_payload sp rt) = rt_test_object_limit rt"
  by (simp_all add: frothy_runtime_release_payload_def frothy_runtime_add_payload_free_span_def
      split: prod.splits)

lemma release_payload_used:
  "rt_payload_bytes_used (frothy_runtime_release_payload sp rt)
     = rt_payload_bytes_used rt - sp_length sp"
  by (simp add: frothy_runtime_release_payload_def frothy_runtime_add_payload_free_span_def
      split: prod.splits)

lemma alloc_payload_frame [frame_simps]:
  assumes "frothy_runtime_alloc_payload len rt = (r, rt')"
  shows "rt_objects rt' = rt_objects rt" "rt_cellspace rt' = rt_cellspace rt"
    "rt_free_spans rt' = rt_free_spans rt" "rt_payload_bytes rt' = rt_payload_bytes rt"
    "rt_payload_capacity rt' = rt_payload_capacity rt"
    "rt_live_object_count rt' = rt_live_object_count rt"
    "rt_object_capacity rt' = rt_object_capacity rt"
    "rt_test_object_limit rt' = rt_test_object_limit rt"
  using assms
  by (auto simp: frothy_runtime_alloc_payload_def frothy_runtime_take_payload_free_span_def
      note_payload_used_def Let_def split: if_splits sum.splits option.splits prod.splits)

lemma alloc_payload_used:
  "frothy_runtime_alloc_payload len rt = (Inr sp, rt') \<Longrightarrow>
   rt_payload_bytes_used rt' = rt_payload_bytes_used rt + sp_length sp"
  by (auto simp: frothy_runtime_alloc_payload_def frothy_runtime_take_payload_free_span_def
      note_payload_used_def Let_def split: if_splits sum.splits option.splits prod.splits)

lemma alloc_payload_error:
  "frothy_runtime_alloc_payload len rt = (Inl e, rt') \<Longrightarrow>
   rt' = rt \<and> e = FROTH_ERROR_HEAP_OUT_OF_MEMORY"
  by (auto simp: frothy_runtime_alloc_payload_def frothy_runtime_take_payload_free_span_def
      frothy_payload_align_up_def Let_def
      split: if_splits sum.splits option.splits prod.splits)

lemma take_cells_frame [frame_simps]:
  assumes "take_cells len rt = (r, rt')"
  shows "rt_objects rt' = rt_objects rt" "rt_payload_free_spans rt' = rt_payload_free_spans rt"
    "rt_payload_extent rt' = rt_payload_extent rt" "rt_payload_bytes rt' = rt_payload_bytes rt"
    "rt_payload_capacity rt' = rt_payload_capacity rt"
    "rt_payload_bytes_used rt' = rt_payload_bytes_used rt"
    "rt_live_object_count rt' = rt_live_object_count rt"
    "rt_object_capacity rt' = rt_object_capacity rt"
    "rt_test_object_limit rt' = rt_test_object_limit rt"
  using assms
  by (auto simp: take_cells_def frothy_runtime_take_free_span_def
      split: option.splits prod.splits)

lemma release_cells_frame [frame_simps]:
  "rt_objects (release_cells sp rt) = rt_objects rt"
  "rt_payload_free_spans (release_cells sp rt) = rt_payload_free_spans rt"
  "rt_payload_extent (release_cells sp rt) = rt_payload_extent rt"
  "rt_payload_bytes (release_cells sp rt) = rt_payload_bytes rt"
  "rt_payload_capacity (release_cells sp rt) = rt_payload_capacity rt"
  "rt_payload_bytes_used (release_cells sp rt) = rt_payload_bytes_used rt"
  "rt_live_object_count (release_cells sp rt) = rt_live_object_count rt"
  "rt_object_capacity (release_cells sp rt) = rt_object_capacity rt"
  "rt_test_object_limit (release_cells sp rt) = rt_test_object_limit rt"
  "cs_data (rt_cellspace (release_cells sp rt)) = cs_data (rt_cellspace rt)"
  "cs_capacity (rt_cellspace (release_cells sp rt)) = cs_capacity (rt_cellspace rt)"
  by (simp_all add: release_cells_def frothy_runtime_add_free_span_def split: prod.splits)

end
