(* ===== verification/Frothy_Runtime.thy ===== *)
theory Frothy_Runtime
  imports Frothy_Store Froth_Slots
begin

section \<open>Objects of the runtime: operations (frothy_value.c)\<close>

text \<open>
  The operations on the object table, in the order of the C file. A function that only reads is a
  function into \<open>result\<close>; one that mutates returns the runtime beside its result, on error paths
  too. The mutual recursion of \<open>frothy_value_release\<close> and \<open>frothy_runtime_clear_live_object\<close>
  carries a fuel; \<open>Frothy_Refcount\<close> proves that the fuel given here never runs out.
\<close>

subsection \<open>Object lookup\<close>

definition frothy_runtime_get_live_object_id :: "frothy_runtime \<Rightarrow> frothy_value \<Rightarrow> nat result" where
  "frothy_runtime_get_live_object_id rt v =
     (if \<not> frothy_value_is_object_ref v then Inl FROTH_ERROR_TYPE_MISMATCH
      else let object_id = frothy_value_object_index v
           in if length (rt_objects rt) \<le> object_id then Inl FROTH_ERROR_BOUNDS
              else if \<not> ob_live (rt_objects rt ! object_id) then Inl FROTH_ERROR_BOUNDS
              else Inr object_id)"

definition frothy_runtime_get_object ::
  "frothy_runtime \<Rightarrow> frothy_value \<Rightarrow> (frothy_object_as \<Rightarrow> bool) \<Rightarrow> frothy_object_as result" where
  "frothy_runtime_get_object rt v expected =
     FROTH_TRY (frothy_runtime_get_live_object_id rt v) (\<lambda>object_id.
       let ob = ob_as (rt_objects rt ! object_id)
       in if expected ob then Inr ob else Inl FROTH_ERROR_TYPE_MISMATCH)"

subsection \<open>Object storage\<close>

definition set_object :: "nat \<Rightarrow> frothy_object \<Rightarrow> frothy_runtime \<Rightarrow> frothy_runtime" where
  "set_object object_id ob rt = rt\<lparr>rt_objects := (rt_objects rt)[object_id := ob]\<rparr>"

definition frothy_runtime_release_code_storage :: "nat \<Rightarrow> frothy_runtime \<Rightarrow> frothy_runtime" where
  "frothy_runtime_release_code_storage object_id rt =
     (case rt_objects rt ! object_id of ob \<Rightarrow>
      (case ob_as ob of
         OBJECT_CODE payload arity local_count body program \<Rightarrow>
           if 0 < sp_length payload then frothy_runtime_release_payload payload rt
           else set_object object_id
                  (ob\<lparr>ob_as := OBJECT_CODE payload arity local_count body frothy_ir_program_init\<rparr>) rt
       | _ \<Rightarrow> rt))"

definition frothy_runtime_release_object_storage :: "nat \<Rightarrow> frothy_runtime \<Rightarrow> frothy_runtime" where
  "frothy_runtime_release_object_storage object_id rt =
     (case ob_as (rt_objects rt ! object_id) of
        OBJECT_TEXT payload len \<Rightarrow> frothy_runtime_release_payload payload rt
      | OBJECT_CELLS span \<Rightarrow> rt
      | OBJECT_CODE payload arity local_count body program \<Rightarrow>
          frothy_runtime_release_code_storage object_id rt
      | OBJECT_RECORD_DEF payload n \<Rightarrow> frothy_runtime_release_payload payload rt
      | OBJECT_RECORD payload def n \<Rightarrow> frothy_runtime_release_payload payload rt
      | OBJECT_NATIVE f c n a \<Rightarrow> rt
      | OBJECT_FREE \<Rightarrow> rt)"

definition frothy_runtime_finish_object_teardown :: "nat \<Rightarrow> frothy_runtime \<Rightarrow> frothy_runtime" where
  "frothy_runtime_finish_object_teardown object_id rt =
     (set_object object_id frothy_object_reset rt)
       \<lparr>rt_live_object_count := rt_live_object_count rt - 1\<rparr>"

definition frothy_runtime_discard_object :: "nat \<Rightarrow> frothy_runtime \<Rightarrow> frothy_runtime" where
  "frothy_runtime_discard_object object_id rt =
     (if \<not> ob_live (rt_objects rt ! object_id) then rt
      else frothy_runtime_finish_object_teardown object_id
             (frothy_runtime_release_object_storage object_id rt))"

definition frothy_runtime_install_object ::
  "nat \<Rightarrow> frothy_object_as \<Rightarrow> frothy_runtime \<Rightarrow> frothy_value \<times> frothy_runtime" where
  "frothy_runtime_install_object object_id ob rt =
     (frothy_object_value object_id,
      (set_object object_id \<lparr>ob_refcount = 1, ob_live = True, ob_as = ob\<rparr> rt)
        \<lparr>rt_live_object_count := rt_live_object_count rt + 1\<rparr>)"

fun first_dead :: "frothy_object list \<Rightarrow> nat \<Rightarrow> nat option" where
  "first_dead [] i = None"
| "first_dead (ob # obs) i = (if \<not> ob_live ob then Some i else first_dead obs (Suc i))"

definition frothy_runtime_append_object ::
  "frothy_object_as \<Rightarrow> frothy_runtime \<Rightarrow> frothy_value result \<times> frothy_runtime" where
  "frothy_runtime_append_object ob rt =
     (if rt_test_fail_next_append rt
      then (Inl FROTH_ERROR_HEAP_OUT_OF_MEMORY, rt\<lparr>rt_test_fail_next_append := False\<rparr>)
      else case first_dead (rt_objects rt) 0 of
          Some object_id \<Rightarrow> map_prod Inr id (frothy_runtime_install_object object_id ob rt)
        | None \<Rightarrow>
            let object_limit = min (rt_test_object_limit rt) (rt_object_capacity rt);
                n = length (rt_objects rt)
            in if object_limit \<le> n then (Inl FROTH_ERROR_HEAP_OUT_OF_MEMORY, rt)
               else if rt_object_capacity rt < n + 1
               then (Inl FROTH_ERROR_HEAP_OUT_OF_MEMORY, rt)
               else map_prod Inr id (frothy_runtime_install_object n ob
                      (rt\<lparr>rt_objects := rt_objects rt @ [frothy_object_reset],
                          rt_object_high_water := max (rt_object_high_water rt) (n + 1)\<rparr>)))"

subsection \<open>Values in storage\<close>

definition load_word :: "byte list \<Rightarrow> nat \<Rightarrow> 32 word" where
  "load_word bytes off =
     (case load_at bytes off 4 of [b0, b1, b2, b3] \<Rightarrow> of_le32 b0 b1 b2 b3 | _ \<Rightarrow> 0)"

definition store_word :: "nat \<Rightarrow> 32 word \<Rightarrow> frothy_runtime \<Rightarrow> frothy_runtime" where
  "store_word off v rt = rt\<lparr>rt_payload_bytes := store_at (rt_payload_bytes rt) off (le32 v)\<rparr>"

definition store_bytes :: "nat \<Rightarrow> byte list \<Rightarrow> frothy_runtime \<Rightarrow> frothy_runtime" where
  "store_bytes off bs rt = rt\<lparr>rt_payload_bytes := store_at (rt_payload_bytes rt) off bs\<rparr>"

definition record_field_at :: "frothy_runtime \<Rightarrow> frothy_span \<Rightarrow> nat \<Rightarrow> frothy_value" where
  "record_field_at rt payload i = load_word (rt_payload_bytes rt) (sp_offset payload + 4 * i)"

definition frothy_cellspace_value :: "frothy_runtime \<Rightarrow> nat \<Rightarrow> frothy_value" where
  "frothy_cellspace_value rt index = frothy_value_from_cell (cs_data (rt_cellspace rt) ! index)"

definition set_cell :: "nat \<Rightarrow> cell \<Rightarrow> frothy_runtime \<Rightarrow> frothy_runtime" where
  "set_cell index c rt =
     rt\<lparr>rt_cellspace := (rt_cellspace rt)\<lparr>cs_data := (cs_data (rt_cellspace rt))[index := c]\<rparr>\<rparr>"

definition frothy_cellspace_store_value ::
  "nat \<Rightarrow> frothy_value \<Rightarrow> frothy_runtime \<Rightarrow> frothy_runtime" where
  "frothy_cellspace_store_value index v = set_cell index (frothy_value_to_cell v)"

subsection \<open>Retain and release\<close>

definition set_refcount :: "nat \<Rightarrow> nat \<Rightarrow> frothy_runtime \<Rightarrow> frothy_runtime" where
  "set_refcount object_id n rt =
     set_object object_id ((rt_objects rt ! object_id)\<lparr>ob_refcount := n\<rparr>) rt"

definition frothy_value_retain :: "frothy_value \<Rightarrow> frothy_runtime \<Rightarrow> unit result \<times> frothy_runtime" where
  "frothy_value_retain v rt =
     (if \<not> frothy_value_is_object_ref v then (Inr (), rt)
      else case frothy_runtime_get_live_object_id rt v of
          Inl e \<Rightarrow> (Inl e, rt)
        | Inr object_id \<Rightarrow>
            let n = ob_refcount (rt_objects rt ! object_id)
            in if n = UINT32_MAX then (Inl FROTH_ERROR_HEAP_OUT_OF_MEMORY, rt)
               else (Inr (), set_refcount object_id (n + 1) rt))"

type_synonym releaser = "frothy_value \<Rightarrow> frothy_runtime \<Rightarrow> unit result \<times> frothy_runtime"

text \<open>The loop over the cells of an object: release the value, zero the cell.\<close>

fun clear_cells_loop ::
  "releaser \<Rightarrow> nat \<Rightarrow> nat \<Rightarrow> frothy_runtime \<Rightarrow> unit result \<times> frothy_runtime" where
  "clear_cells_loop rel index 0 rt = (Inr (), rt)"
| "clear_cells_loop rel index (Suc n) rt =
     (case rel (frothy_cellspace_value rt index) rt of
        (Inl e, rt') \<Rightarrow> (Inl e, rt')
      | (Inr u, rt') \<Rightarrow> clear_cells_loop rel (Suc index) n (set_cell index 0 rt'))"

text \<open>The loop over the fields of a record, from field \<open>i\<close> on.\<close>

fun clear_fields_loop ::
  "releaser \<Rightarrow> frothy_span \<Rightarrow> nat \<Rightarrow> nat \<Rightarrow> frothy_runtime \<Rightarrow> unit result \<times> frothy_runtime" where
  "clear_fields_loop rel payload i 0 rt = (Inr (), rt)"
| "clear_fields_loop rel payload i (Suc n) rt =
     (case rel (record_field_at rt payload i) rt of
        (Inl e, rt') \<Rightarrow> (Inl e, rt')
      | (Inr u, rt') \<Rightarrow> clear_fields_loop rel payload (Suc i) n rt')"

definition and_then ::
  "unit result \<times> frothy_runtime \<Rightarrow> (frothy_runtime \<Rightarrow> 'a result \<times> frothy_runtime) \<Rightarrow>
   'a result \<times> frothy_runtime" where
  "and_then m k = (case m of (Inl e, rt) \<Rightarrow> (Inl e, rt) | (Inr u, rt) \<Rightarrow> k rt)"

definition finish_clear :: "nat \<Rightarrow> frothy_runtime \<Rightarrow> unit result \<times> frothy_runtime" where
  "finish_clear object_id rt =
     (Inr (), frothy_runtime_finish_object_teardown object_id
                (frothy_runtime_release_object_storage object_id rt))"

text \<open>
  The C code reads \<open>field_count\<close> and \<open>definition\<close> through the object pointer while it
  releases; the object has no references left then, and \<open>Frothy_Refcount\<close> shows that a release
  never touches such an object, so they are read once here.
\<close>

definition frothy_runtime_clear_live_object ::
  "releaser \<Rightarrow> nat \<Rightarrow> frothy_runtime \<Rightarrow> unit result \<times> frothy_runtime" where
  "frothy_runtime_clear_live_object rel object_id rt =
     (if \<not> ob_live (rt_objects rt ! object_id) then (Inr (), rt)
      else case ob_as (rt_objects rt ! object_id) of
          OBJECT_CELLS span \<Rightarrow>
            and_then (clear_cells_loop rel (sp_offset span) (sp_length span) rt) (\<lambda>rt.
              (Inr (), frothy_runtime_finish_object_teardown object_id
                (frothy_runtime_add_free_span (sp_offset span) (sp_length span) rt)))
        | OBJECT_RECORD payload def n \<Rightarrow>
            and_then (clear_fields_loop rel payload 0 n rt) (\<lambda>rt.
            and_then (rel def rt) (finish_clear object_id))
        | _ \<Rightarrow> finish_clear object_id rt)"

primrec release_fuel :: "nat \<Rightarrow> releaser" where
  "release_fuel 0 v rt = (Inr (), rt)"
| "release_fuel (Suc n) v rt =
     (if \<not> frothy_value_is_object_ref v then (Inr (), rt)
      else case frothy_runtime_get_live_object_id rt v of
          Inl e \<Rightarrow> (Inl e, rt)
        | Inr object_id \<Rightarrow>
            let c = ob_refcount (rt_objects rt ! object_id)
            in if c = 0 then (Inl FROTH_ERROR_BOUNDS, rt)
               else let rt' = set_refcount object_id (c - 1) rt
                    in if 0 < c - 1 then (Inr (), rt')
                       else frothy_runtime_clear_live_object (release_fuel n) object_id rt')"

text \<open>
  Every nested release takes one off the sum of all reference counts, which is therefore enough
  fuel.
\<close>

definition total_refcount :: "frothy_runtime \<Rightarrow> nat" where
  "total_refcount rt = (\<Sum>ob\<leftarrow>rt_objects rt. ob_refcount ob)"

definition frothy_value_release :: releaser where
  "frothy_value_release v rt = release_fuel (Suc (total_refcount rt)) v rt"

subsection \<open>Overlay reset\<close>

fun release_overlay_slots ::
  "slot_table \<Rightarrow> nat \<Rightarrow> nat \<Rightarrow> frothy_runtime \<Rightarrow> unit result \<times> frothy_runtime" where
  "release_overlay_slots t i 0 rt = (Inr (), rt)"
| "release_overlay_slots t i (Suc n) rt =
     (if \<not> froth_slot_is_overlay t i then release_overlay_slots t (Suc i) n rt
      else case froth_slot_get_impl t i of
          Inl e \<Rightarrow> release_overlay_slots t (Suc i) n rt
        | Inr impl \<Rightarrow>
            and_then (frothy_value_release (frothy_value_from_cell impl) rt)
              (release_overlay_slots t (Suc i) n))"

fun discard_all :: "nat \<Rightarrow> nat \<Rightarrow> frothy_runtime \<Rightarrow> frothy_runtime" where
  "discard_all i 0 rt = rt"
| "discard_all i (Suc n) rt = discard_all (Suc i) n (frothy_runtime_discard_object i rt)"

definition frothy_runtime_clear_overlay_state ::
  "slot_table \<Rightarrow> frothy_runtime \<Rightarrow> unit result \<times> frothy_runtime" where
  "frothy_runtime_clear_overlay_state t rt =
     and_then (release_overlay_slots t 0 (st_pointer t) rt) (\<lambda>rt.
       let rt = rt\<lparr>rt_cellspace := froth_cellspace_reset_to_base (rt_cellspace rt)\<rparr>;
           rt = discard_all 0 (length (rt_objects rt)) rt
       in (Inr (), rt\<lparr>rt_objects := [], rt_free_spans := [], rt_payload_free_spans := [],
             rt_payload_extent := 0, rt_payload_bytes_used := 0, rt_payload_bytes_high_water := 0,
             rt_live_object_count := 0, rt_object_high_water := 0,
             rt_test_fail_next_append := False, rt_eval_value_used := 0,
             rt_eval_value_high_water := 0, rt_ffi_error_code := None, rt_ffi_error_kind := None,
             rt_ffi_error_origin := None, rt_ffi_error_detail := None,
             rt_reset_epoch := rt_reset_epoch rt + 1\<rparr>))"

definition frothy_runtime_reset_overlay ::
  "slot_table \<Rightarrow> frothy_runtime \<Rightarrow> unit result \<times> slot_table \<times> frothy_runtime" where
  "frothy_runtime_reset_overlay t rt =
     (case frothy_runtime_clear_overlay_state t rt of
        (Inl e, rt') \<Rightarrow> (Inl e, t, rt')
      | (Inr u, rt') \<Rightarrow> (Inr (), froth_slot_reset_overlay t, rt'))"

definition frothy_runtime_debug_reset_high_water :: "frothy_runtime \<Rightarrow> frothy_runtime" where
  "frothy_runtime_debug_reset_high_water rt = rt\<lparr>rt_object_high_water := rt_live_object_count rt,
     rt_eval_value_high_water := rt_eval_value_used rt,
     rt_payload_bytes_high_water := rt_payload_bytes_used rt\<rparr>"

definition frothy_runtime_test_set_object_limit :: "nat \<Rightarrow> frothy_runtime \<Rightarrow> frothy_runtime" where
  "frothy_runtime_test_set_object_limit limit rt = rt\<lparr>rt_test_object_limit :=
     (if rt_object_capacity rt < limit then rt_object_capacity rt else limit)\<rparr>"

definition frothy_runtime_test_set_eval_value_limit ::
  "nat \<Rightarrow> frothy_runtime \<Rightarrow> frothy_runtime" where
  "frothy_runtime_test_set_eval_value_limit limit rt = rt\<lparr>rt_eval_value_limit :=
     (if rt_eval_value_capacity rt < limit then rt_eval_value_capacity rt else limit)\<rparr>"

definition frothy_runtime_test_fail_next_append :: "frothy_runtime \<Rightarrow> frothy_runtime" where
  "frothy_runtime_test_fail_next_append rt = rt\<lparr>rt_test_fail_next_append := True\<rparr>"

subsection \<open>Texts\<close>

definition frothy_runtime_alloc_text ::
  "byte list \<Rightarrow> frothy_runtime \<Rightarrow> frothy_value result \<times> frothy_runtime" where
  "frothy_runtime_alloc_text text rt =
     (if SIZE_MAX - 1 < length text then (Inl FROTH_ERROR_HEAP_OUT_OF_MEMORY, rt)
      else case frothy_runtime_alloc_payload (length text + 1) rt of
          (Inl e, rt) \<Rightarrow> (Inl e, rt)
        | (Inr payload, rt) \<Rightarrow>
            (case frothy_runtime_append_object (OBJECT_TEXT payload (length text))
                    (store_bytes (sp_offset payload) (text @ [0]) rt) of
               (Inl e, rt) \<Rightarrow> (Inl e, frothy_runtime_release_payload payload rt)
             | (Inr v, rt) \<Rightarrow> (Inr v, rt)))"

definition frothy_runtime_get_text :: "frothy_runtime \<Rightarrow> frothy_value \<Rightarrow> byte list result" where
  "frothy_runtime_get_text rt v =
     FROTH_TRY (frothy_runtime_get_object rt v is_OBJECT_TEXT) (\<lambda>ob.
       Inr (load_at (rt_payload_bytes rt) (sp_offset (as_payload ob)) (text_length ob)))"

subsection \<open>Cells\<close>

fun fill_nil :: "nat \<Rightarrow> nat \<Rightarrow> frothy_runtime \<Rightarrow> frothy_runtime" where
  "fill_nil index 0 rt = rt"
| "fill_nil index (Suc n) rt =
     fill_nil (Suc index) n (frothy_cellspace_store_value index frothy_value_make_nil rt)"

definition frothy_runtime_alloc_cells ::
  "nat \<Rightarrow> frothy_runtime \<Rightarrow> frothy_value result \<times> frothy_runtime" where
  "frothy_runtime_alloc_cells len rt =
     (if len = 0 \<or> INT32_MAX < len then (Inl FROTH_ERROR_BOUNDS, rt)
      else case take_cells len rt of
          (Inl e, rt) \<Rightarrow> (Inl e, rt)
        | (Inr base, rt) \<Rightarrow>
            (case frothy_runtime_append_object (OBJECT_CELLS (mk_span base len))
                    (fill_nil base len rt) of
               (Inl e, rt) \<Rightarrow> (Inl e, frothy_runtime_add_free_span base len rt)
             | (Inr v, rt) \<Rightarrow> (Inr v, rt)))"

definition frothy_runtime_get_cells :: "frothy_runtime \<Rightarrow> frothy_value \<Rightarrow> (nat \<times> nat) result" where
  "frothy_runtime_get_cells rt v =
     FROTH_TRY (frothy_runtime_get_object rt v is_OBJECT_CELLS) (\<lambda>ob.
       Inr (sp_length (cells_span ob), sp_offset (cells_span ob)))"

subsection \<open>Code and natives\<close>

definition frothy_runtime_code_payload_from_view ::
  "frothy_runtime \<Rightarrow> frothy_ir_program \<Rightarrow> frothy_span result" where
  "frothy_runtime_code_payload_from_view rt program =
     (if ir_storage_kind program \<noteq> STORAGE_VIEW then Inl FROTH_ERROR_BOUNDS
      else if ir_storage_size program = 0 then Inr (mk_span 0 0)
      else if rt_payload_capacity rt < ir_storage_base program then Inl FROTH_ERROR_BOUNDS
      else if rt_payload_capacity rt - ir_storage_base program < ir_storage_size program
      then Inl FROTH_ERROR_BOUNDS
      else Inr (mk_span (ir_storage_base program) (ir_storage_size program)))"

definition frothy_runtime_alloc_packed_code ::
  "frothy_ir_program \<Rightarrow> node_id \<Rightarrow> nat \<Rightarrow> nat \<Rightarrow> frothy_runtime \<Rightarrow>
   frothy_value result \<times> frothy_runtime" where
  "frothy_runtime_alloc_packed_code program body arity local_count rt =
     (case frothy_runtime_code_payload_from_view rt program of
        Inl e \<Rightarrow> (Inl e, rt)
      | Inr payload \<Rightarrow>
          frothy_runtime_append_object (OBJECT_CODE payload arity local_count body program) rt)"

text \<open>
  The packed block is zero-filled before the arrays are laid out in it. Its C structures hold
  pointers, so the payload bytes do not represent them: the object carries the program itself.
\<close>

definition frothy_runtime_alloc_code ::
  "frothy_ir_program \<Rightarrow> node_id \<Rightarrow> nat \<Rightarrow> nat \<Rightarrow> frothy_runtime \<Rightarrow>
   frothy_value result \<times> frothy_runtime" where
  "frothy_runtime_alloc_code program body arity local_count rt =
     (case frothy_ir_program_clone_packed_size program of
        Inl e \<Rightarrow> (Inl e, rt)
      | Inr len \<Rightarrow>
          (case frothy_runtime_alloc_payload len rt of
             (Inl e, rt) \<Rightarrow> (Inl e, rt)
           | (Inr payload, rt) \<Rightarrow>
               (case frothy_ir_program_clone_packed program (sp_offset payload)
                       (sp_length payload) of
                  Inl e \<Rightarrow> (Inl e, frothy_runtime_release_payload payload rt)
                | Inr packed \<Rightarrow>
                    (case frothy_runtime_alloc_packed_code packed body arity local_count
                       (store_bytes (sp_offset payload) (replicate (sp_length payload) 0) rt) of
                       (Inl e, rt) \<Rightarrow> (Inl e, frothy_runtime_release_payload payload rt)
                     | (Inr v, rt) \<Rightarrow> (Inr v, rt)))))"

definition frothy_runtime_get_code :: "frothy_runtime \<Rightarrow> frothy_value \<Rightarrow> frothy_object_as result" where
  "frothy_runtime_get_code rt v = frothy_runtime_get_object rt v is_OBJECT_CODE"

definition frothy_runtime_alloc_native ::
  "nat \<Rightarrow> byte list \<Rightarrow> nat \<Rightarrow> nat \<Rightarrow> frothy_runtime \<Rightarrow> frothy_value result \<times> frothy_runtime" where
  "frothy_runtime_alloc_native fn name arity context =
     frothy_runtime_append_object (OBJECT_NATIVE fn context name arity)"

definition frothy_runtime_get_native ::
  "frothy_runtime \<Rightarrow> frothy_value \<Rightarrow> frothy_object_as result" where
  "frothy_runtime_get_native rt v = frothy_runtime_get_object rt v is_OBJECT_NATIVE"

end
