(* ===== verification/Frothy_Release.thy ===== *)
theory Frothy_Release
  imports Frothy_Runtime
begin

section \<open>The recursion of release terminates\<close>

text \<open>
  \<open>frothy_value_release\<close> and \<open>frothy_runtime_clear_live_object\<close> call each other in C with no
  bound on the depth. Every call that recurses has taken one off a positive reference count and
  no call ever raises one, so the sum of the counts bounds the depth. The lemmas below hold in
  every state, consistent or not; the theorem gives the recursion equation of the C code without
  fuel.
\<close>

lemma set_object_simps [simp]:
  "length (rt_objects (set_object i ob rt)) = length (rt_objects rt)"
  "rt_objects (set_object i ob rt) = (rt_objects rt)[i := ob]"
  by (simp_all add: set_object_def)

lemma total_refcount_set_object:
  "i < length (rt_objects rt) \<Longrightarrow>
   total_refcount (set_object i ob rt) + ob_refcount (rt_objects rt ! i)
     = total_refcount rt + ob_refcount ob"
  unfolding total_refcount_def set_object_def
  using sum_list_map_update [of i "rt_objects rt" ob_refcount ob] by simp

lemma total_refcount_objects:
  "rt_objects rt' = rt_objects rt \<Longrightarrow> total_refcount rt' = total_refcount rt"
  by (simp add: total_refcount_def)

lemma get_live_object_id_Inr:
  "frothy_runtime_get_live_object_id rt v = Inr i \<longleftrightarrow>
   frothy_value_is_object_ref v \<and> i = frothy_value_object_index v \<and>
   i < length (rt_objects rt) \<and> ob_live (rt_objects rt ! i)"
  by (auto simp: frothy_runtime_get_live_object_id_def Let_def)

lemma total_set_refcount_dec:
  assumes "i < length (rt_objects rt)" "c = ob_refcount (rt_objects rt ! i)" "0 < c"
  shows "total_refcount (set_refcount i (c - 1) rt) + 1 = total_refcount rt"
  using total_refcount_set_object [OF assms(1), of "(rt_objects rt ! i)\<lparr>ob_refcount := c - 1\<rparr>"]
    assms(2,3) by (simp add: set_refcount_def)

lemma total_same_refcount:
  "ob_refcount ob = ob_refcount (rt_objects rt ! i) \<Longrightarrow>
   total_refcount (set_object i ob rt) = total_refcount rt"
  using total_refcount_set_object [of i rt ob]
  by (cases "i < length (rt_objects rt)") (simp_all add: total_refcount_def list_update_beyond)

lemma total_release_payload [simp]:
  "total_refcount (frothy_runtime_release_payload sp rt) = total_refcount rt"
  by (rule total_refcount_objects) (simp add: frame_simps)

lemma total_release_storage:
  "total_refcount (frothy_runtime_release_object_storage i rt) = total_refcount rt"
  by (simp add: frothy_runtime_release_object_storage_def frothy_runtime_release_code_storage_def
      total_same_refcount split: frothy_object_as.splits)

lemma total_teardown: "total_refcount (frothy_runtime_finish_object_teardown i rt) \<le> total_refcount rt"
proof (cases "i < length (rt_objects rt)")
  case True
  have "total_refcount (frothy_runtime_finish_object_teardown i rt)
      = total_refcount (set_object i frothy_object_reset rt)"
    by (rule total_refcount_objects) (simp add: frothy_runtime_finish_object_teardown_def)
  with total_refcount_set_object [OF True, of frothy_object_reset] show ?thesis
    by (simp add: frothy_object_reset_def)
next
  case False
  have "total_refcount (frothy_runtime_finish_object_teardown i rt) = total_refcount rt"
    by (rule total_refcount_objects)
       (use False in \<open>simp add: frothy_runtime_finish_object_teardown_def list_update_beyond\<close>)
  then show ?thesis by simp
qed

lemma total_add_free_span: "total_refcount (frothy_runtime_add_free_span b n rt) = total_refcount rt"
  by (rule total_refcount_objects)
     (simp add: frothy_runtime_add_free_span_def split: prod.splits)

lemma total_set_cell [simp]: "total_refcount (set_cell i c rt) = total_refcount rt"
  by (rule total_refcount_objects) (simp add: set_cell_def)

lemma total_finish_clear: "total_refcount (snd (finish_clear i rt)) \<le> total_refcount rt"
  using total_teardown [of i "frothy_runtime_release_object_storage i rt"]
  by (simp add: finish_clear_def total_release_storage)

text \<open>A releaser that never raises the sum, below a bound.\<close>

definition shrinks :: "releaser \<Rightarrow> bool" where
  "shrinks rel \<longleftrightarrow> (\<forall>v rt. total_refcount (snd (rel v rt)) \<le> total_refcount rt)"

definition agree_upto :: "nat \<Rightarrow> releaser \<Rightarrow> releaser \<Rightarrow> bool" where
  "agree_upto k rel rel' \<longleftrightarrow> (\<forall>v rt. total_refcount rt \<le> k \<longrightarrow> rel v rt = rel' v rt)"

lemma shrinksD: "shrinks rel \<Longrightarrow> rel v rt = (r, rt') \<Longrightarrow> total_refcount rt' \<le> total_refcount rt"
  unfolding shrinks_def by (metis snd_conv)

lemma clear_cells_shrinks:
  "shrinks rel \<Longrightarrow> total_refcount (snd (clear_cells_loop rel i n rt)) \<le> total_refcount rt"
proof (induction n arbitrary: i rt)
  case (Suc n)
  obtain r rt1 where r: "rel (frothy_cellspace_value rt i) rt = (r, rt1)" by fastforce
  from Suc.IH [OF Suc.prems, of "Suc i" "set_cell i 0 rt1"] shrinksD [OF Suc.prems r] r
  show ?case by (cases r) auto
qed simp

lemma clear_fields_shrinks:
  "shrinks rel \<Longrightarrow> total_refcount (snd (clear_fields_loop rel p i n rt)) \<le> total_refcount rt"
proof (induction n arbitrary: i rt)
  case (Suc n)
  obtain r rt1 where r: "rel (record_field_at rt p i) rt = (r, rt1)" by fastforce
  from Suc.IH [OF Suc.prems, of "Suc i" rt1] shrinksD [OF Suc.prems r] r
  show ?case by (cases r) auto
qed simp

lemma and_then_shrinks:
  "total_refcount (snd m) \<le> k \<Longrightarrow> (\<And>rt. total_refcount rt \<le> k \<Longrightarrow> total_refcount (snd (f rt)) \<le> k) \<Longrightarrow>
   total_refcount (snd (and_then m f)) \<le> k"
  by (auto simp: and_then_def split: prod.splits sum.splits)

lemma clear_shrinks:
  assumes "shrinks rel"
  shows "total_refcount (snd (frothy_runtime_clear_live_object rel i rt)) \<le> total_refcount rt"
proof -
  have fin: "total_refcount rt' \<le> k \<Longrightarrow> total_refcount (snd (finish_clear i rt')) \<le> k" for rt' k
    using total_finish_clear [of i rt'] by linarith
  have cells: "total_refcount rt' \<le> k \<Longrightarrow> total_refcount
      (frothy_runtime_finish_object_teardown i (frothy_runtime_add_free_span b n rt')) \<le> k"
    for rt' k b n
    using total_teardown [of i "frothy_runtime_add_free_span b n rt'"]
    by (simp add: total_add_free_span)
  have rel: "total_refcount rt' \<le> k \<Longrightarrow> total_refcount (snd (rel v rt')) \<le> k" for v rt' k
    using assms unfolding shrinks_def by (meson le_trans)
  show ?thesis
    using fin [OF order_refl]
    by (auto simp: frothy_runtime_clear_live_object_def
        intro!: and_then_shrinks clear_cells_shrinks [OF assms] clear_fields_shrinks [OF assms]
          fin cells rel split: frothy_object_as.splits)
qed

lemma release_fuel_shrinks: "shrinks (release_fuel n)"
proof (induction n)
  case 0
  show ?case by (simp add: shrinks_def)
next
  case (Suc n)
  have "total_refcount (snd (release_fuel (Suc n) v rt)) \<le> total_refcount rt" for v rt
  proof (cases "frothy_runtime_get_live_object_id rt v")
    case (Inr i)
    then have i: "i < length (rt_objects rt)" by (simp add: get_live_object_id_Inr)
    define c where "c = ob_refcount (rt_objects rt ! i)"
    show ?thesis
    proof (cases "c = 0")
      case False
      then have "total_refcount (set_refcount i (c - 1) rt) + 1 = total_refcount rt"
        by (intro total_set_refcount_dec [OF i]) (simp_all add: c_def)
      with clear_shrinks [OF Suc.IH, of i "set_refcount i (c - 1) rt"] Inr False show ?thesis
        by (auto simp: Let_def c_def)
    qed (use Inr in \<open>auto simp: Let_def c_def\<close>)
  qed auto
  then show ?case by (simp add: shrinks_def)
qed

subsection \<open>Releasers that agree on small states clear alike\<close>

lemma clear_cells_agree:
  "agree_upto k rel rel' \<Longrightarrow> shrinks rel \<Longrightarrow> total_refcount rt \<le> k \<Longrightarrow>
   clear_cells_loop rel i n rt = clear_cells_loop rel' i n rt"
proof (induction n arbitrary: i rt)
  case (Suc n)
  obtain r rt1 where r: "rel (frothy_cellspace_value rt i) rt = (r, rt1)" by fastforce
  moreover have "rel' (frothy_cellspace_value rt i) rt = (r, rt1)"
    using r Suc.prems unfolding agree_upto_def by metis
  moreover have "total_refcount (set_cell i 0 rt1) \<le> k"
    using shrinksD [OF Suc.prems(2) r] Suc.prems(3) by simp
  ultimately show ?case using Suc.IH Suc.prems by (cases r) auto
qed simp

lemma clear_fields_agree:
  "agree_upto k rel rel' \<Longrightarrow> shrinks rel \<Longrightarrow> total_refcount rt \<le> k \<Longrightarrow>
   clear_fields_loop rel p i n rt = clear_fields_loop rel' p i n rt"
proof (induction n arbitrary: i rt)
  case (Suc n)
  obtain r rt1 where r: "rel (record_field_at rt p i) rt = (r, rt1)" by fastforce
  moreover have "rel' (record_field_at rt p i) rt = (r, rt1)"
    using r Suc.prems unfolding agree_upto_def by metis
  moreover have "total_refcount rt1 \<le> k"
    using shrinksD [OF Suc.prems(2) r] Suc.prems(3) by simp
  ultimately show ?case using Suc.IH Suc.prems by (cases r) auto
qed simp

lemma and_then_agree:
  "total_refcount (snd m) \<le> k \<Longrightarrow> (\<And>rt. total_refcount rt \<le> k \<Longrightarrow> f rt = f' rt) \<Longrightarrow>
   and_then m f = and_then m f'"
  by (auto simp: and_then_def split: prod.splits sum.splits)

lemma clear_agree:
  assumes "agree_upto k rel rel'" "shrinks rel" "total_refcount rt \<le> k"
  shows "frothy_runtime_clear_live_object rel i rt = frothy_runtime_clear_live_object rel' i rt"
proof -
  have "and_then (clear_fields_loop rel p 0 n rt) (\<lambda>rt. and_then (rel d rt) (finish_clear i))
      = and_then (clear_fields_loop rel' p 0 n rt) (\<lambda>rt. and_then (rel' d rt) (finish_clear i))"
    for p n d
    unfolding clear_fields_agree [OF assms, of p 0 n, symmetric]
  proof (rule and_then_agree [where k = k])
    show "total_refcount (snd (clear_fields_loop rel p 0 n rt)) \<le> k"
      using clear_fields_shrinks [OF assms(2), of p 0 n rt] assms(3) by linarith
    fix rt' assume "total_refcount rt' \<le> k"
    with assms(1) have "rel d rt' = rel' d rt'" unfolding agree_upto_def by blast
    then show "and_then (rel d rt') (finish_clear i) = and_then (rel' d rt') (finish_clear i)" by simp
  qed
  then show ?thesis
    using clear_cells_agree [OF assms]
    by (simp add: frothy_runtime_clear_live_object_def split: frothy_object_as.splits)
qed

lemma release_fuel_agree:
  "total_refcount rt < n \<Longrightarrow> total_refcount rt < m \<Longrightarrow> release_fuel n v rt = release_fuel m v rt"
proof (induction n arbitrary: m v rt)
  case (Suc n)
  then obtain m' where m: "m = Suc m'" by (cases m) auto
  show ?case
  proof (cases "frothy_runtime_get_live_object_id rt v")
    case (Inr i)
    then have i: "i < length (rt_objects rt)" by (simp add: get_live_object_id_Inr)
    define c where "c = ob_refcount (rt_objects rt ! i)"
    show ?thesis
    proof (cases "c = 0")
      case False
      then have total: "total_refcount (set_refcount i (c - 1) rt) + 1 = total_refcount rt"
        by (intro total_set_refcount_dec [OF i]) (simp_all add: c_def)
      let ?k = "total_refcount (set_refcount i (c - 1) rt)"
      have "agree_upto ?k (release_fuel n) (release_fuel m')"
        unfolding agree_upto_def
      proof (intro allI impI)
        fix w rt1 assume "total_refcount rt1 \<le> ?k"
        with total Suc.prems m have "total_refcount rt1 < n" "total_refcount rt1 < m'" by simp_all
        then show "release_fuel n w rt1 = release_fuel m' w rt1" by (rule Suc.IH)
      qed
      from clear_agree [OF this release_fuel_shrinks order_refl, of i]
      show ?thesis by (cases "c = 1") (use False in \<open>auto simp: m Inr Let_def c_def\<close>)
    qed (simp add: m Inr Let_def c_def)
  qed (simp add: m)
qed simp

text \<open>C17. Releasing a value terminates in every state, and the fuel is invisible: the function
satisfies the recursion equation of the C code, in which the nested releases are the function
itself.\<close>

theorem release_unfold:
  "frothy_value_release v rt =
     (if \<not> frothy_value_is_object_ref v then (Inr (), rt)
      else case frothy_runtime_get_live_object_id rt v of
          Inl e \<Rightarrow> (Inl e, rt)
        | Inr object_id \<Rightarrow>
            let c = ob_refcount (rt_objects rt ! object_id)
            in if c = 0 then (Inl FROTH_ERROR_BOUNDS, rt)
               else let rt' = set_refcount object_id (c - 1) rt
                    in if 0 < c - 1 then (Inr (), rt')
                       else frothy_runtime_clear_live_object frothy_value_release object_id rt')"
proof (cases "frothy_runtime_get_live_object_id rt v")
  case (Inr i)
  then have i: "i < length (rt_objects rt)" by (simp add: get_live_object_id_Inr)
  define c where "c = ob_refcount (rt_objects rt ! i)"
  show ?thesis
  proof (cases "c = 0")
    case False
    then have total: "total_refcount (set_refcount i (c - 1) rt) + 1 = total_refcount rt"
      by (intro total_set_refcount_dec [OF i]) (simp_all add: c_def)
    let ?k = "total_refcount (set_refcount i (c - 1) rt)"
    have "agree_upto ?k (release_fuel (total_refcount rt)) frothy_value_release"
      unfolding agree_upto_def frothy_value_release_def
    proof (intro allI impI)
      fix w rt1 assume "total_refcount rt1 \<le> ?k"
      with total show "release_fuel (total_refcount rt) w rt1
          = release_fuel (Suc (total_refcount rt1)) w rt1"
        by (intro release_fuel_agree) simp_all
    qed
    from clear_agree [OF this release_fuel_shrinks order_refl, of i]
    have eq: "frothy_runtime_clear_live_object (release_fuel (total_refcount rt)) i
        (set_refcount i (c - 1) rt)
      = frothy_runtime_clear_live_object frothy_value_release i (set_refcount i (c - 1) rt)" .
    have "frothy_value_release v rt = release_fuel (Suc (total_refcount rt)) v rt"
      by (simp only: frothy_value_release_def)
    with eq show ?thesis
      by (cases "c = 1") (use False in \<open>auto simp: Inr Let_def c_def\<close>)
  qed (simp add: frothy_value_release_def Inr Let_def c_def)
qed (simp add: frothy_value_release_def)

lemma release_shrinks: "shrinks frothy_value_release"
  using release_fuel_shrinks unfolding shrinks_def frothy_value_release_def by blast

end
