(* ===== verification/Frothy_Refcount.thy ===== *)
theory Frothy_Refcount
  imports Frothy_Release
begin

section \<open>Consistency of the object store and of the reference counts\<close>

text \<open>
  \<open>store_ok\<close> is the consistency of the table and of both arenas: the spans of the live objects,
  with those just allocated and not yet installed (\<open>pp\<close>, \<open>pc\<close>), partition what the arenas have
  handed out. \<open>count_ok\<close> is the meaning of the counts: an object's count is the number of
  references the rest of the program holds (\<open>e\<close>) plus the references stored in the objects that
  are themselves referenced. An object whose count has reached zero is being cleared; its
  outgoing references then belong to the code that is releasing them. A \<open>hole\<close> is a reference
  location whose value has been moved out, which the field write uses.
\<close>

subsection \<open>Owned spans\<close>

fun as_payload_spans :: "frothy_object_as \<Rightarrow> frothy_span list" where
  "as_payload_spans (OBJECT_TEXT p n) = [p]"
| "as_payload_spans (OBJECT_CODE p a l b pr) = [p]"
| "as_payload_spans (OBJECT_RECORD_DEF p n) = [p]"
| "as_payload_spans (OBJECT_RECORD p d n) = [p]"
| "as_payload_spans ob = []"

fun as_cell_spans :: "frothy_object_as \<Rightarrow> frothy_span list" where
  "as_cell_spans (OBJECT_CELLS sp) = [sp]"
| "as_cell_spans ob = []"

definition ob_payload :: "frothy_object \<Rightarrow> frothy_span list" where
  "ob_payload ob =
     (if ob_live ob then filter (\<lambda>s. 0 < sp_length s) (as_payload_spans (ob_as ob)) else [])"

definition ob_cells :: "frothy_object \<Rightarrow> frothy_span list" where
  "ob_cells ob = (if ob_live ob then as_cell_spans (ob_as ob) else [])"

definition payload_owned :: "frothy_runtime \<Rightarrow> frothy_span list" where
  "payload_owned rt = concat (map ob_payload (rt_objects rt))"

definition cells_owned :: "frothy_runtime \<Rightarrow> frothy_span list" where
  "cells_owned rt = concat (map ob_cells (rt_objects rt))"

definition ob_shape :: "frothy_object \<Rightarrow> bool" where
  "ob_shape ob \<longleftrightarrow>
     (if ob_live ob
      then (case ob_as ob of
              OBJECT_FREE \<Rightarrow> False
            | OBJECT_TEXT p n \<Rightarrow> n < sp_length p
            | OBJECT_RECORD p d n \<Rightarrow> 0 < n \<and> 4 * n \<le> sp_length p
            | _ \<Rightarrow> True)
      else ob = frothy_object_reset)"

definition payload_ok :: "frothy_span list \<Rightarrow> frothy_runtime \<Rightarrow> bool" where
  "payload_ok pp rt \<longleftrightarrow>
     payload_arena.ok rt (pp @ payload_owned rt) \<and>
     length (rt_payload_bytes rt) = rt_payload_capacity rt \<and>
     rt_payload_bytes_used rt = (\<Sum>s\<leftarrow>pp @ payload_owned rt. sp_length s)"

definition cells_ok :: "frothy_span list \<Rightarrow> frothy_runtime \<Rightarrow> bool" where
  "cells_ok pc rt \<longleftrightarrow>
     cell_arena.ok rt (pc @ cells_owned rt) \<and> cellspace_wf (rt_cellspace rt) \<and>
     cs_base_mark (rt_cellspace rt) = 0"

definition table_ok :: "frothy_runtime \<Rightarrow> bool" where
  "table_ok rt \<longleftrightarrow>
     rt_live_object_count rt = length (filter ob_live (rt_objects rt)) \<and>
     (\<forall>i < length (rt_objects rt). ob_shape (rt_objects rt ! i)) \<and>
     length (rt_objects rt) \<le> rt_object_capacity rt \<and> rt_object_capacity rt < 2 ^ 30"

definition store_ok :: "frothy_span list \<Rightarrow> frothy_span list \<Rightarrow> frothy_runtime \<Rightarrow> bool" where
  "store_ok pp pc rt \<longleftrightarrow> payload_ok pp rt \<and> cells_ok pc rt \<and> table_ok rt"

lemma mset_concat_update:
  "i < length xs \<Longrightarrow>
   mset (concat (map f (xs[i := x]))) + mset (f (xs ! i)) = mset (concat (map f xs)) + mset (f x)"
  by (induction xs arbitrary: i) (auto split: nat.splits)

lemma length_filter_update:
  "i < length xs \<Longrightarrow> length (filter P (xs[i := x])) + (if P (xs ! i) then 1 else 0)
     = length (filter P xs) + (if P x then 1 else 0)"
proof -
  have *: "length (filter P ys) = (\<Sum>y\<leftarrow>ys. if P y then 1 else 0)" for ys by (induction ys) auto
  show "i < length xs \<Longrightarrow> ?thesis"
    unfolding * by (rule sum_list_map_update)
qed

lemma cover_concat_map: "cover (concat (map f xs)) a = (\<Sum>x\<leftarrow>xs. cover (f x) a)"
  by (induction xs) auto

lemma sum_list_two_le:
  "i \<noteq> j \<Longrightarrow> i < length xs \<Longrightarrow> j < length xs \<Longrightarrow>
   (f (xs ! i) :: nat) + f (xs ! j) \<le> (\<Sum>x\<leftarrow>xs. f x)"
proof (induction xs arbitrary: i j)
  case (Cons x xs)
  have one: "f (xs ! k) \<le> (\<Sum>x\<leftarrow>xs. f x)" if "k < length xs" for k
    using sum_list_member_le [of "xs ! k" xs f] that by simp
  consider k where "i = 0" "j = Suc k" | k where "i = Suc k" "j = 0"
    | k l where "i = Suc k" "j = Suc l" "k \<noteq> l"
    using Cons.prems(1) by (cases i; cases j) auto
  then show ?case
  proof cases
    case (3 k l)
    then show ?thesis using Cons.IH [of k l] Cons.prems by simp
  qed (use one Cons.prems in simp_all)
qed simp

lemma sum_list_mset: "mset xs = mset ys \<Longrightarrow> (\<Sum>x\<leftarrow>xs. f x) = (\<Sum>x\<leftarrow>ys. (f x :: nat))"
  by (metis mset_map sum_mset_sum_list)

text \<open>Cells of different live objects are different.\<close>

lemma cells_disjoint:
  assumes "cells_ok pc rt" "i \<noteq> j" "i < length (rt_objects rt)" "j < length (rt_objects rt)"
    and "ob_live (rt_objects rt ! i)" "ob_as (rt_objects rt ! i) = OBJECT_CELLS si"
    and "ob_live (rt_objects rt ! j)" "ob_as (rt_objects rt ! j) = OBJECT_CELLS sj"
    and "covers si a"
  shows "\<not> covers sj a"
proof
  assume "covers sj a"
  have "cover (ob_cells (rt_objects rt ! i)) a + cover (ob_cells (rt_objects rt ! j)) a
      \<le> cover (cells_owned rt) a"
    unfolding cells_owned_def cover_concat_map
    using sum_list_two_le [OF assms(2-4), of "\<lambda>ob. cover (ob_cells ob) a"] .
  then have "2 \<le> cover (cells_owned rt) a"
    using assms(5-9) \<open>covers sj a\<close> by (simp add: ob_cells_def)
  moreover have "cover (rt_free_spans rt) a + cover (pc @ cells_owned rt) a
      = (if a < cs_used (rt_cellspace rt) then 1 else 0)"
    using assms(1) unfolding cells_ok_def arena_ok_def by blast
  ultimately show False by (simp split: if_splits)
qed

lemma cells_in_range:
  assumes "cells_ok pc rt" "i < length (rt_objects rt)" "ob_live (rt_objects rt ! i)"
    and "ob_as (rt_objects rt ! i) = OBJECT_CELLS s"
  shows "sp_end s \<le> cs_used (rt_cellspace rt)" "sp_end s \<le> length (cs_data (rt_cellspace rt))"
    "0 < sp_length s"
proof -
  have "s \<in> set (ob_cells (rt_objects rt ! i))" using assms(3,4) by (simp add: ob_cells_def)
  then have mem: "s \<in> set (pc @ cells_owned rt)"
    using assms(2) by (auto simp: cells_owned_def)
  have ok: "cell_arena.ok rt (pc @ cells_owned rt)" using assms(1) by (simp add: cells_ok_def)
  show "sp_end s \<le> cs_used (rt_cellspace rt)" using arena_owned_end [OF _ mem] ok by blast
  then show "sp_end s \<le> length (cs_data (rt_cellspace rt))"
    using ok assms(1) by (simp add: cells_ok_def cellspace_wf_def)
  show "0 < sp_length s" using ok mem unfolding arena_ok_def by blast
qed

subsection \<open>References\<close>

definition refs :: "frothy_value \<Rightarrow> nat \<Rightarrow> nat" where
  "refs v x = (if frothy_value_is_object_ref v \<and> frothy_value_object_index v = x then 1 else 0)"

definition refs_in :: "frothy_value list \<Rightarrow> nat \<Rightarrow> nat" where
  "refs_in vs x = (\<Sum>v\<leftarrow>vs. refs v x)"

lemma refs_in_simps [simp]:
  "refs_in [] x = 0" "refs_in (v # vs) x = refs v x + refs_in vs x"
  "refs_in (vs @ ws) x = refs_in vs x + refs_in ws x"
  by (simp_all add: refs_in_def)

lemma refs_nil [simp]: "refs frothy_value_make_nil x = 0"
  by (simp add: refs_def)

fun as_outs :: "frothy_runtime \<Rightarrow> frothy_object_as \<Rightarrow> frothy_value list" where
  "as_outs rt (OBJECT_CELLS sp) =
     map (frothy_cellspace_value rt) [sp_offset sp ..< sp_end sp]"
| "as_outs rt (OBJECT_RECORD p d n) = map (record_field_at rt p) [0 ..< n] @ [d]"
| "as_outs rt ob = []"

definition outs :: "frothy_runtime \<Rightarrow> nat \<Rightarrow> frothy_value list" where
  "outs rt j = as_outs rt (ob_as (rt_objects rt ! j))"

type_synonym hole = "(nat \<times> nat) option"

definition outs_h :: "hole \<Rightarrow> frothy_runtime \<Rightarrow> nat \<Rightarrow> frothy_value list" where
  "outs_h hole rt j =
     (case hole of
        None \<Rightarrow> outs rt j
      | Some (k, i) \<Rightarrow> if k = j then (outs rt j)[i := frothy_value_make_nil] else outs rt j)"

definition rc :: "frothy_runtime \<Rightarrow> nat \<Rightarrow> nat" where
  "rc rt x = (if x < length (rt_objects rt) then ob_refcount (rt_objects rt ! x) else 0)"

definition refs_to :: "hole \<Rightarrow> frothy_runtime \<Rightarrow> nat \<Rightarrow> nat" where
  "refs_to hole rt x = (\<Sum>j<length (rt_objects rt). if 0 < rc rt j then refs_in (outs_h hole rt j) x else 0)"

definition count_ok :: "(nat \<Rightarrow> nat) \<Rightarrow> hole \<Rightarrow> frothy_runtime \<Rightarrow> bool" where
  "count_ok e hole rt \<longleftrightarrow> (\<forall>x. rc rt x = e x + refs_to hole rt x)"

definition hole_safe :: "(nat \<Rightarrow> nat) \<Rightarrow> hole \<Rightarrow> bool" where
  "hole_safe e hole \<longleftrightarrow> (case hole of None \<Rightarrow> True | Some (k, i) \<Rightarrow> 0 < e k)"

lemma refs_to_cong:
  assumes "length (rt_objects rt') = length (rt_objects rt)"
    and "\<And>j. j < length (rt_objects rt) \<Longrightarrow> 0 < rc rt' j \<longleftrightarrow> 0 < rc rt j"
    and "\<And>j. j < length (rt_objects rt) \<Longrightarrow> 0 < rc rt j \<Longrightarrow> outs rt' j = outs rt j"
  shows "refs_to hole rt' x = refs_to hole rt x"
  unfolding refs_to_def assms(1)
  by (rule sum.cong) (use assms(2,3) in \<open>auto simp: outs_h_def split: option.splits\<close>)

lemma count_ok_cong:
  assumes "count_ok e hole rt" "length (rt_objects rt') = length (rt_objects rt)"
    and "\<And>j. j < length (rt_objects rt) \<Longrightarrow> rc rt' j = rc rt j"
    and "\<And>j. j < length (rt_objects rt) \<Longrightarrow> 0 < rc rt j \<Longrightarrow> outs rt' j = outs rt j"
  shows "count_ok e hole rt'"
  unfolding count_ok_def
proof
  fix x
  have "refs_to hole rt' x = refs_to hole rt x"
    by (rule refs_to_cong) (use assms in simp_all)
  moreover have "rc rt' x = rc rt x" using assms(2,3) by (cases "x < length (rt_objects rt)") (auto simp: rc_def)
  ultimately show "rc rt' x = e x + refs_to hole rt' x"
    using assms(1) by (simp add: count_ok_def)
qed

text \<open>A reference the program holds points to a live object.\<close>

lemma count_ok_live:
  assumes "table_ok rt" "count_ok e hole rt" "0 < e x"
  shows "x < length (rt_objects rt) \<and> ob_live (rt_objects rt ! x) \<and> 0 < rc rt x"
proof -
  have "0 < rc rt x" using assms(2,3) unfolding count_ok_def by (metis add_gr_0)
  moreover from this have x: "x < length (rt_objects rt)" by (simp add: rc_def split: if_splits)
  moreover have "ob_live (rt_objects rt ! x)"
  proof (rule ccontr)
    assume "\<not> ob_live (rt_objects rt ! x)"
    with assms(1) x have "rt_objects rt ! x = frothy_object_reset"
      by (auto simp: table_ok_def ob_shape_def)
    with \<open>0 < rc rt x\<close> x show False by (simp add: rc_def frothy_object_reset_def)
  qed
  ultimately show ?thesis by blast
qed

end
