(* ===== verification/Frothy_Clear.thy ===== *)
theory Frothy_Clear
  imports Frothy_Refcount
begin

section \<open>Releasing keeps the store and the counts consistent\<close>

text \<open>
  The proof follows the mutual recursion. \<open>frees D\<close> says what a release may change: an object
  that was referenced may have been cleared; every other object keeps its kind and its stored
  values, except that the cells of the objects in \<open>D\<close> (those being cleared by the caller) may have
  been zeroed. In particular an object whose count is already zero is never touched, which is why
  the C code may keep reading the object it is clearing.
\<close>

definition kept :: "nat set \<Rightarrow> frothy_runtime \<Rightarrow> frothy_runtime \<Rightarrow> nat \<Rightarrow> bool" where
  "kept D rt rt' j \<longleftrightarrow>
     ob_live (rt_objects rt' ! j) = ob_live (rt_objects rt ! j) \<and>
     ob_as (rt_objects rt' ! j) = ob_as (rt_objects rt ! j) \<and>
     ob_refcount (rt_objects rt' ! j) \<le> ob_refcount (rt_objects rt ! j) \<and>
     (0 < ob_refcount (rt_objects rt' ! j) \<longleftrightarrow> 0 < ob_refcount (rt_objects rt ! j)) \<and>
     (j \<in> D \<or> outs rt' j = outs rt j)"

definition cleared :: "frothy_runtime \<Rightarrow> frothy_runtime \<Rightarrow> nat \<Rightarrow> bool" where
  "cleared rt rt' j \<longleftrightarrow> 0 < ob_refcount (rt_objects rt ! j) \<and> rt_objects rt' ! j = frothy_object_reset"

definition same_frame :: "frothy_runtime \<Rightarrow> frothy_runtime \<Rightarrow> bool" where
  "same_frame rt rt' \<longleftrightarrow> length (rt_objects rt') = length (rt_objects rt) \<and>
     rt_payload_bytes rt' = rt_payload_bytes rt"

definition frees :: "nat set \<Rightarrow> frothy_runtime \<Rightarrow> frothy_runtime \<Rightarrow> bool" where
  "frees D rt rt' \<longleftrightarrow> same_frame rt rt' \<and>
     (\<forall>j < length (rt_objects rt). kept D rt rt' j \<or> cleared rt rt' j)"

lemma frees_refl: "frees D rt rt"
  by (simp add: frees_def same_frame_def kept_def)

lemma frees_mono: "frees D rt rt' \<Longrightarrow> D \<subseteq> E \<Longrightarrow> frees E rt rt'"
  unfolding frees_def kept_def by blast

lemma frees_trans:
  assumes "frees D a b" "frees D b c"
  shows "frees D a c"
  unfolding frees_def
proof (intro conjI allI impI)
  show "same_frame a c" using assms by (auto simp: frees_def same_frame_def)
  fix j assume j: "j < length (rt_objects a)"
  then have ab: "kept D a b j \<or> cleared a b j" and bc: "kept D b c j \<or> cleared b c j"
    using assms by (auto simp: frees_def same_frame_def)
  show "kept D a c j \<or> cleared a c j"
  proof (cases "cleared a b j")
    case True
    with bc have "rt_objects c ! j = frothy_object_reset"
      by (auto simp: cleared_def kept_def frothy_object_reset_def)
    with True show ?thesis by (simp add: cleared_def)
  next
    case False
    with ab bc show ?thesis by (auto simp: kept_def cleared_def)
  qed
qed

lemma frees_dying:
  assumes "frees D rt rt'" "i < length (rt_objects rt)" "ob_refcount (rt_objects rt ! i) = 0"
  shows "rt_objects rt' ! i = rt_objects rt ! i" "i \<notin> D \<Longrightarrow> outs rt' i = outs rt i"
  using assms by (auto simp: frees_def kept_def cleared_def)

lemma frees_length: "frees D rt rt' \<Longrightarrow> length (rt_objects rt') = length (rt_objects rt)"
  by (simp add: frees_def same_frame_def)

lemma frees_bytes: "frees D rt rt' \<Longrightarrow> rt_payload_bytes rt' = rt_payload_bytes rt"
  by (simp add: frees_def same_frame_def)

text \<open>What a correct releaser does, on states whose counts sum up to at most \<open>k\<close>.\<close>

definition rel_ok :: "nat \<Rightarrow> releaser \<Rightarrow> bool" where
  "rel_ok k rel \<longleftrightarrow> (\<forall>pp pc rt v e hole.
     store_ok pp pc rt \<longrightarrow> count_ok (\<lambda>x. e x + refs v x) hole rt \<longrightarrow> hole_safe e hole \<longrightarrow>
     total_refcount rt \<le> k \<longrightarrow>
     (\<exists>rt'. rel v rt = (Inr (), rt') \<and> store_ok pp pc rt' \<and> count_ok e hole rt' \<and>
        frees {} rt rt' \<and> total_refcount rt' \<le> total_refcount rt))"

lemma rel_okD:
  "rel_ok k rel \<Longrightarrow> store_ok pp pc rt \<Longrightarrow> count_ok (\<lambda>x. e x + refs v x) hole rt \<Longrightarrow>
   hole_safe e hole \<Longrightarrow> total_refcount rt \<le> k \<Longrightarrow>
   \<exists>rt'. rel v rt = (Inr (), rt') \<and> store_ok pp pc rt' \<and> count_ok e hole rt' \<and>
     frees {} rt rt' \<and> total_refcount rt' \<le> total_refcount rt"
  unfolding rel_ok_def by blast

lemma rel_ok_mono: "rel_ok k rel \<Longrightarrow> j \<le> k \<Longrightarrow> rel_ok j rel"
  unfolding rel_ok_def by (meson le_trans)

lemma hole_safe_add: "hole_safe e hole \<Longrightarrow> hole_safe (\<lambda>x. e x + f x) hole"
  by (auto simp: hole_safe_def split: option.splits)

subsection \<open>Zeroing a cell of an object that is being cleared\<close>

lemma set_cell_frame [simp]:
  "rt_objects (set_cell i c rt) = rt_objects rt"
  "rt_payload_bytes (set_cell i c rt) = rt_payload_bytes rt"
  "record_field_at (set_cell i c rt) = record_field_at rt"
  by (simp_all add: set_cell_def record_field_at_def fun_eq_iff)

lemma set_cell_store_ok: "store_ok pp pc rt \<Longrightarrow> store_ok pp pc (set_cell i c rt)"
  by (simp add: store_ok_def payload_ok_def cells_ok_def table_ok_def payload_owned_def
      cells_owned_def set_cell_def cellspace_wf_def)

lemma cellspace_value_set_cell:
  "a \<noteq> i \<Longrightarrow> frothy_cellspace_value (set_cell i c rt) a = frothy_cellspace_value rt a"
  by (simp add: frothy_cellspace_value_def set_cell_def)

lemma outs_set_cell:
  assumes "table_ok rt" "cells_ok pc rt" "i < length (rt_objects rt)" "j < length (rt_objects rt)"
    and "j \<noteq> i" "ob_live (rt_objects rt ! i)" "ob_as (rt_objects rt ! i) = OBJECT_CELLS sp"
    and "covers sp a"
  shows "outs (set_cell a c rt) j = outs rt j"
proof (cases "ob_live (rt_objects rt ! j)")
  case True
  have "\<not> (sp_offset s \<le> a \<and> a < sp_end s)" if "ob_as (rt_objects rt ! j) = OBJECT_CELLS s" for s
    using cells_disjoint [OF assms(2) _ assms(3,4,6,7) True that assms(8)] assms(5)
    by (auto simp: covers_def)
  then show ?thesis
    by (cases "ob_as (rt_objects rt ! j)") (auto simp: outs_def cellspace_value_set_cell)
next
  case False
  then have "rt_objects rt ! j = frothy_object_reset"
    using assms(1,4) by (auto simp: table_ok_def ob_shape_def)
  then show ?thesis by (simp add: outs_def frothy_object_reset_def)
qed

lemma clear_cells_ok:
  assumes rel: "rel_ok k rel"
  shows "store_ok pp pc rt \<Longrightarrow> i < length (rt_objects rt) \<Longrightarrow> ob_live (rt_objects rt ! i) \<Longrightarrow>
    ob_refcount (rt_objects rt ! i) = 0 \<Longrightarrow> ob_as (rt_objects rt ! i) = OBJECT_CELLS sp \<Longrightarrow>
    sp_offset sp \<le> index \<Longrightarrow> index + n = sp_end sp \<Longrightarrow>
    count_ok (\<lambda>x. e x + refs_in (map (frothy_cellspace_value rt) [index ..< index + n]) x) hole rt \<Longrightarrow>
    hole_safe e hole \<Longrightarrow> total_refcount rt \<le> k \<Longrightarrow>
    \<exists>rt'. clear_cells_loop rel index n rt = (Inr (), rt') \<and> store_ok pp pc rt' \<and>
      count_ok e hole rt' \<and> frees {i} rt rt' \<and> total_refcount rt' \<le> total_refcount rt"
proof (induction n arbitrary: index rt)
  case 0
  then show ?case using frees_refl by auto
next
  case (Suc n)
  let ?vs = "map (frothy_cellspace_value rt) [Suc index ..< Suc index + n]"
  let ?v = "frothy_cellspace_value rt index"
  have "[index ..< index + Suc n] = index # [Suc index ..< Suc index + n]" by (simp add: upt_rec)
  then have "count_ok (\<lambda>x. (e x + refs_in ?vs x) + refs ?v x) hole rt"
    using Suc.prems(8) by (simp add: ac_simps)
  from rel_okD [OF rel Suc.prems(1) this hole_safe_add [OF Suc.prems(9)] Suc.prems(10)]
  obtain rt1 where rt1: "rel ?v rt = (Inr (), rt1)" "store_ok pp pc rt1"
    "count_ok (\<lambda>x. e x + refs_in ?vs x) hole rt1" "frees {} rt rt1"
    "total_refcount rt1 \<le> total_refcount rt"
    by blast
  let ?rt2 = "set_cell index 0 rt1"
  have len: "length (rt_objects rt1) = length (rt_objects rt)" using rt1(4) by (rule frees_length)
  have obj: "rt_objects rt1 ! i = rt_objects rt ! i" and out: "outs rt1 i = outs rt i"
    using frees_dying [OF rt1(4) Suc.prems(2,4)] by simp_all
  have cov: "covers sp index" using Suc.prems(6,7) by (simp add: covers_def)
  have tc: "table_ok rt1" "cells_ok pc rt1" using rt1(2) by (simp_all add: store_ok_def)
  have others: "outs ?rt2 j = outs rt1 j" if "j < length (rt_objects rt1)" "j \<noteq> i" for j
    using outs_set_cell [OF tc _ that _ _ cov, of 0] Suc.prems(2,3,5) obj len by simp
  have fr: "frees {i} rt1 ?rt2"
    using others by (auto simp: frees_def same_frame_def kept_def)
  have count2: "count_ok (\<lambda>x. e x + refs_in ?vs x) hole ?rt2"
  proof (rule count_ok_cong [OF rt1(3)])
    fix j assume j: "j < length (rt_objects rt1)" "0 < rc rt1 j"
    then have "j \<noteq> i" using Suc.prems(4) obj by (auto simp: rc_def)
    with others [OF j(1)] show "outs ?rt2 j = outs rt1 j" by simp
  qed (simp_all add: rc_def)
  have vals: "frothy_cellspace_value rt1 a = frothy_cellspace_value rt a"
    if "sp_offset sp \<le> a" "a < sp_end sp" for a
  proof -
    from out obj Suc.prems(5) have eq: "map (frothy_cellspace_value rt1) [sp_offset sp ..< sp_end sp]
        = map (frothy_cellspace_value rt) [sp_offset sp ..< sp_end sp]"
      by (simp add: outs_def)
    from that have "a \<in> set [sp_offset sp ..< sp_end sp]" by simp
    with eq show ?thesis by (simp only: map_eq_conv)
  qed
  have "map (frothy_cellspace_value ?rt2) [Suc index ..< Suc index + n] = ?vs"
    using vals Suc.prems(6,7) by (auto simp: cellspace_value_set_cell)
  then have "count_ok (\<lambda>x. e x +
      refs_in (map (frothy_cellspace_value ?rt2) [Suc index ..< Suc index + n]) x) hole ?rt2"
    using count2 by (simp only:)
  moreover have "i < length (rt_objects ?rt2)" "ob_live (rt_objects ?rt2 ! i)"
    "ob_refcount (rt_objects ?rt2 ! i) = 0" "ob_as (rt_objects ?rt2 ! i) = OBJECT_CELLS sp"
    "sp_offset sp \<le> Suc index" "Suc index + n = sp_end sp" "total_refcount ?rt2 \<le> k"
    using Suc.prems len obj rt1(5) by simp_all
  ultimately have "\<exists>rt'. clear_cells_loop rel (Suc index) n ?rt2 = (Inr (), rt') \<and>
      store_ok pp pc rt' \<and> count_ok e hole rt' \<and> frees {i} ?rt2 rt' \<and>
      total_refcount rt' \<le> total_refcount ?rt2"
    using Suc.IH [OF set_cell_store_ok [OF rt1(2)] _ _ _ _ _ _ _ Suc.prems(9)] by blast
  then obtain rt' where rt': "clear_cells_loop rel (Suc index) n ?rt2 = (Inr (), rt')"
    "store_ok pp pc rt'" "count_ok e hole rt'" "frees {i} ?rt2 rt'"
    "total_refcount rt' \<le> total_refcount ?rt2"
    by blast
  have "frees {i} rt rt'"
    using frees_trans [OF frees_trans [OF frees_mono [OF rt1(4)] fr] rt'(4)] by simp
  with rt' rt1 show ?case by auto
qed

lemma clear_fields_ok:
  assumes rel: "rel_ok k rel"
  shows "store_ok pp pc rt \<Longrightarrow>
    count_ok (\<lambda>x. e x + refs_in (map (record_field_at rt p) [i ..< i + n]) x) hole rt \<Longrightarrow>
    hole_safe e hole \<Longrightarrow> total_refcount rt \<le> k \<Longrightarrow>
    \<exists>rt'. clear_fields_loop rel p i n rt = (Inr (), rt') \<and> store_ok pp pc rt' \<and>
      count_ok e hole rt' \<and> frees {} rt rt' \<and> total_refcount rt' \<le> total_refcount rt"
proof (induction n arbitrary: i rt)
  case 0
  then show ?case using frees_refl by auto
next
  case (Suc n)
  let ?vs = "map (record_field_at rt p) [Suc i ..< Suc i + n]"
  have "[i ..< i + Suc n] = i # [Suc i ..< Suc i + n]" by (simp add: upt_rec)
  then have "count_ok (\<lambda>x. (e x + refs_in ?vs x) + refs (record_field_at rt p i) x) hole rt"
    using Suc.prems(2) by (simp add: ac_simps)
  from rel_okD [OF rel Suc.prems(1) this hole_safe_add [OF Suc.prems(3)] Suc.prems(4)]
  obtain rt1 where rt1: "rel (record_field_at rt p i) rt = (Inr (), rt1)" "store_ok pp pc rt1"
    "count_ok (\<lambda>x. e x + refs_in ?vs x) hole rt1" "frees {} rt rt1"
    "total_refcount rt1 \<le> total_refcount rt"
    by blast
  have "record_field_at rt1 = record_field_at rt"
    using frees_bytes [OF rt1(4)] by (simp add: record_field_at_def fun_eq_iff)
  with Suc.IH [of rt1 "Suc i"] rt1 Suc.prems(3,4)
  obtain rt' where rt': "clear_fields_loop rel p (Suc i) n rt1 = (Inr (), rt')"
    "store_ok pp pc rt'" "count_ok e hole rt'" "frees {} rt1 rt'"
    "total_refcount rt' \<le> total_refcount rt1"
    by auto
  with rt1 frees_trans [OF rt1(4) rt'(4)] show ?case by auto
qed

subsection \<open>The teardown of a cleared object\<close>

lemma reset_owns_nothing [simp]:
  "ob_payload frothy_object_reset = []" "ob_cells frothy_object_reset = []"
  "\<not> ob_live frothy_object_reset" "ob_refcount frothy_object_reset = 0"
  "ob_as frothy_object_reset = OBJECT_FREE" "ob_shape frothy_object_reset"
  by (simp_all add: ob_payload_def ob_cells_def ob_shape_def frothy_object_reset_def)

lemma teardown_frame [simp]:
  "rt_objects (frothy_runtime_finish_object_teardown i rt) = (rt_objects rt)[i := frothy_object_reset]"
  "rt_payload_bytes (frothy_runtime_finish_object_teardown i rt) = rt_payload_bytes rt"
  "rt_payload_bytes_used (frothy_runtime_finish_object_teardown i rt) = rt_payload_bytes_used rt"
  "rt_payload_free_spans (frothy_runtime_finish_object_teardown i rt) = rt_payload_free_spans rt"
  "rt_payload_extent (frothy_runtime_finish_object_teardown i rt) = rt_payload_extent rt"
  "rt_payload_capacity (frothy_runtime_finish_object_teardown i rt) = rt_payload_capacity rt"
  "rt_cellspace (frothy_runtime_finish_object_teardown i rt) = rt_cellspace rt"
  "rt_free_spans (frothy_runtime_finish_object_teardown i rt) = rt_free_spans rt"
  "rt_live_object_count (frothy_runtime_finish_object_teardown i rt) = rt_live_object_count rt - 1"
  "rt_object_capacity (frothy_runtime_finish_object_teardown i rt) = rt_object_capacity rt"
  by (simp_all add: frothy_runtime_finish_object_teardown_def set_object_def)

lemma owned_update:
  assumes "i < length (rt_objects rt)" "rt_objects rt' = (rt_objects rt)[i := ob]"
  shows "mset (payload_owned rt') + mset (ob_payload (rt_objects rt ! i))
      = mset (payload_owned rt) + mset (ob_payload ob)"
    "mset (cells_owned rt') + mset (ob_cells (rt_objects rt ! i))
      = mset (cells_owned rt) + mset (ob_cells ob)"
  using mset_concat_update [OF assms(1), of ob_payload ob]
    mset_concat_update [OF assms(1), of ob_cells ob]
  by (simp_all add: payload_owned_def cells_owned_def assms(2))

lemma table_ok_teardown:
  assumes "table_ok rt" "i < length (rt_objects rt)" "ob_live (rt_objects rt ! i)"
    and "rt_objects rt' = rt_objects rt" "rt_live_object_count rt' = rt_live_object_count rt"
    and "rt_object_capacity rt' = rt_object_capacity rt"
  shows "table_ok (frothy_runtime_finish_object_teardown i rt')"
  using assms length_filter_update [of i "rt_objects rt" ob_live frothy_object_reset]
  by (auto simp: table_ok_def nth_list_update)

lemma ob_payload_cases:
  "ob_payload ob = [] \<or> (\<exists>p. ob_payload ob = [p] \<and> 0 < sp_length p)"
  by (cases "ob_as ob") (auto simp: ob_payload_def)

lemma release_storage_teardown:
  assumes "ob_live (rt_objects rt ! i)" "\<not> is_OBJECT_CELLS (ob_as (rt_objects rt ! i))"
  shows "frothy_runtime_finish_object_teardown i (frothy_runtime_release_object_storage i rt)
    = frothy_runtime_finish_object_teardown i
        (case ob_payload (rt_objects rt ! i) of [] \<Rightarrow> rt
         | p # ps \<Rightarrow> frothy_runtime_release_payload p rt)"
  using assms
  by (cases "ob_as (rt_objects rt ! i)")
     (auto simp: frothy_runtime_release_object_storage_def ob_payload_def
       frothy_runtime_release_payload_def frothy_runtime_release_code_storage_def
       frothy_runtime_finish_object_teardown_def set_object_def)

lemma payload_ok_teardown:
  assumes "payload_ok pp rt" "i < length (rt_objects rt)" "ob_payload (rt_objects rt ! i) = [p]"
  shows "payload_ok pp (frothy_runtime_finish_object_teardown i (frothy_runtime_release_payload p rt))"
proof -
  let ?r = "frothy_runtime_release_payload p rt" and ?t = "frothy_runtime_finish_object_teardown i"
  have "mset (payload_owned (?t ?r)) + {#p#} = mset (payload_owned rt)"
    using owned_update(1) [OF assms(2), of "?t ?r" frothy_object_reset] assms(3)
    by (simp add: frame_simps)
  then have perm: "mset (pp @ payload_owned rt) = mset (p # pp @ payload_owned (?t ?r))"
    by (metis add.commute add_mset_add_single mset.simps(2) mset_append union_mset_add_mset_right)
  have "payload_arena.ok rt (p # pp @ payload_owned (?t ?r))"
    using assms(1) payload_arena.ok_perm [OF perm] unfolding payload_ok_def by blast
  from payload_arena.release_ok(1) [OF this]
  have "payload_arena.ok ?r (pp @ payload_owned (?t ?r))" .
  moreover have "(\<Sum>s\<leftarrow>pp @ payload_owned rt. sp_length s)
      = sp_length p + (\<Sum>s\<leftarrow>pp @ payload_owned (?t ?r). sp_length s)"
    using sum_list_mset [OF perm, of sp_length] by simp
  ultimately show ?thesis
    using assms(1) by (simp add: payload_ok_def frame_simps release_payload_used)
qed

lemma cells_ok_other:
  assumes "cells_ok pc rt" "rt_cellspace rt' = rt_cellspace rt" "rt_free_spans rt' = rt_free_spans rt"
    and "mset (cells_owned rt') = mset (cells_owned rt)"
  shows "cells_ok pc rt'"
proof -
  have "mset (pc @ cells_owned rt') = mset (pc @ cells_owned rt)" using assms(4) by simp
  from arena_ok_perm [OF this] show ?thesis using assms by (simp add: cells_ok_def)
qed

lemma payload_ok_other:
  assumes "payload_ok pp rt" "rt_payload_free_spans rt' = rt_payload_free_spans rt"
    "rt_payload_extent rt' = rt_payload_extent rt" "rt_payload_capacity rt' = rt_payload_capacity rt"
    "length (rt_payload_bytes rt') = length (rt_payload_bytes rt)"
    "rt_payload_bytes_used rt' = rt_payload_bytes_used rt"
    and "mset (payload_owned rt') = mset (payload_owned rt)"
  shows "payload_ok pp rt'"
proof -
  have perm: "mset (pp @ payload_owned rt') = mset (pp @ payload_owned rt)" using assms(7) by simp
  from arena_ok_perm [OF this] sum_list_mset [OF this, of sp_length] show ?thesis
    using assms(1-6) by (simp add: payload_ok_def)
qed

lemma finish_clear_ok:
  assumes "store_ok pp pc rt" "i < length (rt_objects rt)" "ob_live (rt_objects rt ! i)"
    and "\<not> is_OBJECT_CELLS (ob_as (rt_objects rt ! i))"
  shows "\<exists>rt'. finish_clear i rt = (Inr (), rt') \<and> store_ok pp pc rt' \<and>
    rt_objects rt' = (rt_objects rt)[i := frothy_object_reset] \<and>
    rt_payload_bytes rt' = rt_payload_bytes rt \<and> rt_cellspace rt' = rt_cellspace rt"
proof -
  let ?ob = "rt_objects rt ! i"
  let ?r = "case ob_payload ?ob of [] \<Rightarrow> rt | p # ps \<Rightarrow> frothy_runtime_release_payload p rt"
  let ?rt' = "frothy_runtime_finish_object_teardown i ?r"
  have eq: "finish_clear i rt = (Inr (), ?rt')"
    by (simp add: finish_clear_def release_storage_teardown [OF assms(3,4)])
  have r: "rt_objects ?r = rt_objects rt" "rt_cellspace ?r = rt_cellspace rt"
    "rt_free_spans ?r = rt_free_spans rt" "rt_payload_bytes ?r = rt_payload_bytes rt"
    "rt_live_object_count ?r = rt_live_object_count rt"
    "rt_object_capacity ?r = rt_object_capacity rt"
    by (simp_all add: frame_simps split: list.splits)
  have ok: "payload_ok pp rt" "cells_ok pc rt" "table_ok rt"
    using assms(1) by (simp_all add: store_ok_def)
  have "ob_cells ?ob = []" using assms(4) by (cases "ob_as ?ob") (simp_all add: ob_cells_def)
  then have "mset (cells_owned ?rt') = mset (cells_owned rt)"
    using owned_update(2) [OF assms(2), of ?rt' frothy_object_reset] r(1) by simp
  then have "cells_ok pc ?rt'" using cells_ok_other [OF ok(2)] r by simp
  moreover have "payload_ok pp ?rt'"
  proof (cases "ob_payload ?ob = []")
    case True
    have "mset (payload_owned ?rt') = mset (payload_owned rt)"
      using owned_update(1) [OF assms(2), of ?rt' frothy_object_reset] r(1) True by simp
    then show ?thesis using payload_ok_other [OF ok(1)] True by simp
  next
    case False
    then obtain p where "ob_payload ?ob = [p]" using ob_payload_cases by blast
    then show ?thesis using payload_ok_teardown [OF ok(1) assms(2)] by simp
  qed
  moreover have "table_ok ?rt'" using table_ok_teardown [OF ok(3) assms(2,3)] r by blast
  ultimately show ?thesis using eq r by (simp add: store_ok_def)
qed

lemma finish_cells_ok:
  assumes "store_ok pp pc rt" "i < length (rt_objects rt)" "ob_live (rt_objects rt ! i)"
    and "ob_as (rt_objects rt ! i) = OBJECT_CELLS sp"
  shows "store_ok pp pc (frothy_runtime_finish_object_teardown i
    (frothy_runtime_add_free_span (sp_offset sp) (sp_length sp) rt))"
proof -
  let ?r = "release_cells sp rt" and ?t = "frothy_runtime_finish_object_teardown i"
  have ok: "payload_ok pp rt" "cells_ok pc rt" "table_ok rt"
    using assms(1) by (simp_all add: store_ok_def)
  have spans: "ob_cells (rt_objects rt ! i) = [sp]" "ob_payload (rt_objects rt ! i) = []"
    using assms(3,4) by (simp_all add: ob_cells_def ob_payload_def)
  have "mset (cells_owned (?t ?r)) + {#sp#} = mset (cells_owned rt)"
    using owned_update(2) [OF assms(2), of "?t ?r" frothy_object_reset] spans
    by (simp add: frame_simps)
  then have perm: "mset (pc @ cells_owned rt) = mset (sp # pc @ cells_owned (?t ?r))"
    by (metis add.commute add_mset_add_single mset.simps(2) mset_append union_mset_add_mset_right)
  have "cell_arena.ok rt (sp # pc @ cells_owned (?t ?r))"
    using ok(2) cell_arena.ok_perm [OF perm] unfolding cells_ok_def by blast
  from cell_arena.release_ok(1) [OF this]
  have arena: "cell_arena.ok ?r (pc @ cells_owned (?t ?r))" .
  moreover have "cellspace_wf (rt_cellspace ?r) \<and> cs_base_mark (rt_cellspace ?r) = 0"
    using ok(2) arena
    by (auto simp: cells_ok_def cellspace_wf_def release_cells_def
        frothy_runtime_add_free_span_def split: prod.splits)
  ultimately have "cells_ok pc (?t ?r)" by (simp add: cells_ok_def)
  moreover have "payload_ok pp (?t ?r)"
    using payload_ok_other [OF ok(1), of "?t ?r"] spans
      owned_update(1) [OF assms(2), of "?t ?r" frothy_object_reset]
    by (simp add: frame_simps)
  moreover have "table_ok (?t ?r)"
    using table_ok_teardown [OF ok(3) assms(2,3)] by (simp add: frame_simps)
  ultimately show ?thesis by (simp add: store_ok_def release_cells_def)
qed

lemma reset_dying_count:
  assumes "count_ok e hole rt" "i < length (rt_objects rt)" "ob_refcount (rt_objects rt ! i) = 0"
    and "rt_objects rt' = (rt_objects rt)[i := frothy_object_reset]"
    and "rt_payload_bytes rt' = rt_payload_bytes rt"
    and "cs_data (rt_cellspace rt') = cs_data (rt_cellspace rt)"
  shows "count_ok e hole rt'" "j \<noteq> i \<Longrightarrow> outs rt' j = outs rt j"
proof -
  have vals: "frothy_cellspace_value rt' = frothy_cellspace_value rt"
    "record_field_at rt' = record_field_at rt"
    using assms(5,6) by (simp_all add: fun_eq_iff frothy_cellspace_value_def record_field_at_def)
  have "as_outs rt' ob = as_outs rt ob" for ob by (cases ob) (simp_all add: vals)
  then show outs: "j \<noteq> i \<Longrightarrow> outs rt' j = outs rt j" for j by (simp add: outs_def assms(4))
  show "count_ok e hole rt'"
  proof (rule count_ok_cong [OF assms(1)])
    show "rc rt' j = rc rt j" if "j < length (rt_objects rt)" for j
      using assms(2-4) by (cases "j = i") (simp_all add: rc_def)
    show "outs rt' j = outs rt j" if "j < length (rt_objects rt)" "0 < rc rt j" for j
      using outs [of j] that assms(3) by (cases "j = i") (simp_all add: rc_def)
  qed (simp add: assms(4))
qed

subsection \<open>Clearing and releasing\<close>

text \<open>The state after clearing object \<open>i\<close>, seen from the state before.\<close>

definition cleared_only :: "nat \<Rightarrow> frothy_runtime \<Rightarrow> frothy_runtime \<Rightarrow> bool" where
  "cleared_only i rt rt' \<longleftrightarrow> same_frame rt rt' \<and> rt_objects rt' ! i = frothy_object_reset \<and>
     (\<forall>j < length (rt_objects rt). j \<noteq> i \<longrightarrow> kept {} rt rt' j \<or> cleared rt rt' j)"

lemma frees_cleared_only:
  assumes "frees {i} rt rt1" "i < length (rt_objects rt)"
    and "rt_objects rt' = (rt_objects rt1)[i := frothy_object_reset]"
    and "rt_payload_bytes rt' = rt_payload_bytes rt1"
    and "\<And>j. j \<noteq> i \<Longrightarrow> outs rt' j = outs rt1 j"
  shows "cleared_only i rt rt'"
  using assms by (auto simp: cleared_only_def frees_def same_frame_def kept_def cleared_def)

lemma frees_store_i:
  assumes "frees D rt rt1" "i < length (rt_objects rt)" "ob_refcount (rt_objects rt ! i) = 0"
  shows "i < length (rt_objects rt1)" "rt_objects rt1 ! i = rt_objects rt ! i"
  using frees_dying(1) [OF assms] frees_length [OF assms(1)] assms(2) by simp_all

text \<open>Objects without stored values.\<close>

lemma clear_leaf_ok:
  assumes st: "store_ok pp pc rt" and i: "i < length (rt_objects rt)" "ob_live (rt_objects rt ! i)"
      "ob_refcount (rt_objects rt ! i) = 0"
    and leaf: "\<not> is_OBJECT_CELLS (ob_as (rt_objects rt ! i))" "outs rt i = []"
    and run: "frothy_runtime_clear_live_object rel i rt = finish_clear i rt"
    and cnt: "count_ok (\<lambda>x. e x + refs_in (outs rt i) x) hole rt"
  shows "\<exists>rt'. frothy_runtime_clear_live_object rel i rt = (Inr (), rt') \<and> store_ok pp pc rt' \<and>
    count_ok e hole rt' \<and> cleared_only i rt rt' \<and> total_refcount rt' \<le> total_refcount rt"
proof -
  obtain rt' where rt': "finish_clear i rt = (Inr (), rt')" "store_ok pp pc rt'"
    and objs: "rt_objects rt' = (rt_objects rt)[i := frothy_object_reset]"
    and same: "rt_payload_bytes rt' = rt_payload_bytes rt" "rt_cellspace rt' = rt_cellspace rt"
    using finish_clear_ok [OF st i(1,2) leaf(1)] by blast
  have "count_ok e hole rt" using cnt leaf(2) by simp
  moreover have "cs_data (rt_cellspace rt') = cs_data (rt_cellspace rt)" using same(2) by simp
  ultimately have d: "count_ok e hole rt'" "\<And>j. j \<noteq> i \<Longrightarrow> outs rt' j = outs rt j"
    using reset_dying_count [OF _ i(1,3) objs same(1)] by blast+
  have "cleared_only i rt rt'"
    by (rule frees_cleared_only [OF frees_refl i(1) objs same(1) d(2)])
  moreover have "total_refcount rt' \<le> total_refcount rt"
    using total_finish_clear [of i rt] rt' by simp
  ultimately show ?thesis using run rt' d(1) by auto
qed

lemma clear_ok:
  assumes rel: "rel_ok k rel"
    and st: "store_ok pp pc rt" and i: "i < length (rt_objects rt)" "ob_live (rt_objects rt ! i)"
      "ob_refcount (rt_objects rt ! i) = 0"
    and cnt: "count_ok (\<lambda>x. e x + refs_in (outs rt i) x) hole rt" and hs: "hole_safe e hole"
    and k: "total_refcount rt \<le> k"
  shows "\<exists>rt'. frothy_runtime_clear_live_object rel i rt = (Inr (), rt') \<and> store_ok pp pc rt' \<and>
    count_ok e hole rt' \<and> cleared_only i rt rt' \<and> total_refcount rt' \<le> total_refcount rt"
proof (cases "ob_as (rt_objects rt ! i)")
  case (OBJECT_CELLS sp)
  have "outs rt i = map (frothy_cellspace_value rt) [sp_offset sp ..< sp_offset sp + sp_length sp]"
    by (simp add: outs_def OBJECT_CELLS)
  from clear_cells_ok [OF rel st i OBJECT_CELLS order_refl refl cnt [unfolded this] hs k]
  obtain rt1 where rt1: "clear_cells_loop rel (sp_offset sp) (sp_length sp) rt = (Inr (), rt1)"
    "store_ok pp pc rt1" "count_ok e hole rt1" "frees {i} rt rt1"
    "total_refcount rt1 \<le> total_refcount rt"
    by blast
  let ?f = "frothy_runtime_add_free_span (sp_offset sp) (sp_length sp) rt1"
  let ?rt' = "frothy_runtime_finish_object_teardown i ?f"
  note i1 = frees_store_i [OF rt1(4) i(1,3)]
  have f: "rt_objects ?f = rt_objects rt1" "rt_payload_bytes ?f = rt_payload_bytes rt1"
    "cs_data (rt_cellspace ?f) = cs_data (rt_cellspace rt1)"
    using release_cells_frame [of sp rt1] by (simp_all add: release_cells_def)
  have objs: "rt_objects ?rt' = (rt_objects rt1)[i := frothy_object_reset]" using f by simp
  have same: "rt_payload_bytes ?rt' = rt_payload_bytes rt1"
    "cs_data (rt_cellspace ?rt') = cs_data (rt_cellspace rt1)" using f by simp_all
  have "ob_refcount (rt_objects rt1 ! i) = 0" using i1(2) i(3) by simp
  note d = reset_dying_count [OF rt1(3) i1(1) this objs same]
  have "store_ok pp pc ?rt'" by (rule finish_cells_ok [OF rt1(2) i1(1)]) (use i1(2) i OBJECT_CELLS in simp_all)
  moreover have "cleared_only i rt ?rt'" by (rule frees_cleared_only [OF rt1(4) i(1) objs same(1) d(2)])
  moreover have "total_refcount ?rt' \<le> total_refcount rt"
    using total_teardown [of i ?f] rt1(5) by (simp add: total_add_free_span)
  moreover have "frothy_runtime_clear_live_object rel i rt = (Inr (), ?rt')"
    using i OBJECT_CELLS rt1(1) by (simp add: frothy_runtime_clear_live_object_def and_then_def)
  ultimately show ?thesis using d(1) by blast
next
  case (OBJECT_RECORD p d n)
  have "refs_in (outs rt i) x = refs_in (map (record_field_at rt p) [0 ..< 0 + n]) x + refs d x" for x
    by (simp add: outs_def OBJECT_RECORD)
  with cnt have "count_ok (\<lambda>x. (e x + refs d x) + refs_in (map (record_field_at rt p) [0 ..< 0 + n]) x) hole rt"
    by (simp add: ac_simps)
  from clear_fields_ok [OF rel st this hole_safe_add [OF hs] k]
  obtain rt1 where rt1: "clear_fields_loop rel p 0 n rt = (Inr (), rt1)" "store_ok pp pc rt1"
    "count_ok (\<lambda>x. e x + refs d x) hole rt1" "frees {} rt rt1"
    "total_refcount rt1 \<le> total_refcount rt"
    by blast
  from rel_okD [OF rel rt1(2,3) hs] rt1(5) k
  obtain rt2 where rt2: "rel d rt1 = (Inr (), rt2)" "store_ok pp pc rt2" "count_ok e hole rt2"
    "frees {} rt1 rt2" "total_refcount rt2 \<le> total_refcount rt1"
    by (meson le_trans)
  have fr: "frees {} rt rt2" by (rule frees_trans [OF rt1(4) rt2(4)])
  note i2 = frees_store_i [OF fr i(1,3)]
  obtain rt' where rt': "finish_clear i rt2 = (Inr (), rt')" "store_ok pp pc rt'"
    and objs: "rt_objects rt' = (rt_objects rt2)[i := frothy_object_reset]"
    and same: "rt_payload_bytes rt' = rt_payload_bytes rt2" "rt_cellspace rt' = rt_cellspace rt2"
    using finish_clear_ok [OF rt2(2) i2(1)] i2(2) i(2) OBJECT_RECORD by auto
  have zero: "ob_refcount (rt_objects rt2 ! i) = 0" using i2(2) i(3) by simp
  have data: "cs_data (rt_cellspace rt') = cs_data (rt_cellspace rt2)" using same(2) by simp
  note dd = reset_dying_count [OF rt2(3) i2(1) zero objs same(1) data]
  have "cleared_only i rt rt'"
    by (rule frees_cleared_only [OF frees_mono [OF fr] i(1) objs same(1) dd(2)]) simp
  moreover have "total_refcount rt' \<le> total_refcount rt"
    using total_finish_clear [of i rt2] rt' rt2(5) rt1(5) by simp
  moreover have "frothy_runtime_clear_live_object rel i rt = (Inr (), rt')"
    using i OBJECT_RECORD rt1(1) rt2(1) rt'(1)
    by (simp add: frothy_runtime_clear_live_object_def and_then_def)
  ultimately show ?thesis using rt'(2) dd(1) by blast
qed (rule clear_leaf_ok [OF st i _ _ _ cnt];
     use i in \<open>simp add: outs_def frothy_runtime_clear_live_object_def\<close>)+

lemma set_refcount_frame [simp]:
  "rt_objects (set_refcount i c rt)
     = (rt_objects rt)[i := (rt_objects rt ! i)\<lparr>ob_refcount := c\<rparr>]"
  "rt_payload_bytes (set_refcount i c rt) = rt_payload_bytes rt"
  "rt_cellspace (set_refcount i c rt) = rt_cellspace rt"
  by (simp_all add: set_refcount_def set_object_def)

lemma as_outs_cong:
  "rt_payload_bytes rt' = rt_payload_bytes rt \<Longrightarrow>
   cs_data (rt_cellspace rt') = cs_data (rt_cellspace rt) \<Longrightarrow> as_outs rt' ob = as_outs rt ob"
  by (cases ob) (simp_all add: frothy_cellspace_value_def record_field_at_def)

lemma outs_set_refcount [simp]: "outs (set_refcount i c rt) j = outs rt j"
proof -
  have "ob_as (rt_objects (set_refcount i c rt) ! j) = ob_as (rt_objects rt ! j)"
    by (cases "j = i"; cases "i < length (rt_objects rt)") (simp_all add: list_update_beyond)
  then show ?thesis by (simp add: outs_def as_outs_cong [of "set_refcount i c rt" rt])
qed

lemma store_ok_set_refcount:
  assumes "store_ok pp pc rt" "i < length (rt_objects rt)" "ob_live (rt_objects rt ! i)"
  shows "store_ok pp pc (set_refcount i c rt)"
proof -
  let ?ob = "(rt_objects rt ! i)\<lparr>ob_refcount := c\<rparr>" and ?rt' = "set_refcount i c rt"
  have same: "ob_payload ?ob = ob_payload (rt_objects rt ! i)"
    "ob_cells ?ob = ob_cells (rt_objects rt ! i)"
    by (simp_all add: ob_payload_def ob_cells_def)
  have "mset (payload_owned ?rt') = mset (payload_owned rt)"
    "mset (cells_owned ?rt') = mset (cells_owned rt)"
    using owned_update [OF assms(2), of ?rt' ?ob] same by simp_all
  then have "payload_ok pp ?rt'" "cells_ok pc ?rt'"
    using assms(1) payload_ok_other [of pp rt ?rt'] cells_ok_other [of pc rt ?rt']
    by (simp_all add: store_ok_def set_refcount_def set_object_def)
  moreover have "table_ok ?rt'"
    using assms length_filter_update [OF assms(2), of ob_live ?ob]
    by (auto simp: store_ok_def table_ok_def nth_list_update ob_shape_def set_refcount_def
        set_object_def)
  ultimately show ?thesis by (simp add: store_ok_def)
qed

lemma rc_set_refcount:
  "i < length (rt_objects rt) \<Longrightarrow> rc (set_refcount i c rt) x = (if x = i then c else rc rt x)"
  by (simp add: rc_def)

lemma outs_h_set_refcount [simp]: "outs_h hole (set_refcount i c rt) j = outs_h hole rt j"
  by (simp add: outs_h_def split: option.splits)

lemma count_ok_decrement:
  assumes "count_ok (\<lambda>x. e x + refs v x) hole rt" "frothy_value_is_object_ref v"
    and "i = frothy_value_object_index v" "i < length (rt_objects rt)"
    and "1 < ob_refcount (rt_objects rt ! i)"
  shows "count_ok e hole (set_refcount i (ob_refcount (rt_objects rt ! i) - 1) rt)"
  unfolding count_ok_def
proof
  fix x
  let ?c = "ob_refcount (rt_objects rt ! i)" and ?rt' = "set_refcount i (ob_refcount (rt_objects rt ! i) - 1) rt"
  have "refs_to hole ?rt' x = refs_to hole rt x"
  proof (intro refs_to_cong)
    show "0 < rc ?rt' j \<longleftrightarrow> 0 < rc rt j" for j
      using assms(4,5) by (cases "j = i") (simp_all add: rc_set_refcount, simp_all add: rc_def)
  qed simp_all
  moreover have "rc rt x = e x + refs v x + refs_to hole rt x" using assms(1) by (simp add: count_ok_def)
  moreover have "rc ?rt' x + refs v x = rc rt x"
    using assms(2-5) by (auto simp: rc_set_refcount refs_def rc_def)
  ultimately show "rc ?rt' x = e x + refs_to hole ?rt' x" by simp
qed

lemma count_ok_last:
  assumes "count_ok (\<lambda>x. e x + refs v x) hole rt" "hole_safe e hole"
    and "frothy_value_is_object_ref v" "i = frothy_value_object_index v"
    and "i < length (rt_objects rt)" "ob_refcount (rt_objects rt ! i) = 1"
  shows "count_ok (\<lambda>x. e x + refs_in (outs rt i) x) hole (set_refcount i 0 rt)"
  unfolding count_ok_def
proof
  fix x
  let ?rt' = "set_refcount i 0 rt"
  have rci: "rc rt i = 1" using assms(5,6) by (simp add: rc_def)
  have cnt: "rc rt y = e y + refs v y + refs_to hole rt y" for y
    using assms(1) by (simp add: count_ok_def)
  have vi: "refs v i = 1" using assms(3,4) by (simp add: refs_def)
  have "\<not> 0 < e i" using cnt [of i] rci vi by simp
  then have hole: "outs_h hole rt i = outs rt i"
    using assms(2) by (auto simp: outs_h_def hole_safe_def split: option.splits)
  let ?g = "\<lambda>rt j. if 0 < rc rt j then refs_in (outs_h hole rt j) x else 0"
  have "refs_to hole rt x = ?g rt i + (\<Sum>j\<in>{..<length (rt_objects rt)} - {i}. ?g rt j)"
    unfolding refs_to_def using assms(5) by (simp add: sum.remove)
  moreover have "refs_to hole ?rt' x = ?g ?rt' i + (\<Sum>j\<in>{..<length (rt_objects rt)} - {i}. ?g ?rt' j)"
    unfolding refs_to_def using assms(5) by (simp add: sum.remove)
  moreover have "(\<Sum>j\<in>{..<length (rt_objects rt)} - {i}. ?g ?rt' j)
      = (\<Sum>j\<in>{..<length (rt_objects rt)} - {i}. ?g rt j)"
    by (rule sum.cong) (use assms(5) in \<open>auto simp: rc_set_refcount\<close>)
  ultimately have "refs_to hole rt x = refs_to hole ?rt' x + refs_in (outs rt i) x"
    using assms(5) rci hole by (simp add: rc_set_refcount)
  moreover have "rc ?rt' x + refs v x = rc rt x"
    using assms(3-5) rci by (auto simp: rc_set_refcount refs_def)
  ultimately show "rc ?rt' x = e x + refs_in (outs rt i) x + refs_to hole ?rt' x"
    using cnt [of x] by simp
qed

lemma release_step_ok:
  assumes rel: "0 < total_refcount rt \<Longrightarrow> rel_ok (total_refcount rt - 1) rel"
    and st: "store_ok pp pc rt" and cnt: "count_ok (\<lambda>x. e x + refs v x) hole rt"
    and hs: "hole_safe e hole" and ref: "frothy_value_is_object_ref v"
    and i: "i = frothy_value_object_index v"
  shows "frothy_runtime_get_live_object_id rt v = Inr i \<and> 0 < ob_refcount (rt_objects rt ! i) \<and>
    (let c = ob_refcount (rt_objects rt ! i); rt1 = set_refcount i (c - 1) rt;
         m = (if 0 < c - 1 then (Inr (), rt1) else frothy_runtime_clear_live_object rel i rt1)
     in \<exists>rt'. m = (Inr (), rt') \<and> store_ok pp pc rt' \<and> count_ok e hole rt' \<and> frees {} rt rt' \<and>
        total_refcount rt' \<le> total_refcount rt)"
proof -
  let ?c = "ob_refcount (rt_objects rt ! i)" and ?rt1 = "set_refcount i (ob_refcount (rt_objects rt ! i) - 1) rt"
  have "0 < e i + refs v i" using ref i by (simp add: refs_def)
  then have il: "i < length (rt_objects rt)" "ob_live (rt_objects rt ! i)" "0 < ?c"
    using count_ok_live [OF _ cnt, of i] st by (auto simp: store_ok_def rc_def)
  have total: "total_refcount ?rt1 + 1 = total_refcount rt"
    by (rule total_set_refcount_dec [OF il(1) refl il(3)])
  have st1: "store_ok pp pc ?rt1" by (rule store_ok_set_refcount [OF st il(1,2)])
  have len1: "i < length (rt_objects ?rt1)" "ob_live (rt_objects ?rt1 ! i)"
    "ob_refcount (rt_objects ?rt1 ! i) = ?c - 1" using il by simp_all
  have kept1: "kept {} rt ?rt1 j" if "j < length (rt_objects rt)" "0 < ?c - 1" for j
    using that by (cases "j = i") (simp_all add: kept_def)
  have "\<exists>rt'. (if 0 < ?c - 1 then (Inr (), ?rt1) else frothy_runtime_clear_live_object rel i ?rt1)
      = (Inr (), rt') \<and> store_ok pp pc rt' \<and> count_ok e hole rt' \<and> frees {} rt rt' \<and>
        total_refcount rt' \<le> total_refcount rt"
  proof (cases "0 < ?c - 1")
    case True
    then have "count_ok e hole ?rt1" by (intro count_ok_decrement [OF cnt ref i il(1)]) simp
    moreover have "frees {} rt ?rt1" using kept1 True by (simp add: frees_def same_frame_def)
    ultimately show ?thesis using True st1 total by simp
  next
    case False
    then have one: "?c = 1" using il(3) by simp
    then have r0: "?rt1 = set_refcount i 0 rt" by simp
    have "count_ok (\<lambda>x. e x + refs_in (outs ?rt1 i) x) hole ?rt1"
      unfolding r0 using count_ok_last [OF cnt hs ref i il(1) one] by simp
    moreover have "ob_refcount (rt_objects ?rt1 ! i) = 0" using len1(3) one by simp
    moreover have "rel_ok (total_refcount ?rt1) rel" using rel total by (metis add_diff_cancel_right' add_is_0 gr0I zero_neq_one)
    ultimately obtain rt' where rt': "frothy_runtime_clear_live_object rel i ?rt1 = (Inr (), rt')"
      "store_ok pp pc rt'" "count_ok e hole rt'" "cleared_only i ?rt1 rt'"
      "total_refcount rt' \<le> total_refcount ?rt1"
      using clear_ok [OF _ st1 len1(1,2) _ _ hs order_refl] by blast
    have "kept {} rt rt' j \<or> cleared rt rt' j" if j: "j < length (rt_objects rt)" for j
    proof (cases "j = i")
      case True
      then show ?thesis using rt'(4) il by (simp add: cleared_only_def cleared_def)
    next
      case False
      then show ?thesis using rt'(4) j by (auto simp: cleared_only_def kept_def cleared_def)
    qed
    then have "frees {} rt rt'" using rt'(4) by (simp add: frees_def cleared_only_def same_frame_def)
    then show ?thesis using False rt' total by auto
  qed
  moreover have "frothy_runtime_get_live_object_id rt v = Inr i"
    using il ref i by (simp add: get_live_object_id_Inr)
  ultimately show ?thesis using il(3) unfolding Let_def by blast
qed

lemma release_fuel_ok: "rel_ok n (release_fuel (Suc n))"
proof (induction n)
  case (0)
  show ?case unfolding rel_ok_def
  proof (intro allI impI)
    fix pp pc rt v e hole
    assume a: "store_ok pp pc rt" "count_ok (\<lambda>x. e x + refs v x) hole rt" "hole_safe e hole"
      "total_refcount rt \<le> 0"
    show "\<exists>rt'. release_fuel (Suc 0) v rt = (Inr (), rt') \<and> store_ok pp pc rt' \<and>
        count_ok e hole rt' \<and> frees {} rt rt' \<and> total_refcount rt' \<le> total_refcount rt"
    proof (cases "frothy_value_is_object_ref v")
      case True
      then show ?thesis
        using release_step_ok [OF _ a(1-3) True refl, of "release_fuel 0"] a(4)
        by (auto simp: Let_def)
    next
      case False
      then show ?thesis using a frees_refl by (auto simp: refs_def)
    qed
  qed
next
  case (Suc n)
  show ?case unfolding rel_ok_def
  proof (intro allI impI)
    fix pp pc rt v e hole
    assume a: "store_ok pp pc rt" "count_ok (\<lambda>x. e x + refs v x) hole rt" "hole_safe e hole"
      "total_refcount rt \<le> Suc n"
    have rel: "rel_ok (total_refcount rt - 1) (release_fuel (Suc n))"
      by (rule rel_ok_mono [OF Suc.IH]) (use a(4) in simp)
    show "\<exists>rt'. release_fuel (Suc (Suc n)) v rt = (Inr (), rt') \<and> store_ok pp pc rt' \<and>
        count_ok e hole rt' \<and> frees {} rt rt' \<and> total_refcount rt' \<le> total_refcount rt"
    proof (cases "frothy_value_is_object_ref v")
      case True
      then show ?thesis
        using release_step_ok [OF rel a(1-3) True refl]
        by (simp only: release_fuel.simps(2) [of "Suc n"]) (auto simp: Let_def simp del: release_fuel.simps)
    next
      case False
      then show ?thesis using a frees_refl by (auto simp: refs_def)
    qed
  qed
qed

text \<open>The statement clients use: a program that holds a reference can give it back.\<close>

lemma value_release_ok:
  assumes "store_ok pp pc rt" "count_ok (\<lambda>x. e x + refs v x) hole rt" "hole_safe e hole"
  shows "\<exists>rt'. frothy_value_release v rt = (Inr (), rt') \<and> store_ok pp pc rt' \<and>
    count_ok e hole rt' \<and> frees {} rt rt'"
  using rel_okD [OF release_fuel_ok assms order_refl] unfolding frothy_value_release_def by blast

end
