(* ===== verification/Frothy_Records.thy ===== *)
theory Frothy_Records
  imports Frothy_Clear
begin

section \<open>Record definitions, records, classes and equality (frothy_value.c)\<close>

text \<open>
  A record definition is stored as a little-endian field count, its name and its field names, each
  NUL-terminated, in its payload; the walk over the names is on the bytes of that payload. A record
  holds its definition and one 32-bit value per field.
\<close>

subsection \<open>Record definitions\<close>

text \<open>\<open>rest\<close> is the memory from the cursor to the end of the payload.\<close>

definition frothy_record_def_next_string :: "byte list \<Rightarrow> (byte list \<times> byte list) result" where
  "frothy_record_def_next_string rest =
     (case dropWhile (\<lambda>b. b \<noteq> 0) rest of
        [] \<Rightarrow> Inl FROTH_ERROR_BOUNDS
      | nul # rest' \<Rightarrow> Inr (takeWhile (\<lambda>b. b \<noteq> 0) rest, rest'))"

definition frothy_runtime_record_def_object_view ::
  "frothy_runtime \<Rightarrow> frothy_object_as \<Rightarrow> (byte list \<times> nat \<times> byte list) result" where
  "frothy_runtime_record_def_object_view rt ob =
     (case ob of
        OBJECT_RECORD_DEF payload n \<Rightarrow>
          if sp_length payload < 4 then Inl FROTH_ERROR_BOUNDS
          else
            let memory = load_at (rt_payload_bytes rt) (sp_offset payload) (sp_length payload);
                stored_field_count = unat (load_word memory 0)
            in FROTH_TRY (frothy_record_def_next_string (drop 4 memory)) (\<lambda>(name, rest).
               Inr (name, stored_field_count, rest))
      | _ \<Rightarrow> Inl FROTH_ERROR_BOUNDS)"

text \<open>The size pass over the field names of \<open>frothy_runtime_alloc_record_def\<close>.\<close>

fun record_def_size_loop :: "byte list list \<Rightarrow> nat \<Rightarrow> nat result" where
  "record_def_size_loop [] payload_size = Inr payload_size"
| "record_def_size_loop (f # fs) payload_size =
     (if strlen f = 0 then Inl FROTH_ERROR_BOUNDS
      else FROTH_TRY (frothy_add_size payload_size (strlen f + 1)) (record_def_size_loop fs))"

definition record_def_bytes :: "byte list \<Rightarrow> byte list list \<Rightarrow> byte list" where
  "record_def_bytes name field_names =
     le32 (word_of_nat (length field_names)) @ c_string name @ [0] @
     concat (map (\<lambda>f. c_string f @ [0]) field_names)"

definition install_record_def ::
  "byte list \<Rightarrow> byte list list \<Rightarrow> nat \<Rightarrow> frothy_runtime \<Rightarrow>
   frothy_value result \<times> frothy_runtime" where
  "install_record_def name field_names payload_size rt =
     (case frothy_runtime_alloc_payload payload_size rt of
        (Inl e, rt) \<Rightarrow> (Inl e, rt)
      | (Inr payload, rt) \<Rightarrow>
          (case frothy_runtime_append_object (OBJECT_RECORD_DEF payload (length field_names))
                  (store_bytes (sp_offset payload) (record_def_bytes name field_names) rt) of
             (Inl e, rt) \<Rightarrow> (Inl e, frothy_runtime_release_payload payload rt)
           | (Inr v, rt) \<Rightarrow> (Inr v, rt)))"

definition frothy_runtime_alloc_record_def ::
  "byte list \<Rightarrow> byte list list \<Rightarrow> frothy_runtime \<Rightarrow> frothy_value result \<times> frothy_runtime" where
  "frothy_runtime_alloc_record_def name field_names rt =
     (if length field_names = 0 \<or> UINT32_MAX < length field_names then (Inl FROTH_ERROR_BOUNDS, rt)
      else case FROTH_TRY (frothy_add_size 4 (strlen name + 1)) (record_def_size_loop field_names) of
          Inl e \<Rightarrow> (Inl e, rt)
        | Inr payload_size \<Rightarrow> install_record_def name field_names payload_size rt)"

definition frothy_record_def_field_name_from_ir ::
  "frothy_ir_program \<Rightarrow> nat \<Rightarrow> nat \<Rightarrow> byte list result" where
  "frothy_record_def_field_name_from_ir program first i =
     (let literal_id = ir_links program ! (first + i)
      in if length (ir_literals program) \<le> literal_id then Inl FROTH_ERROR_SIGNATURE
         else case ir_literals program ! literal_id of
             LITERAL_TEXT t \<Rightarrow> Inr t
           | _ \<Rightarrow> Inl FROTH_ERROR_SIGNATURE)"

fun ir_field_names_loop ::
  "frothy_ir_program \<Rightarrow> nat \<Rightarrow> nat \<Rightarrow> nat \<Rightarrow> nat \<Rightarrow> (byte list list \<times> nat) result" where
  "ir_field_names_loop program first i 0 payload_size = Inr ([], payload_size)"
| "ir_field_names_loop program first i (Suc n) payload_size =
     FROTH_TRY (frothy_record_def_field_name_from_ir program first i) (\<lambda>f.
     if strlen f = 0 then Inl FROTH_ERROR_BOUNDS
     else
       FROTH_TRY (frothy_add_size payload_size (strlen f + 1)) (\<lambda>payload_size.
       FROTH_TRY (ir_field_names_loop program first (Suc i) n payload_size) (\<lambda>(fs, payload_size).
       Inr (f # fs, payload_size))))"

definition frothy_runtime_alloc_record_def_from_ir ::
  "byte list \<Rightarrow> frothy_ir_program \<Rightarrow> nat \<Rightarrow> nat \<Rightarrow> frothy_runtime \<Rightarrow>
   frothy_value result \<times> frothy_runtime" where
  "frothy_runtime_alloc_record_def_from_ir name program first n rt =
     (let link_count = length (ir_links program)
      in if n = 0 \<or> link_count < first \<or> link_count - first < n \<or> UINT32_MAX < n
         then (Inl FROTH_ERROR_SIGNATURE, rt)
         else case FROTH_TRY (frothy_add_size 4 (strlen name + 1))
                     (ir_field_names_loop program first 0 n) of
             Inl e \<Rightarrow> (Inl e, rt)
           | Inr (field_names, payload_size) \<Rightarrow> install_record_def name field_names payload_size rt)"

definition frothy_runtime_get_record_def ::
  "frothy_runtime \<Rightarrow> frothy_value \<Rightarrow> (byte list \<times> nat) result" where
  "frothy_runtime_get_record_def rt v =
     FROTH_TRY (frothy_runtime_get_object rt v is_OBJECT_RECORD_DEF) (\<lambda>ob.
     FROTH_TRY (frothy_runtime_record_def_object_view rt ob) (\<lambda>(name, n, rest).
     Inr (name, n)))"

fun nth_string :: "nat \<Rightarrow> byte list \<Rightarrow> byte list result" where
  "nth_string 0 rest = map_sum id fst (frothy_record_def_next_string rest)"
| "nth_string (Suc i) rest =
     FROTH_TRY (frothy_record_def_next_string rest) (\<lambda>(s, rest). nth_string i rest)"

definition frothy_runtime_record_def_field_name ::
  "frothy_runtime \<Rightarrow> frothy_value \<Rightarrow> nat \<Rightarrow> byte list result" where
  "frothy_runtime_record_def_field_name rt v i =
     FROTH_TRY (frothy_runtime_get_object rt v is_OBJECT_RECORD_DEF) (\<lambda>ob.
     FROTH_TRY (frothy_runtime_record_def_object_view rt ob) (\<lambda>(name, n, rest).
     if n \<le> i then Inl FROTH_ERROR_BOUNDS else nth_string i rest))"

fun find_string :: "byte list \<Rightarrow> nat \<Rightarrow> nat \<Rightarrow> byte list \<Rightarrow> nat result" where
  "find_string wanted i 0 rest = Inl FROTH_ERROR_BOUNDS"
| "find_string wanted i (Suc n) rest =
     FROTH_TRY (frothy_record_def_next_string rest) (\<lambda>(candidate, rest).
     if candidate = c_string wanted then Inr i else find_string wanted (Suc i) n rest)"

definition frothy_runtime_record_def_field_index ::
  "frothy_runtime \<Rightarrow> frothy_value \<Rightarrow> byte list \<Rightarrow> nat result" where
  "frothy_runtime_record_def_field_index rt v wanted =
     FROTH_TRY (frothy_runtime_get_object rt v is_OBJECT_RECORD_DEF) (\<lambda>ob.
     FROTH_TRY (frothy_runtime_record_def_object_view rt ob) (\<lambda>(name, n, rest).
     find_string wanted 0 n rest))"

subsection \<open>Classes, literals, equality\<close>

datatype frothy_value_class =
    CLASS_INT | CLASS_BOOL | CLASS_NIL | CLASS_TEXT | CLASS_CELLS | CLASS_CODE | CLASS_NATIVE
  | CLASS_RECORD_DEF | CLASS_RECORD

fun class_of_object :: "frothy_object_as \<Rightarrow> frothy_value_class result" where
  "class_of_object OBJECT_FREE = Inl FROTH_ERROR_BOUNDS"
| "class_of_object (OBJECT_TEXT p n) = Inr CLASS_TEXT"
| "class_of_object (OBJECT_CELLS sp) = Inr CLASS_CELLS"
| "class_of_object (OBJECT_CODE p a l b pr) = Inr CLASS_CODE"
| "class_of_object (OBJECT_NATIVE f c n a) = Inr CLASS_NATIVE"
| "class_of_object (OBJECT_RECORD_DEF p n) = Inr CLASS_RECORD_DEF"
| "class_of_object (OBJECT_RECORD p d n) = Inr CLASS_RECORD"

definition value_class :: "frothy_runtime \<Rightarrow> frothy_value \<Rightarrow> frothy_value_class result" where
  "value_class rt v =
     (if frothy_value_is_int v then Inr CLASS_INT
      else if frothy_value_is_bool v then Inr CLASS_BOOL
      else if frothy_value_is_nil v then Inr CLASS_NIL
      else if frothy_value_is_slot_designator v then Inl FROTH_ERROR_TYPE_MISMATCH
      else if frothy_value_is_object_ref v
      then FROTH_TRY (frothy_runtime_get_live_object_id rt v) (\<lambda>i.
             class_of_object (ob_as (rt_objects rt ! i)))
      else Inl FROTH_ERROR_TYPE_MISMATCH)"

fun frothy_value_from_literal ::
  "frothy_ir_literal \<Rightarrow> frothy_runtime \<Rightarrow> frothy_value result \<times> frothy_runtime" where
  "frothy_value_from_literal (LITERAL_INT i) rt = (frothy_value_make_int i, rt)"
| "frothy_value_from_literal (LITERAL_BOOL b) rt = (Inr (frothy_value_make_bool b), rt)"
| "frothy_value_from_literal LITERAL_NIL rt = (Inr frothy_value_make_nil, rt)"
| "frothy_value_from_literal (LITERAL_TEXT t) rt = frothy_runtime_alloc_text (c_string t) rt"

definition frothy_record_value_allowed :: "frothy_runtime \<Rightarrow> frothy_value \<Rightarrow> unit result" where
  "frothy_record_value_allowed rt v =
     FROTH_TRY (value_class rt v) (\<lambda>c.
       if c \<in> {CLASS_INT, CLASS_BOOL, CLASS_NIL, CLASS_TEXT, CLASS_RECORD} then Inr ()
       else Inl FROTH_ERROR_TYPE_MISMATCH)"

definition frothy_value_equals :: "frothy_runtime \<Rightarrow> frothy_value \<Rightarrow> frothy_value \<Rightarrow> bool result" where
  "frothy_value_equals rt lhs rhs =
     (if lhs = rhs then Inr True
      else if frothy_value_is_slot_designator lhs \<or> frothy_value_is_slot_designator rhs
      then Inr (frothy_value_is_slot_designator lhs \<and> frothy_value_is_slot_designator rhs \<and>
                frothy_value_slot_index lhs = frothy_value_slot_index rhs)
      else
        FROTH_TRY (value_class rt lhs) (\<lambda>lhs_class.
        FROTH_TRY (value_class rt rhs) (\<lambda>rhs_class.
        if lhs_class \<noteq> rhs_class then Inr False
        else if lhs_class = CLASS_TEXT
        then FROTH_TRY (frothy_runtime_get_text rt lhs) (\<lambda>lhs_text.
             FROTH_TRY (frothy_runtime_get_text rt rhs) (\<lambda>rhs_text.
             Inr (length lhs_text = length rhs_text \<and> lhs_text = rhs_text)))
        else Inr False)))"

subsection \<open>Slot designators\<close>

definition frothy_value_make_slot_designator ::
  "froth_heap \<times> slot_table \<Rightarrow> byte list \<Rightarrow> frothy_value result" where
  "frothy_value_make_slot_designator st name =
     FROTH_TRY (froth_slot_find_name_n (fst st) (snd st) (c_string name)) (\<lambda>i.
     Inr (frothy_slot_value i))"

definition frothy_value_get_slot_designator_name ::
  "froth_heap \<times> slot_table \<Rightarrow> frothy_value \<Rightarrow> byte list result" where
  "frothy_value_get_slot_designator_name st v =
     (if \<not> frothy_value_is_slot_designator v then Inl FROTH_ERROR_TYPE_MISMATCH
      else froth_slot_get_name (fst st) (snd st) (frothy_value_slot_index v))"

subsection \<open>Records\<close>

fun check_all :: "('a \<Rightarrow> unit result) \<Rightarrow> 'a list \<Rightarrow> unit result" where
  "check_all f [] = Inr ()"
| "check_all f (x # xs) = FROTH_TRY (f x) (\<lambda>u. check_all f xs)"

text \<open>The roll-back loop ignores the result of each release.\<close>

fun release_ignoring :: "frothy_value list \<Rightarrow> frothy_runtime \<Rightarrow> frothy_runtime" where
  "release_ignoring [] rt = rt"
| "release_ignoring (v # vs) rt = release_ignoring vs (snd (frothy_value_release v rt))"

text \<open>Retain and store each field; \<open>Inl\<close> carries the fields retained before the failure.\<close>

fun retain_fields ::
  "nat \<Rightarrow> frothy_value list \<Rightarrow> nat \<Rightarrow> frothy_runtime \<Rightarrow>
   (froth_error \<times> nat + unit) \<times> frothy_runtime" where
  "retain_fields base [] i rt = (Inr (), rt)"
| "retain_fields base (v # vs) i rt =
     (case frothy_value_retain v rt of
        (Inl e, rt) \<Rightarrow> (Inl (e, i), rt)
      | (Inr u, rt) \<Rightarrow> retain_fields base vs (Suc i) (store_word (base + 4 * i) v rt))"

definition frothy_runtime_alloc_record ::
  "frothy_value \<Rightarrow> frothy_value list \<Rightarrow> frothy_runtime \<Rightarrow> frothy_value result \<times> frothy_runtime"
where
  "frothy_runtime_alloc_record def_value field_values rt =
     (if length field_values = 0 then (Inl FROTH_ERROR_BOUNDS, rt)
      else
        case FROTH_TRY (frothy_runtime_get_record_def rt def_value) (\<lambda>(name, expected).
             if length field_values \<noteq> expected then Inl FROTH_ERROR_SIGNATURE
             else FROTH_TRY (check_all (frothy_record_value_allowed rt) field_values) (\<lambda>u.
             if SIZE_MAX div 4 < length field_values then Inl FROTH_ERROR_HEAP_OUT_OF_MEMORY
             else Inr ())) of
          Inl e \<Rightarrow> (Inl e, rt)
        | Inr u \<Rightarrow>
            (case frothy_runtime_alloc_payload (length field_values * 4) rt of
               (Inl e, rt) \<Rightarrow> (Inl e, rt)
             | (Inr payload, rt) \<Rightarrow>
                 (case frothy_value_retain def_value rt of
                    (Inl e, rt) \<Rightarrow> (Inl e, frothy_runtime_release_payload payload rt)
                  | (Inr u, rt) \<Rightarrow>
                      (case retain_fields (sp_offset payload) field_values 0 rt of
                         (Inl (e, i), rt) \<Rightarrow>
                           (Inl e, frothy_runtime_release_payload payload
                              (snd (frothy_value_release def_value
                                (release_ignoring (take i field_values) rt))))
                       | (Inr u, rt) \<Rightarrow>
                           (case frothy_runtime_append_object
                                   (OBJECT_RECORD payload def_value (length field_values)) rt of
                              (Inl e, rt) \<Rightarrow>
                                (Inl e, frothy_runtime_release_payload payload
                                   (snd (frothy_value_release def_value
                                     (release_ignoring field_values rt))))
                            | (Inr v, rt) \<Rightarrow> (Inr v, rt))))))"

definition frothy_runtime_get_record ::
  "frothy_runtime \<Rightarrow> frothy_value \<Rightarrow> (frothy_value \<times> frothy_value list) result" where
  "frothy_runtime_get_record rt v =
     FROTH_TRY (frothy_runtime_get_object rt v is_OBJECT_RECORD) (\<lambda>ob.
     Inr (record_definition ob,
          map (record_field_at rt (as_payload ob)) [0 ..< record_field_count ob]))"

definition record_field_value :: "frothy_runtime \<Rightarrow> frothy_value \<Rightarrow> byte list \<Rightarrow> frothy_value result" where
  "record_field_value rt v name =
     FROTH_TRY (frothy_runtime_get_object rt v is_OBJECT_RECORD) (\<lambda>ob.
     FROTH_TRY (frothy_runtime_record_def_field_index rt (record_definition ob) name) (\<lambda>i.
     Inr (record_field_at rt (as_payload ob) i)))"

definition frothy_runtime_record_read_field ::
  "frothy_value \<Rightarrow> byte list \<Rightarrow> frothy_runtime \<Rightarrow> frothy_value result \<times> frothy_runtime" where
  "frothy_runtime_record_read_field v name rt =
     (case record_field_value rt v name of
        Inl e \<Rightarrow> (Inl e, rt)
      | Inr out \<Rightarrow>
          (case frothy_value_retain out rt of
             (Inl e, rt) \<Rightarrow> (Inl e, rt)
           | (Inr u, rt) \<Rightarrow> (Inr out, rt)))"

definition frothy_runtime_record_write_field ::
  "frothy_value \<Rightarrow> byte list \<Rightarrow> frothy_value \<Rightarrow> frothy_runtime \<Rightarrow>
   unit result \<times> frothy_runtime" where
  "frothy_runtime_record_write_field v name stored rt =
     (case FROTH_TRY (frothy_record_value_allowed rt stored) (\<lambda>u.
           FROTH_TRY (frothy_runtime_get_object rt v is_OBJECT_RECORD) (\<lambda>ob.
           FROTH_TRY (frothy_runtime_record_def_field_index rt (record_definition ob) name) (\<lambda>i.
           Inr (as_payload ob, i)))) of
        Inl e \<Rightarrow> (Inl e, rt)
      | Inr (payload, i) \<Rightarrow>
          (case frothy_value_release (record_field_at rt payload i) rt of
             (Inl e, rt) \<Rightarrow> (Inl e, rt)
           | (Inr u, rt) \<Rightarrow> (Inr (), store_word (sp_offset payload + 4 * i) stored rt)))"

end
