(* ===== verification/Frothy_Objects.thy ===== *)
theory Frothy_Objects
  imports Frothy_Records
begin

section \<open>What the object operations guarantee\<close>

text \<open>
  The lemmas on append, payload allocation and byte stores that the constructors share, then the
  properties of texts, cells, releases and of the store as a whole.
\<close>

subsection \<open>Appending an object\<close>

lemma first_dead_Some:
  "first_dead obs k = Some i \<Longrightarrow> k \<le> i \<and> i - k < length obs \<and> \<not> ob_live (obs ! (i - k))"
proof (induction obs arbitrary: k)
  case (Cons ob obs)
  show ?case
  proof (cases "ob_live ob")
    case True
    then have "Suc k \<le> i \<and> i - Suc k < length obs \<and> \<not> ob_live (obs ! (i - Suc k))"
      using Cons by simp
    moreover from this have "i - k = Suc (i - Suc k)" by (simp add: Suc_diff_Suc)
    ultimately show ?thesis by simp
  qed (use Cons.prems in simp)
qed simp

definition new_object :: "frothy_object_as \<Rightarrow> frothy_object" where
  "new_object ob = \<lparr>ob_refcount = 1, ob_live = True, ob_as = ob\<rparr>"

definition place_object :: "nat \<Rightarrow> frothy_object_as \<Rightarrow> frothy_object list \<Rightarrow> frothy_object list" where
  "place_object i ob obs = (if i < length obs then obs[i := new_object ob] else obs @ [new_object ob])"

definition same_arenas :: "frothy_runtime \<Rightarrow> frothy_runtime \<Rightarrow> bool" where
  "same_arenas rt rt' \<longleftrightarrow>
     rt_payload_free_spans rt' = rt_payload_free_spans rt \<and>
     rt_payload_extent rt' = rt_payload_extent rt \<and>
     rt_payload_capacity rt' = rt_payload_capacity rt \<and>
     rt_payload_bytes_used rt' = rt_payload_bytes_used rt \<and>
     rt_free_spans rt' = rt_free_spans rt \<and> rt_cellspace rt' = rt_cellspace rt \<and>
     rt_object_capacity rt' = rt_object_capacity rt"

lemma append_object_Inr:
  assumes "frothy_runtime_append_object ob rt = (Inr v, rt')"
  shows "\<exists>i. v = frothy_object_value i \<and> i \<le> length (rt_objects rt) \<and>
      (i < length (rt_objects rt) \<longrightarrow> \<not> ob_live (rt_objects rt ! i)) \<and>
      (i = length (rt_objects rt) \<longrightarrow> i < rt_object_capacity rt) \<and>
      rt_objects rt' = place_object i ob (rt_objects rt) \<and> same_arenas rt rt' \<and>
      rt_payload_bytes rt' = rt_payload_bytes rt \<and>
      rt_live_object_count rt' = rt_live_object_count rt + 1"
proof (cases "first_dead (rt_objects rt) 0")
  case None
  let ?i = "length (rt_objects rt)"
  have "v = frothy_object_value ?i \<and> ?i < rt_object_capacity rt \<and>
      rt_objects rt' = place_object ?i ob (rt_objects rt) \<and> same_arenas rt rt' \<and>
      rt_payload_bytes rt' = rt_payload_bytes rt \<and>
      rt_live_object_count rt' = rt_live_object_count rt + 1"
    using assms None
    by (auto simp: frothy_runtime_append_object_def frothy_runtime_install_object_def Let_def
        set_object_def place_object_def new_object_def same_arenas_def list_update_append
        split: if_splits)
  then show ?thesis by (intro exI [of _ ?i]) simp
next
  case (Some i)
  have i: "i < length (rt_objects rt)" "\<not> ob_live (rt_objects rt ! i)"
    using first_dead_Some [OF Some] by simp_all
  have "v = frothy_object_value i \<and>
      rt_objects rt' = place_object i ob (rt_objects rt) \<and> same_arenas rt rt' \<and>
      rt_payload_bytes rt' = rt_payload_bytes rt \<and>
      rt_live_object_count rt' = rt_live_object_count rt + 1"
    using assms Some i
    by (auto simp: frothy_runtime_append_object_def frothy_runtime_install_object_def
        set_object_def place_object_def new_object_def same_arenas_def split: if_splits)
  then show ?thesis using i by (intro exI [of _ i]) simp
qed

lemma append_object_Inl:
  "frothy_runtime_append_object ob rt = (Inl err, rt') \<Longrightarrow>
   err = FROTH_ERROR_HEAP_OUT_OF_MEMORY \<and>
   (rt' = rt \<or> rt' = rt\<lparr>rt_test_fail_next_append := False\<rparr>)"
  by (auto simp: frothy_runtime_append_object_def frothy_runtime_install_object_def Let_def
      split: if_splits option.splits)

lemma place_owned:
  assumes "i \<le> length obs" "i < length obs \<Longrightarrow> f (obs ! i) = []"
  shows "mset (concat (map f (place_object i ob obs))) = mset (concat (map f obs)) + mset (f (new_object ob))"
  using assms mset_concat_update [of i obs f "new_object ob"] by (auto simp: place_object_def)

lemma place_nth:
  "i \<le> length obs \<Longrightarrow> j < length (place_object i ob obs) \<Longrightarrow>
   place_object i ob obs ! j = (if j = i then new_object ob else obs ! j)"
  by (auto simp: place_object_def nth_append)

lemma place_length:
  "i \<le> length obs \<Longrightarrow> length (place_object i ob obs) = max (length obs) (Suc i)"
  by (auto simp: place_object_def)

lemma place_live:
  "i \<le> length obs \<Longrightarrow> (i < length obs \<Longrightarrow> \<not> ob_live (obs ! i)) \<Longrightarrow>
   length (filter ob_live (place_object i ob obs)) = length (filter ob_live obs) + 1"
  using length_filter_update [of i obs ob_live "new_object ob"]
  by (auto simp: place_object_def new_object_def)

text \<open>A well-shaped object takes over the spans allocated for it.\<close>

lemma append_store_ok:
  assumes ap: "frothy_runtime_append_object ob rt = (Inr v, rt')"
    and st: "store_ok pp pc rt" and shape: "ob_shape (new_object ob)"
    and pp: "pp = ob_payload (new_object ob) @ pp'" and pc: "pc = ob_cells (new_object ob) @ pc'"
  shows "store_ok pp' pc' rt'"
proof -
  obtain i where i: "i \<le> length (rt_objects rt)"
    "i < length (rt_objects rt) \<Longrightarrow> \<not> ob_live (rt_objects rt ! i)"
    "i = length (rt_objects rt) \<Longrightarrow> i < rt_object_capacity rt"
    and objs: "rt_objects rt' = place_object i ob (rt_objects rt)" and same: "same_arenas rt rt'"
    and bytes: "rt_payload_bytes rt' = rt_payload_bytes rt"
    and live: "rt_live_object_count rt' = rt_live_object_count rt + 1"
    using append_object_Inr [OF ap] by blast
  have ok: "payload_ok pp rt" "cells_ok pc rt" "table_ok rt"
    using st by (simp_all add: store_ok_def)
  have dead: "ob_payload (rt_objects rt ! i) = []" "ob_cells (rt_objects rt ! i) = []"
    if "i < length (rt_objects rt)"
    using i(2) [OF that] by (simp_all add: ob_payload_def ob_cells_def)
  have "mset (pp' @ payload_owned rt') = mset (pp @ payload_owned rt)"
    "mset (pc' @ cells_owned rt') = mset (pc @ cells_owned rt)"
    using place_owned [where f = ob_payload, OF i(1) dead(1)]
      place_owned [where f = ob_cells, OF i(1) dead(2)]
    by (simp_all add: payload_owned_def cells_owned_def objs pp pc)
  note perm = this
  have "payload_ok pp' rt'"
    using ok(1) same bytes payload_arena.ok_perm [OF perm(1), of rt'] sum_list_mset [OF perm(1), of sp_length]
    by (simp add: payload_ok_def same_arenas_def)
  moreover have "cells_ok pc' rt'"
    using ok(2) same cell_arena.ok_perm [OF perm(2), of rt'] by (simp add: cells_ok_def same_arenas_def)
  moreover have "table_ok rt'"
    unfolding table_ok_def
  proof (intro conjI allI impI)
    show "rt_live_object_count rt' = length (filter ob_live (rt_objects rt'))"
      using live place_live [OF i(1,2)] ok(3) by (simp add: objs table_ok_def)
    fix j assume "j < length (rt_objects rt')"
    then show "ob_shape (rt_objects rt' ! j)"
      using place_nth [OF i(1), of j ob] place_length [OF i(1), of ob] shape ok(3) i(1)
      by (cases "j = i"; cases "j < length (rt_objects rt)") (auto simp: objs table_ok_def)
  next
    show "length (rt_objects rt') \<le> rt_object_capacity rt'" "rt_object_capacity rt' < 2 ^ 30"
      using ok(3) same i(1,3) place_length [OF i(1), of ob]
      by (cases "i = length (rt_objects rt)"; simp add: objs table_ok_def same_arenas_def)+
  qed
  ultimately show ?thesis by (simp add: store_ok_def)
qed

lemma as_outs_same_memory:
  "rt_payload_bytes rt' = rt_payload_bytes rt \<Longrightarrow> rt_cellspace rt' = rt_cellspace rt \<Longrightarrow>
   as_outs rt' ob = as_outs rt ob"
  by (rule as_outs_cong) simp_all

lemma append_count_ok:
  assumes ap: "frothy_runtime_append_object ob rt = (Inr v, rt')" and tab: "table_ok rt"
    and cnt: "count_ok (\<lambda>x. e x + refs_in (as_outs rt ob) x) None rt"
  shows "count_ok (\<lambda>x. e x + refs v x) None rt'"
    "\<exists>i. v = frothy_object_value i \<and> i < length (rt_objects rt') \<and> ob_live (rt_objects rt' ! i) \<and>
       ob_as (rt_objects rt' ! i) = ob \<and>
       (\<forall>j < length (rt_objects rt). j \<noteq> i \<longrightarrow> rt_objects rt' ! j = rt_objects rt ! j) \<and>
       (\<forall>j < length (rt_objects rt). ob_live (rt_objects rt ! j) \<longrightarrow> j \<noteq> i) \<and>
       length (rt_objects rt) \<le> length (rt_objects rt') \<and> i < 2 ^ 30"
proof -
  obtain i where v: "v = frothy_object_value i" and i: "i \<le> length (rt_objects rt)"
    "i < length (rt_objects rt) \<Longrightarrow> \<not> ob_live (rt_objects rt ! i)"
    "i = length (rt_objects rt) \<Longrightarrow> i < rt_object_capacity rt"
    and objs: "rt_objects rt' = place_object i ob (rt_objects rt)" and same: "same_arenas rt rt'"
    and bytes: "rt_payload_bytes rt' = rt_payload_bytes rt"
    using append_object_Inr [OF ap] by blast
  have cap: "i < 2 ^ 30" using i tab by (cases "i = length (rt_objects rt)") (auto simp: table_ok_def)
  have refs_v: "refs v x = (if x = i then 1 else 0)" for x
    using cap by (simp add: refs_def v)
  let ?n = "length (rt_objects rt)" and ?n' = "length (rt_objects rt')"
  have n': "?n' = max ?n (Suc i)" using place_length [OF i(1)] by (simp add: objs)
  have nth: "rt_objects rt' ! j = (if j = i then new_object ob else rt_objects rt ! j)" if "j < ?n'" for j
    using place_nth [OF i(1), of j ob] that by (simp add: objs)
  have dead: "rt_objects rt ! i = frothy_object_reset" if "i < ?n"
    using i(2) [OF that] tab that by (auto simp: table_ok_def ob_shape_def)
  have rci: "rc rt i = 0" using dead by (cases "i < ?n") (simp_all add: rc_def)
  have mem: "as_outs rt' ob' = as_outs rt ob'" for ob'
    by (rule as_outs_same_memory) (use bytes same in \<open>simp_all add: same_arenas_def\<close>)
  have rc': "rc rt' x = (if x = i then 1 else rc rt x)" for x
    using nth n' i(1) by (cases "x < ?n") (auto simp: rc_def new_object_def)
  have outs': "outs rt' j = (if j = i then as_outs rt ob else outs rt j)" if "j < ?n'" for j
    using nth [OF that] mem by (simp add: outs_def new_object_def)
  let ?g = "\<lambda>rt x j. if 0 < rc rt j then refs_in (outs_h None rt j) x else 0"
  have refs_to': "refs_to None rt' x = refs_to None rt x + refs_in (as_outs rt ob) x" for x
  proof -
    have "refs_to None rt' x = ?g rt' x i + (\<Sum>j\<in>{..<?n'} - {i}. ?g rt' x j)"
      unfolding refs_to_def by (rule sum.remove) (use n' in simp_all)
    also have "?g rt' x i = refs_in (as_outs rt ob) x" using rc' outs' n' by (simp add: outs_h_def)
    also have "(\<Sum>j\<in>{..<?n'} - {i}. ?g rt' x j) = (\<Sum>j\<in>{..<?n} - {i}. ?g rt x j)"
    proof (rule sum.cong)
      show "{..<?n'} - {i} = {..<?n} - {i}" using n' i(1) by auto
      fix j assume "j \<in> {..<?n} - {i}"
      then show "?g rt' x j = ?g rt x j" using rc' outs' n' by (auto simp: outs_h_def)
    qed
    also have "\<dots> = refs_to None rt x"
    proof (cases "i < ?n")
      case True
      then have "refs_to None rt x = ?g rt x i + (\<Sum>j\<in>{..<?n} - {i}. ?g rt x j)"
        unfolding refs_to_def by (intro sum.remove) simp_all
      then show ?thesis using rci by simp
    next
      case False
      then have "{..<?n} - {i} = {..<?n}" by auto
      then show ?thesis by (simp add: refs_to_def)
    qed
    finally show ?thesis by simp
  qed
  show "count_ok (\<lambda>x. e x + refs v x) None rt'"
    unfolding count_ok_def
  proof
    fix x
    have "rc rt x = e x + refs_in (as_outs rt ob) x + refs_to None rt x"
      using cnt by (simp add: count_ok_def)
    then show "rc rt' x = e x + refs v x + refs_to None rt' x"
      using rci by (cases "x = i") (simp_all add: rc' refs_v refs_to')
  qed
  show "\<exists>i. v = frothy_object_value i \<and> i < length (rt_objects rt') \<and> ob_live (rt_objects rt' ! i) \<and>
       ob_as (rt_objects rt' ! i) = ob \<and>
       (\<forall>j < length (rt_objects rt). j \<noteq> i \<longrightarrow> rt_objects rt' ! j = rt_objects rt ! j) \<and>
       (\<forall>j < length (rt_objects rt). ob_live (rt_objects rt ! j) \<longrightarrow> j \<noteq> i) \<and>
       length (rt_objects rt) \<le> length (rt_objects rt') \<and> i < 2 ^ 30"
    using v nth n' i cap by (intro exI [of _ i]) (auto simp: new_object_def)
qed

subsection \<open>Payload allocation and byte stores\<close>

lemma alloc_payload_ok:
  assumes "frothy_runtime_alloc_payload len rt = (Inr sp, rt')" "store_ok pp pc rt"
    and "0 < len" "len \<le> SIZE_MAX - 15"
  shows "store_ok (sp # pp) pc rt'" "len \<le> sp_length sp" "0 < sp_length sp"
proof -
  have len: "sp_length sp = payload_units len" by (rule alloc_payload_length [OF assms(1,4)])
  then have sp: "sp = mk_span (sp_offset sp) (payload_units len)" by (cases sp) (simp add: mk_span_def)
  have use: "payload_usable len rt" using assms(3,4) by (simp add: payload_usable_def)
  have ok: "payload_ok pp rt" "cells_ok pc rt" "table_ok rt"
    using assms(2) by (simp_all add: store_ok_def)
  have "payload_arena.ok rt (pp @ payload_owned rt)" using ok(1) by (simp add: payload_ok_def)
  from payload_arena.alloc_ok(1) [OF this use alloc_payload_offset [OF assms(1)]]
  have arena: "payload_arena.ok rt' (sp # pp @ payload_owned rt)" using sp by simp
  have owned: "payload_owned rt' = payload_owned rt" "cells_owned rt' = cells_owned rt"
    using alloc_payload_frame [OF assms(1)] by (simp_all add: payload_owned_def cells_owned_def)
  have "payload_ok (sp # pp) rt'"
    using arena ok(1) owned alloc_payload_frame [OF assms(1)] alloc_payload_used [OF assms(1)]
    by (simp add: payload_ok_def)
  moreover have "cells_ok pc rt'"
    using ok(2) owned alloc_payload_frame [OF assms(1)] by (simp add: cells_ok_def)
  moreover have "table_ok rt'"
    using ok(3) alloc_payload_frame [OF assms(1)] by (simp add: table_ok_def)
  ultimately show "store_ok (sp # pp) pc rt'" by (simp add: store_ok_def)
  show "len \<le> sp_length sp" "0 < sp_length sp"
    using len payload_units_ge [of len] payload_units_pos [OF assms(3)] by simp_all
qed

lemma alloc_payload_count:
  assumes "frothy_runtime_alloc_payload len rt = (r, rt')" "count_ok e hole rt"
  shows "count_ok e hole rt'"
proof -
  note fr = alloc_payload_frame [OF assms(1)]
  have "as_outs rt' ob = as_outs rt ob" for ob by (rule as_outs_same_memory) (simp_all add: fr)
  then show ?thesis using assms(2) fr by (intro count_ok_cong [OF assms(2)]) (simp_all add: rc_def outs_def)
qed

lemma payload_apart:
  assumes "payload_ok (p # pp) rt" "0 < sp_length p" "j < length (rt_objects rt)"
    and "q \<in> set (ob_payload (rt_objects rt ! j))"
  shows "sp_end p \<le> sp_offset q \<or> sp_end q \<le> sp_offset p"
proof -
  have q: "q \<in> set (pp @ payload_owned rt)" "0 < sp_length q"
    using assms(3,4) by (auto simp: payload_owned_def ob_payload_def split: if_splits)
  have "\<forall>x. cover (p # pp @ payload_owned rt) x \<le> 1"
  proof
    fix x
    have "cover (rt_payload_free_spans rt) x + cover (p # pp @ payload_owned rt) x
        = (if x < rt_payload_extent rt then 1 else 0)"
      using assms(1) unfolding payload_ok_def arena_ok_def append_Cons by blast
    then show "cover (p # pp @ payload_owned rt) x \<le> 1" by (simp split: if_splits)
  qed
  from disjoint_spans [OF this q(1) assms(2) q(2)] show ?thesis .
qed

lemma pending_within:
  assumes "payload_ok (p # pp) rt"
  shows "sp_end p \<le> length (rt_payload_bytes rt)"
proof -
  have "payload_arena.ok rt (p # pp @ payload_owned rt)"
    using assms by (simp add: payload_ok_def)
  from payload_arena.owned_within [OF this, of p] show ?thesis
    using assms by (simp add: payload_ok_def)
qed

lemma store_bytes_frame [simp]:
  "rt_objects (store_bytes off bs rt) = rt_objects rt"
  "rt_cellspace (store_bytes off bs rt) = rt_cellspace rt"
  "rt_payload_bytes (store_bytes off bs rt) = store_at (rt_payload_bytes rt) off bs"
  by (simp_all add: store_bytes_def)

text \<open>Bytes written inside a pending span disturb no object: not its texts, not its references.\<close>

lemma store_bytes_ok:
  assumes st: "store_ok (p # pp) pc rt" and p: "0 < sp_length p"
    and off: "sp_offset p \<le> off" "off + length bs \<le> sp_end p"
  shows "store_ok (p # pp) pc (store_bytes off bs rt)"
    "j < length (rt_objects rt) \<Longrightarrow> q \<in> set (ob_payload (rt_objects rt ! j)) \<Longrightarrow>
     m + n \<le> sp_length q \<Longrightarrow>
     load_at (rt_payload_bytes (store_bytes off bs rt)) (sp_offset q + m) n
       = load_at (rt_payload_bytes rt) (sp_offset q + m) n"
    "j < length (rt_objects rt) \<Longrightarrow> outs (store_bytes off bs rt) j = outs rt j"
    "count_ok e hole rt \<Longrightarrow> count_ok e hole (store_bytes off bs rt)"
proof -
  have ok: "payload_ok (p # pp) rt" "cells_ok pc rt" "table_ok rt" using st by (simp_all add: store_ok_def)
  have len: "off + length bs \<le> length (rt_payload_bytes rt)"
    using pending_within [OF ok(1)] off by simp
  then show "store_ok (p # pp) pc (store_bytes off bs rt)"
    using st by (simp add: store_ok_def payload_ok_def cells_ok_def table_ok_def payload_owned_def
        cells_owned_def store_bytes_def)
  show load: "load_at (rt_payload_bytes (store_bytes off bs rt)) (sp_offset q + m) n
       = load_at (rt_payload_bytes rt) (sp_offset q + m) n"
    if "j < length (rt_objects rt)" "q \<in> set (ob_payload (rt_objects rt ! j))" "m + n \<le> sp_length q"
    for j q m n
    using payload_apart [OF ok(1) p that(1,2)] off that(3)
    by (auto intro!: load_store_disjoint [OF len])
  show outs: "outs (store_bytes off bs rt) j = outs rt j" if j: "j < length (rt_objects rt)" for j
  proof (cases "ob_as (rt_objects rt ! j)")
    case (OBJECT_RECORD q d n)
    then have live: "ob_live (rt_objects rt ! j)" "0 < n" "4 * n \<le> sp_length q"
      using ok(3) j by (auto simp: table_ok_def ob_shape_def frothy_object_reset_def split: if_splits)
    then have q: "q \<in> set (ob_payload (rt_objects rt ! j))" by (simp add: ob_payload_def OBJECT_RECORD)
    have "record_field_at (store_bytes off bs rt) q i = record_field_at rt q i" if "i < n" for i
      using load [OF j q, of "4 * i" 4] that live(3) by (simp add: record_field_at_def load_word_def)
    then show ?thesis by (simp add: outs_def OBJECT_RECORD)
  qed (simp_all add: outs_def frothy_cellspace_value_def)
  show "count_ok e hole (store_bytes off bs rt)" if "count_ok e hole rt"
    by (rule count_ok_cong [OF that]) (simp_all add: rc_def outs)
qed

text \<open>\<open>quiet\<close>: no live object is left with a count of zero.\<close>

definition quiet :: "frothy_runtime \<Rightarrow> bool" where
  "quiet rt \<longleftrightarrow> (\<forall>i < length (rt_objects rt). ob_live (rt_objects rt ! i) \<longrightarrow>
     0 < ob_refcount (rt_objects rt ! i))"

lemma quiet_cong: "rt_objects rt' = rt_objects rt \<Longrightarrow> quiet rt \<Longrightarrow> quiet rt'"
  by (simp add: quiet_def)

lemma append_quiet:
  assumes "frothy_runtime_append_object ob rt = (Inr v, rt')" "quiet rt"
  shows "quiet rt'"
proof -
  obtain i where i: "i \<le> length (rt_objects rt)"
    and objs: "rt_objects rt' = place_object i ob (rt_objects rt)"
    using append_object_Inr [OF assms(1)] by blast
  show ?thesis
    unfolding quiet_def
  proof (intro allI impI)
    fix j assume j: "j < length (rt_objects rt')" "ob_live (rt_objects rt' ! j)"
    show "0 < ob_refcount (rt_objects rt' ! j)"
    proof (cases "j = i")
      case True
      then show ?thesis using place_nth [OF i, of j ob] j(1) by (simp add: objs new_object_def)
    next
      case False
      then have "j < length (rt_objects rt)" using j(1) place_length [OF i, of ob] i by (simp add: objs)
      then show ?thesis
        using place_nth [OF i, of j ob] j assms(2) False by (simp add: objs quiet_def)
    qed
  qed
qed

text \<open>The invariant between operations: a consistent store, counts that are the references of the
  program and of the stored objects, and no live object without a reference.\<close>

definition runtime_ok :: "(nat \<Rightarrow> nat) \<Rightarrow> frothy_runtime \<Rightarrow> bool" where
  "runtime_ok e rt \<longleftrightarrow> store_ok [] [] rt \<and> count_ok e None rt \<and> quiet rt"

lemma runtime_okD:
  "runtime_ok e rt \<Longrightarrow> store_ok [] [] rt" "runtime_ok e rt \<Longrightarrow> count_ok e None rt"
  "runtime_ok e rt \<Longrightarrow> quiet rt"
  by (simp_all add: runtime_ok_def)

subsection \<open>Texts\<close>

definition texts_kept :: "frothy_runtime \<Rightarrow> frothy_runtime \<Rightarrow> bool" where
  "texts_kept rt rt' \<longleftrightarrow>
     (\<forall>w s. frothy_runtime_get_text rt w = Inr s \<longrightarrow> frothy_runtime_get_text rt' w = Inr s)"

lemma texts_kept_trans: "texts_kept a b \<Longrightarrow> texts_kept b c \<Longrightarrow> texts_kept a c"
  by (simp add: texts_kept_def)

lemma get_text_Inr:
  "frothy_runtime_get_text rt w = Inr s \<longleftrightarrow>
   (\<exists>i p n. frothy_runtime_get_live_object_id rt w = Inr i \<and>
      ob_as (rt_objects rt ! i) = OBJECT_TEXT p n \<and>
      s = load_at (rt_payload_bytes rt) (sp_offset p) n)"
proof (cases "frothy_runtime_get_live_object_id rt w")
  case (Inr i)
  then show ?thesis
    by (cases "ob_as (rt_objects rt ! i)")
       (auto simp: frothy_runtime_get_text_def frothy_runtime_get_object_def)
qed (simp add: frothy_runtime_get_text_def frothy_runtime_get_object_def)

lemma texts_keptI:
  assumes "\<And>i. i < length (rt_objects rt) \<Longrightarrow> ob_live (rt_objects rt ! i) \<Longrightarrow>
      is_OBJECT_TEXT (ob_as (rt_objects rt ! i)) \<Longrightarrow> i < length (rt_objects rt') \<and>
      ob_live (rt_objects rt' ! i) \<and> ob_as (rt_objects rt' ! i) = ob_as (rt_objects rt ! i)"
    and "\<And>i p n. i < length (rt_objects rt) \<Longrightarrow> ob_live (rt_objects rt ! i) \<Longrightarrow>
      ob_as (rt_objects rt ! i) = OBJECT_TEXT p n \<Longrightarrow>
      load_at (rt_payload_bytes rt') (sp_offset p) n = load_at (rt_payload_bytes rt) (sp_offset p) n"
  shows "texts_kept rt rt'"
  unfolding texts_kept_def
proof (intro allI impI)
  fix w s assume "frothy_runtime_get_text rt w = Inr s"
  then obtain i p n where i: "frothy_runtime_get_live_object_id rt w = Inr i"
    and ob: "ob_as (rt_objects rt ! i) = OBJECT_TEXT p n"
    and s: "s = load_at (rt_payload_bytes rt) (sp_offset p) n"
    by (auto simp: get_text_Inr)
  then show "frothy_runtime_get_text rt' w = Inr s"
    using assms(1) [of i] assms(2) [of i p n]
    by (auto simp: get_text_Inr get_live_object_id_Inr)
qed

text \<open>A payload that is allocated and written, but not installed, shows in no object.\<close>

lemma alloc_store_ok:
  assumes al: "frothy_runtime_alloc_payload len rt = (Inr p, rt1)"
    and st: "store_ok pp pc rt" and cnt: "count_ok e hole rt"
    and len: "0 < len" "len \<le> SIZE_MAX - 15" and bs: "length bs \<le> len"
  shows "store_ok (p # pp) pc (store_bytes (sp_offset p) bs rt1)"
    "count_ok e hole (store_bytes (sp_offset p) bs rt1)"
    "texts_kept rt (store_bytes (sp_offset p) bs rt1)"
    "rt_objects (store_bytes (sp_offset p) bs rt1) = rt_objects rt"
    "load_at (rt_payload_bytes (store_bytes (sp_offset p) bs rt1)) (sp_offset p) (length bs) = bs"
    "len \<le> sp_length p"
    "j < length (rt_objects rt) \<Longrightarrow> outs (store_bytes (sp_offset p) bs rt1) j = outs rt j"
proof -
  note ok = alloc_payload_ok [OF al st len]
  note fr = alloc_payload_frame [OF al]
  have "sp_offset p + length bs \<le> sp_end p" using ok(2) bs by simp
  note sb = store_bytes_ok [OF ok(1,3) order_refl this]
  show "store_ok (p # pp) pc (store_bytes (sp_offset p) bs rt1)" by (rule sb(1))
  show "count_ok e hole (store_bytes (sp_offset p) bs rt1)"
    by (rule sb(4)) (rule alloc_payload_count [OF al cnt])
  show "rt_objects (store_bytes (sp_offset p) bs rt1) = rt_objects rt" by (simp add: fr)
  show "len \<le> sp_length p" by (rule ok(2))
  show "load_at (rt_payload_bytes (store_bytes (sp_offset p) bs rt1)) (sp_offset p) (length bs) = bs"
    using pending_within [of p pp rt1] ok(1,2) bs
    by (simp add: store_ok_def load_store_same)
  have mem: "as_outs rt1 ob = as_outs rt ob" for ob by (rule as_outs_same_memory) (simp_all add: fr)
  show "j < length (rt_objects rt) \<Longrightarrow> outs (store_bytes (sp_offset p) bs rt1) j = outs rt j"
    using sb(3) [of j] by (simp add: fr) (simp add: outs_def mem fr)
  show "texts_kept rt (store_bytes (sp_offset p) bs rt1)"
  proof (rule texts_keptI)
    fix i q n assume i: "i < length (rt_objects rt)" "ob_live (rt_objects rt ! i)"
      and ob: "ob_as (rt_objects rt ! i) = OBJECT_TEXT q n"
    have "n < sp_length q" using st i ob by (auto simp: store_ok_def table_ok_def ob_shape_def)
    moreover from this have "q \<in> set (ob_payload (rt_objects rt1 ! i))"
      using i ob by (simp add: ob_payload_def fr)
    ultimately show "load_at (rt_payload_bytes (store_bytes (sp_offset p) bs rt1)) (sp_offset q) n
        = load_at (rt_payload_bytes rt) (sp_offset q) n"
      using sb(2) [of i q 0 n] i by (simp add: fr)
  qed (simp_all add: fr)
qed

text \<open>Rolling a payload allocation back restores both arenas exactly.\<close>

lemma payload_rollback:
  assumes al: "frothy_runtime_alloc_payload len rt = (Inr p, rt1)" and st: "store_ok pp pc rt"
    and len: "0 < len" "len \<le> SIZE_MAX - 15" and same: "same_arenas rt1 rt2"
  shows "same_arenas rt (frothy_runtime_release_payload p rt2)"
proof -
  have p: "p = mk_span (sp_offset p) (payload_units len)"
    using alloc_payload_length [OF al len(2)] by (cases p) (simp add: mk_span_def)
  have use: "payload_usable len rt" using len by (simp add: payload_usable_def)
  have "payload_arena.ok rt (pp @ payload_owned rt)" using st by (simp add: store_ok_def payload_ok_def)
  from payload_arena.rollback [OF this use alloc_payload_offset [OF al]]
  have "rt_payload_free_spans (frothy_runtime_release_payload p rt1) = rt_payload_free_spans rt"
    "rt_payload_extent (frothy_runtime_release_payload p rt1) = rt_payload_extent rt"
    using p by simp_all
  moreover have "rt_payload_free_spans (frothy_runtime_release_payload p rt2)
      = rt_payload_free_spans (frothy_runtime_release_payload p rt1)"
    "rt_payload_extent (frothy_runtime_release_payload p rt2)
      = rt_payload_extent (frothy_runtime_release_payload p rt1)"
    using same by (simp_all add: same_arenas_def frothy_runtime_release_payload_def
        frothy_runtime_add_payload_free_span_def split: prod.splits)
  ultimately show ?thesis
    using same alloc_payload_frame [OF al] alloc_payload_used [OF al]
    by (simp add: same_arenas_def frame_simps release_payload_used)
qed

lemma payload_rollback_store:
  assumes "store_ok (p # pp) pc rt"
  shows "store_ok pp pc (frothy_runtime_release_payload p rt)"
proof -
  have ok: "payload_ok (p # pp) rt" "cells_ok pc rt" "table_ok rt"
    using assms by (simp_all add: store_ok_def)
  have "payload_arena.ok rt (p # pp @ payload_owned rt)" using ok(1) by (simp add: payload_ok_def)
  from payload_arena.release_ok(1) [OF this] show ?thesis
    using ok by (simp add: store_ok_def payload_ok_def cells_ok_def table_ok_def payload_owned_def
        cells_owned_def frame_simps release_payload_used)
qed

text \<open>The flag that makes the next append fail is not part of any invariant.\<close>

lemma fail_flag_ok [simp]:
  "store_ok pp pc (rt\<lparr>rt_test_fail_next_append := b\<rparr>) = store_ok pp pc rt"
  "count_ok e hole (rt\<lparr>rt_test_fail_next_append := b\<rparr>) = count_ok e hole rt"
  "frothy_runtime_get_text (rt\<lparr>rt_test_fail_next_append := b\<rparr>) w = frothy_runtime_get_text rt w"
proof -
  let ?rt = "rt\<lparr>rt_test_fail_next_append := b\<rparr>"
  show "store_ok pp pc ?rt = store_ok pp pc rt"
    by (simp add: store_ok_def payload_ok_def cells_ok_def table_ok_def payload_owned_def cells_owned_def)
  have "as_outs ?rt ob = as_outs rt ob" for ob by (rule as_outs_same_memory) simp_all
  then have outs: "outs_h hole ?rt = outs_h hole rt"
    by (simp add: fun_eq_iff outs_h_def outs_def split: option.splits)
  show "count_ok e hole ?rt = count_ok e hole rt"
    unfolding count_ok_def refs_to_def rc_def outs by simp
  show "frothy_runtime_get_text ?rt w = frothy_runtime_get_text rt w"
    by (simp add: frothy_runtime_get_text_def frothy_runtime_get_object_def
        frothy_runtime_get_live_object_id_def Let_def)
qed

lemma count_ok_release_payload:
  "count_ok e hole rt \<Longrightarrow> count_ok e hole (frothy_runtime_release_payload p rt)"
  by (rule count_ok_cong) (simp_all add: frame_simps rc_def outs_def
      as_outs_same_memory [of "frothy_runtime_release_payload p rt" rt])

lemma texts_kept_release_payload [simp]: "texts_kept rt (frothy_runtime_release_payload p rt)"
  by (rule texts_keptI) (simp_all add: frame_simps)

lemma append_texts_kept:
  assumes "frothy_runtime_append_object ob rt = (Inr v, rt')" "table_ok rt"
  shows "texts_kept rt rt'"
proof -
  obtain i where i: "i \<le> length (rt_objects rt)"
    "i < length (rt_objects rt) \<Longrightarrow> \<not> ob_live (rt_objects rt ! i)"
    and objs: "rt_objects rt' = place_object i ob (rt_objects rt)"
    and bytes: "rt_payload_bytes rt' = rt_payload_bytes rt"
    using append_object_Inr [OF assms(1)] by blast
  show ?thesis
  proof (rule texts_keptI)
    fix j assume j: "j < length (rt_objects rt)" "ob_live (rt_objects rt ! j)"
    then have "j \<noteq> i" using i(2) by blast
    with j show "j < length (rt_objects rt') \<and> ob_live (rt_objects rt' ! j) \<and>
        ob_as (rt_objects rt' ! j) = ob_as (rt_objects rt ! j)"
      using place_nth [OF i(1), of j ob] place_length [OF i(1), of ob] by (simp add: objs)
  qed (simp add: bytes)
qed

definition objects_kept :: "frothy_runtime \<Rightarrow> frothy_runtime \<Rightarrow> bool" where
  "objects_kept rt rt' \<longleftrightarrow> (\<forall>j < length (rt_objects rt). ob_live (rt_objects rt ! j) \<longrightarrow>
     j < length (rt_objects rt') \<and> ob_live (rt_objects rt' ! j) \<and>
     ob_as (rt_objects rt' ! j) = ob_as (rt_objects rt ! j) \<and> outs rt' j = outs rt j)"

lemma append_objects_kept:
  assumes ap: "frothy_runtime_append_object ob rt = (Inr v, rt')" and "table_ok rt"
    and "count_ok (\<lambda>x. e x + refs_in (as_outs rt ob) x) None rt"
  shows "objects_kept rt rt'"
proof -
  obtain i where i: "\<forall>j < length (rt_objects rt). j \<noteq> i \<longrightarrow> rt_objects rt' ! j = rt_objects rt ! j"
    "\<forall>j < length (rt_objects rt). ob_live (rt_objects rt ! j) \<longrightarrow> j \<noteq> i"
    "length (rt_objects rt) \<le> length (rt_objects rt')"
    using append_count_ok(2) [OF assms] by blast
  have mem: "as_outs rt' ob' = as_outs rt ob'" for ob'
    by (rule as_outs_same_memory)
       (use append_object_Inr [OF ap] in \<open>auto simp: same_arenas_def\<close>)
  show ?thesis
    unfolding objects_kept_def
  proof (intro allI impI)
    fix j assume j: "j < length (rt_objects rt)" "ob_live (rt_objects rt ! j)"
    then have "rt_objects rt' ! j = rt_objects rt ! j" using i by blast
    with j i(3) show "j < length (rt_objects rt') \<and> ob_live (rt_objects rt' ! j) \<and>
        ob_as (rt_objects rt' ! j) = ob_as (rt_objects rt ! j) \<and> outs rt' j = outs rt j"
      by (simp add: outs_def mem)
  qed
qed

lemma alloc_text_split:
  assumes "length t < 2 ^ 32"
  shows "frothy_runtime_alloc_text t rt =
     (case frothy_runtime_alloc_payload (length t + 1) rt of
        (Inl e, rt) \<Rightarrow> (Inl e, rt)
      | (Inr payload, rt) \<Rightarrow>
          (case frothy_runtime_append_object (OBJECT_TEXT payload (length t))
                  (store_bytes (sp_offset payload) (t @ [0]) rt) of
             (Inl e, rt) \<Rightarrow> (Inl e, frothy_runtime_release_payload payload rt)
           | (Inr v, rt) \<Rightarrow> (Inr v, rt)))"
  using assms by (simp add: frothy_runtime_alloc_text_def SIZE_MAX_def)

lemma alloc_text_ok:
  assumes st: "store_ok pp pc rt" and cnt: "count_ok e None rt" and len: "length t < 2 ^ 32"
    and run: "frothy_runtime_alloc_text t rt = (Inr v, rt')"
  shows "frothy_runtime_get_text rt' v = Inr t" "store_ok pp pc rt'"
    "count_ok (\<lambda>x. e x + refs v x) None rt'" "texts_kept rt rt'" "quiet rt \<Longrightarrow> quiet rt'"
    "objects_kept rt rt'"
proof -
  obtain p rt1 where al: "frothy_runtime_alloc_payload (length t + 1) rt = (Inr p, rt1)"
    and ap: "frothy_runtime_append_object (OBJECT_TEXT p (length t))
        (store_bytes (sp_offset p) (t @ [0]) rt1) = (Inr v, rt')"
    using run unfolding alloc_text_split [OF len] by (auto split: prod.splits sum.splits)
  let ?rt2 = "store_bytes (sp_offset p) (t @ [0]) rt1"
  have l: "0 < length t + 1" "length t + 1 \<le> SIZE_MAX - 15" "length (t @ [0]) \<le> length t + 1"
    using len by (simp_all add: SIZE_MAX_def)
  note s = alloc_store_ok [OF al st cnt l]
  have tab: "table_ok ?rt2" using s(1) by (simp add: store_ok_def)
  have new: "ob_payload (new_object (OBJECT_TEXT p (length t))) = [p]"
    "ob_cells (new_object (OBJECT_TEXT p (length t))) = []"
    "ob_shape (new_object (OBJECT_TEXT p (length t)))"
    using s(6) by (simp_all add: ob_payload_def ob_cells_def ob_shape_def new_object_def)
  show "store_ok pp pc rt'" by (rule append_store_ok [OF ap s(1) new(3)]) (simp_all add: new)
  have "count_ok (\<lambda>x. e x + refs_in (as_outs ?rt2 (OBJECT_TEXT p (length t))) x) None ?rt2"
    using s(2) by simp
  note a = append_count_ok [OF ap tab this]
  show "count_ok (\<lambda>x. e x + refs v x) None rt'" by (rule a(1))
  have bytes: "rt_payload_bytes rt' = rt_payload_bytes ?rt2"
    using append_object_Inr [OF ap] by blast
  have "load_at (rt_payload_bytes ?rt2) (sp_offset p) (length t)
      = take (length t) (load_at (rt_payload_bytes ?rt2) (sp_offset p) (length (t @ [0])))"
    by (simp add: load_at_def)
  also have "\<dots> = t" unfolding s(5) by simp
  finally have "load_at (rt_payload_bytes ?rt2) (sp_offset p) (length t) = t" .
  moreover obtain i where "v = frothy_object_value i" "i < length (rt_objects rt')"
    "ob_live (rt_objects rt' ! i)" "ob_as (rt_objects rt' ! i) = OBJECT_TEXT p (length t)" "i < 2 ^ 30"
    using a(2) by blast
  ultimately show "frothy_runtime_get_text rt' v = Inr t"
    using bytes by (auto simp: get_text_Inr get_live_object_id_Inr)
  show "texts_kept rt rt'" by (rule texts_kept_trans [OF s(3) append_texts_kept [OF ap tab]])
  show "quiet rt \<Longrightarrow> quiet rt'" by (rule append_quiet [OF ap]) (rule quiet_cong [OF s(4)])
  have "count_ok (\<lambda>x. e x + refs_in (as_outs ?rt2 (OBJECT_TEXT p (length t))) x) None ?rt2"
    using s(2) by simp
  from append_objects_kept [OF ap tab this] show "objects_kept rt rt'"
    using s(4,7) by (simp add: objects_kept_def)
qed

lemma alloc_text_error:
  assumes st: "store_ok pp pc rt" and cnt: "count_ok e None rt" and len: "length t < 2 ^ 32"
    and run: "frothy_runtime_alloc_text t rt = (Inl err, rt')"
  shows "err = FROTH_ERROR_HEAP_OUT_OF_MEMORY" "same_arenas rt rt'" "rt_objects rt' = rt_objects rt"
    "store_ok pp pc rt'" "count_ok e None rt'" "texts_kept rt rt'"
proof -
  have "err = FROTH_ERROR_HEAP_OUT_OF_MEMORY \<and> same_arenas rt rt' \<and> rt_objects rt' = rt_objects rt \<and>
    store_ok pp pc rt' \<and> count_ok e None rt' \<and> texts_kept rt rt'"
  proof (cases "\<exists>p rt1. frothy_runtime_alloc_payload (length t + 1) rt = (Inr p, rt1)")
    case False
    then have "frothy_runtime_alloc_payload (length t + 1) rt = (Inl err, rt')"
      using run unfolding alloc_text_split [OF len] by (auto split: prod.splits sum.splits)
    from alloc_payload_error [OF this] show ?thesis
      using st cnt by (simp add: same_arenas_def texts_kept_def)
  next
    case True
    then obtain p rt1 where al: "frothy_runtime_alloc_payload (length t + 1) rt = (Inr p, rt1)" by blast
    let ?rt2 = "store_bytes (sp_offset p) (t @ [0]) rt1"
    obtain rt3 where ap: "frothy_runtime_append_object (OBJECT_TEXT p (length t)) ?rt2 = (Inl err, rt3)"
      and rt': "rt' = frothy_runtime_release_payload p rt3"
      using run al unfolding alloc_text_split [OF len] by (auto split: prod.splits sum.splits)
    have l: "0 < length t + 1" "length t + 1 \<le> SIZE_MAX - 15" "length (t @ [0]) \<le> length t + 1"
      using len by (simp_all add: SIZE_MAX_def)
    note s = alloc_store_ok [OF al st cnt l]
    have rt3: "rt3 = ?rt2 \<or> rt3 = ?rt2\<lparr>rt_test_fail_next_append := False\<rparr>"
      and err: "err = FROTH_ERROR_HEAP_OUT_OF_MEMORY"
      using append_object_Inl [OF ap] by simp_all
    have st3: "store_ok (p # pp) pc rt3" and cnt3: "count_ok e None rt3" and objs: "rt_objects rt3 = rt_objects rt"
      and kept: "texts_kept rt rt3" and same: "same_arenas rt1 rt3"
      using rt3 s by (auto simp: texts_kept_def same_arenas_def store_bytes_def)
    show ?thesis
      using err payload_rollback [OF al st l(1,2) same] payload_rollback_store [OF st3]
        count_ok_release_payload [OF cnt3] texts_kept_trans [OF kept texts_kept_release_payload] objs
      by (simp add: rt' frame_simps)
  qed
  then show "err = FROTH_ERROR_HEAP_OUT_OF_MEMORY" "same_arenas rt rt'" "rt_objects rt' = rt_objects rt"
    "store_ok pp pc rt'" "count_ok e None rt'" "texts_kept rt rt'" by simp_all
qed

subsection \<open>The initial runtime\<close>

lemma runtime_sized_ok:
  assumes "cellspace_wf cs" "cs_used cs = 0" "cs_base_mark cs = 0" "n < 2 ^ 30"
  shows "runtime_ok (\<lambda>x. 0) (runtime_sized n p ev cs)"
  using assms by (simp add: runtime_ok_def quiet_def store_ok_def payload_ok_def cells_ok_def table_ok_def
      payload_owned_def cells_owned_def runtime_sized_def count_ok_def refs_to_def rc_def)

definition sample_runtime :: frothy_runtime where
  "sample_runtime = runtime_sized 4 64 8
     (froth_cellspace_init \<lparr>cs_data = [], cs_base_seed = [], cs_used = 0, cs_high_water = 0,
        cs_capacity = 8, cs_base_mark = 0\<rparr>)"

lemma sample_runtime_ok: "runtime_ok (\<lambda>x. 0) sample_runtime"
  unfolding sample_runtime_def
  by (rule runtime_sized_ok)
     (simp_all add: froth_cellspace_init_def cellspace_wf_def INT32_MAX_def)

definition sample_with_text :: frothy_runtime where
  "sample_with_text = snd (frothy_runtime_alloc_text [104, 105] sample_runtime)"

lemma sample_text_run:
  "frothy_runtime_alloc_text [104, 105] sample_runtime = (Inr (frothy_object_value 0), sample_with_text)"
  unfolding sample_with_text_def
  by (simp add: frothy_runtime_alloc_text_def SIZE_MAX_def frothy_runtime_alloc_payload_def
      frothy_payload_align_up_def ALIGNOF_MAX_ALIGN_def frothy_runtime_take_payload_free_span_def
      sample_runtime_def runtime_sized_def note_payload_used_def frothy_runtime_append_object_def
      store_bytes_def frothy_runtime_install_object_def Let_def)

text \<open>C19. Creating a text of fewer than 2^32 bytes in a consistent store: the new value reads back
as exactly the given bytes (zero bytes included), the store stays consistent, the caller owns one
new reference, every text that could be read before still reads the same, and every other object
that was alive keeps its kind, its place in the arenas and the values stored in it (an array's
cells, a record's fields and definition).\<close>

theorem text_roundtrip:
  assumes "runtime_ok e rt" and "length t < 2 ^ 32"
    and "frothy_runtime_alloc_text t rt = (Inr v, rt')"
  shows "frothy_runtime_get_text rt' v = Inr t \<and> runtime_ok (\<lambda>x. e x + refs v x) rt' \<and>
    (\<forall>w s. frothy_runtime_get_text rt w = Inr s \<longrightarrow> frothy_runtime_get_text rt' w = Inr s) \<and>
    objects_kept rt rt'"
  using alloc_text_ok [OF runtime_okD(1,2) [OF assms(1)] assms(2,3)] runtime_okD(3) [OF assms(1)]
  unfolding texts_kept_def runtime_ok_def by blast

theorem text_roundtrip_witness:
  "frothy_runtime_get_text sample_with_text (frothy_object_value 0) = Inr [104, 105] \<and>
   objects_kept sample_runtime sample_with_text"
proof -
  have "length [104 :: byte, 105] < 2 ^ 32" by simp
  from text_roundtrip [OF sample_runtime_ok this sample_text_run] show ?thesis by blast
qed

text \<open>C20. A text that cannot be created leaves no trace: the error is out-of-memory, the object
table and both arenas (free spans, extents, bytes in use) are exactly as before, every text still
reads the same, and the store stays consistent.\<close>

theorem text_alloc_failure:
  assumes "runtime_ok e rt" and "length t < 2 ^ 32"
    and "frothy_runtime_alloc_text t rt = (Inl err, rt')"
  shows "err = FROTH_ERROR_HEAP_OUT_OF_MEMORY \<and> same_arenas rt rt' \<and>
    rt_objects rt' = rt_objects rt \<and> runtime_ok e rt' \<and>
    (\<forall>w s. frothy_runtime_get_text rt w = Inr s \<longrightarrow> frothy_runtime_get_text rt' w = Inr s)"
  using alloc_text_error [OF runtime_okD(1,2) [OF assms(1)] assms(2,3)]
    quiet_cong runtime_okD(3) [OF assms(1)]
  unfolding texts_kept_def runtime_ok_def by blast

definition sample_failing :: frothy_runtime where
  "sample_failing = frothy_runtime_test_fail_next_append sample_runtime"

lemma sample_failing_ok: "runtime_ok (\<lambda>x. 0) sample_failing"
  using sample_runtime_ok
  by (simp add: sample_failing_def frothy_runtime_test_fail_next_append_def runtime_ok_def quiet_def)

theorem text_alloc_failure_witness:
  "fst (frothy_runtime_alloc_text [104] sample_failing) = Inl FROTH_ERROR_HEAP_OUT_OF_MEMORY \<and>
   rt_payload_extent (snd (frothy_runtime_alloc_text [104] sample_failing)) = 0"
proof -
  have run: "frothy_runtime_alloc_text [104] sample_failing
      = (Inl FROTH_ERROR_HEAP_OUT_OF_MEMORY, snd (frothy_runtime_alloc_text [104] sample_failing))"
    by (simp add: frothy_runtime_alloc_text_def SIZE_MAX_def frothy_runtime_alloc_payload_def
        frothy_payload_align_up_def ALIGNOF_MAX_ALIGN_def sample_failing_def
        frothy_runtime_take_payload_free_span_def sample_runtime_def runtime_sized_def
        note_payload_used_def frothy_runtime_append_object_def store_bytes_def Let_def
        frothy_runtime_test_fail_next_append_def)
  have "length [104 :: byte] < 2 ^ 32" by simp
  from text_alloc_failure [OF sample_failing_ok this run]
  have "same_arenas sample_failing (snd (frothy_runtime_alloc_text [104] sample_failing))" by blast
  then have "rt_payload_extent (snd (frothy_runtime_alloc_text [104] sample_failing))
      = rt_payload_extent sample_failing" by (simp only: same_arenas_def)
  moreover have "rt_payload_extent sample_failing = 0"
    by (simp add: sample_failing_def sample_runtime_def runtime_sized_def
        frothy_runtime_test_fail_next_append_def)
  ultimately show ?thesis using arg_cong [OF run, of fst] by simp
qed

subsection \<open>Releases\<close>

lemma frees_live_kept:
  assumes "frees {} rt rt'" "i < length (rt_objects rt)" "ob_live (rt_objects rt' ! i)"
  shows "ob_as (rt_objects rt' ! i) = ob_as (rt_objects rt ! i)" "outs rt' i = outs rt i"
    "ob_live (rt_objects rt ! i)"
  using assms by (auto simp: frees_def kept_def cleared_def frothy_object_reset_def)

lemma frees_quiet:
  assumes "quiet rt" "frees {} rt rt'"
  shows "quiet rt'"
  unfolding quiet_def
proof (intro allI impI)
  fix i assume i: "i < length (rt_objects rt')" "ob_live (rt_objects rt' ! i)"
  then have "i < length (rt_objects rt)" using frees_length [OF assms(2)] by simp
  then have "kept {} rt rt' i \<or> cleared rt rt' i" using assms(2) by (simp add: frees_def)
  then show "0 < ob_refcount (rt_objects rt' ! i)"
    using assms(1) i \<open>i < length (rt_objects rt)\<close>
    by (auto simp: kept_def cleared_def quiet_def frothy_object_reset_def)
qed

text \<open>C11. A program that owns a reference can give it back, and nothing it still refers to is lost:
in a consistent runtime whose counts are the references of the program (\<open>e\<close>, plus the one given
back) and of the stored objects, the release succeeds, the runtime stays consistent, and every
object that is still referenced, by the program or by another object, keeps its kind and its
stored values.\<close>

theorem release_sound:
  assumes "runtime_ok (\<lambda>x. e x + refs v x) rt"
  shows "\<exists>rt'. frothy_value_release v rt = (Inr (), rt') \<and> runtime_ok e rt' \<and>
    (\<forall>i. 0 < e i + refs_to None rt' i \<longrightarrow>
       i < length (rt_objects rt') \<and> ob_live (rt_objects rt' ! i) \<and>
       ob_as (rt_objects rt' ! i) = ob_as (rt_objects rt ! i) \<and> outs rt' i = outs rt i)"
proof -
  obtain rt' where rt': "frothy_value_release v rt = (Inr (), rt')" "store_ok [] [] rt'"
    "count_ok e None rt'" "frees {} rt rt'"
    using value_release_ok [OF runtime_okD(1,2) [OF assms]] by (auto simp: hole_safe_def)
  have "quiet rt'" by (rule frees_quiet [OF runtime_okD(3) [OF assms] rt'(4)])
  moreover have "i < length (rt_objects rt') \<and> ob_live (rt_objects rt' ! i) \<and>
       ob_as (rt_objects rt' ! i) = ob_as (rt_objects rt ! i) \<and> outs rt' i = outs rt i"
    if i: "0 < e i + refs_to None rt' i" for i
  proof -
    have "0 < rc rt' i" using rt'(3) i by (simp add: count_ok_def)
    then have len: "i < length (rt_objects rt')" by (simp add: rc_def split: if_splits)
    have "ob_live (rt_objects rt' ! i)"
    proof (rule ccontr)
      assume "\<not> ob_live (rt_objects rt' ! i)"
      then have "rt_objects rt' ! i = frothy_object_reset"
        using rt'(2) len by (auto simp: store_ok_def table_ok_def ob_shape_def)
      with \<open>0 < rc rt' i\<close> show False by (simp add: rc_def frothy_object_reset_def split: if_splits)
    qed
    with len show ?thesis using frees_live_kept [OF rt'(4), of i] frees_length [OF rt'(4)] by simp
  qed
  ultimately show ?thesis using rt' unfolding runtime_ok_def by blast
qed

lemma sample_with_text_ok:
  "runtime_ok (\<lambda>x. 0 + refs (frothy_object_value 0) x) sample_with_text"
  using alloc_text_ok [OF runtime_okD(1,2) [OF sample_runtime_ok] _ sample_text_run]
    runtime_okD(3) [OF sample_runtime_ok] by (simp add: runtime_ok_def)

theorem release_sound_witness:
  "\<exists>rt'. frothy_value_release (frothy_object_value 0) sample_with_text = (Inr (), rt') \<and>
     runtime_ok (\<lambda>x. 0) rt'"
  using release_sound [OF sample_with_text_ok] by blast

text \<open>C22. Retaining a value and releasing it again is the identity on the runtime.\<close>

theorem retain_release_identity:
  assumes "frothy_value_retain v rt = (Inr (), rt1)"
    and "0 < rc rt (frothy_value_object_index v) \<or> \<not> frothy_value_is_object_ref v"
  shows "frothy_value_release v rt1 = (Inr (), rt)"
proof (cases "frothy_value_is_object_ref v")
  case False
  then show ?thesis using assms(1) by (simp add: frothy_value_retain_def frothy_value_release_def)
next
  case True
  then obtain i where i: "frothy_runtime_get_live_object_id rt v = Inr i"
    and rt1: "rt1 = set_refcount i (ob_refcount (rt_objects rt ! i) + 1) rt"
    using assms(1) by (auto simp: frothy_value_retain_def Let_def split: sum.splits if_splits)
  have il: "i < length (rt_objects rt)" "ob_live (rt_objects rt ! i)" "i = frothy_value_object_index v"
    using i by (auto simp: get_live_object_id_Inr)
  then have pos: "0 < ob_refcount (rt_objects rt ! i)" using assms(2) True by (simp add: rc_def)
  have "frothy_runtime_get_live_object_id rt1 v = Inr i"
    using il True by (simp add: rt1 get_live_object_id_Inr)
  moreover have "set_refcount i (ob_refcount (rt_objects rt ! i)) rt1 = rt"
    using il(1) by (simp add: rt1 set_refcount_def set_object_def)
  moreover have "ob_refcount (rt_objects rt1 ! i) = Suc (ob_refcount (rt_objects rt ! i))"
    using il(1) by (simp add: rt1)
  ultimately show ?thesis
    using pos True by (simp add: frothy_value_release_def)
qed

theorem retain_release_identity_witness:
  "frothy_value_release (frothy_object_value 0)
     (snd (frothy_value_retain (frothy_object_value 0) sample_with_text)) = (Inr (), sample_with_text)"
proof -
  have live: "0 < rc sample_with_text 0"
    using sample_with_text_ok by (simp add: runtime_ok_def count_ok_def refs_def)
  have id: "frothy_runtime_get_live_object_id sample_with_text (frothy_object_value 0) = Inr 0"
    using count_ok_live [OF _ runtime_okD(2) [OF sample_with_text_ok], of 0]
      runtime_okD(1) [OF sample_with_text_ok]
    by (simp add: get_live_object_id_Inr refs_def store_ok_def)
  have one: "rc sample_with_text 0 = 1"
    by (simp add: rc_def sample_with_text_def sample_runtime_def runtime_sized_def
      frothy_runtime_alloc_text_def SIZE_MAX_def frothy_runtime_alloc_payload_def
      frothy_payload_align_up_def ALIGNOF_MAX_ALIGN_def frothy_runtime_take_payload_free_span_def
      note_payload_used_def frothy_runtime_append_object_def set_object_def
      store_bytes_def frothy_runtime_install_object_def Let_def)
  have "ob_refcount (rt_objects sample_with_text ! 0) = 1"
    using one by (simp add: rc_def split: if_splits)
  then have "frothy_value_retain (frothy_object_value 0) sample_with_text
      = (Inr (), snd (frothy_value_retain (frothy_object_value 0) sample_with_text))"
    using id by (simp add: frothy_value_retain_def Let_def UINT32_MAX_def)
  from retain_release_identity [OF this] live show ?thesis by simp
qed

subsection \<open>No leaks\<close>

lemma refs_to_pos:
  assumes "0 < refs_to None rt x"
  shows "\<exists>j < length (rt_objects rt). 0 < rc rt j \<and> 0 < refs_in (outs rt j) x"
proof (rule ccontr)
  assume "\<not> ?thesis"
  then have "refs_to None rt x = 0" unfolding refs_to_def outs_h_def by auto
  with assms show False by simp
qed

lemma finite_ranking_max:
  assumes "A \<noteq> {}" "finite A"
  shows "\<exists>m \<in> A. \<forall>j \<in> A. \<not> (f m :: nat) < f j"
proof -
  have "Max (f ` A) \<in> f ` A" using assms by (intro Max_in) simp_all
  then obtain m where m: "m \<in> A" "f m = Max (f ` A)" by auto
  have "f j \<le> f m" if "j \<in> A" for j using that assms(2) m(2) by (simp add: Max_ge)
  with m(1) show ?thesis by (auto simp: not_less)
qed

definition acyclic_store :: "frothy_runtime \<Rightarrow> bool" where
  "acyclic_store rt \<longleftrightarrow> (\<exists>rank :: nat \<Rightarrow> nat. \<forall>j < length (rt_objects rt). ob_live (rt_objects rt ! j) \<longrightarrow>
     (\<forall>x. 0 < refs_in (outs rt j) x \<longrightarrow> rank x < rank j))"

text \<open>Without references from outside and without cycles, nothing is live.\<close>

lemma unreferenced_empty:
  assumes st: "store_ok [] [] rt" and cnt: "count_ok (\<lambda>x. 0) None rt" and q: "quiet rt"
    and ac: "acyclic_store rt"
  shows "\<forall>i < length (rt_objects rt). \<not> ob_live (rt_objects rt ! i)"
proof (rule ccontr)
  assume "\<not> ?thesis"
  then obtain i where i: "i < length (rt_objects rt)" "ob_live (rt_objects rt ! i)" by blast
  obtain rank :: "nat \<Rightarrow> nat" where rank: "\<And>j x. j < length (rt_objects rt) \<Longrightarrow>
      ob_live (rt_objects rt ! j) \<Longrightarrow> 0 < refs_in (outs rt j) x \<Longrightarrow> rank x < rank j"
    using ac unfolding acyclic_store_def by blast
  have live: "ob_live (rt_objects rt ! j)" if "j < length (rt_objects rt)" "0 < rc rt j" for j
  proof (rule ccontr)
    assume "\<not> ob_live (rt_objects rt ! j)"
    then have "rt_objects rt ! j = frothy_object_reset"
      using st that(1) by (auto simp: store_ok_def table_ok_def ob_shape_def)
    with that show False by (simp add: rc_def frothy_object_reset_def)
  qed
  let ?A = "{j. j < length (rt_objects rt) \<and> 0 < rc rt j}"
  have up: "\<exists>j \<in> ?A. rank i' < rank j" if "i' \<in> ?A" for i'
  proof -
    have "0 < refs_to None rt i'" using cnt that by (simp add: count_ok_def)
    from refs_to_pos [OF this] obtain j where
      j: "j < length (rt_objects rt)" "0 < rc rt j" "0 < refs_in (outs rt j) i'" by blast
    from rank [OF j(1) live [OF j(1,2)] j(3)] j(1,2) show ?thesis by blast
  qed
  have "0 < rc rt i" using q i by (simp add: quiet_def rc_def)
  then have "?A \<noteq> {}" "finite ?A" using i(1) by auto
  then obtain m where "m \<in> ?A" "\<forall>j \<in> ?A. \<not> rank m < rank j"
    using finite_ranking_max [of ?A rank] by blast
  with up [of m] show False by blast
qed

definition store_empty :: "frothy_runtime \<Rightarrow> bool" where
  "store_empty rt \<longleftrightarrow> rt_live_object_count rt = 0 \<and> rt_payload_free_spans rt = [] \<and>
     rt_payload_extent rt = 0 \<and> rt_payload_bytes_used rt = 0 \<and> rt_free_spans rt = [] \<and>
     cs_used (rt_cellspace rt) = 0"

lemma no_live_store_empty:
  assumes "store_ok [] [] rt" "\<forall>i < length (rt_objects rt). \<not> ob_live (rt_objects rt ! i)"
  shows "store_empty rt"
proof -
  have dead: "\<forall>ob \<in> set (rt_objects rt). \<not> ob_live ob" using assms(2) by (auto simp: in_set_conv_nth)
  then have "payload_owned rt = []" "cells_owned rt = []"
    by (auto simp: payload_owned_def cells_owned_def ob_payload_def ob_cells_def)
  moreover have "filter ob_live (rt_objects rt) = []" using dead by (simp add: filter_empty_conv)
  ultimately show ?thesis
    using assms(1) payload_arena.all_released [of rt] cell_arena.all_released [of rt]
    by (simp add: store_empty_def store_ok_def payload_ok_def cells_ok_def table_ok_def)
qed

lemma acyclic_frees:
  assumes "acyclic_store rt" "frees {} rt rt'"
  shows "acyclic_store rt'"
  using assms(1) frees_live_kept [OF assms(2)] frees_length [OF assms(2)]
  unfolding acyclic_store_def by metis

text \<open>C12. Nothing leaks: when the program gives back its only reference and the stored references
form no cycle, the release leaves no live object, no byte and no cell in use, and both arenas in
their initial state with no free span.\<close>

theorem last_release_empties_store:
  assumes "runtime_ok (\<lambda>x. 0 + refs v x) rt" and "acyclic_store rt"
  shows "\<exists>rt'. frothy_value_release v rt = (Inr (), rt') \<and> store_empty rt'"
proof -
  obtain rt' where rt': "frothy_value_release v rt = (Inr (), rt')" "store_ok [] [] rt'"
    "count_ok (\<lambda>x. 0) None rt'" "frees {} rt rt'"
    using value_release_ok [OF runtime_okD(1,2) [OF assms(1)]] by (auto simp: hole_safe_def)
  from unreferenced_empty [OF rt'(2,3) frees_quiet [OF runtime_okD(3) [OF assms(1)] rt'(4)]
      acyclic_frees [OF assms(2) rt'(4)]]
  show ?thesis using rt' no_live_store_empty by blast
qed

lemma sample_objects:
  "rt_objects sample_with_text = [new_object (OBJECT_TEXT (mk_span 0 16) 2)]"
  by (simp add: sample_with_text_def sample_runtime_def runtime_sized_def
      frothy_runtime_alloc_text_def SIZE_MAX_def frothy_runtime_alloc_payload_def
      frothy_payload_align_up_def ALIGNOF_MAX_ALIGN_def frothy_runtime_take_payload_free_span_def
      note_payload_used_def frothy_runtime_append_object_def set_object_def new_object_def
      store_bytes_def frothy_runtime_install_object_def Let_def)

theorem last_release_empties_store_witness:
  "\<exists>rt'. frothy_value_release (frothy_object_value 0) sample_with_text = (Inr (), rt') \<and>
     store_empty rt'"
proof -
  have "acyclic_store sample_with_text"
    by (simp add: acyclic_store_def sample_objects new_object_def outs_def)
  from last_release_empties_store [OF sample_with_text_ok this] show ?thesis .
qed

subsection \<open>Cells\<close>

text \<open>Cells written inside a pending span disturb no object.\<close>

lemma pending_cells:
  assumes "cells_ok (p # pc) rt"
  shows "sp_end p \<le> length (cs_data (rt_cellspace rt))" "0 < sp_length p"
    "j < length (rt_objects rt) \<Longrightarrow> ob_live (rt_objects rt ! j) \<Longrightarrow>
     ob_as (rt_objects rt ! j) = OBJECT_CELLS s \<Longrightarrow> covers p a \<Longrightarrow> \<not> covers s a"
proof -
  have ok: "cell_arena.ok rt (p # pc @ cells_owned rt)" using assms by (simp add: cells_ok_def)
  from cell_arena.owned_within [OF this, of p] show "sp_end p \<le> length (cs_data (rt_cellspace rt))"
    using assms by (simp add: cells_ok_def cellspace_wf_def)
  show p: "0 < sp_length p" using ok by (simp add: arena_ok_def)
  show "\<not> covers s a" if j: "j < length (rt_objects rt)" "ob_live (rt_objects rt ! j)"
    "ob_as (rt_objects rt ! j) = OBJECT_CELLS s" and a: "covers p a"
  proof
    assume "covers s a"
    have "s \<in> set (pc @ cells_owned rt)"
      using j by (auto simp: cells_owned_def ob_cells_def intro!: bexI [of _ "rt_objects rt ! j"])
    then have "1 \<le> cover (pc @ cells_owned rt) a" using \<open>covers s a\<close> by (rule cover_ge_1)
    moreover have "cover (rt_free_spans rt) a + cover (p # pc @ cells_owned rt) a
        = (if a < cs_used (rt_cellspace rt) then 1 else 0)"
      using ok unfolding arena_ok_def by blast
    ultimately show False using a by (simp split: if_splits)
  qed
qed

lemma set_cell_pending:
  assumes st: "store_ok pp (p # pc) rt" and a: "covers p a"
  shows "store_ok pp (p # pc) (set_cell a c rt)"
    "j < length (rt_objects rt) \<Longrightarrow> outs (set_cell a c rt) j = outs rt j"
    "count_ok e hole rt \<Longrightarrow> count_ok e hole (set_cell a c rt)"
proof -
  have ok: "cells_ok (p # pc) rt" "table_ok rt" using st by (simp_all add: store_ok_def)
  show "store_ok pp (p # pc) (set_cell a c rt)" by (rule set_cell_store_ok [OF st])
  show outs: "outs (set_cell a c rt) j = outs rt j" if j: "j < length (rt_objects rt)" for j
  proof (cases "ob_as (rt_objects rt ! j)")
    case (OBJECT_CELLS s)
    then have "ob_live (rt_objects rt ! j)"
      using ok(2) j by (auto simp: table_ok_def ob_shape_def frothy_object_reset_def split: if_splits)
    with pending_cells(3) [OF ok(1) j this OBJECT_CELLS a] show ?thesis
      by (auto simp: outs_def OBJECT_CELLS covers_def intro!: cellspace_value_set_cell)
  qed (simp_all add: outs_def)
  show "count_ok e hole (set_cell a c rt)" if "count_ok e hole rt"
    by (rule count_ok_cong [OF that]) (simp_all add: rc_def outs)
qed

lemma fill_nil_ok:
  "store_ok pp (p # pc) rt \<Longrightarrow> sp_offset p \<le> index \<Longrightarrow> index + n \<le> sp_end p \<Longrightarrow>
   store_ok pp (p # pc) (fill_nil index n rt) \<and> rt_objects (fill_nil index n rt) = rt_objects rt \<and>
   rt_payload_bytes (fill_nil index n rt) = rt_payload_bytes rt \<and>
   (\<forall>j < length (rt_objects rt). outs (fill_nil index n rt) j = outs rt j) \<and>
   (\<forall>e hole. count_ok e hole rt \<longrightarrow> count_ok e hole (fill_nil index n rt)) \<and>
   (\<forall>a. frothy_cellspace_value (fill_nil index n rt) a =
      (if index \<le> a \<and> a < index + n then frothy_value_make_nil else frothy_cellspace_value rt a))"
proof (induction n arbitrary: index rt)
  case (Suc n)
  let ?rt1 = "frothy_cellspace_store_value index frothy_value_make_nil rt"
  have cov: "covers p index" using Suc.prems by (simp add: covers_def)
  have rt1: "?rt1 = set_cell index frothy_value_make_nil rt"
    by (simp add: frothy_cellspace_store_value_def frothy_value_to_cell_def)
  note s = set_cell_pending [OF Suc.prems(1) cov, where c = frothy_value_make_nil, folded rt1]
  have "sp_end p \<le> length (cs_data (rt_cellspace rt))"
    using Suc.prems(1) unfolding store_ok_def by (blast intro: pending_cells(1))
  then have val: "frothy_cellspace_value ?rt1 a =
      (if a = index then frothy_value_make_nil else frothy_cellspace_value rt a)" for a
    using Suc.prems cov
    by (auto simp: rt1 frothy_cellspace_value_def set_cell_def frothy_value_from_cell_def covers_def)
  have objs: "rt_objects ?rt1 = rt_objects rt" "rt_payload_bytes ?rt1 = rt_payload_bytes rt"
    by (simp_all add: rt1)
  from Suc.IH [of ?rt1 "Suc index"] s(1) Suc.prems s(2,3) show ?case by (auto simp: objs val)
qed auto

lemma take_cells_ok:
  assumes run: "take_cells len rt = (Inr base, rt')" and st: "store_ok pp pc rt"
    and cnt: "count_ok e hole rt" and len: "0 < len"
  shows "store_ok pp (mk_span base len # pc) rt'" "count_ok e hole rt'"
    "rt_objects rt' = rt_objects rt"
    "j < length (rt_objects rt) \<Longrightarrow> outs rt' j = outs rt j"
    "rt_payload_bytes rt' = rt_payload_bytes rt"
proof -
  note fr = take_cells_frame [OF run]
  have ok: "payload_ok pp rt" "cells_ok pc rt" "table_ok rt" using st by (simp_all add: store_ok_def)
  have arena: "cell_arena.ok rt (pc @ cells_owned rt)" using ok(2) by (simp add: cells_ok_def)
  have "cells_usable len rt" using len by (simp add: cells_usable_def)
  note new = cell_arena.alloc_ok [OF arena this run]
  show objs: "rt_objects rt' = rt_objects rt" by (rule fr(1))
  have cs: "cellspace_wf (rt_cellspace rt') \<and> cs_base_mark (rt_cellspace rt') = 0"
    using run ok(2) cellspace_wf_allot [of "rt_cellspace rt" "int len"]
    by (auto simp: take_cells_def frothy_runtime_take_free_span_def cells_ok_def
        froth_cellspace_allot_def Let_def split: option.splits prod.splits if_splits)
  have data: "frothy_cellspace_value rt' a = frothy_cellspace_value rt a" if "a < cs_used (rt_cellspace rt)" for a
  proof -
    have "cs_used (rt_cellspace rt) \<le> length (cs_data (rt_cellspace rt))"
      using ok(2) by (simp add: cells_ok_def cellspace_wf_def)
    then show ?thesis
      using run that ok(2)
      by (auto simp: take_cells_def frothy_runtime_take_free_span_def froth_cellspace_allot_def
          Let_def frothy_cellspace_value_def nth_store_at cells_ok_def cellspace_wf_def
          split: option.splits prod.splits if_splits)
  qed
  show bytes: "rt_payload_bytes rt' = rt_payload_bytes rt" by (rule fr(4))
  show outs: "outs rt' j = outs rt j" if j: "j < length (rt_objects rt)" for j
  proof (cases "ob_as (rt_objects rt ! j)")
    case (OBJECT_CELLS s)
    then have "ob_live (rt_objects rt ! j)"
      using ok(3) j by (auto simp: table_ok_def ob_shape_def frothy_object_reset_def split: if_splits)
    from cells_in_range(1) [OF ok(2) j this OBJECT_CELLS] show ?thesis
      by (auto simp: outs_def objs OBJECT_CELLS intro!: data)
  qed (simp_all add: outs_def objs record_field_at_def bytes)
  show "count_ok e hole rt'" by (rule count_ok_cong [OF cnt]) (simp_all add: rc_def objs outs)
  have owned: "cells_owned rt' = cells_owned rt" "payload_owned rt' = payload_owned rt"
    by (simp_all add: cells_owned_def payload_owned_def objs)
  have "cells_ok (mk_span base len # pc) rt'" using new cs by (simp add: cells_ok_def owned)
  moreover have "payload_ok pp rt'" using ok(1) fr by (simp add: payload_ok_def owned)
  moreover have "table_ok rt'" using ok(3) fr by (simp add: table_ok_def)
  ultimately show "store_ok pp (mk_span base len # pc) rt'" by (simp add: store_ok_def)
qed

lemma get_cells_Inr:
  "frothy_runtime_get_cells rt v = Inr (n, base) \<longleftrightarrow>
   (\<exists>i. frothy_runtime_get_live_object_id rt v = Inr i \<and>
      ob_as (rt_objects rt ! i) = OBJECT_CELLS (mk_span base n))"
proof (cases "frothy_runtime_get_live_object_id rt v")
  case (Inr i)
  then show ?thesis
    by (cases "ob_as (rt_objects rt ! i)")
       (auto simp: frothy_runtime_get_cells_def frothy_runtime_get_object_def mk_span_def)
qed (simp add: frothy_runtime_get_cells_def frothy_runtime_get_object_def)

text \<open>C21. Creating an array of cells: every cell reads nil, the array lies inside the cell space,
the runtime stays consistent with one new reference owned by the caller, and no other object
changes, in particular no cell of another array.\<close>

theorem cells_alloc_spec:
  assumes "runtime_ok e rt"
    and "frothy_runtime_alloc_cells n rt = (Inr v, rt')"
  shows "\<exists>base. frothy_runtime_get_cells rt' v = Inr (n, base) \<and>
    base + n \<le> cs_capacity (rt_cellspace rt') \<and>
    (\<forall>a. base \<le> a \<and> a < base + n \<longrightarrow> frothy_cellspace_value rt' a = frothy_value_make_nil) \<and>
    runtime_ok (\<lambda>x. e x + refs v x) rt' \<and> objects_kept rt rt'"
proof -
  obtain base rt1 where n: "0 < n" and tk: "take_cells n rt = (Inr base, rt1)"
    and ap: "frothy_runtime_append_object (OBJECT_CELLS (mk_span base n)) (fill_nil base n rt1) = (Inr v, rt')"
    using assms(2) by (auto simp: frothy_runtime_alloc_cells_def split: if_splits prod.splits sum.splits)
  note t = take_cells_ok [OF tk runtime_okD(1,2) [OF assms(1)] n]
  let ?rt2 = "fill_nil base n rt1"
  have f: "store_ok [] [mk_span base n] ?rt2" "rt_objects ?rt2 = rt_objects rt1" "count_ok e None ?rt2"
    "\<forall>j < length (rt_objects rt1). outs ?rt2 j = outs rt1 j"
    "\<And>a. base \<le> a \<Longrightarrow> a < base + n \<Longrightarrow> frothy_cellspace_value ?rt2 a = frothy_value_make_nil"
    using fill_nil_ok [OF t(1), of base n] t(2) by auto
  have tab: "table_ok ?rt2" using f(1) by (simp add: store_ok_def)
  have "as_outs ?rt2 (OBJECT_CELLS (mk_span base n)) = replicate n frothy_value_make_nil"
    using f(5) by (auto intro: nth_equalityI)
  moreover have "refs_in (replicate n frothy_value_make_nil) x = 0" for x by (induction n) simp_all
  ultimately have cnt: "count_ok (\<lambda>x. e x + refs_in (as_outs ?rt2 (OBJECT_CELLS (mk_span base n))) x) None ?rt2"
    using f(3) by simp
  note a = append_count_ok [OF ap tab cnt]
  have new: "ob_payload (new_object (OBJECT_CELLS (mk_span base n))) = []"
    "ob_cells (new_object (OBJECT_CELLS (mk_span base n))) = [mk_span base n]"
    "ob_shape (new_object (OBJECT_CELLS (mk_span base n)))"
    by (simp_all add: ob_payload_def ob_cells_def ob_shape_def new_object_def)
  have st: "store_ok [] [] rt'" by (rule append_store_ok [OF ap f(1) new(3)]) (simp_all add: new)
  obtain i where i: "v = frothy_object_value i" "i < length (rt_objects rt')" "ob_live (rt_objects rt' ! i)"
    "ob_as (rt_objects rt' ! i) = OBJECT_CELLS (mk_span base n)" "i < 2 ^ 30"
    using a(2) by blast
  have "frothy_runtime_get_cells rt' v = Inr (n, base)"
    using i by (auto simp: get_cells_Inr get_live_object_id_Inr)
  moreover have "base + n \<le> cs_capacity (rt_cellspace rt')"
    using cells_in_range(2) [of "[]" rt' i, OF _ i(2,3,4)] st by (simp add: store_ok_def cells_ok_def cellspace_wf_def)
  moreover have "rt_cellspace rt' = rt_cellspace ?rt2"
    using append_object_Inr [OF ap] by (auto simp: same_arenas_def)
  then have "\<forall>a. base \<le> a \<and> a < base + n \<longrightarrow> frothy_cellspace_value rt' a = frothy_value_make_nil"
    using f(5) by (simp add: frothy_cellspace_value_def)
  moreover have "objects_kept rt rt'"
    using append_objects_kept [OF ap tab cnt] f(2,4) t(3,4) by (simp add: objects_kept_def)
  moreover have "quiet ?rt2" using quiet_cong runtime_okD(3) [OF assms(1)] f(2) t(3) by simp
  then have "quiet rt'" by (rule append_quiet [OF ap])
  ultimately show ?thesis using st a(1) unfolding runtime_ok_def by blast
qed

theorem cells_alloc_spec_witness:
  "\<exists>base. frothy_runtime_get_cells (snd (frothy_runtime_alloc_cells 3 sample_runtime))
     (frothy_object_value 0) = Inr (3, base)"
proof -
  have "frothy_runtime_alloc_cells 3 sample_runtime
      = (Inr (frothy_object_value 0), snd (frothy_runtime_alloc_cells 3 sample_runtime))"
    by (simp add: frothy_runtime_alloc_cells_def INT32_MAX_def take_cells_def
        frothy_runtime_take_free_span_def froth_cellspace_allot_def froth_cellspace_init_def
        sample_runtime_def runtime_sized_def frothy_runtime_append_object_def
        frothy_runtime_install_object_def Let_def numeral_3_eq_3
        frothy_cellspace_store_value_def set_cell_def)
  from cells_alloc_spec [OF sample_runtime_ok this] show ?thesis by blast
qed

end
