(* ===== verification/Frothy_Record_Props.thy ===== *)
theory Frothy_Record_Props
  imports Frothy_Objects
begin

section \<open>Records: stored definitions parse back, fields read what was written\<close>

text \<open>
  The bytes that \<open>frothy_runtime_alloc_record_def\<close> writes are walked again by every lookup. The
  first part shows that the walk finds the names that were stored; the second part follows a record
  through its creation, its field reads and its field writes, with the reference counts.
\<close>

subsection \<open>The stored names\<close>

lemma next_string_stored [simp]:
  "frothy_record_def_next_string (c_string s @ 0 # rest) = Inr (c_string s, rest)"
proof -
  have nz: "\<And>b. b \<in> set (c_string s) \<Longrightarrow> b \<noteq> 0"
    unfolding c_string_def by (auto dest: set_takeWhileD)
  then have "dropWhile (\<lambda>b. b \<noteq> 0) (c_string s @ 0 # rest) = 0 # rest"
    "takeWhile (\<lambda>b. b \<noteq> 0) (c_string s @ 0 # rest) = c_string s"
    by (auto simp: dropWhile_append takeWhile_append)
  then show ?thesis by (simp add: frothy_record_def_next_string_def)
qed

definition stored_names :: "byte list list \<Rightarrow> byte list" where
  "stored_names fs = concat (map (\<lambda>f. c_string f @ [0]) fs)"

lemma stored_names_simps [simp]:
  "stored_names [] = []" "stored_names (f # fs) = c_string f @ 0 # stored_names fs"
  by (simp_all add: stored_names_def)

lemma nth_string_stored:
  "i < length fs \<Longrightarrow> nth_string i (stored_names fs @ rest) = Inr (c_string (fs ! i))"
  by (induction fs arbitrary: i) (auto simp: less_Suc_eq_0_disj)

text \<open>The index of the first stored name equal to the wanted one.\<close>

fun first_index :: "byte list \<Rightarrow> byte list list \<Rightarrow> nat \<Rightarrow> nat result" where
  "first_index w [] i = Inl FROTH_ERROR_BOUNDS"
| "first_index w (f # fs) i = (if c_string f = c_string w then Inr i else first_index w fs (Suc i))"

lemma find_string_stored:
  "find_string w i (length fs) (stored_names fs @ rest) = first_index w fs i"
  by (induction fs arbitrary: i) simp_all

lemma first_index_Inr:
  "first_index w fs k = Inr i \<longleftrightarrow>
   k \<le> i \<and> i - k < length fs \<and> c_string (fs ! (i - k)) = c_string w \<and>
   (\<forall>j < i - k. c_string (fs ! j) \<noteq> c_string w)"
proof (induction fs arbitrary: k)
  case (Cons f fs)
  show ?case
  proof (cases "c_string f = c_string w")
    case True
    show ?thesis
    proof (cases "i = k")
      case False
      then have "\<not> (k \<le> i \<and> (\<forall>j < i - k. c_string ((f # fs) ! j) \<noteq> c_string w))"
        using True by (auto intro!: exI [of _ 0])
      then show ?thesis using True False by auto
    qed (use True in simp)
  next
    case False
    show ?thesis
    proof (cases "Suc k \<le> i")
      case True
      then have "i - k = Suc (i - Suc k)" by simp
      then show ?thesis using False True Cons.IH [of "Suc k"]
        by (auto simp: All_less_Suc2)
    next
      case ne: False
      then show ?thesis using False Cons.IH [of "Suc k"] by (cases "i = k") auto
    qed
  qed
qed simp

lemma load_word_le32:
  "load_at bytes off 4 = le32 w \<Longrightarrow> load_word bytes off = w"
  by (simp add: load_word_def le32_def)

lemma load_at_prefix: "k \<le> n \<Longrightarrow> load_at xs off k = take k (load_at xs off n)"
  by (simp add: load_at_def min_def)

lemma object_view_stored:
  assumes mem: "load_at (rt_payload_bytes rt) (sp_offset p) (length bs) = bs"
    and bs: "bs = record_def_bytes name fs" and len: "length bs \<le> sp_length p"
    and n: "length fs \<le> UINT32_MAX"
  shows "\<exists>rest. frothy_runtime_record_def_object_view rt (OBJECT_RECORD_DEF p k)
    = Inr (c_string name, length fs, stored_names fs @ rest)"
proof -
  let ?m = "load_at (rt_payload_bytes rt) (sp_offset p) (sp_length p)"
  have "take (length bs) ?m = bs" using mem load_at_prefix [OF len] by metis
  then obtain pad where m: "?m = bs @ pad" by (metis append_take_drop_id)
  have dec: "bs @ pad = le32 (word_of_nat (length fs)) @ c_string name @ 0 # (stored_names fs @ pad)"
    by (simp add: bs record_def_bytes_def stored_names_def)
  have "load_word (bs @ pad) 0 = word_of_nat (length fs)"
    by (rule load_word_le32) (simp add: dec load_at_def)
  moreover have "unat (word_of_nat (length fs) :: 32 word) = length fs"
    using n by (simp add: unsigned_of_nat take_bit_nat_eq_self UINT32_MAX_def)
  moreover have "drop 4 (bs @ pad) = c_string name @ 0 # (stored_names fs @ pad)"
    by (simp add: dec)
  moreover have "4 \<le> sp_length p" using len by (simp add: bs record_def_bytes_def)
  ultimately show ?thesis
    by (simp add: frothy_runtime_record_def_object_view_def m Let_def)
qed

lemma record_def_size:
  "record_def_size_loop fs k = Inr n \<Longrightarrow>
   n = k + length (stored_names fs) \<and> (\<forall>f \<in> set fs. 0 < length (c_string f))"
proof (induction fs arbitrary: k)
  case (Cons f fs)
  then have "strlen f \<noteq> 0" "record_def_size_loop fs (k + (strlen f + 1)) = Inr n"
    by (auto simp: FROTH_TRY_Inr_iff frothy_add_size_def split: if_splits)
  with Cons.IH [of "k + (strlen f + 1)"] show ?case by (simp add: strlen_def)
qed simp

lemma record_def_bytes_length:
  "length (record_def_bytes name fs) = 4 + (strlen name + 1) + length (stored_names fs)"
  by (simp add: record_def_bytes_def stored_names_def strlen_def)

text \<open>Lookups of a definition in a live object.\<close>

lemma get_object_def:
  assumes "frothy_runtime_get_live_object_id rt v = Inr i"
    and "ob_as (rt_objects rt ! i) = OBJECT_RECORD_DEF p k"
  shows "frothy_runtime_get_object rt v is_OBJECT_RECORD_DEF = Inr (OBJECT_RECORD_DEF p k)"
  using assms by (simp add: frothy_runtime_get_object_def)

definition def_stored :: "frothy_runtime \<Rightarrow> frothy_value \<Rightarrow> byte list \<Rightarrow> byte list list \<Rightarrow> bool" where
  "def_stored rt v name fs \<longleftrightarrow>
     frothy_runtime_get_record_def rt v = Inr (c_string name, length fs) \<and>
     (\<forall>i < length fs. frothy_runtime_record_def_field_name rt v i = Inr (c_string (fs ! i))) \<and>
     (\<forall>i. length fs \<le> i \<longrightarrow> frothy_runtime_record_def_field_name rt v i = Inl FROTH_ERROR_BOUNDS) \<and>
     (\<forall>w. frothy_runtime_record_def_field_index rt v w = first_index w fs 0)"

lemma def_storedI:
  assumes "frothy_runtime_get_live_object_id rt v = Inr i"
    and "ob_as (rt_objects rt ! i) = OBJECT_RECORD_DEF p k"
    and "load_at (rt_payload_bytes rt) (sp_offset p) (length bs) = bs"
    and "bs = record_def_bytes name fs" "length bs \<le> sp_length p" "length fs \<le> UINT32_MAX"
  shows "def_stored rt v name fs"
proof -
  note ob = get_object_def [OF assms(1,2)]
  obtain rest where "frothy_runtime_record_def_object_view rt (OBJECT_RECORD_DEF p k)
    = Inr (c_string name, length fs, stored_names fs @ rest)"
    using object_view_stored [OF assms(3-6)] by blast
  with ob show ?thesis
    by (auto simp: def_stored_def frothy_runtime_get_record_def_def
        frothy_runtime_record_def_field_name_def frothy_runtime_record_def_field_index_def
        nth_string_stored find_string_stored)
qed

lemma install_record_def_ok:
  assumes st: "store_ok [] [] rt" and cnt: "count_ok e None rt"
    and n: "length fs \<le> UINT32_MAX" and size: "length (record_def_bytes name fs) = sz" "sz < 2 ^ 60"
    and run: "install_record_def name fs sz rt = (Inr v, rt')"
  shows "def_stored rt' v name fs" "store_ok [] [] rt'" "count_ok (\<lambda>x. e x + refs v x) None rt'"
    "objects_kept rt rt'" "texts_kept rt rt'" "quiet rt \<Longrightarrow> quiet rt'"
proof -
  let ?bs = "record_def_bytes name fs"
  obtain p rt1 where al: "frothy_runtime_alloc_payload sz rt = (Inr p, rt1)"
    and ap: "frothy_runtime_append_object (OBJECT_RECORD_DEF p (length fs))
        (store_bytes (sp_offset p) ?bs rt1) = (Inr v, rt')"
    using run unfolding install_record_def_def by (auto split: prod.splits sum.splits)
  let ?rt2 = "store_bytes (sp_offset p) ?bs rt1"
  have l: "0 < sz" "sz \<le> SIZE_MAX - 15" "length ?bs \<le> sz"
    using size by (simp_all add: SIZE_MAX_def record_def_bytes_length)
  note s = alloc_store_ok [OF al st cnt l]
  have tab: "table_ok ?rt2" using s(1) by (simp add: store_ok_def)
  let ?ob = "OBJECT_RECORD_DEF p (length fs)"
  have new: "ob_payload (new_object ?ob) = [p]" "ob_cells (new_object ?ob) = []" "ob_shape (new_object ?ob)"
    using s(6) l by (simp_all add: ob_payload_def ob_cells_def ob_shape_def new_object_def)
  show "store_ok [] [] rt'" by (rule append_store_ok [OF ap s(1) new(3)]) (simp_all add: new)
  have cnt2: "count_ok (\<lambda>x. e x + refs_in (as_outs ?rt2 ?ob) x) None ?rt2" using s(2) by simp
  note a = append_count_ok [OF ap tab cnt2]
  show "count_ok (\<lambda>x. e x + refs v x) None rt'" by (rule a(1))
  show "objects_kept rt rt'"
    using append_objects_kept [OF ap tab cnt2] s(4,7) by (simp add: objects_kept_def)
  show "texts_kept rt rt'" by (rule texts_kept_trans [OF s(3) append_texts_kept [OF ap tab]])
  show "quiet rt \<Longrightarrow> quiet rt'" by (rule append_quiet [OF ap]) (rule quiet_cong [OF s(4)])
  obtain i where i: "v = frothy_object_value i" "i < length (rt_objects rt')" "ob_live (rt_objects rt' ! i)"
    "ob_as (rt_objects rt' ! i) = ?ob" "i < 2 ^ 30"
    using a(2) by blast
  have id: "frothy_runtime_get_live_object_id rt' v = Inr i"
    using i by (simp add: get_live_object_id_Inr)
  have mem: "load_at (rt_payload_bytes rt') (sp_offset p) (length ?bs) = ?bs"
    using append_object_Inr [OF ap] s(5) by auto
  have "length ?bs \<le> sp_length p" using s(6) l(3) by simp
  from def_storedI [OF id i(4) mem refl this n] show "def_stored rt' v name fs" .
qed

lemma alloc_record_def_ok:
  assumes "runtime_ok e rt"
    and "4 + (strlen name + 1) + length (stored_names fs) < 2 ^ 60"
    and "frothy_runtime_alloc_record_def name fs rt = (Inr v, rt')"
  shows "frothy_runtime_get_record_def rt' v = Inr (c_string name, length fs) \<and>
    (\<forall>i < length fs. frothy_runtime_record_def_field_name rt' v i = Inr (c_string (fs ! i))) \<and>
    (\<forall>i. length fs \<le> i \<longrightarrow> frothy_runtime_record_def_field_name rt' v i = Inl FROTH_ERROR_BOUNDS) \<and>
    (\<forall>w. frothy_runtime_record_def_field_index rt' v w = first_index w fs 0) \<and>
    runtime_ok (\<lambda>x. e x + refs v x) rt' \<and> objects_kept rt rt'"
proof -
  obtain sz where sz: "record_def_size_loop fs (4 + (strlen name + 1)) = Inr sz"
    and run: "install_record_def name fs sz rt = (Inr v, rt')" and n: "length fs \<le> UINT32_MAX"
    using assms(3)
    by (auto simp: frothy_runtime_alloc_record_def_def FROTH_TRY_Inr_iff frothy_add_size_def
        split: if_splits sum.splits)
  have "sz = 4 + (strlen name + 1) + length (stored_names fs)" using record_def_size [OF sz] by simp
  then have "length (record_def_bytes name fs) = sz" "sz < 2 ^ 60"
    using assms(2) by (simp_all add: record_def_bytes_length)
  from install_record_def_ok [OF runtime_okD(1,2) [OF assms(1)] n this run]
    runtime_okD(3) [OF assms(1)] show ?thesis
    unfolding def_stored_def runtime_ok_def by blast
qed

text \<open>C14. A record definition is stored as bytes and found again by the walk over them: after a
successful creation, the name, the number of fields, every field name by its index and the index
of the first field with a given name are those the definition was created with; an index past the
end is refused; the runtime stays consistent and no other object changes.\<close>

theorem record_def_roundtrip:
  assumes "runtime_ok e rt"
    and "4 + (strlen name + 1) + length (stored_names fs) < 2 ^ 60"
    and "frothy_runtime_alloc_record_def name fs rt = (Inr v, rt')"
  shows "frothy_runtime_get_record_def rt' v = Inr (c_string name, length fs) \<and>
    (\<forall>i < length fs. frothy_runtime_record_def_field_name rt' v i = Inr (c_string (fs ! i))) \<and>
    (\<forall>i. length fs \<le> i \<longrightarrow> frothy_runtime_record_def_field_name rt' v i = Inl FROTH_ERROR_BOUNDS) \<and>
    (\<forall>w. frothy_runtime_record_def_field_index rt' v w = first_index w fs 0) \<and>
    runtime_ok (\<lambda>x. e x + refs v x) rt' \<and> objects_kept rt rt'"
  using alloc_record_def_ok [OF assms] .

definition sample_with_def :: frothy_runtime where
  "sample_with_def = snd (frothy_runtime_alloc_record_def [80] [[120], [121]] sample_runtime)"

lemma sample_def_run:
  "frothy_runtime_alloc_record_def [80] [[120], [121]] sample_runtime
     = (Inr (frothy_object_value 0), sample_with_def)"
  unfolding sample_with_def_def
  by (simp add: frothy_runtime_alloc_record_def_def UINT32_MAX_def frothy_add_size_def SIZE_MAX_def
      strlen_def c_string_def install_record_def_def frothy_runtime_alloc_payload_def
      frothy_payload_align_up_def ALIGNOF_MAX_ALIGN_def frothy_runtime_take_payload_free_span_def
      sample_runtime_def runtime_sized_def note_payload_used_def frothy_runtime_append_object_def
      store_bytes_def frothy_runtime_install_object_def Let_def)

lemma sample_def_size: "4 + (strlen [80] + 1) + length (stored_names [[120], [121]]) < 2 ^ 60"
  by (simp add: strlen_def c_string_def)

theorem record_def_roundtrip_witness:
  "frothy_runtime_record_def_field_index sample_with_def (frothy_object_value 0) [121] = Inr 1 \<and>
   frothy_runtime_record_def_field_name sample_with_def (frothy_object_value 0) 0 = Inr [120]"
proof -
  note r = record_def_roundtrip [OF sample_runtime_ok sample_def_size sample_def_run]
  have "frothy_runtime_record_def_field_index sample_with_def (frothy_object_value 0) [121]
      = first_index [121] [[120], [121]] 0" using r by blast
  moreover have "frothy_runtime_record_def_field_name sample_with_def (frothy_object_value 0) 0
      = Inr (c_string ([[120], [121]] ! 0))" using r by simp
  ultimately show ?thesis by (simp add: c_string_def)
qed

subsection \<open>Retaining\<close>

lemma outs_cong_objects:
  assumes "ob_as (rt_objects rt' ! j) = ob_as (rt_objects rt ! j)"
    "rt_payload_bytes rt' = rt_payload_bytes rt" "rt_cellspace rt' = rt_cellspace rt"
  shows "outs rt' j = outs rt j"
  using as_outs_same_memory [OF assms(2,3)] assms(1) by (simp add: outs_def)

lemma retain_ok:
  assumes st: "store_ok pp pc rt" and cnt: "count_ok e None rt" and q: "quiet rt"
    and run: "frothy_value_retain v rt = (Inr u, rt')"
  shows "store_ok pp pc rt'" "count_ok (\<lambda>x. e x + refs v x) None rt'" "quiet rt'"
    "objects_kept rt rt'" "length (rt_objects rt') = length (rt_objects rt)"
    "rt_payload_bytes rt' = rt_payload_bytes rt" "objects_kept rt' rt"
proof -
  have "store_ok pp pc rt' \<and> count_ok (\<lambda>x. e x + refs v x) None rt' \<and> quiet rt' \<and>
    objects_kept rt rt' \<and> length (rt_objects rt') = length (rt_objects rt) \<and>
    rt_payload_bytes rt' = rt_payload_bytes rt \<and> objects_kept rt' rt"
  proof (cases "frothy_value_is_object_ref v")
    case False
    then show ?thesis using assms by (simp add: frothy_value_retain_def refs_def objects_kept_def)
  next
    case True
    then obtain i where i: "frothy_runtime_get_live_object_id rt v = Inr i"
      and rt': "rt' = set_refcount i (ob_refcount (rt_objects rt ! i) + 1) rt"
      using run by (auto simp: frothy_value_retain_def Let_def split: sum.splits if_splits)
    have il: "i < length (rt_objects rt)" "ob_live (rt_objects rt ! i)" "i = frothy_value_object_index v"
      using i by (auto simp: get_live_object_id_Inr)
    have pos: "0 < ob_refcount (rt_objects rt ! i)" using q il by (simp add: quiet_def)
    have "count_ok (\<lambda>x. e x + refs v x) None rt'"
      unfolding count_ok_def
    proof
      fix x
      have "refs_to None rt' x = refs_to None rt x"
        unfolding rt'
      proof (intro refs_to_cong)
        show "0 < rc (set_refcount i (ob_refcount (rt_objects rt ! i) + 1) rt) j \<longleftrightarrow> 0 < rc rt j" for j
          using il(1) pos by (cases "j = i") (simp_all add: rc_set_refcount, simp add: rc_def)
      qed simp_all
      moreover have "rc rt x = e x + refs_to None rt x" using cnt by (simp add: count_ok_def)
      moreover have "rc rt' x = rc rt x + refs v x"
        using il True by (auto simp: rt' rc_set_refcount refs_def rc_def)
      ultimately show "rc rt' x = e x + refs v x + refs_to None rt' x" by simp
    qed
    moreover have "store_ok pp pc rt'" unfolding rt' by (rule store_ok_set_refcount [OF st il(1,2)])
    moreover have "quiet rt'"
      unfolding quiet_def
    proof (intro allI impI)
      fix j assume "j < length (rt_objects rt')" "ob_live (rt_objects rt' ! j)"
      then show "0 < ob_refcount (rt_objects rt' ! j)"
        using q il(1) by (cases "j = i") (simp_all add: rt' quiet_def)
    qed
    moreover have "objects_kept rt rt'" "objects_kept rt' rt"
      using il(1) by (auto simp: rt' objects_kept_def nth_list_update)
    ultimately show ?thesis by (simp add: rt')
  qed
  then show "store_ok pp pc rt'" "count_ok (\<lambda>x. e x + refs v x) None rt'" "quiet rt'"
    "objects_kept rt rt'" "length (rt_objects rt') = length (rt_objects rt)"
    "rt_payload_bytes rt' = rt_payload_bytes rt" "objects_kept rt' rt" by simp_all
qed

lemma objects_kept_trans: "objects_kept a b \<Longrightarrow> objects_kept b c \<Longrightarrow> objects_kept a c"
  by (auto simp: objects_kept_def)

lemma objects_kept_refl [simp]: "objects_kept rt rt"
  by (simp add: objects_kept_def)

lemma store_word_bytes: "store_word off v rt = store_bytes off (le32 v) rt"
  by (simp add: store_word_def store_bytes_def)

lemma load_word_stored:
  assumes "off + 4 \<le> length (rt_payload_bytes rt)"
  shows "load_word (rt_payload_bytes (store_word off v rt)) off = v"
  using load_store_same [of off "le32 v" "rt_payload_bytes rt"] assms
  by (intro load_word_le32) (simp add: store_word_def)

lemma load_word_other:
  assumes "off + 4 \<le> length (rt_payload_bytes rt)" "o2 + 4 \<le> off \<or> off + 4 \<le> o2"
  shows "load_word (rt_payload_bytes (store_word off v rt)) o2 = load_word (rt_payload_bytes rt) o2"
proof -
  have "load_at (rt_payload_bytes (store_word off v rt)) o2 4 = load_at (rt_payload_bytes rt) o2 4"
    unfolding store_word_def using assms by (simp add: load_store_disjoint)
  then show ?thesis by (simp add: load_word_def)
qed

text \<open>What is written into the pending record payload is the fields, and nothing else changes.\<close>

lemma retain_fields_ok:
  "store_ok (p # pp) pc rt \<Longrightarrow> count_ok e None rt \<Longrightarrow> quiet rt \<Longrightarrow> 0 < sp_length p \<Longrightarrow>
   4 * (i + length vs) \<le> sp_length p \<Longrightarrow> retain_fields (sp_offset p) vs i rt = (Inr u, rt') \<Longrightarrow>
   store_ok (p # pp) pc rt' \<and> count_ok (\<lambda>x. e x + refs_in vs x) None rt' \<and> quiet rt' \<and>
   objects_kept rt rt' \<and> length (rt_objects rt') = length (rt_objects rt) \<and>
   (\<forall>k < i. record_field_at rt' p k = record_field_at rt p k) \<and>
   (\<forall>k < length vs. record_field_at rt' p (i + k) = vs ! k)"
proof (induction vs arbitrary: i rt e)
  case (Cons v vs)
  obtain u1 rt1 where r1: "frothy_value_retain v rt = (Inr u1, rt1)"
    using Cons.prems(6) by (auto split: prod.splits sum.splits)
  note k1 = retain_ok [OF Cons.prems(1-3) r1]
  let ?off = "sp_offset p + 4 * i"
  let ?rt2 = "store_word ?off v rt1"
  have room: "?off + length (le32 v) \<le> sp_end p" "sp_offset p \<le> ?off" using Cons.prems(5) by simp_all
  note s = store_bytes_ok [OF k1(1) Cons.prems(4) room(2,1), folded store_word_bytes]
  have objs: "rt_objects ?rt2 = rt_objects rt1" by (simp add: store_word_def)
  have within: "?off + 4 \<le> length (rt_payload_bytes rt1)"
    using pending_within [of p pp rt1] k1(1) room(1) by (simp add: store_ok_def)
  have tail: "retain_fields (sp_offset p) vs (Suc i) ?rt2 = (Inr u, rt')"
    using Cons.prems(6) r1 by simp
  have "4 * (Suc i + length vs) \<le> sp_length p" using Cons.prems(5) by simp
  from Cons.IH [OF s(1) s(4) [OF k1(2)] quiet_cong [OF objs k1(3)] Cons.prems(4) this tail]
  have IH: "store_ok (p # pp) pc rt'" "count_ok (\<lambda>x. e x + refs v x + refs_in vs x) None rt'" "quiet rt'"
    "objects_kept ?rt2 rt'" "length (rt_objects rt') = length (rt_objects ?rt2)"
    "\<And>k. k < Suc i \<Longrightarrow> record_field_at rt' p k = record_field_at ?rt2 p k"
    "\<And>k. k < length vs \<Longrightarrow> record_field_at rt' p (Suc i + k) = vs ! k" by blast+
  have "objects_kept rt1 ?rt2" using s(3) by (simp add: objects_kept_def objs)
  then have "objects_kept rt rt'" using k1(4) IH(4) objects_kept_trans by blast
  moreover have "record_field_at rt' p k = record_field_at rt p k" if "k < i" for k
    using IH(6) [of k] that load_word_other [OF within, of "sp_offset p + 4 * k" v] k1(6)
    by (simp add: record_field_at_def)
  moreover have "record_field_at rt' p (i + k) = (v # vs) ! k" if "k < length (v # vs)" for k
  proof (cases k)
    case 0
    then show ?thesis using IH(6) [of i] load_word_stored [OF within, of v]
      by (simp add: record_field_at_def)
  next
    case (Suc k')
    then show ?thesis using IH(7) [of k'] that by simp
  qed
  ultimately show ?case using IH(1-3,5) k1(5) objs by (simp add: ac_simps)
qed simp

lemma get_record_Inr:
  "frothy_runtime_get_record rt v = Inr (d, vs) \<longleftrightarrow>
   (\<exists>i p n. frothy_runtime_get_live_object_id rt v = Inr i \<and>
      ob_as (rt_objects rt ! i) = OBJECT_RECORD p d n \<and>
      vs = map (record_field_at rt p) [0 ..< n])"
proof (cases "frothy_runtime_get_live_object_id rt v")
  case (Inr i)
  then show ?thesis
    by (cases "ob_as (rt_objects rt ! i)")
       (auto simp: frothy_runtime_get_record_def frothy_runtime_get_object_def)
qed (simp add: frothy_runtime_get_record_def frothy_runtime_get_object_def)

lemma alloc_record_ok:
  assumes ok: "runtime_ok e rt" and small: "length vs < 2 ^ 32"
    and run: "frothy_runtime_alloc_record d vs rt = (Inr v, rt')"
  shows "frothy_runtime_get_record rt' v = Inr (d, vs) \<and>
    runtime_ok (\<lambda>x. e x + refs v x) rt' \<and> objects_kept rt rt'"
proof -
  obtain p rt1 rt2 rt3 u w where n: "0 < length vs"
    and al: "frothy_runtime_alloc_payload (length vs * 4) rt = (Inr p, rt1)"
    and rd: "frothy_value_retain d rt1 = (Inr u, rt2)"
    and rf: "retain_fields (sp_offset p) vs 0 rt2 = (Inr w, rt3)"
    and ap: "frothy_runtime_append_object (OBJECT_RECORD p d (length vs)) rt3 = (Inr v, rt')"
    using run unfolding frothy_runtime_alloc_record_def
    by (auto split: if_splits sum.splits prod.splits)
  have l: "0 < length vs * 4" "length vs * 4 \<le> SIZE_MAX - 15" using n small by (simp_all add: SIZE_MAX_def)
  note a1 = alloc_payload_ok [OF al runtime_okD(1) [OF ok] l]
  note fr = alloc_payload_frame [OF al]
  have q1: "quiet rt1" by (rule quiet_cong [OF fr(1) runtime_okD(3) [OF ok]])
  have kept1: "objects_kept rt rt1"
    by (auto simp: objects_kept_def fr intro!: outs_cong_objects)
  note r2 = retain_ok [OF a1(1) alloc_payload_count [OF al runtime_okD(2) [OF ok]] q1 rd]
  have "4 * (0 + length vs) \<le> sp_length p" using a1(2) by simp
  from retain_fields_ok [OF r2(1-3) a1(3) this rf]
  have r3: "store_ok [p] [] rt3" "count_ok (\<lambda>x. e x + refs d x + refs_in vs x) None rt3" "quiet rt3"
    "objects_kept rt2 rt3" "\<And>k. k < length vs \<Longrightarrow> record_field_at rt3 p k = vs ! k"
    by auto
  let ?ob = "OBJECT_RECORD p d (length vs)"
  have flds: "map (record_field_at rt3 p) [0 ..< length vs] = vs"
    using r3(5) by (auto intro: nth_equalityI)
  then have "as_outs rt3 ?ob = vs @ [d]" by simp
  with r3(2) have cnt: "count_ok (\<lambda>x. e x + refs_in (as_outs rt3 ?ob) x) None rt3"
    by (simp add: ac_simps)
  have tab: "table_ok rt3" using r3(1) by (simp add: store_ok_def)
  note a = append_count_ok [OF ap tab cnt]
  have new: "ob_payload (new_object ?ob) = [p]" "ob_cells (new_object ?ob) = []" "ob_shape (new_object ?ob)"
    using a1(2) n by (simp_all add: a1(3) ob_payload_def ob_cells_def ob_shape_def new_object_def)
  have st: "store_ok [] [] rt'" by (rule append_store_ok [OF ap r3(1) new(3)]) (simp_all add: new)
  have qt: "quiet rt'" by (rule append_quiet [OF ap r3(3)])
  have kept: "objects_kept rt rt'"
    using kept1 r2(4) r3(4) append_objects_kept [OF ap tab cnt] objects_kept_trans by blast
  obtain i where i: "v = frothy_object_value i" "i < length (rt_objects rt')" "ob_live (rt_objects rt' ! i)"
    "ob_as (rt_objects rt' ! i) = ?ob" "i < 2 ^ 30"
    using a(2) by blast
  have "rt_payload_bytes rt' = rt_payload_bytes rt3" using append_object_Inr [OF ap] by blast
  then have "record_field_at rt' p = record_field_at rt3 p" by (simp add: record_field_at_def fun_eq_iff)
  with flds have "map (record_field_at rt' p) [0 ..< length vs] = vs" by simp
  then have "frothy_runtime_get_record rt' v = Inr (d, vs)"
    using i by (auto simp: get_record_Inr get_live_object_id_Inr)
  then show ?thesis using st a(1) qt kept by (simp add: runtime_ok_def)
qed

text \<open>C15. Creating a record: it holds the given definition and exactly the given fields, the
runtime stays consistent with one new reference owned by the caller (the references stored in the
record are its own: the caller keeps those it had), and no other object changes.\<close>

theorem record_alloc_spec:
  assumes ok: "runtime_ok e rt" and small: "length vs < 2 ^ 32"
    and run: "frothy_runtime_alloc_record d vs rt = (Inr v, rt')"
  shows "frothy_runtime_get_record rt' v = Inr (d, vs) \<and>
    runtime_ok (\<lambda>x. e x + refs v x) rt' \<and> objects_kept rt rt'"
  using alloc_record_ok [OF ok small run] .

lemma nil_allowed:
  "frothy_record_value_allowed rt frothy_value_make_nil = Inr ()"
  "frothy_record_value_allowed rt (frothy_value_make_bool b) = Inr ()"
  by (simp_all add: frothy_record_value_allowed_def value_class_def value_tag_defs)

definition sample_with_record :: frothy_runtime where
  "sample_with_record = snd (frothy_runtime_alloc_record (frothy_object_value 0)
     [frothy_value_make_nil, frothy_value_make_bool True] sample_with_def)"

lemma sample_def_state:
  "rt_objects sample_with_def = [new_object (OBJECT_RECORD_DEF (mk_span 0 16) 2)]"
  "rt_payload_free_spans sample_with_def = []" "rt_payload_extent sample_with_def = 16"
  "rt_payload_capacity sample_with_def = 64" "rt_object_capacity sample_with_def = 4"
  "rt_test_object_limit sample_with_def = 4" "\<not> rt_test_fail_next_append sample_with_def"
  "rt_payload_bytes_used sample_with_def = 16" "rt_payload_bytes_high_water sample_with_def = 16"
  by (simp_all add: sample_with_def_def frothy_runtime_alloc_record_def_def UINT32_MAX_def
      frothy_add_size_def SIZE_MAX_def
      strlen_def c_string_def install_record_def_def frothy_runtime_alloc_payload_def
      frothy_payload_align_up_def ALIGNOF_MAX_ALIGN_def frothy_runtime_take_payload_free_span_def
      sample_runtime_def runtime_sized_def note_payload_used_def frothy_runtime_append_object_def
      store_bytes_def frothy_runtime_install_object_def Let_def set_object_def new_object_def)

lemma sample_def_length: "length (rt_payload_bytes sample_with_def) = 64"
  using alloc_record_def_ok [OF sample_runtime_ok sample_def_size sample_def_run]
  by (simp add: sample_def_state runtime_ok_def store_ok_def payload_ok_def)

lemma sample_record_state:
  "frothy_runtime_alloc_record (frothy_object_value 0)
     [frothy_value_make_nil, frothy_value_make_bool True] sample_with_def
   = (Inr (frothy_object_value 1), sample_with_record)" (is ?run)
  "rt_objects sample_with_record = [(new_object (OBJECT_RECORD_DEF (mk_span 0 16) 2))\<lparr>ob_refcount := 2\<rparr>,
     new_object (OBJECT_RECORD (mk_span 16 16) (frothy_object_value 0) 2)]" (is ?objs)
  "load_at (rt_payload_bytes sample_with_record) 0 16 = load_at (rt_payload_bytes sample_with_def) 0 16"
    (is ?bytes)
proof -
  have "frothy_runtime_get_record_def sample_with_def (frothy_object_value 0) = Inr (c_string [80], 2)"
    using alloc_record_def_ok [OF sample_runtime_ok sample_def_size sample_def_run] by simp
  moreover note nil_allowed
  ultimately have "?run \<and> ?objs \<and> ?bytes"
    unfolding sample_with_record_def
    by (simp add: frothy_runtime_alloc_record_def SIZE_MAX_def sample_def_state
        frothy_runtime_alloc_payload_def frothy_payload_align_up_def ALIGNOF_MAX_ALIGN_def
        frothy_runtime_take_payload_free_span_def note_payload_used_def frothy_value_retain_def
        frothy_runtime_get_live_object_id_def UINT32_MAX_def store_word_def set_refcount_def new_object_def
        set_object_def frothy_runtime_append_object_def frothy_runtime_install_object_def Let_def sample_def_length load_at_def store_at_def le32_def)
  then show ?run ?objs ?bytes by blast+
qed

lemmas sample_record_run = sample_record_state(1)

lemma sample_with_def_ok:
  "runtime_ok (\<lambda>x. 0 + refs (frothy_object_value 0) x) sample_with_def"
  using alloc_record_def_ok [OF sample_runtime_ok sample_def_size sample_def_run] by blast

theorem record_alloc_spec_witness:
  "frothy_runtime_get_record sample_with_record (frothy_object_value 1)
     = Inr (frothy_object_value 0, [frothy_value_make_nil, frothy_value_make_bool True])"
  using record_alloc_spec [OF sample_with_def_ok _ sample_record_run] by simp

subsection \<open>Field reads and writes\<close>

text \<open>Payloads of different live objects are apart.\<close>

lemma payload_disjoint:
  assumes "payload_ok pp rt" "i \<noteq> j" "i < length (rt_objects rt)" "j < length (rt_objects rt)"
    and "p \<in> set (ob_payload (rt_objects rt ! i))" "q \<in> set (ob_payload (rt_objects rt ! j))"
  shows "sp_end p \<le> sp_offset q \<or> sp_end q \<le> sp_offset p"
proof (rule ccontr)
  assume overlap: "\<not> ?thesis"
  let ?a = "max (sp_offset p) (sp_offset q)"
  have len: "0 < sp_length p" "0 < sp_length q"
    using assms(5,6) by (auto simp: ob_payload_def split: if_splits)
  with overlap have cov: "covers p ?a" "covers q ?a" by (auto simp: covers_def)
  have "cover (ob_payload (rt_objects rt ! i)) ?a + cover (ob_payload (rt_objects rt ! j)) ?a
      \<le> cover (payload_owned rt) ?a"
    unfolding payload_owned_def cover_concat_map
    using sum_list_two_le [OF assms(2-4), of "\<lambda>ob. cover (ob_payload ob) ?a"] .
  moreover have "1 \<le> cover (ob_payload (rt_objects rt ! i)) ?a"
    "1 \<le> cover (ob_payload (rt_objects rt ! j)) ?a"
    using cover_ge_1 assms(5,6) cov by blast+
  moreover have "cover (rt_payload_free_spans rt) ?a + cover (pp @ payload_owned rt) ?a
      = (if ?a < rt_payload_extent rt then 1 else 0)"
    using assms(1) unfolding payload_ok_def arena_ok_def by blast
  ultimately show False by (simp split: if_splits)
qed

lemma owned_payload_within:
  assumes "payload_ok pp rt" "i < length (rt_objects rt)" "p \<in> set (ob_payload (rt_objects rt ! i))"
  shows "sp_end p \<le> length (rt_payload_bytes rt)"
proof -
  have "p \<in> set (pp @ payload_owned rt)" using assms(2,3) by (auto simp: payload_owned_def)
  with assms(1) payload_arena.owned_within [of rt "pp @ payload_owned rt" p] show ?thesis
    by (simp add: payload_ok_def)
qed

text \<open>Moving a stored reference out of its field, and storing a new one into the hole.\<close>

lemma refs_in_update:
  "i < length vs \<Longrightarrow> refs_in (vs[i := v]) x + refs (vs ! i) x = refs_in vs x + refs v x"
  unfolding refs_in_def by (rule sum_list_map_update)

lemma refs_to_hole:
  assumes "i < length (rt_objects rt)" "0 < rc rt i" "k < length (outs rt i)"
  shows "refs_to None rt x = refs_to (Some (i, k)) rt x + refs (outs rt i ! k) x"
proof -
  let ?n = "length (rt_objects rt)"
  let ?g = "\<lambda>h j. if 0 < rc rt j then refs_in (outs_h h rt j) x else 0"
  have split: "refs_to h rt x = ?g h i + (\<Sum>j\<in>{..<?n} - {i}. ?g h j)" for h
    unfolding refs_to_def by (rule sum.remove) (use assms(1) in simp_all)
  have "(\<Sum>j\<in>{..<?n} - {i}. ?g None j) = (\<Sum>j\<in>{..<?n} - {i}. ?g (Some (i, k)) j)"
    by (rule sum.cong) (auto simp: outs_h_def)
  moreover have "refs_in (outs rt i) x
      = refs_in ((outs rt i)[k := frothy_value_make_nil]) x + refs (outs rt i ! k) x"
    using refs_in_update [OF assms(3), of frothy_value_make_nil x] by simp
  ultimately show ?thesis unfolding split [of None] split [of "Some (i, k)"]
    using assms(2) by (simp add: outs_h_def)
qed

lemma outs_record:
  "ob_as (rt_objects rt ! i) = OBJECT_RECORD p d n \<Longrightarrow>
   outs rt i = map (record_field_at rt p) [0 ..< n] @ [d]"
  by (simp add: outs_def)

lemma store_field_ok:
  assumes st: "store_ok [] [] rt" and i: "i < length (rt_objects rt)" "ob_live (rt_objects rt ! i)"
    and ob: "ob_as (rt_objects rt ! i) = OBJECT_RECORD p d n" and k: "k < n"
  shows "store_ok [] [] (store_word (sp_offset p + 4 * k) v rt)"
    "outs (store_word (sp_offset p + 4 * k) v rt) i = (outs rt i)[k := v]"
    "j < length (rt_objects rt) \<Longrightarrow> j \<noteq> i \<Longrightarrow> outs (store_word (sp_offset p + 4 * k) v rt) j = outs rt j"
proof -
  let ?off = "sp_offset p + 4 * k" and ?rt' = "store_word (sp_offset p + 4 * k) v rt"
  have ok: "payload_ok [] rt" "table_ok rt" using st by (simp_all add: store_ok_def)
  have shape: "0 < n" "4 * n \<le> sp_length p"
    using ok(2) i ob by (auto simp: table_ok_def ob_shape_def)
  then have pin: "p \<in> set (ob_payload (rt_objects rt ! i))" using i ob by (simp add: ob_payload_def)
  have within: "?off + 4 \<le> length (rt_payload_bytes rt)"
    using owned_payload_within [OF ok(1) i(1) pin] shape k by simp
  show "store_ok [] [] ?rt'"
    using st within by (simp add: store_ok_def payload_ok_def cells_ok_def table_ok_def
        payload_owned_def cells_owned_def store_word_def)
  have fld: "record_field_at ?rt' p m = (if m = k then v else record_field_at rt p m)" for m
  proof (cases "m = k")
    case False
    then have "4 * m + 4 \<le> 4 * k \<or> 4 * k + 4 \<le> 4 * m" by linarith
    with False show ?thesis
      using load_word_other [OF within, of "sp_offset p + 4 * m" v] by (auto simp: record_field_at_def)
  qed (use load_word_stored [OF within] in \<open>simp add: record_field_at_def\<close>)
  have objs: "rt_objects ?rt' = rt_objects rt" by (simp add: store_word_def)
  have "map (record_field_at ?rt' p) [0 ..< n] = (map (record_field_at rt p) [0 ..< n])[k := v]"
    using k by (auto intro!: nth_equalityI simp: fld)
  then show "outs ?rt' i = (outs rt i)[k := v]"
    using k ob by (simp add: outs_def objs list_update_append)
  show "outs ?rt' j = outs rt j" if j: "j < length (rt_objects rt)" "j \<noteq> i"
  proof (cases "ob_as (rt_objects rt ! j)")
    case (OBJECT_RECORD q d' n')
    then have live: "ob_live (rt_objects rt ! j)" "0 < n'" "4 * n' \<le> sp_length q"
      using ok(2) j by (auto simp: table_ok_def ob_shape_def frothy_object_reset_def split: if_splits)
    then have qin: "q \<in> set (ob_payload (rt_objects rt ! j))" by (simp add: ob_payload_def OBJECT_RECORD)
    have "record_field_at ?rt' q m = record_field_at rt q m" if "m < n'" for m
      using payload_disjoint [OF ok(1) _ i(1) j(1) pin qin] j(2) shape live(3) k that
        load_word_other [OF within, of "sp_offset q + 4 * m" v]
      by (auto simp: record_field_at_def)
    then show ?thesis by (simp add: outs_def objs OBJECT_RECORD)
  qed (simp_all add: outs_def objs store_word_def frothy_cellspace_value_def)
qed

text \<open>C13. Writing a field: given a reference to the new value and holding the record, the write
succeeds, the record then holds the new value in exactly that field, the old value has been given
back, and the reference to the new value has moved into the record: the runtime is consistent with
one reference less owned by the caller.\<close>

theorem record_write_spec:
  assumes ok: "runtime_ok (\<lambda>x. e x + refs s x) rt"
    and rec: "frothy_runtime_get_record rt v = Inr (d, vs)"
    and idx: "frothy_runtime_record_def_field_index rt d name = Inr k" "k < length vs"
    and allowed: "frothy_record_value_allowed rt s = Inr ()"
    and held: "0 < e (frothy_value_object_index v)"
  shows "\<exists>rt'. frothy_runtime_record_write_field v name s rt = (Inr (), rt') \<and>
    frothy_runtime_get_record rt' v = Inr (d, vs[k := s]) \<and> runtime_ok e rt'"
proof -
  obtain i p n where i: "frothy_runtime_get_live_object_id rt v = Inr i"
    and ob: "ob_as (rt_objects rt ! i) = OBJECT_RECORD p d n"
    and vs: "vs = map (record_field_at rt p) [0 ..< n]"
    using rec by (auto simp: get_record_Inr)
  have il: "i < length (rt_objects rt)" "ob_live (rt_objects rt ! i)" "i = frothy_value_object_index v"
    "frothy_value_is_object_ref v"
    using i by (auto simp: get_live_object_id_Inr)
  have k: "k < n" using idx(2) vs by simp
  have outs_i: "outs rt i = vs @ [d]" by (simp add: outs_record [OF ob] vs)
  have rci: "0 < rc rt i" using runtime_okD(3) [OF ok] il by (simp add: quiet_def rc_def)
  let ?old = "vs ! k" and ?h = "Some (i, k)"
  have "outs rt i ! k = ?old" using idx(2) by (simp add: outs_i nth_append)
  with refs_to_hole [OF il(1) rci, of k] have
    "count_ok (\<lambda>x. e x + refs s x + refs ?old x) ?h rt"
    using runtime_okD(2) [OF ok] idx(2) by (simp add: count_ok_def outs_i ac_simps)
  moreover have "hole_safe (\<lambda>x. e x + refs s x) ?h" using held il(3) by (simp add: hole_safe_def)
  moreover note value_release_ok [OF runtime_okD(1) [OF ok], of "\<lambda>x. e x + refs s x" ?old ?h]
  ultimately obtain rt1 where rt1: "frothy_value_release ?old rt = (Inr (), rt1)" "store_ok [] [] rt1"
    "count_ok (\<lambda>x. e x + refs s x) ?h rt1" "frees {} rt rt1"
    by blast
  have live1: "i < length (rt_objects rt1)" "ob_live (rt_objects rt1 ! i)" "0 < rc rt1 i"
    using count_ok_live [OF _ rt1(3), of i] rt1(2) held il(3) by (simp_all add: store_ok_def)
  note kept = frees_live_kept [OF rt1(4) il(1) live1(2)]
  have ob1: "ob_as (rt_objects rt1 ! i) = OBJECT_RECORD p d n" using kept(1) ob by simp
  let ?rt' = "store_word (sp_offset p + 4 * k) s rt1"
  note w = store_field_ok [OF rt1(2) live1(1,2) ob1 k, where v = s]
  have objs: "rt_objects ?rt' = rt_objects rt1" by (simp add: store_word_def)
  have outs': "outs ?rt' i = (vs @ [d])[k := s]" using w(2) kept(2) outs_i by simp
  have hole: "outs_h ?h ?rt' j = outs_h ?h rt1 j" if "j < length (rt_objects rt1)" for j
    using w(3) [OF that] kept(2) outs_i outs' by (auto simp: outs_h_def)
  have "refs_to ?h ?rt' x = refs_to ?h rt1 x" for x
    unfolding refs_to_def objs by (rule sum.cong) (simp_all add: hole rc_def objs)
  moreover have "refs_to None ?rt' x = refs_to ?h ?rt' x + refs s x" for x
    using refs_to_hole [of i ?rt' k x] live1 outs' idx(2) by (simp add: objs rc_def nth_append)
  moreover have "rc ?rt' = rc rt1" by (simp add: rc_def objs fun_eq_iff)
  ultimately have "count_ok e None ?rt'"
    using rt1(3) by (simp add: count_ok_def ac_simps del: add_mult_distrib2)
  moreover have "quiet ?rt'"
    using quiet_cong [OF objs frees_quiet [OF runtime_okD(3) [OF ok] rt1(4)]] .
  ultimately have "runtime_ok e ?rt'" using w(1) by (simp add: runtime_ok_def)
  moreover have "frothy_runtime_record_write_field v name s rt = (Inr (), ?rt')"
  proof -
    have "frothy_runtime_get_object rt v is_OBJECT_RECORD = Inr (OBJECT_RECORD p d n)"
      using i ob by (simp add: frothy_runtime_get_object_def)
    moreover have "record_field_at rt p k = ?old" using k by (simp add: vs)
    ultimately show ?thesis
      using idx(1) allowed rt1(1) by (simp add: frothy_runtime_record_write_field_def)
  qed
  moreover have "frothy_runtime_get_record ?rt' v = Inr (d, vs[k := s])"
  proof -
    have "map (record_field_at ?rt' p) [0 ..< n] @ [d] = (vs @ [d])[k := s]"
      using outs' outs_record [of ?rt' i p d n] ob1 objs by simp
    then have "map (record_field_at ?rt' p) [0 ..< n] = vs[k := s]"
      using idx(2) by (simp add: list_update_append)
    then show ?thesis
      using live1 il ob1 by (auto simp: get_record_Inr get_live_object_id_Inr objs)
  qed
  ultimately show ?thesis by blast
qed


lemma sample_record_facts:
  "frothy_runtime_get_record sample_with_record (frothy_object_value 1)
     = Inr (frothy_object_value 0, [frothy_value_make_nil, frothy_value_make_bool True])"
  "runtime_ok (\<lambda>x. refs (frothy_object_value 0) x + refs (frothy_object_value 1) x) sample_with_record"
  "frothy_runtime_record_def_field_index sample_with_record (frothy_object_value 0) [121] = Inr 1"
proof -
  show "frothy_runtime_get_record sample_with_record (frothy_object_value 1)
     = Inr (frothy_object_value 0, [frothy_value_make_nil, frothy_value_make_bool True])"
   "runtime_ok (\<lambda>x. refs (frothy_object_value 0) x + refs (frothy_object_value 1) x) sample_with_record"
    using alloc_record_ok [OF sample_with_def_ok _ sample_record_run] by simp_all
  have "frothy_runtime_record_def_field_index sample_with_record (frothy_object_value 0) [121]
    = frothy_runtime_record_def_field_index sample_with_def (frothy_object_value 0) [121]"
    using sample_record_state(3)
    by (simp add: frothy_runtime_record_def_field_index_def frothy_runtime_record_def_object_view_def
        frothy_runtime_get_object_def frothy_runtime_get_live_object_id_def sample_record_state(2)
        sample_def_state(1) new_object_def)
  also have "\<dots> = Inr 1"
    using alloc_record_def_ok [OF sample_runtime_ok sample_def_size sample_def_run]
    by (simp add: c_string_def)
  finally show "frothy_runtime_record_def_field_index sample_with_record (frothy_object_value 0) [121]
    = Inr 1" .
qed

theorem record_write_spec_witness:
  "frothy_runtime_get_record
     (snd (frothy_runtime_record_write_field (frothy_object_value 1) [121] frothy_value_make_nil
        sample_with_record)) (frothy_object_value 1)
   = Inr (frothy_object_value 0, [frothy_value_make_nil, frothy_value_make_nil])"
proof -
  have "runtime_ok (\<lambda>x. refs (frothy_object_value 0) x + refs (frothy_object_value 1) x
      + refs frothy_value_make_nil x) sample_with_record"
    using sample_record_facts(2) by simp
  from record_write_spec [OF this sample_record_facts(1,3)] show ?thesis
    using nil_allowed by (auto simp: refs_def)
qed

text \<open>C16. Reading a field gives the stored value with a reference of its own for the caller, and
changes nothing else; the only failure of the retain is a saturated count.\<close>

theorem record_read_spec:
  assumes ok: "runtime_ok e rt" and rec: "frothy_runtime_get_record rt v = Inr (d, vs)"
    and idx: "frothy_runtime_record_def_field_index rt d name = Inr k" "k < length vs"
    and unsaturated: "rc rt (frothy_value_object_index (vs ! k)) < UINT32_MAX"
  shows "\<exists>rt'. frothy_runtime_record_read_field v name rt = (Inr (vs ! k), rt') \<and>
    runtime_ok (\<lambda>x. e x + refs (vs ! k) x) rt' \<and> objects_kept rt rt'"
proof -
  obtain i p n where i: "frothy_runtime_get_live_object_id rt v = Inr i"
    and ob: "ob_as (rt_objects rt ! i) = OBJECT_RECORD p d n"
    and vs: "vs = map (record_field_at rt p) [0 ..< n]"
    using rec by (auto simp: get_record_Inr)
  have il: "i < length (rt_objects rt)" "ob_live (rt_objects rt ! i)"
    using i by (auto simp: get_live_object_id_Inr)
  have fld: "record_field_at rt p k = vs ! k" using idx(2) by (simp add: vs)
  have "\<exists>rt'. frothy_value_retain (vs ! k) rt = (Inr (), rt')"
  proof (cases "frothy_value_is_object_ref (vs ! k)")
    case True
    let ?j = "frothy_value_object_index (vs ! k)"
    have rci: "0 < rc rt i" using runtime_okD(3) [OF ok] il by (simp add: quiet_def rc_def)
    have "0 < refs_to None rt ?j"
      using refs_to_hole [OF il(1) rci, of k ?j] idx(2) True
      by (simp add: outs_record [OF ob] vs nth_append refs_def)
    then have "0 < rc rt ?j" using runtime_okD(2) [OF ok] by (simp add: count_ok_def)
    then have j: "?j < length (rt_objects rt)" by (simp add: rc_def split: if_splits)
    moreover have "ob_live (rt_objects rt ! ?j)"
    proof (rule ccontr)
      assume "\<not> ob_live (rt_objects rt ! ?j)"
      then have "rt_objects rt ! ?j = frothy_object_reset"
        using runtime_okD(1) [OF ok] j by (auto simp: store_ok_def table_ok_def ob_shape_def)
      with \<open>0 < rc rt ?j\<close> j show False by (simp add: rc_def frothy_object_reset_def)
    qed
    ultimately have "frothy_runtime_get_live_object_id rt (vs ! k) = Inr ?j"
      using True by (simp add: get_live_object_id_Inr)
    then show ?thesis
      using True unsaturated j by (simp add: frothy_value_retain_def Let_def rc_def)
  qed (simp add: frothy_value_retain_def)
  then obtain rt' where r: "frothy_value_retain (vs ! k) rt = (Inr (), rt')" by blast
  have "frothy_runtime_get_object rt v is_OBJECT_RECORD = Inr (OBJECT_RECORD p d n)"
    using i ob by (simp add: frothy_runtime_get_object_def)
  then have "frothy_runtime_record_read_field v name rt = (Inr (vs ! k), rt')"
    using idx(1) fld r by (simp add: frothy_runtime_record_read_field_def record_field_value_def)
  moreover note retain_ok [OF runtime_okD [OF ok] r]
  ultimately show ?thesis by (auto simp: runtime_ok_def)
qed

theorem record_read_spec_witness:
  "fst (frothy_runtime_record_read_field (frothy_object_value 1) [121] sample_with_record)
     = Inr (frothy_value_make_bool True)"
proof -
  have "frothy_value_object_index (frothy_value_make_bool True) = 2"
    by (simp add: frothy_value_object_index_def value_tag_defs)
  then have "rc sample_with_record (frothy_value_object_index (frothy_value_make_bool True)) < UINT32_MAX"
    by (simp add: rc_def sample_record_state(2) UINT32_MAX_def)
  with record_read_spec [OF sample_record_facts(2,1,3)] show ?thesis by fastforce
qed

end
