(* ===== verification/Frothy_Overlay.thy ===== *)
theory Frothy_Overlay
  imports Frothy_Objects
begin

text \<open>
  Resetting the overlay (\<^verbatim>\<open>frothy_runtime_clear_overlay_state\<close> and
  \<^verbatim>\<open>frothy_runtime_reset_overlay\<close> of \<^verbatim>\<open>src/frothy_value.c\<close>, over the slot table of
  \<^verbatim>\<open>src/froth_slot_table.c\<close>): every binding of an overlay slot is given back, then the whole
  object store is emptied and the overlay slots are forgotten.

  The references bound in overlay slots are counted by \<open>overlay_refs\<close>; the runtime invariant of
  \<^theory_text>\<open>Frothy_Objects\<close> is stated for them plus whatever else the program holds.
\<close>

definition slot_impl_refs :: "slot_table \<Rightarrow> nat \<Rightarrow> nat \<Rightarrow> nat" where
  "slot_impl_refs t i x =
     (if froth_slot_is_overlay t i
      then case froth_slot_get_impl t i of Inr impl \<Rightarrow> refs (frothy_value_from_cell impl) x | Inl e \<Rightarrow> 0
      else 0)"

definition overlay_refs :: "slot_table \<Rightarrow> nat \<Rightarrow> nat" where
  "overlay_refs t x = (\<Sum>i\<leftarrow>[0 ..< st_pointer t]. slot_impl_refs t i x)"

text \<open>The release loop gives back exactly the references bound in the slots it walks over.\<close>

lemma release_overlay_slots_ok:
  "store_ok [] [] rt \<Longrightarrow>
   count_ok (\<lambda>x. e x + (\<Sum>j\<leftarrow>[i ..< i + n]. slot_impl_refs t j x)) None rt \<Longrightarrow>
   \<exists>rt'. release_overlay_slots t i n rt = (Inr (), rt') \<and> store_ok [] [] rt' \<and>
     count_ok e None rt' \<and> frees {} rt rt'"
proof (induction n arbitrary: i rt)
  case 0
  then show ?case by (simp add: frees_refl)
next
  case (Suc n)
  have split: "(\<Sum>j\<leftarrow>[i ..< i + Suc n]. slot_impl_refs t j x)
      = slot_impl_refs t i x + (\<Sum>j\<leftarrow>[Suc i ..< Suc i + n]. slot_impl_refs t j x)" for x
    by (simp add: upt_conv_Cons del: upt_Suc)
  show ?case
  proof (cases "\<exists>impl. froth_slot_is_overlay t i \<and> froth_slot_get_impl t i = Inr impl")
    case True
    then obtain impl where impl: "froth_slot_is_overlay t i" "froth_slot_get_impl t i = Inr impl" by blast
    let ?v = "frothy_value_from_cell impl"
    have "count_ok (\<lambda>x. e x + (\<Sum>j\<leftarrow>[Suc i ..< Suc i + n]. slot_impl_refs t j x) + refs ?v x) None rt"
      using Suc.prems(2) unfolding split by (simp add: slot_impl_refs_def impl ac_simps)
    from value_release_ok [OF Suc.prems(1) this] obtain rt1 where
      rt1: "frothy_value_release ?v rt = (Inr (), rt1)" "store_ok [] [] rt1"
        "count_ok (\<lambda>x. e x + (\<Sum>j\<leftarrow>[Suc i ..< Suc i + n]. slot_impl_refs t j x)) None rt1"
        "frees {} rt rt1" by (auto simp: hole_safe_def)
    from Suc.IH [OF rt1(2,3)] obtain rt' where
      rt': "release_overlay_slots t (Suc i) n rt1 = (Inr (), rt')" "store_ok [] [] rt'"
        "count_ok e None rt'" "frees {} rt1 rt'" by blast
    have "frees {} rt rt'" using rt1(4) rt'(4) by (rule frees_trans)
    then show ?thesis using impl rt1(1) rt' by (auto simp: and_then_def)
  next
    case False
    then have none: "slot_impl_refs t i x = 0" for x
      by (auto simp: slot_impl_refs_def split: sum.splits)
    have "release_overlay_slots t i (Suc n) rt = release_overlay_slots t (Suc i) n rt"
      using False by (auto split: sum.splits)
    moreover have "count_ok (\<lambda>x. e x + (\<Sum>j\<leftarrow>[Suc i ..< Suc i + n]. slot_impl_refs t j x)) None rt"
      using Suc.prems(2) unfolding split none by simp
    ultimately show ?thesis using Suc.IH [OF Suc.prems(1)] by simp
  qed
qed

text \<open>Discarding objects touches neither the cell space nor the capacities.\<close>

definition same_capacities :: "frothy_runtime \<Rightarrow> frothy_runtime \<Rightarrow> bool" where
  "same_capacities rt rt' \<longleftrightarrow> rt_cellspace rt' = rt_cellspace rt \<and>
     rt_payload_capacity rt' = rt_payload_capacity rt \<and>
     rt_payload_bytes rt' = rt_payload_bytes rt \<and>
     rt_object_capacity rt' = rt_object_capacity rt"

lemma discard_same_capacities: "same_capacities rt (frothy_runtime_discard_object i rt)"
  by (simp add: same_capacities_def frothy_runtime_discard_object_def
      frothy_runtime_release_object_storage_def frothy_runtime_release_code_storage_def
      frothy_runtime_finish_object_teardown_def set_object_def frothy_runtime_release_payload_def
      frothy_runtime_add_payload_free_span_def split: frothy_object_as.split prod.split)

lemma discard_all_same_capacities: "same_capacities rt (discard_all i n rt)"
proof (induction n arbitrary: i rt)
  case (Suc n)
  show ?case
    using Suc.IH [of "frothy_runtime_discard_object i rt" "Suc i"] discard_same_capacities [of rt i]
    by (simp add: same_capacities_def)
qed (simp add: same_capacities_def)

text \<open>C33. Resetting the overlay of a consistent runtime succeeds whatever else the program still
holds: afterwards the object store is empty, with nothing in use in either arena and nothing
counted, the runtime is consistent with no one referring into it, the evaluator's values are gone,
and the slot table is the one with its overlay slots forgotten.\<close>

theorem reset_overlay_spec:
  assumes "runtime_ok (\<lambda>x. e x + overlay_refs t x) rt"
  shows "\<exists>rt'. frothy_runtime_reset_overlay t rt = (Inr (), froth_slot_reset_overlay t, rt') \<and>
    runtime_ok (\<lambda>x. 0) rt' \<and> store_empty rt' \<and> rt_objects rt' = [] \<and> rt_eval_value_used rt' = 0"
proof -
  have "count_ok (\<lambda>x. e x + (\<Sum>j\<leftarrow>[0 ..< 0 + st_pointer t]. slot_impl_refs t j x)) None rt"
    using runtime_okD(2) [OF assms] by (simp add: overlay_refs_def)
  from release_overlay_slots_ok [OF runtime_okD(1) [OF assms] this] obtain rt1 where
    rt1: "release_overlay_slots t 0 (st_pointer t) rt = (Inr (), rt1)" "store_ok [] [] rt1" by blast
  let ?cs = "froth_cellspace_reset_to_base (rt_cellspace rt1)"
  let ?rt2 = "rt1\<lparr>rt_cellspace := ?cs\<rparr>"
  let ?rt3 = "discard_all 0 (length (rt_objects rt1)) ?rt2"
  have cs: "cellspace_wf ?cs" "cs_used ?cs = 0" "cs_base_mark ?cs = 0"
    using rt1(2) by (simp_all add: store_ok_def cells_ok_def froth_cellspace_reset_to_base_def
        cellspace_wf_def store_at_def)
  have caps: "same_capacities ?rt2 ?rt3" by (rule discard_all_same_capacities)
  have sizes: "length (rt_payload_bytes rt1) = rt_payload_capacity rt1" "rt_object_capacity rt1 < 2 ^ 30"
    using rt1(2) by (simp_all add: store_ok_def payload_ok_def table_ok_def)
  define rt' where "rt' = snd (frothy_runtime_clear_overlay_state t rt)"
  have run: "frothy_runtime_clear_overlay_state t rt = (Inr (), rt')"
    by (simp add: rt'_def frothy_runtime_clear_overlay_state_def rt1(1) and_then_def Let_def)
  have st: "rt_objects rt' = []" "rt_free_spans rt' = []" "rt_payload_free_spans rt' = []"
    "rt_payload_extent rt' = 0" "rt_payload_bytes_used rt' = 0" "rt_live_object_count rt' = 0"
    "rt_eval_value_used rt' = 0" "rt_cellspace rt' = ?cs"
    "rt_payload_bytes rt' = rt_payload_bytes rt1" "rt_payload_capacity rt' = rt_payload_capacity rt1"
    "rt_object_capacity rt' = rt_object_capacity rt1"
    using caps by (simp_all add: rt'_def frothy_runtime_clear_overlay_state_def rt1(1) and_then_def Let_def
        same_capacities_def)
  have "runtime_ok (\<lambda>x. 0) rt'"
    using cs sizes by (simp add: runtime_ok_def quiet_def store_ok_def payload_ok_def cells_ok_def
        table_ok_def payload_owned_def cells_owned_def count_ok_def refs_to_def rc_def st)
  moreover have "store_empty rt'" using cs(2) by (simp add: store_empty_def st)
  moreover have "frothy_runtime_reset_overlay t rt = (Inr (), froth_slot_reset_overlay t, rt')"
    unfolding frothy_runtime_reset_overlay_def run by simp
  ultimately show ?thesis using st(1,7) by blast
qed

definition sample_overlay :: slot_table where
  "sample_overlay = empty_slots\<lparr>st_slots := [zero_slot\<lparr>sl_name := Some 0, sl_overlay := 1,
     sl_impl_bound := 1, sl_impl := frothy_value_to_cell (frothy_object_value 0)\<rparr>], st_pointer := 1\<rparr>"

theorem reset_overlay_spec_witness:
  "\<exists>rt'. frothy_runtime_reset_overlay sample_overlay sample_with_text =
     (Inr (), froth_slot_reset_overlay sample_overlay, rt') \<and> store_empty rt'"
proof -
  have "overlay_refs sample_overlay x = refs (frothy_object_value 0) x" for x
    by (simp add: overlay_refs_def slot_impl_refs_def sample_overlay_def froth_slot_is_overlay_def
        index_has_slot_assigned_def froth_slot_get_impl_def frothy_value_to_cell_def
        frothy_value_from_cell_def)
  then have "runtime_ok (\<lambda>x. 0 + overlay_refs sample_overlay x) sample_with_text"
    using sample_with_text_ok by simp
  from reset_overlay_spec [OF this] show ?thesis by blast
qed

end
