(* ===== verification/Frothy_Snapshot.thy ===== *)
theory Frothy_Snapshot
  imports Froth_Crc
begin

text \<open>
  The snapshot container (\<^verbatim>\<open>src/frothy_snapshot.c\<close>): the 50-byte header with its two check sums,
  the two storage slots, the choice of the slot to read and of the slot to write, and the two
  writes of a save, over the file storage of \<^verbatim>\<open>platforms/posix/platform.c\<close>.

  A storage slot is the content of its file, or none when there is no file. A write can go wrong in two
  ways. \<open>WRITE_CUT k\<close> stops it after \<open>k\<close> bytes with an I/O error, which also stands for the power
  failing at that point, since the save does nothing after an error. \<open>FLUSH_LOST k\<close> loses all but the
  first \<open>k\<close> bytes when the stream is closed: the bytes are still in the stream's buffer then, and the
  code ignores what \<^verbatim>\<open>fclose\<close> returns, so the write reports success. The encoding of the payload is the
  subject of the codec theories.
\<close>

subsection \<open>Header\<close>

definition FROTH_SNAPSHOT_MAGIC :: "byte list" where
  "FROTH_SNAPSHOT_MAGIC = [0x46, 0x52, 0x54, 0x48, 0x53, 0x4E, 0x41, 0x50]"

definition FROTH_SNAPSHOT_VERSION :: "16 word" where "FROTH_SNAPSHOT_VERSION = 0x0005"
definition FROTH_SNAPSHOT_HEADER_SIZE :: nat where "FROTH_SNAPSHOT_HEADER_SIZE = 50"
definition FROTH_SNAPSHOT_BLOCK_SIZE :: nat where "FROTH_SNAPSHOT_BLOCK_SIZE = 2048"

definition FROTH_SNAPSHOT_MAX_PAYLOAD_BYTES :: nat where
  "FROTH_SNAPSHOT_MAX_PAYLOAD_BYTES = FROTH_SNAPSHOT_BLOCK_SIZE - FROTH_SNAPSHOT_HEADER_SIZE"

definition FROTH_CELL_SIZE_BITS :: byte where "FROTH_CELL_SIZE_BITS = 32"

definition FROTH_SNAPSHOT_MAGIC_OFFSET :: nat where "FROTH_SNAPSHOT_MAGIC_OFFSET = 0"
definition FROTH_SNAPSHOT_VERSION_OFFSET :: nat where "FROTH_SNAPSHOT_VERSION_OFFSET = 8"
definition FROTH_SNAPSHOT_FLAGS_OFFSET :: nat where "FROTH_SNAPSHOT_FLAGS_OFFSET = 10"
definition FROTH_SNAPSHOT_CELL_BITS_OFFSET :: nat where "FROTH_SNAPSHOT_CELL_BITS_OFFSET = 12"
definition FROTH_SNAPSHOT_ENDIAN_OFFSET :: nat where "FROTH_SNAPSHOT_ENDIAN_OFFSET = 13"
definition FROTH_SNAPSHOT_ABI_HASH_OFFSET :: nat where "FROTH_SNAPSHOT_ABI_HASH_OFFSET = 14"
definition FROTH_SNAPSHOT_GENERATION_OFFSET :: nat where "FROTH_SNAPSHOT_GENERATION_OFFSET = 18"
definition FROTH_SNAPSHOT_PAYLOAD_LEN_OFFSET :: nat where "FROTH_SNAPSHOT_PAYLOAD_LEN_OFFSET = 22"
definition FROTH_SNAPSHOT_PAYLOAD_CRC32_OFFSET :: nat where "FROTH_SNAPSHOT_PAYLOAD_CRC32_OFFSET = 26"
definition FROTH_SNAPSHOT_HEADER_CRC32_OFFSET :: nat where "FROTH_SNAPSHOT_HEADER_CRC32_OFFSET = 30"

lemmas snapshot_offsets = FROTH_SNAPSHOT_HEADER_SIZE_def FROTH_SNAPSHOT_MAGIC_OFFSET_def
  FROTH_SNAPSHOT_VERSION_OFFSET_def FROTH_SNAPSHOT_FLAGS_OFFSET_def
  FROTH_SNAPSHOT_CELL_BITS_OFFSET_def FROTH_SNAPSHOT_ENDIAN_OFFSET_def
  FROTH_SNAPSHOT_ABI_HASH_OFFSET_def FROTH_SNAPSHOT_GENERATION_OFFSET_def
  FROTH_SNAPSHOT_PAYLOAD_LEN_OFFSET_def FROTH_SNAPSHOT_PAYLOAD_CRC32_OFFSET_def
  FROTH_SNAPSHOT_HEADER_CRC32_OFFSET_def

record frothy_snapshot_header_info =
  sh_payload_len :: "32 word"
  sh_generation :: "32 word"
  sh_flags :: "16 word"

definition frothy_snapshot_read_le16 :: "byte list \<Rightarrow> nat \<Rightarrow> 16 word" where
  "frothy_snapshot_read_le16 buffer off = of_le16 (buffer ! off) (buffer ! (off + 1))"

definition frothy_snapshot_read_le32 :: "byte list \<Rightarrow> nat \<Rightarrow> 32 word" where
  "frothy_snapshot_read_le32 buffer off =
     of_le32 (buffer ! off) (buffer ! (off + 1)) (buffer ! (off + 2)) (buffer ! (off + 3))"

definition frothy_snapshot_abi_hash :: "32 word" where
  "frothy_snapshot_abi_hash = froth_crc32 ([FROTH_CELL_SIZE_BITS, 0] @ le16 FROTH_SNAPSHOT_VERSION)"

definition frothy_snapshot_stored_crc32 :: "byte list \<Rightarrow> 32 word" where
  "frothy_snapshot_stored_crc32 header =
     frothy_snapshot_read_le32 header FROTH_SNAPSHOT_PAYLOAD_CRC32_OFFSET"

definition frothy_snapshot_build_header :: "32 word \<Rightarrow> byte list \<Rightarrow> 32 word \<Rightarrow> byte list" where
  "frothy_snapshot_build_header payload_len payload generation =
     (let h = replicate FROTH_SNAPSHOT_HEADER_SIZE 0;
          h = store_at h FROTH_SNAPSHOT_MAGIC_OFFSET FROTH_SNAPSHOT_MAGIC;
          h = store_at h FROTH_SNAPSHOT_VERSION_OFFSET (le16 FROTH_SNAPSHOT_VERSION);
          h = store_at h FROTH_SNAPSHOT_FLAGS_OFFSET (le16 0);
          h = store_at h FROTH_SNAPSHOT_CELL_BITS_OFFSET [FROTH_CELL_SIZE_BITS];
          h = store_at h FROTH_SNAPSHOT_ENDIAN_OFFSET [0];
          h = store_at h FROTH_SNAPSHOT_ABI_HASH_OFFSET (le32 frothy_snapshot_abi_hash);
          h = store_at h FROTH_SNAPSHOT_GENERATION_OFFSET (le32 generation);
          h = store_at h FROTH_SNAPSHOT_PAYLOAD_LEN_OFFSET (le32 payload_len);
          h = store_at h FROTH_SNAPSHOT_PAYLOAD_CRC32_OFFSET
                (le32 (froth_crc32 (take (unat payload_len) payload)))
      in store_at h FROTH_SNAPSHOT_HEADER_CRC32_OFFSET
           (le32 (froth_crc32 (take FROTH_SNAPSHOT_HEADER_SIZE h))))"

definition frothy_snapshot_parse_header :: "byte list \<Rightarrow> frothy_snapshot_header_info result" where
  "frothy_snapshot_parse_header header =
     (if load_at header FROTH_SNAPSHOT_MAGIC_OFFSET 8 \<noteq> FROTH_SNAPSHOT_MAGIC
      then Inl FROTH_ERROR_SNAPSHOT_FORMAT
      else
        let copy = take FROTH_SNAPSHOT_HEADER_SIZE header;
            stored_header_crc = frothy_snapshot_read_le32 copy FROTH_SNAPSHOT_HEADER_CRC32_OFFSET;
            copy = store_at copy FROTH_SNAPSHOT_HEADER_CRC32_OFFSET (replicate 4 0)
        in if froth_crc32 (take FROTH_SNAPSHOT_HEADER_SIZE copy) \<noteq> stored_header_crc
           then Inl FROTH_ERROR_SNAPSHOT_BAD_CRC
           else if frothy_snapshot_read_le16 header FROTH_SNAPSHOT_VERSION_OFFSET \<noteq> FROTH_SNAPSHOT_VERSION
           then Inl FROTH_ERROR_SNAPSHOT_FORMAT
           else if frothy_snapshot_read_le32 header FROTH_SNAPSHOT_ABI_HASH_OFFSET \<noteq> frothy_snapshot_abi_hash
           then Inl FROTH_ERROR_SNAPSHOT_INCOMPAT
           else Inr \<lparr>sh_payload_len = frothy_snapshot_read_le32 header FROTH_SNAPSHOT_PAYLOAD_LEN_OFFSET,
                      sh_generation = frothy_snapshot_read_le32 header FROTH_SNAPSHOT_GENERATION_OFFSET,
                      sh_flags = frothy_snapshot_read_le16 header FROTH_SNAPSHOT_FLAGS_OFFSET\<rparr>)"

text \<open>The header as one list of bytes.\<close>

definition header_bytes :: "32 word \<Rightarrow> 32 word \<Rightarrow> 32 word \<Rightarrow> 32 word \<Rightarrow> byte list" where
  "header_bytes len gen payload_crc header_crc =
     FROTH_SNAPSHOT_MAGIC @ le16 FROTH_SNAPSHOT_VERSION @ le16 0 @ [FROTH_CELL_SIZE_BITS, 0] @
     le32 frothy_snapshot_abi_hash @ le32 gen @ le32 len @ le32 payload_crc @ le32 header_crc @
     replicate 16 0"

lemma store_at_skip: "length xs \<le> n \<Longrightarrow> store_at (xs @ zs) n ys = xs @ store_at zs (n - length xs) ys"
  by (simp add: store_at_def)

lemma store_at_field: "length xs = length ys \<Longrightarrow> store_at (xs @ zs) 0 ys = ys @ zs"
  by (simp add: store_at_def)

lemma store_at_Cons:
  "store_at (x # zs) 0 [y] = y # zs" "0 < n \<Longrightarrow> store_at (x # zs) n ys = x # store_at zs (n - 1) ys"
  by (cases n; simp add: store_at_def)+

lemma load_at_skip: "length xs \<le> n \<Longrightarrow> load_at (xs @ zs) n k = load_at zs (n - length xs) k"
  by (simp add: load_at_def)

lemma load_at_field: "length xs = k \<Longrightarrow> load_at (xs @ zs) 0 k = xs"
  by (simp add: load_at_def)

lemma length_magic [simp]: "length FROTH_SNAPSHOT_MAGIC = 8"
  by (simp add: FROTH_SNAPSHOT_MAGIC_def)

lemma zero_header:
  "replicate 50 (0 :: byte) = replicate 8 0 @ replicate 2 0 @ replicate 2 0 @ [0] @ [0] @
     replicate 4 0 @ replicate 4 0 @ replicate 4 0 @ replicate 4 0 @ replicate 4 0 @ replicate 16 0"
  by (simp add: replicate_add [symmetric] flip: replicate_Suc)

lemma length_header_bytes [simp]: "length (header_bytes len gen pc hc) = 50"
  by (simp add: header_bytes_def)

lemma build_header_bytes:
  "frothy_snapshot_build_header len payload gen =
     header_bytes len gen (froth_crc32 (take (unat len) payload))
       (froth_crc32 (header_bytes len gen (froth_crc32 (take (unat len) payload)) 0))"
proof -
  have zero: "le32 0 = replicate 4 0" by (simp add: le32_def numeral_eq_Suc)
  show ?thesis
    unfolding frothy_snapshot_build_header_def snapshot_offsets zero_header Let_def
    by (simp add: store_at_skip store_at_field store_at_Cons header_bytes_def zero del: replicate.simps)
qed

lemma read_le32_skip:
  "length xs \<le> n \<Longrightarrow> frothy_snapshot_read_le32 (xs @ zs) n = frothy_snapshot_read_le32 zs (n - length xs)"
  by (elim le_Suc_ex [THEN exE])
     (simp only: frothy_snapshot_read_le32_def nth_append_length_plus add.assoc diff_add_inverse)

lemma read_le32_field [simp]: "frothy_snapshot_read_le32 (le32 v @ zs) 0 = v"
  by (simp add: frothy_snapshot_read_le32_def le32_def)

lemma read_le16_skip:
  "length xs \<le> n \<Longrightarrow> frothy_snapshot_read_le16 (xs @ zs) n = frothy_snapshot_read_le16 zs (n - length xs)"
  by (elim le_Suc_ex [THEN exE])
     (simp only: frothy_snapshot_read_le16_def nth_append_length_plus add.assoc diff_add_inverse)

lemma read_le16_field [simp]: "frothy_snapshot_read_le16 (le16 v @ zs) 0 = v"
  by (simp add: frothy_snapshot_read_le16_def le16_def)

lemma read_le_Cons:
  "0 < n \<Longrightarrow> frothy_snapshot_read_le32 (x # zs) n = frothy_snapshot_read_le32 zs (n - 1)"
  by (simp add: frothy_snapshot_read_le32_def nth_Cons')

lemma header_fields:
  "load_at (header_bytes len gen pc hc) 0 8 = FROTH_SNAPSHOT_MAGIC"
  "frothy_snapshot_read_le16 (header_bytes len gen pc hc) 8 = FROTH_SNAPSHOT_VERSION"
  "frothy_snapshot_read_le16 (header_bytes len gen pc hc) 10 = 0"
  "frothy_snapshot_read_le32 (header_bytes len gen pc hc) 14 = frothy_snapshot_abi_hash"
  "frothy_snapshot_read_le32 (header_bytes len gen pc hc) 18 = gen"
  "frothy_snapshot_read_le32 (header_bytes len gen pc hc) 22 = len"
  "frothy_snapshot_read_le32 (header_bytes len gen pc hc) 26 = pc"
  "frothy_snapshot_read_le32 (header_bytes len gen pc hc) 30 = hc"
  by (simp_all add: header_bytes_def load_at_field read_le32_skip read_le16_skip read_le_Cons
      del: replicate.simps)

lemma header_crc_cleared:
  "store_at (header_bytes len gen pc hc) 30 (replicate 4 0) = header_bytes len gen pc 0"
proof -
  have zero: "le32 0 = replicate 4 0" by (simp add: le32_def numeral_eq_Suc)
  show ?thesis
    by (simp add: header_bytes_def store_at_skip store_at_field store_at_Cons zero del: replicate.simps)
qed

lemma take_header_bytes [simp]: "take 50 (header_bytes len gen pc hc) = header_bytes len gen pc hc"
  by simp

lemma header_roundtrip:
  "frothy_snapshot_parse_header (frothy_snapshot_build_header len payload gen)
     = Inr \<lparr>sh_payload_len = len, sh_generation = gen, sh_flags = 0\<rparr> \<and>
   frothy_snapshot_stored_crc32 (frothy_snapshot_build_header len payload gen)
     = froth_crc32 (take (unat len) payload)"
  unfolding build_header_bytes frothy_snapshot_stored_crc32_def
  by (simp add: frothy_snapshot_parse_header_def snapshot_offsets header_fields header_crc_cleared
      Let_def)

text \<open>C35. A header that was built parses, and gives back the length and the generation it was built
with and no flags; the payload check sum stored in it is that of the payload.\<close>

theorem snapshot_header_roundtrip:
  "frothy_snapshot_parse_header (frothy_snapshot_build_header len payload gen)
     = Inr \<lparr>sh_payload_len = len, sh_generation = gen, sh_flags = 0\<rparr> \<and>
   frothy_snapshot_stored_crc32 (frothy_snapshot_build_header len payload gen)
     = froth_crc32 (take (unat len) payload)"
  using header_roundtrip .

text \<open>C34. A single corrupted byte of a built header is always noticed: with any one of its 50 bytes
changed to another value, the header is refused.\<close>

theorem snapshot_header_corruption:
  assumes "i < 50" and "b \<noteq> frothy_snapshot_build_header len payload gen ! i"
  shows "\<exists>e. frothy_snapshot_parse_header ((frothy_snapshot_build_header len payload gen)[i := b]) = Inl e"
proof -
  let ?pc = "froth_crc32 (take (unat len) payload)"
  let ?zh = "header_bytes len gen ?pc 0"
  let ?h = "header_bytes len gen ?pc (froth_crc32 ?zh)"
  have h: "frothy_snapshot_build_header len payload gen = ?h" by (rule build_header_bytes)
  have neq: "b \<noteq> ?h ! i" using assms(2) h by simp
  consider (magic) "i < 8" | (crc) "30 \<le> i" "i < 34" | (body) "8 \<le> i" "i < 30 \<or> 34 \<le> i"
    by linarith
  then show ?thesis
  proof cases
    case magic
    have "load_at (?h[i := b]) 0 8 ! i \<noteq> load_at ?h 0 8 ! i"
      using magic neq by (simp add: load_at_def)
    then have "load_at (?h[i := b]) 0 8 \<noteq> FROTH_SNAPSHOT_MAGIC" using header_fields(1) by metis
    then show ?thesis by (simp add: h frothy_snapshot_parse_header_def snapshot_offsets)
  next
    case crc
    have "store_at (?h[i := b]) 30 (replicate 4 0) = store_at ?h 30 (replicate 4 0)"
      using crc by (simp add: store_at_def)
    then have clear: "store_at (?h[i := b]) 30 (replicate 4 0) = ?zh"
      by (rule trans) (rule header_crc_cleared)
    have "frothy_snapshot_read_le32 (?h[i := b]) 30 \<noteq> froth_crc32 ?zh"
    proof
      assume "frothy_snapshot_read_le32 (?h[i := b]) 30 = froth_crc32 ?zh"
      then have "frothy_snapshot_read_le32 (?h[i := b]) 30 = frothy_snapshot_read_le32 ?h 30"
        by (simp only: header_fields)
      from arg_cong [OF this, of le32] have "\<forall>k < 4. (?h[i := b]) ! (30 + k) = ?h ! (30 + k)"
        unfolding frothy_snapshot_read_le32_def le32_of_le32 by (auto simp: numeral_eq_Suc less_Suc_eq)
      moreover have "i - 30 < 4" using crc by linarith
      ultimately have "(?h[i := b]) ! (30 + (i - 30)) = ?h ! (30 + (i - 30))" by blast
      then show False using crc neq assms(1) by simp
    qed
    then show ?thesis
      using clear by (auto simp: h frothy_snapshot_parse_header_def snapshot_offsets Let_def)
  next
    case body
    have "store_at (?h[i := b]) 30 (replicate 4 0) = (store_at ?h 30 (replicate 4 0))[i := b]"
      using body assms(1) by (intro nth_equalityI) (auto simp: nth_store_at nth_list_update)
    then have clear: "store_at (?h[i := b]) 30 (replicate 4 0) = ?zh[i := b]"
      unfolding header_crc_cleared .
    have "?h ! i = store_at ?h 30 (replicate 4 0) ! i" using body assms(1) by (auto simp: nth_store_at)
    then have "?h ! i = ?zh ! i" unfolding header_crc_cleared .
    then have "froth_crc32 (?zh[i := b]) \<noteq> froth_crc32 ?zh"
      using neq assms(1) by (intro crc32_list_update) simp_all
    moreover have "frothy_snapshot_read_le32 (?h[i := b]) 30 = frothy_snapshot_read_le32 ?h 30"
    proof -
      have "i \<noteq> 30" "i \<noteq> 30 + 1" "i \<noteq> 30 + 2" "i \<noteq> 30 + 3" using body by linarith+
      then show ?thesis by (simp only: frothy_snapshot_read_le32_def nth_list_update_neq not_False_eq_True)
    qed
    ultimately have "froth_crc32 (?zh[i := b]) \<noteq> frothy_snapshot_read_le32 (?h[i := b]) 30"
      by (simp only: header_fields not_False_eq_True)
    then show ?thesis
      using clear by (auto simp: h frothy_snapshot_parse_header_def snapshot_offsets Let_def)
  qed
qed

theorem snapshot_header_corruption_witness:
  "\<exists>e. frothy_snapshot_parse_header
     ((frothy_snapshot_build_header 0 [] 1)[0 := 7]) = Inl e"
proof -
  have "frothy_snapshot_build_header 0 [] 1 ! 0 = 0x46"
    by (simp add: build_header_bytes header_bytes_def FROTH_SNAPSHOT_MAGIC_def)
  then show ?thesis by (intro snapshot_header_corruption) simp_all
qed

subsection \<open>Storage\<close>

record snapshot_storage =
  ss_a :: "byte list option"
  ss_b :: "byte list option"

definition snap_file :: "nat \<Rightarrow> snapshot_storage \<Rightarrow> byte list option" where
  "snap_file slot st = (if slot = 0 then ss_a st else ss_b st)"

definition set_snap_file :: "nat \<Rightarrow> byte list option \<Rightarrow> snapshot_storage \<Rightarrow> snapshot_storage" where
  "set_snap_file slot c st = (if slot = 0 then st\<lparr>ss_a := c\<rparr> else st\<lparr>ss_b := c\<rparr>)"

definition platform_snapshot_read :: "nat \<Rightarrow> nat \<Rightarrow> nat \<Rightarrow> snapshot_storage \<Rightarrow> byte list result" where
  "platform_snapshot_read slot offset len st =
     (case snap_file slot st of
        None \<Rightarrow> Inl FROTH_ERROR_IO
      | Some c \<Rightarrow> if len = 0 \<or> length c < offset + len then Inl FROTH_ERROR_IO
                  else Inr (load_at c offset len))"

text \<open>A file written past its end is filled up with zeros; nothing written leaves it as it is.\<close>

definition write_file :: "byte list \<Rightarrow> nat \<Rightarrow> byte list \<Rightarrow> byte list" where
  "write_file c offset bs =
     (if bs = [] then c else store_at (c @ replicate (offset - length c) 0) offset bs)"

datatype write_fault = WRITE_CUT nat | FLUSH_LOST nat

fun fault_cut :: "write_fault option \<Rightarrow> nat option" where
  "fault_cut None = None"
| "fault_cut (Some (WRITE_CUT k)) = Some k"
| "fault_cut (Some (FLUSH_LOST k)) = Some k"

fun fault_reported :: "write_fault option \<Rightarrow> bool" where
  "fault_reported (Some (WRITE_CUT k)) = True"
| "fault_reported f = False"

definition platform_snapshot_write ::
  "write_fault option \<Rightarrow> nat \<Rightarrow> nat \<Rightarrow> byte list \<Rightarrow> snapshot_storage \<Rightarrow> unit result \<times> snapshot_storage" where
  "platform_snapshot_write fault slot offset bs st =
     (let c = (case snap_file slot st of None \<Rightarrow> [] | Some c \<Rightarrow> c);
          written = (case fault_cut fault of None \<Rightarrow> bs | Some k \<Rightarrow> take k bs)
      in (if bs = [] \<or> fault_reported fault then Inl FROTH_ERROR_IO else Inr (),
          set_snap_file slot (Some (write_file c offset written)) st))"

definition platform_snapshot_erase :: "nat \<Rightarrow> snapshot_storage \<Rightarrow> snapshot_storage" where
  "platform_snapshot_erase slot st = set_snap_file slot None st"

subsection \<open>Choosing the slot\<close>

definition frothy_snapshot_read_slot_header ::
  "nat \<Rightarrow> snapshot_storage \<Rightarrow> frothy_snapshot_header_info result" where
  "frothy_snapshot_read_slot_header slot st =
     FROTH_TRY (platform_snapshot_read slot 0 FROTH_SNAPSHOT_HEADER_SIZE st) frothy_snapshot_parse_header"

definition frothy_snapshot_pick_active :: "snapshot_storage \<Rightarrow> (nat \<times> 32 word) result" where
  "frothy_snapshot_pick_active st =
     (case (frothy_snapshot_read_slot_header 0 st, frothy_snapshot_read_slot_header 1 st) of
        (Inl err_a, Inl err_b) \<Rightarrow> Inl FROTH_ERROR_SNAPSHOT_NO_SNAPSHOT
      | (Inr a, Inl err_b) \<Rightarrow> Inr (0, sh_generation a)
      | (Inl err_a, Inr b) \<Rightarrow> Inr (1, sh_generation b)
      | (Inr a, Inr b) \<Rightarrow>
          if sh_generation b \<le> sh_generation a then Inr (0, sh_generation a)
          else Inr (1, sh_generation b))"

definition frothy_snapshot_pick_inactive :: "snapshot_storage \<Rightarrow> nat \<times> 32 word" where
  "frothy_snapshot_pick_inactive st =
     (case (frothy_snapshot_read_slot_header 0 st, frothy_snapshot_read_slot_header 1 st) of
        (Inl err_a, Inl err_b) \<Rightarrow> (0, 1)
      | (Inr a, Inl err_b) \<Rightarrow> (1, sh_generation a + 1)
      | (Inl err_a, Inr b) \<Rightarrow> (0, sh_generation b + 1)
      | (Inr a, Inr b) \<Rightarrow>
          if sh_generation a \<le> sh_generation b then (0, sh_generation b + 1)
          else (1, sh_generation a + 1))"

subsection \<open>Storing and loading a payload\<close>

text \<open>The part of a save that follows the encoding, and the part of a restore that precedes the
decoding.\<close>

definition snapshot_store_payload ::
  "write_fault option \<Rightarrow> write_fault option \<Rightarrow> byte list \<Rightarrow> snapshot_storage \<Rightarrow>
   unit result \<times> snapshot_storage" where
  "snapshot_store_payload fault1 fault2 payload st =
     (let (slot, generation) = frothy_snapshot_pick_inactive st
      in case platform_snapshot_write fault1 slot FROTH_SNAPSHOT_HEADER_SIZE payload st of
           (Inl e, st) \<Rightarrow> (Inl e, st)
         | (Inr u, st) \<Rightarrow>
             platform_snapshot_write fault2 slot 0
               (frothy_snapshot_build_header (word_of_nat (length payload)) payload generation) st)"

definition snapshot_load_payload :: "snapshot_storage \<Rightarrow> byte list result" where
  "snapshot_load_payload st =
     FROTH_TRY (frothy_snapshot_pick_active st) (\<lambda>(slot, generation).
     FROTH_TRY (platform_snapshot_read slot 0 FROTH_SNAPSHOT_HEADER_SIZE st) (\<lambda>header.
     FROTH_TRY (frothy_snapshot_parse_header header) (\<lambda>info.
     if FROTH_SNAPSHOT_MAX_PAYLOAD_BYTES < unat (sh_payload_len info)
     then Inl FROTH_ERROR_SNAPSHOT_OVERFLOW
     else
       FROTH_TRY (platform_snapshot_read slot FROTH_SNAPSHOT_HEADER_SIZE (unat (sh_payload_len info)) st)
         (\<lambda>payload.
       if froth_crc32 payload \<noteq> frothy_snapshot_stored_crc32 header
       then Inl FROTH_ERROR_SNAPSHOT_BAD_CRC
       else Inr payload))))"

subsection \<open>Reading back what was written\<close>

lemma snap_file_set [simp]:
  "snap_file slot (set_snap_file slot c st) = c"
  "(slot = 0) \<noteq> (slot' = 0) \<Longrightarrow> snap_file slot' (set_snap_file slot c st) = snap_file slot' st"
  by (auto simp: snap_file_def set_snap_file_def)

lemma nth_write_file:
  assumes "bs \<noteq> []"
  shows "length (write_file c off bs) = max (length c) (off + length bs)"
    "i < max (length c) (off + length bs) \<Longrightarrow> write_file c off bs ! i =
       (if off \<le> i \<and> i < off + length bs then bs ! (i - off) else if i < length c then c ! i else 0)"
  using assms by (auto simp: write_file_def store_at_def nth_append min_def max_def split: if_splits)

lemma length_write_file: "length c \<le> length (write_file c off bs)"
proof (cases "bs = []")
  case False
  show ?thesis unfolding nth_write_file(1) [OF False] by (rule max.cobounded1)
qed (simp add: write_file_def)

lemma load_at_write_file:
  assumes "bs \<noteq> []"
  shows "load_at (write_file c off bs) off (length bs) = bs"
    "o2 + n \<le> length c \<Longrightarrow> o2 + n \<le> off \<or> off + length bs \<le> o2 \<Longrightarrow>
       load_at (write_file c off bs) o2 n = load_at c o2 n"
proof -
  show "load_at (write_file c off bs) off (length bs) = bs"
    using assms by (intro nth_equalityI) (auto simp: load_at_def nth_write_file)
  show "load_at (write_file c off bs) o2 n = load_at c o2 n"
    if "o2 + n \<le> length c" "o2 + n \<le> off \<or> off + length bs \<le> o2"
    using that assms by (intro nth_equalityI) (auto simp: load_at_def nth_write_file)
qed

text \<open>The generation a slot carries, when its header is accepted.\<close>

definition slot_gen :: "nat \<Rightarrow> snapshot_storage \<Rightarrow> 32 word option" where
  "slot_gen slot st =
     (case frothy_snapshot_read_slot_header slot st of
        Inl e \<Rightarrow> None | Inr info \<Rightarrow> Some (sh_generation info))"

lemma pick_active_gen:
  "frothy_snapshot_pick_active st =
     (case (slot_gen 0 st, slot_gen 1 st) of
        (None, None) \<Rightarrow> Inl FROTH_ERROR_SNAPSHOT_NO_SNAPSHOT
      | (Some a, None) \<Rightarrow> Inr (0, a)
      | (None, Some b) \<Rightarrow> Inr (1, b)
      | (Some a, Some b) \<Rightarrow> if b \<le> a then Inr (0, a) else Inr (1, b))"
  by (simp add: frothy_snapshot_pick_active_def slot_gen_def split: sum.splits)

lemma pick_inactive_gen:
  "frothy_snapshot_pick_inactive st =
     (case (slot_gen 0 st, slot_gen 1 st) of
        (None, None) \<Rightarrow> (0, 1)
      | (Some a, None) \<Rightarrow> (1, a + 1)
      | (None, Some b) \<Rightarrow> (0, b + 1)
      | (Some a, Some b) \<Rightarrow> if a \<le> b then (0, b + 1) else (1, a + 1))"
  by (simp add: frothy_snapshot_pick_inactive_def slot_gen_def split: sum.splits)

lemma no_wrap_less: "a + 1 \<noteq> (0 :: 32 word) \<Longrightarrow> a < a + 1"
proof -
  assume "a + 1 \<noteq> 0"
  then have "unat (a + 1) \<noteq> 0" by (simp add: unat_eq_0)
  moreover have "unat (a + 1) = (unat a + 1) mod 2 ^ 32" by (simp add: unat_word_ariths)
  moreover have "unat a < 2 ^ 32" using unsigned_less [of a] by simp
  ultimately have "unat (a + 1) = unat a + 1" by (cases "unat a + 1 = 2 ^ 32") simp_all
  then show ?thesis by (simp add: word_less_nat_alt)
qed

text \<open>A file of the storage is absent, empty, or holds a whole header.\<close>

definition storage_ok :: "snapshot_storage \<Rightarrow> bool" where
  "storage_ok st \<longleftrightarrow> (\<forall>slot c. snap_file slot st = Some c \<longrightarrow> c = [] \<or> 50 \<le> length c)"

text \<open>The header bytes that a save finds behind the payload it has written: those of the slot, or zeros when the
file was new.\<close>

definition old_header :: "nat \<Rightarrow> snapshot_storage \<Rightarrow> byte list" where
  "old_header slot st =
     (case snap_file slot st of
        None \<Rightarrow> replicate 50 0
      | Some c \<Rightarrow> if c = [] then replicate 50 0 else load_at c 0 50)"

lemma slot_gen_file:
  "snap_file slot st' = snap_file slot' st \<Longrightarrow> slot_gen slot st' = slot_gen slot' st"
  by (simp add: slot_gen_def frothy_snapshot_read_slot_header_def platform_snapshot_read_def)

lemma zeros_not_magic: "replicate 8 0 \<noteq> FROTH_SNAPSHOT_MAGIC"
proof
  assume "replicate 8 0 = FROTH_SNAPSHOT_MAGIC"
  then have "(replicate 8 0 :: byte list) ! 0 = FROTH_SNAPSHOT_MAGIC ! 0" by simp
  then show False by (simp add: FROTH_SNAPSHOT_MAGIC_def)
qed

lemma write_payload_ok:
  assumes st: "storage_ok st"
    and run: "platform_snapshot_write fault slot FROTH_SNAPSHOT_HEADER_SIZE p st = (r, st')"
  shows "slot_gen slot st' = slot_gen slot st" "storage_ok st'"
    "(slot = 0) \<noteq> (slot' = 0) \<Longrightarrow> snap_file slot' st' = snap_file slot' st"
    "r = Inr u \<Longrightarrow> fault = None \<Longrightarrow> \<exists>c. snap_file slot st' = Some c \<and> 50 + length p \<le> length c \<and>
       load_at c 50 (length p) = p \<and> p \<noteq> [] \<and> load_at c 0 50 = old_header slot st"
proof -
  define c where "c = (case snap_file slot st of None \<Rightarrow> [] | Some c \<Rightarrow> c)"
  define w where "w = (case fault_cut fault of None \<Rightarrow> p | Some k \<Rightarrow> take k p)"
  have st': "st' = set_snap_file slot (Some (write_file c 50 w)) st"
    and r: "r = (if p = [] \<or> fault_reported fault then Inl FROTH_ERROR_IO else Inr ())"
    using run by (auto simp: platform_snapshot_write_def snapshot_offsets c_def w_def Let_def)
  have c: "c = [] \<or> 50 \<le> length c" using st by (auto simp: c_def storage_ok_def split: option.splits)
  have gen_c: "slot_gen slot st = (case frothy_snapshot_parse_header (load_at c 0 50) of
      Inl e \<Rightarrow> None | Inr info \<Rightarrow> Some (sh_generation info))" if "50 \<le> length c"
    using that by (auto simp: slot_gen_def frothy_snapshot_read_slot_header_def
        platform_snapshot_read_def c_def snapshot_offsets split: option.splits)
  have gen_c0: "slot_gen slot st = None" if "c = []"
    using that by (auto simp: slot_gen_def frothy_snapshot_read_slot_header_def
        platform_snapshot_read_def c_def snapshot_offsets split: option.splits)
  have gen': "slot_gen slot st' = (if length (write_file c 50 w) < 50 then None
      else case frothy_snapshot_parse_header (load_at (write_file c 50 w) 0 50) of
        Inl e \<Rightarrow> None | Inr info \<Rightarrow> Some (sh_generation info))"
    by (simp add: slot_gen_def frothy_snapshot_read_slot_header_def
        platform_snapshot_read_def st' snapshot_offsets)
  show "slot_gen slot st' = slot_gen slot st"
  proof (cases "w = []")
    case True
    then have "write_file c 50 w = c" by (simp add: write_file_def)
    then show ?thesis using gen' gen_c gen_c0 c by fastforce
  next
    case False
    then have len: "length (write_file c 50 w) = max (length c) (50 + length w)"
      by (simp add: nth_write_file)
    from c show ?thesis
    proof
      assume "50 \<le> length c"
      then show ?thesis using gen' gen_c len load_at_write_file(2) [OF False, of 0 50 c 50] by simp
    next
      assume "c = []"
      then have "load_at (write_file c 50 w) 0 8 = replicate 8 0"
        using False by (simp add: write_file_def store_at_def load_at_def)
      moreover have "load_at (load_at (write_file c 50 w) 0 50) 0 8 = load_at (write_file c 50 w) 0 8"
        by (simp add: load_at_def)
      ultimately have "frothy_snapshot_parse_header (load_at (write_file c 50 w) 0 50)
          = Inl FROTH_ERROR_SNAPSHOT_FORMAT"
        using zeros_not_magic by (simp add: frothy_snapshot_parse_header_def snapshot_offsets)
      then show ?thesis using gen' gen_c0 \<open>c = []\<close> by simp
    qed
  qed
  have "write_file c 50 w = [] \<or> 50 \<le> length (write_file c 50 w)"
  proof (cases "w = []")
    case True
    then show ?thesis using c by (simp add: write_file_def)
  qed (simp add: nth_write_file le_max_iff_disj)
  then show "storage_ok st'"
    using st by (auto simp: storage_ok_def st' snap_file_def set_snap_file_def split: if_splits)
  show "(slot = 0) \<noteq> (slot' = 0) \<Longrightarrow> snap_file slot' st' = snap_file slot' st" by (simp add: st')
  have "load_at (write_file c 50 p) 0 50 = old_header slot st" if "p \<noteq> []"
  proof (cases "c = []")
    case True
    then have "load_at (write_file c 50 p) 0 50 = replicate 50 0"
      using that by (simp add: write_file_def store_at_def load_at_def)
    then show ?thesis using True by (auto simp: old_header_def c_def split: option.splits)
  next
    case False
    then have "50 \<le> length c" using c by simp
    then show ?thesis
      using False load_at_write_file(2) [OF that, of 0 50 c 50] by (auto simp: old_header_def c_def split: option.splits)
  qed
  then show "\<exists>c. snap_file slot st' = Some c \<and> 50 + length p \<le> length c \<and>
      load_at c 50 (length p) = p \<and> p \<noteq> [] \<and> load_at c 0 50 = old_header slot st" if "r = Inr u" "fault = None"
    using that by (auto simp: r st' w_def nth_write_file load_at_write_file(1) split: if_splits)
qed

lemma write_header_ok:
  assumes run: "platform_snapshot_write None slot 0 (frothy_snapshot_build_header len p gen) st = (r, st')"
  shows "r = Inr ()" "slot_gen slot st' = Some gen"
    "(slot = 0) \<noteq> (slot' = 0) \<Longrightarrow> snap_file slot' st' = snap_file slot' st"
    "snap_file slot st = Some c \<Longrightarrow> 50 \<le> off \<Longrightarrow> off + n \<le> length c \<Longrightarrow>
       \<exists>c'. snap_file slot st' = Some c' \<and> length c' = length c \<and> load_at c' off n = load_at c off n \<and>
         load_at c' 0 50 = frothy_snapshot_build_header len p gen"
proof -
  let ?h = "frothy_snapshot_build_header len p gen"
  define c0 where "c0 = (case snap_file slot st of None \<Rightarrow> [] | Some c \<Rightarrow> c)"
  have h: "length ?h = 50" "?h \<noteq> []" by (simp_all add: build_header_bytes) (simp add: header_bytes_def)
  have st': "st' = set_snap_file slot (Some (write_file c0 0 ?h)) st" and "r = Inr ()"
    using run h(2) by (auto simp: platform_snapshot_write_def c0_def Let_def)
  then show "r = Inr ()" "(slot = 0) \<noteq> (slot' = 0) \<Longrightarrow> snap_file slot' st' = snap_file slot' st"
    by simp_all
  have written: "load_at (write_file c0 0 ?h) 0 50 = ?h"
    using load_at_write_file(1) [OF h(2), of c0 0] h(1) by simp
  have "50 \<le> length (write_file c0 0 ?h)" using h by (simp add: nth_write_file)
  then show "slot_gen slot st' = Some gen"
    using written by (simp add: slot_gen_def frothy_snapshot_read_slot_header_def st'
        platform_snapshot_read_def snapshot_offsets header_roundtrip)
  show "\<exists>c'. snap_file slot st' = Some c' \<and> length c' = length c \<and> load_at c' off n = load_at c off n \<and>
      load_at c' 0 50 = ?h"
    if "snap_file slot st = Some c" "50 \<le> off" "off + n \<le> length c"
    using that h written load_at_write_file(2) [OF h(2), of off n c 0]
    by (simp add: st' c0_def nth_write_file)
qed

lemma load_written:
  assumes "frothy_snapshot_pick_active st = Inr (slot, gen)" "snap_file slot st = Some c"
    and "50 + length p \<le> length c" "load_at c 50 (length p) = p"
    and "load_at c 0 50 = frothy_snapshot_build_header (word_of_nat (length p)) p gen"
    and "0 < length p" "length p \<le> FROTH_SNAPSHOT_MAX_PAYLOAD_BYTES"
  shows "snapshot_load_payload st = Inr p"
proof -
  have "unat (word_of_nat (length p) :: 32 word) = length p"
    using assms(7) by (simp add: FROTH_SNAPSHOT_MAX_PAYLOAD_BYTES_def FROTH_SNAPSHOT_BLOCK_SIZE_def
        snapshot_offsets unsigned_of_nat take_bit_nat_eq_self)
  then show ?thesis
    using assms by (simp add: snapshot_load_payload_def platform_snapshot_read_def snapshot_offsets
        header_roundtrip)
qed

lemma store_load:
  assumes "storage_ok st" and "0 < length p" and "length p \<le> FROTH_SNAPSHOT_MAX_PAYLOAD_BYTES"
    and pick: "frothy_snapshot_pick_inactive st = (slot, gen)" and "gen \<noteq> 0"
    and run: "snapshot_store_payload None None p st = (r, st')"
  shows "r = Inr () \<and> frothy_snapshot_pick_active st' = Inr (slot, gen) \<and>
    snapshot_load_payload st' = Inr p"
proof -
  obtain r1 st1 where w1: "platform_snapshot_write None slot FROTH_SNAPSHOT_HEADER_SIZE p st = (r1, st1)"
    by (metis surj_pair)
  have r1: "r1 = Inr ()" using w1 assms(2) by (auto simp: platform_snapshot_write_def Let_def)
  let ?h = "frothy_snapshot_build_header (word_of_nat (length p)) p gen"
  have w2: "platform_snapshot_write None slot 0 ?h st1 = (r, st')"
    using run pick w1 r1 by (simp add: snapshot_store_payload_def)
  note a = write_payload_ok [OF assms(1) w1]
  note b = write_header_ok [OF w2]
  obtain c where c: "snap_file slot st1 = Some c" "50 + length p \<le> length c" "load_at c 50 (length p) = p"
    using a(4) [OF r1 refl] by blast
  from b(4) [OF c(1) order_refl c(2)] obtain c' where
    c': "snap_file slot st' = Some c'" "length c' = length c" "load_at c' 50 (length p) = p"
      "load_at c' 0 50 = ?h" using c(3) by auto
  have slot: "slot = 0 \<or> slot = 1" using pick by (auto simp: pick_inactive_gen split: option.splits if_splits)
  have other: "slot_gen (1 - slot) st' = slot_gen (1 - slot) st"
    using slot a(3) [of "1 - slot"] b(3) [of "1 - slot"] by (intro slot_gen_file) auto
  have "frothy_snapshot_pick_active st' = Inr (slot, gen)"
    using pick assms(5) slot other b(2) no_wrap_less [of "gen - 1"]
    by (auto simp: pick_inactive_gen pick_active_gen split: option.splits if_splits)
  then have "snapshot_load_payload st' = Inr p"
    using load_written [OF _ c'(1) _ c'(3,4) assms(2,3)] c'(2) c(2) by simp
  with b(1) \<open>frothy_snapshot_pick_active st' = Inr (slot, gen)\<close> show ?thesis by blast
qed

text \<open>C5. What is saved is what is loaded, while the generation counter lasts. Let each file
of the storage be absent, empty or as long as a header, let the payload be non-empty and within the
limit, and let the generation chosen for the save not be 0, which is where the counter ends up when
it wraps. Then a save without a fault reports success, its slot becomes the active one with that
generation, and loading gives back exactly the payload, whatever else the two slots held
before.\<close>

theorem snapshot_store_load:
  assumes "storage_ok st" and "0 < length p" and "length p \<le> FROTH_SNAPSHOT_MAX_PAYLOAD_BYTES"
    and pick: "frothy_snapshot_pick_inactive st = (slot, gen)" and "gen \<noteq> 0"
    and run: "snapshot_store_payload None None p st = (r, st')"
  shows "r = Inr () \<and> frothy_snapshot_pick_active st' = Inr (slot, gen) \<and>
    snapshot_load_payload st' = Inr p"
  using store_load [OF assms] .

definition empty_storage :: snapshot_storage where
  "empty_storage = \<lparr>ss_a = None, ss_b = None\<rparr>"

lemma empty_storage_facts:
  "storage_ok empty_storage" "frothy_snapshot_pick_inactive empty_storage = (0, 1)"
  by (simp_all add: storage_ok_def empty_storage_def snap_file_def pick_inactive_gen slot_gen_def
      frothy_snapshot_read_slot_header_def platform_snapshot_read_def)

theorem snapshot_store_load_witness:
  "snapshot_load_payload (snd (snapshot_store_payload None None [7, 8] empty_storage)) = Inr [7, 8]"
proof -
  have "snapshot_store_payload None None [7, 8] empty_storage
      = (fst (snapshot_store_payload None None [7, 8] empty_storage),
         snd (snapshot_store_payload None None [7, 8] empty_storage))" by simp
  from snapshot_store_load [OF empty_storage_facts(1) _ _ empty_storage_facts(2) _ this]
  show ?thesis
    by (simp add: FROTH_SNAPSHOT_MAX_PAYLOAD_BYTES_def FROTH_SNAPSHOT_BLOCK_SIZE_def snapshot_offsets)
qed

text \<open>A save writes only the slot it picked. After the whole payload has been written, the slot holds it
behind a header of which a cut write has replaced the first bytes only.\<close>

definition torn :: "nat \<Rightarrow> byte list \<Rightarrow> byte list \<Rightarrow> byte list" where
  "torn k new_header old = take k new_header @ drop k old"

lemma load_at_write_torn:
  assumes "50 \<le> length c" "length h = 50"
  shows "load_at (write_file c 0 (take k h)) 0 50 = torn k h (load_at c 0 50)"
proof (cases "take k h = []")
  case True
  then show ?thesis using assms by (auto simp: write_file_def torn_def load_at_def)
next
  case False
  define n where "n = min k 50"
  have n: "length (take k h) = n" "n \<le> 50" using assms by (simp_all add: n_def)
  have "torn k h (load_at c 0 50) = take k h @ drop n (load_at c 0 50)"
    using assms(1) by (simp add: torn_def n_def load_at_def min_def)
  moreover have "load_at (write_file c 0 (take k h)) 0 50 = take k h @ take (50 - n) (drop n c)"
  proof -
    have "take 50 (take k h @ drop n c) = take k h @ take (50 - n) (drop n c)"
      using n by (simp only: take_append take_all)
    then show ?thesis using False n(1) by (simp add: write_file_def store_at_def load_at_def)
  qed
  moreover have "take (50 - n) (drop n c) = drop n (load_at c 0 50)" by (simp add: load_at_def drop_take)
  ultimately show ?thesis by simp
qed

lemma store_payload_file:
  assumes st: "storage_ok st" and pick: "frothy_snapshot_pick_inactive st = (slot, gen)"
    and run: "snapshot_store_payload None f2 p st = (r, st')" and "p \<noteq> []"
  shows "\<exists>c. snap_file slot st' = Some c \<and> 50 + length p \<le> length c \<and> load_at c 50 (length p) = p \<and>
    load_at c 0 50 =
      (let h = frothy_snapshot_build_header (word_of_nat (length p)) p gen
       in case fault_cut f2 of None \<Rightarrow> h | Some k \<Rightarrow> torn k h (old_header slot st))"
    "r = (if fault_reported f2 then Inl FROTH_ERROR_IO else Inr ())"
proof -
  let ?h = "frothy_snapshot_build_header (word_of_nat (length p)) p gen"
  have h: "length ?h = 50" "?h \<noteq> []" by (simp_all add: build_header_bytes) (simp add: header_bytes_def)
  obtain r1 st1 where w1: "platform_snapshot_write None slot FROTH_SNAPSHOT_HEADER_SIZE p st = (r1, st1)"
    by (metis surj_pair)
  have r1: "r1 = Inr ()" using w1 assms(4) by (auto simp: platform_snapshot_write_def Let_def)
  then have w2: "platform_snapshot_write f2 slot 0 ?h st1 = (r, st')"
    using run pick w1 by (simp add: snapshot_store_payload_def)
  obtain c where c: "snap_file slot st1 = Some c" "50 + length p \<le> length c" "load_at c 50 (length p) = p"
    "load_at c 0 50 = old_header slot st"
    using write_payload_ok(4) [OF st w1 r1 refl] by blast
  define w where "w = (case fault_cut f2 of None \<Rightarrow> ?h | Some k \<Rightarrow> take k ?h)"
  have st': "st' = set_snap_file slot (Some (write_file c 0 w)) st1"
    using w2 c(1) by (auto simp: platform_snapshot_write_def w_def Let_def)
  have "length w \<le> 50" using h(1) by (auto simp: w_def split: option.splits)
  then have "load_at (write_file c 0 w) 50 (length p) = p"
    using c(2,3) load_at_write_file(2) [of w 50 "length p" c 0] by (cases "w = []") (auto simp: write_file_def)
  moreover have "50 + length p \<le> length (write_file c 0 w)"
    using length_write_file [of c 0 w] c(2) by linarith
  moreover have "load_at (write_file c 0 w) 0 50 =
      (case fault_cut f2 of None \<Rightarrow> ?h | Some k \<Rightarrow> torn k ?h (old_header slot st))"
    using load_at_write_torn [of c ?h] load_at_write_file(1) [OF h(2), of c 0] h(1) c(2,4)
    by (auto simp: w_def split: option.splits)
  ultimately show "\<exists>c. snap_file slot st' = Some c \<and> 50 + length p \<le> length c \<and> load_at c 50 (length p) = p \<and>
    load_at c 0 50 = (let h = ?h in case fault_cut f2 of None \<Rightarrow> h | Some k \<Rightarrow> torn k h (old_header slot st))"
    unfolding Let_def st' snap_file_set by blast
  show "r = (if fault_reported f2 then Inl FROTH_ERROR_IO else Inr ())"
    using w2 h(2) by (auto simp: platform_snapshot_write_def Let_def)
qed

lemma store_payload_effect:
  assumes st: "storage_ok st" and pick: "frothy_snapshot_pick_inactive st = (slot, gen)"
    and run: "snapshot_store_payload f1 f2 p st = (r, st')" and "p \<noteq> []" "fault_reported f1 \<or> f1 = None"
  shows "storage_ok st'" "(slot = 0) \<noteq> (slot' = 0) \<Longrightarrow> snap_file slot' st' = snap_file slot' st"
    "f1 = None \<Longrightarrow> f2 = None \<Longrightarrow> slot_gen slot st' = Some gen"
    "f1 \<noteq> None \<Longrightarrow> slot_gen slot st' = slot_gen slot st \<and> r \<noteq> Inr ()"
proof -
  obtain r1 st1 where w1: "platform_snapshot_write f1 slot FROTH_SNAPSHOT_HEADER_SIZE p st = (r1, st1)"
    by (metis surj_pair)
  note a = write_payload_ok [OF st w1]
  have "(slot = 0) \<noteq> (slot' = 0) \<longrightarrow> snap_file slot' st' = snap_file slot' st" for slot'
  proof (cases r1)
    case (Inl e)
    then show ?thesis using run pick w1 a(3) by (simp add: snapshot_store_payload_def)
  next
    case (Inr u)
    then have w2: "platform_snapshot_write f2 slot 0
        (frothy_snapshot_build_header (word_of_nat (length p)) p gen) st1 = (r, st')"
      using run pick w1 by (simp add: snapshot_store_payload_def)
    then have "\<exists>c. st' = set_snap_file slot (Some c) st1"
      unfolding platform_snapshot_write_def Let_def by blast
    then obtain c where "st' = set_snap_file slot (Some c) st1" by blast
    then show ?thesis using a(3) [of slot'] by simp
  qed
  then show other: "(slot = 0) \<noteq> (slot' = 0) \<Longrightarrow> snap_file slot' st' = snap_file slot' st" for slot'
    by blast
  have cut: "storage_ok st' \<and> slot_gen slot st' = slot_gen slot st \<and> r \<noteq> Inr ()" if "f1 \<noteq> None"
  proof -
    have "r1 = Inl FROTH_ERROR_IO"
      using that assms(5) w1 by (simp add: platform_snapshot_write_def Let_def split: if_splits)
    then have "st' = st1 \<and> r = Inl FROTH_ERROR_IO"
      using run pick w1 by (simp add: snapshot_store_payload_def)
    then show ?thesis using a by simp
  qed
  then show "f1 \<noteq> None \<Longrightarrow> slot_gen slot st' = slot_gen slot st \<and> r \<noteq> Inr ()" by blast
  show "storage_ok st'"
  proof (cases "f1 = None")
    case True
    from store_payload_file(1) [OF st pick run [unfolded True] assms(4)] obtain c where
      c: "snap_file slot st' = Some c" "50 \<le> length c" by (auto simp: Let_def)
    show ?thesis
      unfolding storage_ok_def
    proof (intro allI impI)
      fix k c' assume k: "snap_file k st' = Some c'"
      show "c' = [] \<or> 50 \<le> length c'"
      proof (cases "(slot = 0) = (k = 0)")
        case True
        then show ?thesis using k c by (auto simp: snap_file_def)
      next
        case False
        then show ?thesis using other [of k] k st by (auto simp: storage_ok_def)
      qed
    qed
  qed (use cut in blast)
  show "slot_gen slot st' = Some gen" if "f1 = None" "f2 = None"
  proof -
    from store_payload_file(1) [OF st pick run [unfolded that] assms(4)] obtain c where
      "snap_file slot st' = Some c" "50 \<le> length c"
      "load_at c 0 50 = frothy_snapshot_build_header (word_of_nat (length p)) p gen" by (auto simp: Let_def)
    then show ?thesis
      by (simp add: slot_gen_def frothy_snapshot_read_slot_header_def platform_snapshot_read_def
          snapshot_offsets header_roundtrip)
  qed
qed

text \<open>Which mixtures of a new and an old header the check sum lets pass. Two headers that were built differ only in
the generation, the length, the payload check sum and the header check sum. A write cut before the
generation leaves the old header, one cut within or right behind the generation changes at most four
neighbouring bytes, which the check sum notices, and one cut behind the payload check sum is noticed unless the header is already
the new one. In between, or over a slot that holds no header that was built, the check sum
could match by accident.\<close>

definition header_check_passes :: "byte list \<Rightarrow> bool" where
  "header_check_passes header \<longleftrightarrow>
     froth_crc32 (take 50 (store_at (take 50 header) 30 (replicate 4 0))) = frothy_snapshot_read_le32 (take 50 header) 30"

definition built_header :: "byte list \<Rightarrow> bool" where
  "built_header header \<longleftrightarrow> (\<exists>len payload gen. header = frothy_snapshot_build_header len payload gen)"

definition header_collision :: "nat \<Rightarrow> byte list \<Rightarrow> byte list \<Rightarrow> bool" where
  "header_collision k new_header old \<longleftrightarrow>
     (22 < k \<and> k < 30 \<or> \<not> built_header old) \<and> torn k new_header old \<notin> {new_header, old} \<and>
     header_check_passes (torn k new_header old)"

lemma parse_header_check: "frothy_snapshot_parse_header h = Inr info \<Longrightarrow> header_check_passes h"
  by (auto simp: frothy_snapshot_parse_header_def header_check_passes_def snapshot_offsets Let_def split: if_splits)

definition header_rest :: "32 word \<Rightarrow> 32 word \<Rightarrow> 32 word \<Rightarrow> byte list" where
  "header_rest len pc hc = le32 len @ le32 pc @ le32 hc @ replicate 16 0"

definition header_front :: "byte list" where
  "header_front = FROTH_SNAPSHOT_MAGIC @ le16 FROTH_SNAPSHOT_VERSION @ le16 0 @ [FROTH_CELL_SIZE_BITS, 0] @
     le32 frothy_snapshot_abi_hash"

lemma header_bytes_parts:
  "header_bytes len gen pc hc = header_front @ le32 gen @ header_rest len pc hc"
  "length header_front = 18" "length (header_rest len pc hc) = 28"
  by (simp_all add: header_bytes_def header_front_def header_rest_def del: replicate.simps)

lemma split_header: "length pre = m \<Longrightarrow> length f = n \<Longrightarrow> length pre = length pre' \<Longrightarrow> length f' = n \<Longrightarrow>
    m \<le> k \<Longrightarrow> k \<le> m + n \<Longrightarrow> torn k (pre @ f @ post) (pre' @ f' @ post') = pre @ torn (k - m) f f' @ post'"
  by (simp add: torn_def)

lemma length_torn: "length a = length b \<Longrightarrow> length (torn k a b) = length b"
  by (cases "k \<le> length b") (simp_all add: torn_def)

lemma four_bytes: "length xs = 4 \<Longrightarrow> \<exists>a b c d. xs = [a, b, c, d]"
  by (auto simp: numeral_eq_Suc length_Suc_conv)

lemma torn_header_refused:
  fixes len gen pc len' gen' pc'
  defines "old \<equiv> header_bytes len gen pc (froth_crc32 (header_bytes len gen pc 0))"
    and "new \<equiv> header_bytes len' gen' pc' (froth_crc32 (header_bytes len' gen' pc' 0))"
  assumes "header_check_passes (torn k new old)" "\<not> (22 < k \<and> k < 30)"
  shows "torn k new old \<in> {new, old}"
proof -
  have zero: "le32 0 = replicate 4 0" by (simp add: le32_def numeral_eq_Suc)
  consider (front) "k \<le> 18" | (gen) "18 \<le> k" "k \<le> 22" | (crc) "30 \<le> k" "k \<le> 34" | (tail) "34 \<le> k"
    using assms(4) by linarith
  then show ?thesis
  proof cases
    case front
    then show ?thesis by (simp add: old_def new_def torn_def header_bytes_parts take_append drop_append)
  next
    case gen
    define t where "t = torn (k - 18) (le32 gen') (le32 gen)"
    let ?hc = "froth_crc32 (header_bytes len gen pc 0)"
    have m: "torn k new old = header_front @ t @ header_rest len pc ?hc"
      unfolding old_def new_def header_bytes_parts(1) t_def
      using gen by (intro split_header [where m = 18 and n = 4]) (simp_all add: header_bytes_parts)
    have lt: "length t = 4" using gen by (simp add: t_def length_torn)
    have clear: "take 50 (store_at (take 50 (torn k new old)) 30 (replicate 4 0)) = header_front @ t @ header_rest len pc 0"
      using lt unfolding m header_rest_def
      by (simp add: store_at_skip store_at_field zero header_bytes_parts del: replicate.simps)
    have stored: "frothy_snapshot_read_le32 (take 50 (torn k new old)) 30 = ?hc"
      using lt unfolding m header_rest_def
      by (simp add: read_le32_skip header_bytes_parts del: replicate.simps)
    have eq: "froth_crc32 (header_front @ t @ header_rest len pc 0) = froth_crc32 (header_front @ le32 gen @ header_rest len pc 0)"
      using assms(3) unfolding header_check_passes_def clear stored by (simp add: header_bytes_parts)
    obtain a b c d where t: "t = [a, b, c, d]" using four_bytes [OF lt] by blast
    have "t = le32 gen" using crc32_word_change eq unfolding t le32_def by blast
    then have "torn k new old = header_bytes len gen pc ?hc" unfolding m header_bytes_parts(1) by simp
    then have "torn k new old = old" unfolding old_def .
    then show ?thesis by (rule subst) simp
  next
    case crc
    let ?hc = "froth_crc32 (header_bytes len gen pc 0)" and ?hc' = "froth_crc32 (header_bytes len' gen' pc' 0)"
    define t where "t = torn (k - 30) (le32 ?hc') (le32 ?hc)"
    have parts: "header_bytes l g p x = (header_front @ le32 g @ le32 l @ le32 p) @ le32 x @ replicate 16 0" for l g p x
      by (simp add: header_bytes_parts header_rest_def)
    have m: "torn k new old = (header_front @ le32 gen' @ le32 len' @ le32 pc') @ t @ replicate 16 0"
      unfolding old_def new_def parts [of _ _ _ "froth_crc32 _"] t_def
      using crc by (intro split_header [where m = 30 and n = 4]) (simp_all add: header_bytes_parts)
    have lt: "length t = 4" using crc by (simp add: t_def length_torn)
    have clear: "take 50 (store_at (take 50 (torn k new old)) 30 (replicate 4 0)) = header_bytes len' gen' pc' 0"
      using lt unfolding m parts
      by (simp add: store_at_skip store_at_field zero header_bytes_parts del: replicate.simps)
    obtain a b c d where t: "t = [a, b, c, d]" using four_bytes [OF lt] by blast
    have "frothy_snapshot_read_le32 (take 50 (torn k new old)) 30 = of_le32 a b c d"
      unfolding m t
      by (simp add: read_le32_skip header_bytes_parts del: replicate.simps) (simp add: frothy_snapshot_read_le32_def)
    then have "?hc' = of_le32 a b c d" using assms(3) unfolding header_check_passes_def clear by simp
    then have "t = le32 ?hc'" by (simp add: t)
    then have "torn k new old = header_bytes len' gen' pc' ?hc'" unfolding m parts by simp
    then have "torn k new old = new" unfolding new_def .
    then show ?thesis by (rule subst) simp
  next
    case tail
    have parts: "header_bytes l g p x = (header_front @ le32 g @ le32 l @ le32 p @ le32 x) @ replicate 16 0" for l g p x
      by (simp add: header_bytes_parts header_rest_def)
    have "length (header_front @ le32 g @ le32 l @ le32 p @ le32 x) = 34" for l g p x
      by (simp add: header_bytes_parts)
    then have "torn k new old = new"
      using tail unfolding old_def new_def parts [of _ _ _ "froth_crc32 _"] torn_def
      by (simp add: min_def flip: replicate_add)
    then show ?thesis by simp
  qed
qed

lemma slot_gen_old_header:
  assumes "storage_ok st"
  shows "slot_gen slot st = (case frothy_snapshot_parse_header (old_header slot st) of
     Inl e \<Rightarrow> None | Inr info \<Rightarrow> Some (sh_generation info))"
proof -
  have "load_at (replicate 50 (0 :: byte)) 0 8 = replicate 8 0" by (simp add: load_at_def del: replicate_Suc)
  then have "frothy_snapshot_parse_header (replicate 50 0) = Inl FROTH_ERROR_SNAPSHOT_FORMAT"
    using zeros_not_magic by (simp add: frothy_snapshot_parse_header_def snapshot_offsets)
  moreover have "c = [] \<or> 50 \<le> length c" if "snap_file slot st = Some c" for c
    using assms that unfolding storage_ok_def by blast
  ultimately show ?thesis
    by (cases "snap_file slot st")
       (auto simp: slot_gen_def frothy_snapshot_read_slot_header_def platform_snapshot_read_def
         old_header_def snapshot_offsets)
qed

text \<open>The slot a save has picked keeps the generation it had, has no accepted header, or holds the new
header and the whole payload.\<close>

lemma store_payload_outcome:
  assumes st: "storage_ok st" and pick: "frothy_snapshot_pick_inactive st = (slot, gen)"
    and run: "snapshot_store_payload None f2 p st = (r, st')" and "p \<noteq> []"
    and no_collision: "\<forall>k. fault_cut f2 = Some k \<longrightarrow>
      \<not> header_collision k (frothy_snapshot_build_header (word_of_nat (length p)) p gen) (old_header slot st)"
  obtains (old) "slot_gen slot st' \<in> {None, slot_gen slot st}" "f2 \<noteq> None"
    | (new) c where "snap_file slot st' = Some c" "50 + length p \<le> length c" "load_at c 50 (length p) = p"
        "load_at c 0 50 = frothy_snapshot_build_header (word_of_nat (length p)) p gen"
        "slot_gen slot st' = Some gen"
proof -
  let ?h = "frothy_snapshot_build_header (word_of_nat (length p)) p gen" and ?o = "old_header slot st"
  obtain c where c: "snap_file slot st' = Some c" "50 + length p \<le> length c" "load_at c 50 (length p) = p"
    "load_at c 0 50 = (case fault_cut f2 of None \<Rightarrow> ?h | Some k \<Rightarrow> torn k ?h ?o)"
    using store_payload_file(1) [OF st pick run assms(4)] by (auto simp: Let_def)
  have gen': "slot_gen slot st' = (case frothy_snapshot_parse_header (load_at c 0 50) of
      Inl e \<Rightarrow> None | Inr info \<Rightarrow> Some (sh_generation info))"
    using c(1,2) by (simp add: slot_gen_def frothy_snapshot_read_slot_header_def platform_snapshot_read_def
        snapshot_offsets)
  have written: thesis if "load_at c 0 50 = ?h"
  proof -
    have "slot_gen slot st' = Some gen" using gen' that by (simp add: header_roundtrip)
    from new [OF c(1-3) that this] show thesis .
  qed
  show thesis
  proof (cases "fault_cut f2")
    case None
    then show thesis using c(4) written by simp
  next
    case (Some k)
    then have f2: "f2 \<noteq> None" by (cases f2) auto
    have m: "load_at c 0 50 = torn k ?h ?o" using c(4) Some by simp
    show thesis
    proof (cases "torn k ?h ?o \<in> {?h, ?o}")
      case True
      then show thesis using written m f2 old slot_gen_old_header [OF st, of slot] gen' by auto
    next
      case False
      have "\<not> header_check_passes (torn k ?h ?o)"
      proof
        assume passes: "header_check_passes (torn k ?h ?o)"
        then have "built_header ?o" and k: "\<not> (22 < k \<and> k < 30)"
          using no_collision Some False by (auto simp: header_collision_def)
        then obtain len payload g where "?o = frothy_snapshot_build_header len payload g"
          by (auto simp: built_header_def)
        then show False
          using torn_header_refused [OF _ k] passes False unfolding build_header_bytes by metis
      qed
      then have "slot_gen slot st' = None"
        using gen' m parse_header_check by (auto split: sum.splits)
      then show thesis using old f2 by simp
    qed
  qed
qed

text \<open>C4. A save is atomic. Let the two slots carry different generations and the active one
be below the largest, and let the payload be non-empty and within the limit. The payload write may
be cut short with a reported error, and the header write may be cut short with or without one (the
loss of a payload flush that is not reported is excluded; see below). Then the active slot's file is
untouched, and afterwards either the old slot is still the active one and loading gives what it gave
before, or the other slot is active with the next generation and loading gives the new payload,
completely: the former whenever the payload write was cut, the latter whenever nothing went wrong. A
success is reported without the new slot being active only when the flush of the header was lost.
The one assumption on the check sum is that it does not match by accident on the mixture of the new
and the old header that the cut leaves; it is needed only for a cut between the generation and the
payload check sum, or over a slot without a header that a save has written completely.\<close>

theorem snapshot_save_atomic:
  assumes "storage_ok st" and "slot_gen 0 st \<noteq> slot_gen 1 st"
    and active: "frothy_snapshot_pick_active st = Inr (s, g)" and "g + 1 \<noteq> 0"
    and payload: "0 < length p" "length p \<le> FROTH_SNAPSHOT_MAX_PAYLOAD_BYTES"
    and run: "snapshot_store_payload f1 f2 p st = (r, st')"
    and flushed: "\<forall>k. f1 \<noteq> Some (FLUSH_LOST k)"
    and no_collision: "\<forall>k. fault_cut f2 = Some k \<longrightarrow>
      \<not> header_collision k (frothy_snapshot_build_header (word_of_nat (length p)) p (g + 1)) (old_header (1 - s) st)"
  shows "snap_file s st' = snap_file s st \<and> storage_ok st' \<and> slot_gen 0 st' \<noteq> slot_gen 1 st' \<and>
    (frothy_snapshot_pick_active st' = Inr (s, g) \<and> snapshot_load_payload st' = snapshot_load_payload st \<or>
     frothy_snapshot_pick_active st' = Inr (1 - s, g + 1) \<and> snapshot_load_payload st' = Inr p) \<and>
    (f1 \<noteq> None \<longrightarrow> r \<noteq> Inr () \<and> frothy_snapshot_pick_active st' = Inr (s, g)) \<and>
    (f1 = None \<and> f2 = None \<longrightarrow> r = Inr () \<and> frothy_snapshot_pick_active st' = Inr (1 - s, g + 1)) \<and>
    (r = Inr () \<longrightarrow> frothy_snapshot_pick_active st' = Inr (1 - s, g + 1) \<or> (\<exists>k. f2 = Some (FLUSH_LOST k)))"
proof -
  have s: "s = 0 \<or> s = 1" using active by (auto simp: pick_active_gen split: option.splits if_splits)
  have pick: "frothy_snapshot_pick_inactive st = (1 - s, g + 1)"
    using active assms(2) by (auto simp: pick_active_gen pick_inactive_gen split: option.splits if_splits)
  have p: "p \<noteq> []" using payload(1) by simp
  have f1: "fault_reported f1 \<or> f1 = None" using flushed by (cases f1 rule: fault_cut.cases) auto
  note e = store_payload_effect [OF assms(1) pick run p f1]
  have fl: "snap_file s st' = snap_file s st" using s e(2) [of s] by auto
  then have gen: "slot_gen s st' = slot_gen s st" by (rule slot_gen_file)
  have g: "slot_gen s st = Some g" "\<And>h. slot_gen (1 - s) st = Some h \<Longrightarrow> h < g"
    using active assms(2) by (auto simp: pick_active_gen split: option.splits if_splits)
  have "platform_snapshot_read s off n st' = platform_snapshot_read s off n st" for off n
    by (simp add: platform_snapshot_read_def fl)
  then have load: "snapshot_load_payload st' = snapshot_load_payload st"
    if "frothy_snapshot_pick_active st' = Inr (s, g)"
    using that by (simp add: snapshot_load_payload_def active cong: if_cong)
  have still: "frothy_snapshot_pick_active st' = Inr (s, g) \<and> slot_gen 0 st' \<noteq> slot_gen 1 st'"
    if "slot_gen (1 - s) st' \<in> {None, slot_gen (1 - s) st}"
  proof (cases "slot_gen (1 - s) st'")
    case None
    then show ?thesis using s gen g(1) by (auto simp: pick_active_gen)
  next
    case (Some h)
    then have "slot_gen (1 - s) st = Some h" using that by auto
    from g(2) [OF this] Some show ?thesis using s gen g(1) by (auto simp: pick_active_gen)
  qed
  have r: "r = (if fault_reported f2 then Inl FROTH_ERROR_IO else Inr ())" if "f1 = None"
    using store_payload_file(2) [OF assms(1) pick run [unfolded that] p] .
  show ?thesis
  proof (cases "f1 = None")
    case False
    then show ?thesis using e(1,4) fl still load by auto
  next
    case True
    from store_payload_outcome [OF assms(1) pick run [unfolded True] p no_collision] show ?thesis
    proof cases
      case 1
      then have "\<exists>k. f2 = Some (FLUSH_LOST k)" if "r = Inr ()"
        using r [OF True] that by (cases f2 rule: fault_cut.cases) auto
      then show ?thesis using True 1 e(1) fl still load by auto
    next
      case (2 c)
      have now: "frothy_snapshot_pick_active st' = Inr (1 - s, g + 1) \<and> slot_gen 0 st' \<noteq> slot_gen 1 st'"
        using 2(5) s gen g(1) no_wrap_less [OF assms(4)] by (auto simp: pick_active_gen)
      then have "snapshot_load_payload st' = Inr p"
        using load_written [OF _ 2(1-4) payload] by simp
      then show ?thesis using True now e(1) fl r [OF True] by auto
    qed
  qed
qed

definition stored_once :: snapshot_storage where
  "stored_once = snd (snapshot_store_payload None None [7, 8] empty_storage)"

lemma stored_once_facts:
  "storage_ok stored_once" "slot_gen 0 stored_once = Some 1" "slot_gen 1 stored_once = None"
  "built_header (old_header 0 stored_once)"
proof -
  have run: "snapshot_store_payload None None [7, 8] empty_storage
      = (fst (snapshot_store_payload None None [7, 8] empty_storage), stored_once)"
    by (simp add: stored_once_def)
  note e = store_payload_effect [OF empty_storage_facts(1,2) run]
  show "storage_ok stored_once" by (rule e(1)) simp_all
  show "slot_gen 0 stored_once = Some 1" by (rule e(3)) simp_all
  have "snap_file 1 stored_once = snap_file 1 empty_storage" by (rule e(2)) simp_all
  from slot_gen_file [OF this] show "slot_gen 1 stored_once = None"
    by (simp add: empty_storage_def slot_gen_def frothy_snapshot_read_slot_header_def
        platform_snapshot_read_def snap_file_def)
  show "built_header (old_header 0 stored_once)"
    using store_payload_file(1) [OF empty_storage_facts(1,2) run]
    unfolding built_header_def old_header_def by (auto simp: Let_def) blast
qed

definition stored_twice :: snapshot_storage where
  "stored_twice = snd (snapshot_store_payload None None [5] stored_once)"

lemma stored_twice_facts:
  "storage_ok stored_twice" "slot_gen 0 stored_twice = Some 1" "slot_gen 1 stored_twice = Some 2"
  "built_header (old_header 0 stored_twice)" "snapshot_load_payload stored_twice = Inr [5]"
proof -
  have pick: "frothy_snapshot_pick_inactive stored_once = (1, 2)"
    using stored_once_facts by (simp add: pick_inactive_gen)
  have run: "snapshot_store_payload None None [5] stored_once
      = (fst (snapshot_store_payload None None [5] stored_once), stored_twice)"
    by (simp add: stored_twice_def)
  note e = store_payload_effect [OF stored_once_facts(1) pick run]
  show "storage_ok stored_twice" by (rule e(1)) simp_all
  show "slot_gen 1 stored_twice = Some 2" by (rule e(3)) simp_all
  have unchanged: "snap_file 0 stored_twice = snap_file 0 stored_once" by (rule e(2)) simp_all
  from slot_gen_file [OF this] show "slot_gen 0 stored_twice = Some 1" using stored_once_facts(2) by simp
  show "built_header (old_header 0 stored_twice)"
    using stored_once_facts(4) unchanged by (simp add: old_header_def)
  show "snapshot_load_payload stored_twice = Inr [5]"
    using store_load [OF stored_once_facts(1) _ _ pick _ run]
    by (simp add: FROTH_SNAPSHOT_MAX_PAYLOAD_BYTES_def FROTH_SNAPSHOT_BLOCK_SIZE_def snapshot_offsets)
qed

theorem snapshot_save_atomic_witness:
  "snapshot_load_payload (snd (snapshot_store_payload None (Some (WRITE_CUT 20)) [9, 9] stored_twice))
     \<in> {Inr [5], Inr [9, 9]}"
proof -
  let ?run = "snapshot_store_payload None (Some (WRITE_CUT 20)) [9, 9] stored_twice"
  have active: "frothy_snapshot_pick_active stored_twice = Inr (1, 2)"
    using stored_twice_facts by (simp add: pick_active_gen word_le_nat_alt)
  have run: "?run = (fst ?run, snd ?run)" by simp
  show ?thesis
    using snapshot_save_atomic [OF stored_twice_facts(1) _ active _ _ _ run] stored_twice_facts
    by (auto simp: header_collision_def FROTH_SNAPSHOT_MAX_PAYLOAD_BYTES_def FROTH_SNAPSHOT_BLOCK_SIZE_def
        snapshot_offsets)
qed

text \<open>What the excluded loss does: when the flush of the payload into a new file fails and that of the
header does not, the save reports success and its slot becomes the active one, but the payload cannot be
read, although the old snapshot is still stored in the other slot.\<close>

lemma lost_payload_flush:
  assumes "storage_ok st" and "snap_file (1 - s) st = None"
    and active: "frothy_snapshot_pick_active st = Inr (s, g)" and "g + 1 \<noteq> 0"
    and "k < length p" "length p \<le> FROTH_SNAPSHOT_MAX_PAYLOAD_BYTES"
    and run: "snapshot_store_payload (Some (FLUSH_LOST k)) None p st = (r, st')"
  shows "r = Inr ()" "snap_file s st' = snap_file s st" "frothy_snapshot_pick_active st' = Inr (1 - s, g + 1)"
    "snapshot_load_payload st' = Inl FROTH_ERROR_IO"
proof -
  let ?h = "frothy_snapshot_build_header (word_of_nat (length p)) p (g + 1)"
  have s: "s = 0 \<or> s = 1" using active by (auto simp: pick_active_gen split: option.splits if_splits)
  have none: "slot_gen (1 - s) st = None"
    using assms(2) by (simp add: slot_gen_def frothy_snapshot_read_slot_header_def platform_snapshot_read_def)
  have g: "slot_gen s st = Some g"
    using active by (auto simp: pick_active_gen split: option.splits if_splits)
  have pick: "frothy_snapshot_pick_inactive st = (1 - s, g + 1)"
    using s g none by (auto simp: pick_inactive_gen)
  have h: "length ?h = 50" "?h \<noteq> []" by (simp_all add: build_header_bytes) (simp add: header_bytes_def)
  define c where "c = write_file [] 50 (take k p)"
  have c: "length c = (if k = 0 then 0 else 50 + k)"
    using assms(5) by (auto simp: c_def write_file_def store_at_def)
  have st': "r = Inr ()" "st' = set_snap_file (1 - s) (Some (write_file c 0 ?h)) (set_snap_file (1 - s) (Some c) st)"
  proof -
    have "platform_snapshot_write (Some (FLUSH_LOST k)) (1 - s) FROTH_SNAPSHOT_HEADER_SIZE p st =
        (Inr (), set_snap_file (1 - s) (Some c) st)"
      using assms(2,5) by (auto simp: platform_snapshot_write_def Let_def c_def snapshot_offsets)
    then have "platform_snapshot_write None (1 - s) 0 ?h (set_snap_file (1 - s) (Some c) st) = (r, st')"
      using run by (simp add: snapshot_store_payload_def pick)
    then show "r = Inr ()" "st' = set_snap_file (1 - s) (Some (write_file c 0 ?h)) (set_snap_file (1 - s) (Some c) st)"
      using h(2) by (auto simp: platform_snapshot_write_def Let_def)
  qed
  then show "r = Inr ()" "snap_file s st' = snap_file s st" using s by auto
  then have gs: "slot_gen s st' = Some g" using g slot_gen_file by metis
  have len: "length (write_file c 0 ?h) = max (length c) 50" using nth_write_file(1) [OF h(2), of c 0] h(1) by simp
  have head: "load_at (write_file c 0 ?h) 0 50 = ?h" using load_at_write_file(1) [OF h(2), of c 0] h(1) by simp
  have "slot_gen (1 - s) st' = Some (g + 1)"
    using len head by (simp add: st' slot_gen_def frothy_snapshot_read_slot_header_def platform_snapshot_read_def
        snapshot_offsets header_roundtrip)
  then show active': "frothy_snapshot_pick_active st' = Inr (1 - s, g + 1)"
    using s gs no_wrap_less [OF assms(4)] by (auto simp: pick_active_gen)
  have "unat (word_of_nat (length p) :: 32 word) = length p"
    using assms(6) by (simp add: FROTH_SNAPSHOT_MAX_PAYLOAD_BYTES_def FROTH_SNAPSHOT_BLOCK_SIZE_def
        snapshot_offsets unsigned_of_nat take_bit_nat_eq_self)
  then show "snapshot_load_payload st' = Inl FROTH_ERROR_IO"
    unfolding snapshot_load_payload_def active'
    using len head c assms(5,6) by (simp add: st'(2) platform_snapshot_read_def snapshot_offsets header_roundtrip)
qed

text \<open>C36. A corrupted payload is not loaded: if loading gives a payload and one byte of that payload
is changed in the file of the active slot, loading reports a wrong check sum.\<close>

theorem snapshot_payload_corruption:
  assumes load: "snapshot_load_payload st = Inr p"
    and active: "frothy_snapshot_pick_active st = Inr (s, g)" "snap_file s st = Some c"
    and i: "i < length p" "b \<noteq> p ! i"
  shows "snapshot_load_payload (set_snap_file s (Some (c[50 + i := b])) st) = Inl FROTH_ERROR_SNAPSHOT_BAD_CRC"
proof -
  let ?st' = "set_snap_file s (Some (c[50 + i := b])) st"
  have s: "s = 0 \<or> s = 1" using active(1) by (auto simp: pick_active_gen split: option.splits if_splits)
  obtain info where len: "50 \<le> length c" and info: "frothy_snapshot_parse_header (load_at c 0 50) = Inr info"
    and small: "unat (sh_payload_len info) \<le> FROTH_SNAPSHOT_MAX_PAYLOAD_BYTES"
    and plen: "50 + unat (sh_payload_len info) \<le> length c" "0 < unat (sh_payload_len info)"
    and p: "p = load_at c 50 (unat (sh_payload_len info))"
    and crc: "froth_crc32 p = frothy_snapshot_stored_crc32 (load_at c 0 50)"
    using load active
    by (auto simp: snapshot_load_payload_def platform_snapshot_read_def snapshot_offsets
        FROTH_TRY_Inr_iff split: if_splits)
  have n: "length p = unat (sh_payload_len info)" using p plen by (simp add: length_load_at)
  have header: "load_at (c[50 + i := b]) 0 50 = load_at c 0 50" by (simp add: load_at_def)
  have body: "load_at (c[50 + i := b]) 50 (length p) = p[i := b]"
    using p n by (simp add: load_at_def drop_update_swap take_update_swap)
  have "slot_gen k ?st' = slot_gen k st" if "k = 0 \<or> k = 1" for k
  proof (cases "k = s")
    case True
    then show ?thesis
      using header active(2) by (simp add: slot_gen_def frothy_snapshot_read_slot_header_def
          platform_snapshot_read_def snapshot_offsets)
  next
    case False
    then show ?thesis using s that by (intro slot_gen_file) auto
  qed
  then have "frothy_snapshot_pick_active ?st' = Inr (s, g)" using active(1) by (simp add: pick_active_gen)
  moreover have "froth_crc32 (p[i := b]) \<noteq> frothy_snapshot_stored_crc32 (load_at c 0 50)"
    using crc32_list_update [OF i] crc by simp
  ultimately show ?thesis
    using header body info small plen len n
    by (simp add: snapshot_load_payload_def platform_snapshot_read_def snapshot_offsets not_less)
qed

theorem snapshot_payload_corruption_witness:
  "\<exists>c. snap_file 0 stored_once = Some c \<and>
     snapshot_load_payload (set_snap_file 0 (Some (c[50 := 1])) stored_once)
       = Inl FROTH_ERROR_SNAPSHOT_BAD_CRC"
proof -
  have active: "frothy_snapshot_pick_active stored_once = Inr (0, 1)"
    using stored_once_facts by (simp add: pick_active_gen)
  have load: "snapshot_load_payload stored_once = Inr [7, 8]"
    using store_load [OF empty_storage_facts(1) _ _ empty_storage_facts(2), of "[7, 8]"]
    unfolding stored_once_def
    by (cases "snapshot_store_payload None None [7, 8] empty_storage")
       (simp add: FROTH_SNAPSHOT_MAX_PAYLOAD_BYTES_def FROTH_SNAPSHOT_BLOCK_SIZE_def snapshot_offsets)
  obtain c where c: "snap_file 0 stored_once = Some c"
    using stored_once_facts(2)
    by (auto simp: slot_gen_def frothy_snapshot_read_slot_header_def platform_snapshot_read_def
        split: option.splits sum.splits)
  from snapshot_payload_corruption [OF load active c, of 0 1] c show ?thesis by simp
qed

text \<open>C37. The generation counter wraps around: when the active slot carries the largest generation,
a save without faults reports success, yet the old slot stays the active one, so loading still gives
the old payload.\<close>

theorem snapshot_generation_wrap:
  assumes "storage_ok st" and "slot_gen 0 st \<noteq> slot_gen 1 st"
    and active: "frothy_snapshot_pick_active st = Inr (s, - 1)" and "0 < length p"
    and run: "snapshot_store_payload None None p st = (r, st')"
  shows "r = Inr () \<and> slot_gen (1 - s) st' = Some 0 \<and>
    frothy_snapshot_pick_active st' = Inr (s, - 1) \<and>
    snapshot_load_payload st' = snapshot_load_payload st"
proof -
  have s: "s = 0 \<or> s = 1" using active by (auto simp: pick_active_gen split: option.splits if_splits)
  have pick: "frothy_snapshot_pick_inactive st = (1 - s, 0)"
    using active assms(2)
    by (auto simp: pick_active_gen pick_inactive_gen word_order.extremum_unique split: option.splits if_splits)
  have p: "p \<noteq> []" using assms(4) by simp
  have e: "snap_file slot' st' = snap_file slot' st" if "(1 - s = 0) \<noteq> (slot' = 0)" for slot'
    using store_payload_effect(2) [OF assms(1) pick run p _ that] by simp
  have new: "slot_gen (1 - s) st' = Some 0"
    using store_payload_effect(3) [OF assms(1) pick run p] by simp
  have r: "r = Inr ()" using store_payload_file(2) [OF assms(1) pick run p] by simp
  have fl: "snap_file s st' = snap_file s st" using s e [of s] by auto
  then have gen: "slot_gen s st' = slot_gen s st" by (rule slot_gen_file)
  have g: "slot_gen s st = Some (- 1)"
    using active by (auto simp: pick_active_gen split: option.splits if_splits)
  have active': "frothy_snapshot_pick_active st' = Inr (s, - 1)"
    using s gen g new by (auto simp: pick_active_gen)
  have "platform_snapshot_read s off n st' = platform_snapshot_read s off n st" for off n
    by (simp add: platform_snapshot_read_def fl)
  then have "snapshot_load_payload st' = snapshot_load_payload st"
    by (simp add: snapshot_load_payload_def active active' cong: if_cong)
  with r new active' show ?thesis by blast
qed

definition stored_last :: snapshot_storage where
  "stored_last = \<lparr>ss_a = Some (frothy_snapshot_build_header 1 [5] (- 1) @ [5]), ss_b = None\<rparr>"

lemma stored_last_facts:
  "storage_ok stored_last" "slot_gen 0 stored_last = Some (- 1)" "slot_gen 1 stored_last = None"
proof -
  have len: "length (frothy_snapshot_build_header 1 [5] (- 1)) = 50" by (simp add: build_header_bytes)
  show "storage_ok stored_last"
    using len by (auto simp: storage_ok_def stored_last_def snap_file_def split: if_splits)
  have "load_at (frothy_snapshot_build_header 1 [5] (- 1) @ [5]) 0 50 = frothy_snapshot_build_header 1 [5] (- 1)"
    using len by (rule load_at_field)
  then show "slot_gen 0 stored_last = Some (- 1)"
    using len by (simp add: stored_last_def slot_gen_def frothy_snapshot_read_slot_header_def
        platform_snapshot_read_def snap_file_def snapshot_offsets header_roundtrip)
  show "slot_gen 1 stored_last = None"
    by (simp add: stored_last_def slot_gen_def frothy_snapshot_read_slot_header_def
        platform_snapshot_read_def snap_file_def)
qed

theorem snapshot_generation_wrap_witness:
  "frothy_snapshot_pick_active (snd (snapshot_store_payload None None [9] stored_last)) = Inr (0, - 1)"
proof -
  let ?run = "snapshot_store_payload None None [9] stored_last"
  have "frothy_snapshot_pick_active stored_last = Inr (0, - 1)"
    using stored_last_facts by (simp add: pick_active_gen)
  from snapshot_generation_wrap [OF stored_last_facts(1) _ this, of "[9]" "fst ?run" "snd ?run"]
  show ?thesis using stored_last_facts by simp
qed

end
