(* ===== verification/Frothy_Names.thy ===== *)
theory Frothy_Names
  imports Froth_Prelude
begin

text \<open>
  The rules for names (\<^verbatim>\<open>src/frothy_name_rules.h\<close>), as the parser and the snapshot codec use them:
  a simple name starts with a letter or an underscore and goes on with letters, digits and a few
  marks; a slot name is a sequence of simple names separated by dots. The character classes are
  those of the C locale.
\<close>

definition isalpha :: "byte \<Rightarrow> bool" where
  "isalpha b \<longleftrightarrow> (65 \<le> b \<and> b \<le> 90) \<or> (97 \<le> b \<and> b \<le> 122)"

definition isdigit :: "byte \<Rightarrow> bool" where
  "isdigit b \<longleftrightarrow> 48 \<le> b \<and> b \<le> 57"

definition isalnum :: "byte \<Rightarrow> bool" where
  "isalnum b \<longleftrightarrow> isalpha b \<or> isdigit b"

text \<open>Underscore, exclamation mark, question mark, at sign; the dot.\<close>

definition frothy_name_byte_is_start :: "byte \<Rightarrow> bool" where
  "frothy_name_byte_is_start b \<longleftrightarrow> isalpha b \<or> b = 95"

definition frothy_name_byte_is_simple_continue :: "byte \<Rightarrow> bool" where
  "frothy_name_byte_is_simple_continue b \<longleftrightarrow> isalnum b \<or> b = 95 \<or> b = 33 \<or> b = 63 \<or> b = 64"

definition DOT :: byte where "DOT = 46"

definition frothy_name_byte_is_slot_continue :: "byte \<Rightarrow> bool" where
  "frothy_name_byte_is_slot_continue b \<longleftrightarrow> frothy_name_byte_is_simple_continue b \<or> b = DOT"

fun simple_continue_loop :: "byte list \<Rightarrow> bool" where
  "simple_continue_loop [] = True"
| "simple_continue_loop (b # bs) =
     (if b = 0 \<or> \<not> frothy_name_byte_is_simple_continue b then False else simple_continue_loop bs)"

definition frothy_simple_name_bytes_are_valid :: "byte list \<Rightarrow> bool" where
  "frothy_simple_name_bytes_are_valid bytes =
     (if bytes = [] \<or> \<not> frothy_name_byte_is_start (hd bytes) then False
      else simple_continue_loop (tl bytes))"

fun slot_name_loop :: "bool \<Rightarrow> byte list \<Rightarrow> bool" where
  "slot_name_loop expect_segment_start [] = (\<not> expect_segment_start)"
| "slot_name_loop expect_segment_start (b # bs) =
     (if b = 0 then False
      else if expect_segment_start
      then if \<not> frothy_name_byte_is_start b then False else slot_name_loop False bs
      else if b = DOT then slot_name_loop True bs
      else if \<not> frothy_name_byte_is_simple_continue b then False
      else slot_name_loop False bs)"

definition frothy_slot_name_bytes_are_valid :: "byte list \<Rightarrow> bool" where
  "frothy_slot_name_bytes_are_valid bytes = (if bytes = [] then False else slot_name_loop True bytes)"

subsection \<open>Segments\<close>

lemma simple_continue_loop_iff:
  "simple_continue_loop bs \<longleftrightarrow> (\<forall>b \<in> set bs. b \<noteq> 0 \<and> frothy_name_byte_is_simple_continue b)"
  by (induction bs) auto

lemma name_bytes_not_special:
  "\<not> frothy_name_byte_is_start 0" "\<not> frothy_name_byte_is_start DOT"
  "\<not> frothy_name_byte_is_simple_continue 0" "\<not> frothy_name_byte_is_simple_continue DOT"
  by (simp_all add: frothy_name_byte_is_start_def frothy_name_byte_is_simple_continue_def isalnum_def
      isalpha_def isdigit_def DOT_def)

lemma start_continue: "frothy_name_byte_is_start b \<Longrightarrow> frothy_name_byte_is_simple_continue b"
  by (auto simp: frothy_name_byte_is_start_def frothy_name_byte_is_simple_continue_def isalnum_def)

lemma simple_name_iff:
  "frothy_simple_name_bytes_are_valid bytes \<longleftrightarrow>
   (\<exists>b bs. bytes = b # bs \<and> frothy_name_byte_is_start b \<and>
      (\<forall>c \<in> set bs. frothy_name_byte_is_simple_continue c))"
  using name_bytes_not_special(3)
  by (cases bytes) (auto simp: frothy_simple_name_bytes_are_valid_def simple_continue_loop_iff)

text \<open>The names that segments joined by dots spell.\<close>

fun join_dots :: "byte list list \<Rightarrow> byte list" where
  "join_dots [] = []"
| "join_dots [s] = s"
| "join_dots (s # ss) = s @ DOT # join_dots ss"

lemma join_dots_Cons: "ss \<noteq> [] \<Longrightarrow> join_dots (s # ss) = s @ DOT # join_dots ss"
  by (cases ss) auto

lemma slot_name_loop_segment:
  "\<forall>c \<in> set s. frothy_name_byte_is_simple_continue c \<Longrightarrow>
   slot_name_loop False (s @ bs) = slot_name_loop False bs"
  by (induction s) (use name_bytes_not_special in auto)

lemma slot_name_loop_split:
  "slot_name_loop False bs \<Longrightarrow>
   \<exists>s rest. (\<forall>c \<in> set s. frothy_name_byte_is_simple_continue c) \<and>
     (bs = s \<or> bs = s @ DOT # rest \<and> slot_name_loop True rest)"
proof (induction bs)
  case (Cons b bs)
  show ?case
  proof (cases "b = DOT")
    case True
    then have "slot_name_loop True bs" using Cons.prems by (auto split: if_splits)
    then show ?thesis using True by (intro exI [of _ "[]"] exI [of _ bs]) simp
  next
    case False
    then have "frothy_name_byte_is_simple_continue b" "slot_name_loop False bs"
      using Cons.prems by (auto split: if_splits)
    with Cons.IH obtain s rest where "\<forall>c \<in> set s. frothy_name_byte_is_simple_continue c"
      "bs = s \<or> bs = s @ DOT # rest \<and> slot_name_loop True rest" by blast
    with \<open>frothy_name_byte_is_simple_continue b\<close> show ?thesis
      by (intro exI [of _ "b # s"] exI [of _ rest]) auto
  qed
qed simp

lemma slot_name_loop_join:
  "ss \<noteq> [] \<Longrightarrow> \<forall>s \<in> set ss. frothy_simple_name_bytes_are_valid s \<Longrightarrow> slot_name_loop True (join_dots ss)"
proof (induction ss)
  case (Cons s ss)
  obtain b bs where s: "s = b # bs" "frothy_name_byte_is_start b"
    "\<forall>c \<in> set bs. frothy_name_byte_is_simple_continue c"
    using Cons.prems(2) by (auto simp: simple_name_iff)
  then have "b \<noteq> 0" using name_bytes_not_special(1) by auto
  then have first: "slot_name_loop True (s @ rest) = slot_name_loop False rest" for rest
    using s by (simp add: slot_name_loop_segment)
  show ?case
  proof (cases "ss = []")
    case True
    then show ?thesis using first [of "[]"] by simp
  next
    case False
    then show ?thesis using Cons first by (simp add: join_dots_Cons) (simp add: DOT_def)
  qed
qed simp

lemma slot_name_loop_segments:
  "slot_name_loop True bytes \<Longrightarrow> bytes \<noteq> [] \<Longrightarrow>
   \<exists>ss. ss \<noteq> [] \<and> (\<forall>s \<in> set ss. frothy_simple_name_bytes_are_valid s) \<and> bytes = join_dots ss"
proof (induction "length bytes" arbitrary: bytes rule: less_induct)
  case less
  obtain b bs where b: "bytes = b # bs" "frothy_name_byte_is_start b" "slot_name_loop False bs"
    using less.prems by (cases bytes) (auto split: if_splits)
  from slot_name_loop_split [OF b(3)] obtain s rest where
    s: "\<forall>c \<in> set s. frothy_name_byte_is_simple_continue c"
      "bs = s \<or> bs = s @ DOT # rest \<and> slot_name_loop True rest" by blast
  have seg: "frothy_simple_name_bytes_are_valid (b # s)" using b(2) s(1) by (auto simp: simple_name_iff)
  from s(2) show ?case
  proof
    assume "bs = s"
    then show ?thesis using b(1) seg by (intro exI [of _ "[b # s]"]) simp
  next
    assume r: "bs = s @ DOT # rest \<and> slot_name_loop True rest"
    then have "rest \<noteq> []" by auto
    with r b(1) less.hyps [of rest] obtain ss where
      "ss \<noteq> []" "\<forall>s \<in> set ss. frothy_simple_name_bytes_are_valid s" "rest = join_dots ss" by auto
    then show ?thesis using b(1) r seg
      by (intro exI [of _ "(b # s) # ss"]) (simp add: join_dots_Cons)
  qed
qed

text \<open>C40. The loop over the bytes of a slot name accepts exactly the names that are one or more
simple names joined by dots; in particular a simple name is a slot name.\<close>

theorem slot_name_segments:
  "frothy_slot_name_bytes_are_valid bytes \<longleftrightarrow>
   (\<exists>ss. ss \<noteq> [] \<and> list_all frothy_simple_name_bytes_are_valid ss \<and> bytes = join_dots ss)"
proof -
  have ne: "join_dots ss \<noteq> []" if "ss \<noteq> []" "\<forall>s \<in> set ss. frothy_simple_name_bytes_are_valid s" for ss
    using that by (cases ss rule: join_dots.cases) (auto simp: simple_name_iff)
  show ?thesis
  proof (cases "bytes = []")
    case True
    then show ?thesis
      using ne by (auto simp: frothy_slot_name_bytes_are_valid_def list_all_iff) metis
  next
    case False
    then show ?thesis
      using slot_name_loop_join slot_name_loop_segments [OF _ False]
      by (auto simp: frothy_slot_name_bytes_are_valid_def list_all_iff)
  qed
qed

lemma slot_name_loop_nonzero: "slot_name_loop e bs \<Longrightarrow> 0 \<notin> set bs"
  by (induction e bs rule: slot_name_loop.induct) (auto split: if_splits)

lemma slot_name_nonzero: "frothy_slot_name_bytes_are_valid bytes \<Longrightarrow> 0 \<notin> set bytes"
  using slot_name_loop_nonzero by (auto simp: frothy_slot_name_bytes_are_valid_def split: if_splits)

lemma simple_name_nonzero: "frothy_simple_name_bytes_are_valid bytes \<Longrightarrow> 0 \<notin> set bytes"
  using name_bytes_not_special by (auto simp: simple_name_iff)

lemma valid_name_nonempty [simp]:
  "\<not> frothy_slot_name_bytes_are_valid []" "\<not> frothy_simple_name_bytes_are_valid []"
  by (simp_all add: frothy_slot_name_bytes_are_valid_def frothy_simple_name_bytes_are_valid_def)

end
