(* ===== verification/Frothy_Wire.thy ===== *)
theory Frothy_Wire
  imports Froth_Prelude
begin

text \<open>
  The writer and the reader of snapshot payloads (\<^verbatim>\<open>src/frothy_snapshot_codec.c\<close>).

  The writer holds the bytes written so far and the capacity of its buffer. The code stops at the
  first write that does not fit and gives the buffer up, so an operation returns the new writer or
  an error. The reader is the list of the bytes from its offset to its length: every read takes
  bytes off the front, and the copy of a reader is the same list.

  Locale \<open>wire\<close> is the contract between a writing and a reading routine: what is appended reads
  back as the value that was written and leaves the rest untouched. It is proved once that such a
  pair gives one for sequences.
\<close>

record frothy_snapshot_writer =
  wr_data :: "byte list"
  wr_capacity :: nat

type_synonym writer = frothy_snapshot_writer
type_synonym reader = "byte list"

definition frothy_snapshot_writer_has_space :: "writer \<Rightarrow> nat \<Rightarrow> bool" where
  "frothy_snapshot_writer_has_space w n =
     (if wr_capacity w < length (wr_data w) then False else n \<le> wr_capacity w - length (wr_data w))"

definition writer_append :: "byte list \<Rightarrow> writer \<Rightarrow> writer" where
  "writer_append bs w = w\<lparr>wr_data := wr_data w @ bs\<rparr>"

definition frothy_snapshot_writer_write_bytes :: "byte list \<Rightarrow> writer \<Rightarrow> writer result" where
  "frothy_snapshot_writer_write_bytes bs w =
     (if \<not> frothy_snapshot_writer_has_space w (length bs) then Inl FROTH_ERROR_SNAPSHOT_OVERFLOW
      else Inr (writer_append bs w))"

definition frothy_snapshot_writer_write_u8 :: "byte \<Rightarrow> writer \<Rightarrow> writer result" where
  "frothy_snapshot_writer_write_u8 v w =
     (if \<not> frothy_snapshot_writer_has_space w 1 then Inl FROTH_ERROR_SNAPSHOT_OVERFLOW
      else Inr (writer_append [v] w))"

definition frothy_snapshot_writer_write_u16 :: "16 word \<Rightarrow> writer \<Rightarrow> writer result" where
  "frothy_snapshot_writer_write_u16 v w =
     (if \<not> frothy_snapshot_writer_has_space w 2 then Inl FROTH_ERROR_SNAPSHOT_OVERFLOW
      else Inr (writer_append (le16 v) w))"

definition frothy_snapshot_writer_write_u32 :: "32 word \<Rightarrow> writer \<Rightarrow> writer result" where
  "frothy_snapshot_writer_write_u32 v w =
     (if \<not> frothy_snapshot_writer_has_space w 4 then Inl FROTH_ERROR_SNAPSHOT_OVERFLOW
      else Inr (writer_append (le32 v) w))"

definition frothy_snapshot_writer_write_i32 :: "32 word \<Rightarrow> writer \<Rightarrow> writer result" where
  "frothy_snapshot_writer_write_i32 v w = frothy_snapshot_writer_write_u32 v w"

definition frothy_snapshot_reader_has_remaining :: "reader \<Rightarrow> nat \<Rightarrow> bool" where
  "frothy_snapshot_reader_has_remaining r n \<longleftrightarrow> n \<le> length r"

definition frothy_snapshot_reader_read_u8 :: "reader \<Rightarrow> (byte \<times> reader) result" where
  "frothy_snapshot_reader_read_u8 r =
     (if \<not> frothy_snapshot_reader_has_remaining r 1 then Inl FROTH_ERROR_SNAPSHOT_OVERFLOW
      else Inr (r ! 0, drop 1 r))"

definition frothy_snapshot_reader_read_u16 :: "reader \<Rightarrow> (16 word \<times> reader) result" where
  "frothy_snapshot_reader_read_u16 r =
     (if \<not> frothy_snapshot_reader_has_remaining r 2 then Inl FROTH_ERROR_SNAPSHOT_OVERFLOW
      else Inr (of_le16 (r ! 0) (r ! 1), drop 2 r))"

definition frothy_snapshot_reader_read_u32 :: "reader \<Rightarrow> (32 word \<times> reader) result" where
  "frothy_snapshot_reader_read_u32 r =
     (if \<not> frothy_snapshot_reader_has_remaining r 4 then Inl FROTH_ERROR_SNAPSHOT_OVERFLOW
      else Inr (of_le32 (r ! 0) (r ! 1) (r ! 2) (r ! 3), drop 4 r))"

definition frothy_snapshot_reader_read_i32 :: "reader \<Rightarrow> (32 word \<times> reader) result" where
  "frothy_snapshot_reader_read_i32 r = frothy_snapshot_reader_read_u32 r"

definition frothy_snapshot_reader_read_bytes :: "nat \<Rightarrow> reader \<Rightarrow> (byte list \<times> reader) result" where
  "frothy_snapshot_reader_read_bytes n r =
     (if \<not> frothy_snapshot_reader_has_remaining r n then Inl FROTH_ERROR_SNAPSHOT_OVERFLOW
      else Inr (take n r, drop n r))"

text \<open>Short strings: a length of 16 bits, then the bytes. The reader refuses the empty string, the
writer does not.\<close>

definition frothy_snapshot_write_string :: "byte list \<Rightarrow> writer \<Rightarrow> writer result" where
  "frothy_snapshot_write_string text w =
     (if UINT16_MAX < length text then Inl FROTH_ERROR_SNAPSHOT_OVERFLOW
      else FROTH_TRY (frothy_snapshot_writer_write_u16 (word_of_nat (length text)) w)
             (frothy_snapshot_writer_write_bytes text))"

definition frothy_snapshot_read_string_bytes :: "reader \<Rightarrow> (byte list \<times> reader) result" where
  "frothy_snapshot_read_string_bytes r =
     FROTH_TRY (frothy_snapshot_reader_read_u16 r) (\<lambda>(n, r).
     if n = 0 then Inl FROTH_ERROR_SNAPSHOT_FORMAT
     else frothy_snapshot_reader_read_bytes (unat n) r)"

text \<open>The loops over a section.\<close>

fun put_list :: "('a \<Rightarrow> writer \<Rightarrow> writer result) \<Rightarrow> 'a list \<Rightarrow> writer \<Rightarrow> writer result" where
  "put_list put [] w = Inr w"
| "put_list put (x # xs) w = FROTH_TRY (put x w) (put_list put xs)"

fun get_list :: "(reader \<Rightarrow> ('a \<times> reader) result) \<Rightarrow> nat \<Rightarrow> reader \<Rightarrow> ('a list \<times> reader) result" where
  "get_list get 0 r = Inr ([], r)"
| "get_list get (Suc n) r =
     FROTH_TRY (get r) (\<lambda>(x, r).
     FROTH_TRY (get_list get n r) (\<lambda>(xs, r).
     Inr (x # xs, r)))"

fun check_list :: "(reader \<Rightarrow> reader result) \<Rightarrow> nat \<Rightarrow> reader \<Rightarrow> reader result" where
  "check_list check 0 r = Inr r"
| "check_list check (Suc n) r = FROTH_TRY (check r) (check_list check n)"

subsection \<open>What was written reads back\<close>

named_theorems wire_simps \<open>writing and reading the primitive items\<close>

lemma writer_append_append [wire_simps]:
  "writer_append ys (writer_append xs w) = writer_append (xs @ ys) w"
  by (simp add: writer_append_def)

lemma writer_append_data [simp]: "wr_data (writer_append xs w) = wr_data w @ xs"
  "wr_capacity (writer_append xs w) = wr_capacity w"
  by (simp_all add: writer_append_def)

lemma write_Inr [wire_simps]:
  "frothy_snapshot_writer_write_u8 a w = Inr w' \<longleftrightarrow>
     frothy_snapshot_writer_has_space w 1 \<and> w' = writer_append [a] w"
  "frothy_snapshot_writer_write_u16 b w = Inr w' \<longleftrightarrow>
     frothy_snapshot_writer_has_space w 2 \<and> w' = writer_append (le16 b) w"
  "frothy_snapshot_writer_write_u32 c w = Inr w' \<longleftrightarrow>
     frothy_snapshot_writer_has_space w 4 \<and> w' = writer_append (le32 c) w"
  "frothy_snapshot_writer_write_i32 c w = Inr w' \<longleftrightarrow>
     frothy_snapshot_writer_has_space w 4 \<and> w' = writer_append (le32 c) w"
  "frothy_snapshot_writer_write_bytes bs w = Inr w' \<longleftrightarrow>
     frothy_snapshot_writer_has_space w (length bs) \<and> w' = writer_append bs w"
  by (auto simp: frothy_snapshot_writer_write_u8_def frothy_snapshot_writer_write_u16_def
      frothy_snapshot_writer_write_u32_def frothy_snapshot_writer_write_i32_def
      frothy_snapshot_writer_write_bytes_def)

lemma read_written [wire_simps]:
  "frothy_snapshot_reader_read_u8 (a # r) = Inr (a, r)"
  "frothy_snapshot_reader_read_u16 (le16 b @ r) = Inr (b, r)"
  "frothy_snapshot_reader_read_u32 (le32 c @ r) = Inr (c, r)"
  "frothy_snapshot_reader_read_i32 (le32 c @ r) = Inr (c, r)"
  "length bs = n \<Longrightarrow> frothy_snapshot_reader_read_bytes n (bs @ r) = Inr (bs, r)"
  by (simp_all add: frothy_snapshot_reader_read_u8_def frothy_snapshot_reader_read_u16_def
      frothy_snapshot_reader_read_u32_def frothy_snapshot_reader_read_i32_def
      frothy_snapshot_reader_read_bytes_def frothy_snapshot_reader_has_remaining_def)
     (simp_all add: le16_def le32_def)

lemma unat_u16_length: "n \<le> UINT16_MAX \<Longrightarrow> unat (word_of_nat n :: 16 word) = n"
  by (simp add: UINT16_MAX_def unsigned_of_nat take_bit_nat_eq_self)

lemma unat_u32_of_nat: "n < 2 ^ 32 \<Longrightarrow> unat (word_of_nat n :: 32 word) = n"
  by (simp add: unsigned_of_nat take_bit_nat_eq_self)

definition string_bytes :: "byte list \<Rightarrow> byte list" where
  "string_bytes text = le16 (word_of_nat (length text)) @ text"

lemma write_string_Inr [wire_simps]:
  "frothy_snapshot_write_string text w = Inr w' \<Longrightarrow>
   length text \<le> UINT16_MAX \<and> w' = writer_append (string_bytes text) w"
  by (auto simp: frothy_snapshot_write_string_def string_bytes_def FROTH_TRY_Inr_iff write_Inr
      writer_append_append split: if_splits)

lemma read_string_written [wire_simps]:
  assumes "length text \<le> UINT16_MAX" "text \<noteq> []"
  shows "frothy_snapshot_read_string_bytes (string_bytes text @ r) = Inr (text, r)"
proof -
  have "unat (word_of_nat (length text) :: 16 word) = length text" by (rule unat_u16_length [OF assms(1)])
  moreover from this have "(word_of_nat (length text) :: 16 word) \<noteq> 0" using assms(2) by force
  ultimately show ?thesis
    by (simp add: frothy_snapshot_read_string_bytes_def string_bytes_def read_written)
qed

subsection \<open>The contract of a writing and a reading routine\<close>

locale wire =
  fixes put :: "'a \<Rightarrow> writer \<Rightarrow> writer result"
    and get :: "reader \<Rightarrow> ('a \<times> reader) result"
    and writable :: "'a \<Rightarrow> bool"
  assumes put_get:
    "writable x \<Longrightarrow> put x w = Inr w' \<Longrightarrow>
     \<exists>bs. w' = writer_append bs w \<and> (\<forall>rest. get (bs @ rest) = Inr (x, rest))"
begin

lemma put_list_get:
  "list_all writable xs \<Longrightarrow> put_list put xs w = Inr w' \<Longrightarrow>
   \<exists>bs. w' = writer_append bs w \<and> (\<forall>rest. get_list get (length xs) (bs @ rest) = Inr (xs, rest))"
proof (induction xs arbitrary: w)
  case Nil
  then show ?case by (intro exI [of _ "[]"]) (simp add: writer_append_def)
next
  case (Cons x xs)
  obtain w1 where w1: "put x w = Inr w1" "put_list put xs w1 = Inr w'"
    using Cons.prems(2) by (auto simp: FROTH_TRY_Inr_iff)
  obtain bs where bs: "w1 = writer_append bs w" "\<And>rest. get (bs @ rest) = Inr (x, rest)"
    using put_get [OF _ w1(1)] Cons.prems(1) by auto
  obtain cs where cs: "w' = writer_append cs w1"
    "\<And>rest. get_list get (length xs) (cs @ rest) = Inr (xs, rest)"
    using Cons.IH [OF _ w1(2)] Cons.prems(1) by auto
  show ?case
    using bs cs by (intro exI [of _ "bs @ cs"]) (simp add: writer_append_append)
qed

text \<open>Two values written in the same way are the same value: the encoding is unambiguous.\<close>

lemma put_injective:
  assumes "writable x" "writable y" "put x w = Inr w'" "put y w = Inr w'"
  shows "x = y"
proof -
  obtain bs cs where "w' = writer_append bs w" "\<forall>rest. get (bs @ rest) = Inr (x, rest)"
    "w' = writer_append cs w" "\<forall>rest. get (cs @ rest) = Inr (y, rest)"
    using put_get [OF assms(1,3)] put_get [OF assms(2,4)] by blast
  moreover from this have "wr_data (writer_append bs w) = wr_data (writer_append cs w)" by metis
  then have "bs = cs" by simp
  ultimately show ?thesis by (metis Inr_inject Pair_inject)
qed

end

interpretation u32_wire: wire frothy_snapshot_writer_write_u32 frothy_snapshot_reader_read_u32 "\<lambda>x. True"
  by unfold_locales (auto simp: wire_simps)

interpretation string_wire: wire frothy_snapshot_write_string frothy_snapshot_read_string_bytes "\<lambda>s. s \<noteq> []"
  by unfold_locales (use write_string_Inr read_string_written in blast)

text \<open>A read that succeeds has found exactly the bytes that the write would have appended.\<close>

lemma split_front2: "2 \<le> length r \<Longrightarrow> r = [r ! 0, r ! 1] @ drop 2 r"
  by (cases r rule: remdups_adj.cases) (simp_all add: numeral_2_eq_2)

lemma split_front4: "4 \<le> length r \<Longrightarrow> r = [r ! 0, r ! 1, r ! 2, r ! 3] @ drop 4 r"
  using split_front2 [of r] split_front2 [of "drop 2 r"] by (simp add: numeral_eq_Suc)

lemma read_u32_Inr:
  "frothy_snapshot_reader_read_u32 r = Inr (c, r') \<longleftrightarrow> r = le32 c @ r'"
proof
  assume "frothy_snapshot_reader_read_u32 r = Inr (c, r')"
  then have "4 \<le> length r" "c = of_le32 (r ! 0) (r ! 1) (r ! 2) (r ! 3)" "r' = drop 4 r"
    by (auto simp: frothy_snapshot_reader_read_u32_def frothy_snapshot_reader_has_remaining_def
        split: if_splits)
  then show "r = le32 c @ r'" using split_front4 by simp
qed (simp add: read_written)

lemma read_u16_Inr:
  "frothy_snapshot_reader_read_u16 r = Inr (b, r') \<longleftrightarrow> r = le16 b @ r'"
proof
  assume "frothy_snapshot_reader_read_u16 r = Inr (b, r')"
  then have "2 \<le> length r" "b = of_le16 (r ! 0) (r ! 1)" "r' = drop 2 r"
    by (auto simp: frothy_snapshot_reader_read_u16_def frothy_snapshot_reader_has_remaining_def
        split: if_splits)
  then show "r = le16 b @ r'" using split_front2 by simp
qed (simp add: read_written)

lemma read_Inr:
  "frothy_snapshot_reader_read_u8 r = Inr (a, r') \<longleftrightarrow> r = a # r'"
  "frothy_snapshot_reader_read_i32 r = Inr (c, r') \<longleftrightarrow> r = le32 c @ r'"
  "frothy_snapshot_reader_read_bytes n r = Inr (bs, r') \<longleftrightarrow> length bs = n \<and> r = bs @ r'"
proof -
  show "frothy_snapshot_reader_read_u8 r = Inr (a, r') \<longleftrightarrow> r = a # r'"
    by (cases r) (auto simp: frothy_snapshot_reader_read_u8_def
        frothy_snapshot_reader_has_remaining_def)
  show "frothy_snapshot_reader_read_i32 r = Inr (c, r') \<longleftrightarrow> r = le32 c @ r'"
    by (simp add: frothy_snapshot_reader_read_i32_def read_u32_Inr)
  show "frothy_snapshot_reader_read_bytes n r = Inr (bs, r') \<longleftrightarrow> length bs = n \<and> r = bs @ r'"
    by (auto simp: frothy_snapshot_reader_read_bytes_def frothy_snapshot_reader_has_remaining_def)
qed

end
