(* ===== verification/Frothy_Symbols.thy ===== *)
theory Frothy_Symbols
  imports Frothy_Names Frothy_Wire Frothy_IR Froth_Name_Table
begin

text \<open>
  The symbol table of the snapshot encoder (\<^verbatim>\<open>frothy_snapshot_symbols_find_or_add\<close> and
  \<^verbatim>\<open>frothy_snapshot_symbol_index\<close>): the slot names that occur in the overlay and in the programs,
  each once, numbered in the order they were met. It is the second provider of the interface of
  \<^theory_text>\<open>Froth_Name_Table\<close>. The writer of a symbol section and its reader close the theory.
\<close>

record frothy_snapshot_symbol_table =
  sy_items :: "byte list list"
  sy_capacity :: nat

definition frothy_snapshot_symbols_init :: "nat \<Rightarrow> frothy_snapshot_symbol_table" where
  "frothy_snapshot_symbols_init capacity = \<lparr>sy_items = [], sy_capacity = capacity\<rparr>"

text \<open>The index loop, which compares with \<^verbatim>\<open>strcmp\<close>.\<close>

fun symbol_loop :: "byte list \<Rightarrow> byte list list \<Rightarrow> nat \<Rightarrow> nat option" where
  "symbol_loop name [] i = None"
| "symbol_loop name (s # ss) i =
     (if c_string s = c_string name then Some i else symbol_loop name ss (i + 1))"

definition frothy_snapshot_symbols_reserve :: "frothy_snapshot_symbol_table \<Rightarrow> nat \<Rightarrow> unit result" where
  "frothy_snapshot_symbols_reserve symbols needed =
     (if needed \<le> sy_capacity symbols then Inr () else Inl FROTH_ERROR_HEAP_OUT_OF_MEMORY)"

definition symbols_add ::
  "byte list \<Rightarrow> frothy_snapshot_symbol_table \<Rightarrow> nat result \<times> frothy_snapshot_symbol_table" where
  "symbols_add name symbols =
     (if UINT16_MAX < strlen name then (Inl FROTH_ERROR_SNAPSHOT_BAD_NAME, symbols)
      else if \<not> frothy_slot_name_bytes_are_valid (c_string name)
      then (Inl FROTH_ERROR_SNAPSHOT_BAD_NAME, symbols)
      else
        case frothy_snapshot_symbols_reserve symbols (length (sy_items symbols) + 1) of
          Inl e \<Rightarrow> (Inl e, symbols)
        | Inr u \<Rightarrow> (Inr (length (sy_items symbols)),
                   symbols\<lparr>sy_items := sy_items symbols @ [name]\<rparr>))"

definition frothy_snapshot_symbols_find_or_add ::
  "byte list \<Rightarrow> frothy_snapshot_symbol_table \<Rightarrow> nat result \<times> frothy_snapshot_symbol_table" where
  "frothy_snapshot_symbols_find_or_add name symbols =
     (case symbol_loop name (sy_items symbols) 0 of
        Some i \<Rightarrow> (Inr i, symbols)
      | None \<Rightarrow> symbols_add name symbols)"

definition frothy_snapshot_symbol_index ::
  "frothy_snapshot_symbol_table \<Rightarrow> byte list \<Rightarrow> nat result" where
  "frothy_snapshot_symbol_index symbols name =
     (case symbol_loop name (sy_items symbols) 0 of
        Some i \<Rightarrow> Inr i | None \<Rightarrow> Inl FROTH_ERROR_SNAPSHOT_UNRESOLVED)"

subsection \<open>The table of names\<close>

definition symbols_wf :: "frothy_snapshot_symbol_table \<Rightarrow> bool" where
  "symbols_wf symbols \<longleftrightarrow> distinct (sy_items symbols) \<and> length (sy_items symbols) \<le> sy_capacity symbols \<and>
     list_all (\<lambda>s. frothy_slot_name_bytes_are_valid s \<and> length s \<le> UINT16_MAX) (sy_items symbols)"

text \<open>Names are C strings: what they denote has no NUL.\<close>

definition symbol_find :: "frothy_snapshot_symbol_table \<Rightarrow> byte list \<Rightarrow> nat option" where
  "symbol_find symbols name = (if 0 \<in> set name then None else symbol_loop name (sy_items symbols) 0)"

lemma symbol_loop_iff:
  "distinct ss \<Longrightarrow> \<forall>s \<in> set ss. 0 \<notin> set s \<Longrightarrow> 0 \<notin> set name \<Longrightarrow>
   symbol_loop name ss i = Some j \<longleftrightarrow> i \<le> j \<and> j - i < length ss \<and> ss ! (j - i) = name"
proof (induction ss arbitrary: i)
  case (Cons s ss)
  have s: "c_string s = s" "c_string name = name" using Cons.prems by (simp_all add: c_string_nul_free)
  show ?case
  proof (cases "s = name")
    case True
    then have "\<not> (\<exists>k < length ss. ss ! k = name)" using Cons.prems(1) by (metis distinct.simps(2) nth_mem)
    then show ?thesis using True s by (auto simp: nth_Cons' Suc_diff_le)
  next
    case False
    have "symbol_loop name (s # ss) i = symbol_loop name ss (i + 1)" using False s by simp
    then show ?thesis using Cons.IH [of "i + 1"] Cons.prems False
      by (auto simp: nth_Cons' le_less Suc_le_eq Suc_diff_Suc)
  qed
qed simp

lemma symbols_wf_names: "symbols_wf t \<Longrightarrow> s \<in> set (sy_items t) \<Longrightarrow> 0 \<notin> set s"
  by (auto simp: symbols_wf_def list_all_iff slot_name_nonzero)

lemma symbol_find_iff:
  assumes "symbols_wf t"
  shows "symbol_find t name = Some i \<longleftrightarrow> i < length (sy_items t) \<and> sy_items t ! i = name"
  using assms symbols_wf_names [OF assms] symbol_loop_iff [of "sy_items t" name 0 i]
  by (auto simp: symbol_find_def symbols_wf_def in_set_conv_nth)

lemma symbols_add_Inr:
  "symbols_add name t = (Inr i, t') \<longleftrightarrow>
   strlen name \<le> UINT16_MAX \<and> frothy_slot_name_bytes_are_valid (c_string name) \<and>
   length (sy_items t) < sy_capacity t \<and> i = length (sy_items t) \<and>
   t' = t\<lparr>sy_items := sy_items t @ [name]\<rparr>"
  by (auto simp: symbols_add_def frothy_snapshot_symbols_reserve_def split: if_splits)

lemma symbols_add_wf:
  assumes "symbols_wf t" "0 \<notin> set name" "symbol_find t name = None" "symbols_add name t = (Inr i, t')"
  shows "symbols_wf t'"
proof -
  have "name \<notin> set (sy_items t)"
    using assms(3) symbol_find_iff [OF assms(1), of name] by (auto simp: in_set_conv_nth)
  then show ?thesis
    using assms by (auto simp: symbols_add_Inr symbols_wf_def c_string_nul_free strlen_def)
qed

interpretation symbol_names: name_table symbol_find symbols_add frothy_snapshot_symbols_find_or_add
  symbols_wf "\<lambda>name. 0 \<notin> set name"
proof (unfold_locales, goal_cases)
  case (1 s k)
  then show ?case by (simp add: frothy_snapshot_symbols_find_or_add_def symbol_find_def)
next
  case (2 s k i s')
  have wf': "symbols_wf s'" using symbols_add_wf [OF 2(1-3,4)] .
  show ?case
  proof
    fix k'
    show "symbol_find s' k' = ((symbol_find s)(k := Some i)) k'"
      by (rule option_eqI)
         (use 2 symbol_find_iff [OF wf', of k'] symbol_find_iff [OF 2(1), of k']
           symbol_find_iff [OF 2(1), of k] in \<open>auto simp: symbols_add_Inr nth_append less_Suc_eq\<close>)
  qed
next
  case (3 s k i s')
  then show ?case by (rule symbols_add_wf)
next
  case (4 s k i s' k')
  then show ?case using symbol_find_iff [OF 4(1), of k' i] by (auto simp: symbols_add_Inr)
next
  case (5 s k e s')
  then show ?case by (auto simp: symbols_add_def split: if_splits sum.splits)
qed

end
