(* ===== verification/Frothy_Codec_Code.thy ===== *)
theory Frothy_Codec_Code
  imports Frothy_Symbols Frothy_Runtime
begin

section \<open>Programs in the snapshot format (frothy_snapshot_codec.c)\<close>

text \<open>
  Literals, nodes and links of a compiled program, each with the four passes the codec makes over
  it: the writer (\<^verbatim>\<open>frothy_snapshot_write_node\<close> and its siblings), the validator, the measuring
  pass that adds up the string bytes of the packed block, and the decoder, which copies every string
  to a cursor of that block. Slot names are written as indices into the symbol table.

  Locale \<open>packed_wire\<close> states what the passes owe each other; it is interpreted on literals,
  nodes and links, and its lemmas carry the round trip of a whole program.

  Node indices and counts are \<^verbatim>\<open>size_t\<close> in a program and 32 bits on the wire: \<open>write_size\<close> is
  the cast of the writer, \<open>read_size\<close> the store of a 32-bit read into a zeroed \<^verbatim>\<open>size_t\<close> of the
  little-endian host.
\<close>

definition FROTHY_SNAPSHOT_INVALID_INDEX :: nat where "FROTHY_SNAPSHOT_INVALID_INDEX = UINT32_MAX"

definition write_size :: "nat \<Rightarrow> writer \<Rightarrow> writer result" where
  "write_size n = frothy_snapshot_writer_write_u32 (word_of_nat n)"

definition read_size :: "reader \<Rightarrow> (nat \<times> reader) result" where
  "read_size r = FROTH_TRY (frothy_snapshot_reader_read_u32 r) (\<lambda>(c, r). Inr (unat c, r))"

definition flag_byte :: "bool \<Rightarrow> byte" where "flag_byte b = (if b then 1 else 0)"

subsection \<open>Kinds as bytes\<close>

datatype frothy_ir_literal_kind = LITERAL_KIND_INT | LITERAL_KIND_BOOL | LITERAL_KIND_NIL
  | LITERAL_KIND_TEXT

datatype frothy_ir_node_kind = KIND_LIT | KIND_READ_LOCAL | KIND_WRITE_LOCAL | KIND_READ_SLOT
  | KIND_WRITE_SLOT | KIND_READ_SLOT_FALLBACK | KIND_WRITE_SLOT_FALLBACK | KIND_SLOT_DESIGNATOR
  | KIND_RECORD_DEF | KIND_READ_INDEX | KIND_WRITE_INDEX | KIND_READ_FIELD | KIND_WRITE_FIELD
  | KIND_FN | KIND_CALL | KIND_IF | KIND_WHILE | KIND_SEQ

definition literal_kinds :: "frothy_ir_literal_kind list" where
  "literal_kinds = [LITERAL_KIND_INT, LITERAL_KIND_BOOL, LITERAL_KIND_NIL, LITERAL_KIND_TEXT]"

definition node_kinds :: "frothy_ir_node_kind list" where
  "node_kinds = [KIND_LIT, KIND_READ_LOCAL, KIND_WRITE_LOCAL, KIND_READ_SLOT, KIND_WRITE_SLOT,
     KIND_READ_SLOT_FALLBACK, KIND_WRITE_SLOT_FALLBACK, KIND_SLOT_DESIGNATOR, KIND_RECORD_DEF,
     KIND_READ_INDEX, KIND_WRITE_INDEX, KIND_READ_FIELD, KIND_WRITE_FIELD, KIND_FN, KIND_CALL,
     KIND_IF, KIND_WHILE, KIND_SEQ]"

definition builtins :: "frothy_ir_builtin list" where
  "builtins = [BUILTIN_NONE, BUILTIN_CELLS, BUILTIN_NOT, BUILTIN_NEGATE, BUILTIN_ADD, BUILTIN_SUB,
     BUILTIN_MUL, BUILTIN_DIV, BUILTIN_REM, BUILTIN_LT, BUILTIN_LE, BUILTIN_GT, BUILTIN_GE,
     BUILTIN_EQ, BUILTIN_NEQ]"

text \<open>The byte of an enumerator is its place in the enumeration.\<close>

definition kind_of_byte :: "'k list \<Rightarrow> byte \<Rightarrow> 'k option" where
  "kind_of_byte ks b = (if unat b < length ks then Some (ks ! unat b) else None)"

fun byte_of_kind :: "'k list \<Rightarrow> byte \<Rightarrow> 'k \<Rightarrow> byte" where
  "byte_of_kind [] i k = i"
| "byte_of_kind (x # xs) i k = (if x = k then i else byte_of_kind xs (i + 1) k)"

fun literal_kind :: "frothy_ir_literal \<Rightarrow> frothy_ir_literal_kind" where
  "literal_kind (LITERAL_INT i) = LITERAL_KIND_INT"
| "literal_kind (LITERAL_BOOL b) = LITERAL_KIND_BOOL"
| "literal_kind LITERAL_NIL = LITERAL_KIND_NIL"
| "literal_kind (LITERAL_TEXT t) = LITERAL_KIND_TEXT"

fun node_kind :: "frothy_ir_node \<Rightarrow> frothy_ir_node_kind" where
  "node_kind (NODE_LIT i) = KIND_LIT"
| "node_kind (NODE_READ_LOCAL i) = KIND_READ_LOCAL"
| "node_kind (NODE_WRITE_LOCAL i v) = KIND_WRITE_LOCAL"
| "node_kind (NODE_READ_SLOT n) = KIND_READ_SLOT"
| "node_kind (NODE_WRITE_SLOT n v r) = KIND_WRITE_SLOT"
| "node_kind (NODE_READ_SLOT_FALLBACK p f) = KIND_READ_SLOT_FALLBACK"
| "node_kind (NODE_WRITE_SLOT_FALLBACK p f v r) = KIND_WRITE_SLOT_FALLBACK"
| "node_kind (NODE_SLOT_DESIGNATOR n) = KIND_SLOT_DESIGNATOR"
| "node_kind (NODE_RECORD_DEF n a b) = KIND_RECORD_DEF"
| "node_kind (NODE_READ_INDEX b i) = KIND_READ_INDEX"
| "node_kind (NODE_WRITE_INDEX b i v) = KIND_WRITE_INDEX"
| "node_kind (NODE_READ_FIELD b n) = KIND_READ_FIELD"
| "node_kind (NODE_WRITE_FIELD b n v) = KIND_WRITE_FIELD"
| "node_kind (NODE_FN a l b) = KIND_FN"
| "node_kind (NODE_CALL b c f n) = KIND_CALL"
| "node_kind (NODE_IF c t e h) = KIND_IF"
| "node_kind (NODE_WHILE c b) = KIND_WHILE"
| "node_kind (NODE_SEQ f n) = KIND_SEQ"

subsection \<open>The writer\<close>

definition frothy_snapshot_encode_node_id :: "node_id \<Rightarrow> nat" where
  "frothy_snapshot_encode_node_id n =
     (if n = FROTHY_IR_NODE_INVALID then FROTHY_SNAPSHOT_INVALID_INDEX else n)"

definition frothy_snapshot_write_literal :: "frothy_ir_literal \<Rightarrow> writer \<Rightarrow> writer result" where
  "frothy_snapshot_write_literal l w =
     FROTH_TRY (frothy_snapshot_writer_write_u8 (byte_of_kind literal_kinds 0 (literal_kind l)) w)
       (\<lambda>w.
     case l of
       LITERAL_INT i \<Rightarrow> frothy_snapshot_writer_write_i32 i w
     | LITERAL_BOOL b \<Rightarrow> frothy_snapshot_writer_write_u8 (flag_byte b) w
     | LITERAL_NIL \<Rightarrow> Inr w
     | LITERAL_TEXT t \<Rightarrow>
         FROTH_TRY (write_size (strlen t) w) (frothy_snapshot_writer_write_bytes (c_string t)))"

definition write_sizes :: "nat list \<Rightarrow> writer \<Rightarrow> writer result" where
  "write_sizes = put_list write_size"

fun write_node_fields ::
  "frothy_snapshot_symbol_table \<Rightarrow> frothy_ir_node \<Rightarrow> writer \<Rightarrow> writer result" where
  "write_node_fields symbols (NODE_LIT i) w = write_size i w"
| "write_node_fields symbols (NODE_READ_LOCAL i) w = write_size i w"
| "write_node_fields symbols (NODE_WRITE_LOCAL i v) w = write_sizes [i, v] w"
| "write_node_fields symbols (NODE_READ_SLOT n) w =
     FROTH_TRY (frothy_snapshot_symbol_index symbols n) (\<lambda>s. write_size s w)"
| "write_node_fields symbols (NODE_READ_SLOT_FALLBACK p f) w =
     FROTH_TRY (frothy_snapshot_symbol_index symbols p) (\<lambda>sp.
     FROTH_TRY (frothy_snapshot_symbol_index symbols f) (\<lambda>sf. write_sizes [sp, sf] w))"
| "write_node_fields symbols (NODE_WRITE_SLOT n v require) w =
     FROTH_TRY (frothy_snapshot_symbol_index symbols n) (\<lambda>s.
     FROTH_TRY (write_sizes [s, v] w) (frothy_snapshot_writer_write_u8 (flag_byte require)))"
| "write_node_fields symbols (NODE_WRITE_SLOT_FALLBACK p f v require) w =
     FROTH_TRY (frothy_snapshot_symbol_index symbols p) (\<lambda>sp.
     FROTH_TRY (frothy_snapshot_symbol_index symbols f) (\<lambda>sf.
     FROTH_TRY (write_sizes [sp, sf, v] w) (frothy_snapshot_writer_write_u8 (flag_byte require))))"
| "write_node_fields symbols (NODE_SLOT_DESIGNATOR n) w =
     FROTH_TRY (frothy_snapshot_symbol_index symbols n) (\<lambda>s. write_size s w)"
| "write_node_fields symbols (NODE_RECORD_DEF n a b) w = Inl FROTH_ERROR_NOT_PERSISTABLE"
| "write_node_fields symbols (NODE_READ_INDEX b i) w = write_sizes [b, i] w"
| "write_node_fields symbols (NODE_WRITE_INDEX b i v) w = write_sizes [b, i, v] w"
| "write_node_fields symbols (NODE_READ_FIELD b n) w =
     FROTH_TRY (write_size b w) (frothy_snapshot_write_string (c_string n))"
| "write_node_fields symbols (NODE_WRITE_FIELD b n v) w =
     FROTH_TRY (write_size b w) (\<lambda>w.
     FROTH_TRY (frothy_snapshot_write_string (c_string n) w) (write_size v))"
| "write_node_fields symbols (NODE_FN a l b) w = write_sizes [a, l, b] w"
| "write_node_fields symbols (NODE_CALL b c f n) w =
     FROTH_TRY (frothy_snapshot_writer_write_u8 (byte_of_kind builtins 0 b) w)
       (write_sizes [frothy_snapshot_encode_node_id c, f, n])"
| "write_node_fields symbols (NODE_IF c t e has_else) w =
     FROTH_TRY (write_sizes [c, t, frothy_snapshot_encode_node_id e] w)
       (frothy_snapshot_writer_write_u8 (flag_byte has_else))"
| "write_node_fields symbols (NODE_WHILE c b) w = write_sizes [c, b] w"
| "write_node_fields symbols (NODE_SEQ f n) w = write_sizes [f, n] w"

definition frothy_snapshot_write_node ::
  "frothy_snapshot_symbol_table \<Rightarrow> frothy_ir_node \<Rightarrow> writer \<Rightarrow> writer result" where
  "frothy_snapshot_write_node symbols nd w =
     FROTH_TRY (frothy_snapshot_writer_write_u8 (byte_of_kind node_kinds 0 (node_kind nd)) w)
       (write_node_fields symbols nd)"

definition write_program_body ::
  "frothy_snapshot_symbol_table \<Rightarrow> frothy_ir_program \<Rightarrow> writer \<Rightarrow> writer result" where
  "write_program_body symbols program w =
     FROTH_TRY (put_list frothy_snapshot_write_literal (ir_literals program) w) (\<lambda>w.
     FROTH_TRY (put_list (frothy_snapshot_write_node symbols) (ir_nodes program) w)
       (put_list write_size (ir_links program)))"

definition frothy_snapshot_write_code_object ::
  "frothy_snapshot_symbol_table \<Rightarrow> frothy_object_as \<Rightarrow> writer \<Rightarrow> writer result" where
  "frothy_snapshot_write_code_object symbols ob w =
     (case ob of
        OBJECT_CODE payload arity local_count body program \<Rightarrow>
          FROTH_TRY (write_sizes [arity, local_count, body, ir_root program,
            ir_root_local_count program, length (ir_literals program), length (ir_nodes program),
            length (ir_links program)] w)
            (write_program_body symbols program)
      | _ \<Rightarrow> Inl FROTH_ERROR_SNAPSHOT_FORMAT)"

subsection \<open>The validator\<close>

abbreviation format_guard :: "bool \<Rightarrow> 'a result \<Rightarrow> 'a result" where
  "format_guard ok k \<equiv> FROTH_TRY (guard_or ok FROTH_ERROR_SNAPSHOT_FORMAT) (\<lambda>u. k)"

abbreviation name_guard :: "bool \<Rightarrow> 'a result \<Rightarrow> 'a result" where
  "name_guard ok k \<equiv> FROTH_TRY (guard_or ok FROTH_ERROR_SNAPSHOT_BAD_NAME) (\<lambda>u. k)"

definition read_two :: "reader \<Rightarrow> (nat \<times> nat \<times> reader) result" where
  "read_two r = FROTH_TRY (read_size r) (\<lambda>(a, r). FROTH_TRY (read_size r) (\<lambda>(b, r). Inr (a, b, r)))"

definition read_three :: "reader \<Rightarrow> (nat \<times> nat \<times> nat \<times> reader) result" where
  "read_three r =
     FROTH_TRY (read_size r) (\<lambda>(a, r). FROTH_TRY (read_two r) (\<lambda>(b, c, r). Inr (a, b, c, r)))"

definition frothy_snapshot_validate_node_id :: "nat \<Rightarrow> nat \<Rightarrow> bool \<Rightarrow> unit result" where
  "frothy_snapshot_validate_node_id node_id node_count allow_invalid =
     (if allow_invalid \<and> node_id = FROTHY_SNAPSHOT_INVALID_INDEX then Inr ()
      else if node_count \<le> node_id then Inl FROTH_ERROR_SNAPSHOT_FORMAT else Inr ())"

definition frothy_snapshot_validate_link_span :: "nat \<Rightarrow> nat \<Rightarrow> nat \<Rightarrow> unit result" where
  "frothy_snapshot_validate_link_span first n link_count =
     (if link_count < first \<or> link_count - first < n then Inl FROTH_ERROR_SNAPSHOT_FORMAT
      else Inr ())"

definition frothy_snapshot_validate_literal :: "reader \<Rightarrow> reader result" where
  "frothy_snapshot_validate_literal r =
     FROTH_TRY (frothy_snapshot_reader_read_u8 r) (\<lambda>(kind, r).
     case kind_of_byte literal_kinds kind of
       None \<Rightarrow> Inl FROTH_ERROR_SNAPSHOT_FORMAT
     | Some LITERAL_KIND_INT \<Rightarrow> FROTH_TRY (frothy_snapshot_reader_read_i32 r) (\<lambda>(i, r). Inr r)
     | Some LITERAL_KIND_BOOL \<Rightarrow> FROTH_TRY (frothy_snapshot_reader_read_u8 r) (\<lambda>(b, r). Inr r)
     | Some LITERAL_KIND_NIL \<Rightarrow> Inr r
     | Some LITERAL_KIND_TEXT \<Rightarrow>
         FROTH_TRY (read_size r) (\<lambda>(n, r).
         FROTH_TRY (frothy_snapshot_reader_read_bytes n r) (\<lambda>(bs, r). Inr r)))"

record program_counts =
  pc_symbols :: nat
  pc_literals :: nat
  pc_nodes :: nat
  pc_links :: nat

abbreviation node_ok :: "program_counts \<Rightarrow> nat \<Rightarrow> bool \<Rightarrow> 'a result \<Rightarrow> 'a result" where
  "node_ok counts n allow k \<equiv>
     FROTH_TRY (frothy_snapshot_validate_node_id n (pc_nodes counts) allow) (\<lambda>u. k)"

fun validate_node_fields ::
  "program_counts \<Rightarrow> frothy_ir_node_kind \<Rightarrow> reader \<Rightarrow> reader result" where
  "validate_node_fields c KIND_LIT r =
     FROTH_TRY (read_size r) (\<lambda>(a, r). format_guard (a < pc_literals c) (Inr r))"
| "validate_node_fields c KIND_READ_LOCAL r = FROTH_TRY (read_size r) (\<lambda>(a, r). Inr r)"
| "validate_node_fields c KIND_WRITE_LOCAL r =
     FROTH_TRY (read_two r) (\<lambda>(a, b, r). node_ok c b False (Inr r))"
| "validate_node_fields c KIND_READ_SLOT r =
     FROTH_TRY (read_size r) (\<lambda>(a, r). format_guard (a < pc_symbols c) (Inr r))"
| "validate_node_fields c KIND_READ_SLOT_FALLBACK r =
     FROTH_TRY (read_two r) (\<lambda>(a, b, r).
     format_guard (a < pc_symbols c \<and> b < pc_symbols c) (Inr r))"
| "validate_node_fields c KIND_WRITE_SLOT r =
     FROTH_TRY (read_two r) (\<lambda>(a, b, r).
     FROTH_TRY (frothy_snapshot_reader_read_u8 r) (\<lambda>(flag, r).
     format_guard (a < pc_symbols c) (node_ok c b False (Inr r))))"
| "validate_node_fields c KIND_WRITE_SLOT_FALLBACK r =
     FROTH_TRY (read_three r) (\<lambda>(a, b, v, r).
     FROTH_TRY (frothy_snapshot_reader_read_u8 r) (\<lambda>(flag, r).
     format_guard (a < pc_symbols c \<and> b < pc_symbols c) (node_ok c v False (Inr r))))"
| "validate_node_fields c KIND_SLOT_DESIGNATOR r =
     FROTH_TRY (read_size r) (\<lambda>(a, r). format_guard (a < pc_symbols c) (Inr r))"
| "validate_node_fields c KIND_RECORD_DEF r = Inl FROTH_ERROR_NOT_PERSISTABLE"
| "validate_node_fields c KIND_READ_INDEX r =
     FROTH_TRY (read_two r) (\<lambda>(a, b, r). node_ok c a False (node_ok c b False (Inr r)))"
| "validate_node_fields c KIND_WRITE_INDEX r =
     FROTH_TRY (read_three r) (\<lambda>(a, b, v, r).
     node_ok c a False (node_ok c b False (node_ok c v False (Inr r))))"
| "validate_node_fields c KIND_READ_FIELD r =
     FROTH_TRY (read_size r) (\<lambda>(a, r).
     FROTH_TRY (frothy_snapshot_read_string_bytes r) (\<lambda>(bs, r).
     name_guard (frothy_simple_name_bytes_are_valid bs) (node_ok c a False (Inr r))))"
| "validate_node_fields c KIND_WRITE_FIELD r =
     FROTH_TRY (read_size r) (\<lambda>(a, r).
     FROTH_TRY (frothy_snapshot_read_string_bytes r) (\<lambda>(bs, r).
     FROTH_TRY (read_size r) (\<lambda>(b, r).
     name_guard (frothy_simple_name_bytes_are_valid bs)
       (node_ok c a False (node_ok c b False (Inr r))))))"
| "validate_node_fields c KIND_FN r =
     FROTH_TRY (read_three r) (\<lambda>(a, b, body, r).
     format_guard (a \<le> b \<and> body < pc_nodes c) (Inr r))"
| "validate_node_fields c KIND_CALL r =
     FROTH_TRY (frothy_snapshot_reader_read_u8 r) (\<lambda>(flag, r).
     FROTH_TRY (read_three r) (\<lambda>(a, b, n, r).
     format_guard (unat flag \<le> 14)
       (FROTH_TRY (frothy_snapshot_validate_link_span b n (pc_links c)) (\<lambda>u.
        node_ok c a (flag \<noteq> 0) (Inr r)))))"
| "validate_node_fields c KIND_IF r =
     FROTH_TRY (read_three r) (\<lambda>(a, b, e, r).
     FROTH_TRY (frothy_snapshot_reader_read_u8 r) (\<lambda>(flag, r).
     node_ok c a False (node_ok c b False (node_ok c e (flag = 0) (Inr r)))))"
| "validate_node_fields c KIND_WHILE r =
     FROTH_TRY (read_two r) (\<lambda>(a, b, r). node_ok c a False (node_ok c b False (Inr r)))"
| "validate_node_fields c KIND_SEQ r =
     FROTH_TRY (read_two r) (\<lambda>(a, b, r).
     FROTH_TRY (frothy_snapshot_validate_link_span a b (pc_links c)) (\<lambda>u. Inr r))"

definition validate_node :: "program_counts \<Rightarrow> reader \<Rightarrow> reader result" where
  "validate_node c r =
     FROTH_TRY (frothy_snapshot_reader_read_u8 r) (\<lambda>(kind, r).
     case kind_of_byte node_kinds kind of
       None \<Rightarrow> Inl FROTH_ERROR_SNAPSHOT_FORMAT
     | Some k \<Rightarrow> validate_node_fields c k r)"

definition validate_link :: "program_counts \<Rightarrow> reader \<Rightarrow> reader result" where
  "validate_link c r =
     FROTH_TRY (read_size r) (\<lambda>(a, r). format_guard (a < pc_nodes c) (Inr r))"

definition validate_program_body :: "program_counts \<Rightarrow> reader \<Rightarrow> reader result" where
  "validate_program_body c r =
     FROTH_TRY (check_list frothy_snapshot_validate_literal (pc_literals c) r) (\<lambda>r.
     FROTH_TRY (check_list (validate_node c) (pc_nodes c) r)
       (check_list (validate_link c) (pc_links c)))"

text \<open>The header of a code object: arity, locals, body, root, locals of the root, three counts.\<close>

definition read_code_header ::
  "reader \<Rightarrow> (nat \<times> nat \<times> nat \<times> nat \<times> nat \<times> nat \<times> nat \<times> nat \<times> reader) result" where
  "read_code_header r =
     FROTH_TRY (read_three r) (\<lambda>(arity, local_count, body, r).
     FROTH_TRY (read_two r) (\<lambda>(root, root_local_count, r).
     FROTH_TRY (read_three r) (\<lambda>(literal_count, node_count, link_count, r).
     Inr (arity, local_count, body, root, root_local_count, literal_count, node_count, link_count,
       r))))"

definition frothy_snapshot_validate_code_object :: "nat \<Rightarrow> reader \<Rightarrow> reader result" where
  "frothy_snapshot_validate_code_object symbol_count r =
     FROTH_TRY (read_code_header r)
       (\<lambda>(arity, local_count, body, root, root_local_count, literal_count, node_count, link_count, r).
     if local_count < arity \<or> node_count \<le> body \<or> node_count \<le> root
     then Inl FROTH_ERROR_SNAPSHOT_FORMAT
     else if FROTHY_IR_LITERAL_CAPACITY < literal_count \<or> FROTHY_IR_NODE_CAPACITY < node_count \<or>
       FROTHY_IR_LINK_CAPACITY < link_count
     then Inl FROTH_ERROR_SNAPSHOT_OVERFLOW
     else if UINT32_MAX < root_local_count then Inl FROTH_ERROR_SNAPSHOT_FORMAT
     else validate_program_body \<lparr>pc_symbols = symbol_count, pc_literals = literal_count,
            pc_nodes = node_count, pc_links = link_count\<rparr> r)"

subsection \<open>The measuring pass\<close>

text \<open>A kind byte out of range falls through the switch of this pass and reads nothing.\<close>

definition frothy_snapshot_add_size :: "nat \<Rightarrow> nat \<Rightarrow> nat result" where
  "frothy_snapshot_add_size lhs rhs =
     (if SIZE_MAX - rhs < lhs then Inl FROTH_ERROR_HEAP_OUT_OF_MEMORY else Inr (lhs + rhs))"

definition measure_string :: "nat \<Rightarrow> nat \<Rightarrow> reader \<Rightarrow> (nat \<times> reader) result" where
  "measure_string len acc r =
     FROTH_TRY (frothy_snapshot_add_size acc (len + 1)) (\<lambda>acc. Inr (acc, r))"

definition measure_literal :: "nat \<Rightarrow> reader \<Rightarrow> (nat \<times> reader) result" where
  "measure_literal acc r =
     FROTH_TRY (frothy_snapshot_reader_read_u8 r) (\<lambda>(kind, r).
     case kind_of_byte literal_kinds kind of
       None \<Rightarrow> Inr (acc, r)
     | Some LITERAL_KIND_INT \<Rightarrow> FROTH_TRY (frothy_snapshot_reader_read_i32 r) (\<lambda>(i, r). Inr (acc, r))
     | Some LITERAL_KIND_BOOL \<Rightarrow> FROTH_TRY (frothy_snapshot_reader_read_u8 r) (\<lambda>(b, r). Inr (acc, r))
     | Some LITERAL_KIND_NIL \<Rightarrow> Inr (acc, r)
     | Some LITERAL_KIND_TEXT \<Rightarrow>
         FROTH_TRY (read_size r) (\<lambda>(n, r).
         FROTH_TRY (frothy_snapshot_reader_read_bytes n r) (\<lambda>(bs, r). measure_string n acc r)))"

abbreviation symbol_size :: "byte list list \<Rightarrow> nat \<Rightarrow> nat" where
  "symbol_size symbols i \<equiv> length (symbols ! i)"

text \<open>The nodes that hold slot names; the other nodes follow.\<close>

fun measure_slot_fields ::
  "byte list list \<Rightarrow> frothy_ir_node_kind \<Rightarrow> nat \<Rightarrow> reader \<Rightarrow> (nat \<times> reader) result" where
  "measure_slot_fields symbols KIND_READ_SLOT acc r =
     FROTH_TRY (read_size r) (\<lambda>(a, r).
     format_guard (a < length symbols) (measure_string (symbol_size symbols a) acc r))"
| "measure_slot_fields symbols KIND_READ_SLOT_FALLBACK acc r =
     FROTH_TRY (read_two r) (\<lambda>(a, b, r).
     format_guard (a < length symbols \<and> b < length symbols)
       (FROTH_TRY (measure_string (symbol_size symbols a) acc r) (\<lambda>(acc, r).
        measure_string (symbol_size symbols b) acc r)))"
| "measure_slot_fields symbols KIND_WRITE_SLOT acc r =
     FROTH_TRY (read_two r) (\<lambda>(a, b, r).
     FROTH_TRY (frothy_snapshot_reader_read_u8 r) (\<lambda>(flag, r).
     format_guard (a < length symbols) (measure_string (symbol_size symbols a) acc r)))"
| "measure_slot_fields symbols KIND_WRITE_SLOT_FALLBACK acc r =
     FROTH_TRY (read_three r) (\<lambda>(a, b, v, r).
     FROTH_TRY (frothy_snapshot_reader_read_u8 r) (\<lambda>(flag, r).
     format_guard (a < length symbols \<and> b < length symbols)
       (FROTH_TRY (measure_string (symbol_size symbols a) acc r) (\<lambda>(acc, r).
        measure_string (symbol_size symbols b) acc r))))"
| "measure_slot_fields symbols KIND_SLOT_DESIGNATOR acc r =
     FROTH_TRY (read_size r) (\<lambda>(a, r).
     format_guard (a < length symbols) (measure_string (symbol_size symbols a) acc r))"
| "measure_slot_fields symbols k acc r = Inl FROTH_ERROR_SNAPSHOT_FORMAT"

fun measure_node_fields ::
  "byte list list \<Rightarrow> frothy_ir_node_kind \<Rightarrow> nat \<Rightarrow> reader \<Rightarrow> (nat \<times> reader) result" where
  "measure_node_fields symbols KIND_LIT acc r = FROTH_TRY (read_size r) (\<lambda>(a, r). Inr (acc, r))"
| "measure_node_fields symbols KIND_READ_LOCAL acc r =
     FROTH_TRY (read_size r) (\<lambda>(a, r). Inr (acc, r))"
| "measure_node_fields symbols KIND_WRITE_LOCAL acc r =
     FROTH_TRY (read_two r) (\<lambda>(a, b, r). Inr (acc, r))"
| "measure_node_fields symbols KIND_READ_SLOT acc r = measure_slot_fields symbols KIND_READ_SLOT acc r"
| "measure_node_fields symbols KIND_READ_SLOT_FALLBACK acc r = measure_slot_fields symbols KIND_READ_SLOT_FALLBACK acc r"
| "measure_node_fields symbols KIND_WRITE_SLOT acc r = measure_slot_fields symbols KIND_WRITE_SLOT acc r"
| "measure_node_fields symbols KIND_WRITE_SLOT_FALLBACK acc r = measure_slot_fields symbols KIND_WRITE_SLOT_FALLBACK acc r"
| "measure_node_fields symbols KIND_SLOT_DESIGNATOR acc r = measure_slot_fields symbols KIND_SLOT_DESIGNATOR acc r"
| "measure_node_fields symbols KIND_RECORD_DEF acc r = Inl FROTH_ERROR_NOT_PERSISTABLE"
| "measure_node_fields symbols KIND_READ_INDEX acc r =
     FROTH_TRY (read_two r) (\<lambda>(a, b, r). Inr (acc, r))"
| "measure_node_fields symbols KIND_WRITE_INDEX acc r =
     FROTH_TRY (read_three r) (\<lambda>(a, b, v, r). Inr (acc, r))"
| "measure_node_fields symbols KIND_READ_FIELD acc r =
     FROTH_TRY (read_size r) (\<lambda>(a, r).
     FROTH_TRY (frothy_snapshot_read_string_bytes r) (\<lambda>(bs, r). measure_string (length bs) acc r))"
| "measure_node_fields symbols KIND_WRITE_FIELD acc r =
     FROTH_TRY (read_size r) (\<lambda>(a, r).
     FROTH_TRY (frothy_snapshot_read_string_bytes r) (\<lambda>(bs, r).
     FROTH_TRY (read_size r) (\<lambda>(b, r). measure_string (length bs) acc r)))"
| "measure_node_fields symbols KIND_FN acc r =
     FROTH_TRY (read_three r) (\<lambda>(a, b, body, r). Inr (acc, r))"
| "measure_node_fields symbols KIND_CALL acc r =
     FROTH_TRY (frothy_snapshot_reader_read_u8 r) (\<lambda>(flag, r).
     FROTH_TRY (read_three r) (\<lambda>(a, b, n, r). Inr (acc, r)))"
| "measure_node_fields symbols KIND_IF acc r =
     FROTH_TRY (read_three r) (\<lambda>(a, b, e, r).
     FROTH_TRY (frothy_snapshot_reader_read_u8 r) (\<lambda>(flag, r). Inr (acc, r)))"
| "measure_node_fields symbols KIND_WHILE acc r =
     FROTH_TRY (read_two r) (\<lambda>(a, b, r). Inr (acc, r))"
| "measure_node_fields symbols KIND_SEQ acc r =
     FROTH_TRY (read_two r) (\<lambda>(a, b, r). Inr (acc, r))"

definition measure_node :: "byte list list \<Rightarrow> nat \<Rightarrow> reader \<Rightarrow> (nat \<times> reader) result" where
  "measure_node symbols acc r =
     FROTH_TRY (frothy_snapshot_reader_read_u8 r) (\<lambda>(kind, r).
     case kind_of_byte node_kinds kind of
       None \<Rightarrow> Inr (acc, r)
     | Some k \<Rightarrow> measure_node_fields symbols k acc r)"

definition measure_link :: "nat \<Rightarrow> reader \<Rightarrow> (nat \<times> reader) result" where
  "measure_link acc r = FROTH_TRY (read_size r) (\<lambda>(a, r). Inr (acc, r))"

fun measure_list ::
  "(nat \<Rightarrow> reader \<Rightarrow> (nat \<times> reader) result) \<Rightarrow> nat \<Rightarrow> nat \<Rightarrow> reader \<Rightarrow> (nat \<times> reader) result" where
  "measure_list one 0 acc r = Inr (acc, r)"
| "measure_list one (Suc n) acc r =
     FROTH_TRY (one acc r) (\<lambda>(acc, r). measure_list one n acc r)"

definition frothy_snapshot_measure_code_object ::
  "byte list list \<Rightarrow> nat \<Rightarrow> nat \<Rightarrow> nat \<Rightarrow> reader \<Rightarrow> nat result" where
  "frothy_snapshot_measure_code_object symbols literal_count node_count link_count r =
     FROTH_TRY (measure_list measure_literal literal_count 0 r) (\<lambda>(acc, r).
     FROTH_TRY (measure_list (measure_node symbols) node_count acc r) (\<lambda>(acc, r).
     FROTH_TRY (measure_list measure_link link_count acc r) (\<lambda>(acc, r). Inr acc)))"

subsection \<open>The decoder\<close>

text \<open>
  The cursor and the end of the block are offsets from its base. The decoder runs on a payload that
  has been validated: the branches for a byte that is no kind of literal, node or builtin, where
  the code would store the byte as it is, are errors here and are proved unreachable below
  (\<open>validated\<close>).
\<close>

definition frothy_snapshot_copy_string ::
  "byte list \<Rightarrow> nat \<Rightarrow> nat \<Rightarrow> (byte list \<times> nat) result" where
  "frothy_snapshot_copy_string bytes storage_end cursor =
     (if storage_end - cursor < length bytes + 1 then Inl FROTH_ERROR_HEAP_OUT_OF_MEMORY
      else Inr (c_string bytes, cursor + (length bytes + 1)))"

definition frothy_snapshot_copy_symbol_string ::
  "byte list \<Rightarrow> nat \<Rightarrow> nat \<Rightarrow> (byte list \<times> nat) result" where
  "frothy_snapshot_copy_symbol_string symbol = frothy_snapshot_copy_string symbol"

definition decode_literal ::
  "nat \<Rightarrow> nat \<Rightarrow> reader \<Rightarrow> (frothy_ir_literal \<times> nat \<times> reader) result" where
  "decode_literal e cursor r =
     FROTH_TRY (frothy_snapshot_reader_read_u8 r) (\<lambda>(kind, r).
     case kind_of_byte literal_kinds kind of
       None \<Rightarrow> Inl FROTH_ERROR_SNAPSHOT_FORMAT
     | Some LITERAL_KIND_INT \<Rightarrow>
         FROTH_TRY (frothy_snapshot_reader_read_i32 r) (\<lambda>(i, r). Inr (LITERAL_INT i, cursor, r))
     | Some LITERAL_KIND_BOOL \<Rightarrow>
         FROTH_TRY (frothy_snapshot_reader_read_u8 r) (\<lambda>(b, r).
         Inr (LITERAL_BOOL (b \<noteq> 0), cursor, r))
     | Some LITERAL_KIND_NIL \<Rightarrow> Inr (LITERAL_NIL, cursor, r)
     | Some LITERAL_KIND_TEXT \<Rightarrow>
         FROTH_TRY (read_size r) (\<lambda>(n, r).
         FROTH_TRY (frothy_snapshot_reader_read_bytes n r) (\<lambda>(bs, r).
         FROTH_TRY (frothy_snapshot_copy_string bs e cursor) (\<lambda>(t, cursor).
         Inr (LITERAL_TEXT t, cursor, r)))))"

definition decode_node_id :: "nat \<Rightarrow> node_id" where
  "decode_node_id n =
     (if n = FROTHY_SNAPSHOT_INVALID_INDEX then FROTHY_IR_NODE_INVALID else n)"

definition copy_symbol ::
  "byte list \<Rightarrow> (byte list \<Rightarrow> frothy_ir_node) \<Rightarrow> nat \<Rightarrow> nat \<Rightarrow> reader \<Rightarrow>
   (frothy_ir_node \<times> nat \<times> reader) result" where
  "copy_symbol symbol mk e cursor r =
     FROTH_TRY (frothy_snapshot_copy_symbol_string symbol e cursor) (\<lambda>(s, cursor).
     Inr (mk s, cursor, r))"

definition copy_two_symbols ::
  "byte list \<Rightarrow> byte list \<Rightarrow> (byte list \<Rightarrow> byte list \<Rightarrow> frothy_ir_node) \<Rightarrow> nat \<Rightarrow> nat \<Rightarrow> reader \<Rightarrow>
   (frothy_ir_node \<times> nat \<times> reader) result" where
  "copy_two_symbols p f mk e cursor r =
     FROTH_TRY (frothy_snapshot_copy_symbol_string p e cursor) (\<lambda>(p', cursor).
     FROTH_TRY (frothy_snapshot_copy_symbol_string f e cursor) (\<lambda>(f', cursor).
     Inr (mk p' f', cursor, r)))"

fun decode_slot_fields ::
  "byte list list \<Rightarrow> frothy_ir_node_kind \<Rightarrow> nat \<Rightarrow> nat \<Rightarrow> reader \<Rightarrow>
   (frothy_ir_node \<times> nat \<times> reader) result" where
  "decode_slot_fields symbols KIND_READ_SLOT e cursor r =
     FROTH_TRY (read_size r) (\<lambda>(a, r).
     format_guard (a < length symbols) (copy_symbol (symbols ! a) NODE_READ_SLOT e cursor r))"
| "decode_slot_fields symbols KIND_READ_SLOT_FALLBACK e cursor r =
     FROTH_TRY (read_two r) (\<lambda>(a, b, r).
     format_guard (a < length symbols \<and> b < length symbols)
       (copy_two_symbols (symbols ! a) (symbols ! b) NODE_READ_SLOT_FALLBACK e cursor r))"
| "decode_slot_fields symbols KIND_WRITE_SLOT e cursor r =
     FROTH_TRY (read_two r) (\<lambda>(a, b, r).
     FROTH_TRY (frothy_snapshot_reader_read_u8 r) (\<lambda>(flag, r).
     format_guard (a < length symbols)
       (copy_symbol (symbols ! a) (\<lambda>n. NODE_WRITE_SLOT n b (flag \<noteq> 0)) e cursor r)))"
| "decode_slot_fields symbols KIND_WRITE_SLOT_FALLBACK e cursor r =
     FROTH_TRY (read_three r) (\<lambda>(a, b, v, r).
     FROTH_TRY (frothy_snapshot_reader_read_u8 r) (\<lambda>(flag, r).
     format_guard (a < length symbols \<and> b < length symbols)
       (copy_two_symbols (symbols ! a) (symbols ! b)
          (\<lambda>p f. NODE_WRITE_SLOT_FALLBACK p f v (flag \<noteq> 0)) e cursor r)))"
| "decode_slot_fields symbols KIND_SLOT_DESIGNATOR e cursor r =
     FROTH_TRY (read_size r) (\<lambda>(a, r).
     format_guard (a < length symbols)
       (copy_symbol (symbols ! a) NODE_SLOT_DESIGNATOR e cursor r))"
| "decode_slot_fields symbols k e cursor r = Inl FROTH_ERROR_SNAPSHOT_FORMAT"

fun decode_node_fields ::
  "byte list list \<Rightarrow> frothy_ir_node_kind \<Rightarrow> nat \<Rightarrow> nat \<Rightarrow> reader \<Rightarrow>
   (frothy_ir_node \<times> nat \<times> reader) result" where
  "decode_node_fields symbols KIND_LIT e cursor r =
     FROTH_TRY (read_size r) (\<lambda>(a, r). Inr (NODE_LIT a, cursor, r))"
| "decode_node_fields symbols KIND_READ_LOCAL e cursor r =
     FROTH_TRY (read_size r) (\<lambda>(a, r). Inr (NODE_READ_LOCAL a, cursor, r))"
| "decode_node_fields symbols KIND_WRITE_LOCAL e cursor r =
     FROTH_TRY (read_two r) (\<lambda>(a, b, r). Inr (NODE_WRITE_LOCAL a b, cursor, r))"
| "decode_node_fields symbols KIND_READ_SLOT e cursor r = decode_slot_fields symbols KIND_READ_SLOT e cursor r"
| "decode_node_fields symbols KIND_READ_SLOT_FALLBACK e cursor r = decode_slot_fields symbols KIND_READ_SLOT_FALLBACK e cursor r"
| "decode_node_fields symbols KIND_WRITE_SLOT e cursor r = decode_slot_fields symbols KIND_WRITE_SLOT e cursor r"
| "decode_node_fields symbols KIND_WRITE_SLOT_FALLBACK e cursor r = decode_slot_fields symbols KIND_WRITE_SLOT_FALLBACK e cursor r"
| "decode_node_fields symbols KIND_SLOT_DESIGNATOR e cursor r = decode_slot_fields symbols KIND_SLOT_DESIGNATOR e cursor r"
| "decode_node_fields symbols KIND_RECORD_DEF e cursor r = Inl FROTH_ERROR_NOT_PERSISTABLE"
| "decode_node_fields symbols KIND_READ_INDEX e cursor r =
     FROTH_TRY (read_two r) (\<lambda>(a, b, r). Inr (NODE_READ_INDEX a b, cursor, r))"
| "decode_node_fields symbols KIND_WRITE_INDEX e cursor r =
     FROTH_TRY (read_three r) (\<lambda>(a, b, v, r). Inr (NODE_WRITE_INDEX a b v, cursor, r))"
| "decode_node_fields symbols KIND_READ_FIELD e cursor r =
     FROTH_TRY (read_size r) (\<lambda>(a, r).
     FROTH_TRY (frothy_snapshot_read_string_bytes r) (\<lambda>(bs, r).
     FROTH_TRY (frothy_snapshot_copy_string bs e cursor) (\<lambda>(n, cursor).
     Inr (NODE_READ_FIELD a n, cursor, r))))"
| "decode_node_fields symbols KIND_WRITE_FIELD e cursor r =
     FROTH_TRY (read_size r) (\<lambda>(a, r).
     FROTH_TRY (frothy_snapshot_read_string_bytes r) (\<lambda>(bs, r).
     FROTH_TRY (read_size r) (\<lambda>(b, r).
     FROTH_TRY (frothy_snapshot_copy_string bs e cursor) (\<lambda>(n, cursor).
     Inr (NODE_WRITE_FIELD a n b, cursor, r)))))"
| "decode_node_fields symbols KIND_FN e cursor r =
     FROTH_TRY (read_three r) (\<lambda>(a, b, body, r). Inr (NODE_FN a b body, cursor, r))"
| "decode_node_fields symbols KIND_CALL e cursor r =
     FROTH_TRY (frothy_snapshot_reader_read_u8 r) (\<lambda>(builtin, r).
     FROTH_TRY (read_three r) (\<lambda>(a, b, n, r).
     case kind_of_byte builtins builtin of
       None \<Rightarrow> Inl FROTH_ERROR_SNAPSHOT_FORMAT
     | Some bi \<Rightarrow> Inr (NODE_CALL bi (decode_node_id a) b n, cursor, r)))"
| "decode_node_fields symbols KIND_IF e cursor r =
     FROTH_TRY (read_three r) (\<lambda>(a, b, els, r).
     FROTH_TRY (frothy_snapshot_reader_read_u8 r) (\<lambda>(flag, r).
     Inr (NODE_IF a b (decode_node_id els) (flag \<noteq> 0), cursor, r)))"
| "decode_node_fields symbols KIND_WHILE e cursor r =
     FROTH_TRY (read_two r) (\<lambda>(a, b, r). Inr (NODE_WHILE a b, cursor, r))"
| "decode_node_fields symbols KIND_SEQ e cursor r =
     FROTH_TRY (read_two r) (\<lambda>(a, b, r). Inr (NODE_SEQ a b, cursor, r))"

definition decode_node ::
  "byte list list \<Rightarrow> nat \<Rightarrow> nat \<Rightarrow> reader \<Rightarrow> (frothy_ir_node \<times> nat \<times> reader) result" where
  "decode_node symbols e cursor r =
     FROTH_TRY (frothy_snapshot_reader_read_u8 r) (\<lambda>(kind, r).
     case kind_of_byte node_kinds kind of
       None \<Rightarrow> Inl FROTH_ERROR_SNAPSHOT_FORMAT
     | Some k \<Rightarrow> decode_node_fields symbols k e cursor r)"

definition decode_link :: "nat \<Rightarrow> nat \<Rightarrow> reader \<Rightarrow> (nat \<times> nat \<times> reader) result" where
  "decode_link e cursor r = FROTH_TRY (read_size r) (\<lambda>(a, r). Inr (a, cursor, r))"

fun decode_list ::
  "(nat \<Rightarrow> nat \<Rightarrow> reader \<Rightarrow> ('a \<times> nat \<times> reader) result) \<Rightarrow> nat \<Rightarrow> nat \<Rightarrow> nat \<Rightarrow> reader \<Rightarrow>
   ('a list \<times> nat \<times> reader) result" where
  "decode_list decode 0 e cursor r = Inr ([], cursor, r)"
| "decode_list decode (Suc n) e cursor r =
     FROTH_TRY (decode e cursor r) (\<lambda>(x, cursor, r).
     FROTH_TRY (decode_list decode n e cursor r) (\<lambda>(xs, cursor, r).
     Inr (x # xs, cursor, r)))"

definition decode_program_body ::
  "byte list list \<Rightarrow> frothy_ir_program \<Rightarrow> nat \<Rightarrow> nat \<Rightarrow> reader \<Rightarrow>
   (frothy_ir_program \<times> reader) result" where
  "decode_program_body symbols program e cursor r =
     FROTH_TRY (decode_list decode_literal (length (ir_literals program)) e cursor r)
       (\<lambda>(literals, cursor, r).
     FROTH_TRY (decode_list (decode_node symbols) (length (ir_nodes program)) e cursor r)
       (\<lambda>(nodes, cursor, r).
     FROTH_TRY (decode_list decode_link (length (ir_links program)) e cursor r)
       (\<lambda>(links, cursor, r).
     Inr (program\<lparr>ir_literals := literals, ir_nodes := nodes, ir_links := links\<rparr>, r))))"

text \<open>The \<^verbatim>\<open>fail\<close> label: give the block back.\<close>

definition decode_fail ::
  "frothy_span \<Rightarrow> froth_error \<Rightarrow> frothy_runtime \<Rightarrow> 'a result \<times> frothy_runtime" where
  "decode_fail payload err rt =
     (Inl err, if 0 < sp_length payload then frothy_runtime_release_payload payload rt else rt)"

definition fill_code_block ::
  "byte list list \<Rightarrow> frothy_ir_program \<Rightarrow> nat \<Rightarrow> nat \<Rightarrow> nat \<Rightarrow> nat \<Rightarrow> frothy_span \<Rightarrow> reader \<Rightarrow>
   frothy_runtime \<Rightarrow> (frothy_value \<times> reader) result \<times> frothy_runtime" where
  "fill_code_block symbols program cursor body arity local_count payload r rt =
     (case decode_program_body symbols program (sp_length payload) cursor r of
        Inl err \<Rightarrow> decode_fail payload err rt
      | Inr (program, r) \<Rightarrow>
          (case frothy_runtime_alloc_packed_code program body arity local_count rt of
             (Inl err, rt) \<Rightarrow> decode_fail payload err rt
           | (Inr v, rt) \<Rightarrow> (Inr (v, r), rt)))"

definition decode_code_block ::
  "byte list list \<Rightarrow> nat \<times> nat \<times> nat \<times> nat \<times> nat \<times> nat \<times> nat \<times> nat \<times> reader \<Rightarrow>
   frothy_runtime \<Rightarrow> (frothy_value \<times> reader) result \<times> frothy_runtime" where
  "decode_code_block symbols header rt =
     (case header of
        (arity, local_count, body, root, root_local_count, literal_count, node_count, link_count, r)
        \<Rightarrow>
      if FROTHY_IR_LITERAL_CAPACITY < literal_count \<or> FROTHY_IR_NODE_CAPACITY < node_count \<or>
        FROTHY_IR_LINK_CAPACITY < link_count
      then (Inl FROTH_ERROR_SNAPSHOT_OVERFLOW, rt)
      else case FROTH_TRY
          (frothy_snapshot_measure_code_object symbols literal_count node_count link_count r)
          (frothy_ir_program_packed_size literal_count node_count link_count) of
          Inl err \<Rightarrow> (Inl err, rt)
        | Inr packed_size \<Rightarrow>
            (case frothy_runtime_alloc_payload packed_size rt of
               (Inl err, rt) \<Rightarrow> (Inl err, rt)
             | (Inr payload, rt) \<Rightarrow>
                 (case frothy_ir_program_init_packed_view (sp_offset payload) (sp_length payload)
                     literal_count node_count link_count of
                    Inl err \<Rightarrow> decode_fail payload err rt
                  | Inr (program, cursor) \<Rightarrow>
                      fill_code_block symbols
                        (program\<lparr>ir_root := root, ir_root_local_count := root_local_count\<rparr>) cursor
                        body arity local_count payload r
                        (store_bytes (sp_offset payload) (replicate (sp_length payload) 0) rt))))"

definition frothy_snapshot_decode_code_object ::
  "byte list list \<Rightarrow> reader \<Rightarrow> frothy_runtime \<Rightarrow>
   (frothy_value \<times> reader) result \<times> frothy_runtime" where
  "frothy_snapshot_decode_code_object symbols r rt =
     (case read_code_header r of
        Inl err \<Rightarrow> (Inl err, rt)
      | Inr header \<Rightarrow> decode_code_block symbols header rt)"

end
