(* ===== verification/Frothy_Codec_Wire.thy ===== *)
theory Frothy_Codec_Wire
  imports Frothy_Codec_Code
begin

section \<open>The passes over a program agree\<close>

text \<open>
  The contract of the four passes over literals, nodes and links (locale \<open>packed_wire\<close>) and its
  interpretations. \<open>literal_bytes\<close> and \<open>node_bytes\<close> are the wire format as a function;
  \<open>node_valid\<close> is what the validator enforces of a node: every index it holds is in range.
\<close>

subsection \<open>Indices on the wire\<close>

abbreviation fits :: "nat \<Rightarrow> bool" where "fits n \<equiv> n \<le> UINT32_MAX"

definition size_bytes :: "nat \<Rightarrow> byte list" where "size_bytes n = le32 (word_of_nat n)"

lemma fits_unat [simp]: "fits n \<Longrightarrow> unat (word_of_nat n :: 32 word) = n"
  by (rule unat_u32_of_nat) (simp add: UINT32_MAX_def)

lemma unat_le_UINT32_MAX: "unat (c :: 32 word) \<le> UINT32_MAX"
proof -
  have "unat c < 2 ^ LENGTH(32)" by (rule unsigned_less)
  then show ?thesis by (simp add: UINT32_MAX_def)
qed

lemma unat_le_UINT16_MAX: "unat (c :: 16 word) \<le> UINT16_MAX"
proof -
  have "unat c < 2 ^ LENGTH(16)" by (rule unsigned_less)
  then show ?thesis by (simp add: UINT16_MAX_def)
qed

lemma unat_fits [simp]: "fits (unat (c :: 32 word))"
  by (rule unat_le_UINT32_MAX)

lemma read_size_Inr:
  "read_size r = Inr (n, r') \<longleftrightarrow> fits n \<and> r = size_bytes n @ r'"
  by (auto simp: read_size_def FROTH_TRY_Inr_iff read_u32_Inr size_bytes_def)

lemma read_two_Inr:
  "read_two r = Inr (a, b, r') \<longleftrightarrow> fits a \<and> fits b \<and> r = size_bytes a @ size_bytes b @ r'"
  by (auto simp: read_two_def FROTH_TRY_Inr_iff read_size_Inr split: prod.splits)

lemma read_three_Inr:
  "read_three r = Inr (a, b, c, r') \<longleftrightarrow>
   fits a \<and> fits b \<and> fits c \<and> r = size_bytes a @ size_bytes b @ size_bytes c @ r'"
  by (auto simp: read_three_def FROTH_TRY_Inr_iff read_size_Inr read_two_Inr)

lemma read_sizes_written [wire_simps]:
  "fits n \<Longrightarrow> read_size (size_bytes n @ r) = Inr (n, r)"
  "fits a \<Longrightarrow> fits b \<Longrightarrow> read_two (size_bytes a @ size_bytes b @ r) = Inr (a, b, r)"
  "fits a \<Longrightarrow> fits b \<Longrightarrow> fits c \<Longrightarrow>
   read_three (size_bytes a @ size_bytes b @ size_bytes c @ r) = Inr (a, b, c, r)"
  by (simp_all add: read_size_Inr read_two_Inr read_three_Inr)

lemma write_size_Inr [wire_simps]:
  "write_size n w = Inr w' \<Longrightarrow> w' = writer_append (size_bytes n) w"
  by (simp add: write_size_def write_Inr size_bytes_def)

lemma write_sizes_Inr [wire_simps]:
  "write_sizes ns w = Inr w' \<Longrightarrow> w' = writer_append (concat (map size_bytes ns)) w"
proof (induction ns arbitrary: w)
  case Nil
  then show ?case by (simp add: write_sizes_def writer_append_def)
next
  case (Cons n ns)
  then obtain w1 where "write_size n w = Inr w1" "write_sizes ns w1 = Inr w'"
    by (auto simp: write_sizes_def FROTH_TRY_Inr_iff)
  then have "w' = writer_append (concat (map size_bytes ns)) w1" "w1 = writer_append (size_bytes n) w"
    using Cons.IH [of w1] by (simp_all add: write_size_Inr)
  then show ?case by (simp add: writer_append_append)
qed

lemma read_string_Inr:
  "frothy_snapshot_read_string_bytes r = Inr (bs, r') \<longleftrightarrow>
   bs \<noteq> [] \<and> length bs \<le> UINT16_MAX \<and> r = string_bytes bs @ r'"
proof
  assume "frothy_snapshot_read_string_bytes r = Inr (bs, r')"
  then obtain n where n: "n \<noteq> 0" "length bs = unat n" "r = le16 n @ bs @ r'"
    by (auto simp: frothy_snapshot_read_string_bytes_def FROTH_TRY_Inr_iff read_u16_Inr read_Inr
        split: if_splits)
  then have "unat n \<noteq> 0" by (simp add: unat_eq_0)
  moreover have "unat n \<le> UINT16_MAX" by (rule unat_le_UINT16_MAX)
  moreover have "word_of_nat (length bs) = n" using n(2) by simp
  ultimately show "bs \<noteq> [] \<and> length bs \<le> UINT16_MAX \<and> r = string_bytes bs @ r'"
    using n by (auto simp: string_bytes_def)
qed (use read_string_written in blast)

subsection \<open>Kinds\<close>

lemma literal_kind_bytes [simp]:
  "kind_of_byte literal_kinds (byte_of_kind literal_kinds 0 k) = Some k"
  by (cases k) (simp_all add: literal_kinds_def kind_of_byte_def)

lemma node_kind_bytes [simp]: "kind_of_byte node_kinds (byte_of_kind node_kinds 0 k) = Some k"
  by (cases k) (simp_all add: node_kinds_def kind_of_byte_def)

lemma builtin_bytes [simp]: "kind_of_byte builtins (byte_of_kind builtins 0 b) = Some b"
  by (cases b) (simp_all add: builtins_def kind_of_byte_def)

lemma builtin_byte_zero: "byte_of_kind builtins 0 b = 0 \<longleftrightarrow> b = BUILTIN_NONE"
  by (cases b) (simp_all add: builtins_def)

lemma builtin_byte_range: "unat (byte_of_kind builtins 0 b) \<le> 14"
  by (cases b) (simp_all add: builtins_def)

lemma builtin_of_range: "unat f \<le> 14 \<longleftrightarrow> (\<exists>b. kind_of_byte builtins f = Some b)"
  by (auto simp: kind_of_byte_def builtins_def)

lemma builtin_of_zero: "kind_of_byte builtins f = Some b \<Longrightarrow> f = 0 \<longleftrightarrow> b = BUILTIN_NONE"
proof -
  assume b: "kind_of_byte builtins f = Some b"
  then have "unat f < length builtins" "b = builtins ! unat f"
    by (auto simp: kind_of_byte_def split: if_splits)
  moreover have "distinct builtins" "builtins ! 0 = BUILTIN_NONE" "0 < length builtins"
    by (simp_all add: builtins_def)
  ultimately show "f = 0 \<longleftrightarrow> b = BUILTIN_NONE" by (metis nth_eq_iff_index_eq unat_eq_0)
qed

lemma flag_byte_simps [simp]: "flag_byte b \<noteq> 0 \<longleftrightarrow> b" "flag_byte b = 0 \<longleftrightarrow> \<not> b"
  by (simp_all add: flag_byte_def)

subsection \<open>The contract\<close>

text \<open>The measuring pass fails only when the sum of the sizes overflows.\<close>

definition measured_by :: "(nat \<times> reader) result \<Rightarrow> nat \<Rightarrow> reader \<Rightarrow> bool" where
  "measured_by m sz r \<longleftrightarrow> m = Inr (sz, r) \<or> m = Inl FROTH_ERROR_HEAP_OUT_OF_MEMORY"

lemma measured_by_simps [simp]:
  "measured_by (Inr (a, r)) n r' \<longleftrightarrow> a = n \<and> r = r'"
  "measured_by (Inl e) n r' \<longleftrightarrow> e = FROTH_ERROR_HEAP_OUT_OF_MEMORY"
  by (simp_all add: measured_by_def)

lemma measured_by_TRY:
  "measured_by m n r \<Longrightarrow> measured_by (k (n, r)) n' r' \<Longrightarrow> measured_by (FROTH_TRY m k) n' r'"
  by (auto simp: measured_by_def)

locale packed_wire =
  fixes put :: "'a \<Rightarrow> writer \<Rightarrow> writer result"
    and check :: "reader \<Rightarrow> reader result"
    and meas :: "nat \<Rightarrow> reader \<Rightarrow> (nat \<times> reader) result"
    and decode :: "nat \<Rightarrow> nat \<Rightarrow> reader \<Rightarrow> ('a \<times> nat \<times> reader) result"
    and valid :: "'a \<Rightarrow> bool"
    and writable :: "'a \<Rightarrow> bool"
    and space :: "'a \<Rightarrow> nat"
  assumes written:
    "valid x \<Longrightarrow> writable x \<Longrightarrow> put x w = Inr w' \<Longrightarrow>
     \<exists>bs. w' = writer_append bs w \<and> (\<forall>rest. check (bs @ rest) = Inr rest \<and>
       (\<forall>e cursor. cursor + space x \<le> e \<longrightarrow>
          decode e cursor (bs @ rest) = Inr (x, cursor + space x, rest)))"
  and validated:
    "check r = Inr r' \<Longrightarrow>
     \<exists>x n. valid x \<and> (\<forall>acc. acc + n \<le> SIZE_MAX \<longrightarrow> meas acc r = Inr (acc + n, r')) \<and>
       (\<forall>acc. measured_by (meas acc r) (acc + n) r') \<and>
       (\<forall>e cursor. cursor + n \<le> e \<longrightarrow> decode e cursor r = Inr (x, cursor + n, r'))"
begin

text \<open>The measuring pass counts, for what was written, exactly the space of its strings.\<close>

lemma measured:
  assumes "valid x" "writable x" "put x w = Inr w'"
  shows "\<exists>bs. w' = writer_append bs w \<and> (\<forall>rest. check (bs @ rest) = Inr rest \<and>
    (\<forall>acc. acc + space x \<le> SIZE_MAX \<longrightarrow> meas acc (bs @ rest) = Inr (acc + space x, rest)) \<and>
    (\<forall>e cursor. cursor + space x \<le> e \<longrightarrow>
       decode e cursor (bs @ rest) = Inr (x, cursor + space x, rest)))"
proof -
  obtain bs where bs: "w' = writer_append bs w" "\<And>rest. check (bs @ rest) = Inr rest"
    "\<And>rest e cursor. cursor + space x \<le> e \<Longrightarrow>
       decode e cursor (bs @ rest) = Inr (x, cursor + space x, rest)"
    using written [OF assms] by blast
  have "meas acc (bs @ rest) = Inr (acc + space x, rest)" if "acc + space x \<le> SIZE_MAX" for acc rest
  proof -
    obtain y n where
      m: "\<And>acc. acc + n \<le> SIZE_MAX \<Longrightarrow> meas acc (bs @ rest) = Inr (acc + n, rest)" and
      d: "\<And>e cursor. cursor + n \<le> e \<Longrightarrow> decode e cursor (bs @ rest) = Inr (y, cursor + n, rest)"
      using validated [OF bs(2)] by blast
    have "decode (n + space x) 0 (bs @ rest) = Inr (y, n, rest)" using d [of 0 "n + space x"] by simp
    moreover have "decode (n + space x) 0 (bs @ rest) = Inr (x, space x, rest)"
      using bs(3) [of 0 "n + space x" rest] by simp
    ultimately have "n = space x" by (metis Inr_inject prod.inject)
    then show ?thesis using m that by simp
  qed
  then show ?thesis using bs by blast
qed

lemma list_written:
  "list_all valid xs \<Longrightarrow> list_all writable xs \<Longrightarrow> put_list put xs w = Inr w' \<Longrightarrow>
   \<exists>bs. w' = writer_append bs w \<and> (\<forall>rest. check_list check (length xs) (bs @ rest) = Inr rest \<and>
     (\<forall>acc. acc + sum_list (map space xs) \<le> SIZE_MAX \<longrightarrow>
        measure_list meas (length xs) acc (bs @ rest) = Inr (acc + sum_list (map space xs), rest)) \<and>
     (\<forall>e cursor. cursor + sum_list (map space xs) \<le> e \<longrightarrow>
        decode_list decode (length xs) e cursor (bs @ rest) =
          Inr (xs, cursor + sum_list (map space xs), rest)))"
proof (induction xs arbitrary: w)
  case Nil
  then show ?case by (intro exI [of _ "[]"]) (simp add: writer_append_def)
next
  case (Cons x xs)
  obtain w1 where w1: "put x w = Inr w1" "put_list put xs w1 = Inr w'"
    using Cons.prems(3) by (auto simp: FROTH_TRY_Inr_iff)
  have xs: "list_all valid xs" "list_all writable xs" using Cons.prems by auto
  obtain bs where bs: "w1 = writer_append bs w" "\<And>rest. check (bs @ rest) = Inr rest"
    "\<And>rest acc. acc + space x \<le> SIZE_MAX \<Longrightarrow> meas acc (bs @ rest) = Inr (acc + space x, rest)"
    "\<And>rest e cursor. cursor + space x \<le> e \<Longrightarrow>
       decode e cursor (bs @ rest) = Inr (x, cursor + space x, rest)"
    using measured [OF _ _ w1(1)] Cons.prems by auto
  obtain cs where cs: "w' = writer_append cs w1"
    "\<And>rest. check_list check (length xs) (cs @ rest) = Inr rest"
    "\<And>rest acc. acc + sum_list (map space xs) \<le> SIZE_MAX \<Longrightarrow>
       measure_list meas (length xs) acc (cs @ rest) = Inr (acc + sum_list (map space xs), rest)"
    "\<And>rest e cursor. cursor + sum_list (map space xs) \<le> e \<Longrightarrow>
       decode_list decode (length xs) e cursor (cs @ rest) =
         Inr (xs, cursor + sum_list (map space xs), rest)"
    using Cons.IH [OF xs w1(2)] by blast
  show ?case
    using bs cs by (intro exI [of _ "bs @ cs"]) (simp add: writer_append_append add.assoc)
qed

lemma list_validated:
  "check_list check k r = Inr r' \<Longrightarrow>
   \<exists>xs n. length xs = k \<and> list_all valid xs \<and>
     (\<forall>acc. acc + n \<le> SIZE_MAX \<longrightarrow> measure_list meas k acc r = Inr (acc + n, r')) \<and>
     (\<forall>acc. measured_by (measure_list meas k acc r) (acc + n) r') \<and>
     (\<forall>e cursor. cursor + n \<le> e \<longrightarrow> decode_list decode k e cursor r = Inr (xs, cursor + n, r'))"
proof (induction k arbitrary: r)
  case 0
  then show ?case by (auto intro!: exI [of _ 0])
next
  case (Suc k)
  obtain r1 where r1: "check r = Inr r1" "check_list check k r1 = Inr r'"
    using Suc.prems by (auto simp: FROTH_TRY_Inr_iff)
  obtain x m where x: "valid x" "\<And>acc. acc + m \<le> SIZE_MAX \<Longrightarrow> meas acc r = Inr (acc + m, r1)"
    "\<And>acc. measured_by (meas acc r) (acc + m) r1"
    "\<And>e cursor. cursor + m \<le> e \<Longrightarrow> decode e cursor r = Inr (x, cursor + m, r1)"
    using validated [OF r1(1)] by blast
  obtain xs n where xs: "length xs = k" "list_all valid xs"
    "\<And>acc. acc + n \<le> SIZE_MAX \<Longrightarrow> measure_list meas k acc r1 = Inr (acc + n, r')"
    "\<And>acc. measured_by (measure_list meas k acc r1) (acc + n) r'"
    "\<And>e cursor. cursor + n \<le> e \<Longrightarrow> decode_list decode k e cursor r1 = Inr (xs, cursor + n, r')"
    using Suc.IH [OF r1(2)] by blast
  have "measured_by (measure_list meas (Suc k) acc r) (acc + (m + n)) r'" for acc
    using measured_by_TRY [OF x(3) [of acc], of "\<lambda>(acc, r). measure_list meas k acc r"]
      xs(4) [of "acc + m"] by (simp add: add.assoc)
  then show ?case
    using x xs by (intro exI [of _ "x # xs"] exI [of _ "m + n"]) (simp add: add.assoc)
qed

end

subsection \<open>Literals and links\<close>

fun literal_bytes :: "frothy_ir_literal \<Rightarrow> byte list" where
  "literal_bytes (LITERAL_INT i) = byte_of_kind literal_kinds 0 LITERAL_KIND_INT # le32 i"
| "literal_bytes (LITERAL_BOOL b) = [byte_of_kind literal_kinds 0 LITERAL_KIND_BOOL, flag_byte b]"
| "literal_bytes LITERAL_NIL = [byte_of_kind literal_kinds 0 LITERAL_KIND_NIL]"
| "literal_bytes (LITERAL_TEXT t) =
     byte_of_kind literal_kinds 0 LITERAL_KIND_TEXT # size_bytes (length t) @ t"

definition literal_valid :: "frothy_ir_literal \<Rightarrow> bool" where
  "literal_valid l \<longleftrightarrow> (\<forall>s \<in> set (literal_strings l). 0 \<notin> set s)"

definition literal_writable :: "frothy_ir_literal \<Rightarrow> bool" where
  "literal_writable l \<longleftrightarrow> (\<forall>s \<in> set (literal_strings l). fits (length s))"

abbreviation literal_space :: "frothy_ir_literal \<Rightarrow> nat" where
  "literal_space l \<equiv> strings_size (literal_strings l)"

lemma strlen_nul_free: "0 \<notin> set s \<Longrightarrow> strlen s = length s"
  by (simp add: strlen_def c_string_nul_free)

lemma c_string_nul: "0 \<notin> set (c_string s)"
  by (auto simp: c_string_def dest: set_takeWhileD)

lemma write_literal_Inr:
  "literal_valid l \<Longrightarrow> frothy_snapshot_write_literal l w = Inr w' \<Longrightarrow>
   w' = writer_append (literal_bytes l) w"
  by (cases l) (auto simp: frothy_snapshot_write_literal_def FROTH_TRY_Inr_iff write_Inr
      writer_append_append literal_valid_def c_string_nul_free strlen_nul_free dest!: write_size_Inr)

lemma copy_string_ok:
  "cursor + (length bs + 1) \<le> e \<Longrightarrow>
   frothy_snapshot_copy_string bs e cursor = Inr (c_string bs, cursor + (length bs + 1))"
  by (simp add: frothy_snapshot_copy_string_def)

lemma measure_string_ok:
  "acc + (n + 1) \<le> SIZE_MAX \<Longrightarrow> measure_string n acc r = Inr (acc + (n + 1), r)"
  by (simp add: measure_string_def frothy_snapshot_add_size_def)

lemma measure_string_by: "measured_by (measure_string n acc r) (acc + (n + 1)) r"
  by (simp add: measure_string_def frothy_snapshot_add_size_def)

lemma literal_bytes_check:
  "literal_writable l \<Longrightarrow> frothy_snapshot_validate_literal (literal_bytes l @ rest) = Inr rest"
  by (cases l) (simp_all add: frothy_snapshot_validate_literal_def wire_simps literal_writable_def)

lemma literal_bytes_decode:
  "literal_valid l \<Longrightarrow> literal_writable l \<Longrightarrow> cursor + literal_space l \<le> e \<Longrightarrow>
   decode_literal e cursor (literal_bytes l @ rest) = Inr (l, cursor + literal_space l, rest)"
  by (cases l) (simp_all add: decode_literal_def wire_simps literal_writable_def literal_valid_def
      copy_string_ok strlen_nul_free c_string_nul_free)

lemma literal_validated:
  assumes "frothy_snapshot_validate_literal r = Inr r'"
  shows "\<exists>x n. literal_valid x \<and>
     (\<forall>acc. acc + n \<le> SIZE_MAX \<longrightarrow> measure_literal acc r = Inr (acc + n, r')) \<and>
     (\<forall>acc. measured_by (measure_literal acc r) (acc + n) r') \<and>
     (\<forall>e cursor. cursor + n \<le> e \<longrightarrow> decode_literal e cursor r = Inr (x, cursor + n, r'))"
proof -
  obtain k b r1 where r: "r = b # r1" "kind_of_byte literal_kinds b = Some k"
    using assms by (auto simp: frothy_snapshot_validate_literal_def FROTH_TRY_Inr_iff read_Inr
        split: option.splits)
  show ?thesis
  proof (cases k)
    case LITERAL_KIND_INT
    then obtain i where "r1 = le32 i @ r'"
      using assms r by (auto simp: frothy_snapshot_validate_literal_def FROTH_TRY_Inr_iff read_Inr)
    then show ?thesis using r LITERAL_KIND_INT
      by (intro exI [of _ "LITERAL_INT i"] exI [of _ 0])
         (simp add: measure_literal_def decode_literal_def wire_simps literal_valid_def)
  next
    case LITERAL_KIND_BOOL
    then obtain f where "r1 = f # r'"
      using assms r by (auto simp: frothy_snapshot_validate_literal_def FROTH_TRY_Inr_iff read_Inr)
    then show ?thesis using r LITERAL_KIND_BOOL
      by (intro exI [of _ "LITERAL_BOOL (f \<noteq> 0)"] exI [of _ 0])
         (simp add: measure_literal_def decode_literal_def wire_simps literal_valid_def)
  next
    case LITERAL_KIND_NIL
    then show ?thesis using assms r
      by (intro exI [of _ "LITERAL_NIL"] exI [of _ 0])
         (simp add: frothy_snapshot_validate_literal_def measure_literal_def decode_literal_def
           wire_simps literal_valid_def)
  next
    case LITERAL_KIND_TEXT
    then obtain t where t: "fits (length t)" "r1 = size_bytes (length t) @ t @ r'"
      using assms r by (auto simp: frothy_snapshot_validate_literal_def FROTH_TRY_Inr_iff read_Inr
          read_size_Inr)
    then show ?thesis using r LITERAL_KIND_TEXT
      by (intro exI [of _ "LITERAL_TEXT (c_string t)"] exI [of _ "length t + 1"])
         (simp add: measure_literal_def decode_literal_def wire_simps literal_valid_def c_string_nul
           copy_string_ok measure_string_ok measure_string_by [simplified])
  qed
qed

interpretation literal_wire: packed_wire frothy_snapshot_write_literal
  frothy_snapshot_validate_literal measure_literal decode_literal literal_valid literal_writable
  literal_space
proof (unfold_locales, goal_cases)
  case (1 x w w')
  then show ?case
    using write_literal_Inr literal_bytes_check literal_bytes_decode by blast
next
  case (2 r r')
  then show ?case by (rule literal_validated)
qed

text \<open>Counts of 32 bits, as the code object's header holds them.\<close>

definition wire_counts ::
  "frothy_snapshot_symbol_table \<Rightarrow> 32 word \<Rightarrow> 32 word \<Rightarrow> 32 word \<Rightarrow> program_counts" where
  "wire_counts symbols l n k = \<lparr>pc_symbols = length (sy_items symbols), pc_literals = unat l,
     pc_nodes = unat n, pc_links = unat k\<rparr>"

lemma wire_counts_fits [simp]: "fits (pc_literals (wire_counts symbols l n k))"
  "fits (pc_nodes (wire_counts symbols l n k))" "fits (pc_links (wire_counts symbols l n k))"
  "pc_symbols (wire_counts symbols l n k) = length (sy_items symbols)"
  by (simp_all add: wire_counts_def)

interpretation link_wire: packed_wire write_size "validate_link (wire_counts symbols l n k)"
  measure_link decode_link "\<lambda>x. x < pc_nodes (wire_counts symbols l n k)" "\<lambda>x. True" "\<lambda>x. 0"
  for symbols l n k
proof (unfold_locales, goal_cases)
  case (1 x w w')
  then have "fits x" using wire_counts_fits(2) [of symbols l n k] by linarith
  then show ?case using 1
    by (auto simp: validate_link_def decode_link_def wire_simps dest!: write_size_Inr)
next
  case (2 r r')
  then obtain x where x: "fits x" "x < pc_nodes (wire_counts symbols l n k)" "r = size_bytes x @ r'"
    by (auto simp: validate_link_def FROTH_TRY_Inr_iff read_size_Inr)
  then show ?case
    by (intro exI [of _ x] exI [of _ 0]) (simp add: measure_link_def decode_link_def wire_simps)
qed

end
