(* ===== verification/Frothy_Codec_Nodes.thy ===== *)
theory Frothy_Codec_Nodes
  imports Frothy_Codec_Wire
begin

section \<open>The passes over a node agree\<close>

text \<open>
  The interpretation of \<open>packed_wire\<close> on nodes. \<open>node_bytes\<close> is the wire format of a node,
  \<open>node_valid\<close> what the validator enforces: every literal, node, link and name a node holds exists.
\<close>

fun node_valid :: "program_counts \<Rightarrow> frothy_ir_node \<Rightarrow> bool" where
  "node_valid c (NODE_LIT i) \<longleftrightarrow> i < pc_literals c"
| "node_valid c (NODE_READ_LOCAL i) \<longleftrightarrow> fits i"
| "node_valid c (NODE_WRITE_LOCAL i v) \<longleftrightarrow> fits i \<and> v < pc_nodes c"
| "node_valid c (NODE_READ_SLOT n) \<longleftrightarrow> True"
| "node_valid c (NODE_WRITE_SLOT n v r) \<longleftrightarrow> v < pc_nodes c"
| "node_valid c (NODE_READ_SLOT_FALLBACK p f) \<longleftrightarrow> True"
| "node_valid c (NODE_WRITE_SLOT_FALLBACK p f v r) \<longleftrightarrow> v < pc_nodes c"
| "node_valid c (NODE_SLOT_DESIGNATOR n) \<longleftrightarrow> True"
| "node_valid c (NODE_RECORD_DEF n a b) \<longleftrightarrow> False"
| "node_valid c (NODE_READ_INDEX b i) \<longleftrightarrow> b < pc_nodes c \<and> i < pc_nodes c"
| "node_valid c (NODE_WRITE_INDEX b i v) \<longleftrightarrow> b < pc_nodes c \<and> i < pc_nodes c \<and> v < pc_nodes c"
| "node_valid c (NODE_READ_FIELD b n) \<longleftrightarrow> b < pc_nodes c \<and> frothy_simple_name_bytes_are_valid n"
| "node_valid c (NODE_WRITE_FIELD b n v) \<longleftrightarrow>
     b < pc_nodes c \<and> v < pc_nodes c \<and> frothy_simple_name_bytes_are_valid n"
| "node_valid c (NODE_FN a l b) \<longleftrightarrow> a \<le> l \<and> fits l \<and> b < pc_nodes c"
| "node_valid c (NODE_CALL b callee f n) \<longleftrightarrow> f + n \<le> pc_links c \<and>
     (callee < pc_nodes c \<or> b \<noteq> BUILTIN_NONE \<and> callee = FROTHY_IR_NODE_INVALID)"
| "node_valid c (NODE_IF cond t e h) \<longleftrightarrow> cond < pc_nodes c \<and> t < pc_nodes c \<and>
     (e < pc_nodes c \<or> \<not> h \<and> e = FROTHY_IR_NODE_INVALID)"
| "node_valid c (NODE_WHILE cond b) \<longleftrightarrow> cond < pc_nodes c \<and> b < pc_nodes c"
| "node_valid c (NODE_SEQ f n) \<longleftrightarrow> f + n \<le> pc_links c"

definition symbol_place :: "frothy_snapshot_symbol_table \<Rightarrow> byte list \<Rightarrow> nat" where
  "symbol_place symbols n = (case frothy_snapshot_symbol_index symbols n of Inr i \<Rightarrow> i | Inl e \<Rightarrow> 0)"

fun node_field_bytes :: "frothy_snapshot_symbol_table \<Rightarrow> frothy_ir_node \<Rightarrow> byte list" where
  "node_field_bytes s (NODE_LIT i) = size_bytes i"
| "node_field_bytes s (NODE_READ_LOCAL i) = size_bytes i"
| "node_field_bytes s (NODE_WRITE_LOCAL i v) = size_bytes i @ size_bytes v"
| "node_field_bytes s (NODE_READ_SLOT n) = size_bytes (symbol_place s n)"
| "node_field_bytes s (NODE_WRITE_SLOT n v r) =
     size_bytes (symbol_place s n) @ size_bytes v @ [flag_byte r]"
| "node_field_bytes s (NODE_READ_SLOT_FALLBACK p f) =
     size_bytes (symbol_place s p) @ size_bytes (symbol_place s f)"
| "node_field_bytes s (NODE_WRITE_SLOT_FALLBACK p f v r) =
     size_bytes (symbol_place s p) @ size_bytes (symbol_place s f) @ size_bytes v @ [flag_byte r]"
| "node_field_bytes s (NODE_SLOT_DESIGNATOR n) = size_bytes (symbol_place s n)"
| "node_field_bytes s (NODE_RECORD_DEF n a b) = []"
| "node_field_bytes s (NODE_READ_INDEX b i) = size_bytes b @ size_bytes i"
| "node_field_bytes s (NODE_WRITE_INDEX b i v) = size_bytes b @ size_bytes i @ size_bytes v"
| "node_field_bytes s (NODE_READ_FIELD b n) = size_bytes b @ string_bytes n"
| "node_field_bytes s (NODE_WRITE_FIELD b n v) = size_bytes b @ string_bytes n @ size_bytes v"
| "node_field_bytes s (NODE_FN a l b) = size_bytes a @ size_bytes l @ size_bytes b"
| "node_field_bytes s (NODE_CALL b c f n) = byte_of_kind builtins 0 b #
     size_bytes (frothy_snapshot_encode_node_id c) @ size_bytes f @ size_bytes n"
| "node_field_bytes s (NODE_IF c t e h) = size_bytes c @ size_bytes t @
     size_bytes (frothy_snapshot_encode_node_id e) @ [flag_byte h]"
| "node_field_bytes s (NODE_WHILE c b) = size_bytes c @ size_bytes b"
| "node_field_bytes s (NODE_SEQ f n) = size_bytes f @ size_bytes n"

definition node_bytes :: "frothy_snapshot_symbol_table \<Rightarrow> frothy_ir_node \<Rightarrow> byte list" where
  "node_bytes s nd = byte_of_kind node_kinds 0 (node_kind nd) # node_field_bytes s nd"

text \<open>The slot names of a node; its other string is a field name.\<close>

fun slot_names :: "frothy_ir_node \<Rightarrow> byte list list" where
  "slot_names (NODE_READ_SLOT n) = [n]"
| "slot_names (NODE_READ_SLOT_FALLBACK p f) = [p, f]"
| "slot_names (NODE_WRITE_SLOT n v r) = [n]"
| "slot_names (NODE_WRITE_SLOT_FALLBACK p f v r) = [p, f]"
| "slot_names (NODE_SLOT_DESIGNATOR n) = [n]"
| "slot_names nd = []"

fun field_names :: "frothy_ir_node \<Rightarrow> byte list list" where
  "field_names (NODE_READ_FIELD b n) = [n]"
| "field_names (NODE_WRITE_FIELD b n v) = [n]"
| "field_names nd = []"

text \<open>Slot names are in the table, field names have a length of 16 bits.\<close>

definition in_table :: "frothy_snapshot_symbol_table \<Rightarrow> byte list \<Rightarrow> bool" where
  "in_table s n \<longleftrightarrow> 0 \<notin> set n \<and> fits (symbol_place s n) \<and>
     symbol_place s n < length (sy_items s) \<and> sy_items s ! symbol_place s n = n"

definition node_writable :: "frothy_snapshot_symbol_table \<Rightarrow> frothy_ir_node \<Rightarrow> bool" where
  "node_writable s nd \<longleftrightarrow>
     list_all (in_table s) (slot_names nd) \<and> list_all (\<lambda>n. length n \<le> UINT16_MAX) (field_names nd)"

abbreviation node_space :: "frothy_ir_node \<Rightarrow> nat" where
  "node_space nd \<equiv> strings_size (node_strings nd)"

lemma simple_name_facts:
  "frothy_simple_name_bytes_are_valid n \<Longrightarrow> c_string n = n"
  "frothy_simple_name_bytes_are_valid n \<Longrightarrow> strlen n = length n"
  "frothy_simple_name_bytes_are_valid n \<Longrightarrow> n \<noteq> []"
  using simple_name_nonzero valid_name_nonempty c_string_nul_free strlen_nul_free by metis+

lemma in_table_facts:
  "in_table s n \<Longrightarrow> c_string n = n" "in_table s n \<Longrightarrow> strlen n = length n"
  "in_table s n \<Longrightarrow> fits (symbol_place s n)"
  "in_table s n \<Longrightarrow> symbol_place s n < length (sy_items s)"
  "in_table s n \<Longrightarrow> sy_items s ! symbol_place s n = n"
  by (simp_all add: in_table_def c_string_nul_free strlen_nul_free)

lemma symbol_index_place:
  "frothy_snapshot_symbol_index s n = Inr i \<Longrightarrow> symbol_place s n = i"
  by (simp add: symbol_place_def)

lemma write_string_append:
  "frothy_snapshot_write_string t w = Inr w' \<Longrightarrow> w' = writer_append (string_bytes t) w"
  using write_string_Inr by blast

lemma write_node_Inr:
  "node_valid c nd \<Longrightarrow> frothy_snapshot_write_node s nd w = Inr w' \<Longrightarrow>
   w' = writer_append (node_bytes s nd) w"
  by (cases nd) (auto simp: frothy_snapshot_write_node_def FROTH_TRY_Inr_iff write_Inr node_bytes_def
      writer_append_append simple_name_facts dest!: write_size_Inr write_sizes_Inr symbol_index_place
      write_string_append)

lemma encode_node_id_fits: "a < n \<Longrightarrow> fits n \<Longrightarrow> fits (frothy_snapshot_encode_node_id a)"
  by (simp add: frothy_snapshot_encode_node_id_def FROTHY_SNAPSHOT_INVALID_INDEX_def)

lemma encode_node_id_small:
  "a < n \<Longrightarrow> fits n \<Longrightarrow> frothy_snapshot_encode_node_id a = a"
  by (simp add: frothy_snapshot_encode_node_id_def FROTHY_IR_NODE_INVALID_def UINT32_MAX_def
      SIZE_MAX_def)

lemma encode_node_id_invalid:
  "frothy_snapshot_encode_node_id FROTHY_IR_NODE_INVALID = FROTHY_SNAPSHOT_INVALID_INDEX"
  "fits FROTHY_SNAPSHOT_INVALID_INDEX"
  "decode_node_id FROTHY_SNAPSHOT_INVALID_INDEX = FROTHY_IR_NODE_INVALID"
  by (simp_all add: frothy_snapshot_encode_node_id_def FROTHY_SNAPSHOT_INVALID_INDEX_def
      decode_node_id_def)

lemma decode_node_id_small: "a < n \<Longrightarrow> fits n \<Longrightarrow> decode_node_id a = a"
  by (simp add: decode_node_id_def FROTHY_SNAPSHOT_INVALID_INDEX_def)

lemma validate_node_id_Inr:
  "frothy_snapshot_validate_node_id i n allow = Inr u \<longleftrightarrow>
   i < n \<or> allow \<and> i = FROTHY_SNAPSHOT_INVALID_INDEX"
  by (auto simp: frothy_snapshot_validate_node_id_def)

lemma validate_link_span_Inr:
  "frothy_snapshot_validate_link_span f n k = Inr u \<longleftrightarrow> f + n \<le> k"
  by (auto simp: frothy_snapshot_validate_link_span_def)

lemma index_fits: "a < n \<Longrightarrow> fits n \<Longrightarrow> fits a"
  by linarith

lemma span_fits: "a + b \<le> n \<Longrightarrow> fits n \<Longrightarrow> fits a" "a + b \<le> n \<Longrightarrow> fits n \<Longrightarrow> fits b"
  by linarith+

lemmas node_id_simps = validate_node_id_Inr validate_link_span_Inr encode_node_id_fits
  encode_node_id_small encode_node_id_invalid decode_node_id_small index_fits span_fits

lemma validate_node_id_ok:
  "i < n \<Longrightarrow> frothy_snapshot_validate_node_id i n allow = Inr ()"
  "frothy_snapshot_validate_node_id FROTHY_SNAPSHOT_INVALID_INDEX n True = Inr ()"
  by (simp_all add: frothy_snapshot_validate_node_id_def)

lemma validate_link_span_ok: "f + n \<le> k \<Longrightarrow> frothy_snapshot_validate_link_span f n k = Inr ()"
  by (simp add: frothy_snapshot_validate_link_span_def)

abbreviation counts_ok :: "frothy_snapshot_symbol_table \<Rightarrow> program_counts \<Rightarrow> bool" where
  "counts_ok s c \<equiv> fits (pc_literals c) \<and> fits (pc_nodes c) \<and> fits (pc_links c) \<and>
     pc_symbols c = length (sy_items s)"

lemma node_field_bytes_check:
  assumes "counts_ok s c" "node_valid c nd" "node_writable s nd"
  shows "validate_node_fields c (node_kind nd) (node_field_bytes s nd @ rest) = Inr rest"
proof (cases nd)
  case (NODE_CALL b callee f n)
  show ?thesis
  proof (cases "callee < pc_nodes c")
    case True
    then show ?thesis using assms NODE_CALL builtin_byte_range [of b]
      by (simp add: wire_simps validate_node_id_ok validate_link_span_ok node_id_simps)
  next
    case False
    then show ?thesis using assms NODE_CALL builtin_byte_range [of b]
      by (simp add: wire_simps validate_node_id_ok validate_link_span_ok node_id_simps
          builtin_byte_zero)
  qed
next
  case (NODE_IF cond t e h)
  then show ?thesis using assms
    by (cases "e < pc_nodes c") (simp_all add: wire_simps validate_node_id_ok node_id_simps)
next
  case (NODE_FN a l b)
  then have "fits a" using assms by simp
  then show ?thesis using assms NODE_FN
    by (simp add: wire_simps node_id_simps)
qed (use assms in \<open>simp_all add: wire_simps validate_node_id_ok validate_link_span_ok node_id_simps
       node_writable_def in_table_facts simple_name_facts\<close>)

lemma node_bytes_check:
  "counts_ok s c \<Longrightarrow> node_valid c nd \<Longrightarrow> node_writable s nd \<Longrightarrow>
   validate_node c (node_bytes s nd @ rest) = Inr rest"
  by (simp add: validate_node_def node_bytes_def wire_simps node_field_bytes_check)

lemma copy_symbol_ok:
  "cursor + (length n + 1) \<le> e \<Longrightarrow>
   copy_symbol n mk e cursor r = Inr (mk (c_string n), cursor + (length n + 1), r)"
  by (simp add: copy_symbol_def frothy_snapshot_copy_symbol_string_def copy_string_ok)

lemma copy_two_symbols_ok:
  "cursor + (length p + 1 + (length f + 1)) \<le> e \<Longrightarrow>
   copy_two_symbols p f mk e cursor r =
     Inr (mk (c_string p) (c_string f), cursor + (length p + 1 + (length f + 1)), r)"
  by (simp add: copy_two_symbols_def frothy_snapshot_copy_symbol_string_def copy_string_ok)

lemma node_field_bytes_decode:
  assumes "counts_ok s c" "node_valid c nd" "node_writable s nd" "cursor + node_space nd \<le> e"
  shows "decode_node_fields (sy_items s) (node_kind nd) e cursor (node_field_bytes s nd @ rest) =
    Inr (nd, cursor + node_space nd, rest)"
proof (cases nd)
  case (NODE_CALL b callee f n)
  then show ?thesis using assms
    by (cases "callee < pc_nodes c") (simp_all add: wire_simps node_id_simps)
next
  case (NODE_IF cond t els h)
  then show ?thesis using assms
    by (cases "els < pc_nodes c") (simp_all add: wire_simps node_id_simps)
next
  case (NODE_FN a l b)
  then have "fits a" using assms by simp
  then show ?thesis using assms NODE_FN by (simp add: wire_simps node_id_simps)
next
  case (NODE_READ_SLOT_FALLBACK p f)
  then have "in_table s p" "in_table s f" using assms by (simp_all add: node_writable_def)
  then show ?thesis using assms NODE_READ_SLOT_FALLBACK
    by (simp add: wire_simps copy_two_symbols_ok in_table_facts)
next
  case (NODE_WRITE_SLOT_FALLBACK p f v h)
  then have "in_table s p" "in_table s f" using assms by (simp_all add: node_writable_def)
  then show ?thesis using assms NODE_WRITE_SLOT_FALLBACK
    by (simp add: wire_simps copy_two_symbols_ok in_table_facts node_id_simps)
qed (use assms in \<open>simp_all add: wire_simps node_id_simps copy_symbol_ok copy_two_symbols_ok
       copy_string_ok node_writable_def in_table_facts simple_name_facts\<close>)

lemma node_bytes_decode:
  "counts_ok s c \<Longrightarrow> node_valid c nd \<Longrightarrow> node_writable s nd \<Longrightarrow> cursor + node_space nd \<le> e \<Longrightarrow>
   decode_node (sy_items s) e cursor (node_bytes s nd @ rest) =
     Inr (nd, cursor + node_space nd, rest)"
  by (simp add: decode_node_def node_bytes_def wire_simps node_field_bytes_decode)

text \<open>A node the validator accepts is measured, and decoded into a valid node.\<close>

abbreviation node_decodes ::
  "frothy_snapshot_symbol_table \<Rightarrow> program_counts \<Rightarrow> frothy_ir_node_kind \<Rightarrow> reader \<Rightarrow> reader \<Rightarrow> bool"
  where "node_decodes s c k r r' \<equiv> \<exists>x n. node_valid c x \<and>
     (\<forall>acc. acc + n \<le> SIZE_MAX \<longrightarrow> measure_node_fields (sy_items s) k acc r = Inr (acc + n, r')) \<and>
     (\<forall>acc. measured_by (measure_node_fields (sy_items s) k acc r) (acc + n) r') \<and>
     (\<forall>e cursor. cursor + n \<le> e \<longrightarrow>
        decode_node_fields (sy_items s) k e cursor r = Inr (x, cursor + n, r'))"

lemma plain_node_decodes:
  assumes "node_valid c x" "\<And>acc. measure_node_fields (sy_items s) k acc r = Inr (acc, r')"
    "\<And>e cursor. decode_node_fields (sy_items s) k e cursor r = Inr (x, cursor, r')"
  shows "node_decodes s c k r r'"
  using assms by (intro exI [of _ x] exI [of _ 0]) simp

lemma text_node_decodes:
  assumes "node_valid c (mk (c_string t))"
    "\<And>acc. measure_node_fields (sy_items s) k acc r = measure_string (length t) acc r'"
    "\<And>e cursor. decode_node_fields (sy_items s) k e cursor r =
       FROTH_TRY (frothy_snapshot_copy_string t e cursor) (\<lambda>(u, cursor). Inr (mk u, cursor, r'))"
  shows "node_decodes s c k r r'"
  using assms by (intro exI [of _ "mk (c_string t)"] exI [of _ "length t + 1"])
    (simp add: measure_string_ok copy_string_ok measure_string_by [simplified])

lemma two_symbols_decode:
  assumes "node_valid c (mk (c_string p) (c_string f))"
    "\<And>acc. measure_node_fields (sy_items s) k acc r =
       FROTH_TRY (measure_string (length p) acc r') (\<lambda>(acc, r). measure_string (length f) acc r)"
    "\<And>e cursor. decode_node_fields (sy_items s) k e cursor r = copy_two_symbols p f mk e cursor r'"
  shows "node_decodes s c k r r'"
proof -
  have "measured_by (FROTH_TRY (measure_string (length p) acc r')
      (\<lambda>(acc, r). measure_string (length f) acc r)) (acc + (length p + 1 + (length f + 1))) r'" for acc
    using measured_by_TRY [OF measure_string_by [of "length p" acc r'],
        of "\<lambda>(acc, r). measure_string (length f) acc r"]
      measure_string_by [of "length f" "acc + (length p + 1)" r'] by (simp add: add.assoc)
  then show ?thesis
    using assms by (intro exI [of _ "mk (c_string p) (c_string f)"]
        exI [of _ "length p + 1 + (length f + 1)"])
      (simp add: measure_string_ok copy_two_symbols_ok)
qed

lemmas validated_simps = FROTH_TRY_Inr_iff read_size_Inr read_two_Inr read_three_Inr read_Inr
  read_string_Inr validate_node_id_Inr validate_link_span_Inr

lemma node_fields_validated:
  assumes "counts_ok s c" "validate_node_fields c k r = Inr r'"
  shows "node_decodes s c k r r'"
proof (cases k)
  case KIND_LIT
  then obtain a where "r = size_bytes a @ r'" "fits a" "a < pc_literals c"
    using assms by (auto simp: validated_simps)
  then show ?thesis using assms KIND_LIT
    by (intro plain_node_decodes [of c "NODE_LIT a"]) (simp_all add: wire_simps)
next
  case KIND_READ_LOCAL
  then obtain a where "r = size_bytes a @ r'" "fits a"
    using assms by (auto simp: validated_simps)
  then show ?thesis using assms KIND_READ_LOCAL
    by (intro plain_node_decodes [of c "NODE_READ_LOCAL a"]) (simp_all add: wire_simps)
next
  case KIND_WRITE_LOCAL
  then obtain a b where "r = size_bytes a @ size_bytes b @ r'" "fits a" "fits b" "b < pc_nodes c"
    using assms by (auto simp: validated_simps)
  then show ?thesis using assms KIND_WRITE_LOCAL
    by (intro plain_node_decodes [of c "NODE_WRITE_LOCAL a b"]) (simp_all add: wire_simps)
next
  case KIND_READ_INDEX
  then obtain a b where "r = size_bytes a @ size_bytes b @ r'" "fits a" "fits b" "a < pc_nodes c" "b < pc_nodes c"
    using assms by (auto simp: validated_simps)
  then show ?thesis using assms KIND_READ_INDEX
    by (intro plain_node_decodes [of c "NODE_READ_INDEX a b"]) (simp_all add: wire_simps)
next
  case KIND_WRITE_INDEX
  then obtain a b v where "r = size_bytes a @ size_bytes b @ size_bytes v @ r'" "fits a" "fits b" "fits v" "a < pc_nodes c" "b < pc_nodes c" "v < pc_nodes c"
    using assms by (auto simp: validated_simps)
  then show ?thesis using assms KIND_WRITE_INDEX
    by (intro plain_node_decodes [of c "NODE_WRITE_INDEX a b v"]) (simp_all add: wire_simps)
next
  case KIND_FN
  then obtain a b v where "r = size_bytes a @ size_bytes b @ size_bytes v @ r'" "fits a" "fits b" "fits v" "a \<le> b" "v < pc_nodes c"
    using assms by (auto simp: validated_simps)
  then show ?thesis using assms KIND_FN
    by (intro plain_node_decodes [of c "NODE_FN a b v"]) (simp_all add: wire_simps)
next
  case KIND_WHILE
  then obtain a b where "r = size_bytes a @ size_bytes b @ r'" "fits a" "fits b" "a < pc_nodes c" "b < pc_nodes c"
    using assms by (auto simp: validated_simps)
  then show ?thesis using assms KIND_WHILE
    by (intro plain_node_decodes [of c "NODE_WHILE a b"]) (simp_all add: wire_simps)
next
  case KIND_SEQ
  then obtain a b where "r = size_bytes a @ size_bytes b @ r'" "fits a" "fits b" "a + b \<le> pc_links c"
    using assms by (auto simp: validated_simps)
  then show ?thesis using assms KIND_SEQ
    by (intro plain_node_decodes [of c "NODE_SEQ a b"]) (simp_all add: wire_simps)
next
  case KIND_READ_SLOT
  then obtain a where "r = size_bytes a @ r'" "fits a" "a < length (sy_items s)"
    using assms by (auto simp: validated_simps)
  then show ?thesis using assms KIND_READ_SLOT
    by (intro text_node_decodes [of c "NODE_READ_SLOT" "sy_items s ! a"])
       (simp_all add: wire_simps copy_symbol_def frothy_snapshot_copy_symbol_string_def)
next
  case KIND_SLOT_DESIGNATOR
  then obtain a where "r = size_bytes a @ r'" "fits a" "a < length (sy_items s)"
    using assms by (auto simp: validated_simps)
  then show ?thesis using assms KIND_SLOT_DESIGNATOR
    by (intro text_node_decodes [of c "NODE_SLOT_DESIGNATOR" "sy_items s ! a"])
       (simp_all add: wire_simps copy_symbol_def frothy_snapshot_copy_symbol_string_def
         simple_name_facts)
next
  case KIND_WRITE_SLOT
  then obtain a b f where "r = size_bytes a @ size_bytes b @ f # r'" "fits a" "fits b" "a < length (sy_items s)" "b < pc_nodes c"
    using assms by (auto simp: validated_simps)
  then show ?thesis using assms KIND_WRITE_SLOT
    by (intro text_node_decodes [of c "\<lambda>u. NODE_WRITE_SLOT u b (f \<noteq> 0)" "sy_items s ! a"])
       (simp_all add: wire_simps copy_symbol_def frothy_snapshot_copy_symbol_string_def
         simple_name_facts)
next
  case KIND_READ_FIELD
  then obtain a bs where "r = size_bytes a @ string_bytes bs @ r'" "fits a" "bs \<noteq> []" "length bs \<le> UINT16_MAX" "a < pc_nodes c" "frothy_simple_name_bytes_are_valid bs"
    using assms by (auto simp: validated_simps)
  then show ?thesis using assms KIND_READ_FIELD
    by (intro text_node_decodes [of c "NODE_READ_FIELD a" bs])
       (simp_all add: wire_simps copy_symbol_def frothy_snapshot_copy_symbol_string_def
         simple_name_facts)
next
  case KIND_WRITE_FIELD
  then obtain a bs b where "r = size_bytes a @ string_bytes bs @ size_bytes b @ r'" "fits a" "fits b" "bs \<noteq> []" "length bs \<le> UINT16_MAX" "a < pc_nodes c" "b < pc_nodes c" "frothy_simple_name_bytes_are_valid bs"
    using assms by (auto simp: validated_simps)
  then show ?thesis using assms KIND_WRITE_FIELD
    by (intro text_node_decodes [of c "\<lambda>u. NODE_WRITE_FIELD a u b" bs])
       (simp_all add: wire_simps copy_symbol_def frothy_snapshot_copy_symbol_string_def
         simple_name_facts)
next
  case KIND_READ_SLOT_FALLBACK
  then obtain a b where "r = size_bytes a @ size_bytes b @ r'" "fits a" "fits b" "a < length (sy_items s)" "b < length (sy_items s)"
    using assms by (auto simp: validated_simps)
  then show ?thesis using assms KIND_READ_SLOT_FALLBACK
    by (intro two_symbols_decode [of c "NODE_READ_SLOT_FALLBACK"
          "sy_items s ! a" "sy_items s ! b"])
       (simp_all add: wire_simps)
next
  case KIND_WRITE_SLOT_FALLBACK
  then obtain a b v f where "r = size_bytes a @ size_bytes b @ size_bytes v @ f # r'" "fits a" "fits b" "fits v" "a < length (sy_items s)" "b < length (sy_items s)" "v < pc_nodes c"
    using assms by (auto simp: validated_simps)
  then show ?thesis using assms KIND_WRITE_SLOT_FALLBACK
    by (intro two_symbols_decode [of c "\<lambda>p q. NODE_WRITE_SLOT_FALLBACK p q v (f \<noteq> 0)"
          "sy_items s ! a" "sy_items s ! b"])
       (simp_all add: wire_simps)
next
  case KIND_CALL
  then obtain f a b n where r: "r = f # size_bytes a @ size_bytes b @ size_bytes n @ r'"
    and fit: "fits a" "fits b" "fits n" "unat f \<le> 14" "b + n \<le> pc_links c"
    and a: "a < pc_nodes c \<or> f \<noteq> 0 \<and> a = FROTHY_SNAPSHOT_INVALID_INDEX"
    using assms by (auto simp: validated_simps)
  obtain bi where bi: "kind_of_byte builtins f = Some bi" using fit(4) builtin_of_range by blast
  have "a < pc_nodes c \<Longrightarrow> decode_node_id a = a" using decode_node_id_small assms(1) by blast
  then show ?thesis using r fit a KIND_CALL bi builtin_of_zero [OF bi]
    by (intro plain_node_decodes [of c "NODE_CALL bi (decode_node_id a) b n"])
       (auto simp: wire_simps encode_node_id_invalid)
next
  case KIND_IF
  then obtain a b v f where r: "r = size_bytes a @ size_bytes b @ size_bytes v @ f # r'"
    and fit: "fits a" "fits b" "fits v" "a < pc_nodes c" "b < pc_nodes c"
    and v: "v < pc_nodes c \<or> f = 0 \<and> v = FROTHY_SNAPSHOT_INVALID_INDEX"
    using assms by (auto simp: validated_simps)
  have "v < pc_nodes c \<Longrightarrow> decode_node_id v = v" using decode_node_id_small assms(1) by blast
  then show ?thesis using r fit v KIND_IF
    by (intro plain_node_decodes [of c "NODE_IF a b (decode_node_id v) (f \<noteq> 0)"])
       (auto simp: wire_simps encode_node_id_invalid)
next
  case KIND_RECORD_DEF
  then show ?thesis using assms by simp
qed

lemma node_validated:
  assumes "counts_ok s c" "validate_node c r = Inr r'"
  shows "\<exists>x n. node_valid c x \<and>
     (\<forall>acc. acc + n \<le> SIZE_MAX \<longrightarrow> measure_node (sy_items s) acc r = Inr (acc + n, r')) \<and>
     (\<forall>acc. measured_by (measure_node (sy_items s) acc r) (acc + n) r') \<and>
     (\<forall>e cursor. cursor + n \<le> e \<longrightarrow> decode_node (sy_items s) e cursor r = Inr (x, cursor + n, r'))"
proof -
  obtain b k r1 where r: "r = b # r1" "kind_of_byte node_kinds b = Some k"
    "validate_node_fields c k r1 = Inr r'"
    using assms(2) by (auto simp: validate_node_def FROTH_TRY_Inr_iff read_Inr split: option.splits)
  then show ?thesis
    using node_fields_validated [OF assms(1) r(3)]
    by (simp add: measure_node_def decode_node_def wire_simps)
qed

interpretation node_wire: packed_wire "frothy_snapshot_write_node s"
  "validate_node (wire_counts s l n k)" "measure_node (sy_items s)" "decode_node (sy_items s)"
  "node_valid (wire_counts s l n k)" "node_writable s" node_space
  for s l n k
proof (unfold_locales, goal_cases)
  case (1 x w w')
  then show ?case
    using write_node_Inr [OF 1(1,3)] node_bytes_check [of "wire_counts s l n k" s x]
      node_bytes_decode [of "wire_counts s l n k" s x] by auto
next
  case (2 r r')
  then show ?case by (intro node_validated) simp_all
qed

end
