(* ===== verification/Frothy_Codec_Save.thy ===== *)
theory Frothy_Codec_Save
  imports Frothy_Codec_Nodes Frothy_Records
begin

section \<open>Encoding the overlay (frothy_snapshot_codec.c)\<close>

text \<open>
  The two passes of the encoder over the overlay slots. The first collects the symbols and the
  objects reachable from the bindings, children before parents, and refuses what cannot be saved:
  natives, cells inside records, a record that reaches itself. The second writes the symbols, the
  objects in the collected order, and the bindings, each object reference as its place in the
  object table. Errors abandon both tables, so a pass returns the tables or an error.
\<close>

subsection \<open>The object table of the encoder\<close>

record frothy_snapshot_object_table =
  ot_items :: "nat list"
  ot_capacity :: nat
  ot_index_by_runtime_id :: "nat list"

definition frothy_snapshot_objects_init :: "nat \<Rightarrow> frothy_snapshot_object_table result" where
  "frothy_snapshot_objects_init runtime_object_count =
     (if FROTHY_OBJECT_CAPACITY < runtime_object_count then Inl FROTH_ERROR_HEAP_OUT_OF_MEMORY
      else Inr \<lparr>ot_items = [], ot_capacity = FROTHY_OBJECT_CAPACITY,
             ot_index_by_runtime_id = replicate runtime_object_count SIZE_MAX\<rparr>)"

definition frothy_snapshot_objects_reserve :: "frothy_snapshot_object_table \<Rightarrow> nat \<Rightarrow> unit result" where
  "frothy_snapshot_objects_reserve objects needed =
     (if needed \<le> ot_capacity objects then Inr () else Inl FROTH_ERROR_HEAP_OUT_OF_MEMORY)"

definition frothy_snapshot_objects_lookup ::
  "frothy_snapshot_object_table \<Rightarrow> nat \<Rightarrow> nat option" where
  "frothy_snapshot_objects_lookup objects oid =
     (if length (ot_index_by_runtime_id objects) \<le> oid \<or> ot_index_by_runtime_id objects ! oid = SIZE_MAX
      then None else Some (ot_index_by_runtime_id objects ! oid))"

definition frothy_snapshot_objects_add ::
  "nat \<Rightarrow> frothy_snapshot_object_table \<Rightarrow> frothy_snapshot_object_table result" where
  "frothy_snapshot_objects_add oid objects =
     FROTH_TRY (frothy_snapshot_objects_reserve objects (length (ot_items objects) + 1)) (\<lambda>u.
     Inr (objects\<lparr>ot_items := ot_items objects @ [oid],
            ot_index_by_runtime_id :=
              (ot_index_by_runtime_id objects)[oid := length (ot_items objects)]\<rparr>))"

subsection \<open>Collecting\<close>

type_synonym snapshot_tables = "frothy_snapshot_symbol_table \<times> frothy_snapshot_object_table"

fun binding_count_loop :: "slot_table \<Rightarrow> nat \<Rightarrow> nat \<Rightarrow> nat" where
  "binding_count_loop t i 0 = 0"
| "binding_count_loop t i (Suc n) =
     (if \<not> froth_slot_is_overlay t i then binding_count_loop t (Suc i) n
      else case froth_slot_get_impl t i of
          Inl e \<Rightarrow> binding_count_loop t (Suc i) n
        | Inr impl \<Rightarrow> 1 + binding_count_loop t (Suc i) n)"

definition frothy_snapshot_binding_count :: "slot_table \<Rightarrow> nat" where
  "frothy_snapshot_binding_count t = binding_count_loop t 0 (st_pointer t)"

definition frothy_snapshot_record_stack_contains :: "nat list \<Rightarrow> nat \<Rightarrow> bool" where
  "frothy_snapshot_record_stack_contains stack oid = list_ex (\<lambda>s. s = oid) stack"

definition symbols_note ::
  "byte list \<Rightarrow> frothy_snapshot_symbol_table \<Rightarrow> frothy_snapshot_symbol_table result" where
  "symbols_note name symbols =
     (case frothy_snapshot_symbols_find_or_add name symbols of
        (Inl e, s) \<Rightarrow> Inl e | (Inr i, s) \<Rightarrow> Inr s)"

fun symbols_note_all ::
  "byte list list \<Rightarrow> frothy_snapshot_symbol_table \<Rightarrow> frothy_snapshot_symbol_table result" where
  "symbols_note_all [] symbols = Inr symbols"
| "symbols_note_all (n # ns) symbols = FROTH_TRY (symbols_note n symbols) (symbols_note_all ns)"

fun collect_nodes ::
  "frothy_ir_node list \<Rightarrow> frothy_snapshot_symbol_table \<Rightarrow> frothy_snapshot_symbol_table result" where
  "collect_nodes [] symbols = Inr symbols"
| "collect_nodes (nd # nds) symbols =
     FROTH_TRY (symbols_note_all (slot_names nd) symbols) (collect_nodes nds)"

definition frothy_snapshot_collect_program_symbols ::
  "frothy_ir_program \<Rightarrow> frothy_snapshot_symbol_table \<Rightarrow> frothy_snapshot_symbol_table result" where
  "frothy_snapshot_collect_program_symbols program = collect_nodes (ir_nodes program)"

text \<open>What the class switches over the items of cells and records do: nothing for an immediate,
visit a text or a record, refuse everything else.\<close>

definition item_is_immediate :: "frothy_value_class \<Rightarrow> bool" where
  "item_is_immediate c \<longleftrightarrow> c \<in> {CLASS_INT, CLASS_BOOL, CLASS_NIL}"

definition item_is_visited :: "frothy_value_class \<Rightarrow> bool" where
  "item_is_visited c \<longleftrightarrow> c \<in> {CLASS_TEXT, CLASS_RECORD}"

definition add_object :: "nat \<Rightarrow> snapshot_tables \<Rightarrow> snapshot_tables result" where
  "add_object oid tabs =
     FROTH_TRY (frothy_snapshot_objects_add oid (snd tabs)) (\<lambda>objects. Inr (fst tabs, objects))"

definition visits_cells :: "frothy_runtime \<Rightarrow> frothy_value \<Rightarrow> nat" where
  "visits_cells rt v =
     (if frothy_value_object_index v < length (rt_objects rt) \<and>
         is_OBJECT_CELLS (ob_as (rt_objects rt ! frothy_value_object_index v)) then 2 else 0)"

definition stack_room :: "frothy_runtime \<Rightarrow> nat list \<Rightarrow> nat" where
  "stack_room rt stack = card ({..<length (rt_objects rt)} - set stack)"

lemma stack_room_push:
  assumes "oid < length (rt_objects rt)" "\<not> frothy_snapshot_record_stack_contains stack oid"
  shows "stack_room rt (stack @ [oid]) < stack_room rt stack"
proof -
  have "oid \<notin> set stack"
    using assms(2) by (auto simp: frothy_snapshot_record_stack_contains_def list_ex_iff)
  then show ?thesis
    unfolding stack_room_def using assms(1) by (intro psubset_card_mono) auto
qed

lemma visited_item_no_cells:
  "value_class rt v = Inr c \<Longrightarrow> item_is_visited c \<Longrightarrow> visits_cells rt v = 0"
  by (auto simp: value_class_def item_is_visited_def visits_cells_def FROTH_TRY_Inr_iff
      frothy_runtime_get_live_object_id_def Let_def split: if_splits
      elim!: class_of_object.elims)

text \<open>
  The recursion of \<^verbatim>\<open>frothy_snapshot_collect_value_visit\<close>. The record stack is its list of the
  records being visited; it is a C array of \<open>FROTHY_OBJECT_CAPACITY\<close> entries. Every recursive call
  puts a record on the stack that was not on it, or goes from cells to an item that is no cells,
  which is why it terminates.
\<close>

function (sequential)
  frothy_snapshot_collect_value_visit ::
    "frothy_runtime \<Rightarrow> frothy_value \<Rightarrow> nat list \<Rightarrow> snapshot_tables \<Rightarrow> snapshot_tables result" and
  collect_cells ::
    "frothy_runtime \<Rightarrow> nat \<Rightarrow> nat \<Rightarrow> nat list \<Rightarrow> snapshot_tables \<Rightarrow> snapshot_tables result" and
  collect_fields ::
    "frothy_runtime \<Rightarrow> frothy_span \<Rightarrow> nat \<Rightarrow> nat \<Rightarrow> nat list \<Rightarrow> snapshot_tables \<Rightarrow>
     snapshot_tables result" where
  "frothy_snapshot_collect_value_visit rt v stack tabs =
     (if \<not> frothy_value_is_object_ref v then Inr tabs
      else
        let oid = frothy_value_object_index v
        in if length (rt_objects rt) \<le> oid then Inl FROTH_ERROR_BOUNDS
           else if \<not> ob_live (rt_objects rt ! oid) then Inl FROTH_ERROR_BOUNDS
           else if is_OBJECT_RECORD (ob_as (rt_objects rt ! oid)) \<and>
             frothy_snapshot_record_stack_contains stack oid then Inl FROTH_ERROR_NOT_PERSISTABLE
           else if frothy_snapshot_objects_lookup (snd tabs) oid \<noteq> None then Inr tabs
           else case ob_as (rt_objects rt ! oid) of
               OBJECT_TEXT p n \<Rightarrow> add_object oid tabs
             | OBJECT_CELLS span \<Rightarrow>
                 FROTH_TRY (collect_cells rt (sp_offset span) (sp_length span) stack tabs)
                   (add_object oid)
             | OBJECT_CODE p a l b program \<Rightarrow>
                 FROTH_TRY (frothy_snapshot_collect_program_symbols program (fst tabs)) (\<lambda>symbols.
                 add_object oid (symbols, snd tabs))
             | OBJECT_RECORD_DEF p n \<Rightarrow> add_object oid tabs
             | OBJECT_RECORD payload def n \<Rightarrow>
                 FROTH_TRY (frothy_snapshot_collect_value_visit rt def (stack @ [oid]) tabs) (\<lambda>tabs.
                 FROTH_TRY (collect_fields rt payload 0 n (stack @ [oid]) tabs) (add_object oid))
             | OBJECT_NATIVE f c n a \<Rightarrow> Inl FROTH_ERROR_NOT_PERSISTABLE
             | OBJECT_FREE \<Rightarrow> Inl FROTH_ERROR_BOUNDS)"
| "collect_cells rt index 0 stack tabs = Inr tabs"
| "collect_cells rt index (Suc n) stack tabs =
     (case value_class rt (frothy_cellspace_value rt index) of
        Inl e \<Rightarrow> Inl e
      | Inr c \<Rightarrow>
          if item_is_immediate c then collect_cells rt (Suc index) n stack tabs
          else if item_is_visited c
          then FROTH_TRY
            (frothy_snapshot_collect_value_visit rt (frothy_cellspace_value rt index) stack tabs)
            (collect_cells rt (Suc index) n stack)
          else Inl FROTH_ERROR_NOT_PERSISTABLE)"
| "collect_fields rt payload i 0 stack tabs = Inr tabs"
| "collect_fields rt payload i (Suc n) stack tabs =
     (case value_class rt (record_field_at rt payload i) of
        Inl e \<Rightarrow> Inl e
      | Inr c \<Rightarrow>
          if item_is_immediate c then collect_fields rt payload (Suc i) n stack tabs
          else if item_is_visited c
          then FROTH_TRY
            (frothy_snapshot_collect_value_visit rt (record_field_at rt payload i) stack tabs)
            (collect_fields rt payload (Suc i) n stack)
          else Inl FROTH_ERROR_NOT_PERSISTABLE)"
  by pat_completeness auto

termination
proof (relation "measures
    [\<lambda>x. case x of Inl (rt, v, stack, tabs) \<Rightarrow> stack_room rt stack
       | Inr (Inl (rt, i, n, stack, tabs)) \<Rightarrow> stack_room rt stack
       | Inr (Inr (rt, p, i, n, stack, tabs)) \<Rightarrow> stack_room rt stack,
     \<lambda>x. case x of Inl (rt, v, stack, tabs) \<Rightarrow> visits_cells rt v
       | Inr (Inl (rt, i, n, stack, tabs)) \<Rightarrow> 1
       | Inr (Inr (rt, p, i, n, stack, tabs)) \<Rightarrow> 1,
     \<lambda>x. case x of Inl (rt, v, stack, tabs) \<Rightarrow> 0
       | Inr (Inl (rt, i, n, stack, tabs)) \<Rightarrow> n
       | Inr (Inr (rt, p, i, n, stack, tabs)) \<Rightarrow> n]", goal_cases)
  case 1
  then show ?case by (rule wf_measures)
qed (use stack_room_push visited_item_no_cells in
      \<open>auto simp: visits_cells_def frothy_snapshot_record_stack_contains_def\<close>)

definition frothy_snapshot_collect_value ::
  "frothy_runtime \<Rightarrow> frothy_value \<Rightarrow> snapshot_tables \<Rightarrow> snapshot_tables result" where
  "frothy_snapshot_collect_value rt v = frothy_snapshot_collect_value_visit rt v []"

type_synonym name_slots = "froth_heap \<times> slot_table"

fun collect_overlay_loop ::
  "frothy_runtime \<Rightarrow> name_slots \<Rightarrow> nat \<Rightarrow> nat \<Rightarrow> snapshot_tables \<Rightarrow> snapshot_tables result" where
  "collect_overlay_loop rt st i 0 tabs = Inr tabs"
| "collect_overlay_loop rt st i (Suc n) tabs =
     (if \<not> froth_slot_is_overlay (snd st) i then collect_overlay_loop rt st (Suc i) n tabs
      else case froth_slot_get_name (fst st) (snd st) i of
          Inl e \<Rightarrow> collect_overlay_loop rt st (Suc i) n tabs
        | Inr name \<Rightarrow>
            FROTH_TRY (symbols_note name (fst tabs)) (\<lambda>symbols.
            case froth_slot_get_impl (snd st) i of
              Inl e \<Rightarrow> collect_overlay_loop rt st (Suc i) n (symbols, snd tabs)
            | Inr impl \<Rightarrow>
                FROTH_TRY (frothy_snapshot_collect_value rt (frothy_value_from_cell impl)
                    (symbols, snd tabs))
                  (collect_overlay_loop rt st (Suc i) n)))"

definition frothy_snapshot_collect_overlay ::
  "frothy_runtime \<Rightarrow> name_slots \<Rightarrow> snapshot_tables \<Rightarrow> snapshot_tables result" where
  "frothy_snapshot_collect_overlay rt st = collect_overlay_loop rt st 0 (st_pointer (snd st))"

subsection \<open>Writing values\<close>

datatype frothy_snapshot_value_tag =
    SNAPSHOT_VALUE_NIL | SNAPSHOT_VALUE_FALSE | SNAPSHOT_VALUE_TRUE | SNAPSHOT_VALUE_INT
  | SNAPSHOT_VALUE_OBJECT

definition value_tags :: "frothy_snapshot_value_tag list" where
  "value_tags = [SNAPSHOT_VALUE_NIL, SNAPSHOT_VALUE_FALSE, SNAPSHOT_VALUE_TRUE, SNAPSHOT_VALUE_INT,
     SNAPSHOT_VALUE_OBJECT]"

abbreviation write_tag :: "frothy_snapshot_value_tag \<Rightarrow> writer \<Rightarrow> writer result" where
  "write_tag tag \<equiv> frothy_snapshot_writer_write_u8 (byte_of_kind value_tags 0 tag)"

definition frothy_snapshot_encode_object_ref ::
  "frothy_runtime \<Rightarrow> frothy_snapshot_object_table \<Rightarrow> frothy_value \<Rightarrow> nat result" where
  "frothy_snapshot_encode_object_ref rt objects v =
     (if \<not> frothy_value_is_object_ref v then Inl FROTH_ERROR_TYPE_MISMATCH
      else
        let oid = frothy_value_object_index v
        in case frothy_snapshot_objects_lookup objects oid of
            None \<Rightarrow> Inl FROTH_ERROR_SNAPSHOT_UNRESOLVED
          | Some i \<Rightarrow>
              if length (rt_objects rt) \<le> oid \<or> \<not> ob_live (rt_objects rt ! oid)
              then Inl FROTH_ERROR_BOUNDS else Inr i)"

definition write_int :: "frothy_value \<Rightarrow> writer \<Rightarrow> writer result" where
  "write_int v w =
     FROTH_TRY (write_tag SNAPSHOT_VALUE_INT w)
       (frothy_snapshot_writer_write_i32 (frothy_value_as_int v))"

definition write_bool :: "frothy_value \<Rightarrow> writer \<Rightarrow> writer result" where
  "write_bool v =
     write_tag (if frothy_value_as_bool v then SNAPSHOT_VALUE_TRUE else SNAPSHOT_VALUE_FALSE)"

definition write_object_ref ::
  "frothy_runtime \<Rightarrow> frothy_snapshot_object_table \<Rightarrow> frothy_value \<Rightarrow> writer \<Rightarrow> writer result" where
  "write_object_ref rt objects v w =
     FROTH_TRY (frothy_snapshot_encode_object_ref rt objects v) (\<lambda>i.
     FROTH_TRY (write_tag SNAPSHOT_VALUE_OBJECT w) (write_size i))"

definition frothy_snapshot_write_value ::
  "frothy_runtime \<Rightarrow> frothy_snapshot_object_table \<Rightarrow> frothy_value \<Rightarrow> writer \<Rightarrow> writer result" where
  "frothy_snapshot_write_value rt objects v w =
     (if frothy_value_is_int v then write_int v w
      else if frothy_value_is_nil v then write_tag SNAPSHOT_VALUE_NIL w
      else if frothy_value_is_bool v then write_bool v w
      else write_object_ref rt objects v w)"

definition frothy_snapshot_write_restricted_value ::
  "frothy_runtime \<Rightarrow> frothy_snapshot_object_table \<Rightarrow> frothy_value \<Rightarrow> writer \<Rightarrow> writer result" where
  "frothy_snapshot_write_restricted_value rt objects v w =
     FROTH_TRY (value_class rt v) (\<lambda>c.
     case c of
       CLASS_INT \<Rightarrow> write_int v w
     | CLASS_NIL \<Rightarrow> write_tag SNAPSHOT_VALUE_NIL w
     | CLASS_BOOL \<Rightarrow> write_bool v w
     | CLASS_TEXT \<Rightarrow> write_object_ref rt objects v w
     | CLASS_RECORD \<Rightarrow> write_object_ref rt objects v w
     | _ \<Rightarrow> Inl FROTH_ERROR_NOT_PERSISTABLE)"

subsection \<open>Writing objects\<close>

text \<open>The string at the front of the memory up to the end, and what follows its NUL.\<close>

definition split_nul :: "byte list \<Rightarrow> (byte list \<times> byte list) option" where
  "split_nul rest =
     (case dropWhile (\<lambda>b. b \<noteq> 0) rest of
        [] \<Rightarrow> None | nul # rest' \<Rightarrow> Some (takeWhile (\<lambda>b. b \<noteq> 0) rest, rest'))"

definition frothy_snapshot_record_def_view ::
  "frothy_runtime \<Rightarrow> frothy_object_as \<Rightarrow> (byte list \<times> nat \<times> byte list) result" where
  "frothy_snapshot_record_def_view rt ob =
     (case ob of
        OBJECT_RECORD_DEF payload n \<Rightarrow>
          if sp_length payload < 4 then Inl FROTH_ERROR_SNAPSHOT_FORMAT
          else
            let memory = load_at (rt_payload_bytes rt) (sp_offset payload) (sp_length payload)
            in (case split_nul (drop 4 memory) of
                  None \<Rightarrow> Inl FROTH_ERROR_SNAPSHOT_FORMAT
                | Some (name, rest) \<Rightarrow>
                    if name = [] then Inl FROTH_ERROR_SNAPSHOT_FORMAT
                    else Inr (name, unat (load_word memory 0), rest))
      | _ \<Rightarrow> Inl FROTH_ERROR_SNAPSHOT_FORMAT)"

fun write_field_names ::
  "byte list list \<Rightarrow> nat \<Rightarrow> byte list \<Rightarrow> writer \<Rightarrow> writer result" where
  "write_field_names seen 0 cursor w = Inr w"
| "write_field_names seen (Suc n) cursor w =
     (case split_nul cursor of
        None \<Rightarrow> Inl FROTH_ERROR_NOT_PERSISTABLE
      | Some (field, rest) \<Rightarrow>
          if field = [] then Inl FROTH_ERROR_NOT_PERSISTABLE
          else if \<not> frothy_simple_name_bytes_are_valid field then Inl FROTH_ERROR_NOT_PERSISTABLE
          else if list_ex (\<lambda>f. f = field) seen then Inl FROTH_ERROR_NOT_PERSISTABLE
          else FROTH_TRY (frothy_snapshot_write_string field w)
                 (write_field_names (seen @ [field]) n rest))"

definition frothy_snapshot_write_record_def_object ::
  "frothy_runtime \<Rightarrow> frothy_object_as \<Rightarrow> writer \<Rightarrow> writer result" where
  "frothy_snapshot_write_record_def_object rt ob w =
     FROTH_TRY (frothy_snapshot_record_def_view rt ob) (\<lambda>(name, field_count, rest).
     if field_count = 0 \<or> FROTHY_IR_LINK_CAPACITY < field_count
     then Inl FROTH_ERROR_NOT_PERSISTABLE
     else if \<not> frothy_slot_name_bytes_are_valid name then Inl FROTH_ERROR_NOT_PERSISTABLE
     else
       FROTH_TRY (write_size field_count w) (\<lambda>w.
       FROTH_TRY (frothy_snapshot_write_string name w) (write_field_names [] field_count rest)))"

datatype frothy_object_kind =
    OBJECT_KIND_FREE | OBJECT_KIND_TEXT | OBJECT_KIND_CELLS | OBJECT_KIND_CODE | OBJECT_KIND_NATIVE
  | OBJECT_KIND_RECORD_DEF | OBJECT_KIND_RECORD

definition object_kinds :: "frothy_object_kind list" where
  "object_kinds = [OBJECT_KIND_FREE, OBJECT_KIND_TEXT, OBJECT_KIND_CELLS, OBJECT_KIND_CODE,
     OBJECT_KIND_NATIVE, OBJECT_KIND_RECORD_DEF, OBJECT_KIND_RECORD]"

fun object_kind :: "frothy_object_as \<Rightarrow> frothy_object_kind" where
  "object_kind OBJECT_FREE = OBJECT_KIND_FREE"
| "object_kind (OBJECT_TEXT p n) = OBJECT_KIND_TEXT"
| "object_kind (OBJECT_CELLS s) = OBJECT_KIND_CELLS"
| "object_kind (OBJECT_CODE p a l b pr) = OBJECT_KIND_CODE"
| "object_kind (OBJECT_NATIVE f c n a) = OBJECT_KIND_NATIVE"
| "object_kind (OBJECT_RECORD_DEF p n) = OBJECT_KIND_RECORD_DEF"
| "object_kind (OBJECT_RECORD p d n) = OBJECT_KIND_RECORD"

fun write_object_body ::
  "frothy_runtime \<Rightarrow> frothy_snapshot_symbol_table \<Rightarrow> frothy_snapshot_object_table \<Rightarrow>
   frothy_object_as \<Rightarrow> writer \<Rightarrow> writer result" where
  "write_object_body rt symbols objects (OBJECT_TEXT payload len) w =
     FROTH_TRY (write_size len w)
       (frothy_snapshot_writer_write_bytes
          (load_at (rt_payload_bytes rt) (sp_offset payload) len))"
| "write_object_body rt symbols objects (OBJECT_CELLS span) w =
     FROTH_TRY (write_size (sp_length span) w)
       (put_list (frothy_snapshot_write_restricted_value rt objects)
          (map (\<lambda>i. frothy_cellspace_value rt (sp_offset span + i)) [0 ..< sp_length span]))"
| "write_object_body rt symbols objects (OBJECT_CODE p a l b program) w =
     frothy_snapshot_write_code_object symbols (OBJECT_CODE p a l b program) w"
| "write_object_body rt symbols objects (OBJECT_RECORD_DEF p n) w =
     frothy_snapshot_write_record_def_object rt (OBJECT_RECORD_DEF p n) w"
| "write_object_body rt symbols objects (OBJECT_RECORD payload def n) w =
     FROTH_TRY (frothy_snapshot_encode_object_ref rt objects def) (\<lambda>definition_index.
     FROTH_TRY (write_size definition_index w) (\<lambda>w.
     FROTH_TRY (write_size n w)
       (put_list (frothy_snapshot_write_restricted_value rt objects)
          (map (record_field_at rt payload) [0 ..< n]))))"
| "write_object_body rt symbols objects (OBJECT_NATIVE f c n a) w =
     Inl FROTH_ERROR_NOT_PERSISTABLE"
| "write_object_body rt symbols objects OBJECT_FREE w = Inl FROTH_ERROR_BOUNDS"

definition write_object ::
  "frothy_runtime \<Rightarrow> frothy_snapshot_symbol_table \<Rightarrow> frothy_snapshot_object_table \<Rightarrow> nat \<Rightarrow>
   writer \<Rightarrow> writer result" where
  "write_object rt symbols objects oid w =
     FROTH_TRY (frothy_snapshot_writer_write_u8
         (byte_of_kind object_kinds 0 (object_kind (ob_as (rt_objects rt ! oid)))) w)
       (write_object_body rt symbols objects (ob_as (rt_objects rt ! oid)))"

definition frothy_snapshot_write_object_table ::
  "frothy_runtime \<Rightarrow> frothy_snapshot_symbol_table \<Rightarrow> frothy_snapshot_object_table \<Rightarrow>
   writer \<Rightarrow> writer result" where
  "frothy_snapshot_write_object_table rt symbols objects w =
     FROTH_TRY (write_size (length (ot_items objects)) w)
       (put_list (write_object rt symbols objects) (ot_items objects))"

subsection \<open>The payload\<close>

definition write_symbol :: "byte list \<Rightarrow> writer \<Rightarrow> writer result" where
  "write_symbol name w =
     FROTH_TRY (frothy_snapshot_writer_write_u16 (word_of_nat (strlen name)) w)
       (frothy_snapshot_writer_write_bytes (c_string name))"

definition frothy_snapshot_write_symbols ::
  "frothy_snapshot_symbol_table \<Rightarrow> writer \<Rightarrow> writer result" where
  "frothy_snapshot_write_symbols symbols w =
     FROTH_TRY (write_size (length (sy_items symbols)) w)
       (put_list write_symbol (sy_items symbols))"

fun write_bindings_loop ::
  "frothy_runtime \<Rightarrow> name_slots \<Rightarrow> snapshot_tables \<Rightarrow> nat \<Rightarrow> nat \<Rightarrow> writer \<Rightarrow> writer result" where
  "write_bindings_loop rt st tabs i 0 w = Inr w"
| "write_bindings_loop rt st tabs i (Suc n) w =
     (if \<not> froth_slot_is_overlay (snd st) i then write_bindings_loop rt st tabs (Suc i) n w
      else case froth_slot_get_name (fst st) (snd st) i of
          Inl e \<Rightarrow> write_bindings_loop rt st tabs (Suc i) n w
        | Inr name \<Rightarrow>
            (case froth_slot_get_impl (snd st) i of
               Inl e \<Rightarrow> write_bindings_loop rt st tabs (Suc i) n w
             | Inr impl \<Rightarrow>
                 FROTH_TRY (frothy_snapshot_symbol_index (fst tabs) name) (\<lambda>s.
                 FROTH_TRY (write_size s w) (\<lambda>w.
                 FROTH_TRY (frothy_snapshot_write_value rt (snd tabs) (frothy_value_from_cell impl) w)
                   (write_bindings_loop rt st tabs (Suc i) n)))))"

definition frothy_snapshot_write_bindings ::
  "frothy_runtime \<Rightarrow> name_slots \<Rightarrow> snapshot_tables \<Rightarrow> writer \<Rightarrow> writer result" where
  "frothy_snapshot_write_bindings rt st tabs w =
     FROTH_TRY (write_size (frothy_snapshot_binding_count (snd st)) w)
       (write_bindings_loop rt st tabs 0 (st_pointer (snd st)))"

definition FROTHY_SNAPSHOT_MAGIC :: "byte list" where
  "FROTHY_SNAPSHOT_MAGIC = [70, 82, 84, 89]"

definition FROTHY_SNAPSHOT_VERSION :: "16 word" where "FROTHY_SNAPSHOT_VERSION = 2"
definition FROTHY_SNAPSHOT_IR_VERSION :: "16 word" where "FROTHY_SNAPSHOT_IR_VERSION = 2"

definition frothy_snapshot_write_payload ::
  "frothy_runtime \<Rightarrow> name_slots \<Rightarrow> snapshot_tables \<Rightarrow> writer \<Rightarrow> writer result" where
  "frothy_snapshot_write_payload rt st tabs w =
     FROTH_TRY (frothy_snapshot_writer_write_bytes FROTHY_SNAPSHOT_MAGIC w) (\<lambda>w.
     FROTH_TRY (frothy_snapshot_writer_write_u16 FROTHY_SNAPSHOT_VERSION w) (\<lambda>w.
     FROTH_TRY (frothy_snapshot_writer_write_u16 FROTHY_SNAPSHOT_IR_VERSION w) (\<lambda>w.
     FROTH_TRY (frothy_snapshot_write_symbols (fst tabs) w) (\<lambda>w.
     FROTH_TRY (frothy_snapshot_write_object_table rt (fst tabs) (snd tabs) w)
       (frothy_snapshot_write_bindings rt st tabs)))))"

subsection \<open>The codec's workspace and its entry points\<close>

record frothy_snapshot_codec_usage =
  us_payload_length_high_water :: nat
  us_symbol_count_high_water :: nat
  us_object_count_high_water :: nat
  us_binding_count_high_water :: nat

definition frothy_snapshot_workspace_record_usage ::
  "nat \<Rightarrow> nat \<Rightarrow> nat \<Rightarrow> nat \<Rightarrow> frothy_snapshot_codec_usage \<Rightarrow> frothy_snapshot_codec_usage" where
  "frothy_snapshot_workspace_record_usage payload symbols objects bindings us =
     \<lparr>us_payload_length_high_water =
        (if us_payload_length_high_water us < payload then payload
         else us_payload_length_high_water us),
      us_symbol_count_high_water =
        (if us_symbol_count_high_water us < symbols then symbols else us_symbol_count_high_water us),
      us_object_count_high_water =
        (if us_object_count_high_water us < objects then objects else us_object_count_high_water us),
      us_binding_count_high_water =
        (if us_binding_count_high_water us < bindings then bindings
         else us_binding_count_high_water us)\<rparr>"

definition frothy_snapshot_codec_debug_reset_usage :: frothy_snapshot_codec_usage where
  "frothy_snapshot_codec_debug_reset_usage = \<lparr>us_payload_length_high_water = 0,
     us_symbol_count_high_water = 0, us_object_count_high_water = 0,
     us_binding_count_high_water = 0\<rparr>"

text \<open>The payload buffer has \<open>FROTH_SNAPSHOT_MAX_PAYLOAD_BYTES\<close> bytes; its size is a parameter.\<close>

definition encode_overlay ::
  "nat \<Rightarrow> frothy_runtime \<Rightarrow> name_slots \<Rightarrow> (byte list \<times> snapshot_tables) result" where
  "encode_overlay capacity rt st =
     FROTH_TRY (frothy_snapshot_objects_init (length (rt_objects rt))) (\<lambda>objects.
     FROTH_TRY (frothy_snapshot_collect_overlay rt st
         (frothy_snapshot_symbols_init FROTH_SLOT_TABLE_SIZE, objects)) (\<lambda>tabs.
     FROTH_TRY (frothy_snapshot_write_payload rt st tabs \<lparr>wr_data = [], wr_capacity = capacity\<rparr>) (\<lambda>w.
     Inr (wr_data w, tabs))))"

definition frothy_snapshot_codec_write_payload ::
  "nat \<Rightarrow> frothy_runtime \<Rightarrow> name_slots \<Rightarrow> frothy_snapshot_codec_usage \<Rightarrow>
   byte list result \<times> frothy_snapshot_codec_usage" where
  "frothy_snapshot_codec_write_payload capacity rt st us =
     (case encode_overlay capacity rt st of
        Inl e \<Rightarrow> (Inl e, us)
      | Inr (payload, tabs) \<Rightarrow>
          (Inr payload,
           frothy_snapshot_workspace_record_usage (length payload) (length (sy_items (fst tabs)))
             (length (ot_items (snd tabs))) (frothy_snapshot_binding_count (snd st)) us))"

end
