(* ===== verification/Frothy_Codec_Check.thy ===== *)
theory Frothy_Codec_Check
  imports Frothy_Codec_Save
begin

section \<open>Validating a payload (frothy_snapshot_codec.c)\<close>

text \<open>
  The validator walks over the whole payload before anything is changed. It records the kind of
  every object and the number of fields of every record definition, so that a reference is checked
  against what it points to: items of cells and records point to earlier texts and records, a
  record points to an earlier definition with as many fields.
\<close>

record frothy_snapshot_layout =
  ly_symbol_count :: nat
  ly_object_count :: nat
  ly_binding_count :: nat
  ly_object_kinds :: "byte list"
  ly_field_counts :: "nat list"

definition frothy_snapshot_layout_init :: frothy_snapshot_layout where
  "frothy_snapshot_layout_init = \<lparr>ly_symbol_count = 0, ly_object_count = 0, ly_binding_count = 0,
     ly_object_kinds = replicate FROTHY_OBJECT_CAPACITY 0,
     ly_field_counts = replicate FROTHY_OBJECT_CAPACITY 0\<rparr>"

abbreviation kind_byte :: "frothy_object_kind \<Rightarrow> byte" where
  "kind_byte k \<equiv> byte_of_kind object_kinds 0 k"

definition reference_ok :: "byte list \<Rightarrow> nat \<Rightarrow> bool \<Rightarrow> nat \<Rightarrow> nat \<Rightarrow> unit result" where
  "reference_ok kinds object_count restricted max_index i =
     (if object_count \<le> i then Inl FROTH_ERROR_SNAPSHOT_FORMAT
      else if max_index \<noteq> FROTHY_SNAPSHOT_INVALID_INDEX \<and> max_index \<le> i
      then Inl FROTH_ERROR_SNAPSHOT_FORMAT
      else if restricted \<and> kinds ! i \<noteq> kind_byte OBJECT_KIND_TEXT \<and>
        kinds ! i \<noteq> kind_byte OBJECT_KIND_RECORD then Inl FROTH_ERROR_NOT_PERSISTABLE
      else if \<not> restricted \<and> (kinds ! i = kind_byte OBJECT_KIND_NATIVE \<or>
        kinds ! i = kind_byte OBJECT_KIND_FREE) then Inl FROTH_ERROR_NOT_PERSISTABLE
      else Inr ())"

definition frothy_snapshot_validate_value ::
  "byte list \<Rightarrow> nat \<Rightarrow> bool \<Rightarrow> nat \<Rightarrow> reader \<Rightarrow> reader result" where
  "frothy_snapshot_validate_value kinds object_count restricted max_index r =
     FROTH_TRY (frothy_snapshot_reader_read_u8 r) (\<lambda>(tag, r).
     case kind_of_byte value_tags tag of
       None \<Rightarrow> Inl FROTH_ERROR_SNAPSHOT_FORMAT
     | Some SNAPSHOT_VALUE_NIL \<Rightarrow> Inr r
     | Some SNAPSHOT_VALUE_FALSE \<Rightarrow> Inr r
     | Some SNAPSHOT_VALUE_TRUE \<Rightarrow> Inr r
     | Some SNAPSHOT_VALUE_INT \<Rightarrow> FROTH_TRY (frothy_snapshot_reader_read_i32 r) (\<lambda>(i, r). Inr r)
     | Some SNAPSHOT_VALUE_OBJECT \<Rightarrow>
         FROTH_TRY (read_size r) (\<lambda>(i, r).
         FROTH_TRY (reference_ok kinds object_count restricted max_index i) (\<lambda>u. Inr r)))"

fun validate_field_names :: "byte list list \<Rightarrow> nat \<Rightarrow> reader \<Rightarrow> reader result" where
  "validate_field_names seen 0 r = Inr r"
| "validate_field_names seen (Suc n) r =
     FROTH_TRY (frothy_snapshot_read_string_bytes r) (\<lambda>(bs, r).
     if \<not> frothy_simple_name_bytes_are_valid bs then Inl FROTH_ERROR_SNAPSHOT_BAD_NAME
     else if list_ex (\<lambda>f. f = bs) seen then Inl FROTH_ERROR_SNAPSHOT_FORMAT
     else validate_field_names (seen @ [bs]) n r)"

definition frothy_snapshot_validate_record_def_object :: "reader \<Rightarrow> (nat \<times> reader) result" where
  "frothy_snapshot_validate_record_def_object r =
     FROTH_TRY (read_size r) (\<lambda>(field_count, r).
     if field_count = 0 \<or> FROTHY_IR_LINK_CAPACITY < field_count
     then Inl FROTH_ERROR_SNAPSHOT_FORMAT
     else
       FROTH_TRY (frothy_snapshot_read_string_bytes r) (\<lambda>(bs, r).
       if \<not> frothy_slot_name_bytes_are_valid bs then Inl FROTH_ERROR_SNAPSHOT_BAD_NAME
       else
         FROTH_TRY (validate_field_names [] field_count r) (\<lambda>r. Inr (field_count, r))))"

text \<open>One object; the result carries the field counts, which only a record definition changes.\<close>

definition validate_record ::
  "nat \<Rightarrow> nat \<Rightarrow> byte list \<Rightarrow> nat list \<Rightarrow> reader \<Rightarrow> reader result" where
  "validate_record i object_count kinds field_counts r =
     FROTH_TRY (read_two r) (\<lambda>(definition_index, n, r).
     if n = 0 \<or> FROTHY_IR_LINK_CAPACITY < n then Inl FROTH_ERROR_SNAPSHOT_FORMAT
     else if i \<le> definition_index \<or> kinds ! definition_index \<noteq> kind_byte OBJECT_KIND_RECORD_DEF
     then Inl FROTH_ERROR_SNAPSHOT_FORMAT
     else if n \<noteq> field_counts ! definition_index then Inl FROTH_ERROR_SNAPSHOT_FORMAT
     else check_list (frothy_snapshot_validate_value kinds object_count True i) n r)"

definition validate_object_body ::
  "nat \<Rightarrow> nat \<Rightarrow> nat \<Rightarrow> byte list \<Rightarrow> nat list \<Rightarrow> frothy_object_kind \<Rightarrow> reader \<Rightarrow>
   (nat list \<times> reader) result" where
  "validate_object_body symbol_count i object_count kinds field_counts k r =
     (case k of
        OBJECT_KIND_TEXT \<Rightarrow>
          FROTH_TRY (read_size r) (\<lambda>(n, r).
          FROTH_TRY (frothy_snapshot_reader_read_bytes n r) (\<lambda>(bs, r). Inr (field_counts, r)))
      | OBJECT_KIND_CELLS \<Rightarrow>
          FROTH_TRY (read_size r) (\<lambda>(n, r).
          if n = 0 then Inl FROTH_ERROR_SNAPSHOT_FORMAT
          else
            FROTH_TRY (check_list (frothy_snapshot_validate_value kinds object_count True i) n r)
              (\<lambda>r. Inr (field_counts, r)))
      | OBJECT_KIND_CODE \<Rightarrow>
          FROTH_TRY (frothy_snapshot_validate_code_object symbol_count r) (\<lambda>r. Inr (field_counts, r))
      | OBJECT_KIND_RECORD_DEF \<Rightarrow>
          FROTH_TRY (frothy_snapshot_validate_record_def_object r) (\<lambda>(n, r).
          Inr (field_counts[i := n], r))
      | OBJECT_KIND_RECORD \<Rightarrow>
          FROTH_TRY (validate_record i object_count kinds field_counts r) (\<lambda>r.
          Inr (field_counts, r))
      | _ \<Rightarrow> Inl FROTH_ERROR_NOT_PERSISTABLE)"

definition validate_object ::
  "nat \<Rightarrow> nat \<Rightarrow> nat \<Rightarrow> byte list \<times> nat list \<Rightarrow> reader \<Rightarrow>
   ((byte list \<times> nat list) \<times> reader) result" where
  "validate_object symbol_count object_count i = (\<lambda>(kinds, field_counts) r.
     FROTH_TRY (frothy_snapshot_reader_read_u8 r) (\<lambda>(b, r).
     let kinds = kinds[i := b]
     in (case kind_of_byte object_kinds b of
           None \<Rightarrow> Inl FROTH_ERROR_NOT_PERSISTABLE
         | Some k \<Rightarrow>
             FROTH_TRY (validate_object_body symbol_count i object_count kinds field_counts k r)
               (\<lambda>(field_counts, r). Inr ((kinds, field_counts), r)))))"

fun validate_objects ::
  "nat \<Rightarrow> nat \<Rightarrow> nat \<Rightarrow> nat \<Rightarrow> byte list \<times> nat list \<Rightarrow> reader \<Rightarrow>
   ((byte list \<times> nat list) \<times> reader) result" where
  "validate_objects symbol_count object_count i 0 acc r = Inr (acc, r)"
| "validate_objects symbol_count object_count i (Suc n) acc r =
     FROTH_TRY (validate_object symbol_count object_count i acc r) (\<lambda>(acc, r).
     validate_objects symbol_count object_count (Suc i) n acc r)"

definition validate_symbol :: "reader \<Rightarrow> reader result" where
  "validate_symbol r =
     FROTH_TRY (frothy_snapshot_reader_read_u16 r) (\<lambda>(n, r).
     if n = 0 then Inl FROTH_ERROR_SNAPSHOT_BAD_NAME
     else
       FROTH_TRY (frothy_snapshot_reader_read_bytes (unat n) r) (\<lambda>(bs, r).
       if \<not> frothy_slot_name_bytes_are_valid bs then Inl FROTH_ERROR_SNAPSHOT_BAD_NAME
       else Inr r))"

definition validate_binding :: "nat \<Rightarrow> nat \<Rightarrow> byte list \<Rightarrow> reader \<Rightarrow> reader result" where
  "validate_binding symbol_count object_count kinds r =
     FROTH_TRY (read_size r) (\<lambda>(s, r).
     format_guard (s < symbol_count)
       (frothy_snapshot_validate_value kinds object_count False FROTHY_SNAPSHOT_INVALID_INDEX r))"

definition validate_prefix :: "reader \<Rightarrow> reader result" where
  "validate_prefix r =
     FROTH_TRY (frothy_snapshot_reader_read_bytes 4 r) (\<lambda>(magic, r).
     if magic \<noteq> FROTHY_SNAPSHOT_MAGIC then Inl FROTH_ERROR_SNAPSHOT_FORMAT
     else
       FROTH_TRY (frothy_snapshot_reader_read_u16 r) (\<lambda>(snapshot_version, r).
       FROTH_TRY (frothy_snapshot_reader_read_u16 r) (\<lambda>(ir_version, r).
       if snapshot_version \<noteq> FROTHY_SNAPSHOT_VERSION \<or> ir_version \<noteq> FROTHY_SNAPSHOT_IR_VERSION
       then Inl FROTH_ERROR_SNAPSHOT_INCOMPAT else Inr r)))"

definition validate_symbols :: "reader \<Rightarrow> (nat \<times> reader) result" where
  "validate_symbols r =
     FROTH_TRY (read_size r) (\<lambda>(symbol_count, r).
     if FROTH_SLOT_TABLE_SIZE < symbol_count then Inl FROTH_ERROR_SNAPSHOT_OVERFLOW
     else FROTH_TRY (check_list validate_symbol symbol_count r) (\<lambda>r. Inr (symbol_count, r)))"

text \<open>The workspace of the phase was zeroed, so all kinds and counts start at zero.\<close>

definition validate_object_table ::
  "nat \<Rightarrow> reader \<Rightarrow> (nat \<times> (byte list \<times> nat list) \<times> reader) result" where
  "validate_object_table symbol_count r =
     FROTH_TRY (read_size r) (\<lambda>(object_count, r).
     if FROTHY_OBJECT_CAPACITY < object_count then Inl FROTH_ERROR_SNAPSHOT_OVERFLOW
     else
       FROTH_TRY (validate_objects symbol_count object_count 0 object_count
           (ly_object_kinds frothy_snapshot_layout_init, ly_field_counts frothy_snapshot_layout_init)
           r) (\<lambda>(acc, r).
       Inr (object_count, acc, r)))"

definition frothy_snapshot_validate :: "byte list \<Rightarrow> frothy_snapshot_layout result" where
  "frothy_snapshot_validate payload =
     FROTH_TRY (validate_prefix payload) (\<lambda>r.
     FROTH_TRY (validate_symbols r) (\<lambda>(symbol_count, r).
     FROTH_TRY (validate_object_table symbol_count r) (\<lambda>(object_count, (kinds, field_counts), r).
     FROTH_TRY (read_size r) (\<lambda>(binding_count, r).
     FROTH_TRY (check_list (validate_binding symbol_count object_count kinds) binding_count r) (\<lambda>r.
     format_guard (r = [])
       (Inr \<lparr>ly_symbol_count = symbol_count, ly_object_count = object_count,
          ly_binding_count = binding_count, ly_object_kinds = kinds,
          ly_field_counts = field_counts\<rparr>))))))"

definition frothy_snapshot_codec_validate_payload ::
  "byte list \<Rightarrow> frothy_snapshot_codec_usage \<Rightarrow> unit result \<times> frothy_snapshot_codec_usage" where
  "frothy_snapshot_codec_validate_payload payload us =
     (case frothy_snapshot_validate payload of
        Inl e \<Rightarrow> (Inl e, us)
      | Inr ly \<Rightarrow>
          (Inr (), frothy_snapshot_workspace_record_usage (length payload) (ly_symbol_count ly)
             (ly_object_count ly) (ly_binding_count ly) us))"

end
