(* ===== verification/Frothy_Frame.thy ===== *)
theory Frothy_Frame
  imports Frothy_Record_Props
begin

section \<open>What the operations on objects leave alone\<close>

text \<open>
  The evaluator keeps its values in an arena of the runtime (\<open>rt_eval_values\<close>) and watches the
  reset epoch. No operation on objects touches those, nor the capacities of the runtime: every
  operation keeps \<open>rt_frame\<close>. The rules are collected in \<open>rt_frames\<close>.
\<close>

named_theorems rt_frames \<open>operations that keep the frame of the runtime\<close>

definition rt_frame :: "frothy_runtime \<Rightarrow> _" where
  "rt_frame rt = (rt_eval_values rt, rt_eval_value_capacity rt, rt_eval_value_limit rt,
     rt_eval_value_used rt, rt_eval_value_high_water rt, rt_reset_epoch rt,
     rt_payload_capacity rt, rt_object_capacity rt, cs_capacity (rt_cellspace rt))"

lemma rt_frameD:
  assumes "rt_frame rt' = rt_frame rt"
  shows "rt_eval_values rt' = rt_eval_values rt" "rt_eval_value_limit rt' = rt_eval_value_limit rt"
    "rt_eval_value_capacity rt' = rt_eval_value_capacity rt"
    "rt_eval_value_used rt' = rt_eval_value_used rt" "rt_reset_epoch rt' = rt_reset_epoch rt"
    "rt_payload_capacity rt' = rt_payload_capacity rt" "rt_object_capacity rt' = rt_object_capacity rt"
    "cs_capacity (rt_cellspace rt') = cs_capacity (rt_cellspace rt)"
  using assms by (simp_all add: rt_frame_def)

lemma rt_frame_updates [rt_frames]:
  "rt_frame (rt\<lparr>rt_objects := x1\<rparr>) = rt_frame rt" "rt_frame (rt\<lparr>rt_live_object_count := x2\<rparr>) = rt_frame rt"
  "rt_frame (rt\<lparr>rt_object_high_water := x2\<rparr>) = rt_frame rt"
  "rt_frame (rt\<lparr>rt_free_spans := x3\<rparr>) = rt_frame rt"
  "rt_frame (rt\<lparr>rt_payload_free_spans := x3\<rparr>) = rt_frame rt"
  "rt_frame (rt\<lparr>rt_payload_extent := x2\<rparr>) = rt_frame rt"
  "rt_frame (rt\<lparr>rt_payload_bytes_used := x2\<rparr>) = rt_frame rt"
  "rt_frame (rt\<lparr>rt_payload_bytes_high_water := x2\<rparr>) = rt_frame rt"
  "rt_frame (rt\<lparr>rt_payload_bytes := x4\<rparr>) = rt_frame rt"
  "rt_frame (rt\<lparr>rt_test_fail_next_append := b\<rparr>) = rt_frame rt"
  "cs_capacity cs = cs_capacity (rt_cellspace rt) \<Longrightarrow> rt_frame (rt\<lparr>rt_cellspace := cs\<rparr>) = rt_frame rt"
  by (simp_all add: rt_frame_def)

lemma rt_frame_store [rt_frames]:
  "rt_frame (set_object i ob rt) = rt_frame rt" "rt_frame (set_refcount i n rt) = rt_frame rt"
  "rt_frame (set_cell a c rt) = rt_frame rt" "rt_frame (store_word off v rt) = rt_frame rt"
  "rt_frame (store_bytes off bs rt) = rt_frame rt"
  "rt_frame (frothy_cellspace_store_value a v rt) = rt_frame rt"
  by (simp_all add: rt_frames set_object_def set_refcount_def set_cell_def store_word_def
      store_bytes_def frothy_cellspace_store_value_def)

lemma rt_frame_spans [rt_frames]:
  "rt_frame (frothy_runtime_release_payload p rt) = rt_frame rt"
  "rt_frame (frothy_runtime_add_free_span b n rt) = rt_frame rt"
  by (simp_all add: frothy_runtime_release_payload_def frothy_runtime_add_payload_free_span_def
      frothy_runtime_add_free_span_def rt_frame_def split: prod.splits)

lemma rt_frame_teardown [rt_frames]:
  "rt_frame (frothy_runtime_finish_object_teardown i rt) = rt_frame rt"
  "rt_frame (frothy_runtime_release_object_storage i rt) = rt_frame rt"
  by (simp_all add: frothy_runtime_finish_object_teardown_def frothy_runtime_release_object_storage_def
      frothy_runtime_release_code_storage_def rt_frames split: frothy_object_as.splits)

definition keeps_frame :: "releaser \<Rightarrow> bool" where
  "keeps_frame rel \<longleftrightarrow> (\<forall>v rt. rt_frame (snd (rel v rt)) = rt_frame rt)"

lemma rt_frame_and_then:
  "rt_frame (snd m) = fr \<Longrightarrow> (\<And>rt. rt_frame rt = fr \<Longrightarrow> rt_frame (snd (k rt)) = fr) \<Longrightarrow>
   rt_frame (snd (and_then m k)) = fr"
  by (auto simp: and_then_def split: prod.splits sum.splits)

lemma clear_cells_frame:
  "keeps_frame rel \<Longrightarrow> rt_frame (snd (clear_cells_loop rel i n rt)) = rt_frame rt"
proof (induction n arbitrary: i rt)
  case (Suc n)
  obtain r rt1 where r: "rel (frothy_cellspace_value rt i) rt = (r, rt1)" by fastforce
  then have "rt_frame rt1 = rt_frame rt" using Suc.prems unfolding keeps_frame_def by (metis snd_conv)
  then show ?case using Suc r by (cases r) (simp_all add: rt_frames)
qed simp

lemma clear_fields_frame:
  "keeps_frame rel \<Longrightarrow> rt_frame (snd (clear_fields_loop rel p i n rt)) = rt_frame rt"
proof (induction n arbitrary: i rt)
  case (Suc n)
  obtain r rt1 where r: "rel (record_field_at rt p i) rt = (r, rt1)" by fastforce
  then have "rt_frame rt1 = rt_frame rt" using Suc.prems unfolding keeps_frame_def by (metis snd_conv)
  then show ?case using Suc r by (cases r) simp_all
qed simp

lemma finish_clear_frame: "rt_frame (snd (finish_clear i rt)) = rt_frame rt"
  by (simp add: finish_clear_def rt_frames)

lemma clear_object_frame:
  assumes "keeps_frame rel"
  shows "rt_frame (snd (frothy_runtime_clear_live_object rel i rt)) = rt_frame rt"
proof -
  have rel: "rt_frame (snd (rel v rt')) = rt_frame rt'" for v rt'
    using assms by (simp add: keeps_frame_def)
  show ?thesis
    by (auto simp: frothy_runtime_clear_live_object_def rt_frames rel finish_clear_frame
        clear_cells_frame [OF assms] clear_fields_frame [OF assms]
        intro!: rt_frame_and_then split: frothy_object_as.splits)
qed

lemma release_fuel_frame: "keeps_frame (release_fuel n)"
proof (induction n)
  case (Suc n)
  have "rt_frame (snd (release_fuel (Suc n) v rt)) = rt_frame rt" for v rt
    by (cases "frothy_runtime_get_live_object_id rt v")
       (simp_all add: Let_def rt_frames clear_object_frame [OF Suc.IH])
  then show ?case by (simp add: keeps_frame_def)
qed (simp add: keeps_frame_def)

lemma release_frame [rt_frames]: "rt_frame (snd (frothy_value_release v rt)) = rt_frame rt"
  using release_fuel_frame unfolding frothy_value_release_def keeps_frame_def by blast

lemma retain_frame [rt_frames]: "rt_frame (snd (frothy_value_retain v rt)) = rt_frame rt"
  by (auto simp: frothy_value_retain_def Let_def rt_frames split: sum.splits)

lemma release_ignoring_frame [rt_frames]: "rt_frame (release_ignoring vs rt) = rt_frame rt"
  by (induction vs arbitrary: rt) (simp_all add: rt_frames)

lemma alloc_payload_rt_frame [rt_frames]:
  "rt_frame (snd (frothy_runtime_alloc_payload len rt)) = rt_frame rt"
  by (auto simp: frothy_runtime_alloc_payload_def frothy_runtime_take_payload_free_span_def
      note_payload_used_def Let_def rt_frame_def split: sum.splits option.splits prod.splits)

lemma append_object_frame [rt_frames]:
  "rt_frame (snd (frothy_runtime_append_object ob rt)) = rt_frame rt"
  by (auto simp: frothy_runtime_append_object_def frothy_runtime_install_object_def Let_def rt_frames
      split: option.splits)

lemma fill_nil_frame [rt_frames]: "rt_frame (fill_nil a n rt) = rt_frame rt"
  by (induction n arbitrary: a rt) (simp_all add: rt_frames)

lemma take_cells_rt_frame [rt_frames]: "rt_frame (snd (take_cells n rt)) = rt_frame rt"
  by (auto simp: take_cells_def frothy_runtime_take_free_span_def froth_cellspace_allot_def
      rt_frame_def Let_def split: option.splits prod.splits)

lemma rt_frame_step: "rt_frame (snd m) = fr \<Longrightarrow> m = (r, rt') \<Longrightarrow> rt_frame rt' = fr"
  by simp

lemmas alloc_payload_frame_eq = alloc_payload_rt_frame [THEN rt_frame_step]
  and append_object_frame_eq = append_object_frame [THEN rt_frame_step]
  and retain_frame_eq = retain_frame [THEN rt_frame_step]
  and take_cells_frame_eq = take_cells_rt_frame [THEN rt_frame_step]
  and release_frame_eq = release_frame [THEN rt_frame_step]

lemma retain_fields_frame [rt_frames]:
  "rt_frame (snd (retain_fields b vs i rt)) = rt_frame rt"
proof (induction vs arbitrary: i rt)
  case (Cons v vs)
  then show ?case by (auto simp: rt_frames split: prod.splits sum.splits dest!: retain_frame_eq)
qed simp

lemmas retain_fields_frame_eq = retain_fields_frame [THEN rt_frame_step]

lemma alloc_text_frame [rt_frames]: "rt_frame (snd (frothy_runtime_alloc_text t rt)) = rt_frame rt"
  by (auto simp: frothy_runtime_alloc_text_def rt_frames split: prod.splits sum.splits
      dest!: alloc_payload_frame_eq append_object_frame_eq)

lemma alloc_cells_frame [rt_frames]: "rt_frame (snd (frothy_runtime_alloc_cells n rt)) = rt_frame rt"
  by (auto simp: frothy_runtime_alloc_cells_def rt_frames split: prod.splits sum.splits
      dest!: take_cells_frame_eq append_object_frame_eq)

lemma install_record_def_frame [rt_frames]:
  "rt_frame (snd (install_record_def name fs sz rt)) = rt_frame rt"
  by (auto simp: install_record_def_def rt_frames split: prod.splits sum.splits
      dest!: alloc_payload_frame_eq append_object_frame_eq)

lemma alloc_record_def_frame [rt_frames]:
  "rt_frame (snd (frothy_runtime_alloc_record_def name fs rt)) = rt_frame rt"
  "rt_frame (snd (frothy_runtime_alloc_record_def_from_ir name p a n rt)) = rt_frame rt"
  by (auto simp: frothy_runtime_alloc_record_def_def frothy_runtime_alloc_record_def_from_ir_def
      rt_frames Let_def split: sum.splits)

lemma alloc_record_frame [rt_frames]:
  "rt_frame (snd (frothy_runtime_alloc_record d vs rt)) = rt_frame rt"
  by (auto simp: frothy_runtime_alloc_record_def rt_frames split: prod.splits sum.splits
      dest!: alloc_payload_frame_eq append_object_frame_eq retain_frame_eq retain_fields_frame_eq)

lemma alloc_code_frame [rt_frames]:
  "rt_frame (snd (frothy_runtime_alloc_packed_code p b a l rt)) = rt_frame rt"
  "rt_frame (snd (frothy_runtime_alloc_code p b a l rt)) = rt_frame rt"
proof -
  show pk: "rt_frame (snd (frothy_runtime_alloc_packed_code p b a l rt)) = rt_frame rt" for p rt
    by (auto simp: frothy_runtime_alloc_packed_code_def rt_frames split: sum.splits)
  show "rt_frame (snd (frothy_runtime_alloc_code p b a l rt)) = rt_frame rt"
    by (auto simp: frothy_runtime_alloc_code_def rt_frames split: prod.splits sum.splits
        dest!: alloc_payload_frame_eq pk [THEN rt_frame_step])
qed

lemma write_field_frame [rt_frames]:
  "rt_frame (snd (frothy_runtime_record_write_field v name s rt)) = rt_frame rt"
  by (auto simp: frothy_runtime_record_write_field_def rt_frames split: prod.splits sum.splits
      dest!: release_frame_eq)

text \<open>A block that could be allocated has a size that did not overflow.\<close>

lemma alloc_payload_bound:
  assumes "frothy_runtime_alloc_payload len rt = (Inr p, rt')" "len \<le> SIZE_MAX"
  shows "len \<le> SIZE_MAX - 15"
proof -
  obtain m where "frothy_payload_align_up len = Inr m"
    using assms(1) by (auto simp: frothy_runtime_alloc_payload_def split: sum.splits)
  then have "len mod 16 = 0 \<or> \<not> SIZE_MAX - (16 - len mod 16) < len"
    by (auto simp: frothy_payload_align_up_def ALIGNOF_MAX_ALIGN_def Let_def split: if_splits)
  then have pad: "len mod 16 = 0 \<or> len + (16 - len mod 16) \<le> SIZE_MAX" by (auto simp: SIZE_MAX_def)
  obtain q r where qr: "len = 16 * q + r" "r < 16" "len mod 16 = r"
    by (metis mult_div_mod_eq mod_less_divisor zero_less_numeral)
  show ?thesis
  proof (cases "r = 0")
    case True
    then have "16 * q < 16 * 2 ^ 60" using qr(1) assms(2) by (simp add: SIZE_MAX_def)
    then have "q + 1 \<le> 2 ^ 60" by linarith
    then show ?thesis using True qr(1) by (simp add: SIZE_MAX_def)
  next
    case False
    then have "16 * (q + 1) \<le> SIZE_MAX" using pad qr by simp
    then have "16 * (q + 1) < 16 * 2 ^ 60" by (simp add: SIZE_MAX_def)
    then have "q + 1 < 2 ^ 60" by (simp only: mult_less_cancel1)
    then show ?thesis using qr by (simp add: SIZE_MAX_def)
  qed
qed

end
