(* ===== verification/Frothy_Sound.thy ===== *)
theory Frothy_Sound
  imports Frothy_Frame
begin

section \<open>Sound runtimes: what every operation on objects keeps\<close>

text \<open>
  A runtime is sound for the references \<open>e\<close> of the rest of the program when it is consistent
  (\<open>runtime_ok\<close>), every record has as many fields as its definition says (\<open>records_ok\<close>, without
  which reading a field by its name could read past the record), and the capacities are small
  enough that no reference count can reach \<open>UINT32_MAX\<close>. The lemmas have one form for all
  operations: from a sound runtime they lead to a sound runtime, with the reference to the value
  they return added, also when they fail half way and undo what they did.
\<close>

subsection \<open>Reference counts cannot saturate\<close>

lemma sum_cover_span:
  "sp_end s \<le> N \<Longrightarrow> (\<Sum>a<N. if covers s a then 1 else 0) = (sp_length s :: nat)"
proof -
  assume "sp_end s \<le> N"
  then have "{a. a < N \<and> covers s a} = {sp_offset s ..< sp_end s}" by (auto simp: covers_def)
  then have "card {a. a < N \<and> covers s a} = sp_length s" by simp
  moreover have "(\<Sum>a<N. if covers s a then 1 else 0) = card {a. a < N \<and> covers s a}"
    by (simp add: sum.If_cases) (rule arg_cong [of _ _ card], auto)
  ultimately show ?thesis by simp
qed

lemma sum_cover:
  "\<forall>s \<in> set ss. sp_end s \<le> N \<Longrightarrow> (\<Sum>a<N. cover ss a) = (\<Sum>s\<leftarrow>ss. sp_length s)"
proof (induction ss)
  case (Cons s ss)
  have "(\<Sum>a<N. cover (s # ss) a) = (\<Sum>a<N. if covers s a then 1 else 0) + (\<Sum>a<N. cover ss a)"
    by (simp add: sum.distrib [symmetric] cong: sum.cong)
  with Cons sum_cover_span [of s N] show ?case by simp
qed simp

text \<open>The spans handed out of an arena are together no longer than the arena.\<close>

lemma arena_total:
  assumes "arena_ok fs n owned"
  shows "(\<Sum>s\<leftarrow>owned. sp_length s) \<le> n"
proof -
  have "\<forall>s \<in> set owned. sp_end s \<le> n" using arena_owned_end [OF assms] by blast
  then have "(\<Sum>s\<leftarrow>owned. sp_length s) = (\<Sum>a<n. cover owned a)" by (rule sum_cover [symmetric])
  also have "\<dots> \<le> (\<Sum>a<n. 1)"
  proof (rule sum_mono)
    fix a assume "a \<in> {..<n}"
    moreover have "cover fs a + cover owned a = (if a < n then 1 else 0)"
      using assms unfolding arena_ok_def by blast
    ultimately show "cover owned a \<le> 1" by simp
  qed
  finally show ?thesis by simp
qed

lemma refs_le_1: "refs v x \<le> 1"
  by (simp add: refs_def)

lemma refs_in_le: "refs_in vs x \<le> length vs"
  by (induction vs) (use refs_le_1 in \<open>auto intro: add_mono order_trans simp: add.commute\<close>)

lemma outs_bound:
  assumes "ob_shape (rt_objects rt ! j)"
  shows "length (outs rt j) \<le> (\<Sum>s\<leftarrow>ob_cells (rt_objects rt ! j). sp_length s)
    + (\<Sum>s\<leftarrow>ob_payload (rt_objects rt ! j). sp_length s) + 1"
  using assms
  by (cases "ob_as (rt_objects rt ! j)")
     (auto simp: outs_def ob_shape_def ob_cells_def ob_payload_def frothy_object_reset_def
       split: if_splits)

lemma sum_list_concat_map: "(\<Sum>s\<leftarrow>concat (map f xs). g s) = (\<Sum>x\<leftarrow>xs. \<Sum>s\<leftarrow>f x. (g s :: nat))"
  by (induction xs) simp_all

lemma sum_nth_list: "(\<Sum>j<length xs. f (xs ! j)) = (\<Sum>x\<leftarrow>xs. (f x :: nat))"
  by (simp add: sum_list_sum_nth atLeast0LessThan)

lemma stored_refs_bound:
  assumes st: "store_ok [] [] rt"
  shows "refs_to None rt x \<le>
    cs_capacity (rt_cellspace rt) + rt_payload_capacity rt + rt_object_capacity rt"
proof -
  let ?n = "length (rt_objects rt)"
  let ?c = "\<lambda>ob. \<Sum>s\<leftarrow>ob_cells ob. sp_length s" and ?p = "\<lambda>ob. \<Sum>s\<leftarrow>ob_payload ob. sp_length s"
  have ok: "payload_ok [] rt" "cells_ok [] rt" "table_ok rt" using st by (simp_all add: store_ok_def)
  have "refs_to None rt x \<le> (\<Sum>j<?n. ?c (rt_objects rt ! j) + ?p (rt_objects rt ! j) + 1)"
    unfolding refs_to_def
  proof (rule sum_mono)
    fix j assume "j \<in> {..<?n}"
    then have "ob_shape (rt_objects rt ! j)" using ok(3) by (simp add: table_ok_def)
    from outs_bound [OF this] refs_in_le [of "outs rt j" x]
    show "(if 0 < rc rt j then refs_in (outs_h None rt j) x else 0)
        \<le> ?c (rt_objects rt ! j) + ?p (rt_objects rt ! j) + 1" by (simp add: outs_h_def)
  qed
  also have "\<dots> = (\<Sum>s\<leftarrow>cells_owned rt. sp_length s) + (\<Sum>s\<leftarrow>payload_owned rt. sp_length s) + ?n"
    unfolding sum.distrib cells_owned_def payload_owned_def sum_list_concat_map
    by (simp add: sum_nth_list [where f = ?c] sum_nth_list [where f = ?p])
  also have "\<dots> \<le> cs_used (rt_cellspace rt) + rt_payload_extent rt + rt_object_capacity rt"
    using arena_total [of "rt_free_spans rt" "cs_used (rt_cellspace rt)" "cells_owned rt"]
      arena_total [of "rt_payload_free_spans rt" "rt_payload_extent rt" "payload_owned rt"] ok
    by (simp add: cells_ok_def payload_ok_def table_ok_def)
  also have "\<dots> \<le> cs_capacity (rt_cellspace rt) + rt_payload_capacity rt + rt_object_capacity rt"
    using ok by (simp add: cells_ok_def payload_ok_def)
  finally show ?thesis .
qed

definition rt_small :: "frothy_runtime \<Rightarrow> bool" where
  "rt_small rt \<longleftrightarrow>
     cs_capacity (rt_cellspace rt) + rt_payload_capacity rt + rt_object_capacity rt < 2 ^ 30"

definition modest :: "(nat \<Rightarrow> nat) \<Rightarrow> bool" where
  "modest e \<longleftrightarrow> (\<forall>x. e x < 2 ^ 31)"

lemma retain_succeeds:
  assumes ok: "runtime_ok e rt" and small: "rt_small rt" and e: "modest e"
    and held: "frothy_value_is_object_ref v \<Longrightarrow> 0 < rc rt (frothy_value_object_index v)"
  shows "\<exists>rt'. frothy_value_retain v rt = (Inr (), rt')"
proof (cases "frothy_value_is_object_ref v")
  case True
  let ?i = "frothy_value_object_index v"
  have cnt: "count_ok e None rt" by (rule runtime_okD(2) [OF ok])
  have pos: "0 < rc rt ?i" using held True by simp
  then have i: "?i < length (rt_objects rt)" by (simp add: rc_def split: if_splits)
  have live: "ob_live (rt_objects rt ! ?i)"
  proof (rule ccontr)
    assume "\<not> ob_live (rt_objects rt ! ?i)"
    then have "rt_objects rt ! ?i = frothy_object_reset"
      using runtime_okD(1) [OF ok] i by (auto simp: store_ok_def table_ok_def ob_shape_def)
    with pos i show False by (simp add: rc_def frothy_object_reset_def)
  qed
  have "refs_to None rt ?i < 2 ^ 30" "e ?i < 2 ^ 31"
    using stored_refs_bound [OF runtime_okD(1) [OF ok], of ?i] small e
    by (auto simp: rt_small_def modest_def)
  then have "e ?i + refs_to None rt ?i < UINT32_MAX" by (simp add: UINT32_MAX_def)
  then have "rc rt ?i < UINT32_MAX" using cnt by (simp add: count_ok_def)
  then have "ob_refcount (rt_objects rt ! ?i) \<noteq> UINT32_MAX" using i by (simp add: rc_def)
  moreover have "frothy_runtime_get_live_object_id rt v = Inr ?i"
    using i live True by (simp add: get_live_object_id_Inr)
  ultimately show ?thesis using True by (simp add: frothy_value_retain_def Let_def)
qed (simp add: frothy_value_retain_def)

subsection \<open>Records and their definitions\<close>

definition record_sound :: "frothy_runtime \<Rightarrow> frothy_object_as \<Rightarrow> bool" where
  "record_sound rt ob = (case ob of
     OBJECT_RECORD p d n \<Rightarrow> (\<exists>name. frothy_runtime_get_record_def rt d = Inr (name, n)) | _ \<Rightarrow> True)"

definition records_ok :: "frothy_runtime \<Rightarrow> bool" where
  "records_ok rt \<longleftrightarrow> (\<forall>j < length (rt_objects rt). ob_live (rt_objects rt ! j) \<longrightarrow>
     record_sound rt (ob_as (rt_objects rt ! j)))"

definition rt_sound :: "(nat \<Rightarrow> nat) \<Rightarrow> frothy_runtime \<Rightarrow> bool" where
  "rt_sound e rt \<longleftrightarrow> runtime_ok e rt \<and> records_ok rt \<and> rt_small rt"

lemma rt_soundD:
  "rt_sound e rt \<Longrightarrow> runtime_ok e rt" "rt_sound e rt \<Longrightarrow> records_ok rt" "rt_sound e rt \<Longrightarrow> rt_small rt"
  "rt_sound e rt \<Longrightarrow> store_ok [] [] rt" "rt_sound e rt \<Longrightarrow> count_ok e None rt" "rt_sound e rt \<Longrightarrow> quiet rt"
  by (simp_all add: rt_sound_def runtime_ok_def)

lemma rt_small_frame: "rt_frame rt' = rt_frame rt \<Longrightarrow> rt_small rt' = rt_small rt"
  by (simp add: rt_small_def rt_frame_def)

lemma get_record_def_Inr:
  "frothy_runtime_get_record_def rt d = Inr (name, n) \<longleftrightarrow>
   (\<exists>i p m rest. frothy_runtime_get_live_object_id rt d = Inr i \<and>
      ob_as (rt_objects rt ! i) = OBJECT_RECORD_DEF p m \<and>
      frothy_runtime_record_def_object_view rt (OBJECT_RECORD_DEF p m) = Inr (name, n, rest))"
  by (auto simp: frothy_runtime_get_record_def_def frothy_runtime_get_object_def FROTH_TRY_Inr_iff
      is_OBJECT_RECORD_DEF_def Let_def split: if_splits)

text \<open>A definition that stays in its place, with its bytes, is read back the same.\<close>

lemma record_def_stable:
  assumes "frothy_runtime_get_record_def rt d = Inr (name, n)"
    and "\<And>i p m. frothy_runtime_get_live_object_id rt d = Inr i \<Longrightarrow>
      ob_as (rt_objects rt ! i) = OBJECT_RECORD_DEF p m \<Longrightarrow> 0 < sp_length p \<Longrightarrow>
      i < length (rt_objects rt') \<and> ob_live (rt_objects rt' ! i) \<and>
      ob_as (rt_objects rt' ! i) = ob_as (rt_objects rt ! i) \<and>
      load_at (rt_payload_bytes rt') (sp_offset p) (sp_length p) =
        load_at (rt_payload_bytes rt) (sp_offset p) (sp_length p)"
  shows "frothy_runtime_get_record_def rt' d = Inr (name, n)"
proof -
  obtain i p m rest where i: "frothy_runtime_get_live_object_id rt d = Inr i"
    "ob_as (rt_objects rt ! i) = OBJECT_RECORD_DEF p m"
    "frothy_runtime_record_def_object_view rt (OBJECT_RECORD_DEF p m) = Inr (name, n, rest)"
    using assms(1) by (auto simp: get_record_def_Inr)
  have pos: "0 < sp_length p"
    using i(3) by (auto simp: frothy_runtime_record_def_object_view_def split: if_splits)
  note k = assms(2) [OF i(1,2) pos]
  have "frothy_runtime_get_live_object_id rt' d = Inr i"
    using k i(1) by (auto simp: get_live_object_id_Inr)
  moreover have "frothy_runtime_record_def_object_view rt' (OBJECT_RECORD_DEF p m) = Inr (name, n, rest)"
    using conjunct2 [OF conjunct2 [OF conjunct2 [OF k]]]
    by (subst i(3) [symmetric]) (simp add: frothy_runtime_record_def_object_view_def)
  ultimately show ?thesis using k i(2) by (auto simp: get_record_def_Inr)
qed

text \<open>What an allocation keeps: every live object, and the bytes of the definitions.\<close>

definition grows :: "frothy_runtime \<Rightarrow> frothy_runtime \<Rightarrow> bool" where
  "grows rt rt' \<longleftrightarrow> objects_kept rt rt' \<and>
     (\<forall>j < length (rt_objects rt). \<forall>p n. ob_live (rt_objects rt ! j) \<longrightarrow>
        ob_as (rt_objects rt ! j) = OBJECT_RECORD_DEF p n \<longrightarrow> 0 < sp_length p \<longrightarrow>
        load_at (rt_payload_bytes rt') (sp_offset p) (sp_length p) =
          load_at (rt_payload_bytes rt) (sp_offset p) (sp_length p))"

lemma grows_refl [simp]: "grows rt rt"
  by (simp add: grows_def)

lemma grows_trans:
  assumes "grows a b" "grows b c"
  shows "grows a c"
  using assms objects_kept_trans [of a b c] by (auto simp: grows_def objects_kept_def)

lemma grows_same_bytes:
  "objects_kept rt rt' \<Longrightarrow> rt_payload_bytes rt' = rt_payload_bytes rt \<Longrightarrow> grows rt rt'"
  by (simp add: grows_def)

lemma record_def_grows:
  assumes "grows rt rt'" "frothy_runtime_get_record_def rt d = Inr (name, n)"
  shows "frothy_runtime_get_record_def rt' d = Inr (name, n)"
  by (rule record_def_stable [OF assms(2)])
     (use assms(1) in \<open>auto simp: grows_def objects_kept_def get_live_object_id_Inr\<close>)

lemma record_sound_grows: "grows rt rt' \<Longrightarrow> record_sound rt ob \<Longrightarrow> record_sound rt' ob"
  using record_def_grows by (auto simp: record_sound_def split: frothy_object_as.splits)

lemma records_ok_grows:
  assumes "records_ok rt" "grows rt rt'"
    and "\<And>j. j < length (rt_objects rt') \<Longrightarrow> ob_live (rt_objects rt' ! j) \<Longrightarrow>
      \<not> (j < length (rt_objects rt) \<and> ob_live (rt_objects rt ! j)) \<Longrightarrow>
      record_sound rt' (ob_as (rt_objects rt' ! j))"
  shows "records_ok rt'"
  unfolding records_ok_def
proof (intro allI impI)
  fix j assume j: "j < length (rt_objects rt')" "ob_live (rt_objects rt' ! j)"
  show "record_sound rt' (ob_as (rt_objects rt' ! j))"
  proof (cases "j < length (rt_objects rt) \<and> ob_live (rt_objects rt ! j)")
    case True
    then have "record_sound rt (ob_as (rt_objects rt ! j))" using assms(1) by (simp add: records_ok_def)
    moreover have "ob_as (rt_objects rt' ! j) = ob_as (rt_objects rt ! j)"
      using assms(2) True by (simp add: grows_def objects_kept_def)
    ultimately show ?thesis using record_sound_grows [OF assms(2)] by simp
  qed (use assms(3) j in blast)
qed

lemma records_ok_same_objects:
  assumes "records_ok rt" "grows rt rt'" "length (rt_objects rt') = length (rt_objects rt)"
    and "\<And>j. j < length (rt_objects rt) \<Longrightarrow> ob_live (rt_objects rt' ! j) = ob_live (rt_objects rt ! j)"
  shows "records_ok rt'"
  by (rule records_ok_grows [OF assms(1,2)]) (use assms(3,4) in auto)

text \<open>A release keeps the definitions that live records need.\<close>

definition hole_in_fields :: "hole \<Rightarrow> frothy_runtime \<Rightarrow> bool" where
  "hole_in_fields hole rt \<longleftrightarrow> (\<forall>i k p d n. hole = Some (i, k) \<longrightarrow>
     ob_as (rt_objects rt ! i) = OBJECT_RECORD p d n \<longrightarrow> k < n)"

lemma definition_referred:
  assumes "ob_as (rt_objects rt ! j) = OBJECT_RECORD p d n" "hole_in_fields hole rt"
    and "frothy_value_is_object_ref d"
  shows "0 < refs_in (outs_h hole rt j) (frothy_value_object_index d)"
proof -
  have "refs d (frothy_value_object_index d) = 1" using assms(3) by (simp add: refs_def)
  moreover have "d \<in> set (outs_h hole rt j)"
  proof (cases hole)
    case (Some h)
    then show ?thesis
      using assms(1,2) by (cases h) (auto simp: outs_h_def outs_record hole_in_fields_def list_update_append)
  qed (simp add: outs_h_def outs_record [OF assms(1)])
  ultimately show ?thesis
    using sum_list_member_le [of d "outs_h hole rt j" "\<lambda>v. refs v (frothy_value_object_index d)"]
    by (simp add: refs_in_def)
qed

lemma records_ok_frees_hole:
  assumes ok: "records_ok rt" and fr: "frees {} rt rt'" and rt': "store_ok pp pc rt'"
    "count_ok e hole rt'" "quiet rt'" and hole: "hole_in_fields hole rt'"
  shows "records_ok rt'"
  unfolding records_ok_def
proof (intro allI impI)
  fix j assume j: "j < length (rt_objects rt')" "ob_live (rt_objects rt' ! j)"
  have len: "length (rt_objects rt') = length (rt_objects rt)" by (rule frees_length [OF fr])
  note kept = frees_live_kept [OF fr _ j(2)]
  show "record_sound rt' (ob_as (rt_objects rt' ! j))"
  proof (cases "ob_as (rt_objects rt' ! j)")
    case (OBJECT_RECORD p d n)
    have "record_sound rt (OBJECT_RECORD p d n)"
      using ok kept j(1) len OBJECT_RECORD unfolding records_ok_def by metis
    then obtain name where def: "frothy_runtime_get_record_def rt d = Inr (name, n)"
      by (auto simp: record_sound_def)
    have rcj: "0 < rc rt' j" using rt'(3) j by (simp add: quiet_def rc_def)
    have "frothy_runtime_get_record_def rt' d = Inr (name, n)"
    proof (rule record_def_stable [OF def])
      fix i q m assume i: "frothy_runtime_get_live_object_id rt d = Inr i"
      then have d: "frothy_value_is_object_ref d" "i = frothy_value_object_index d"
        "i < length (rt_objects rt)" by (auto simp: get_live_object_id_Inr)
      have "0 < (if 0 < rc rt' j then refs_in (outs_h hole rt' j) i else 0)"
        using rcj definition_referred [OF OBJECT_RECORD hole d(1)] d(2) by simp
      also have "\<dots> \<le> refs_to hole rt' i"
        unfolding refs_to_def using j(1) by (intro member_le_sum) simp_all
      finally have "0 < rc rt' i" using rt'(2) by (simp add: count_ok_def)
      then have "ob_live (rt_objects rt' ! i)"
        using rt'(1) d len by (auto simp: rc_def store_ok_def table_ok_def ob_shape_def
            frothy_object_reset_def split: if_splits)
      then show "i < length (rt_objects rt') \<and> ob_live (rt_objects rt' ! i) \<and>
        ob_as (rt_objects rt' ! i) = ob_as (rt_objects rt ! i) \<and>
        load_at (rt_payload_bytes rt') (sp_offset q) (sp_length q) =
          load_at (rt_payload_bytes rt) (sp_offset q) (sp_length q)"
        using frees_live_kept [OF fr d(3)] d(3) len frees_bytes [OF fr] by simp
    qed
    then show ?thesis by (simp add: record_sound_def OBJECT_RECORD)
  qed (simp_all add: record_sound_def)
qed

lemmas records_ok_frees = records_ok_frees_hole [where hole = None, simplified hole_in_fields_def, simplified]

subsection \<open>Retain and release\<close>

text \<open>The same with payloads that are allocated but not yet installed.\<close>

definition rt_pending :: "frothy_span list \<Rightarrow> (nat \<Rightarrow> nat) \<Rightarrow> frothy_runtime \<Rightarrow> bool" where
  "rt_pending pp e rt \<longleftrightarrow>
     store_ok pp [] rt \<and> count_ok e None rt \<and> quiet rt \<and> records_ok rt \<and> rt_small rt"

lemma rt_sound_pending: "rt_sound e rt \<longleftrightarrow> rt_pending [] e rt"
  by (auto simp: rt_sound_def rt_pending_def runtime_ok_def)

lemma rt_pendingD:
  "rt_pending pp e rt \<Longrightarrow> store_ok pp [] rt" "rt_pending pp e rt \<Longrightarrow> count_ok e None rt"
  "rt_pending pp e rt \<Longrightarrow> quiet rt" "rt_pending pp e rt \<Longrightarrow> records_ok rt"
  "rt_pending pp e rt \<Longrightarrow> rt_small rt"
  by (simp_all add: rt_pending_def)

lemma release_pending:
  assumes "rt_pending pp (\<lambda>x. e x + refs v x) rt"
  shows "\<exists>rt'. frothy_value_release v rt = (Inr (), rt') \<and> rt_pending pp e rt' \<and> frees {} rt rt'"
proof -
  obtain rt' where rt': "frothy_value_release v rt = (Inr (), rt')" "store_ok pp [] rt'"
    "count_ok e None rt'" "frees {} rt rt'"
    using value_release_ok [OF rt_pendingD(1,2) [OF assms]] by (auto simp: hole_safe_def)
  have "quiet rt'" by (rule frees_quiet [OF rt_pendingD(3) [OF assms] rt'(4)])
  moreover from this have "records_ok rt'"
    by (rule records_ok_frees [OF rt_pendingD(4) [OF assms] rt'(4,2,3)])
  moreover have "rt_small rt'"
    using rt_pendingD(5) [OF assms] rt_small_frame [OF release_frame_eq [OF rt'(1)]] by simp
  ultimately show ?thesis using rt' by (simp add: rt_pending_def)
qed

lemmas release_rt_sound = release_pending [of "[]", folded rt_sound_pending]

text \<open>The roll-back loop gives back all it is given.\<close>

lemma release_ignoring_pending:
  "rt_pending pp (\<lambda>x. e x + refs_in vs x) rt \<Longrightarrow>
   rt_pending pp e (release_ignoring vs rt) \<and> frees {} rt (release_ignoring vs rt)"
proof (induction vs arbitrary: rt e)
  case (Cons v vs)
  have "rt_pending pp (\<lambda>x. (e x + refs_in vs x) + refs v x) rt" using Cons.prems by (simp add: ac_simps)
  from release_pending [OF this] obtain rt1 where
    r: "frothy_value_release v rt = (Inr (), rt1)" "rt_pending pp (\<lambda>x. e x + refs_in vs x) rt1" "frees {} rt rt1"
    by blast
  then show ?case using Cons.IH [OF r(2)] frees_trans [of "{}" rt rt1] by auto
qed (simp add: frees_refl)

lemmas release_ignoring_sound = release_ignoring_pending [of "[]", folded rt_sound_pending]

lemma retain_pending:
  assumes ok: "rt_pending pp e rt" and run: "frothy_value_retain v rt = (Inr u, rt')"
  shows "rt_pending pp (\<lambda>x. e x + refs v x) rt'" "grows rt rt'"
    "length (rt_objects rt') = length (rt_objects rt)" "rt_payload_bytes rt' = rt_payload_bytes rt"
proof -
  note r = retain_ok [OF rt_pendingD(1-3) [OF ok] run]
  show g: "grows rt rt'" by (rule grows_same_bytes [OF r(4,6)])
  have "ob_live (rt_objects rt' ! j) = ob_live (rt_objects rt ! j)" if "j < length (rt_objects rt)" for j
    using r(4,5,7) that by (auto simp: objects_kept_def)
  then have "records_ok rt'" by (intro records_ok_same_objects [OF rt_pendingD(4) [OF ok] g r(5)])
  moreover have "rt_small rt'"
    using rt_pendingD(5) [OF ok] rt_small_frame [OF retain_frame_eq [OF run]] by simp
  ultimately show "rt_pending pp (\<lambda>x. e x + refs v x) rt'" using r by (simp add: rt_pending_def)
  show "length (rt_objects rt') = length (rt_objects rt)" "rt_payload_bytes rt' = rt_payload_bytes rt"
    by (rule r)+
qed

lemma retain_error: "frothy_value_retain v rt = (Inl err, rt') \<Longrightarrow> rt' = rt"
  by (auto simp: frothy_value_retain_def Let_def split: sum.splits if_splits)

lemma retain_rt_sound:
  assumes ok: "rt_sound e rt" and e: "modest e"
    and held: "frothy_value_is_object_ref v \<Longrightarrow> 0 < rc rt (frothy_value_object_index v)"
  shows "\<exists>rt'. frothy_value_retain v rt = (Inr (), rt') \<and> rt_sound (\<lambda>x. e x + refs v x) rt' \<and>
    grows rt rt'"
proof -
  obtain rt' where "frothy_value_retain v rt = (Inr (), rt')"
    using retain_succeeds [OF rt_soundD(1,3) [OF ok] e] held by blast
  with retain_pending [of "[]" e rt v "()" rt'] ok show ?thesis by (simp add: rt_sound_pending)
qed

subsection \<open>Objects in the payload arena\<close>

text \<open>Allocate a payload, fill it, append the object; give the payload back when that fails.\<close>

definition make_object ::
  "nat \<Rightarrow> (frothy_span \<Rightarrow> byte list) \<Rightarrow> (frothy_span \<Rightarrow> frothy_object_as) \<Rightarrow> frothy_runtime \<Rightarrow>
   frothy_value result \<times> frothy_runtime" where
  "make_object len bytes ob rt =
     (case frothy_runtime_alloc_payload len rt of
        (Inl e, rt) \<Rightarrow> (Inl e, rt)
      | (Inr p, rt) \<Rightarrow>
          (case frothy_runtime_append_object (ob p) (store_bytes (sp_offset p) (bytes p) rt) of
             (Inl e, rt) \<Rightarrow> (Inl e, frothy_runtime_release_payload p rt)
           | (Inr v, rt) \<Rightarrow> (Inr v, rt)))"

text \<open>The outcome of an operation that returns a value it owns.\<close>

definition yields :: "(nat \<Rightarrow> nat) \<Rightarrow> frothy_runtime \<Rightarrow> frothy_value result \<times> frothy_runtime \<Rightarrow> bool" where
  "yields e rt m \<longleftrightarrow> (case m of
     (Inl err, rt') \<Rightarrow> rt_sound e rt' | (Inr v, rt') \<Rightarrow> rt_sound (\<lambda>x. e x + refs v x) rt')"

lemma yields_Inl [simp]: "yields e rt (Inl err, rt') \<longleftrightarrow> rt_sound e rt'"
  and yields_Inr [simp]: "yields e rt (Inr v, rt') \<longleftrightarrow> rt_sound (\<lambda>x. e x + refs v x) rt'"
  by (simp_all add: yields_def)

lemma align_up_ge: "frothy_payload_align_up len = Inr n \<Longrightarrow> len \<le> n"
  by (auto simp: frothy_payload_align_up_def Let_def split: if_splits)

lemma alloc_payload_small:
  assumes ok: "rt_sound e rt" and al: "frothy_runtime_alloc_payload len rt = (Inr p, rt')"
  shows "len < 2 ^ 30"
proof (cases "len = 0")
  case False
  obtain n where n: "frothy_payload_align_up len = Inr n"
    using al by (auto simp: frothy_runtime_alloc_payload_def split: sum.splits)
  have le: "len \<le> n" by (rule align_up_ge [OF n])
  have arena: "arena_ok (rt_payload_free_spans rt) (rt_payload_extent rt) (payload_owned rt)"
    "rt_payload_extent rt \<le> rt_payload_capacity rt"
    using rt_soundD(4) [OF ok] by (simp_all add: store_ok_def payload_ok_def)
  have "n \<le> rt_payload_capacity rt"
  proof (cases "span_take n (rt_payload_free_spans rt)")
    case None
    then show ?thesis using al n False le
      by (auto simp: frothy_runtime_alloc_payload_def frothy_runtime_take_payload_free_span_def
          split: if_splits)
  next
    case (Some r)
    then obtain u where "u \<in> set (rt_payload_free_spans rt)" "n \<le> sp_length u"
      using span_take_None [of n "rt_payload_free_spans rt"] by (metis not_less option.distinct(1))
    moreover from this have "sp_end u < rt_payload_extent rt" using arena(1) unfolding arena_ok_def by blast
    ultimately show ?thesis using arena(2) by simp
  qed
  then show ?thesis using rt_soundD(3) [OF ok] le by (simp add: rt_small_def)
qed simp

definition plain :: "frothy_object_as \<Rightarrow> bool" where
  "plain ob \<longleftrightarrow> (case ob of OBJECT_FREE \<Rightarrow> False | OBJECT_CELLS sp \<Rightarrow> False
     | OBJECT_RECORD p d n \<Rightarrow> False | _ \<Rightarrow> True)"

lemma append_grows:
  assumes ap: "frothy_runtime_append_object ob rt = (Inr v, rt')" and tab: "table_ok rt"
    and cnt: "count_ok (\<lambda>x. e x + refs_in (as_outs rt ob) x) None rt"
  shows "grows rt rt'"
    "j < length (rt_objects rt') \<Longrightarrow> \<not> (j < length (rt_objects rt) \<and> ob_live (rt_objects rt ! j)) \<Longrightarrow>
     ob_live (rt_objects rt' ! j) \<Longrightarrow> ob_as (rt_objects rt' ! j) = ob"
proof -
  obtain i where i: "i \<le> length (rt_objects rt)"
    and objs: "rt_objects rt' = place_object i ob (rt_objects rt)"
    and bytes: "rt_payload_bytes rt' = rt_payload_bytes rt"
    using append_object_Inr [OF ap] by blast
  show "grows rt rt'" by (rule grows_same_bytes [OF append_objects_kept [OF ap tab cnt] bytes])
  show "ob_as (rt_objects rt' ! j) = ob"
    if "j < length (rt_objects rt')" "\<not> (j < length (rt_objects rt) \<and> ob_live (rt_objects rt ! j))"
      "ob_live (rt_objects rt' ! j)"
    using that place_nth [OF i, of j ob] place_length [OF i, of ob] i
    by (cases "j = i") (auto simp: objs new_object_def)
qed

lemma append_records_ok:
  assumes ap: "frothy_runtime_append_object ob rt = (Inr v, rt')" and tab: "table_ok rt"
    and cnt: "count_ok (\<lambda>x. e x + refs_in (as_outs rt ob) x) None rt"
    and ok: "records_ok rt" and ob: "record_sound rt ob"
  shows "records_ok rt'"
  by (rule records_ok_grows [OF ok append_grows(1) [OF ap tab cnt]])
     (use append_grows(2) [OF ap tab cnt] record_sound_grows [OF append_grows(1) [OF ap tab cnt] ob]
      in auto)

text \<open>Bytes written in a pending payload.\<close>

lemma store_pending_grows:
  assumes st: "store_ok (p # pp) pc rt" and p: "0 < sp_length p" and bs: "length bs \<le> sp_length p"
  shows "grows rt (store_bytes (sp_offset p) bs rt)"
proof -
  have off: "sp_offset p + length bs \<le> sp_end p" using bs by simp
  note s = store_bytes_ok [OF st p order_refl off]
  have "load_at (rt_payload_bytes (store_bytes (sp_offset p) bs rt)) (sp_offset q) (sp_length q) =
      load_at (rt_payload_bytes rt) (sp_offset q) (sp_length q)"
    if "j < length (rt_objects rt)" "ob_live (rt_objects rt ! j)"
      "ob_as (rt_objects rt ! j) = OBJECT_RECORD_DEF q n" "0 < sp_length q" for j q n
    using s(2) [of j q 0 "sp_length q"] that by (simp add: ob_payload_def)
  then show ?thesis using s(3) by (simp add: grows_def objects_kept_def)
qed

lemma alloc_payload_grows:
  assumes "frothy_runtime_alloc_payload len rt = (r, rt')"
  shows "grows rt rt'"
proof -
  note fr = alloc_payload_frame [OF assms]
  have "outs rt' j = outs rt j" for j
    by (rule outs_cong_objects) (simp_all add: fr)
  then show ?thesis by (simp add: grows_def objects_kept_def fr)
qed

lemma release_payload_grows: "grows rt (frothy_runtime_release_payload p rt)"
proof -
  have "outs (frothy_runtime_release_payload p rt) j = outs rt j" for j
    by (rule outs_cong_objects) (simp_all add: frame_simps)
  then show ?thesis by (simp add: grows_def objects_kept_def frame_simps)
qed

lemma fail_flag_grows: "grows rt (rt\<lparr>rt_test_fail_next_append := b\<rparr>)"
proof -
  have "outs (rt\<lparr>rt_test_fail_next_append := b\<rparr>) j = outs rt j" for j
    by (rule outs_cong_objects) simp_all
  then show ?thesis by (simp add: grows_def objects_kept_def)
qed

lemma append_fails:
  assumes "frothy_runtime_append_object ob rt = (Inl err, rt')" "store_ok pp pc rt" "count_ok e None rt"
  shows "store_ok pp pc rt' \<and> count_ok e None rt' \<and> grows rt rt' \<and> rt_objects rt' = rt_objects rt \<and>
    rt_payload_bytes rt' = rt_payload_bytes rt \<and> rt_cellspace rt' = rt_cellspace rt \<and>
    err = FROTH_ERROR_HEAP_OUT_OF_MEMORY"
  using append_object_Inl [OF assms(1)] assms(2,3) fail_flag_grows by auto

text \<open>A sound runtime with a pending payload, given back.\<close>

lemma rollback_sound:
  assumes ok: "rt_sound e rt" and st: "store_ok [p] [] rt'" "count_ok e None rt'"
    and g: "grows rt rt'" "rt_objects rt' = rt_objects rt" "rt_frame rt' = rt_frame rt"
  shows "rt_sound e (frothy_runtime_release_payload p rt')"
proof -
  let ?rt = "frothy_runtime_release_payload p rt'"
  have "records_ok ?rt"
    by (rule records_ok_same_objects [OF rt_soundD(2) [OF ok] grows_trans [OF g(1) release_payload_grows]])
       (simp_all add: frame_simps g(2))
  moreover have "quiet ?rt"
    by (rule quiet_cong [OF _ rt_soundD(6) [OF ok]]) (simp add: frame_simps g(2))
  moreover have "rt_small ?rt"
    using rt_soundD(3) [OF ok] rt_small_frame [of ?rt rt] g(3) by (simp add: rt_frames)
  ultimately show ?thesis
    using payload_rollback_store [OF st(1)] count_ok_release_payload [OF st(2)]
    by (simp add: rt_sound_def runtime_ok_def)
qed

text \<open>Appending an object that takes over the pending payload and all references counted for it.\<close>

lemma append_sound:
  assumes ap: "frothy_runtime_append_object ob rt = (Inr v, rt')"
    and st: "store_ok pp pc rt" and shape: "ob_shape (new_object ob)"
    and spans: "pp = ob_payload (new_object ob)" "pc = ob_cells (new_object ob)"
    and cnt: "count_ok (\<lambda>x. e x + refs_in (as_outs rt ob) x) None rt"
    and rec: "records_ok rt" "record_sound rt ob" and "quiet rt" "rt_small rt"
  shows "rt_sound (\<lambda>x. e x + refs v x) rt'"
proof -
  have tab: "table_ok rt" using st by (simp add: store_ok_def)
  have "store_ok [] [] rt'" by (rule append_store_ok [OF ap st shape]) (simp_all add: spans)
  moreover note append_count_ok(1) [OF ap tab cnt] append_quiet [OF ap assms(9)]
    append_records_ok [OF ap tab cnt rec]
  moreover have "rt_small rt'"
    using assms(10) rt_small_frame [OF append_object_frame_eq [OF ap]] by simp
  ultimately show ?thesis by (simp add: rt_sound_def runtime_ok_def)
qed

lemma make_object_sound:
  assumes ok: "rt_sound e rt" and len: "0 < len"
    and bytes: "\<And>p. len \<le> sp_length p \<Longrightarrow> length (bytes p) \<le> sp_length p"
    and ob: "\<And>p. plain (ob p)" "\<And>p. as_payload_spans (ob p) = [p]"
    and shape: "\<And>p. len \<le> sp_length p \<Longrightarrow> ob_shape (new_object (ob p))"
  shows "yields e rt (make_object len bytes ob rt)"
proof (cases "frothy_runtime_alloc_payload len rt")
  case (Pair r rt1)
  show ?thesis
  proof (cases r)
    case (Inl err)
    then show ?thesis using Pair alloc_payload_error [of len rt err rt1] ok by (simp add: make_object_def)
  next
    case (Inr p)
    note al = Pair [unfolded Inr]
    have len': "len \<le> SIZE_MAX - 15" using alloc_payload_small [OF ok al] by (simp add: SIZE_MAX_def)
    note a = alloc_payload_ok [OF al rt_soundD(4) [OF ok] len len']
    let ?rt2 = "store_bytes (sp_offset p) (bytes p) rt1"
    have room: "sp_offset p + length (bytes p) \<le> sp_end p" using bytes [OF a(2)] by simp
    note s = store_bytes_ok [OF a(1,3) order_refl room]
    have st2: "store_ok [p] [] ?rt2" by (rule s(1))
    have cnt2: "count_ok e None ?rt2"
      by (rule s(4) [OF alloc_payload_count [OF al rt_soundD(5) [OF ok]]])
    have g2: "grows rt ?rt2"
      by (rule grows_trans [OF alloc_payload_grows [OF al]
            store_pending_grows [OF a(1,3) bytes [OF a(2)]]])
    have o2: "rt_objects ?rt2 = rt_objects rt" using alloc_payload_frame [OF al] by simp
    have f2: "rt_frame ?rt2 = rt_frame rt"
      using alloc_payload_frame_eq [OF al] by (simp add: rt_frames)
    obtain q rt3 where q: "frothy_runtime_append_object (ob p) ?rt2 = (q, rt3)" by fastforce
    show ?thesis
    proof (cases q)
      case (Inl err)
      note ap = q [unfolded Inl]
      note f = append_fails [OF ap st2 cnt2]
      have "rt_sound e (frothy_runtime_release_payload p rt3)"
        using f g2 o2 f2 append_object_frame_eq [OF ap]
        by (intro rollback_sound [OF ok]) (auto intro: grows_trans)
      then show ?thesis using al ap by (simp add: make_object_def)
    next
      case (Inr v)
      note ap = q [unfolded Inr]
      have cells: "as_cell_spans (ob p) = []" "as_outs ?rt2 (ob p) = []" "record_sound ?rt2 (ob p)"
        using ob(1) [of p] by (cases "ob p"; simp add: plain_def record_sound_def)+
      have "records_ok ?rt2"
        by (rule records_ok_same_objects [OF rt_soundD(2) [OF ok] g2]) (simp_all only: o2)
      moreover have "quiet ?rt2" by (rule quiet_cong [OF o2 rt_soundD(6) [OF ok]])
      moreover have "rt_small ?rt2" using rt_small_frame [OF f2] rt_soundD(3) [OF ok] by simp
      ultimately have "rt_sound (\<lambda>x. e x + refs v x) rt3"
        using a(3) cells cnt2 ob(2)
        by (intro append_sound [OF ap st2 shape [OF a(2)]])
           (simp_all add: ob_payload_def ob_cells_def new_object_def)
      then show ?thesis using al ap by (simp add: make_object_def)
    qed
  qed
qed

end
