(* ===== verification/Frothy_Codec_Program.thy ===== *)
theory Frothy_Codec_Program
  imports Frothy_Codec_Nodes Frothy_Sound
begin

section \<open>Saving and restoring a compiled program\<close>

text \<open>
  The lemmas of \<open>packed_wire\<close> put together for a code object: what the writer wrote is accepted,
  measured and decoded to the same program, and what the validator accepts is decoded to a program
  whose indices are all in range, unless the memory for it is missing.
\<close>

lemma sum_spaces: "sum_list (map (\<lambda>x. strings_size (f x)) xs) = strings_size (concat (map f xs))"
  by (induction xs) simp_all

abbreviation program_counts_of ::
  "frothy_snapshot_symbol_table \<Rightarrow> frothy_ir_program \<Rightarrow> program_counts" where
  "program_counts_of s p \<equiv> wire_counts s (word_of_nat (length (ir_literals p)))
     (word_of_nat (length (ir_nodes p))) (word_of_nat (length (ir_links p)))"

definition program_valid ::
  "frothy_snapshot_symbol_table \<Rightarrow> frothy_ir_program \<Rightarrow> bool" where
  "program_valid s p \<longleftrightarrow>
     length (ir_literals p) \<le> FROTHY_IR_LITERAL_CAPACITY \<and>
     length (ir_nodes p) \<le> FROTHY_IR_NODE_CAPACITY \<and>
     length (ir_links p) \<le> FROTHY_IR_LINK_CAPACITY \<and>
     ir_root p < length (ir_nodes p) \<and> fits (ir_root_local_count p) \<and>
     list_all literal_valid (ir_literals p) \<and>
     list_all (node_valid (program_counts_of s p)) (ir_nodes p) \<and>
     list_all (\<lambda>i. i < length (ir_nodes p)) (ir_links p)"

definition program_writable ::
  "frothy_snapshot_symbol_table \<Rightarrow> frothy_ir_program \<Rightarrow> bool" where
  "program_writable s p \<longleftrightarrow>
     list_all literal_writable (ir_literals p) \<and> list_all (node_writable s) (ir_nodes p)"

definition program_strings :: "frothy_ir_program \<Rightarrow> nat" where
  "program_strings p = strings_size (concat (map literal_strings (ir_literals p))) +
     strings_size (concat (map node_strings (ir_nodes p)))"

lemma capacities_fit:
  "n \<le> FROTHY_IR_LITERAL_CAPACITY \<Longrightarrow> fits n" "n \<le> FROTHY_IR_NODE_CAPACITY \<Longrightarrow> fits n"
  "n \<le> FROTHY_IR_LINK_CAPACITY \<Longrightarrow> fits n"
  by (simp_all add: FROTHY_IR_LITERAL_CAPACITY_def FROTHY_IR_NODE_CAPACITY_def
      FROTHY_IR_LINK_CAPACITY_def UINT32_MAX_def)

lemma program_counts:
  assumes "program_valid s p"
  shows "pc_literals (program_counts_of s p) = length (ir_literals p)"
    "pc_nodes (program_counts_of s p) = length (ir_nodes p)"
    "pc_links (program_counts_of s p) = length (ir_links p)"
  using assms by (simp_all add: program_valid_def wire_counts_def capacities_fit)

abbreviation with_arrays ::
  "frothy_ir_literal list \<Rightarrow> frothy_ir_node list \<Rightarrow> node_id list \<Rightarrow> frothy_ir_program \<Rightarrow>
   frothy_ir_program" where
  "with_arrays ls ns ks q \<equiv> q\<lparr>ir_literals := ls, ir_nodes := ns, ir_links := ks\<rparr>"

lemma body_written:
  assumes v: "program_valid s p" and wr: "program_writable s p"
    and put: "write_program_body s p w = Inr w'"
  shows "\<exists>bs. w' = writer_append bs w \<and>
    (\<forall>rest. validate_program_body (program_counts_of s p) (bs @ rest) = Inr rest \<and>
      (program_strings p \<le> SIZE_MAX \<longrightarrow>
         frothy_snapshot_measure_code_object (sy_items s) (length (ir_literals p))
           (length (ir_nodes p)) (length (ir_links p)) (bs @ rest) = Inr (program_strings p)) \<and>
      (\<forall>q e cursor. length (ir_literals q) = length (ir_literals p) \<longrightarrow>
         length (ir_nodes q) = length (ir_nodes p) \<longrightarrow> length (ir_links q) = length (ir_links p) \<longrightarrow>
         cursor + program_strings p \<le> e \<longrightarrow>
         decode_program_body (sy_items s) q e cursor (bs @ rest) =
           Inr (with_arrays (ir_literals p) (ir_nodes p) (ir_links p) q, rest)))"
proof -
  let ?c = "program_counts_of s p"
  note n = program_counts [OF v]
  obtain w1 w2 where w: "put_list frothy_snapshot_write_literal (ir_literals p) w = Inr w1"
    "put_list (frothy_snapshot_write_node s) (ir_nodes p) w1 = Inr w2"
    "put_list write_size (ir_links p) w2 = Inr w'"
    using put by (auto simp: write_program_body_def FROTH_TRY_Inr_iff)
  obtain a where a: "w1 = writer_append a w"
    "\<And>r. check_list frothy_snapshot_validate_literal (length (ir_literals p)) (a @ r) = Inr r"
    "\<And>r acc. acc + strings_size (concat (map literal_strings (ir_literals p))) \<le> SIZE_MAX \<Longrightarrow>
      measure_list measure_literal (length (ir_literals p)) acc (a @ r) =
      Inr (acc + strings_size (concat (map literal_strings (ir_literals p))), r)"
    "\<And>r e cursor. cursor + strings_size (concat (map literal_strings (ir_literals p))) \<le> e \<Longrightarrow>
      decode_list decode_literal (length (ir_literals p)) e cursor (a @ r) =
      Inr (ir_literals p, cursor + strings_size (concat (map literal_strings (ir_literals p))), r)"
    using literal_wire.list_written [OF _ _ w(1)] v wr
    by (auto simp: program_valid_def program_writable_def sum_spaces)
  have nodes: "list_all (node_valid ?c) (ir_nodes p)" "list_all (node_writable s) (ir_nodes p)"
    using v wr by (simp_all add: program_valid_def program_writable_def)
  obtain b where b: "w2 = writer_append b w1"
    "\<And>r. check_list (validate_node ?c) (length (ir_nodes p)) (b @ r) = Inr r"
    "\<And>r acc. acc + strings_size (concat (map node_strings (ir_nodes p))) \<le> SIZE_MAX \<Longrightarrow>
      measure_list (measure_node (sy_items s)) (length (ir_nodes p)) acc (b @ r) =
      Inr (acc + strings_size (concat (map node_strings (ir_nodes p))), r)"
    "\<And>r e cursor. cursor + strings_size (concat (map node_strings (ir_nodes p))) \<le> e \<Longrightarrow>
      decode_list (decode_node (sy_items s)) (length (ir_nodes p)) e cursor (b @ r) =
      Inr (ir_nodes p, cursor + strings_size (concat (map node_strings (ir_nodes p))), r)"
    using node_wire.list_written [OF nodes w(2)] unfolding sum_spaces by blast
  have "list_all (\<lambda>i. i < pc_nodes ?c) (ir_links p)" using v by (simp add: program_valid_def n)
  from link_wire.list_written [OF this _ w(3)] obtain k where k: "w' = writer_append k w2"
    "\<And>r. check_list (validate_link ?c) (length (ir_links p)) (k @ r) = Inr r"
    "\<And>r acc. acc \<le> SIZE_MAX \<Longrightarrow>
      measure_list measure_link (length (ir_links p)) acc (k @ r) = Inr (acc, r)"
    "\<And>r e cursor. cursor \<le> e \<Longrightarrow>
      decode_list decode_link (length (ir_links p)) e cursor (k @ r) = Inr (ir_links p, cursor, r)"
    by (auto simp: list_all_iff)
  have "w' = writer_append (a @ b @ k) w" using a b k by (simp add: writer_append_append)
  then show ?thesis
    using a(2-) b(2-) k(2-) n
    by (intro exI [of _ "a @ b @ k"])
       (simp add: validate_program_body_def frothy_snapshot_measure_code_object_def
         decode_program_body_def program_strings_def add.assoc)
qed

lemma body_validated:
  assumes counts: "unat l \<le> FROTHY_IR_LITERAL_CAPACITY" "unat n \<le> FROTHY_IR_NODE_CAPACITY"
      "unat k \<le> FROTHY_IR_LINK_CAPACITY"
    and "validate_program_body (wire_counts s l n k) r = Inr r'"
  shows "\<exists>p m. length (ir_literals p) = unat l \<and> length (ir_nodes p) = unat n \<and>
    length (ir_links p) = unat k \<and> list_all literal_valid (ir_literals p) \<and>
    list_all (node_valid (program_counts_of s p)) (ir_nodes p) \<and>
    list_all (\<lambda>i. i < length (ir_nodes p)) (ir_links p) \<and>
    (frothy_snapshot_measure_code_object (sy_items s) (unat l) (unat n) (unat k) r = Inr m \<or>
     frothy_snapshot_measure_code_object (sy_items s) (unat l) (unat n) (unat k) r =
       Inl FROTH_ERROR_HEAP_OUT_OF_MEMORY) \<and>
    (\<forall>q e cursor. length (ir_literals q) = unat l \<longrightarrow> length (ir_nodes q) = unat n \<longrightarrow>
       length (ir_links q) = unat k \<longrightarrow> cursor + m \<le> e \<longrightarrow>
       decode_program_body (sy_items s) q e cursor r =
         Inr (with_arrays (ir_literals p) (ir_nodes p) (ir_links p) q, r'))"
proof -
  let ?c = "wire_counts s l n k"
  have c: "pc_literals ?c = unat l" "pc_nodes ?c = unat n" "pc_links ?c = unat k"
    by (simp_all add: wire_counts_def)
  obtain r1 r2 where r: "check_list frothy_snapshot_validate_literal (unat l) r = Inr r1"
    "check_list (validate_node ?c) (unat n) r1 = Inr r2"
    "check_list (validate_link ?c) (unat k) r2 = Inr r'"
    using assms(4) by (auto simp: validate_program_body_def FROTH_TRY_Inr_iff c)
  obtain ls a where a: "length ls = unat l" "list_all literal_valid ls"
    "\<And>acc. measured_by (measure_list measure_literal (unat l) acc r) (acc + a) r1"
    "\<And>e cursor. cursor + a \<le> e \<Longrightarrow>
      decode_list decode_literal (unat l) e cursor r = Inr (ls, cursor + a, r1)"
    using literal_wire.list_validated [OF r(1)] by blast
  obtain ns b where b: "length ns = unat n" "list_all (node_valid ?c) ns"
    "\<And>acc. measured_by (measure_list (measure_node (sy_items s)) (unat n) acc r1) (acc + b) r2"
    "\<And>e cursor. cursor + b \<le> e \<Longrightarrow>
      decode_list (decode_node (sy_items s)) (unat n) e cursor r1 = Inr (ns, cursor + b, r2)"
    using node_wire.list_validated [OF r(2)] by blast
  obtain ks d where d: "length ks = unat k" "list_all (\<lambda>i. i < pc_nodes ?c) ks"
    "\<And>acc. measured_by (measure_list measure_link (unat k) acc r2) (acc + d) r'"
    "\<And>e cursor. cursor + d \<le> e \<Longrightarrow>
      decode_list decode_link (unat k) e cursor r2 = Inr (ks, cursor + d, r')"
    using link_wire.list_validated [OF r(3)] by blast
  let ?p = "with_arrays ls ns ks frothy_ir_program_init" and ?m = "a + (b + d)"
  have "program_counts_of s ?p = ?c" using a(1) b(1) d(1) by simp
  moreover have "frothy_snapshot_measure_code_object (sy_items s) (unat l) (unat n) (unat k) r = Inr ?m \<or>
     frothy_snapshot_measure_code_object (sy_items s) (unat l) (unat n) (unat k) r =
       Inl FROTH_ERROR_HEAP_OUT_OF_MEMORY"
    using a(3) [of 0] b(3) [of a] d(3) [of "a + b"]
    unfolding measured_by_def frothy_snapshot_measure_code_object_def by (auto simp: add.assoc)
  moreover have "decode_program_body (sy_items s) q e cursor r = Inr (with_arrays ls ns ks q, r')"
    if "length (ir_literals q) = unat l" "length (ir_nodes q) = unat n"
      "length (ir_links q) = unat k" "cursor + ?m \<le> e" for q e cursor
    using that a(4) [of cursor e] b(4) [of "cursor + a" e] d(4) [of "cursor + a + b" e]
    by (simp add: decode_program_body_def)
  ultimately show ?thesis
    using a(1,2) b(1,2) d(1,2) c by (intro exI [of _ ?p] exI [of _ ?m]) simp
qed

subsection \<open>Installing a packed program\<close>

lemma payload_units_idem:
  assumes "len \<le> SIZE_MAX - 15"
  shows "payload_units len \<le> SIZE_MAX - 15" "payload_units (payload_units len) = payload_units len"
  using assms by (simp_all add: payload_units_def SIZE_MAX_def)

lemma alloc_payload_units:
  "len \<le> SIZE_MAX - 15 \<Longrightarrow>
   frothy_runtime_alloc_payload (payload_units len) rt = frothy_runtime_alloc_payload len rt"
  by (simp add: frothy_runtime_alloc_payload_def align_up_Inr payload_units_idem)

lemma objects_kept_same:
  "rt_objects rt' = rt_objects rt \<Longrightarrow>
   (\<And>j. j < length (rt_objects rt) \<Longrightarrow> outs rt' j = outs rt j) \<Longrightarrow> objects_kept rt rt'"
  by (simp add: objects_kept_def)

lemma zero_block_ok:
  assumes al: "frothy_runtime_alloc_payload len rt = (Inr p, rt1)" and ok: "runtime_ok e rt"
    and len: "0 < len" "len \<le> SIZE_MAX - 15"
    and rt2: "rt2 = store_bytes (sp_offset p) (replicate (sp_length p) 0) rt1"
  shows "store_ok [p] [] rt2" "count_ok e None rt2" "quiet rt2" "objects_kept rt rt2"
    "texts_kept rt rt2" "len \<le> sp_length p" "0 < sp_length p" "rt_objects rt2 = rt_objects rt"
    "same_arenas rt1 rt2"
proof -
  have l: "sp_length p = payload_units len" by (rule alloc_payload_length [OF al len(2)])
  have al': "frothy_runtime_alloc_payload (sp_length p) rt = (Inr p, rt1)"
    using al alloc_payload_units [OF len(2)] by (simp add: l)
  have pos: "0 < payload_units len" "payload_units len \<le> SIZE_MAX - 15"
    using payload_units_pos [OF len(1)] payload_units_idem [OF len(2)] by simp_all
  note a = alloc_store_ok [OF al' runtime_okD(1,2) [OF ok], of "replicate (sp_length p) 0"]
  show "store_ok [p] [] rt2" "count_ok e None rt2" "texts_kept rt rt2" "rt_objects rt2 = rt_objects rt"
    using a pos by (simp_all add: rt2 l)
  then show "quiet rt2" using runtime_okD(3) [OF ok] by (simp add: quiet_def)
  show "objects_kept rt rt2"
    by (rule objects_kept_same) (use a pos in \<open>simp_all add: rt2 l\<close>)
  show "len \<le> sp_length p" "0 < sp_length p" using payload_units_ge [of len] pos by (simp_all add: l)
  show "same_arenas rt1 rt2" by (simp add: rt2 same_arenas_def store_bytes_def)
qed

definition view_of :: "frothy_span \<Rightarrow> frothy_ir_program \<Rightarrow> bool" where
  "view_of p prog \<longleftrightarrow> ir_storage_kind prog = STORAGE_VIEW \<and> ir_storage_base prog = sp_offset p \<and>
     ir_storage_size prog = sp_length p"

lemma packed_code_append:
  assumes "store_ok [p] [] rt" "view_of p prog" "0 < sp_length p"
  shows "frothy_runtime_alloc_packed_code prog body arity locals rt =
    frothy_runtime_append_object (OBJECT_CODE p arity locals body prog) rt"
proof -
  have "sp_end p \<le> rt_payload_capacity rt"
    using pending_within [of p "[]" rt] assms(1) by (simp add: store_ok_def payload_ok_def)
  then have "frothy_runtime_code_payload_from_view rt prog = Inr (mk_span (sp_offset p) (sp_length p))"
    using assms(2,3) by (auto simp: view_of_def frothy_runtime_code_payload_from_view_def)
  moreover have "mk_span (sp_offset p) (sp_length p) = p" by (simp add: mk_span_def)
  ultimately show ?thesis by (simp add: frothy_runtime_alloc_packed_code_def)
qed

lemma packed_code_ok:
  assumes al: "frothy_runtime_alloc_payload len rt = (Inr p, rt1)" and ok: "runtime_ok e rt"
    and len: "0 < len" "len \<le> SIZE_MAX - 15" and view: "view_of p prog"
    and run: "frothy_runtime_alloc_packed_code prog body arity locals
        (store_bytes (sp_offset p) (replicate (sp_length p) 0) rt1) = (Inr v, rt')"
  shows "runtime_ok (\<lambda>x. e x + refs v x) rt' \<and> objects_kept rt rt' \<and> texts_kept rt rt' \<and>
    frothy_runtime_get_code rt' v = Inr (OBJECT_CODE p arity locals body prog)"
proof -
  note z = zero_block_ok [OF al ok len refl]
  let ?rt2 = "store_bytes (sp_offset p) (replicate (sp_length p) 0) rt1"
  let ?ob = "OBJECT_CODE p arity locals body prog"
  have ap: "frothy_runtime_append_object ?ob ?rt2 = (Inr v, rt')"
    using run packed_code_append [OF z(1) view z(7)] by simp
  have tab: "table_ok ?rt2" using z(1) by (simp add: store_ok_def)
  have new: "ob_payload (new_object ?ob) = [p]" "ob_cells (new_object ?ob) = []" "ob_shape (new_object ?ob)"
    using z(7) by (simp_all add: ob_payload_def ob_cells_def ob_shape_def new_object_def)
  have cnt: "count_ok (\<lambda>x. e x + refs_in (as_outs ?rt2 ?ob) x) None ?rt2" using z(2) by simp
  note a = append_count_ok [OF ap tab cnt]
  have "store_ok [] [] rt'" by (rule append_store_ok [OF ap z(1) new(3)]) (simp_all add: new)
  moreover have "quiet rt'" by (rule append_quiet [OF ap z(3)])
  moreover have "objects_kept rt rt'"
    by (rule objects_kept_trans [OF z(4) append_objects_kept [OF ap tab cnt]])
  moreover have "texts_kept rt rt'" by (rule texts_kept_trans [OF z(5) append_texts_kept [OF ap tab]])
  moreover have "frothy_runtime_get_code rt' v = Inr ?ob"
  proof -
    obtain i where "v = frothy_object_value i" "i < length (rt_objects rt')"
      "ob_live (rt_objects rt' ! i)" "ob_as (rt_objects rt' ! i) = ?ob" "i < 2 ^ 30"
      using a(2) by blast
    moreover from this have "frothy_runtime_get_live_object_id rt' v = Inr i"
      by (simp add: get_live_object_id_Inr)
    ultimately show ?thesis by (simp add: frothy_runtime_get_code_def frothy_runtime_get_object_def)
  qed
  ultimately show ?thesis using a(1) by (simp add: runtime_ok_def)
qed

lemma packed_code_fails:
  assumes al: "frothy_runtime_alloc_payload len rt = (Inr p, rt1)" and ok: "runtime_ok e rt"
    and len: "0 < len" "len \<le> SIZE_MAX - 15" and view: "view_of p prog"
    and run: "frothy_runtime_alloc_packed_code prog body arity locals
        (store_bytes (sp_offset p) (replicate (sp_length p) 0) rt1) = (Inl err, rt3)"
  shows "err = FROTH_ERROR_HEAP_OUT_OF_MEMORY \<and>
    runtime_ok e (frothy_runtime_release_payload p rt3) \<and>
    objects_kept rt (frothy_runtime_release_payload p rt3) \<and>
    texts_kept rt (frothy_runtime_release_payload p rt3)"
proof -
  note z = zero_block_ok [OF al ok len refl]
  let ?rt2 = "store_bytes (sp_offset p) (replicate (sp_length p) 0) rt1"
  have ap: "frothy_runtime_append_object (OBJECT_CODE p arity locals body prog) ?rt2 = (Inl err, rt3)"
    using run packed_code_append [OF z(1) view z(7)] by simp
  have rt3: "rt3 = ?rt2 \<or> rt3 = ?rt2\<lparr>rt_test_fail_next_append := False\<rparr>"
    and err: "err = FROTH_ERROR_HEAP_OUT_OF_MEMORY" using append_object_Inl [OF ap] by simp_all
  have st3: "store_ok [p] [] rt3" and cnt3: "count_ok e None rt3" and objs: "rt_objects rt3 = rt_objects rt"
    and kept: "texts_kept rt rt3"
    using rt3 z by (auto simp: texts_kept_def)
  have outs3: "outs rt3 j = outs rt j" if "j < length (rt_objects rt)" for j
  proof -
    have "as_outs rt3 ob = as_outs ?rt2 ob" for ob
      by (rule as_outs_same_memory) (use rt3 in auto)
    then have "outs rt3 j = outs ?rt2 j" using objs z(8) by (simp add: outs_def)
    also have "\<dots> = outs rt j"
      using alloc_store_ok(7) [OF _ runtime_okD(1,2) [OF ok], of "sp_length p" p rt1
        "replicate (sp_length p) 0" j] al alloc_payload_units [OF len(2)] that
        payload_units_pos [OF len(1)] payload_units_idem [OF len(2)]
      by (simp add: alloc_payload_length [OF al len(2)])
    finally show ?thesis .
  qed
  let ?rt4 = "frothy_runtime_release_payload p rt3"
  have "objects_kept rt ?rt4"
  proof (rule objects_kept_same)
    show "rt_objects ?rt4 = rt_objects rt" using objs by (simp add: frame_simps)
    have "as_outs ?rt4 ob = as_outs rt3 ob" for ob
      by (rule as_outs_same_memory) (simp_all add: frame_simps)
    then show "outs ?rt4 j = outs rt j" if "j < length (rt_objects rt)" for j
      using outs3 [OF that] by (simp add: outs_def frame_simps)
  qed
  moreover have "quiet ?rt4" using runtime_okD(3) [OF ok] objs by (simp add: quiet_def frame_simps)
  ultimately show ?thesis
    using err payload_rollback_store [OF st3] count_ok_release_payload [OF cnt3]
      texts_kept_trans [OF kept texts_kept_release_payload]
    by (simp add: runtime_ok_def)
qed

subsection \<open>Code objects\<close>

lemma read_header_written:
  assumes "fits a" "fits b" "fits c" "fits d" "fits e" "fits f" "fits g" "fits h"
  shows "read_code_header (concat (map size_bytes [a, b, c, d, e, f, g, h]) @ r) =
    Inr (a, b, c, d, e, f, g, h, r)"
  using assms by (simp add: read_code_header_def wire_simps)

lemma read_header_Inr:
  assumes "read_code_header r = Inr (a, b, c, d, e, f, g, h, r')"
  shows "fits a" "fits b" "fits c" "fits d" "fits e" "fits f" "fits g" "fits h"
  using assms by (auto simp: read_code_header_def FROTH_TRY_Inr_iff read_two_Inr read_three_Inr)

lemma fits_word: "fits n \<Longrightarrow> \<exists>c :: 32 word. n = unat c"
  using fits_unat by metis

lemma packed_view_lengths:
  "frothy_ir_program_init_packed_view base sz l n k = Inr (q, c) \<Longrightarrow>
   length (ir_literals q) = l \<and> length (ir_nodes q) = n \<and> length (ir_links q) = k"
  by (auto simp: frothy_ir_program_init_packed_view_def FROTH_TRY_Inr_iff Let_def
      frothy_ir_program_init_def split: if_splits)

lemma decode_fail_release [simp]:
  "decode_fail p err rt = (Inl err, frothy_runtime_release_payload p rt)"
  by (simp add: decode_fail_def frothy_runtime_release_payload_def)

lemma node_strings_nul_free:
  assumes "node_valid c nd" "node_writable s nd" "t \<in> set (node_strings nd)"
  shows "0 \<notin> set t"
  using assms simple_name_nonzero by (cases nd) (auto simp: node_writable_def in_table_def)

lemma program_valid_wf:
  assumes "program_valid s p" "program_writable s p"
  shows "ir_program_wf p"
  using assms node_strings_nul_free [of "program_counts_of s p" _ s]
  by (auto simp: program_valid_def program_writable_def ir_program_wf_def list_all_iff
      literal_valid_def)

lemma program_size:
  assumes "ir_program_wf p" "frothy_ir_program_clone_packed_size p = Inr n" "ir_nodes p \<noteq> []"
  shows "program_strings p \<le> SIZE_MAX" "0 < n" "n \<le> SIZE_MAX"
    "frothy_ir_program_packed_size (length (ir_literals p)) (length (ir_nodes p))
       (length (ir_links p)) (program_strings p) = Inr n"
    "n = packed_arrays_size (length (ir_literals p)) (length (ir_nodes p)) (length (ir_links p)) +
       program_strings p"
proof -
  obtain b where b: "frothy_ir_program_string_bytes p = Inr b"
    "frothy_ir_program_packed_size (length (ir_literals p)) (length (ir_nodes p))
       (length (ir_links p)) b = Inr n"
    using assms(2) by (auto simp: frothy_ir_program_clone_packed_size_def FROTH_TRY_Inr_iff)
  have "b = program_strings p" using string_bytes_Inr [OF b(1)] by (simp add: program_strings_def)
  with b(2) show "frothy_ir_program_packed_size (length (ir_literals p)) (length (ir_nodes p))
       (length (ir_links p)) (program_strings p) = Inr n" by simp
  then have n: "n = packed_arrays_size (length (ir_literals p)) (length (ir_nodes p))
       (length (ir_links p)) + program_strings p"
    and le: "packed_arrays_size (length (ir_literals p)) (length (ir_nodes p)) (length (ir_links p))
       \<le> SIZE_MAX - program_strings p"
    unfolding packed_size_eq [OF ir_program_wf_counts [OF assms(1)]] by (auto simp: add_size_Inr)
  show "n = packed_arrays_size (length (ir_literals p)) (length (ir_nodes p))
       (length (ir_links p)) + program_strings p" by (rule n)
  have "0 < packed_arrays_size (length (ir_literals p)) (length (ir_nodes p)) (length (ir_links p))"
    using assms(3) by (simp add: packed_arrays_size_def SIZEOF_IR_NODE_def)
  then show "program_strings p \<le> SIZE_MAX" "0 < n" "n \<le> SIZE_MAX" using n le by linarith+
qed

lemma capacities_packed:
  assumes "l \<le> FROTHY_IR_LITERAL_CAPACITY" "n \<le> FROTHY_IR_NODE_CAPACITY"
    "k \<le> FROTHY_IR_LINK_CAPACITY"
  shows "packed_counts_ok l n k"
  using assms by (simp add: packed_counts_ok_def packed_arrays_size_def
      FROTHY_IR_LITERAL_CAPACITY_def FROTHY_IR_NODE_CAPACITY_def FROTHY_IR_LINK_CAPACITY_def
      SIZEOF_IR_LITERAL_def SIZEOF_IR_NODE_def SIZEOF_IR_NODE_ID_def)

text \<open>Decoding after the header: the block is sized by the measuring pass.\<close>

lemma decode_code_block_eq:
  assumes caps: "l \<le> FROTHY_IR_LITERAL_CAPACITY" "n \<le> FROTHY_IR_NODE_CAPACITY"
      "k \<le> FROTHY_IR_LINK_CAPACITY"
    and meas: "frothy_snapshot_measure_code_object names l n k r = Inr m"
    and size: "packed_arrays_size l n k + m \<le> SIZE_MAX"
    and al: "frothy_runtime_alloc_payload (packed_arrays_size l n k + m) rt = (Inr p, rt1)"
    and len: "packed_arrays_size l n k + m \<le> sp_length p"
    and dec: "\<And>q e cursor. length (ir_literals q) = l \<Longrightarrow> length (ir_nodes q) = n \<Longrightarrow>
       length (ir_links q) = k \<Longrightarrow> cursor + m \<le> e \<Longrightarrow>
       decode_program_body names q e cursor r = Inr (with_arrays ls ns ks q, r')"
  shows "\<exists>prog. view_of p prog \<and> ir_root prog = root \<and> ir_root_local_count prog = root_locals \<and>
    ir_literals prog = ls \<and> ir_nodes prog = ns \<and> ir_links prog = ks \<and>
    decode_code_block names (arity, locals, body, root, root_locals, l, n, k, r) rt =
      (case frothy_runtime_alloc_packed_code prog body arity locals
           (store_bytes (sp_offset p) (replicate (sp_length p) 0) rt1) of
         (Inl err, rt) \<Rightarrow> (Inl err, frothy_runtime_release_payload p rt)
       | (Inr v, rt) \<Rightarrow> (Inr (v, r'), rt))"
proof -
  have counts: "packed_counts_ok l n k" by (rule capacities_packed [OF caps])
  have "packed_arrays_size l n k \<le> sp_length p" using len by simp
  from init_packed_view_eq [OF counts this, of "sp_offset p"] obtain q where
    q: "frothy_ir_program_init_packed_view (sp_offset p) (sp_length p) l n k =
          Inr (q, packed_arrays_size l n k)" and view: "view_of p q"
    unfolding view_of_def by blast
  let ?q = "q\<lparr>ir_root := root, ir_root_local_count := root_locals\<rparr>"
  have "decode_program_body names ?q (sp_length p) (packed_arrays_size l n k) r =
      Inr (with_arrays ls ns ks ?q, r')"
    using packed_view_lengths [OF q] len by (intro dec) simp_all
  moreover have "frothy_ir_program_packed_size l n k m = Inr (packed_arrays_size l n k + m)"
    using size by (auto simp: packed_size_eq [OF counts] add_size_Inr)
  ultimately show ?thesis
    using view q meas al caps
    by (intro exI [of _ "with_arrays ls ns ks ?q"])
       (simp add: decode_code_block_def fill_code_block_def view_of_def cong: prod.case_cong
         split: prod.splits sum.splits)
qed

lemma program_valid_caps:
  assumes "program_valid s p"
  shows "length (ir_literals p) \<le> FROTHY_IR_LITERAL_CAPACITY"
    "length (ir_nodes p) \<le> FROTHY_IR_NODE_CAPACITY" "length (ir_links p) \<le> FROTHY_IR_LINK_CAPACITY"
    "ir_root p < length (ir_nodes p)" "fits (ir_root_local_count p)"
  using assms by (simp_all add: program_valid_def)

lemma code_object_written:
  assumes v: "program_valid s p" "program_writable s p"
    and sig: "arity \<le> locals" "fits locals" "body < length (ir_nodes p)"
    and put: "frothy_snapshot_write_code_object s (OBJECT_CODE payload arity locals body p) w = Inr w'"
  shows "\<exists>h bs. wr_data w' = wr_data w @ h @ bs \<and>
    (\<forall>r. read_code_header (h @ r) = Inr (arity, locals, body, ir_root p, ir_root_local_count p,
      length (ir_literals p), length (ir_nodes p), length (ir_links p), r)) \<and>
    (\<forall>rest. validate_program_body (program_counts_of s p) (bs @ rest) = Inr rest \<and>
      (program_strings p \<le> SIZE_MAX \<longrightarrow>
         frothy_snapshot_measure_code_object (sy_items s) (length (ir_literals p))
           (length (ir_nodes p)) (length (ir_links p)) (bs @ rest) = Inr (program_strings p)) \<and>
      (\<forall>q e cursor. length (ir_literals q) = length (ir_literals p) \<longrightarrow>
         length (ir_nodes q) = length (ir_nodes p) \<longrightarrow> length (ir_links q) = length (ir_links p) \<longrightarrow>
         cursor + program_strings p \<le> e \<longrightarrow>
         decode_program_body (sy_items s) q e cursor (bs @ rest) =
           Inr (with_arrays (ir_literals p) (ir_nodes p) (ir_links p) q, rest)))"
proof -
  let ?sizes = "[arity, locals, body, ir_root p, ir_root_local_count p, length (ir_literals p),
    length (ir_nodes p), length (ir_links p)]"
  have root: "ir_root p < length (ir_nodes p)" "fits (ir_root_local_count p)"
    using v(1) by (simp_all add: program_valid_def)
  have fit: "fits arity" "fits body" "fits (ir_root p)" "fits (length (ir_literals p))"
    "fits (length (ir_nodes p))" "fits (length (ir_links p))"
    using sig root capacities_fit program_valid_caps [OF v(1)] index_fits [of _ "length (ir_nodes p)"]
    by auto
  obtain w1 where w1: "write_sizes ?sizes w = Inr w1" "write_program_body s p w1 = Inr w'"
    using put by (auto simp: frothy_snapshot_write_code_object_def FROTH_TRY_Inr_iff)
  then have h: "w1 = writer_append (concat (map size_bytes ?sizes)) w" using write_sizes_Inr by metis
  from body_written [OF v w1(2)] obtain bs where bs: "w' = writer_append bs w1"
    and rest: "\<forall>rest. validate_program_body (program_counts_of s p) (bs @ rest) = Inr rest \<and>
      (program_strings p \<le> SIZE_MAX \<longrightarrow>
         frothy_snapshot_measure_code_object (sy_items s) (length (ir_literals p))
           (length (ir_nodes p)) (length (ir_links p)) (bs @ rest) = Inr (program_strings p)) \<and>
      (\<forall>q e cursor. length (ir_literals q) = length (ir_literals p) \<longrightarrow>
         length (ir_nodes q) = length (ir_nodes p) \<longrightarrow> length (ir_links q) = length (ir_links p) \<longrightarrow>
         cursor + program_strings p \<le> e \<longrightarrow>
         decode_program_body (sy_items s) q e cursor (bs @ rest) =
           Inr (with_arrays (ir_literals p) (ir_nodes p) (ir_links p) q, rest))"
    by blast
  have "wr_data w' = wr_data w @ concat (map size_bytes ?sizes) @ bs" using h bs by simp
  moreover note read_header_written [OF fit(1) sig(2) fit(2,3) root(2) fit(4-6)]
  ultimately show ?thesis using rest by blast
qed

text \<open>The measured size of a well-formed program is the size of its clone, so the decoder asks for the
same block and creates the same object.\<close>

lemma decode_measured_program:
  assumes wf: "ir_program_wf p" "ir_nodes p \<noteq> []"
    and caps: "length (ir_literals p) \<le> FROTHY_IR_LITERAL_CAPACITY"
      "length (ir_nodes p) \<le> FROTHY_IR_NODE_CAPACITY" "length (ir_links p) \<le> FROTHY_IR_LINK_CAPACITY"
    and size: "frothy_ir_program_clone_packed_size p = Inr n"
    and meas: "frothy_snapshot_measure_code_object names (length (ir_literals p))
        (length (ir_nodes p)) (length (ir_links p)) r = Inr (program_strings p)"
    and dec: "\<And>q e cursor. length (ir_literals q) = length (ir_literals p) \<Longrightarrow>
       length (ir_nodes q) = length (ir_nodes p) \<Longrightarrow> length (ir_links q) = length (ir_links p) \<Longrightarrow>
       cursor + program_strings p \<le> e \<Longrightarrow> decode_program_body names q e cursor r =
         Inr (with_arrays (ir_literals p) (ir_nodes p) (ir_links p) q, r')"
  shows "decode_code_block names (arity, locals, body, ir_root p, ir_root_local_count p,
      length (ir_literals p), length (ir_nodes p), length (ir_links p), r) rt =
    (case frothy_runtime_alloc_code p body arity locals rt of
       (Inl err, rt') \<Rightarrow> (Inl err, rt')
     | (Inr v, rt') \<Rightarrow> (Inr (v, r'), rt'))"
proof (cases "frothy_runtime_alloc_payload n rt")
  case (Pair m rt1)
  let ?L = "length (ir_literals p)" and ?N = "length (ir_nodes p)" and ?K = "length (ir_links p)"
  note sz = program_size [OF wf(1) size wf(2)]
  show ?thesis
  proof (cases m)
    case (Inl err)
    then show ?thesis using Pair size meas sz caps
      by (simp add: decode_code_block_def frothy_runtime_alloc_code_def)
  next
    case (Inr pl)
    have len: "n \<le> sp_length pl"
      using alloc_payload_length [OF Pair [unfolded Inr] alloc_payload_bound [OF Pair [unfolded Inr] sz(3)]]
        payload_units_ge [of n] by simp
    have n: "packed_arrays_size ?L ?N ?K + program_strings p \<le> SIZE_MAX"
      "frothy_runtime_alloc_payload (packed_arrays_size ?L ?N ?K + program_strings p) rt = (Inr pl, rt1)"
      "packed_arrays_size ?L ?N ?K + program_strings p \<le> sp_length pl"
      using Pair Inr sz(3) len unfolding sz(5) by simp_all
    from decode_code_block_eq [OF caps meas n dec, of "ir_root p" "ir_root_local_count p" arity
        locals body]
    obtain prog where view: "view_of pl prog" "ir_root prog = ir_root p"
      "ir_root_local_count prog = ir_root_local_count p" "ir_literals prog = ir_literals p"
      "ir_nodes prog = ir_nodes p" "ir_links prog = ir_links p"
      and eq: "decode_code_block names
        (arity, locals, body, ir_root p, ir_root_local_count p, ?L, ?N, ?K, r) rt =
        (case frothy_runtime_alloc_packed_code prog body arity locals
           (store_bytes (sp_offset pl) (replicate (sp_length pl) 0) rt1) of
           (Inl err, rt) \<Rightarrow> (Inl err, frothy_runtime_release_payload pl rt)
         | (Inr v, rt) \<Rightarrow> (Inr (v, r'), rt))"
      by blast
    have "prog = p\<lparr>ir_storage_kind := STORAGE_VIEW, ir_storage_base := sp_offset pl,
        ir_storage_size := sp_length pl\<rparr>" using view by (simp add: view_of_def)
    then show ?thesis
      using eq Pair Inr size clone_packed_spec [OF wf(1) size len, of "sp_offset pl"]
      by (simp add: frothy_runtime_alloc_code_def split: prod.splits sum.splits)
  qed
qed

text \<open>C3. Saving and restoring a function is creating it again: the bytes the encoder writes for a
well-formed code object are accepted by the validator, and decoding them has exactly the effect on
the runtime, on success and on every failure, of creating a code object from the original program;
the bytes that follow are left to be read.\<close>

theorem code_object_roundtrip:
  assumes v: "program_valid s p" "program_writable s p"
    and sig: "arity \<le> locals" "fits locals" "body < length (ir_nodes p)"
    and size: "frothy_ir_program_clone_packed_size p = Inr n"
    and put: "frothy_snapshot_write_code_object s (OBJECT_CODE payload arity locals body p) w = Inr w'"
  shows "\<exists>bs. wr_data w' = wr_data w @ bs \<and> (\<forall>rest rt.
    frothy_snapshot_validate_code_object (length (sy_items s)) (bs @ rest) = Inr rest \<and>
    frothy_snapshot_decode_code_object (sy_items s) (bs @ rest) rt =
      (case frothy_runtime_alloc_code p body arity locals rt of
         (Inl err, rt') \<Rightarrow> (Inl err, rt')
       | (Inr v, rt') \<Rightarrow> (Inr (v, rest), rt')))"
proof -
  obtain h bs where w': "wr_data w' = wr_data w @ h @ bs"
    and hd: "\<And>r. read_code_header (h @ r) = Inr (arity, locals, body, ir_root p,
      ir_root_local_count p, length (ir_literals p), length (ir_nodes p), length (ir_links p), r)"
    and chk: "\<And>rest. validate_program_body (program_counts_of s p) (bs @ rest) = Inr rest"
    and meas: "program_strings p \<le> SIZE_MAX \<Longrightarrow> frothy_snapshot_measure_code_object (sy_items s)
       (length (ir_literals p)) (length (ir_nodes p)) (length (ir_links p)) (bs @ rest) =
       Inr (program_strings p)"
    and dec: "\<And>rest q e cursor. length (ir_literals q) = length (ir_literals p) \<Longrightarrow>
       length (ir_nodes q) = length (ir_nodes p) \<Longrightarrow> length (ir_links q) = length (ir_links p) \<Longrightarrow>
       cursor + program_strings p \<le> e \<Longrightarrow>
       decode_program_body (sy_items s) q e cursor (bs @ rest) =
         Inr (with_arrays (ir_literals p) (ir_nodes p) (ir_links p) q, rest)" for rest
    using code_object_written [OF v sig put] by blast
  have wf: "ir_program_wf p" "ir_nodes p \<noteq> []" using program_valid_wf [OF v] sig by auto
  note caps = program_valid_caps [OF v(1)]
  have "program_counts_of s p = \<lparr>pc_symbols = length (sy_items s), pc_literals = length (ir_literals p),
      pc_nodes = length (ir_nodes p), pc_links = length (ir_links p)\<rparr>"
    using caps by (simp add: wire_counts_def capacities_fit)
  then have val: "frothy_snapshot_validate_code_object (length (sy_items s)) (h @ bs @ rest) = Inr rest"
    for rest using hd [of "bs @ rest"] chk [of rest] caps sig
    by (simp add: frothy_snapshot_validate_code_object_def)
  have "decode_code_block (sy_items s) (arity, locals, body, ir_root p, ir_root_local_count p,
      length (ir_literals p), length (ir_nodes p), length (ir_links p), bs @ rest) rt =
    (case frothy_runtime_alloc_code p body arity locals rt of
       (Inl err, rt') \<Rightarrow> (Inl err, rt')
     | (Inr v, rt') \<Rightarrow> (Inr (v, rest), rt'))" for rest rt
    by (rule decode_measured_program [OF wf caps(1-3) size meas dec])
       (rule program_size(1) [OF wf(1) size wf(2)])
  then have "frothy_snapshot_decode_code_object (sy_items s) ((h @ bs) @ rest) rt =
      (case frothy_runtime_alloc_code p body arity locals rt of
         (Inl err, rt') \<Rightarrow> (Inl err, rt')
       | (Inr v, rt') \<Rightarrow> (Inr (v, rest), rt'))" for rest rt
    unfolding frothy_snapshot_decode_code_object_def append_assoc hd by simp
  moreover have "frothy_snapshot_validate_code_object (length (sy_items s)) ((h @ bs) @ rest) = Inr rest"
    for rest unfolding append_assoc by (rule val)
  ultimately show ?thesis using w' by blast
qed

definition sample_symbols :: frothy_snapshot_symbol_table where
  "sample_symbols = \<lparr>sy_items = [[97]], sy_capacity = 128\<rparr>"

definition sample_writer :: writer where "sample_writer = \<lparr>wr_data = [], wr_capacity = 200\<rparr>"

definition sample_code :: frothy_object_as where
  "sample_code = OBJECT_CODE (mk_span 0 0) 0 0 3 sample_program"

lemma sample_written:
  "\<not> isl (frothy_snapshot_write_code_object sample_symbols sample_code sample_writer)"
  by (simp add: frothy_snapshot_write_code_object_def sample_code_def write_sizes_def write_size_def
      write_program_body_def sample_program_def frothy_snapshot_write_literal_def
      frothy_snapshot_write_node_def frothy_snapshot_symbol_index_def sample_symbols_def
      sample_writer_def frothy_snapshot_writer_write_u8_def frothy_snapshot_writer_write_u32_def
      frothy_snapshot_writer_write_i32_def frothy_snapshot_writer_write_bytes_def
      frothy_snapshot_writer_has_space_def strlen_def c_string_def)

lemma sample_valid: "program_valid sample_symbols sample_program"
  "program_writable sample_symbols sample_program"
  by (simp_all add: program_valid_def program_writable_def sample_program_def sample_symbols_def
      wire_counts_def literal_valid_def literal_writable_def node_writable_def in_table_def
      symbol_place_def frothy_snapshot_symbol_index_def UINT32_MAX_def
      FROTHY_IR_LITERAL_CAPACITY_def FROTHY_IR_NODE_CAPACITY_def FROTHY_IR_LINK_CAPACITY_def)

theorem code_object_roundtrip_witness:
  "\<exists>w' bs. frothy_snapshot_write_code_object sample_symbols sample_code sample_writer = Inr w' \<and>
     wr_data w' = bs \<and> (\<forall>rest rt.
    frothy_snapshot_validate_code_object 1 (bs @ rest) = Inr rest \<and>
    frothy_snapshot_decode_code_object [[97]] (bs @ rest) rt =
      (case frothy_runtime_alloc_code sample_program 3 0 0 rt of
         (Inl err, rt') \<Rightarrow> (Inl err, rt')
       | (Inr v, rt') \<Rightarrow> (Inr (v, rest), rt')))"
proof -
  obtain w' where w': "frothy_snapshot_write_code_object sample_symbols sample_code sample_writer = Inr w'"
    using sample_written by (cases "frothy_snapshot_write_code_object sample_symbols sample_code sample_writer") auto
  have "3 < length (ir_nodes sample_program)" by (simp add: sample_program_def)
  from code_object_roundtrip [OF sample_valid _ _ this sample_program_size w' [unfolded sample_code_def]]
  show ?thesis using w' by (auto simp: sample_symbols_def sample_writer_def)
qed

text \<open>After the header, a decoder that is given measured counts either finds no memory or creates the
object.\<close>

lemma decode_block_allocates:
  assumes caps: "l \<le> FROTHY_IR_LITERAL_CAPACITY" "n \<le> FROTHY_IR_NODE_CAPACITY"
      "k \<le> FROTHY_IR_LINK_CAPACITY" and pos: "0 < n"
    and meas: "frothy_snapshot_measure_code_object names l n k r = Inr m \<or>
      frothy_snapshot_measure_code_object names l n k r = Inl FROTH_ERROR_HEAP_OUT_OF_MEMORY"
  shows "decode_code_block names (arity, locals, body, root, root_locals, l, n, k, r) rt =
      (Inl FROTH_ERROR_HEAP_OUT_OF_MEMORY, rt) \<or>
    (\<exists>pl rt1. packed_arrays_size l n k + m \<le> SIZE_MAX \<and> 0 < packed_arrays_size l n k + m \<and>
      frothy_snapshot_measure_code_object names l n k r = Inr m \<and>
      frothy_runtime_alloc_payload (packed_arrays_size l n k + m) rt = (Inr pl, rt1))"
proof (cases "frothy_snapshot_measure_code_object names l n k r = Inr m")
  case True
  have counts: "packed_counts_ok l n k" by (rule capacities_packed [OF caps])
  have p0: "0 < packed_arrays_size l n k" using pos by (simp add: packed_arrays_size_def SIZEOF_IR_NODE_def)
  show ?thesis
  proof (cases "frothy_ir_program_packed_size l n k m")
    case (Inl err)
    then have "err = FROTH_ERROR_HEAP_OUT_OF_MEMORY"
      by (auto simp: packed_size_eq [OF counts] frothy_ir_add_size_def split: if_splits)
    then show ?thesis using True Inl caps by (simp add: decode_code_block_def)
  next
    case (Inr sz)
    then have sz: "sz = packed_arrays_size l n k + m" "packed_arrays_size l n k \<le> SIZE_MAX - m"
      by (auto simp: packed_size_eq [OF counts] add_size_Inr)
    obtain a rt1 where a: "frothy_runtime_alloc_payload sz rt = (a, rt1)" by fastforce
    show ?thesis
    proof (cases a)
      case (Inl err)
      then show ?thesis using alloc_payload_error [OF a [unfolded Inl]] True Inr a caps
        by (simp add: decode_code_block_def)
    next
      case (Inr pl)
      then show ?thesis using a True p0 sz by auto
    qed
  qed
next
  case False
  then show ?thesis using meas caps by (simp add: decode_code_block_def)
qed

text \<open>What a decoder of one code object promises.\<close>

definition code_decoded ::
  "frothy_snapshot_symbol_table \<Rightarrow> reader \<Rightarrow> (nat \<Rightarrow> nat) \<Rightarrow> frothy_runtime \<Rightarrow>
   (frothy_value \<times> reader) result \<times> frothy_runtime \<Rightarrow> bool" where
  "code_decoded s r' e rt res \<longleftrightarrow> (case res of
      (Inl err, rt') \<Rightarrow> err = FROTH_ERROR_HEAP_OUT_OF_MEMORY \<and> runtime_ok e rt' \<and>
        objects_kept rt rt' \<and> texts_kept rt rt'
    | (Inr (v, r2), rt') \<Rightarrow> r2 = r' \<and> runtime_ok (\<lambda>x. e x + refs v x) rt' \<and>
        objects_kept rt rt' \<and> texts_kept rt rt' \<and>
        (\<exists>payload arity locals body p.
           frothy_runtime_get_code rt' v = Inr (OBJECT_CODE payload arity locals body p) \<and>
           arity \<le> locals \<and> body < length (ir_nodes p) \<and> program_valid s p))"

lemma decode_validated_program:
  assumes p: "program_valid s p" "arity \<le> locals" "body < length (ir_nodes p)"
    and meas: "frothy_snapshot_measure_code_object (sy_items s) (length (ir_literals p))
        (length (ir_nodes p)) (length (ir_links p)) r = Inr m \<or>
      frothy_snapshot_measure_code_object (sy_items s) (length (ir_literals p))
        (length (ir_nodes p)) (length (ir_links p)) r = Inl FROTH_ERROR_HEAP_OUT_OF_MEMORY"
    and dec: "\<And>q e cursor. length (ir_literals q) = length (ir_literals p) \<Longrightarrow>
       length (ir_nodes q) = length (ir_nodes p) \<Longrightarrow> length (ir_links q) = length (ir_links p) \<Longrightarrow>
       cursor + m \<le> e \<Longrightarrow> decode_program_body (sy_items s) q e cursor r =
         Inr (with_arrays (ir_literals p) (ir_nodes p) (ir_links p) q, r')"
    and ok: "runtime_ok e rt"
  shows "code_decoded s r' e rt (decode_code_block (sy_items s) (arity, locals, body, ir_root p,
      ir_root_local_count p, length (ir_literals p), length (ir_nodes p), length (ir_links p), r) rt)"
    (is "code_decoded s r' e rt ?res")
proof (cases "?res = (Inl FROTH_ERROR_HEAP_OUT_OF_MEMORY, rt)")
  case True
  then show ?thesis using ok by (simp add: code_decoded_def texts_kept_def)
next
  case False
  let ?sz = "packed_arrays_size (length (ir_literals p)) (length (ir_nodes p)) (length (ir_links p)) + m"
  note caps = program_valid_caps [OF p(1)]
  have "0 < length (ir_nodes p)" using p(3) by linarith
  from decode_block_allocates [OF caps(1-3) this meas, of arity locals body "ir_root p"
      "ir_root_local_count p" rt] False
  obtain pl rt1 where 2: "?sz \<le> SIZE_MAX" "0 < ?sz"
    "frothy_snapshot_measure_code_object (sy_items s) (length (ir_literals p))
        (length (ir_nodes p)) (length (ir_links p)) r = Inr m"
    "frothy_runtime_alloc_payload ?sz rt = (Inr pl, rt1)" by (elim disjE exE conjE) (erule (1) notE, rule that)
  note bound = alloc_payload_bound [OF 2(4,1)]
  have len: "?sz \<le> sp_length pl"
    using alloc_payload_length [OF 2(4) bound] payload_units_ge [of ?sz] by simp
  from decode_code_block_eq [OF caps(1-3) 2(3,1,4) len dec, of "ir_root p" "ir_root_local_count p"
      arity locals body]
  obtain prog where view: "view_of pl prog" and pr: "ir_root prog = ir_root p"
    "ir_root_local_count prog = ir_root_local_count p" "ir_literals prog = ir_literals p"
    "ir_nodes prog = ir_nodes p" "ir_links prog = ir_links p"
    and eq: "?res = (case frothy_runtime_alloc_packed_code prog body arity locals
           (store_bytes (sp_offset pl) (replicate (sp_length pl) 0) rt1) of
         (Inl err, rt) \<Rightarrow> (Inl err, frothy_runtime_release_payload pl rt)
       | (Inr v, rt) \<Rightarrow> (Inr (v, r'), rt))"
    by blast
  have valid: "program_valid s prog" "body < length (ir_nodes prog)"
    using p pr by (simp_all add: program_valid_def)
  obtain a rt3 where a: "frothy_runtime_alloc_packed_code prog body arity locals
      (store_bytes (sp_offset pl) (replicate (sp_length pl) 0) rt1) = (a, rt3)" by fastforce
  show ?thesis
    using packed_code_fails [OF 2(4) ok 2(2) bound view, of body arity locals _ rt3]
      packed_code_ok [OF 2(4) ok 2(2) bound view, of body arity locals _ rt3] eq a valid p(2)
    by (cases a) (auto simp: code_decoded_def)
qed

lemma code_object_decoded:
  assumes val: "frothy_snapshot_validate_code_object (length (sy_items s)) r = Inr r'"
    and ok: "runtime_ok e rt"
  shows "code_decoded s r' e rt (frothy_snapshot_decode_code_object (sy_items s) r rt)"
proof -
  obtain arity locals body root root_locals l n k r1 where
    hd: "read_code_header r = Inr (arity, locals, body, root, root_locals, l, n, k, r1)"
    and sig: "arity \<le> locals" "body < n" "root < n"
    and caps: "l \<le> FROTHY_IR_LITERAL_CAPACITY" "n \<le> FROTHY_IR_NODE_CAPACITY" "k \<le> FROTHY_IR_LINK_CAPACITY"
    and bd: "validate_program_body \<lparr>pc_symbols = length (sy_items s), pc_literals = l, pc_nodes = n,
       pc_links = k\<rparr> r1 = Inr r'"
    using val by (auto simp: frothy_snapshot_validate_code_object_def FROTH_TRY_Inr_iff split: if_splits)
  note fit = read_header_Inr [OF hd]
  obtain L N K :: "32 word" where w: "l = unat L" "n = unat N" "k = unat K"
    using fits_word fit(6-8) by blast
  obtain p m where p: "length (ir_literals p) = l" "length (ir_nodes p) = n" "length (ir_links p) = k"
    "list_all literal_valid (ir_literals p)" "list_all (node_valid (program_counts_of s p)) (ir_nodes p)"
    "list_all (\<lambda>i. i < length (ir_nodes p)) (ir_links p)"
    and meas: "frothy_snapshot_measure_code_object (sy_items s) l n k r1 = Inr m \<or>
      frothy_snapshot_measure_code_object (sy_items s) l n k r1 = Inl FROTH_ERROR_HEAP_OUT_OF_MEMORY"
    and dec: "\<And>q e cursor. length (ir_literals q) = l \<Longrightarrow> length (ir_nodes q) = n \<Longrightarrow>
       length (ir_links q) = k \<Longrightarrow> cursor + m \<le> e \<Longrightarrow>
       decode_program_body (sy_items s) q e cursor r1 =
         Inr (with_arrays (ir_literals p) (ir_nodes p) (ir_links p) q, r')"
    using body_validated [OF caps [unfolded w], of s r1 r'] bd
    unfolding wire_counts_def w by blast
  let ?p = "p\<lparr>ir_root := root, ir_root_local_count := root_locals\<rparr>"
  have valid: "program_valid s ?p" using p caps sig(3) fit(5) by (simp add: program_valid_def)
  have "code_decoded s r' e rt (decode_code_block (sy_items s) (arity, locals, body, root,
      root_locals, l, n, k, r1) rt)"
    using decode_validated_program [OF valid sig(1) _ _ _ ok, of body r1 m r'] sig(2) meas dec p(1-3)
    by simp
  then show ?thesis using hd by (simp add: frothy_snapshot_decode_code_object_def)
qed

text \<open>C2. What the validator accepts can be restored safely: decoding an accepted code object either
runs out of memory, leaving the runtime as consistent as it was and every object in place, or
consumes exactly the bytes the validator checked and yields a code object the caller owns, all of
whose literal, node, link and name references are in range. No string of the object is ever copied
past the end of its block.\<close>

theorem code_object_validated:
  assumes val: "frothy_snapshot_validate_code_object (length (sy_items s)) r = Inr r'"
    and ok: "runtime_ok e rt"
  shows "case frothy_snapshot_decode_code_object (sy_items s) r rt of
      (Inl err, rt') \<Rightarrow> err = FROTH_ERROR_HEAP_OUT_OF_MEMORY \<and> runtime_ok e rt' \<and>
        objects_kept rt rt' \<and> texts_kept rt rt'
    | (Inr (v, r2), rt') \<Rightarrow> r2 = r' \<and> runtime_ok (\<lambda>x. e x + refs v x) rt' \<and>
        objects_kept rt rt' \<and> texts_kept rt rt' \<and>
        (\<exists>payload arity locals body p.
           frothy_runtime_get_code rt' v = Inr (OBJECT_CODE payload arity locals body p) \<and>
           arity \<le> locals \<and> body < length (ir_nodes p) \<and> program_valid s p)"
  using code_object_decoded [OF assms] unfolding code_decoded_def .

definition sample_code_bytes :: "byte list" where
  "sample_code_bytes = concat (map size_bytes [0, 0, 0, 0, 0, 1, 1, 0]) @ 2 # 0 # size_bytes 0"

lemma sample_code_bytes_valid:
  "frothy_snapshot_validate_code_object (length (sy_items sample_symbols)) sample_code_bytes = Inr []"
proof -
  have fit: "fits 0" "fits 1" by (simp_all add: UINT32_MAX_def)
  have "frothy_snapshot_validate_literal (2 # r) = Inr r" for r
    by (simp add: frothy_snapshot_validate_literal_def wire_simps kind_of_byte_def literal_kinds_def)
  moreover have "validate_node c (0 # size_bytes 0 @ r) = Inr r" if "0 < pc_literals c" for c r
    using that by (simp add: validate_node_def wire_simps kind_of_byte_def node_kinds_def)
  from this [of _ "[]"] have "validate_node c (0 # size_bytes 0) = Inr []" if "0 < pc_literals c" for c
    using that by simp
  ultimately show ?thesis
    using read_header_written [OF fit(1) fit(1) fit(1) fit(1) fit(1) fit(2) fit(2) fit(1)]
    unfolding frothy_snapshot_validate_code_object_def sample_code_bytes_def
    by (simp del: concat.simps list.map add: validate_program_body_def FROTHY_IR_LITERAL_CAPACITY_def
        FROTHY_IR_NODE_CAPACITY_def)
qed

theorem code_object_validated_witness:
  "frothy_snapshot_validate_code_object (length (sy_items sample_symbols)) sample_code_bytes = Inr [] \<and>
   runtime_ok (\<lambda>x. 0) sample_runtime \<and>
   (case frothy_snapshot_decode_code_object (sy_items sample_symbols) sample_code_bytes sample_runtime of
      (Inl err, rt') \<Rightarrow> err = FROTH_ERROR_HEAP_OUT_OF_MEMORY \<and> runtime_ok (\<lambda>x. 0) rt' \<and>
        objects_kept sample_runtime rt' \<and> texts_kept sample_runtime rt'
    | (Inr (v, r2), rt') \<Rightarrow> r2 = [] \<and> runtime_ok (\<lambda>x. 0 + refs v x) rt' \<and>
        objects_kept sample_runtime rt' \<and> texts_kept sample_runtime rt' \<and>
        (\<exists>payload arity locals body p.
           frothy_runtime_get_code rt' v = Inr (OBJECT_CODE payload arity locals body p) \<and>
           arity \<le> locals \<and> body < length (ir_nodes p) \<and> program_valid sample_symbols p))"
  using code_object_validated [OF sample_code_bytes_valid sample_runtime_ok]
    sample_code_bytes_valid sample_runtime_ok by blast

end
