(* ===== verification/Frothy_Codec_Restore.thy ===== *)
theory Frothy_Codec_Restore
  imports Frothy_Codec_Check Frothy_Codec_Program
begin

section \<open>Restoring a payload (frothy_snapshot_codec.c)\<close>

text \<open>
  The decoder rebuilds the objects in the order of the payload, then the bindings. While it runs,
  the array of decoded objects holds one reference to each of them (the anchors); the anchors are
  given back at the end, on success and on failure alike, so that what stays alive is what the
  slots bind.
\<close>

subsection \<open>Values\<close>

definition frothy_snapshot_decode_value ::
  "frothy_value list \<Rightarrow> bool \<Rightarrow> reader \<Rightarrow> frothy_runtime \<Rightarrow>
   (frothy_value \<times> reader) result \<times> frothy_runtime" where
  "frothy_snapshot_decode_value objs retain_object r rt =
     (case frothy_snapshot_reader_read_u8 r of
        Inl e \<Rightarrow> (Inl e, rt)
      | Inr (tag, r) \<Rightarrow>
          (case kind_of_byte value_tags tag of
             None \<Rightarrow> (Inl FROTH_ERROR_SNAPSHOT_FORMAT, rt)
           | Some SNAPSHOT_VALUE_NIL \<Rightarrow> (Inr (frothy_value_make_nil, r), rt)
           | Some SNAPSHOT_VALUE_FALSE \<Rightarrow> (Inr (frothy_value_make_bool False, r), rt)
           | Some SNAPSHOT_VALUE_TRUE \<Rightarrow> (Inr (frothy_value_make_bool True, r), rt)
           | Some SNAPSHOT_VALUE_INT \<Rightarrow>
               (FROTH_TRY (frothy_snapshot_reader_read_i32 r) (\<lambda>(i, r).
                FROTH_TRY (frothy_value_make_int i) (\<lambda>v. Inr (v, r))), rt)
           | Some SNAPSHOT_VALUE_OBJECT \<Rightarrow>
               (case read_size r of
                  Inl e \<Rightarrow> (Inl e, rt)
                | Inr (i, r) \<Rightarrow>
                    if length objs \<le> i then (Inl FROTH_ERROR_SNAPSHOT_FORMAT, rt)
                    else if retain_object
                    then (case frothy_value_retain (objs ! i) rt of
                            (Inl e, rt) \<Rightarrow> (Inl e, rt)
                          | (Inr u, rt) \<Rightarrow> (Inr (objs ! i, r), rt))
                    else (Inr (objs ! i, r), rt))))"

subsection \<open>Objects\<close>

fun decode_cells ::
  "frothy_value list \<Rightarrow> nat \<Rightarrow> nat \<Rightarrow> reader \<Rightarrow> frothy_runtime \<Rightarrow> reader result \<times> frothy_runtime"
where
  "decode_cells objs index 0 r rt = (Inr r, rt)"
| "decode_cells objs index (Suc n) r rt =
     (case frothy_snapshot_decode_value objs True r rt of
        (Inl e, rt) \<Rightarrow> (Inl e, rt)
      | (Inr (v, r), rt) \<Rightarrow>
          decode_cells objs (Suc index) n r (set_cell index (frothy_value_to_cell v) rt))"

fun decode_fields ::
  "frothy_value list \<Rightarrow> nat \<Rightarrow> reader \<Rightarrow> frothy_runtime \<Rightarrow>
   (frothy_value list \<times> reader) result \<times> frothy_runtime" where
  "decode_fields objs 0 r rt = (Inr ([], r), rt)"
| "decode_fields objs (Suc n) r rt =
     (case frothy_snapshot_decode_value objs False r rt of
        (Inl e, rt) \<Rightarrow> (Inl e, rt)
      | (Inr (v, r), rt) \<Rightarrow>
          (case decode_fields objs n r rt of
             (Inl e, rt) \<Rightarrow> (Inl e, rt)
           | (Inr (vs, r), rt) \<Rightarrow> (Inr (v # vs, r), rt)))"

fun read_field_names :: "nat \<Rightarrow> reader \<Rightarrow> (byte list list \<times> reader) result" where
  "read_field_names 0 r = Inr ([], r)"
| "read_field_names (Suc n) r =
     FROTH_TRY (frothy_snapshot_read_string_bytes r) (\<lambda>(bs, r).
     FROTH_TRY (read_field_names n r) (\<lambda>(names, r). Inr (bs # names, r)))"

definition frothy_snapshot_decode_record_def_object ::
  "reader \<Rightarrow> frothy_runtime \<Rightarrow> (frothy_value \<times> reader) result \<times> frothy_runtime" where
  "frothy_snapshot_decode_record_def_object r rt =
     (case FROTH_TRY (read_size r) (\<lambda>(field_count, r).
           if field_count = 0 \<or> FROTHY_IR_LINK_CAPACITY < field_count
           then Inl FROTH_ERROR_SNAPSHOT_FORMAT
           else
             FROTH_TRY (frothy_snapshot_read_string_bytes r) (\<lambda>(name, r).
             FROTH_TRY (read_field_names field_count r) (\<lambda>(fs, r). Inr (name, fs, r)))) of
        Inl e \<Rightarrow> (Inl e, rt)
      | Inr (name, fs, r) \<Rightarrow>
          (case frothy_runtime_alloc_record_def name fs rt of
             (Inl e, rt) \<Rightarrow> (Inl e, rt)
           | (Inr v, rt) \<Rightarrow> (Inr (v, r), rt)))"

text \<open>An operation that yields the object of entry \<open>i\<close>: the entry is set when it succeeds.\<close>

type_synonym decoding = "reader result \<times> frothy_value list \<times> frothy_runtime"

definition anchor ::
  "nat \<Rightarrow> frothy_value list \<Rightarrow> (frothy_value \<times> reader) result \<times> frothy_runtime \<Rightarrow> decoding" where
  "anchor i objs m =
     (case m of
        (Inl e, rt) \<Rightarrow> (Inl e, objs, rt)
      | (Inr (v, r), rt) \<Rightarrow> (Inr r, objs[i := v], rt))"

definition decode_text ::
  "reader \<Rightarrow> frothy_runtime \<Rightarrow> (frothy_value \<times> reader) result \<times> frothy_runtime" where
  "decode_text r rt =
     (case FROTH_TRY (read_size r) (\<lambda>(n, r). frothy_snapshot_reader_read_bytes n r) of
        Inl e \<Rightarrow> (Inl e, rt)
      | Inr (bs, r) \<Rightarrow>
          (case frothy_runtime_alloc_text bs rt of
             (Inl e, rt) \<Rightarrow> (Inl e, rt)
           | (Inr v, rt) \<Rightarrow> (Inr (v, r), rt)))"

definition decode_cells_object ::
  "nat \<Rightarrow> frothy_value list \<Rightarrow> reader \<Rightarrow> frothy_runtime \<Rightarrow> decoding" where
  "decode_cells_object i objs r rt =
     (case read_size r of
        Inl e \<Rightarrow> (Inl e, objs, rt)
      | Inr (n, r) \<Rightarrow>
          (case frothy_runtime_alloc_cells n rt of
             (Inl e, rt) \<Rightarrow> (Inl e, objs, rt)
           | (Inr v, rt) \<Rightarrow>
               let objs = objs[i := v]
               in (case frothy_runtime_get_cells rt v of
                     Inl e \<Rightarrow> (Inl e, objs, rt)
                   | Inr (len, base) \<Rightarrow>
                       let (res, rt) = decode_cells objs base n r rt in (res, objs, rt))))"

definition decode_record ::
  "frothy_value list \<Rightarrow> reader \<Rightarrow> frothy_runtime \<Rightarrow>
   (frothy_value \<times> reader) result \<times> frothy_runtime" where
  "decode_record objs r rt =
     (case read_two r of
        Inl e \<Rightarrow> (Inl e, rt)
      | Inr (definition_index, n, r) \<Rightarrow>
          if length objs \<le> definition_index \<or> n = 0 \<or> FROTHY_IR_LINK_CAPACITY < n
          then (Inl FROTH_ERROR_SNAPSHOT_FORMAT, rt)
          else
            (case decode_fields objs n r rt of
               (Inl e, rt) \<Rightarrow> (Inl e, rt)
             | (Inr (vs, r), rt) \<Rightarrow>
                 (case frothy_runtime_alloc_record (objs ! definition_index) vs rt of
                    (Inl e, rt) \<Rightarrow> (Inl e, rt)
                  | (Inr v, rt) \<Rightarrow> (Inr (v, r), rt))))"

definition decode_object ::
  "byte list list \<Rightarrow> nat \<Rightarrow> frothy_value list \<Rightarrow> reader \<Rightarrow> frothy_runtime \<Rightarrow> decoding" where
  "decode_object symbols i objs r rt =
     (case frothy_snapshot_reader_read_u8 r of
        Inl e \<Rightarrow> (Inl e, objs, rt)
      | Inr (b, r) \<Rightarrow>
          (case kind_of_byte object_kinds b of
             Some OBJECT_KIND_TEXT \<Rightarrow> anchor i objs (decode_text r rt)
           | Some OBJECT_KIND_CELLS \<Rightarrow> decode_cells_object i objs r rt
           | Some OBJECT_KIND_CODE \<Rightarrow>
               anchor i objs (frothy_snapshot_decode_code_object symbols r rt)
           | Some OBJECT_KIND_RECORD_DEF \<Rightarrow>
               anchor i objs (frothy_snapshot_decode_record_def_object r rt)
           | Some OBJECT_KIND_RECORD \<Rightarrow> anchor i objs (decode_record objs r rt)
           | _ \<Rightarrow> (Inl FROTH_ERROR_NOT_PERSISTABLE, objs, rt)))"

fun decode_objects_loop ::
  "byte list list \<Rightarrow> nat \<Rightarrow> nat \<Rightarrow> frothy_value list \<Rightarrow> reader \<Rightarrow> frothy_runtime \<Rightarrow> decoding" where
  "decode_objects_loop symbols i 0 objs r rt = (Inr r, objs, rt)"
| "decode_objects_loop symbols i (Suc n) objs r rt =
     (case decode_object symbols i objs r rt of
        (Inl e, objs, rt) \<Rightarrow> (Inl e, objs, rt)
      | (Inr r, objs, rt) \<Rightarrow> decode_objects_loop symbols (Suc i) n objs r rt)"

definition frothy_snapshot_decode_objects ::
  "byte list list \<Rightarrow> nat \<Rightarrow> reader \<Rightarrow> frothy_runtime \<Rightarrow> decoding" where
  "frothy_snapshot_decode_objects symbols object_count r rt =
     decode_objects_loop symbols 0 object_count (replicate object_count frothy_value_make_nil) r rt"

subsection \<open>Bindings\<close>

definition arity_known :: "nat \<Rightarrow> bool" where
  "arity_known arity \<longleftrightarrow> arity < unat FROTH_SLOT_ARITY_UNKNOWN"

definition bind_arity ::
  "frothy_runtime \<Rightarrow> frothy_value \<Rightarrow> nat option \<Rightarrow> nat \<Rightarrow> slot_table \<Rightarrow> unit result \<times> slot_table" where
  "bind_arity rt v record_arity i t =
     (let set = (\<lambda>arity. froth_slot_set_arity i (word_of_nat arity) 1 t);
          code = frothy_runtime_get_code rt v;
          native = frothy_runtime_get_native rt v
      in case code of
           Inr ob \<Rightarrow>
             if arity_known (code_arity ob) then set (code_arity ob) else froth_slot_clear_arity i t
         | Inl e \<Rightarrow>
             (case native of
                Inr ob \<Rightarrow>
                  if arity_known (native_arity ob) then set (native_arity ob)
                  else froth_slot_clear_arity i t
              | Inl e \<Rightarrow>
                  (case record_arity of
                     Some arity \<Rightarrow>
                       if arity_known arity then set arity else froth_slot_clear_arity i t
                   | None \<Rightarrow> froth_slot_clear_arity i t)))"

text \<open>Undo after a failed arity: the old binding and arities, or none.\<close>

definition unbind ::
  "cell option \<Rightarrow> byte \<times> byte \<Rightarrow> nat \<Rightarrow> slot_table \<Rightarrow> slot_table" where
  "unbind old_impl old_arity i t =
     (case old_impl of
        Some impl \<Rightarrow>
          let t = snd (froth_slot_set_impl i impl t)
          in if fst old_arity < FROTH_SLOT_ARITY_UNKNOWN \<and> snd old_arity < FROTH_SLOT_ARITY_UNKNOWN
             then snd (froth_slot_set_arity i (fst old_arity) (snd old_arity) t)
             else snd (froth_slot_clear_arity i t)
      | None \<Rightarrow> snd (froth_slot_clear_binding i t))"

definition rebind_over ::
  "cell option \<Rightarrow> byte \<times> byte \<Rightarrow> frothy_value \<Rightarrow> nat option \<Rightarrow> nat \<Rightarrow> slot_table \<Rightarrow>
   frothy_runtime \<Rightarrow> unit result \<times> slot_table \<times> frothy_runtime" where
  "rebind_over old_impl old_arity v record_arity i t rt =
     (case froth_slot_set_overlay i 1 t of
        (Inl e, t) \<Rightarrow> (Inl e, t, rt)
      | (Inr u, t) \<Rightarrow>
          (case froth_slot_set_impl i (frothy_value_to_cell v) t of
             (Inl e, t) \<Rightarrow> (Inl e, t, rt)
           | (Inr u, t) \<Rightarrow>
               (case bind_arity rt v record_arity i t of
                  (Inl e, t) \<Rightarrow> (Inl e, unbind old_impl old_arity i t, rt)
                | (Inr u, t) \<Rightarrow>
                    (case old_impl of
                       None \<Rightarrow> (Inr (), t, rt)
                     | Some impl \<Rightarrow>
                         let (res, rt) = frothy_value_release (frothy_value_from_cell impl) rt
                         in (res, t, rt)))))"

definition rebind ::
  "frothy_value \<Rightarrow> nat option \<Rightarrow> nat \<Rightarrow> slot_table \<Rightarrow> frothy_runtime \<Rightarrow>
   unit result \<times> slot_table \<times> frothy_runtime" where
  "rebind v record_arity i t rt =
     (case froth_slot_get_arity t i of
        Inl e \<Rightarrow> (Inl e, t, rt)
      | Inr old_arity \<Rightarrow>
          (case froth_slot_get_impl t i of
             Inl e \<Rightarrow>
               if e \<noteq> FROTH_ERROR_UNDEFINED_WORD then (Inl e, t, rt)
               else rebind_over None old_arity v record_arity i t rt
           | Inr impl \<Rightarrow> rebind_over (Some impl) old_arity v record_arity i t rt))"

definition frothy_snapshot_bind_slot_value ::
  "byte list \<Rightarrow> frothy_value \<Rightarrow> name_slots \<Rightarrow> frothy_runtime \<Rightarrow>
   unit result \<times> name_slots \<times> frothy_runtime" where
  "frothy_snapshot_bind_slot_value name v st rt =
     (let record = frothy_runtime_get_record_def rt v;
          record_arity = (case record of Inr (rname, n) \<Rightarrow> Some n | Inl e \<Rightarrow> None)
      in if (case record of Inr (rname, n) \<Rightarrow> rname \<noteq> name | Inl e \<Rightarrow> False)
         then (Inl FROTH_ERROR_SNAPSHOT_BAD_NAME, st, rt)
         else case froth_slot_find_name_or_create_n name st of
             (Inl e, st) \<Rightarrow> (Inl e, st, rt)
           | (Inr i, st) \<Rightarrow>
               let (res, t, rt) = rebind v record_arity i (snd st) rt in (res, (fst st, t), rt))"

fun decode_bindings_loop ::
  "byte list list \<Rightarrow> frothy_value list \<Rightarrow> nat \<Rightarrow> reader \<Rightarrow> name_slots \<Rightarrow> frothy_runtime \<Rightarrow>
   reader result \<times> name_slots \<times> frothy_runtime" where
  "decode_bindings_loop symbols objs 0 r st rt = (Inr r, st, rt)"
| "decode_bindings_loop symbols objs (Suc n) r st rt =
     (case read_size r of
        Inl e \<Rightarrow> (Inl e, st, rt)
      | Inr (s, r) \<Rightarrow>
          if length symbols \<le> s then (Inl FROTH_ERROR_SNAPSHOT_FORMAT, st, rt)
          else
            (case frothy_snapshot_decode_value objs True r rt of
               (Inl e, rt) \<Rightarrow> (Inl e, st, rt)
             | (Inr (v, r), rt) \<Rightarrow>
                 (case frothy_snapshot_bind_slot_value (symbols ! s) v st rt of
                    (Inl e, st, rt) \<Rightarrow> (Inl e, st, snd (frothy_value_release v rt))
                  | (Inr u, st, rt) \<Rightarrow> decode_bindings_loop symbols objs n r st rt)))"

definition frothy_snapshot_decode_bindings ::
  "byte list list \<Rightarrow> frothy_value list \<Rightarrow> nat \<Rightarrow> reader \<Rightarrow> name_slots \<Rightarrow> frothy_runtime \<Rightarrow>
   reader result \<times> name_slots \<times> frothy_runtime" where
  "frothy_snapshot_decode_bindings symbols objs binding_count r st rt =
     decode_bindings_loop symbols objs binding_count r st rt"

subsection \<open>The payload\<close>

definition frothy_snapshot_release_anchors ::
  "frothy_value list \<Rightarrow> frothy_runtime \<Rightarrow> frothy_runtime" where
  "frothy_snapshot_release_anchors = release_ignoring"

definition decode_symbol :: "reader \<Rightarrow> (byte list \<times> reader) result" where
  "decode_symbol r =
     FROTH_TRY (frothy_snapshot_reader_read_u16 r) (\<lambda>(n, r).
     frothy_snapshot_reader_read_bytes (unat n) r)"

definition frothy_snapshot_decode_symbols :: "nat \<Rightarrow> reader \<Rightarrow> (byte list list \<times> reader) result" where
  "frothy_snapshot_decode_symbols = get_list decode_symbol"

definition read_section_count :: "nat \<Rightarrow> reader \<Rightarrow> reader result" where
  "read_section_count expected r =
     FROTH_TRY (read_size r) (\<lambda>(n, r).
     if n \<noteq> expected then Inl FROTH_ERROR_SNAPSHOT_FORMAT else Inr r)"

text \<open>Everything before the objects: an error here returns at once.\<close>

definition decode_prefix ::
  "frothy_snapshot_layout \<Rightarrow> reader \<Rightarrow> (byte list list \<times> reader) result" where
  "decode_prefix ly r =
     FROTH_TRY (frothy_snapshot_reader_read_bytes 4 r) (\<lambda>(magic, r).
     FROTH_TRY (frothy_snapshot_reader_read_u16 r) (\<lambda>(snapshot_version, r).
     FROTH_TRY (frothy_snapshot_reader_read_u16 r) (\<lambda>(ir_version, r).
     FROTH_TRY (read_section_count (ly_symbol_count ly) r) (\<lambda>r.
     FROTH_TRY (frothy_snapshot_decode_symbols (ly_symbol_count ly) r) (\<lambda>(symbols, r).
     FROTH_TRY (read_section_count (ly_object_count ly) r) (\<lambda>r. Inr (symbols, r)))))))"

definition decode_after_objects ::
  "frothy_snapshot_layout \<Rightarrow> froth_error option \<Rightarrow> byte list list \<Rightarrow> frothy_value list \<Rightarrow>
   reader \<Rightarrow> name_slots \<Rightarrow> frothy_runtime \<Rightarrow> unit result \<times> name_slots \<times> frothy_runtime" where
  "decode_after_objects ly test_error symbols objs r st rt =
     (case test_error of
        Some e \<Rightarrow> (Inl e, st, rt)
      | None \<Rightarrow>
          (case read_section_count (ly_binding_count ly) r of
             Inl e \<Rightarrow> (Inl e, st, rt)
           | Inr r \<Rightarrow>
               (case frothy_snapshot_decode_bindings symbols objs (ly_binding_count ly) r st rt of
                  (Inl e, st, rt) \<Rightarrow> (Inl e, st, rt)
                | (Inr r, st, rt) \<Rightarrow> (Inr (), st, rt))))"

text \<open>\<open>test_error\<close> is the error a test injects after the objects; it is consumed by the run.\<close>

definition frothy_snapshot_decode_payload ::
  "byte list \<Rightarrow> frothy_snapshot_layout \<Rightarrow> froth_error option \<Rightarrow> name_slots \<Rightarrow> frothy_runtime \<Rightarrow>
   unit result \<times> name_slots \<times> frothy_runtime" where
  "frothy_snapshot_decode_payload payload ly test_error st rt =
     (case decode_prefix ly payload of
        Inl e \<Rightarrow> (Inl e, st, rt)
      | Inr (symbols, r) \<Rightarrow>
          (case frothy_snapshot_decode_objects symbols (ly_object_count ly) r rt of
             (Inl e, objs, rt) \<Rightarrow> (Inl e, st, frothy_snapshot_release_anchors objs rt)
           | (Inr r, objs, rt) \<Rightarrow>
               (case decode_after_objects ly test_error symbols objs r st rt of
                  (res, st, rt) \<Rightarrow> (res, st, frothy_snapshot_release_anchors objs rt))))"

definition frothy_snapshot_codec_restore_payload ::
  "byte list \<Rightarrow> froth_error option \<Rightarrow> frothy_snapshot_codec_usage \<Rightarrow> name_slots \<Rightarrow>
   frothy_runtime \<Rightarrow> unit result \<times> frothy_snapshot_codec_usage \<times> name_slots \<times> frothy_runtime" where
  "frothy_snapshot_codec_restore_payload payload test_error us st rt =
     (case frothy_snapshot_validate payload of
        Inl e \<Rightarrow> (Inl e, us, st, rt)
      | Inr ly \<Rightarrow>
          let us = frothy_snapshot_workspace_record_usage (length payload) (ly_symbol_count ly)
                (ly_object_count ly) (ly_binding_count ly) us;
              (res, st, rt) = frothy_snapshot_decode_payload payload ly test_error st rt
          in (res, us, st, rt))"

end
