(* ===== verification/Frothy_Sound_Ops.thy ===== *)
theory Frothy_Sound_Ops
  imports Frothy_Sound
begin

section \<open>Every operation on objects is sound\<close>

text \<open>
  The operations the evaluator and the snapshot decoder use, each in the form \<open>yields\<close>: on success
  the caller owns the value, on failure nothing has been taken or lost.
\<close>

subsection \<open>Texts, record definitions, code\<close>

lemma alloc_text_sound:
  assumes "rt_sound e rt"
  shows "yields e rt (frothy_runtime_alloc_text t rt)"
proof (cases "SIZE_MAX - 1 < length t")
  case True
  then show ?thesis using assms by (simp add: frothy_runtime_alloc_text_def)
next
  case False
  then have "frothy_runtime_alloc_text t rt =
      make_object (length t + 1) (\<lambda>p. t @ [0]) (\<lambda>p. OBJECT_TEXT p (length t)) rt"
    by (simp add: frothy_runtime_alloc_text_def make_object_def)
  then show ?thesis
    by (simp only:) (rule make_object_sound [OF assms],
      simp_all add: plain_def ob_shape_def new_object_def)
qed

lemma install_record_def_sound:
  assumes "rt_sound e rt" and "length (record_def_bytes name fs) = sz"
  shows "yields e rt (install_record_def name fs sz rt)"
proof -
  have "install_record_def name fs sz rt =
      make_object sz (\<lambda>p. record_def_bytes name fs) (\<lambda>p. OBJECT_RECORD_DEF p (length fs)) rt"
    by (simp add: install_record_def_def make_object_def)
  moreover have "0 < sz" using assms(2) by (auto simp: record_def_bytes_length)
  ultimately show ?thesis
    by (simp only:) (rule make_object_sound [OF assms(1)],
      use assms(2) in \<open>simp_all add: plain_def ob_shape_def new_object_def\<close>)
qed

lemma alloc_record_def_sound:
  assumes "rt_sound e rt"
  shows "yields e rt (frothy_runtime_alloc_record_def name fs rt)"
proof (cases "length fs = 0 \<or> UINT32_MAX < length fs")
  case True
  then show ?thesis using assms by (simp add: frothy_runtime_alloc_record_def_def)
next
  case False
  show ?thesis
  proof (cases "FROTH_TRY (frothy_add_size 4 (strlen name + 1)) (record_def_size_loop fs)")
    case (Inl err)
    then show ?thesis using False assms by (simp add: frothy_runtime_alloc_record_def_def)
  next
    case (Inr sz)
    then obtain a where a: "frothy_add_size 4 (strlen name + 1) = Inr a" "record_def_size_loop fs a = Inr sz"
      by (auto simp: FROTH_TRY_Inr_iff)
    then have "a = 4 + (strlen name + 1)" by (auto simp: frothy_add_size_def split: if_splits)
    then have "length (record_def_bytes name fs) = sz"
      using record_def_size [OF a(2)] by (simp add: record_def_bytes_length)
    from install_record_def_sound [OF assms this] show ?thesis
      using False Inr by (simp add: frothy_runtime_alloc_record_def_def)
  qed
qed

lemma ir_field_names_size:
  "ir_field_names_loop p first i n acc = Inr (fs, sz) \<Longrightarrow> sz = acc + length (stored_names fs)"
proof (induction n arbitrary: i acc fs)
  case (Suc n)
  then obtain f a gs where a: "frothy_add_size acc (strlen f + 1) = Inr a"
    "ir_field_names_loop p first (Suc i) n a = Inr (gs, sz)" "fs = f # gs"
    by (auto simp: FROTH_TRY_Inr_iff split: if_splits)
  then have "a = acc + (strlen f + 1)" by (auto simp: frothy_add_size_def split: if_splits)
  with Suc.IH [OF a(2)] a(3) show ?case by (simp add: strlen_def)
qed simp

lemma alloc_record_def_from_ir_sound:
  assumes "rt_sound e rt"
  shows "yields e rt (frothy_runtime_alloc_record_def_from_ir name p first n rt)"
proof (cases "n = 0 \<or> length (ir_links p) < first \<or> length (ir_links p) - first < n \<or> UINT32_MAX < n")
  case True
  then show ?thesis using assms by (simp add: frothy_runtime_alloc_record_def_from_ir_def Let_def)
next
  case False
  show ?thesis
  proof (cases "FROTH_TRY (frothy_add_size 4 (strlen name + 1)) (ir_field_names_loop p first 0 n)")
    case (Inl err)
    then show ?thesis using False assms
      by (simp add: frothy_runtime_alloc_record_def_from_ir_def Let_def)
  next
    case (Inr x)
    then obtain fs sz a where x: "x = (fs, sz)" and a: "frothy_add_size 4 (strlen name + 1) = Inr a"
      "ir_field_names_loop p first 0 n a = Inr (fs, sz)"
      by (cases x) (auto simp: FROTH_TRY_Inr_iff)
    then have "a = 4 + (strlen name + 1)" by (auto simp: frothy_add_size_def split: if_splits)
    then have "length (record_def_bytes name fs) = sz"
      using ir_field_names_size [OF a(2)] by (simp add: record_def_bytes_length)
    from install_record_def_sound [OF assms this] show ?thesis
      using False Inr x by (simp add: frothy_runtime_alloc_record_def_from_ir_def Let_def)
  qed
qed

lemma payload_back_sound:
  assumes ok: "rt_sound e rt" and al: "frothy_runtime_alloc_payload len rt = (Inr p, rt1)"
    and len: "0 < len"
  shows "rt_sound e (frothy_runtime_release_payload p rt1)"
proof -
  have "len \<le> SIZE_MAX - 15" using alloc_payload_small [OF ok al] by (simp add: SIZE_MAX_def)
  note a = alloc_payload_ok [OF al rt_soundD(4) [OF ok] len this]
  show ?thesis
    by (rule rollback_sound [OF ok a(1) alloc_payload_count [OF al rt_soundD(5) [OF ok]]
          alloc_payload_grows [OF al] _ alloc_payload_frame_eq [OF al]])
       (simp add: alloc_payload_frame [OF al])
qed

lemma clone_packed_view:
  "frothy_ir_program_clone_packed p base sz = Inr q \<Longrightarrow>
   ir_storage_kind q = STORAGE_VIEW \<and> ir_storage_base q = base \<and> ir_storage_size q = sz"
  by (auto simp: frothy_ir_program_clone_packed_def frothy_ir_program_init_packed_view_def
      FROTH_TRY_Inr_iff Let_def frothy_ir_program_init_def split: if_splits)

definition packed_at :: "frothy_ir_program \<Rightarrow> frothy_span \<Rightarrow> frothy_ir_program" where
  "packed_at program p =
     (case frothy_ir_program_clone_packed program (sp_offset p) (sp_length p) of
        Inr packed \<Rightarrow> packed | Inl e \<Rightarrow> frothy_ir_program_init)"

lemma append_code_view:
  assumes "ir_storage_kind packed = STORAGE_VIEW" "ir_storage_base packed = sp_offset p"
    "ir_storage_size packed = sp_length p" "0 < sp_length p" "sp_end p \<le> rt_payload_capacity rt"
  shows "frothy_runtime_alloc_packed_code packed body arity locals rt =
    frothy_runtime_append_object (OBJECT_CODE p arity locals body packed) rt"
proof -
  have "mk_span (sp_offset p) (sp_length p) = p" by (simp add: mk_span_def)
  moreover have "frothy_runtime_code_payload_from_view rt packed = Inr (mk_span (sp_offset p) (sp_length p))"
    using assms by (auto simp: frothy_runtime_code_payload_from_view_def)
  ultimately show ?thesis by (simp only: frothy_runtime_alloc_packed_code_def sum.case)
qed

lemma alloc_code_sound:
  assumes ok: "rt_sound e rt"
  shows "yields e rt (frothy_runtime_alloc_code program body arity locals rt)"
proof (cases "frothy_ir_program_clone_packed_size program")
  case (Inl err)
  then show ?thesis using ok by (simp add: frothy_runtime_alloc_code_def)
next
  case (Inr len)
  note size = this
  obtain r rt1 where al: "frothy_runtime_alloc_payload len rt = (r, rt1)" by fastforce
  show ?thesis
  proof (cases r)
    case (Inl err)
    then have "rt1 = rt" using al alloc_payload_error [of len rt err rt1] by simp
    then show ?thesis using ok size al Inl by (simp add: frothy_runtime_alloc_code_def)
  next
    case (Inr p)
    note al = al [unfolded Inr]
    show ?thesis
    proof (cases "len = 0")
      case True
      then have p: "p = mk_span 0 0" "rt1 = rt"
        using al by (auto simp: frothy_runtime_alloc_payload_def frothy_payload_align_up_def)
      have st: "store_bytes 0 [] rt = rt" by (simp add: store_bytes_def store_at_def)
      have "frothy_runtime_release_payload (mk_span 0 0) rt = rt" for rt
        by (simp add: frothy_runtime_release_payload_def)
      note same = this
      show ?thesis
      proof (cases "frothy_ir_program_clone_packed program 0 0")
        case (Inl err)
        then show ?thesis using ok size al p same by (simp add: frothy_runtime_alloc_code_def)
      next
        case (Inr packed)
        note v = clone_packed_view [OF Inr]
        let ?ob = "OBJECT_CODE (mk_span 0 0) arity locals body packed"
        obtain q rt3 where q: "frothy_runtime_append_object ?ob rt = (q, rt3)" by fastforce
        have run: "frothy_runtime_alloc_code program body arity locals rt = (q, rt3)"
          using size al p Inr v q st same
          by (simp add: frothy_runtime_alloc_code_def frothy_runtime_alloc_packed_code_def
              frothy_runtime_code_payload_from_view_def split: sum.splits)
        show ?thesis
        proof (cases q)
          case (Inl err)
          note f = append_fails [OF q [unfolded Inl] rt_soundD(4,5) [OF ok]]
          have "records_ok rt3"
            using f by (intro records_ok_same_objects [OF rt_soundD(2) [OF ok]]) simp_all
          moreover have "quiet rt3" using f rt_soundD(6) [OF ok] quiet_cong by blast
          moreover have "rt_small rt3"
            using rt_small_frame [OF append_object_frame_eq [OF q]] rt_soundD(3) [OF ok] by simp
          ultimately show ?thesis using run Inl f by (simp add: rt_sound_def runtime_ok_def)
        next
          case (Inr w)
          have "rt_sound (\<lambda>x. e x + refs w x) rt3"
            using rt_soundD [OF ok]
            by (intro append_sound [OF q [unfolded Inr] rt_soundD(4) [OF ok]])
               (simp_all add: ob_shape_def new_object_def ob_payload_def ob_cells_def record_sound_def)
          then show ?thesis using run Inr by simp
        qed
      qed
    next
      case False
      then have len: "0 < len" by simp
      show ?thesis
      proof (cases "frothy_ir_program_clone_packed program (sp_offset p) (sp_length p)")
        case (Inl err)
        then show ?thesis
          using payload_back_sound [OF ok al len] size al by (simp add: frothy_runtime_alloc_code_def)
      next
        case (Inr packed)
        have "len \<le> SIZE_MAX - 15" using alloc_payload_small [OF ok al] by (simp add: SIZE_MAX_def)
        note a = alloc_payload_ok [OF al rt_soundD(4) [OF ok] len this]
        let ?rt2 = "store_bytes (sp_offset p) (replicate (sp_length p) 0) rt1"
        have "sp_end p \<le> rt_payload_capacity rt1"
          using pending_within [of p "[]" rt1] a(1) by (simp add: store_ok_def payload_ok_def)
        then have "sp_end p \<le> rt_payload_capacity ?rt2" by (simp add: store_bytes_def)
        with clone_packed_view [OF Inr] a(3) append_code_view [of packed p ?rt2 body arity locals]
        have "frothy_runtime_alloc_packed_code packed body arity locals ?rt2 =
            frothy_runtime_append_object (OBJECT_CODE p arity locals body packed) ?rt2" by simp
        then have "frothy_runtime_alloc_code program body arity locals rt =
            make_object len (\<lambda>p. replicate (sp_length p) 0)
              (\<lambda>p. OBJECT_CODE p arity locals body (packed_at program p)) rt"
          using size al Inr
          by (simp add: frothy_runtime_alloc_code_def make_object_def packed_at_def)
        then show ?thesis
          by (simp only:) (rule make_object_sound [OF ok len],
            simp_all add: plain_def ob_shape_def new_object_def)
      qed
    qed
  qed
qed

subsection \<open>Cells\<close>

lemma add_free_span_frame [simp]:
  "rt_objects (frothy_runtime_add_free_span b n rt) = rt_objects rt"
  "rt_payload_bytes (frothy_runtime_add_free_span b n rt) = rt_payload_bytes rt"
  by (simp_all add: frothy_runtime_add_free_span_def split: prod.splits)

lemma cells_rollback:
  assumes st: "store_ok pp (mk_span base n # pc) rt"
  shows "store_ok pp pc (frothy_runtime_add_free_span base n rt)"
    "outs (frothy_runtime_add_free_span base n rt) j = outs rt j"
proof -
  let ?sp = "mk_span base n"
  have r: "frothy_runtime_add_free_span base n rt = release_cells ?sp rt"
    by (simp add: release_cells_def)
  have ok: "payload_ok pp rt" "cells_ok (?sp # pc) rt" "table_ok rt"
    using st by (simp_all add: store_ok_def)
  have "cell_arena.ok rt (?sp # pc @ cells_owned rt)" using ok(2) by (simp add: cells_ok_def)
  from cell_arena.release_ok(1) [OF this]
  have arena: "cell_arena.ok (release_cells ?sp rt) (pc @ cells_owned rt)" .
  moreover have "cellspace_wf (rt_cellspace (release_cells ?sp rt)) \<and>
      cs_base_mark (rt_cellspace (release_cells ?sp rt)) = 0"
    using ok(2) arena
    by (auto simp: cells_ok_def cellspace_wf_def release_cells_def
        frothy_runtime_add_free_span_def split: prod.splits)
  moreover have "cells_owned (release_cells ?sp rt) = cells_owned rt"
    by (simp add: cells_owned_def frame_simps)
  ultimately have "cells_ok pc (release_cells ?sp rt)" by (simp add: cells_ok_def)
  moreover have "payload_ok pp (release_cells ?sp rt)"
    using ok(1) by (simp add: payload_ok_def payload_owned_def frame_simps)
  moreover have "table_ok (release_cells ?sp rt)" using ok(3) by (simp add: table_ok_def frame_simps)
  ultimately show "store_ok pp pc (frothy_runtime_add_free_span base n rt)"
    unfolding r by (simp add: store_ok_def)
  show "outs (frothy_runtime_add_free_span base n rt) j = outs rt j"
    unfolding outs_def
    by (subst as_outs_cong) (simp_all add: frothy_runtime_add_free_span_def split: prod.splits)
qed

lemma alloc_cells_sound:
  assumes ok: "rt_sound e rt"
  shows "yields e rt (frothy_runtime_alloc_cells n rt)"
proof (cases "n = 0 \<or> INT32_MAX < n")
  case True
  then show ?thesis using ok by (simp add: frothy_runtime_alloc_cells_def)
next
  case False
  then have n: "0 < n" by simp
  obtain r rt1 where tk: "take_cells n rt = (r, rt1)" by fastforce
  show ?thesis
  proof (cases r)
    case (Inl err)
    have "rt1 = rt" using cell_arena.alloc_error [of n rt err rt1] tk Inl n by (simp add: cells_usable_def)
    then show ?thesis using False tk Inl ok by (simp add: frothy_runtime_alloc_cells_def)
  next
    case (Inr base)
    note tk = tk [unfolded Inr]
    note t = take_cells_ok [OF tk rt_soundD(4,5) [OF ok] n]
    let ?rt2 = "fill_nil base n rt1" and ?ob = "OBJECT_CELLS (mk_span base n)"
    have f: "store_ok [] [mk_span base n] ?rt2" "rt_objects ?rt2 = rt_objects rt" "count_ok e None ?rt2"
      "rt_payload_bytes ?rt2 = rt_payload_bytes rt"
      "\<And>j. j < length (rt_objects rt) \<Longrightarrow> outs ?rt2 j = outs rt j"
      "\<And>a. base \<le> a \<Longrightarrow> a < base + n \<Longrightarrow> frothy_cellspace_value ?rt2 a = frothy_value_make_nil"
      using fill_nil_ok [OF t(1), of base n] t by auto
    have g: "grows rt ?rt2" by (rule grows_same_bytes) (simp_all add: objects_kept_def f)
    have fr: "rt_frame ?rt2 = rt_frame rt" using take_cells_frame_eq [OF tk] by (simp add: rt_frames)
    obtain q rt3 where q: "frothy_runtime_append_object ?ob ?rt2 = (q, rt3)" by fastforce
    have run: "frothy_runtime_alloc_cells n rt =
        (case q of Inl e \<Rightarrow> (Inl e, frothy_runtime_add_free_span base n rt3) | Inr v \<Rightarrow> (Inr v, rt3))"
      using False tk q by (simp add: frothy_runtime_alloc_cells_def)
    have rec: "records_ok ?rt2"
      by (rule records_ok_same_objects [OF rt_soundD(2) [OF ok] g]) (simp_all only: f(2))
    have qt: "quiet ?rt2" by (rule quiet_cong [OF f(2) rt_soundD(6) [OF ok]])
    show ?thesis
    proof (cases q)
      case (Inl err)
      let ?rt' = "frothy_runtime_add_free_span base n rt3"
      note fail = append_fails [OF q [unfolded Inl] f(1,3)]
      note rb = cells_rollback [OF conjunct1 [OF fail]]
      have objs: "rt_objects ?rt' = rt_objects rt" using fail f(2) by (simp add: frame_simps)
      have g': "grows rt3 ?rt'"
        by (rule grows_same_bytes) (simp_all add: objects_kept_def rb(2) frame_simps)
      have "count_ok e None ?rt'"
        by (rule count_ok_cong [of e None rt3]) (use fail in blast, simp_all add: rb(2) rc_def)
      moreover have "records_ok ?rt'"
        by (rule records_ok_same_objects [OF rt_soundD(2) [OF ok]
              grows_trans [OF g grows_trans [OF _ g']]]) (use fail in blast, simp_all only: objs)
      moreover have "quiet ?rt'" by (rule quiet_cong [OF objs rt_soundD(6) [OF ok]])
      moreover have "rt_frame ?rt' = rt_frame rt"
        using append_object_frame_eq [OF q] fr by (simp add: rt_frames)
      from rt_small_frame [OF this] have "rt_small ?rt'" using rt_soundD(3) [OF ok] by simp
      ultimately show ?thesis
        using run Inl rb(1) by (simp add: rt_sound_def runtime_ok_def)
    next
      case (Inr v)
      have "as_outs ?rt2 ?ob = replicate n frothy_value_make_nil"
        using f(6) by (auto intro: nth_equalityI)
      moreover have "refs_in (replicate n frothy_value_make_nil) x = 0" for x by (induction n) simp_all
      ultimately have "count_ok (\<lambda>x. e x + refs_in (as_outs ?rt2 ?ob) x) None ?rt2" using f(3) by simp
      moreover have "rt_small ?rt2" using rt_small_frame [OF fr] rt_soundD(3) [OF ok] by simp
      ultimately have "rt_sound (\<lambda>x. e x + refs v x) rt3"
        by (intro append_sound [OF q [unfolded Inr] f(1) _ _ _ _ rec _ qt])
           (simp_all add: ob_shape_def new_object_def ob_payload_def ob_cells_def record_sound_def)
      then show ?thesis using run Inr by simp
    qed
  qed
qed

subsection \<open>Records\<close>

text \<open>Retaining the fields, on success and on failure: the fields retained so far are counted.\<close>

definition retained :: "(froth_error \<times> nat + unit) \<Rightarrow> nat \<Rightarrow> frothy_value list \<Rightarrow> frothy_value list" where
  "retained r i vs = (case r of Inl (e, j) \<Rightarrow> take (j - i) vs | Inr u \<Rightarrow> vs)"

lemma retain_fields_pending:
  "rt_pending [p] e rt \<Longrightarrow> 0 < sp_length p \<Longrightarrow> 4 * (i + length vs) \<le> sp_length p \<Longrightarrow>
   retain_fields (sp_offset p) vs i rt = (r, rt') \<Longrightarrow>
   rt_pending [p] (\<lambda>x. e x + refs_in (retained r i vs) x) rt' \<and> grows rt rt' \<and>
   (\<forall>er j. r = Inl (er, j) \<longrightarrow> i \<le> j \<and> j < i + length vs)"
proof (induction vs arbitrary: i rt e)
  case (Cons v vs)
  obtain q rt1 where q: "frothy_value_retain v rt = (q, rt1)" by fastforce
  show ?case
  proof (cases q)
    case (Inl er)
    then show ?thesis using q retain_error [of v rt er rt1] Cons.prems by (auto simp: retained_def)
  next
    case (Inr u)
    note k = retain_pending [OF Cons.prems(1) q [unfolded Inr]]
    let ?off = "sp_offset p + 4 * i"
    let ?rt2 = "store_word ?off v rt1"
    have room: "?off + length (le32 v) \<le> sp_end p" "sp_offset p \<le> ?off" using Cons.prems(3) by simp_all
    note s = store_bytes_ok [OF rt_pendingD(1) [OF k(1)] Cons.prems(2) room(2,1), folded store_word_bytes]
    have objs: "rt_objects ?rt2 = rt_objects rt1" by (simp add: store_word_def)
    have "load_at (rt_payload_bytes ?rt2) (sp_offset w) (sp_length w) =
        load_at (rt_payload_bytes rt1) (sp_offset w) (sp_length w)"
      if "j < length (rt_objects rt1)" "ob_live (rt_objects rt1 ! j)"
        "ob_as (rt_objects rt1 ! j) = OBJECT_RECORD_DEF w n" "0 < sp_length w" for j w n
      using s(2) [of j w 0 "sp_length w"] that by (simp add: ob_payload_def)
    then have g: "grows rt1 ?rt2" using s(3) by (simp add: grows_def objects_kept_def objs)
    have "records_ok ?rt2"
      by (rule records_ok_same_objects [OF rt_pendingD(4) [OF k(1)] g]) (simp_all only: objs)
    moreover have "rt_small ?rt2"
      using rt_pendingD(5) [OF k(1)] rt_small_frame [of ?rt2 rt1] by (simp add: rt_frames)
    ultimately have p2: "rt_pending [p] (\<lambda>x. e x + refs v x) ?rt2"
      using s(1) s(4) [OF rt_pendingD(2) [OF k(1)]] quiet_cong [OF objs rt_pendingD(3) [OF k(1)]]
      by (simp add: rt_pending_def)
    have run: "retain_fields (sp_offset p) vs (Suc i) ?rt2 = (r, rt')"
      using Cons.prems(4) q Inr by simp
    have "4 * (Suc i + length vs) \<le> sp_length p" using Cons.prems(3) by simp
    from Cons.IH [OF p2 Cons.prems(2) this run]
    have IH: "rt_pending [p] (\<lambda>x. e x + refs v x + refs_in (retained r (Suc i) vs) x) rt'"
      "grows ?rt2 rt'" "\<forall>er j. r = Inl (er, j) \<longrightarrow> Suc i \<le> j \<and> j < Suc i + length vs" by blast+
    have "b - i = Suc (b - Suc i)" if "Suc i \<le> b" for b using that by arith
    then have "refs_in (retained r i (v # vs)) x = refs v x + refs_in (retained r (Suc i) vs) x" for x
      using IH(3) by (auto simp: retained_def split: sum.splits)
    then show ?thesis
      using IH grows_trans [OF k(2) grows_trans [OF g IH(2)]] by (auto simp: ac_simps)
  qed
qed (auto simp: retained_def)

lemma payload_rollback_pending:
  assumes "rt_pending [p] e rt"
  shows "rt_sound e (frothy_runtime_release_payload p rt)"
proof -
  let ?rt = "frothy_runtime_release_payload p rt"
  have "records_ok ?rt"
    by (rule records_ok_same_objects [OF rt_pendingD(4) [OF assms] release_payload_grows])
       (simp_all add: frame_simps)
  moreover have "quiet ?rt" by (rule quiet_cong [OF _ rt_pendingD(3) [OF assms]]) (simp add: frame_simps)
  moreover have "rt_small ?rt"
    using rt_pendingD(5) [OF assms] rt_small_frame [of ?rt rt] by (simp add: rt_frames)
  ultimately show ?thesis
    using payload_rollback_store [OF rt_pendingD(1) [OF assms]]
      count_ok_release_payload [OF rt_pendingD(2) [OF assms]]
    by (simp add: rt_sound_def runtime_ok_def)
qed

lemma undo_record_sound:
  assumes "rt_pending [p] (\<lambda>x. e x + refs d x + refs_in vs x) rt"
  shows "rt_sound e (frothy_runtime_release_payload p
    (snd (frothy_value_release d (release_ignoring vs rt))))"
proof -
  have "rt_pending [p] (\<lambda>x. e x + refs d x) (release_ignoring vs rt)"
    using release_ignoring_pending [OF assms] by blast
  from release_pending [OF this] show ?thesis by (auto intro: payload_rollback_pending)
qed

lemma append_fails_pending:
  assumes ok: "rt_pending pp e rt" and ap: "frothy_runtime_append_object ob rt = (Inl err, rt')"
  shows "rt_pending pp e rt'"
proof -
  note f = append_fails [OF ap rt_pendingD(1,2) [OF ok]]
  have "records_ok rt'"
    by (rule records_ok_same_objects [OF rt_pendingD(4) [OF ok]]) (use f in simp_all)
  moreover have "quiet rt'" using f rt_pendingD(3) [OF ok] quiet_cong by blast
  moreover have "rt_small rt'"
    using rt_small_frame [OF append_object_frame_eq [OF ap]] rt_pendingD(5) [OF ok] by simp
  ultimately show ?thesis using f by (simp add: rt_pending_def)
qed

lemma alloc_payload_pending:
  assumes ok: "rt_sound e rt" and al: "frothy_runtime_alloc_payload len rt = (Inr p, rt1)" and len: "0 < len"
  shows "rt_pending [p] e rt1" "len \<le> sp_length p" "0 < sp_length p" "grows rt rt1"
proof -
  have "len \<le> SIZE_MAX - 15" using alloc_payload_small [OF ok al] by (simp add: SIZE_MAX_def)
  note a = alloc_payload_ok [OF al rt_soundD(4) [OF ok] len this]
  note fr = alloc_payload_frame [OF al]
  show g: "grows rt rt1" by (rule alloc_payload_grows [OF al])
  have "records_ok rt1" by (rule records_ok_same_objects [OF rt_soundD(2) [OF ok] g]) (simp_all add: fr)
  moreover have "quiet rt1" by (rule quiet_cong [OF fr(1) rt_soundD(6) [OF ok]])
  moreover have "rt_small rt1"
    using rt_small_frame [OF alloc_payload_frame_eq [OF al]] rt_soundD(3) [OF ok] by simp
  ultimately show "rt_pending [p] e rt1"
    using a alloc_payload_count [OF al rt_soundD(5) [OF ok]] by (simp add: rt_pending_def)
  show "len \<le> sp_length p" "0 < sp_length p" by (rule a)+
qed

definition record_guard :: "frothy_runtime \<Rightarrow> frothy_value \<Rightarrow> frothy_value list \<Rightarrow> unit result" where
  "record_guard rt d vs =
     FROTH_TRY (frothy_runtime_get_record_def rt d) (\<lambda>(name, expected).
       if length vs \<noteq> expected then Inl FROTH_ERROR_SIGNATURE
       else FROTH_TRY (check_all (frothy_record_value_allowed rt) vs) (\<lambda>u.
       if SIZE_MAX div 4 < length vs then Inl FROTH_ERROR_HEAP_OUT_OF_MEMORY else Inr ()))"

lemma record_guard_Inr:
  "record_guard rt d vs = Inr u \<Longrightarrow> \<exists>name. frothy_runtime_get_record_def rt d = Inr (name, length vs)"
  by (auto simp: record_guard_def FROTH_TRY_Inr_iff split: if_splits)

lemma fill_record_sound:
  assumes ok: "rt_sound e rt" and def: "frothy_runtime_get_record_def rt d = Inr (name, length vs)"
    and p: "rt_pending [p] e rt1" "grows rt rt1" "0 < sp_length p" "4 * length vs \<le> sp_length p" "0 < length vs"
    and rd: "frothy_value_retain d rt1 = (Inr u, rt2)"
  shows "yields e rt (case retain_fields (sp_offset p) vs 0 rt2 of
      (Inl (er, i), rt) \<Rightarrow> (Inl er, frothy_runtime_release_payload p
         (snd (frothy_value_release d (release_ignoring (take i vs) rt))))
    | (Inr u, rt) \<Rightarrow>
        (case frothy_runtime_append_object (OBJECT_RECORD p d (length vs)) rt of
           (Inl er, rt) \<Rightarrow> (Inl er, frothy_runtime_release_payload p
              (snd (frothy_value_release d (release_ignoring vs rt))))
         | (Inr v, rt) \<Rightarrow> (Inr v, rt)))"
proof -
  note k = retain_pending [OF p(1) rd]
  obtain r rt3 where r: "retain_fields (sp_offset p) vs 0 rt2 = (r, rt3)" by fastforce
  have room: "4 * (0 + length vs) \<le> sp_length p" using p(4) by simp
  from retain_fields_pending [OF k(1) p(3) room r]
  have f: "rt_pending [p] (\<lambda>x. e x + refs d x + refs_in (retained r 0 vs) x) rt3" "grows rt2 rt3"
    by blast+
  show ?thesis
  proof (cases r)
    case (Inl q)
    then show ?thesis using r undo_record_sound [of p e d "take (snd q) vs" rt3] f(1)
      by (cases q) (simp add: retained_def)
  next
    case (Inr w)
    have f3: "rt_pending [p] (\<lambda>x. e x + refs d x + refs_in vs x) rt3" using f(1) Inr by (simp add: retained_def)
    let ?ob = "OBJECT_RECORD p d (length vs)"
    obtain q rt4 where q: "frothy_runtime_append_object ?ob rt3 = (q, rt4)" by fastforce
    show ?thesis
    proof (cases q)
      case (Inl err)
      from append_fails_pending [OF f3 q [unfolded Inl]] show ?thesis
        using r Inr q Inl by (simp add: undo_record_sound)
    next
      case (Inr v)
      note ap = q [unfolded Inr]
      have flds: "record_field_at rt3 p i = vs ! i" if "i < length vs" for i
        using retain_fields_ok [OF rt_pendingD(1-3) [OF k(1)] p(3) room r [unfolded \<open>r = Inr w\<close>]] that
        by simp
      have "map (record_field_at rt3 p) [0 ..< length vs] = vs"
        using flds by (auto intro: nth_equalityI)
      then have "count_ok (\<lambda>x. e x + refs_in (as_outs rt3 ?ob) x) None rt3"
        using rt_pendingD(2) [OF f3] by (simp add: ac_simps)
      moreover have "record_sound rt3 ?ob"
        using record_def_grows [OF grows_trans [OF p(2) grows_trans [OF k(2) f(2)]] def]
        by (simp add: record_sound_def)
      moreover have "ob_shape (new_object ?ob)" "[p] = ob_payload (new_object ?ob)"
        "[] = ob_cells (new_object ?ob)"
        using p(4,5) by (simp_all add: p(3) ob_shape_def new_object_def ob_payload_def ob_cells_def)
      ultimately have "rt_sound (\<lambda>x. e x + refs v x) rt4"
        using append_sound [OF ap rt_pendingD(1) [OF f3]] rt_pendingD(3-5) [OF f3] by blast
      then show ?thesis using r ap \<open>r = Inr w\<close> by simp
    qed
  qed
qed

lemma alloc_record_sound:
  assumes ok: "rt_sound e rt"
  shows "yields e rt (frothy_runtime_alloc_record d vs rt)"
proof (cases "length vs = 0")
  case True
  then show ?thesis using ok by (simp add: frothy_runtime_alloc_record_def)
next
  case False
  note run = frothy_runtime_alloc_record_def [of d vs rt, folded record_guard_def]
  show ?thesis
  proof (cases "record_guard rt d vs")
    case (Inl err)
    then show ?thesis using ok False by (simp add: run)
  next
    case (Inr u)
    then obtain name where def: "frothy_runtime_get_record_def rt d = Inr (name, length vs)"
      using record_guard_Inr by blast
    obtain r rt1 where al: "frothy_runtime_alloc_payload (length vs * 4) rt = (r, rt1)" by fastforce
    show ?thesis
    proof (cases r)
      case (Inl err)
      then show ?thesis using False Inr al alloc_payload_error [of "length vs * 4" rt err rt1] ok
        by (simp add: run)
    next
      case pl: (Inr p)
      have n: "0 < length vs * 4" using False by simp
      note a = alloc_payload_pending [OF ok al [unfolded pl] n]
      obtain q rt2 where q: "frothy_value_retain d rt1 = (q, rt2)" by fastforce
      show ?thesis
      proof (cases q)
        case (Inl err)
        then have "rt2 = rt1" using q retain_error by simp
        then show ?thesis using False Inr al pl q Inl payload_rollback_pending [OF a(1)] by (simp add: run)
      next
        case rd: (Inr w)
        have "4 * length vs \<le> sp_length p" "0 < length vs" using a(2) False by simp_all
        from fill_record_sound [OF ok def a(1,4,3) this q [unfolded rd]]
        show ?thesis using False Inr al pl q rd by (simp add: run)
      qed
    qed
  qed
qed

lemma from_literal_sound:
  "rt_sound e rt \<Longrightarrow> yields e rt (frothy_value_from_literal l rt)"
proof (cases l)
  case (LITERAL_INT i)
  have "\<not> frothy_value_is_object_ref (push_bit 2 i)"
    using is_int_push_bit [of i] tag_exclusive(1) by blast
  then show "rt_sound e rt \<Longrightarrow> ?thesis"
    using LITERAL_INT by (cases "frothy_value_make_int i")
       (auto simp: refs_def frothy_value_make_int_def split: if_splits)
qed (simp_all add: alloc_text_sound refs_def)

end
