(* ===== verification/Frothy_Eval.thy ===== *)
theory Frothy_Eval
  imports Frothy_Objects "HOL-Library.Signed_Division"
begin

section \<open>The evaluator (frothy_eval.c)\<close>

text \<open>
  The evaluator runs a program without recursion: an array of frames, one per node being
  evaluated, each with a phase that says what it does when it is on top again. A frame has three
  scratch values, and a call has a buffer of values in the runtime's value arena, which also holds
  the local variables. Results are written through pointers; here a pointer is a place
  (\<open>out_place\<close>): the variable of the caller of the evaluator, a scratch value of a frame below, or
  an index of the arena. What the code reaches through \<^verbatim>\<open>froth_vm\<close> is the record \<open>frothy_vm\<close>.

  Two things are not code of the runtime and are parameters, in the record \<open>frothy_platform\<close>:
  whether an interrupt has arrived by the time it is polled for the n-th time, and what the native
  function of a board does when it is called.
\<close>

subsection \<open>State\<close>

record frothy_vm =
  vm_runtime :: frothy_runtime
  vm_names :: "froth_heap \<times> slot_table"
  vm_interrupted :: bool
  vm_boot_complete :: bool
  vm_watermark_heap_offset :: "32 word"
  vm_polls :: nat
  vm_frames_used :: nat
  vm_frames_high_water :: nat

text \<open>A native is given the number of its function, its context, its arguments and the value its
result pointer holds; it gives back what it leaves there.\<close>

record frothy_platform =
  pf_interrupt :: "nat \<Rightarrow> bool"
  pf_native :: "nat \<Rightarrow> nat \<Rightarrow> frothy_value list \<Rightarrow> frothy_value \<Rightarrow> frothy_vm \<Rightarrow>
    unit result \<times> frothy_value \<times> frothy_vm"

datatype out_place = OUT_CALLER | OUT_SCRATCH nat nat | OUT_ARENA nat

record frothy_eval_buffer =
  bf_values :: "nat option"
  bf_count :: nat
  bf_arena_base :: nat
  bf_reset_epoch :: "32 word"

datatype frothy_eval_call_kind =
    CALL_NONE | CALL_BUILTIN | CALL_NATIVE | CALL_RECORD_DEF | CALL_CODE

record frothy_eval_frame =
  fr_program :: frothy_ir_program
  fr_locals :: "nat option"
  fr_local_count :: nat
  fr_node_id :: node_id
  fr_out :: out_place
  fr_phase :: nat
  fr_index :: nat
  fr_reset_epoch :: "32 word"
  fr_call_kind :: frothy_eval_call_kind
  fr_buffer :: frothy_eval_buffer
  fr_values :: "frothy_value list"
  fr_target_program :: frothy_ir_program
  fr_target_node :: node_id
  fr_native_fn :: nat
  fr_native_context :: nat

record eval_machine =
  mc_vm :: frothy_vm
  mc_frames :: "frothy_eval_frame list"
  mc_base_depth :: nat
  mc_out :: frothy_value

definition FROTHY_EVAL_FRAME_CAPACITY :: nat where "FROTHY_EVAL_FRAME_CAPACITY = 128"
definition FROTHY_EVAL_SCRATCH_SLOT_COUNT :: nat where "FROTHY_EVAL_SCRATCH_SLOT_COUNT = 3"

type_synonym 'a evaluation = "eval_machine \<Rightarrow> 'a result \<times> eval_machine"

definition ev_return :: "'a \<Rightarrow> 'a evaluation" where "ev_return x m = (Inr x, m)"

definition ev_error :: "froth_error \<Rightarrow> 'a evaluation" where "ev_error e m = (Inl e, m)"

definition ev_do :: "(eval_machine \<Rightarrow> eval_machine) \<Rightarrow> unit evaluation" where
  "ev_do f m = (Inr (), f m)"

text \<open>\<open>FROTH_TRY\<close> with the machine, and a step whose status is inspected.\<close>

definition ev_try :: "'a evaluation \<Rightarrow> ('a \<Rightarrow> 'b evaluation) \<Rightarrow> 'b evaluation" where
  "ev_try a k m = (case a m of (Inl e, m') \<Rightarrow> (Inl e, m') | (Inr x, m') \<Rightarrow> k x m')"

definition ev_status :: "'a evaluation \<Rightarrow> ('a result \<Rightarrow> 'b evaluation) \<Rightarrow> 'b evaluation" where
  "ev_status a k m = (let (r, m') = a m in k r m')"

definition ev_result :: "'a result \<Rightarrow> 'a evaluation" where "ev_result r m = (r, m)"

abbreviation mc_runtime :: "eval_machine \<Rightarrow> frothy_runtime" where
  "mc_runtime m \<equiv> vm_runtime (mc_vm m)"

definition set_runtime :: "frothy_runtime \<Rightarrow> eval_machine \<Rightarrow> eval_machine" where
  "set_runtime rt m = m\<lparr>mc_vm := (mc_vm m)\<lparr>vm_runtime := rt\<rparr>\<rparr>"

definition on_runtime :: "(frothy_runtime \<Rightarrow> 'a result \<times> frothy_runtime) \<Rightarrow> 'a evaluation" where
  "on_runtime f m = (let (r, rt) = f (mc_runtime m) in (r, set_runtime rt m))"

definition on_names ::
  "(froth_heap \<times> slot_table \<Rightarrow> 'a result \<times> (froth_heap \<times> slot_table)) \<Rightarrow> 'a evaluation" where
  "on_names f m = (let (r, st) = f (vm_names (mc_vm m))
     in (r, m\<lparr>mc_vm := (mc_vm m)\<lparr>vm_names := st\<rparr>\<rparr>))"

definition on_slots :: "(slot_table \<Rightarrow> 'a result \<times> slot_table) \<Rightarrow> 'a evaluation" where
  "on_slots f = on_names (\<lambda>(heap, t). let (r, t') = f t in (r, (heap, t')))"

subsection \<open>Places\<close>

definition arena_store :: "nat \<Rightarrow> frothy_value list \<Rightarrow> frothy_runtime \<Rightarrow> frothy_runtime" where
  "arena_store index vs rt = rt\<lparr>rt_eval_values := store_at (rt_eval_values rt) index vs\<rparr>"

definition mc_top :: "eval_machine \<Rightarrow> frothy_eval_frame" where
  "mc_top m = last (mc_frames m)"

definition set_top :: "frothy_eval_frame \<Rightarrow> eval_machine \<Rightarrow> eval_machine" where
  "set_top f m = m\<lparr>mc_frames := butlast (mc_frames m) @ [f]\<rparr>"

definition set_scratch :: "nat \<Rightarrow> frothy_value \<Rightarrow> frothy_eval_frame \<Rightarrow> frothy_eval_frame" where
  "set_scratch s v f = f\<lparr>fr_values := (fr_values f)[s := v]\<rparr>"

fun get_place :: "out_place \<Rightarrow> eval_machine \<Rightarrow> frothy_value" where
  "get_place OUT_CALLER m = mc_out m"
| "get_place (OUT_SCRATCH i s) m = fr_values (mc_frames m ! i) ! s"
| "get_place (OUT_ARENA k) m = rt_eval_values (mc_runtime m) ! k"

fun set_place :: "out_place \<Rightarrow> frothy_value \<Rightarrow> eval_machine \<Rightarrow> eval_machine" where
  "set_place OUT_CALLER v m = m\<lparr>mc_out := v\<rparr>"
| "set_place (OUT_SCRATCH i s) v m =
     m\<lparr>mc_frames := (mc_frames m)[i := set_scratch s v (mc_frames m ! i)]\<rparr>"
| "set_place (OUT_ARENA k) v m = set_runtime (arena_store k [v] (mc_runtime m)) m"

subsection \<open>Buffers\<close>

definition frothy_reset_epoch_matches :: "32 word \<Rightarrow> eval_machine \<Rightarrow> bool" where
  "frothy_reset_epoch_matches epoch m \<longleftrightarrow> rt_reset_epoch (mc_runtime m) = epoch"

definition no_buffer :: frothy_eval_buffer where
  "no_buffer = \<lparr>bf_values = None, bf_count = 0, bf_arena_base = 0, bf_reset_epoch = 0\<rparr>"

text \<open>A buffer whose initialisation fails has no values, and freeing it does nothing.\<close>

definition frothy_eval_buffer_init :: "nat \<Rightarrow> frothy_eval_buffer evaluation" where
  "frothy_eval_buffer_init n m =
     (let rt = mc_runtime m;
          limit = rt_eval_value_limit rt;
          base = rt_eval_value_used rt;
          buffer = \<lparr>bf_values = None, bf_count = n, bf_arena_base = base,
                    bf_reset_epoch = rt_reset_epoch rt\<rparr>;
          used = base + n
      in if n = 0 then (Inr buffer, m)
         else if limit < n \<or> limit - n < base then (Inl FROTH_ERROR_HEAP_OUT_OF_MEMORY, m)
         else (Inr (buffer\<lparr>bf_values := Some base\<rparr>),
               set_runtime ((arena_store base (replicate n frothy_value_make_nil) rt)
                 \<lparr>rt_eval_value_used := used,
                  rt_eval_value_high_water := (if rt_eval_value_high_water rt < used then used
                                               else rt_eval_value_high_water rt)\<rparr>) m))"

text \<open>No release touches the arena, so the values are read before the loop.\<close>

definition frothy_eval_buffer_free :: "frothy_eval_buffer \<Rightarrow> eval_machine \<Rightarrow> eval_machine" where
  "frothy_eval_buffer_free buffer m =
     (case bf_values buffer of
        None \<Rightarrow> m
      | Some base \<Rightarrow>
          let rt = mc_runtime m
          in if rt_reset_epoch rt = bf_reset_epoch buffer
             then set_runtime ((release_ignoring (load_at (rt_eval_values rt) base (bf_count buffer)) rt)
                    \<lparr>rt_eval_value_used := bf_arena_base buffer\<rparr>) m
             else set_runtime
                    (arena_store base (replicate (bf_count buffer) frothy_value_make_nil) rt) m)"

subsection \<open>Frames\<close>

definition frothy_eval_sync_frame_stack_used :: "eval_machine \<Rightarrow> eval_machine" where
  "frothy_eval_sync_frame_stack_used m =
     m\<lparr>mc_vm := (mc_vm m)\<lparr>vm_frames_used := mc_base_depth m + length (mc_frames m)\<rparr>\<rparr>"

definition frothy_eval_frame_state_init ::
  "frothy_ir_program \<Rightarrow> nat option \<Rightarrow> nat \<Rightarrow> node_id \<Rightarrow> out_place \<Rightarrow> eval_machine \<Rightarrow>
   frothy_eval_frame" where
  "frothy_eval_frame_state_init program locals local_count node_id out m =
     \<lparr>fr_program = program, fr_locals = locals, fr_local_count = local_count,
      fr_node_id = node_id, fr_out = out, fr_phase = 0, fr_index = 0,
      fr_reset_epoch = rt_reset_epoch (mc_runtime m), fr_call_kind = CALL_NONE,
      fr_buffer = no_buffer,
      fr_values = replicate FROTHY_EVAL_SCRATCH_SLOT_COUNT frothy_value_make_nil,
      fr_target_program = frothy_ir_program_init, fr_target_node = 0, fr_native_fn = 0,
      fr_native_context = 0\<rparr>"

definition frothy_eval_frame_state_cleanup ::
  "frothy_eval_frame \<Rightarrow> eval_machine \<Rightarrow> eval_machine" where
  "frothy_eval_frame_state_cleanup f m =
     frothy_eval_buffer_free (fr_buffer f)
       (if frothy_reset_epoch_matches (fr_reset_epoch f) m
        then set_runtime (release_ignoring (fr_values f) (mc_runtime m)) m else m)"

definition pop_top :: "eval_machine \<Rightarrow> eval_machine" where
  "pop_top m = (frothy_eval_frame_state_cleanup (mc_top m) m)\<lparr>mc_frames := butlast (mc_frames m)\<rparr>"

fun exec_cleanup_loop :: "nat \<Rightarrow> eval_machine \<Rightarrow> eval_machine" where
  "exec_cleanup_loop 0 m = m"
| "exec_cleanup_loop (Suc n) m = exec_cleanup_loop n (pop_top m)"

definition frothy_eval_exec_cleanup :: "eval_machine \<Rightarrow> eval_machine" where
  "frothy_eval_exec_cleanup m =
     frothy_eval_sync_frame_stack_used (exec_cleanup_loop (length (mc_frames m)) m)"

definition frothy_eval_push_frame ::
  "frothy_ir_program \<Rightarrow> nat option \<Rightarrow> nat \<Rightarrow> node_id \<Rightarrow> out_place \<Rightarrow> unit evaluation" where
  "frothy_eval_push_frame program locals local_count node_id out m =
     (if FROTHY_EVAL_FRAME_CAPACITY \<le> mc_base_depth m \<or>
         FROTHY_EVAL_FRAME_CAPACITY - mc_base_depth m \<le> length (mc_frames m)
      then (Inl FROTH_ERROR_CALL_DEPTH, m)
      else
        let f = frothy_eval_frame_state_init program locals local_count node_id out m;
            m = frothy_eval_sync_frame_stack_used (m\<lparr>mc_frames := mc_frames m @ [f]\<rparr>);
            used = vm_frames_used (mc_vm m)
        in (Inr (), m\<lparr>mc_vm := (mc_vm m)\<lparr>vm_frames_high_water :=
              (if vm_frames_high_water (mc_vm m) < used then used
               else vm_frames_high_water (mc_vm m))\<rparr>\<rparr>))"

definition frothy_eval_push_child :: "node_id \<Rightarrow> out_place \<Rightarrow> unit evaluation" where
  "frothy_eval_push_child node_id out m =
     frothy_eval_push_frame (fr_program (mc_top m)) (fr_locals (mc_top m))
       (fr_local_count (mc_top m)) node_id out m"

definition frothy_eval_pop_frame :: "eval_machine \<Rightarrow> eval_machine" where
  "frothy_eval_pop_frame m =
     (if mc_frames m = [] then m else frothy_eval_sync_frame_stack_used (pop_top m))"

definition frothy_eval_release_slot :: "nat \<Rightarrow> eval_machine \<Rightarrow> eval_machine" where
  "frothy_eval_release_slot s m =
     (if FROTHY_EVAL_SCRATCH_SLOT_COUNT \<le> s then m
      else
        let m' = (if frothy_reset_epoch_matches (fr_reset_epoch (mc_top m)) m
                  then set_runtime (snd (frothy_value_release (fr_values (mc_top m) ! s)
                         (mc_runtime m))) m
                  else m)
        in set_top (set_scratch s frothy_value_make_nil (mc_top m')) m')"

definition set_phase :: "nat \<Rightarrow> eval_machine \<Rightarrow> eval_machine" where
  "set_phase p m = set_top ((mc_top m)\<lparr>fr_phase := p\<rparr>) m"

definition set_index :: "nat \<Rightarrow> eval_machine \<Rightarrow> eval_machine" where
  "set_index i m = set_top ((mc_top m)\<lparr>fr_index := i\<rparr>) m"

definition frothy_eval_push_scratch_child :: "nat \<Rightarrow> node_id \<Rightarrow> nat \<Rightarrow> unit evaluation" where
  "frothy_eval_push_scratch_child next_phase node_id s m =
     (if FROTHY_EVAL_SCRATCH_SLOT_COUNT \<le> s then (Inl FROTH_ERROR_SIGNATURE, m)
      else frothy_eval_push_child node_id (OUT_SCRATCH (length (mc_frames m) - 1) s)
             (set_phase next_phase m))"

definition frothy_eval_complete_value :: "frothy_value \<Rightarrow> unit evaluation" where
  "frothy_eval_complete_value v m =
     (Inr (), frothy_eval_pop_frame (set_place (fr_out (mc_top m)) v m))"

definition frothy_eval_complete_here :: "unit evaluation" where
  "frothy_eval_complete_here m =
     frothy_eval_complete_value (get_place (fr_out (mc_top m)) m) m"

definition frothy_eval_complete_out :: "unit result \<Rightarrow> unit evaluation" where
  "frothy_eval_complete_out err =
     (case err of Inl e \<Rightarrow> ev_error e | Inr u \<Rightarrow> frothy_eval_complete_here)"

definition frothy_eval_complete_nil :: "unit evaluation" where
  "frothy_eval_complete_nil = frothy_eval_complete_value frothy_value_make_nil"

definition frothy_eval_complete_nil_after_move :: "nat \<Rightarrow> unit evaluation" where
  "frothy_eval_complete_nil_after_move s m =
     (if FROTHY_EVAL_SCRATCH_SLOT_COUNT \<le> s then (Inl FROTH_ERROR_SIGNATURE, m)
      else frothy_eval_complete_nil
             (set_top (set_scratch s frothy_value_make_nil (mc_top m)) m))"

text \<open>What an operation stores through \<^verbatim>\<open>frame->out\<close>.\<close>

definition put_out :: "frothy_value \<Rightarrow> unit evaluation" where
  "put_out v m = (Inr (), set_place (fr_out (mc_top m)) v m)"

definition put_result :: "frothy_value evaluation \<Rightarrow> unit evaluation" where
  "put_result a = ev_try a put_out"

definition put_retained :: "frothy_value \<Rightarrow> unit evaluation" where
  "put_retained v = ev_try (put_out v) (\<lambda>u. on_runtime (frothy_value_retain v))"

subsection \<open>Slots\<close>

definition froth_slot_find_name ::
  "froth_heap \<times> slot_table \<Rightarrow> byte list \<Rightarrow> nat result" where
  "froth_slot_find_name st name = froth_slot_find_name_n (fst st) (snd st) (c_string name)"

definition froth_slot_create ::
  "byte list \<Rightarrow> froth_heap \<times> slot_table \<Rightarrow> nat result \<times> (froth_heap \<times> slot_table)" where
  "froth_slot_create name = froth_slot_create_n (c_string name)"

definition frothy_slot_read_owned :: "byte list \<Rightarrow> unit evaluation" where
  "frothy_slot_read_owned name m =
     (case FROTH_TRY (froth_slot_find_name (vm_names (mc_vm m)) name)
             (froth_slot_get_impl (snd (vm_names (mc_vm m)))) of
        Inl e \<Rightarrow> (Inl e, m)
      | Inr impl \<Rightarrow> put_retained (frothy_value_from_cell impl) m)"

definition value_arity :: "frothy_runtime \<Rightarrow> frothy_value \<Rightarrow> nat option" where
  "value_arity rt v =
     (let known = (\<lambda>a. a < unat FROTH_SLOT_ARITY_UNKNOWN)
      in case frothy_runtime_get_code rt v of
           Inr ob \<Rightarrow> if known (code_arity ob) then Some (code_arity ob) else None
         | Inl e \<Rightarrow>
             (case frothy_runtime_get_native rt v of
                Inr ob \<Rightarrow> if known (native_arity ob) then Some (native_arity ob) else None
              | Inl e \<Rightarrow>
                  (case frothy_runtime_get_record_def rt v of
                     Inr (name, n) \<Rightarrow> if known n then Some n else None
                   | Inl e \<Rightarrow> None)))"

definition frothy_slot_update_arity :: "nat \<Rightarrow> frothy_value \<Rightarrow> unit evaluation" where
  "frothy_slot_update_arity i v m =
     (case value_arity (mc_runtime m) v of
        Some a \<Rightarrow> on_slots (froth_slot_set_arity i (word_of_nat a) 1) m
      | None \<Rightarrow> on_slots (froth_slot_clear_arity i) m)"

definition frothy_slot_rebind_owned :: "nat \<Rightarrow> frothy_value \<Rightarrow> unit evaluation" where
  "frothy_slot_rebind_owned i v m =
     ev_try
       (case froth_slot_get_impl (snd (vm_names (mc_vm m))) i of
          Inl e \<Rightarrow> if e \<noteq> FROTH_ERROR_UNDEFINED_WORD then ev_error e else ev_return ()
        | Inr old_impl \<Rightarrow> on_runtime (frothy_value_release (frothy_value_from_cell old_impl)))
     (\<lambda>u. ev_try (on_slots (froth_slot_set_overlay i (if vm_boot_complete (mc_vm m) then 1 else 0)))
     (\<lambda>u. ev_try (on_slots (froth_slot_set_impl i (frothy_value_to_cell v)))
     (\<lambda>u. frothy_slot_update_arity i v))) m"

definition frothy_slot_write_owned :: "byte list \<Rightarrow> frothy_value \<Rightarrow> bool \<Rightarrow> unit evaluation" where
  "frothy_slot_write_owned name v must_exist m =
     (let found = froth_slot_find_name (vm_names (mc_vm m)) name
      in if frothy_value_is_slot_designator v then (Inl FROTH_ERROR_TYPE_MISMATCH, m)
         else case found of
             Inl e \<Rightarrow>
               if e = FROTH_ERROR_UNDEFINED_WORD
               then if must_exist then (Inl e, m)
                    else ev_try (on_names (froth_slot_create name))
                           (\<lambda>i. frothy_slot_rebind_owned i v) m
               else (Inl e, m)
           | Inr i \<Rightarrow> frothy_slot_rebind_owned i v m)"

definition frothy_slot_read_fallback_owned :: "byte list \<Rightarrow> byte list \<Rightarrow> unit evaluation" where
  "frothy_slot_read_fallback_owned primary fallback m =
     (case froth_slot_find_name (vm_names (mc_vm m)) primary of
        Inr i \<Rightarrow> frothy_slot_read_owned primary m
      | Inl e \<Rightarrow>
          if e \<noteq> FROTH_ERROR_UNDEFINED_WORD then (Inl e, m)
          else frothy_slot_read_owned fallback m)"

definition frothy_slot_write_fallback_owned ::
  "byte list \<Rightarrow> byte list \<Rightarrow> frothy_value \<Rightarrow> bool \<Rightarrow> unit evaluation" where
  "frothy_slot_write_fallback_owned primary fallback v must_exist =
     ev_status (frothy_slot_write_owned primary v must_exist) (\<lambda>err.
       if err \<noteq> Inl FROTH_ERROR_UNDEFINED_WORD then ev_result err
       else frothy_slot_write_owned fallback v must_exist)"

subsection \<open>Cells and fields\<close>

definition frothy_index_offset :: "frothy_value \<Rightarrow> nat \<Rightarrow> nat result" where
  "frothy_index_offset index_value len =
     (if \<not> frothy_value_is_int index_value then Inl FROTH_ERROR_TYPE_MISMATCH
      else
        let index = frothy_value_as_int index_value
        in if index <s 0 \<or> len \<le> unat index then Inl FROTH_ERROR_BOUNDS else Inr (unat index))"

definition frothy_cells_value_allowed :: "frothy_runtime \<Rightarrow> frothy_value \<Rightarrow> unit result" where
  "frothy_cells_value_allowed rt v =
     FROTH_TRY (value_class rt v) (\<lambda>c. case c of
         CLASS_INT \<Rightarrow> Inr () | CLASS_BOOL \<Rightarrow> Inr () | CLASS_NIL \<Rightarrow> Inr () | CLASS_TEXT \<Rightarrow> Inr ()
       | CLASS_RECORD \<Rightarrow> Inr ()
       | CLASS_CELLS \<Rightarrow> Inl FROTH_ERROR_TYPE_MISMATCH | CLASS_CODE \<Rightarrow> Inl FROTH_ERROR_TYPE_MISMATCH
       | CLASS_NATIVE \<Rightarrow> Inl FROTH_ERROR_TYPE_MISMATCH
       | CLASS_RECORD_DEF \<Rightarrow> Inl FROTH_ERROR_TYPE_MISMATCH)"

definition indexed_cell :: "frothy_runtime \<Rightarrow> frothy_value \<Rightarrow> frothy_value \<Rightarrow> nat result" where
  "indexed_cell rt base_value index_value =
     FROTH_TRY (frothy_runtime_get_cells rt base_value) (\<lambda>(len, base).
     FROTH_TRY (frothy_index_offset index_value len) (\<lambda>offset. Inr (base + offset)))"

definition frothy_read_index_owned :: "frothy_value \<Rightarrow> frothy_value \<Rightarrow> unit evaluation" where
  "frothy_read_index_owned base_value index_value m =
     (case indexed_cell (mc_runtime m) base_value index_value of
        Inl e \<Rightarrow> (Inl e, m)
      | Inr a \<Rightarrow> put_retained (frothy_cellspace_value (mc_runtime m) a) m)"

definition frothy_write_index_owned ::
  "frothy_value \<Rightarrow> frothy_value \<Rightarrow> frothy_value \<Rightarrow> frothy_runtime \<Rightarrow>
   unit result \<times> frothy_runtime" where
  "frothy_write_index_owned base_value index_value stored_value rt =
     (case FROTH_TRY (indexed_cell rt base_value index_value) (\<lambda>a.
           FROTH_TRY (frothy_cells_value_allowed rt stored_value) (\<lambda>u. Inr a)) of
        Inl e \<Rightarrow> (Inl e, rt)
      | Inr a \<Rightarrow>
          and_then (frothy_value_release (frothy_cellspace_value rt a) rt) (\<lambda>rt.
            (Inr (), set_cell a (frothy_value_to_cell stored_value) rt)))"

definition frothy_read_field_owned :: "frothy_value \<Rightarrow> byte list \<Rightarrow> unit evaluation" where
  "frothy_read_field_owned base_value name m =
     (case record_field_value (mc_runtime m) base_value name of
        Inl e \<Rightarrow> (Inl e, m)
      | Inr v \<Rightarrow> put_retained v m)"

definition frothy_write_field_owned ::
  "frothy_value \<Rightarrow> byte list \<Rightarrow> frothy_value \<Rightarrow> frothy_runtime \<Rightarrow> unit result \<times> frothy_runtime" where
  "frothy_write_field_owned = frothy_runtime_record_write_field"

subsection \<open>Built-in operations\<close>

definition frothy_make_wrapped_int :: "64 word \<Rightarrow> frothy_value result" where
  "frothy_make_wrapped_int raw = frothy_value_make_int (frothy_value_wrap_int raw)"

fun int_builtin :: "frothy_ir_builtin \<Rightarrow> 32 word \<Rightarrow> 32 word \<Rightarrow> frothy_value result" where
  "int_builtin BUILTIN_ADD lhs rhs = frothy_make_wrapped_int (scast lhs + scast rhs)"
| "int_builtin BUILTIN_SUB lhs rhs = frothy_make_wrapped_int (scast lhs - scast rhs)"
| "int_builtin BUILTIN_MUL lhs rhs = frothy_make_wrapped_int (scast lhs * scast rhs)"
| "int_builtin BUILTIN_DIV lhs rhs =
     (if rhs = 0 then Inl FROTH_ERROR_DIVISION_BY_ZERO
      else frothy_make_wrapped_int (word_of_int (sint lhs sdiv sint rhs)))"
| "int_builtin BUILTIN_REM lhs rhs =
     (if rhs = 0 then Inl FROTH_ERROR_DIVISION_BY_ZERO
      else frothy_make_wrapped_int (word_of_int (sint lhs smod sint rhs)))"
| "int_builtin BUILTIN_LT lhs rhs = Inr (frothy_value_make_bool (lhs <s rhs))"
| "int_builtin BUILTIN_LE lhs rhs = Inr (frothy_value_make_bool (lhs \<le>s rhs))"
| "int_builtin BUILTIN_GT lhs rhs = Inr (frothy_value_make_bool (rhs <s lhs))"
| "int_builtin BUILTIN_GE lhs rhs = Inr (frothy_value_make_bool (rhs \<le>s lhs))"
| "int_builtin b lhs rhs = Inl FROTH_ERROR_SIGNATURE"

text \<open>\<open>frothy_eval_builtin\<close> yields the value it stores through its result pointer.\<close>

definition frothy_eval_builtin ::
  "frothy_ir_builtin \<Rightarrow> frothy_value list \<Rightarrow> frothy_runtime \<Rightarrow> frothy_value result \<times> frothy_runtime"
where
  "frothy_eval_builtin builtin args rt =
     (case builtin of
        BUILTIN_CELLS \<Rightarrow>
          if length args \<noteq> 1 \<or> \<not> frothy_value_is_int (args ! 0) \<or> frothy_value_as_int (args ! 0) \<le>s 0
          then (Inl FROTH_ERROR_BOUNDS, rt)
          else frothy_runtime_alloc_cells (unat (frothy_value_as_int (args ! 0))) rt
      | BUILTIN_NOT \<Rightarrow>
          if length args \<noteq> 1 \<or> \<not> frothy_value_is_bool (args ! 0)
          then (Inl FROTH_ERROR_TYPE_MISMATCH, rt)
          else (Inr (frothy_value_make_bool (\<not> frothy_value_as_bool (args ! 0))), rt)
      | BUILTIN_NEGATE \<Rightarrow>
          if length args \<noteq> 1 \<or> \<not> frothy_value_is_int (args ! 0)
          then (Inl FROTH_ERROR_TYPE_MISMATCH, rt)
          else (frothy_make_wrapped_int (- scast (frothy_value_as_int (args ! 0))), rt)
      | BUILTIN_EQ \<Rightarrow>
          if length args \<noteq> 2 then (Inl FROTH_ERROR_SIGNATURE, rt)
          else (FROTH_TRY (frothy_value_equals rt (args ! 0) (args ! 1)) (\<lambda>equal.
                Inr (frothy_value_make_bool equal)), rt)
      | BUILTIN_NEQ \<Rightarrow>
          if length args \<noteq> 2 then (Inl FROTH_ERROR_SIGNATURE, rt)
          else (FROTH_TRY (frothy_value_equals rt (args ! 0) (args ! 1)) (\<lambda>equal.
                Inr (frothy_value_make_bool (\<not> equal))), rt)
      | BUILTIN_NONE \<Rightarrow> (Inl FROTH_ERROR_SIGNATURE, rt)
      | _ \<Rightarrow>
          if length args \<noteq> 2 \<or> \<not> frothy_value_is_int (args ! 0) \<or> \<not> frothy_value_is_int (args ! 1)
          then (Inl FROTH_ERROR_TYPE_MISMATCH, rt)
          else (int_builtin builtin (frothy_value_as_int (args ! 0))
                  (frothy_value_as_int (args ! 1)), rt))"

subsection \<open>Calls\<close>

definition mc_scratch :: "eval_machine \<Rightarrow> nat \<Rightarrow> frothy_value" where
  "mc_scratch m s = fr_values (mc_top m) ! s"

definition buffer_args :: "nat \<Rightarrow> eval_machine \<Rightarrow> frothy_value list" where
  "buffer_args n m =
     (case bf_values (fr_buffer (mc_top m)) of
        None \<Rightarrow> []
      | Some base \<Rightarrow> load_at (rt_eval_values (mc_runtime m)) base n)"

text \<open>What phase 1 finds out about the callee: the kind of call, its arity, its number of local
variables, and for code and natives what to run.\<close>

definition resolve_callee ::
  "frothy_runtime \<Rightarrow> frothy_value \<Rightarrow> frothy_eval_frame \<Rightarrow>
   (frothy_eval_frame \<times> nat \<times> nat) result" where
  "resolve_callee rt callee f =
     (case frothy_runtime_get_code rt callee of
        Inr ob \<Rightarrow>
          Inr (f\<lparr>fr_call_kind := CALL_CODE, fr_target_program := code_program ob,
                 fr_target_node := code_body ob\<rparr>, code_arity ob, code_local_count ob)
      | Inl e \<Rightarrow>
          if e \<noteq> FROTH_ERROR_TYPE_MISMATCH then Inl e
          else
            (case frothy_runtime_get_native rt callee of
               Inr ob \<Rightarrow>
                 Inr (f\<lparr>fr_call_kind := CALL_NATIVE, fr_native_fn := native_fn ob,
                        fr_native_context := native_context ob\<rparr>, native_arity ob, 0)
             | Inl e \<Rightarrow>
                 if e \<noteq> FROTH_ERROR_TYPE_MISMATCH then Inl e
                 else FROTH_TRY (frothy_runtime_get_record_def rt callee) (\<lambda>(name, n).
                   Inr (f\<lparr>fr_call_kind := CALL_RECORD_DEF\<rparr>, n, 0))))"

definition set_buffer :: "frothy_eval_buffer \<Rightarrow> eval_machine \<Rightarrow> eval_machine" where
  "set_buffer b m = set_top ((mc_top m)\<lparr>fr_buffer := b, fr_phase := 2, fr_index := 0\<rparr>) m"

definition eval_call_callee :: "nat \<Rightarrow> unit evaluation" where
  "eval_call_callee nargs m =
     (case resolve_callee (mc_runtime m) (mc_scratch m 0) (mc_top m) of
        Inl e \<Rightarrow> (Inl e, m)
      | Inr (f, arity, local_count) \<Rightarrow>
          let m = set_top f m
          in if arity \<noteq> nargs then (Inl FROTH_ERROR_SIGNATURE, m)
             else if fr_call_kind f = CALL_CODE \<and> local_count < arity
             then (Inl FROTH_ERROR_SIGNATURE, m)
             else ev_try
               (frothy_eval_buffer_init (if fr_call_kind f = CALL_CODE then local_count else nargs))
               (\<lambda>b. ev_do (set_buffer b)) m)"

definition call_native :: "frothy_platform \<Rightarrow> nat \<Rightarrow> unit evaluation" where
  "call_native pf nargs m =
     (let f = mc_top m;
          (r, out, vm) = pf_native pf (fr_native_fn f) (fr_native_context f) (buffer_args nargs m)
            (get_place (fr_out f) m) (mc_vm m)
      in (r, set_place (fr_out f) out (m\<lparr>mc_vm := vm\<rparr>)))"

definition eval_call_run :: "frothy_platform \<Rightarrow> frothy_ir_builtin \<Rightarrow> nat \<Rightarrow> unit evaluation" where
  "eval_call_run pf builtin nargs m =
     (let f = mc_top m
      in case fr_call_kind f of
          CALL_BUILTIN \<Rightarrow>
            ev_status (put_result (on_runtime (frothy_eval_builtin builtin (buffer_args nargs m))))
              frothy_eval_complete_out m
        | CALL_NATIVE \<Rightarrow>
            ev_status (call_native pf nargs) (\<lambda>err.
              ev_try (ev_do (frothy_eval_release_slot 0)) (\<lambda>u. frothy_eval_complete_out err)) m
        | CALL_RECORD_DEF \<Rightarrow>
            ev_status (put_result (on_runtime
                (frothy_runtime_alloc_record (mc_scratch m 0) (buffer_args nargs m)))) (\<lambda>err.
              ev_try (ev_do (frothy_eval_release_slot 0)) (\<lambda>u. frothy_eval_complete_out err)) m
        | CALL_CODE \<Rightarrow>
            frothy_eval_push_frame (fr_target_program f) (bf_values (fr_buffer f))
              (bf_count (fr_buffer f)) (fr_target_node f) (fr_out f) (set_phase 3 m)
        | CALL_NONE \<Rightarrow> (Inl FROTH_ERROR_SIGNATURE, m))"

definition frothy_eval_call ::
  "frothy_platform \<Rightarrow> frothy_ir_builtin \<Rightarrow> node_id \<Rightarrow> nat \<Rightarrow> nat \<Rightarrow> unit evaluation" where
  "frothy_eval_call pf builtin callee first nargs m =
     (let f = mc_top m
      in if fr_phase f = 0 then
           if builtin \<noteq> BUILTIN_NONE
           then ev_try (frothy_eval_buffer_init nargs) (\<lambda>b. ev_do (set_buffer b))
                  (set_top (f\<lparr>fr_call_kind := CALL_BUILTIN\<rparr>) m)
           else frothy_eval_push_scratch_child 1 callee 0 m
         else if fr_phase f = 1 then eval_call_callee nargs m
         else if fr_phase f = 2 then
           if fr_index f < nargs
           then frothy_eval_push_child (ir_links (fr_program f) ! (first + fr_index f))
                  (OUT_ARENA (the (bf_values (fr_buffer f)) + fr_index f))
                  (set_index (fr_index f + 1) m)
           else eval_call_run pf builtin nargs m
         else if fr_phase f = 3 then frothy_eval_complete_here m
         else (Inl FROTH_ERROR_SIGNATURE, m))"

subsection \<open>Control\<close>

definition frothy_eval_if :: "node_id \<Rightarrow> node_id \<Rightarrow> node_id \<Rightarrow> bool \<Rightarrow> unit evaluation" where
  "frothy_eval_if condition then_node else_node has_else m =
     (let f = mc_top m; v = mc_scratch m 0
      in if fr_phase f = 0 then frothy_eval_push_scratch_child 1 condition 0 m
         else if fr_phase f = 1 then
           let m = frothy_eval_release_slot 0 m
           in if \<not> frothy_value_is_bool v then (Inl FROTH_ERROR_TYPE_MISMATCH, m)
              else if frothy_value_as_bool v
              then frothy_eval_push_child then_node (fr_out f) (set_phase 2 m)
              else if \<not> has_else then frothy_eval_complete_nil m
              else frothy_eval_push_child else_node (fr_out f) (set_phase 2 m)
         else if fr_phase f = 2 then frothy_eval_complete_here m
         else (Inl FROTH_ERROR_SIGNATURE, m))"

definition frothy_eval_while :: "node_id \<Rightarrow> node_id \<Rightarrow> unit evaluation" where
  "frothy_eval_while condition body m =
     (let f = mc_top m; v = mc_scratch m 0
      in if fr_phase f = 0 then frothy_eval_push_scratch_child 1 condition 0 m
         else if fr_phase f = 1 then
           let m = frothy_eval_release_slot 0 m
           in if \<not> frothy_value_is_bool v then (Inl FROTH_ERROR_TYPE_MISMATCH, m)
              else if \<not> frothy_value_as_bool v then frothy_eval_complete_nil m
              else frothy_eval_push_child body (OUT_SCRATCH (length (mc_frames m) - 1) 1)
                     (set_phase 2 m)
         else if fr_phase f = 2 then (Inr (), set_phase 0 (frothy_eval_release_slot 1 m))
         else (Inl FROTH_ERROR_SIGNATURE, m))"

definition frothy_eval_seq :: "nat \<Rightarrow> nat \<Rightarrow> unit evaluation" where
  "frothy_eval_seq first n m =
     (let f = mc_top m; item = ir_links (fr_program f) ! (first + fr_index f)
      in if fr_phase f = 0 then
           if n = 0 then frothy_eval_complete_nil m
           else if fr_index f + 1 < n
           then frothy_eval_push_scratch_child 1 item 0 (set_index (fr_index f + 1) m)
           else frothy_eval_push_child item (fr_out f) (set_phase 2 m)
         else if fr_phase f = 1 then (Inr (), set_phase 0 (frothy_eval_release_slot 0 m))
         else if fr_phase f = 2 then frothy_eval_complete_here m
         else (Inl FROTH_ERROR_SIGNATURE, m))"

subsection \<open>Nodes that store\<close>

text \<open>The last phase of a write: the operation consumes the value of scratch \<open>s\<close> when it succeeds,
and the frame gives it back when it fails.\<close>

definition complete_write :: "nat \<Rightarrow> unit evaluation \<Rightarrow> unit evaluation" where
  "complete_write s write =
     ev_status write (\<lambda>err. case err of
         Inl e \<Rightarrow> ev_try (ev_do (frothy_eval_release_slot s)) (\<lambda>u. ev_error e)
       | Inr u \<Rightarrow> frothy_eval_complete_nil_after_move s)"

definition eval_write_local :: "nat \<Rightarrow> node_id \<Rightarrow> unit evaluation" where
  "eval_write_local i val m =
     (let f = mc_top m; a = the (fr_locals f) + i
      in if fr_local_count f \<le> i then (Inl FROTH_ERROR_BOUNDS, m)
         else if fr_phase f = 0 then frothy_eval_push_scratch_child 1 val 0 m
         else complete_write 0
           (ev_try (\<lambda>m. on_runtime (frothy_value_release (rt_eval_values (mc_runtime m) ! a)) m)
             (\<lambda>u m. (Inr (), set_runtime (arena_store a [mc_scratch m 0] (mc_runtime m)) m))) m)"

definition eval_read_local :: "nat \<Rightarrow> unit evaluation" where
  "eval_read_local i m =
     (let f = mc_top m
      in if fr_local_count f \<le> i then (Inl FROTH_ERROR_BOUNDS, m)
         else ev_status (put_retained (rt_eval_values (mc_runtime m) ! (the (fr_locals f) + i)))
                frothy_eval_complete_out m)"

definition eval_read_index :: "node_id \<Rightarrow> node_id \<Rightarrow> unit evaluation" where
  "eval_read_index base index m =
     (let f = mc_top m
      in if fr_phase f = 0 then frothy_eval_push_scratch_child 1 base 0 m
         else if fr_phase f = 1 then frothy_eval_push_scratch_child 2 index 1 m
         else ev_status (frothy_read_index_owned (mc_scratch m 0) (mc_scratch m 1)) (\<lambda>err.
           ev_try (ev_do (\<lambda>m. frothy_eval_release_slot 0 (frothy_eval_release_slot 1 m)))
             (\<lambda>u. frothy_eval_complete_out err)) m)"

definition eval_write_index :: "node_id \<Rightarrow> node_id \<Rightarrow> node_id \<Rightarrow> unit evaluation" where
  "eval_write_index base index val m =
     (let f = mc_top m
      in if fr_phase f = 0 then frothy_eval_push_scratch_child 1 base 0 m
         else if fr_phase f = 1 then frothy_eval_push_scratch_child 2 index 1 m
         else if fr_phase f = 2 then frothy_eval_push_scratch_child 3 val 2 m
         else complete_write 2
           (ev_status (on_runtime (frothy_write_index_owned (mc_scratch m 0) (mc_scratch m 1)
               (mc_scratch m 2))) (\<lambda>err.
             ev_try (ev_do (\<lambda>m. frothy_eval_release_slot 0 (frothy_eval_release_slot 1 m)))
               (\<lambda>u. ev_result err))) m)"

definition eval_read_field :: "node_id \<Rightarrow> byte list \<Rightarrow> unit evaluation" where
  "eval_read_field base name m =
     (let f = mc_top m
      in if fr_phase f = 0 then frothy_eval_push_scratch_child 1 base 0 m
         else ev_status (frothy_read_field_owned (mc_scratch m 0) name) (\<lambda>err.
           ev_try (ev_do (frothy_eval_release_slot 0)) (\<lambda>u. frothy_eval_complete_out err)) m)"

definition eval_write_field :: "node_id \<Rightarrow> byte list \<Rightarrow> node_id \<Rightarrow> unit evaluation" where
  "eval_write_field base name val m =
     (let f = mc_top m
      in if fr_phase f = 0 then frothy_eval_push_scratch_child 1 base 0 m
         else if fr_phase f = 1 then frothy_eval_push_scratch_child 2 val 1 m
         else complete_write 1
           (ev_status (on_runtime (frothy_write_field_owned (mc_scratch m 0) name (mc_scratch m 1)))
             (\<lambda>err. ev_try (ev_do (frothy_eval_release_slot 0)) (\<lambda>u. ev_result err))) m)"

definition eval_write_slot :: "node_id \<Rightarrow> (frothy_value \<Rightarrow> unit evaluation) \<Rightarrow> unit evaluation" where
  "eval_write_slot val write m =
     (if fr_phase (mc_top m) = 0 then frothy_eval_push_scratch_child 1 val 0 m
      else complete_write 0 (write (mc_scratch m 0)) m)"

definition eval_simple :: "unit evaluation \<Rightarrow> unit evaluation" where
  "eval_simple a = ev_status a frothy_eval_complete_out"

definition eval_record_def :: "byte list \<Rightarrow> nat \<Rightarrow> nat \<Rightarrow> unit evaluation" where
  "eval_record_def name first n m =
     put_result (on_runtime (frothy_runtime_alloc_record_def_from_ir name (fr_program (mc_top m))
       first n)) m"

subsection \<open>One step, the loop, the program\<close>

fun eval_dispatch :: "frothy_platform \<Rightarrow> frothy_ir_node \<Rightarrow> unit evaluation" where
  "eval_dispatch pf (NODE_LIT l) = eval_simple (\<lambda>m.
     put_result (on_runtime (frothy_value_from_literal (ir_literals (fr_program (mc_top m)) ! l))) m)"
| "eval_dispatch pf (NODE_READ_LOCAL i) = eval_read_local i"
| "eval_dispatch pf (NODE_WRITE_LOCAL i v) = eval_write_local i v"
| "eval_dispatch pf (NODE_READ_SLOT n) = eval_simple (frothy_slot_read_owned n)"
| "eval_dispatch pf (NODE_READ_SLOT_FALLBACK p f) =
     eval_simple (frothy_slot_read_fallback_owned p f)"
| "eval_dispatch pf (NODE_WRITE_SLOT n v r) =
     eval_write_slot v (\<lambda>x. frothy_slot_write_owned n x r)"
| "eval_dispatch pf (NODE_WRITE_SLOT_FALLBACK p f v r) =
     eval_write_slot v (\<lambda>x. frothy_slot_write_fallback_owned p f x r)"
| "eval_dispatch pf (NODE_SLOT_DESIGNATOR n) = eval_simple (\<lambda>m.
     put_result (ev_result (frothy_value_make_slot_designator (vm_names (mc_vm m)) n)) m)"
| "eval_dispatch pf (NODE_RECORD_DEF n a b) = eval_simple (eval_record_def n a b)"
| "eval_dispatch pf (NODE_READ_INDEX b i) = eval_read_index b i"
| "eval_dispatch pf (NODE_WRITE_INDEX b i v) = eval_write_index b i v"
| "eval_dispatch pf (NODE_READ_FIELD b n) = eval_read_field b n"
| "eval_dispatch pf (NODE_WRITE_FIELD b n v) = eval_write_field b n v"
| "eval_dispatch pf (NODE_FN a l b) = eval_simple (\<lambda>m.
     put_result (on_runtime (frothy_runtime_alloc_code (fr_program (mc_top m)) b a l)) m)"
| "eval_dispatch pf (NODE_CALL c f a n) = frothy_eval_call pf c f a n"
| "eval_dispatch pf (NODE_IF c t e h) = frothy_eval_if c t e h"
| "eval_dispatch pf (NODE_WHILE c b) = frothy_eval_while c b"
| "eval_dispatch pf (NODE_SEQ a n) = frothy_eval_seq a n"

definition mc_node :: "eval_machine \<Rightarrow> frothy_ir_node" where
  "mc_node m = ir_nodes (fr_program (mc_top m)) ! fr_node_id (mc_top m)"

definition frothy_poll_interrupt :: "frothy_platform \<Rightarrow> unit evaluation" where
  "frothy_poll_interrupt pf m =
     (let vm = mc_vm m;
          seen = vm_interrupted vm \<or> pf_interrupt pf (vm_polls vm);
          vm = vm\<lparr>vm_polls := vm_polls vm + 1, vm_interrupted := False\<rparr>
      in if \<not> seen then (Inr (), m\<lparr>mc_vm := vm\<rparr>)
         else (Inl FROTH_ERROR_PROGRAM_INTERRUPTED, m\<lparr>mc_vm := vm\<rparr>))"

definition check_epoch :: "32 word \<Rightarrow> unit evaluation" where
  "check_epoch epoch m =
     (if frothy_reset_epoch_matches epoch m then (Inr (), m) else (Inl FROTH_ERROR_RESET, m))"

definition eval_iteration :: "frothy_platform \<Rightarrow> 32 word \<Rightarrow> unit evaluation" where
  "eval_iteration pf epoch =
     ev_try (check_epoch epoch) (\<lambda>u.
     ev_try (\<lambda>m. if fr_phase (mc_top m) = 0 then frothy_poll_interrupt pf m else (Inr (), m)) (\<lambda>u.
     ev_try (check_epoch epoch) (\<lambda>u.
     ev_try (\<lambda>m. eval_dispatch pf (mc_node m) m) (\<lambda>u.
     check_epoch epoch))))"

partial_function (option) eval_loop ::
  "frothy_platform \<Rightarrow> 32 word \<Rightarrow> eval_machine \<Rightarrow> (unit result \<times> eval_machine) option" where
  "eval_loop pf epoch m =
     (if mc_frames m = [] then Some (Inr (), m)
      else
        (let rm = eval_iteration pf epoch m
         in if isl (fst rm) then Some rm else eval_loop pf epoch (snd rm)))"

definition frothy_eval_node ::
  "frothy_platform \<Rightarrow> frothy_ir_program \<Rightarrow> nat option \<Rightarrow> nat \<Rightarrow> node_id \<Rightarrow> frothy_value \<Rightarrow>
   frothy_vm \<Rightarrow> (unit result \<times> frothy_value \<times> frothy_vm) option" where
  "frothy_eval_node pf program locals local_count node_id out vm =
     (let m = \<lparr>mc_vm = vm, mc_frames = [], mc_base_depth = vm_frames_used vm, mc_out = out\<rparr>
      in if length (ir_nodes program) \<le> node_id \<or> (0 < local_count \<and> locals = None)
         then Some (Inl FROTH_ERROR_BOUNDS, out, vm)
         else
           case frothy_eval_push_frame program locals local_count node_id OUT_CALLER m of
             (Inl e, m) \<Rightarrow> Some (Inl e, mc_out m, mc_vm m)
           | (Inr u, m) \<Rightarrow>
               (case eval_loop pf (rt_reset_epoch (vm_runtime vm)) m of
                  None \<Rightarrow> None
                | Some (r, m) \<Rightarrow>
                    let m = (if isl r then frothy_eval_exec_cleanup m
                             else frothy_eval_sync_frame_stack_used m)
                    in Some (r, mc_out m, mc_vm m)))"

definition frothy_frame_init :: "nat \<Rightarrow> frothy_vm \<Rightarrow> frothy_eval_buffer result \<times> frothy_vm" where
  "frothy_frame_init local_count vm =
     (let (r, m) = frothy_eval_buffer_init local_count
        \<lparr>mc_vm = vm, mc_frames = [], mc_base_depth = 0, mc_out = frothy_value_make_nil\<rparr>
      in (r, mc_vm m))"

definition frothy_frame_free :: "frothy_eval_buffer \<Rightarrow> frothy_vm \<Rightarrow> frothy_vm" where
  "frothy_frame_free frame vm =
     mc_vm (frothy_eval_buffer_free frame
       \<lparr>mc_vm = vm, mc_frames = [], mc_base_depth = 0, mc_out = frothy_value_make_nil\<rparr>)"

text \<open>\<open>None\<close> is a program that does not return. The value is what the result pointer holds.\<close>

definition frothy_eval_program ::
  "frothy_platform \<Rightarrow> frothy_ir_program \<Rightarrow> frothy_value \<Rightarrow> frothy_vm \<Rightarrow>
   (unit result \<times> frothy_value \<times> frothy_vm) option" where
  "frothy_eval_program pf program out vm =
     (if length (ir_nodes program) \<le> ir_root program then Some (Inl FROTH_ERROR_BOUNDS, out, vm)
      else
        case frothy_frame_init (ir_root_local_count program) vm of
          (Inl e, vm) \<Rightarrow> Some (Inl e, out, vm)
        | (Inr frame, vm) \<Rightarrow>
            (case frothy_eval_node pf program (bf_values frame) (bf_count frame)
                    (ir_root program) out vm of
               None \<Rightarrow> None
             | Some (r, out, vm) \<Rightarrow>
                 let vm = frothy_frame_free frame vm
                 in if r = Inl FROTH_ERROR_RESET then Some (Inr (), frothy_value_make_nil, vm)
                    else Some (r, out, vm)))"

definition frothy_eval_frame_high_water :: "frothy_vm \<Rightarrow> nat" where
  "frothy_eval_frame_high_water vm = vm_frames_high_water vm"

definition frothy_eval_debug_reset_frame_high_water :: "frothy_vm \<Rightarrow> frothy_vm" where
  "frothy_eval_debug_reset_frame_high_water vm = vm\<lparr>vm_frames_high_water := vm_frames_used vm\<rparr>"

end
