(* ===== verification/Frothy_Sound_Access.thy ===== *)
theory Frothy_Sound_Access
  imports Frothy_Sound_Ops Frothy_Eval
begin

section \<open>Reading and writing stored references\<close>

text \<open>
  A value read from an array, a record or a slot is still referred to from there, so it can be
  retained. A write gives the old value back and moves the new one in; while the old value is torn
  down the place still holds its stale reference, which the invariant sees as a hole.
\<close>

subsection \<open>Replacing one stored reference\<close>

definition stores_ref :: "nat \<Rightarrow> nat \<Rightarrow> frothy_value \<Rightarrow> frothy_runtime \<Rightarrow> frothy_runtime \<Rightarrow> bool" where
  "stores_ref i k s rt rt' \<longleftrightarrow>
     store_ok [] [] rt' \<and> rt_objects rt' = rt_objects rt \<and> rt_frame rt' = rt_frame rt \<and>
     outs rt' i = (outs rt i)[k := s] \<and>
     (\<forall>j < length (rt_objects rt). j \<noteq> i \<longrightarrow> outs rt' j = outs rt j) \<and>
     (\<forall>j < length (rt_objects rt). \<forall>p n. ob_live (rt_objects rt ! j) \<longrightarrow>
        ob_as (rt_objects rt ! j) = OBJECT_RECORD_DEF p n \<longrightarrow> 0 < sp_length p \<longrightarrow>
        load_at (rt_payload_bytes rt') (sp_offset p) (sp_length p) =
          load_at (rt_payload_bytes rt) (sp_offset p) (sp_length p))"

lemma stores_ref_count:
  assumes sr: "stores_ref i k s rt rt'" and i: "i < length (rt_objects rt)" "0 < rc rt i"
    and k: "k < length (outs rt i)" and cnt: "count_ok (\<lambda>x. e x + refs s x) (Some (i, k)) rt"
  shows "count_ok e None rt'"
proof -
  let ?h = "Some (i, k)"
  have objs: "rt_objects rt' = rt_objects rt" and out_i: "outs rt' i = (outs rt i)[k := s]"
    using sr by (simp_all add: stores_ref_def)
  have hole: "outs_h ?h rt' j = outs_h ?h rt j" if "j < length (rt_objects rt)" for j
    using sr that by (auto simp: outs_h_def stores_ref_def)
  have rc: "rc rt' = rc rt" by (simp add: rc_def objs fun_eq_iff)
  have "refs_to ?h rt' x = refs_to ?h rt x" for x
    unfolding refs_to_def objs rc by (rule sum.cong) (simp_all add: hole)
  moreover have "refs_to None rt' x = refs_to ?h rt' x + refs s x" for x
    using refs_to_hole [of i rt' k x] i k by (simp add: objs rc out_i)
  ultimately show ?thesis
    using cnt by (simp add: count_ok_def rc ac_simps del: add_mult_distrib2)
qed

lemma stores_ref_records:
  assumes sr: "stores_ref i k s rt rt'" and ok: "records_ok rt"
  shows "records_ok rt'"
proof -
  have objs: "rt_objects rt' = rt_objects rt" using sr by (simp add: stores_ref_def)
  have "frothy_runtime_get_record_def rt' d = Inr (name, n)"
    if "frothy_runtime_get_record_def rt d = Inr (name, n)" for d name n
    by (rule record_def_stable [OF that])
       (use sr in \<open>auto simp: stores_ref_def get_live_object_id_Inr\<close>)
  then have "record_sound rt ob \<Longrightarrow> record_sound rt' ob" for ob
    by (auto simp: record_sound_def split: frothy_object_as.splits)
  then show ?thesis using ok by (simp add: records_ok_def objs)
qed

lemma replace_ref_sound:
  assumes ok: "rt_sound (\<lambda>x. e x + refs s x) rt" and k: "k < length (outs rt i)" and held: "0 < e i"
    and fld: "\<And>p d n. ob_as (rt_objects rt ! i) = OBJECT_RECORD p d n \<Longrightarrow> k < n"
    and W: "\<And>rt1. store_ok [] [] rt1 \<Longrightarrow> i < length (rt_objects rt1) \<Longrightarrow> ob_live (rt_objects rt1 ! i) \<Longrightarrow>
      ob_as (rt_objects rt1 ! i) = ob_as (rt_objects rt ! i) \<Longrightarrow> stores_ref i k s rt1 (W rt1)"
  shows "\<exists>rt1. frothy_value_release (outs rt i ! k) rt = (Inr (), rt1) \<and> rt_sound e (W rt1)"
proof -
  let ?old = "outs rt i ! k" and ?h = "Some (i, k)"
  have tab: "table_ok rt" using rt_soundD(4) [OF ok] by (simp add: store_ok_def)
  have il: "i < length (rt_objects rt)" "0 < rc rt i"
    using count_ok_live [OF tab rt_soundD(5) [OF ok], of i] held by simp_all
  have "count_ok (\<lambda>x. e x + refs s x + refs ?old x) ?h rt"
    using rt_soundD(5) [OF ok] refs_to_hole [OF il k] by (simp add: count_ok_def ac_simps)
  moreover have "hole_safe (\<lambda>x. e x + refs s x) ?h" using held by (simp add: hole_safe_def)
  ultimately obtain rt1 where rt1: "frothy_value_release ?old rt = (Inr (), rt1)" "store_ok [] [] rt1"
    "count_ok (\<lambda>x. e x + refs s x) ?h rt1" "frees {} rt rt1"
    using value_release_ok [OF rt_soundD(4) [OF ok], of "\<lambda>x. e x + refs s x" ?old ?h] by blast
  have live1: "i < length (rt_objects rt1)" "ob_live (rt_objects rt1 ! i)" "0 < rc rt1 i"
    using count_ok_live [OF _ rt1(3), of i] rt1(2) held by (simp_all add: store_ok_def)
  note kept = frees_live_kept [OF rt1(4) il(1) live1(2)]
  have quiet1: "quiet rt1" by (rule frees_quiet [OF rt_soundD(6) [OF ok] rt1(4)])
  have sr: "stores_ref i k s rt1 (W rt1)" by (rule W [OF rt1(2) live1(1,2) kept(1)])
  have k1: "k < length (outs rt1 i)" using k kept(2) by simp
  have cnt: "count_ok e None (W rt1)" by (rule stores_ref_count [OF sr live1(1,3) k1 rt1(3)])
  have "hole_in_fields ?h rt1" using fld kept(1) by (simp add: hole_in_fields_def)
  then have "records_ok rt1"
    by (rule records_ok_frees_hole [OF rt_soundD(2) [OF ok] rt1(4,2,3) quiet1])
  then have "records_ok (W rt1)" by (rule stores_ref_records [OF sr])
  moreover have "quiet (W rt1)" using sr quiet_cong [OF _ quiet1] by (simp add: stores_ref_def)
  moreover have "rt_frame (W rt1) = rt_frame rt"
    using sr release_frame_eq [OF rt1(1)] by (simp add: stores_ref_def)
  then have "rt_small (W rt1)" using rt_small_frame rt_soundD(3) [OF ok] by blast
  ultimately show ?thesis
    using rt1(1) cnt sr by (auto simp: rt_sound_def runtime_ok_def stores_ref_def)
qed

subsection \<open>Arrays\<close>

lemma cell_roundtrip [simp]: "frothy_value_from_cell (frothy_value_to_cell v) = v"
  by (simp add: frothy_value_from_cell_def frothy_value_to_cell_def)

lemma outs_cells:
  "ob_as (rt_objects rt ! i) = OBJECT_CELLS sp \<Longrightarrow>
   outs rt i = map (frothy_cellspace_value rt) [sp_offset sp ..< sp_end sp]"
  by (simp add: outs_def)

lemma store_cell_ref:
  assumes st: "store_ok [] [] rt" and i: "i < length (rt_objects rt)" "ob_live (rt_objects rt ! i)"
    and ob: "ob_as (rt_objects rt ! i) = OBJECT_CELLS sp" and k: "k < sp_length sp"
  shows "stores_ref i k s rt (set_cell (sp_offset sp + k) (frothy_value_to_cell s) rt)"
proof -
  let ?rt' = "set_cell (sp_offset sp + k) (frothy_value_to_cell s) rt"
  have ok: "cells_ok [] rt" "table_ok rt" using st by (simp_all add: store_ok_def)
  have cov: "covers sp (sp_offset sp + k)" using k by (simp add: covers_def)
  have "sp_offset sp + k < length (cs_data (rt_cellspace rt))"
    using cells_in_range(2) [OF ok(1) i ob] k by simp
  then have val: "frothy_cellspace_value ?rt' (sp_offset sp + j) =
      (if j = k then s else frothy_cellspace_value rt (sp_offset sp + j))" for j
    by (simp add: frothy_cellspace_value_def set_cell_def)
  have "outs ?rt' i = (outs rt i)[k := s]"
    using k val by (auto simp: outs_def ob intro!: nth_equalityI)
  moreover have "outs ?rt' j = outs rt j" if "j < length (rt_objects rt)" "j \<noteq> i" for j
    using outs_set_cell [OF ok(2,1) i(1) that i(2) ob cov] by simp
  ultimately show ?thesis
    using set_cell_store_ok [OF st] by (simp add: stores_ref_def rt_frames)
qed

lemma get_cells_object:
  "frothy_runtime_get_cells rt v = Inr (len, base) \<longleftrightarrow>
   (\<exists>i sp. frothy_runtime_get_live_object_id rt v = Inr i \<and>
      ob_as (rt_objects rt ! i) = OBJECT_CELLS sp \<and> len = sp_length sp \<and> base = sp_offset sp)"
  by (cases "frothy_runtime_get_live_object_id rt v")
     (auto simp: frothy_runtime_get_cells_def frothy_runtime_get_object_def is_OBJECT_CELLS_def
       FROTH_TRY_Inr_iff Let_def split: if_splits)

text \<open>An accepted index lies within the array.\<close>

lemma indexed_cell_Inr:
  assumes "indexed_cell rt b i = Inr a"
  shows "\<exists>j sp k. frothy_runtime_get_live_object_id rt b = Inr j \<and>
    ob_as (rt_objects rt ! j) = OBJECT_CELLS sp \<and> k < sp_length sp \<and> a = sp_offset sp + k"
  using assms by (fastforce simp: indexed_cell_def FROTH_TRY_Inr_iff get_cells_object frothy_index_offset_def
      Let_def split: if_splits)

lemma live_positive:
  "rt_sound e rt \<Longrightarrow> frothy_runtime_get_live_object_id rt v = Inr i \<Longrightarrow>
   i < length (rt_objects rt) \<and> ob_live (rt_objects rt ! i) \<and> 0 < rc rt i \<and>
   frothy_value_is_object_ref v \<and> i = frothy_value_object_index v"
  using rt_soundD(6) by (fastforce simp: get_live_object_id_Inr quiet_def rc_def)

lemma stored_ref_counted:
  assumes ok: "rt_sound e rt" and i: "i < length (rt_objects rt)" "0 < rc rt i"
    and v: "v \<in> set (outs rt i)" "frothy_value_is_object_ref v"
  shows "0 < rc rt (frothy_value_object_index v)"
proof -
  obtain k where k: "k < length (outs rt i)" "outs rt i ! k = v" using v(1) by (auto simp: in_set_conv_nth)
  have "0 < refs_to None rt (frothy_value_object_index v)"
    using refs_to_hole [OF i k(1)] k(2) v(2) by (simp add: refs_def)
  then show ?thesis using rt_soundD(5) [OF ok] by (simp add: count_ok_def)
qed

lemma indexed_cell_held:
  assumes ok: "rt_sound e rt" and a: "indexed_cell rt b i = Inr a"
    and v: "frothy_value_is_object_ref (frothy_cellspace_value rt a)"
  shows "0 < rc rt (frothy_value_object_index (frothy_cellspace_value rt a))"
proof -
  obtain j sp k where j: "frothy_runtime_get_live_object_id rt b = Inr j"
    "ob_as (rt_objects rt ! j) = OBJECT_CELLS sp" "k < sp_length sp" "a = sp_offset sp + k"
    using indexed_cell_Inr [OF a] by blast
  note l = live_positive [OF ok j(1)]
  have "frothy_cellspace_value rt a \<in> set (outs rt j)" using j(3,4) by (simp add: outs_cells [OF j(2)])
  then show ?thesis using stored_ref_counted [OF ok] l v by blast
qed

lemma write_index_sound:
  assumes ok: "rt_sound (\<lambda>x. e x + refs s x) rt"
    and held: "frothy_value_is_object_ref b \<Longrightarrow> 0 < e (frothy_value_object_index b)"
  shows "(\<exists>err. frothy_write_index_owned b i s rt = (Inl err, rt)) \<or>
    (\<exists>rt'. frothy_write_index_owned b i s rt = (Inr (), rt') \<and> rt_sound e rt' \<and> rt_frame rt' = rt_frame rt)"
proof (cases "FROTH_TRY (indexed_cell rt b i) (\<lambda>a.
    FROTH_TRY (frothy_cells_value_allowed rt s) (\<lambda>u. Inr a))")
  case (Inr a)
  then have "indexed_cell rt b i = Inr a" by (auto simp: FROTH_TRY_Inr_iff)
  then obtain j sp k where j: "frothy_runtime_get_live_object_id rt b = Inr j"
    "ob_as (rt_objects rt ! j) = OBJECT_CELLS sp" "k < sp_length sp" "a = sp_offset sp + k"
    using indexed_cell_Inr by blast
  let ?W = "set_cell a (frothy_value_to_cell s)"
  have "\<exists>rt1. frothy_value_release (outs rt j ! k) rt = (Inr (), rt1) \<and> rt_sound e (?W rt1)"
    using live_positive [OF ok j(1)] j held
    by (intro replace_ref_sound [OF ok]) (simp_all add: outs_cells store_cell_ref)
  moreover have "outs rt j ! k = frothy_cellspace_value rt a" using j by (simp add: outs_cells)
  ultimately obtain rt1 where rt1: "frothy_value_release (frothy_cellspace_value rt a) rt = (Inr (), rt1)"
    "rt_sound e (?W rt1)" by auto
  moreover have "rt_frame (?W rt1) = rt_frame rt" using release_frame_eq [OF rt1(1)] by (simp add: rt_frames)
  ultimately show ?thesis using Inr by (simp add: frothy_write_index_owned_def and_then_def)
qed (simp add: frothy_write_index_owned_def)

subsection \<open>Fields\<close>

lemma find_string_bound: "find_string w i n rest = Inr k \<Longrightarrow> i \<le> k \<and> k < i + n"
proof (induction n arbitrary: i rest)
  case (Suc n)
  then show ?case by (fastforce simp: FROTH_TRY_Inr_iff split: if_splits)
qed simp

text \<open>The definition of a record, read from its bytes, has as many fields as the record.\<close>

lemma field_index_in_record:
  assumes ok: "rt_sound e rt" and i: "frothy_runtime_get_live_object_id rt v = Inr i"
    and ob: "ob_as (rt_objects rt ! i) = OBJECT_RECORD p d n"
    and k: "frothy_runtime_record_def_field_index rt d name = Inr k"
  shows "k < n"
proof -
  have "record_sound rt (OBJECT_RECORD p d n)"
    using rt_soundD(2) [OF ok] live_positive [OF ok i] ob unfolding records_ok_def by metis
  then obtain nm where "frothy_runtime_get_record_def rt d = Inr (nm, n)" by (auto simp: record_sound_def)
  then obtain j q m rest where j: "frothy_runtime_get_live_object_id rt d = Inr j"
    "ob_as (rt_objects rt ! j) = OBJECT_RECORD_DEF q m"
    "frothy_runtime_record_def_object_view rt (OBJECT_RECORD_DEF q m) = Inr (nm, n, rest)"
    by (auto simp: get_record_def_Inr)
  then have "find_string name 0 n rest = Inr k"
    using k by (simp add: frothy_runtime_record_def_field_index_def frothy_runtime_get_object_def)
  then show ?thesis using find_string_bound by fastforce
qed

lemma record_field_value_Inr:
  assumes "rt_sound e rt" "record_field_value rt v name = Inr w"
  shows "\<exists>i p d n k. frothy_runtime_get_live_object_id rt v = Inr i \<and>
    ob_as (rt_objects rt ! i) = OBJECT_RECORD p d n \<and> k < n \<and> w = record_field_at rt p k"
proof -
  obtain i p d n where i: "frothy_runtime_get_live_object_id rt v = Inr i"
    "ob_as (rt_objects rt ! i) = OBJECT_RECORD p d n"
    and k: "FROTH_TRY (frothy_runtime_record_def_field_index rt d name) (\<lambda>k.
      Inr (record_field_at rt p k)) = Inr w"
    using assms(2) by (auto simp: record_field_value_def frothy_runtime_get_object_def FROTH_TRY_Inr_iff
        is_OBJECT_RECORD_def Let_def split: if_splits)
  from k obtain k where "frothy_runtime_record_def_field_index rt d name = Inr k" "w = record_field_at rt p k"
    by (auto simp: FROTH_TRY_Inr_iff)
  then show ?thesis using i field_index_in_record [OF assms(1) i] by blast
qed

lemma record_field_held:
  assumes ok: "rt_sound e rt" and w: "record_field_value rt v name = Inr w" "frothy_value_is_object_ref w"
  shows "0 < rc rt (frothy_value_object_index w)"
proof -
  obtain i p d n k where i: "frothy_runtime_get_live_object_id rt v = Inr i"
    "ob_as (rt_objects rt ! i) = OBJECT_RECORD p d n" "k < n" "w = record_field_at rt p k"
    using record_field_value_Inr [OF ok w(1)] by blast
  then have "w \<in> set (outs rt i)" by (simp add: outs_record)
  then show ?thesis using stored_ref_counted [OF ok] live_positive [OF ok i(1)] w(2) by blast
qed


lemma store_field_ref:
  assumes st: "store_ok [] [] rt" and i: "i < length (rt_objects rt)" "ob_live (rt_objects rt ! i)"
    and ob: "ob_as (rt_objects rt ! i) = OBJECT_RECORD p d n" and k: "k < n"
  shows "stores_ref i k s rt (store_word (sp_offset p + 4 * k) s rt)"
proof -
  let ?off = "sp_offset p + 4 * k"
  note w = store_field_ok [OF st i ob k, where v = s]
  have ok: "payload_ok [] rt" "table_ok rt" using st by (simp_all add: store_ok_def)
  have shape: "0 < n" "4 * n \<le> sp_length p"
    using ok(2) i ob by (auto simp: table_ok_def ob_shape_def)
  then have pin: "p \<in> set (ob_payload (rt_objects rt ! i))" using i ob by (simp add: ob_payload_def)
  have within: "?off + length (le32 s) \<le> length (rt_payload_bytes rt)"
    using owned_payload_within [OF ok(1) i(1) pin] shape k by simp
  have "load_at (rt_payload_bytes (store_word ?off s rt)) (sp_offset q) (sp_length q) =
      load_at (rt_payload_bytes rt) (sp_offset q) (sp_length q)"
    if j: "j < length (rt_objects rt)" "ob_live (rt_objects rt ! j)"
      "ob_as (rt_objects rt ! j) = OBJECT_RECORD_DEF q m" "0 < sp_length q" for j q m
  proof -
    have "i \<noteq> j" using ob j(3) by auto
    then have "sp_end p \<le> sp_offset q \<or> sp_end q \<le> sp_offset p"
      using payload_disjoint [OF ok(1) _ i(1) j(1) pin] j by (simp add: ob_payload_def)
    then have "sp_offset q + sp_length q \<le> ?off \<or> ?off + length (le32 s) \<le> sp_offset q"
      using shape k by auto
    from load_store_disjoint [OF within this] show ?thesis by (simp add: store_word_def)
  qed
  then show ?thesis using w by (simp add: stores_ref_def rt_frames store_word_def)
qed

lemma write_field_sound:
  assumes ok: "rt_sound (\<lambda>x. e x + refs s x) rt"
    and held: "frothy_value_is_object_ref b \<Longrightarrow> 0 < e (frothy_value_object_index b)"
  shows "(\<exists>err. frothy_write_field_owned b name s rt = (Inl err, rt)) \<or>
    (\<exists>rt'. frothy_write_field_owned b name s rt = (Inr (), rt') \<and> rt_sound e rt' \<and> rt_frame rt' = rt_frame rt)"
proof (cases "FROTH_TRY (frothy_record_value_allowed rt s) (\<lambda>u.
    FROTH_TRY (frothy_runtime_get_object rt b is_OBJECT_RECORD) (\<lambda>ob.
    FROTH_TRY (frothy_runtime_record_def_field_index rt (record_definition ob) name) (\<lambda>i.
    Inr (as_payload ob, i))))")
  case (Inl err)
  then show ?thesis
    by (simp add: frothy_write_field_owned_def frothy_runtime_record_write_field_def)
next
  case (Inr q)
  then obtain ob k where ob: "frothy_runtime_get_object rt b is_OBJECT_RECORD = Inr ob"
    and k: "frothy_runtime_record_def_field_index rt (record_definition ob) name = Inr k"
    and q: "q = (as_payload ob, k)" by (auto simp: FROTH_TRY_Inr_iff)
  obtain i p d n where i: "frothy_runtime_get_live_object_id rt b = Inr i"
    "ob_as (rt_objects rt ! i) = OBJECT_RECORD p d n" and ob': "ob = OBJECT_RECORD p d n"
    using ob by (auto simp: frothy_runtime_get_object_def FROTH_TRY_Inr_iff is_OBJECT_RECORD_def Let_def
        split: if_splits)
  have kn: "k < n" using field_index_in_record [OF ok i] k by (simp add: ob')
  let ?W = "store_word (sp_offset p + 4 * k) s"
  note l = live_positive [OF ok i(1)]
  have "0 < e i" using l held by blast
  then have "\<exists>rt1. frothy_value_release (outs rt i ! k) rt = (Inr (), rt1) \<and> rt_sound e (?W rt1)"
    using kn i(2)
    by (intro replace_ref_sound [OF ok]) (simp_all add: outs_record store_field_ref)
  moreover have "outs rt i ! k = record_field_at rt p k" using kn by (simp add: outs_record [OF i(2)] nth_append)
  ultimately obtain rt1 where rt1: "frothy_value_release (record_field_at rt p k) rt = (Inr (), rt1)"
    "rt_sound e (?W rt1)" by auto
  moreover have "rt_frame (?W rt1) = rt_frame rt" using release_frame_eq [OF rt1(1)] by (simp add: rt_frames)
  ultimately show ?thesis
    using Inr q ob' by (simp add: frothy_write_field_owned_def frothy_runtime_record_write_field_def)
qed

subsection \<open>Built-in operations\<close>

lemma immediate_refs [simp]:
  "refs (frothy_value_make_bool b) x = 0" "frothy_value_make_int i = Inr v \<Longrightarrow> refs v x = 0"
proof -
  show "refs (frothy_value_make_bool b) x = 0" by (cases b) (simp_all add: refs_def)
  have "\<not> frothy_value_is_object_ref (push_bit 2 i)"
    using is_int_push_bit [of i] tag_exclusive(1) by blast
  then show "frothy_value_make_int i = Inr v \<Longrightarrow> refs v x = 0"
    by (auto simp: frothy_value_make_int_def refs_def split: if_splits)
qed

lemma int_builtin_refs: "int_builtin b l r = Inr v \<Longrightarrow> refs v x = 0"
  by (cases b) (auto simp: frothy_make_wrapped_int_def split: if_splits)

lemma yields_pure:
  assumes "rt_sound e rt" "\<And>v x. r = Inr v \<Longrightarrow> refs v x = 0"
  shows "yields e rt (r, rt)"
  using assms by (cases r) simp_all

lemma eval_builtin_sound:
  assumes ok: "rt_sound e rt"
  shows "yields e rt (frothy_eval_builtin b args rt)"
  using ok alloc_cells_sound [OF ok]
  by (cases b)
     (auto simp: frothy_eval_builtin_def FROTH_TRY_Inr_iff frothy_make_wrapped_int_def
       intro!: yields_pure [OF ok] elim: int_builtin_refs)

end
