(* ===== verification/Frothy_Eval_Slots.thy ===== *)
theory Frothy_Eval_Slots
  imports Frothy_Sound_Access
begin

section \<open>Slots own what they are bound to\<close>

text \<open>
  The references bound in the slots are counted by \<open>slot_refs\<close>. A machine is sound for the
  references \<open>e\<close> held elsewhere when its runtime is sound for \<open>e\<close> and the bindings together.
\<close>

definition impl_refs :: "slot_table \<Rightarrow> nat \<Rightarrow> nat \<Rightarrow> nat" where
  "impl_refs t i x =
     (case froth_slot_get_impl t i of Inr impl \<Rightarrow> refs (frothy_value_from_cell impl) x | Inl e \<Rightarrow> 0)"

definition slot_refs :: "slot_table \<Rightarrow> nat \<Rightarrow> nat" where
  "slot_refs t x = (\<Sum>i\<in>{..<st_pointer t}. impl_refs t i x)"

definition names_ok :: "froth_heap \<times> slot_table \<Rightarrow> bool" where
  "names_ok st \<longleftrightarrow> length (st_slots (snd st)) = FROTH_SLOT_TABLE_SIZE \<and>
     st_pointer (snd st) \<le> FROTH_SLOT_TABLE_SIZE"

lemma slot_refs_bound: "names_ok st \<Longrightarrow> slot_refs (snd st) x \<le> FROTH_SLOT_TABLE_SIZE"
proof -
  assume "names_ok st"
  moreover have "slot_refs (snd st) x \<le> (\<Sum>i\<in>{..<st_pointer (snd st)}. 1)"
    unfolding slot_refs_def
    by (rule sum_mono) (use refs_le_1 in \<open>auto simp: impl_refs_def split: sum.splits\<close>)
  ultimately show ?thesis by (simp add: names_ok_def)
qed

lemma get_impl_assigned: "froth_slot_get_impl t i = Inr c \<Longrightarrow> index_has_slot_assigned t i"
  by (simp add: froth_slot_get_impl_def split: if_splits)

lemma impl_refs_le:
  assumes "froth_slot_get_impl t i = Inr c"
  shows "refs (frothy_value_from_cell c) x \<le> slot_refs t x"
proof -
  have "i < st_pointer t" using get_impl_assigned [OF assms] by (simp add: index_has_slot_assigned_def)
  then have "impl_refs t i x \<le> slot_refs t x" unfolding slot_refs_def by (intro member_le_sum) simp_all
  then show ?thesis by (simp add: impl_refs_def assms)
qed

subsection \<open>Updates of the table\<close>

lemma assigned_in_table:
  "names_ok (h, t) \<Longrightarrow> index_has_slot_assigned t i \<Longrightarrow> i < st_pointer t \<and> i < length (st_slots t)"
  by (simp add: names_ok_def index_has_slot_assigned_def)

text \<open>An update that leaves name and binding alone changes no reference.\<close>

lemma slot_update_refs:
  assumes "slot_update i f t = (Inr u, t')" "names_ok (h, t)"
    and "\<And>s. sl_name (f s) = sl_name s"
  shows "names_ok (h, t')" "index_has_slot_assigned t' = index_has_slot_assigned t"
    "j \<noteq> i \<Longrightarrow> impl_refs t' j x = impl_refs t j x" "st_pointer t' = st_pointer t"
    "st_slots t' ! i = f (st_slots t ! i)"
proof -
  have t': "t' = t\<lparr>st_slots := (st_slots t)[i := f (st_slots t ! i)]\<rparr>" "index_has_slot_assigned t i"
    using assms(1) by (auto simp: slot_update_def split: if_splits)
  note i = assigned_in_table [OF assms(2) t'(2)]
  show "names_ok (h, t')" "st_pointer t' = st_pointer t" using assms(2) by (simp_all add: t' names_ok_def)
  show a: "index_has_slot_assigned t' = index_has_slot_assigned t"
    using i assms(3) by (auto simp: t' index_has_slot_assigned_def fun_eq_iff nth_list_update)
  show "j \<noteq> i \<Longrightarrow> impl_refs t' j x = impl_refs t j x"
    using a by (simp add: impl_refs_def froth_slot_get_impl_def t')
  show "st_slots t' ! i = f (st_slots t ! i)" using i by (simp add: t')
qed

lemma slot_refs_split:
  "i < st_pointer t \<Longrightarrow> slot_refs t x = impl_refs t i x + (\<Sum>j\<in>{..<st_pointer t} - {i}. impl_refs t j x)"
  unfolding slot_refs_def by (rule sum.remove) simp_all

lemma slot_update_keeps_refs:
  assumes "slot_update i f t = (Inr u, t')" "names_ok (h, t)"
    and "\<And>s. sl_name (f s) = sl_name s \<and> sl_impl (f s) = sl_impl s \<and> sl_impl_bound (f s) = sl_impl_bound s"
  shows "slot_refs t' = slot_refs t"
proof
  fix x
  note u = slot_update_refs [OF assms(1,2)] assms(3)
  have "impl_refs t' i x = impl_refs t i x"
    using u by (simp add: impl_refs_def froth_slot_get_impl_def)
  then have "impl_refs t' j x = impl_refs t j x" for j using u(3) assms(3) by (cases "j = i") simp_all
  then show "slot_refs t' x = slot_refs t x" using u(4) assms(3) by (simp add: slot_refs_def)
qed

lemma set_impl_refs:
  assumes "froth_slot_set_impl i c t = (Inr u, t')" "names_ok (h, t)"
  shows "slot_refs t' x + impl_refs t i x = slot_refs t x + refs (frothy_value_from_cell c) x"
proof -
  note su = assms(1) [unfolded froth_slot_set_impl_def]
  note u = slot_update_refs [OF su assms(2)]
  have as: "index_has_slot_assigned t i" using su by (auto simp: slot_update_def split: if_splits)
  then have i: "i < st_pointer t" by (simp add: index_has_slot_assigned_def)
  have "impl_refs t' i x = refs (frothy_value_from_cell c) x"
    using u as by (simp add: impl_refs_def froth_slot_get_impl_def)
  moreover have "(\<Sum>j\<in>{..<st_pointer t} - {i}. impl_refs t' j x)
      = (\<Sum>j\<in>{..<st_pointer t} - {i}. impl_refs t j x)"
    by (rule sum.cong) (use u(3) in simp_all)
  ultimately show ?thesis
    using slot_refs_split [OF i, of x] slot_refs_split [of i t' x] i u(4) by simp
qed

definition fresh_slot :: "32 word \<Rightarrow> froth_slot" where
  "fresh_slot loc = \<lparr>sl_name = Some (unat loc), sl_impl = 0, sl_prim = None, sl_overlay = 0,
     sl_impl_bound = 0, sl_in_arity = FROTH_SLOT_ARITY_UNKNOWN, sl_out_arity = FROTH_SLOT_ARITY_UNKNOWN\<rparr>"

lemma slot_create_shape:
  assumes "froth_slot_create_n name (heap, t) = (Inr i, (heap', t'))"
  shows "\<exists>loc. st_slots t' = (st_slots t)[st_pointer t := fresh_slot loc] \<and>
    st_pointer t' = Suc (st_pointer t) \<and> st_pointer t < FROTH_SLOT_TABLE_SIZE \<and> i = st_pointer t"
proof -
  have room: "st_pointer t < FROTH_SLOT_TABLE_SIZE"
    using assms by (simp add: froth_slot_create_n_def split: if_splits)
  obtain r h where al: "froth_heap_allocate_bytes (word_of_nat (length name + 1)) heap = (r, h)" by fastforce
  show ?thesis
  proof (cases r)
    case (Inr loc)
    have "i = st_pointer t \<and> st_slots t' = (st_slots t)[st_pointer t := fresh_slot loc] \<and>
      st_pointer t' = Suc (st_pointer t)"
      using assms room unfolding froth_slot_create_n_def prod.case al Inr sum.case Let_def
      by (simp only: not_le [symmetric] if_False prod.inject sum.inject) (auto simp: fresh_slot_def)
    then show ?thesis using room by blast
  qed (use assms room al in \<open>simp add: froth_slot_create_n_def\<close>)
qed

lemma slot_create_refs:
  assumes "froth_slot_create name st = (r, st')" "names_ok st"
  shows "names_ok st'" "slot_refs (snd st') = slot_refs (snd st)"
    "r = Inr i \<Longrightarrow> index_has_slot_assigned (snd st') i"
proof -
  obtain heap t where st: "st = (heap, t)" by fastforce
  have "names_ok st' \<and> slot_refs (snd st') = slot_refs (snd st) \<and>
    (\<forall>i. r = Inr i \<longrightarrow> index_has_slot_assigned (snd st') i)"
  proof (cases r)
    case (Inl e)
    then have "st' = st"
      using assms(1) slot_create_Inl by (simp add: froth_slot_create_def)
    then show ?thesis using assms(2) Inl by simp
  next
    case (Inr i)
    obtain heap' t' where st': "st' = (heap', t')" by fastforce
    have create: "froth_slot_create_n (c_string name) (heap, t) = (Inr i, (heap', t'))"
      using assms(1) by (simp add: froth_slot_create_def st st' Inr)
    from slot_create_shape [OF create] obtain loc where
      sl: "st_slots t' = (st_slots t)[st_pointer t := fresh_slot loc]"
      and new: "st_pointer t' = Suc (st_pointer t)" "st_pointer t < FROTH_SLOT_TABLE_SIZE" "i = st_pointer t"
      by blast
    have len: "st_pointer t < length (st_slots t)" using assms(2) new(2) by (simp add: names_ok_def st)
    have "impl_refs t' j x = impl_refs t j x" if "j < st_pointer t" for j x
      using that by (simp add: impl_refs_def froth_slot_get_impl_def index_has_slot_assigned_def new(1) sl fresh_slot_def)
    moreover have "impl_refs t' (st_pointer t) x = 0" for x
      using len by (simp add: impl_refs_def froth_slot_get_impl_def index_has_slot_assigned_def new(1) sl fresh_slot_def)
    ultimately have "slot_refs t' = slot_refs t"
      by (simp add: slot_refs_def fun_eq_iff new(1) lessThan_Suc)
    moreover have "names_ok st'" using assms(2) new sl by (simp add: names_ok_def st st')
    moreover have "index_has_slot_assigned t' i"
      using len new sl by (simp add: fresh_slot_def index_has_slot_assigned_def)
    ultimately show ?thesis using Inr by (simp add: st st')
  qed
  then show "names_ok st'" "slot_refs (snd st') = slot_refs (snd st)"
    "r = Inr i \<Longrightarrow> index_has_slot_assigned (snd st') i" by blast+
qed

lemma slot_find_loop_bound:
  "slot_find_loop heap name ss ip = Inr i \<Longrightarrow> ip \<le> i \<and> i < ip + length ss \<and> sl_name (ss ! (i - ip)) \<noteq> None"
proof (induction ss arbitrary: ip)
  case (Cons s ss)
  have step: "slot_find_loop heap name ss (Suc ip) = Inr i \<Longrightarrow>
    ip \<le> i \<and> i < ip + length (s # ss) \<and> sl_name ((s # ss) ! (i - ip)) \<noteq> None"
    using Cons.IH [of "Suc ip"] by (auto simp: nth_Cons' Suc_diff_Suc)
  show ?case
  proof (cases "sl_name s")
    case None
    then show ?thesis using Cons.prems step by simp
  next
    case (Some off)
    then show ?thesis using Cons.prems step
      by (cases "froth_slot_name_matches heap off name") auto
  qed
qed simp

lemma slot_find_assigned:
  "froth_slot_find_name st name = Inr i \<Longrightarrow> index_has_slot_assigned (snd st) i"
  unfolding froth_slot_find_name_def froth_slot_find_name_n_def
  by (drule slot_find_loop_bound) (auto simp: index_has_slot_assigned_def)

end
