(* ===== verification/Frothy_Eval_Stack.thy ===== *)
theory Frothy_Eval_Stack
  imports Frothy_Eval_Slots
begin

section \<open>The frame stack of the evaluator\<close>

text \<open>
  What a frame expects of the frame above it. The stack is looked at from the top, so lists of
  frames here are the reverse of \<open>mc_frames\<close>: the head is the frame on top, and a frame with the
  list \<open>r\<close> below it has the index \<open>length r\<close>.

  A frame that waits for a child gets the child's result either in a place of its own (a scratch
  value or an entry of its argument buffer), or, in its last phase, directly in its own result
  place. \<open>awaited\<close> says that the places where results are still to come hold no reference, so that
  writing a result there loses nothing; \<open>clean\<close> says the same of the scratch values and buffer
  entries a frame has not used yet. The buffers of the frames tile the value arena above \<open>A\<close>.
\<close>

definition f_node :: "frothy_eval_frame \<Rightarrow> frothy_ir_node" where
  "f_node f = ir_nodes (fr_program f) ! fr_node_id f"

fun tail_phase :: "frothy_ir_node \<Rightarrow> nat \<Rightarrow> bool" where
  "tail_phase (NODE_CALL c g a n) p = (p = 3)"
| "tail_phase (NODE_IF c t e h) p = (p = 2)"
| "tail_phase (NODE_SEQ a n) p = (p = 2)"
| "tail_phase nd p = False"

fun is_call_node :: "frothy_ir_node \<Rightarrow> bool" where
  "is_call_node (NODE_CALL c g a n) = True" | "is_call_node nd = False"

fun call_args :: "frothy_ir_node \<Rightarrow> nat" where
  "call_args (NODE_CALL c g a n) = n" | "call_args nd = 0"

fun is_while_node :: "frothy_ir_node \<Rightarrow> bool" where
  "is_while_node (NODE_WHILE c b) = True" | "is_while_node nd = False"

definition is_tail :: "frothy_eval_frame \<Rightarrow> bool" where
  "is_tail f = tail_phase (f_node f) (fr_phase f)"

definition in_args :: "frothy_eval_frame \<Rightarrow> bool" where
  "in_args f \<longleftrightarrow> is_call_node (f_node f) \<and> fr_phase f = 2"

definition in_code :: "frothy_eval_frame \<Rightarrow> bool" where
  "in_code f \<longleftrightarrow> is_call_node (f_node f) \<and> fr_phase f = 3"

definition in_body :: "frothy_eval_frame \<Rightarrow> bool" where
  "in_body f \<longleftrightarrow> is_while_node (f_node f) \<and> fr_phase f = 2"

definition awaited_slot :: "frothy_eval_frame \<Rightarrow> nat" where
  "awaited_slot f = (if in_body f then 1 else fr_phase f - 1)"

definition free_slot :: "frothy_eval_frame \<Rightarrow> nat \<Rightarrow> bool" where
  "free_slot f s \<longleftrightarrow> (if in_body f then s \<noteq> 1 else fr_phase f \<le> s)"

abbreviation bcount :: "frothy_eval_frame \<Rightarrow> nat" where "bcount f \<equiv> bf_count (fr_buffer f)"
abbreviation bbase :: "frothy_eval_frame \<Rightarrow> nat" where "bbase f \<equiv> the (bf_values (fr_buffer f))"

definition waiting :: "frothy_eval_frame \<Rightarrow> bool" where
  "waiting f \<longleftrightarrow> fr_phase f \<noteq> 0 \<and>
     (if is_tail f then True
      else if in_args f then bf_values (fr_buffer f) \<noteq> None \<and> 0 < fr_index f \<and> fr_index f \<le> bcount f
      else awaited_slot f < 3)"

definition await :: "nat \<Rightarrow> frothy_eval_frame \<Rightarrow> out_place" where
  "await i f = (if is_tail f then fr_out f
     else if in_args f then OUT_ARENA (bbase f + (fr_index f - 1))
     else OUT_SCRATCH i (awaited_slot f))"

fun out_of :: "frothy_eval_frame list \<Rightarrow> out_place" where
  "out_of [] = OUT_CALLER"
| "out_of (g # r) = await (length r) g"

fun locals_of :: "nat option \<times> nat \<Rightarrow> frothy_eval_frame list \<Rightarrow> nat option \<times> nat" where
  "locals_of L [] = L"
| "locals_of L (g # r) =
     (if in_code g then (bf_values (fr_buffer g), bcount g) else (fr_locals g, fr_local_count g))"

definition buffer_at :: "32 word \<Rightarrow> nat \<Rightarrow> frothy_eval_frame \<Rightarrow> bool" where
  "buffer_at ep b f \<longleftrightarrow>
     (case bf_values (fr_buffer f) of
        None \<Rightarrow> bcount f = 0
      | Some c \<Rightarrow> c = b \<and> bf_arena_base (fr_buffer f) = b \<and> bf_reset_epoch (fr_buffer f) = ep)"

fun waits :: "frothy_eval_frame list \<Rightarrow> bool" where
  "waits [] = True" | "waits (g # r) = waiting g"

fun stack_ok ::
  "nat \<Rightarrow> nat option \<times> nat \<Rightarrow> 32 word \<Rightarrow> frothy_eval_frame list \<Rightarrow> nat \<Rightarrow> bool" where
  "stack_ok A L ep [] u \<longleftrightarrow> u = A"
| "stack_ok A L ep (f # r) u \<longleftrightarrow>
     fr_out f = out_of r \<and> (fr_locals f, fr_local_count f) = locals_of L r \<and>
     fr_reset_epoch f = ep \<and> waits r \<and>
     (\<exists>b. stack_ok A L ep r b \<and> u = b + bcount f \<and> buffer_at ep b f)"

definition plainv :: "frothy_value \<Rightarrow> bool" where
  "plainv v \<longleftrightarrow> \<not> frothy_value_is_object_ref v"

lemma plainv_refs [simp]: "plainv v \<Longrightarrow> refs v x = 0"
  by (simp add: plainv_def refs_def)

lemma plainv_nil [simp]: "plainv frothy_value_make_nil"
  using refs_nil unfolding plainv_def refs_def by (metis one_neq_zero)

definition clean :: "frothy_value list \<Rightarrow> frothy_eval_frame \<Rightarrow> bool" where
  "clean ar f \<longleftrightarrow> length (fr_values f) = 3 \<and>
     (\<forall>s < 3. free_slot f s \<longrightarrow> plainv (fr_values f ! s)) \<and>
     (in_args f \<longrightarrow> call_args (f_node f) \<le> bcount f \<and>
        (\<forall>k. fr_index f \<le> k \<and> k < bcount f \<longrightarrow> plainv (ar ! (bbase f + k)))) \<and>
     (is_call_node (f_node f) \<and> fr_phase f < 2 \<longrightarrow> bf_values (fr_buffer f) = None)"

text \<open>The value in the place where the frame waits for a result of its own.\<close>

definition awaited_value :: "frothy_value list \<Rightarrow> frothy_eval_frame \<Rightarrow> frothy_value" where
  "awaited_value ar f =
     (if in_args f then ar ! (bbase f + (fr_index f - 1)) else fr_values f ! awaited_slot f)"

text \<open>\<open>d\<close>: the result the topmost frame of the list waits for is already there.\<close>

fun awaited :: "bool \<Rightarrow> frothy_eval_frame list \<Rightarrow> frothy_value list \<Rightarrow> frothy_value \<Rightarrow> bool" where
  "awaited d [] ar ou \<longleftrightarrow> d \<or> plainv ou"
| "awaited d (g # r) ar ou \<longleftrightarrow>
     (if is_tail g then awaited d r ar ou
      else (d \<or> plainv (awaited_value ar g)) \<and> awaited False r ar ou)"

fun fetch :: "frothy_eval_frame list \<Rightarrow> frothy_value list \<Rightarrow> frothy_value \<Rightarrow> frothy_value" where
  "fetch [] ar ou = ou"
| "fetch (g # r) ar ou = (if is_tail g then fetch r ar ou else awaited_value ar g)"

fun deliver ::
  "frothy_value \<Rightarrow> frothy_eval_frame list \<Rightarrow> frothy_value list \<Rightarrow> frothy_value \<Rightarrow>
   frothy_eval_frame list \<times> frothy_value list \<times> frothy_value" where
  "deliver v [] ar ou = ([], ar, v)"
| "deliver v (g # r) ar ou =
     (if is_tail g then let (r', ar', ou') = deliver v r ar ou in (g # r', ar', ou')
      else if in_args g then (g # r, ar[bbase g + (fr_index g - 1) := v], ou)
      else (set_scratch (awaited_slot g) v g # r, ar, ou))"

subsection \<open>Frames that differ in their values only\<close>

lemma set_scratch_simps [simp]:
  "f_node (set_scratch s v f) = f_node f" "fr_phase (set_scratch s v f) = fr_phase f"
  "fr_index (set_scratch s v f) = fr_index f" "fr_out (set_scratch s v f) = fr_out f"
  "fr_locals (set_scratch s v f) = fr_locals f" "fr_local_count (set_scratch s v f) = fr_local_count f"
  "fr_reset_epoch (set_scratch s v f) = fr_reset_epoch f" "fr_buffer (set_scratch s v f) = fr_buffer f"
  "fr_values (set_scratch s v f) = (fr_values f)[s := v]" "fr_program (set_scratch s v f) = fr_program f"
  "fr_call_kind (set_scratch s v f) = fr_call_kind f"
  "fr_target_program (set_scratch s v f) = fr_target_program f"
  "fr_target_node (set_scratch s v f) = fr_target_node f"
  by (simp_all add: set_scratch_def f_node_def)

lemma set_scratch_kinds [simp]:
  "is_tail (set_scratch s v f) = is_tail f" "in_args (set_scratch s v f) = in_args f"
  "in_code (set_scratch s v f) = in_code f" "in_body (set_scratch s v f) = in_body f"
  by (simp_all add: is_tail_def in_args_def in_code_def in_body_def)

lemma set_scratch_waits [simp]:
  "awaited_slot (set_scratch s v f) = awaited_slot f" "free_slot (set_scratch s v f) = free_slot f"
  "waiting (set_scratch s v f) = waiting f" "await i (set_scratch s v f) = await i f"
  "buffer_at ep b (set_scratch s v f) = buffer_at ep b f"
  by (simp_all add: awaited_slot_def free_slot_def waiting_def await_def buffer_at_def fun_eq_iff
      split: option.splits)

lemma deliver_shape:
  "deliver v r ar ou = (r', ar', ou') \<Longrightarrow>
   length r' = length r \<and> out_of r' = out_of r \<and> locals_of L r' = locals_of L r \<and> waits r' = waits r \<and>
   stack_ok A L ep r' u = stack_ok A L ep r u \<and> length ar' = length ar"
proof (induction r arbitrary: r' ar' ou' u)
  case (Cons g r)
  show ?case
  proof (cases "is_tail g")
    case True
    obtain r2 ar2 ou2 where d: "deliver v r ar ou = (r2, ar2, ou2)" by (metis prod_cases3)
    then show ?thesis using Cons.IH [OF d] Cons.prems True by auto
  next
    case False
    then show ?thesis using Cons.prems by (auto split: if_splits)
  qed
qed simp

lemma stack_le: "stack_ok A L ep fs u \<Longrightarrow> A \<le> u"
  by (induction fs arbitrary: u) fastforce+

text \<open>The place of a result lies in what the stack uses of the arena.\<close>

lemma deliver_arena:
  assumes "stack_ok A L ep r b" "waits r" "deliver v r ar ou = (r', ar', ou')"
  shows "b \<le> k \<Longrightarrow> ar' ! k = ar ! k" "k < A \<Longrightarrow> ar' ! k = ar ! k"
proof -
  have "b \<le> k \<or> k < A \<longrightarrow> ar' ! k = ar ! k"
    using assms
  proof (induction r arbitrary: b r' ar' ou')
    case (Cons g r)
    obtain b0 where b0: "stack_ok A L ep r b0" "b = b0 + bcount g" "buffer_at ep b0 g" "waits r"
      using Cons.prems(1) by auto
    show ?case
    proof (cases "is_tail g")
      case True
      obtain r2 ar2 ou2 where d: "deliver v r ar ou = (r2, ar2, ou2)" by (metis prod_cases3)
      from Cons.IH [OF b0(1,4) d] show ?thesis using Cons.prems(3) True d b0(2) by auto
    next
      case False
      show ?thesis
      proof (cases "in_args g")
        case True
        have "bbase g + (fr_index g - 1) < b" "A \<le> bbase g + (fr_index g - 1)"
          using Cons.prems(2) False True b0(2,3) stack_le [OF b0(1)]
          by (auto simp: waiting_def buffer_at_def split: option.splits)
        then show ?thesis using Cons.prems(3) False True by auto
      qed (use Cons.prems(3) False in auto)
    qed
  qed simp
  then show "b \<le> k \<Longrightarrow> ar' ! k = ar ! k" "k < A \<Longrightarrow> ar' ! k = ar ! k" by blast+
qed

subsection \<open>What the stack uses of the arena\<close>

lemma stack_buffers:
  "stack_ok A L ep fs u \<Longrightarrow> g \<in> set fs \<Longrightarrow> \<exists>b. buffer_at ep b g \<and> A \<le> b \<and> b + bcount g \<le> u"
proof (induction fs arbitrary: u)
  case (Cons f r)
  then obtain b where b: "stack_ok A L ep r b" "u = b + bcount f" "buffer_at ep b f" by auto
  show ?case
  proof (cases "g = f")
    case True
    then show ?thesis using b stack_le [OF b(1)] by blast
  next
    case False
    then show ?thesis using Cons.IH [OF b(1)] Cons.prems(2) b(2) by fastforce
  qed
qed simp

text \<open>Two arenas that agree on the argument buffers in use.\<close>

definition agree :: "frothy_eval_frame list \<Rightarrow> frothy_value list \<Rightarrow> frothy_value list \<Rightarrow> bool" where
  "agree fs ar ar' \<longleftrightarrow> (\<forall>g \<in> set fs. in_args g \<longrightarrow> (\<forall>k < bcount g. ar' ! (bbase g + k) = ar ! (bbase g + k)))"

lemma agree_below: "stack_ok A L ep fs u \<Longrightarrow> (\<And>k. k < u \<Longrightarrow> ar' ! k = ar ! k) \<Longrightarrow> agree fs ar ar'"
  unfolding agree_def by (fastforce dest: stack_buffers simp: buffer_at_def split: option.splits)

lemma clean_agree: "agree fs ar ar' \<Longrightarrow> g \<in> set fs \<Longrightarrow> clean ar' g = clean ar g"
  by (auto simp: agree_def clean_def)

lemma awaited_agree:
  "stack_ok A L ep fs u \<Longrightarrow> waits fs \<Longrightarrow> agree fs ar ar' \<Longrightarrow> awaited d fs ar' ou = awaited d fs ar ou"
proof (induction fs arbitrary: u d)
  case (Cons g r)
  then obtain b where b: "stack_ok A L ep r b" "waits r" by auto
  have ag: "agree r ar ar'" using Cons.prems(3) by (simp add: agree_def)
  have "\<not> is_tail g \<Longrightarrow> awaited_value ar' g = awaited_value ar g"
  proof -
    assume nt: "\<not> is_tail g"
    show ?thesis
    proof (cases "in_args g")
      case True
      then have "fr_index g - 1 < bcount g" using Cons.prems(2) nt by (auto simp: waiting_def)
      then show ?thesis using Cons.prems(3) True by (simp add: awaited_value_def agree_def)
    qed (simp add: awaited_value_def)
  qed
  then show ?case using Cons.IH [OF b ag] by simp
qed simp

text \<open>The local variables of the top frame are below \<open>A\<close> or in the buffer of a call that runs its
code; no buffer that is being filled with arguments contains them.\<close>

definition locals_base :: "nat \<Rightarrow> nat option \<times> nat \<Rightarrow> bool" where
  "locals_base A L \<longleftrightarrow> (0 < snd L \<longrightarrow> (\<exists>a. fst L = Some a \<and> a + snd L \<le> A))"

lemma locals_place:
  "stack_ok A L ep fs u \<Longrightarrow> locals_base A L \<Longrightarrow> locals_of L fs = (ls, lc) \<Longrightarrow> i < lc \<Longrightarrow>
   \<exists>a. ls = Some a \<and> a + i < u \<and>
     (\<forall>g \<in> set fs. in_args g \<longrightarrow> bf_values (fr_buffer g) \<noteq> None \<longrightarrow> \<not> (bbase g \<le> a + i \<and> a + i < bbase g + bcount g))"
proof (induction fs arbitrary: u ls lc)
  case Nil
  then show ?case by (auto simp: locals_base_def)
next
  case (Cons g r)
  then obtain b where b: "stack_ok A L ep r b" "u = b + bcount g" "buffer_at ep b g"
    "(fr_locals g, fr_local_count g) = locals_of L r" by auto
  show ?case
  proof (cases "in_code g")
    case True
    then have ls: "ls = bf_values (fr_buffer g)" "lc = bcount g" using Cons.prems(3) by auto
    then have a: "ls = Some b" using b(3) Cons.prems(4) by (auto simp: buffer_at_def split: option.splits)
    have "\<not> in_args g" using True by (simp add: in_args_def in_code_def)
    moreover have "\<not> (bbase h \<le> b + i \<and> b + i < bbase h + bcount h)"
      if "h \<in> set r" "bf_values (fr_buffer h) \<noteq> None" for h
      using stack_buffers [OF b(1) that(1)] that(2) by (auto simp: buffer_at_def)
    ultimately show ?thesis using a b(2) ls(2) Cons.prems(4) by auto
  next
    case False
    then have "locals_of L r = (ls, lc)" using Cons.prems(3) b(4) by simp
    from Cons.IH [OF b(1) Cons.prems(2) this Cons.prems(4)] obtain a where
      a: "ls = Some a" "a + i < b" "\<forall>g \<in> set r. in_args g \<longrightarrow> bf_values (fr_buffer g) \<noteq> None \<longrightarrow>
        \<not> (bbase g \<le> a + i \<and> a + i < bbase g + bcount g)" by blast
    moreover have "bf_values (fr_buffer g) \<noteq> None \<longrightarrow> bbase g = b" using b(3) by (auto simp: buffer_at_def)
    ultimately show ?thesis using b(2) by auto
  qed
qed

lemma locals_low:
  "stack_ok A L ep fs u \<Longrightarrow> lo \<le> A \<Longrightarrow> 0 < snd L \<longrightarrow> lo \<le> the (fst L) \<Longrightarrow>
   locals_of L fs = (ls, lc) \<Longrightarrow> 0 < lc \<Longrightarrow> lo \<le> the ls"
proof (induction fs arbitrary: u ls lc)
  case (Cons g r)
  then obtain b where b: "stack_ok A L ep r b" "buffer_at ep b g"
    "(fr_locals g, fr_local_count g) = locals_of L r" by auto
  show ?case
  proof (cases "in_code g")
    case True
    then have "ls = bf_values (fr_buffer g)" "lc = bcount g" using Cons.prems(4) by auto
    then show ?thesis
      using b(2) Cons.prems(2,5) stack_le [OF b(1)] by (auto simp: buffer_at_def split: option.splits)
  next
    case False
    then have "locals_of L r = (ls, lc)" using Cons.prems(4) b(3) by simp
    from Cons.IH [OF b(1) Cons.prems(2,3) this Cons.prems(5)] show ?thesis .
  qed
qed simp

lemma agree_local:
  assumes "stack_ok A L ep fs u"
    and "\<forall>g \<in> set fs. in_args g \<longrightarrow> bf_values (fr_buffer g) \<noteq> None \<longrightarrow> \<not> (bbase g \<le> j \<and> j < bbase g + bcount g)"
  shows "agree fs ar (ar[j := v])"
  unfolding agree_def
proof (intro ballI impI allI)
  fix g k assume g: "g \<in> set fs" "in_args g" "k < bcount g"
  have "bf_values (fr_buffer g) \<noteq> None"
    using stack_buffers [OF assms(1) g(1)] g(3) by (auto simp: buffer_at_def split: option.splits)
  then have "bbase g + k \<noteq> j" using assms(2) g by fastforce
  then show "ar[j := v] ! (bbase g + k) = ar ! (bbase g + k)" by simp
qed

subsection \<open>Delivering a result\<close>

lemma in_args_buffer:
  assumes "buffer_at ep b g" "waiting g" "\<not> is_tail g" "in_args g"
  shows "bbase g = b" "0 < fr_index g" "fr_index g \<le> bcount g"
  using assms by (auto simp: waiting_def buffer_at_def)

lemma deliver_clean:
  "stack_ok A L ep r b \<Longrightarrow> waits r \<Longrightarrow> (\<And>g. g \<in> set r \<Longrightarrow> clean ar g) \<Longrightarrow>
   deliver v r ar ou = (r', ar', ou') \<Longrightarrow> g \<in> set r' \<Longrightarrow> clean ar' g"
proof (induction r arbitrary: b r' ar' ou' g)
  case (Cons h r)
  obtain b0 where b0: "stack_ok A L ep r b0" "b = b0 + bcount h" "buffer_at ep b0 h" "waits r"
    using Cons.prems(1) by auto
  have cl: "clean ar h" "g \<in> set r \<Longrightarrow> clean ar g" for g using Cons.prems(3) by simp_all
  show ?case
  proof (cases "is_tail h")
    case True
    then have "\<not> in_args h" by (cases "f_node h") (simp_all add: is_tail_def in_args_def)
    then have "clean ar' h" using cl(1) by (simp add: clean_def)
    moreover obtain r2 ar2 ou2 where d: "deliver v r ar ou = (r2, ar2, ou2)" by (metis prod_cases3)
    ultimately show ?thesis using Cons.IH [OF b0(1,4) cl(2) d] Cons.prems(4,5) True by auto
  next
    case False
    have wait: "waiting h" using Cons.prems(2) by simp
    show ?thesis
    proof (cases "in_args h")
      case True
      note ib = in_args_buffer [OF b0(3) wait False True]
      have "clean ar' h"
        using cl(1) Cons.prems(4) False True ib by (auto simp: clean_def)
      moreover have "agree r ar ar'"
        by (rule agree_below [OF b0(1)]) (use Cons.prems(4) False True ib in auto)
      ultimately show ?thesis
        using Cons.prems(4,5) False True clean_agree [of r ar ar'] cl(2) by auto
    next
      case no: False
      have "\<not> free_slot h (awaited_slot h)"
        using wait False no by (auto simp: waiting_def free_slot_def awaited_slot_def)
      then have "clean ar (set_scratch (awaited_slot h) v h)"
        using cl(1) no unfolding clean_def by (metis length_list_update nth_list_update_neq
            set_scratch_kinds(2) set_scratch_simps(1,2,8,9) set_scratch_waits(2))
      then show ?thesis using Cons.prems(4,5) False no cl(2) by auto
    qed
  qed
qed simp

lemma deliver_awaited:
  "stack_ok A L ep r b \<Longrightarrow> waits r \<Longrightarrow> awaited False r ar ou \<Longrightarrow>
   deliver v r ar ou = (r', ar', ou') \<Longrightarrow> awaited True r' ar' ou'"
proof (induction r arbitrary: b r' ar' ou')
  case (Cons h r)
  obtain b0 where b0: "stack_ok A L ep r b0" "b = b0 + bcount h" "buffer_at ep b0 h" "waits r"
    using Cons.prems(1) by auto
  show ?case
  proof (cases "is_tail h")
    case True
    moreover obtain r2 ar2 ou2 where d: "deliver v r ar ou = (r2, ar2, ou2)" by (metis prod_cases3)
    ultimately show ?thesis using Cons.IH [OF b0(1,4) _ d] Cons.prems(3,4) by auto
  next
    case False
    have wait: "waiting h" using Cons.prems(2) by simp
    show ?thesis
    proof (cases "in_args h")
      case True
      note ib = in_args_buffer [OF b0(3) wait False True]
      have "agree r ar ar'"
        by (rule agree_below [OF b0(1)]) (use Cons.prems(4) False True ib in auto)
      from awaited_agree [OF b0(1,4) this] show ?thesis using Cons.prems(3,4) False True by auto
    qed (use Cons.prems(3,4) False in auto)
  qed
qed simp

text \<open>What the frames, the arena and the caller's variable hold together.\<close>

definition holds ::
  "frothy_eval_frame list \<Rightarrow> frothy_value list \<Rightarrow> nat \<Rightarrow> frothy_value \<Rightarrow> nat \<Rightarrow> nat" where
  "holds fs ar u ou x = refs ou x + (\<Sum>f\<leftarrow>fs. refs_in (fr_values f) x) + refs_in (take u ar) x"

lemma holds_arena_update:
  assumes "k < u" "u \<le> length ar"
  shows "holds fs (ar[k := v]) u ou x + refs (ar ! k) x = holds fs ar u ou x + refs v x"
  using refs_in_update [of k "take u ar" v x] assms by (simp add: holds_def take_update_swap [symmetric])

lemma deliver_holds:
  "stack_ok A L ep r b \<Longrightarrow> waits r \<Longrightarrow> (\<And>g. g \<in> set r \<Longrightarrow> clean ar g) \<Longrightarrow> awaited False r ar ou \<Longrightarrow>
   deliver v r ar ou = (r', ar', ou') \<Longrightarrow> b \<le> u \<Longrightarrow> u \<le> length ar \<Longrightarrow>
   holds r' ar' u ou' x = holds r ar u ou x + refs v x"
proof (induction r arbitrary: b r' ar' ou')
  case (Cons h r)
  obtain b0 where b0: "stack_ok A L ep r b0" "b = b0 + bcount h" "buffer_at ep b0 h" "waits r"
    using Cons.prems(1) by auto
  show ?case
  proof (cases "is_tail h")
    case True
    moreover obtain r2 ar2 ou2 where d: "deliver v r ar ou = (r2, ar2, ou2)" by (metis prod_cases3)
    moreover have "holds r2 ar2 u ou2 x = holds r ar u ou x + refs v x"
      using Cons.IH [OF b0(1,4) _ _ d] Cons.prems(3,4,6,7) True b0(2) by auto
    ultimately show ?thesis using Cons.prems(5) by (auto simp: holds_def)
  next
    case False
    have wait: "waiting h" using Cons.prems(2) by simp
    have plain: "refs (awaited_value ar h) x = 0" using Cons.prems(4) False by simp
    show ?thesis
    proof (cases "in_args h")
      case True
      note ib = in_args_buffer [OF b0(3) wait False True]
      have "b0 + (fr_index h - 1) < u" using ib b0(2) Cons.prems(6) by linarith
      from holds_arena_update [OF this Cons.prems(7), of "h # r" v ou x] show ?thesis
        using Cons.prems(5) False True plain ib by (auto simp: awaited_value_def)
    next
      case no: False
      have "awaited_slot h < length (fr_values h)"
        using wait False no Cons.prems(3) [of h] by (auto simp: waiting_def clean_def)
      from refs_in_update [OF this, of v x] show ?thesis
        using Cons.prems(5) False no plain by (auto simp: holds_def awaited_value_def)
    qed
  qed
qed (simp add: holds_def)

end
