(* ===== verification/Frothy_Eval_Inv.thy ===== *)
theory Frothy_Eval_Inv
  imports Frothy_Eval_Stack
begin

section \<open>The invariant of the evaluator\<close>

text \<open>
  \<open>eval_base\<close> is what an evaluation starts from: the references \<open>eb_refs\<close> held outside of the
  evaluator, the use \<open>eb_arena\<close> of the value arena below the frames, the local variables of the
  program, the reset epoch, the depth of the frame stack and the part \<open>eb_low\<close> of the arena that
  belongs to the evaluations below this one.

  \<open>core\<close> says that every reference is accounted for; \<open>sound_stack\<close> adds what the frames expect of
  each other; \<open>minv\<close> is the invariant between two iterations of the loop. After an error only
  \<open>tidy\<close> is left, which is what the clean-up needs, and after a native has reset the runtime only
  \<open>gone\<close>: nothing of the evaluator counts any more.
\<close>

record eval_base =
  eb_refs :: "nat \<Rightarrow> nat"
  eb_arena :: nat
  eb_locals :: "nat option \<times> nat"
  eb_epoch :: "32 word"
  eb_depth :: nat
  eb_low :: "frothy_value list"

abbreviation arena :: "eval_machine \<Rightarrow> frothy_value list" where
  "arena m \<equiv> rt_eval_values (mc_runtime m)"

abbreviation used :: "eval_machine \<Rightarrow> nat" where
  "used m \<equiv> rt_eval_value_used (mc_runtime m)"

abbreviation bstack :: "eval_base \<Rightarrow> frothy_eval_frame list \<Rightarrow> nat \<Rightarrow> bool" where
  "bstack b fs u \<equiv> stack_ok (eb_arena b) (eb_locals b) (eb_epoch b) fs u"

definition vm_sound :: "(nat \<Rightarrow> nat) \<Rightarrow> frothy_vm \<Rightarrow> bool" where
  "vm_sound e vm \<longleftrightarrow>
     rt_sound (\<lambda>x. e x + slot_refs (snd (vm_names vm)) x) (vm_runtime vm) \<and> names_ok (vm_names vm)"

definition arena_fits :: "frothy_runtime \<Rightarrow> bool" where
  "arena_fits rt \<longleftrightarrow> rt_eval_value_used rt \<le> rt_eval_value_limit rt \<and>
     rt_eval_value_limit rt \<le> length (rt_eval_values rt) \<and> rt_eval_value_limit rt < 2 ^ 29"

definition base_ok :: "eval_base \<Rightarrow> bool" where
  "base_ok b \<longleftrightarrow> (\<forall>x. eb_refs b x < 2 ^ 29) \<and> length (eb_low b) \<le> eb_arena b \<and>
     locals_base (eb_arena b) (eb_locals b) \<and>
     (0 < snd (eb_locals b) \<longrightarrow> length (eb_low b) \<le> the (fst (eb_locals b)))"

definition core :: "eval_base \<Rightarrow> frothy_eval_frame list \<Rightarrow> eval_machine \<Rightarrow> bool" where
  "core b fs m \<longleftrightarrow> mc_frames m = rev fs \<and> mc_base_depth m = eb_depth b \<and>
     eb_depth b + length fs \<le> FROTHY_EVAL_FRAME_CAPACITY \<and>
     vm_sound (\<lambda>x. eb_refs b x + holds fs (arena m) (used m) (mc_out m) x) (mc_vm m) \<and>
     arena_fits (mc_runtime m) \<and> rt_reset_epoch (mc_runtime m) = eb_epoch b \<and>
     take (length (eb_low b)) (arena m) = eb_low b \<and> (\<forall>f \<in> set fs. length (fr_values f) = 3)"

definition sound_stack :: "eval_base \<Rightarrow> frothy_eval_frame list \<Rightarrow> eval_machine \<Rightarrow> bool" where
  "sound_stack b fs m \<longleftrightarrow> core b fs m \<and> bstack b fs (used m) \<and>
     (\<forall>f \<in> set fs. clean (arena m) f) \<and> vm_frames_used (mc_vm m) = eb_depth b + length fs"

abbreviation results :: "bool \<Rightarrow> frothy_eval_frame list \<Rightarrow> eval_machine \<Rightarrow> bool" where
  "results d r m \<equiv> awaited d r (arena m) (mc_out m)"

fun minv :: "eval_base \<Rightarrow> frothy_eval_frame list \<Rightarrow> eval_machine \<Rightarrow> bool" where
  "minv b [] m \<longleftrightarrow> sound_stack b [] m"
| "minv b (f # r) m \<longleftrightarrow> sound_stack b (f # r) m \<and> results (is_tail f) r m"

fun tiles :: "nat \<Rightarrow> 32 word \<Rightarrow> frothy_eval_frame list \<Rightarrow> nat \<Rightarrow> bool" where
  "tiles A ep [] u \<longleftrightarrow> u = A"
| "tiles A ep (f # r) u \<longleftrightarrow> fr_reset_epoch f = ep \<and>
     (\<exists>b. tiles A ep r b \<and> u = b + bcount f \<and> buffer_at ep b f)"

abbreviation btiles :: "eval_base \<Rightarrow> frothy_eval_frame list \<Rightarrow> nat \<Rightarrow> bool" where
  "btiles b fs u \<equiv> tiles (eb_arena b) (eb_epoch b) fs u"

definition tidy :: "eval_base \<Rightarrow> eval_machine \<Rightarrow> bool" where
  "tidy b m \<longleftrightarrow> (\<exists>fs. core b fs m \<and> btiles b fs (used m) \<and> plainv (mc_out m))"

definition stale :: "32 word \<Rightarrow> frothy_eval_frame \<Rightarrow> bool" where
  "stale ep f \<longleftrightarrow> fr_reset_epoch f = ep \<and>
     (bf_values (fr_buffer f) \<noteq> None \<longrightarrow> bf_reset_epoch (fr_buffer f) = ep)"

definition gone :: "eval_base \<Rightarrow> eval_machine \<Rightarrow> bool" where
  "gone b m \<longleftrightarrow> rt_reset_epoch (mc_runtime m) \<noteq> eb_epoch b \<and> vm_sound (\<lambda>x. 0) (mc_vm m) \<and>
     used m = 0 \<and> arena_fits (mc_runtime m) \<and> mc_base_depth m = eb_depth b \<and> plainv (mc_out m) \<and>
     (\<forall>f \<in> set (mc_frames m). stale (eb_epoch b) f)"

definition outcome :: "eval_base \<Rightarrow> unit result \<times> eval_machine \<Rightarrow> bool" where
  "outcome b rm \<longleftrightarrow> gone b (snd rm) \<or>
     (case fst rm of Inl err \<Rightarrow> tidy b (snd rm) | Inr u \<Rightarrow> \<exists>fs. minv b fs (snd rm))"

text \<open>A reference in the hands of the evaluator is for a moment one of the outside.\<close>

definition hold :: "frothy_value \<Rightarrow> eval_base \<Rightarrow> eval_base" where
  "hold v b = b\<lparr>eb_refs := \<lambda>x. eb_refs b x + refs v x\<rparr>"

lemma hold_simps [simp]:
  "eb_refs (hold v b) = (\<lambda>x. eb_refs b x + refs v x)" "eb_arena (hold v b) = eb_arena b"
  "eb_locals (hold v b) = eb_locals b" "eb_epoch (hold v b) = eb_epoch b"
  "eb_depth (hold v b) = eb_depth b" "eb_low (hold v b) = eb_low b"
  by (simp_all add: hold_def)

lemma hold_plain [simp]: "(\<And>x. refs v x = 0) \<Longrightarrow> hold v b = b"
  by (simp add: hold_def)

subsection \<open>Parts of a machine\<close>

lemma set_runtime_simps [simp]:
  "mc_runtime (set_runtime rt m) = rt" "mc_frames (set_runtime rt m) = mc_frames m"
  "mc_out (set_runtime rt m) = mc_out m" "mc_base_depth (set_runtime rt m) = mc_base_depth m"
  "vm_names (mc_vm (set_runtime rt m)) = vm_names (mc_vm m)"
  "vm_frames_used (mc_vm (set_runtime rt m)) = vm_frames_used (mc_vm m)"
  "vm_boot_complete (mc_vm (set_runtime rt m)) = vm_boot_complete (mc_vm m)"
  by (simp_all add: set_runtime_def)

lemma set_top_simps [simp]:
  "mc_vm (set_top f m) = mc_vm m" "mc_out (set_top f m) = mc_out m"
  "mc_base_depth (set_top f m) = mc_base_depth m"
  "mc_frames (set_top f m) = butlast (mc_frames m) @ [f]"
  by (simp_all add: set_top_def)

lemma top_of_stack [simp]: "mc_frames m = rev (f # r) \<Longrightarrow> mc_top m = f"
  by (simp add: mc_top_def)

lemma coreD:
  assumes "core b fs m"
  shows "mc_frames m = rev fs" "mc_base_depth m = eb_depth b"
    "eb_depth b + length fs \<le> FROTHY_EVAL_FRAME_CAPACITY"
    "vm_sound (\<lambda>x. eb_refs b x + holds fs (arena m) (used m) (mc_out m) x) (mc_vm m)"
    "arena_fits (mc_runtime m)" "rt_reset_epoch (mc_runtime m) = eb_epoch b"
    "take (length (eb_low b)) (arena m) = eb_low b" "\<And>f. f \<in> set fs \<Longrightarrow> length (fr_values f) = 3"
  using assms by (simp_all add: core_def)

lemma sound_stackD:
  assumes "sound_stack b fs m"
  shows "core b fs m" "bstack b fs (used m)" "\<And>f. f \<in> set fs \<Longrightarrow> clean (arena m) f"
    "vm_frames_used (mc_vm m) = eb_depth b + length fs"
  using assms by (simp_all add: sound_stack_def)

lemma core_top: "core b (f # r) m \<Longrightarrow> mc_top m = f"
  using coreD(1) by (intro top_of_stack) blast

lemma stack_tiles: "stack_ok A L ep fs u \<Longrightarrow> tiles A ep fs u"
  by (induction fs arbitrary: u) fastforce+

lemma sound_stack_tidy: "sound_stack b fs m \<Longrightarrow> plainv (mc_out m) \<Longrightarrow> tidy b m"
  unfolding tidy_def using sound_stackD(1,2) stack_tiles by blast

lemma awaited_out: "awaited False r ar ou \<Longrightarrow> plainv ou"
  by (induction r) (auto split: if_splits)

lemma results_tidy: "sound_stack b fs m \<Longrightarrow> results False r m \<Longrightarrow> tidy b m"
  using sound_stack_tidy awaited_out by blast

text \<open>The operations on objects keep the arena, so what the frames hold is the same.\<close>

lemma core_runtime:
  assumes "core b fs m" "rt_frame rt = rt_frame (mc_runtime m)"
    and "rt_sound (\<lambda>x. eb_refs c x + slot_refs (snd (vm_names (mc_vm m))) x
      + holds fs (arena m) (used m) (mc_out m) x) rt"
    and "c = b\<lparr>eb_refs := eb_refs c\<rparr>"
  shows "core c fs (set_runtime rt m)"
proof -
  have c: "eb_depth c = eb_depth b" "eb_epoch c = eb_epoch b" "eb_low c = eb_low b"
    by (subst assms(4), simp)+
  show ?thesis
    using assms(1,3) rt_frameD [OF assms(2)] c by (simp add: core_def vm_sound_def arena_fits_def ac_simps)
qed

lemma core_sound:
  "core b fs m \<Longrightarrow> rt_sound (\<lambda>x. eb_refs b x + slot_refs (snd (vm_names (mc_vm m))) x
      + holds fs (arena m) (used m) (mc_out m) x) (mc_runtime m)"
  using coreD(4) by (simp add: vm_sound_def ac_simps)

lemma core_on_runtime:
  assumes "core b fs m" "rt_frame (snd (f (mc_runtime m))) = rt_frame (mc_runtime m)"
    and "\<And>e. rt_sound e (mc_runtime m) \<Longrightarrow> yields e (mc_runtime m) (f (mc_runtime m))"
  shows "case on_runtime f m of (Inl err, m') \<Rightarrow> core b fs m' | (Inr v, m') \<Rightarrow> core (hold v b) fs m'"
    "\<exists>rt. snd (on_runtime f m) = set_runtime rt m \<and> rt_frame rt = rt_frame (mc_runtime m)"
proof -
  obtain r rt where f: "f (mc_runtime m) = (r, rt)" by fastforce
  note y = assms(3) [OF core_sound [OF assms(1)]]
  show "case on_runtime f m of (Inl err, m') \<Rightarrow> core b fs m' | (Inr v, m') \<Rightarrow> core (hold v b) fs m'"
    using assms(2) y f
    by (cases r) (auto simp: on_runtime_def hold_def ac_simps intro!: core_runtime [OF assms(1)])
  show "\<exists>rt. snd (on_runtime f m) = set_runtime rt m \<and> rt_frame rt = rt_frame (mc_runtime m)"
    using assms(2) f by (auto simp: on_runtime_def)
qed

subsection \<open>The value arena is apart from the object store\<close>

definition same_store :: "frothy_runtime \<Rightarrow> frothy_runtime \<Rightarrow> bool" where
  "same_store rt rt' \<longleftrightarrow>
     rt_objects rt' = rt_objects rt \<and> rt_cellspace rt' = rt_cellspace rt \<and>
     rt_free_spans rt' = rt_free_spans rt \<and> rt_payload_bytes rt' = rt_payload_bytes rt \<and>
     rt_payload_free_spans rt' = rt_payload_free_spans rt \<and> rt_payload_extent rt' = rt_payload_extent rt \<and>
     rt_payload_bytes_used rt' = rt_payload_bytes_used rt \<and>
     rt_payload_capacity rt' = rt_payload_capacity rt \<and>
     rt_object_capacity rt' = rt_object_capacity rt \<and> rt_live_object_count rt' = rt_live_object_count rt"

lemma same_store_record_def:
  assumes "same_store rt rt'" "frothy_runtime_get_record_def rt d = Inr (name, n)"
  shows "frothy_runtime_get_record_def rt' d = Inr (name, n)"
  by (rule record_def_stable [OF assms(2)])
     (use assms(1) in \<open>auto simp: same_store_def get_live_object_id_Inr\<close>)

lemma same_store_sym: "same_store rt rt' \<Longrightarrow> same_store rt' rt"
  by (simp add: same_store_def)

lemma same_store_sound:
  assumes "same_store rt rt'"
  shows "rt_sound e rt' = rt_sound e rt"
proof -
  note eqs = assms [unfolded same_store_def]
  have outs: "outs rt' = outs rt"
  proof
    fix j show "outs rt' j = outs rt j"
      using eqs by (cases "ob_as (rt_objects rt ! j)")
        (simp_all add: outs_def record_field_at_def frothy_cellspace_value_def)
  qed
  have rc: "rc rt' = rc rt" using eqs by (simp add: rc_def fun_eq_iff)
  have "refs_to None rt' = refs_to None rt"
    by (rule ext, rule refs_to_cong) (use eqs in \<open>simp_all add: outs rc\<close>)
  then have cnt: "count_ok e None rt' = count_ok e None rt" by (simp add: count_ok_def rc)
  have own: "payload_owned rt' = payload_owned rt" "cells_owned rt' = cells_owned rt"
    using eqs by (simp_all add: payload_owned_def cells_owned_def)
  have st: "store_ok [] [] rt' = store_ok [] [] rt"
    using eqs by (simp add: store_ok_def payload_ok_def cells_ok_def table_ok_def own)
  have def: "frothy_runtime_get_record_def rt' d = Inr (name, n) \<longleftrightarrow>
      frothy_runtime_get_record_def rt d = Inr (name, n)" for d name n
    using same_store_record_def [OF assms, of d name n]
      same_store_record_def [OF same_store_sym [OF assms], of d name n] by blast
  have rec: "record_sound rt' ob = record_sound rt ob" for ob
    by (cases ob) (simp_all add: record_sound_def def)
  have "records_ok rt' = records_ok rt" unfolding records_ok_def rec using eqs by simp
  then show ?thesis
    using eqs cnt st by (simp add: rt_sound_def runtime_ok_def quiet_def rt_small_def)
qed

lemma same_store_eval [simp]:
  "same_store rt (rt\<lparr>rt_eval_values := a\<rparr>)"
  "same_store rt (rt\<lparr>rt_eval_values := a, rt_eval_value_used := u, rt_eval_value_high_water := h\<rparr>)"
  "same_store rt (rt\<lparr>rt_eval_value_used := u\<rparr>)"
  by (simp_all add: same_store_def)

subsection \<open>Writing a result\<close>

lemma store_at_one: "k < length ar \<Longrightarrow> store_at ar k [v] = ar[k := v]"
  by (simp add: store_at_def upd_conv_take_nth_drop)

lemma arena_store_one:
  "k < length (rt_eval_values rt) \<Longrightarrow>
   arena_store k [v] rt = rt\<lparr>rt_eval_values := (rt_eval_values rt)[k := v]\<rparr>"
  by (simp add: arena_store_def store_at_one)

definition put_at ::
  "frothy_eval_frame list \<times> frothy_value list \<times> frothy_value \<Rightarrow> frothy_eval_frame list \<Rightarrow> eval_machine \<Rightarrow>
   eval_machine" where
  "put_at q gs m = (case q of (r', ar', ou') \<Rightarrow>
     m\<lparr>mc_vm := (mc_vm m)\<lparr>vm_runtime := (mc_runtime m)\<lparr>rt_eval_values := ar'\<rparr>\<rparr>,
       mc_frames := rev (gs @ r'), mc_out := ou'\<rparr>)"

lemma set_place_deliver:
  "mc_frames m = rev (gs @ r) \<Longrightarrow> stack_ok A L ep r u \<Longrightarrow> waits r \<Longrightarrow> u \<le> length (arena m) \<Longrightarrow>
   set_place (out_of r) v m = put_at (deliver v r (arena m) (mc_out m)) gs m"
proof (induction r arbitrary: gs u)
  case Nil
  then show ?case by (simp add: put_at_def)
next
  case (Cons g r)
  obtain b where b: "stack_ok A L ep r b" "u = b + bcount g" "buffer_at ep b g" "waits r" "fr_out g = out_of r"
    using Cons.prems(2) by auto
  have idx: "mc_frames m = rev r @ g # rev gs" using Cons.prems(1) by simp
  show ?case
  proof (cases "is_tail g")
    case True
    obtain r2 ar2 ou2 where d: "deliver v r (arena m) (mc_out m) = (r2, ar2, ou2)" by (metis prod_cases3)
    have "set_place (out_of r) v m = put_at (r2, ar2, ou2) (gs @ [g]) m"
      using Cons.IH [of "gs @ [g]" b] Cons.prems b d by simp
    then show ?thesis using True d b(5) by (simp add: await_def put_at_def)
  next
    case False
    have wait: "waiting g" using Cons.prems(3) by simp
    show ?thesis
    proof (cases "in_args g")
      case True
      note ib = in_args_buffer [OF b(3) wait False True]
      then have "bbase g + (fr_index g - 1) < length (arena m)" using b(2) Cons.prems(4) by linarith
      then show ?thesis
        using False True Cons.prems(1)
        by (simp add: await_def put_at_def arena_store_one set_runtime_def)
    next
      case no: False
      have "mc_frames m ! length r = g" by (simp add: idx nth_append)
      then show ?thesis
        using False no by (simp add: await_def put_at_def idx list_update_append)
    qed
  qed
qed

lemma get_place_put: "mc_frames m = rev (gs @ r) \<Longrightarrow> stack_ok A L ep r u \<Longrightarrow> waits r \<Longrightarrow> u \<le> length (arena m) \<Longrightarrow>
   set_place (out_of r) (get_place (out_of r) m) m = m"
proof (induction r arbitrary: gs u)
  case (Cons g r)
  obtain b where b: "stack_ok A L ep r b" "u = b + bcount g" "buffer_at ep b g" "waits r" "fr_out g = out_of r"
    using Cons.prems(2) by auto
  have idx: "mc_frames m = rev r @ g # rev gs" using Cons.prems(1) by simp
  show ?case
  proof (cases "is_tail g")
    case True
    then show ?thesis using Cons.IH [of "gs @ [g]" b] Cons.prems b by (simp add: await_def)
  next
    case False
    have wait: "waiting g" using Cons.prems(3) by simp
    show ?thesis
    proof (cases "in_args g")
      case True
      note ib = in_args_buffer [OF b(3) wait False True]
      then have "bbase g + (fr_index g - 1) < length (arena m)" using b(2) Cons.prems(4) by linarith
      then show ?thesis
        using False True by (simp add: await_def arena_store_one set_runtime_def)
    next
      case no: False
      have "mc_frames m ! length r = g" by (simp add: idx nth_append)
      then show ?thesis using False no by (simp add: await_def idx list_update_append set_scratch_def)
    qed
  qed
qed simp

end
