(* ===== verification/Frothy_Eval_Moves.thy ===== *)
theory Frothy_Eval_Moves
  imports Frothy_Eval_Inv
begin

section \<open>What the parts of a step do to the invariant\<close>

text \<open>
  The pieces from which the evaluator's steps are made, and what each does to the invariant of
  \<open>Frothy_Eval_Inv\<close>: writing a result, popping a frame, changing the top frame, releasing a scratch
  value, pushing a frame for a child.
\<close>

subsection \<open>Writing a result\<close>

lemma put_sound:
  assumes ss: "sound_stack (hold v b) (f # r) m" and res: "results False r m" and ok: "base_ok b"
  shows "\<exists>r'. sound_stack b (f # r') (set_place (fr_out f) v m) \<and>
    results True r' (set_place (fr_out f) v m)"
proof -
  let ?ar = "arena m" and ?ou = "mc_out m" and ?u = "used m"
  note c = coreD [OF sound_stackD(1) [OF ss]]
  obtain b0 where b0: "bstack b r b0" "?u = b0 + bcount f" "buffer_at (eb_epoch b) b0 f" "waits r"
    "fr_out f = out_of r" using sound_stackD(2) [OF ss] by auto
  obtain r' ar' ou' where d: "deliver v r ?ar ?ou = (r', ar', ou')" by (metis prod_cases3)
  let ?m = "set_place (fr_out f) v m"
  have len: "?u \<le> length ?ar" using c(5) by (simp add: arena_fits_def)
  have cl: "\<And>g. g \<in> set r \<Longrightarrow> clean ?ar g" "clean ?ar f" using sound_stackD(3) [OF ss] by simp_all
  have m: "?m = put_at (r', ar', ou') [f] m"
    using set_place_deliver [of m "[f]" r _ _ _ b0 v] c(1) b0 len d by simp
  note sh = deliver_shape [OF d, where A = "eb_arena b" and L = "eb_locals b" and ep = "eb_epoch b"]
  note da = deliver_arena [OF b0(1,4) d]
  have cl': "clean ar' g" if "g \<in> set r'" for g by (rule deliver_clean [OF b0(1,4) cl(1) d that])
  have clf: "clean ar' f"
  proof -
    have "agree [f] ?ar ar'"
      using b0(3) da(1) by (auto simp: agree_def buffer_at_def split: option.splits)
    then show ?thesis using clean_agree [of "[f]" ?ar ar' f] cl(2) by simp
  qed
  have low: "take (length (eb_low b)) ar' = eb_low b"
  proof -
    have "length (eb_low b) \<le> eb_arena b" using ok by (simp add: base_ok_def)
    then have "ar' ! k = ?ar ! k" if "k < length (eb_low b)" for k using da(2) that by simp
    then have "take (length (eb_low b)) ar' = take (length (eb_low b)) ?ar"
      using sh by (intro nth_equalityI) simp_all
    then show ?thesis using c(7) by simp
  qed
  have "holds (f # r') ar' ?u ou' x = holds (f # r) ?ar ?u ?ou x + refs v x" for x
    using deliver_holds [OF b0(1,4) cl(1) res d _ len, of x] b0(2) by (simp add: holds_def)
  then have "vm_sound (\<lambda>x. eb_refs b x + holds (f # r') ar' ?u ou' x) (mc_vm ?m)"
    using c(4) by (simp add: m put_at_def vm_sound_def ac_simps same_store_sound [OF same_store_eval(1)])
  then have "core b (f # r') ?m"
    using c sh low cl' clf by (auto simp: core_def m put_at_def arena_fits_def clean_def)
  moreover have "bstack b (f # r') ?u" using sound_stackD(2) [OF ss] sh b0 by auto
  moreover have parts: "used ?m = ?u" "arena ?m = ar'" "mc_out ?m = ou'"
    "vm_frames_used (mc_vm ?m) = vm_frames_used (mc_vm m)" by (simp_all add: m put_at_def)
  moreover have "length r' = length r" using sh by blast
  ultimately have "sound_stack b (f # r') ?m"
    using sound_stackD(4) [OF ss] cl' clf unfolding sound_stack_def parts by simp
  moreover have "results True r' ?m"
    using deliver_awaited [OF b0(1,4) res d] parts by simp
  ultimately show ?thesis by blast
qed

subsection \<open>Popping a frame\<close>

lemma release_slots_sound:
  assumes "vm_sound (\<lambda>x. e x + refs_in vs x) vm"
  shows "vm_sound e (vm\<lparr>vm_runtime := release_ignoring vs (vm_runtime vm)\<rparr>)"
  using assms release_ignoring_sound [of "\<lambda>x. e x + slot_refs (snd (vm_names vm)) x" vs "vm_runtime vm"]
  by (simp add: vm_sound_def ac_simps)

lemma take_split: "take (b + n) ar = take b ar @ load_at ar b n"
  by (simp add: load_at_def take_add)

text \<open>The clean-up of a frame gives back its scratch values and its buffer.\<close>

lemma cleanup_core:
  assumes c: "core b (f # r) m" and t: "btiles b (f # r) (used m)"
  shows "core b r (pop_top m)" "btiles b r (used (pop_top m))" "mc_out (pop_top m) = mc_out m"
    "arena (pop_top m) = arena m" "vm_frames_used (mc_vm (pop_top m)) = vm_frames_used (mc_vm m)"
proof -
  note cd = coreD [OF c]
  obtain b0 where b0: "btiles b r b0" "used m = b0 + bcount f" "buffer_at (eb_epoch b) b0 f"
    "fr_reset_epoch f = eb_epoch b" using t by auto
  let ?rt1 = "release_ignoring (fr_values f) (mc_runtime m)"
  let ?m1 = "set_runtime ?rt1 m"
  note fr1 = rt_frameD [OF release_ignoring_frame [of "fr_values f" "mc_runtime m"]]
  have top: "mc_top m = f" by (rule core_top [OF c])
  have holds: "holds (f # r) (arena m) (used m) (mc_out m) x =
      holds r (arena m) b0 (mc_out m) x + refs_in (load_at (arena m) b0 (bcount f)) x + refs_in (fr_values f) x" for x
    by (simp add: holds_def b0(2) take_split)
  have s1: "vm_sound (\<lambda>x. eb_refs b x + holds r (arena m) b0 (mc_out m) x
      + refs_in (load_at (arena m) b0 (bcount f)) x) (mc_vm ?m1)"
    using release_slots_sound [of _ "fr_values f" "mc_vm m"] cd(4) unfolding holds
    by (simp add: set_runtime_def ac_simps)
  have cl: "frothy_eval_frame_state_cleanup f m = frothy_eval_buffer_free (fr_buffer f) ?m1"
    by (simp add: frothy_eval_frame_state_cleanup_def frothy_reset_epoch_matches_def b0(4) cd(6))
  have pt: "pop_top m = (frothy_eval_buffer_free (fr_buffer f) ?m1)\<lparr>mc_frames := rev r\<rparr>"
    by (simp add: pop_top_def top cl cd(1))
  have "core b r (pop_top m) \<and> btiles b r (used (pop_top m)) \<and> mc_out (pop_top m) = mc_out m \<and>
    arena (pop_top m) = arena m \<and> vm_frames_used (mc_vm (pop_top m)) = vm_frames_used (mc_vm m)"
  proof (cases "bf_values (fr_buffer f)")
    case None
    then have "bcount f = 0" using b0(3) by (simp add: buffer_at_def)
    moreover from None have "pop_top m = ?m1\<lparr>mc_frames := rev r\<rparr>"
      by (simp add: pt frothy_eval_buffer_free_def)
    ultimately show ?thesis
      using s1 cd b0(1,2) fr1 by (auto simp: core_def arena_fits_def load_at_def)
  next
    case (Some c)
    then have c: "c = b0" "bf_arena_base (fr_buffer f) = b0" "bf_reset_epoch (fr_buffer f) = eb_epoch b"
      using b0(3) by (simp_all add: buffer_at_def)
    let ?vs = "load_at (arena m) b0 (bcount f)"
    let ?rt2 = "release_ignoring ?vs ?rt1"
    note fr2 = rt_frameD [OF release_ignoring_frame [of ?vs ?rt1]] fr1
    let ?rt3 = "?rt2\<lparr>rt_eval_value_used := b0\<rparr>"
    have "pop_top m = (set_runtime ?rt3 m)\<lparr>mc_frames := rev r\<rparr>"
      using Some c fr1 cd(6) by (simp add: pt frothy_eval_buffer_free_def set_runtime_def Let_def)
    moreover have "vm_sound (\<lambda>x. eb_refs b x + holds r (arena m) b0 (mc_out m) x)
        (mc_vm (set_runtime ?rt3 m))"
      using release_slots_sound [OF s1] same_store_sound [of ?rt2 ?rt3]
      by (simp add: vm_sound_def set_runtime_def)
    ultimately show ?thesis
      using cd b0(1,2) fr2 by (auto simp: core_def arena_fits_def)
  qed
  then show "core b r (pop_top m)" "btiles b r (used (pop_top m))" "mc_out (pop_top m) = mc_out m"
    "arena (pop_top m) = arena m" "vm_frames_used (mc_vm (pop_top m)) = vm_frames_used (mc_vm m)"
    by blast+
qed

lemma tiles_unique: "tiles A ep fs u \<Longrightarrow> tiles A ep fs u' \<Longrightarrow> u' = u"
  by (induction fs arbitrary: u u') auto

lemma pop_frame_eq: "mc_frames m \<noteq> [] \<Longrightarrow> frothy_eval_pop_frame m = frothy_eval_sync_frame_stack_used (pop_top m)"
  by (simp add: frothy_eval_pop_frame_def)

lemma sync_simps [simp]:
  "mc_frames (frothy_eval_sync_frame_stack_used m) = mc_frames m"
  "mc_out (frothy_eval_sync_frame_stack_used m) = mc_out m"
  "mc_runtime (frothy_eval_sync_frame_stack_used m) = mc_runtime m"
  "mc_base_depth (frothy_eval_sync_frame_stack_used m) = mc_base_depth m"
  "vm_names (mc_vm (frothy_eval_sync_frame_stack_used m)) = vm_names (mc_vm m)"
  "vm_frames_used (mc_vm (frothy_eval_sync_frame_stack_used m)) = mc_base_depth m + length (mc_frames m)"
  by (simp_all add: frothy_eval_sync_frame_stack_used_def)

lemma vm_sound_parts:
  "vm_runtime vm' = vm_runtime vm \<Longrightarrow> vm_names vm' = vm_names vm \<Longrightarrow> vm_sound e vm' = vm_sound e vm"
  by (simp add: vm_sound_def)

lemma core_sync: "core b fs m \<Longrightarrow> core b fs (frothy_eval_sync_frame_stack_used m)"
  using vm_sound_parts [of "mc_vm (frothy_eval_sync_frame_stack_used m)" "mc_vm m"]
  by (simp add: core_def)

lemma pop_minv:
  assumes ss: "sound_stack b (f # r) m" and res: "results True r m"
  shows "minv b r (frothy_eval_pop_frame m)"
proof -
  note c = sound_stackD(1) [OF ss] and st = sound_stackD(2) [OF ss]
  note p = cleanup_core [OF c stack_tiles [OF st]]
  obtain b0 where b0: "bstack b r b0" using st by auto
  have u: "used (pop_top m) = b0" by (rule tiles_unique [OF stack_tiles [OF b0] p(2)])
  let ?m = "frothy_eval_sync_frame_stack_used (pop_top m)"
  have "frothy_eval_pop_frame m = ?m" using coreD(1) [OF c] by (simp add: pop_frame_eq)
  moreover have "sound_stack b r ?m"
    using core_sync [OF p(1)] b0 sound_stackD(3) [OF ss] coreD(1,2) [OF p(1)]
    by (simp add: sound_stack_def u p(4))
  moreover have "results True r ?m" using res by (simp add: p(3,4))
  ultimately show ?thesis by (cases r) (simp_all split: if_splits)
qed

lemma complete_value_minv:
  assumes "sound_stack (hold v b) (f # r) m" "results False r m" "base_ok b"
  shows "\<exists>r' m'. frothy_eval_complete_value v m = (Inr (), m') \<and> minv b r' m'"
proof -
  have "mc_top m = f" using assms(1) by (intro core_top) (rule sound_stackD)
  with put_sound [OF assms] show ?thesis
    using pop_minv by (fastforce simp: frothy_eval_complete_value_def)
qed

lemma complete_here_minv:
  assumes ss: "sound_stack b (f # r) m" and res: "results True r m"
  shows "\<exists>m'. frothy_eval_complete_here m = (Inr (), m') \<and> minv b r m'"
proof -
  note c = sound_stackD(1) [OF ss]
  obtain b0 where b0: "bstack b r b0" "used m = b0 + bcount f" "waits r" "fr_out f = out_of r"
    using sound_stackD(2) [OF ss] by auto
  have "set_place (fr_out f) (get_place (fr_out f) m) m = m"
    using get_place_put [of m "[f]" r] coreD(1,5) [OF c] b0 by (simp add: arena_fits_def)
  then show ?thesis
    using pop_minv [OF ss res] core_top [OF c]
    by (simp add: frothy_eval_complete_here_def frothy_eval_complete_value_def)
qed

lemma complete_nil_minv:
  assumes "sound_stack b (f # r) m" "results False r m" "base_ok b"
  shows "\<exists>r' m'. frothy_eval_complete_nil m = (Inr (), m') \<and> minv b r' m'"
  using complete_value_minv [of frothy_value_make_nil b f r m] assms
  by (simp add: frothy_eval_complete_nil_def)

lemma minv_outcome: "minv b fs m \<Longrightarrow> outcome b (Inr u, m)"
  by (auto simp: outcome_def)

lemma tidy_outcome: "tidy b m \<Longrightarrow> outcome b (Inl err, m)"
  by (simp add: outcome_def)

subsection \<open>Changing the top frame\<close>

definition same_links :: "frothy_eval_frame \<Rightarrow> frothy_eval_frame \<Rightarrow> bool" where
  "same_links f g \<longleftrightarrow> fr_out g = fr_out f \<and> fr_locals g = fr_locals f \<and>
     fr_local_count g = fr_local_count f \<and> fr_reset_epoch g = fr_reset_epoch f \<and>
     fr_buffer g = fr_buffer f \<and> fr_values g = fr_values f"

lemma same_links_stack: "same_links f g \<Longrightarrow> stack_ok A L ep (g # r) u = stack_ok A L ep (f # r) u"
  by (simp add: same_links_def buffer_at_def split: option.splits)

lemma holds_Cons: "holds (f # r) ar u ou x = holds r ar u ou x + refs_in (fr_values f) x"
  by (simp add: holds_def)

lemma set_top_core:
  assumes "core b (f # r) m" "fr_values g = fr_values f"
  shows "core b (g # r) (set_top g m)"
  using assms by (simp add: core_def holds_Cons)

lemma set_top_sound:
  assumes "sound_stack b (f # r) m" "same_links f g" "clean (arena m) g"
  shows "sound_stack b (g # r) (set_top g m)"
proof -
  have "fr_values g = fr_values f" using assms(2) by (simp add: same_links_def)
  then show ?thesis
    using assms set_top_core [of b f r m g] same_links_stack [OF assms(2)]
    by (simp add: sound_stack_def del: stack_ok.simps)
qed

lemma set_top_tidy:
  assumes "sound_stack b (f # r) m" "same_links f g" "plainv (mc_out m)"
  shows "tidy b (set_top g m)"
proof -
  have "core b (g # r) (set_top g m)"
    using set_top_core [OF sound_stackD(1) [OF assms(1)]] assms(2) by (simp add: same_links_def)
  moreover have "bstack b (g # r) (used m)"
    unfolding same_links_stack [OF assms(2)] by (rule sound_stackD(2) [OF assms(1)])
  ultimately show ?thesis using stack_tiles assms(3) unfolding tidy_def by (metis set_top_simps(1,2))
qed

lemma plainv_update: "plainv v \<Longrightarrow> plainv (xs ! t) \<Longrightarrow> plainv (xs[s := v] ! t)"
  by (metis list_update_beyond not_le nth_list_update_eq nth_list_update_neq)

lemma clean_scratch: "clean ar f \<Longrightarrow> plainv v \<Longrightarrow> clean ar (set_scratch s v f)"
  by (simp add: clean_def plainv_update)

lemma release_slot_sound:
  assumes ss: "sound_stack b (f # r) m" and s: "s < 3"
  shows "sound_stack b (set_scratch s frothy_value_make_nil f # r) (frothy_eval_release_slot s m)"
    "arena (frothy_eval_release_slot s m) = arena m" "mc_out (frothy_eval_release_slot s m) = mc_out m"
proof -
  let ?v = "fr_values f ! s" and ?g = "set_scratch s frothy_value_make_nil f"
  note c = sound_stackD(1) [OF ss]
  have f: "mc_top m = f" "mc_frames m = rev r @ [f]" using core_top [OF c] coreD(1) [OF c] by simp_all
  let ?rt = "snd (frothy_value_release ?v (mc_runtime m))"
  have len: "length (fr_values f) = 3" using coreD(8) [OF c] by simp
  have "holds (f # r) ar u ou x = holds (?g # r) ar u ou x + refs ?v x" for ar u ou x
    using refs_in_update [of s "fr_values f" frothy_value_make_nil x] s len by (simp add: holds_Cons)
  then have snd: "rt_sound (\<lambda>x. eb_refs b x + slot_refs (snd (vm_names (mc_vm m))) x
      + holds (?g # r) (arena m) (used m) (mc_out m) x + refs ?v x) (mc_runtime m)"
    using core_sound [OF c] by (simp add: ac_simps)
  from release_rt_sound [OF this] have rt: "rt_sound (\<lambda>x. eb_refs b x + slot_refs (snd (vm_names (mc_vm m))) x
      + holds (?g # r) (arena m) (used m) (mc_out m) x) ?rt" by auto
  note fr = rt_frameD [OF release_frame [of ?v "mc_runtime m"]]
  let ?m = "set_top ?g (set_runtime ?rt m)"
  have m: "frothy_eval_release_slot s m = ?m"
    using s f coreD(6) [OF c] sound_stackD(2) [OF ss] f
    by (simp add: frothy_eval_release_slot_def FROTHY_EVAL_SCRATCH_SLOT_COUNT_def
        frothy_reset_epoch_matches_def mc_top_def Let_def)
  have "core b (?g # r) ?m"
    using coreD [OF c] rt fr f(2) len by (simp add: core_def vm_sound_def arena_fits_def ac_simps)
  moreover have "bstack b (?g # r) (used m)" using sound_stackD(2) [OF ss] by simp
  ultimately show "sound_stack b (?g # r) (frothy_eval_release_slot s m)"
    using sound_stackD(3,4) [OF ss] fr clean_scratch [of "arena m" f]
    unfolding m by (simp add: sound_stack_def del: stack_ok.simps)
  show "arena (frothy_eval_release_slot s m) = arena m" "mc_out (frothy_eval_release_slot s m) = mc_out m"
    using fr by (simp_all add: m)
qed

subsection \<open>Pushing a frame\<close>

lemma tail_phase_0 [simp]: "\<not> tail_phase nd 0"
  by (cases nd) simp_all

lemma frame_init_simps [simp]:
  "fr_phase (frothy_eval_frame_state_init pr ls lc nd p m) = 0"
  "fr_values (frothy_eval_frame_state_init pr ls lc nd p m) = replicate 3 frothy_value_make_nil"
  "fr_buffer (frothy_eval_frame_state_init pr ls lc nd p m) = no_buffer"
  "fr_out (frothy_eval_frame_state_init pr ls lc nd p m) = p"
  "fr_locals (frothy_eval_frame_state_init pr ls lc nd p m) = ls"
  "fr_local_count (frothy_eval_frame_state_init pr ls lc nd p m) = lc"
  "fr_reset_epoch (frothy_eval_frame_state_init pr ls lc nd p m) = rt_reset_epoch (mc_runtime m)"
  by (simp_all add: frothy_eval_frame_state_init_def FROTHY_EVAL_SCRATCH_SLOT_COUNT_def)

lemma frame_init_clean: "clean ar (frothy_eval_frame_state_init pr ls lc nd p m)"
  by (simp add: clean_def in_args_def no_buffer_def nth_replicate)

lemma push_minv:
  assumes ss: "sound_stack b fs m" and w: "waits fs" and res: "results False fs m"
    and L: "locals_of (eb_locals b) fs = (ls, lc)" and p: "p = out_of fs"
  shows "outcome b (frothy_eval_push_frame pr ls lc nd p m)"
proof -
  note c = coreD [OF sound_stackD(1) [OF ss]]
  let ?f = "frothy_eval_frame_state_init pr ls lc nd p m"
  show ?thesis
  proof (cases "FROTHY_EVAL_FRAME_CAPACITY \<le> eb_depth b \<or>
      FROTHY_EVAL_FRAME_CAPACITY - eb_depth b \<le> length fs")
    case True
    then have "frothy_eval_push_frame pr ls lc nd p m = (Inl FROTH_ERROR_CALL_DEPTH, m)"
      by (simp add: frothy_eval_push_frame_def c(1,2))
    then show ?thesis using results_tidy [OF ss res] by (simp add: outcome_def)
  next
    case False
    let ?m = "frothy_eval_sync_frame_stack_used (m\<lparr>mc_frames := mc_frames m @ [?f]\<rparr>)"
    obtain h where m: "frothy_eval_push_frame pr ls lc nd p m =
        (Inr (), ?m\<lparr>mc_vm := (mc_vm ?m)\<lparr>vm_frames_high_water := h\<rparr>\<rparr>)"
      using False by (auto simp: frothy_eval_push_frame_def c(1,2) Let_def)
    let ?m' = "?m\<lparr>mc_vm := (mc_vm ?m)\<lparr>vm_frames_high_water := h\<rparr>\<rparr>"
    have "core b (?f # fs) ?m'"
      using c False vm_sound_parts [of "mc_vm ?m'" "mc_vm m"]
      by (auto simp: core_def holds_Cons frothy_eval_sync_frame_stack_used_def numeral_3_eq_3)
    moreover have "bstack b (?f # fs) (used m)"
      using sound_stackD(2) [OF ss] w L p c(6) by (simp add: buffer_at_def no_buffer_def)
    moreover have "vm_frames_used (mc_vm ?m') = eb_depth b + length (?f # fs)"
      by (simp add: c(1,2))
    ultimately have "sound_stack b (?f # fs) ?m'"
      using sound_stackD(3) [OF ss] frame_init_clean by (simp add: sound_stack_def del: stack_ok.simps)
    then have "minv b (?f # fs) ?m'" using res by (simp add: is_tail_def)
    then show ?thesis unfolding m by (rule minv_outcome)
  qed
qed

text \<open>A child gets the frame's own local variables, and its result goes where the frame waits.\<close>

lemma push_child_minv:
  assumes ss: "sound_stack b (g # r) m" and w: "waiting g" "\<not> in_code g" and res: "results False (g # r) m"
    and p: "p = await (length r) g"
  shows "outcome b (frothy_eval_push_child nd p m)"
  unfolding frothy_eval_push_child_def core_top [OF sound_stackD(1) [OF ss]]
  by (rule push_minv [OF ss _ res]) (use w p in simp_all)

lemma tail_push_minv:
  assumes ss: "sound_stack b (f # r) m" and res: "results False r m"
    and g: "same_links f g" "clean (arena m) g" "is_tail g" "fr_phase g \<noteq> 0" "\<not> in_code g"
  shows "outcome b (frothy_eval_push_child nd (fr_out f) (set_top g m))"
proof (rule push_child_minv)
  show "sound_stack b (g # r) (set_top g m)" by (rule set_top_sound [OF ss g(1,2)])
  show "waiting g" using g by (simp add: waiting_def)
  show "results False (g # r) (set_top g m)" using res g(3) by simp
  show "fr_out f = await (length r) g" using g by (simp add: await_def same_links_def)
qed (rule g)

lemma own_push_minv:
  assumes ss: "sound_stack b (f # r) m" and res: "results False r m"
    and g: "same_links f g" "clean (arena m) g" "\<not> is_tail g" "\<not> in_args g" "\<not> in_code g" "fr_phase g \<noteq> 0"
    and s: "awaited_slot g = s" "s < 3" "plainv (fr_values f ! s)"
  shows "outcome b (frothy_eval_push_child nd (OUT_SCRATCH (length r) s) (set_top g m))"
proof (rule push_child_minv)
  show "sound_stack b (g # r) (set_top g m)" by (rule set_top_sound [OF ss g(1,2)])
  show "waiting g" using g s by (simp add: waiting_def)
  show "results False (g # r) (set_top g m)"
    using res g s by (simp add: awaited_value_def same_links_def)
  show "OUT_SCRATCH (length r) s = await (length r) g" using g s by (simp add: await_def)
qed (rule g)

text \<open>The usual way of asking for an operand: scratch \<open>s\<close>, next phase \<open>s + 1\<close>.\<close>

definition operand_phase :: "frothy_ir_node \<Rightarrow> nat \<Rightarrow> bool" where
  "operand_phase nd s \<longleftrightarrow> \<not> tail_phase nd (Suc s) \<and> (s = 0 \<or> \<not> is_call_node nd \<and> \<not> is_while_node nd)"

lemma set_phase_top:
  "mc_frames m = rev (f # r) \<Longrightarrow> set_phase p m = set_top (f\<lparr>fr_phase := p\<rparr>) m"
  by (simp add: set_phase_def mc_top_def)

lemma phase_simps [simp]:
  "f_node (f\<lparr>fr_phase := p\<rparr>) = f_node f" "same_links f (f\<lparr>fr_phase := p\<rparr>)"
  "f_node (f\<lparr>fr_index := i\<rparr>) = f_node f" "same_links f (f\<lparr>fr_index := i\<rparr>)"
  "f_node (f\<lparr>fr_call_kind := k\<rparr>) = f_node f" "same_links f (f\<lparr>fr_call_kind := k\<rparr>)"
  by (simp_all add: f_node_def same_links_def)

lemma push_scratch_minv:
  assumes ss: "sound_stack b (f # r) m" and res: "results False r m"
    and ph: "fr_phase f \<le> s" "\<not> in_body f" "s < 3" and nd: "operand_phase (f_node f) s"
  shows "outcome b (frothy_eval_push_scratch_child (Suc s) nd s m)"
proof -
  let ?g = "f\<lparr>fr_phase := Suc s\<rparr>"
  have c: "mc_frames m = rev (f # r)" "clean (arena m) f"
    using coreD(1) [OF sound_stackD(1) [OF ss]] sound_stackD(3) [OF ss] by simp_all
  have kinds: "\<not> is_tail ?g" "\<not> in_args ?g" "\<not> in_body ?g" "\<not> in_code ?g"
    using nd by (auto simp: operand_phase_def is_tail_def in_args_def in_body_def in_code_def)
  have slots: "free_slot f t" if "s \<le> t" for t using ph that by (simp add: free_slot_def)
  have "clean (arena m) ?g"
    using c(2) kinds slots ph by (auto simp: clean_def free_slot_def in_args_def)
  moreover have "plainv (fr_values f ! s)" using c(2) slots [of s] ph(3) by (simp add: clean_def)
  moreover have "awaited_slot ?g = s" using kinds(3) by (simp add: awaited_slot_def)
  ultimately have "outcome b (frothy_eval_push_child nd (OUT_SCRATCH (length r) s) (set_top ?g m))"
    using kinds ph by (intro own_push_minv [OF ss res]) simp_all
  then show ?thesis
    using ph(3) c(1) by (simp add: frothy_eval_push_scratch_child_def FROTHY_EVAL_SCRATCH_SLOT_COUNT_def
        set_phase_top)
qed

end
