(* ===== verification/Frothy_Eval_Steps.thy ===== *)
theory Frothy_Eval_Steps
  imports Frothy_Eval_Moves
begin

section \<open>Operations inside a step\<close>

text \<open>
  Operations that compute a value into the result place of the top frame (\<open>computed\<close>): values made
  by the runtime, values that need no reference, and retained copies, which cannot fail because the
  value is referred to from somewhere.
\<close>

subsection \<open>Values that are computed into the result place\<close>

text \<open>An operation that writes the result of the top frame: either it has failed and written
nothing, or the result is there.\<close>

definition computed :: "eval_base \<Rightarrow> frothy_eval_frame \<Rightarrow> unit result \<times> eval_machine \<Rightarrow> bool" where
  "computed b f rm \<longleftrightarrow> (\<exists>r. sound_stack b (f # r) (snd rm) \<and>
     (case fst rm of Inl err \<Rightarrow> results False r (snd rm) | Inr u \<Rightarrow> results True r (snd rm)))"

lemma computedI:
  "sound_stack b (f # r) m \<Longrightarrow> results False r m \<Longrightarrow> computed b f (Inl err, m)"
  "sound_stack b (f # r) m \<Longrightarrow> results True r m \<Longrightarrow> computed b f (Inr u, m)"
  by (auto simp: computed_def)

lemma computed_outcome: "computed b f rm \<Longrightarrow> outcome b (frothy_eval_complete_out (fst rm) (snd rm))"
  using complete_here_minv results_tidy
  by (fastforce simp: computed_def frothy_eval_complete_out_def ev_error_def outcome_def split: sum.splits)

lemma simple_outcome: "computed b f (a m) \<Longrightarrow> outcome b (eval_simple a m)"
  using computed_outcome [of b f "a m"] by (simp add: eval_simple_def ev_status_def case_prod_beta)

lemma computed_release:
  assumes "computed b f rm" "s < 3"
  shows "computed b (set_scratch s frothy_value_make_nil f) (fst rm, frothy_eval_release_slot s (snd rm))"
  using assms release_slot_sound unfolding computed_def by (cases "fst rm") fastforce+

lemma sound_stack_runtime:
  assumes ss: "sound_stack b (f # r) m" and c: "core c (f # r) (set_runtime rt m)"
    and "rt_frame rt = rt_frame (mc_runtime m)" "c = b\<lparr>eb_refs := eb_refs c\<rparr>"
  shows "sound_stack c (f # r) (set_runtime rt m)"
proof -
  have eqs: "eb_arena c = eb_arena b" "eb_locals c = eb_locals b" "eb_epoch c = eb_epoch b"
    "eb_depth c = eb_depth b" by (subst assms(4), simp)+
  show ?thesis
    using ss c rt_frameD [OF assms(3)] by (simp add: sound_stack_def eqs del: stack_ok.simps)
qed

lemma put_result_computed:
  assumes ss: "sound_stack b (f # r) m" and res: "results False r m" and ok: "base_ok b"
    and g: "rt_frame (snd (g (mc_runtime m))) = rt_frame (mc_runtime m)"
      "\<And>e. rt_sound e (mc_runtime m) \<Longrightarrow> yields e (mc_runtime m) (g (mc_runtime m))"
  shows "computed b f (put_result (on_runtime g) m)"
proof -
  note c = sound_stackD(1) [OF ss]
  obtain q rt where q: "on_runtime g m = (q, set_runtime rt m)" and fr: "rt_frame rt = rt_frame (mc_runtime m)"
    using core_on_runtime(2) [of b "f # r" m g, OF c g] by (metis prod.collapse)
  note ev = rt_frameD [OF fr]
  show ?thesis
  proof (cases q)
    case (Inl err)
    then have "core b (f # r) (set_runtime rt m)" using core_on_runtime(1) [of b "f # r" m g, OF c g] q by simp
    then have "sound_stack b (f # r) (set_runtime rt m)" by (rule sound_stack_runtime [OF ss _ fr]) simp
    then show ?thesis
      using q Inl res ev by (auto simp: put_result_def ev_try_def intro: computedI)
  next
    case (Inr v)
    then have "core (hold v b) (f # r) (set_runtime rt m)"
      using core_on_runtime(1) [of b "f # r" m g, OF c g] q by simp
    then have s: "sound_stack (hold v b) (f # r) (set_runtime rt m)"
      by (rule sound_stack_runtime [OF ss _ fr]) (simp add: hold_def)
    have "results False r (set_runtime rt m)" using res ev by simp
    from put_sound [OF s this ok] show ?thesis
      using q Inr core_top [OF sound_stackD(1) [OF s]]
      by (auto simp: put_result_def ev_try_def put_out_def intro: computedI)
  qed
qed

lemma put_pure_computed:
  assumes "sound_stack b (f # r) m" "results False r m" "base_ok b" "\<And>v x. q = Inr v \<Longrightarrow> refs v x = 0"
  shows "computed b f (put_result (ev_result q) m)"
proof (cases q)
  case (Inl err)
  then show ?thesis using assms by (auto simp: put_result_def ev_try_def ev_result_def intro: computedI)
next
  case (Inr v)
  then have "hold v b = b" using assms(4) by simp
  with put_sound [of v b f r m] assms(1-3) Inr core_top [OF sound_stackD(1) [OF assms(1)]] show ?thesis
    by (auto simp: put_result_def ev_try_def ev_result_def put_out_def intro: computedI)
qed

subsection \<open>Retained copies\<close>

lemma retain_arena:
  "frothy_value_retain v (arena_store k vs rt) =
   (fst (frothy_value_retain v rt), arena_store k vs (snd (frothy_value_retain v rt)))"
proof -
  have "rt_objects (arena_store k vs rt) = rt_objects rt" by (simp add: arena_store_def)
  then have "frothy_runtime_get_live_object_id (arena_store k vs rt) v = frothy_runtime_get_live_object_id rt v"
    unfolding frothy_runtime_get_live_object_id_def Let_def by (simp only:)
  then show ?thesis
    by (simp add: frothy_value_retain_def Let_def arena_store_def set_refcount_def set_object_def
        split: sum.splits)
qed

lemma set_place_runtime:
  "(\<And>k. f (arena_store k [v] (mc_runtime m)) =
      (fst (f (mc_runtime m)), arena_store k [v] (snd (f (mc_runtime m))))) \<Longrightarrow>
   on_runtime f (set_place p v m) =
     (fst (f (mc_runtime m)), set_place p v (set_runtime (snd (f (mc_runtime m))) m))"
  by (cases p) (simp_all add: on_runtime_def set_runtime_def case_prod_beta)

lemma holds_bound: "holds fs ar u ou x \<le> 1 + 3 * length fs + u" if "\<forall>f \<in> set fs. length (fr_values f) = 3"
proof -
  have "(\<Sum>f\<leftarrow>fs. refs_in (fr_values f) x) \<le> 3 * length fs"
    using that
  proof (induction fs)
    case (Cons f fs)
    then show ?case using refs_in_le [of "fr_values f" x] by simp
  qed simp
  moreover have "refs_in (take u ar) x \<le> u" using refs_in_le [of "take u ar" x] by simp
  ultimately show ?thesis using refs_le_1 [of ou x] unfolding holds_def by linarith
qed

lemma core_modest:
  assumes c: "core b fs m" and ok: "base_ok b"
  shows "modest (\<lambda>x. eb_refs b x + slot_refs (snd (vm_names (mc_vm m))) x
    + holds fs (arena m) (used m) (mc_out m) x)"
proof -
  note cd = coreD [OF c]
  have "holds fs (arena m) (used m) (mc_out m) x \<le> 1 + 3 * 128 + 2 ^ 29" for x
    using holds_bound [of fs "arena m" "used m" "mc_out m" x] cd(3,5,8)
    by (auto simp: arena_fits_def FROTHY_EVAL_FRAME_CAPACITY_def)
  moreover have "slot_refs (snd (vm_names (mc_vm m))) x \<le> 128" for x
    using slot_refs_bound cd(4) by (simp add: vm_sound_def FROTH_SLOT_TABLE_SIZE_def)
  moreover have "eb_refs b x < 2 ^ 29" for x using ok by (simp add: base_ok_def)
  ultimately have le: "eb_refs b x < 2 ^ 29" "slot_refs (snd (vm_names (mc_vm m))) x \<le> 128"
    "holds fs (arena m) (used m) (mc_out m) x \<le> 1 + 3 * 128 + 2 ^ 29" for x by blast+
  have "eb_refs b x + slot_refs (snd (vm_names (mc_vm m))) x
      + holds fs (arena m) (used m) (mc_out m) x < 2 ^ 31" for x
    using le(1-3) [of x] by simp
  then show "modest (\<lambda>x. eb_refs b x + slot_refs (snd (vm_names (mc_vm m))) x
    + holds fs (arena m) (used m) (mc_out m) x)" by (simp add: modest_def)
qed

text \<open>A copy of a value that is referred to from somewhere: the retain cannot fail.\<close>

lemma put_retained_computed:
  assumes ss: "sound_stack b (f # r) m" and res: "results False r m" and ok: "base_ok b"
    and held: "frothy_value_is_object_ref v \<Longrightarrow> 0 < rc (mc_runtime m) (frothy_value_object_index v)"
  shows "computed b f (put_retained v m)"
proof -
  note c = sound_stackD(1) [OF ss]
  from retain_rt_sound [OF core_sound [OF c] core_modest [OF c ok] held] obtain rt where
    rt: "frothy_value_retain v (mc_runtime m) = (Inr (), rt)"
    "rt_sound (\<lambda>x. eb_refs b x + slot_refs (snd (vm_names (mc_vm m))) x
        + holds (f # r) (arena m) (used m) (mc_out m) x + refs v x) rt" by blast
  have fr: "rt_frame rt = rt_frame (mc_runtime m)" using retain_frame [of v "mc_runtime m"] rt(1) by simp
  have "core (hold v b) (f # r) (set_runtime rt m)"
    by (rule core_runtime [OF c fr]) (use rt(2) in \<open>simp_all add: hold_def ac_simps\<close>)
  then have s: "sound_stack (hold v b) (f # r) (set_runtime rt m)"
    by (rule sound_stack_runtime [OF ss _ fr]) (simp add: hold_def)
  have "results False r (set_runtime rt m)" using res rt_frameD [OF fr] by simp
  from put_sound [OF s this ok] obtain r' where
    r': "sound_stack b (f # r') (set_place (fr_out f) v (set_runtime rt m))"
      "results True r' (set_place (fr_out f) v (set_runtime rt m))" by blast
  have "put_retained v m = (Inr (), set_place (fr_out f) v (set_runtime rt m))"
    using set_place_runtime [of "frothy_value_retain v" v m "fr_out f"] retain_arena rt(1) core_top [OF c]
    by (simp add: put_retained_def ev_try_def put_out_def)
  then show ?thesis using computedI(2) [OF r'] by simp
qed

end
