(* ===== verification/Frothy_Eval_Writes.thy ===== *)
theory Frothy_Eval_Writes
  imports Frothy_Eval_Steps
begin

section \<open>Operations that store a value\<close>

text \<open>
  A write consumes the value of a scratch slot: when it succeeds the reference belongs to where it
  was stored, although the slot still shows it until \<open>frothy_eval_complete_nil_after_move\<close> blanks
  it. \<open>written\<close> says that blanking is all that is left to do.
\<close>

definition blank :: "nat \<Rightarrow> eval_machine \<Rightarrow> eval_machine" where
  "blank s m = set_top (set_scratch s frothy_value_make_nil (mc_top m)) m"

fun written :: "eval_base \<Rightarrow> nat \<Rightarrow> unit result \<times> eval_machine \<Rightarrow> bool" where
  "written b s (Inl err, m) \<longleftrightarrow> (\<exists>f r. sound_stack b (f # r) m \<and> results False r m)"
| "written b s (Inr u, m) \<longleftrightarrow> (\<exists>f r. mc_frames m = rev (f # r) \<and> results False r m \<and>
     sound_stack b (set_scratch s frothy_value_make_nil f # r) (blank s m))"

lemma stack_frames: "sound_stack b fs m \<Longrightarrow> mc_frames m = rev fs"
  by (rule coreD(1) [OF sound_stackD(1)])

lemma blank_simps [simp]:
  "mc_vm (blank s m) = mc_vm m" "mc_out (blank s m) = mc_out m" "mc_base_depth (blank s m) = mc_base_depth m"
  by (simp_all add: blank_def)

lemma complete_write_outcome:
  assumes w: "written b s (write m)" and s: "s < 3" and ok: "base_ok b"
  shows "outcome b (complete_write s write m)"
proof -
  obtain q m1 where q: "write m = (q, m1)" by fastforce
  show ?thesis
  proof (cases q)
    case (Inl err)
    then obtain f r where ss: "sound_stack b (f # r) m1" and f: "results False r m1" using w q by auto
    note rs = release_slot_sound [OF ss s]
    have "results False r (frothy_eval_release_slot s m1)" using f rs(2,3) by simp
    from results_tidy [OF rs(1) this] show ?thesis
      using q Inl by (simp add: complete_write_def ev_status_def ev_try_def ev_do_def ev_error_def outcome_def)
  next
    case (Inr u)
    then obtain f r where ss: "sound_stack b (set_scratch s frothy_value_make_nil f # r) (blank s m1)"
      and f: "results False r (blank s m1)" using w q by auto
    from complete_nil_minv [OF ss f ok] show ?thesis
      using q Inr s by (auto simp: complete_write_def ev_status_def frothy_eval_complete_nil_after_move_def
          FROTHY_EVAL_SCRATCH_SLOT_COUNT_def blank_def intro: minv_outcome)
  qed
qed

lemma blank_release:
  assumes "mc_frames m = rev r @ [f]" "t \<noteq> s"
  shows "blank s (frothy_eval_release_slot t m) = frothy_eval_release_slot t (blank s m)"
proof -
  have "set_scratch s x (set_scratch t y f) = set_scratch t y (set_scratch s x f)" for x y
    using assms(2) by (simp add: set_scratch_def list_update_swap)
  then show ?thesis
    using assms by (simp add: blank_def frothy_eval_release_slot_def mc_top_def set_top_def set_runtime_def
        frothy_reset_epoch_matches_def Let_def)
qed

lemma written_release:
  assumes w: "written b s (q, m)" and t: "t < 3" "t \<noteq> s"
  shows "written b s (q, frothy_eval_release_slot t m)"
proof -
  show ?thesis
  proof (cases q)
    case (Inl err)
    then obtain f r where ss: "sound_stack b (f # r) m" and res: "results False r m" using w by auto
    show ?thesis
      unfolding Inl written.simps using release_slot_sound [OF ss t(1)] res by metis
  next
    case (Inr u)
    then obtain f r where f: "mc_frames m = rev r @ [f]" "results False r m"
      and ss: "sound_stack b (set_scratch s frothy_value_make_nil f # r) (blank s m)" using w by auto
    note rs = release_slot_sound [OF ss t(1), folded blank_release [OF f(1) t(2)]]
    have swap: "set_scratch t x (set_scratch s y f) = set_scratch s y (set_scratch t x f)" for x y
      using t(2) by (simp add: set_scratch_def list_update_swap)
    have "mc_frames (frothy_eval_release_slot t m) = rev (set_scratch t frothy_value_make_nil f # r)"
      using f(1) t(1) by (simp add: frothy_eval_release_slot_def FROTHY_EVAL_SCRATCH_SLOT_COUNT_def mc_top_def
          set_top_def set_runtime_def Let_def)
    moreover have "results False r (frothy_eval_release_slot t m)" using rs(2,3) f(2) by simp
    ultimately show ?thesis using rs(1) unfolding Inr swap written.simps by blast
  qed
qed

text \<open>Taking a value out of its scratch slot.\<close>

lemma take_slot:
  assumes ss: "sound_stack b (f # r) m" and s: "s < 3"
  shows "sound_stack (hold (fr_values f ! s) b) (set_scratch s frothy_value_make_nil f # r) (blank s m)"
proof -
  let ?g = "set_scratch s frothy_value_make_nil f"
  note c = coreD [OF sound_stackD(1) [OF ss]]
  have top: "mc_top m = f" by (rule core_top [OF sound_stackD(1) [OF ss]])
  have len: "length (fr_values f) = 3" using c(8) by simp
  have "holds (f # r) ar u ou x = holds (?g # r) ar u ou x + refs (fr_values f ! s) x" for ar u ou x
    using refs_in_update [of s "fr_values f" frothy_value_make_nil x] s len by (simp add: holds_Cons)
  then have "core (hold (fr_values f ! s) b) (?g # r) (blank s m)"
    using c len by (simp add: core_def top blank_def ac_simps)
  moreover have "bstack b (?g # r) (used m)" using sound_stackD(2) [OF ss] by simp
  ultimately show ?thesis
    using sound_stackD(3,4) [OF ss] clean_scratch [of "arena m" f]
    by (simp add: sound_stack_def del: stack_ok.simps)
qed

lemma slot_refs_held:
  assumes "t < length vs" "t \<noteq> s" "frothy_value_is_object_ref (vs ! t)"
  shows "0 < refs_in (vs[s := w]) (frothy_value_object_index (vs ! t))"
proof -
  have "vs ! t \<in> set (vs[s := w])" using assms(1,2) by (metis length_list_update nth_list_update_neq nth_mem)
  then have "refs (vs ! t) (frothy_value_object_index (vs ! t))
      \<le> refs_in (vs[s := w]) (frothy_value_object_index (vs ! t))"
    unfolding refs_in_def by (rule sum_list_member_le)
  then show ?thesis using assms(3) by (simp add: refs_def)
qed

text \<open>A store into an array or a record.\<close>

lemma runtime_write:
  assumes ss: "sound_stack b (f # r) m" and res: "results False r m" and s: "s < 3"
    and fr: "rt_frame (snd (w (mc_runtime m))) = rt_frame (mc_runtime m)"
    and op: "\<And>e. rt_sound (\<lambda>x. e x + refs (fr_values f ! s) x) (mc_runtime m) \<Longrightarrow>
      (\<And>x. refs_in ((fr_values f)[s := frothy_value_make_nil]) x \<le> e x) \<Longrightarrow>
      (\<exists>err. w (mc_runtime m) = (Inl err, mc_runtime m)) \<or>
      (\<exists>rt. w (mc_runtime m) = (Inr (), rt) \<and> rt_sound e rt)"
  shows "written b s (on_runtime w m)"
proof -
  let ?g = "set_scratch s frothy_value_make_nil f" and ?v = "fr_values f ! s"
  note ts = take_slot [OF ss s]
  note c = sound_stackD(1) [OF ts]
  have frames: "mc_frames m = rev (f # r)" by (rule coreD(1) [OF sound_stackD(1) [OF ss]])
  let ?e = "\<lambda>x. eb_refs b x + slot_refs (snd (vm_names (mc_vm m))) x + holds (?g # r) (arena m) (used m) (mc_out m) x"
  have snd: "rt_sound (\<lambda>x. ?e x + refs ?v x) (mc_runtime m)"
    using core_sound [OF c] by (simp add: ac_simps)
  have "refs_in ((fr_values f)[s := frothy_value_make_nil]) x \<le> ?e x" for x by (simp add: holds_Cons)
  from op [OF snd this] consider (err) err where "w (mc_runtime m) = (Inl err, mc_runtime m)"
    | (ok) rt where "w (mc_runtime m) = (Inr (), rt)" "rt_sound ?e rt" by blast
  then show ?thesis
  proof cases
    case err
    then have "on_runtime w m = (Inl err, m)" by (simp add: on_runtime_def set_runtime_def)
    then show ?thesis using ss res by auto
  next
    case ok
    have fr': "rt_frame rt = rt_frame (mc_runtime m)" using fr ok(1) by simp
    have m: "blank s (set_runtime rt m) = set_runtime rt (blank s m)"
      by (simp add: blank_def set_runtime_def set_top_def mc_top_def)
    have "core b (?g # r) (set_runtime rt (blank s m))"
      by (rule core_runtime [OF c]) (use fr' ok(2) in \<open>simp_all add: hold_def\<close>)
    then have "sound_stack b (?g # r) (set_runtime rt (blank s m))"
      by (rule sound_stack_runtime [OF ts]) (use fr' in \<open>simp_all add: hold_def\<close>)
    moreover have "on_runtime w m = (Inr (), set_runtime rt m)" using ok(1) by (simp add: on_runtime_def)
    moreover have "results False r (set_runtime rt m)" using res rt_frameD [OF fr'] by simp
    moreover have "mc_frames (set_runtime rt m) = rev (f # r)" using frames by simp
    ultimately show ?thesis unfolding m [symmetric] by (simp only: written.simps) blast
  qed
qed

lemma write_index_written:
  assumes ss: "sound_stack b (f # r) m" and res: "results False r m"
  shows "written b 2 (on_runtime (frothy_write_index_owned (fr_values f ! 0) i (fr_values f ! 2)) m)"
proof (rule runtime_write [OF ss res])
  have len: "length (fr_values f) = 3" using coreD(8) [OF sound_stackD(1) [OF ss]] by simp
  show "rt_frame (snd (frothy_write_index_owned (fr_values f ! 0) i (fr_values f ! 2) (mc_runtime m))) =
      rt_frame (mc_runtime m)"
    by (auto simp: frothy_write_index_owned_def and_then_def rt_frames split: sum.splits prod.splits
        dest: release_frame_eq)
  fix e :: "nat \<Rightarrow> nat"
  assume e: "rt_sound (\<lambda>x. e x + refs (fr_values f ! 2) x) (mc_runtime m)"
    "\<And>x. refs_in ((fr_values f)[2 := frothy_value_make_nil]) x \<le> e x"
  have "frothy_value_is_object_ref (fr_values f ! 0) \<Longrightarrow> 0 < e (frothy_value_object_index (fr_values f ! 0))"
    using slot_refs_held [of 0 "fr_values f" 2] e(2) len by (metis bot_nat_0.not_eq_extremum leD less_numeral_extra(3)
        numeral_3_eq_3 zero_less_Suc zero_neq_numeral)
  from write_index_sound [OF e(1) this, of i]
  show "(\<exists>err. frothy_write_index_owned (fr_values f ! 0) i (fr_values f ! 2) (mc_runtime m) = (Inl err, mc_runtime m)) \<or>
      (\<exists>rt. frothy_write_index_owned (fr_values f ! 0) i (fr_values f ! 2) (mc_runtime m) = (Inr (), rt) \<and> rt_sound e rt)"
    by blast
qed simp

lemma write_field_written:
  assumes ss: "sound_stack b (f # r) m" and res: "results False r m"
  shows "written b 1 (on_runtime (frothy_write_field_owned (fr_values f ! 0) name (fr_values f ! 1)) m)"
proof (rule runtime_write [OF ss res])
  have len: "length (fr_values f) = 3" using coreD(8) [OF sound_stackD(1) [OF ss]] by simp
  show "rt_frame (snd (frothy_write_field_owned (fr_values f ! 0) name (fr_values f ! 1) (mc_runtime m))) =
      rt_frame (mc_runtime m)" by (simp add: frothy_write_field_owned_def rt_frames)
  fix e :: "nat \<Rightarrow> nat"
  assume e: "rt_sound (\<lambda>x. e x + refs (fr_values f ! 1) x) (mc_runtime m)"
    "\<And>x. refs_in ((fr_values f)[1 := frothy_value_make_nil]) x \<le> e x"
  have "frothy_value_is_object_ref (fr_values f ! 0) \<Longrightarrow> 0 < e (frothy_value_object_index (fr_values f ! 0))"
    using slot_refs_held [of 0 "fr_values f" 1] e(2) len by (metis bot_nat_0.not_eq_extremum leD less_numeral_extra(3)
        numeral_3_eq_3 zero_less_Suc zero_neq_one)
  from write_field_sound [OF e(1) this, of name]
  show "(\<exists>err. frothy_write_field_owned (fr_values f ! 0) name (fr_values f ! 1) (mc_runtime m) = (Inl err, mc_runtime m)) \<or>
      (\<exists>rt. frothy_write_field_owned (fr_values f ! 0) name (fr_values f ! 1) (mc_runtime m) = (Inr (), rt) \<and> rt_sound e rt)"
    by blast
qed simp

subsection \<open>Binding a slot\<close>

lemma slot_update_ok:
  "index_has_slot_assigned t i \<Longrightarrow> \<exists>t'. slot_update i f t = (Inr (), t')"
  by (simp add: slot_update_def)

text \<open>What is known of the table after one of the updates of a binding.\<close>

definition rebinds :: "nat \<Rightarrow> froth_heap \<Rightarrow> slot_table \<Rightarrow> slot_table \<Rightarrow> bool" where
  "rebinds i h t t' \<longleftrightarrow> names_ok (h, t') \<and> index_has_slot_assigned t' i \<and> slot_refs t' = slot_refs t"

lemma keeps_binding:
  assumes "names_ok (h, t)" "index_has_slot_assigned t i"
    and "\<And>s. sl_name (f s) = sl_name s \<and> sl_impl (f s) = sl_impl s \<and> sl_impl_bound (f s) = sl_impl_bound s"
  shows "\<exists>t'. slot_update i f t = (Inr (), t') \<and> rebinds i h t t' \<and> impl_refs t' i = impl_refs t i"
proof -
  obtain t' where t': "slot_update i f t = (Inr (), t')" using slot_update_ok [OF assms(2)] by blast
  note u = slot_update_refs [OF t' assms(1)] assms(3)
  have "impl_refs t' i = impl_refs t i"
    using u by (simp add: impl_refs_def froth_slot_get_impl_def fun_eq_iff)
  then show ?thesis
    using t' u assms(2) slot_update_keeps_refs [OF t' assms(1,3)] by (auto simp: rebinds_def)
qed

lemma update_arity_ok:
  assumes "names_ok (h, t)" "index_has_slot_assigned t i" "vm_names (mc_vm m) = (h, t)"
  shows "\<exists>t'. frothy_slot_update_arity i v m = (Inr (), m\<lparr>mc_vm := (mc_vm m)\<lparr>vm_names := (h, t')\<rparr>\<rparr>) \<and>
    rebinds i h t t'"
proof (cases "value_arity (mc_runtime m) v")
  case None
  from keeps_binding [OF assms(1,2), of "\<lambda>s. s\<lparr>sl_in_arity := FROTH_SLOT_ARITY_UNKNOWN,
     sl_out_arity := FROTH_SLOT_ARITY_UNKNOWN\<rparr>"]
  show ?thesis using None assms(3)
    by (auto simp: frothy_slot_update_arity_def on_slots_def on_names_def froth_slot_clear_arity_def)
next
  case (Some a)
  have "a < 255" using Some
    by (auto simp: value_arity_def Let_def FROTH_SLOT_ARITY_UNKNOWN_def split: sum.splits if_splits)
  then have "unat (word_of_nat a :: byte) = a" by (simp add: unat_of_nat)
  with \<open>a < 255\<close> have "(word_of_nat a :: byte) \<noteq> FROTH_SLOT_ARITY_UNKNOWN"
    by (auto simp: FROTH_SLOT_ARITY_UNKNOWN_def)
  moreover have "(1 :: byte) \<noteq> FROTH_SLOT_ARITY_UNKNOWN" by (simp add: FROTH_SLOT_ARITY_UNKNOWN_def)
  ultimately have "froth_slot_set_arity i (word_of_nat a) 1 t =
      slot_update i (\<lambda>s. s\<lparr>sl_in_arity := word_of_nat a, sl_out_arity := 1\<rparr>) t"
    using assms(2) by (simp add: froth_slot_set_arity_def)
  with keeps_binding [OF assms(1,2), of "\<lambda>s. s\<lparr>sl_in_arity := word_of_nat a, sl_out_arity := 1\<rparr>"]
  show ?thesis using Some assms(3)
    by (auto simp: frothy_slot_update_arity_def on_slots_def on_names_def)
qed

text \<open>Binding: the old value is given back, and the table refers to the new one instead.\<close>

lemma rebind_effect:
  assumes snd: "rt_sound (\<lambda>x. e x + slot_refs t x + refs v x) (mc_runtime m)"
    and n: "vm_names (mc_vm m) = (h, t)" "names_ok (h, t)" and i: "index_has_slot_assigned t i"
  shows "\<exists>rt t'. frothy_slot_rebind_owned i v m = (Inr (), m\<lparr>mc_vm := (mc_vm m)\<lparr>vm_runtime := rt, vm_names := (h, t')\<rparr>\<rparr>) \<and>
    rt_sound (\<lambda>x. e x + slot_refs t' x) rt \<and> names_ok (h, t') \<and> rt_frame rt = rt_frame (mc_runtime m)"
proof -
  let ?ov = "if vm_boot_complete (mc_vm m) then 1 else 0"
  obtain t1 where t1: "froth_slot_set_overlay i ?ov t = (Inr (), t1)" "rebinds i h t t1"
    "impl_refs t1 i = impl_refs t i"
    using keeps_binding [OF n(2) i, of "\<lambda>s. s\<lparr>sl_overlay := ?ov\<rparr>"] by (auto simp: froth_slot_set_overlay_def)
  have r1: "names_ok (h, t1)" "index_has_slot_assigned t1 i" "slot_refs t1 = slot_refs t"
    using t1(2) by (simp_all add: rebinds_def)
  obtain t2 where t2: "froth_slot_set_impl i (frothy_value_to_cell v) t1 = (Inr (), t2)"
    using slot_update_ok [OF r1(2)] by (auto simp: froth_slot_set_impl_def)
  have refs2: "slot_refs t2 x + impl_refs t i x = slot_refs t x + refs v x" for x
    using set_impl_refs [OF t2 r1(1), of x] r1(3) t1(3) by simp
  have r2: "names_ok (h, t2)" "index_has_slot_assigned t2 i"
    using slot_update_refs [OF t2 [unfolded froth_slot_set_impl_def] r1(1)] r1(2) by simp_all
  have old: "rt_sound (\<lambda>x. e x + slot_refs t2 x + impl_refs t i x) (mc_runtime m)"
  proof -
    have "(\<lambda>x. e x + slot_refs t x + refs v x) = (\<lambda>x. e x + slot_refs t2 x + impl_refs t i x)"
      using refs2 by (simp add: fun_eq_iff)
    with snd show ?thesis by simp
  qed
  obtain rt where rt: "(case froth_slot_get_impl t i of
        Inl e \<Rightarrow> if e \<noteq> FROTH_ERROR_UNDEFINED_WORD then ev_error e else ev_return ()
      | Inr old_impl \<Rightarrow> on_runtime (frothy_value_release (frothy_value_from_cell old_impl))) m =
        (Inr (), set_runtime rt m)"
    "rt_sound (\<lambda>x. e x + slot_refs t2 x) rt" "rt_frame rt = rt_frame (mc_runtime m)"
  proof (cases "froth_slot_get_impl t i")
    case (Inl err)
    then have "err = FROTH_ERROR_UNDEFINED_WORD" by (auto simp: froth_slot_get_impl_def split: if_splits)
    then show ?thesis using that [of "mc_runtime m"] Inl old
      by (simp add: ev_return_def set_runtime_def impl_refs_def)
  next
    case (Inr c)
    from release_rt_sound [of "\<lambda>x. e x + slot_refs t2 x" "frothy_value_from_cell c" "mc_runtime m"] old Inr
    obtain rt where "frothy_value_release (frothy_value_from_cell c) (mc_runtime m) = (Inr (), rt)"
      "rt_sound (\<lambda>x. e x + slot_refs t2 x) rt" by (auto simp: impl_refs_def)
    then show ?thesis using that [of rt] Inr release_frame_eq by (simp add: on_runtime_def)
  qed
  let ?m = "\<lambda>t. m\<lparr>mc_vm := (mc_vm m)\<lparr>vm_runtime := rt, vm_names := (h, t)\<rparr>\<rparr>"
  have s1: "on_slots (froth_slot_set_overlay i ?ov) (set_runtime rt m) = (Inr (), ?m t1)"
    using t1(1) n(1) by (simp add: on_slots_def on_names_def set_runtime_def)
  have s2: "on_slots (froth_slot_set_impl i (frothy_value_to_cell v)) (?m t1) = (Inr (), ?m t2)"
    using t2 by (simp add: on_slots_def on_names_def)
  obtain t3 where t3: "frothy_slot_update_arity i v (?m t2) = (Inr (), ?m t3)" "rebinds i h t2 t3"
    using update_arity_ok [OF r2, of "?m t2" v] by auto
  have "frothy_slot_rebind_owned i v m = (Inr (), ?m t3)"
    unfolding frothy_slot_rebind_owned_def n(1) snd_conv ev_try_def rt(1) using s1 s2 t3(1)
    by (simp add: set_runtime_def)
  moreover have "rt_sound (\<lambda>x. e x + slot_refs t3 x) rt" "names_ok (h, t3)"
    using rt(2) t3(2) by (simp_all add: rebinds_def)
  ultimately show ?thesis using rt(3) by blast
qed


definition named :: "froth_heap \<times> slot_table \<Rightarrow> eval_machine \<Rightarrow> eval_machine" where
  "named st m = m\<lparr>mc_vm := (mc_vm m)\<lparr>vm_names := st\<rparr>\<rparr>"

lemma named_simps [simp]:
  "mc_frames (named st m) = mc_frames m" "mc_out (named st m) = mc_out m" "mc_runtime (named st m) = mc_runtime m"
  "mc_base_depth (named st m) = mc_base_depth m" "vm_names (mc_vm (named st m)) = st"
  "vm_frames_used (mc_vm (named st m)) = vm_frames_used (mc_vm m)"
  by (simp_all add: named_def)

lemma named_sound:
  assumes "sound_stack b fs m" "names_ok st" "slot_refs (snd st) = slot_refs (snd (vm_names (mc_vm m)))"
  shows "sound_stack b fs (named st m)"
  using assms by (simp add: sound_stack_def core_def vm_sound_def)

text \<open>The value in scratch \<open>s\<close> moves into the slot.\<close>

lemma rebind_written:
  assumes ss: "sound_stack b (f # r) m" and res: "results False r m" and s: "s < 3"
    and i: "index_has_slot_assigned (snd (vm_names (mc_vm m))) i"
  shows "written b s (frothy_slot_rebind_owned i (fr_values f ! s) m) \<and>
    fst (frothy_slot_rebind_owned i (fr_values f ! s) m) = Inr ()"
proof -
  let ?g = "set_scratch s frothy_value_make_nil f" and ?v = "fr_values f ! s"
  note ts = take_slot [OF ss s]
  note c = sound_stackD(1) [OF ts]
  obtain h t where n: "vm_names (mc_vm m) = (h, t)" by fastforce
  have nok: "names_ok (h, t)" using coreD(4) [OF c] n by (simp add: vm_sound_def)
  let ?e = "\<lambda>x. eb_refs b x + holds (?g # r) (arena m) (used m) (mc_out m) x"
  have "rt_sound (\<lambda>x. ?e x + slot_refs t x + refs ?v x) (mc_runtime m)"
    using core_sound [OF c] n by (simp add: ac_simps)
  from rebind_effect [OF this n nok] i n have "\<exists>rt t'.
      frothy_slot_rebind_owned i ?v m = (Inr (), named (h, t') (set_runtime rt m)) \<and>
      rt_sound (\<lambda>x. ?e x + slot_refs t' x) rt \<and> names_ok (h, t') \<and> rt_frame rt = rt_frame (mc_runtime m)"
    by (simp add: named_def set_runtime_def)
  then obtain rt t' where rb: "frothy_slot_rebind_owned i ?v m = (Inr (), named (h, t') (set_runtime rt m))"
    "rt_sound (\<lambda>x. ?e x + slot_refs t' x) rt" "names_ok (h, t')" "rt_frame rt = rt_frame (mc_runtime m)"
    by blast
  let ?m = "named (h, t') (set_runtime rt m)"
  have m: "blank s ?m = named (h, t') (set_runtime rt (blank s m))"
    by (simp add: blank_def named_def set_runtime_def set_top_def mc_top_def)
  note fr = rt_frameD [OF rb(4)]
  have "core b (?g # r) (blank s ?m)"
    unfolding m using coreD [OF c] rb(2,3) fr by (simp add: core_def vm_sound_def arena_fits_def ac_simps)
  then have "sound_stack b (?g # r) (blank s ?m)"
    using sound_stackD(2-4) [OF ts] fr unfolding m by (simp add: sound_stack_def del: stack_ok.simps)
  moreover have "results False r ?m" using res fr by simp
  moreover have "mc_frames ?m = rev (f # r)" using stack_frames [OF ss] by simp
  ultimately have "written b s (Inr (), ?m)" unfolding written.simps by blast
  then show ?thesis by (simp add: rb(1))
qed

lemma on_names_named: "on_names f m = (fst (f (vm_names (mc_vm m))), named (snd (f (vm_names (mc_vm m)))) m)"
  by (simp add: on_names_def named_def case_prod_beta)

lemma named_same: "named (vm_names (mc_vm m)) m = m"
  by (simp add: named_def)

lemma slot_write_written:
  assumes ss: "sound_stack b (f # r) m" and res: "results False r m" and s: "s < 3"
  shows "written b s (frothy_slot_write_owned name (fr_values f ! s) ex m)"
    "frothy_slot_write_owned name (fr_values f ! s) ex m = (Inl err, m') \<Longrightarrow> m' = m"
proof -
  let ?st = "vm_names (mc_vm m)" and ?v = "fr_values f ! s"
  have nok: "names_ok ?st" using coreD(4) [OF sound_stackD(1) [OF ss]] by (simp add: vm_sound_def)
  have fail: "written b s (Inl err, m)" for err using ss res by auto
  let ?ok = "\<lambda>rm. written b s rm \<and> (\<forall>err m'. rm = (Inl err, m') \<longrightarrow> m' = m)"
  have "?ok (frothy_slot_write_owned name ?v ex m)"
  proof (cases "froth_slot_find_name ?st name")
    case (Inr i)
    from rebind_written [OF ss res s slot_find_assigned [OF Inr]] show ?thesis
      using Inr fail by (auto simp: frothy_slot_write_owned_def Let_def)
  next
    case find: (Inl err)
    show ?thesis
    proof (cases "frothy_value_is_slot_designator ?v \<or> err \<noteq> FROTH_ERROR_UNDEFINED_WORD \<or> ex")
      case True
      then show ?thesis using find fail by (auto simp: frothy_slot_write_owned_def)
    next
      case False
      obtain q st' where q: "froth_slot_create name ?st = (q, st')" by (metis prod.collapse)
      note cr = slot_create_refs [OF q nok]
      have run: "frothy_slot_write_owned name ?v ex m =
          (case q of Inl e \<Rightarrow> (Inl e, named st' m) | Inr i \<Rightarrow> frothy_slot_rebind_owned i ?v (named st' m))"
        using find False q by (simp add: frothy_slot_write_owned_def ev_try_def on_names_named split: sum.splits)
      show ?thesis
      proof (cases q)
        case (Inl e)
        then have "st' = ?st" using q slot_create_Inl by (simp add: froth_slot_create_def)
        then show ?thesis using run Inl fail named_same by simp
      next
        case (Inr i)
        have "sound_stack b (f # r) (named st' m)" by (rule named_sound [OF ss cr(1,2)])
        from rebind_written [OF this _ s, of i] cr(3) [OF Inr] res
        have "written b s (frothy_slot_rebind_owned i ?v (named st' m)) \<and>
          fst (frothy_slot_rebind_owned i ?v (named st' m)) = Inr ()" by simp
        then show ?thesis using run Inr by (metis fst_conv old.sum.simps(6) sum.distinct(1))
      qed
    qed
  qed
  then show "written b s (frothy_slot_write_owned name ?v ex m)"
    "frothy_slot_write_owned name ?v ex m = (Inl err, m') \<Longrightarrow> m' = m" by blast+
qed

lemma slot_write_fallback_written:
  assumes ss: "sound_stack b (f # r) m" and res: "results False r m" and s: "s < 3"
  shows "written b s (frothy_slot_write_fallback_owned p q (fr_values f ! s) ex m)"
proof (cases "frothy_slot_write_owned p (fr_values f ! s) ex m")
  case (Pair err m1)
  note w = slot_write_written [OF ss res s]
  show ?thesis
  proof (cases "err = Inl FROTH_ERROR_UNDEFINED_WORD")
    case True
    then have "m1 = m" using w(2) Pair by blast
    then show ?thesis using True Pair w(1) by (simp add: frothy_slot_write_fallback_owned_def ev_status_def)
  qed (use Pair w(1) [of p ex] in \<open>simp add: frothy_slot_write_fallback_owned_def ev_status_def ev_result_def\<close>)
qed

subsection \<open>Reading a slot\<close>

lemma slot_read_computed:
  assumes ss: "sound_stack b (f # r) m" and res: "results False r m" and ok: "base_ok b"
  shows "computed b f (frothy_slot_read_owned name m)"
proof (cases "FROTH_TRY (froth_slot_find_name (vm_names (mc_vm m)) name)
    (froth_slot_get_impl (snd (vm_names (mc_vm m))))")
  case (Inl err)
  then show ?thesis using computedI(1) [OF ss res] by (simp add: frothy_slot_read_owned_def)
next
  case (Inr impl)
  let ?v = "frothy_value_from_cell impl"
  obtain i where i: "froth_slot_get_impl (snd (vm_names (mc_vm m))) i = Inr impl"
    using Inr by (auto simp: FROTH_TRY_Inr_iff)
  have "0 < rc (mc_runtime m) (frothy_value_object_index ?v)" if "frothy_value_is_object_ref ?v"
  proof -
    have "refs ?v (frothy_value_object_index ?v) = 1" using that by (simp add: refs_def)
    then have "0 < slot_refs (snd (vm_names (mc_vm m))) (frothy_value_object_index ?v)"
      using impl_refs_le [OF i, of "frothy_value_object_index ?v"] by simp
    then show ?thesis
      using rt_soundD(5) [OF core_sound [OF sound_stackD(1) [OF ss]]] by (simp add: count_ok_def)
  qed
  from put_retained_computed [OF ss res ok this] show ?thesis
    using Inr by (simp add: frothy_slot_read_owned_def)
qed

lemma slot_read_fallback_computed:
  assumes ss: "sound_stack b (f # r) m" and res: "results False r m" and ok: "base_ok b"
  shows "computed b f (frothy_slot_read_fallback_owned p q m)"
  using slot_read_computed [OF ss res ok] computedI(1) [OF ss res]
  by (auto simp: frothy_slot_read_fallback_owned_def split: sum.splits)

end
