(* ===== verification/Frothy_Eval_Nodes.thy ===== *)
theory Frothy_Eval_Nodes
  imports Frothy_Eval_Writes
begin

section \<open>Every node keeps the invariant\<close>

text \<open>
  The nodes that read and write local variables, cells, fields and slots.
\<close>

subsection \<open>Local variables\<close>

lemma arena_held:
  assumes c: "core b fs m" and a: "a < used m" and v: "frothy_value_is_object_ref (arena m ! a)"
  shows "0 < rc (mc_runtime m) (frothy_value_object_index (arena m ! a))"
proof -
  let ?v = "arena m ! a" let ?x = "frothy_value_object_index ?v"
  have "a < length (arena m)" using coreD(5) [OF c] a by (simp add: arena_fits_def)
  then have "?v \<in> set (take (used m) (arena m))"
    using a by (metis in_set_conv_nth length_take min_less_iff_conj nth_take)
  then have "refs ?v ?x \<le> refs_in (take (used m) (arena m)) ?x"
    unfolding refs_in_def by (rule sum_list_member_le)
  moreover have "refs ?v ?x = 1" using v by (simp add: refs_def)
  ultimately show ?thesis
    using rt_soundD(5) [OF core_sound [OF c]] by (simp add: count_ok_def holds_def)
qed

lemma local_place:
  assumes ss: "sound_stack b (f # r) m" and ok: "base_ok b" and i: "i < fr_local_count f"
    and no: "\<not> in_args f"
  shows "the (fr_locals f) + i < used m" "length (eb_low b) \<le> the (fr_locals f) + i"
    "agree (f # r) ar (ar[the (fr_locals f) + i := v])"
proof -
  obtain b0 where b0: "bstack b r b0" "used m = b0 + bcount f"
    "locals_of (eb_locals b) r = (fr_locals f, fr_local_count f)"
    using sound_stackD(2) [OF ss] by auto
  have base: "locals_base (eb_arena b) (eb_locals b)" "length (eb_low b) \<le> eb_arena b"
    "0 < snd (eb_locals b) \<longrightarrow> length (eb_low b) \<le> the (fst (eb_locals b))"
    using ok by (simp_all add: base_ok_def)
  from locals_place [OF b0(1) base(1) b0(3) i] obtain a where
    a: "fr_locals f = Some a" "a + i < b0" "\<forall>g \<in> set r. in_args g \<longrightarrow> bf_values (fr_buffer g) \<noteq> None \<longrightarrow>
      \<not> (bbase g \<le> a + i \<and> a + i < bbase g + bcount g)" by blast
  show "the (fr_locals f) + i < used m" using a b0(2) by simp
  have "length (eb_low b) \<le> the (fr_locals f)"
    using locals_low [OF b0(1) base(2,3) b0(3)] i by simp
  then show "length (eb_low b) \<le> the (fr_locals f) + i" by simp
  show "agree (f # r) ar (ar[the (fr_locals f) + i := v])"
    using agree_local [OF b0(1) a(3), of ar v] no a(1) by (simp add: agree_def)
qed

lemma read_local_outcome:
  assumes inv: "minv b (f # r) m" and nd: "f_node f = NODE_READ_LOCAL i" and ok: "base_ok b"
  shows "outcome b (eval_read_local i m)"
proof -
  have ss: "sound_stack b (f # r) m" and res: "results False r m"
    using inv nd by (simp_all add: is_tail_def)
  have top: "mc_top m = f" by (rule core_top [OF sound_stackD(1) [OF ss]])
  show ?thesis
  proof (cases "fr_local_count f \<le> i")
    case True
    then show ?thesis using tidy_outcome [OF results_tidy [OF ss res]] top by (simp add: eval_read_local_def)
  next
    case False
    let ?a = "the (fr_locals f) + i"
    have "\<not> in_args f" using nd by (simp add: in_args_def)
    then have "?a < used m" using local_place(1) [OF ss ok] False by simp
    from put_retained_computed [OF ss res ok arena_held [OF sound_stackD(1) [OF ss] this]]
    have "outcome b (eval_simple (put_retained (arena m ! ?a)) m)" by (rule simple_outcome)
    then show ?thesis using False top by (simp add: eval_read_local_def eval_simple_def)
  qed
qed

lemma core_arena:
  assumes c: "core (hold w b) fs m" and rt: "rt_frame rt = rt_frame (mc_runtime m)"
    and snd: "rt_sound (\<lambda>x. eb_refs b x + slot_refs (snd (vm_names (mc_vm m))) x
      + holds fs ((arena m)[a := v]) (used m) (mc_out m) x) rt"
    and a: "a < length (arena m)" "length (eb_low b) \<le> a"
  shows "core b fs (set_runtime (arena_store a [v] rt) m)"
proof -
  note fr = rt_frameD [OF rt]
  have st: "arena_store a [v] rt = rt\<lparr>rt_eval_values := (arena m)[a := v]\<rparr>"
    using a fr by (simp add: arena_store_one)
  show ?thesis
    unfolding st using coreD [OF c] snd fr a same_store_sound [OF same_store_eval(1)]
    by (simp add: core_def vm_sound_def arena_fits_def ac_simps)
qed

lemma write_local_written:
  assumes ss: "sound_stack b (f # r) m" and res: "results False r m" and ok: "base_ok b"
    and i: "i < fr_local_count f" and no: "\<not> in_args f"
  shows "written b 0
    (ev_try (\<lambda>m. on_runtime (frothy_value_release (arena m ! (the (fr_locals f) + i))) m)
       (\<lambda>u m. (Inr (), set_runtime (arena_store (the (fr_locals f) + i) [mc_scratch m 0] (mc_runtime m)) m)) m)"
proof -
  let ?a = "the (fr_locals f) + i" and ?v = "fr_values f ! 0" and ?g = "set_scratch 0 frothy_value_make_nil f"
  have "(0::nat) < 3" by simp
  note ts = take_slot [OF ss this]
  note c = sound_stackD(1) [OF ts]
  note lp = local_place [OF ss ok i no]
  have len: "used m \<le> length (arena m)" using coreD(5) [OF c] by (simp add: arena_fits_def)
  let ?e = "\<lambda>x. eb_refs b x + slot_refs (snd (vm_names (mc_vm m))) x"
  have "(\<lambda>x. ?e x + refs ?v x + holds (?g # r) (arena m) (used m) (mc_out m) x) =
      (\<lambda>x. ?e x + holds (?g # r) ((arena m)[?a := ?v]) (used m) (mc_out m) x + refs (arena m ! ?a) x)"
    using holds_arena_update [OF lp(1) len, of "?g # r" ?v "mc_out m"] by (simp add: fun_eq_iff)
  then have "rt_sound (\<lambda>x. ?e x + holds (?g # r) ((arena m)[?a := ?v]) (used m) (mc_out m) x
      + refs (arena m ! ?a) x) (mc_runtime m)"
    using core_sound [OF c] by (simp add: ac_simps)
  from release_rt_sound [OF this] obtain rt where rt: "frothy_value_release (arena m ! ?a) (mc_runtime m) = (Inr (), rt)"
    "rt_sound (\<lambda>x. ?e x + holds (?g # r) ((arena m)[?a := ?v]) (used m) (mc_out m) x) rt" by auto
  note fr = release_frame_eq [OF rt(1)]
  let ?m = "set_runtime (arena_store ?a [?v] rt) m"
  have top: "mc_top m = f" by (rule core_top [OF sound_stackD(1) [OF ss]])
  have m: "blank 0 ?m = set_runtime (arena_store ?a [?v] rt) (blank 0 m)"
    by (simp add: blank_def set_runtime_def set_top_def mc_top_def)
  have "core b (?g # r) (blank 0 ?m)"
    unfolding m by (rule core_arena [OF c]) (use fr rt(2) lp(1,2) len in simp_all)
  moreover have ar: "arena ?m = (arena m)[?a := ?v]" "used ?m = used m"
    using rt_frameD [OF fr] lp(1) len by (simp_all add: arena_store_one)
  have "clean (arena ?m) h" if "h \<in> set (f # r)" for h
    using clean_agree [OF lp(3) that] sound_stackD(3) [OF ss that] ar by simp
  then have "\<forall>h \<in> set (?g # r). clean (arena ?m) h" using clean_scratch by auto
  ultimately have "sound_stack b (?g # r) (blank 0 ?m)"
    using sound_stackD(2,4) [OF ts] ar(2) by (simp add: sound_stack_def del: stack_ok.simps)
  moreover obtain b0 where b0: "bstack b r b0" "waits r" using sound_stackD(2) [OF ss] by auto
  have "agree r (arena m) (arena ?m)" using lp(3) [of "arena m" ?v] ar(1) by (simp add: agree_def)
  from awaited_agree [OF b0 this] have "results False r ?m" using res by simp
  moreover have "mc_frames ?m = rev (f # r)" using stack_frames [OF ss] by simp
  ultimately have "written b 0 (Inr (), ?m)" unfolding written.simps by blast
  moreover have "mc_scratch (set_runtime rt m) 0 = ?v" using top by (simp add: mc_scratch_def mc_top_def)
  ultimately show ?thesis using rt(1) by (simp add: ev_try_def on_runtime_def set_runtime_def)
qed

subsection \<open>Operands and operations\<close>

text \<open>What every case starts from.\<close>

lemma minvD:
  assumes "minv b (f # r) m"
  shows "sound_stack b (f # r) m" "mc_top m = f" "mc_scratch m s = fr_values f ! s"
    "\<not> is_tail f \<Longrightarrow> results False r m" "is_tail f \<Longrightarrow> results True r m"
proof -
  show ss: "sound_stack b (f # r) m" using assms by simp
  show top: "mc_top m = f" by (rule core_top [OF sound_stackD(1) [OF ss]])
  show "mc_scratch m s = fr_values f ! s" by (simp add: mc_scratch_def top)
  show "\<not> is_tail f \<Longrightarrow> results False r m" "is_tail f \<Longrightarrow> results True r m" using assms by simp_all
qed

lemma operand_outcome:
  assumes inv: "minv b (f # r) m" and s: "fr_phase f = s" "s < 3"
    and nd: "\<And>p. \<not> tail_phase (f_node f) p" "\<not> is_call_node (f_node f)" "\<not> is_while_node (f_node f)"
  shows "outcome b (frothy_eval_push_scratch_child (Suc s) nd s m)"
proof (rule push_scratch_minv)
  show "sound_stack b (f # r) m" "results False r m"
    using minvD [OF inv] nd by (simp_all add: is_tail_def)
qed (use s nd in \<open>simp_all add: in_body_def operand_phase_def\<close>)

lemma computed_release_outcome:
  assumes "computed b f (a m)" "s < 3"
  shows "outcome b (ev_status a (\<lambda>err. ev_try (ev_do (frothy_eval_release_slot s))
    (\<lambda>u. frothy_eval_complete_out err)) m)"
  using computed_outcome [OF computed_release [OF assms]]
  by (simp add: ev_status_def ev_try_def ev_do_def case_prod_beta)

lemma read_index_outcome:
  assumes inv: "minv b (f # r) m" and nd: "f_node f = NODE_READ_INDEX bs ix" and ok: "base_ok b"
  shows "outcome b (eval_read_index bs ix m)"
proof -
  note d = minvD [OF inv]
  have res: "results False r m" using d(4) nd by (simp add: is_tail_def)
  have op: "outcome b (frothy_eval_push_scratch_child (Suc s) n s m)" if "fr_phase f = s" "s < 3" for s n
    by (rule operand_outcome [OF inv that]) (simp_all add: nd)
  have "computed b f (frothy_read_index_owned (mc_scratch m 0) (mc_scratch m 1) m)"
  proof (cases "indexed_cell (mc_runtime m) (mc_scratch m 0) (mc_scratch m 1)")
    case (Inl err)
    then show ?thesis using computedI(1) [OF d(1) res] by (simp add: frothy_read_index_owned_def)
  next
    case (Inr a)
    from put_retained_computed [OF d(1) res ok indexed_cell_held [OF core_sound [OF sound_stackD(1) [OF d(1)]] Inr]]
    show ?thesis using Inr by (simp add: frothy_read_index_owned_def)
  qed
  from computed_outcome [OF computed_release [OF computed_release [OF this, of 1], of 0]]
  have "outcome b (ev_status (frothy_read_index_owned (mc_scratch m 0) (mc_scratch m 1)) (\<lambda>err.
      ev_try (ev_do (\<lambda>m. frothy_eval_release_slot 0 (frothy_eval_release_slot 1 m)))
        (\<lambda>u. frothy_eval_complete_out err)) m)"
    by (simp add: ev_status_def ev_try_def ev_do_def case_prod_beta)
  then show ?thesis using op [of 0] op [of 1] d(2)
    by (auto simp: eval_read_index_def numeral_2_eq_2)
qed

lemma read_field_outcome:
  assumes inv: "minv b (f # r) m" and nd: "f_node f = NODE_READ_FIELD bs nm" and ok: "base_ok b"
  shows "outcome b (eval_read_field bs nm m)"
proof -
  note d = minvD [OF inv]
  have res: "results False r m" using d(4) nd by (simp add: is_tail_def)
  have op: "outcome b (frothy_eval_push_scratch_child (Suc s) n s m)" if "fr_phase f = s" "s < 3" for s n
    by (rule operand_outcome [OF inv that]) (simp_all add: nd)
  have "computed b f (frothy_read_field_owned (mc_scratch m 0) nm m)"
  proof (cases "record_field_value (mc_runtime m) (mc_scratch m 0) nm")
    case (Inl err)
    then show ?thesis using computedI(1) [OF d(1) res] by (simp add: frothy_read_field_owned_def)
  next
    case (Inr v)
    from put_retained_computed [OF d(1) res ok record_field_held [OF core_sound [OF sound_stackD(1) [OF d(1)]] Inr]]
    show ?thesis using Inr by (simp add: frothy_read_field_owned_def)
  qed
  then have "outcome b (ev_status (frothy_read_field_owned (mc_scratch m 0) nm) (\<lambda>err.
      ev_try (ev_do (frothy_eval_release_slot 0)) (\<lambda>u. frothy_eval_complete_out err)) m)"
    by (rule computed_release_outcome) simp
  then show ?thesis using op [of 0] d(2) by (simp add: eval_read_field_def)
qed

lemma written_status:
  assumes "written b s (a m)" "t < 3" "t \<noteq> s"
  shows "written b s (ev_status a (\<lambda>err. ev_try (ev_do (frothy_eval_release_slot t)) (\<lambda>u. ev_result err)) m)"
  using written_release [of b s "fst (a m)" "snd (a m)" t] assms
  by (simp add: ev_status_def ev_try_def ev_do_def ev_result_def case_prod_beta)

lemma write_index_outcome:
  assumes inv: "minv b (f # r) m" and nd: "f_node f = NODE_WRITE_INDEX bs ix v" and ok: "base_ok b"
  shows "outcome b (eval_write_index bs ix v m)"
proof -
  note d = minvD [OF inv]
  have res: "results False r m" using d(4) nd by (simp add: is_tail_def)
  have op: "outcome b (frothy_eval_push_scratch_child (Suc s) n s m)" if "fr_phase f = s" "s < 3" for s n
    by (rule operand_outcome [OF inv that]) (simp_all add: nd)
  let ?w = "on_runtime (frothy_write_index_owned (mc_scratch m 0) (mc_scratch m 1) (mc_scratch m 2))"
  have "written b 2 (?w m)" unfolding d(3) by (rule write_index_written [OF d(1) res])
  from written_release [of b 2 "fst (?w m)" "snd (?w m)" 1] this
  have "written b 2 (fst (?w m), frothy_eval_release_slot 1 (snd (?w m)))" by simp
  from written_release [OF this, of 0]
  have w: "written b 2 (ev_status ?w (\<lambda>err.
      ev_try (ev_do (\<lambda>m. frothy_eval_release_slot 0 (frothy_eval_release_slot 1 m))) (\<lambda>u. ev_result err)) m)"
    by (simp add: ev_status_def ev_try_def ev_do_def ev_result_def case_prod_beta)
  have "outcome b (complete_write 2 (ev_status ?w (\<lambda>err.
      ev_try (ev_do (\<lambda>m. frothy_eval_release_slot 0 (frothy_eval_release_slot 1 m))) (\<lambda>u. ev_result err))) m)"
    by (rule complete_write_outcome, rule w, simp, rule ok)
  then show ?thesis
    using op [of 0] op [of 1] op [of 2] d(2)
    by (auto simp: eval_write_index_def numeral_2_eq_2 numeral_3_eq_3)
qed

lemma write_field_outcome:
  assumes inv: "minv b (f # r) m" and nd: "f_node f = NODE_WRITE_FIELD bs nm v" and ok: "base_ok b"
  shows "outcome b (eval_write_field bs nm v m)"
proof -
  note d = minvD [OF inv]
  have res: "results False r m" using d(4) nd by (simp add: is_tail_def)
  have op: "outcome b (frothy_eval_push_scratch_child (Suc s) n s m)" if "fr_phase f = s" "s < 3" for s n
    by (rule operand_outcome [OF inv that]) (simp_all add: nd)
  let ?w = "on_runtime (frothy_write_field_owned (mc_scratch m 0) nm (mc_scratch m 1))"
  have w: "written b 1 (?w m)" unfolding d(3) by (rule write_field_written [OF d(1) res])
  have "written b 1 (ev_status ?w (\<lambda>err.
      ev_try (ev_do (frothy_eval_release_slot 0)) (\<lambda>u. ev_result err)) m)"
    by (rule written_status, rule w) simp_all
  then have "outcome b (complete_write 1 (ev_status ?w (\<lambda>err.
      ev_try (ev_do (frothy_eval_release_slot 0)) (\<lambda>u. ev_result err))) m)"
    by (rule complete_write_outcome) (simp_all add: ok)
  then show ?thesis
    using op [of 0] op [of 1] d(2) by (auto simp: eval_write_field_def numeral_2_eq_2)
qed

lemma write_slot_outcome:
  assumes inv: "minv b (f # r) m"
    and nd: "\<And>p. \<not> tail_phase (f_node f) p" "\<not> is_call_node (f_node f)" "\<not> is_while_node (f_node f)"
    and ok: "base_ok b" and w: "results False r m \<Longrightarrow> written b 0 (write (fr_values f ! 0) m)"
  shows "outcome b (eval_write_slot v write m)"
proof -
  note d = minvD [OF inv]
  have res: "results False r m" using d(4) nd by (simp add: is_tail_def)
  have "outcome b (complete_write 0 (write (fr_values f ! 0)) m)"
    by (rule complete_write_outcome, rule w, rule res, simp, rule ok)
  with operand_outcome [OF inv _ _ nd, of 0] show ?thesis
    by (simp add: eval_write_slot_def d(2,3))
qed

lemma write_local_outcome:
  assumes inv: "minv b (f # r) m" and nd: "f_node f = NODE_WRITE_LOCAL i v" and ok: "base_ok b"
  shows "outcome b (eval_write_local i v m)"
proof -
  note d = minvD [OF inv]
  have res: "results False r m" using d(4) nd by (simp add: is_tail_def)
  have op: "outcome b (frothy_eval_push_scratch_child (Suc s) n s m)" if "fr_phase f = s" "s < 3" for s n
    by (rule operand_outcome [OF inv that]) (simp_all add: nd)
  show ?thesis
  proof (cases "fr_local_count f \<le> i")
    case True
    then show ?thesis using tidy_outcome [OF results_tidy [OF d(1) res]] d(2) by (simp add: eval_write_local_def)
  next
    case False
    have "\<not> in_args f" using nd by (simp add: in_args_def)
    then have w: "written b 0
      (ev_try (\<lambda>m. on_runtime (frothy_value_release (arena m ! (the (fr_locals f) + i))) m)
       (\<lambda>u m. (Inr (), set_runtime (arena_store (the (fr_locals f) + i) [mc_scratch m 0] (mc_runtime m)) m)) m)"
      using write_local_written [OF d(1) res ok] False by simp
    have "outcome b (complete_write 0
      (ev_try (\<lambda>m. on_runtime (frothy_value_release (arena m ! (the (fr_locals f) + i))) m)
       (\<lambda>u m. (Inr (), set_runtime (arena_store (the (fr_locals f) + i) [mc_scratch m 0] (mc_runtime m)) m))) m)"
      by (rule complete_write_outcome, rule w, simp, rule ok)
    then show ?thesis using False op [of 0] by (simp add: eval_write_local_def d(2) Let_def)
  qed
qed

end
