(* ===== verification/Frothy_Eval_Control.thy ===== *)
theory Frothy_Eval_Control
  imports Frothy_Eval_Nodes
begin

section \<open>Control nodes keep the invariant\<close>

text \<open>
  Conditionals, loops and sequences.
\<close>

subsection \<open>Conditionals, loops and sequences\<close>

lemma release_top:
  assumes ss: "sound_stack b (f # r) m" and s: "s < 3" and p: "clean (arena m) g"
    and g: "g = (set_scratch s frothy_value_make_nil f)\<lparr>fr_phase := p\<rparr>"
  shows "sound_stack b (g # r) (set_phase p (frothy_eval_release_slot s m))"
    "set_phase p (frothy_eval_release_slot s m) = set_top g (frothy_eval_release_slot s m)"
proof -
  note rs = release_slot_sound [OF ss s]
  show e: "set_phase p (frothy_eval_release_slot s m) = set_top g (frothy_eval_release_slot s m)"
    using set_phase_top [OF stack_frames [OF rs(1)]] by (simp add: g)
  show "sound_stack b (g # r) (set_phase p (frothy_eval_release_slot s m))"
    unfolding e by (rule set_top_sound [OF rs(1)]) (simp_all add: g rs(2) p [unfolded g])
qed

lemma plain_kinds [simp]:
  "is_tail (f\<lparr>fr_phase := p\<rparr>) = tail_phase (f_node f) p"
  "in_args (f\<lparr>fr_phase := p\<rparr>) = (is_call_node (f_node f) \<and> p = 2)"
  "in_code (f\<lparr>fr_phase := p\<rparr>) = (is_call_node (f_node f) \<and> p = 3)"
  "in_body (f\<lparr>fr_phase := p\<rparr>) = (is_while_node (f_node f) \<and> p = 2)"
  by (simp_all add: is_tail_def in_args_def in_code_def in_body_def)

lemma if_outcome:
  assumes inv: "minv b (f # r) m" and nd: "f_node f = NODE_IF c t e h" and ok: "base_ok b"
  shows "outcome b (frothy_eval_if c t e h m)"
proof -
  note d = minvD [OF inv]
  have tail: "is_tail f \<longleftrightarrow> fr_phase f = 2" using nd by (simp add: is_tail_def)
  consider (0) "fr_phase f = 0" | (1) "fr_phase f = 1" | (2) "fr_phase f = 2" | (3) "2 < fr_phase f" by linarith
  then show ?thesis
  proof cases
    case 0
    have "outcome b (frothy_eval_push_scratch_child (Suc 0) c 0 m)"
      by (rule push_scratch_minv [OF d(1)])
        (use 0 nd tail d(4) in \<open>simp_all add: operand_phase_def in_body_def\<close>)
    then show ?thesis using 0 d(2) by (simp add: frothy_eval_if_def Let_def)
  next
    case 1
    have res: "results False r m" using d(4) tail 1 by simp
    have "(0::nat) < 3" by simp
    note rs = release_slot_sound [OF d(1) this]
    let ?m = "frothy_eval_release_slot 0 m" and ?f = "set_scratch 0 frothy_value_make_nil f"
    let ?g = "?f\<lparr>fr_phase := 2\<rparr>"
    have res': "results False r ?m" using res rs(2,3) by simp
    have "clean (arena m) f" using sound_stackD(3) [OF d(1)] by simp
    then have "clean (arena m) ?f" by (rule clean_scratch) simp
    then have cl: "clean (arena ?m) ?g" using 1 nd rs(2) by (auto simp: clean_def free_slot_def in_args_def in_body_def)
    have push: "outcome b (frothy_eval_push_child n (fr_out f) (set_phase 2 ?m))" for n
      using tail_push_minv [OF rs(1) res' _ cl, of n] nd set_phase_top [OF stack_frames [OF rs(1)], of 2]
      by (simp add: is_tail_def in_code_def)
    have nil: "outcome b (frothy_eval_complete_nil ?m)"
      using complete_nil_minv [OF rs(1) res' ok] minv_outcome by fastforce
    have err: "outcome b (Inl FROTH_ERROR_TYPE_MISMATCH, ?m)"
      by (rule tidy_outcome [OF results_tidy [OF rs(1) res']])
    show ?thesis using 1 d(2,3) push nil err by (simp add: frothy_eval_if_def Let_def)
  next
    case 2
    then show ?thesis using complete_here_minv [OF d(1) d(5)] tail d(2)
      by (auto simp: frothy_eval_if_def Let_def intro: minv_outcome)
  next
    case 3
    then show ?thesis using tidy_outcome [OF results_tidy [OF d(1) d(4)]] tail d(2)
      by (auto simp: frothy_eval_if_def Let_def)
  qed
qed

lemma while_outcome:
  assumes inv: "minv b (f # r) m" and nd: "f_node f = NODE_WHILE c bd" and ok: "base_ok b"
  shows "outcome b (frothy_eval_while c bd m)"
proof -
  note d = minvD [OF inv]
  have tail: "\<not> is_tail f" using nd by (simp add: is_tail_def)
  have res: "results False r m" by (rule d(4) [OF tail])
  have cl: "clean (arena m) f" using sound_stackD(3) [OF d(1)] by simp
  have frames: "length (mc_frames (frothy_eval_release_slot 0 m)) - 1 = length r"
    using stack_frames [OF release_slot_sound(1) [OF d(1), of 0]] by simp
  consider (0) "fr_phase f = 0" | (1) "fr_phase f = 1" | (2) "fr_phase f = 2" | (3) "2 < fr_phase f" by linarith
  then show ?thesis
  proof cases
    case 0
    have "outcome b (frothy_eval_push_scratch_child (Suc 0) c 0 m)"
      by (rule push_scratch_minv [OF d(1) res])
        (use 0 nd in \<open>simp_all add: operand_phase_def in_body_def\<close>)
    then show ?thesis using 0 d(2) by (simp add: frothy_eval_while_def Let_def)
  next
    case 1
    have "(0::nat) < 3" by simp
    note rs = release_slot_sound [OF d(1) this]
    let ?m = "frothy_eval_release_slot 0 m" and ?f = "set_scratch 0 frothy_value_make_nil f"
    let ?g = "?f\<lparr>fr_phase := 2\<rparr>"
    have res': "results False r ?m" using res rs(2,3) by simp
    have slots: "plainv (fr_values f ! s)" if "s \<noteq> 0" "s < 3" for s
      using cl 1 that by (simp add: clean_def free_slot_def in_body_def)
    have "clean (arena ?m) ?g"
      using cl nd slots by (auto simp: clean_def free_slot_def in_args_def nth_list_update)
    then have push: "outcome b (frothy_eval_push_child bd (OUT_SCRATCH (length r) 1) (set_top ?g ?m))"
      using nd slots [of 1] by (intro own_push_minv [OF rs(1) res']) (simp_all add: awaited_slot_def)
    have nil: "outcome b (frothy_eval_complete_nil ?m)"
      using complete_nil_minv [OF rs(1) res' ok] minv_outcome by fastforce
    have err: "outcome b (Inl FROTH_ERROR_TYPE_MISMATCH, ?m)"
      by (rule tidy_outcome [OF results_tidy [OF rs(1) res']])
    show ?thesis
      using 1 d(2,3) push nil err frames set_phase_top [OF stack_frames [OF rs(1)], of 2]
      by (simp add: frothy_eval_while_def Let_def)
  next
    case 2
    have "(1::nat) < 3" by simp
    note rs = release_slot_sound [OF d(1) this]
    let ?g = "(set_scratch 1 frothy_value_make_nil f)\<lparr>fr_phase := 0\<rparr>"
    have "plainv (fr_values f ! s)" if "s \<noteq> 1" "s < 3" for s
      using cl 2 that nd by (simp add: clean_def free_slot_def in_body_def)
    then have "clean (arena m) ?g"
      using cl nd by (auto simp: clean_def free_slot_def in_args_def nth_list_update)
    note rt = release_top [OF d(1) \<open>1 < 3\<close> this refl]
    have "results False r (set_phase 0 (frothy_eval_release_slot 1 m))"
      unfolding rt(2) using res rs(2,3) by simp
    with rt(1) have "minv b (?g # r) (set_phase 0 (frothy_eval_release_slot 1 m))" by simp
    from minv_outcome [OF this] show ?thesis using 2 d(2) by (simp add: frothy_eval_while_def Let_def)
  next
    case 3
    then show ?thesis using tidy_outcome [OF results_tidy [OF d(1) res]] d(2)
      by (simp add: frothy_eval_while_def Let_def)
  qed
qed

lemma set_index_top:
  "mc_frames m = rev (f # r) \<Longrightarrow> set_index i m = set_top (f\<lparr>fr_index := i\<rparr>) m"
  by (simp add: set_index_def mc_top_def)

lemma index_kinds [simp]:
  "is_tail (f\<lparr>fr_index := i\<rparr>) = is_tail f" "in_args (f\<lparr>fr_index := i\<rparr>) = in_args f"
  "in_code (f\<lparr>fr_index := i\<rparr>) = in_code f" "in_body (f\<lparr>fr_index := i\<rparr>) = in_body f"
  by (simp_all add: is_tail_def in_args_def in_code_def in_body_def)

lemma index_free [simp]: "free_slot (f\<lparr>fr_index := i\<rparr>) s = free_slot f s"
  by (simp add: free_slot_def)

lemma seq_outcome:
  assumes inv: "minv b (f # r) m" and nd: "f_node f = NODE_SEQ a n" and ok: "base_ok b"
  shows "outcome b (frothy_eval_seq a n m)"
proof -
  note d = minvD [OF inv]
  have tail: "is_tail f \<longleftrightarrow> fr_phase f = 2" using nd by (simp add: is_tail_def)
  have kinds: "\<not> in_args f" "\<not> in_body f" using nd by (simp_all add: in_args_def in_body_def)
  have cl: "clean (arena m) f" using sound_stackD(3) [OF d(1)] by simp
  consider (0) "fr_phase f = 0" | (1) "fr_phase f = 1" | (2) "fr_phase f = 2" | (3) "2 < fr_phase f" by linarith
  then show ?thesis
  proof cases
    case 0
    have res: "results False r m" using d(4) tail 0 by simp
    let ?f = "f\<lparr>fr_index := fr_index f + 1\<rparr>"
    have ss: "sound_stack b (?f # r) (set_index (fr_index f + 1) m)"
      unfolding set_index_top [OF stack_frames [OF d(1)]]
      by (rule set_top_sound [OF d(1)]) (use cl kinds nd in \<open>simp_all add: clean_def\<close>)
    have res': "results False r (set_index (fr_index f + 1) m)"
      using res by (simp add: set_index_def)
    have push: "outcome b (frothy_eval_push_scratch_child (Suc 0) i 0 (set_index (fr_index f + 1) m))" for i
      by (rule push_scratch_minv [OF ss res'])
        (use 0 nd in \<open>simp_all add: operand_phase_def in_body_def\<close>)
    have "clean (arena m) (f\<lparr>fr_phase := 2\<rparr>)"
      using cl 0 nd by (auto simp: clean_def free_slot_def in_args_def in_body_def)
    from tail_push_minv [OF d(1) res _ this] nd set_phase_top [OF stack_frames [OF d(1)], of 2]
    have last: "outcome b (frothy_eval_push_child i (fr_out f) (set_phase 2 m))" for i
      by simp
    have nil: "outcome b (frothy_eval_complete_nil m)"
      using complete_nil_minv [OF d(1) res ok] minv_outcome by fastforce
    show ?thesis using 0 d(2) push last nil by (simp add: frothy_eval_seq_def Let_def)
  next
    case 1
    have "(0::nat) < 3" by simp
    note rs = release_slot_sound [OF d(1) this]
    let ?g = "(set_scratch 0 frothy_value_make_nil f)\<lparr>fr_phase := 0\<rparr>"
    have "clean (arena m) ?g"
      using cl 1 nd kinds by (auto simp: clean_def free_slot_def nth_list_update)
    note rt = release_top [OF d(1) \<open>0 < 3\<close> this refl]
    have "results False r (set_phase 0 (frothy_eval_release_slot 0 m))"
      unfolding rt(2) using d(4) tail 1 rs(2,3) by simp
    with rt(1) have "minv b (?g # r) (set_phase 0 (frothy_eval_release_slot 0 m))" by simp
    from minv_outcome [OF this] show ?thesis using 1 d(2) by (simp add: frothy_eval_seq_def Let_def)
  next
    case 2
    then show ?thesis using complete_here_minv [OF d(1) d(5)] tail d(2)
      by (auto simp: frothy_eval_seq_def Let_def intro: minv_outcome)
  next
    case 3
    then show ?thesis using tidy_outcome [OF results_tidy [OF d(1) d(4)]] tail d(2)
      by (auto simp: frothy_eval_seq_def Let_def)
  qed
qed

end
