(* ===== verification/Frothy_Eval_Call.thy ===== *)
theory Frothy_Eval_Call
  imports Frothy_Eval_Control
begin

section \<open>Calls keep the invariant\<close>

text \<open>
  Calls of built-in operations, record definitions, code and natives. A native is a parameter of
  the model; \<open>natives_keep_promise\<close> is what the evaluator relies on, and \<open>gone\<close> describes what is
  left of the evaluator after a native has reset the runtime.
\<close>

subsection \<open>The argument buffer\<close>

lemma store_at_longer: "length xs \<le> length (store_at xs k ys)"
  by (simp add: store_at_def)

lemma take_store_above: "k \<le> n \<Longrightarrow> n \<le> length xs \<Longrightarrow> take k (store_at xs n ys) = take k xs"
  by (simp add: store_at_def min_def)

lemma take_store_all: "n \<le> length xs \<Longrightarrow> take (n + length ys) (store_at xs n ys) = take n xs @ ys"
  by (simp add: store_at_def)

lemma refs_in_nils [simp]: "refs_in (replicate n frothy_value_make_nil) x = 0"
  by (induction n) simp_all

lemma buffer_init_cases:
  assumes "arena_fits (mc_runtime m)"
  obtains (failed) err where "frothy_eval_buffer_init n m = (Inl err, m)"
  | (none) bf where "n = 0" "frothy_eval_buffer_init n m = (Inr bf, m)" "bf_values bf = None" "bf_count bf = 0"
  | (filled) bf rt where "0 < n" "frothy_eval_buffer_init n m = (Inr bf, set_runtime rt m)"
      "bf_values bf = Some (used m)" "bf_count bf = n" "bf_arena_base bf = used m"
      "bf_reset_epoch bf = rt_reset_epoch (mc_runtime m)"
      "rt_eval_values rt = store_at (arena m) (used m) (replicate n frothy_value_make_nil)"
      "rt_eval_value_used rt = used m + n" "arena_fits rt" "same_store (mc_runtime m) rt"
      "rt_reset_epoch rt = rt_reset_epoch (mc_runtime m)" "used m + n \<le> length (arena m)"
proof -
  let ?limit = "rt_eval_value_limit (mc_runtime m)"
  consider "n = 0" | "0 < n" "?limit < n \<or> ?limit - n < used m" | "0 < n" "n \<le> ?limit" "used m \<le> ?limit - n"
    by linarith
  then show ?thesis
  proof cases
    case 1
    then show ?thesis using none by (simp add: frothy_eval_buffer_init_def Let_def)
  next
    case 2
    then show ?thesis using failed by (auto simp: frothy_eval_buffer_init_def Let_def)
  next
    case 3
    define rt where "rt = (arena_store (used m) (replicate n frothy_value_make_nil) (mc_runtime m))
        \<lparr>rt_eval_value_used := used m + n,
          rt_eval_value_high_water := (if rt_eval_value_high_water (mc_runtime m) < used m + n then used m + n
                                       else rt_eval_value_high_water (mc_runtime m))\<rparr>"
    define bf where "bf = \<lparr>bf_values = Some (used m), bf_count = n, bf_arena_base = used m,
        bf_reset_epoch = rt_reset_epoch (mc_runtime m)\<rparr>"
    have run: "frothy_eval_buffer_init n m = (Inr bf, set_runtime rt m)"
      using 3 by (simp add: frothy_eval_buffer_init_def rt_def bf_def Let_def)
    have "used m + n \<le> rt_eval_value_limit (mc_runtime m)" using 3 by simp
    with assms have "arena_fits rt" "used m + n \<le> length (arena m)"
      by (simp_all add: arena_fits_def rt_def arena_store_def)
    moreover have "same_store (mc_runtime m) rt" by (simp add: same_store_def rt_def arena_store_def)
    ultimately show ?thesis
      by (intro filled [OF 3(1) run]) (simp_all add: rt_def bf_def arena_store_def)
  qed
qed

lemma vm_sound_same_store:
  "same_store (mc_runtime m) rt \<Longrightarrow> vm_sound e (mc_vm (set_runtime rt m)) = vm_sound e (mc_vm m)"
  using same_store_sound [of "mc_runtime m" rt] by (simp add: vm_sound_def)

lemma call_not_while [simp]: "is_call_node nd \<Longrightarrow> \<not> is_while_node nd"
  by (cases nd) simp_all

lemma fill_buffer_outcome:
  assumes ss: "sound_stack b (f # r) m" and res: "results False r m" and ok: "base_ok b"
    and nd: "is_call_node (f_node f)" "fr_phase f < 2" "call_args (f_node f) \<le> n"
  shows "outcome b (ev_try (frothy_eval_buffer_init n) (\<lambda>bf. ev_do (set_buffer bf)) m)"
proof -
  note c = coreD [OF sound_stackD(1) [OF ss]]
  have top: "mc_top m = f" by (rule core_top [OF sound_stackD(1) [OF ss]])
  have cl: "clean (arena m) f" using sound_stackD(3) [OF ss] by simp
  have none: "bf_values (fr_buffer f) = None" using cl nd by (simp add: clean_def)
  obtain b0 where b0: "bstack b r b0" "used m = b0 + bcount f" "buffer_at (eb_epoch b) b0 f" "waits r"
    "fr_out f = out_of r" "(fr_locals f, fr_local_count f) = locals_of (eb_locals b) r"
    "fr_reset_epoch f = eb_epoch b" using sound_stackD(2) [OF ss] by auto
  have u: "used m = b0" using b0(2,3) none by (simp add: buffer_at_def)
  have slot2: "plainv (fr_values f ! 2)" "length (fr_values f) = 3"
    using cl nd by (simp_all add: clean_def free_slot_def in_body_def)
  from c(5) show ?thesis
  proof (cases rule: buffer_init_cases [where n = n])
    case (failed err)
    then show ?thesis using tidy_outcome [OF results_tidy [OF ss res]] by (simp add: ev_try_def)
  next
    case (none bf)
    let ?g = "f\<lparr>fr_buffer := bf, fr_phase := 2, fr_index := 0\<rparr>"
    have g: "set_buffer bf m = set_top ?g m" by (simp add: set_buffer_def top)
    have "core b (?g # r) (set_top ?g m)"
      by (rule set_top_core [OF sound_stackD(1) [OF ss]]) simp
    moreover have "bstack b (?g # r) (used m)" using b0 none u by (auto simp: buffer_at_def)
    moreover have "clean (arena m) ?g"
      using slot2 none nd by (auto simp: clean_def free_slot_def in_args_def in_body_def f_node_def less_Suc_eq numeral_3_eq_3 numeral_2_eq_2)
    ultimately have "sound_stack b (?g # r) (set_top ?g m)"
      using sound_stackD(3,4) [OF ss] by (simp add: sound_stack_def del: stack_ok.simps)
    moreover have "\<not> is_tail ?g" using nd by (cases "f_node f") (simp_all add: is_tail_def f_node_def)
    ultimately have "minv b (?g # r) (set_top ?g m)" using res by simp
    from minv_outcome [OF this] show ?thesis using none by (simp add: ev_try_def ev_do_def g)
  next
    case (filled bf rt)
    let ?g = "f\<lparr>fr_buffer := bf, fr_phase := 2, fr_index := 0\<rparr>"
    let ?m = "set_top ?g (set_runtime rt m)"
    have g: "set_buffer bf (set_runtime rt m) = ?m" by (simp add: set_buffer_def mc_top_def top [unfolded mc_top_def])
    have len: "used m \<le> length (arena m)" using filled(12) by simp
    have ar: "arena ?m ! k = arena m ! k" if "k < used m" for k
      using that filled(12) by (simp add: filled(7) nth_store_at)
    have nils: "plainv (arena ?m ! (used m + k))" if "k < n" for k
      using that filled(12) by (simp add: filled(7) nth_store_at)
    have "take (used m + n) (arena ?m) = take (used m) (arena m) @ replicate n frothy_value_make_nil"
      using take_store_all [OF len, of "replicate n frothy_value_make_nil"] by (simp add: filled(7))
    then have holds: "holds (?g # r) (arena ?m) (used ?m) (mc_out ?m) x = holds (f # r) (arena m) (used m) (mc_out m) x" for x
      by (simp add: holds_def filled(8))
    have low: "take (length (eb_low b)) (arena ?m) = eb_low b"
      using take_store_above [of "length (eb_low b)" "used m" "arena m"] len c(7) ok stack_le [OF sound_stackD(2) [OF ss]]
      by (simp add: filled(7) base_ok_def)
    have "vm_sound (\<lambda>x. eb_refs b x + holds (?g # r) (arena ?m) (used ?m) (mc_out ?m) x) (mc_vm ?m)"
      unfolding holds using c(4) vm_sound_same_store [OF filled(10)] by simp
    then have "core b (?g # r) ?m" using c low filled(9,11) by (simp add: core_def)
    moreover have "bstack b (?g # r) (used ?m)"
      using b0 u filled c(6) by (auto simp: buffer_at_def)
    moreover have "agree r (arena m) (arena ?m)" by (rule agree_below [OF b0(1)]) (use ar u in simp)
    moreover note clean_agree [OF this] awaited_agree [OF b0(1,4) this, of False "mc_out m"]
    moreover have "clean (arena ?m) ?g"
      using slot2 nd filled(3,4) nils
      by (auto simp: clean_def free_slot_def in_args_def in_body_def f_node_def less_Suc_eq numeral_3_eq_3 numeral_2_eq_2)
    moreover have "\<not> is_tail ?g" using nd by (cases "f_node f") (simp_all add: is_tail_def f_node_def)
    ultimately have "minv b (?g # r) ?m"
      using sound_stackD(3,4) [OF ss] res by (simp add: sound_stack_def del: stack_ok.simps)
    from minv_outcome [OF this] show ?thesis using filled(2) by (simp add: ev_try_def ev_do_def g)
  qed
qed

subsection \<open>After a reset\<close>

lemma gone_arena:
  assumes "gone b m"
  shows "gone b (set_runtime (arena_store k vs (mc_runtime m)) m)"
proof -
  let ?rt = "arena_store k vs (mc_runtime m)"
  have "same_store (mc_runtime m) ?rt" by (simp add: same_store_def arena_store_def)
  from vm_sound_same_store [OF this] show ?thesis
    using assms store_at_longer [of "arena m" k vs]
    by (auto simp: gone_def arena_store_def arena_fits_def)
qed

lemma gone_frames:
  assumes "gone b m" "\<And>f. f \<in> set fs \<Longrightarrow> stale (eb_epoch b) f"
  shows "gone b (m\<lparr>mc_frames := fs\<rparr>)"
  using assms by (simp add: gone_def)

lemma stale_scratch [simp]: "stale ep (set_scratch s v f) = stale ep f"
  by (simp add: stale_def)

lemma gone_stale: "gone b m \<Longrightarrow> i < length (mc_frames m) \<Longrightarrow> stale (eb_epoch b) (mc_frames m ! i)"
  by (simp add: gone_def)

lemma gone_set_place:
  assumes "gone b m" "p = OUT_CALLER \<Longrightarrow> plainv v"
  shows "gone b (set_place p v m)"
proof (cases p)
  case OUT_CALLER
  then show ?thesis using assms by (simp add: gone_def)
next
  case (OUT_SCRATCH i s)
  have old: "\<forall>f \<in> set (mc_frames m). stale (eb_epoch b) f" using assms(1) by (simp add: gone_def)
  have "stale (eb_epoch b) f" if f: "f \<in> set ((mc_frames m)[i := set_scratch s v (mc_frames m ! i)])" for f
  proof (cases "i < length (mc_frames m)")
    case True
    from f have "f = set_scratch s v (mc_frames m ! i) \<or> f \<in> set (mc_frames m)"
      using set_update_subset_insert by fastforce
    then show ?thesis using old True by auto
  next
    case False
    then have "length (mc_frames m) \<le> i" by simp
    from list_update_beyond [OF this] show ?thesis using f old by metis
  qed
  then show ?thesis using gone_frames [OF assms(1)] OUT_SCRATCH by simp
qed (simp add: gone_arena [OF assms(1)])

lemma gone_top: "gone b m \<Longrightarrow> mc_frames m \<noteq> [] \<Longrightarrow> stale (eb_epoch b) (mc_top m)"
  by (simp add: gone_def mc_top_def)

lemma gone_pop:
  assumes g: "gone b m" and ne: "mc_frames m \<noteq> []"
  shows "gone b (pop_top m)"
proof -
  let ?f = "mc_top m"
  have ep: "rt_reset_epoch (mc_runtime m) \<noteq> eb_epoch b" using g by (simp add: gone_def)
  have st: "stale (eb_epoch b) ?f" by (rule gone_top [OF g ne])
  have "frothy_eval_frame_state_cleanup ?f m = frothy_eval_buffer_free (fr_buffer ?f) m"
    using ep st by (simp add: frothy_eval_frame_state_cleanup_def frothy_reset_epoch_matches_def stale_def)
  moreover have "gone b (frothy_eval_buffer_free (fr_buffer ?f) m)"
    using ep st g gone_arena [OF g]
    by (cases "bf_values (fr_buffer ?f)") (simp_all add: frothy_eval_buffer_free_def Let_def stale_def)
  moreover have "set (butlast (mc_frames m)) \<subseteq> set (mc_frames m)" by (meson in_set_butlastD subsetI)
  then have "\<And>f. f \<in> set (butlast (mc_frames m)) \<Longrightarrow> stale (eb_epoch b) f"
    using g by (auto simp: gone_def)
  ultimately show ?thesis using gone_frames by (simp add: pop_top_def)
qed

lemma gone_sync: "gone b m \<Longrightarrow> gone b (frothy_eval_sync_frame_stack_used m)"
  using vm_sound_parts [of "mc_vm (frothy_eval_sync_frame_stack_used m)" "mc_vm m"]
  by (simp add: gone_def)

lemma gone_release_slot:
  assumes g: "gone b m" and ne: "mc_frames m \<noteq> []"
  shows "gone b (frothy_eval_release_slot s m)"
proof -
  have "stale (eb_epoch b) (mc_top m)" by (rule gone_top [OF g ne])
  moreover have "\<And>f. f \<in> set (butlast (mc_frames m)) \<Longrightarrow> stale (eb_epoch b) f"
    using g by (auto simp: gone_def dest: in_set_butlastD)
  ultimately have "gone b (set_top (set_scratch s frothy_value_make_nil (mc_top m)) m)"
    unfolding set_top_def by (intro gone_frames [OF g]) auto
  moreover have "\<not> frothy_reset_epoch_matches (fr_reset_epoch (mc_top m)) m"
    using g gone_top [OF g ne] by (simp add: gone_def stale_def frothy_reset_epoch_matches_def)
  ultimately show ?thesis using g by (simp add: frothy_eval_release_slot_def Let_def)
qed

lemma set_place_nonempty [simp]: "mc_frames (set_place p v m) = [] \<longleftrightarrow> mc_frames m = []"
  by (cases p) simp_all

lemma gone_complete_here:
  assumes g: "gone b m" and ne: "mc_frames m \<noteq> []"
  shows "gone b (snd (frothy_eval_complete_here m))"
proof -
  let ?p = "fr_out (mc_top m)"
  have "gone b (set_place ?p (get_place ?p m) m)"
    by (rule gone_set_place [OF g]) (use g in \<open>simp add: gone_def\<close>)
  from gone_sync [OF gone_pop [OF this]] ne show ?thesis
    by (simp add: frothy_eval_complete_here_def frothy_eval_complete_value_def pop_frame_eq)
qed

lemma gone_outcome: "gone b (snd rm) \<Longrightarrow> outcome b rm"
  by (simp add: outcome_def)

lemma sound_stack_stale:
  assumes "tiles A ep fs u" "f \<in> set fs"
  shows "stale ep f"
  using assms by (induction fs arbitrary: u) (fastforce simp: stale_def buffer_at_def)+

subsection \<open>Native functions\<close>

text \<open>
  What the evaluator relies on when it calls a native, and what a whole evaluation keeps in turn:
  the references \<open>e\<close> that were accounted for still are, the result is one more reference of the
  caller's, and the part of the value arena in use is as before; or the runtime was reset, and
  nothing is referred to from outside of it any more. The arguments of a native lie in the arena.
\<close>

definition arena_refs :: "frothy_vm \<Rightarrow> nat \<Rightarrow> nat" where
  "arena_refs vm = refs_in (take (rt_eval_value_used (vm_runtime vm)) (rt_eval_values (vm_runtime vm)))"

definition keeps_promise ::
  "(nat \<Rightarrow> nat) \<Rightarrow> frothy_vm \<Rightarrow> unit result \<times> frothy_value \<times> frothy_vm \<Rightarrow> bool" where
  "keeps_promise e vm q \<longleftrightarrow> (case q of (r, out, vm') \<Rightarrow>
     let rt = vm_runtime vm; rt' = vm_runtime vm'
     in arena_fits rt' \<and> (isl r \<longrightarrow> plainv out) \<and>
        (if rt_reset_epoch rt' = rt_reset_epoch rt
         then vm_sound (\<lambda>x. e x + refs out x) vm' \<and> vm_frames_used vm' = vm_frames_used vm \<and>
           rt_eval_value_used rt' = rt_eval_value_used rt \<and>
           take (rt_eval_value_used rt) (rt_eval_values rt') = take (rt_eval_value_used rt) (rt_eval_values rt)
         else vm_sound (\<lambda>x. 0) vm' \<and> rt_eval_value_used rt' = 0 \<and> plainv out))"

definition natives_keep_promise :: "frothy_platform \<Rightarrow> bool" where
  "natives_keep_promise pf \<longleftrightarrow> (\<forall>fn ctx args out vm e.
     vm_sound (\<lambda>x. e x + arena_refs vm x) vm \<longrightarrow> arena_fits (vm_runtime vm) \<longrightarrow>
     modest (\<lambda>x. e x + arena_refs vm x + slot_refs (snd (vm_names vm)) x) \<longrightarrow>
     (\<forall>x. refs_in args x \<le> arena_refs vm x) \<longrightarrow> plainv out \<longrightarrow>
     keeps_promise (\<lambda>x. e x + arena_refs vm x) vm (pf_native pf fn ctx args out vm))"

lemma natives_keep_promiseD:
  "natives_keep_promise pf \<Longrightarrow> vm_sound (\<lambda>x. e x + arena_refs vm x) vm \<Longrightarrow> arena_fits (vm_runtime vm) \<Longrightarrow>
   modest (\<lambda>x. e x + arena_refs vm x + slot_refs (snd (vm_names vm)) x) \<Longrightarrow>
   (\<And>x. refs_in args x \<le> arena_refs vm x) \<Longrightarrow> plainv out \<Longrightarrow>
   keeps_promise (\<lambda>x. e x + arena_refs vm x) vm (pf_native pf fn ctx args out vm)"
  unfolding natives_keep_promise_def by blast

lemma take_prefix_eq: "take n xs = take n ys \<Longrightarrow> k \<le> n \<Longrightarrow> take k xs = take k ys"
  by (metis min.absorb1 take_take)

lemma mc_out_place: "plainv (mc_out m) \<Longrightarrow> plainv v \<Longrightarrow> plainv (mc_out (set_place p v m))"
  by (cases p) simp_all

lemma out_plain:
  assumes ss: "sound_stack b (f # r) m" and res: "results False r m"
  shows "plainv (get_place (fr_out f) m)"
proof -
  have *: "mc_frames m = rev (gs @ r) \<Longrightarrow> stack_ok A L ep r u \<Longrightarrow> waits r \<Longrightarrow> awaited False r (arena m) (mc_out m) \<Longrightarrow>
      plainv (get_place (out_of r) m)" for gs A L ep u r
  proof (induction r arbitrary: gs u)
    case (Cons g r)
    obtain b where b: "stack_ok A L ep r b" "waits r" "fr_out g = out_of r" using Cons.prems(2) by auto
    have "mc_frames m = rev r @ g # rev gs" using Cons.prems(1) by simp
    then have "mc_frames m ! length r = g" by (simp add: nth_append)
    then show ?case
      using Cons.IH [of "gs @ [g]" b] Cons.prems b by (auto simp: await_def awaited_value_def)
  qed simp
  obtain b0 where "bstack b r b0" "waits r" "fr_out f = out_of r" using sound_stackD(2) [OF ss] by auto
  then show ?thesis using * [of "[f]" r _ _ _ b0] res coreD(1) [OF sound_stackD(1) [OF ss]] by simp
qed

lemma buffer_args_held:
  assumes ss: "sound_stack b (f # r) m" and n: "in_args f \<Longrightarrow> n \<le> bcount f" and ph: "in_args f"
  shows "refs_in (buffer_args n m) x \<le> arena_refs (mc_vm m) x"
proof -
  have top: "mc_top m = f" by (rule core_top [OF sound_stackD(1) [OF ss]])
  obtain b0 where b0: "used m = b0 + bcount f" "buffer_at (eb_epoch b) b0 f"
    using sound_stackD(2) [OF ss] by auto
  show ?thesis
  proof (cases "bf_values (fr_buffer f)")
    case (Some c)
    have split: "used m = b0 + n + (bcount f - n)" using b0(1) n [OF ph] by simp
    have "take (used m) (arena m) =
        take b0 (arena m) @ load_at (arena m) b0 n @ load_at (arena m) (b0 + n) (bcount f - n)"
      unfolding split by (simp only: take_split append_assoc)
    moreover have "c = b0" using b0(2) Some by (simp add: buffer_at_def)
    ultimately show ?thesis using Some by (simp add: buffer_args_def top arena_refs_def)
  qed (simp add: buffer_args_def top)
qed

lemma call_native_cases:
  assumes ss: "sound_stack b (f # r) m" and res: "results False r m" and ok: "base_ok b"
    and n: "in_args f" "n \<le> bcount f" and pf: "natives_keep_promise pf"
  shows "computed b f (call_native pf n m)
    \<or> tidy b (frothy_eval_release_slot 0 (snd (call_native pf n m))) \<and> isl (fst (call_native pf n m))
    \<or> gone b (snd (call_native pf n m)) \<and> mc_frames (snd (call_native pf n m)) \<noteq> []"
proof -
  note c = coreD [OF sound_stackD(1) [OF ss]]
  have top: "mc_top m = f" by (rule core_top [OF sound_stackD(1) [OF ss]])
  let ?e = "\<lambda>x. eb_refs b x + holds (f # r) (arena m) (used m) (mc_out m) x"
  obtain q out vm' where run: "pf_native pf (fr_native_fn f) (fr_native_context f) (buffer_args n m)
      (get_place (fr_out f) m) (mc_vm m) = (q, out, vm')" by (metis prod_cases3)
  let ?own = "\<lambda>x. eb_refs b x + refs (mc_out m) x + (\<Sum>g\<leftarrow>(f # r). refs_in (fr_values g) x)"
  have e: "(\<lambda>x. ?own x + arena_refs (mc_vm m) x) = ?e"
    by (simp add: holds_def arena_refs_def add.assoc)
  have "keeps_promise (\<lambda>x. ?own x + arena_refs (mc_vm m) x) (mc_vm m)
      (pf_native pf (fr_native_fn f) (fr_native_context f) (buffer_args n m) (get_place (fr_out f) m) (mc_vm m))"
  proof (rule natives_keep_promiseD [OF pf])
    show "vm_sound (\<lambda>x. ?own x + arena_refs (mc_vm m) x) (mc_vm m)" unfolding e by (rule c(4))
    show "modest (\<lambda>x. ?own x + arena_refs (mc_vm m) x + slot_refs (snd (vm_names (mc_vm m))) x)"
      using core_modest [OF sound_stackD(1) [OF ss] ok] by (simp add: holds_def arena_refs_def ac_simps)
  qed (rule c(5), rule buffer_args_held [OF ss n(2) n(1)], rule out_plain [OF ss res])
  then have "keeps_promise ?e (mc_vm m) (q, out, vm')" unfolding e run .
  note p = this [unfolded keeps_promise_def Let_def prod.case]
  let ?m = "m\<lparr>mc_vm := vm'\<rparr>"
  have call: "call_native pf n m = (q, set_place (fr_out f) out ?m)"
    by (simp add: call_native_def top run)
  show ?thesis
  proof (cases "rt_reset_epoch (vm_runtime vm') = eb_epoch b")
    case True
    have keep: "take (used m) (arena ?m) = take (used m) (arena m)" "used ?m = used m"
      "vm_frames_used vm' = vm_frames_used (mc_vm m)" "vm_sound (\<lambda>x. ?e x + refs out x) vm'"
      "arena_fits (mc_runtime ?m)" "isl q \<longrightarrow> plainv out"
      using p True c(6) by (simp_all split: if_splits)
    have ar: "arena ?m ! k = arena m ! k" if "k < used m" for k
      using keep(1) that by (metis nth_take)
    have holds: "holds (f # r) (arena ?m) (used ?m) (mc_out ?m) x = holds (f # r) (arena m) (used m) (mc_out m) x" for x
      using keep(1,2) by (simp add: holds_def)
    have lowle: "length (eb_low b) \<le> used m"
      using ok stack_le [OF sound_stackD(2) [OF ss]] by (simp add: base_ok_def)
    have "take (length (eb_low b)) (arena ?m) = eb_low b"
      using take_prefix_eq [OF keep(1) lowle] c(7) by simp
    moreover have "vm_sound (\<lambda>x. eb_refs (hold out b) x + holds (f # r) (arena ?m) (used ?m) (mc_out ?m) x) vm'"
      unfolding holds using keep(4) by (simp add: ac_simps)
    ultimately have "core (hold out b) (f # r) ?m"
      using c(1,2,3,8) keep(5) True by (simp add: core_def)
    moreover have "agree (f # r) (arena m) (arena ?m)"
      by (rule agree_below [OF sound_stackD(2) [OF ss]]) (rule ar)
    moreover note clean_agree [OF this]
    ultimately have s: "sound_stack (hold out b) (f # r) ?m"
      using sound_stackD(2,3,4) [OF ss] keep(2,3) by (simp add: sound_stack_def del: stack_ok.simps)
    obtain b0 where b0: "bstack b r b0" "waits r" "b0 \<le> used m" using sound_stackD(2) [OF ss] by auto
    have "agree r (arena m) (arena ?m)" by (rule agree_below [OF b0(1)]) (use ar b0(3) in simp)
    from awaited_agree [OF b0(1,2) this] have r: "results False r ?m" using res by simp
    from put_sound [OF s r ok] obtain r' where
      r': "sound_stack b (f # r') (set_place (fr_out f) out ?m)" "results True r' (set_place (fr_out f) out ?m)"
      by blast
    show ?thesis
    proof (cases q)
      case (Inl err)
      have "plainv (mc_out (set_place (fr_out f) out ?m))"
        using mc_out_place [of ?m out] awaited_out [OF r] keep(6) Inl by simp
      then have "tidy b (frothy_eval_release_slot 0 (set_place (fr_out f) out ?m))"
        using release_slot_sound [OF r'(1), of 0] by (intro sound_stack_tidy) simp_all
      then show ?thesis using call Inl by simp
    next
      case (Inr u)
      then show ?thesis using call computedI(2) [OF r'] by simp
    qed
  next
    case False
    have "gone b ?m"
      unfolding gone_def using p False c(1,2,6) awaited_out [OF res]
        sound_stack_stale [OF stack_tiles [OF sound_stackD(2) [OF ss]]]
      by (simp split: if_splits)
    then have "gone b (set_place (fr_out f) out ?m)" by (rule gone_set_place) (use p False c(6) in \<open>simp split: if_splits\<close>)
    then show ?thesis using call c(1) by simp
  qed
qed

subsection \<open>The call\<close>

lemma eval_builtin_frame: "rt_frame (snd (frothy_eval_builtin b args rt)) = rt_frame rt"
  by (cases b) (simp_all add: frothy_eval_builtin_def rt_frames)

lemma native_outcome:
  assumes ss: "sound_stack b (f # r) m" and res: "results False r m" and ok: "base_ok b"
    and n: "in_args f" "n \<le> bcount f" and pf: "natives_keep_promise pf"
  shows "outcome b (ev_status (call_native pf n) (\<lambda>err.
    ev_try (ev_do (frothy_eval_release_slot 0)) (\<lambda>u. frothy_eval_complete_out err)) m)"
proof -
  obtain q m' where run: "call_native pf n m = (q, m')" by fastforce
  have eq: "ev_status (call_native pf n) (\<lambda>err.
      ev_try (ev_do (frothy_eval_release_slot 0)) (\<lambda>u. frothy_eval_complete_out err)) m =
      frothy_eval_complete_out q (frothy_eval_release_slot 0 m')"
    by (simp add: ev_status_def run ev_try_def ev_do_def)
  from call_native_cases [OF assms] consider (good) "computed b f (q, m')"
    | (bad) err where "q = Inl err" "tidy b (frothy_eval_release_slot 0 m')"
    | (gone) "gone b m'" "mc_frames m' \<noteq> []"
    unfolding run by (auto simp: isl_def)
  then show ?thesis
  proof cases
    case good
    from computed_outcome [OF computed_release [OF this, of 0]] show ?thesis by (simp add: eq)
  next
    case bad
    then show ?thesis unfolding eq by (simp add: frothy_eval_complete_out_def ev_error_def outcome_def)
  next
    case gone
    have ne: "mc_frames (frothy_eval_release_slot 0 m') \<noteq> []"
      by (simp add: frothy_eval_release_slot_def FROTHY_EVAL_SCRATCH_SLOT_COUNT_def Let_def)
    note g = gone_release_slot [OF gone, of 0]
    show ?thesis
      using gone_complete_here [OF g ne] g unfolding eq
      by (cases q) (auto simp: frothy_eval_complete_out_def ev_error_def intro: gone_outcome)
  qed
qed

lemma call_run_outcome:
  assumes ss: "sound_stack b (f # r) m" and res: "results False r m" and ok: "base_ok b"
    and nd: "is_call_node (f_node f)" "fr_phase f = 2" "call_args (f_node f) = n"
    and pf: "natives_keep_promise pf"
  shows "outcome b (eval_call_run pf bi n m)"
proof -
  have top: "mc_top m = f" by (rule core_top [OF sound_stackD(1) [OF ss]])
  have cl: "clean (arena m) f" using sound_stackD(3) [OF ss] by simp
  have args: "in_args f" "n \<le> bcount f" using cl nd by (simp_all add: in_args_def clean_def)
  show ?thesis
  proof (cases "fr_call_kind f")
    case CALL_NONE
    then show ?thesis using tidy_outcome [OF results_tidy [OF ss res]] by (simp add: eval_call_run_def top)
  next
    case CALL_BUILTIN
    have "computed b f (put_result (on_runtime (frothy_eval_builtin bi (buffer_args n m))) m)"
      by (rule put_result_computed [OF ss res ok]) (rule eval_builtin_frame, rule eval_builtin_sound)
    then show ?thesis using simple_outcome CALL_BUILTIN
      by (simp add: eval_call_run_def top eval_simple_def)
  next
    case CALL_NATIVE
    then show ?thesis using native_outcome [OF ss res ok args pf] by (simp add: eval_call_run_def top)
  next
    case CALL_RECORD_DEF
    have "computed b f (put_result (on_runtime (frothy_runtime_alloc_record d (buffer_args n m))) m)" for d
      by (rule put_result_computed [OF ss res ok]) (rule alloc_record_frame, rule alloc_record_sound)
    then have "outcome b (ev_status (put_result (on_runtime (frothy_runtime_alloc_record d (buffer_args n m))))
        (\<lambda>err. ev_try (ev_do (frothy_eval_release_slot 0)) (\<lambda>u. frothy_eval_complete_out err)) m)" for d
      by (rule computed_release_outcome) simp
    then show ?thesis using CALL_RECORD_DEF by (simp add: eval_call_run_def top)
  next
    case CALL_CODE
    let ?g = "f\<lparr>fr_phase := 3\<rparr>"
    have tail: "is_tail ?g" "in_code ?g" using nd by (cases "f_node f"; simp)+
    have "clean (arena m) ?g" using cl nd by (simp add: clean_def free_slot_def)
    then have g: "sound_stack b (?g # r) (set_top ?g m)" by (rule set_top_sound [OF ss, rotated]) simp
    have "outcome b (frothy_eval_push_frame (fr_target_program f) (bf_values (fr_buffer f))
        (bcount f) (fr_target_node f) (fr_out f) (set_top ?g m))"
      by (rule push_minv [OF g]) (use tail res in \<open>simp_all add: waiting_def await_def\<close>)
    then show ?thesis using CALL_CODE set_phase_top [OF stack_frames [OF ss], of 3]
      by (simp add: eval_call_run_def top)
  qed
qed

lemma resolve_links:
  assumes "resolve_callee rt v f = Inr (g, a, l)"
  shows "same_links f g" "f_node g = f_node f" "fr_phase g = fr_phase f" "fr_index g = fr_index f"
  using assms by (auto simp: resolve_callee_def same_links_def f_node_def FROTH_TRY_Inr_iff
      split: sum.splits if_splits)

lemma clean_links:
  "same_links f g \<Longrightarrow> f_node g = f_node f \<Longrightarrow> fr_phase g = fr_phase f \<Longrightarrow> fr_index g = fr_index f \<Longrightarrow>
   clean ar g = clean ar f"
  by (simp add: clean_def same_links_def free_slot_def in_body_def in_args_def)

lemma callee_outcome:
  assumes ss: "sound_stack b (f # r) m" and res: "results False r m" and ok: "base_ok b"
    and nd: "is_call_node (f_node f)" "fr_phase f = 1" "call_args (f_node f) = n"
  shows "outcome b (eval_call_callee n m)"
proof -
  note top = core_top [OF sound_stackD(1) [OF ss]]
  show ?thesis
  proof (cases "resolve_callee (mc_runtime m) (mc_scratch m 0) f")
    case (Inl err)
    then show ?thesis using tidy_outcome [OF results_tidy [OF ss res]] by (simp add: eval_call_callee_def top)
  next
    case (Inr gal)
    then obtain g a l where g: "resolve_callee (mc_runtime m) (mc_scratch m 0) f = Inr (g, a, l)"
      by (metis prod_cases3)
    note rl = resolve_links [OF g]
    have "clean (arena m) g" using sound_stackD(3) [OF ss] clean_links [OF rl] by simp
    from set_top_sound [OF ss rl(1) this] have s: "sound_stack b (g # r) (set_top g m)" .
    have r: "results False r (set_top g m)" using res by simp
    have "outcome b (ev_try (frothy_eval_buffer_init (if fr_call_kind g = CALL_CODE then l else n))
        (\<lambda>bf. ev_do (set_buffer bf)) (set_top g m))" if "a = n" "\<not> (fr_call_kind g = CALL_CODE \<and> l < a)"
      by (rule fill_buffer_outcome [OF s r ok]) (use nd rl that in auto)
    moreover have "outcome b (Inl FROTH_ERROR_SIGNATURE, set_top g m)"
      by (rule tidy_outcome [OF results_tidy [OF s r]])
    ultimately show ?thesis using g by (auto simp: eval_call_callee_def top Let_def)
  qed
qed

lemma call_outcome:
  assumes inv: "minv b (f # r) m" and nd: "f_node f = NODE_CALL bi c a n" and ok: "base_ok b"
    and pf: "natives_keep_promise pf"
  shows "outcome b (frothy_eval_call pf bi c a n m)"
proof -
  note d = minvD [OF inv]
  have tail: "is_tail f \<longleftrightarrow> fr_phase f = 3" using nd by (simp add: is_tail_def)
  have cl: "clean (arena m) f" using sound_stackD(3) [OF d(1)] by simp
  have call: "is_call_node (f_node f)" "call_args (f_node f) = n" using nd by simp_all
  consider (0) "fr_phase f = 0" | (1) "fr_phase f = 1" | (2) "fr_phase f = 2" | (3) "fr_phase f = 3"
    | (4) "3 < fr_phase f" by linarith
  then show ?thesis
  proof cases
    case 0
    have res: "results False r m" using d(4) tail 0 by simp
    let ?g = "f\<lparr>fr_call_kind := CALL_BUILTIN\<rparr>"
    have "clean (arena m) ?g" using cl by (simp add: clean_links [of f ?g])
    then have s: "sound_stack b (?g # r) (set_top ?g m)" by (rule set_top_sound [OF d(1), rotated]) simp
    have "results False r (set_top ?g m)" using res by simp
    from fill_buffer_outcome [OF s this ok, of n] 0 call
    have bi: "outcome b (ev_try (frothy_eval_buffer_init n) (\<lambda>bf. ev_do (set_buffer bf)) (set_top ?g m))"
      by simp
    have "outcome b (frothy_eval_push_scratch_child (Suc 0) c 0 m)"
      by (rule push_scratch_minv [OF d(1) res])
        (use 0 nd in \<open>simp_all add: operand_phase_def in_body_def\<close>)
    then show ?thesis using 0 d(2) bi by (simp add: frothy_eval_call_def Let_def)
  next
    case 1
    then show ?thesis using callee_outcome [OF d(1) _ ok call(1) _ call(2)] d(2,4) tail
      by (simp add: frothy_eval_call_def Let_def)
  next
    case 2
    have res: "results False r m" using d(4) tail 2 by simp
    show ?thesis
    proof (cases "fr_index f < n")
      case True
      let ?g = "f\<lparr>fr_index := fr_index f + 1\<rparr>"
      have args: "in_args f" "n \<le> bcount f"
        "\<And>k. fr_index f \<le> k \<Longrightarrow> k < bcount f \<Longrightarrow> plainv (arena m ! (bbase f + k))"
        using cl call 2 by (simp_all add: in_args_def clean_def)
      have "clean (arena m) ?g" using cl by (auto simp: clean_def)
      then have s: "sound_stack b (?g # r) (set_top ?g m)" by (rule set_top_sound [OF d(1), rotated]) simp
      have "bf_values (fr_buffer f) \<noteq> None"
        using sound_stackD(2) [OF d(1)] True args(2) by (auto simp: buffer_at_def split: option.splits)
      then have "outcome b (frothy_eval_push_child i (OUT_ARENA (bbase f + fr_index f)) (set_top ?g m))" for i
        by (intro push_child_minv [OF s])
          (use args True tail 2 res in \<open>simp_all add: waiting_def await_def awaited_value_def in_code_def\<close>)
      then show ?thesis using 2 True d(2) set_index_top [OF stack_frames [OF d(1)], of "fr_index f + 1"]
        by (simp add: frothy_eval_call_def Let_def)
    next
      case False
      then show ?thesis using call_run_outcome [OF d(1) res ok call(1) 2 call(2) pf] 2 d(2)
        by (simp add: frothy_eval_call_def Let_def)
    qed
  next
    case 3
    then show ?thesis using complete_here_minv [OF d(1) d(5)] tail d(2)
      by (auto simp: frothy_eval_call_def Let_def intro: minv_outcome)
  next
    case 4
    then show ?thesis using tidy_outcome [OF results_tidy [OF d(1) d(4)]] tail d(2)
      by (auto simp: frothy_eval_call_def Let_def)
  qed
qed

end
