(* ===== verification/Frothy_Eval_Program.thy ===== *)
theory Frothy_Eval_Program
  imports Frothy_Eval_Call
begin

section \<open>An evaluation balances its references\<close>

text \<open>
  One iteration, the loop by induction over its computation, the clean-up, and the claim for a
  whole program, whose conclusion is the promise the natives give.
\<close>

subsection \<open>One iteration\<close>

lemma pure_outcome:
  assumes "minv b (f # r) m" "\<not> is_tail f" "base_ok b" "\<And>v x. q = Inr v \<Longrightarrow> refs v x = 0"
  shows "outcome b (eval_simple (\<lambda>m. put_result (ev_result q) m) m)"
  using minvD [OF assms(1)] assms by (intro simple_outcome put_pure_computed) auto

lemma made_outcome:
  assumes "minv b (f # r) m" "\<not> is_tail f" "base_ok b"
    and "rt_frame (snd (g (mc_runtime m))) = rt_frame (mc_runtime m)"
      "\<And>e. rt_sound e (mc_runtime m) \<Longrightarrow> yields e (mc_runtime m) (g (mc_runtime m))"
  shows "outcome b (eval_simple (put_result (on_runtime g)) m)"
  using minvD [OF assms(1)] assms by (intro simple_outcome put_result_computed) auto

lemma slot_value_refs [simp]: "refs (frothy_slot_value i) x = 0"
  using object_value_tag(2) [of i] tag_exclusive(2) [of "frothy_slot_value i"] unfolding refs_def by auto

lemma from_literal_frame: "rt_frame (snd (frothy_value_from_literal l rt)) = rt_frame rt"
  by (cases l) (simp_all add: rt_frames)

lemma alloc_record_def_from_ir_frame:
  "rt_frame (snd (frothy_runtime_alloc_record_def_from_ir name p first n rt)) = rt_frame rt"
  by (simp add: frothy_runtime_alloc_record_def_from_ir_def Let_def rt_frames split: sum.splits)

lemma dispatch_outcome:
  assumes inv: "minv b (f # r) m" and ok: "base_ok b" and pf: "natives_keep_promise pf"
  shows "outcome b (eval_dispatch pf (f_node f) m)"
proof -
  note d = minvD [OF inv]
  have made: "outcome b (eval_simple a m)"
    if "\<And>p. \<not> tail_phase (f_node f) p" "a m = put_result (on_runtime g) m"
      "\<And>rt. rt_frame (snd (g rt)) = rt_frame rt" "\<And>e rt. rt_sound e rt \<Longrightarrow> yields e rt (g rt)" for a g
  proof (rule simple_outcome)
    have res: "results False r m" using d(4) that(1) by (simp add: is_tail_def)
    show "computed b f (a m)"
      unfolding that(2) by (rule put_result_computed [OF d(1) res ok]) (rule that(3), rule that(4))
  qed
  have comp: "outcome b (eval_simple a m)"
    if "\<And>p. \<not> tail_phase (f_node f) p" "results False r m \<Longrightarrow> computed b f (a m)" for a
    using that d(4) by (intro simple_outcome) (simp add: is_tail_def)
  show ?thesis
  proof (cases "f_node f")
    case (NODE_LIT l)
    show ?thesis
      by (simp add: NODE_LIT, rule made [where g = "frothy_value_from_literal (ir_literals (fr_program f) ! l)"])
        (simp_all add: NODE_LIT d(2) from_literal_frame from_literal_sound)
  next
    case (NODE_RECORD_DEF nm a n)
    show ?thesis
      by (simp add: NODE_RECORD_DEF,
          rule made [where g = "frothy_runtime_alloc_record_def_from_ir nm (fr_program f) a n"])
        (simp_all add: NODE_RECORD_DEF d(2) eval_record_def_def alloc_record_def_from_ir_frame
          alloc_record_def_from_ir_sound)
  next
    case (NODE_FN a l bd)
    show ?thesis
      by (simp add: NODE_FN, rule made [where g = "frothy_runtime_alloc_code (fr_program f) bd a l"])
        (simp_all add: NODE_FN d(2) alloc_code_frame alloc_code_sound)
  next
    case (NODE_SLOT_DESIGNATOR n)
    have "results False r m \<Longrightarrow>
        computed b f (put_result (ev_result (frothy_value_make_slot_designator (vm_names (mc_vm m)) n)) m)"
      by (rule put_pure_computed [OF d(1) _ ok]) (auto simp: frothy_value_make_slot_designator_def FROTH_TRY_Inr_iff)
    then show ?thesis by (simp add: NODE_SLOT_DESIGNATOR) (rule comp, simp_all add: NODE_SLOT_DESIGNATOR)
  next
    case (NODE_READ_SLOT n)
    then show ?thesis using slot_read_computed [OF d(1) _ ok] by (simp add: comp)
  next
    case (NODE_READ_SLOT_FALLBACK p q)
    then show ?thesis using slot_read_fallback_computed [OF d(1) _ ok] by (simp add: comp)
  next
    case (NODE_WRITE_SLOT n v rq)
    then show ?thesis using slot_write_written(1) [OF d(1)]
      by simp (rule write_slot_outcome [OF inv _ _ _ ok], simp_all)
  next
    case (NODE_WRITE_SLOT_FALLBACK p q v rq)
    then show ?thesis using slot_write_fallback_written [OF d(1)]
      by simp (rule write_slot_outcome [OF inv _ _ _ ok], simp_all)
  next
    case (NODE_READ_LOCAL i)
    then show ?thesis using read_local_outcome [OF inv _ ok] by simp
  next
    case (NODE_WRITE_LOCAL i v)
    then show ?thesis using write_local_outcome [OF inv _ ok] by simp
  next
    case (NODE_READ_INDEX bs ix)
    then show ?thesis using read_index_outcome [OF inv _ ok] by simp
  next
    case (NODE_WRITE_INDEX bs ix v)
    then show ?thesis using write_index_outcome [OF inv _ ok] by simp
  next
    case (NODE_READ_FIELD bs nm)
    then show ?thesis using read_field_outcome [OF inv _ ok] by simp
  next
    case (NODE_WRITE_FIELD bs nm v)
    then show ?thesis using write_field_outcome [OF inv _ ok] by simp
  next
    case (NODE_CALL bi c a n)
    then show ?thesis using call_outcome [OF inv _ ok pf] by simp
  next
    case (NODE_IF c t e h)
    then show ?thesis using if_outcome [OF inv _ ok] by simp
  next
    case (NODE_WHILE c bd)
    then show ?thesis using while_outcome [OF inv _ ok] by simp
  next
    case (NODE_SEQ a n)
    then show ?thesis using seq_outcome [OF inv _ ok] by simp
  qed
qed

lemma minv_vm:
  assumes "vm_runtime vm = mc_runtime m" "vm_names vm = vm_names (mc_vm m)"
    "vm_frames_used vm = vm_frames_used (mc_vm m)"
  shows "minv b fs (m\<lparr>mc_vm := vm\<rparr>) = minv b fs m"
proof -
  have "core b gs (m\<lparr>mc_vm := vm\<rparr>) = core b gs m" for gs
    using assms vm_sound_parts [of vm "mc_vm m"] by (simp add: core_def)
  then have "sound_stack b gs (m\<lparr>mc_vm := vm\<rparr>) = sound_stack b gs m" for gs
    using assms by (simp add: sound_stack_def)
  then show ?thesis using assms by (cases fs) simp_all
qed

lemma minv_frames: "minv b fs m \<Longrightarrow> mc_frames m = rev fs" "minv b fs m \<Longrightarrow> rt_reset_epoch (mc_runtime m) = eb_epoch b"
  by (cases fs; simp add: sound_stack_def core_def)+

lemma poll_minv:
  assumes inv: "minv b (f # r) m"
  shows "\<exists>q m'. (if fr_phase (mc_top m) = 0 then frothy_poll_interrupt pf m else (Inr (), m)) = (q, m') \<and>
    minv b (f # r) m' \<and> (isl q \<longrightarrow> tidy b m')"
proof (cases "fr_phase f = 0")
  case True
  define vm where "vm = (mc_vm m)\<lparr>vm_polls := vm_polls (mc_vm m) + 1, vm_interrupted := False\<rparr>"
  have "\<exists>q. frothy_poll_interrupt pf m = (q, m\<lparr>mc_vm := vm\<rparr>)"
    by (simp add: frothy_poll_interrupt_def vm_def Let_def)
  then obtain q where p: "frothy_poll_interrupt pf m = (q, m\<lparr>mc_vm := vm\<rparr>)" ..
  have vm: "vm_runtime vm = mc_runtime m" "vm_names vm = vm_names (mc_vm m)"
    "vm_frames_used vm = vm_frames_used (mc_vm m)" by (simp_all add: vm_def)
  have m: "minv b (f # r) (m\<lparr>mc_vm := vm\<rparr>)" using inv minv_vm [OF vm] by blast
  note d = minvD [OF m]
  have "results False r (m\<lparr>mc_vm := vm\<rparr>)" using d(4) True by (simp add: is_tail_def)
  from results_tidy [OF d(1) this] show ?thesis using p m True minvD(2) [OF inv] by simp
next
  case False
  then show ?thesis using inv minvD(2) [OF inv] by simp
qed

text \<open>Between two iterations either the invariant holds and the runtime has not been reset, or the
loop stops with an error.\<close>

lemma iteration_outcome:
  assumes inv: "minv b fs m" and ne: "mc_frames m \<noteq> []" and ok: "base_ok b" and pf: "natives_keep_promise pf"
    and run: "eval_iteration pf (eb_epoch b) m = (q, m')"
  shows "case q of Inl err \<Rightarrow> gone b m' \<or> tidy b m' | Inr u \<Rightarrow> \<exists>fs. minv b fs m'"
proof -
  obtain f r where fs: "fs = f # r" using minv_frames(1) [OF inv] ne by (cases fs) auto
  have ep: "check_epoch (eb_epoch b) k = (Inr (), k)" if "minv b gs k" for gs k
    using minv_frames(2) [OF that] by (simp add: check_epoch_def frothy_reset_epoch_matches_def)
  obtain q1 m1 where p: "(if fr_phase (mc_top m) = 0 then frothy_poll_interrupt pf m else (Inr (), m)) = (q1, m1)"
    "minv b (f # r) m1" "isl q1 \<longrightarrow> tidy b m1" using poll_minv [of b f r m pf] inv fs by blast
  show ?thesis
  proof (cases q1)
    case (Inl err)
    then have "(q, m') = (Inl err, m1)"
      using run ep [OF inv] p(1) by (simp add: eval_iteration_def ev_try_def)
    then show ?thesis using p(3) Inl by simp
  next
    case (Inr u)
    obtain q2 m2 where dp: "eval_dispatch pf (mc_node m1) m1 = (q2, m2)" by fastforce
    have "mc_node m1 = f_node f" using minvD(2) [OF p(2)] by (simp add: mc_node_def f_node_def)
    with dispatch_outcome [OF p(2) ok pf] dp have o: "outcome b (q2, m2)" by simp
    have it: "(q, m') = (case q2 of Inl err \<Rightarrow> (Inl err, m2) | Inr u \<Rightarrow> check_epoch (eb_epoch b) m2)"
      using run ep [OF inv] ep [OF p(2)] p(1) Inr dp by (simp add: eval_iteration_def ev_try_def)
    show ?thesis
    proof (cases "gone b m2")
      case True
      then have "check_epoch (eb_epoch b) m2 = (Inl FROTH_ERROR_RESET, m2)"
        by (simp add: gone_def check_epoch_def frothy_reset_epoch_matches_def)
      then show ?thesis using it True by (cases q2) simp_all
    next
      case False
      then show ?thesis using o it ep by (cases q2) (auto simp: outcome_def)
    qed
  qed
qed

lemma loop_outcome:
  assumes "eval_loop pf epoch m = Some qm"
  shows "\<forall>fs. minv b fs m \<longrightarrow> epoch = eb_epoch b \<longrightarrow> base_ok b \<longrightarrow> natives_keep_promise pf \<longrightarrow>
    (case fst qm of Inl err \<Rightarrow> gone b (snd qm) \<or> tidy b (snd qm) | Inr u \<Rightarrow> minv b [] (snd qm))"
proof (rule eval_loop.raw_induct [OF _ assms])
  fix loop pf epoch m qm
  assume IH: "\<And>pf epoch m qm. loop pf epoch m = Some qm \<Longrightarrow>
      \<forall>fs. minv b fs m \<longrightarrow> epoch = eb_epoch b \<longrightarrow> base_ok b \<longrightarrow> natives_keep_promise pf \<longrightarrow>
        (case fst qm of Inl err \<Rightarrow> gone b (snd qm) \<or> tidy b (snd qm) | Inr u \<Rightarrow> minv b [] (snd qm))"
    and run: "(if mc_frames m = [] then Some (Inr (), m)
      else let rm = eval_iteration pf epoch m in if isl (fst rm) then Some rm else loop pf epoch (snd rm)) = Some qm"
  show "\<forall>fs. minv b fs m \<longrightarrow> epoch = eb_epoch b \<longrightarrow> base_ok b \<longrightarrow> natives_keep_promise pf \<longrightarrow>
      (case fst qm of Inl err \<Rightarrow> gone b (snd qm) \<or> tidy b (snd qm) | Inr u \<Rightarrow> minv b [] (snd qm))"
  proof (intro allI impI)
    fix fs assume inv: "minv b fs m" and ep: "epoch = eb_epoch b" and ok: "base_ok b"
      and pf: "natives_keep_promise pf"
    show "case fst qm of Inl err \<Rightarrow> gone b (snd qm) \<or> tidy b (snd qm) | Inr u \<Rightarrow> minv b [] (snd qm)"
    proof (cases "mc_frames m = []")
      case True
      then have "fs = []" using minv_frames(1) [OF inv] by simp
      then show ?thesis using run True inv by auto
    next
      case False
      obtain q m' where it: "eval_iteration pf epoch m = (q, m')" by fastforce
      note io = iteration_outcome [OF inv False ok pf it [unfolded ep]]
      show ?thesis
      proof (cases q)
        case (Inl err)
        then have "qm = (Inl err, m')" using run False it by simp
        then show ?thesis using io Inl by simp
      next
        case (Inr u)
        then have "loop pf epoch m' = Some qm" using run False it by simp
        moreover obtain gs where "minv b gs m'" using io Inr by auto
        ultimately show ?thesis using IH ep ok pf by blast
      qed
    qed
  qed
qed

subsection \<open>The end of an evaluation\<close>

lemma cleanup_tidy:
  "core b fs m \<Longrightarrow> btiles b fs (used m) \<Longrightarrow> plainv (mc_out m) \<Longrightarrow>
   let m' = frothy_eval_exec_cleanup m
   in core b [] m' \<and> used m' = eb_arena b \<and> plainv (mc_out m') \<and> vm_frames_used (mc_vm m') = eb_depth b"
proof -
  have "core b fs m \<Longrightarrow> btiles b fs (used m) \<Longrightarrow> plainv (mc_out m) \<Longrightarrow>
    core b [] (exec_cleanup_loop (length fs) m) \<and> used (exec_cleanup_loop (length fs) m) = eb_arena b \<and>
    plainv (mc_out (exec_cleanup_loop (length fs) m))"
  proof (induction fs arbitrary: m)
    case (Cons f r)
    note p = cleanup_core [OF Cons.prems(1,2)]
    show ?case using Cons.IH [OF p(1,2)] Cons.prems(3) p(3) by simp
  qed simp
  then show "core b fs m \<Longrightarrow> btiles b fs (used m) \<Longrightarrow> plainv (mc_out m) \<Longrightarrow> ?thesis"
    using core_sync coreD(1,2) by (fastforce simp: frothy_eval_exec_cleanup_def Let_def)
qed

lemma cleanup_gone:
  assumes "gone b m"
  shows "gone b (frothy_eval_exec_cleanup m)"
proof -
  have "length (mc_frames m) = n \<Longrightarrow> gone b m \<Longrightarrow> gone b (exec_cleanup_loop n m)" for n
  proof (induction n arbitrary: m)
    case (Suc n)
    have "length (mc_frames (pop_top m)) = n" using Suc.prems(1) by (simp add: pop_top_def)
    moreover have "gone b (pop_top m)" using gone_pop [OF Suc.prems(2)] Suc.prems(1) by force
    ultimately show ?case using Suc.IH by simp
  qed simp
  then show ?thesis using assms gone_sync by (simp add: frothy_eval_exec_cleanup_def)
qed

text \<open>What the evaluation of a node leaves, with the base \<open>b\<close> it was started from.\<close>

definition settled :: "eval_base \<Rightarrow> unit result \<Rightarrow> frothy_value \<Rightarrow> frothy_vm \<Rightarrow> bool" where
  "settled b q out vm \<longleftrightarrow> arena_fits (vm_runtime vm) \<and> (isl q \<longrightarrow> plainv out) \<and>
     (if rt_reset_epoch (vm_runtime vm) = eb_epoch b
      then vm_sound (\<lambda>x. eb_refs b x + refs out x + arena_refs vm x) vm \<and> vm_frames_used vm = eb_depth b \<and>
        rt_eval_value_used (vm_runtime vm) = eb_arena b \<and>
        take (length (eb_low b)) (rt_eval_values (vm_runtime vm)) = eb_low b
      else vm_sound (\<lambda>x. 0) vm \<and> rt_eval_value_used (vm_runtime vm) = 0 \<and> plainv out)"

lemma core_settled:
  assumes "core b [] m" "used m = eb_arena b" "vm_frames_used (mc_vm m) = eb_depth b"
    "isl q \<longrightarrow> plainv (mc_out m)"
  shows "settled b q (mc_out m) (mc_vm m)"
proof -
  note c = coreD [OF assms(1)]
  have "vm_sound (\<lambda>x. eb_refs b x + refs (mc_out m) x + arena_refs (mc_vm m) x) (mc_vm m)"
    using c(4) by (simp add: holds_def arena_refs_def ac_simps)
  then show ?thesis using assms c(5,6,7) by (simp add: settled_def)
qed

lemma gone_settled: "gone b m \<Longrightarrow> settled b q (mc_out m) (mc_vm m)"
  by (simp add: gone_def settled_def)

lemma loop_settled:
  assumes "eval_loop pf (eb_epoch b) m = Some (q, m')" "minv b fs m" "base_ok b" "natives_keep_promise pf"
  shows "let m'' = (if isl q then frothy_eval_exec_cleanup m' else frothy_eval_sync_frame_stack_used m')
    in settled b q (mc_out m'') (mc_vm m'')"
proof (cases q)
  case (Inl err)
  from loop_outcome [OF assms(1)] assms(2-4) Inl consider "gone b m'" | "tidy b m'" by fastforce
  then show ?thesis
  proof cases
    case 1
    from gone_settled [OF cleanup_gone [OF this]] show ?thesis using Inl by simp
  next
    case 2
    then obtain gs where g: "core b gs m'" "btiles b gs (used m')" "plainv (mc_out m')"
      by (auto simp: tidy_def)
    from cleanup_tidy [OF g] show ?thesis using Inl core_settled by (simp add: Let_def)
  qed
next
  case (Inr u)
  with loop_outcome [OF assms(1)] assms(2-4) have m: "minv b [] m'" by fastforce
  then have c: "core b [] m'" "used m' = eb_arena b" by (simp_all add: sound_stack_def)
  from core_settled [OF core_sync [OF c(1)], of q] c(2) coreD(1,2) [OF c(1)] Inr show ?thesis by simp
qed

lemma node_settled:
  assumes run: "frothy_eval_node pf p ls lc nd out vm = Some (q, out', vm')"
    and snd: "vm_sound (\<lambda>x. eb_refs b x + arena_refs vm x) vm" and fits: "arena_fits (vm_runtime vm)"
    and ok: "base_ok b" and pf: "natives_keep_promise pf" and pl: "plainv out"
    and b: "eb_arena b = rt_eval_value_used (vm_runtime vm)" "eb_locals b = (ls, lc)"
      "eb_epoch b = rt_reset_epoch (vm_runtime vm)" "eb_depth b = vm_frames_used vm"
      "take (length (eb_low b)) (rt_eval_values (vm_runtime vm)) = eb_low b"
    and depth: "vm_frames_used vm \<le> FROTHY_EVAL_FRAME_CAPACITY"
  shows "settled b q out' vm'"
proof -
  let ?m = "\<lparr>mc_vm = vm, mc_frames = [], mc_base_depth = vm_frames_used vm, mc_out = out\<rparr>"
  have core: "core b [] ?m"
    using snd fits b depth pl by (simp add: core_def holds_def arena_refs_def)
  then have ss: "sound_stack b [] ?m" using b by (simp add: sound_stack_def)
  have here: "settled b q out vm" for q using core_settled [OF core] b pl by simp
  show ?thesis
  proof (cases "length (ir_nodes p) \<le> nd \<or> (0 < lc \<and> ls = None)")
    case True
    then show ?thesis using run here by (auto simp: frothy_eval_node_def Let_def)
  next
    case False
    obtain q1 m1 where push: "frothy_eval_push_frame p ls lc nd OUT_CALLER ?m = (q1, m1)" by fastforce
    show ?thesis
    proof (cases q1)
      case (Inl err)
      then have "m1 = ?m" using push by (auto simp: frothy_eval_push_frame_def Let_def split: if_splits)
      then show ?thesis using run False push Inl here by (auto simp: frothy_eval_node_def Let_def)
    next
      case (Inr u)
      have "outcome b (q1, m1)"
        unfolding push [symmetric] by (rule push_minv [OF ss]) (use b pl in simp_all)
      moreover have "mc_runtime m1 = vm_runtime vm"
        using push Inr by (auto simp: frothy_eval_push_frame_def Let_def split: if_splits)
      then have "\<not> gone b m1" using b(3) by (simp add: gone_def)
      ultimately obtain fs where m1: "minv b fs m1" using Inr by (auto simp: outcome_def)
      obtain q2 m2 where loop: "eval_loop pf (eb_epoch b) m1 = Some (q2, m2)"
        using run False push Inr b(3) by (auto simp: frothy_eval_node_def Let_def split: option.splits)
      from loop_settled [OF loop m1 ok pf] show ?thesis
        using run False push Inr loop b(3) by (auto simp: frothy_eval_node_def Let_def)
    qed
  qed
qed

lemma settled_frame_free:
  assumes st: "settled b q out vm" and low: "length (eb_low b) = u" "u + n = eb_arena b"
    and bf: "bf_values bf = (if n = 0 then None else Some u)" "bf_count bf = n"
      "n = 0 \<or> bf_arena_base bf = u \<and> bf_reset_epoch bf = eb_epoch b"
    and b': "b' = b\<lparr>eb_arena := u\<rparr>"
  shows "settled b' q out (frothy_frame_free bf vm)"
proof (cases "n = 0")
  case True
  then have "frothy_frame_free bf vm = vm" by (simp add: frothy_frame_free_def frothy_eval_buffer_free_def bf)
  moreover have "b' = b" using low(2) True by (simp add: b')
  ultimately show ?thesis using st by simp
next
  case False
  let ?rt = "vm_runtime vm"
  let ?m = "\<lparr>mc_vm = vm, mc_frames = [], mc_base_depth = 0, mc_out = frothy_value_make_nil\<rparr>"
  have bfv: "bf_values bf = Some u" using False bf by simp
  show ?thesis
  proof (cases "rt_reset_epoch ?rt = eb_epoch b")
    case True
    let ?vs = "load_at (rt_eval_values ?rt) u n"
    let ?rt1 = "release_ignoring ?vs ?rt"
    have used: "rt_eval_value_used ?rt = u + n" using st True low by (simp add: settled_def)
    note fr = rt_frameD [OF release_ignoring_frame [of ?vs ?rt]]
    have free: "frothy_frame_free bf vm = vm\<lparr>vm_runtime := ?rt1\<lparr>rt_eval_value_used := u\<rparr>\<rparr>"
      by (use False bf in \<open>simp add: frothy_frame_free_def frothy_eval_buffer_free_def bfv True set_runtime_def Let_def\<close>)
    have "vm_sound (\<lambda>x. eb_refs b x + refs out x + refs_in (take u (rt_eval_values ?rt)) x + refs_in ?vs x) vm"
      using st True unfolding settled_def arena_refs_def used take_split by (simp add: add.assoc)
    from release_slots_sound [OF this]
    have "vm_sound (\<lambda>x. eb_refs b x + refs out x + refs_in (take u (rt_eval_values ?rt)) x)
        (vm\<lparr>vm_runtime := ?rt1\<lparr>rt_eval_value_used := u\<rparr>\<rparr>)"
      using same_store_sound [OF same_store_eval(3)] by (simp add: vm_sound_def)
    then show ?thesis
      using st True b' fr used by (simp add: settled_def free arena_refs_def arena_fits_def)
  next
    case ep: False
    have "gone b (?m\<lparr>mc_base_depth := eb_depth b\<rparr>)" using st ep by (simp add: settled_def gone_def)
    from gone_arena [OF this, of u "replicate n frothy_value_make_nil"] ep False st b' bf
    show ?thesis
      by (simp add: frothy_frame_free_def frothy_eval_buffer_free_def bfv set_runtime_def Let_def gone_def settled_def)
  qed
qed

lemma frame_init_cases:
  assumes fits: "arena_fits (vm_runtime vm)" and snd: "vm_sound (\<lambda>x. e x + arena_refs vm x) vm"
  obtains (failed) err where "frothy_frame_init n vm = (Inl err, vm)"
  | (made) bf vm1 where "frothy_frame_init n vm = (Inr bf, vm1)"
      "bf_values bf = (if n = 0 then None else Some (rt_eval_value_used (vm_runtime vm)))" "bf_count bf = n"
      "n = 0 \<or> bf_arena_base bf = rt_eval_value_used (vm_runtime vm) \<and>
        bf_reset_epoch bf = rt_reset_epoch (vm_runtime vm)"
      "vm_sound (\<lambda>x. e x + arena_refs vm1 x) vm1" "arena_fits (vm_runtime vm1)"
      "rt_eval_value_used (vm_runtime vm1) = rt_eval_value_used (vm_runtime vm) + n"
      "take (rt_eval_value_used (vm_runtime vm)) (rt_eval_values (vm_runtime vm1)) =
        take (rt_eval_value_used (vm_runtime vm)) (rt_eval_values (vm_runtime vm))"
      "rt_reset_epoch (vm_runtime vm1) = rt_reset_epoch (vm_runtime vm)"
      "vm_frames_used vm1 = vm_frames_used vm"
proof -
  let ?m = "\<lparr>mc_vm = vm, mc_frames = [], mc_base_depth = 0, mc_out = frothy_value_make_nil\<rparr>"
  have "arena_fits (mc_runtime ?m)" using fits by simp
  then show ?thesis
  proof (cases rule: buffer_init_cases [where n = n])
    case (failed err)
    then show ?thesis using that(1) by (simp add: frothy_frame_init_def)
  next
    case (none bf)
    then show ?thesis using that(2) [of bf vm] fits snd by (simp add: frothy_frame_init_def)
  next
    case (filled bf rt)
    let ?vm = "vm\<lparr>vm_runtime := rt\<rparr>"
    have len: "used ?m \<le> length (arena ?m)" using filled(12) by simp
    have "arena_refs ?vm x = arena_refs vm x" for x
      using take_store_all [OF len, of "replicate n frothy_value_make_nil"] filled(7,8)
      by (simp add: arena_refs_def)
    moreover have "vm_sound (\<lambda>x. e x + arena_refs vm x) ?vm"
      using snd vm_sound_same_store [OF filled(10)] by (simp add: set_runtime_def)
    ultimately show ?thesis
      using filled take_store_above [OF order_refl len]
      by (intro that(2) [of bf ?vm]) (simp_all add: frothy_frame_init_def set_runtime_def)
  qed
qed

lemma settled_promise:
  assumes st: "settled b q out vm'" and b: "eb_refs b = e" "eb_arena b = rt_eval_value_used (vm_runtime vm)"
      "eb_epoch b = rt_reset_epoch (vm_runtime vm)" "eb_depth b = vm_frames_used vm"
      "eb_low b = take (rt_eval_value_used (vm_runtime vm)) (rt_eval_values (vm_runtime vm))"
      "length (eb_low b) = rt_eval_value_used (vm_runtime vm)"
  shows "keeps_promise (\<lambda>x. e x + arena_refs vm x) vm (q, out, vm')"
proof (cases "rt_reset_epoch (vm_runtime vm') = eb_epoch b")
  case True
  note s = st [unfolded settled_def, simplified True, simplified]
  have "arena_refs vm' = arena_refs vm" using s b by (simp add: arena_refs_def)
  then have "vm_sound (\<lambda>x. e x + arena_refs vm x + refs out x) vm'" using s b(1) by (simp add: ac_simps)
  then show ?thesis using s True b by (simp add: keeps_promise_def)
next
  case False
  then show ?thesis using st b by (simp add: settled_def keeps_promise_def)
qed

text \<open>The main result, for a whole program.\<close>

lemma program_promise:
  assumes pf: "natives_keep_promise pf"
    and snd: "vm_sound (\<lambda>x. e x + arena_refs vm x) vm" and fits: "arena_fits (vm_runtime vm)"
    and small: "\<And>x. e x < 2 ^ 29" and depth: "vm_frames_used vm \<le> FROTHY_EVAL_FRAME_CAPACITY"
    and pl: "plainv out" and run: "frothy_eval_program pf p out vm = Some (q, out', vm')"
  shows "keeps_promise (\<lambda>x. e x + arena_refs vm x) vm (q, out', vm')"
proof -
  let ?u = "rt_eval_value_used (vm_runtime vm)" and ?n = "ir_root_local_count p"
  let ?low = "take ?u (rt_eval_values (vm_runtime vm))"
  have len: "length ?low = ?u" using fits by (simp add: arena_fits_def)
  have same: "keeps_promise (\<lambda>x. e x + arena_refs vm x) vm (Inl err, out, vm)" for err
    using snd fits pl by (simp add: keeps_promise_def)
  show ?thesis
  proof (cases "length (ir_nodes p) \<le> ir_root p")
    case True
    then show ?thesis using run same by (auto simp: frothy_eval_program_def)
  next
    case False
    from fits snd show ?thesis
    proof (cases rule: frame_init_cases [where n = ?n])
      case (failed err)
      then show ?thesis using run False same by (auto simp: frothy_eval_program_def)
    next
      case (made bf vm1)
      obtain q1 o1 vm2 where node: "frothy_eval_node pf p (bf_values bf) (bf_count bf) (ir_root p) out vm1 =
          Some (q1, o1, vm2)"
        using run False made(1) by (auto simp: frothy_eval_program_def split: option.splits)
      define b where "b = \<lparr>eb_refs = e, eb_arena = ?u + ?n, eb_locals = (bf_values bf, bf_count bf),
        eb_epoch = rt_reset_epoch (vm_runtime vm), eb_depth = vm_frames_used vm, eb_low = ?low\<rparr>"
      have "base_ok b" using small len made(2,3) by (simp add: base_ok_def b_def locals_base_def)
      then have st: "settled b q1 o1 vm2"
        by (intro node_settled [OF node _ made(6) _ pf pl])
          (use made(5,7-10) depth len in \<open>simp_all add: b_def\<close>)
      have "settled (b\<lparr>eb_arena := ?u\<rparr>) q1 o1 (frothy_frame_free bf vm2)"
        by (rule settled_frame_free [OF st, where n = ?n]) (use made(2-4) len in \<open>simp_all add: b_def\<close>)
      then have "keeps_promise (\<lambda>x. e x + arena_refs vm x) vm (q1, o1, frothy_frame_free bf vm2)"
        by (rule settled_promise) (use len in \<open>simp_all add: b_def\<close>)
      moreover have "q1 = Inl FROTH_ERROR_RESET \<and> (q, out', vm') = (Inr (), frothy_value_make_nil, frothy_frame_free bf vm2)
          \<or> (q, out', vm') = (q1, o1, frothy_frame_free bf vm2)"
        using run False made(1) node by (auto simp: frothy_eval_program_def Let_def split: if_splits)
      ultimately show ?thesis by (auto simp: keeps_promise_def Let_def)
    qed
  qed
qed

text \<open>C1. An evaluation balances its references. Take a consistent runtime in which the references
of the outside world are \<open>e\<close> and those in the value arena, a platform whose natives keep their
promise, and a program that returns. Either the runtime was reset on the way; then the store is
consistent with no outside reference left, the value arena is empty, and the result is no object.
Or it was not; then the store is consistent for the same references and one more for the result,
which belongs to the caller now; the number of frames in use and the value arena below are as
before; and after an error no reference is left in the result. So no error path, wherever in the
program it starts, loses a reference or gives one back twice.\<close>

theorem eval_ownership:
  assumes "natives_keep_promise pf" and "vm_sound (\<lambda>x. e x + arena_refs vm x) vm"
    and "arena_fits (vm_runtime vm)" and "\<And>x. e x < 2 ^ 29"
    and "vm_frames_used vm \<le> FROTHY_EVAL_FRAME_CAPACITY" and "plainv out"
    and "frothy_eval_program pf program out vm = Some (r, out', vm')"
  shows "keeps_promise (\<lambda>x. e x + arena_refs vm x) vm (r, out', vm')"
  using assms by (rule program_promise)

definition idle_platform :: frothy_platform where
  "idle_platform = \<lparr>pf_interrupt = (\<lambda>n. False),
     pf_native = (\<lambda>fn ctx args out vm. (Inl FROTH_ERROR_SIGNATURE, out, vm))\<rparr>"

lemma idle_keeps_promise: "natives_keep_promise idle_platform"
  by (simp add: natives_keep_promise_def keeps_promise_def idle_platform_def)

definition adding_program :: frothy_ir_program where
  "adding_program = frothy_ir_program_init
     \<lparr>ir_literals := [LITERAL_INT 2, LITERAL_INT 3],
      ir_nodes := [NODE_LIT 0, NODE_LIT 1, NODE_CALL BUILTIN_ADD 0 0 2], ir_links := [0, 1], ir_root := 2\<rparr>"

definition sample_vm :: frothy_vm where
  "sample_vm = \<lparr>vm_runtime = sample_runtime,
     vm_names = (\<lparr>heap_data = [], heap_pointer = 0, heap_high_water = 0\<rparr>,
       \<lparr>st_slots = replicate FROTH_SLOT_TABLE_SIZE zero_slot, st_pointer = 0, st_high_water = 0\<rparr>),
     vm_interrupted = False, vm_boot_complete = True, vm_watermark_heap_offset = 0, vm_polls = 0,
     vm_frames_used = 0, vm_frames_high_water = 0\<rparr>"

lemma sample_vm_sound: "vm_sound (\<lambda>x. 0 + arena_refs sample_vm x) sample_vm"
proof -
  have "arena_refs sample_vm x = 0" "slot_refs (snd (vm_names sample_vm)) x = 0" for x
    by (simp_all add: arena_refs_def sample_vm_def sample_runtime_def runtime_sized_def slot_refs_def)
  moreover have "rt_sound (\<lambda>x. 0) sample_runtime"
    using sample_runtime_ok by (simp add: rt_sound_def records_ok_def rt_small_def sample_runtime_def
        runtime_sized_def froth_cellspace_init_def)
  ultimately show ?thesis by (simp add: vm_sound_def names_ok_def) (simp add: sample_vm_def)
qed

lemma sample_vm_fits: "arena_fits (vm_runtime sample_vm)"
  by (simp add: sample_vm_def arena_fits_def sample_runtime_def runtime_sized_def)

lemmas step_defs = eval_iteration_def check_epoch_def frothy_reset_epoch_matches_def frothy_poll_interrupt_def
  idle_platform_def mc_node_def mc_top_def set_top_def set_phase_def set_index_def set_buffer_def
  frothy_eval_push_frame_def frothy_eval_push_child_def frothy_eval_frame_state_init_def
  frothy_eval_sync_frame_stack_used_def frothy_eval_buffer_init_def frothy_eval_buffer_free_def
  frothy_eval_call_def eval_call_run_def buffer_args_def load_at_def store_at_def arena_store_def
  ev_try_def ev_do_def ev_status_def ev_error_def ev_result_def eval_simple_def put_result_def put_out_def
  on_runtime_def set_runtime_def frothy_eval_complete_out_def frothy_eval_complete_here_def
  frothy_eval_complete_value_def frothy_eval_pop_frame_def pop_top_def frothy_eval_frame_state_cleanup_def
  FROTHY_EVAL_FRAME_CAPACITY_def FROTHY_EVAL_SCRATCH_SLOT_COUNT_def no_buffer_def Let_def

lemma release_small [simp]:
  "\<not> frothy_value_is_object_ref v \<Longrightarrow> frothy_value_release v rt = (Inr (), rt)"
  by (simp add: frothy_value_release_def)

lemma wrap_five: "frothy_value_wrap_int 5 = 5"
  by code_simp

lemma small_values [simp]:
  "frothy_value_make_int 2 = Inr 8" "frothy_value_make_int 3 = Inr 12"
  "\<not> frothy_value_is_object_ref 8" "\<not> frothy_value_is_object_ref 12"
  "\<not> frothy_value_is_object_ref frothy_value_make_nil"
  "frothy_eval_builtin BUILTIN_ADD [8, 12] rt = (Inr 20, rt)"
  by (simp_all add: frothy_value_make_int_def FROTHY_VALUE_INT_MIN_def FROTHY_VALUE_INT_MAX_def
      frothy_value_is_object_ref_def FROTHY_VALUE_TAG_MASK_def FROTHY_VALUE_TAG_OBJECT_def
      frothy_value_make_nil_def FROTHY_SPECIAL_NIL_def frothy_eval_builtin_def
      frothy_value_is_int_def FROTHY_VALUE_TAG_INT_def frothy_value_as_int_def frothy_make_wrapped_int_def wrap_five)

lemma adding_program_run:
  "\<exists>vm'. frothy_eval_program idle_platform adding_program frothy_value_make_nil sample_vm = Some (Inr (), 20, vm')"
  apply (simp add: frothy_eval_program_def frothy_frame_init_def frothy_frame_free_def frothy_eval_node_def
    adding_program_def frothy_ir_program_init_def sample_vm_def sample_runtime_def runtime_sized_def step_defs)
  by (subst eval_loop.simps, simp add: step_defs numeral_eq_Suc)+

theorem eval_ownership_witness:
  "\<exists>vm'. frothy_eval_program idle_platform adding_program frothy_value_make_nil sample_vm = Some (Inr (), 20, vm') \<and>
     keeps_promise (\<lambda>x. arena_refs sample_vm x) sample_vm (Inr (), 20, vm')"
proof -
  obtain vm' where run: "frothy_eval_program idle_platform adding_program frothy_value_make_nil sample_vm =
      Some (Inr (), 20, vm')"
    using adding_program_run by blast
  have "vm_frames_used sample_vm \<le> FROTHY_EVAL_FRAME_CAPACITY" by (simp add: sample_vm_def)
  from eval_ownership [OF idle_keeps_promise sample_vm_sound sample_vm_fits _ this _ run] run
  show ?thesis by simp
qed

end
