(* ===== verification/Frothy_Eval_Arith.thy ===== *)
theory Frothy_Eval_Arith
  imports Frothy_Eval
begin

section \<open>Arithmetic of the evaluator\<close>

text \<open>
  The built-in operations compute in 64 bits and wrap the result to the 30 bits of a boxed integer.
  Here they are compared with the arithmetic of the mathematical integers.
\<close>

definition wrap30 :: "int \<Rightarrow> int" where
  "wrap30 z = (z + 2 ^ 29) mod 2 ^ 30 - 2 ^ 29"

text \<open>The quotient truncates toward zero, and the remainder has the sign of the dividend.\<close>

definition trunc_div :: "int \<Rightarrow> int \<Rightarrow> int" where
  "trunc_div a c = sgn a * sgn c * (\<bar>a\<bar> div \<bar>c\<bar>)"

definition trunc_rem :: "int \<Rightarrow> int \<Rightarrow> int" where
  "trunc_rem a c = a - c * trunc_div a c"

text \<open>What the operation on two integers should give: an integer or a truth value.\<close>

fun arith_spec :: "frothy_ir_builtin \<Rightarrow> int \<Rightarrow> int \<Rightarrow> (int + bool) option" where
  "arith_spec BUILTIN_ADD a c = Some (Inl (wrap30 (a + c)))"
| "arith_spec BUILTIN_SUB a c = Some (Inl (wrap30 (a - c)))"
| "arith_spec BUILTIN_MUL a c = Some (Inl (wrap30 (a * c)))"
| "arith_spec BUILTIN_DIV a c = (if c = 0 then None else Some (Inl (wrap30 (trunc_div a c))))"
| "arith_spec BUILTIN_REM a c = (if c = 0 then None else Some (Inl (trunc_rem a c)))"
| "arith_spec BUILTIN_LT a c = Some (Inr (a < c))"
| "arith_spec BUILTIN_LE a c = Some (Inr (a \<le> c))"
| "arith_spec BUILTIN_GT a c = Some (Inr (c < a))"
| "arith_spec BUILTIN_GE a c = Some (Inr (c \<le> a))"
| "arith_spec b a c = None"

fun is_arith :: "frothy_ir_builtin \<Rightarrow> bool" where
  "is_arith BUILTIN_ADD = True" | "is_arith BUILTIN_SUB = True" | "is_arith BUILTIN_MUL = True"
| "is_arith BUILTIN_DIV = True" | "is_arith BUILTIN_REM = True" | "is_arith BUILTIN_LT = True"
| "is_arith BUILTIN_LE = True" | "is_arith BUILTIN_GT = True" | "is_arith BUILTIN_GE = True"
| "is_arith b = False"

text \<open>The integers and truth values a value stands for.\<close>

definition reads_as :: "frothy_value \<Rightarrow> int + bool \<Rightarrow> bool" where
  "reads_as v s \<longleftrightarrow> (case s of
     Inl z \<Rightarrow> frothy_value_is_int v \<and> sint (frothy_value_as_int v) = z
   | Inr t \<Rightarrow> frothy_value_is_bool v \<and> frothy_value_as_bool v = t)"

lemma as_int_range: "- (2 ^ 29) \<le> sint (frothy_value_as_int v)" "sint (frothy_value_as_int v) < 2 ^ 29"
proof -
  have "sint (frothy_value_as_int v) = sint v div 2 ^ 2"
    by (simp add: frothy_value_as_int_def sint_signed_drop_bit_eq drop_bit_eq_div)
  moreover have "- (2 ^ 31) \<le> sint v" "sint v < 2 ^ 31"
    using sint_ge [of v] sint_lt [of v] by simp_all
  ultimately show "- (2 ^ 29) \<le> sint (frothy_value_as_int v)" "sint (frothy_value_as_int v) < 2 ^ 29"
    by simp_all
qed

lemma sint_word64: "- (2 ^ 62) \<le> z \<Longrightarrow> z \<le> 2 ^ 62 \<Longrightarrow> sint (word_of_int z :: 64 word) = z"
  by (simp add: sint_sbintrunc' signed_take_bit_int_eq_self)

lemma wrapped_int:
  assumes "- (2 ^ 62) \<le> z" "z \<le> 2 ^ 62"
  shows "\<exists>v. frothy_make_wrapped_int (word_of_int z) = Inr v \<and> reads_as v (Inl (wrap30 z))"
proof -
  let ?w = "frothy_value_wrap_int (word_of_int z)"
  have w: "sint ?w = wrap30 z" using sint_wrap_int [of "word_of_int z"] sint_word64 [OF assms] by (simp add: wrap30_def)
  moreover have "- (2 ^ 29) \<le> wrap30 z \<and> wrap30 z < 2 ^ 29"
    using pos_mod_bound [of "2 ^ 30" "z + 2 ^ 29"] pos_mod_sign [of "2 ^ 30" "z + 2 ^ 29"] by (simp add: wrap30_def)
  ultimately have "frothy_value_make_int ?w = Inr (push_bit 2 ?w)" by (simp add: make_int_Inr)
  moreover from make_int_roundtrip [OF this] have "reads_as (push_bit 2 ?w) (Inl (wrap30 z))"
    using w by (simp add: reads_as_def)
  ultimately show ?thesis by (simp add: frothy_make_wrapped_int_def)
qed

lemma wrap30_id: "- (2 ^ 29) \<le> z \<Longrightarrow> z < 2 ^ 29 \<Longrightarrow> wrap30 z = z"
  by (simp add: wrap30_def)

lemma bool_reads: "reads_as (frothy_value_make_bool t) (Inr t)"
  by (cases t) (simp_all add: reads_as_def frothy_value_make_bool_def frothy_value_is_bool_def
      frothy_value_as_bool_def FROTHY_SPECIAL_TRUE_def FROTHY_SPECIAL_FALSE_def)

lemma trunc_div_sdiv: "a sdiv c = trunc_div a c"
  by (simp add: signed_divide_int_def trunc_div_def)

lemma trunc_rem_smod: "a smod c = trunc_rem a c"
proof -
  have "a = sgn a * \<bar>a\<bar>" "c = sgn c * \<bar>c\<bar>" by (simp_all add: sgn_mult_abs)
  then have "c * (sgn a * sgn c * q) = sgn a * (sgn c * sgn c * (\<bar>c\<bar> * q))" for q
    by (metis mult.assoc mult.commute)
  then have "trunc_rem a c = sgn a * (\<bar>a\<bar> - \<bar>c\<bar> * (\<bar>a\<bar> div \<bar>c\<bar>))"
    by (cases "c = 0") (auto simp: trunc_rem_def trunc_div_def algebra_simps sgn_mult_abs sgn_if)
  then show ?thesis by (simp add: signed_modulo_int_def minus_mult_div_eq_mod)
qed

lemma quotient_le: "0 \<le> a \<Longrightarrow> 0 \<le> c \<Longrightarrow> a div c \<le> (a :: int)"
  using zdiv_mono2 [of a 1 c] by (cases "c = 0") simp_all

lemma abs_sgn_mult: "\<bar>q\<bar> \<le> n \<Longrightarrow> \<bar>sgn a * q\<bar> \<le> (n :: int)"
  by (cases "a = 0") (auto simp: abs_mult abs_sgn_eq)

lemma trunc_div_range: "\<bar>trunc_div a c\<bar> \<le> \<bar>a\<bar>"
proof -
  have "\<bar>\<bar>a\<bar> div \<bar>c\<bar>\<bar> \<le> \<bar>a\<bar>" using quotient_le [of "\<bar>a\<bar>" "\<bar>c\<bar>"] by (simp add: div_int_pos_iff abs_of_nonneg)
  then show ?thesis unfolding trunc_div_def mult.assoc by (intro abs_sgn_mult)
qed

lemma trunc_rem_range: "\<bar>trunc_rem a c\<bar> \<le> \<bar>a\<bar>"
proof -
  have "0 \<le> \<bar>a\<bar> mod \<bar>c\<bar>" by (cases "c = 0") simp_all
  then have "\<bar>\<bar>a\<bar> mod \<bar>c\<bar>\<bar> \<le> \<bar>a\<bar>" by (simp add: zmod_le_nonneg_dividend)
  then show ?thesis unfolding trunc_rem_smod [symmetric] signed_modulo_int_def by (rule abs_sgn_mult)
qed

lemma scast_ops:
  "(scast l + scast r :: 64 word) = word_of_int (sint (l :: 32 word) + sint (r :: 32 word))"
  "(scast l - scast r :: 64 word) = word_of_int (sint l - sint r)"
  "(scast l * scast r :: 64 word) = word_of_int (sint l * sint r)"
  by (simp_all only: scast_eq wi_homs)

lemma product_range:
  assumes "- (2 ^ 29) \<le> a" "a < 2 ^ 29" "- (2 ^ 29) \<le> c" "c < (2 :: int) ^ 29"
  shows "- (2 ^ 62) \<le> a * c" "a * c \<le> 2 ^ 62"
proof -
  have "\<bar>a\<bar> \<le> 2 ^ 29" "\<bar>c\<bar> \<le> 2 ^ 29" using assms by (auto simp: abs_if)
  then have "\<bar>a\<bar> * \<bar>c\<bar> \<le> 2 ^ 29 * 2 ^ 29" by (intro mult_mono) simp_all
  then have "\<bar>a * c\<bar> \<le> 2 ^ 58" by (simp add: abs_mult)
  then show "- (2 ^ 62) \<le> a * c" "a * c \<le> 2 ^ 62" by (simp_all add: abs_le_iff)
qed

lemma between_range:
  "\<bar>z\<bar> \<le> \<bar>a\<bar> \<Longrightarrow> (a < 0 \<Longrightarrow> z \<le> 0) \<Longrightarrow> - n \<le> a \<Longrightarrow> a < n \<Longrightarrow> - n \<le> z \<and> z < (n :: int)"
  by (auto simp: abs_if split: if_splits)

text \<open>C18. The arithmetic and comparison operations of the evaluator on two integers: the sum, the
difference and the product are the mathematical ones wrapped into the 30-bit range, the quotient is
truncated toward zero (and wrapped: only the least integer divided by -1 does not fit), the
remainder is the one that belongs to that quotient, a zero divisor is the only error, and the
comparisons are those of the integers. The object store is not touched.\<close>

theorem arith_builtin_spec:
  assumes "is_arith b" "frothy_value_is_int x" "frothy_value_is_int y"
  shows "\<exists>q. frothy_eval_builtin b [x, y] rt = (q, rt) \<and>
    (case arith_spec b (sint (frothy_value_as_int x)) (sint (frothy_value_as_int y)) of
       None \<Rightarrow> q = Inl FROTH_ERROR_DIVISION_BY_ZERO
     | Some s \<Rightarrow> \<exists>v. q = Inr v \<and> reads_as v s)"
proof -
  let ?l = "frothy_value_as_int x" and ?r = "frothy_value_as_int y"
  let ?a = "sint ?l" and ?c = "sint ?r"
  note rng = as_int_range [of x] as_int_range [of y]
  have run: "frothy_eval_builtin b [x, y] rt = (int_builtin b ?l ?r, rt)"
    using assms by (cases b) (simp_all add: frothy_eval_builtin_def)
  have zero: "?r = 0 \<longleftrightarrow> ?c = 0" by (metis signed_0 signed_word_eqI)
  note dr = trunc_div_range [of ?a ?c] trunc_rem_range [of ?a ?c]
  have rem: "wrap30 (trunc_rem ?a ?c) = trunc_rem ?a ?c"
  proof (rule wrap30_id)
    have neg: "trunc_rem ?a ?c \<le> 0" if "?a < 0"
      using that unfolding trunc_rem_smod [symmetric] signed_modulo_int_def by (cases "?c = 0") simp_all
    show "- (2 ^ 29) \<le> trunc_rem ?a ?c" "trunc_rem ?a ?c < 2 ^ 29"
      using between_range [OF dr(2) neg rng(1,2)] by simp_all
  qed
  show ?thesis
  proof (cases b)
    case BUILTIN_ADD
    have "\<exists>v. int_builtin b ?l ?r = Inr v \<and> reads_as v (Inl (wrap30 (?a + ?c)))"
      unfolding BUILTIN_ADD int_builtin.simps scast_ops by (rule wrapped_int) (use rng in simp)+
    then show ?thesis using run by (auto simp: BUILTIN_ADD)
  next
    case BUILTIN_SUB
    have "\<exists>v. int_builtin b ?l ?r = Inr v \<and> reads_as v (Inl (wrap30 (?a - ?c)))"
      unfolding BUILTIN_SUB int_builtin.simps scast_ops by (rule wrapped_int) (use rng in simp)+
    then show ?thesis using run by (auto simp: BUILTIN_SUB)
  next
    case BUILTIN_MUL
    have "\<exists>v. int_builtin b ?l ?r = Inr v \<and> reads_as v (Inl (wrap30 (?a * ?c)))"
      unfolding BUILTIN_MUL int_builtin.simps scast_ops by (rule wrapped_int) (rule product_range [OF rng])+
    then show ?thesis using run by (auto simp: BUILTIN_MUL)
  next
    case BUILTIN_DIV
    have "\<exists>v. frothy_make_wrapped_int (word_of_int (trunc_div ?a ?c)) = Inr v \<and>
        reads_as v (Inl (wrap30 (trunc_div ?a ?c)))"
      by (rule wrapped_int) (use rng dr(1) in simp)+
    then show ?thesis using run by (auto simp: BUILTIN_DIV zero trunc_div_sdiv)
  next
    case BUILTIN_REM
    have "\<exists>v. frothy_make_wrapped_int (word_of_int (trunc_rem ?a ?c)) = Inr v \<and>
        reads_as v (Inl (trunc_rem ?a ?c))"
      using wrapped_int [of "trunc_rem ?a ?c", unfolded rem] rng dr(2) by simp
    then show ?thesis using run by (auto simp: BUILTIN_REM zero trunc_rem_smod)
  qed (use assms run in \<open>auto simp: bool_reads word_sless_alt word_sle_eq\<close>)
qed

theorem arith_builtin_spec_witness:
  "\<exists>v. fst (frothy_eval_builtin BUILTIN_DIV [28, -8] sample_runtime) = Inr v \<and> reads_as v (Inl (- 3))"
proof -
  have "sint (frothy_value_as_int 28) = 7" "sint (frothy_value_as_int (-8)) = - 2"
    by (simp_all add: frothy_value_as_int_def sint_signed_drop_bit_eq drop_bit_eq_div)
  moreover have "frothy_value_is_int 28" "frothy_value_is_int (-8)"
    by (simp_all add: frothy_value_is_int_def FROTHY_VALUE_TAG_MASK_def FROTHY_VALUE_TAG_INT_def)
  ultimately show ?thesis
    using arith_builtin_spec [of BUILTIN_DIV 28 "-8" sample_runtime] by (auto simp: trunc_div_def wrap30_def)
qed

end
