(* ===== verification/Frothy_Lexer.thy ===== *)
theory Frothy_Lexer
  imports Frothy_Names
begin

section \<open>Tokens (the lexer of frothy_parser.c)\<close>

text \<open>
  The source is the memory that starts with a NUL-terminated string: a byte list whose first 0, or
  whose end, is the terminator (\<open>byte_at\<close> reads 0 at the end and after it). Bytes behind a 0 in the
  list are the memory behind the terminator, which the lexer should never reach. A pointer into the
  source is an offset, the null pointer \<open>None\<close>. \<open>frothy_lex_next\<close> gives the status, the token as it
  is left (also after an error) and the new cursor.
\<close>

datatype frothy_token_kind =
    TOKEN_EOF | TOKEN_NAME | TOKEN_INT | TOKEN_TEXT | TOKEN_LPAREN | TOKEN_RPAREN | TOKEN_LBRACE
  | TOKEN_RBRACE | TOKEN_LBRACKET | TOKEN_RBRACKET | TOKEN_COMMA | TOKEN_SEMICOLON | TOKEN_COLON
  | TOKEN_AT | TOKEN_EQUAL | TOKEN_PLUS | TOKEN_MINUS | TOKEN_ARROW | TOKEN_STAR | TOKEN_SLASH
  | TOKEN_PERCENT | TOKEN_LT | TOKEN_LE | TOKEN_GT | TOKEN_GE | TOKEN_EQEQ | TOKEN_NEQ
  | TOKEN_KW_HERE | TOKEN_KW_IS | TOKEN_KW_SET | TOKEN_KW_TO | TOKEN_KW_WITH | TOKEN_KW_AS
  | TOKEN_KW_FN | TOKEN_KW_IF | TOKEN_KW_ELSE | TOKEN_KW_WHILE | TOKEN_KW_REPEAT | TOKEN_KW_IN
  | TOKEN_KW_COND | TOKEN_KW_CASE | TOKEN_KW_WHEN | TOKEN_KW_UNLESS | TOKEN_KW_TRUE
  | TOKEN_KW_FALSE | TOKEN_KW_NIL | TOKEN_KW_NOT | TOKEN_KW_AND | TOKEN_KW_OR | TOKEN_KW_CALL
  | TOKEN_KW_CELLS | TOKEN_KW_RECORD

record frothy_token =
  tk_kind :: frothy_token_kind
  tk_start :: "nat option"
  tk_length :: nat
  tk_int_value :: "32 word"
  tk_owned_text :: "byte list"

definition frothy_token_clear :: frothy_token where
  "frothy_token_clear = \<lparr>tk_kind = TOKEN_EOF, tk_start = None, tk_length = 0, tk_int_value = 0,
     tk_owned_text = []\<rparr>"

definition FROTH_STRING_MAX_LEN :: nat where "FROTH_STRING_MAX_LEN = 256"

definition byte_at :: "byte list \<Rightarrow> nat \<Rightarrow> byte" where
  "byte_at src i = (if i < length src then src ! i else 0)"

definition ascii :: "string \<Rightarrow> byte list" where "ascii s = map of_char s"

definition isspace :: "byte \<Rightarrow> bool" where
  "isspace b \<longleftrightarrow> (9 \<le> b \<and> b \<le> 13) \<or> b = 32"

lemma byte_at_inside: "byte_at src i \<noteq> 0 \<Longrightarrow> i < length src"
  by (simp add: byte_at_def split: if_splits)

subsection \<open>White space and comments\<close>

function skip_blank :: "byte list \<Rightarrow> nat \<Rightarrow> nat" where
  "skip_blank src i =
     (if byte_at src i \<noteq> 0 \<and> isspace (byte_at src i) then skip_blank src (i + 1) else i)"
  by pat_completeness auto
termination by (relation "measure (\<lambda>(src, i). length src - i)") (auto dest: byte_at_inside)

function skip_comment :: "byte list \<Rightarrow> nat \<Rightarrow> nat" where
  "skip_comment src i =
     (if byte_at src i \<noteq> 0 \<and> byte_at src i \<noteq> 10 then skip_comment src (i + 1) else i)"
  by pat_completeness auto
termination by (relation "measure (\<lambda>(src, i). length src - i)") (auto dest: byte_at_inside)

declare skip_blank.simps [simp del] skip_comment.simps [simp del]

lemma skip_blank_le: "i \<le> skip_blank src i"
proof (induction src i rule: skip_blank.induct)
  case (1 src i)
  then show ?case by (subst skip_blank.simps) (fastforce split: if_splits)
qed

lemma skip_comment_le: "i \<le> skip_comment src i"
proof (induction src i rule: skip_comment.induct)
  case (1 src i)
  then show ?case by (subst skip_comment.simps) (fastforce split: if_splits)
qed

lemma skip_comment_backslash: "byte_at src i = 92 \<Longrightarrow> i < skip_comment src i"
  using skip_comment_le [of "i + 1" src] by (subst skip_comment.simps) simp

function frothy_lex_skip_space :: "byte list \<Rightarrow> nat \<Rightarrow> nat" where
  "frothy_lex_skip_space src i =
     (let j = skip_blank src i
      in if byte_at src j \<noteq> 92 then j else frothy_lex_skip_space src (skip_comment src j))"
  by pat_completeness auto
termination
proof (relation "measure (\<lambda>(src, i). length src - i)")
  fix src i and j
  assume j: "j = skip_blank src i" "\<not> byte_at src j \<noteq> 92"
  then have "j < length src" using byte_at_inside [of src j] by simp
  moreover have "i \<le> j" "j < skip_comment src j"
    using j skip_blank_le skip_comment_backslash by simp_all
  ultimately show "((src, skip_comment src j), src, i) \<in> measure (\<lambda>(src, i). length src - i)" by simp
qed simp

declare frothy_lex_skip_space.simps [simp del]

subsection \<open>Texts, numbers, names\<close>

definition escape_byte :: "byte \<Rightarrow> byte option" where
  "escape_byte e = map_of [(110, 10), (114, 13), (116, 9), (92, 92), (34, 34)] e"

function lex_text_loop :: "byte list \<Rightarrow> nat \<Rightarrow> byte list \<Rightarrow> byte list result \<times> nat" where
  "lex_text_loop src i buffer =
     (let b = byte_at src i; e = byte_at src (i + 1)
      in if b = 0 \<or> b = 34 then (Inr buffer, i)
         else if b = 92 then
           if e = 0 then (Inl FROTH_ERROR_UNTERMINATED_STRING, i + 2)
           else
             (case escape_byte e of
                None \<Rightarrow> (Inl FROTH_ERROR_INVALID_ESCAPE, i + 2)
              | Some c \<Rightarrow>
                  if FROTH_STRING_MAX_LEN \<le> length buffer then (Inl FROTH_ERROR_BSTRING_TOO_LONG, i + 2)
                  else lex_text_loop src (i + 2) (buffer @ [c]))
         else if FROTH_STRING_MAX_LEN \<le> length buffer then (Inl FROTH_ERROR_BSTRING_TOO_LONG, i + 1)
         else lex_text_loop src (i + 1) (buffer @ [b]))"
  by pat_completeness auto
termination by (relation "measure (\<lambda>(src, i, buffer). length src - i)") (auto dest: byte_at_inside)

declare lex_text_loop.simps [simp del]

type_synonym lexed = "unit result \<times> frothy_token \<times> nat"

definition frothy_lex_text :: "byte list \<Rightarrow> nat \<Rightarrow> frothy_token \<Rightarrow> lexed" where
  "frothy_lex_text src start token =
     (case lex_text_loop src (start + 1) [] of
        (Inl e, i) \<Rightarrow> (Inl e, token, i)
      | (Inr buffer, i) \<Rightarrow>
          if byte_at src i \<noteq> 34 then (Inl FROTH_ERROR_UNTERMINATED_STRING, token, i)
          else (Inr (), token\<lparr>tk_kind := TOKEN_TEXT, tk_start := Some start,
                  tk_length := i + 1 - start, tk_owned_text := buffer\<rparr>, i + 1))"

definition FROTHY_LEX_INT_MAX :: nat where "FROTHY_LEX_INT_MAX = 2 ^ 29 - 1"

function lex_number_loop :: "byte list \<Rightarrow> nat \<Rightarrow> nat \<Rightarrow> nat result \<times> nat" where
  "lex_number_loop src i v =
     (let b = byte_at src i; digit = unat b - 48
      in if \<not> isdigit b then (Inr v, i)
         else if (FROTHY_LEX_INT_MAX - digit) div 10 < v then (Inl FROTH_ERROR_VALUE_OVERFLOW, i)
         else lex_number_loop src (i + 1) (v * 10 + digit))"
  by pat_completeness auto
termination
proof (relation "measure (\<lambda>(src, i, v). length src - i)")
  fix src i v and b :: byte and digit
  assume b: "b = byte_at src i" "\<not> \<not> isdigit b"
  have "byte_at src i \<noteq> 0"
  proof
    assume "byte_at src i = 0"
    then show False using b by (simp add: isdigit_def)
  qed
  then have "i < length src" by (rule byte_at_inside)
  then show "((src, i + 1, v * 10 + digit), src, i, v) \<in> measure (\<lambda>(src, i, v). length src - i)" by simp
qed simp

declare lex_number_loop.simps [simp del]

definition frothy_lex_number :: "byte list \<Rightarrow> nat \<Rightarrow> frothy_token \<Rightarrow> lexed" where
  "frothy_lex_number src start token =
     (case lex_number_loop src start 0 of
        (Inl e, i) \<Rightarrow> (Inl e, token, i)
      | (Inr v, i) \<Rightarrow> (Inr (), token\<lparr>tk_kind := TOKEN_INT, tk_start := Some start,
                        tk_length := i - start, tk_int_value := word_of_nat v\<rparr>, i))"

function skip_name :: "byte list \<Rightarrow> nat \<Rightarrow> nat" where
  "skip_name src i = (if frothy_name_byte_is_slot_continue (byte_at src i) then skip_name src (i + 1) else i)"
  by pat_completeness auto
termination
proof (relation "measure (\<lambda>(src, i). length src - i)")
  fix src i
  assume cont: "frothy_name_byte_is_slot_continue (byte_at src i)"
  have "byte_at src i \<noteq> 0"
  proof
    assume "byte_at src i = 0"
    then show False
      using cont name_bytes_not_special(3) by (simp add: frothy_name_byte_is_slot_continue_def DOT_def)
  qed
  then have "i < length src" by (rule byte_at_inside)
  then show "((src, i + 1), src, i) \<in> measure (\<lambda>(src, i). length src - i)" by simp
qed simp

declare skip_name.simps [simp del]

definition keyword_table :: "(byte list \<times> frothy_token_kind) list" where
  "keyword_table = [(ascii ''here'', TOKEN_KW_HERE), (ascii ''is'', TOKEN_KW_IS), (ascii ''set'', TOKEN_KW_SET),
     (ascii ''to'', TOKEN_KW_TO), (ascii ''with'', TOKEN_KW_WITH), (ascii ''as'', TOKEN_KW_AS),
     (ascii ''fn'', TOKEN_KW_FN), (ascii ''if'', TOKEN_KW_IF), (ascii ''else'', TOKEN_KW_ELSE),
     (ascii ''while'', TOKEN_KW_WHILE), (ascii ''repeat'', TOKEN_KW_REPEAT), (ascii ''in'', TOKEN_KW_IN),
     (ascii ''cond'', TOKEN_KW_COND), (ascii ''case'', TOKEN_KW_CASE), (ascii ''when'', TOKEN_KW_WHEN),
     (ascii ''unless'', TOKEN_KW_UNLESS), (ascii ''true'', TOKEN_KW_TRUE), (ascii ''false'', TOKEN_KW_FALSE),
     (ascii ''nil'', TOKEN_KW_NIL), (ascii ''not'', TOKEN_KW_NOT), (ascii ''and'', TOKEN_KW_AND),
     (ascii ''or'', TOKEN_KW_OR), (ascii ''call'', TOKEN_KW_CALL), (ascii ''cells'', TOKEN_KW_CELLS),
     (ascii ''record'', TOKEN_KW_RECORD)]"

text \<open>The table with its texts as bytes, for evaluation.\<close>

lemma keyword_table_bytes [code]:
  "keyword_table = [
     ([104, 101, 114, 101], TOKEN_KW_HERE),
     ([105, 115], TOKEN_KW_IS),
     ([115, 101, 116], TOKEN_KW_SET),
     ([116, 111], TOKEN_KW_TO),
     ([119, 105, 116, 104], TOKEN_KW_WITH),
     ([97, 115], TOKEN_KW_AS),
     ([102, 110], TOKEN_KW_FN),
     ([105, 102], TOKEN_KW_IF),
     ([101, 108, 115, 101], TOKEN_KW_ELSE),
     ([119, 104, 105, 108, 101], TOKEN_KW_WHILE),
     ([114, 101, 112, 101, 97, 116], TOKEN_KW_REPEAT),
     ([105, 110], TOKEN_KW_IN),
     ([99, 111, 110, 100], TOKEN_KW_COND),
     ([99, 97, 115, 101], TOKEN_KW_CASE),
     ([119, 104, 101, 110], TOKEN_KW_WHEN),
     ([117, 110, 108, 101, 115, 115], TOKEN_KW_UNLESS),
     ([116, 114, 117, 101], TOKEN_KW_TRUE),
     ([102, 97, 108, 115, 101], TOKEN_KW_FALSE),
     ([110, 105, 108], TOKEN_KW_NIL),
     ([110, 111, 116], TOKEN_KW_NOT),
     ([97, 110, 100], TOKEN_KW_AND),
     ([111, 114], TOKEN_KW_OR),
     ([99, 97, 108, 108], TOKEN_KW_CALL),
     ([99, 101, 108, 108, 115], TOKEN_KW_CELLS),
     ([114, 101, 99, 111, 114, 100], TOKEN_KW_RECORD)]"
  by (simp add: keyword_table_def ascii_def)

definition frothy_lex_name :: "byte list \<Rightarrow> nat \<Rightarrow> frothy_token \<Rightarrow> lexed" where
  "frothy_lex_name src start token =
     (let i = skip_name src (start + 1);
          kind = (case map_of keyword_table (load_at src start (i - start)) of
                    Some k \<Rightarrow> k | None \<Rightarrow> TOKEN_NAME)
      in (Inr (), token\<lparr>tk_kind := kind, tk_start := Some start, tk_length := i - start\<rparr>, i))"

subsection \<open>The next token\<close>

definition single_tokens :: "(byte \<times> frothy_token_kind) list" where
  "single_tokens = [(40, TOKEN_LPAREN), (41, TOKEN_RPAREN), (123, TOKEN_LBRACE), (125, TOKEN_RBRACE),
     (91, TOKEN_LBRACKET), (93, TOKEN_RBRACKET), (44, TOKEN_COMMA), (59, TOKEN_SEMICOLON),
     (58, TOKEN_COLON), (64, TOKEN_AT), (43, TOKEN_PLUS), (42, TOKEN_STAR), (47, TOKEN_SLASH),
     (37, TOKEN_PERCENT)]"

text \<open>First byte, second byte, the token of both, and the token of the first alone if there is one.\<close>

definition double_tokens ::
  "(byte \<times> byte \<times> frothy_token_kind \<times> frothy_token_kind option) list" where
  "double_tokens = [(45, 62, TOKEN_ARROW, Some TOKEN_MINUS), (61, 61, TOKEN_EQEQ, Some TOKEN_EQUAL),
     (33, 61, TOKEN_NEQ, None), (60, 61, TOKEN_LE, Some TOKEN_LT), (62, 61, TOKEN_GE, Some TOKEN_GT)]"

definition frothy_lex_next :: "byte list \<Rightarrow> nat \<Rightarrow> lexed" where
  "frothy_lex_next src cursor =
     (let start = frothy_lex_skip_space src cursor;
          b = byte_at src start;
          token = frothy_token_clear\<lparr>tk_start := Some start\<rparr>
      in if b = 0 then (Inr (), token, start)
         else if frothy_name_byte_is_start b then frothy_lex_name src start token
         else if isdigit b then frothy_lex_number src start token
         else if b = 34 then frothy_lex_text src start token
         else
           (case map_of single_tokens b of
              Some k \<Rightarrow> (Inr (), token\<lparr>tk_kind := k\<rparr>, start + 1)
            | None \<Rightarrow>
                (case map_of double_tokens b of
                   None \<Rightarrow> (Inl FROTH_ERROR_SIGNATURE, token, start + 1)
                 | Some (second, both, alone) \<Rightarrow>
                     if byte_at src (start + 1) = second
                     then (Inr (), token\<lparr>tk_kind := both\<rparr>, start + 2)
                     else
                       (case alone of
                          None \<Rightarrow> (Inl FROTH_ERROR_SIGNATURE, token, start + 1)
                        | Some k \<Rightarrow> (Inr (), token\<lparr>tk_kind := k\<rparr>, start + 1)))))"

text \<open>The bytes of a token.\<close>

definition token_bytes :: "byte list \<Rightarrow> frothy_token \<Rightarrow> byte list" where
  "token_bytes src token =
     (case tk_start token of None \<Rightarrow> [] | Some start \<Rightarrow> load_at src start (tk_length token))"

end
