(* ===== verification/Frothy_Build.thy ===== *)
theory Frothy_Build
  imports Frothy_Lexer Frothy_IR
begin

section \<open>The parser's state and the program it builds (frothy_parser.c)\<close>

text \<open>
  The record of \<open>frothy_parser_t\<close>. The arrays are lists whose length is the count; the
  capacities the program keeps (\<open>literal_capacity\<close> and the others of \<open>frothy_ir_program_t\<close>) are kept
  beside it. \<open>malloc\<close> succeeds, so a step fails with \<open>FROTH_ERROR_HEAP_OUT_OF_MEMORY\<close> exactly when a
  fixed limit is exceeded. A C function that returns a status and writes one out-parameter is a
  \<open>parsing\<close>: it gives the result and the parser as it is left, on errors too; \<open>None\<close> is a loop or a
  recursion that ran out of fuel, which \<open>Frothy_Parse_Total\<close> shows never to happen.
\<close>

definition FROTHY_PARSER_BINDING_CAPACITY :: nat where "FROTHY_PARSER_BINDING_CAPACITY = 128"
definition FROTHY_PARSER_SCOPE_CAPACITY :: nat where "FROTHY_PARSER_SCOPE_CAPACITY = 32"
definition FROTHY_PARSER_FRAME_CAPACITY :: nat where "FROTHY_PARSER_FRAME_CAPACITY = 16"

record frothy_binding =
  bd_name :: "byte list"
  bd_local_index :: nat
  bd_scope_index :: nat

record frothy_frame =
  fr_scope_base :: nat
  fr_next_local_index :: nat
  fr_reject_outer_capture :: bool

record frothy_parser =
  ps_source :: "byte list"
  ps_cursor :: nat
  ps_prev_token_end :: "nat option"
  ps_prefer_block :: bool
  ps_current :: frothy_token
  ps_next :: frothy_token
  ps_program :: frothy_ir_program
  ps_literal_capacity :: nat
  ps_node_capacity :: nat
  ps_link_capacity :: nat
  ps_bindings :: "frothy_binding list"
  ps_binding_capacity :: nat
  ps_scopes :: "nat list"
  ps_scope_capacity :: nat
  ps_frames :: "frothy_frame list"
  ps_frame_capacity :: nat
  ps_active_prefix :: "byte list option"

text \<open>A scope is the index of its first binding; the last element of a list is the top of its stack.\<close>

subsection \<open>Sequencing\<close>

type_synonym 'a parsing = "frothy_parser \<Rightarrow> ('a result \<times> frothy_parser) option"

definition p_ok :: "'a \<Rightarrow> 'a parsing" where "p_ok x = (\<lambda>p. Some (Inr x, p))"
definition p_fail :: "froth_error \<Rightarrow> 'a parsing" where "p_fail e = (\<lambda>p. Some (Inl e, p))"

text \<open>\<open>p_attempt\<close> runs a step and looks at its status, \<open>p_try\<close> is \<^verbatim>\<open>FROTH_TRY\<close>.\<close>

definition p_attempt :: "'a parsing \<Rightarrow> ('a result \<Rightarrow> 'b parsing) \<Rightarrow> 'b parsing" where
  "p_attempt m k = (\<lambda>p. case m p of None \<Rightarrow> None | Some (r, p') \<Rightarrow> k r p')"

definition p_result :: "'a result \<Rightarrow> 'a parsing" where "p_result r = (\<lambda>p. Some (r, p))"

definition p_try :: "'a parsing \<Rightarrow> ('a \<Rightarrow> 'b parsing) \<Rightarrow> 'b parsing" where
  "p_try m k = p_attempt m (\<lambda>r. case r of Inl e \<Rightarrow> p_fail e | Inr x \<Rightarrow> k x)"

definition p_get :: "(frothy_parser \<Rightarrow> 'a) \<Rightarrow> ('a \<Rightarrow> 'b parsing) \<Rightarrow> 'b parsing" where
  "p_get f k = (\<lambda>p. k (f p) p)"

definition p_do :: "(frothy_parser \<Rightarrow> frothy_parser) \<Rightarrow> 'b parsing \<Rightarrow> 'b parsing" where
  "p_do f m = (\<lambda>p. m (f p))"

text \<open>\<open>p_look\<close> runs a step on a copy of the parser.\<close>

definition p_look :: "'a parsing \<Rightarrow> ('a result \<Rightarrow> 'b parsing) \<Rightarrow> 'b parsing" where
  "p_look m k = (\<lambda>p. case m p of None \<Rightarrow> None | Some (r, _) \<Rightarrow> k r p)"

text \<open>
  A loop runs its body until it gives \<open>Inr\<close>. The fuel is one more than what is left to read: the two
  tokens read ahead and the bytes behind the cursor.
\<close>

primrec p_loop :: "nat \<Rightarrow> ('s \<Rightarrow> ('s + 'b) parsing) \<Rightarrow> 's \<Rightarrow> 'b parsing" where
  "p_loop 0 body s = (\<lambda>p. None)"
| "p_loop (Suc n) body s =
     p_try (body s) (\<lambda>r. case r of Inl s' \<Rightarrow> p_loop n body s' | Inr b \<Rightarrow> p_ok b)"

definition tokens_left :: "frothy_parser \<Rightarrow> nat" where
  "tokens_left p = of_bool (tk_kind (ps_current p) \<noteq> TOKEN_EOF) +
     of_bool (tk_kind (ps_next p) \<noteq> TOKEN_EOF) + (length (ps_source p) - ps_cursor p)"

definition p_while :: "('s \<Rightarrow> ('s + 'b) parsing) \<Rightarrow> 's \<Rightarrow> 'b parsing" where
  "p_while body s = (\<lambda>p. p_loop (Suc (tokens_left p)) body s p)"

subsection \<open>Names of tokens\<close>

definition frothy_token_matches_name :: "byte list \<Rightarrow> frothy_token \<Rightarrow> byte list \<Rightarrow> bool" where
  "frothy_token_matches_name src token text \<longleftrightarrow>
     tk_kind token = TOKEN_NAME \<and> tk_length token = length text \<and> token_bytes src token = text"

definition frothy_name_has_dot :: "byte list \<Rightarrow> bool" where
  "frothy_name_has_dot name \<longleftrightarrow> DOT \<in> set name"

definition frothy_join_prefix_name :: "byte list option \<Rightarrow> byte list \<Rightarrow> byte list" where
  "frothy_join_prefix_name prefix name =
     (case prefix of
        None \<Rightarrow> name
      | Some prefix \<Rightarrow> if c_string prefix = [] then name else c_string prefix @ DOT # name)"

definition frothy_token_is_simple_name :: "byte list \<Rightarrow> frothy_token \<Rightarrow> bool" where
  "frothy_token_is_simple_name src token \<longleftrightarrow>
     tk_kind token = TOKEN_NAME \<and> tk_length token \<noteq> 0 \<and> DOT \<notin> set (token_bytes src token)"

subsection \<open>Capacities\<close>

function grow_capacity :: "nat \<Rightarrow> nat \<Rightarrow> nat \<Rightarrow> nat" where
  "grow_capacity capacity needed limit =
     (if capacity < needed \<and> 0 < capacity \<and> capacity < limit
      then grow_capacity (if limit < capacity * 2 then limit else capacity * 2) needed limit
      else capacity)"
  by pat_completeness auto
termination by (relation "measure (\<lambda>(capacity, needed, limit). limit - capacity)") auto

declare grow_capacity.simps [simp del]

text \<open>
  The C loop tests \<open>capacity < needed\<close> only; the other two conditions hold whenever it runs, since
  \<open>needed\<close> is at most the limit and the initial capacities are positive (\<open>grow_capacity_loop\<close>).
\<close>

definition frothy_capped_capacity :: "nat \<Rightarrow> nat \<Rightarrow> nat \<Rightarrow> nat \<Rightarrow> nat option" where
  "frothy_capped_capacity current needed initial limit =
     (let capacity = (if current = 0 then initial else current)
      in if limit < needed then None
         else Some (grow_capacity (if limit < capacity then limit else capacity) needed limit))"

lemma grow_capacity_loop:
  "needed \<le> limit \<Longrightarrow> 0 < capacity \<Longrightarrow> capacity \<le> limit \<Longrightarrow>
   needed \<le> grow_capacity capacity needed limit \<and> grow_capacity capacity needed limit \<le> limit"
proof (induction capacity needed limit rule: grow_capacity.induct)
  case (1 capacity needed limit)
  show ?case
  proof (cases "capacity < needed")
    case True
    then have run: "capacity < needed \<and> 0 < capacity \<and> capacity < limit" using "1.prems" by simp
    have "needed \<le> grow_capacity (if limit < capacity * 2 then limit else capacity * 2) needed limit \<and>
      grow_capacity (if limit < capacity * 2 then limit else capacity * 2) needed limit \<le> limit"
      using "1.prems" run by (intro "1.IH") auto
    then show ?thesis using run by (subst (1 2) grow_capacity.simps) simp
  next
    case False
    then show ?thesis using "1.prems" by (subst (1 2) grow_capacity.simps) simp
  qed
qed

text \<open>The six \<^verbatim>\<open>_reserve_\<close> functions: the new capacity, or the error of the fixed limit.\<close>

definition reserve_one :: "nat \<Rightarrow> nat \<Rightarrow> nat \<Rightarrow> nat \<Rightarrow> nat result" where
  "reserve_one count' capacity initial limit =
     (if limit < capacity then Inl FROTH_ERROR_HEAP_OUT_OF_MEMORY
      else if count' + 1 \<le> capacity then Inr capacity
      else
        (case frothy_capped_capacity capacity (count' + 1) initial limit of
           None \<Rightarrow> Inl FROTH_ERROR_HEAP_OUT_OF_MEMORY
         | Some capacity \<Rightarrow> Inr capacity))"

definition frothy_parser_reserve_bindings :: "unit parsing" where
  "frothy_parser_reserve_bindings = (\<lambda>p.
     case reserve_one (length (ps_bindings p)) (ps_binding_capacity p) 8
            FROTHY_PARSER_BINDING_CAPACITY of
       Inl e \<Rightarrow> Some (Inl e, p) | Inr c \<Rightarrow> Some (Inr (), p\<lparr>ps_binding_capacity := c\<rparr>))"

definition frothy_parser_reserve_scopes :: "unit parsing" where
  "frothy_parser_reserve_scopes = (\<lambda>p.
     case reserve_one (length (ps_scopes p)) (ps_scope_capacity p) 4
            FROTHY_PARSER_SCOPE_CAPACITY of
       Inl e \<Rightarrow> Some (Inl e, p) | Inr c \<Rightarrow> Some (Inr (), p\<lparr>ps_scope_capacity := c\<rparr>))"

definition frothy_parser_reserve_frames :: "unit parsing" where
  "frothy_parser_reserve_frames = (\<lambda>p.
     case reserve_one (length (ps_frames p)) (ps_frame_capacity p) 4
            FROTHY_PARSER_FRAME_CAPACITY of
       Inl e \<Rightarrow> Some (Inl e, p) | Inr c \<Rightarrow> Some (Inr (), p\<lparr>ps_frame_capacity := c\<rparr>))"

definition frothy_program_reserve_literals :: "unit parsing" where
  "frothy_program_reserve_literals = (\<lambda>p.
     case reserve_one (length (ir_literals (ps_program p))) (ps_literal_capacity p) 8
            FROTHY_IR_LITERAL_CAPACITY of
       Inl e \<Rightarrow> Some (Inl e, p) | Inr c \<Rightarrow> Some (Inr (), p\<lparr>ps_literal_capacity := c\<rparr>))"

definition frothy_program_reserve_nodes :: "unit parsing" where
  "frothy_program_reserve_nodes = (\<lambda>p.
     case reserve_one (length (ir_nodes (ps_program p))) (ps_node_capacity p) 16
            FROTHY_IR_NODE_CAPACITY of
       Inl e \<Rightarrow> Some (Inl e, p) | Inr c \<Rightarrow> Some (Inr (), p\<lparr>ps_node_capacity := c\<rparr>))"

definition frothy_program_reserve_links :: "unit parsing" where
  "frothy_program_reserve_links = (\<lambda>p.
     case reserve_one (length (ir_links (ps_program p))) (ps_link_capacity p) 16
            FROTHY_IR_LINK_CAPACITY of
       Inl e \<Rightarrow> Some (Inl e, p) | Inr c \<Rightarrow> Some (Inr (), p\<lparr>ps_link_capacity := c\<rparr>))"

subsection \<open>Literals, nodes and links\<close>

definition p_program :: "(frothy_ir_program \<Rightarrow> frothy_ir_program) \<Rightarrow> frothy_parser \<Rightarrow> frothy_parser" where
  "p_program f p = p\<lparr>ps_program := f (ps_program p)\<rparr>"

definition frothy_program_add_literal :: "frothy_ir_literal \<Rightarrow> nat parsing" where
  "frothy_program_add_literal literal =
     p_try frothy_program_reserve_literals (\<lambda>_.
     p_get (\<lambda>p. length (ir_literals (ps_program p))) (\<lambda>literal_id.
     p_do (p_program (\<lambda>g. g\<lparr>ir_literals := ir_literals g @ [literal]\<rparr>))
       (p_ok literal_id)))"

definition frothy_program_add_node :: "frothy_ir_node \<Rightarrow> node_id parsing" where
  "frothy_program_add_node node =
     p_try frothy_program_reserve_nodes (\<lambda>_.
     p_get (\<lambda>p. length (ir_nodes (ps_program p))) (\<lambda>node_id.
     p_do (p_program (\<lambda>g. g\<lparr>ir_nodes := ir_nodes g @ [node]\<rparr>))
       (p_ok node_id)))"

definition frothy_program_append_link :: "node_id \<Rightarrow> unit parsing" where
  "frothy_program_append_link node_id =
     p_try frothy_program_reserve_links (\<lambda>_.
     p_do (p_program (\<lambda>g. g\<lparr>ir_links := ir_links g @ [node_id]\<rparr>))
       (p_ok ()))"

text \<open>A node list is its items and its capacity.\<close>

type_synonym frothy_node_list = "node_id list \<times> nat"

definition empty_node_list :: frothy_node_list where "empty_node_list = ([], 0)"

definition frothy_node_list_push :: "frothy_node_list \<Rightarrow> node_id \<Rightarrow> frothy_node_list parsing" where
  "frothy_node_list_push l node_id =
     (case reserve_one (length (fst l)) (snd l) 4 FROTHY_IR_LINK_CAPACITY of
        Inl e \<Rightarrow> p_fail e | Inr capacity \<Rightarrow> p_ok (fst l @ [node_id], capacity))"

primrec append_links :: "node_id list \<Rightarrow> unit parsing" where
  "append_links [] = p_ok ()"
| "append_links (n # ns) = p_try (frothy_program_append_link n) (\<lambda>_. append_links ns)"

definition frothy_node_list_flush :: "frothy_node_list \<Rightarrow> nat parsing" where
  "frothy_node_list_flush l =
     p_get (\<lambda>p. length (ir_links (ps_program p))) (\<lambda>first.
     p_try (append_links (fst l)) (\<lambda>_. p_ok first))"

subsection \<open>Node constructors\<close>

definition frothy_make_literal_node :: "frothy_ir_literal \<Rightarrow> node_id parsing" where
  "frothy_make_literal_node literal =
     p_try (frothy_program_add_literal literal) (\<lambda>literal_id.
     frothy_program_add_node (NODE_LIT literal_id))"

definition frothy_make_int_literal_node :: "32 word \<Rightarrow> node_id parsing" where
  "frothy_make_int_literal_node v = frothy_make_literal_node (LITERAL_INT v)"

definition frothy_make_bool_literal_node :: "bool \<Rightarrow> node_id parsing" where
  "frothy_make_bool_literal_node b = frothy_make_literal_node (LITERAL_BOOL b)"

definition frothy_add_text_literal :: "byte list \<Rightarrow> nat parsing" where
  "frothy_add_text_literal text = frothy_program_add_literal (LITERAL_TEXT text)"

definition frothy_make_read_local_node :: "nat \<Rightarrow> node_id parsing" where
  "frothy_make_read_local_node i = frothy_program_add_node (NODE_READ_LOCAL i)"

definition frothy_make_write_local_node :: "nat \<Rightarrow> node_id \<Rightarrow> node_id parsing" where
  "frothy_make_write_local_node i v = frothy_program_add_node (NODE_WRITE_LOCAL i v)"

definition frothy_make_read_slot_node :: "byte list \<Rightarrow> node_id parsing" where
  "frothy_make_read_slot_node s = frothy_program_add_node (NODE_READ_SLOT s)"

definition frothy_make_read_slot_fallback_node :: "byte list \<Rightarrow> byte list \<Rightarrow> node_id parsing" where
  "frothy_make_read_slot_fallback_node s f = frothy_program_add_node (NODE_READ_SLOT_FALLBACK s f)"

definition frothy_make_write_slot_node :: "byte list \<Rightarrow> node_id \<Rightarrow> bool \<Rightarrow> node_id parsing" where
  "frothy_make_write_slot_node s v existing = frothy_program_add_node (NODE_WRITE_SLOT s v existing)"

definition frothy_make_write_slot_fallback_node ::
  "byte list \<Rightarrow> byte list \<Rightarrow> node_id \<Rightarrow> bool \<Rightarrow> node_id parsing" where
  "frothy_make_write_slot_fallback_node s f v existing =
     frothy_program_add_node (NODE_WRITE_SLOT_FALLBACK s f v existing)"

definition frothy_make_slot_designator_node :: "byte list \<Rightarrow> node_id parsing" where
  "frothy_make_slot_designator_node s = frothy_program_add_node (NODE_SLOT_DESIGNATOR s)"

definition frothy_make_record_def_node :: "byte list \<Rightarrow> nat \<Rightarrow> nat \<Rightarrow> node_id parsing" where
  "frothy_make_record_def_node s first n = frothy_program_add_node (NODE_RECORD_DEF s first n)"

definition frothy_make_read_index_node :: "node_id \<Rightarrow> node_id \<Rightarrow> node_id parsing" where
  "frothy_make_read_index_node b i = frothy_program_add_node (NODE_READ_INDEX b i)"

definition frothy_make_write_index_node :: "node_id \<Rightarrow> node_id \<Rightarrow> node_id \<Rightarrow> node_id parsing" where
  "frothy_make_write_index_node b i v = frothy_program_add_node (NODE_WRITE_INDEX b i v)"

definition frothy_make_read_field_node :: "node_id \<Rightarrow> byte list \<Rightarrow> node_id parsing" where
  "frothy_make_read_field_node b f = frothy_program_add_node (NODE_READ_FIELD b f)"

definition frothy_make_write_field_node :: "node_id \<Rightarrow> byte list \<Rightarrow> node_id \<Rightarrow> node_id parsing" where
  "frothy_make_write_field_node b f v = frothy_program_add_node (NODE_WRITE_FIELD b f v)"

definition frothy_make_fn_node :: "nat \<Rightarrow> nat \<Rightarrow> node_id \<Rightarrow> node_id parsing" where
  "frothy_make_fn_node arity locals body = frothy_program_add_node (NODE_FN arity locals body)"

definition frothy_make_call_node ::
  "frothy_ir_builtin \<Rightarrow> node_id \<Rightarrow> nat \<Rightarrow> nat \<Rightarrow> node_id parsing" where
  "frothy_make_call_node builtin callee first n =
     frothy_program_add_node (NODE_CALL builtin callee first n)"

definition frothy_make_if_node ::
  "node_id \<Rightarrow> node_id \<Rightarrow> bool \<Rightarrow> node_id \<Rightarrow> node_id parsing" where
  "frothy_make_if_node condition then_b has_else else_b =
     frothy_program_add_node (NODE_IF condition then_b else_b has_else)"

definition frothy_make_while_node :: "node_id \<Rightarrow> node_id \<Rightarrow> node_id parsing" where
  "frothy_make_while_node condition body = frothy_program_add_node (NODE_WHILE condition body)"

definition frothy_make_seq_node :: "nat \<Rightarrow> nat \<Rightarrow> node_id parsing" where
  "frothy_make_seq_node first n = frothy_program_add_node (NODE_SEQ first n)"

definition frothy_make_single_item_seq_node :: "node_id \<Rightarrow> node_id parsing" where
  "frothy_make_single_item_seq_node item =
     p_get (\<lambda>p. length (ir_links (ps_program p))) (\<lambda>first.
     p_try (frothy_program_append_link item) (\<lambda>_. frothy_make_seq_node first 1))"

definition frothy_make_top_level_write_slot_range :: "byte list \<Rightarrow> node_id \<Rightarrow> node_id parsing" where
  "frothy_make_top_level_write_slot_range name v =
     p_get ps_active_prefix (\<lambda>prefix.
     frothy_make_write_slot_node (frothy_join_prefix_name prefix name) v False)"

definition frothy_make_top_level_write_slot_token :: "frothy_token \<Rightarrow> node_id \<Rightarrow> node_id parsing" where
  "frothy_make_top_level_write_slot_token token v =
     p_get ps_source (\<lambda>src. frothy_make_top_level_write_slot_range (token_bytes src token) v)"

definition frothy_make_builtin_call :: "frothy_ir_builtin \<Rightarrow> node_id list \<Rightarrow> node_id parsing" where
  "frothy_make_builtin_call builtin args =
     p_get (\<lambda>p. length (ir_links (ps_program p))) (\<lambda>first.
     p_try (append_links args) (\<lambda>_.
     frothy_make_call_node builtin FROTHY_IR_NODE_INVALID first (length args)))"

definition frothy_make_nil_literal_node :: "node_id parsing" where
  "frothy_make_nil_literal_node = frothy_make_literal_node LITERAL_NIL"

definition frothy_make_bool_condition_node :: "node_id \<Rightarrow> node_id parsing" where
  "frothy_make_bool_condition_node condition =
     p_try (frothy_make_bool_literal_node True) (\<lambda>true_node.
     p_try (frothy_make_bool_literal_node False) (\<lambda>false_node.
     frothy_make_if_node condition true_node True false_node))"

definition frothy_make_short_circuit_node :: "bool \<Rightarrow> node_id \<Rightarrow> node_id \<Rightarrow> node_id parsing" where
  "frothy_make_short_circuit_node is_or lhs rhs =
     p_try (frothy_make_bool_literal_node True) (\<lambda>true_node.
     p_try (frothy_make_bool_literal_node False) (\<lambda>false_node.
     p_try (frothy_make_bool_condition_node rhs) (\<lambda>rhs_bool.
     if is_or then frothy_make_if_node lhs true_node True rhs_bool
     else frothy_make_if_node lhs rhs_bool True false_node)))"

subsection \<open>Moving on to the next token\<close>

text \<open>\<open>take_current\<close> is the code's copy of the current token followed by \<^verbatim>\<open>memset\<close> over it.\<close>

definition frothy_parser_advance :: "unit parsing" where
  "frothy_parser_advance = (\<lambda>p.
     let current = ps_current p;
         prev = (case tk_start current of None \<Rightarrow> None | Some start \<Rightarrow> Some (start + tk_length current));
         (r, token, cursor) = frothy_lex_next (ps_source p) (ps_cursor p)
     in Some (r, p\<lparr>ps_prev_token_end := prev, ps_current := ps_next p, ps_next := token,
                 ps_cursor := cursor\<rparr>))"

definition frothy_parser_expect :: "frothy_token_kind \<Rightarrow> unit parsing" where
  "frothy_parser_expect kind =
     p_get (\<lambda>p. tk_kind (ps_current p)) (\<lambda>k.
     if k \<noteq> kind then p_fail FROTH_ERROR_SIGNATURE else frothy_parser_advance)"

definition take_current :: "(frothy_token \<Rightarrow> 'a parsing) \<Rightarrow> 'a parsing" where
  "take_current k =
     p_get ps_current (\<lambda>token. p_do (\<lambda>p. p\<lparr>ps_current := frothy_token_clear\<rparr>) (k token))"

text \<open>Skipping the semicolons between items.\<close>

definition skip_semicolons :: "unit parsing" where
  "skip_semicolons = p_while (\<lambda>_.
     p_get (\<lambda>p. tk_kind (ps_current p)) (\<lambda>k.
     if k = TOKEN_SEMICOLON then p_try frothy_parser_advance (\<lambda>_. p_ok (Inl ()))
     else p_ok (Inr ()))) ()"

subsection \<open>Scopes, frames and names\<close>

definition frothy_push_scope :: "unit parsing" where
  "frothy_push_scope =
     p_try frothy_parser_reserve_scopes (\<lambda>_.
     p_do (\<lambda>p. p\<lparr>ps_scopes := ps_scopes p @ [length (ps_bindings p)]\<rparr>) (p_ok ()))"

definition frothy_pop_scope :: "frothy_parser \<Rightarrow> frothy_parser" where
  "frothy_pop_scope p =
     (if ps_scopes p = [] then p
      else p\<lparr>ps_bindings := take (last (ps_scopes p)) (ps_bindings p),
             ps_scopes := butlast (ps_scopes p)\<rparr>)"

definition frothy_push_frame :: "bool \<Rightarrow> unit parsing" where
  "frothy_push_frame reject =
     p_try frothy_parser_reserve_frames (\<lambda>_.
     p_do (\<lambda>p. p\<lparr>ps_frames := ps_frames p @
                  [\<lparr>fr_scope_base = length (ps_scopes p), fr_next_local_index = 0,
                    fr_reject_outer_capture = reject\<rparr>]\<rparr>) (p_ok ()))"

definition frothy_current_frame :: "frothy_parser \<Rightarrow> frothy_frame option" where
  "frothy_current_frame p = (if ps_frames p = [] then None else Some (last (ps_frames p)))"

definition frothy_pop_frame :: "frothy_parser \<Rightarrow> frothy_parser" where
  "frothy_pop_frame p = p\<lparr>ps_frames := butlast (ps_frames p)\<rparr>"

definition bump_next_local :: "frothy_parser \<Rightarrow> frothy_parser" where
  "bump_next_local p =
     (let frame = last (ps_frames p)
      in p\<lparr>ps_frames := butlast (ps_frames p) @
             [frame\<lparr>fr_next_local_index := fr_next_local_index frame + 1\<rparr>]\<rparr>)"

text \<open>Is the name among the bindings at the end of the list that belong to the scope?\<close>

definition declared_in_scope :: "frothy_binding list \<Rightarrow> nat \<Rightarrow> byte list \<Rightarrow> bool" where
  "declared_in_scope bindings scope name \<longleftrightarrow>
     name \<in> set (map bd_name (takeWhile (\<lambda>b. bd_scope_index b = scope) (rev bindings)))"

definition frothy_declare_local :: "frothy_token \<Rightarrow> nat parsing" where
  "frothy_declare_local token =
     p_get id (\<lambda>p.
     case frothy_current_frame p of
       None \<Rightarrow> p_fail FROTH_ERROR_SIGNATURE
     | Some frame \<Rightarrow>
         if ps_scopes p = [] \<or> tk_kind token \<noteq> TOKEN_NAME then p_fail FROTH_ERROR_SIGNATURE
         else
           let name = token_bytes (ps_source p) token; scope = length (ps_scopes p) - 1;
               index = fr_next_local_index frame
           in if declared_in_scope (ps_bindings p) scope name then p_fail FROTH_ERROR_SIGNATURE
              else
                p_try frothy_parser_reserve_bindings (\<lambda>_.
                p_do (\<lambda>p. bump_next_local (p\<lparr>ps_bindings := ps_bindings p @
                   [\<lparr>bd_name = name, bd_local_index = index, bd_scope_index = scope\<rparr>]\<rparr>))
                  (p_ok index)))"

definition frothy_reserve_hidden_local :: "nat parsing" where
  "frothy_reserve_hidden_local =
     p_get frothy_current_frame (\<lambda>frame.
     case frame of
       None \<Rightarrow> p_fail FROTH_ERROR_SIGNATURE
     | Some frame \<Rightarrow> p_do bump_next_local (p_ok (fr_next_local_index frame)))"

text \<open>
  From the newest binding on: those of the frame's own scopes give a local, then, under
  \<open>reject_outer_capture\<close>, a binding of an outer frame is an error. \<open>None\<close> is a slot.
\<close>

definition frothy_resolve_name :: "frothy_token \<Rightarrow> nat option parsing" where
  "frothy_resolve_name token =
     p_get id (\<lambda>p.
     case frothy_current_frame p of
       None \<Rightarrow> p_ok None
     | Some frame \<Rightarrow>
         let name = token_bytes (ps_source p) token;
             inner = (\<lambda>b. fr_scope_base frame \<le> bd_scope_index b);
             named = (\<lambda>b. bd_name b = name)
         in case find named (takeWhile inner (rev (ps_bindings p))) of
              Some b \<Rightarrow> p_ok (Some (bd_local_index b))
            | None \<Rightarrow>
                if fr_reject_outer_capture frame \<and>
                   find named (dropWhile inner (rev (ps_bindings p))) \<noteq> None
                then p_fail FROTH_ERROR_SIGNATURE
                else p_ok None)"

end
