(* ===== verification/Frothy_Parser.thy ===== *)
theory Frothy_Parser
  imports Frothy_Build
begin

section \<open>Expressions and blocks (frothy_parser.c)\<close>

text \<open>
  The recursion of the C functions goes through expressions, prefix operators and \<^verbatim>\<open>in\<close> blocks:
  \<open>parse_goal\<close> names the three, and every function takes the parser of goals it calls as \<open>rec\<close>.
  \<open>Frothy_Parse_Top\<close> ties the knot.
\<close>

datatype parse_goal = GOAL_EXPR bool | GOAL_PREFIX bool | GOAL_IN

type_synonym goal_parser = "parse_goal \<Rightarrow> node_id parsing"

definition current_kind :: "frothy_parser \<Rightarrow> frothy_token_kind" where
  "current_kind p = tk_kind (ps_current p)"

definition next_kind :: "frothy_parser \<Rightarrow> frothy_token_kind" where
  "next_kind p = tk_kind (ps_next p)"

definition current_name :: "frothy_parser \<Rightarrow> byte list" where
  "current_name p = token_bytes (ps_source p) (ps_current p)"

definition frothy_parse_expr_before_block :: "goal_parser \<Rightarrow> bool \<Rightarrow> node_id parsing" where
  "frothy_parse_expr_before_block rec allow =
     p_get ps_prefer_block (\<lambda>saved.
     p_do (\<lambda>p. p\<lparr>ps_prefer_block := True\<rparr>)
       (p_attempt (rec (GOAL_EXPR allow)) (\<lambda>r.
        p_do (\<lambda>p. p\<lparr>ps_prefer_block := saved\<rparr>) (p_result r))))"

definition frothy_token_is_block_start :: "frothy_token_kind \<Rightarrow> bool" where
  "frothy_token_is_block_start kind \<longleftrightarrow> kind = TOKEN_LBRACE \<or> kind = TOKEN_LBRACKET"

definition frothy_block_close_kind :: "frothy_token_kind \<Rightarrow> frothy_token_kind" where
  "frothy_block_close_kind kind = (if kind = TOKEN_LBRACE then TOKEN_RBRACE else TOKEN_RBRACKET)"

definition frothy_parser_expect_block_start :: "frothy_token_kind parsing" where
  "frothy_parser_expect_block_start =
     p_get current_kind (\<lambda>kind.
     if \<not> frothy_token_is_block_start kind then p_fail FROTH_ERROR_SIGNATURE
     else p_try frothy_parser_advance (\<lambda>_. p_ok (frothy_block_close_kind kind)))"

definition frothy_token_is_binding_operator :: "frothy_token_kind \<Rightarrow> bool" where
  "frothy_token_is_binding_operator kind \<longleftrightarrow> kind = TOKEN_EQUAL \<or> kind = TOKEN_KW_IS"

definition frothy_parser_expect_binding_operator :: "unit parsing" where
  "frothy_parser_expect_binding_operator =
     p_get current_kind (\<lambda>kind.
     if \<not> frothy_token_is_binding_operator kind then p_fail FROTH_ERROR_SIGNATURE
     else frothy_parser_advance)"

definition frothy_token_is_set_operator :: "frothy_token_kind \<Rightarrow> bool" where
  "frothy_token_is_set_operator kind \<longleftrightarrow> kind = TOKEN_EQUAL \<or> kind = TOKEN_KW_TO"

definition frothy_parser_expect_set_operator :: "unit parsing" where
  "frothy_parser_expect_set_operator =
     p_get current_kind (\<lambda>kind.
     if \<not> frothy_token_is_set_operator kind then p_fail FROTH_ERROR_SIGNATURE
     else frothy_parser_advance)"

definition binary_operators :: "(frothy_token_kind \<times> frothy_ir_builtin) list" where
  "binary_operators = [(TOKEN_PLUS, BUILTIN_ADD), (TOKEN_MINUS, BUILTIN_SUB), (TOKEN_STAR, BUILTIN_MUL),
     (TOKEN_SLASH, BUILTIN_DIV), (TOKEN_PERCENT, BUILTIN_REM), (TOKEN_LT, BUILTIN_LT),
     (TOKEN_LE, BUILTIN_LE), (TOKEN_GT, BUILTIN_GT), (TOKEN_GE, BUILTIN_GE), (TOKEN_EQEQ, BUILTIN_EQ),
     (TOKEN_NEQ, BUILTIN_NEQ)]"

definition frothy_token_is_binary_operator :: "frothy_token_kind \<Rightarrow> bool" where
  "frothy_token_is_binary_operator kind \<longleftrightarrow> map_of binary_operators kind \<noteq> None"

definition frothy_binary_builtin :: "frothy_token_kind \<Rightarrow> frothy_ir_builtin" where
  "frothy_binary_builtin kind =
     (case map_of binary_operators kind of None \<Rightarrow> BUILTIN_NONE | Some b \<Rightarrow> b)"

definition frothy_token_can_start_expr :: "frothy_token_kind \<Rightarrow> bool" where
  "frothy_token_can_start_expr kind \<longleftrightarrow> kind \<in> {TOKEN_NAME, TOKEN_INT, TOKEN_TEXT, TOKEN_LPAREN,
     TOKEN_AT, TOKEN_MINUS, TOKEN_KW_FN, TOKEN_KW_IF, TOKEN_KW_WHILE, TOKEN_KW_COND, TOKEN_KW_CASE,
     TOKEN_KW_WHEN, TOKEN_KW_UNLESS, TOKEN_KW_REPEAT, TOKEN_KW_TRUE, TOKEN_KW_FALSE, TOKEN_KW_NIL,
     TOKEN_KW_NOT, TOKEN_KW_CALL, TOKEN_KW_CELLS}"

subsection \<open>Binding and assignment items\<close>

datatype frothy_place =
    PLACE_LOCAL nat
  | PLACE_SLOT "byte list"
  | PLACE_SLOT_FALLBACK "byte list" "byte list"
  | PLACE_INDEX node_id node_id
  | PLACE_FIELD node_id "byte list"

fun place_of_node :: "frothy_ir_node \<Rightarrow> frothy_place option" where
  "place_of_node (NODE_READ_LOCAL i) = Some (PLACE_LOCAL i)"
| "place_of_node (NODE_READ_SLOT s) = Some (PLACE_SLOT (c_string s))"
| "place_of_node (NODE_READ_SLOT_FALLBACK s f) = Some (PLACE_SLOT_FALLBACK (c_string s) (c_string f))"
| "place_of_node (NODE_SLOT_DESIGNATOR s) = Some (PLACE_SLOT_FALLBACK (c_string s) (c_string s))"
| "place_of_node (NODE_READ_INDEX b i) = Some (PLACE_INDEX b i)"
| "place_of_node (NODE_READ_FIELD b f) = Some (PLACE_FIELD b (c_string f))"
| "place_of_node _ = None"

definition program_node :: "frothy_parser \<Rightarrow> node_id \<Rightarrow> frothy_ir_node" where
  "program_node p n = ir_nodes (ps_program p) ! n"

definition frothy_parse_place :: "goal_parser \<Rightarrow> frothy_place parsing" where
  "frothy_parse_place rec =
     p_try (rec (GOAL_EXPR False)) (\<lambda>expr.
     p_get (\<lambda>p. place_of_node (program_node p expr)) (\<lambda>place.
     case place of None \<Rightarrow> p_fail FROTH_ERROR_SIGNATURE | Some place \<Rightarrow> p_ok place))"

fun write_place :: "frothy_place \<Rightarrow> node_id \<Rightarrow> node_id parsing" where
  "write_place (PLACE_LOCAL i) v = frothy_make_write_local_node i v"
| "write_place (PLACE_SLOT s) v = frothy_make_write_slot_node s v True"
| "write_place (PLACE_SLOT_FALLBACK s f) v = frothy_make_write_slot_fallback_node s f v True"
| "write_place (PLACE_INDEX b i) v = frothy_make_write_index_node b i v"
| "write_place (PLACE_FIELD b f) v = frothy_make_write_field_node b f v"

definition frothy_parse_set_item :: "goal_parser \<Rightarrow> node_id parsing" where
  "frothy_parse_set_item rec =
     p_try (frothy_parser_expect TOKEN_KW_SET) (\<lambda>_.
     p_try (frothy_parse_place rec) (\<lambda>place.
     p_try frothy_parser_expect_set_operator (\<lambda>_.
     p_try (rec (GOAL_EXPR False)) (\<lambda>v. write_place place v))))"

definition frothy_parse_local_binding_item :: "goal_parser \<Rightarrow> frothy_token \<Rightarrow> node_id parsing" where
  "frothy_parse_local_binding_item rec token =
     p_try frothy_parser_expect_binding_operator (\<lambda>_.
     p_try (rec (GOAL_EXPR False)) (\<lambda>v.
     p_try (frothy_declare_local token) (\<lambda>i. frothy_make_write_local_node i v)))"

definition frothy_parse_here_item :: "goal_parser \<Rightarrow> node_id parsing" where
  "frothy_parse_here_item rec =
     p_try (frothy_parser_expect TOKEN_KW_HERE) (\<lambda>_.
     p_get current_kind (\<lambda>kind.
     if kind \<noteq> TOKEN_NAME then p_fail FROTH_ERROR_SIGNATURE
     else
       take_current (\<lambda>token.
       p_try frothy_parser_advance (\<lambda>_. frothy_parse_local_binding_item rec token))))"

definition frothy_parse_block_item :: "goal_parser \<Rightarrow> node_id parsing" where
  "frothy_parse_block_item rec =
     p_get current_kind (\<lambda>kind. p_get next_kind (\<lambda>next.
     if kind = TOKEN_KW_HERE then frothy_parse_here_item rec
     else if kind = TOKEN_NAME \<and> frothy_token_is_binding_operator next then
       take_current (\<lambda>token.
       p_try frothy_parser_advance (\<lambda>_. frothy_parse_local_binding_item rec token))
     else if kind = TOKEN_KW_SET then frothy_parse_set_item rec
     else if kind = TOKEN_KW_RECORD then p_fail FROTH_ERROR_TOPLEVEL_ONLY
     else rec (GOAL_EXPR False)))"

subsection \<open>Blocks\<close>

definition block_item_step ::
  "goal_parser \<Rightarrow> frothy_token_kind \<Rightarrow> frothy_node_list \<Rightarrow> (frothy_node_list + frothy_node_list) parsing"
where
  "block_item_step rec close_kind items =
     p_get current_kind (\<lambda>kind.
     if kind = close_kind then p_ok (Inr items)
     else if kind = TOKEN_EOF then p_fail FROTH_ERROR_SIGNATURE
     else if kind = TOKEN_SEMICOLON then p_try frothy_parser_advance (\<lambda>_. p_ok (Inl items))
     else
       p_try (frothy_parse_block_item rec) (\<lambda>item.
       p_try (frothy_node_list_push items item) (\<lambda>items.
       p_try skip_semicolons (\<lambda>_. p_ok (Inl items)))))"

definition frothy_parse_block_contents_until ::
  "goal_parser \<Rightarrow> frothy_token_kind \<Rightarrow> node_id parsing" where
  "frothy_parse_block_contents_until rec close_kind =
     p_try (p_while (block_item_step rec close_kind) empty_node_list) (\<lambda>items.
     p_try (frothy_parser_expect close_kind) (\<lambda>_.
     p_try (frothy_node_list_flush items) (\<lambda>first.
     frothy_make_seq_node first (length (fst items)))))"

text \<open>The contents of a block whose scope is pushed, and the scope popped whatever the status.\<close>

definition frothy_parse_block :: "goal_parser \<Rightarrow> node_id parsing" where
  "frothy_parse_block rec =
     p_try frothy_parser_expect_block_start (\<lambda>close_kind.
     p_try frothy_push_scope (\<lambda>_.
     p_attempt (frothy_parse_block_contents_until rec close_kind) (\<lambda>r.
     p_do frothy_pop_scope (p_result r))))"

subsection \<open>Functions\<close>

definition parameter_step :: "nat \<Rightarrow> (nat + nat) parsing" where
  "parameter_step arity =
     p_get current_kind (\<lambda>kind.
     if kind \<noteq> TOKEN_NAME then p_fail FROTH_ERROR_SIGNATURE
     else
       take_current (\<lambda>token.
       p_try frothy_parser_advance (\<lambda>_.
       p_try (frothy_declare_local token) (\<lambda>_.
       p_get current_kind (\<lambda>kind.
       if kind \<noteq> TOKEN_COMMA then p_ok (Inr (arity + 1))
       else p_try frothy_parser_advance (\<lambda>_. p_ok (Inl (arity + 1))))))))"

definition frothy_parse_parameter_list :: "nat parsing" where
  "frothy_parse_parameter_list =
     p_try (frothy_parser_expect TOKEN_LPAREN) (\<lambda>_.
     p_try (p_while (\<lambda>arity. p_get current_kind (\<lambda>kind.
              if kind = TOKEN_RPAREN then p_ok (Inr arity) else parameter_step arity)) 0) (\<lambda>arity.
     p_try (frothy_parser_expect TOKEN_RPAREN) (\<lambda>_. p_ok arity)))"

definition frothy_parse_with_parameter_list :: "nat parsing" where
  "frothy_parse_with_parameter_list =
     p_try (frothy_parser_expect TOKEN_KW_WITH) (\<lambda>_. p_while parameter_step 0)"

datatype frothy_fn_params_kind = FN_PARAMS_NONE | FN_PARAMS_LIST | FN_PARAMS_WITH
datatype frothy_fn_body_kind = FN_BODY_BLOCK | FN_BODY_EXPR

text \<open>
  The status of \<open>frothy_parse_parameter_list\<close> is not tested: after an error the arity is still 0, and
  the body is parsed from where the list stopped.
\<close>

definition parse_fn_params :: "frothy_fn_params_kind \<Rightarrow> nat parsing" where
  "parse_fn_params params_kind =
     (case params_kind of
        FN_PARAMS_NONE \<Rightarrow> p_ok 0
      | FN_PARAMS_LIST \<Rightarrow> p_attempt frothy_parse_parameter_list (\<lambda>r.
          p_ok (case r of Inl _ \<Rightarrow> 0 | Inr arity \<Rightarrow> arity))
      | FN_PARAMS_WITH \<Rightarrow> frothy_parse_with_parameter_list)"

definition parse_fn_body :: "goal_parser \<Rightarrow> frothy_fn_body_kind \<Rightarrow> node_id parsing" where
  "parse_fn_body rec body_kind =
     (case body_kind of
        FN_BODY_BLOCK \<Rightarrow> frothy_parse_block rec
      | FN_BODY_EXPR \<Rightarrow>
          p_try (frothy_parser_expect TOKEN_EQUAL) (\<lambda>_.
          p_try (rec (GOAL_EXPR False)) (\<lambda>expr_body.
          frothy_make_single_item_seq_node expr_body)))"

text \<open>Arity, local count and body of the function, inside its frame and scope.\<close>

definition parse_fn_inner ::
  "goal_parser \<Rightarrow> frothy_fn_params_kind \<Rightarrow> frothy_fn_body_kind \<Rightarrow> (nat \<times> nat \<times> node_id) parsing" where
  "parse_fn_inner rec params_kind body_kind =
     p_try (parse_fn_params params_kind) (\<lambda>arity.
     p_try (parse_fn_body rec body_kind) (\<lambda>body.
     p_get (\<lambda>p. fr_next_local_index (last (ps_frames p))) (\<lambda>local_count.
     p_ok (arity, local_count, body))))"

definition frothy_parse_fn_node ::
  "goal_parser \<Rightarrow> frothy_fn_params_kind \<Rightarrow> frothy_fn_body_kind \<Rightarrow> node_id parsing" where
  "frothy_parse_fn_node rec params_kind body_kind =
     p_try (frothy_push_frame True) (\<lambda>_.
     p_attempt frothy_push_scope (\<lambda>r.
     case r of
       Inl e \<Rightarrow> p_do frothy_pop_frame (p_fail e)
     | Inr _ \<Rightarrow>
         p_attempt (parse_fn_inner rec params_kind body_kind) (\<lambda>r.
         p_do (\<lambda>p. frothy_pop_frame (frothy_pop_scope p))
           (p_try (p_result r) (\<lambda>(arity, local_count, body).
            frothy_make_fn_node arity local_count body)))))"

definition frothy_parse_fn :: "goal_parser \<Rightarrow> node_id parsing" where
  "frothy_parse_fn rec =
     p_try (frothy_parser_expect TOKEN_KW_FN) (\<lambda>_.
     p_get current_kind (\<lambda>kind.
     if kind = TOKEN_LPAREN then frothy_parse_fn_node rec FN_PARAMS_LIST FN_BODY_BLOCK
     else if kind = TOKEN_KW_WITH then frothy_parse_fn_node rec FN_PARAMS_WITH FN_BODY_BLOCK
     else if frothy_token_is_block_start kind then frothy_parse_fn_node rec FN_PARAMS_NONE FN_BODY_BLOCK
     else p_fail FROTH_ERROR_SIGNATURE))"

subsection \<open>Conditionals and loops\<close>

definition frothy_parse_if :: "goal_parser \<Rightarrow> node_id parsing" where
  "frothy_parse_if rec =
     p_try (frothy_parser_expect TOKEN_KW_IF) (\<lambda>_.
     p_try (frothy_parse_expr_before_block rec False) (\<lambda>condition.
     p_try (frothy_parse_block rec) (\<lambda>then_b.
     p_get current_kind (\<lambda>kind.
     if kind = TOKEN_KW_ELSE then
       p_try frothy_parser_advance (\<lambda>_.
       p_try (frothy_parse_block rec) (\<lambda>else_b. frothy_make_if_node condition then_b True else_b))
     else frothy_make_if_node condition then_b False FROTHY_IR_NODE_INVALID))))"

definition frothy_parse_while :: "goal_parser \<Rightarrow> node_id parsing" where
  "frothy_parse_while rec =
     p_try (frothy_parser_expect TOKEN_KW_WHILE) (\<lambda>_.
     p_try (frothy_parse_expr_before_block rec False) (\<lambda>condition.
     p_try (frothy_parse_block rec) (\<lambda>body. frothy_make_while_node condition body)))"

definition frothy_parse_when :: "goal_parser \<Rightarrow> node_id parsing" where
  "frothy_parse_when rec =
     p_try (frothy_parser_expect TOKEN_KW_WHEN) (\<lambda>_.
     p_try (frothy_parse_expr_before_block rec False) (\<lambda>condition.
     p_try (frothy_parse_block rec) (\<lambda>body.
     frothy_make_if_node condition body False FROTHY_IR_NODE_INVALID)))"

definition frothy_parse_unless :: "goal_parser \<Rightarrow> node_id parsing" where
  "frothy_parse_unless rec =
     p_try (frothy_parser_expect TOKEN_KW_UNLESS) (\<lambda>_.
     p_try (frothy_parse_expr_before_block rec False) (\<lambda>condition.
     p_try (frothy_make_builtin_call BUILTIN_NOT [condition]) (\<lambda>negated.
     p_try (frothy_parse_block rec) (\<lambda>body.
     frothy_make_if_node negated body False FROTHY_IR_NODE_INVALID))))"

text \<open>
  The branches of \<open>cond\<close> and \<open>case\<close>: conditions (or match values) and bodies, and the \<open>else\<close> body.
\<close>

type_synonym branches = "frothy_node_list \<times> frothy_node_list"

definition else_branch_step ::
  "goal_parser \<Rightarrow> frothy_token_kind \<Rightarrow> branches \<Rightarrow> (branches + branches \<times> node_id option) parsing" where
  "else_branch_step rec close_kind bs =
     (if fst (fst bs) = [] then p_fail FROTH_ERROR_SIGNATURE
      else
        p_try frothy_parser_advance (\<lambda>_.
        p_try (frothy_parse_block rec) (\<lambda>else_body.
        p_try skip_semicolons (\<lambda>_.
        p_get current_kind (\<lambda>kind.
        if kind \<noteq> close_kind then p_fail FROTH_ERROR_SIGNATURE
        else p_ok (Inr (bs, Some else_body)))))))"

definition push_branch ::
  "branches \<Rightarrow> node_id \<Rightarrow> node_id \<Rightarrow> (branches + branches \<times> node_id option) parsing" where
  "push_branch bs condition body =
     p_try (frothy_node_list_push (fst bs) condition) (\<lambda>conditions.
     p_try (frothy_node_list_push (snd bs) body) (\<lambda>bodies.
     p_try skip_semicolons (\<lambda>_. p_ok (Inl (conditions, bodies)))))"

definition cond_step ::
  "goal_parser \<Rightarrow> frothy_token_kind \<Rightarrow> branches \<Rightarrow> (branches + branches \<times> node_id option) parsing" where
  "cond_step rec close_kind bs =
     p_get current_kind (\<lambda>kind.
     if kind = close_kind then p_ok (Inr (bs, None))
     else if kind = TOKEN_EOF then p_fail FROTH_ERROR_SIGNATURE
     else if kind = TOKEN_SEMICOLON then p_try frothy_parser_advance (\<lambda>_. p_ok (Inl bs))
     else if kind = TOKEN_KW_ELSE then else_branch_step rec close_kind bs
     else if kind \<noteq> TOKEN_KW_WHEN then p_fail FROTH_ERROR_SIGNATURE
     else
       p_try frothy_parser_advance (\<lambda>_.
       p_try (frothy_parse_expr_before_block rec False) (\<lambda>condition.
       p_try (frothy_parse_block rec) (\<lambda>body. push_branch bs condition body))))"

definition chain_start :: "node_id option \<Rightarrow> node_id parsing" where
  "chain_start else_body =
     (case else_body of Some n \<Rightarrow> p_ok n | None \<Rightarrow> frothy_make_nil_literal_node)"

text \<open>The chain of \<open>if\<close> nodes is built from the last branch to the first.\<close>

fun cond_chain :: "(node_id \<times> node_id) list \<Rightarrow> node_id \<Rightarrow> node_id parsing" where
  "cond_chain [] chain = p_ok chain"
| "cond_chain ((condition, body) # rest) chain =
     p_try (frothy_make_if_node condition body True chain) (\<lambda>chain. cond_chain rest chain)"

definition frothy_parse_cond :: "goal_parser \<Rightarrow> node_id parsing" where
  "frothy_parse_cond rec =
     p_try (frothy_parser_expect TOKEN_KW_COND) (\<lambda>_.
     p_try frothy_parser_expect_block_start (\<lambda>close_kind.
     p_try (p_while (cond_step rec close_kind) (empty_node_list, empty_node_list))
       (\<lambda>(bs, else_body).
     p_try (frothy_parser_expect close_kind) (\<lambda>_.
     p_try (chain_start else_body) (\<lambda>chain.
     cond_chain (rev (zip (fst (fst bs)) (fst (snd bs)))) chain)))))"

text \<open>The literal at the current token, the node built, and the token consumed.\<close>

definition literal_and_advance :: "frothy_ir_literal \<Rightarrow> node_id parsing" where
  "literal_and_advance literal =
     p_try (frothy_make_literal_node literal) (\<lambda>n.
     p_try frothy_parser_advance (\<lambda>_. p_ok n))"

definition simple_literal :: "frothy_token \<Rightarrow> frothy_ir_literal option" where
  "simple_literal token =
     (case tk_kind token of
        TOKEN_INT \<Rightarrow> Some (LITERAL_INT (tk_int_value token))
      | TOKEN_TEXT \<Rightarrow> Some (LITERAL_TEXT (c_string (tk_owned_text token)))
      | TOKEN_KW_TRUE \<Rightarrow> Some (LITERAL_BOOL True)
      | TOKEN_KW_FALSE \<Rightarrow> Some (LITERAL_BOOL False)
      | TOKEN_KW_NIL \<Rightarrow> Some LITERAL_NIL
      | _ \<Rightarrow> None)"

definition frothy_parse_case_literal :: "node_id parsing" where
  "frothy_parse_case_literal =
     p_get ps_current (\<lambda>token.
     if tk_kind token = TOKEN_MINUS then
       p_try frothy_parser_advance (\<lambda>_.
       p_get ps_current (\<lambda>token.
       if tk_kind token \<noteq> TOKEN_INT then p_fail FROTH_ERROR_SIGNATURE
       else literal_and_advance (LITERAL_INT (- tk_int_value token))))
     else
       (case simple_literal token of
          Some literal \<Rightarrow> literal_and_advance literal
        | None \<Rightarrow> p_fail FROTH_ERROR_SIGNATURE))"

definition case_step ::
  "goal_parser \<Rightarrow> frothy_token_kind \<Rightarrow> branches \<Rightarrow> (branches + branches \<times> node_id option) parsing" where
  "case_step rec close_kind bs =
     p_get current_kind (\<lambda>kind.
     if kind = close_kind then p_ok (Inr (bs, None))
     else if kind = TOKEN_EOF then p_fail FROTH_ERROR_SIGNATURE
     else if kind = TOKEN_SEMICOLON then p_try frothy_parser_advance (\<lambda>_. p_ok (Inl bs))
     else if kind = TOKEN_KW_ELSE then else_branch_step rec close_kind bs
     else
       p_try frothy_parse_case_literal (\<lambda>match_value.
       p_try (frothy_parse_block rec) (\<lambda>body. push_branch bs match_value body)))"

fun case_chain :: "nat \<Rightarrow> (node_id \<times> node_id) list \<Rightarrow> node_id \<Rightarrow> node_id parsing" where
  "case_chain hidden [] chain = p_ok chain"
| "case_chain hidden ((match_value, body) # rest) chain =
     p_try (frothy_make_read_local_node hidden) (\<lambda>scrutinee_read.
     p_try (frothy_make_builtin_call BUILTIN_EQ [scrutinee_read, match_value]) (\<lambda>condition.
     p_try (frothy_make_if_node condition body True chain) (\<lambda>chain. case_chain hidden rest chain)))"

definition push_all :: "node_id list \<Rightarrow> frothy_node_list parsing" where
  "push_all ns = foldl (\<lambda>m n. p_try m (\<lambda>items. frothy_node_list_push items n)) (p_ok empty_node_list) ns"

text \<open>Pushing nodes on a list, flushing it and making a sequence of it.\<close>

definition make_seq_of :: "node_id list \<Rightarrow> node_id parsing" where
  "make_seq_of ns =
     p_try (push_all ns) (\<lambda>items.
     p_try (frothy_node_list_flush items) (\<lambda>first.
     frothy_make_seq_node first (length (fst items))))"

definition frothy_parse_case :: "goal_parser \<Rightarrow> node_id parsing" where
  "frothy_parse_case rec =
     p_try (frothy_parser_expect TOKEN_KW_CASE) (\<lambda>_.
     p_try (frothy_parse_expr_before_block rec False) (\<lambda>scrutinee.
     p_try frothy_parser_expect_block_start (\<lambda>close_kind.
     p_try (p_while (case_step rec close_kind) (empty_node_list, empty_node_list))
       (\<lambda>(bs, else_body).
     p_try (frothy_parser_expect close_kind) (\<lambda>_.
     p_try frothy_reserve_hidden_local (\<lambda>hidden.
     p_try (frothy_make_write_local_node hidden scrutinee) (\<lambda>scrutinee_init.
     p_try (chain_start else_body) (\<lambda>chain.
     p_try (case_chain hidden (rev (zip (fst (fst bs)) (fst (snd bs)))) chain) (\<lambda>chain.
     make_seq_of [scrutinee_init, chain])))))))))"

text \<open>
  \<open>repeat\<close>: a hidden limit and counter, and a \<open>while\<close> whose body copies the counter into the index
  variable, runs the block and increments the counter.
\<close>

definition build_repeat :: "node_id \<Rightarrow> nat option \<Rightarrow> node_id \<Rightarrow> node_id parsing" where
  "build_repeat count_expr index_local body =
     p_try frothy_reserve_hidden_local (\<lambda>limit_local.
     p_try frothy_reserve_hidden_local (\<lambda>counter_local.
     p_try (frothy_make_write_local_node limit_local count_expr) (\<lambda>limit_init.
     p_try (frothy_make_int_literal_node 0) (\<lambda>zero_node.
     p_try (frothy_make_write_local_node counter_local zero_node) (\<lambda>counter_init.
     p_try (frothy_make_read_local_node counter_local) (\<lambda>counter_read.
     p_try (frothy_make_read_local_node limit_local) (\<lambda>limit_read.
     p_try (frothy_make_builtin_call BUILTIN_LT [counter_read, limit_read]) (\<lambda>loop_condition.
     p_try
       (case index_local of
          None \<Rightarrow> p_ok []
        | Some i \<Rightarrow>
            p_try (frothy_make_read_local_node counter_local) (\<lambda>counter_for_index.
            p_try (frothy_make_write_local_node i counter_for_index) (\<lambda>prelude_node.
            p_ok [prelude_node]))) (\<lambda>prelude.
     p_try (frothy_make_int_literal_node 1) (\<lambda>one_node.
     p_try (frothy_make_read_local_node counter_local) (\<lambda>counter_for_add.
     p_try (frothy_make_builtin_call BUILTIN_ADD [counter_for_add, one_node]) (\<lambda>increment_value.
     p_try (frothy_make_write_local_node counter_local increment_value) (\<lambda>increment_node.
     p_try (make_seq_of (prelude @ [body, increment_node])) (\<lambda>while_body.
     p_try (frothy_make_while_node loop_condition while_body) (\<lambda>while_node.
     make_seq_of [limit_init, counter_init, while_node])))))))))))))))"

definition parse_repeat_index :: "frothy_token option parsing" where
  "parse_repeat_index =
     p_get current_kind (\<lambda>kind.
     if kind \<noteq> TOKEN_KW_AS then p_ok None
     else
       p_try frothy_parser_advance (\<lambda>_.
       p_get current_kind (\<lambda>kind.
       if kind \<noteq> TOKEN_NAME then p_fail FROTH_ERROR_SIGNATURE
       else take_current (\<lambda>token. p_try frothy_parser_advance (\<lambda>_. p_ok (Some token))))))"

definition declare_index :: "frothy_token option \<Rightarrow> nat option parsing" where
  "declare_index token =
     (case token of
        None \<Rightarrow> p_ok None
      | Some token \<Rightarrow> p_try (frothy_declare_local token) (\<lambda>i. p_ok (Some i)))"

definition frothy_parse_repeat :: "goal_parser \<Rightarrow> node_id parsing" where
  "frothy_parse_repeat rec =
     p_try (frothy_parser_expect TOKEN_KW_REPEAT) (\<lambda>_.
     p_try (frothy_parse_expr_before_block rec False) (\<lambda>count_expr.
     p_try parse_repeat_index (\<lambda>index_name.
     p_try frothy_parser_expect_block_start (\<lambda>close_kind.
     p_try frothy_push_scope (\<lambda>_.
     p_try (declare_index index_name) (\<lambda>index_local.
     p_attempt (frothy_parse_block_contents_until rec close_kind) (\<lambda>r.
     p_do frothy_pop_scope
       (p_try (p_result r) (\<lambda>body. build_repeat count_expr index_local body)))))))))"

subsection \<open>Calls and primary expressions\<close>

definition frothy_parse_cells :: "bool \<Rightarrow> node_id parsing" where
  "frothy_parse_cells allow =
     (if \<not> allow then p_fail FROTH_ERROR_TOPLEVEL_ONLY
      else
        p_try (frothy_parser_expect TOKEN_KW_CELLS) (\<lambda>_.
        p_try (frothy_parser_expect TOKEN_LPAREN) (\<lambda>_.
        p_get ps_current (\<lambda>token.
        if tk_kind token \<noteq> TOKEN_INT \<or> sint (tk_int_value token) \<le> 0 then p_fail FROTH_ERROR_BOUNDS
        else
          p_try (frothy_make_literal_node (LITERAL_INT (tk_int_value token))) (\<lambda>arg_node.
          p_try frothy_parser_advance (\<lambda>_.
          p_try (frothy_parser_expect TOKEN_RPAREN) (\<lambda>_.
          frothy_make_builtin_call BUILTIN_CELLS [arg_node])))))))"

definition argument_step :: "goal_parser \<Rightarrow> frothy_node_list \<Rightarrow> (frothy_node_list + frothy_node_list) parsing"
where
  "argument_step rec args =
     p_try (rec (GOAL_EXPR False)) (\<lambda>arg.
     p_try (frothy_node_list_push args arg) (\<lambda>args.
     p_get current_kind (\<lambda>kind.
     if kind \<noteq> TOKEN_COMMA then p_ok (Inr args)
     else p_try frothy_parser_advance (\<lambda>_. p_ok (Inl args)))))"

definition frothy_parse_call_expr :: "goal_parser \<Rightarrow> node_id parsing" where
  "frothy_parse_call_expr rec =
     p_try (frothy_parser_expect TOKEN_KW_CALL) (\<lambda>_.
     p_try (rec (GOAL_EXPR False)) (\<lambda>callee.
     p_try (frothy_parser_expect TOKEN_KW_WITH) (\<lambda>_.
     p_get current_kind (\<lambda>kind.
     if \<not> frothy_token_can_start_expr kind then p_fail FROTH_ERROR_SIGNATURE
     else
       p_try (p_while (argument_step rec) empty_node_list) (\<lambda>args.
       p_try (frothy_node_list_flush args) (\<lambda>first_arg.
       frothy_make_call_node BUILTIN_NONE callee first_arg (length (fst args))))))))"

definition parse_name_primary :: "node_id parsing" where
  "parse_name_primary =
     take_current (\<lambda>token.
     p_try frothy_parser_advance (\<lambda>_.
     p_try (frothy_resolve_name token) (\<lambda>resolved.
     case resolved of
       Some i \<Rightarrow> frothy_make_read_local_node i
     | None \<Rightarrow>
         p_get (\<lambda>p. token_bytes (ps_source p) token) (\<lambda>name.
         p_get ps_active_prefix (\<lambda>prefix.
         if prefix \<noteq> None \<and> \<not> frothy_name_has_dot name
         then frothy_make_read_slot_fallback_node (frothy_join_prefix_name prefix name) name
         else frothy_make_read_slot_node name)))))"

definition parse_designator :: "node_id parsing" where
  "parse_designator =
     p_try frothy_parser_advance (\<lambda>_.
     p_get id (\<lambda>p.
     if current_kind p \<noteq> TOKEN_NAME then p_fail FROTH_ERROR_SIGNATURE
     else p_try frothy_parser_advance (\<lambda>_. frothy_make_slot_designator_node (current_name p))))"

definition parse_parenthesized :: "goal_parser \<Rightarrow> node_id parsing" where
  "parse_parenthesized rec =
     p_try frothy_parser_advance (\<lambda>_.
     p_try (rec (GOAL_EXPR False)) (\<lambda>n.
     p_try (frothy_parser_expect TOKEN_RPAREN) (\<lambda>_. p_ok n)))"

definition frothy_parse_primary :: "goal_parser \<Rightarrow> bool \<Rightarrow> node_id parsing" where
  "frothy_parse_primary rec allow =
     p_get ps_current (\<lambda>token.
     case simple_literal token of
       Some literal \<Rightarrow> literal_and_advance literal
     | None \<Rightarrow>
        (case tk_kind token of
           TOKEN_NAME \<Rightarrow> parse_name_primary
         | TOKEN_AT \<Rightarrow> parse_designator
         | TOKEN_LPAREN \<Rightarrow> parse_parenthesized rec
         | TOKEN_KW_FN \<Rightarrow> frothy_parse_fn rec
         | TOKEN_KW_IF \<Rightarrow> frothy_parse_if rec
         | TOKEN_KW_WHILE \<Rightarrow> frothy_parse_while rec
         | TOKEN_KW_COND \<Rightarrow> frothy_parse_cond rec
         | TOKEN_KW_CASE \<Rightarrow> frothy_parse_case rec
         | TOKEN_KW_WHEN \<Rightarrow> frothy_parse_when rec
         | TOKEN_KW_UNLESS \<Rightarrow> frothy_parse_unless rec
         | TOKEN_KW_REPEAT \<Rightarrow> frothy_parse_repeat rec
         | TOKEN_KW_CALL \<Rightarrow> frothy_parse_call_expr rec
         | TOKEN_KW_CELLS \<Rightarrow> frothy_parse_cells allow
         | TOKEN_KW_RECORD \<Rightarrow> p_fail FROTH_ERROR_TOPLEVEL_ONLY
         | _ \<Rightarrow> p_fail FROTH_ERROR_SIGNATURE))"

subsection \<open>Postfix, prefix and binary operators\<close>

definition is_designator :: "frothy_ir_node \<Rightarrow> bool" where
  "is_designator nd = (case nd of NODE_SLOT_DESIGNATOR _ \<Rightarrow> True | _ \<Rightarrow> False)"

definition not_designator :: "node_id \<Rightarrow> 'a parsing \<Rightarrow> 'a parsing" where
  "not_designator n m =
     p_get (\<lambda>p. is_designator (program_node p n)) (\<lambda>d.
     if d then p_fail FROTH_ERROR_SIGNATURE else m)"

definition parse_call_suffix :: "goal_parser \<Rightarrow> node_id \<Rightarrow> node_id parsing" where
  "parse_call_suffix rec callee =
     not_designator callee
       (p_try frothy_parser_advance (\<lambda>_.
        p_try (p_while (\<lambda>args. p_get current_kind (\<lambda>kind.
                 if kind = TOKEN_RPAREN then p_ok (Inr args) else argument_step rec args))
                 empty_node_list) (\<lambda>args.
        p_try (frothy_parser_expect TOKEN_RPAREN) (\<lambda>_.
        p_try (frothy_node_list_flush args) (\<lambda>first_arg.
        frothy_make_call_node BUILTIN_NONE callee first_arg (length (fst args)))))))"

definition parse_colon_suffix :: "goal_parser \<Rightarrow> node_id \<Rightarrow> node_id parsing" where
  "parse_colon_suffix rec callee =
     not_designator callee
       (p_get (\<lambda>p. length (ir_links (ps_program p))) (\<lambda>first_arg.
        p_try frothy_parser_advance (\<lambda>_.
        p_get current_kind (\<lambda>kind.
        if frothy_token_can_start_expr kind then
          p_try (p_while (argument_step rec) empty_node_list) (\<lambda>args.
          p_try (frothy_node_list_flush args) (\<lambda>first_arg.
          frothy_make_call_node BUILTIN_NONE callee first_arg (length (fst args))))
        else frothy_make_call_node BUILTIN_NONE callee first_arg 0))))"

definition parse_field_suffix :: "node_id \<Rightarrow> node_id parsing" where
  "parse_field_suffix base =
     p_try frothy_parser_advance (\<lambda>_.
     p_get id (\<lambda>p.
     if \<not> frothy_token_is_simple_name (ps_source p) (ps_current p) then p_fail FROTH_ERROR_SIGNATURE
     else p_try frothy_parser_advance (\<lambda>_. frothy_make_read_field_node base (current_name p))))"

definition parse_index_suffix :: "goal_parser \<Rightarrow> node_id \<Rightarrow> node_id parsing" where
  "parse_index_suffix rec base =
     not_designator base
       (p_try frothy_parser_advance (\<lambda>_.
        p_try (rec (GOAL_EXPR False)) (\<lambda>index.
        p_try (frothy_parser_expect TOKEN_RBRACKET) (\<lambda>_.
        frothy_make_read_index_node base index))))"

text \<open>A bracket that does not follow the previous token at once starts a block.\<close>

definition bracket_starts_block :: "frothy_parser \<Rightarrow> bool" where
  "bracket_starts_block p \<longleftrightarrow> ps_prefer_block p \<and> ps_prev_token_end p \<noteq> tk_start (ps_current p)"

definition again :: "'a parsing \<Rightarrow> ('a + 'b) parsing" where
  "again m = p_try m (\<lambda>x. p_ok (Inl x))"

definition postfix_step :: "goal_parser \<Rightarrow> node_id \<Rightarrow> (node_id + node_id) parsing" where
  "postfix_step rec n =
     p_get current_kind (\<lambda>kind.
     if kind = TOKEN_LPAREN then again (parse_call_suffix rec n)
     else if kind = TOKEN_COLON then again (parse_colon_suffix rec n)
     else if kind = TOKEN_ARROW then again (parse_field_suffix n)
     else if kind = TOKEN_LBRACKET then
       p_get bracket_starts_block (\<lambda>block.
       if block then p_ok (Inr n) else again (parse_index_suffix rec n))
     else p_ok (Inr n))"

definition frothy_parse_postfix :: "goal_parser \<Rightarrow> bool \<Rightarrow> node_id parsing" where
  "frothy_parse_postfix rec allow =
     p_try (frothy_parse_primary rec allow) (\<lambda>n. p_while (postfix_step rec) n)"

definition frothy_parse_prefix :: "goal_parser \<Rightarrow> bool \<Rightarrow> node_id parsing" where
  "frothy_parse_prefix rec allow =
     p_get current_kind (\<lambda>kind.
     if kind = TOKEN_MINUS then
       p_try frothy_parser_advance (\<lambda>_.
       p_try (rec (GOAL_PREFIX False)) (\<lambda>operand. frothy_make_builtin_call BUILTIN_NEGATE [operand]))
     else if kind = TOKEN_KW_NOT then
       p_try frothy_parser_advance (\<lambda>_.
       p_try (rec (GOAL_PREFIX False)) (\<lambda>operand. frothy_make_builtin_call BUILTIN_NOT [operand]))
     else frothy_parse_postfix rec allow)"

definition binary_step :: "goal_parser \<Rightarrow> node_id \<Rightarrow> (node_id + node_id) parsing" where
  "binary_step rec lhs =
     p_get current_kind (\<lambda>kind.
     if \<not> frothy_token_is_binary_operator kind then p_ok (Inr lhs)
     else
       p_try frothy_parser_advance (\<lambda>_.
       p_try (frothy_parse_prefix rec False) (\<lambda>rhs.
       p_try (frothy_make_builtin_call (frothy_binary_builtin kind) [lhs, rhs]) (\<lambda>lhs.
       p_ok (Inl lhs)))))"

definition frothy_parse_binary_expr :: "goal_parser \<Rightarrow> bool \<Rightarrow> node_id parsing" where
  "frothy_parse_binary_expr rec allow =
     p_try (frothy_parse_prefix rec allow) (\<lambda>lhs. p_while (binary_step rec) lhs)"

definition and_step :: "goal_parser \<Rightarrow> node_id \<Rightarrow> (node_id + node_id) parsing" where
  "and_step rec lhs =
     p_get current_kind (\<lambda>kind.
     if kind \<noteq> TOKEN_KW_AND then p_ok (Inr lhs)
     else
       p_try frothy_parser_advance (\<lambda>_.
       p_try (frothy_parse_binary_expr rec False) (\<lambda>rhs.
       p_try (frothy_make_short_circuit_node False lhs rhs) (\<lambda>lhs. p_ok (Inl lhs)))))"

definition frothy_parse_and_expr :: "goal_parser \<Rightarrow> bool \<Rightarrow> node_id parsing" where
  "frothy_parse_and_expr rec allow =
     p_try (frothy_parse_binary_expr rec allow) (\<lambda>lhs. p_while (and_step rec) lhs)"

definition or_step :: "goal_parser \<Rightarrow> node_id \<Rightarrow> (node_id + node_id) parsing" where
  "or_step rec lhs =
     p_get current_kind (\<lambda>kind.
     if kind \<noteq> TOKEN_KW_OR then p_ok (Inr lhs)
     else
       p_try frothy_parser_advance (\<lambda>_.
       p_try (frothy_parse_and_expr rec False) (\<lambda>rhs.
       p_try (frothy_make_short_circuit_node True lhs rhs) (\<lambda>lhs. p_ok (Inl lhs)))))"

definition frothy_parse_expr :: "goal_parser \<Rightarrow> bool \<Rightarrow> node_id parsing" where
  "frothy_parse_expr rec allow =
     p_try (frothy_parse_and_expr rec allow) (\<lambda>lhs. p_while (or_step rec) lhs)"

end
