(* ===== verification/Frothy_Program_Wf.thy ===== *)
theory Frothy_Program_Wf
  imports Frothy_IR "HOL-Library.Sublist"
begin

section \<open>Well-formed programs\<close>

text \<open>
  What the evaluator and the codec rely on in an IR program: every index a node carries is in
  range, children come before their parents, the fields of a record definition are distinct texts,
  a built-in call has as many arguments as the built-in takes, and a function's body uses only the
  locals the function declares. \<open>program_extends\<close> is the order in which the parser grows a program.
\<close>

definition link_range :: "frothy_ir_program \<Rightarrow> nat \<Rightarrow> nat \<Rightarrow> nat list" where
  "link_range g first n = take n (drop first (ir_links g))"

definition builtin_arity :: "frothy_ir_builtin \<Rightarrow> nat" where
  "builtin_arity b = (if b \<in> {BUILTIN_CELLS, BUILTIN_NOT, BUILTIN_NEGATE} then 1 else 2)"

fun literal_text :: "frothy_ir_literal \<Rightarrow> byte list option" where
  "literal_text (LITERAL_TEXT t) = Some (c_string t)"
| "literal_text _ = None"

definition field_texts :: "frothy_ir_program \<Rightarrow> nat \<Rightarrow> nat \<Rightarrow> byte list option list" where
  "field_texts g first n = map (\<lambda>l. literal_text (ir_literals g ! l)) (link_range g first n)"

definition record_fields_wf :: "frothy_ir_program \<Rightarrow> nat \<Rightarrow> nat \<Rightarrow> bool" where
  "record_fields_wf g first n \<longleftrightarrow> first + n \<le> length (ir_links g) \<and>
     (\<forall>l \<in> set (link_range g first n). l < length (ir_literals g)) \<and>
     None \<notin> set (field_texts g first n) \<and> distinct (field_texts g first n)"

fun node_wf :: "frothy_ir_program \<Rightarrow> nat \<Rightarrow> frothy_ir_node \<Rightarrow> bool" where
  "node_wf g k (NODE_LIT l) = (l < length (ir_literals g))"
| "node_wf g k (NODE_READ_LOCAL i) = True"
| "node_wf g k (NODE_WRITE_LOCAL i v) = (v < k)"
| "node_wf g k (NODE_READ_SLOT s) = True"
| "node_wf g k (NODE_WRITE_SLOT s v r) = (v < k)"
| "node_wf g k (NODE_READ_SLOT_FALLBACK s f) = True"
| "node_wf g k (NODE_WRITE_SLOT_FALLBACK s f v r) = (v < k)"
| "node_wf g k (NODE_SLOT_DESIGNATOR s) = True"
| "node_wf g k (NODE_RECORD_DEF s first n) = (0 < n \<and> record_fields_wf g first n)"
| "node_wf g k (NODE_READ_INDEX b i) = (b < k \<and> i < k)"
| "node_wf g k (NODE_WRITE_INDEX b i v) = (b < k \<and> i < k \<and> v < k)"
| "node_wf g k (NODE_READ_FIELD b f) = (b < k)"
| "node_wf g k (NODE_WRITE_FIELD b f v) = (b < k \<and> v < k)"
| "node_wf g k (NODE_FN a l b) = (b < k \<and> a \<le> l)"
| "node_wf g k (NODE_CALL bt callee first n) =
     ((if bt = BUILTIN_NONE then callee < k
       else callee = FROTHY_IR_NODE_INVALID \<and> n = builtin_arity bt) \<and>
      first + n \<le> length (ir_links g) \<and> (\<forall>c \<in> set (link_range g first n). c < k))"
| "node_wf g k (NODE_IF c t e h) = (c < k \<and> t < k \<and> (h \<longrightarrow> e < k))"
| "node_wf g k (NODE_WHILE c b) = (c < k \<and> b < k)"
| "node_wf g k (NODE_SEQ first n) =
     (first + n \<le> length (ir_links g) \<and> (\<forall>c \<in> set (link_range g first n). c < k))"

text \<open>The nodes evaluated in the same frame as a node, and the local it names.\<close>

fun node_children :: "frothy_ir_program \<Rightarrow> frothy_ir_node \<Rightarrow> node_id list" where
  "node_children g (NODE_WRITE_LOCAL i v) = [v]"
| "node_children g (NODE_WRITE_SLOT s v r) = [v]"
| "node_children g (NODE_WRITE_SLOT_FALLBACK s f v r) = [v]"
| "node_children g (NODE_READ_INDEX b i) = [b, i]"
| "node_children g (NODE_WRITE_INDEX b i v) = [b, i, v]"
| "node_children g (NODE_READ_FIELD b f) = [b]"
| "node_children g (NODE_WRITE_FIELD b f v) = [b, v]"
| "node_children g (NODE_CALL bt callee first n) =
     (if bt = BUILTIN_NONE then [callee] else []) @ link_range g first n"
| "node_children g (NODE_IF c t e h) = [c, t] @ (if h then [e] else [])"
| "node_children g (NODE_WHILE c b) = [c, b]"
| "node_children g (NODE_SEQ first n) = link_range g first n"
| "node_children g nd = []"

fun node_local :: "frothy_ir_node \<Rightarrow> nat option" where
  "node_local (NODE_READ_LOCAL i) = Some i"
| "node_local (NODE_WRITE_LOCAL i v) = Some i"
| "node_local nd = None"

definition local_below :: "nat \<Rightarrow> frothy_ir_node \<Rightarrow> bool" where
  "local_below n nd \<longleftrightarrow> (case node_local nd of None \<Rightarrow> True | Some i \<Rightarrow> i < n)"

text \<open>The locals of the tree at a node, functions inside it apart, are below a bound.\<close>

function locals_fit :: "frothy_ir_program \<Rightarrow> nat \<Rightarrow> node_id \<Rightarrow> bool" where
  "locals_fit g n k \<longleftrightarrow> k < length (ir_nodes g) \<and> local_below n (ir_nodes g ! k) \<and>
     (\<forall>c \<in> set (node_children g (ir_nodes g ! k)). c < k \<and> (c < k \<longrightarrow> locals_fit g n c))"
  by pat_completeness auto
termination by (relation "measure (\<lambda>(g, n, k). k)") auto

declare locals_fit.simps [simp del]

lemma locals_fit_iff:
  "locals_fit g n k \<longleftrightarrow> k < length (ir_nodes g) \<and> local_below n (ir_nodes g ! k) \<and>
     (\<forall>c \<in> set (node_children g (ir_nodes g ! k)). c < k \<and> locals_fit g n c)"
  by (subst locals_fit.simps) blast

lemmas locals_fitD = iffD1 [OF locals_fit_iff] and locals_fitI = iffD2 [OF locals_fit_iff]

definition fn_locals_fit :: "frothy_ir_program \<Rightarrow> frothy_ir_node \<Rightarrow> bool" where
  "fn_locals_fit g nd \<longleftrightarrow> (case nd of NODE_FN a l b \<Rightarrow> locals_fit g l b | _ \<Rightarrow> True)"

definition nodes_wf :: "frothy_ir_program \<Rightarrow> bool" where
  "nodes_wf g \<longleftrightarrow> (\<forall>k \<in> {..<length (ir_nodes g)}.
     node_wf g k (ir_nodes g ! k) \<and> fn_locals_fit g (ir_nodes g ! k))"

definition program_wf :: "frothy_ir_program \<Rightarrow> bool" where
  "program_wf g \<longleftrightarrow> nodes_wf g \<and> locals_fit g (ir_root_local_count g) (ir_root g) \<and>
     length (ir_literals g) \<le> FROTHY_IR_LITERAL_CAPACITY \<and>
     length (ir_nodes g) \<le> FROTHY_IR_NODE_CAPACITY \<and>
     length (ir_links g) \<le> FROTHY_IR_LINK_CAPACITY"

subsection \<open>Growing a program\<close>

definition program_extends :: "frothy_ir_program \<Rightarrow> frothy_ir_program \<Rightarrow> bool" where
  "program_extends g h \<longleftrightarrow> prefix (ir_literals g) (ir_literals h) \<and>
     prefix (ir_nodes g) (ir_nodes h) \<and> prefix (ir_links g) (ir_links h)"

lemma program_extends_refl [simp]: "program_extends g g"
  by (simp add: program_extends_def)

lemma program_extends_trans:
  "program_extends g h \<Longrightarrow> program_extends h i \<Longrightarrow> program_extends g i"
  unfolding program_extends_def by (meson prefix_order.trans)

lemma prefix_nth_same: "prefix xs ys \<Longrightarrow> i < length xs \<Longrightarrow> ys ! i = xs ! i"
  by (auto simp: prefix_def nth_append)

lemma link_range_extends:
  assumes "program_extends g h" and "first + n \<le> length (ir_links g)"
  shows "link_range h first n = link_range g first n"
proof -
  obtain ks where "ir_links h = ir_links g @ ks" using assms(1) by (auto simp: program_extends_def prefix_def)
  then show ?thesis using assms(2) by (simp add: link_range_def)
qed

lemma extends_lengths:
  assumes "program_extends g h"
  shows "length (ir_literals g) \<le> length (ir_literals h)" "length (ir_nodes g) \<le> length (ir_nodes h)"
    "length (ir_links g) \<le> length (ir_links h)"
  using assms by (simp_all add: program_extends_def prefix_length_le)

lemma field_texts_extends:
  assumes "program_extends g h" and "record_fields_wf g first n"
  shows "field_texts h first n = field_texts g first n"
proof -
  have "link_range h first n = link_range g first n"
    using assms by (intro link_range_extends) (auto simp: record_fields_wf_def)
  moreover have "\<forall>l \<in> set (link_range g first n). ir_literals h ! l = ir_literals g ! l"
    using assms by (auto simp: record_fields_wf_def program_extends_def intro!: prefix_nth_same)
  ultimately show ?thesis by (simp add: field_texts_def)
qed

lemma record_fields_wf_extends:
  assumes "program_extends g h" and "record_fields_wf g first n"
  shows "record_fields_wf h first n"
proof -
  have "link_range h first n = link_range g first n"
    using assms by (intro link_range_extends) (auto simp: record_fields_wf_def)
  then show ?thesis
    using assms extends_lengths [OF assms(1)] field_texts_extends [OF assms]
    by (fastforce simp: record_fields_wf_def)
qed

lemma node_wf_extends:
  assumes "program_extends g h" and "node_wf g k nd"
  shows "node_wf h k nd"
  using assms(2) extends_lengths [OF assms(1)] link_range_extends [OF assms(1)]
    record_fields_wf_extends [OF assms(1)]
  by (cases nd) (auto split: if_splits)

lemma node_children_extends:
  assumes "program_extends g h" and "node_wf g k nd"
  shows "node_children h nd = node_children g nd"
  using assms(2) link_range_extends [OF assms(1)] by (cases nd) (auto split: if_splits)

lemma node_wf_children: "node_wf g k nd \<Longrightarrow> \<forall>c \<in> set (node_children g nd). c < k"
  by (cases nd) (auto split: if_splits)

lemma nodes_wfD:
  "nodes_wf g \<Longrightarrow> k < length (ir_nodes g) \<Longrightarrow> node_wf g k (ir_nodes g ! k)"
  by (simp add: nodes_wf_def)

lemma locals_fit_mono:
  assumes "nodes_wf g" and "program_extends g h" and "m \<le> n"
  shows "locals_fit g m k \<Longrightarrow> locals_fit h n k"
proof (induction k rule: less_induct)
  case (less k)
  note fit = locals_fitD [OF less.prems]
  then have k: "k < length (ir_nodes g)" "local_below m (ir_nodes g ! k)"
    and ch: "\<forall>c \<in> set (node_children g (ir_nodes g ! k)). c < k \<and> locals_fit g m c"
    by simp_all
  have same: "ir_nodes h ! k = ir_nodes g ! k"
    using assms(2) k by (simp add: program_extends_def prefix_nth_same)
  have "node_children h (ir_nodes g ! k) = node_children g (ir_nodes g ! k)"
    using assms k by (intro node_children_extends) (auto intro: nodes_wfD)
  then show ?case
    using less.IH ch k assms(3) extends_lengths(2) [OF assms(2)]
    by (intro locals_fitI) (auto simp: same local_below_def split: option.splits)
qed

lemma fn_locals_fit_extends:
  "nodes_wf g \<Longrightarrow> program_extends g h \<Longrightarrow> fn_locals_fit g nd \<Longrightarrow> fn_locals_fit h nd"
  using locals_fit_mono [of g h] by (auto simp: fn_locals_fit_def split: frothy_ir_node.splits)

text \<open>Appending a node.\<close>

definition add_node :: "frothy_ir_node \<Rightarrow> frothy_ir_program \<Rightarrow> frothy_ir_program" where
  "add_node nd g = g\<lparr>ir_nodes := ir_nodes g @ [nd]\<rparr>"

lemma add_node_extends: "program_extends g (add_node nd g)"
  by (simp add: program_extends_def add_node_def)

lemma add_node_wf:
  assumes "nodes_wf g" and "node_wf g (length (ir_nodes g)) nd" and "fn_locals_fit g nd"
  shows "nodes_wf (add_node nd g)"
  unfolding nodes_wf_def
proof (intro ballI conjI)
  fix k assume "k \<in> {..<length (ir_nodes (add_node nd g))}"
  then have k: "k < length (ir_nodes g) \<or> k = length (ir_nodes g)" by (auto simp: add_node_def)
  have "node_wf g k (ir_nodes (add_node nd g) ! k)" "fn_locals_fit g (ir_nodes (add_node nd g) ! k)"
    using k assms by (auto simp: add_node_def nth_append nodes_wf_def)
  then show "node_wf (add_node nd g) k (ir_nodes (add_node nd g) ! k)"
    "fn_locals_fit (add_node nd g) (ir_nodes (add_node nd g) ! k)"
    using node_wf_extends [OF add_node_extends] fn_locals_fit_extends [OF assms(1) add_node_extends]
    by blast+
qed

lemma add_node_fit:
  assumes "nodes_wf g" and "node_wf g (length (ir_nodes g)) nd" and "local_below n nd"
    and "\<forall>c \<in> set (node_children g nd). locals_fit g n c"
  shows "locals_fit (add_node nd g) n (length (ir_nodes g))"
proof -
  have "node_children (add_node nd g) nd = node_children g nd"
    using assms(2) by (rule node_children_extends [OF add_node_extends])
  moreover have "\<forall>c \<in> set (node_children g nd). locals_fit (add_node nd g) n c"
    using assms(1,4) locals_fit_mono [OF assms(1) add_node_extends] by blast
  ultimately show ?thesis
    using assms(2,3) node_wf_children [OF assms(2)]
    by (intro locals_fitI) (auto simp: add_node_def)
qed

lemma extends_nodes_wf:
  assumes "nodes_wf g" and "program_extends g h" and "ir_nodes h = ir_nodes g"
  shows "nodes_wf h"
  using assms node_wf_extends [OF assms(2)] fn_locals_fit_extends [OF assms(1,2)]
  by (simp add: nodes_wf_def)

end
