(* ===== verification/Frothy_Parse_Rules.thy ===== *)
theory Frothy_Parse_Rules
  imports Frothy_Build Frothy_Program_Wf
begin

section \<open>The parser's invariant and rules for its steps\<close>

text \<open>
  \<open>p_spec m p Q E\<close>: the step \<open>m\<close> returns from \<open>p\<close>, in a state with \<open>Q\<close> when it succeeds and with
  \<open>E\<close> when it fails. \<open>parser_ok\<close> is the invariant, \<open>parser_rel\<close> what a successful step may change, and
  \<open>st p0 t S L p\<close> the assertion that the rules carry from step to step: \<open>p\<close> comes from \<open>p0\<close>, has at
  most \<open>t\<close> left to read, and the nodes \<open>S\<close> and locals \<open>L\<close> are good in it.
\<close>

definition p_spec ::
  "'a parsing \<Rightarrow> frothy_parser \<Rightarrow> ('a \<Rightarrow> frothy_parser \<Rightarrow> bool) \<Rightarrow> (frothy_parser \<Rightarrow> bool) \<Rightarrow> bool"
where
  "p_spec m p Q E \<longleftrightarrow>
     (case m p of None \<Rightarrow> False | Some (r, q) \<Rightarrow> (case r of Inl _ \<Rightarrow> E q | Inr x \<Rightarrow> Q x q))"

abbreviation p_wp :: "'a parsing \<Rightarrow> frothy_parser \<Rightarrow> ('a \<Rightarrow> frothy_parser \<Rightarrow> bool) \<Rightarrow> bool" where
  "p_wp m p Q \<equiv> p_spec m p Q (\<lambda>_. True)"

named_theorems p_rules \<open>rules for the sequencing operators\<close>
named_theorems step_rules \<open>rules for the steps of the parser\<close>

lemma p_spec_cases:
  assumes "p_spec m p Q E"
  obtains e q where "m p = Some (Inl e, q)" "E q" | x q where "m p = Some (Inr x, q)" "Q x q"
proof (cases "m p")
  case None
  then show ?thesis using assms by (simp add: p_spec_def)
next
  case (Some a)
  obtain r q where "a = (r, q)" by (cases a)
  then show ?thesis using assms Some that by (cases r) (auto simp: p_spec_def)
qed

lemma p_spec_mono:
  assumes "p_spec m p Q E" and "\<And>x q. Q x q \<Longrightarrow> Q' x q" and "\<And>q. E q \<Longrightarrow> E' q"
  shows "p_spec m p Q' E'"
  using assms(1) by (rule p_spec_cases) (simp_all add: p_spec_def assms(2,3))

lemma p_spec_ok [p_rules]: "Q x p \<Longrightarrow> p_spec (p_ok x) p Q E"
  by (simp add: p_spec_def p_ok_def)

lemma p_spec_fail [p_rules]: "E p \<Longrightarrow> p_spec (p_fail e) p Q E"
  by (simp add: p_spec_def p_fail_def)

lemma p_spec_attempt:
  assumes "p_spec m p (\<lambda>x q. p_spec (k (Inr x)) q Q E) (\<lambda>q. \<forall>e. p_spec (k (Inl e)) q Q E)"
  shows "p_spec (p_attempt m k) p Q E"
  using assms by (rule p_spec_cases) (simp_all add: p_spec_def p_attempt_def)

lemma p_spec_try [p_rules]:
  assumes "p_spec m p (\<lambda>x q. p_spec (k x) q Q E) E"
  shows "p_spec (p_try m k) p Q E"
  unfolding p_try_def
  by (rule p_spec_attempt, rule p_spec_mono [OF assms])
     (simp_all add: p_spec_fail)

lemma p_spec_result: "(case r of Inl _ \<Rightarrow> E p | Inr x \<Rightarrow> Q x p) \<Longrightarrow> p_spec (p_result r) p Q E"
  by (simp add: p_spec_def p_result_def)

lemma p_spec_get [p_rules]: "p_spec (k (f p)) p Q E \<Longrightarrow> p_spec (p_get f k) p Q E"
  by (simp add: p_spec_def p_get_def)

lemma p_spec_do [p_rules]: "p_spec m (f p) Q E \<Longrightarrow> p_spec (p_do f m) p Q E"
  by (simp add: p_spec_def p_do_def)

lemma p_spec_if [p_rules]:
  "(b \<Longrightarrow> p_spec m p Q E) \<Longrightarrow> (\<not> b \<Longrightarrow> p_spec n p Q E) \<Longrightarrow> p_spec (if b then m else n) p Q E"
  by simp

text \<open>A step whose error is passed on after a clean-up of the state.\<close>

lemma p_spec_cleanup:
  assumes "p_wp m p (\<lambda>x q. p_wp (k x) (f q) Q)"
  shows "p_wp (p_attempt m (\<lambda>r. p_do f (p_try (p_result r) k))) p Q"
  by (rule p_spec_attempt, rule p_spec_mono [OF assms])
     (auto simp: p_spec_def p_do_def p_try_def p_attempt_def p_result_def p_fail_def)

lemma p_try_result: "p_try (p_result r) p_ok = p_result r"
  by (cases r) (auto simp: p_try_def p_attempt_def p_result_def p_fail_def p_ok_def)

lemma p_spec_cleanup_result:
  assumes "p_wp m p (\<lambda>x q. Q x (f q))"
  shows "p_wp (p_attempt m (\<lambda>r. p_do f (p_result r))) p Q"
  using p_spec_cleanup [of m p p_ok f Q] assms
  by (simp add: p_try_result) (simp add: p_spec_def p_ok_def)

lemma p_spec_while:
  assumes body: "\<And>s q. I s q \<Longrightarrow>
      p_spec (body s) q (\<lambda>r q'. case r of Inl s' \<Rightarrow> I s' q' \<and> tokens_left q' < tokens_left q
                                   | Inr b \<Rightarrow> Q b q') E"
    and start: "I s p"
  shows "p_spec (p_while body s) p Q E"
proof -
  have loop: "tokens_left q < n \<Longrightarrow> I s q \<Longrightarrow> p_spec (p_loop n body s) q Q E" for n s q
  proof (induction n arbitrary: s q)
    case (Suc n)
    have step: "p_spec (case r of Inl s' \<Rightarrow> p_loop n body s' | Inr b \<Rightarrow> p_ok b) q' Q E"
      if "case r of Inl s' \<Rightarrow> I s' q' \<and> tokens_left q' < tokens_left q | Inr b \<Rightarrow> Q b q'" for r q'
      using that Suc by (cases r) (auto intro: p_spec_ok)
    show ?case
      by (simp, rule p_spec_try, rule p_spec_mono [OF body [OF Suc.prems(2)]]) (use step in blast)+
  qed simp
  show ?thesis using loop [OF lessI start] by (simp only: p_while_def p_spec_def)
qed

subsection \<open>The invariant\<close>

definition next_local :: "frothy_parser \<Rightarrow> nat" where
  "next_local p = fr_next_local_index (last (ps_frames p))"

definition scope_base :: "frothy_parser \<Rightarrow> nat" where
  "scope_base p = fr_scope_base (last (ps_frames p))"

definition node_at :: "frothy_parser \<Rightarrow> node_id \<Rightarrow> bool" where
  "node_at p n \<longleftrightarrow> locals_fit (ps_program p) (next_local p) n"

definition capacity_ok :: "nat \<Rightarrow> nat \<Rightarrow> nat \<Rightarrow> bool" where
  "capacity_ok n capacity limit \<longleftrightarrow> n \<le> capacity \<and> capacity \<le> limit"

definition capacities_ok :: "frothy_parser \<Rightarrow> bool" where
  "capacities_ok p \<longleftrightarrow>
     capacity_ok (length (ir_literals (ps_program p))) (ps_literal_capacity p) FROTHY_IR_LITERAL_CAPACITY \<and>
     capacity_ok (length (ir_nodes (ps_program p))) (ps_node_capacity p) FROTHY_IR_NODE_CAPACITY \<and>
     capacity_ok (length (ir_links (ps_program p))) (ps_link_capacity p) FROTHY_IR_LINK_CAPACITY \<and>
     capacity_ok (length (ps_bindings p)) (ps_binding_capacity p) FROTHY_PARSER_BINDING_CAPACITY \<and>
     capacity_ok (length (ps_scopes p)) (ps_scope_capacity p) FROTHY_PARSER_SCOPE_CAPACITY \<and>
     capacity_ok (length (ps_frames p)) (ps_frame_capacity p) FROTHY_PARSER_FRAME_CAPACITY"

definition bindings_ok :: "frothy_parser \<Rightarrow> bool" where
  "bindings_ok p \<longleftrightarrow> (\<forall>b \<in> set (ps_bindings p). bd_scope_index b < length (ps_scopes p) \<and>
     (scope_base p \<le> bd_scope_index b \<longrightarrow> bd_local_index b < next_local p))"

text \<open>The bytes of a name contain no NUL, so that a name and its C string are the same.\<close>

definition name_ok :: "byte list \<Rightarrow> frothy_token \<Rightarrow> bool" where
  "name_ok src token \<longleftrightarrow> (tk_kind token = TOKEN_NAME \<longrightarrow> 0 \<notin> set (token_bytes src token))"

definition names_ok :: "frothy_parser \<Rightarrow> bool" where
  "names_ok p \<longleftrightarrow> name_ok (ps_source p) (ps_current p) \<and> name_ok (ps_source p) (ps_next p)"

definition parser_ok :: "frothy_parser \<Rightarrow> bool" where
  "parser_ok p \<longleftrightarrow> nodes_wf (ps_program p) \<and> capacities_ok p \<and> bindings_ok p \<and> ps_frames p \<noteq> [] \<and>
     names_ok p"

definition parser_rel :: "frothy_parser \<Rightarrow> frothy_parser \<Rightarrow> bool" where
  "parser_rel p q \<longleftrightarrow> ps_source q = ps_source p \<and> program_extends (ps_program p) (ps_program q) \<and>
     ps_scopes q = ps_scopes p \<and> prefix (ps_bindings p) (ps_bindings q) \<and>
     butlast (ps_frames q) = butlast (ps_frames p) \<and> scope_base q = scope_base p \<and>
     next_local p \<le> next_local q"

lemma parser_rel_refl [simp]: "parser_rel p p"
  by (simp add: parser_rel_def)

lemma parser_rel_trans: "parser_rel p q \<Longrightarrow> parser_rel q r \<Longrightarrow> parser_rel p r"
  unfolding parser_rel_def by (metis program_extends_trans prefix_order.trans le_trans)

lemma node_at_rel: "parser_ok p \<Longrightarrow> parser_rel p q \<Longrightarrow> node_at p n \<Longrightarrow> node_at q n"
  unfolding node_at_def by (rule locals_fit_mono) (auto simp: parser_ok_def parser_rel_def)

definition st ::
  "frothy_parser \<Rightarrow> nat \<Rightarrow> node_id set \<Rightarrow> nat set \<Rightarrow> frothy_parser \<Rightarrow> bool" where
  "st p0 t S L p \<longleftrightarrow> parser_ok p \<and> parser_rel p0 p \<and> tokens_left p \<le> t \<and>
     (\<forall>n \<in> S. node_at p n) \<and> (\<forall>i \<in> L. i < next_local p)"

lemma st_start: "parser_ok p \<Longrightarrow> st p (tokens_left p) {} {} p"
  by (simp add: st_def)

lemma st_step:
  "st p0 t S L p \<Longrightarrow> parser_ok q \<Longrightarrow> parser_rel p q \<Longrightarrow> tokens_left q \<le> t' \<Longrightarrow> st p0 t' S L q"
  unfolding st_def
  by (intro conjI) (auto intro: parser_rel_trans node_at_rel, auto simp: parser_rel_def)

lemma st_weaken: "st p0 t S L p \<Longrightarrow> t \<le> t' \<Longrightarrow> S' \<subseteq> S \<Longrightarrow> L' \<subseteq> L \<Longrightarrow> st p0 t' S' L' p"
  by (auto simp: st_def)

lemma st_node: "st p0 t S L p \<Longrightarrow> node_at p n \<Longrightarrow> st p0 t (insert n S) L p"
  by (simp add: st_def)

lemma st_local: "st p0 t S L p \<Longrightarrow> i < next_local p \<Longrightarrow> st p0 t S (insert i L) p"
  by (simp add: st_def)

lemma st_now: "st p0 t S L p \<Longrightarrow> st p0 (tokens_left p) S L p"
  by (simp add: st_def)

text \<open>Changes that leave the program, the scopes, the bindings and the frames alone.\<close>

definition same_core :: "frothy_parser \<Rightarrow> frothy_parser \<Rightarrow> bool" where
  "same_core p q \<longleftrightarrow> ps_source q = ps_source p \<and> ps_program q = ps_program p \<and>
     ps_literal_capacity q = ps_literal_capacity p \<and> ps_node_capacity q = ps_node_capacity p \<and>
     ps_link_capacity q = ps_link_capacity p \<and> ps_bindings q = ps_bindings p \<and>
     ps_binding_capacity q = ps_binding_capacity p \<and> ps_scopes q = ps_scopes p \<and>
     ps_scope_capacity q = ps_scope_capacity p \<and> ps_frames q = ps_frames p \<and>
     ps_frame_capacity q = ps_frame_capacity p \<and> (names_ok p \<longrightarrow> names_ok q)"

lemma same_core_ok: "same_core p q \<Longrightarrow> parser_ok p \<Longrightarrow> parser_ok q"
  by (simp add: same_core_def parser_ok_def capacities_ok_def bindings_ok_def scope_base_def next_local_def)

lemma same_core_rel: "same_core p q \<Longrightarrow> parser_rel p q"
  by (simp add: same_core_def parser_rel_def scope_base_def next_local_def)

lemma same_core_next_local: "same_core p q \<Longrightarrow> next_local q = next_local p"
  by (simp add: same_core_def next_local_def)

lemma st_ok: "st p0 t S L p \<Longrightarrow> parser_ok p"
  by (simp add: st_def)

lemma st_same_core: "st p0 t S L p \<Longrightarrow> same_core p q \<Longrightarrow> tokens_left q \<le> t' \<Longrightarrow> st p0 t' S L q"
  by (blast intro: st_step same_core_ok same_core_rel st_ok)

subsection \<open>Tokens\<close>

lemma skip_space_le: "i \<le> frothy_lex_skip_space src i"
proof (induction src i rule: frothy_lex_skip_space.induct)
  case (1 src i)
  let ?j = "skip_blank src i"
  have "i \<le> ?j" "?j \<le> skip_comment src ?j" by (rule skip_blank_le, rule skip_comment_le)
  then show ?case
    using 1 by (subst frothy_lex_skip_space.simps) (fastforce simp: Let_def)
qed

lemma skip_name_le: "i \<le> skip_name src i"
proof (induction src i rule: skip_name.induct)
  case (1 src i)
  then show ?case by (subst skip_name.simps) fastforce
qed

lemma lex_text_loop_le: "lex_text_loop src i buffer = (r, j) \<Longrightarrow> i \<le> j"
proof (induction src i buffer rule: lex_text_loop.induct)
  case (1 src i buffer)
  show ?case using "1.prems" 1 
    by (subst (asm) lex_text_loop.simps) (fastforce simp: Let_def split: if_splits option.splits)
qed

lemma lex_number_loop_le: "lex_number_loop src i v = (r, j) \<Longrightarrow> i \<le> j"
proof (induction src i v rule: lex_number_loop.induct)
  case (1 src i v)
  show ?case using "1.prems" 1
    by (subst (asm) lex_number_loop.simps) (fastforce simp: Let_def split: if_splits)
qed

lemma lex_number_loop_digit:
  assumes "lex_number_loop src i 0 = (Inr v, j)" and "isdigit (byte_at src i)"
  shows "i < j"
proof -
  have "lex_number_loop src (i + 1) (unat (byte_at src i) - 48) = (Inr v, j)"
    using assms by (subst (asm) lex_number_loop.simps) (simp add: Let_def)
  then show ?thesis using lex_number_loop_le by fastforce
qed

definition token_weight :: "frothy_token \<Rightarrow> nat" where
  "token_weight token = of_bool (tk_kind token \<noteq> TOKEN_EOF)"

lemma lex_next_progress:
  assumes "frothy_lex_next src i = (r, token, j)"
  shows "token_weight token + (length src - j) \<le> length src - i"
proof -
  let ?k = "frothy_lex_skip_space src i"
  have k: "i \<le> ?k" by (rule skip_space_le)
  consider (eof) "byte_at src ?k = 0" | (more) "byte_at src ?k \<noteq> 0" by blast
  then show ?thesis
  proof cases
    case eof
    then show ?thesis using assms k
      by (auto simp: frothy_lex_next_def Let_def token_weight_def frothy_token_clear_def)
  next
    case more
    then have inside: "?k < length src" by (rule byte_at_inside)
    have "?k \<le> j \<and> (tk_kind token \<noteq> TOKEN_EOF \<longrightarrow> ?k < j)"
    proof (cases "frothy_name_byte_is_start (byte_at src ?k)")
      case True
      then show ?thesis using assms more skip_name_le [of "?k + 1" src]
        by (auto simp: frothy_lex_next_def Let_def frothy_lex_name_def)
    next
      case not_name: False
      show ?thesis
      proof (cases "isdigit (byte_at src ?k)")
        case True
        then show ?thesis using assms more not_name
          by (auto simp: frothy_lex_next_def Let_def frothy_lex_number_def frothy_token_clear_def
              split: prod.splits sum.splits dest: lex_number_loop_le lex_number_loop_digit)
      next
        case not_digit: False
        show ?thesis
        proof (cases "byte_at src ?k = 34")
          case True
          then show ?thesis using assms more not_name not_digit
            by (auto simp: frothy_lex_next_def Let_def frothy_lex_text_def frothy_token_clear_def
                split: prod.splits sum.splits if_splits dest: lex_text_loop_le)
        next
          case False
          then show ?thesis using assms more not_name not_digit
            by (auto simp: frothy_lex_next_def Let_def split: option.splits if_splits)
        qed
      qed
    qed
    then show ?thesis using k inside by (auto simp: token_weight_def)
  qed
qed

lemma skip_name_continue:
  "i \<le> k \<Longrightarrow> k < skip_name src i \<Longrightarrow> frothy_name_byte_is_slot_continue (byte_at src k)"
proof (induction src i rule: skip_name.induct)
  case (1 src i)
  show ?case
  proof (cases "frothy_name_byte_is_slot_continue (byte_at src i)")
    case True
    then have "skip_name src i = skip_name src (i + 1)" by (subst skip_name.simps) simp
    then show ?thesis using 1 True by (cases "k = i") auto
  next
    case False
    then have "skip_name src i = i" by (subst skip_name.simps) simp
    then show ?thesis using "1.prems" by simp
  qed
qed

lemma continue_not_nul: "frothy_name_byte_is_slot_continue b \<Longrightarrow> b \<noteq> 0"
  using name_bytes_not_special(3) by (auto simp: frothy_name_byte_is_slot_continue_def DOT_def)

lemma name_token_bytes:
  assumes "frothy_name_byte_is_start (byte_at src i)"
  shows "0 \<notin> set (load_at src i (skip_name src (i + 1) - i))"
proof
  assume "0 \<in> set (load_at src i (skip_name src (i + 1) - i))"
  then obtain k where k: "k < length (load_at src i (skip_name src (i + 1) - i))"
    "load_at src i (skip_name src (i + 1) - i) ! k = 0" by (auto simp: in_set_conv_nth)
  then have "byte_at src (i + k) = 0" "i + k < skip_name src (i + 1)"
    by (auto simp: load_at_def byte_at_def)
  moreover have "byte_at src i \<noteq> 0" using assms name_bytes_not_special(1) by auto
  ultimately show False
    using skip_name_continue [of "i + 1" "i + k" src] continue_not_nul [of "byte_at src (i + k)"]
    by (cases k) auto
qed

lemma lex_next_name_ok:
  assumes "frothy_lex_next src i = (r, token, j)"
  shows "name_ok src token"
proof -
  let ?k = "frothy_lex_skip_space src i"
  have single: "map_of single_tokens b \<noteq> Some TOKEN_NAME"
    and double: "map_of double_tokens b \<noteq> Some (c, TOKEN_NAME, x)"
      "map_of double_tokens b \<noteq> Some (c, y, Some TOKEN_NAME)" for b c x y
    by (auto simp: single_tokens_def double_tokens_def)
  have name: "name_ok src token" if start: "frothy_name_byte_is_start (byte_at src ?k)"
  proof -
    have "byte_at src ?k \<noteq> 0" using start name_bytes_not_special(1) by auto
    then have "token_bytes src token = load_at src ?k (skip_name src (?k + 1) - ?k)"
      using assms start by (auto simp: frothy_lex_next_def Let_def frothy_lex_name_def token_bytes_def)
    then show ?thesis using name_token_bytes [OF start] by (simp add: name_ok_def)
  qed
  show ?thesis
  proof (cases "tk_kind token = TOKEN_NAME \<and> \<not> frothy_name_byte_is_start (byte_at src ?k)")
    case True
    then show ?thesis using assms single double
      by (auto simp: frothy_lex_next_def Let_def frothy_lex_number_def frothy_lex_text_def
          frothy_token_clear_def split: if_splits prod.splits sum.splits option.splits)
  next
    case False
    then show ?thesis using name by (auto simp: name_ok_def)
  qed
qed

end
