(* ===== verification/Frothy_Parse_Steps.thy ===== *)
theory Frothy_Parse_Steps
  imports Frothy_Parser Frothy_Parse_Rules
begin

section \<open>Rules for the basic steps of the parser\<close>

text \<open>
  One rule per builder function and token operation, over the assertion \<open>st\<close>. Each has the shape
  \<open>st \<Longrightarrow> side conditions \<Longrightarrow> (what holds after \<Longrightarrow> Q) \<Longrightarrow> p_spec step p Q E\<close>, so that a parser function is
  verified by applying the rules in the order of its steps.
\<close>

subsection \<open>Tokens\<close>

lemma advance_rule:
  assumes "st p0 t S L p"
    and Q: "\<And>q t'. t' \<le> t \<Longrightarrow> t' < t \<or> current_kind p = TOKEN_EOF \<Longrightarrow> same_core p q \<Longrightarrow>
      st p0 t' S L q \<Longrightarrow> Q () q"
    and E: "\<And>q. same_core p q \<Longrightarrow> st p0 t S L q \<Longrightarrow> E q"
  shows "p_spec frothy_parser_advance p Q E"
proof -
  obtain r token j where lex: "frothy_lex_next (ps_source p) (ps_cursor p) = (r, token, j)"
    by (cases "frothy_lex_next (ps_source p) (ps_cursor p)")
  define q where "q = p\<lparr>ps_prev_token_end := (case tk_start (ps_current p) of None \<Rightarrow> None
      | Some start \<Rightarrow> Some (start + tk_length (ps_current p))), ps_current := ps_next p,
      ps_next := token, ps_cursor := j\<rparr>"
  have run: "frothy_parser_advance p = Some (r, q)"
    by (simp add: frothy_parser_advance_def lex q_def Let_def)
  have core: "same_core p q"
    using lex_next_name_ok [OF lex] by (simp add: same_core_def q_def names_ok_def)
  have "tokens_left q + of_bool (current_kind p \<noteq> TOKEN_EOF) \<le> tokens_left p"
    using lex_next_progress [OF lex]
    by (simp add: tokens_left_def q_def token_weight_def current_kind_def)
  moreover have "tokens_left p \<le> t" using assms(1) by (simp add: st_def)
  ultimately have left: "tokens_left q \<le> t" "tokens_left q < t \<or> current_kind p = TOKEN_EOF" by auto
  have after: "st p0 (tokens_left q) S L q" using assms(1) core by (rule st_same_core) simp
  have "st p0 t S L q" using assms(1) core left(1) by (rule st_same_core)
  then show ?thesis
    using Q [OF left core after] E [OF core] by (cases r) (simp_all add: p_spec_def run)
qed

lemma expect_rule:
  assumes "st p0 t S L p"
    and Q: "\<And>q t'. t' \<le> t \<Longrightarrow> t' < t \<or> kind = TOKEN_EOF \<Longrightarrow> same_core p q \<Longrightarrow> current_kind p = kind \<Longrightarrow>
      st p0 t' S L q \<Longrightarrow> Q () q"
    and E: "\<And>q. st p0 t S L q \<Longrightarrow> E q"
  shows "p_spec (frothy_parser_expect kind) p Q E"
  unfolding frothy_parser_expect_def
proof (rule p_spec_get, rule p_spec_if)
  show "p_spec (p_fail FROTH_ERROR_SIGNATURE) p Q E" using assms by (simp add: p_spec_fail)
next
  assume "\<not> tk_kind (ps_current p) \<noteq> kind"
  then have "current_kind p = kind" by (simp add: current_kind_def)
  then show "p_spec frothy_parser_advance p Q E"
    using assms by (intro advance_rule [OF assms(1)]) auto
qed

lemma take_current_rule:
  assumes "st p0 t S L p" and "current_kind p = TOKEN_NAME"
    and Q: "\<And>q t'. t' < t \<Longrightarrow> st p0 t' S L q \<Longrightarrow> same_core p q \<Longrightarrow>
      p_spec (k (ps_current p)) q Q E"
  shows "p_spec (take_current k) p Q E"
proof -
  define q where "q = p\<lparr>ps_current := frothy_token_clear\<rparr>"
  have core: "same_core p q"
    by (simp add: q_def same_core_def names_ok_def name_ok_def frothy_token_clear_def)
  moreover have "tokens_left q < tokens_left p"
    using assms(2) by (simp add: tokens_left_def q_def frothy_token_clear_def current_kind_def)
  moreover have "tokens_left p \<le> t" using assms(1) by (simp add: st_def)
  ultimately have "st p0 (tokens_left q) S L q" "tokens_left q < t"
    using assms(1) by (auto intro: st_same_core)
  then show ?thesis using Q core by (simp add: take_current_def p_spec_get p_spec_do q_def)
qed

lemma expect_block_start_rule:
  assumes "st p0 t S L p"
    and Q: "\<And>k q t'. t' < t \<Longrightarrow> k \<noteq> TOKEN_EOF \<Longrightarrow> st p0 t' S L q \<Longrightarrow> Q k q"
  shows "p_wp frothy_parser_expect_block_start p Q"
  unfolding frothy_parser_expect_block_start_def
  by (intro p_rules advance_rule [OF assms(1)])
     (auto intro!: Q simp: frothy_token_is_block_start_def frothy_block_close_kind_def)

lemma expect_binding_operator_rule:
  assumes "st p0 t S L p" and Q: "\<And>q t'. t' < t \<Longrightarrow> st p0 t' S L q \<Longrightarrow> Q () q"
  shows "p_wp frothy_parser_expect_binding_operator p Q"
  unfolding frothy_parser_expect_binding_operator_def
  by (intro p_rules advance_rule [OF assms(1)])
     (auto intro!: Q simp: frothy_token_is_binding_operator_def)

lemma expect_set_operator_rule:
  assumes "st p0 t S L p" and Q: "\<And>q t'. t' < t \<Longrightarrow> st p0 t' S L q \<Longrightarrow> Q () q"
  shows "p_wp frothy_parser_expect_set_operator p Q"
  unfolding frothy_parser_expect_set_operator_def
  by (intro p_rules advance_rule [OF assms(1)])
     (auto intro!: Q simp: frothy_token_is_set_operator_def)

text \<open>A loop that starts with something left to read and keeps an assertion of that form.\<close>

lemma while_rule:
  assumes start: "st p0 t S L p" and I0: "I s p"
    and body: "\<And>s q. st p0 (tokens_left q) S L q \<Longrightarrow> tokens_left q \<le> t \<Longrightarrow> I s q \<Longrightarrow>
      p_spec (body s) q (\<lambda>r q'. case r of
         Inl s' \<Rightarrow> I s' q' \<and> (\<exists>t'. t' < tokens_left q \<and> st p0 t' S L q')
       | Inr b \<Rightarrow> Q b q') E"
  shows "p_spec (p_while body s) p Q E"
proof (rule p_spec_while)
  show "st p0 (tokens_left p) S L p \<and> tokens_left p \<le> t \<and> I s p"
    using start I0 by (simp add: st_def)
next
  fix s q
  assume inv: "st p0 (tokens_left q) S L q \<and> tokens_left q \<le> t \<and> I s q"
  show "p_spec (body s) q (\<lambda>r q'. case r of
      Inl s' \<Rightarrow> (st p0 (tokens_left q') S L q' \<and> tokens_left q' \<le> t \<and> I s' q') \<and>
        tokens_left q' < tokens_left q
    | Inr b \<Rightarrow> Q b q') E"
    by (rule p_spec_mono [OF body])
       (use inv in \<open>auto simp: st_def split: sum.splits\<close>)
qed

lemma p_spec_option [p_rules]:
  "(x = None \<Longrightarrow> p_spec m p Q E) \<Longrightarrow> (\<And>y. x = Some y \<Longrightarrow> p_spec (k y) p Q E) \<Longrightarrow>
   p_spec (case x of None \<Rightarrow> m | Some y \<Rightarrow> k y) p Q E"
  by (cases x) simp_all

lemma p_spec_prod [p_rules]:
  "(\<And>a b. x = (a, b) \<Longrightarrow> p_spec (f a b) p Q E) \<Longrightarrow> p_spec (case x of (a, b) \<Rightarrow> f a b) p Q E"
  by (cases x) simp

text \<open>A loop whose state \<open>s\<close> holds the nodes \<open>K s\<close>.\<close>

definition loop_post ::
  "frothy_parser \<Rightarrow> nat \<Rightarrow> node_id set \<Rightarrow> ('s \<Rightarrow> node_id set) \<Rightarrow> nat set \<Rightarrow>
   ('b \<Rightarrow> frothy_parser \<Rightarrow> bool) \<Rightarrow> 's + 'b \<Rightarrow> frothy_parser \<Rightarrow> bool"
where
  "loop_post p0 t S K L Q r q =
     (case r of Inl s \<Rightarrow> \<exists>t' < t. st p0 t' (S \<union> K s) L q | Inr b \<Rightarrow> Q b q)"

lemma loop_post_again:
  "st p0 t' S' L' q \<Longrightarrow> t' < t \<Longrightarrow> S \<union> K s \<subseteq> S' \<Longrightarrow> L \<subseteq> L' \<Longrightarrow> loop_post p0 t S K L Q (Inl s) q"
  unfolding loop_post_def by (simp, rule exI [of _ t'], blast intro: st_weaken)

lemma loop_post_done: "Q b q \<Longrightarrow> loop_post p0 t S K L Q (Inr b) q"
  by (simp add: loop_post_def)

lemma while_nodes_rule:
  assumes start: "st p0 t (S \<union> K s) L p"
    and body: "\<And>s q t'. t' \<le> t \<Longrightarrow> st p0 t' (S \<union> K s) L q \<Longrightarrow>
      p_wp (body s) q (loop_post p0 t' S K L Q)"
  shows "p_wp (p_while body s) p Q"
proof (rule p_spec_while)
  show "tokens_left p \<le> t \<and> st p0 (tokens_left p) (S \<union> K s) L p" using start by (simp add: st_def)
next
  fix s q assume inv: "tokens_left q \<le> t \<and> st p0 (tokens_left q) (S \<union> K s) L q"
  show "p_wp (body s) q (\<lambda>r q'. case r of
      Inl s' \<Rightarrow> (tokens_left q' \<le> t \<and> st p0 (tokens_left q') (S \<union> K s') L q') \<and>
        tokens_left q' < tokens_left q
    | Inr b \<Rightarrow> Q b q')"
    by (rule p_spec_mono [OF body [of "tokens_left q" s q]])
       (use inv in \<open>auto simp: st_def loop_post_def split: sum.splits\<close>)
qed

lemma skip_semicolons_rule:
  assumes "st p0 t S L p" and Q: "\<And>q t'. t' \<le> t \<Longrightarrow> st p0 t' S L q \<Longrightarrow> Q () q"
  shows "p_wp skip_semicolons p Q"
  unfolding skip_semicolons_def
proof (rule while_rule [OF assms(1), where I = "\<lambda>_ _. True"])
  fix q assume now: "st p0 (tokens_left q) S L q" "tokens_left q \<le> t"
  then have "Q () q" by (intro Q)
  with now show "p_wp (p_get (\<lambda>p. tk_kind (ps_current p)) (\<lambda>k.
      if k = TOKEN_SEMICOLON then p_try frothy_parser_advance (\<lambda>_. p_ok (Inl ())) else p_ok (Inr ()))) q
    (\<lambda>r q'. case r of Inl s' \<Rightarrow> True \<and> (\<exists>t' < tokens_left q. st p0 t' S L q') | Inr b \<Rightarrow> Q b q')"
    by (intro p_rules advance_rule [OF now(1)]) (auto simp: current_kind_def)
qed simp

subsection \<open>Capacities\<close>

lemma reserve_one_ok:
  assumes "reserve_one n capacity initial limit = Inr c"
    and "capacity_ok n capacity limit" and "0 < initial" and "initial \<le> limit"
  shows "capacity_ok (Suc n) c limit"
  using assms grow_capacity_loop [of "Suc n" limit]
  by (auto simp: reserve_one_def frothy_capped_capacity_def capacity_ok_def Let_def
      split: if_splits option.splits)

lemmas parser_limits = FROTHY_PARSER_BINDING_CAPACITY_def FROTHY_PARSER_SCOPE_CAPACITY_def
  FROTHY_PARSER_FRAME_CAPACITY_def FROTHY_IR_LITERAL_CAPACITY_def FROTHY_IR_NODE_CAPACITY_def
  FROTHY_IR_LINK_CAPACITY_def

lemmas parser_ok_simps = parser_ok_def capacities_ok_def bindings_ok_def next_local_def scope_base_def
  names_ok_def
lemmas parser_rel_simps = parser_rel_def next_local_def scope_base_def

subsection \<open>Building the program\<close>

lemma add_node_rule:
  assumes st: "st p0 t S L p" and wf: "node_wf (ps_program p) (length (ir_nodes (ps_program p))) nd"
    and ch: "set (node_children (ps_program p) nd) \<subseteq> S"
    and loc: "\<And>i. node_local nd = Some i \<Longrightarrow> i \<in> L" and fn: "fn_locals_fit (ps_program p) nd"
    and Q: "\<And>n q. st p0 t (insert n S) L q \<Longrightarrow> Q n q"
  shows "p_wp (frothy_program_add_node nd) p Q"
proof (cases "reserve_one (length (ir_nodes (ps_program p))) (ps_node_capacity p) 16
    FROTHY_IR_NODE_CAPACITY")
  case (Inl e)
  then show ?thesis
    by (simp add: frothy_program_add_node_def p_try_def p_attempt_def frothy_program_reserve_nodes_def
        p_fail_def p_spec_def)
next
  case (Inr c)
  define q where "q = p\<lparr>ps_node_capacity := c, ps_program := add_node nd (ps_program p)\<rparr>"
  have run: "frothy_program_add_node nd p = Some (Inr (length (ir_nodes (ps_program p))), q)"
    using Inr by (simp add: frothy_program_add_node_def p_try_def p_attempt_def
        frothy_program_reserve_nodes_def p_get_def p_do_def p_program_def p_ok_def q_def add_node_def)
  have ok: "parser_ok p" using st by (rule st_ok)
  have cap: "capacity_ok (Suc (length (ir_nodes (ps_program p)))) c FROTHY_IR_NODE_CAPACITY"
    using ok by (intro reserve_one_ok [OF Inr]) (simp_all add: parser_ok_simps parser_limits)
  have "nodes_wf (add_node nd (ps_program p))"
    using ok wf fn by (intro add_node_wf) (simp_all add: parser_ok_def)
  then have okq: "parser_ok q"
    using ok cap by (simp add: parser_ok_simps q_def) (simp add: add_node_def)
  have rel: "parser_rel p q" by (simp add: parser_rel_simps q_def add_node_extends)
  have "st p0 t S L q"
    by (rule st_step [OF st okq rel]) (use st in \<open>simp add: st_def tokens_left_def q_def\<close>)
  moreover have "node_at q (length (ir_nodes (ps_program p)))"
  proof -
    have "local_below (next_local p) nd"
      using loc st by (auto simp: local_below_def st_def split: option.splits)
    moreover have "\<forall>c \<in> set (node_children (ps_program p) nd).
        locals_fit (ps_program p) (next_local p) c"
      using ch st by (auto simp: st_def node_at_def)
    ultimately show ?thesis
      using ok wf add_node_fit [of "ps_program p" nd "next_local p"]
      by (simp add: node_at_def q_def parser_ok_def next_local_def)
  qed
  ultimately have "Q (length (ir_nodes (ps_program p))) q" by (intro Q st_node)
  then show ?thesis by (simp add: p_spec_def run)
qed

lemma st_inside: "st p0 t S L p \<Longrightarrow> n \<in> S \<Longrightarrow> n < length (ir_nodes (ps_program p))"
  by (auto simp: st_def node_at_def dest: locals_fitD)

lemma add_literal_rule:
  assumes st: "st p0 t S L p"
    and Q: "\<And>l q. l < length (ir_literals (ps_program q)) \<Longrightarrow> ir_literals (ps_program q) ! l = literal \<Longrightarrow>
      ir_links (ps_program q) = ir_links (ps_program p) \<Longrightarrow> parser_rel p q \<Longrightarrow>
      ps_current q = ps_current p \<Longrightarrow> st p0 t S L q \<Longrightarrow> Q l q"
  shows "p_wp (frothy_program_add_literal literal) p Q"
proof (cases "reserve_one (length (ir_literals (ps_program p))) (ps_literal_capacity p) 8
    FROTHY_IR_LITERAL_CAPACITY")
  case (Inl e)
  then show ?thesis
    by (simp add: frothy_program_add_literal_def p_try_def p_attempt_def
        frothy_program_reserve_literals_def p_fail_def p_spec_def)
next
  case (Inr c)
  define h where "h = (ps_program p)\<lparr>ir_literals := ir_literals (ps_program p) @ [literal]\<rparr>"
  define q where "q = p\<lparr>ps_literal_capacity := c, ps_program := h\<rparr>"
  have run: "frothy_program_add_literal literal p = Some (Inr (length (ir_literals (ps_program p))), q)"
    using Inr by (simp add: frothy_program_add_literal_def p_try_def p_attempt_def
        frothy_program_reserve_literals_def p_get_def p_do_def p_program_def p_ok_def q_def h_def)
  have ok: "parser_ok p" using st by (rule st_ok)
  have cap: "capacity_ok (Suc (length (ir_literals (ps_program p)))) c FROTHY_IR_LITERAL_CAPACITY"
    using ok by (intro reserve_one_ok [OF Inr]) (simp_all add: parser_ok_simps parser_limits)
  have ext: "program_extends (ps_program p) h" by (simp add: program_extends_def h_def)
  have "nodes_wf h"
    by (rule extends_nodes_wf [OF _ ext]) (use ok in \<open>simp_all add: parser_ok_def h_def\<close>)
  then have okq: "parser_ok q"
    using ok cap by (simp add: parser_ok_simps q_def) (simp add: h_def)
  have rel: "parser_rel p q" by (simp add: parser_rel_simps q_def ext)
  have "st p0 t S L q"
    by (rule st_step [OF st okq rel]) (use st in \<open>simp add: st_def tokens_left_def q_def\<close>)
  then have "Q (length (ir_literals (ps_program p))) q"
    by (intro Q rel) (simp_all add: q_def h_def)
  then show ?thesis by (simp add: p_spec_def run)
qed

lemma append_link_rule:
  assumes st: "st p0 t S L p"
    and Q: "\<And>q. ir_links (ps_program q) = ir_links (ps_program p) @ [n] \<Longrightarrow>
      ir_literals (ps_program q) = ir_literals (ps_program p) \<Longrightarrow> parser_rel p q \<Longrightarrow>
      ps_current q = ps_current p \<Longrightarrow> st p0 t S L q \<Longrightarrow> Q () q"
  shows "p_wp (frothy_program_append_link n) p Q"
proof (cases "reserve_one (length (ir_links (ps_program p))) (ps_link_capacity p) 16
    FROTHY_IR_LINK_CAPACITY")
  case (Inl e)
  then show ?thesis
    by (simp add: frothy_program_append_link_def p_try_def p_attempt_def
        frothy_program_reserve_links_def p_fail_def p_spec_def)
next
  case (Inr c)
  define h where "h = (ps_program p)\<lparr>ir_links := ir_links (ps_program p) @ [n]\<rparr>"
  define q where "q = p\<lparr>ps_link_capacity := c, ps_program := h\<rparr>"
  have run: "frothy_program_append_link n p = Some (Inr (), q)"
    using Inr by (simp add: frothy_program_append_link_def p_try_def p_attempt_def
        frothy_program_reserve_links_def p_do_def p_program_def p_ok_def q_def h_def)
  have ok: "parser_ok p" using st by (rule st_ok)
  have cap: "capacity_ok (Suc (length (ir_links (ps_program p)))) c FROTHY_IR_LINK_CAPACITY"
    using ok by (intro reserve_one_ok [OF Inr]) (simp_all add: parser_ok_simps parser_limits)
  have ext: "program_extends (ps_program p) h" by (simp add: program_extends_def h_def)
  have "nodes_wf h"
    by (rule extends_nodes_wf [OF _ ext]) (use ok in \<open>simp_all add: parser_ok_def h_def\<close>)
  then have okq: "parser_ok q"
    using ok cap by (simp add: parser_ok_simps q_def) (simp add: h_def)
  have rel: "parser_rel p q" by (simp add: parser_rel_simps q_def ext)
  have "st p0 t S L q"
    by (rule st_step [OF st okq rel]) (use st in \<open>simp add: st_def tokens_left_def q_def\<close>)
  then have "Q () q" by (intro Q rel) (simp_all add: q_def h_def)
  then show ?thesis by (simp add: p_spec_def run)
qed

lemma append_links_rule:
  assumes "st p0 t S L p"
    and "\<And>q. ir_links (ps_program q) = ir_links (ps_program p) @ ns \<Longrightarrow> st p0 t S L q \<Longrightarrow> Q () q"
  shows "p_wp (append_links ns) p Q"
  using assms
proof (induction ns arbitrary: p)
  case (Cons n ns)
  show ?case
    unfolding append_links.simps
    by (rule p_spec_try, rule append_link_rule [OF Cons.prems(1)], rule Cons.IH)
       (auto intro: Cons.prems(2))
qed (simp add: p_spec_ok)

lemma flush_rule:
  assumes "st p0 t S L p"
    and "\<And>first q. first + length (fst l) \<le> length (ir_links (ps_program q)) \<Longrightarrow>
      link_range (ps_program q) first (length (fst l)) = fst l \<Longrightarrow> st p0 t S L q \<Longrightarrow> Q first q"
  shows "p_wp (frothy_node_list_flush l) p Q"
  unfolding frothy_node_list_flush_def
  by (rule p_spec_get, rule p_spec_try, rule append_links_rule [OF assms(1)], rule p_spec_ok,
      rule assms(2)) (simp_all add: link_range_def)

lemma push_rule: "(\<And>c. Q (fst l @ [n], c) p) \<Longrightarrow> p_wp (frothy_node_list_push l n) p Q"
  by (auto simp: frothy_node_list_push_def p_spec_ok p_spec_fail split: sum.splits)

subsection \<open>Node constructors\<close>

text \<open>The nodes without links: children and locals are known good.\<close>

lemma simple_node_rule:
  assumes st: "st p0 t S L p"
    and wf: "(\<And>c. c \<in> S \<Longrightarrow> c < length (ir_nodes (ps_program p))) \<Longrightarrow>
      node_wf (ps_program p) (length (ir_nodes (ps_program p))) nd"
    and ch: "set (node_children (ps_program p) nd) \<subseteq> S"
    and loc: "\<And>i. node_local nd = Some i \<Longrightarrow> i \<in> L" and fn: "\<And>a l b. nd \<noteq> NODE_FN a l b"
    and Q: "\<And>n q. st p0 t (insert n S) L q \<Longrightarrow> Q n q"
  shows "p_wp (frothy_program_add_node nd) p Q"
  by (rule add_node_rule [OF st wf ch loc])
     (use fn Q st_inside [OF st] in \<open>auto simp: fn_locals_fit_def split: frothy_ir_node.splits\<close>)

lemma make_literal_node_rule:
  assumes "st p0 t S L p" and Q: "\<And>n q. st p0 t (insert n S) L q \<Longrightarrow> Q n q"
  shows "p_wp (frothy_make_literal_node literal) p Q"
  unfolding frothy_make_literal_node_def
  by (rule p_spec_try, rule add_literal_rule [OF assms(1)], rule simple_node_rule, assumption)
     (auto intro: Q)

lemma make_read_local_rule:
  assumes "st p0 t S L p" and "i \<in> L" and Q: "\<And>n q. st p0 t (insert n S) L q \<Longrightarrow> Q n q"
  shows "p_wp (frothy_make_read_local_node i) p Q"
  unfolding frothy_make_read_local_node_def
  by (rule simple_node_rule [OF assms(1)]) (use assms in auto)

lemma make_write_local_rule:
  assumes "st p0 t S L p" and "i \<in> L" and "v \<in> S"
    and Q: "\<And>n q. st p0 t (insert n S) L q \<Longrightarrow> Q n q"
  shows "p_wp (frothy_make_write_local_node i v) p Q"
  unfolding frothy_make_write_local_node_def
  by (rule simple_node_rule [OF assms(1)]) (use assms in auto)

lemma make_slot_node_rules:
  assumes "st p0 t S L p" and Q: "\<And>n q. st p0 t (insert n S) L q \<Longrightarrow> Q n q"
  shows "p_wp (frothy_make_read_slot_node s) p Q"
    and "p_wp (frothy_make_read_slot_fallback_node s f) p Q"
    and "p_wp (frothy_make_slot_designator_node s) p Q"
    and "v \<in> S \<Longrightarrow> p_wp (frothy_make_write_slot_node s v r) p Q"
    and "v \<in> S \<Longrightarrow> p_wp (frothy_make_write_slot_fallback_node s f v r) p Q"
  unfolding frothy_make_read_slot_node_def frothy_make_read_slot_fallback_node_def
    frothy_make_slot_designator_node_def frothy_make_write_slot_node_def
    frothy_make_write_slot_fallback_node_def
  by (rule simple_node_rule [OF assms(1)]; use assms in auto)+

lemma make_place_node_rules:
  assumes "st p0 t S L p" and Q: "\<And>n q. st p0 t (insert n S) L q \<Longrightarrow> Q n q" and "b \<in> S"
  shows "i \<in> S \<Longrightarrow> p_wp (frothy_make_read_index_node b i) p Q"
    and "i \<in> S \<Longrightarrow> v \<in> S \<Longrightarrow> p_wp (frothy_make_write_index_node b i v) p Q"
    and "p_wp (frothy_make_read_field_node b f) p Q"
    and "v \<in> S \<Longrightarrow> p_wp (frothy_make_write_field_node b f v) p Q"
  unfolding frothy_make_read_index_node_def frothy_make_write_index_node_def
    frothy_make_read_field_node_def frothy_make_write_field_node_def
  by (rule simple_node_rule [OF assms(1)]; use assms in auto)+

lemma make_if_rule:
  assumes "st p0 t S L p" and "c \<in> S" and "b \<in> S" and "h \<Longrightarrow> e \<in> S"
    and Q: "\<And>n q. st p0 t (insert n S) L q \<Longrightarrow> Q n q"
  shows "p_wp (frothy_make_if_node c b h e) p Q"
  unfolding frothy_make_if_node_def
  by (rule simple_node_rule [OF assms(1)]) (use assms in auto)

lemma make_while_rule:
  assumes "st p0 t S L p" and "c \<in> S" and "b \<in> S"
    and Q: "\<And>n q. st p0 t (insert n S) L q \<Longrightarrow> Q n q"
  shows "p_wp (frothy_make_while_node c b) p Q"
  unfolding frothy_make_while_node_def
  by (rule simple_node_rule [OF assms(1)]) (use assms in auto)

lemma make_record_def_rule:
  assumes "st p0 t S L p" and "0 < n" and "record_fields_wf (ps_program p) first n"
    and Q: "\<And>n q. st p0 t (insert n S) L q \<Longrightarrow> Q n q"
  shows "p_wp (frothy_make_record_def_node s first n) p Q"
  unfolding frothy_make_record_def_node_def
  by (rule simple_node_rule [OF assms(1)]) (use assms in auto)

lemma make_call_rule:
  assumes "st p0 t S L p" and "callee \<in> S" and "first + n \<le> length (ir_links (ps_program p))"
    and "set (link_range (ps_program p) first n) \<subseteq> S"
    and Q: "\<And>n q. st p0 t (insert n S) L q \<Longrightarrow> Q n q"
  shows "p_wp (frothy_make_call_node BUILTIN_NONE callee first n) p Q"
  unfolding frothy_make_call_node_def
  by (rule simple_node_rule [OF assms(1)]) (use assms in auto)

lemma make_seq_rule:
  assumes "st p0 t S L p" and "first + n \<le> length (ir_links (ps_program p))"
    and "set (link_range (ps_program p) first n) \<subseteq> S"
    and Q: "\<And>n q. st p0 t (insert n S) L q \<Longrightarrow> Q n q"
  shows "p_wp (frothy_make_seq_node first n) p Q"
  unfolding frothy_make_seq_node_def
  by (rule simple_node_rule [OF assms(1)]) (use assms in auto)

lemma flush_seq_rule:
  assumes "st p0 t S L p" and "set (fst l) \<subseteq> S" and Q: "\<And>n q. st p0 t (insert n S) L q \<Longrightarrow> Q n q"
  shows "p_wp (p_try (frothy_node_list_flush l) (\<lambda>first. frothy_make_seq_node first (length (fst l)))) p Q"
  by (rule p_spec_try, rule flush_rule [OF assms(1)], rule make_seq_rule, assumption)
     (use assms in auto)

lemma flush_call_rule:
  assumes "st p0 t S L p" and "callee \<in> S" and "set (fst l) \<subseteq> S"
    and Q: "\<And>n q. st p0 t (insert n S) L q \<Longrightarrow> Q n q"
  shows "p_wp (p_try (frothy_node_list_flush l) (\<lambda>first.
    frothy_make_call_node BUILTIN_NONE callee first (length (fst l)))) p Q"
  by (rule p_spec_try, rule flush_rule [OF assms(1)], rule make_call_rule, assumption)
     (use assms in auto)

lemma push_all_rule:
  assumes "\<And>c. Q (ns, c) p"
  shows "p_wp (push_all ns) p Q"
proof -
  have "p_wp m p (\<lambda>items q. q = p \<and> fst items = ms) \<Longrightarrow>
    p_wp (foldl (\<lambda>m n. p_try m (\<lambda>items. frothy_node_list_push items n)) m ns) p
      (\<lambda>items q. q = p \<and> fst items = ms @ ns)" for m ms
  proof (induction ns arbitrary: m ms)
    case (Cons n ns)
    have "p_wp (p_try m (\<lambda>items. frothy_node_list_push items n)) p (\<lambda>items q. q = p \<and> fst items = ms @ [n])"
      by (rule p_spec_try, rule p_spec_mono [OF Cons.prems], rule push_rule) auto
    from Cons.IH [OF this] show ?case by simp
  qed simp
  from this [of "p_ok empty_node_list" "[]"]
  have "p_wp (push_all ns) p (\<lambda>items q. q = p \<and> fst items = ns)"
    by (simp add: push_all_def p_spec_ok empty_node_list_def)
  then show ?thesis by (rule p_spec_mono) (use assms in auto)
qed

lemma make_seq_of_rule:
  assumes "st p0 t S L p" and "set ns \<subseteq> S" and Q: "\<And>n q. st p0 t (insert n S) L q \<Longrightarrow> Q n q"
  shows "p_wp (make_seq_of ns) p Q"
  unfolding make_seq_of_def
  by (rule p_spec_try, rule push_all_rule, rule flush_seq_rule [OF assms(1)]) (use assms in auto)

lemma make_single_item_seq_rule:
  assumes "st p0 t S L p" and "n \<in> S" and Q: "\<And>n q. st p0 t (insert n S) L q \<Longrightarrow> Q n q"
  shows "p_wp (frothy_make_single_item_seq_node n) p Q"
  unfolding frothy_make_single_item_seq_node_def
  by (rule p_spec_get, rule p_spec_try, rule append_link_rule [OF assms(1)], rule make_seq_rule, assumption)
     (use assms in \<open>auto simp: link_range_def\<close>)

lemma make_builtin_call_rule:
  assumes "st p0 t S L p" and "set args \<subseteq> S" and "b \<noteq> BUILTIN_NONE" and "length args = builtin_arity b"
    and Q: "\<And>n q. st p0 t (insert n S) L q \<Longrightarrow> Q n q"
  shows "p_wp (frothy_make_builtin_call b args) p Q"
  unfolding frothy_make_builtin_call_def frothy_make_call_node_def
  by (rule p_spec_get, rule p_spec_try, rule append_links_rule [OF assms(1)], rule simple_node_rule,
      assumption) (use assms in \<open>auto simp: link_range_def\<close>)

lemma make_fn_rule:
  assumes "st p0 t S L p" and "locals_fit (ps_program p) n body" and "arity \<le> n"
    and Q: "\<And>n q. st p0 t (insert n S) L q \<Longrightarrow> Q n q"
  shows "p_wp (frothy_make_fn_node arity n body) p Q"
  unfolding frothy_make_fn_node_def
  by (rule add_node_rule [OF assms(1)])
     (use assms in \<open>auto simp: fn_locals_fit_def dest: locals_fitD\<close>)

lemma make_top_level_write_slot_rules:
  assumes "st p0 t S L p" and "v \<in> S" and Q: "\<And>n q. st p0 t (insert n S) L q \<Longrightarrow> Q n q"
  shows "p_wp (frothy_make_top_level_write_slot_range name v) p Q"
    and "p_wp (frothy_make_top_level_write_slot_token token v) p Q"
  unfolding frothy_make_top_level_write_slot_token_def frothy_make_top_level_write_slot_range_def
  by (intro p_rules make_slot_node_rules(4) [OF assms(1)] Q assms(2); assumption)+

lemma make_short_circuit_rule:
  assumes "st p0 t S L p" and "a \<in> S" and "b \<in> S" and Q: "\<And>n q. st p0 t (insert n S) L q \<Longrightarrow> Q n q"
  shows "p_wp (frothy_make_short_circuit_node is_or a b) p Q"
proof -
  have weak: "st p0 t S' L q \<Longrightarrow> insert n S \<subseteq> S' \<Longrightarrow> Q n q" for n S' q
    by (rule Q) (erule st_weaken, simp_all)
  show ?thesis
    unfolding frothy_make_short_circuit_node_def frothy_make_bool_condition_node_def
      frothy_make_bool_literal_node_def
    apply (rule p_spec_try, rule make_literal_node_rule [OF assms(1)])
    apply (rule p_spec_try, rule make_literal_node_rule, assumption)
    apply (rule p_spec_try, rule p_spec_try, rule make_literal_node_rule, assumption)
    apply (rule p_spec_try, rule make_literal_node_rule, assumption)
    apply (rule make_if_rule, assumption)
    using assms by (auto intro!: p_spec_if make_if_rule elim!: weak)
qed

subsection \<open>Scopes, frames and locals\<close>

definition scope_entered :: "frothy_parser \<Rightarrow> frothy_parser \<Rightarrow> bool" where
  "scope_entered p q \<longleftrightarrow> (\<exists>c. capacity_ok (Suc (length (ps_scopes p))) c FROTHY_PARSER_SCOPE_CAPACITY \<and>
     q = p\<lparr>ps_scope_capacity := c, ps_scopes := ps_scopes p @ [length (ps_bindings p)]\<rparr>)"

lemma push_scope_rule:
  assumes "parser_ok p" and Q: "\<And>q. scope_entered p q \<Longrightarrow> Q () q"
  shows "p_spec frothy_push_scope p Q (\<lambda>q. q = p)"
proof (cases "reserve_one (length (ps_scopes p)) (ps_scope_capacity p) 4 FROTHY_PARSER_SCOPE_CAPACITY")
  case (Inl e)
  then show ?thesis
    by (simp add: frothy_push_scope_def p_try_def p_attempt_def frothy_parser_reserve_scopes_def
        p_fail_def p_spec_def)
next
  case (Inr c)
  have "capacity_ok (Suc (length (ps_scopes p))) c FROTHY_PARSER_SCOPE_CAPACITY"
    using assms(1) by (intro reserve_one_ok [OF Inr]) (simp_all add: parser_ok_simps parser_limits)
  then have "Q () (p\<lparr>ps_scope_capacity := c, ps_scopes := ps_scopes p @ [length (ps_bindings p)]\<rparr>)"
    by (intro Q) (auto simp: scope_entered_def)
  then show ?thesis using Inr
    by (simp add: frothy_push_scope_def p_try_def p_attempt_def frothy_parser_reserve_scopes_def
        p_do_def p_ok_def p_spec_def)
qed

lemma scope_entered_st:
  assumes st: "st p0 t S L p" and "scope_entered p q"
  shows "st q t S L q"
proof -
  obtain c where c: "capacity_ok (Suc (length (ps_scopes p))) c FROTHY_PARSER_SCOPE_CAPACITY"
    and q: "q = p\<lparr>ps_scope_capacity := c, ps_scopes := ps_scopes p @ [length (ps_bindings p)]\<rparr>"
    using assms(2) by (auto simp: scope_entered_def)
  have "parser_ok q" using st_ok [OF st] c by (fastforce simp: q parser_ok_simps less_SucI)
  then show ?thesis using st by (simp add: st_def q tokens_left_def node_at_def next_local_def)
qed

lemma pop_scope_st:
  assumes st: "st p0 t S L p" and "scope_entered p p1" and st1: "st p1 t' S' L' q"
  shows "st p0 t' S' L' (frothy_pop_scope q)"
proof -
  obtain c where c: "capacity_ok (Suc (length (ps_scopes p))) c FROTHY_PARSER_SCOPE_CAPACITY"
    and p1: "p1 = p\<lparr>ps_scope_capacity := c, ps_scopes := ps_scopes p @ [length (ps_bindings p)]\<rparr>"
    using assms(2) by (auto simp: scope_entered_def)
  have scopes: "ps_scopes q = ps_scopes p @ [length (ps_bindings p)]"
    and binds: "take (length (ps_bindings p)) (ps_bindings q) = ps_bindings p"
    using st1 by (auto simp: st_def parser_rel_def p1 prefix_def)
  then have pop: "frothy_pop_scope q = q\<lparr>ps_bindings := ps_bindings p, ps_scopes := ps_scopes p\<rparr>"
    by (simp add: frothy_pop_scope_def)
  have ok: "parser_ok p" "parser_ok q" using st st1 by (auto simp: st_def)
  have rel: "parser_rel p1 q" using st1 by (simp add: st_def)
  have len: "length (ps_bindings p) \<le> length (ps_bindings q)" "length (ps_scopes p) \<le> length (ps_scopes q)"
    using rel by (auto simp: parser_rel_def p1 prefix_length_le)
  have sub: "set (ps_bindings p) \<subseteq> set (ps_bindings q)"
    using rel by (auto simp: parser_rel_def p1 dest: set_mono_prefix)
  have "capacities_ok (frothy_pop_scope q)"
    using ok(2) len by (auto simp: pop parser_ok_simps capacity_ok_def)
  moreover have "bindings_ok (frothy_pop_scope q)"
    using ok sub by (auto simp: pop parser_ok_simps)
  ultimately have okq: "parser_ok (frothy_pop_scope q)"
    using ok(2) by (simp add: pop parser_ok_def names_ok_def)
  have "parser_rel p (frothy_pop_scope q)"
    using rel by (simp add: pop parser_rel_simps p1)
  then have "parser_rel p0 (frothy_pop_scope q)"
    using st by (auto simp: st_def intro: parser_rel_trans)
  then show ?thesis
    using okq st1 by (simp add: st_def pop tokens_left_def node_at_def next_local_def)
qed

definition frame_entered :: "frothy_parser \<Rightarrow> frothy_parser \<Rightarrow> bool" where
  "frame_entered p q \<longleftrightarrow> (\<exists>c r. capacity_ok (Suc (length (ps_frames p))) c FROTHY_PARSER_FRAME_CAPACITY \<and>
     q = p\<lparr>ps_frame_capacity := c, ps_frames := ps_frames p @
       [\<lparr>fr_scope_base = length (ps_scopes p), fr_next_local_index = 0, fr_reject_outer_capture = r\<rparr>]\<rparr>)"

lemma push_frame_rule:
  assumes "capacities_ok p" and Q: "\<And>q. frame_entered p q \<Longrightarrow> Q () q"
  shows "p_wp (frothy_push_frame reject) p Q"
proof (cases "reserve_one (length (ps_frames p)) (ps_frame_capacity p) 4 FROTHY_PARSER_FRAME_CAPACITY")
  case (Inl e)
  then show ?thesis
    by (simp add: frothy_push_frame_def p_try_def p_attempt_def frothy_parser_reserve_frames_def
        p_fail_def p_spec_def)
next
  case (Inr c)
  have "capacity_ok (Suc (length (ps_frames p))) c FROTHY_PARSER_FRAME_CAPACITY"
    using assms(1) by (intro reserve_one_ok [OF Inr]) (simp_all add: capacities_ok_def parser_limits)
  then have "Q () (p\<lparr>ps_frame_capacity := c, ps_frames := ps_frames p @
      [\<lparr>fr_scope_base = length (ps_scopes p), fr_next_local_index = 0, fr_reject_outer_capture = reject\<rparr>]\<rparr>)"
    by (intro Q) (auto simp: frame_entered_def)
  then show ?thesis using Inr
    by (simp add: frothy_push_frame_def p_try_def p_attempt_def frothy_parser_reserve_frames_def
        p_do_def p_ok_def p_spec_def)
qed

lemma frame_entered_st:
  assumes st: "st p0 t S L p" and "frame_entered p q"
  shows "st q t {} {} q"
proof -
  obtain c r where c: "capacity_ok (Suc (length (ps_frames p))) c FROTHY_PARSER_FRAME_CAPACITY"
    and q: "q = p\<lparr>ps_frame_capacity := c, ps_frames := ps_frames p @
       [\<lparr>fr_scope_base = length (ps_scopes p), fr_next_local_index = 0, fr_reject_outer_capture = r\<rparr>]\<rparr>"
    using assms(2) by (auto simp: frame_entered_def)
  have "parser_ok q" using st_ok [OF st] c by (fastforce simp: q parser_ok_simps)
  then show ?thesis using st by (simp add: st_def q tokens_left_def)
qed

lemma pop_scope_bindings:
  "scope_entered p p1 \<Longrightarrow> parser_rel p1 q \<Longrightarrow>
   ps_bindings (frothy_pop_scope q) = ps_bindings p \<and> ps_program (frothy_pop_scope q) = ps_program q \<and>
   ps_frames (frothy_pop_scope q) = ps_frames q"
  by (auto simp: scope_entered_def parser_rel_def frothy_pop_scope_def prefix_def)

lemma pop_frame_st:
  assumes st: "st p0 t S L p" and "frame_entered p p1" and st1: "st p1 t' S' L' q"
    and binds: "ps_bindings q = ps_bindings p"
  shows "st p0 t' S L (frothy_pop_frame q)"
proof -
  obtain c r where p1: "p1 = p\<lparr>ps_frame_capacity := c, ps_frames := ps_frames p @
       [\<lparr>fr_scope_base = length (ps_scopes p), fr_next_local_index = 0, fr_reject_outer_capture = r\<rparr>]\<rparr>"
    using assms(2) by (auto simp: frame_entered_def)
  have rel: "parser_rel p1 q" and ok: "parser_ok p" "parser_ok q" using st st1 by (auto simp: st_def)
  have frames: "butlast (ps_frames q) = ps_frames p" "ps_scopes q = ps_scopes p"
    using rel by (auto simp: parser_rel_def p1)
  have "length (ps_frames p) \<le> length (ps_frames q)" using frames(1) by (metis length_butlast diff_le_self)
  then have caps: "capacities_ok (frothy_pop_frame q)"
    using ok(2) frames by (auto simp: frothy_pop_frame_def parser_ok_def capacities_ok_def capacity_ok_def)
  have "parser_ok (frothy_pop_frame q)"
    using ok caps frames binds
    by (simp add: parser_ok_def) (simp add: frothy_pop_frame_def bindings_ok_def scope_base_def next_local_def names_ok_def)
  moreover have "parser_rel p (frothy_pop_frame q)"
    using rel frames binds by (simp add: parser_rel_simps p1 frothy_pop_frame_def)
  ultimately show ?thesis
    by (rule st_step [OF st]) (use st1 in \<open>simp add: st_def tokens_left_def frothy_pop_frame_def\<close>)
qed

lemma bump_next_local_frame:
  "ps_frames p \<noteq> [] \<Longrightarrow> next_local (bump_next_local p) = Suc (next_local p) \<and>
   scope_base (bump_next_local p) = scope_base p \<and>
   butlast (ps_frames (bump_next_local p)) = butlast (ps_frames p) \<and> ps_frames (bump_next_local p) \<noteq> [] \<and>
   length (ps_frames (bump_next_local p)) = length (ps_frames p)"
  by (simp add: bump_next_local_def next_local_def scope_base_def Let_def)

lemma bump_next_local_same:
  "ps_source (bump_next_local p) = ps_source p" "ps_program (bump_next_local p) = ps_program p"
  "ps_bindings (bump_next_local p) = ps_bindings p" "ps_scopes (bump_next_local p) = ps_scopes p"
  "tokens_left (bump_next_local p) = tokens_left p"
  "ps_current (bump_next_local p) = ps_current p" "ps_next (bump_next_local p) = ps_next p"
  "ps_literal_capacity (bump_next_local p) = ps_literal_capacity p"
  "ps_node_capacity (bump_next_local p) = ps_node_capacity p"
  "ps_link_capacity (bump_next_local p) = ps_link_capacity p"
  "ps_binding_capacity (bump_next_local p) = ps_binding_capacity p"
  "ps_scope_capacity (bump_next_local p) = ps_scope_capacity p"
  "ps_frame_capacity (bump_next_local p) = ps_frame_capacity p"
  by (simp_all add: bump_next_local_def tokens_left_def Let_def)

lemma bump_next_local_st:
  assumes st: "st p0 t S L p"
  shows "st p0 t S (insert (next_local p) L) (bump_next_local p)"
proof -
  have ok: "parser_ok p" using st by (rule st_ok)
  then have ne: "ps_frames p \<noteq> []" by (simp add: parser_ok_def)
  note same = bump_next_local_frame [OF ne] bump_next_local_same
  have "parser_ok (bump_next_local p)"
    using ok by (auto simp: parser_ok_def capacities_ok_def bindings_ok_def names_ok_def same)
  moreover have "parser_rel p (bump_next_local p)" by (simp add: parser_rel_def same)
  ultimately have "st p0 t S L (bump_next_local p)"
    by (rule st_step [OF st]) (use st in \<open>simp add: st_def same\<close>)
  then show ?thesis by (rule st_local) (simp add: same)
qed

lemma reserve_hidden_local_rule:
  assumes st: "st p0 t S L p" and Q: "\<And>i q. st p0 t S (insert i L) q \<Longrightarrow> Q i q"
  shows "p_wp frothy_reserve_hidden_local p Q"
proof -
  have "ps_frames p \<noteq> []" using st by (simp add: st_def parser_ok_def)
  then show ?thesis
    using Q [OF bump_next_local_st [OF st]]
    by (simp add: frothy_reserve_hidden_local_def p_spec_get frothy_current_frame_def p_spec_do p_spec_ok
        next_local_def)
qed

lemma declare_local_rule:
  assumes st: "st p0 t S L p"
    and Q: "\<And>i q. next_local q = Suc (next_local p) \<Longrightarrow> current_kind q = current_kind p \<Longrightarrow>
      st p0 t S (insert i L) q \<Longrightarrow> Q i q"
    and E: "E p"
  shows "p_spec (frothy_declare_local token) p Q E"
proof -
  have ok: "parser_ok p" using st by (rule st_ok)
  then have ne: "ps_frames p \<noteq> []" by (simp add: parser_ok_def)
  have main: "p_spec (p_try frothy_parser_reserve_bindings (\<lambda>_.
      p_do (\<lambda>r. bump_next_local (r\<lparr>ps_bindings := ps_bindings r @
         [\<lparr>bd_name = name, bd_local_index = i, bd_scope_index = length (ps_scopes p) - 1\<rparr>]\<rparr>))
        (p_ok i))) p Q E" if "ps_scopes p \<noteq> []" "i = next_local p" for name i
  proof (cases "reserve_one (length (ps_bindings p)) (ps_binding_capacity p) 8 FROTHY_PARSER_BINDING_CAPACITY")
    case (Inl e)
    then show ?thesis using E
      by (simp add: p_try_def p_attempt_def frothy_parser_reserve_bindings_def p_fail_def p_spec_def)
  next
    case (Inr c)
    have cap: "capacity_ok (Suc (length (ps_bindings p))) c FROTHY_PARSER_BINDING_CAPACITY"
      using ok by (intro reserve_one_ok [OF Inr]) (simp_all add: parser_ok_simps parser_limits)
    define q where "q = bump_next_local (p\<lparr>ps_binding_capacity := c\<rparr>)"
    define r where "r = q\<lparr>ps_bindings := ps_bindings p @
         [\<lparr>bd_name = name, bd_local_index = i, bd_scope_index = length (ps_scopes p) - 1\<rparr>]\<rparr>"
    have ok': "parser_ok (p\<lparr>ps_binding_capacity := c\<rparr>)"
      using ok cap by (simp add: parser_ok_simps capacity_ok_def)
    have "parser_rel p (p\<lparr>ps_binding_capacity := c\<rparr>)" by (simp add: parser_rel_simps)
    then have "st p0 t S L (p\<lparr>ps_binding_capacity := c\<rparr>)"
      by (rule st_step [OF st ok']) (use st in \<open>simp add: st_def tokens_left_def\<close>)
    from bump_next_local_st [OF this] have q: "st p0 t S (insert i L) q"
      using that by (simp add: q_def next_local_def)
    have same: "ps_bindings q = ps_bindings p" "ps_scopes q = ps_scopes p" "ps_binding_capacity q = c"
      "next_local q = Suc (next_local p)" "ps_current q = ps_current p"
      using ne by (simp_all add: q_def bump_next_local_def next_local_def Let_def)
    have "parser_ok r"
      using st_ok [OF q] cap that same
      by (auto simp: r_def parser_ok_simps)
    moreover have "parser_rel q r" by (simp add: r_def parser_rel_simps same)
    ultimately have "st p0 t S (insert i L) r"
      by (rule st_step [OF q]) (use q in \<open>simp add: st_def tokens_left_def r_def\<close>)
    then have "Q i r" by (intro Q) (simp_all add: r_def same current_kind_def, simp add: next_local_def same(4) [unfolded next_local_def])
    moreover have "bump_next_local (p\<lparr>ps_binding_capacity := c, ps_bindings := ps_bindings p @
         [\<lparr>bd_name = name, bd_local_index = i, bd_scope_index = length (ps_scopes p) - 1\<rparr>]\<rparr>) = r"
      using that by (simp add: r_def q_def bump_next_local_def next_local_def Let_def)
    ultimately show ?thesis using Inr
      by (simp add: p_try_def p_attempt_def frothy_parser_reserve_bindings_def p_do_def p_ok_def p_spec_def)
  qed
  show ?thesis
    unfolding frothy_declare_local_def
    using main ne E
    by (intro p_spec_get)
       (auto simp: frothy_current_frame_def next_local_def Let_def intro!: p_spec_if p_spec_fail)
qed

lemma resolve_name_rule:
  assumes st: "st p0 t S L p"
    and Q: "\<And>i. st p0 t S (insert i L) p \<Longrightarrow> Q (Some i) p" "Q None p"
  shows "p_wp (frothy_resolve_name token) p Q"
proof -
  have ok: "parser_ok p" using st by (rule st_ok)
  then have ne: "ps_frames p \<noteq> []" by (simp add: parser_ok_def)
  have local: "Q (Some (bd_local_index b)) p"
    if "find P (takeWhile (\<lambda>b. scope_base p \<le> bd_scope_index b) (rev (ps_bindings p))) = Some b" for P b
  proof -
    have "b \<in> set (takeWhile (\<lambda>b. scope_base p \<le> bd_scope_index b) (rev (ps_bindings p)))"
      using that by (auto simp: find_Some_iff)
    then have "b \<in> set (ps_bindings p)" "scope_base p \<le> bd_scope_index b"
      by (auto dest: set_takeWhileD)
    then have "bd_local_index b < next_local p" using ok by (auto simp: parser_ok_def bindings_ok_def)
    with st show ?thesis by (intro Q(1) st_local)
  qed
  show ?thesis
    unfolding frothy_resolve_name_def
    using ne Q(2)
    by (intro p_spec_get)
       (auto simp: frothy_current_frame_def Let_def scope_base_def [symmetric] p_spec_ok p_spec_fail
         intro!: p_spec_ok local split: option.splits)
qed

lemmas [step_rules] = advance_rule expect_rule take_current_rule expect_block_start_rule
  expect_binding_operator_rule expect_set_operator_rule skip_semicolons_rule push_rule
  make_literal_node_rule make_read_local_rule make_write_local_rule make_slot_node_rules
  make_place_node_rules make_if_rule make_while_rule flush_seq_rule flush_call_rule make_seq_of_rule
  make_single_item_seq_rule make_builtin_call_rule make_top_level_write_slot_rules
  make_short_circuit_rule reserve_hidden_local_rule declare_local_rule resolve_name_rule

end
