(* ===== verification/Frothy_Parse_Top.thy ===== *)
theory Frothy_Parse_Top
  imports Frothy_Parser
begin

section \<open>Top-level forms and the entry points (frothy_parser.c)\<close>

text \<open>
  Named functions, \<^verbatim>\<open>boot\<close>, \<^verbatim>\<open>to\<close>, \<^verbatim>\<open>record\<close> and \<^verbatim>\<open>in\<close>, the recursion over goals, and
  \<open>frothy_parse_top_level\<close> with its prefix variant.
\<close>

datatype frothy_top_level_named_fn_kind =
  TOP_LEVEL_NAMED_FN_NONE | TOP_LEVEL_NAMED_FN_EXPR | TOP_LEVEL_NAMED_FN_BLOCK

text \<open>The parameter names are skipped, without declaring them; \<open>False\<close> is the code's \<^verbatim>\<open>goto done\<close>.\<close>

definition look_parameter_step :: "unit \<Rightarrow> (unit + bool) parsing" where
  "look_parameter_step _ =
     p_get current_kind (\<lambda>kind.
     if kind = TOKEN_RPAREN then p_ok (Inr True)
     else if kind \<noteq> TOKEN_NAME then p_ok (Inr False)
     else
       p_try frothy_parser_advance (\<lambda>_.
       p_get current_kind (\<lambda>kind.
       if kind \<noteq> TOKEN_COMMA then p_ok (Inr True)
       else p_try frothy_parser_advance (\<lambda>_. p_ok (Inl ())))))"

definition look_named_fn :: "frothy_top_level_named_fn_kind parsing" where
  "look_named_fn =
     p_get id (\<lambda>p.
     if current_kind p \<noteq> TOKEN_NAME \<or> next_kind p \<noteq> TOKEN_LPAREN then p_ok TOP_LEVEL_NAMED_FN_NONE
     else
       p_try frothy_parser_advance (\<lambda>_.
       p_try (frothy_parser_expect TOKEN_LPAREN) (\<lambda>_.
       p_try (p_while look_parameter_step ()) (\<lambda>listed.
       p_get current_kind (\<lambda>kind.
       if \<not> listed \<or> kind \<noteq> TOKEN_RPAREN then p_ok TOP_LEVEL_NAMED_FN_NONE
       else
         p_try frothy_parser_advance (\<lambda>_.
         p_get current_kind (\<lambda>kind.
         p_ok (if kind = TOKEN_EQUAL then TOP_LEVEL_NAMED_FN_EXPR
               else if kind = TOKEN_LBRACE then TOP_LEVEL_NAMED_FN_BLOCK
               else TOP_LEVEL_NAMED_FN_NONE))))))))"

definition frothy_match_top_level_named_fn ::
  "(frothy_top_level_named_fn_kind \<Rightarrow> 'a parsing) \<Rightarrow> 'a parsing" where
  "frothy_match_top_level_named_fn k =
     p_look look_named_fn (\<lambda>r. k (case r of Inl _ \<Rightarrow> TOP_LEVEL_NAMED_FN_NONE | Inr kind \<Rightarrow> kind))"

definition frothy_parse_top_level_named_fn ::
  "goal_parser \<Rightarrow> frothy_token \<Rightarrow> frothy_fn_body_kind \<Rightarrow> node_id parsing" where
  "frothy_parse_top_level_named_fn rec token body_kind =
     p_try (frothy_parse_fn_node rec FN_PARAMS_LIST body_kind) (\<lambda>fn_node.
     frothy_make_top_level_write_slot_token token fn_node)"

definition frothy_parse_top_level_boot_block :: "goal_parser \<Rightarrow> node_id parsing" where
  "frothy_parse_top_level_boot_block rec =
     p_try frothy_parser_advance (\<lambda>_.
     p_try (frothy_parse_fn_node rec FN_PARAMS_NONE FN_BODY_BLOCK) (\<lambda>fn_node.
     frothy_make_top_level_write_slot_range (ascii ''boot'') fn_node))"

definition frothy_parse_top_level_to :: "goal_parser \<Rightarrow> node_id parsing" where
  "frothy_parse_top_level_to rec =
     p_try (frothy_parser_expect TOKEN_KW_TO) (\<lambda>_.
     p_get current_kind (\<lambda>kind.
     if kind \<noteq> TOKEN_NAME then p_fail FROTH_ERROR_SIGNATURE
     else
       take_current (\<lambda>token.
       p_try frothy_parser_advance (\<lambda>_.
       p_get current_kind (\<lambda>kind.
       let params = (if kind = TOKEN_KW_WITH then FN_PARAMS_WITH else FN_PARAMS_NONE)
       in if params = FN_PARAMS_NONE \<and> \<not> frothy_token_is_block_start kind
          then p_fail FROTH_ERROR_SIGNATURE
          else
            p_try (frothy_parse_fn_node rec params FN_BODY_BLOCK) (\<lambda>fn_node.
            frothy_make_top_level_write_slot_token token fn_node))))))"

text \<open>A name and a binding operator: the value, and the write of the slot.\<close>

definition parse_top_level_binding :: "goal_parser \<Rightarrow> node_id parsing" where
  "parse_top_level_binding rec =
     take_current (\<lambda>token.
     p_try frothy_parser_advance (\<lambda>_.
     p_try frothy_parser_expect_binding_operator (\<lambda>_.
     p_get current_kind (\<lambda>kind.
     p_try (if kind = TOKEN_KW_CELLS then frothy_parse_cells True else rec (GOAL_EXPR False)) (\<lambda>v.
     frothy_make_top_level_write_slot_token token v)))))"

definition parse_named_fn_form ::
  "goal_parser \<Rightarrow> frothy_top_level_named_fn_kind \<Rightarrow> node_id parsing" where
  "parse_named_fn_form rec kind =
     take_current (\<lambda>token.
     p_try frothy_parser_advance (\<lambda>_.
     frothy_parse_top_level_named_fn rec token
       (if kind = TOP_LEVEL_NAMED_FN_EXPR then FN_BODY_EXPR else FN_BODY_BLOCK)))"

subsection \<open>Records\<close>

definition frothy_record_fields_contain_name ::
  "frothy_ir_program \<Rightarrow> nat \<Rightarrow> nat \<Rightarrow> byte list \<Rightarrow> bool" where
  "frothy_record_fields_contain_name g first_f n name \<longleftrightarrow>
     (\<exists>i \<in> set [0..<n].
        case ir_literals g ! (ir_links g ! (first_f + i)) of
          LITERAL_TEXT t \<Rightarrow> c_string t = name
        | _ \<Rightarrow> False)"

definition record_field_step :: "nat \<Rightarrow> nat \<Rightarrow> (nat + nat) parsing" where
  "record_field_step first_f n =
     p_get id (\<lambda>p.
     if \<not> frothy_token_is_simple_name (ps_source p) (ps_current p) then p_fail FROTH_ERROR_SIGNATURE
     else if frothy_record_fields_contain_name (ps_program p) first_f n (current_name p)
     then p_fail FROTH_ERROR_SIGNATURE
     else
       p_try (frothy_add_text_literal (current_name p)) (\<lambda>literal_id.
       p_try (frothy_program_append_link literal_id) (\<lambda>_.
       p_try frothy_parser_advance (\<lambda>_.
       p_get current_kind (\<lambda>kind.
       if kind \<noteq> TOKEN_COMMA then p_ok (Inr (n + 1))
       else p_try frothy_parser_advance (\<lambda>_. p_ok (Inl (n + 1))))))))"

definition frothy_parse_top_level_record :: "node_id parsing" where
  "frothy_parse_top_level_record =
     p_get (\<lambda>p. length (ir_links (ps_program p))) (\<lambda>first_f.
     p_try (frothy_parser_expect TOKEN_KW_RECORD) (\<lambda>_.
     p_get id (\<lambda>p.
     if \<not> frothy_token_is_simple_name (ps_source p) (ps_current p) then p_fail FROTH_ERROR_SIGNATURE
     else
       take_current (\<lambda>token.
       p_try frothy_parser_advance (\<lambda>_.
       p_try (frothy_parser_expect TOKEN_LBRACKET) (\<lambda>_.
       p_get current_kind (\<lambda>kind.
       if kind = TOKEN_RBRACKET then p_fail FROTH_ERROR_BOUNDS
       else
         p_try (p_while (record_field_step first_f) 0) (\<lambda>n.
         p_try (frothy_parser_expect TOKEN_RBRACKET) (\<lambda>_.
         p_get ps_active_prefix (\<lambda>prefix.
         p_try (frothy_make_record_def_node
                  (frothy_join_prefix_name prefix (token_bytes (ps_source p) token)) first_f n)
           (\<lambda>record_def_node.
         frothy_make_top_level_write_slot_token token record_def_node)))))))))))"

subsection \<open>Prefix blocks\<close>

definition frothy_parse_in_item :: "goal_parser \<Rightarrow> node_id parsing" where
  "frothy_parse_in_item rec =
     frothy_match_top_level_named_fn (\<lambda>named_fn_kind.
     p_get current_kind (\<lambda>kind. p_get next_kind (\<lambda>next.
     if kind = TOKEN_NAME \<and> frothy_token_is_binding_operator next then parse_top_level_binding rec
     else if kind = TOKEN_KW_TO then frothy_parse_top_level_to rec
     else if kind = TOKEN_KW_RECORD then frothy_parse_top_level_record
     else if named_fn_kind \<noteq> TOP_LEVEL_NAMED_FN_NONE then parse_named_fn_form rec named_fn_kind
     else if kind = TOKEN_KW_IN then rec GOAL_IN
     else p_fail FROTH_ERROR_SIGNATURE)))"

definition in_step ::
  "goal_parser \<Rightarrow> frothy_token_kind \<Rightarrow> frothy_node_list \<Rightarrow> (frothy_node_list + frothy_node_list) parsing"
where
  "in_step rec close_kind items =
     p_get current_kind (\<lambda>kind.
     if kind = close_kind then p_ok (Inr items)
     else if kind = TOKEN_EOF then p_fail FROTH_ERROR_SIGNATURE
     else if kind = TOKEN_SEMICOLON then p_try frothy_parser_advance (\<lambda>_. p_ok (Inl items))
     else
       p_try (frothy_parse_in_item rec) (\<lambda>item.
       p_try (frothy_node_list_push items item) (\<lambda>items.
       p_try skip_semicolons (\<lambda>_. p_ok (Inl items)))))"

definition in_contents :: "goal_parser \<Rightarrow> frothy_token_kind \<Rightarrow> node_id parsing" where
  "in_contents rec close_kind =
     p_try (p_while (in_step rec close_kind) empty_node_list) (\<lambda>items.
     p_try (frothy_parser_expect close_kind) (\<lambda>_.
     p_try (frothy_node_list_flush items) (\<lambda>first.
     frothy_make_seq_node first (length (fst items)))))"

definition frothy_parse_in :: "goal_parser \<Rightarrow> node_id parsing" where
  "frothy_parse_in rec =
     p_get ps_active_prefix (\<lambda>outer_prefix.
     p_try (frothy_parser_expect TOKEN_KW_IN) (\<lambda>_.
     p_get id (\<lambda>p.
     if current_kind p \<noteq> TOKEN_NAME then p_fail FROTH_ERROR_SIGNATURE
     else
       p_try frothy_parser_advance (\<lambda>_.
       p_try frothy_parser_expect_block_start (\<lambda>close_kind.
       p_do (\<lambda>q. q\<lparr>ps_active_prefix := Some (frothy_join_prefix_name outer_prefix (current_name p))\<rparr>)
         (p_attempt (in_contents rec close_kind) (\<lambda>r.
          p_do (\<lambda>q. q\<lparr>ps_active_prefix := outer_prefix\<rparr>) (p_result r))))))))"

subsection \<open>The recursion\<close>

definition parse_step :: "goal_parser \<Rightarrow> goal_parser" where
  "parse_step rec goal =
     (case goal of
        GOAL_EXPR allow \<Rightarrow> frothy_parse_expr rec allow
      | GOAL_PREFIX allow \<Rightarrow> frothy_parse_prefix rec allow
      | GOAL_IN \<Rightarrow> frothy_parse_in rec)"

primrec parse_fuel :: "nat \<Rightarrow> goal_parser" where
  "parse_fuel 0 = (\<lambda>goal p. None)"
| "parse_fuel (Suc n) = parse_step (parse_fuel n)"

text \<open>Every recursive call comes after at least one token, so this fuel is enough.\<close>

definition run_goal :: goal_parser where
  "run_goal goal = (\<lambda>p. parse_fuel (Suc (tokens_left p)) goal p)"

subsection \<open>A whole form\<close>

definition parse_top_level_form :: "node_id parsing" where
  "parse_top_level_form =
     frothy_match_top_level_named_fn (\<lambda>named_fn_kind.
     p_get id (\<lambda>p.
     let kind = current_kind p; next = next_kind p
     in if kind = TOKEN_NAME \<and> frothy_token_is_binding_operator next
        then parse_top_level_binding run_goal
        else if kind = TOKEN_NAME \<and> next = TOKEN_LBRACE \<and>
                frothy_token_matches_name (ps_source p) (ps_current p) (ascii ''boot'')
        then frothy_parse_top_level_boot_block run_goal
        else if kind = TOKEN_KW_TO then frothy_parse_top_level_to run_goal
        else if kind = TOKEN_KW_RECORD then frothy_parse_top_level_record
        else if named_fn_kind \<noteq> TOP_LEVEL_NAMED_FN_NONE
        then parse_named_fn_form run_goal named_fn_kind
        else if kind = TOKEN_KW_IN then run_goal GOAL_IN
        else if kind = TOKEN_KW_SET then frothy_parse_set_item run_goal
        else run_goal (GOAL_EXPR False)))"

definition init_parser :: "byte list \<Rightarrow> frothy_parser" where
  "init_parser source = \<lparr>ps_source = source, ps_cursor = 0, ps_prev_token_end = None,
     ps_prefer_block = False, ps_current = frothy_token_clear, ps_next = frothy_token_clear,
     ps_program = frothy_ir_program_init, ps_literal_capacity = 0, ps_node_capacity = 0,
     ps_link_capacity = 0, ps_bindings = [], ps_binding_capacity = 0, ps_scopes = [],
     ps_scope_capacity = 0, ps_frames = [], ps_frame_capacity = 0, ps_active_prefix = None\<rparr>"

definition lex_into :: "(frothy_token \<Rightarrow> frothy_parser \<Rightarrow> frothy_parser) \<Rightarrow> unit parsing" where
  "lex_into upd = (\<lambda>p.
     case frothy_lex_next (ps_source p) (ps_cursor p) of
       (r, token, cursor) \<Rightarrow> Some (r, upd token (p\<lparr>ps_cursor := cursor\<rparr>)))"

text \<open>The program with its root, and how far the source was consumed.\<close>

definition finish_top_level :: "bool \<Rightarrow> node_id \<Rightarrow> (frothy_ir_program \<times> nat) parsing" where
  "finish_top_level require_eof root =
     p_try skip_semicolons (\<lambda>_.
     p_get id (\<lambda>p.
     if require_eof \<and> current_kind p \<noteq> TOKEN_EOF then p_fail FROTH_ERROR_SIGNATURE
     else
       p_ok ((ps_program p)\<lparr>ir_root := root,
               ir_root_local_count := fr_next_local_index (last (ps_frames p))\<rparr>,
             case tk_start (ps_current p) of Some start \<Rightarrow> start | None \<Rightarrow> ps_cursor p)))"

definition top_level_steps :: "bool \<Rightarrow> (frothy_ir_program \<times> nat) parsing" where
  "top_level_steps require_eof =
     p_try (lex_into (\<lambda>token p. p\<lparr>ps_current := token\<rparr>)) (\<lambda>_.
     p_try (lex_into (\<lambda>token p. p\<lparr>ps_next := token\<rparr>)) (\<lambda>_.
     p_try (frothy_push_frame False) (\<lambda>_.
     p_try parse_top_level_form (\<lambda>root. finish_top_level require_eof root))))"

definition frothy_parse_top_level_internal ::
  "byte list \<Rightarrow> bool \<Rightarrow> (frothy_ir_program \<times> nat) result option" where
  "frothy_parse_top_level_internal source require_eof =
     map_option fst (top_level_steps require_eof (init_parser source))"

definition frothy_parse_top_level :: "byte list \<Rightarrow> frothy_ir_program result option" where
  "frothy_parse_top_level source =
     map_option (map_sum id fst) (frothy_parse_top_level_internal source True)"

definition frothy_parse_top_level_prefix ::
  "byte list \<Rightarrow> (frothy_ir_program \<times> nat) result option" where
  "frothy_parse_top_level_prefix source = frothy_parse_top_level_internal source False"

end
