(* ===== verification/Frothy_Parse_Forms.thy ===== *)
theory Frothy_Parse_Forms
  imports Frothy_Parse_Steps Frothy_Parse_Top
begin

section \<open>Rules for the forms that do not recurse\<close>

text \<open>
  The rules for parameters, literals, branch chains, loops over the fields of a record and the other parts
  of the grammar that call no expression parser, in the style of \<open>Frothy_Parse_Steps\<close>.
\<close>

subsection \<open>What is known of a node\<close>

lemma st_children:
  assumes "st p0 t S L p" and "n \<in> S"
  shows "st p0 t (S \<union> set (node_children (ps_program p) (program_node p n))) L p"
  using assms by (auto simp: st_def node_at_def program_node_def dest: locals_fitD)

lemma st_node_local:
  assumes "st p0 t S L p" and "n \<in> S" and "node_local (program_node p n) = Some i"
  shows "st p0 t S (insert i L) p"
proof (rule st_local [OF assms(1)])
  have "locals_fit (ps_program p) (next_local p) n" using assms by (simp add: st_def node_at_def)
  then show "i < next_local p"
    using assms(3) by (auto simp: program_node_def local_below_def dest: locals_fitD)
qed

fun place_good :: "node_id set \<Rightarrow> nat set \<Rightarrow> frothy_place \<Rightarrow> bool" where
  "place_good S L (PLACE_LOCAL i) = (i \<in> L)"
| "place_good S L (PLACE_SLOT s) = True"
| "place_good S L (PLACE_SLOT_FALLBACK s f) = True"
| "place_good S L (PLACE_INDEX b i) = (b \<in> S \<and> i \<in> S)"
| "place_good S L (PLACE_FIELD b f) = (b \<in> S)"

lemma place_good_mono: "place_good S L place \<Longrightarrow> S \<subseteq> S' \<Longrightarrow> L \<subseteq> L' \<Longrightarrow> place_good S' L' place"
  by (cases place) auto

subsection \<open>Parameters\<close>

text \<open>After an error too the state is good, which the callers that ignore it rely on.\<close>

lemma parameter_step_rule:
  assumes st: "st p0 t S L p"
    and Q: "\<And>q t'. t' < t \<Longrightarrow> st p0 t' S L q \<Longrightarrow> next_local q = Suc (next_local p) \<Longrightarrow>
      Q (Inl (arity + 1)) q \<and> Q (Inr (arity + 1)) q"
    and E: "\<And>q. st p0 t S L q \<Longrightarrow> E q"
  shows "p_spec (parameter_step arity) p Q E"
proof -
  have E': "E q" if "st p0 t' S L' q" and "t' \<le> t" and "L \<subseteq> L'" for q t' L'
    by (rule E, rule st_weaken [OF that(1)]) (use that in auto)
  have Q': "Q (Inl (arity + 1)) q \<and> Q (Inr (arity + 1)) q"
    if "st p0 t' S L' q" and "t' < t" and "L \<subseteq> L'" and "next_local q = Suc (next_local p)" for q t' L'
    by (rule Q [OF that(2) _ that(4)], rule st_weaken [OF that(1)]) (use that in auto)
  note same = same_core_next_local
  show ?thesis
    unfolding parameter_step_def
  proof (intro p_spec_get p_spec_if)
    assume "\<not> current_kind p \<noteq> TOKEN_NAME"
    then show "p_spec (take_current (\<lambda>token. p_try frothy_parser_advance (\<lambda>_.
       p_try (frothy_declare_local token) (\<lambda>_. p_get current_kind (\<lambda>kind.
       if kind \<noteq> TOKEN_COMMA then p_ok (Inr (arity + 1))
       else p_try frothy_parser_advance (\<lambda>_. p_ok (Inl (arity + 1)))))))) p Q E"
      apply -
      apply (rule take_current_rule [OF st], simp)
      apply (rule p_spec_try, rule advance_rule, assumption)
       apply (rule p_spec_try, rule declare_local_rule, assumption)
        apply (rule p_spec_get, rule p_spec_if)
         apply (rule p_spec_ok, rule conjunct2 [OF Q'], assumption)
           apply (auto dest!: same)[3]
        apply (rule p_spec_try, rule advance_rule, assumption)
         apply (rule p_spec_ok, rule conjunct1 [OF Q'], assumption)
           apply (auto dest!: same)[3]
        apply ((rule E', assumption, simp, blast)[1])
       apply ((rule E', assumption, simp, simp)[1])
      apply ((rule E', assumption, simp, simp)[1])
      done
  qed (use E [OF st] in \<open>simp add: p_spec_fail\<close>)
qed

lemma parameters_while_rule:
  assumes st: "st p0 t S L p"
    and Q: "\<And>arity q t'. t' \<le> t \<Longrightarrow> st p0 t' S L q \<Longrightarrow> arity \<le> next_local q \<Longrightarrow> Q arity q"
    and E: "\<And>q t'. t' \<le> t \<Longrightarrow> st p0 t' S L q \<Longrightarrow> E q"
    and body: "\<And>arity q u R. st p0 u S L q \<Longrightarrow> arity \<le> next_local q \<Longrightarrow> R (Inr arity) q \<Longrightarrow>
      p_spec (parameter_step arity) q R E \<Longrightarrow> p_spec (body arity) q R E"
  shows "p_spec (p_while body 0) p Q E"
proof (rule while_rule [OF st, where I = "\<lambda>arity q. arity \<le> next_local q"])
  have Q': "Q arity q" if "st p0 t' S L q" and "t' < u" and "u \<le> t" and "arity \<le> next_local q" for arity q t' u
    by (rule Q [OF _ that(1) that(4)]) (use that in simp)
  have E': "E q" if "st p0 u S L q" and "u \<le> t" for q u using that E by blast
  fix arity q assume q: "st p0 (tokens_left q) S L q" "tokens_left q \<le> t" "arity \<le> next_local q"
  show "p_spec (body arity) q (\<lambda>r q'. case r of
      Inl s' \<Rightarrow> s' \<le> next_local q' \<and> (\<exists>t' < tokens_left q. st p0 t' S L q') | Inr b \<Rightarrow> Q b q') E"
  proof (rule body [OF q(1,3)])
    show "p_spec (parameter_step arity) q (\<lambda>r q'. case r of
      Inl s' \<Rightarrow> s' \<le> next_local q' \<and> (\<exists>t' < tokens_left q. st p0 t' S L q') | Inr b \<Rightarrow> Q b q') E"
      by (rule parameter_step_rule [OF q(1)]) (use q in \<open>auto intro: Q' E'\<close>)
  qed (use q in \<open>simp add: Q\<close>)
qed simp

lemma fn_params_rule:
  assumes st: "st p0 t S L p"
    and Q: "\<And>arity q t'. t' \<le> t \<Longrightarrow> st p0 t' S L q \<Longrightarrow> arity \<le> next_local q \<Longrightarrow> Q arity q"
  shows "p_wp (parse_fn_params params_kind) p Q"
proof (cases params_kind)
  case FN_PARAMS_NONE
  then show ?thesis using Q [OF order_refl st] by (simp add: parse_fn_params_def p_spec_ok)
next
  case FN_PARAMS_WITH
  have "p_wp (p_while parameter_step 0) q Q" if "st p0 t' S L q" "t' \<le> t" for q t'
    by (rule parameters_while_rule [OF that(1)]) (use that(2) in \<open>auto intro: Q order_trans\<close>)
  then show ?thesis
    unfolding FN_PARAMS_WITH parse_fn_params_def frothy_parse_with_parameter_list_def
    by (simp, intro p_spec_try expect_rule [OF st]) auto
next
  case FN_PARAMS_LIST
  let ?E = "\<lambda>q. Q 0 q"
  have E: "Q 0 q" if "st p0 t' S L q" "t' \<le> t" for q t' by (rule Q [OF that(2,1)]) simp
  have loop: "p_spec (p_while (\<lambda>arity. p_get current_kind (\<lambda>kind.
      if kind = TOKEN_RPAREN then p_ok (Inr arity) else parameter_step arity)) 0) q
      (\<lambda>arity q. p_spec (p_try (frothy_parser_expect TOKEN_RPAREN) (\<lambda>_. p_ok arity)) q Q ?E) ?E"
    if "st p0 t' S L q" "t' \<le> t" for q t'
  proof (rule parameters_while_rule [OF that(1)])
    fix arity q u assume q: "u \<le> t'" "st p0 u S L q" "arity \<le> next_local q"
    show "p_spec (p_try (frothy_parser_expect TOKEN_RPAREN) (\<lambda>_. p_ok arity)) q Q ?E"
      apply (intro p_spec_try expect_rule [OF q(2)] p_spec_ok)
       apply (erule (1) Q [OF order_trans [OF _ order_trans [OF q(1) that(2)]]])
       apply (use q(3) in \<open>simp add: same_core_next_local\<close>)
      by (erule E) (use q that in simp)
  next
    fix arity q u R
    assume "R (Inr arity) q" "p_spec (parameter_step arity) q R ?E"
    then show "p_spec (p_get current_kind (\<lambda>kind.
        if kind = TOKEN_RPAREN then p_ok (Inr arity) else parameter_step arity)) q R ?E"
      by (intro p_spec_get p_spec_if p_spec_ok)
  qed (use that in \<open>auto intro: E\<close>)
  have "p_spec frothy_parse_parameter_list p Q ?E"
    unfolding frothy_parse_parameter_list_def
    by (rule p_spec_try, rule expect_rule [OF st], rule p_spec_try, rule loop) (auto intro: E)
  then show ?thesis
    unfolding FN_PARAMS_LIST parse_fn_params_def frothy_fn_params_kind.case
    by (intro p_spec_attempt, elim p_spec_mono) (auto intro: p_spec_ok)
qed

text \<open>The nodes of the branches collected so far.\<close>

definition branch_nodes :: "branches \<Rightarrow> node_id set" where
  "branch_nodes bs = set (fst (fst bs)) \<union> set (fst (snd bs))"

lemma p_spec_conj:
  assumes "p_spec m p Q E" and "p_wp m p Q'"
  shows "p_spec m p (\<lambda>x q. Q x q \<and> Q' x q) E"
  using assms(1) by (rule p_spec_cases) (use assms(2) in \<open>simp_all add: p_spec_def\<close>)

lemma make_literal_keeps_current:
  assumes "st p0 t S L p"
  shows "p_wp (frothy_make_literal_node literal) p (\<lambda>n q. ps_current q = ps_current p)"
  using make_literal_node_rule [OF assms, where Q = "\<lambda>_ _. True"]
  by (auto simp: p_spec_def frothy_make_literal_node_def frothy_program_add_literal_def
      frothy_program_add_node_def frothy_program_reserve_literals_def frothy_program_reserve_nodes_def
      p_try_def p_attempt_def p_get_def p_do_def p_ok_def p_fail_def p_program_def
      split: option.splits sum.splits prod.splits)

lemma literal_and_advance_rule [step_rules]:
  assumes st: "st p0 t S L p"
    and Q: "\<And>n q t'. t' \<le> t \<Longrightarrow> t' < t \<or> current_kind p = TOKEN_EOF \<Longrightarrow> st p0 t' (insert n S) L q \<Longrightarrow> Q n q"
  shows "p_wp (literal_and_advance literal) p Q"
  unfolding literal_and_advance_def
proof (rule p_spec_try, rule p_spec_mono)
  show "p_wp (frothy_make_literal_node literal) p
      (\<lambda>n q. st p0 t (insert n S) L q \<and> ps_current q = ps_current p)"
    by (rule p_spec_conj [OF make_literal_node_rule [OF st] make_literal_keeps_current [OF st]])
next
  fix n q assume q: "st p0 t (insert n S) L q \<and> ps_current q = ps_current p"
  then show "p_wp (p_try frothy_parser_advance (\<lambda>_. p_ok n)) q Q"
    by (intro p_spec_try advance_rule [OF conjunct1 [OF q]] p_spec_ok Q) (auto simp: current_kind_def)
qed simp

lemma simple_literal_kind: "simple_literal token = Some l \<Longrightarrow> tk_kind token \<noteq> TOKEN_EOF"
  by (auto simp: simple_literal_def)

lemma parse_case_literal_rule [step_rules]:
  assumes st: "st p0 t S L p"
    and Q: "\<And>n q t'. t' < t \<Longrightarrow> st p0 t' (insert n S) L q \<Longrightarrow> Q n q"
  shows "p_wp frothy_parse_case_literal p Q"
proof -
  have fin: "Q n q" if "st p0 t' S' L' q" and "t' < t" and "insert n S \<subseteq> S'" and "L \<subseteq> L'" for n q t' S' L'
    by (rule Q [OF that(2)], rule st_weaken [OF that(1)]) (use that in auto)
  show ?thesis
    unfolding frothy_parse_case_literal_def
    by (rule p_rules step_rules fin | rule st | assumption | (simp; fail)
        | (auto simp: current_kind_def dest: simple_literal_kind; fail))+
qed

lemma chain_start_rule [step_rules]:
  assumes "st p0 t S L p" and "set_option else_body \<subseteq> S"
    and Q: "\<And>n q. st p0 t (insert n S) L q \<Longrightarrow> Q n q"
  shows "p_wp (chain_start else_body) p Q"
  using assms
  by (cases else_body)
     (auto simp: chain_start_def frothy_make_nil_literal_node_def insert_absorb
       intro!: p_spec_ok make_literal_node_rule)

lemma cond_chain_rule:
  assumes "st p0 t S L p" and "\<forall>x \<in> set bs. fst x \<in> S \<and> snd x \<in> S" and "chain \<in> S"
    and "\<And>n q S'. S \<subseteq> S' \<Longrightarrow> n \<in> S' \<Longrightarrow> st p0 t S' L q \<Longrightarrow> Q n q"
  shows "p_wp (cond_chain bs chain) p Q"
  using assms
proof (induction bs chain arbitrary: p S rule: cond_chain.induct)
  case (2 condition body rest chain)
  show ?case
    unfolding cond_chain.simps
    apply (rule p_spec_try, rule make_if_rule [OF "2.prems"(1)])
    using "2.prems"(2,3) apply simp_all
    by (rule "2.IH", assumption) (use "2.prems"(2,4) in auto)
qed (auto intro: p_spec_ok)

lemma case_chain_rule:
  assumes "st p0 t S L p" and "\<forall>x \<in> set bs. fst x \<in> S \<and> snd x \<in> S" and "chain \<in> S" and "hidden \<in> L"
    and "\<And>n q S'. S \<subseteq> S' \<Longrightarrow> n \<in> S' \<Longrightarrow> st p0 t S' L q \<Longrightarrow> Q n q"
  shows "p_wp (case_chain hidden bs chain) p Q"
  using assms
proof (induction hidden bs chain arbitrary: p S rule: case_chain.induct)
  case (2 hidden match_value body rest chain)
  show ?case
    unfolding case_chain.simps
    apply (rule p_spec_try, rule make_read_local_rule [OF "2.prems"(1,4)])
    apply (rule p_spec_try, rule make_builtin_call_rule, assumption)
    using "2.prems"(2,3) apply (simp_all add: builtin_arity_def)[3]
    apply (rule p_spec_try, rule make_if_rule, assumption)
    using "2.prems"(2,3) apply simp_all
    by (rule "2.IH", assumption) (use "2.prems"(2,4,5) in auto)
qed (auto intro: p_spec_ok)

lemma branch_nodes_zip: "x \<in> set (zip (fst (fst bs)) (fst (snd bs))) \<Longrightarrow>
   fst x \<in> branch_nodes bs \<and> snd x \<in> branch_nodes bs"
  by (cases x) (auto simp: branch_nodes_def dest: set_zip_leftD set_zip_rightD)

lemma branch_nodes_push:
  "branch_nodes ((fst (fst bs) @ [c], x), (fst (snd bs) @ [b], y)) = insert c (insert b (branch_nodes bs))"
  by (auto simp: branch_nodes_def)

lemma branch_nodes_start:
  "st p0 t S L p \<Longrightarrow> st p0 t (S \<union> branch_nodes (empty_node_list, empty_node_list)) L p"
  by (simp add: branch_nodes_def empty_node_list_def)

lemma push_branch_rule:
  assumes "st p0 u' (insert b (insert c (S \<union> branch_nodes bs))) L q" and "u' < u"
  shows "p_wp (push_branch bs c b) q (loop_post p0 u S branch_nodes L Q)"
  unfolding push_branch_def
  apply (rule p_spec_try, rule push_rule, rule p_spec_try, rule push_rule)
  apply (rule p_spec_try, rule skip_semicolons_rule [OF assms(1)], rule p_spec_ok)
  by (rule loop_post_again, assumption) (use assms(2) in \<open>auto simp: branch_nodes_push\<close>)

lemma build_repeat_rule:
  assumes st: "st p0 t S L p" and "count_expr \<in> S" and "body \<in> S" and "set_option index \<subseteq> L"
    and Q: "\<And>n q S' L'. insert n S \<subseteq> S' \<Longrightarrow> L \<subseteq> L' \<Longrightarrow> st p0 t S' L' q \<Longrightarrow> Q n q"
  shows "p_wp (build_repeat count_expr index body) p Q"
proof -
  have fin: "Q n q" if "st p0 t S' L' q" and "insert n S \<subseteq> S'" and "L \<subseteq> L'" for n q S' L'
    using Q that by blast
  show ?thesis
    unfolding build_repeat_def frothy_make_int_literal_node_def using assms(2-4)
    by - (rule p_rules step_rules fin | rule st | assumption | (simp add: builtin_arity_def; fail)
        | (auto; fail))+
qed

lemma declare_index_rule:
  assumes st: "st p0 t S L p"
    and Q: "\<And>i q L'. L \<subseteq> L' \<Longrightarrow> set_option i \<subseteq> L' \<Longrightarrow> st p0 t S L' q \<Longrightarrow> Q i q"
  shows "p_wp (declare_index token) p Q"
  unfolding declare_index_def
  by (rule p_spec_option, rule p_spec_ok, rule Q [OF _ _ st], simp, simp, rule p_spec_try,
      rule declare_local_rule [OF st], rule p_spec_ok, erule Q [rotated 2]) auto

lemma parse_repeat_index_rule [step_rules]:
  assumes st: "st p0 t S L p" and Q: "\<And>i q t'. t' \<le> t \<Longrightarrow> st p0 t' S L q \<Longrightarrow> Q i q"
  shows "p_wp parse_repeat_index p Q"
proof -
  have fin: "Q i q" if "st p0 t' S L q" and "t' \<le> t" for i q t' using Q that by blast
  show ?thesis
    unfolding parse_repeat_index_def
    by - (rule p_rules step_rules fin | rule st | assumption | (simp; fail))+
qed

lemma parse_cells_rule [step_rules]:
  assumes st: "st p0 t S L p"
    and Q: "\<And>n q t'. t' < t \<Longrightarrow> st p0 t' (insert n S) L q \<Longrightarrow> Q n q"
  shows "p_wp (frothy_parse_cells allow) p Q"
proof -
  have fin: "Q n q" if "st p0 t' S' L' q" and "t' < t" and "insert n S \<subseteq> S'" and "L \<subseteq> L'" for n q t' S' L'
    by (rule Q [OF that(2)], rule st_weaken [OF that(1)]) (use that in auto)
  show ?thesis
    unfolding frothy_parse_cells_def
    by - (rule p_rules step_rules fin | rule st | assumption | (simp add: builtin_arity_def; fail)
        | (auto; fail))+
qed

lemma parse_name_primary_rule:
  assumes st: "st p0 t S L p" and "current_kind p = TOKEN_NAME"
    and Q: "\<And>n q t'. t' < t \<Longrightarrow> st p0 t' (insert n S) L q \<Longrightarrow> Q n q"
  shows "p_wp parse_name_primary p Q"
proof -
  have fin: "Q n q" if "st p0 t' S' L' q" and "t' < t" and "insert n S \<subseteq> S'" and "L \<subseteq> L'" for n q t' S' L'
    by (rule Q [OF that(2)], rule st_weaken [OF that(1)]) (use that in auto)
  show ?thesis
    unfolding parse_name_primary_def using assms(2)
    by - (rule p_rules step_rules fin | rule st | assumption | (simp; fail) | (auto; fail))+
qed

lemma parse_designator_rule:
  assumes st: "st p0 t S L p" and "current_kind p = TOKEN_AT"
    and Q: "\<And>n q t'. t' < t \<Longrightarrow> st p0 t' (insert n S) L q \<Longrightarrow> Q n q"
  shows "p_wp parse_designator p Q"
proof -
  have fin: "Q n q" if "st p0 t' S' L' q" and "t' < t" and "insert n S \<subseteq> S'" and "L \<subseteq> L'" for n q t' S' L'
    by (rule Q [OF that(2)], rule st_weaken [OF that(1)]) (use that in auto)
  show ?thesis
    unfolding parse_designator_def using assms(2)
    by - (rule p_rules step_rules fin | rule st | assumption | (simp; fail) | (auto; fail))+
qed

lemma parse_field_suffix_rule:
  assumes st: "st p0 t S L p" and "current_kind p = TOKEN_ARROW" and "b \<in> S"
    and Q: "\<And>n q t'. t' < t \<Longrightarrow> st p0 t' (insert n S) L q \<Longrightarrow> Q n q"
  shows "p_wp (parse_field_suffix b) p Q"
proof -
  have fin: "Q n q" if "st p0 t' S' L' q" and "t' < t" and "insert n S \<subseteq> S'" and "L \<subseteq> L'" for n q t' S' L'
    by (rule Q [OF that(2)], rule st_weaken [OF that(1)]) (use that in auto)
  show ?thesis
    unfolding parse_field_suffix_def using assms(2,3)
    by - (rule p_rules step_rules fin | rule st | assumption | (simp; fail) | (auto; fail))+
qed

lemma not_designator_rule: "p_wp m p Q \<Longrightarrow> p_wp (not_designator n m) p Q"
  unfolding not_designator_def by (intro p_rules) simp_all

lemma empty_call_rule:
  assumes "st p0 t S L q" and "callee \<in> S" and "ps_program q = ps_program p"
    and Q: "\<And>n q. st p0 t (insert n S) L q \<Longrightarrow> Q n q"
  shows "p_wp (frothy_make_call_node BUILTIN_NONE callee (length (ir_links (ps_program p))) 0) q Q"
  by (rule make_call_rule [OF assms(1,2)]) (use assms(3) Q in \<open>simp_all add: link_range_def\<close>)

lemma look_parameter_step_rule:
  assumes st: "st p0 t S L p"
  shows "p_wp (look_parameter_step u) p (loop_post p0 t S (\<lambda>_. {}) L (\<lambda>_ q. \<exists>t'. st p0 t' S L q))"
proof -
  have fin: "\<exists>t'. st p0 t' S L q" if "st p0 u S L q" for u q using that by blast
  show ?thesis
    unfolding look_parameter_step_def
    by (rule p_rules step_rules loop_post_done loop_post_again fin | rule st | assumption | (simp; fail)
        | (auto; fail))+
qed

lemma look_named_fn_returns:
  assumes st: "st p0 t S L p"
  shows "p_wp look_named_fn p (\<lambda>kind _. kind \<noteq> TOP_LEVEL_NAMED_FN_NONE \<longrightarrow> current_kind p = TOKEN_NAME)"
proof -
  let ?Q = "\<lambda>kind _. kind \<noteq> TOP_LEVEL_NAMED_FN_NONE \<longrightarrow> current_kind p = TOKEN_NAME"
  have rest: "p_wp (p_get current_kind (\<lambda>kind.
       if \<not> listed \<or> kind \<noteq> TOKEN_RPAREN then p_ok TOP_LEVEL_NAMED_FN_NONE
       else p_try frothy_parser_advance (\<lambda>_. p_get current_kind (\<lambda>kind.
         p_ok (if kind = TOKEN_EQUAL then TOP_LEVEL_NAMED_FN_EXPR
               else if kind = TOKEN_LBRACE then TOP_LEVEL_NAMED_FN_BLOCK
               else TOP_LEVEL_NAMED_FN_NONE))))) q ?Q"
    if "st p0 u S L q" and "current_kind p = TOKEN_NAME" for u q listed
    using that by - (rule p_rules step_rules | assumption | (simp; fail))+
  have loop: "p_wp (p_while look_parameter_step ()) q (\<lambda>_ q. \<exists>t'. st p0 t' S L q)"
    if "st p0 u S L q" for u q
    by (rule while_nodes_rule [where K = "\<lambda>_. {}" and S = S and L = L and t = u and ?p0.0 = p0])
       (use that look_parameter_step_rule in auto)
  show ?thesis
    unfolding look_named_fn_def
    apply (rule p_spec_get, rule p_spec_if, rule p_spec_ok, simp)
    apply (rule p_spec_try, rule advance_rule [OF st])
     apply (rule p_spec_try, rule expect_rule, assumption)
      apply (rule p_spec_try, rule p_spec_mono [OF loop], assumption, erule exE, erule rest)
    by simp_all
qed

lemma match_named_fn_rule:
  assumes st: "st p0 t S L p"
    and "\<And>kind. kind \<noteq> TOP_LEVEL_NAMED_FN_NONE \<longrightarrow> current_kind p = TOKEN_NAME \<Longrightarrow> p_wp (k kind) p Q"
  shows "p_wp (frothy_match_top_level_named_fn k) p Q"
  using look_named_fn_returns [OF st]
  by (rule p_spec_cases)
     (use assms(2) in \<open>simp_all add: frothy_match_top_level_named_fn_def p_look_def p_spec_def\<close>)

text \<open>The fields of a record collected so far.\<close>

lemma contains_name_iff:
  assumes "first + n \<le> length (ir_links g)"
  shows "frothy_record_fields_contain_name g first n name \<longleftrightarrow> Some name \<in> set (field_texts g first n)"
proof -
  have "link_range g first n = map (\<lambda>i. ir_links g ! (first + i)) [0..<n]"
    using assms by (intro nth_equalityI) (simp_all add: link_range_def)
  then have "set (field_texts g first n) =
      (\<lambda>i. literal_text (ir_literals g ! (ir_links g ! (first + i)))) ` {0..<n}"
    by (auto simp: field_texts_def)
  moreover have "(case l of LITERAL_TEXT t \<Rightarrow> c_string t = name | _ \<Rightarrow> False) \<longleftrightarrow> literal_text l = Some name" for l
    by (cases l) simp_all
  ultimately show ?thesis by (force simp: frothy_record_fields_contain_name_def)
qed

definition fields_so_far :: "nat \<Rightarrow> nat \<Rightarrow> frothy_parser \<Rightarrow> bool" where
  "fields_so_far first n p \<longleftrightarrow> record_fields_wf (ps_program p) first n \<and>
     first + n = length (ir_links (ps_program p))"

lemma c_string_no_nul: "0 \<notin> set name \<Longrightarrow> c_string name = name"
  using c_string_append_nul [of name "[]"] by (auto simp: c_string_def takeWhile_eq_all_conv)

lemma fields_so_far_add:
  assumes "fields_so_far first n p" and rel: "parser_rel p q"
    and links: "ir_links (ps_program q) = ir_links (ps_program p) @ [l]"
    and lit: "l < length (ir_literals (ps_program q))" "ir_literals (ps_program q) ! l = LITERAL_TEXT name"
    and fresh: "\<not> frothy_record_fields_contain_name (ps_program p) first n name" and "0 \<notin> set name"
  shows "fields_so_far first (n + 1) q"
proof -
  let ?g = "ps_program p" and ?h = "ps_program q"
  have wf: "record_fields_wf ?g first n" and len: "first + n = length (ir_links ?g)"
    using assms(1) by (simp_all add: fields_so_far_def)
  have ext: "program_extends ?g ?h" using rel by (simp add: parser_rel_def)
  have wfh: "record_fields_wf ?h first n" using ext wf by (rule record_fields_wf_extends)
  have range: "link_range ?h first (n + 1) = link_range ?h first n @ [l]"
    using len links by (simp add: link_range_def)
  then have texts: "field_texts ?h first (n + 1) = field_texts ?h first n @ [Some name]"
    using lit assms(7) by (simp add: field_texts_def c_string_no_nul)
  have "Some name \<notin> set (field_texts ?h first n)"
    using fresh contains_name_iff [of first n ?g name] len field_texts_extends [OF ext wf] by simp
  then show ?thesis
    using wfh range texts lit len links by (auto simp: fields_so_far_def record_fields_wf_def)
qed

lemma fields_so_far_core: "same_core p q \<Longrightarrow> fields_so_far first n p \<Longrightarrow> fields_so_far first n q"
  by (simp add: fields_so_far_def same_core_def)

lemma record_field_step_rule:
  assumes st: "st p0 t S L p" and fields: "fields_so_far first n p"
    and Q: "\<And>q t'. t' < t \<Longrightarrow> st p0 t' S L q \<Longrightarrow> fields_so_far first (n + 1) q \<Longrightarrow>
      Q (Inl (n + 1)) q \<and> Q (Inr (n + 1)) q"
  shows "p_wp (record_field_step first n) p Q"
  unfolding record_field_step_def
proof (rule p_spec_get, unfold id_apply, rule p_spec_if, rule p_spec_fail, simp, rule p_spec_if,
    rule p_spec_fail, simp)
  assume "\<not> \<not> frothy_token_is_simple_name (ps_source p) (ps_current p)"
    and fresh: "\<not> frothy_record_fields_contain_name (ps_program p) first n (current_name p)"
  then have kind: "tk_kind (ps_current p) = TOKEN_NAME" by (simp add: frothy_token_is_simple_name_def)
  have nul: "0 \<notin> set (current_name p)"
    using kind st by (simp add: st_def parser_ok_def names_ok_def name_ok_def current_name_def)
  have step: "p_wp (p_try frothy_parser_advance (\<lambda>_. p_get current_kind (\<lambda>kind.
      if kind \<noteq> TOKEN_COMMA then p_ok (Inr (n + 1))
      else p_try frothy_parser_advance (\<lambda>_. p_ok (Inl (n + 1)))))) r Q"
    if r: "st p0 t S L r" and cur: "ps_current r = ps_current p" and f: "fields_so_far first (n + 1) r" for r
  proof (rule p_spec_try, rule advance_rule [OF r], intro p_spec_get p_spec_if)
    fix q t' assume q: "t' \<le> t" "t' < t \<or> current_kind r = TOKEN_EOF" "same_core r q" "st p0 t' S L q"
    have less: "t' < t" using q(2) cur kind by (simp add: current_kind_def)
    have fq: "fields_so_far first (n + 1) q" using q(3) f by (rule fields_so_far_core)
    show "p_wp (p_ok (Inr (n + 1))) q Q" using Q [OF less q(4) fq] by (simp add: p_spec_ok)
    show "p_wp (p_try frothy_parser_advance (\<lambda>_. p_ok (Inl (n + 1)))) q Q"
    proof (rule p_spec_try, rule advance_rule [OF q(4)], rule p_spec_ok)
      fix q' u assume u: "u \<le> t'" "same_core q q'" "st p0 u S L q'"
      show "Q (Inl (n + 1)) q'"
        by (rule conjunct1 [OF Q [OF le_less_trans [OF u(1) less] u(3) fields_so_far_core [OF u(2) fq]]])
    qed simp
  qed simp
  show "p_wp (p_try (frothy_add_text_literal (current_name p)) (\<lambda>literal_id.
      p_try (frothy_program_append_link literal_id) (\<lambda>_. p_try frothy_parser_advance (\<lambda>_.
      p_get current_kind (\<lambda>kind. if kind \<noteq> TOKEN_COMMA then p_ok (Inr (n + 1))
        else p_try frothy_parser_advance (\<lambda>_. p_ok (Inl (n + 1)))))))) p Q"
    unfolding frothy_add_text_literal_def
  proof (rule p_spec_try, rule add_literal_rule [OF st], rule p_spec_try, rule append_link_rule, assumption)
    fix l q r
    assume q: "l < length (ir_literals (ps_program q))"
        "ir_literals (ps_program q) ! l = LITERAL_TEXT (current_name p)"
        "ir_links (ps_program q) = ir_links (ps_program p)" "parser_rel p q" "ps_current q = ps_current p"
        "st p0 t S L q"
      and r: "ir_links (ps_program r) = ir_links (ps_program q) @ [l]"
        "ir_literals (ps_program r) = ir_literals (ps_program q)" "parser_rel q r" "ps_current r = ps_current q"
        "st p0 t S L r"
    have rel: "parser_rel p r" using q(4) r(3) by (rule parser_rel_trans)
    have "fields_so_far first (n + 1) r"
      by (rule fields_so_far_add [OF fields rel]) (use q r nul fresh in simp_all)
    show "p_wp (p_try frothy_parser_advance (\<lambda>_. p_get current_kind (\<lambda>kind.
      if kind \<noteq> TOKEN_COMMA then p_ok (Inr (n + 1))
      else p_try frothy_parser_advance (\<lambda>_. p_ok (Inl (n + 1)))))) r Q"
      by (rule step [OF r(5)]) (use q r \<open>fields_so_far first (n + 1) r\<close> in simp_all)
  qed
qed

lemma record_fields_rule:
  assumes st: "st p0 t S L p" and "fields_so_far first 0 p"
    and Q: "\<And>n q t'. t' \<le> t \<Longrightarrow> st p0 t' S L q \<Longrightarrow> 0 < n \<Longrightarrow> fields_so_far first n q \<Longrightarrow> Q n q"
  shows "p_wp (p_while (record_field_step first) 0) p Q"
proof (rule while_rule [OF st, where I = "\<lambda>n q. fields_so_far first n q"])
  fix n q assume q: "st p0 (tokens_left q) S L q" "tokens_left q \<le> t" "fields_so_far first n q"
  show "p_wp (record_field_step first n) q (\<lambda>r q'. case r of
      Inl s' \<Rightarrow> fields_so_far first s' q' \<and> (\<exists>t' < tokens_left q. st p0 t' S L q') | Inr b \<Rightarrow> Q b q')"
  proof (rule record_field_step_rule [OF q(1,3)])
    fix r t' assume r: "t' < tokens_left q" "st p0 t' S L r" "fields_so_far first (n + 1) r"
    have "Q (n + 1) r" by (rule Q [OF _ r(2) _ r(3)]) (use r(1) q(2) in simp_all)
    then show "(case Inl (n + 1) of Inl s' \<Rightarrow> fields_so_far first s' r \<and> (\<exists>t' < tokens_left q. st p0 t' S L r)
        | Inr b \<Rightarrow> Q b r) \<and> (case Inr (n + 1) of Inl s' \<Rightarrow> fields_so_far first s' r \<and>
        (\<exists>t' < tokens_left q. st p0 t' S L r) | Inr b \<Rightarrow> Q b r)"
      using r by auto
  qed
qed (rule assms(2))

lemma parse_top_level_record_rule:
  assumes st: "st p0 t S L p"
    and Q: "\<And>n q t'. t' < t \<Longrightarrow> st p0 t' (insert n S) L q \<Longrightarrow> Q n q"
  shows "p_wp frothy_parse_top_level_record p Q"
proof -
  have fin: "Q n q" if "st p0 t' S' L' q" and "t' < t" and "insert n S \<subseteq> S'" and "L \<subseteq> L'" for n q t' S' L'
    by (rule Q [OF that(2)], rule st_weaken [OF that(1)]) (use that in auto)
  have start: "fields_so_far (length (ir_links (ps_program p))) 0 q" if "ps_program q = ps_program p" for q
    using that by (simp add: fields_so_far_def record_fields_wf_def field_texts_def link_range_def)
  have written: "p_wp (frothy_make_record_def_node name first n) q (\<lambda>d q.
      p_wp (frothy_make_top_level_write_slot_token token d) q Q)"
    if "st p0 u S L q" and "u < t" and "0 < n" and "record_fields_wf (ps_program q) first n" for u q n name first token
    by (rule make_record_def_rule [OF that(1,3,4)], rule make_top_level_write_slot_rules(2), assumption, simp,
        rule fin, assumption) (use that(2) in auto)
  show ?thesis
    unfolding frothy_parse_top_level_record_def
    apply (rule p_spec_get, rule p_spec_try, rule expect_rule [OF st])
     apply (rule p_spec_get, unfold id_apply, rule p_spec_if, rule p_spec_fail, simp)
     apply (rule take_current_rule, assumption)
      apply (simp add: frothy_token_is_simple_name_def current_kind_def)
     apply (rule p_spec_try, rule advance_rule, assumption)
      apply (rule p_spec_try, rule expect_rule, assumption)
       apply (rule p_spec_get, rule p_spec_if, rule p_spec_fail, simp)
       apply (rule p_spec_try, rule record_fields_rule, assumption)
        apply (rule start, simp add: same_core_def)
       apply (rule p_spec_try, rule expect_rule, assumption)
        apply (rule p_spec_get, rule p_spec_try, rule written, assumption)
          apply (simp; fail)
         apply (simp; fail)
        apply (simp add: fields_so_far_def same_core_def)
    by simp_all
qed

end
