(* ===== verification/Frothy_Parse_Total.thy ===== *)
theory Frothy_Parse_Total
  imports Frothy_Parse_Forms
begin

section \<open>The parser returns, and what it returns is well formed\<close>

text \<open>
  \<open>goal_contract rec N\<close> is what the parser functions rely on when they recurse: from a good state with
  less than \<open>N\<close> left to read, \<open>rec\<close> returns, and on success it has read something and gives a good
  node. The functions are verified inside the locale; \<open>parse_step\<close> turns a contract for \<open>N\<close> into one
  for \<open>N + 1\<close>, because every recursive call comes after a token.
\<close>

subsection \<open>The contract of the recursion\<close>

locale goal_contract =
  fixes rec :: goal_parser and N :: nat
  assumes rec_ok: "\<lbrakk>parser_ok p; tokens_left p < N\<rbrakk> \<Longrightarrow>
    p_wp (rec goal) p (\<lambda>n q. parser_rel p q \<and> parser_ok q \<and> tokens_left q < tokens_left p \<and> node_at q n)"
begin

lemma rec_rule [step_rules]:
  assumes st: "st p0 t S L p" and "t < N"
    and Q: "\<And>n q t'. t' < t \<Longrightarrow> st p0 t' (insert n S) L q \<Longrightarrow> Q n q"
  shows "p_wp (rec goal) p Q"
proof -
  have ok: "parser_ok p" "tokens_left p < N" "tokens_left p \<le> t"
    using st assms(2) by (auto simp: st_def)
  show ?thesis
  proof (rule p_spec_mono [OF rec_ok [OF ok(1,2)]])
    fix n q assume q: "parser_rel p q \<and> parser_ok q \<and> tokens_left q < tokens_left p \<and> node_at q n"
    then have "st p0 (tokens_left q) S L q" by (intro st_step [OF st]) auto
    with q have "st p0 (tokens_left q) (insert n S) L q" by (simp add: st_node)
    then show "Q n q" using q ok by (intro Q) auto
  qed simp
qed

lemma expr_before_block_rule [step_rules]:
  assumes st: "st p0 t S L p" and "t < N"
    and Q: "\<And>n q t'. t' < t \<Longrightarrow> st p0 t' (insert n S) L q \<Longrightarrow> Q n q"
  shows "p_wp (frothy_parse_expr_before_block rec allow) p Q"
  unfolding frothy_parse_expr_before_block_def
proof (intro p_rules p_spec_cleanup_result)
  have "st p0 t S L (p\<lparr>ps_prefer_block := True\<rparr>)"
    by (rule st_same_core [OF st]) (use st in \<open>simp_all add: same_core_def st_def tokens_left_def names_ok_def\<close>)
  then show "p_wp (rec (GOAL_EXPR allow)) (p\<lparr>ps_prefer_block := True\<rparr>)
      (\<lambda>n q. Q n (q\<lparr>ps_prefer_block := ps_prefer_block p\<rparr>))"
  proof (rule rec_rule [OF _ assms(2)])
    fix n q t' assume q: "t' < t" "st p0 t' (insert n S) L q"
    have "st p0 t' (insert n S) L (q\<lparr>ps_prefer_block := ps_prefer_block p\<rparr>)"
      by (rule st_same_core [OF q(2)]) (use q in \<open>simp_all add: same_core_def st_def tokens_left_def names_ok_def\<close>)
    then show "Q n (q\<lparr>ps_prefer_block := ps_prefer_block p\<rparr>)" by (rule Q [OF q(1)])
  qed
qed

subsection \<open>Items and blocks\<close>

lemma parse_place_rule:
  assumes st: "st p0 t S L p" and "t < N"
    and Q: "\<And>place q t' S' L'. t' < t \<Longrightarrow> S \<subseteq> S' \<Longrightarrow> L \<subseteq> L' \<Longrightarrow> place_good S' L' place \<Longrightarrow>
      st p0 t' S' L' q \<Longrightarrow> Q place q"
  shows "p_wp (frothy_parse_place rec) p Q"
  unfolding frothy_parse_place_def
proof (intro p_spec_try, rule rec_rule [OF st assms(2)], intro p_spec_get)
  fix n q t' assume t': "t' < t" and q: "st p0 t' (insert n S) L q"
  let ?nd = "program_node q n"
  let ?S = "insert n S \<union> set (node_children (ps_program q) ?nd)"
  let ?L = "L \<union> set_option (node_local ?nd)"
  have S: "st p0 t' ?S L q" using q by (rule st_children) simp
  have "st p0 t' ?S (insert i L) q" if "node_local ?nd = Some i" for i
    using S by (rule st_node_local [where n = n]) (simp_all add: that)
  then have L: "st p0 t' ?S ?L q" using S by (cases "node_local ?nd") auto
  have good: "place_of_node ?nd = Some place \<Longrightarrow> place_good ?S ?L place" for place
    by (cases ?nd) auto
  show "p_wp (case place_of_node ?nd of None \<Rightarrow> p_fail FROTH_ERROR_SIGNATURE | Some place \<Rightarrow> p_ok place) q Q"
    using good by (auto intro!: p_spec_fail p_spec_ok Q [OF t' _ _ _ L] split: option.splits)
qed

lemma parse_set_item_rule:
  assumes st: "st p0 t S L p" and "t \<le> N"
    and Q: "\<And>n q t'. t' < t \<Longrightarrow> st p0 t' (insert n S) L q \<Longrightarrow> Q n q"
  shows "p_wp (frothy_parse_set_item rec) p Q"
proof -
  have fin: "Q n q" if "st p0 t' S' L' q" and "t' < t" and "insert n S \<subseteq> S'" and "L \<subseteq> L'" for n q t' S' L'
    by (rule Q [OF that(2)], rule st_weaken [OF that(1)]) (use that in auto)
  have stored: "p_wp (write_place place v) q Q"
    if "st p0 t' S' L' q" and "t' < t" and "S \<subseteq> S'" and "L \<subseteq> L'" and "place_good S' L' place" and "v \<in> S'"
    for t' S' L' q place v
    using that
    by - (cases place; simp; (rule step_rules fin | assumption | (auto; fail))+)
  show ?thesis
    unfolding frothy_parse_set_item_def
    apply (rule p_spec_try, rule expect_rule [OF st])
    apply (rule p_spec_try, rule parse_place_rule, assumption, use assms in simp)
    apply (rule p_spec_try, rule expect_set_operator_rule, assumption)
    apply (rule p_spec_try, rule rec_rule, assumption, use assms in simp)
    by (rule stored, assumption) (auto elim!: place_good_mono)
qed

lemma parse_local_binding_item_rule [step_rules]:
  assumes st: "st p0 t S L p" and "t \<le> N"
    and Q: "\<And>n q t'. t' < t \<Longrightarrow> st p0 t' (insert n S) L q \<Longrightarrow> Q n q"
  shows "p_wp (frothy_parse_local_binding_item rec token) p Q"
proof -
  have fin: "Q n q" if "st p0 t' S' L' q" and "t' < t" and "insert n S \<subseteq> S'" and "L \<subseteq> L'" for n q t' S' L'
    by (rule Q [OF that(2)], rule st_weaken [OF that(1)]) (use that in auto)
  show ?thesis
    unfolding frothy_parse_local_binding_item_def using assms(2)
    by - (rule p_rules step_rules fin | rule st | assumption | (simp; fail) | (auto; fail))+
qed

lemma parse_here_item_rule:
  assumes st: "st p0 t S L p" and "t \<le> N"
    and Q: "\<And>n q t'. t' < t \<Longrightarrow> st p0 t' (insert n S) L q \<Longrightarrow> Q n q"
  shows "p_wp (frothy_parse_here_item rec) p Q"
proof -
  have fin: "Q n q" if "st p0 t' S' L' q" and "t' < t" and "insert n S \<subseteq> S'" and "L \<subseteq> L'" for n q t' S' L'
    by (rule Q [OF that(2)], rule st_weaken [OF that(1)]) (use that in auto)
  show ?thesis
    unfolding frothy_parse_here_item_def using assms(2)
    by - (rule p_rules step_rules fin | rule st | assumption | (simp; fail) | (auto; fail))+
qed

lemma parse_block_item_rule [step_rules]:
  assumes st: "st p0 t S L p" and "t < N"
    and Q: "\<And>n q t'. t' < t \<Longrightarrow> st p0 t' (insert n S) L q \<Longrightarrow> Q n q"
  shows "p_wp (frothy_parse_block_item rec) p Q"
proof -
  have fin: "Q n q" if "st p0 t' S' L' q" and "t' < t" and "insert n S \<subseteq> S'" and "L \<subseteq> L'" for n q t' S' L'
    by (rule Q [OF that(2)], rule st_weaken [OF that(1)]) (use that in auto)
  note items = parse_here_item_rule [OF st] parse_set_item_rule [OF st]
  show ?thesis
    unfolding frothy_parse_block_item_def using assms(2)
    by - (rule p_rules items step_rules fin | rule st | assumption | (simp; fail) | (auto; fail))+
qed

lemma block_contents_rule [step_rules]:
  assumes st: "st p0 t S L p" and "t < N"
    and Q: "\<And>n q t'. t' \<le> t \<Longrightarrow> st p0 t' (insert n S) L q \<Longrightarrow> Q n q"
  shows "p_wp (frothy_parse_block_contents_until rec close_kind) p Q"
proof -
  have weak: "Q n q" if "st p0 t' S' L' q" and "t' \<le> t" and "insert n S \<subseteq> S'" and "L \<subseteq> L'" for n q t' S' L'
    using that by (blast intro: Q st_weaken order_refl)
  have rest: "p_wp (p_try (frothy_parser_expect close_kind) (\<lambda>_. p_try (frothy_node_list_flush items)
      (\<lambda>first. frothy_make_seq_node first (length (fst items))))) q Q"
    if "st p0 u (S \<union> set (fst items)) L q" and "u \<le> t" for u q and items :: frothy_node_list
    using that
    by - (rule p_spec_try expect_rule flush_seq_rule weak p_spec_fail | assumption | (simp; fail) | (auto; fail))+
  show ?thesis
    unfolding frothy_parse_block_contents_until_def
  proof (rule p_spec_try, rule while_nodes_rule [where K = "\<lambda>l. set (fst l)"])
    show "st p0 t (S \<union> set (fst empty_node_list)) L p" using st by (simp add: empty_node_list_def)
  next
    fix items :: frothy_node_list and q t' assume "t' \<le> t" "st p0 t' (S \<union> set (fst items)) L q"
    then show "p_wp (block_item_step rec close_kind items) q (loop_post p0 t' S (\<lambda>l. set (fst l)) L
      (\<lambda>items q. p_wp (p_try (frothy_parser_expect close_kind) (\<lambda>_. p_try (frothy_node_list_flush items)
         (\<lambda>first. frothy_make_seq_node first (length (fst items))))) q Q))"
      unfolding block_item_step_def using assms(2)
      by - (rule p_rules rest step_rules loop_post_done loop_post_again | assumption | (simp; fail) | (auto; fail))+
  qed
qed

lemma push_scope_wp:
  assumes "parser_ok p" and "\<And>q. scope_entered p q \<Longrightarrow> Q () q"
  shows "p_wp frothy_push_scope p Q"
  by (rule p_spec_mono [OF push_scope_rule]) (use assms in auto)

lemma block_rule [step_rules]:
  assumes st: "st p0 t S L p" and "t \<le> N"
    and Q: "\<And>n q t'. t' < t \<Longrightarrow> st p0 t' (insert n S) L q \<Longrightarrow> Q n q"
  shows "p_wp (frothy_parse_block rec) p Q"
  unfolding frothy_parse_block_def
proof (rule p_spec_try, rule expect_block_start_rule [OF st], rule p_spec_try, rule push_scope_wp,
    erule st_ok, rule p_spec_cleanup_result)
  fix close_kind q t' q1
  assume t': "t' < t" and q: "st p0 t' S L q" and q1: "scope_entered q q1"
  show "p_wp (frothy_parse_block_contents_until rec close_kind) q1 (\<lambda>n r. Q n (frothy_pop_scope r))"
  proof (rule block_contents_rule [OF scope_entered_st [OF q q1]])
    show "t' < N" using t' assms(2) by simp
  next
    fix n r u assume u: "u \<le> t'" and r: "st q1 u (insert n S) L r"
    show "Q n (frothy_pop_scope r)"
      by (rule Q [OF _ pop_scope_st [OF q q1 r]]) (use u t' in simp)
  qed
qed

subsection \<open>Functions\<close>

lemma fn_body_rule:
  assumes st: "st p0 t S L p" and "t \<le> N"
    and Q: "\<And>n q t'. t' < t \<Longrightarrow> st p0 t' (insert n S) L q \<Longrightarrow> Q n q"
  shows "p_wp (parse_fn_body rec body_kind) p Q"
proof (cases body_kind)
  case FN_BODY_BLOCK
  then show ?thesis using block_rule [OF st assms(2)] Q by (simp add: parse_fn_body_def)
next
  case FN_BODY_EXPR
  have fin: "Q n q" if "st p0 t' S' L' q" and "t' < t" and "insert n S \<subseteq> S'" and "L \<subseteq> L'" for n q t' S' L'
    by (rule Q [OF that(2)], rule st_weaken [OF that(1)]) (use that in auto)
  show ?thesis
    unfolding parse_fn_body_def FN_BODY_EXPR frothy_fn_body_kind.case using assms(2)
    by - (rule p_rules step_rules fin | rule st | assumption | (simp; fail) | (auto; fail))+
qed

lemma fn_node_rule [step_rules]:
  assumes st: "st p0 t S L p" and "t \<le> N"
    and Q: "\<And>n q t'. t' < t \<Longrightarrow> st p0 t' (insert n S) L q \<Longrightarrow> Q n q"
  shows "p_wp (frothy_parse_fn_node rec params_kind body_kind) p Q"
  unfolding frothy_parse_fn_node_def
proof (rule p_spec_try, rule push_frame_rule)
  show "capacities_ok p" using st by (simp add: st_def parser_ok_def)
next
  fix p1 assume p1: "frame_entered p p1"
  note st1 = frame_entered_st [OF st p1]
  have inner: "p_wp (p_attempt (parse_fn_inner rec params_kind body_kind) (\<lambda>r.
      p_do (\<lambda>p. frothy_pop_frame (frothy_pop_scope p)) (p_try (p_result r) (\<lambda>(arity, local_count, body).
        frothy_make_fn_node arity local_count body)))) p2 Q" if p2: "scope_entered p1 p2" for p2
  proof (rule p_spec_cleanup)
    note st2 = scope_entered_st [OF st1 p2]
    have body: "case (arity, next_local r, body) of (arity, local_count, body) \<Rightarrow>
        p_wp (frothy_make_fn_node arity local_count body) (frothy_pop_frame (frothy_pop_scope r)) Q"
      if arity: "arity \<le> next_local r" and u: "u < t" and r: "st p2 u (insert body {}) {} r" for arity body r u
    proof -
      have rel: "parser_rel p2 r" using r by (simp add: st_def)
      note popped = pop_scope_bindings [OF p2 rel]
      have "ps_bindings (frothy_pop_scope r) = ps_bindings p"
        using popped p1 by (auto simp: frame_entered_def)
      then have out: "st p0 u S L (frothy_pop_frame (frothy_pop_scope r))"
        by (rule pop_frame_st [OF st p1 pop_scope_st [OF st1 p2 r]])
      have "locals_fit (ps_program r) (next_local r) body" using r by (simp add: st_def node_at_def)
      then have fit: "locals_fit (ps_program (frothy_pop_frame (frothy_pop_scope r))) (next_local r) body"
        using popped by (simp add: frothy_pop_frame_def)
      show ?thesis unfolding prod.case by (rule make_fn_rule [OF out fit arity]) (rule Q [OF u])
    qed
    show "p_wp (parse_fn_inner rec params_kind body_kind) p2 (\<lambda>x q. p_wp
       (case x of (arity, local_count, body) \<Rightarrow> frothy_make_fn_node arity local_count body)
       (frothy_pop_frame (frothy_pop_scope q)) Q)"
      unfolding parse_fn_inner_def
    proof (rule p_spec_try, rule fn_params_rule [OF st2], rule p_spec_try)
      fix arity q t' assume q: "t' \<le> t" "st p2 t' {} {} q" "arity \<le> next_local q"
      show "p_wp (parse_fn_body rec body_kind) q (\<lambda>body q. p_wp
          (p_get (\<lambda>p. fr_next_local_index (last (ps_frames p))) (\<lambda>local_count. p_ok (arity, local_count, body))) q
          (\<lambda>x q. p_wp (case x of (arity, local_count, body) \<Rightarrow> frothy_make_fn_node arity local_count body)
            (frothy_pop_frame (frothy_pop_scope q)) Q))"
      proof (rule fn_body_rule)
        show "st q t' {} {} q" using q(2) by (simp add: st_def)
      next
        fix body r u assume r: "u < t'" "st q u {body} {} r"
        have "st p2 u {body} {} r"
          using r(2) q(2) by (auto simp: st_def intro: parser_rel_trans)
        moreover have "arity \<le> next_local r" using r(2) q(3) by (auto simp: st_def parser_rel_def)
        ultimately show "p_wp (p_get (\<lambda>p. fr_next_local_index (last (ps_frames p)))
            (\<lambda>local_count. p_ok (arity, local_count, body))) r
          (\<lambda>x q. p_wp (case x of (arity, local_count, body) \<Rightarrow> frothy_make_fn_node arity local_count body)
            (frothy_pop_frame (frothy_pop_scope q)) Q)"
          using body [of arity r u body] r(1) q(1) by (simp add: p_spec_get p_spec_ok next_local_def)
      qed (use q assms(2) in simp)
    qed
  qed
  show "p_wp (p_attempt frothy_push_scope (\<lambda>r. case r of
      Inl e \<Rightarrow> p_do frothy_pop_frame (p_fail e)
    | Inr _ \<Rightarrow> p_attempt (parse_fn_inner rec params_kind body_kind) (\<lambda>r.
        p_do (\<lambda>p. frothy_pop_frame (frothy_pop_scope p)) (p_try (p_result r) (\<lambda>(arity, local_count, body).
          frothy_make_fn_node arity local_count body))))) p1 Q"
    by (rule p_spec_attempt, rule p_spec_mono [OF push_scope_rule [OF st_ok [OF st1]]])
       (auto simp: p_spec_do p_spec_fail intro: inner)
qed

lemma parse_fn_rule:
  assumes st: "st p0 t S L p" and "t \<le> N"
    and Q: "\<And>n q t'. t' < t \<Longrightarrow> st p0 t' (insert n S) L q \<Longrightarrow> Q n q"
  shows "p_wp (frothy_parse_fn rec) p Q"
proof -
  have fin: "Q n q" if "st p0 t' S' L' q" and "t' < t" and "insert n S \<subseteq> S'" and "L \<subseteq> L'" for n q t' S' L'
    by (rule Q [OF that(2)], rule st_weaken [OF that(1)]) (use that in auto)
  show ?thesis
    unfolding frothy_parse_fn_def using assms(2)
    by - (rule p_rules step_rules fin | rule st | assumption | (simp; fail) | (auto; fail))+
qed

subsection \<open>Conditionals and loops\<close>

lemma parse_if_rule:
  assumes st: "st p0 t S L p" and "t \<le> N"
    and Q: "\<And>n q t'. t' < t \<Longrightarrow> st p0 t' (insert n S) L q \<Longrightarrow> Q n q"
  shows "p_wp (frothy_parse_if rec) p Q"
proof -
  have fin: "Q n q" if "st p0 t' S' L' q" and "t' < t" and "insert n S \<subseteq> S'" and "L \<subseteq> L'" for n q t' S' L'
    by (rule Q [OF that(2)], rule st_weaken [OF that(1)]) (use that in auto)
  show ?thesis
    unfolding frothy_parse_if_def using assms(2)
    by - (rule p_rules step_rules fin | rule st | assumption | (simp; fail) | (auto; fail))+
qed

lemma parse_while_rule:
  assumes st: "st p0 t S L p" and "t \<le> N"
    and Q: "\<And>n q t'. t' < t \<Longrightarrow> st p0 t' (insert n S) L q \<Longrightarrow> Q n q"
  shows "p_wp (frothy_parse_while rec) p Q"
proof -
  have fin: "Q n q" if "st p0 t' S' L' q" and "t' < t" and "insert n S \<subseteq> S'" and "L \<subseteq> L'" for n q t' S' L'
    by (rule Q [OF that(2)], rule st_weaken [OF that(1)]) (use that in auto)
  show ?thesis
    unfolding frothy_parse_while_def using assms(2)
    by - (rule p_rules step_rules fin | rule st | assumption | (simp; fail) | (auto; fail))+
qed

lemma parse_when_rule:
  assumes st: "st p0 t S L p" and "t \<le> N"
    and Q: "\<And>n q t'. t' < t \<Longrightarrow> st p0 t' (insert n S) L q \<Longrightarrow> Q n q"
  shows "p_wp (frothy_parse_when rec) p Q"
proof -
  have fin: "Q n q" if "st p0 t' S' L' q" and "t' < t" and "insert n S \<subseteq> S'" and "L \<subseteq> L'" for n q t' S' L'
    by (rule Q [OF that(2)], rule st_weaken [OF that(1)]) (use that in auto)
  show ?thesis
    unfolding frothy_parse_when_def using assms(2)
    by - (rule p_rules step_rules fin | rule st | assumption | (simp; fail) | (auto; fail))+
qed

lemma parse_unless_rule:
  assumes st: "st p0 t S L p" and "t \<le> N"
    and Q: "\<And>n q t'. t' < t \<Longrightarrow> st p0 t' (insert n S) L q \<Longrightarrow> Q n q"
  shows "p_wp (frothy_parse_unless rec) p Q"
proof -
  have fin: "Q n q" if "st p0 t' S' L' q" and "t' < t" and "insert n S \<subseteq> S'" and "L \<subseteq> L'" for n q t' S' L'
    by (rule Q [OF that(2)], rule st_weaken [OF that(1)]) (use that in auto)
  show ?thesis
    unfolding frothy_parse_unless_def using assms(2)
    by - (rule p_rules step_rules fin | rule st | assumption | (simp; fail) | (auto simp: builtin_arity_def; fail))+
qed

lemma else_branch_step_rule:
  assumes st: "st p0 u (S \<union> branch_nodes bs) L q" and "u \<le> N"
    and Q: "\<And>e q u'. u' < u \<Longrightarrow> st p0 u' (insert e (S \<union> branch_nodes bs)) L q \<Longrightarrow> Q (bs, Some e) q"
  shows "p_wp (else_branch_step rec close_kind bs) q (loop_post p0 u S branch_nodes L Q)"
proof -
  have fin: "Q (bs, Some e) q" if "st p0 u' (insert e (S \<union> branch_nodes bs)) L q" and "u' < u" for u' e q
    using Q that by blast
  show ?thesis
    unfolding else_branch_step_def using assms(2)
    by - (rule p_rules step_rules loop_post_done fin | rule st | assumption | (simp; fail))+
qed

lemma cond_step_rule:
  assumes st: "st p0 u (S \<union> branch_nodes bs) L q" and "u < N"
    and Q: "\<And>e q u'. u' \<le> u \<Longrightarrow> st p0 u' (S \<union> branch_nodes bs \<union> set_option e) L q \<Longrightarrow> Q (bs, e) q"
  shows "p_wp (cond_step rec close_kind bs) q (loop_post p0 u S branch_nodes L Q)"
proof -
  have none: "Q (bs, None) q" using Q [of u None q] st by simp
  have els: "p_wp (else_branch_step rec close_kind bs) q (loop_post p0 u S branch_nodes L Q)"
  proof (rule else_branch_step_rule [OF st])
    fix e r u' assume r: "u' < u" "st p0 u' (insert e (S \<union> branch_nodes bs)) L r"
    show "Q (bs, Some e) r" by (rule Q [of u']) (use r in simp_all)
  qed (use assms(2) in simp)
  show ?thesis
    unfolding cond_step_def using assms(2)
    by - (rule p_rules els push_branch_rule step_rules loop_post_done loop_post_again none | rule st
        | assumption | (simp; fail) | (auto simp: insert_commute; fail))+
qed

lemma case_step_rule:
  assumes st: "st p0 u (S \<union> branch_nodes bs) L q" and "u < N"
    and Q: "\<And>e q u'. u' \<le> u \<Longrightarrow> st p0 u' (S \<union> branch_nodes bs \<union> set_option e) L q \<Longrightarrow> Q (bs, e) q"
  shows "p_wp (case_step rec close_kind bs) q (loop_post p0 u S branch_nodes L Q)"
proof -
  have none: "Q (bs, None) q" using Q [of u None q] st by simp
  have els: "p_wp (else_branch_step rec close_kind bs) q (loop_post p0 u S branch_nodes L Q)"
  proof (rule else_branch_step_rule [OF st])
    fix e r u' assume r: "u' < u" "st p0 u' (insert e (S \<union> branch_nodes bs)) L r"
    show "Q (bs, Some e) r" by (rule Q [of u']) (use r in simp_all)
  qed (use assms(2) in simp)
  show ?thesis
    unfolding case_step_def using assms(2)
    by - (rule p_rules els push_branch_rule step_rules loop_post_done loop_post_again none | rule st
        | assumption | (simp; fail) | (auto simp: insert_commute; fail))+
qed

lemma parse_cond_rule:
  assumes st: "st p0 t S L p" and "t \<le> N"
    and Q: "\<And>n q t'. t' < t \<Longrightarrow> st p0 t' (insert n S) L q \<Longrightarrow> Q n q"
  shows "p_wp (frothy_parse_cond rec) p Q"
proof -
  have fin: "Q n q" if "st p0 t' S' L' q" and "t' < t" and "insert n S \<subseteq> S'" and "L \<subseteq> L'" for n q t' S' L'
    by (rule Q [OF that(2)], rule st_weaken [OF that(1)]) (use that in auto)
  have chain: "p_wp (cond_chain (rev (zip (fst (fst bs)) (fst (snd bs)))) chain) q Q"
    if "st p0 u S' L q" and "u < t" and "branch_nodes bs \<subseteq> S'" and "chain \<in> S'" and "S \<subseteq> S'"
    for u S' q chain bs
    by (rule cond_chain_rule [OF that(1)]) (use that branch_nodes_zip in \<open>fastforce intro: fin\<close>)+
  have rest: "p_wp (case (bs, e) of (bs, else_body) \<Rightarrow> p_try (frothy_parser_expect close_kind) (\<lambda>_.
      p_try (chain_start else_body) (\<lambda>chain. cond_chain (rev (zip (fst (fst bs)) (fst (snd bs)))) chain))) q Q"
    if "st p0 u (S \<union> branch_nodes bs \<union> set_option e) L q" and "u < t" for u bs q e close_kind
    using that
    by - (rule p_rules chain step_rules | assumption | (simp; fail) | (auto; fail))+
  show ?thesis
    unfolding frothy_parse_cond_def
    apply (rule p_spec_try, rule expect_rule [OF st])
     apply (rule p_spec_try, rule expect_block_start_rule, assumption)
     apply (rule p_spec_try, rule while_nodes_rule [where K = branch_nodes])
      apply (erule branch_nodes_start)
     apply (rule cond_step_rule, assumption)
      using assms(2) apply simp
     by (rule rest, assumption) simp_all
qed

lemma parse_case_rule:
  assumes st: "st p0 t S L p" and "t \<le> N"
    and Q: "\<And>n q t'. t' < t \<Longrightarrow> st p0 t' (insert n S) L q \<Longrightarrow> Q n q"
  shows "p_wp (frothy_parse_case rec) p Q"
proof -
  have fin: "Q n q" if "st p0 t' S' L' q" and "t' < t" and "insert n S \<subseteq> S'" and "L \<subseteq> L'" for n q t' S' L'
    by (rule Q [OF that(2)], rule st_weaken [OF that(1)]) (use that in auto)
  have chain: "p_wp (p_try (case_chain hidden (rev (zip (fst (fst bs)) (fst (snd bs)))) chain)
      (\<lambda>chain. make_seq_of [init, chain])) q Q"
    if "st p0 u S' L' q" and "u < t" and "branch_nodes bs \<subseteq> S'" and "chain \<in> S'" and "S \<subseteq> S'" and "L \<subseteq> L'"
      and "hidden \<in> L'" and "init \<in> S'"
    for u S' L' q chain bs hidden init
  proof -
    have "\<forall>x \<in> set (rev (zip (fst (fst bs)) (fst (snd bs)))). fst x \<in> S' \<and> snd x \<in> S'"
      using that(3) branch_nodes_zip by fastforce
    then show ?thesis
    proof (rule p_spec_try [OF case_chain_rule [OF that(1) _ that(4,7)]])
      fix n r S'' assume r: "S' \<subseteq> S''" "n \<in> S''" "st p0 u S'' L' r"
      show "p_wp (make_seq_of [init, n]) r Q"
        by (rule make_seq_of_rule [OF r(3)], use r that in simp, blast, rule fin, assumption)
           (use r that in auto)
    qed
  qed
  have rest: "p_wp (case (bs, e) of (bs, else_body) \<Rightarrow> p_try (frothy_parser_expect close_kind) (\<lambda>_.
      p_try frothy_reserve_hidden_local (\<lambda>hidden.
      p_try (frothy_make_write_local_node hidden scrutinee) (\<lambda>scrutinee_init.
      p_try (chain_start else_body) (\<lambda>chain.
      p_try (case_chain hidden (rev (zip (fst (fst bs)) (fst (snd bs)))) chain) (\<lambda>chain.
      make_seq_of [scrutinee_init, chain])))))) q Q"
    if "st p0 u (insert scrutinee S \<union> branch_nodes bs \<union> set_option e) L q" and "u < t"
    for u bs q e close_kind scrutinee
    using that
    by - (rule chain p_rules step_rules | assumption | (simp; fail) | (auto; fail))+
  show ?thesis
    unfolding frothy_parse_case_def
    apply (rule p_spec_try, rule expect_rule [OF st])
     apply (rule p_spec_try, rule expr_before_block_rule, assumption)
    using assms(2) apply simp
     apply (rule p_spec_try, rule expect_block_start_rule, assumption)
     apply (rule p_spec_try, rule while_nodes_rule [where K = branch_nodes])
      apply (erule branch_nodes_start)
     apply (rule case_step_rule, assumption)
    using assms(2) apply simp
     by (rule rest, assumption) simp_all
qed

lemma parse_repeat_rule:
  assumes st: "st p0 t S L p" and "t \<le> N"
    and Q: "\<And>n q t'. t' < t \<Longrightarrow> st p0 t' (insert n S) L q \<Longrightarrow> Q n q"
  shows "p_wp (frothy_parse_repeat rec) p Q"
proof -
  have fin: "Q n q" if "st p0 t' S' L' q" and "t' < t" and "insert n S \<subseteq> S'" and "L \<subseteq> L'" for n q t' S' L'
    by (rule Q [OF that(2)], rule st_weaken [OF that(1)]) (use that in auto)
  have inner: "p_wp (p_try (declare_index index_name) (\<lambda>index_local.
      p_attempt (frothy_parse_block_contents_until rec close_kind) (\<lambda>r.
      p_do frothy_pop_scope (p_try (p_result r) (\<lambda>body. build_repeat count_expr index_local body))))) q1 Q"
    if q: "st p0 u S' L q" and q1: "scope_entered q q1" and "u < t" and "insert count_expr S \<subseteq> S'"
    for q q1 u S' count_expr index_name close_kind
  proof (rule p_spec_try, rule declare_index_rule [OF scope_entered_st [OF q q1]], rule p_spec_cleanup)
    fix i q2 L' assume L': "L \<subseteq> L'" "set_option i \<subseteq> L'" and q2: "st q1 u S' L' q2"
    show "p_wp (frothy_parse_block_contents_until rec close_kind) q2
      (\<lambda>body q. p_wp (build_repeat count_expr i body) (frothy_pop_scope q) Q)"
    proof (rule block_contents_rule [OF q2])
      show "u < N" using that(3) assms(2) by simp
    next
      fix body r v assume r: "v \<le> u" "st q1 v (insert body S') L' r"
      show "p_wp (build_repeat count_expr i body) (frothy_pop_scope r) Q"
      proof (rule build_repeat_rule [OF pop_scope_st [OF q q1 r(2)]])
        fix n r' S2 L2
        assume a: "insert n (insert body S') \<subseteq> S2" "L' \<subseteq> L2" "st p0 v S2 L2 r'"
        show "Q n r'" by (rule fin [OF a(3)]) (use a that(3,4) L' r(1) in auto)
      qed (use that(4) L' in auto)
    qed
  qed
  show ?thesis
    unfolding frothy_parse_repeat_def
    apply (rule p_spec_try, rule expect_rule [OF st])
     apply (rule p_spec_try, rule expr_before_block_rule, assumption)
    using assms(2) apply simp
     apply (rule p_spec_try, rule parse_repeat_index_rule, assumption)
     apply (rule p_spec_try, rule expect_block_start_rule, assumption)
     apply (rule p_spec_try, rule push_scope_wp, erule st_ok, rule inner, assumption, assumption)
    by simp_all
qed

subsection \<open>Calls and primary expressions\<close>

lemma arguments_rule:
  assumes st: "st p0 t S L p" and "t < N"
    and Q: "\<And>args q t'. t' \<le> t \<Longrightarrow> st p0 t' (S \<union> set (fst args)) L q \<Longrightarrow> Q args q"
    and body: "\<And>args q R. R (Inr args) q \<Longrightarrow> p_wp (argument_step rec args) q R \<Longrightarrow> p_wp (body args) q R"
  shows "p_wp (p_while body empty_node_list) p Q"
proof (rule while_nodes_rule [where K = "\<lambda>l. set (fst l)"])
  show "st p0 t (S \<union> set (fst empty_node_list)) L p" using st by (simp add: empty_node_list_def)
next
  fix args :: frothy_node_list and q u
  assume q: "u \<le> t" "st p0 u (S \<union> set (fst args)) L q"
  have fin: "Q args q" if "st p0 t' S' L' q" and "t' \<le> t" and "S \<union> set (fst args) \<subseteq> S'" and "L \<subseteq> L'"
    for args q t' S' L'
    by (rule Q [OF that(2)], rule st_weaken [OF that(1)]) (use that in auto)
  show "p_wp (body args) q (loop_post p0 u S (\<lambda>l. set (fst l)) L Q)"
  proof (rule body)
    show "loop_post p0 u S (\<lambda>l. set (fst l)) L Q (Inr args) q" by (rule loop_post_done, rule Q [OF q])
  next
    show "p_wp (argument_step rec args) q (loop_post p0 u S (\<lambda>l. set (fst l)) L Q)"
      unfolding argument_step_def using q assms(2)
      by - (rule p_rules step_rules loop_post_done loop_post_again fin | assumption | (simp; fail) | (auto; fail))+
  qed
qed

lemma parse_call_expr_rule:
  assumes st: "st p0 t S L p" and "t \<le> N"
    and Q: "\<And>n q t'. t' < t \<Longrightarrow> st p0 t' (insert n S) L q \<Longrightarrow> Q n q"
  shows "p_wp (frothy_parse_call_expr rec) p Q"
proof -
  have fin: "Q n q" if "st p0 t' S' L' q" and "t' < t" and "insert n S \<subseteq> S'" and "L \<subseteq> L'" for n q t' S' L'
    by (rule Q [OF that(2)], rule st_weaken [OF that(1)]) (use that in auto)
  show ?thesis
    unfolding frothy_parse_call_expr_def using assms(2)
    by - (rule arguments_rule p_spec_get p_spec_if p_spec_fail p_spec_try flush_call_rule step_rules fin
        | rule st | assumption | (simp; fail) | (auto; fail))+
qed

lemma parse_parenthesized_rule:
  assumes st: "st p0 t S L p" and "t \<le> N" and "current_kind p = TOKEN_LPAREN"
    and Q: "\<And>n q t'. t' < t \<Longrightarrow> st p0 t' (insert n S) L q \<Longrightarrow> Q n q"
  shows "p_wp (parse_parenthesized rec) p Q"
proof -
  have fin: "Q n q" if "st p0 t' S' L' q" and "t' < t" and "insert n S \<subseteq> S'" and "L \<subseteq> L'" for n q t' S' L'
    by (rule Q [OF that(2)], rule st_weaken [OF that(1)]) (use that in auto)
  show ?thesis
    unfolding parse_parenthesized_def using assms(2,3)
    by - (rule p_rules step_rules fin | rule st | assumption | (simp; fail) | (auto; fail))+
qed

lemma parse_primary_rule:
  assumes st: "st p0 t S L p" and "t \<le> N"
    and Q: "\<And>n q t'. t' < t \<Longrightarrow> st p0 t' (insert n S) L q \<Longrightarrow> Q n q"
  shows "p_wp (frothy_parse_primary rec allow) p Q"
proof -
  have fin: "Q n q" if "st p0 t' S' L' q" and "t' < t" and "insert n S \<subseteq> S'" and "L \<subseteq> L'" for n q t' S' L'
    by (rule Q [OF that(2)], rule st_weaken [OF that(1)]) (use that in auto)
  note forms = parse_name_primary_rule [OF st] parse_designator_rule [OF st] parse_parenthesized_rule [OF st]
    parse_fn_rule [OF st] parse_if_rule [OF st] parse_while_rule [OF st] parse_cond_rule [OF st]
    parse_case_rule [OF st] parse_when_rule [OF st] parse_unless_rule [OF st] parse_repeat_rule [OF st]
    parse_call_expr_rule [OF st] parse_cells_rule [OF st]
  have literal: "p_wp (literal_and_advance l) p Q" if "simple_literal (ps_current p) = Some l" for l
    by (rule literal_and_advance_rule [OF st])
       (use simple_literal_kind [OF that] in \<open>auto simp: current_kind_def intro: fin\<close>)
  show ?thesis
    unfolding frothy_parse_primary_def
    apply (rule p_spec_get, rule p_spec_option)
     defer
     apply (erule literal)
    apply (cases "tk_kind (ps_current p)"; simp only: frothy_token_kind.case)
    using assms(2)
    by - (rule p_spec_fail forms Q | assumption | (simp add: current_kind_def; fail))+
qed

subsection \<open>Postfix, prefix and binary operators\<close>

lemma parse_call_suffix_rule:
  assumes st: "st p0 t S L p" and "t \<le> N" and "current_kind p = TOKEN_LPAREN" and "n \<in> S"
    and Q: "\<And>n q t'. t' < t \<Longrightarrow> st p0 t' (insert n S) L q \<Longrightarrow> Q n q"
  shows "p_wp (parse_call_suffix rec n) p Q"
proof -
  have fin: "Q n q" if "st p0 t' S' L' q" and "t' < t" and "insert n S \<subseteq> S'" and "L \<subseteq> L'" for n q t' S' L'
    by (rule Q [OF that(2)], rule st_weaken [OF that(1)]) (use that in auto)
  show ?thesis
    unfolding parse_call_suffix_def using assms(2-4)
    by - (rule not_designator_rule arguments_rule p_spec_get p_spec_if p_spec_fail p_spec_ok p_spec_try 
          flush_call_rule step_rules fin
        | rule st | assumption | (simp; fail) | (auto simp: same_core_def; fail))+
qed

lemma parse_colon_suffix_rule:
  assumes st: "st p0 t S L p" and "t \<le> N" and "current_kind p = TOKEN_COLON" and "n \<in> S"
    and Q: "\<And>n q t'. t' < t \<Longrightarrow> st p0 t' (insert n S) L q \<Longrightarrow> Q n q"
  shows "p_wp (parse_colon_suffix rec n) p Q"
proof -
  have fin: "Q n q" if "st p0 t' S' L' q" and "t' < t" and "insert n S \<subseteq> S'" and "L \<subseteq> L'" for n q t' S' L'
    by (rule Q [OF that(2)], rule st_weaken [OF that(1)]) (use that in auto)
  show ?thesis
    unfolding parse_colon_suffix_def using assms(2-4)
    by - (rule not_designator_rule arguments_rule p_spec_get p_spec_if p_spec_fail p_spec_ok p_spec_try empty_call_rule
          flush_call_rule step_rules fin
        | rule st | assumption | (simp; fail) | (auto simp: same_core_def; fail))+
qed

lemma parse_index_suffix_rule:
  assumes st: "st p0 t S L p" and "t \<le> N" and "current_kind p = TOKEN_LBRACKET" and "n \<in> S"
    and Q: "\<And>n q t'. t' < t \<Longrightarrow> st p0 t' (insert n S) L q \<Longrightarrow> Q n q"
  shows "p_wp (parse_index_suffix rec n) p Q"
proof -
  have fin: "Q n q" if "st p0 t' S' L' q" and "t' < t" and "insert n S \<subseteq> S'" and "L \<subseteq> L'" for n q t' S' L'
    by (rule Q [OF that(2)], rule st_weaken [OF that(1)]) (use that in auto)
  show ?thesis
    unfolding parse_index_suffix_def using assms(2-4)
    by - (rule not_designator_rule arguments_rule p_spec_get p_spec_if p_spec_fail p_spec_ok p_spec_try 
          flush_call_rule step_rules fin
        | rule st | assumption | (simp; fail) | (auto simp: same_core_def; fail))+
qed

text \<open>The operator loops: the state of the loop is the node built so far.\<close>

lemma node_loop_rule:
  assumes st: "st p0 t (insert n S) L p"
    and body: "\<And>n q u. u \<le> t \<Longrightarrow> st p0 u (insert n S) L q \<Longrightarrow>
      p_wp (body n) q (loop_post p0 u S (\<lambda>n. {n}) L (\<lambda>n q. st p0 u (insert n S) L q))"
    and Q: "\<And>n q t'. t' \<le> t \<Longrightarrow> st p0 t' (insert n S) L q \<Longrightarrow> Q n q"
  shows "p_wp (p_while body n) p Q"
proof (rule while_nodes_rule [where K = "\<lambda>n. {n}"])
  show "st p0 t (S \<union> {n}) L p" using st by simp
next
  fix n q u assume q: "u \<le> t" "st p0 u (S \<union> {n}) L q"
  show "p_wp (body n) q (loop_post p0 u S (\<lambda>n. {n}) L Q)"
    by (rule p_spec_mono [OF body [OF q(1)]])
       (use q Q in \<open>auto simp: loop_post_def split: sum.splits\<close>)
qed

lemma again_rule:
  assumes "p_wp m p (\<lambda>n q. \<exists>u' < u. st p0 u' (insert n S) L q)"
  shows "p_wp (again m) p (loop_post p0 u S (\<lambda>n. {n}) L Q)"
  unfolding again_def
  by (rule p_spec_try, rule p_spec_mono [OF assms]) (auto intro!: p_spec_ok simp: loop_post_def)

lemma postfix_step_rule:
  assumes st: "st p0 t (insert n S) L p" and "t < N"
  shows "p_wp (postfix_step rec n) p (loop_post p0 t S (\<lambda>n. {n}) L (\<lambda>n q. st p0 t (insert n S) L q))"
proof -
  have fin: "\<exists>u' < t. st p0 u' (insert m S) L q" if "u < t" and "st p0 u (insert m (insert n S)) L q" for u m q
    using that st_weaken by blast
  show ?thesis
    unfolding postfix_step_def
    by (rule p_spec_get p_spec_if p_spec_ok loop_post_done again_rule parse_call_suffix_rule [OF st]
        parse_colon_suffix_rule [OF st] parse_field_suffix_rule [OF st] parse_index_suffix_rule [OF st] fin
        st | assumption | (use assms(2) in simp; fail))+
qed

lemma parse_postfix_rule:
  assumes st: "st p0 t S L p" and "t \<le> N"
    and Q: "\<And>n q t'. t' < t \<Longrightarrow> st p0 t' (insert n S) L q \<Longrightarrow> Q n q"
  shows "p_wp (frothy_parse_postfix rec allow) p Q"
  unfolding frothy_parse_postfix_def
  by (rule p_spec_try, rule parse_primary_rule [OF st assms(2)], rule node_loop_rule, assumption,
      rule postfix_step_rule, assumption, use assms(2) in simp, rule Q [OF le_less_trans])

lemma parse_prefix_rule [step_rules]:
  assumes st: "st p0 t S L p" and "t \<le> N"
    and Q: "\<And>n q t'. t' < t \<Longrightarrow> st p0 t' (insert n S) L q \<Longrightarrow> Q n q"
  shows "p_wp (frothy_parse_prefix rec allow) p Q"
proof -
  have fin: "Q n q" if "st p0 t' S' L' q" and "t' < t" and "insert n S \<subseteq> S'" and "L \<subseteq> L'" for n q t' S' L'
    by (rule Q [OF that(2)], rule st_weaken [OF that(1)]) (use that in auto)
  show ?thesis
    unfolding frothy_parse_prefix_def using assms(2)
    by - (rule p_rules parse_postfix_rule step_rules fin | rule st | assumption | (simp; fail) | (auto simp: builtin_arity_def; fail))+
qed

lemma binary_builtin_binary:
  "frothy_token_is_binary_operator kind \<Longrightarrow> frothy_binary_builtin kind \<noteq> BUILTIN_NONE \<and>
   builtin_arity (frothy_binary_builtin kind) = 2 \<and> kind \<noteq> TOKEN_EOF"
  by (cases kind) (simp_all add: frothy_token_is_binary_operator_def frothy_binary_builtin_def
      binary_operators_def builtin_arity_def)

lemma binary_step_rule:
  assumes st: "st p0 t (insert n S) L p" and "t \<le> N"
  shows "p_wp (binary_step rec n) p (loop_post p0 t S (\<lambda>n. {n}) L (\<lambda>n q. st p0 t (insert n S) L q))"
  unfolding binary_step_def using assms(2)
  by - (rule p_rules step_rules loop_post_done loop_post_again | rule st | assumption | (simp; fail)
      | (auto dest: binary_builtin_binary; fail))+

lemma parse_binary_rule [step_rules]:
  assumes st: "st p0 t S L p" and "t \<le> N"
    and Q: "\<And>n q t'. t' < t \<Longrightarrow> st p0 t' (insert n S) L q \<Longrightarrow> Q n q"
  shows "p_wp (frothy_parse_binary_expr rec allow) p Q"
  unfolding frothy_parse_binary_expr_def
  by (rule p_spec_try, rule parse_prefix_rule [OF st assms(2)], rule node_loop_rule, assumption,
      rule binary_step_rule, assumption, use assms(2) in simp, rule Q [OF le_less_trans])

lemma and_step_rule:
  assumes st: "st p0 t (insert n S) L p" and "t \<le> N"
  shows "p_wp (and_step rec n) p (loop_post p0 t S (\<lambda>n. {n}) L (\<lambda>n q. st p0 t (insert n S) L q))"
  unfolding and_step_def using assms(2)
  by - (rule p_rules step_rules loop_post_done loop_post_again | rule st | assumption | (simp; fail)
      | (auto; fail))+

lemma parse_and_rule [step_rules]:
  assumes st: "st p0 t S L p" and "t \<le> N"
    and Q: "\<And>n q t'. t' < t \<Longrightarrow> st p0 t' (insert n S) L q \<Longrightarrow> Q n q"
  shows "p_wp (frothy_parse_and_expr rec allow) p Q"
  unfolding frothy_parse_and_expr_def
  by (rule p_spec_try, rule parse_binary_rule [OF st assms(2)], rule node_loop_rule, assumption,
      rule and_step_rule, assumption, use assms(2) in simp, rule Q [OF le_less_trans])

lemma or_step_rule:
  assumes st: "st p0 t (insert n S) L p" and "t \<le> N"
  shows "p_wp (or_step rec n) p (loop_post p0 t S (\<lambda>n. {n}) L (\<lambda>n q. st p0 t (insert n S) L q))"
  unfolding or_step_def using assms(2)
  by - (rule p_rules step_rules loop_post_done loop_post_again | rule st | assumption | (simp; fail)
      | (auto; fail))+

lemma parse_expr_rule:
  assumes st: "st p0 t S L p" and "t \<le> N"
    and Q: "\<And>n q t'. t' < t \<Longrightarrow> st p0 t' (insert n S) L q \<Longrightarrow> Q n q"
  shows "p_wp (frothy_parse_expr rec allow) p Q"
  unfolding frothy_parse_expr_def
  by (rule p_spec_try, rule parse_and_rule [OF st assms(2)], rule node_loop_rule, assumption,
      rule or_step_rule, assumption, use assms(2) in simp, rule Q [OF le_less_trans])

subsection \<open>Top-level forms\<close>

lemma parse_top_level_to_rule:
  assumes st: "st p0 t S L p" and "t \<le> N"
    and Q: "\<And>n q t'. t' < t \<Longrightarrow> st p0 t' (insert n S) L q \<Longrightarrow> Q n q"
  shows "p_wp (frothy_parse_top_level_to rec) p Q"
proof -
  have fin: "Q n q" if "st p0 t' S' L' q" and "t' < t" and "insert n S \<subseteq> S'" and "L \<subseteq> L'" for n q t' S' L'
    by (rule Q [OF that(2)], rule st_weaken [OF that(1)]) (use that in auto)
  show ?thesis
    unfolding frothy_parse_top_level_to_def Let_def using assms(2)
    by - (rule p_rules step_rules fin | rule st | assumption | (simp; fail) | (auto; fail))+
qed

lemma parse_boot_rule:
  assumes st: "st p0 t S L p" and "t \<le> N" and "current_kind p = TOKEN_NAME"
    and Q: "\<And>n q t'. t' < t \<Longrightarrow> st p0 t' (insert n S) L q \<Longrightarrow> Q n q"
  shows "p_wp (frothy_parse_top_level_boot_block rec) p Q"
proof -
  have fin: "Q n q" if "st p0 t' S' L' q" and "t' < t" and "insert n S \<subseteq> S'" and "L \<subseteq> L'" for n q t' S' L'
    by (rule Q [OF that(2)], rule st_weaken [OF that(1)]) (use that in auto)
  show ?thesis
    unfolding frothy_parse_top_level_boot_block_def using assms(2,3)
    by - (rule p_rules step_rules fin | rule st | assumption | (simp; fail) | (auto; fail))+
qed

lemma parse_binding_rule:
  assumes st: "st p0 t S L p" and "t \<le> N" and "current_kind p = TOKEN_NAME"
    and Q: "\<And>n q t'. t' < t \<Longrightarrow> st p0 t' (insert n S) L q \<Longrightarrow> Q n q"
  shows "p_wp (parse_top_level_binding rec) p Q"
proof -
  have fin: "Q n q" if "st p0 t' S' L' q" and "t' < t" and "insert n S \<subseteq> S'" and "L \<subseteq> L'" for n q t' S' L'
    by (rule Q [OF that(2)], rule st_weaken [OF that(1)]) (use that in auto)
  show ?thesis
    unfolding parse_top_level_binding_def using assms(2,3)
    by - (rule p_rules step_rules fin | rule st | assumption | (simp; fail) | (auto; fail))+
qed

lemma parse_named_fn_form_rule:
  assumes st: "st p0 t S L p" and "t \<le> N" and "current_kind p = TOKEN_NAME"
    and Q: "\<And>n q t'. t' < t \<Longrightarrow> st p0 t' (insert n S) L q \<Longrightarrow> Q n q"
  shows "p_wp (parse_named_fn_form rec kind) p Q"
proof -
  have fin: "Q n q" if "st p0 t' S' L' q" and "t' < t" and "insert n S \<subseteq> S'" and "L \<subseteq> L'" for n q t' S' L'
    by (rule Q [OF that(2)], rule st_weaken [OF that(1)]) (use that in auto)
  show ?thesis
    unfolding parse_named_fn_form_def frothy_parse_top_level_named_fn_def using assms(2,3)
    by - (rule p_rules step_rules fin | rule st | assumption | (simp; fail) | (auto; fail))+
qed

lemma parse_in_item_rule:
  assumes st: "st p0 t S L p" and "t < N"
    and Q: "\<And>n q t'. t' < t \<Longrightarrow> st p0 t' (insert n S) L q \<Longrightarrow> Q n q"
  shows "p_wp (frothy_parse_in_item rec) p Q"
  unfolding frothy_parse_in_item_def
proof (rule match_named_fn_rule [OF st], intro p_spec_get p_spec_if p_spec_fail)
  fix kind :: frothy_top_level_named_fn_kind
  assume name: "kind \<noteq> TOP_LEVEL_NAMED_FN_NONE \<longrightarrow> current_kind p = TOKEN_NAME"
  have "t \<le> N" using assms(2) by simp
  show "p_wp (frothy_parse_top_level_to rec) p Q" by (rule parse_top_level_to_rule [OF st \<open>t \<le> N\<close> Q])
  show "p_wp frothy_parse_top_level_record p Q" by (rule parse_top_level_record_rule [OF st Q])
  show "p_wp (rec GOAL_IN) p Q" by (rule rec_rule [OF st assms(2) Q])
  show "p_wp (parse_top_level_binding rec) p Q"
    if "current_kind p = TOKEN_NAME \<and> frothy_token_is_binding_operator (next_kind p)"
    by (rule parse_binding_rule [OF st \<open>t \<le> N\<close> conjunct1 [OF that] Q])
  show "p_wp (parse_named_fn_form rec kind) p Q" if "kind \<noteq> TOP_LEVEL_NAMED_FN_NONE"
    by (rule parse_named_fn_form_rule [OF st \<open>t \<le> N\<close> mp [OF name that] Q])
qed simp

lemma in_contents_rule:
  assumes st: "st p0 t S L p" and "t < N"
    and Q: "\<And>n q t'. t' \<le> t \<Longrightarrow> st p0 t' (insert n S) L q \<Longrightarrow> Q n q"
  shows "p_wp (in_contents rec close_kind) p Q"
proof -
  have weak: "Q n q" if "st p0 t' S' L' q" and "t' \<le> t" and "insert n S \<subseteq> S'" and "L \<subseteq> L'" for n q t' S' L'
    by (rule Q [OF that(2)], rule st_weaken [OF that(1)]) (use that in auto)
  have rest: "p_wp (p_try (frothy_parser_expect close_kind) (\<lambda>_. p_try (frothy_node_list_flush items)
      (\<lambda>first. frothy_make_seq_node first (length (fst items))))) q Q"
    if "st p0 u (S \<union> set (fst items)) L q" and "u \<le> t" for u q and items :: frothy_node_list
    using that
    by - (rule p_spec_try expect_rule flush_seq_rule weak p_spec_fail | assumption | (simp; fail) | (auto; fail))+
  show ?thesis
    unfolding in_contents_def
  proof (rule p_spec_try, rule while_nodes_rule [where K = "\<lambda>l. set (fst l)"])
    show "st p0 t (S \<union> set (fst empty_node_list)) L p" using st by (simp add: empty_node_list_def)
  next
    fix items :: frothy_node_list and q t' assume "t' \<le> t" "st p0 t' (S \<union> set (fst items)) L q"
    then show "p_wp (in_step rec close_kind items) q (loop_post p0 t' S (\<lambda>l. set (fst l)) L
      (\<lambda>items q. p_wp (p_try (frothy_parser_expect close_kind) (\<lambda>_. p_try (frothy_node_list_flush items)
         (\<lambda>first. frothy_make_seq_node first (length (fst items))))) q Q))"
      unfolding in_step_def using assms(2)
      by - (rule p_rules rest parse_in_item_rule step_rules loop_post_done loop_post_again | assumption
          | (simp; fail) | (auto; fail))+
  qed
qed

lemma prefix_same_core: "same_core p (p\<lparr>ps_active_prefix := x\<rparr>)"
  by (simp add: same_core_def names_ok_def)

lemma st_prefix: "st p0 t S L p \<Longrightarrow> st p0 t S L (p\<lparr>ps_active_prefix := x\<rparr>)"
  by (rule st_same_core [OF _ prefix_same_core, where t = t and t' = t]) (simp_all add: st_def tokens_left_def)

lemma parse_in_rule:
  assumes st: "st p0 t S L p" and "t \<le> N"
    and Q: "\<And>n q t'. t' < t \<Longrightarrow> st p0 t' (insert n S) L q \<Longrightarrow> Q n q"
  shows "p_wp (frothy_parse_in rec) p Q"
  unfolding frothy_parse_in_def
  apply (rule p_spec_get, rule p_spec_try, rule expect_rule [OF st])
   apply (rule p_spec_get, rule p_spec_if, rule p_spec_fail, simp)
   apply (rule p_spec_try, rule advance_rule, assumption)
    apply (rule p_spec_try, rule expect_block_start_rule, assumption)
    apply (rule p_spec_do, rule p_spec_cleanup_result, rule in_contents_rule, erule st_prefix)
  using assms(2) apply simp
    apply (rule Q [OF _ st_prefix])
  by simp_all

lemma parse_step_contract: "goal_contract (parse_step rec) (Suc N)"
proof
  fix p goal assume p: "parser_ok p" "tokens_left p < Suc N"
  let ?Q = "\<lambda>n q. parser_rel p q \<and> parser_ok q \<and> tokens_left q < tokens_left p \<and> node_at q n"
  have start: "st p (tokens_left p) {} {} p" using p(1) by (rule st_start)
  have le: "tokens_left p \<le> N" using p(2) by simp
  have fin: "?Q n q" if "t' < tokens_left p" "st p t' {n} {} q" for n q t'
    using that by (auto simp: st_def)
  show "p_wp (parse_step rec goal) p ?Q"
    using parse_expr_rule [OF start le, where Q = ?Q] parse_prefix_rule [OF start le, where Q = ?Q]
      parse_in_rule [OF start le, where Q = ?Q] fin
    by (cases goal) (simp_all add: parse_step_def)
qed

end

subsection \<open>The recursion ends\<close>

lemma parse_fuel_contract: "goal_contract (parse_fuel n) n"
proof (induction n)
  case 0
  show ?case by unfold_locales simp
next
  case (Suc n)
  then show ?case by (simp add: goal_contract.parse_step_contract)
qed

interpretation run: goal_contract run_goal N for N
proof
  fix p goal assume "parser_ok p"
  then show "p_wp (run_goal goal) p
      (\<lambda>n q. parser_rel p q \<and> parser_ok q \<and> tokens_left q < tokens_left p \<and> node_at q n)"
    using goal_contract.rec_ok [OF parse_fuel_contract, of p "Suc (tokens_left p)"]
    by (simp add: run_goal_def p_spec_def)
qed

subsection \<open>The whole parser\<close>

lemma top_level_form_rule:
  assumes st: "st p0 t S L p" and Q: "\<And>n q t'. t' < t \<Longrightarrow> st p0 t' (insert n S) L q \<Longrightarrow> Q n q"
  shows "p_wp parse_top_level_form p Q"
  unfolding parse_top_level_form_def
proof (rule match_named_fn_rule [OF st], rule p_spec_get, unfold id_apply Let_def, intro p_spec_if)
  fix kind :: frothy_top_level_named_fn_kind
  assume name: "kind \<noteq> TOP_LEVEL_NAMED_FN_NONE \<longrightarrow> current_kind p = TOKEN_NAME"
  show "p_wp (frothy_parse_top_level_to run_goal) p Q"
    by (rule run.parse_top_level_to_rule [OF st order_refl Q])
  show "p_wp frothy_parse_top_level_record p Q" by (rule parse_top_level_record_rule [OF st Q])
  show "p_wp (run_goal GOAL_IN) p Q" by (rule run.rec_rule [OF st lessI Q])
  show "p_wp (run_goal (GOAL_EXPR False)) p Q" by (rule run.rec_rule [OF st lessI Q])
  show "p_wp (frothy_parse_set_item run_goal) p Q" by (rule run.parse_set_item_rule [OF st order_refl Q])
  show "p_wp (parse_top_level_binding run_goal) p Q"
    if "current_kind p = TOKEN_NAME \<and> frothy_token_is_binding_operator (next_kind p)"
    by (rule run.parse_binding_rule [OF st order_refl conjunct1 [OF that] Q])
  show "p_wp (frothy_parse_top_level_boot_block run_goal) p Q"
    if "current_kind p = TOKEN_NAME \<and> next_kind p = TOKEN_LBRACE \<and>
      frothy_token_matches_name (ps_source p) (ps_current p) (ascii ''boot'')"
    by (rule run.parse_boot_rule [OF st order_refl conjunct1 [OF that] Q])
  show "p_wp (parse_named_fn_form run_goal kind) p Q" if "kind \<noteq> TOP_LEVEL_NAMED_FN_NONE"
    by (rule run.parse_named_fn_form_rule [OF st order_refl mp [OF name that] Q])
qed

lemma finish_top_level_rule:
  assumes st: "st p0 t S L p" and "root \<in> S"
  shows "p_wp (finish_top_level require_eof root) p (\<lambda>(g, consumed) q. program_wf g)"
proof -
  have wf: "program_wf ((ps_program q)\<lparr>ir_root := root,
      ir_root_local_count := fr_next_local_index (last (ps_frames q))\<rparr>)" (is "program_wf ?g")
    if q: "st p0 u S L q" for u q
  proof -
    have ok: "parser_ok q" and fit: "locals_fit (ps_program q) (next_local q) root"
      using q assms(2) by (auto simp: st_def node_at_def)
    have wf: "nodes_wf (ps_program q)" using ok by (simp add: parser_ok_def)
    have ext: "program_extends (ps_program q) ?g" by (simp add: program_extends_def)
    have "nodes_wf ?g" using wf ext by (rule extends_nodes_wf) simp
    moreover have "locals_fit ?g (next_local q) root" using wf ext order_refl fit by (rule locals_fit_mono)
    ultimately show ?thesis
      using ok by (simp add: program_wf_def next_local_def parser_ok_def capacities_ok_def capacity_ok_def)
  qed
  show ?thesis
    unfolding finish_top_level_def
    apply (rule p_spec_try, rule skip_semicolons_rule [OF st])
    apply (rule p_spec_get, unfold id_apply, rule p_spec_if, rule p_spec_fail, simp)
    apply (rule p_spec_ok, unfold prod.case)
    by (rule wf)
qed

lemma lex_into_rule:
  assumes "\<And>token j. name_ok (ps_source p) token \<Longrightarrow> Q () (upd token (p\<lparr>ps_cursor := j\<rparr>))"
  shows "p_wp (lex_into upd) p Q"
proof -
  obtain r token j where lex: "frothy_lex_next (ps_source p) (ps_cursor p) = (r, token, j)"
    by (cases "frothy_lex_next (ps_source p) (ps_cursor p)")
  then show ?thesis
    using assms [OF lex_next_name_ok [OF lex]] by (simp add: lex_into_def p_spec_def split: sum.splits)
qed

lemma frame_entered_ok:
  "frame_entered p q \<Longrightarrow> capacities_ok p \<Longrightarrow> nodes_wf (ps_program p) \<Longrightarrow> ps_bindings p = [] \<Longrightarrow>
   names_ok p \<Longrightarrow> parser_ok q"
  by (auto simp: frame_entered_def parser_ok_def bindings_ok_def names_ok_def capacities_ok_def)

lemma top_level_steps_rule:
  "p_wp (top_level_steps require_eof) (init_parser source) (\<lambda>(g, consumed) q. program_wf g)"
proof -
  have form: "p_wp (p_try parse_top_level_form (\<lambda>root. finish_top_level require_eof root)) p
      (\<lambda>(g, consumed) q. program_wf g)" if "parser_ok p" for p
    by (rule p_spec_try, rule top_level_form_rule [OF st_start [OF that]], rule finish_top_level_rule,
        assumption) simp
  show ?thesis
    unfolding top_level_steps_def
    apply (rule p_spec_try, rule lex_into_rule)
    apply (rule p_spec_try, rule lex_into_rule)
    apply (rule p_spec_try, rule push_frame_rule)
     apply (simp add: init_parser_def capacities_ok_def capacity_ok_def frothy_ir_program_init_def)
    by (rule form, erule frame_entered_ok)
       (simp_all add: init_parser_def capacities_ok_def capacity_ok_def frothy_ir_program_init_def
         nodes_wf_def names_ok_def)
qed

lemma parse_internal_cases:
  obtains e where "frothy_parse_top_level_internal source require_eof = Some (Inl e)"
  | g n where "frothy_parse_top_level_internal source require_eof = Some (Inr (g, n))" "program_wf g"
  using top_level_steps_rule [of require_eof source]
  by (auto simp: frothy_parse_top_level_internal_def elim!: p_spec_cases)

end
