(* ===== verification/Frothy_Parse_Code.thy ===== *)
theory Frothy_Parse_Code
  imports Frothy_Parse_Total "HOL-Library.Code_Target_Numeral"
begin

section \<open>Evaluating the parser\<close>

text \<open>
  The definitions applied to a parser state: the simplifier then unfolds a step only when its turn has come,
  instead of the whole grammar under every abstraction.
\<close>

lemmas parser_code [code] =
  p_ok_def [THEN fun_cong] p_fail_def [THEN fun_cong] p_attempt_def [THEN fun_cong] p_result_def [THEN fun_cong]
  p_try_def [THEN fun_cong] p_get_def [THEN fun_cong] p_do_def [THEN fun_cong] p_look_def [THEN fun_cong]
  p_while_def [THEN fun_cong]
  frothy_parser_reserve_bindings_def [THEN fun_cong] frothy_parser_reserve_scopes_def [THEN fun_cong]
  frothy_parser_reserve_frames_def [THEN fun_cong] frothy_program_reserve_literals_def [THEN fun_cong]
  frothy_program_reserve_nodes_def [THEN fun_cong] frothy_program_reserve_links_def [THEN fun_cong]
  frothy_program_add_literal_def [THEN fun_cong] frothy_program_add_node_def [THEN fun_cong]
  frothy_program_append_link_def [THEN fun_cong] frothy_node_list_push_def [THEN fun_cong]
  frothy_node_list_flush_def [THEN fun_cong] frothy_make_literal_node_def [THEN fun_cong]
  frothy_make_int_literal_node_def [THEN fun_cong] frothy_make_bool_literal_node_def [THEN fun_cong]
  frothy_add_text_literal_def [THEN fun_cong] frothy_make_read_local_node_def [THEN fun_cong]
  frothy_make_write_local_node_def [THEN fun_cong] frothy_make_read_slot_node_def [THEN fun_cong]
  frothy_make_read_slot_fallback_node_def [THEN fun_cong]
  frothy_make_write_slot_node_def [THEN fun_cong]
  frothy_make_write_slot_fallback_node_def [THEN fun_cong]
  frothy_make_slot_designator_node_def [THEN fun_cong] frothy_make_record_def_node_def [THEN fun_cong]
  frothy_make_read_index_node_def [THEN fun_cong] frothy_make_write_index_node_def [THEN fun_cong]
  frothy_make_read_field_node_def [THEN fun_cong] frothy_make_write_field_node_def [THEN fun_cong]
  frothy_make_fn_node_def [THEN fun_cong] frothy_make_call_node_def [THEN fun_cong]
  frothy_make_if_node_def [THEN fun_cong] frothy_make_while_node_def [THEN fun_cong]
  frothy_make_seq_node_def [THEN fun_cong] frothy_make_single_item_seq_node_def [THEN fun_cong]
  frothy_make_top_level_write_slot_range_def [THEN fun_cong]
  frothy_make_top_level_write_slot_token_def [THEN fun_cong]
  frothy_make_builtin_call_def [THEN fun_cong] frothy_make_nil_literal_node_def [THEN fun_cong]
  frothy_make_bool_condition_node_def [THEN fun_cong]
  frothy_make_short_circuit_node_def [THEN fun_cong] frothy_parser_advance_def [THEN fun_cong]
  frothy_parser_expect_def [THEN fun_cong] take_current_def [THEN fun_cong]
  skip_semicolons_def [THEN fun_cong] frothy_push_scope_def [THEN fun_cong]
  frothy_push_frame_def [THEN fun_cong] frothy_declare_local_def [THEN fun_cong]
  frothy_reserve_hidden_local_def [THEN fun_cong] frothy_resolve_name_def [THEN fun_cong]
  frothy_parse_expr_before_block_def [THEN fun_cong]
  frothy_parser_expect_block_start_def [THEN fun_cong]
  frothy_parser_expect_binding_operator_def [THEN fun_cong]
  frothy_parser_expect_set_operator_def [THEN fun_cong] frothy_parse_place_def [THEN fun_cong]
  frothy_parse_set_item_def [THEN fun_cong] frothy_parse_local_binding_item_def [THEN fun_cong]
  frothy_parse_here_item_def [THEN fun_cong] frothy_parse_block_item_def [THEN fun_cong]
  block_item_step_def [THEN fun_cong] frothy_parse_block_contents_until_def [THEN fun_cong]
  frothy_parse_block_def [THEN fun_cong] parameter_step_def [THEN fun_cong]
  frothy_parse_parameter_list_def [THEN fun_cong] frothy_parse_with_parameter_list_def [THEN fun_cong]
  parse_fn_params_def [THEN fun_cong] parse_fn_body_def [THEN fun_cong]
  parse_fn_inner_def [THEN fun_cong] frothy_parse_fn_node_def [THEN fun_cong]
  frothy_parse_fn_def [THEN fun_cong] frothy_parse_if_def [THEN fun_cong]
  frothy_parse_while_def [THEN fun_cong] frothy_parse_when_def [THEN fun_cong]
  frothy_parse_unless_def [THEN fun_cong] else_branch_step_def [THEN fun_cong]
  push_branch_def [THEN fun_cong] cond_step_def [THEN fun_cong] chain_start_def [THEN fun_cong]
  frothy_parse_cond_def [THEN fun_cong] literal_and_advance_def [THEN fun_cong]
  frothy_parse_case_literal_def [THEN fun_cong] case_step_def [THEN fun_cong]
  push_all_def [THEN fun_cong] make_seq_of_def [THEN fun_cong] frothy_parse_case_def [THEN fun_cong]
  build_repeat_def [THEN fun_cong] parse_repeat_index_def [THEN fun_cong]
  declare_index_def [THEN fun_cong] frothy_parse_repeat_def [THEN fun_cong]
  frothy_parse_cells_def [THEN fun_cong] argument_step_def [THEN fun_cong]
  frothy_parse_call_expr_def [THEN fun_cong] parse_name_primary_def [THEN fun_cong]
  parse_designator_def [THEN fun_cong] parse_parenthesized_def [THEN fun_cong]
  frothy_parse_primary_def [THEN fun_cong] not_designator_def [THEN fun_cong]
  parse_call_suffix_def [THEN fun_cong] parse_colon_suffix_def [THEN fun_cong]
  parse_field_suffix_def [THEN fun_cong] parse_index_suffix_def [THEN fun_cong]
  again_def [THEN fun_cong] postfix_step_def [THEN fun_cong] frothy_parse_postfix_def [THEN fun_cong]
  frothy_parse_prefix_def [THEN fun_cong] binary_step_def [THEN fun_cong]
  frothy_parse_binary_expr_def [THEN fun_cong] and_step_def [THEN fun_cong]
  frothy_parse_and_expr_def [THEN fun_cong] or_step_def [THEN fun_cong]
  frothy_parse_expr_def [THEN fun_cong] look_parameter_step_def [THEN fun_cong]
  look_named_fn_def [THEN fun_cong] frothy_match_top_level_named_fn_def [THEN fun_cong]
  frothy_parse_top_level_named_fn_def [THEN fun_cong]
  frothy_parse_top_level_boot_block_def [THEN fun_cong] frothy_parse_top_level_to_def [THEN fun_cong]
  parse_top_level_binding_def [THEN fun_cong] parse_named_fn_form_def [THEN fun_cong]
  record_field_step_def [THEN fun_cong] frothy_parse_top_level_record_def [THEN fun_cong]
  frothy_parse_in_item_def [THEN fun_cong] in_step_def [THEN fun_cong] in_contents_def [THEN fun_cong]
  frothy_parse_in_def [THEN fun_cong] parse_step_def [THEN fun_cong] run_goal_def [THEN fun_cong]
  parse_top_level_form_def [THEN fun_cong] lex_into_def [THEN fun_cong]
  finish_top_level_def [THEN fun_cong] top_level_steps_def [THEN fun_cong]

lemma parser_code_rec [code]:
  "p_loop 0 body s p = None"
  "p_loop (Suc n) body s p = p_try (body s) (\<lambda>r. case r of Inl s' \<Rightarrow> p_loop n body s' | Inr b \<Rightarrow> p_ok b) p"
  "parse_fuel 0 goal p = None"
  "parse_fuel (Suc n) goal p = parse_step (parse_fuel n) goal p"
  "append_links [] p = p_ok () p"
  "append_links (n # ns) p = p_try (frothy_program_append_link n) (\<lambda>_. append_links ns) p"
  by simp_all

end
