(* ===== verification/Frothy_Parse_Props.thy ===== *)
theory Frothy_Parse_Props
  imports Frothy_Parse_Code
begin

section \<open>Properties of the parser\<close>

text \<open>
  Termination and the type property of \<open>frothy_parse_top_level\<close>, evaluated at concrete sources, and the
  behaviours of the code that are at odds with its grammar, each shown by evaluating the model.
\<close>

text \<open>C7. The parser returns on every source text: none of its loops and none of its recursions runs
  forever, whatever the source and the errors in it, for a whole form and for a prefix of the source.\<close>

theorem parser_returns:
  "\<exists>r s. frothy_parse_top_level source = Some r \<and> frothy_parse_top_level_prefix source = Some s"
  by (rule parse_internal_cases [of source True]; rule parse_internal_cases [of source False])
     (simp_all add: frothy_parse_top_level_def frothy_parse_top_level_prefix_def)

text \<open>C6. A parsed program is well formed: every child, literal and link index is in range and children
  come before their parents, record fields are distinct texts, built-in calls have the number of arguments
  of the built-in, the body of each function and the root use only the locals that are declared for them,
  and the three arrays stay within their fixed capacities.\<close>

theorem parsed_program_wf:
  assumes "frothy_parse_top_level source = Some (Inr g)"
  shows "program_wf g"
  using assms
  by (cases rule: parse_internal_cases [of source True]) (auto simp: frothy_parse_top_level_def)


subsection \<open>Evaluation\<close>

definition sample_source :: "byte list" where
  "sample_source = ascii ''in m { record P [x] to go with n { repeat n as i { go: i } } }''"

definition sample_program :: frothy_ir_program where
  "sample_program =
     (case frothy_parse_top_level sample_source of Some (Inr g) \<Rightarrow> g | _ \<Rightarrow> frothy_ir_program_init)"

lemma sample_parses:
  "(case frothy_parse_top_level sample_source of
      Some (Inr g) \<Rightarrow> length (ir_literals g) = 3
    | _ \<Rightarrow> False)"
  by code_simp

theorem parsed_program_wf_witness:
  "frothy_parse_top_level sample_source = Some (Inr sample_program) \<and> program_wf sample_program"
proof -
  have "frothy_parse_top_level sample_source = Some (Inr sample_program)"
    using sample_parses by (auto simp: sample_program_def split: option.splits sum.splits)
  then show ?thesis using parsed_program_wf by blast
qed

subsection \<open>Where the code departs from its grammar\<close>

text \<open>
  1. The status of \<open>frothy_parse_parameter_list\<close> is dropped: a parameter list without its closing
  parenthesis, or with a parameter twice, gives a function of arity 0 whose parameters are locals that
  nothing sets.

  2. The same dropped status lets the lexer run past the end of the source: a backslash before the
  terminator moves the cursor behind it, and the next token is read from the memory there. The same source
  (\<open>fn ( { "\<close> and a backslash) gives different errors with different bytes behind its terminator.

  3. \<open>prefer_block_on_spaced_bracket\<close> means that a bracket after a space starts a block and one without
  a space is an index. But the end of the previous token is forgotten after a name (the token is cleared
  first) and wrong after a parenthesis or a bracket (whose length is 0), so before a block every bracket
  after them starts a block, and indexing is rejected there, inside parentheses too.
\<close>

definition parsed_nodes :: "byte list \<Rightarrow> frothy_ir_node list result option" where
  "parsed_nodes source = map_option (map_sum id ir_nodes) (frothy_parse_top_level source)"

text \<open>Evaluations behind the notes above: a malformed parameter list is accepted before a block, as a
  list of no parameters; a text that ends in a backslash makes the parser read the bytes behind the
  terminating zero; before a block an index after a name is taken for the block, also inside
  parentheses, though the same index expression parses elsewhere.\<close>

lemma parser_departure_examples:
  "parsed_nodes (ascii ''fn (a { a }'') = Some (Inr [NODE_READ_LOCAL 0, NODE_SEQ 0 1, NODE_FN 0 1 1]) \<and>
   parsed_nodes (ascii ''fn (a, a { }'') = Some (Inr [NODE_SEQ 0 0, NODE_FN 0 1 0]) \<and>
   parsed_nodes (ascii ''fn ( { '' @ [34, 92, 0]) = Some (Inl FROTH_ERROR_SIGNATURE) \<and>
   parsed_nodes (ascii ''fn ( { '' @ [34, 92, 0, 34]) = Some (Inl FROTH_ERROR_UNTERMINATED_STRING) \<and>
   parsed_nodes (ascii ''if a[0] {}'') = Some (Inl FROTH_ERROR_SIGNATURE) \<and>
   parsed_nodes (ascii ''if (a[0]) {}'') = Some (Inl FROTH_ERROR_SIGNATURE) \<and>
   parsed_nodes (ascii ''a[0]'') = Some (Inr [NODE_READ_SLOT [97], NODE_LIT 0, NODE_READ_INDEX 0 1])"
  by code_simp

end
