(* ===== verification/Frothy_Render.thy ===== *)
theory Frothy_Render
  imports Frothy_IR Frothy_Lexer
begin

section \<open>Programs as text (frothy_ir.c)\<close>

text \<open>
  The two renderings of a program: the core form, an S-expression of the nodes, and the surface form,
  source text that recovers \<^verbatim>\<open>repeat\<close>, \<^verbatim>\<open>case\<close>, \<^verbatim>\<open>cond\<close>, \<^verbatim>\<open>and\<close> and \<^verbatim>\<open>or\<close> from the shapes the parser gives them. A
  renderer is the status and the bytes it appends to the string builder (which is thrown away after an
  error, and whose \<^verbatim>\<open>realloc\<close> is taken to succeed). Both forms recurse over the nodes; the recursive
  call is a parameter of each function, closed by fuel: more nested calls than there are nodes means a
  node within itself, where the code does not return.
\<close>

type_synonym rendering = "byte list result option"

definition frothy_sb_append_text :: "byte list \<Rightarrow> rendering" where
  "frothy_sb_append_text t = Some (Inr (c_string t))"

definition r_bytes :: "byte list \<Rightarrow> rendering" where "r_bytes t = Some (Inr t)"

definition r_text :: "string \<Rightarrow> rendering" where "r_text s = r_bytes (ascii s)"

definition r_fail :: "froth_error \<Rightarrow> rendering" where "r_fail e = Some (Inl e)"

text \<open>One after the other, with the early return of \<open>FROTH_TRY\<close>.\<close>

fun r_cat :: "rendering list \<Rightarrow> rendering" where
  "r_cat [] = r_bytes []"
| "r_cat (r # rs) =
     (case r of
        None \<Rightarrow> None
      | Some (Inl e) \<Rightarrow> Some (Inl e)
      | Some (Inr t) \<Rightarrow>
          (case r_cat rs of
             None \<Rightarrow> None
           | Some (Inl e) \<Rightarrow> Some (Inl e)
           | Some (Inr u) \<Rightarrow> Some (Inr (t @ u))))"

declare r_cat.simps [simp del]

text \<open>The decimal forms of a size and of a cell.\<close>

fun decimal :: "nat \<Rightarrow> byte list" where
  "decimal n = (if n < 10 then [48 + of_nat n] else decimal (n div 10) @ [48 + of_nat (n mod 10)])"

declare decimal.simps [simp del]

definition decimal_cell :: "32 word \<Rightarrow> byte list" where
  "decimal_cell w = (if sint w < 0 then 45 # decimal (nat (- sint w)) else decimal (nat (sint w)))"

subsection \<open>Names and literals\<close>

fun frothy_ir_builtin_name :: "frothy_ir_builtin \<Rightarrow> byte list" where
  "frothy_ir_builtin_name BUILTIN_NONE = []"
| "frothy_ir_builtin_name BUILTIN_CELLS = ascii ''cells''"
| "frothy_ir_builtin_name BUILTIN_NOT = ascii ''not''"
| "frothy_ir_builtin_name BUILTIN_NEGATE = ascii ''neg''"
| "frothy_ir_builtin_name BUILTIN_ADD = ascii ''+''"
| "frothy_ir_builtin_name BUILTIN_SUB = ascii ''-''"
| "frothy_ir_builtin_name BUILTIN_MUL = ascii ''*''"
| "frothy_ir_builtin_name BUILTIN_DIV = ascii ''/''"
| "frothy_ir_builtin_name BUILTIN_REM = ascii ''%''"
| "frothy_ir_builtin_name BUILTIN_LT = ascii ''<''"
| "frothy_ir_builtin_name BUILTIN_LE = ascii ''<=''"
| "frothy_ir_builtin_name BUILTIN_GT = ascii ''>''"
| "frothy_ir_builtin_name BUILTIN_GE = ascii ''>=''"
| "frothy_ir_builtin_name BUILTIN_EQ = ascii ''==''"
| "frothy_ir_builtin_name BUILTIN_NEQ = ascii ''!=''"

definition quoted_byte :: "byte \<Rightarrow> byte list" where
  "quoted_byte b =
     (if b = 92 then [92, 92] else if b = 34 then [92, 34] else if b = 10 then [92, 110]
      else if b = 13 then [92, 114] else if b = 9 then [92, 116] else [b])"

definition quoted :: "byte list \<Rightarrow> byte list" where
  "quoted text = 34 # concat (map quoted_byte (c_string text)) @ [34]"

definition frothy_ir_render_quoted :: "byte list \<Rightarrow> rendering" where
  "frothy_ir_render_quoted text = r_bytes (quoted text)"

fun literal_form :: "frothy_ir_literal \<Rightarrow> rendering" where
  "literal_form (LITERAL_INT i) = r_bytes (decimal_cell i)"
| "literal_form (LITERAL_BOOL b) = r_text (if b then ''true'' else ''false'')"
| "literal_form LITERAL_NIL = r_text ''nil''"
| "literal_form (LITERAL_TEXT t) = frothy_ir_render_quoted t"

definition frothy_ir_render_literal :: "frothy_ir_program \<Rightarrow> nat \<Rightarrow> rendering" where
  "frothy_ir_render_literal g l = r_cat [r_text ''(lit '', literal_form (ir_literals g ! l), r_text '')'']"

definition frothy_ir_text_literal_value :: "frothy_ir_program \<Rightarrow> nat \<Rightarrow> byte list option" where
  "frothy_ir_text_literal_value g l =
     (if length (ir_literals g) \<le> l then None
      else case ir_literals g ! l of LITERAL_TEXT t \<Rightarrow> Some t | _ \<Rightarrow> None)"

text \<open>The fields of a record definition, each rendered by the given function.\<close>

definition render_fields ::
  "frothy_ir_program \<Rightarrow> nat \<Rightarrow> nat \<Rightarrow> (nat \<Rightarrow> byte list \<Rightarrow> rendering) \<Rightarrow> rendering" where
  "render_fields g first n form =
     r_cat (map (\<lambda>i.
       case frothy_ir_text_literal_value g (ir_links g ! (first + i)) of
         None \<Rightarrow> r_fail FROTH_ERROR_SIGNATURE
       | Some t \<Rightarrow> form i t) [0..<n])"

subsection \<open>The core form\<close>

definition frothy_ir_render_node_list ::
  "(node_id \<Rightarrow> rendering) \<Rightarrow> frothy_ir_program \<Rightarrow> nat \<Rightarrow> nat \<Rightarrow> rendering" where
  "frothy_ir_render_node_list rec g first n =
     r_cat (map (\<lambda>i. r_cat [r_text '' '', rec (ir_links g ! (first + i))]) [0..<n])"

fun frothy_ir_render_node ::
  "(node_id \<Rightarrow> rendering) \<Rightarrow> frothy_ir_program \<Rightarrow> frothy_ir_node \<Rightarrow> rendering" where
  "frothy_ir_render_node rec g (NODE_LIT l) = frothy_ir_render_literal g l"
| "frothy_ir_render_node rec g (NODE_READ_LOCAL i) =
     r_cat [r_text ''(read-local '', r_bytes (decimal i), r_text '')'']"
| "frothy_ir_render_node rec g (NODE_WRITE_LOCAL i v) =
     r_cat [r_text ''(write-local '', r_bytes (decimal i), r_text '' '', rec v, r_text '')'']"
| "frothy_ir_render_node rec g (NODE_READ_SLOT s) =
     r_cat [r_text ''(read-slot '', frothy_ir_render_quoted s, r_text '')'']"
| "frothy_ir_render_node rec g (NODE_READ_SLOT_FALLBACK s f) =
     r_cat [r_text ''(read-slot-fallback '', frothy_ir_render_quoted s, r_text '' '',
       frothy_ir_render_quoted f, r_text '')'']"
| "frothy_ir_render_node rec g (NODE_WRITE_SLOT s v existing) =
     r_cat [r_text (if existing then ''(write-slot! '' else ''(write-slot ''),
       frothy_ir_render_quoted s, r_text '' '', rec v, r_text '')'']"
| "frothy_ir_render_node rec g (NODE_WRITE_SLOT_FALLBACK s f v existing) =
     r_cat [r_text (if existing then ''(write-slot-fallback! '' else ''(write-slot-fallback ''),
       frothy_ir_render_quoted s, r_text '' '', frothy_ir_render_quoted f, r_text '' '', rec v, r_text '')'']"
| "frothy_ir_render_node rec g (NODE_SLOT_DESIGNATOR s) =
     r_cat [r_text ''(slot-designator '', frothy_ir_render_quoted s, r_text '')'']"
| "frothy_ir_render_node rec g (NODE_RECORD_DEF s first n) =
     r_cat [r_text ''(record-def '', frothy_ir_render_quoted s,
       render_fields g first n (\<lambda>i t. r_cat [r_text '' '', frothy_ir_render_quoted t]), r_text '')'']"
| "frothy_ir_render_node rec g (NODE_READ_INDEX b i) =
     r_cat [r_text ''(read-index '', rec b, r_text '' '', rec i, r_text '')'']"
| "frothy_ir_render_node rec g (NODE_WRITE_INDEX b i v) =
     r_cat [r_text ''(write-index '', rec b, r_text '' '', rec i, r_text '' '', rec v, r_text '')'']"
| "frothy_ir_render_node rec g (NODE_READ_FIELD b f) =
     r_cat [r_text ''(read-field '', rec b, r_text '' '', frothy_ir_render_quoted f, r_text '')'']"
| "frothy_ir_render_node rec g (NODE_WRITE_FIELD b f v) =
     r_cat [r_text ''(write-field '', rec b, r_text '' '', frothy_ir_render_quoted f, r_text '' '', rec v,
       r_text '')'']"
| "frothy_ir_render_node rec g (NODE_FN a l b) =
     r_cat [r_text ''(fn arity='', r_bytes (decimal a), r_text '' locals='', r_bytes (decimal l), r_text '' '',
       rec b, r_text '')'']"
| "frothy_ir_render_node rec g (NODE_CALL bt callee first n) =
     r_cat [r_text ''(call '',
       if bt \<noteq> BUILTIN_NONE
       then r_cat [r_text ''(builtin '', frothy_ir_render_quoted (frothy_ir_builtin_name bt), r_text '')'']
       else rec callee,
       frothy_ir_render_node_list rec g first n, r_text '')'']"
| "frothy_ir_render_node rec g (NODE_IF c t e has_else) =
     r_cat [r_text ''(if '', rec c, r_text '' '', rec t,
       if has_else then r_cat [r_text '' '', rec e] else r_bytes [], r_text '')'']"
| "frothy_ir_render_node rec g (NODE_WHILE c b) =
     r_cat [r_text ''(while '', rec c, r_text '' '', rec b, r_text '')'']"
| "frothy_ir_render_node rec g (NODE_SEQ first n) =
     r_cat [r_text ''(seq'', frothy_ir_render_node_list rec g first n, r_text '')'']"

primrec render_fuel :: "nat \<Rightarrow> frothy_ir_program \<Rightarrow> node_id \<Rightarrow> rendering" where
  "render_fuel 0 g = (\<lambda>n. None)"
| "render_fuel (Suc k) g = (\<lambda>n. frothy_ir_render_node (render_fuel k g) g (ir_nodes g ! n))"

definition render_tree :: "frothy_ir_program \<Rightarrow> node_id \<Rightarrow> rendering" where
  "render_tree g = render_fuel (Suc (length (ir_nodes g))) g"

definition frothy_ir_render :: "frothy_ir_program \<Rightarrow> rendering" where
  "frothy_ir_render g =
     (if ir_root g = FROTHY_IR_NODE_INVALID then r_fail FROTH_ERROR_SIGNATURE
      else render_tree g (ir_root g))"

definition frothy_ir_render_code :: "frothy_ir_program \<Rightarrow> node_id \<Rightarrow> nat \<Rightarrow> nat \<Rightarrow> rendering" where
  "frothy_ir_render_code g body arity local_count =
     (if length (ir_nodes g) \<le> body then r_fail FROTH_ERROR_BOUNDS
      else r_cat [r_text ''(fn arity='', r_bytes (decimal arity), r_text '' locals='',
             r_bytes (decimal local_count), r_text '' '', render_tree g body, r_text '')''])"

end
