(* ===== verification/Frothy_Render_Surface.thy ===== *)
theory Frothy_Render_Surface
  imports Frothy_Render
begin

section \<open>The surface form (frothy_ir.c)\<close>

text \<open>
  Locals are named after their place, \<^verbatim>\<open>arg0\<close> for a parameter and \<^verbatim>\<open>local0\<close> for any other local; the forms
  the parser expands are recognised by their shape.
\<close>

record frothy_surface_render =
  sr_program :: frothy_ir_program
  sr_arity :: nat
  sr_local_count :: nat

type_synonym surface_renderer = "frothy_surface_render \<Rightarrow> node_id \<Rightarrow> rendering"

abbreviation sr_node :: "frothy_surface_render \<Rightarrow> node_id \<Rightarrow> frothy_ir_node" where
  "sr_node r n \<equiv> ir_nodes (sr_program r) ! n"

abbreviation sr_link :: "frothy_surface_render \<Rightarrow> nat \<Rightarrow> node_id" where
  "sr_link r i \<equiv> ir_links (sr_program r) ! i"

definition frothy_ir_render_surface_local_name :: "frothy_surface_render \<Rightarrow> nat \<Rightarrow> rendering" where
  "frothy_ir_render_surface_local_name r i =
     (if i < sr_arity r then r_cat [r_text ''arg'', r_bytes (decimal i)]
      else r_cat [r_text ''local'', r_bytes (decimal (i - sr_arity r))])"

definition frothy_ir_surface_is_primary_fallback_pair :: "byte list \<Rightarrow> byte list \<Rightarrow> bool" where
  "frothy_ir_surface_is_primary_fallback_pair primary fallback \<longleftrightarrow>
     (let p = c_string primary; f = c_string fallback
      in length f + 1 < length p \<and> drop (length p - length f) p = f \<and> p ! (length p - length f - 1) = 46)"

definition frothy_ir_render_surface_fallback_slot_name :: "byte list \<Rightarrow> byte list \<Rightarrow> rendering" where
  "frothy_ir_render_surface_fallback_slot_name primary fallback =
     frothy_sb_append_text
       (if frothy_ir_surface_is_primary_fallback_pair primary fallback then fallback else primary)"

definition frothy_ir_surface_infix_operator :: "frothy_ir_builtin \<Rightarrow> byte list option" where
  "frothy_ir_surface_infix_operator builtin =
     (if builtin \<in> {BUILTIN_NONE, BUILTIN_CELLS, BUILTIN_NOT, BUILTIN_NEGATE} then None
      else Some (frothy_ir_builtin_name builtin))"

definition frothy_ir_render_surface_literal :: "frothy_ir_program \<Rightarrow> nat \<Rightarrow> rendering" where
  "frothy_ir_render_surface_literal g l = literal_form (ir_literals g ! l)"

subsection \<open>Recognising what the parser expands\<close>

definition surface_literal_matches ::
  "(frothy_ir_literal \<Rightarrow> bool) \<Rightarrow> frothy_ir_program \<Rightarrow> node_id \<Rightarrow> bool" where
  "surface_literal_matches q g n \<longleftrightarrow> n < length (ir_nodes g) \<and>
     (case ir_nodes g ! n of NODE_LIT l \<Rightarrow> q (ir_literals g ! l) | _ \<Rightarrow> False)"

definition frothy_ir_surface_bool_literal :: "frothy_ir_program \<Rightarrow> node_id \<Rightarrow> bool \<Rightarrow> bool" where
  "frothy_ir_surface_bool_literal g n expected = surface_literal_matches (\<lambda>l. l = LITERAL_BOOL expected) g n"

definition frothy_ir_surface_int_literal :: "frothy_ir_program \<Rightarrow> node_id \<Rightarrow> 32 word \<Rightarrow> bool" where
  "frothy_ir_surface_int_literal g n expected = surface_literal_matches (\<lambda>l. l = LITERAL_INT expected) g n"

definition frothy_ir_surface_is_nil_literal :: "frothy_ir_program \<Rightarrow> node_id \<Rightarrow> bool" where
  "frothy_ir_surface_is_nil_literal g n = surface_literal_matches (\<lambda>l. l = LITERAL_NIL) g n"

definition frothy_ir_surface_is_scalar_literal :: "frothy_ir_program \<Rightarrow> node_id \<Rightarrow> bool" where
  "frothy_ir_surface_is_scalar_literal g n =
     surface_literal_matches (\<lambda>l. case l of LITERAL_INT _ \<Rightarrow> True | LITERAL_BOOL _ \<Rightarrow> True
       | LITERAL_NIL \<Rightarrow> True | LITERAL_TEXT _ \<Rightarrow> True) g n"

text \<open>The condition under \<^verbatim>\<open>if c then true else false\<close>.\<close>

definition frothy_ir_surface_match_bool_condition :: "frothy_ir_program \<Rightarrow> node_id \<Rightarrow> node_id option" where
  "frothy_ir_surface_match_bool_condition g n =
     (if length (ir_nodes g) \<le> n then None
      else case ir_nodes g ! n of
             NODE_IF c t e has_else \<Rightarrow>
               if has_else \<and> frothy_ir_surface_bool_literal g t True \<and> frothy_ir_surface_bool_literal g e False
               then Some c else None
           | _ \<Rightarrow> None)"

text \<open>Is it \<^verbatim>\<open>or\<close>, the left operand and the right one.\<close>

definition frothy_ir_surface_match_short_circuit ::
  "frothy_ir_program \<Rightarrow> frothy_ir_node \<Rightarrow> (bool \<times> node_id \<times> node_id) option" where
  "frothy_ir_surface_match_short_circuit g nd =
     (case nd of
        NODE_IF c t e has_else \<Rightarrow>
          if \<not> has_else then None
          else
            (case (frothy_ir_surface_bool_literal g t True, frothy_ir_surface_match_bool_condition g e) of
               (True, Some rhs) \<Rightarrow> Some (True, c, rhs)
             | _ \<Rightarrow>
                 (case (frothy_ir_surface_bool_literal g e False, frothy_ir_surface_match_bool_condition g t) of
                    (True, Some rhs) \<Rightarrow> Some (False, c, rhs)
                  | _ \<Rightarrow> None))
      | _ \<Rightarrow> None)"

definition is_read_local :: "frothy_ir_node \<Rightarrow> nat \<Rightarrow> bool" where
  "is_read_local nd i \<longleftrightarrow> nd = NODE_READ_LOCAL i"

definition frothy_ir_surface_match_repeat_increment ::
  "frothy_ir_program \<Rightarrow> node_id \<Rightarrow> nat \<Rightarrow> bool" where
  "frothy_ir_surface_match_repeat_increment g n counter_local \<longleftrightarrow> n < length (ir_nodes g) \<and>
     (case ir_nodes g ! n of
        NODE_WRITE_LOCAL i v \<Rightarrow> i = counter_local \<and>
          (case ir_nodes g ! v of
             NODE_CALL builtin callee first argc \<Rightarrow> builtin = BUILTIN_ADD \<and> argc = 2 \<and>
               frothy_ir_surface_int_literal g (ir_links g ! (first + 1)) 1 \<and>
               is_read_local (ir_nodes g ! (ir_links g ! first)) counter_local
           | _ \<Rightarrow> False)
      | _ \<Rightarrow> False)"

text \<open>The comparison of the counter with the limit, and the statements of the loop before the increment:
  the index local, if there is one, and the body.\<close>

definition match_repeat_condition :: "frothy_ir_program \<Rightarrow> node_id \<Rightarrow> nat \<Rightarrow> nat \<Rightarrow> bool" where
  "match_repeat_condition g n counter_local limit_local \<longleftrightarrow>
     (case ir_nodes g ! n of
        NODE_CALL builtin callee first argc \<Rightarrow> builtin = BUILTIN_LT \<and> argc = 2 \<and>
          is_read_local (ir_nodes g ! (ir_links g ! first)) counter_local \<and>
          is_read_local (ir_nodes g ! (ir_links g ! (first + 1))) limit_local
      | _ \<Rightarrow> False)"

definition match_repeat_prelude :: "frothy_ir_program \<Rightarrow> node_id \<Rightarrow> nat \<Rightarrow> nat option" where
  "match_repeat_prelude g n counter_local =
     (case ir_nodes g ! n of
        NODE_WRITE_LOCAL i v \<Rightarrow> if is_read_local (ir_nodes g ! v) counter_local then Some i else None
      | _ \<Rightarrow> None)"

definition match_repeat_body ::
  "frothy_ir_program \<Rightarrow> node_id \<Rightarrow> nat \<Rightarrow> (nat option \<times> node_id) option" where
  "match_repeat_body g n counter_local =
     (case ir_nodes g ! n of
        NODE_SEQ first items \<Rightarrow>
          if items < 2 \<or> 3 < items then None
          else if items = 3
          then (case match_repeat_prelude g (ir_links g ! first) counter_local of
                  None \<Rightarrow> None
                | Some index_local \<Rightarrow>
                    if frothy_ir_surface_match_repeat_increment g (ir_links g ! (first + 2)) counter_local
                    then Some (Some index_local, ir_links g ! (first + 1)) else None)
          else if frothy_ir_surface_match_repeat_increment g (ir_links g ! (first + 1)) counter_local
          then Some (None, ir_links g ! first) else None
      | _ \<Rightarrow> None)"

definition frothy_ir_surface_match_repeat ::
  "frothy_ir_program \<Rightarrow> node_id \<Rightarrow> (node_id \<times> nat option \<times> node_id) option" where
  "frothy_ir_surface_match_repeat g n =
     (if length (ir_nodes g) \<le> n then None
      else case ir_nodes g ! n of
             NODE_SEQ first items \<Rightarrow>
               if items \<noteq> 3 then None
               else
                 (case (ir_nodes g ! (ir_links g ! first), ir_nodes g ! (ir_links g ! (first + 1)),
                        ir_nodes g ! (ir_links g ! (first + 2))) of
                    (NODE_WRITE_LOCAL limit_local count_expr, NODE_WRITE_LOCAL counter_local start,
                     NODE_WHILE condition body) \<Rightarrow>
                      if \<not> frothy_ir_surface_int_literal g start 0 then None
                      else if \<not> match_repeat_condition g condition counter_local limit_local then None
                      else map_option (Pair count_expr) (match_repeat_body g body counter_local)
                  | _ \<Rightarrow> None)
           | _ \<Rightarrow> None)"

text \<open>The literal, the body and the rest of a clause that compares the scrutinee.\<close>

definition frothy_ir_surface_match_case_clause ::
  "frothy_ir_program \<Rightarrow> node_id \<Rightarrow> nat \<Rightarrow> (node_id \<times> node_id \<times> node_id) option" where
  "frothy_ir_surface_match_case_clause g n scrutinee_local =
     (if length (ir_nodes g) \<le> n then None
      else case ir_nodes g ! n of
             NODE_IF c t e has_else \<Rightarrow>
               if \<not> has_else then None
               else
                 (case ir_nodes g ! c of
                    NODE_CALL builtin callee first argc \<Rightarrow>
                      if builtin = BUILTIN_EQ \<and> argc = 2 \<and>
                         is_read_local (ir_nodes g ! (ir_links g ! first)) scrutinee_local \<and>
                         frothy_ir_surface_is_scalar_literal g (ir_links g ! (first + 1))
                      then Some (ir_links g ! (first + 1), t, e) else None
                  | _ \<Rightarrow> None)
           | _ \<Rightarrow> None)"

definition is_if_else :: "frothy_ir_program \<Rightarrow> node_id \<Rightarrow> bool" where
  "is_if_else g n \<longleftrightarrow> n < length (ir_nodes g) \<and>
     (case ir_nodes g ! n of NODE_IF _ _ _ has_else \<Rightarrow> has_else | _ \<Rightarrow> False)"

subsection \<open>Blocks and chains\<close>

definition frothy_ir_render_surface_block :: "surface_renderer \<Rightarrow> surface_renderer" where
  "frothy_ir_render_surface_block rec r n =
     r_cat [r_text ''['',
       (case sr_node r n of
          NODE_SEQ first items \<Rightarrow>
            r_cat [r_cat (map (\<lambda>i. r_cat [r_text (if i = 0 then '' '' else ''; ''), rec r (sr_link r (first + i))])
                     [0..<items]),
              r_text (if items \<noteq> 0 then '' '' else '''')]
        | _ \<Rightarrow> r_cat [r_text '' '', rec r n, r_text '' '']),
       r_text '']'']"

text \<open>The clauses of a chain of alternatives, as long as it goes on with an alternative.\<close>

primrec cond_items :: "nat \<Rightarrow> surface_renderer \<Rightarrow> frothy_surface_render \<Rightarrow> bool \<Rightarrow> node_id \<Rightarrow> rendering" where
  "cond_items 0 rec r has_items n = None"
| "cond_items (Suc k) rec r has_items n =
     (let nd = sr_node r n; rest = else_branch nd
      in r_cat [r_text (if has_items then ''; '' else '' ''), r_text ''when '', rec r (condition_node nd), r_text '' '',
           frothy_ir_render_surface_block rec r (then_branch nd),
           if is_if_else (sr_program r) rest then cond_items k rec r True rest
           else if \<not> frothy_ir_surface_is_nil_literal (sr_program r) rest
           then r_cat [r_text ''; else '', frothy_ir_render_surface_block rec r rest]
           else r_bytes []])"

definition frothy_ir_render_surface_cond :: "surface_renderer \<Rightarrow> frothy_surface_render \<Rightarrow> node_id \<Rightarrow> rendering option" where
  "frothy_ir_render_surface_cond rec r n =
     (if \<not> is_if_else (sr_program r) n then None
      else Some (r_cat [r_text ''cond ['',
             cond_items (Suc (length (ir_nodes (sr_program r)))) rec r False n, r_text '' '', r_text '']'']))"

primrec case_items ::
  "nat \<Rightarrow> surface_renderer \<Rightarrow> frothy_surface_render \<Rightarrow> nat \<Rightarrow> bool \<Rightarrow> node_id \<times> node_id \<times> node_id \<Rightarrow> rendering"
where
  "case_items 0 rec r scrutinee_local has_items clause = None"
| "case_items (Suc k) rec r scrutinee_local has_items clause =
     (case clause of
        (literal, body, rest) \<Rightarrow>
          r_cat [r_text (if has_items then ''; '' else '' ''), rec r literal, r_text '' '',
            frothy_ir_render_surface_block rec r body,
            (case frothy_ir_surface_match_case_clause (sr_program r) rest scrutinee_local of
               Some clause \<Rightarrow> case_items k rec r scrutinee_local True clause
             | None \<Rightarrow>
                 if \<not> frothy_ir_surface_is_nil_literal (sr_program r) rest
                 then r_cat [r_text ''; else '', frothy_ir_render_surface_block rec r rest]
                 else r_bytes [])])"

definition frothy_ir_render_surface_case :: "surface_renderer \<Rightarrow> frothy_surface_render \<Rightarrow> node_id \<Rightarrow> rendering option" where
  "frothy_ir_render_surface_case rec r n =
     (if length (ir_nodes (sr_program r)) \<le> n then None
      else case sr_node r n of
             NODE_SEQ first items \<Rightarrow>
               if items \<noteq> 2 then None
               else
                 (case sr_node r (sr_link r first) of
                    NODE_WRITE_LOCAL scrutinee_local scrutinee \<Rightarrow>
                      (case frothy_ir_surface_match_case_clause (sr_program r) (sr_link r (first + 1)) scrutinee_local of
                         None \<Rightarrow> None
                       | Some clause \<Rightarrow>
                           Some (r_cat [r_text ''case '', rec r scrutinee, r_text '' ['',
                             case_items (Suc (length (ir_nodes (sr_program r)))) rec r scrutinee_local False clause,
                             r_text '' '', r_text '']'']))
                  | _ \<Rightarrow> None)
           | _ \<Rightarrow> None)"

subsection \<open>Calls\<close>

definition frothy_ir_render_surface_arg_list ::
  "surface_renderer \<Rightarrow> frothy_surface_render \<Rightarrow> nat \<Rightarrow> nat \<Rightarrow> rendering" where
  "frothy_ir_render_surface_arg_list rec r first n =
     r_cat (map (\<lambda>i. r_cat [r_text (if i \<noteq> 0 then '', '' else ''''), rec r (sr_link r (first + i))]) [0..<n])"

text \<open>The argument list after its introduction, or nothing when there are no arguments.\<close>

definition surface_args ::
  "surface_renderer \<Rightarrow> frothy_surface_render \<Rightarrow> string \<Rightarrow> nat \<Rightarrow> nat \<Rightarrow> rendering" where
  "surface_args rec r intro first n =
     (if n \<noteq> 0 then r_cat [r_text intro, frothy_ir_render_surface_arg_list rec r first n] else r_bytes [])"

definition frothy_ir_render_surface_call ::
  "surface_renderer \<Rightarrow> frothy_surface_render \<Rightarrow> frothy_ir_builtin \<Rightarrow> node_id \<Rightarrow> nat \<Rightarrow> nat \<Rightarrow> rendering" where
  "frothy_ir_render_surface_call rec r builtin callee first n =
     (if builtin = BUILTIN_CELLS \<and> n = 1
      then r_cat [r_text ''cells('', rec r (sr_link r first), r_text '')'']
      else if builtin = BUILTIN_NOT \<and> n = 1 then r_cat [r_text ''not '', rec r (sr_link r first)]
      else if builtin = BUILTIN_NEGATE \<and> n = 1 then r_cat [r_text ''-'', rec r (sr_link r first)]
      else
        (case (frothy_ir_surface_infix_operator builtin, n = 2) of
           (Some infix_operator, True) \<Rightarrow>
             r_cat [rec r (sr_link r first), r_text '' '', r_bytes infix_operator, r_text '' '',
               rec r (sr_link r (first + 1))]
         | _ \<Rightarrow>
             if builtin = BUILTIN_NONE
             then (case sr_node r callee of
                     NODE_READ_SLOT s \<Rightarrow>
                       r_cat [frothy_sb_append_text s, r_text '':'', surface_args rec r '' '' first n]
                   | NODE_READ_SLOT_FALLBACK s f \<Rightarrow>
                       r_cat [frothy_ir_render_surface_fallback_slot_name s f, r_text '':'',
                         surface_args rec r '' '' first n]
                   | _ \<Rightarrow> r_cat [r_text ''call '', rec r callee, surface_args rec r '' with '' first n])
             else r_cat [r_text ''call '', r_bytes (frothy_ir_builtin_name builtin),
                    surface_args rec r '' with '' first n]))"

subsection \<open>Expressions\<close>

definition parameter_names :: "nat \<Rightarrow> rendering" where
  "parameter_names arity =
     (if arity \<noteq> 0
      then r_cat [r_text '' with '',
             r_cat (map (\<lambda>i. r_cat [r_text (if i \<noteq> 0 then '', '' else ''''), r_text ''arg'', r_bytes (decimal i)])
               [0..<arity])]
      else r_bytes [])"

text \<open>\<^verbatim>\<open>set name to\<close> for a slot that must exist, \<^verbatim>\<open>name is\<close> otherwise.\<close>

definition surface_slot_fallback_target :: "byte list \<Rightarrow> byte list \<Rightarrow> bool \<Rightarrow> rendering" where
  "surface_slot_fallback_target s f existing =
     (if existing
      then r_cat [r_text ''set '',
             if c_string s = c_string f then r_cat [r_text ''@'', frothy_sb_append_text f]
             else frothy_ir_render_surface_fallback_slot_name s f, r_text '' to '']
      else r_cat [frothy_ir_render_surface_fallback_slot_name s f, r_text '' is ''])"

definition surface_if :: "surface_renderer \<Rightarrow> frothy_surface_render \<Rightarrow> node_id \<Rightarrow> frothy_ir_node \<Rightarrow> rendering" where
  "surface_if rec r n nd =
     (case frothy_ir_surface_match_short_circuit (sr_program r) nd of
        Some (is_or, lhs, rhs) \<Rightarrow> r_cat [rec r lhs, r_text (if is_or then '' or '' else '' and ''), rec r rhs]
      | None \<Rightarrow>
          (case frothy_ir_render_surface_cond rec r n of
             Some text \<Rightarrow> text
           | None \<Rightarrow>
               if \<not> has_else_branch nd
               then r_cat [
                      (case sr_node r (condition_node nd) of
                         NODE_CALL builtin callee first argc \<Rightarrow>
                           if builtin = BUILTIN_NOT \<and> argc = 1
                           then r_cat [r_text ''unless '', rec r (sr_link r first)]
                           else r_cat [r_text ''when '', rec r (condition_node nd)]
                       | _ \<Rightarrow> r_cat [r_text ''when '', rec r (condition_node nd)]),
                      r_text '' '', frothy_ir_render_surface_block rec r (then_branch nd)]
               else r_cat [r_text ''if '', rec r (condition_node nd), r_text '' '',
                      frothy_ir_render_surface_block rec r (then_branch nd), r_text '' else '',
                      frothy_ir_render_surface_block rec r (else_branch nd)]))"

definition surface_seq :: "surface_renderer \<Rightarrow> surface_renderer" where
  "surface_seq rec r n =
     (case frothy_ir_render_surface_case rec r n of
        Some text \<Rightarrow> text
      | None \<Rightarrow>
          (case frothy_ir_surface_match_repeat (sr_program r) n of
             Some (count_expr, index_local, body) \<Rightarrow>
               r_cat [r_text ''repeat '', rec r count_expr,
                 (case index_local of
                    Some i \<Rightarrow> r_cat [r_text '' as '', frothy_ir_render_surface_local_name r i]
                  | None \<Rightarrow> r_bytes []),
                 r_text '' '', frothy_ir_render_surface_block rec r body]
           | None \<Rightarrow> frothy_ir_render_surface_block rec r n))"

definition frothy_ir_render_surface_expr :: "surface_renderer \<Rightarrow> surface_renderer" where
  "frothy_ir_render_surface_expr rec r n =
     (case sr_node r n of
        NODE_LIT l \<Rightarrow> frothy_ir_render_surface_literal (sr_program r) l
      | NODE_READ_LOCAL i \<Rightarrow> frothy_ir_render_surface_local_name r i
      | NODE_WRITE_LOCAL i v \<Rightarrow>
          r_cat [r_text ''here '', frothy_ir_render_surface_local_name r i, r_text '' is '', rec r v]
      | NODE_READ_SLOT s \<Rightarrow> frothy_sb_append_text s
      | NODE_READ_SLOT_FALLBACK s f \<Rightarrow> frothy_ir_render_surface_fallback_slot_name s f
      | NODE_WRITE_SLOT s v existing \<Rightarrow>
          if existing then r_cat [r_text ''set '', frothy_sb_append_text s, r_text '' to '', rec r v]
          else r_cat [frothy_sb_append_text s, r_text '' is '', rec r v]
      | NODE_WRITE_SLOT_FALLBACK s f v existing \<Rightarrow>
          r_cat [surface_slot_fallback_target s f existing, rec r v]
      | NODE_SLOT_DESIGNATOR s \<Rightarrow> r_cat [r_text ''@'', frothy_sb_append_text s]
      | NODE_RECORD_DEF s first items \<Rightarrow>
          r_cat [r_text ''record '', frothy_sb_append_text s, r_text '' [ '',
            render_fields (sr_program r) first items
              (\<lambda>i t. r_cat [r_text (if i \<noteq> 0 then '', '' else ''''), frothy_sb_append_text t]),
            r_text '' ]'']
      | NODE_READ_INDEX b i \<Rightarrow> r_cat [rec r b, r_text ''['', rec r i, r_text '']'']
      | NODE_WRITE_INDEX b i v \<Rightarrow>
          r_cat [r_text ''set '', rec r b, r_text ''['', rec r i, r_text ''] to '', rec r v]
      | NODE_READ_FIELD b f \<Rightarrow> r_cat [rec r b, r_text ''->'', frothy_sb_append_text f]
      | NODE_WRITE_FIELD b f v \<Rightarrow>
          r_cat [r_text ''set '', rec r b, r_text ''->'', frothy_sb_append_text f, r_text '' to '', rec r v]
      | NODE_FN arity local_count body \<Rightarrow>
          r_cat [r_text ''fn'', parameter_names arity, r_text '' '',
            frothy_ir_render_surface_block rec (r\<lparr>sr_arity := arity, sr_local_count := local_count\<rparr>) body]
      | NODE_CALL builtin callee first argc \<Rightarrow> frothy_ir_render_surface_call rec r builtin callee first argc
      | NODE_IF c t e has_else \<Rightarrow> surface_if rec r n (NODE_IF c t e has_else)
      | NODE_WHILE c b \<Rightarrow>
          r_cat [r_text ''while '', rec r c, r_text '' '', frothy_ir_render_surface_block rec r b]
      | NODE_SEQ first items \<Rightarrow> surface_seq rec r n)"

primrec surface_fuel :: "nat \<Rightarrow> surface_renderer" where
  "surface_fuel 0 = (\<lambda>r n. None)"
| "surface_fuel (Suc k) = frothy_ir_render_surface_expr (surface_fuel k)"

definition surface_expr :: surface_renderer where
  "surface_expr r n = surface_fuel (Suc (length (ir_nodes (sr_program r)))) r n"

text \<open>The definition of a word (\<^verbatim>\<open>to name\<close>) or, without a name, a function.\<close>

definition frothy_ir_render_surface_code ::
  "frothy_ir_program \<Rightarrow> node_id \<Rightarrow> nat \<Rightarrow> nat \<Rightarrow> byte list option \<Rightarrow> rendering" where
  "frothy_ir_render_surface_code g body arity local_count name =
     (if length (ir_nodes g) \<le> body then r_fail FROTH_ERROR_BOUNDS
      else r_cat [
        (case name of
           Some t \<Rightarrow> if c_string t \<noteq> [] then r_cat [r_text ''to '', frothy_sb_append_text t] else r_text ''fn''
         | None \<Rightarrow> r_text ''fn''),
        parameter_names arity, r_text '' '',
        frothy_ir_render_surface_block surface_expr
          \<lparr>sr_program = g, sr_arity = arity, sr_local_count = local_count\<rparr> body])"

end
