(* ===== verification/Frothy_Render_Props.thy ===== *)
theory Frothy_Render_Props
  imports Frothy_Render_Surface Frothy_Program_Wf
begin

section \<open>Rendering returns\<close>

text \<open>
  Children come before their parents in a well-formed program, so the fuel of the renderers suffices
  and both forms of every function are texts.
\<close>

definition r_ok :: "rendering \<Rightarrow> bool" where
  "r_ok r \<longleftrightarrow> (\<exists>t. r = Some (Inr t))"

lemma r_ok_simps [simp]:
  "r_ok (r_bytes t)" "r_ok (r_text s)" "r_ok (frothy_sb_append_text t)" "r_ok (frothy_ir_render_quoted t)"
  "r_ok (r_cat []) = True" "r_ok (r_cat (r # rs)) \<longleftrightarrow> r_ok r \<and> r_ok (r_cat rs)"
  by (auto simp: r_ok_def r_cat.simps r_bytes_def r_text_def frothy_sb_append_text_def frothy_ir_render_quoted_def
      split: option.splits sum.splits)

lemma r_ok_cat: "(\<And>r. r \<in> set rs \<Longrightarrow> r_ok r) \<Longrightarrow> r_ok (r_cat rs)"
  by (induction rs) auto

lemma r_ok_map: "(\<And>i. i < n \<Longrightarrow> r_ok (f i)) \<Longrightarrow> r_ok (r_cat (map f [0..<n]))"
  by (rule r_ok_cat) auto

lemma literal_form_ok [simp]: "r_ok (literal_form l)"
  by (cases l) auto

lemma render_literal_ok [simp]: "r_ok (frothy_ir_render_literal g l)"
  by (simp add: frothy_ir_render_literal_def)

lemma link_range_nth: "i < n \<Longrightarrow> first + n \<le> length (ir_links g) \<Longrightarrow> ir_links g ! (first + i) \<in> set (link_range g first n)"
  by (auto simp: link_range_def in_set_conv_nth intro!: exI [of _ i])

lemma render_fields_ok:
  assumes "record_fields_wf g first n" and "\<And>i t. r_ok (form i t)"
  shows "r_ok (render_fields g first n form)"
  unfolding render_fields_def
proof (rule r_ok_map)
  fix i assume i: "i < n"
  let ?l = "ir_links g ! (first + i)"
  have l: "?l \<in> set (link_range g first n)"
    using assms(1) i by (intro link_range_nth) (auto simp: record_fields_wf_def)
  have lit: "?l < length (ir_literals g)" and none: "None \<notin> set (field_texts g first n)"
    using assms(1) l by (simp_all add: record_fields_wf_def)
  have "literal_text (ir_literals g ! ?l) \<in> set (field_texts g first n)"
    using l unfolding field_texts_def set_map by (rule imageI)
  then have "literal_text (ir_literals g ! ?l) \<noteq> None" using none by metis
  then obtain t where "frothy_ir_text_literal_value g ?l = Some t"
    using lit by (cases "ir_literals g ! ?l") (auto simp: frothy_ir_text_literal_value_def)
  then show "r_ok (case frothy_ir_text_literal_value g ?l of
      None \<Rightarrow> r_fail FROTH_ERROR_SIGNATURE | Some t \<Rightarrow> form i t)"
    using assms(2) by simp
qed

lemma render_node_list_ok:
  assumes "first + n \<le> length (ir_links g)" and "\<forall>c \<in> set (link_range g first n). r_ok (rec c)"
  shows "r_ok (frothy_ir_render_node_list rec g first n)"
  unfolding frothy_ir_render_node_list_def
  using assms link_range_nth [of _ n first g] by (intro r_ok_map) auto

lemma render_node_ok:
  assumes "node_wf g k nd" and "\<And>c. c < k \<Longrightarrow> r_ok (rec c)"
  shows "r_ok (frothy_ir_render_node rec g nd)"
  using assms by (cases nd) (auto intro!: render_fields_ok render_node_list_ok split: if_splits)

lemma render_fuel_ok:
  assumes "nodes_wf g"
  shows "n < length (ir_nodes g) \<Longrightarrow> n < f \<Longrightarrow> r_ok (render_fuel f g n)"
proof (induction f arbitrary: n)
  case (Suc f)
  show ?case
    using Suc.prems nodes_wfD [OF assms] by (auto intro!: render_node_ok [of g n] Suc.IH)
qed simp

lemma render_tree_ok: "nodes_wf g \<Longrightarrow> n < length (ir_nodes g) \<Longrightarrow> r_ok (render_tree g n)"
  unfolding render_tree_def by (rule render_fuel_ok) auto

subsection \<open>The surface form\<close>

definition surface_ok :: "frothy_ir_program \<Rightarrow> nat \<Rightarrow> surface_renderer \<Rightarrow> bool" where
  "surface_ok g k rec \<longleftrightarrow> (\<forall>r n. sr_program r = g \<and> n < k \<longrightarrow> r_ok (rec r n))"

lemma surface_okD: "surface_ok g k rec \<Longrightarrow> sr_program r = g \<Longrightarrow> n < k \<Longrightarrow> r_ok (rec r n)"
  by (simp add: surface_ok_def)

lemma local_name_ok [simp]: "r_ok (frothy_ir_render_surface_local_name r i)"
  by (simp add: frothy_ir_render_surface_local_name_def)

lemma fallback_name_ok [simp]: "r_ok (frothy_ir_render_surface_fallback_slot_name s f)"
  by (simp add: frothy_ir_render_surface_fallback_slot_name_def)

lemma parameter_names_ok [simp]: "r_ok (parameter_names n)"
  by (auto simp: parameter_names_def intro!: r_ok_map)

lemma fallback_target_ok [simp]: "r_ok (surface_slot_fallback_target s f e)"
  by (simp add: surface_slot_fallback_target_def)

text \<open>What a well-formed node says of its parts, in the form the recognisers need.\<close>

lemma wf_link:
  assumes "nodes_wf g" and "k < length (ir_nodes g)" and "i < n"
  shows "ir_nodes g ! k = NODE_SEQ first n \<Longrightarrow> ir_links g ! (first + i) < k"
    and "ir_nodes g ! k = NODE_CALL b callee first n \<Longrightarrow> ir_links g ! (first + i) < k"
  using nodes_wfD [OF assms(1,2)] assms(3) link_range_nth [of i n first g] by auto

lemma block_ok:
  assumes "nodes_wf g" and "surface_ok g k rec" and "sr_program r = g" and "n < k" and "k \<le> length (ir_nodes g)"
  shows "r_ok (frothy_ir_render_surface_block rec r n)"
proof -
  have "ir_links g ! (first + i) < k" if "ir_nodes g ! n = NODE_SEQ first m" "i < m" for first m i
    using wf_link(1) [OF assms(1) _ that(2,1)] assms(4,5) by simp
  then show ?thesis
    using assms(3,4) surface_okD [OF assms(2,3)]
    by (auto simp: frothy_ir_render_surface_block_def intro!: r_ok_map split: frothy_ir_node.split)
qed

lemma wf_if: "nodes_wf g \<Longrightarrow> k < length (ir_nodes g) \<Longrightarrow> ir_nodes g ! k = NODE_IF c t e h \<Longrightarrow>
    c < k \<and> t < k \<and> (h \<longrightarrow> e < k)"
  using nodes_wfD [of g k] by simp

lemma cond_items_ok:
  assumes "nodes_wf g" and "surface_ok g k rec" and "sr_program r = g" and "k \<le> length (ir_nodes g)"
  shows "is_if_else g n \<Longrightarrow> n < f \<Longrightarrow> n \<le> k \<Longrightarrow> r_ok (cond_items f rec r b n)"
proof (induction f arbitrary: n b)
  case (Suc f)
  then obtain c t e where nd: "ir_nodes g ! n = NODE_IF c t e True" and n: "n < length (ir_nodes g)"
    by (auto simp: is_if_else_def split: frothy_ir_node.splits)
  have lt: "c < n" "t < n" "e < n" using wf_if [OF assms(1) n nd] by auto
  note parts = surface_okD [OF assms(2,3)] block_ok [OF assms(1,2,3) _ assms(4)]
  show ?case using nd lt Suc.prems Suc.IH [of e True] parts assms(3) by (auto simp: Let_def)
qed simp

lemma render_cond_ok:
  assumes "nodes_wf g" and "surface_ok g k rec" and "sr_program r = g" and "k < length (ir_nodes g)"
    and "frothy_ir_render_surface_cond rec r k = Some text"
  shows "r_ok text"
  using assms cond_items_ok [OF assms(1,2,3), of k "Suc (length (ir_nodes g))" False]
  by (auto simp: frothy_ir_render_surface_cond_def split: if_splits)

lemma case_clause_parts:
  assumes "nodes_wf g" and "frothy_ir_surface_match_case_clause g n loc = Some (l, b, e)"
  shows "l < n \<and> b < n \<and> e < n \<and> n < length (ir_nodes g)"
proof -
  obtain c callee first where n: "n < length (ir_nodes g)" and nd: "ir_nodes g ! n = NODE_IF c b e True"
    and cd: "ir_nodes g ! c = NODE_CALL BUILTIN_EQ callee first 2" and l: "l = ir_links g ! (first + 1)"
    using assms(2) unfolding frothy_ir_surface_match_case_clause_def
    by (auto split: if_splits frothy_ir_node.splits)
  have lt: "c < n" "b < n" "e < n" using wf_if [OF assms(1) n nd] by auto
  have "l < c" using wf_link(2) [OF assms(1) _ _ cd, of 1] lt n l by simp
  then show ?thesis using lt n by simp
qed

lemma case_items_ok:
  assumes "nodes_wf g" and "surface_ok g k rec" and "sr_program r = g" and "k \<le> length (ir_nodes g)"
  shows "lit < k \<Longrightarrow> body < k \<Longrightarrow> rest < k \<Longrightarrow> rest < f \<Longrightarrow> r_ok (case_items f rec r loc b (lit, body, rest))"
proof (induction f arbitrary: lit body rest b)
  case (Suc f)
  note parts = surface_okD [OF assms(2,3)] block_ok [OF assms(1,2,3) _ assms(4)]
  show ?case
  proof (cases "frothy_ir_surface_match_case_clause g rest loc")
    case None
    then show ?thesis using Suc.prems parts assms(3) by auto
  next
    case (Some clause)
    obtain l b' e where cl: "clause = (l, b', e)" by (cases clause)
    have "l < rest \<and> b' < rest \<and> e < rest" using case_clause_parts [OF assms(1)] Some cl by auto
    then show ?thesis using Suc.prems parts assms(3) Some cl Suc.IH [of l b' e True] by auto
  qed
qed simp

lemma render_case_ok:
  assumes "nodes_wf g" and "surface_ok g k rec" and "sr_program r = g" and "k < length (ir_nodes g)"
    and "frothy_ir_render_surface_case rec r k = Some text"
  shows "r_ok text"
proof -
  obtain first loc v l b e where nd: "ir_nodes g ! k = NODE_SEQ first 2"
    and w: "ir_nodes g ! (ir_links g ! first) = NODE_WRITE_LOCAL loc v"
    and cl: "frothy_ir_surface_match_case_clause g (ir_links g ! (first + 1)) loc = Some (l, b, e)"
    and tx: "text = r_cat [r_text ''case '', rec r v, r_text '' ['',
      case_items (Suc (length (ir_nodes g))) rec r loc False (l, b, e), r_text '' '', r_text '']'']"
    using assms(3-5) unfolding frothy_ir_render_surface_case_def
    by (auto split: if_splits frothy_ir_node.splits option.splits)
  have i0: "ir_links g ! first < k" and i1: "ir_links g ! (first + 1) < k"
    using wf_link(1) [OF assms(1,4) _ nd, of 0] wf_link(1) [OF assms(1,4) _ nd, of 1] by auto
  have v: "v < k" using nodes_wfD [OF assms(1), of "ir_links g ! first"] i0 w assms(4) by auto
  have c: "l < k \<and> b < k \<and> e < k" using case_clause_parts [OF assms(1) cl] i1 by auto
  show ?thesis
    using c v assms surface_okD [OF assms(2,3)]
      case_items_ok [OF assms(1,2,3), of l b e "Suc (length (ir_nodes g))" loc False]
    by (auto simp: tx simp del: case_items.simps)
qed

subsection \<open>Expressions\<close>

lemma bool_condition_parts:
  assumes "nodes_wf g" and "frothy_ir_surface_match_bool_condition g n = Some c"
  shows "c < n \<and> n < length (ir_nodes g)"
  using assms(2) wf_if [OF assms(1), of n]
  by (auto simp: frothy_ir_surface_match_bool_condition_def split: if_splits frothy_ir_node.splits)

lemma short_circuit_parts:
  assumes "nodes_wf g" and "k < length (ir_nodes g)"
    and "frothy_ir_surface_match_short_circuit g (ir_nodes g ! k) = Some (b, lhs, rhs)"
  shows "lhs < k \<and> rhs < k"
proof -
  obtain c t e where nd: "ir_nodes g ! k = NODE_IF c t e True" and lhs: "lhs = c"
    and rhs: "frothy_ir_surface_match_bool_condition g e = Some rhs \<or>
      frothy_ir_surface_match_bool_condition g t = Some rhs"
    using assms(3) unfolding frothy_ir_surface_match_short_circuit_def
    by (auto split: if_splits frothy_ir_node.splits option.splits bool.splits)
  then show ?thesis
    using wf_if [OF assms(1,2) nd] bool_condition_parts [OF assms(1), of e rhs]
      bool_condition_parts [OF assms(1), of t rhs] by auto
qed

lemma repeat_parts:
  assumes "nodes_wf g" and "frothy_ir_surface_match_repeat g k = Some (count, i, body)"
  shows "count < k \<and> body < k"
proof -
  obtain first limit counter start c b where k: "k < length (ir_nodes g)"
    and nd: "ir_nodes g ! k = NODE_SEQ first 3"
    and w: "ir_nodes g ! (ir_links g ! first) = NODE_WRITE_LOCAL limit count"
    and wh: "ir_nodes g ! (ir_links g ! (first + 2)) = NODE_WHILE c b"
    and bd: "match_repeat_body g b counter = Some (i, body)"
    using assms(2) unfolding frothy_ir_surface_match_repeat_def
    by (auto split: if_splits frothy_ir_node.splits)
  obtain first' m where sq: "ir_nodes g ! b = NODE_SEQ first' m"
    and m: "body = ir_links g ! (first' + 1) \<and> m = 3 \<or> body = ir_links g ! first' \<and> 2 \<le> m"
    using bd unfolding match_repeat_body_def
    by (auto split: if_splits frothy_ir_node.splits option.splits)
  have lt: "ir_links g ! (first + i) < k" if "i < 3" for i
    using wf_link(1) [OF assms(1) k that nd] .
  have "count < k" using nodes_wfD [OF assms(1), of "ir_links g ! first"] lt [of 0] w k by auto
  moreover have b: "b < k" using nodes_wfD [OF assms(1), of "ir_links g ! (first + 2)"] lt [of 2] wh k by auto
  moreover have "body < b"
    using m wf_link(1) [OF assms(1) _ _ sq, of 0] wf_link(1) [OF assms(1) _ _ sq, of 1] b k by auto
  ultimately show ?thesis by simp
qed

lemma surface_args_ok:
  assumes "nodes_wf g" and "surface_ok g k rec" and "sr_program r = g"
    and "\<And>i. i < n \<Longrightarrow> ir_links g ! (first + i) < k"
  shows "r_ok (surface_args rec r intro first n)"
  using assms(3,4) surface_okD [OF assms(2,3)]
  by (auto simp: surface_args_def frothy_ir_render_surface_arg_list_def intro!: r_ok_map)

lemma surface_call_ok:
  assumes "nodes_wf g" and "surface_ok g k rec" and "sr_program r = g" and "k < length (ir_nodes g)"
    and "ir_nodes g ! k = NODE_CALL b callee first n"
  shows "r_ok (frothy_ir_render_surface_call rec r b callee first n)"
proof -
  have lt: "ir_links g ! (first + i) < k" if "i < n" for i by (rule wf_link(2) [OF assms(1,4) that assms(5)])
  have c: "b = BUILTIN_NONE \<Longrightarrow> callee < k" using nodes_wfD [OF assms(1,4)] assms(5) by simp
  have args: "r_ok (surface_args rec r intro first n)" for intro
    by (rule surface_args_ok [OF assms(1-3) lt])
  have arg: "r_ok (rec r (ir_links g ! (first + i)))" if "i < n" for i
    using surface_okD [OF assms(2,3) lt [OF that]] .
  show ?thesis
    using args c arg [of 0] arg [of 1] assms(3) surface_okD [OF assms(2,3)]
    by (auto simp: frothy_ir_render_surface_call_def split: option.split bool.split frothy_ir_node.split)
qed

lemma surface_if_ok:
  assumes "nodes_wf g" and "surface_ok g k rec" and "sr_program r = g" and "k < length (ir_nodes g)"
    and nd: "ir_nodes g ! k = NODE_IF c t e h"
  shows "r_ok (surface_if rec r k (NODE_IF c t e h))"
proof -
  note lt = wf_if [OF assms(1,4) nd]
  note parts = surface_okD [OF assms(2,3)] block_ok [OF assms(1,2,3)]
  have not_arg: "r_ok (rec r (ir_links g ! first))" if "ir_nodes g ! c = NODE_CALL b callee first (Suc 0)" for b callee first
    using wf_link(2) [OF assms(1) _ _ that, of 0] lt assms(4) parts(1) by auto
  show ?thesis
    using lt parts render_cond_ok [OF assms(1-4)] assms(3,4) nd not_arg
      short_circuit_parts [OF assms(1,4)]
    by (auto simp: surface_if_def split: option.split frothy_ir_node.split)
qed

lemma surface_seq_ok:
  assumes "nodes_wf g" and "surface_ok g k rec" and "sr_program r = g" and "k < length (ir_nodes g)"
    and nd: "ir_nodes g ! k = NODE_SEQ first n"
  shows "r_ok (surface_seq rec r k)"
proof -
  have "r_ok (frothy_ir_render_surface_block rec r k)"
  proof -
    have "ir_links g ! (first + i) < k" if "i < n" for i by (rule wf_link(1) [OF assms(1,4) that nd])
    then show ?thesis
      using nd assms(3) surface_okD [OF assms(2,3)]
      by (auto simp: frothy_ir_render_surface_block_def intro!: r_ok_map)
  qed
  then show ?thesis
    using surface_okD [OF assms(2,3)] block_ok [OF assms(1,2,3)] render_case_ok [OF assms(1-4)]
      repeat_parts [OF assms(1)] assms(3,4)
    by (auto simp: surface_seq_def split: option.split)
qed

lemma surface_expr_ok:
  assumes "nodes_wf g" and "surface_ok g k rec" and "sr_program r = g" and "k < length (ir_nodes g)"
  shows "r_ok (frothy_ir_render_surface_expr rec r k)"
proof -
  note wf = nodes_wfD [OF assms(1,4)]
  have blk: "r_ok (frothy_ir_render_surface_block rec s n)" if "sr_program s = g" "n < k" for s n
    using block_ok [OF assms(1,2) that] assms(4) by simp
  note rc = surface_okD [OF assms(2,3)]
  show ?thesis
    using wf rc blk assms(3) surface_call_ok [OF assms] surface_if_ok [OF assms] surface_seq_ok [OF assms]
    by (auto simp: frothy_ir_render_surface_expr_def frothy_ir_render_surface_literal_def
        intro!: render_fields_ok split: frothy_ir_node.split)
qed

lemma surface_fuel_ok:
  assumes "nodes_wf g"
  shows "f \<le> length (ir_nodes g) \<Longrightarrow> surface_ok g f (surface_fuel (f + d))"
proof (induction f arbitrary: d)
  case (Suc f)
  have "r_ok (surface_fuel (Suc f + d) r n)" if r: "sr_program r = g" and n: "n < Suc f" for r n
  proof -
    have "surface_ok g n (surface_fuel (f + d))"
      using Suc.IH [of d] Suc.prems n by (auto simp: surface_ok_def)
    then show ?thesis using surface_expr_ok [OF assms _ r] Suc.prems n by simp
  qed
  then show ?case by (simp add: surface_ok_def)
qed (simp add: surface_ok_def)

lemma surface_code_ok:
  assumes "nodes_wf g" and "body < length (ir_nodes g)"
  shows "r_ok (frothy_ir_render_surface_code g body arity local_count name)"
proof -
  have "surface_ok g (length (ir_nodes g)) surface_expr"
    using surface_fuel_ok [OF assms(1) order_refl, of 1] by (simp add: surface_ok_def surface_expr_def)
  then show ?thesis
    using assms block_ok [OF assms(1)]
    by (auto simp: frothy_ir_render_surface_code_def split: option.split)
qed

end
