(* ===== verification/Frothy_Render_Core.thy ===== *)
theory Frothy_Render_Core
  imports Frothy_Render_Props
begin

section \<open>The core form is unambiguous\<close>

text \<open>
  The core form is the text of an S-expression, texts of S-expressions can be told apart, and the
  S-expression determines the tree of the program: equal renderings are of equal trees.
\<close>

datatype sexp = Atom "byte list" | Quoted "byte list" | Paren "sexp list"

definition tails :: "byte list list \<Rightarrow> byte list" where
  "tails ts = concat (map (\<lambda>t. 32 # t) ts)"

lemma tails_simps [simp]: "tails [] = []" "tails (t # ts) = 32 # t @ tails ts"
  by (simp_all add: tails_def)

fun sexp_text :: "sexp \<Rightarrow> byte list" where
  "sexp_text (Atom a) = a"
| "sexp_text (Quoted t) = quoted t"
| "sexp_text (Paren ss) = 40 # tl (tails (map sexp_text ss)) @ [41]"

definition atom_byte :: "byte \<Rightarrow> bool" where
  "atom_byte b \<longleftrightarrow> b \<noteq> 32 \<and> b \<noteq> 34 \<and> b \<noteq> 40 \<and> b \<noteq> 41"

fun sexp_ok :: "sexp \<Rightarrow> bool" where
  "sexp_ok (Atom a) \<longleftrightarrow> a \<noteq> [] \<and> list_all atom_byte a"
| "sexp_ok (Quoted t) \<longleftrightarrow> 0 \<notin> set t"
| "sexp_ok (Paren ss) \<longleftrightarrow> ss \<noteq> [] \<and> (\<forall>s \<in> set ss. sexp_ok s)"

definition delimited :: "byte list \<Rightarrow> bool" where
  "delimited x \<longleftrightarrow> x = [] \<or> hd x = 32 \<or> hd x = 41"

lemma c_string_nul_out [simp]: "0 \<notin> set (c_string t)"
  by (auto simp: c_string_def dest: set_takeWhileD)

lemma c_string_c_string [simp]: "c_string (c_string t) = c_string t"
  by (simp add: c_string_nul_free)

lemma quoted_c_string [simp]: "quoted (c_string t) = quoted t"
  by (simp add: quoted_def)

text \<open>An escaped byte is marked by a backslash; the byte after it says which one it is.\<close>

definition unquoted_byte :: "byte list \<Rightarrow> byte \<times> byte list" where
  "unquoted_byte x =
     (if hd x = 92
      then (let e = hd (tl x)
            in (if e = 110 then 10 else if e = 114 then 13 else if e = 116 then 9 else e, tl (tl x)))
      else (hd x, tl x))"

lemma unquoted_quoted_byte: "unquoted_byte (quoted_byte a @ x) = (a, x)"
  by (simp add: quoted_byte_def unquoted_byte_def)

lemma quoted_byte_inj:
  "quoted_byte a @ x = quoted_byte b @ y \<Longrightarrow> a = b \<and> x = y"
  by (metis unquoted_quoted_byte Pair_inject)

lemma quoted_byte_not_quote: "quoted_byte a @ x \<noteq> 34 # y"
  by (simp add: quoted_byte_def)

lemma quoted_bytes_inj:
  "concat (map quoted_byte s) @ 34 # x = concat (map quoted_byte t) @ 34 # y \<Longrightarrow> s = t \<and> x = y"
proof (induction s arbitrary: t)
  case Nil
  then show ?case using quoted_byte_not_quote [of _ _ x] by (cases t) (auto dest: sym)
next
  case (Cons a s)
  show ?case
  proof (cases t)
    case Nil
    then show ?thesis using Cons.prems quoted_byte_not_quote [of a _ y] by simp
  next
    case (Cons b t')
    note t = this
    have "a = b \<and> concat (map quoted_byte s) @ 34 # x = concat (map quoted_byte t') @ 34 # y"
      using Cons.prems t by (intro quoted_byte_inj) simp
    then show ?thesis using Cons.IH [of t'] t by simp
  qed
qed

lemma quoted_inj:
  assumes "quoted s @ x = quoted t @ y" and "0 \<notin> set s" and "0 \<notin> set t"
  shows "s = t \<and> x = y"
  using assms quoted_bytes_inj [of s x t y] by (simp add: quoted_def c_string_nul_free)

lemma atom_inj:
  assumes "a @ x = b @ y" and "list_all atom_byte a" and "list_all atom_byte b"
    and "delimited x" and "delimited y"
  shows "a = b \<and> x = y"
proof -
  have len: "takeWhile atom_byte (c @ z) = c" if "list_all atom_byte c" "delimited z" for c z
    using that by (cases z) (auto simp: list_all_iff delimited_def atom_byte_def takeWhile_append)
  have "a = b" using len [OF assms(2,4)] len [OF assms(3,5)] assms(1) by simp
  then show ?thesis using assms(1) by simp
qed

lemma sexp_text_start:
  assumes "sexp_ok s"
  obtains b z where "sexp_text s = b # z" "b \<noteq> 32" "b \<noteq> 41"
    "b = 40 \<longleftrightarrow> (\<exists>ss. s = Paren ss)" "b = 34 \<longleftrightarrow> (\<exists>t. s = Quoted t)"
  using assms by (cases s) (auto simp: quoted_def atom_byte_def neq_Nil_conv that)

lemma sexp_inj:
  "sexp_ok s \<Longrightarrow> sexp_ok t \<Longrightarrow> sexp_text s @ x = sexp_text t @ y \<Longrightarrow> delimited x \<Longrightarrow> delimited y \<Longrightarrow>
     s = t \<and> x = y"
proof (induction s arbitrary: t x y)
  case (Atom a)
  obtain b z where "sexp_text t = b # z" "b = 40 \<longleftrightarrow> (\<exists>ss. t = Paren ss)" "b = 34 \<longleftrightarrow> (\<exists>u. t = Quoted u)"
    using sexp_text_start [OF Atom.prems(2)] by metis
  moreover obtain c w where "a = c # w" "atom_byte c" using Atom.prems(1) by (cases a) auto
  ultimately obtain d where "t = Atom d" using Atom.prems(3) by (cases t) (auto simp: atom_byte_def)
  then show ?case using Atom.prems atom_inj [of a x d y] by auto
next
  case (Quoted q)
  obtain b z where "sexp_text t = b # z" "b = 34 \<longleftrightarrow> (\<exists>u. t = Quoted u)"
    using sexp_text_start [OF Quoted.prems(2)] by metis
  then obtain u where "t = Quoted u" using Quoted.prems(3) by (auto simp: quoted_def)
  then show ?case using Quoted.prems quoted_inj [of q x u y] by auto
next
  case (Paren ss)
  obtain b z where "sexp_text t = b # z" "b = 40 \<longleftrightarrow> (\<exists>ss. t = Paren ss)"
    using sexp_text_start [OF Paren.prems(2)] by metis
  then obtain ts where t: "t = Paren ts" using Paren.prems(3) by auto
  have list: "us = vs \<and> x' = y'"
    if "set us \<subseteq> set ss" "\<forall>v \<in> set vs. sexp_ok v"
      "tails (map sexp_text us) @ 41 # x' = tails (map sexp_text vs) @ 41 # y'" for us vs x' y'
    using that
  proof (induction us arbitrary: vs)
    case Nil
    then show ?case by (cases vs) auto
  next
    case (Cons u us)
    then obtain v vs' where v: "vs = v # vs'" by (cases vs) auto
    have "delimited (tails (map sexp_text ws) @ 41 # w)" for ws w
      by (cases ws) (auto simp: delimited_def)
    then have "u = v \<and> tails (map sexp_text us) @ 41 # x' = tails (map sexp_text vs') @ 41 # y'"
      using Cons.prems Paren.prems(1) v by (intro Paren.IH) auto
    then show ?case using Cons.IH [of vs'] Cons.prems v by auto
  qed
  have "tails (map sexp_text ss) @ 41 # x = tails (map sexp_text ts) @ 41 # y"
    using Paren.prems(1-3) t by (cases ss; cases ts) auto
  then show ?case using list [of ss ts x y] Paren.prems(2) t by auto
qed

subsection \<open>Programs as S-expressions\<close>

fun literal_sexp :: "frothy_ir_literal \<Rightarrow> sexp" where
  "literal_sexp (LITERAL_INT i) = Atom (decimal_cell i)"
| "literal_sexp (LITERAL_BOOL b) = Atom (ascii (if b then ''true'' else ''false''))"
| "literal_sexp LITERAL_NIL = Atom (ascii ''nil'')"
| "literal_sexp (LITERAL_TEXT t) = Quoted (c_string t)"

definition name_atom :: "string \<Rightarrow> sexp" where "name_atom s = Atom (ascii s)"

fun node_sexp :: "(node_id \<Rightarrow> sexp) \<Rightarrow> frothy_ir_program \<Rightarrow> frothy_ir_node \<Rightarrow> sexp" where
  "node_sexp rec g (NODE_LIT l) = Paren [name_atom ''lit'', literal_sexp (ir_literals g ! l)]"
| "node_sexp rec g (NODE_READ_LOCAL i) = Paren [name_atom ''read-local'', Atom (decimal i)]"
| "node_sexp rec g (NODE_WRITE_LOCAL i v) = Paren [name_atom ''write-local'', Atom (decimal i), rec v]"
| "node_sexp rec g (NODE_READ_SLOT s) = Paren [name_atom ''read-slot'', Quoted (c_string s)]"
| "node_sexp rec g (NODE_READ_SLOT_FALLBACK s f) =
     Paren [name_atom ''read-slot-fallback'', Quoted (c_string s), Quoted (c_string f)]"
| "node_sexp rec g (NODE_WRITE_SLOT s v existing) =
     Paren [name_atom (if existing then ''write-slot!'' else ''write-slot''), Quoted (c_string s), rec v]"
| "node_sexp rec g (NODE_WRITE_SLOT_FALLBACK s f v existing) =
     Paren [name_atom (if existing then ''write-slot-fallback!'' else ''write-slot-fallback''),
       Quoted (c_string s), Quoted (c_string f), rec v]"
| "node_sexp rec g (NODE_SLOT_DESIGNATOR s) = Paren [name_atom ''slot-designator'', Quoted (c_string s)]"
| "node_sexp rec g (NODE_RECORD_DEF s first n) =
     Paren (name_atom ''record-def'' # Quoted (c_string s) # map Quoted (map the (field_texts g first n)))"
| "node_sexp rec g (NODE_READ_INDEX b i) = Paren [name_atom ''read-index'', rec b, rec i]"
| "node_sexp rec g (NODE_WRITE_INDEX b i v) = Paren [name_atom ''write-index'', rec b, rec i, rec v]"
| "node_sexp rec g (NODE_READ_FIELD b f) = Paren [name_atom ''read-field'', rec b, Quoted (c_string f)]"
| "node_sexp rec g (NODE_WRITE_FIELD b f v) = Paren [name_atom ''write-field'', rec b, Quoted (c_string f), rec v]"
| "node_sexp rec g (NODE_FN a l b) =
     Paren [name_atom ''fn'', Atom (ascii ''arity='' @ decimal a), Atom (ascii ''locals='' @ decimal l), rec b]"
| "node_sexp rec g (NODE_CALL bt callee first n) =
     Paren (name_atom ''call'' #
       (if bt \<noteq> BUILTIN_NONE then Paren [name_atom ''builtin'', Quoted (frothy_ir_builtin_name bt)] else rec callee) #
       map rec (link_range g first n))"
| "node_sexp rec g (NODE_IF c t e has_else) =
     Paren ([name_atom ''if'', rec c, rec t] @ (if has_else then [rec e] else []))"
| "node_sexp rec g (NODE_WHILE c b) = Paren [name_atom ''while'', rec c, rec b]"
| "node_sexp rec g (NODE_SEQ first n) = Paren (name_atom ''seq'' # map rec (link_range g first n))"

primrec sexp_fuel :: "nat \<Rightarrow> frothy_ir_program \<Rightarrow> node_id \<Rightarrow> sexp" where
  "sexp_fuel 0 g = (\<lambda>n. Paren [])"
| "sexp_fuel (Suc k) g = (\<lambda>n. node_sexp (sexp_fuel k g) g (ir_nodes g ! n))"

subsection \<open>The core form is the text of the S-expression\<close>

definition r_pre :: "byte list \<Rightarrow> rendering \<Rightarrow> rendering" where
  "r_pre t r = (case r of Some (Inr u) \<Rightarrow> Some (Inr (t @ u)) | _ \<Rightarrow> r)"

lemma r_cat_simps:
  "r_cat [] = r_bytes []" "r_cat (r_bytes t # rs) = r_pre t (r_cat rs)" "r_pre t (r_bytes u) = r_bytes (t @ u)"
  by (auto simp: r_cat.simps r_bytes_def r_pre_def split: option.split sum.split)

lemma r_cat_bytes: "r_cat (map (\<lambda>x. r_bytes (f x)) xs) = r_bytes (concat (map f xs))"
  by (induction xs) (simp_all add: r_cat_simps)

lemma link_range_map:
  assumes "first + n \<le> length (ir_links g)"
  shows "link_range g first n = map (\<lambda>i. ir_links g ! (first + i)) [0..<n]"
  using assms by (intro nth_equalityI) (auto simp: link_range_def)

lemmas rendered = r_text_def frothy_ir_render_quoted_def r_cat_simps ascii_def

lemma literal_rendered: "literal_form l = r_bytes (sexp_text (literal_sexp l))"
  by (cases l) (simp_all add: rendered)

lemma node_list_rendered:
  assumes "first + n \<le> length (ir_links g)" and "\<forall>c \<in> set (link_range g first n). rec c = r_bytes (sexp_text (srec c))"
  shows "frothy_ir_render_node_list rec g first n =
    r_bytes (tails (map sexp_text (map srec (link_range g first n))))"
proof -
  have "map (\<lambda>i. r_cat [r_text '' '', rec (ir_links g ! (first + i))]) [0..<n] =
      map (\<lambda>c. r_bytes (32 # sexp_text (srec c))) (link_range g first n)"
    using assms by (auto simp: link_range_map rendered)
  then show ?thesis by (simp add: frothy_ir_render_node_list_def r_cat_bytes tails_def o_def)
qed

lemma fields_rendered:
  assumes "record_fields_wf g first n"
  shows "render_fields g first n (\<lambda>i t. r_bytes (32 # quoted t)) =
    r_bytes (tails (map sexp_text (map Quoted (map the (field_texts g first n)))))"
proof -
  have le: "first + n \<le> length (ir_links g)" using assms by (simp add: record_fields_wf_def)
  have "(case frothy_ir_text_literal_value g l of None \<Rightarrow> r_fail FROTH_ERROR_SIGNATURE
      | Some t \<Rightarrow> r_bytes (32 # quoted t)) =
      r_bytes (32 # quoted (the (literal_text (ir_literals g ! l))))"
    if l: "l \<in> set (link_range g first n)" for l
  proof -
    have lit: "l < length (ir_literals g)" and none: "None \<notin> set (field_texts g first n)"
      using assms l by (simp_all add: record_fields_wf_def)
    have "literal_text (ir_literals g ! l) \<in> set (field_texts g first n)"
      using l unfolding field_texts_def set_map by (rule imageI)
    then have "literal_text (ir_literals g ! l) \<noteq> None" using none by metis
    then show ?thesis using lit by (cases "ir_literals g ! l") (auto simp: frothy_ir_text_literal_value_def rendered)
  qed
  then have "render_fields g first n (\<lambda>i t. r_bytes (32 # quoted t)) =
      r_cat (map (\<lambda>l. r_bytes (32 # quoted (the (literal_text (ir_literals g ! l))))) (link_range g first n))"
    unfolding render_fields_def by (intro arg_cong [of _ _ r_cat]) (auto simp: link_range_map [OF le])
  then show ?thesis by (simp add: r_cat_bytes tails_def field_texts_def o_def)
qed

lemma node_rendered:
  assumes "node_wf g k nd" and "\<And>c. c < k \<Longrightarrow> rec c = r_bytes (sexp_text (srec c))"
  shows "frothy_ir_render_node rec g nd = r_bytes (sexp_text (node_sexp srec g nd))"
proof -
  have lst: "frothy_ir_render_node_list rec g first n =
      r_bytes (tails (map sexp_text (map srec (link_range g first n))))"
    if "first + n \<le> length (ir_links g)" "\<forall>c \<in> set (link_range g first n). c < k" for first n
    using that assms(2) by (intro node_list_rendered) auto
  show ?thesis
    using assms(1) by (cases nd) (simp_all add: assms(2) lst literal_rendered
      frothy_ir_render_literal_def fields_rendered name_atom_def rendered)
qed

lemma render_fuel_text:
  assumes "nodes_wf g"
  shows "n < length (ir_nodes g) \<Longrightarrow> n < f \<Longrightarrow> render_fuel f g n = r_bytes (sexp_text (sexp_fuel f g n))"
proof (induction f arbitrary: n)
  case (Suc f)
  show ?case
    using Suc.prems nodes_wfD [OF assms] by (auto intro!: node_rendered [of g n] Suc.IH)
qed simp

subsection \<open>The S-expression determines the tree\<close>

text \<open>What a node says apart from its children, with strings read up to their terminator.\<close>

fun c_literal :: "frothy_ir_literal \<Rightarrow> frothy_ir_literal" where
  "c_literal (LITERAL_TEXT t) = LITERAL_TEXT (c_string t)"
| "c_literal l = l"

fun node_label ::
  "frothy_ir_program \<Rightarrow> frothy_ir_node \<Rightarrow> frothy_ir_node \<times> frothy_ir_literal option \<times> byte list option list"
where
  "node_label g (NODE_LIT l) = (NODE_LIT 0, Some (c_literal (ir_literals g ! l)), [])"
| "node_label g (NODE_READ_LOCAL i) = (NODE_READ_LOCAL i, None, [])"
| "node_label g (NODE_WRITE_LOCAL i v) = (NODE_WRITE_LOCAL i 0, None, [])"
| "node_label g (NODE_READ_SLOT s) = (NODE_READ_SLOT (c_string s), None, [])"
| "node_label g (NODE_WRITE_SLOT s v r) = (NODE_WRITE_SLOT (c_string s) 0 r, None, [])"
| "node_label g (NODE_READ_SLOT_FALLBACK s f) = (NODE_READ_SLOT_FALLBACK (c_string s) (c_string f), None, [])"
| "node_label g (NODE_WRITE_SLOT_FALLBACK s f v r) =
     (NODE_WRITE_SLOT_FALLBACK (c_string s) (c_string f) 0 r, None, [])"
| "node_label g (NODE_SLOT_DESIGNATOR s) = (NODE_SLOT_DESIGNATOR (c_string s), None, [])"
| "node_label g (NODE_RECORD_DEF s first n) = (NODE_RECORD_DEF (c_string s) 0 n, None, field_texts g first n)"
| "node_label g (NODE_READ_INDEX b i) = (NODE_READ_INDEX 0 0, None, [])"
| "node_label g (NODE_WRITE_INDEX b i v) = (NODE_WRITE_INDEX 0 0 0, None, [])"
| "node_label g (NODE_READ_FIELD b f) = (NODE_READ_FIELD 0 (c_string f), None, [])"
| "node_label g (NODE_WRITE_FIELD b f v) = (NODE_WRITE_FIELD 0 (c_string f) 0, None, [])"
| "node_label g (NODE_FN a l b) = (NODE_FN a l 0, None, [])"
| "node_label g (NODE_CALL bt callee first n) = (NODE_CALL bt 0 0 n, None, [])"
| "node_label g (NODE_IF c t e h) = (NODE_IF 0 0 0 h, None, [])"
| "node_label g (NODE_WHILE c b) = (NODE_WHILE 0 0, None, [])"
| "node_label g (NODE_SEQ first n) = (NODE_SEQ 0 n, None, [])"

definition tree_children :: "frothy_ir_program \<Rightarrow> frothy_ir_node \<Rightarrow> node_id list" where
  "tree_children g nd = (case nd of NODE_FN a l b \<Rightarrow> [b] | _ \<Rightarrow> node_children g nd)"

inductive same_tree :: "frothy_ir_program \<Rightarrow> frothy_ir_program \<Rightarrow> node_id \<Rightarrow> node_id \<Rightarrow> bool"
  for g h :: frothy_ir_program where
  "node_label g (ir_nodes g ! n) = node_label h (ir_nodes h ! m) \<Longrightarrow>
   list_all2 (same_tree g h) (tree_children g (ir_nodes g ! n)) (tree_children h (ir_nodes h ! m)) \<Longrightarrow>
   same_tree g h n m"

subsubsection \<open>Decimal forms\<close>

definition digit_byte :: "byte \<Rightarrow> bool" where "digit_byte b \<longleftrightarrow> 48 \<le> b \<and> b \<le> 57"

definition of_decimal :: "byte list \<Rightarrow> nat" where
  "of_decimal ds = foldl (\<lambda>v d. 10 * v + (unat d - 48)) 0 ds"

lemma digit_value: "n < 10 \<Longrightarrow> unat (48 + of_nat n :: byte) = 48 + n"
  by (simp add: unat_word_ariths unat_of_nat)

lemma decimal_ne [simp]: "decimal n \<noteq> []"
  by (subst decimal.simps) simp

lemma decimal_digits: "b \<in> set (decimal n) \<Longrightarrow> digit_byte b"
proof (induction n rule: decimal.induct)
  case (1 n)
  have "digit_byte (48 + of_nat m)" if "m < 10" for m
    using digit_value [OF that] that by (simp add: digit_byte_def word_le_nat_alt)
  then show ?case
    using 1 by (subst (asm) (2) decimal.simps) (auto split: if_splits)
qed

lemma of_decimal_decimal: "of_decimal (decimal n) = n"
proof (induction n rule: decimal.induct)
  case (1 n)
  then show ?case
    by (subst decimal.simps) (auto simp: of_decimal_def digit_value)
qed

lemma decimal_inj [simp]: "decimal m = decimal n \<longleftrightarrow> m = n"
  using of_decimal_decimal by metis

lemma decimal_cell_inj: "decimal_cell v = decimal_cell w \<longleftrightarrow> v = w"
proof
  assume eq: "decimal_cell v = decimal_cell w"
  have sign: "hd (decimal n) \<noteq> 45" for n
    using decimal_digits [of "hd (decimal n)" n] by (auto simp: digit_byte_def)
  have "sint v = sint w"
    using eq sign [of "nat (sint v)"] sign [of "nat (sint w)"]
    by (auto simp: decimal_cell_def split: if_splits dest: arg_cong [of _ _ hd])
  then show "v = w" by (rule signed_word_eqI)
qed simp

subsubsection \<open>Texts of well-formed programs\<close>

lemma atom_digit: "digit_byte b \<Longrightarrow> atom_byte b"
  by (auto simp: digit_byte_def atom_byte_def)

lemma decimal_atom [simp]: "list_all atom_byte (decimal n)"
  using decimal_digits atom_digit by (auto simp: list_all_iff)

lemma decimal_cell_atom [simp]: "decimal_cell w \<noteq> [] \<and> list_all atom_byte (decimal_cell w)"
  by (simp add: decimal_cell_def atom_byte_def)

lemma literal_sexp_ok: "sexp_ok (literal_sexp l)"
  by (cases l) (simp_all add: ascii_def atom_byte_def)

lemma builtin_name_no_nul: "0 \<notin> set (frothy_ir_builtin_name b)"
  by (cases b) (simp_all add: ascii_def)

lemma field_texts_no_nul: "Some t \<in> set (field_texts g first n) \<Longrightarrow> 0 \<notin> set t"
proof -
  assume "Some t \<in> set (field_texts g first n)"
  then obtain l where "literal_text l = Some t" by (auto simp: field_texts_def)
  then show "0 \<notin> set t" by (cases l) auto
qed

lemma name_atom_ok: "sexp_ok (name_atom s) \<longleftrightarrow> s \<noteq> [] \<and> list_all atom_byte (ascii s)"
  by (simp add: name_atom_def ascii_def)

lemma node_sexp_ok:
  assumes "node_wf g k nd" and "\<And>c. c < k \<Longrightarrow> sexp_ok (rec c)"
  shows "sexp_ok (node_sexp rec g nd)"
proof -
  have fields: "sexp_ok (Quoted (the t))" if "record_fields_wf g first n" "t \<in> set (field_texts g first n)" for first n t
    using that field_texts_no_nul [of "the t" g first n] by (cases t) (auto simp: record_fields_wf_def)
  show ?thesis
    using assms(1) fields
    by (cases nd) (auto simp: assms(2) name_atom_ok ascii_def atom_byte_def literal_sexp_ok builtin_name_no_nul)
qed

lemma sexp_fuel_ok:
  assumes "nodes_wf g"
  shows "n < length (ir_nodes g) \<Longrightarrow> n < f \<Longrightarrow> sexp_ok (sexp_fuel f g n)"
proof (induction f arbitrary: n)
  case (Suc f)
  show ?case
    using Suc.prems nodes_wfD [OF assms] by (auto intro!: node_sexp_ok [of g n] Suc.IH)
qed simp

lemma literal_sexp_inj: "literal_sexp l = literal_sexp m \<longleftrightarrow> c_literal l = c_literal m"
proof -
  have first: "decimal_cell w \<noteq> b # bs" if "b \<noteq> 45" "\<not> digit_byte b" for w b bs
    using that decimal_digits [of b "nat (sint w)"] by (auto simp: decimal_cell_def)
  show ?thesis
    by (cases l; cases m) (auto simp: decimal_cell_inj ascii_def first [symmetric] first digit_byte_def)
qed

lemma builtin_name_inj: "frothy_ir_builtin_name a = frothy_ir_builtin_name b \<Longrightarrow> a = b"
  by (cases a; cases b) (simp_all add: ascii_def)

lemma node_sexp_not_builtin: "node_sexp rec g nd \<noteq> Paren (name_atom ''builtin'' # ss)"
  by (cases nd) (simp_all add: name_atom_def ascii_def)

lemma field_texts_eq:
  assumes "record_fields_wf g first n" and "record_fields_wf h first' n'"
    and "map the (field_texts g first n) = map the (field_texts h first' n')"
  shows "field_texts g first n = field_texts h first' n' \<and> n = n'"
proof -
  have some: "map Some (map the (field_texts g first n)) = field_texts g first n"
    if "record_fields_wf g first n" for g first n
  proof -
    have "None \<notin> set (field_texts g first n)" using that by (simp add: record_fields_wf_def)
    then have "Some (the t) = t" if "t \<in> set (field_texts g first n)" for t using that by (cases t) auto
    then show ?thesis by (simp add: o_def map_idI)
  qed
  have len: "length (field_texts g first n) = n" if "record_fields_wf g first n" for g first n
    using that by (auto simp: record_fields_wf_def field_texts_def link_range_def)
  show ?thesis
    using some [OF assms(1)] some [OF assms(2)] len [OF assms(1)] len [OF assms(2)] assms(3) by metis
qed

lemma link_range_length: "first + n \<le> length (ir_links g) \<Longrightarrow> length (link_range g first n) = n"
  by (simp add: link_range_def)

lemma unat_of_char: "unat (of_char c :: byte) = of_char c"
proof -
  have "(of_char c :: byte) = word_of_nat (of_char c)" by (simp add: of_nat_of_char)
  then show ?thesis by (simp add: unat_of_nat)
qed

lemma name_atom_eq: "name_atom s = name_atom t \<longleftrightarrow> s = t"
proof -
  have "inj (of_char :: char \<Rightarrow> byte)"
    by (rule injI) (metis unat_of_char of_char_eq_iff)
  then show ?thesis by (simp add: name_atom_def ascii_def inj_map_eq_map)
qed

lemmas sexp_shape = name_atom_eq tree_children_def

lemma call_sexp_label:
  assumes "node_sexp rec g (NODE_CALL bt callee first n) = node_sexp rec' h (NODE_CALL bt' callee' first' n')"
    and "node_wf g k (NODE_CALL bt callee first n)" and "node_wf h k' (NODE_CALL bt' callee' first' n')"
    and "\<And>c ss. rec c \<noteq> Paren (name_atom ''builtin'' # ss)" and "\<And>c ss. rec' c \<noteq> Paren (name_atom ''builtin'' # ss)"
  shows "node_label g (NODE_CALL bt callee first n) = node_label h (NODE_CALL bt' callee' first' n') \<and>
    map rec (tree_children g (NODE_CALL bt callee first n)) =
      map rec' (tree_children h (NODE_CALL bt' callee' first' n'))"
proof -
  have args: "map rec (link_range g first n) = map rec' (link_range h first' n')" using assms(1) by simp
  then have n: "n = n'" using assms(2,3) by (auto dest: arg_cong [of _ _ length] simp: link_range_length)
  have "bt = bt' \<and> (bt = BUILTIN_NONE \<longrightarrow> rec callee = rec' callee')"
    using assms(1,4,5) builtin_name_inj [of bt bt'] by (auto split: if_splits dest: sym)
  then show ?thesis using args n by (auto simp: tree_children_def)
qed

lemma seq_sexp_label:
  assumes "map rec (link_range g first n) = map rec' (link_range h first' n')"
    and "first + n \<le> length (ir_links g)" and "first' + n' \<le> length (ir_links h)"
  shows "n = n'"
  using assms by (auto dest: arg_cong [of _ _ length] simp: link_range_length)

lemma node_sexp_label:
  assumes "node_sexp rec g nd = node_sexp rec' h nd'" and "node_wf g k nd" and "node_wf h k' nd'"
    and "\<And>c ss. rec c \<noteq> Paren (name_atom ''builtin'' # ss)" and "\<And>c ss. rec' c \<noteq> Paren (name_atom ''builtin'' # ss)"
  shows "node_label g nd = node_label h nd' \<and> map rec (tree_children g nd) = map rec' (tree_children h nd')"
proof (cases nd)
  case (NODE_CALL bt callee first n)
  then obtain bt' callee' first' n' where "nd' = NODE_CALL bt' callee' first' n'"
    using assms(1) by (cases nd') (simp_all add: sexp_shape split: if_splits)
  then show ?thesis using call_sexp_label assms NODE_CALL by metis
next
  case (NODE_RECORD_DEF s first n)
  then obtain s' first' n' where "nd' = NODE_RECORD_DEF s' first' n'"
    using assms(1) by (cases nd') (simp_all add: sexp_shape split: if_splits)
  moreover from this have "map the (field_texts g first n) = map the (field_texts h first' n')"
    using assms(1) NODE_RECORD_DEF by (auto simp: inj_def simp del: map_map dest!: map_injective)
  ultimately show ?thesis
    using assms NODE_RECORD_DEF field_texts_eq [of g first n h first' n'] by (auto simp: sexp_shape)
next
  case (NODE_SEQ first n)
  then obtain first' n' where "nd' = NODE_SEQ first' n'"
    using assms(1) by (cases nd') (simp_all add: sexp_shape split: if_splits)
  then show ?thesis
    using assms(1-3) NODE_SEQ seq_sexp_label [of rec g first n rec' h first' n'] by (simp add: sexp_shape)
qed (use assms(1) in \<open>cases nd'; simp add: sexp_shape literal_sexp_inj split: if_splits\<close>)+

lemma sexp_fuel_not_builtin: "sexp_fuel f g n \<noteq> Paren (name_atom ''builtin'' # ss)"
  by (cases f) (simp_all add: node_sexp_not_builtin)

lemma tree_children_below: "node_wf g k nd \<Longrightarrow> c \<in> set (tree_children g nd) \<Longrightarrow> c < k"
  using node_wf_children [of g k nd] by (auto simp: tree_children_def split: frothy_ir_node.splits)

lemma sexp_same_tree:
  assumes "nodes_wf g" and "nodes_wf h"
  shows "sexp_fuel f g n = sexp_fuel f' h m \<Longrightarrow> n < length (ir_nodes g) \<Longrightarrow> m < length (ir_nodes h) \<Longrightarrow>
    n < f \<Longrightarrow> m < f' \<Longrightarrow> same_tree g h n m"
proof (induction f arbitrary: n m f')
  case (Suc f)
  obtain k where f': "f' = Suc k" using Suc.prems(5) by (cases f') auto
  let ?cs = "tree_children g (ir_nodes g ! n)" and ?ds = "tree_children h (ir_nodes h ! m)"
  note wf = nodes_wfD [OF assms(1) Suc.prems(2)] nodes_wfD [OF assms(2) Suc.prems(3)]
  have eq: "node_label g (ir_nodes g ! n) = node_label h (ir_nodes h ! m) \<and>
      map (sexp_fuel f g) ?cs = map (sexp_fuel k h) ?ds"
    using Suc.prems(1) f' by (intro node_sexp_label [OF _ wf]) (simp_all add: sexp_fuel_not_builtin)
  have len: "length ?cs = length ?ds" using eq by (metis length_map)
  have "same_tree g h (?cs ! i) (?ds ! i)" if i: "i < length ?cs" for i
  proof -
    have "?cs ! i < n" "?ds ! i < m"
      using tree_children_below wf i len nth_mem by metis+
    moreover have "sexp_fuel f g (?cs ! i) = sexp_fuel k h (?ds ! i)"
      using eq i len by (metis nth_map)
    ultimately show ?thesis using Suc.prems f' by (intro Suc.IH [of _ k]) auto
  qed
  then show ?case using eq len by (intro same_tree.intros) (auto simp: list_all2_conv_all_nth)
qed simp

text \<open>Equal core forms are of equal trees.\<close>

lemma render_tree_same:
  assumes "nodes_wf g" and "nodes_wf h" and "n < length (ir_nodes g)" and "m < length (ir_nodes h)"
    and "render_tree g n = render_tree h m"
  shows "same_tree g h n m"
proof -
  let ?f = "Suc (length (ir_nodes g))" and ?f' = "Suc (length (ir_nodes h))"
  have "sexp_text (sexp_fuel ?f g n) @ [] = sexp_text (sexp_fuel ?f' h m) @ []"
    using assms render_fuel_text [OF assms(1,3)] render_fuel_text [OF assms(2,4)]
    by (simp add: render_tree_def r_bytes_def del: render_fuel.simps sexp_fuel.simps)
  then have "sexp_fuel ?f g n = sexp_fuel ?f' h m"
    using sexp_inj sexp_fuel_ok [OF assms(1,3)] sexp_fuel_ok [OF assms(2,4)]
    by (metis assms(3,4) delimited_def less_Suc_eq)
  then show ?thesis by (rule sexp_same_tree [OF assms(1,2)]) (use assms(3,4) in auto)
qed

end
