(* ===== verification/Frothy_Render_Lex.thy ===== *)
theory Frothy_Render_Lex
  imports Frothy_Render_Core Frothy_Parser
begin

section \<open>Rendered literals are read back\<close>

text \<open>
  The surface form of a literal, read by the lexer, is one token of the same value: escapes of texts
  undo each other, digits are counted back without overflow, and the words for booleans and nil are
  keywords.
\<close>

definition literal_readable :: "frothy_ir_literal \<Rightarrow> bool" where
  "literal_readable l \<longleftrightarrow>
     (case l of
        LITERAL_INT i \<Rightarrow> 0 \<le> sint i \<and> sint i \<le> int FROTHY_LEX_INT_MAX
      | LITERAL_TEXT t \<Rightarrow> strlen t \<le> FROTH_STRING_MAX_LEN
      | _ \<Rightarrow> True)"

lemma byte_at_append:
  "byte_at (b # rest) 0 = b" "byte_at (pre @ b # rest) (length pre) = b" "byte_at (pre @ b # c # rest) (Suc (length pre)) = c"
  "byte_at (pre @ rest) (length pre) = byte_at rest 0"
  by (simp_all add: byte_at_def nth_append)

lemma lex_text_loop_quoted:
  "0 \<notin> set s \<Longrightarrow> length buffer + length s \<le> FROTH_STRING_MAX_LEN \<Longrightarrow>
   lex_text_loop (pre @ concat (map quoted_byte s) @ 34 # rest) (length pre) buffer =
     (Inr (buffer @ s), length pre + length (concat (map quoted_byte s)))"
proof (induction s arbitrary: pre buffer)
  case Nil
  then show ?case by (subst lex_text_loop.simps) (simp add: byte_at_append Let_def)
next
  case (Cons b s)
  let ?q = "concat (map quoted_byte s) @ 34 # rest"
  have step: "lex_text_loop ((pre @ x) @ ?q) (length (pre @ x)) (buffer @ [b]) =
      (Inr (buffer @ b # s), length pre + length x + length (concat (map quoted_byte s)))" for x
    using Cons.IH [of "buffer @ [b]" "pre @ x"] Cons.prems by simp
  show ?case
  proof (cases "length (quoted_byte b) = 1")
    case True
    then have q: "quoted_byte b = [b]" and b: "b \<noteq> 92" "b \<noteq> 34" "b \<noteq> 0"
      using Cons.prems(1) by (auto simp: quoted_byte_def split: if_splits)
    show ?thesis
      using step [of "[b]"] Cons.prems b by (subst lex_text_loop.simps) (simp add: q byte_at_append Let_def)
  next
    case False
    then obtain e where q: "quoted_byte b = [92, e]" and e: "escape_byte e = Some b" "e \<noteq> 0"
      by (auto simp: quoted_byte_def escape_byte_def split: if_splits)
    show ?thesis
      using step [of "[92, e]"] Cons.prems e by (subst lex_text_loop.simps) (simp add: q byte_at_append Let_def)
  qed
qed

definition count_digit :: "nat \<Rightarrow> byte \<Rightarrow> nat" where "count_digit v d = 10 * v + (unat d - 48)"

lemma count_digits_mono: "v \<le> foldl count_digit v ds"
proof (induction ds arbitrary: v)
  case (Cons d ds)
  have "v \<le> count_digit v d" by (simp add: count_digit_def)
  then show ?case using Cons.IH [of "count_digit v d"] by (simp del: One_nat_def)
qed simp

lemma digit_byte_isdigit: "digit_byte b = isdigit b"
  by (simp add: digit_byte_def isdigit_def)

lemma lex_number_loop_digits:
  "\<forall>d \<in> set ds. isdigit d \<Longrightarrow> \<not> isdigit (byte_at rest 0) \<Longrightarrow> foldl count_digit v ds \<le> FROTHY_LEX_INT_MAX \<Longrightarrow>
   lex_number_loop (pre @ ds @ rest) (length pre) v = (Inr (foldl count_digit v ds), length pre + length ds)"
proof (induction ds arbitrary: pre v)
  case Nil
  then show ?case by (subst lex_number_loop.simps) (simp add: byte_at_append Let_def)
next
  case (Cons d ds)
  have "count_digit v d \<le> FROTHY_LEX_INT_MAX"
    using count_digits_mono [of "count_digit v d" ds] Cons.prems(3) by simp
  then have "v \<le> (FROTHY_LEX_INT_MAX - (unat d - 48)) div 10"
    by (simp add: count_digit_def)
  moreover have "lex_number_loop ((pre @ [d]) @ ds @ rest) (length (pre @ [d])) (count_digit v d) =
      (Inr (foldl count_digit v (d # ds)), length pre + length (d # ds))"
    using Cons.IH [of "count_digit v d" "pre @ [d]"] Cons.prems by simp
  ultimately show ?case
    using Cons.prems(1)
    by (subst lex_number_loop.simps) (simp add: byte_at_append Let_def count_digit_def mult.commute)
qed

lemma skip_name_bytes:
  "\<forall>b \<in> set ns. frothy_name_byte_is_slot_continue b \<Longrightarrow> \<not> frothy_name_byte_is_slot_continue (byte_at rest 0) \<Longrightarrow>
   skip_name (pre @ ns @ rest) (length pre) = length pre + length ns"
proof (induction ns arbitrary: pre)
  case Nil
  then show ?case by (subst skip_name.simps) (simp add: byte_at_append)
next
  case (Cons b ns)
  have "skip_name ((pre @ [b]) @ ns @ rest) (length (pre @ [b])) = length (pre @ [b]) + length ns"
    using Cons.IH [of "pre @ [b]"] Cons.prems by simp
  then show ?case using Cons.prems(1) by (subst skip_name.simps) (simp add: byte_at_append)
qed

text \<open>No white space and no comment before the token.\<close>

lemma lex_skip_nothing:
  "b \<noteq> 92 \<Longrightarrow> \<not> isspace b \<Longrightarrow> frothy_lex_skip_space (pre @ b # rest) (length pre) = length pre"
  by (subst frothy_lex_skip_space.simps, subst skip_blank.simps) (simp add: byte_at_append Let_def)

lemma lex_quoted:
  assumes "strlen t \<le> FROTH_STRING_MAX_LEN"
  shows "\<exists>token. frothy_lex_next (pre @ quoted t @ rest) (length pre) =
      (Inr (), token, length pre + length (quoted t)) \<and>
    tk_start token = Some (length pre) \<and> simple_literal token = Some (LITERAL_TEXT (c_string t))"
proof -
  let ?q = "concat (map quoted_byte (c_string t))"
  have loop: "lex_text_loop (pre @ 34 # ?q @ 34 # rest) (Suc (length pre)) [] =
      (Inr (c_string t), Suc (length pre + length ?q))"
    using lex_text_loop_quoted [of "c_string t" "[]" "pre @ [34]" rest] assms by (simp add: strlen_def)
  have close: "byte_at (pre @ 34 # ?q @ 34 # rest) (Suc (length pre + length ?q)) = 34"
    using byte_at_append(2) [of "pre @ 34 # ?q" 34 rest] by simp
  have "frothy_lex_skip_space (pre @ 34 # ?q @ 34 # rest) (length pre) = length pre"
    by (rule lex_skip_nothing) (simp_all add: isspace_def)
  then show ?thesis
    using loop close by (simp add: frothy_lex_next_def quoted_def byte_at_append Let_def
      frothy_name_byte_is_start_def isalpha_def isdigit_def frothy_lex_text_def simple_literal_def
      frothy_token_clear_def)
qed

lemma lex_decimal:
  assumes "n \<le> FROTHY_LEX_INT_MAX" and "\<not> isdigit (byte_at rest 0)"
  shows "\<exists>token. frothy_lex_next (pre @ decimal n @ rest) (length pre) =
      (Inr (), token, length pre + length (decimal n)) \<and>
    tk_start token = Some (length pre) \<and> simple_literal token = Some (LITERAL_INT (word_of_nat n))"
proof -
  obtain d ds where ds: "decimal n = d # ds" by (cases "decimal n") auto
  have digits: "\<forall>b \<in> set (d # ds). isdigit b"
    using decimal_digits [of _ n] ds by (auto simp: digit_byte_isdigit)
  have v: "foldl count_digit 0 (d # ds) = n"
    using of_decimal_decimal [of n] ds by (simp add: of_decimal_def count_digit_def [abs_def])
  have "lex_number_loop (pre @ (d # ds) @ rest) (length pre) 0 = (Inr n, length pre + length (d # ds))"
    using lex_number_loop_digits [OF digits assms(2), of 0] v assms(1) by simp
  moreover have "d \<noteq> 92" "\<not> isspace d" "\<not> frothy_name_byte_is_start d" "d \<noteq> 0"
    using digits by (auto simp: isdigit_def isspace_def frothy_name_byte_is_start_def isalpha_def
      word_le_nat_alt)
  moreover from this have "frothy_lex_skip_space (pre @ d # ds @ rest) (length pre) = length pre"
    by (intro lex_skip_nothing)
  ultimately show ?thesis
    using digits by (simp add: ds frothy_lex_next_def byte_at_append Let_def frothy_lex_number_def
      simple_literal_def frothy_token_clear_def)
qed

lemma lex_keyword:
  assumes "map_of keyword_table (b # bs) = Some k" and "frothy_name_byte_is_start b"
    and "\<forall>c \<in> set bs. frothy_name_byte_is_slot_continue c"
    and "\<not> frothy_name_byte_is_slot_continue (byte_at rest 0)"
  shows "frothy_lex_next (pre @ (b # bs) @ rest) (length pre) =
    (Inr (), frothy_token_clear\<lparr>tk_kind := k, tk_start := Some (length pre), tk_length := length (b # bs)\<rparr>,
     length pre + length (b # bs))"
proof -
  have skip: "skip_name (pre @ b # bs @ rest) (Suc (length pre)) = Suc (length pre + length bs)"
    using skip_name_bytes [of bs rest "pre @ [b]"] assms(3,4) by simp
  have load: "load_at (pre @ b # bs @ rest) (length pre) (Suc (length bs)) = b # bs"
    by (simp add: load_at_def)
  have "b \<noteq> 92" "\<not> isspace b" "b \<noteq> 0"
    using assms(2) by (auto simp: isspace_def frothy_name_byte_is_start_def isalpha_def word_le_nat_alt)
  moreover from this have "frothy_lex_skip_space (pre @ b # bs @ rest) (length pre) = length pre"
    by (intro lex_skip_nothing)
  ultimately show ?thesis
    using skip load assms by (simp add: frothy_lex_next_def byte_at_append Let_def frothy_lex_name_def
      frothy_token_clear_def)
qed

lemma lex_literal:
  assumes "literal_readable l" and "\<not> frothy_name_byte_is_slot_continue (byte_at rest 0)"
  shows "\<exists>text token. literal_form l = Some (Inr text) \<and>
    frothy_lex_next (pre @ text @ rest) (length pre) = (Inr (), token, length pre + length text) \<and>
    tk_start token = Some (length pre) \<and> simple_literal token = Some (c_literal l)"
proof (cases l)
  case (LITERAL_INT i)
  then have i: "0 \<le> sint i" "nat (sint i) \<le> FROTHY_LEX_INT_MAX" using assms(1) by (auto simp: literal_readable_def)
  then have "decimal_cell i = decimal (nat (sint i))" "word_of_nat (nat (sint i)) = i"
    by (simp_all add: decimal_cell_def)
  moreover have "\<not> isdigit (byte_at rest 0)"
    using assms(2) by (auto simp: frothy_name_byte_is_slot_continue_def
      frothy_name_byte_is_simple_continue_def isalnum_def)
  ultimately show ?thesis
    using lex_decimal [OF i(2), of rest pre] LITERAL_INT by (simp add: r_bytes_def)
next
  case (LITERAL_BOOL v)
  have words: "ascii ''true'' = 116 # [114, 117, 101]" "ascii ''false'' = 102 # [97, 108, 115, 101]"
    by (simp_all add: ascii_def)
  show ?thesis
    using lex_keyword [of 116 "[114, 117, 101]" TOKEN_KW_TRUE rest pre]
      lex_keyword [of 102 "[97, 108, 115, 101]" TOKEN_KW_FALSE rest pre] assms(2) LITERAL_BOOL
    by (simp add: words r_text_def r_bytes_def keyword_table_bytes frothy_name_byte_is_start_def isalpha_def
      frothy_name_byte_is_slot_continue_def frothy_name_byte_is_simple_continue_def isalnum_def simple_literal_def)
next
  case LITERAL_NIL
  have words: "ascii ''nil'' = 110 # [105, 108]" by (simp add: ascii_def)
  show ?thesis
    using lex_keyword [of 110 "[105, 108]" TOKEN_KW_NIL rest pre] assms(2) LITERAL_NIL
    by (simp add: words r_text_def r_bytes_def keyword_table_bytes frothy_name_byte_is_start_def isalpha_def
      frothy_name_byte_is_slot_continue_def frothy_name_byte_is_simple_continue_def isalnum_def simple_literal_def)
next
  case (LITERAL_TEXT t)
  then show ?thesis
    using lex_quoted [of t pre rest] assms(1) by (simp add: literal_readable_def frothy_ir_render_quoted_def r_bytes_def)
qed

end
