(* ===== verification/Frothy_Text_Props.thy ===== *)
theory Frothy_Text_Props
  imports Frothy_Render_Lex Frothy_Parse_Code
begin

section \<open>Properties of the renderings\<close>

lemma parsed_wf: "frothy_parse_top_level source = Some (Inr g) \<Longrightarrow> program_wf g"
  by (cases rule: parse_internal_cases [of source True]) (auto simp: frothy_parse_top_level_def)

lemma root_valid: "program_wf g \<Longrightarrow> ir_root g < length (ir_nodes g) \<and> ir_root g \<noteq> FROTHY_IR_NODE_INVALID"
  using locals_fit_iff [of g "ir_root_local_count g" "ir_root g"]
  by (auto simp: program_wf_def FROTHY_IR_NODE_CAPACITY_def FROTHY_IR_NODE_INVALID_def SIZE_MAX_def)

text \<open>C10. Every program the parser makes renders: the core form of the program and, for any of its nodes
  as the body of a function, the core form and the surface form are produced, without error.\<close>

theorem parsed_program_renders:
  assumes "frothy_parse_top_level source = Some (Inr g)"
  shows "(\<exists>t. frothy_ir_render g = Some (Inr t)) \<and>
    (body < length (ir_nodes g) \<longrightarrow>
      (\<exists>t. frothy_ir_render_code g body arity local_count = Some (Inr t)) \<and>
      (\<exists>t. frothy_ir_render_surface_code g body arity local_count name = Some (Inr t)))"
proof -
  have wf: "program_wf g" using assms by (rule parsed_wf)
  then have nodes: "nodes_wf g" by (simp add: program_wf_def)
  have "r_ok (frothy_ir_render g)"
    using root_valid [OF wf] render_tree_ok [OF nodes] by (simp add: frothy_ir_render_def)
  moreover have "r_ok (frothy_ir_render_code g body arity local_count)" if "body < length (ir_nodes g)"
    using render_tree_ok [OF nodes that] that by (simp add: frothy_ir_render_code_def)
  ultimately show ?thesis using surface_code_ok [OF nodes] by (simp add: r_ok_def)
qed

definition sample_one :: frothy_ir_program where
  "sample_one = frothy_ir_program_init\<lparr>ir_literals := [LITERAL_INT 1], ir_nodes := [NODE_LIT 0], ir_root := 0\<rparr>"

lemma sample_one_parses: "frothy_parse_top_level [49] = Some (Inr sample_one)"
  by code_simp

theorem parsed_program_renders_witness:
  "(\<exists>t. frothy_ir_render sample_one = Some (Inr t)) \<and>
   (\<exists>t. frothy_ir_render_surface_code sample_one 0 0 0 None = Some (Inr t))"
  using parsed_program_renders [OF sample_one_parses, of 0 0 0 None] by (simp add: sample_one_def)

text \<open>C8. The core form is faithful: two functions of well-formed programs that render alike have the same
  arity, the same number of locals and the same tree of nodes, whatever the layout of their arrays.\<close>

theorem core_form_faithful:
  assumes "program_wf g" and "program_wf h"
    and "frothy_ir_render_code g b arity locals = frothy_ir_render_code h c arity' locals'"
    and "b < length (ir_nodes g)" and "c < length (ir_nodes h)"
  shows "arity = arity' \<and> locals = locals' \<and> same_tree g h b c"
proof -
  define f where "f = (\<lambda>(a :: nat) (l :: nat) s. Paren [name_atom ''fn'', Atom (ascii ''arity='' @ decimal a),
    Atom (ascii ''locals='' @ decimal l), s])"
  have wf: "nodes_wf g" "nodes_wf h" using assms(1,2) by (simp_all add: program_wf_def)
  obtain s where s: "render_tree g b = r_bytes (sexp_text s)" "sexp_ok s"
    using render_fuel_text [OF wf(1) assms(4)] sexp_fuel_ok [OF wf(1) assms(4)] assms(4)
    unfolding render_tree_def by (metis less_Suc_eq)
  obtain t where t: "render_tree h c = r_bytes (sexp_text t)" "sexp_ok t"
    using render_fuel_text [OF wf(2) assms(5)] sexp_fuel_ok [OF wf(2) assms(5)] assms(5)
    unfolding render_tree_def by (metis less_Suc_eq)
  have "frothy_ir_render_code g b arity locals = r_bytes (sexp_text (f arity locals s))"
    "frothy_ir_render_code h c arity' locals' = r_bytes (sexp_text (f arity' locals' t))"
    using assms(4,5) s(1) t(1) by (simp_all add: frothy_ir_render_code_def f_def name_atom_def rendered)
  then have "sexp_text (f arity locals s) @ [] = sexp_text (f arity' locals' t) @ []"
    using assms(3) by (simp add: r_bytes_def)
  moreover have "sexp_ok (f a l u)" if "sexp_ok u" for a l u
    using that by (simp add: f_def name_atom_ok ascii_def atom_byte_def)
  ultimately have "f arity locals s = f arity' locals' t"
    using sexp_inj [of "f arity locals s" "f arity' locals' t" "[]" "[]"] s(2) t(2) by (simp add: delimited_def)
  then have "arity = arity' \<and> locals = locals' \<and> render_tree g b = render_tree h c"
    using s(1) t(1) by (simp add: f_def)
  then show ?thesis using render_tree_same [OF wf assms(4,5)] by simp
qed

definition sample_two :: frothy_ir_program where
  "sample_two = frothy_ir_program_init\<lparr>ir_literals := [LITERAL_NIL, LITERAL_INT 1],
     ir_nodes := [NODE_LIT 0, NODE_LIT 1], ir_root := 1\<rparr>"

lemma sample_two_wf: "program_wf sample_two"
  by code_simp

theorem core_form_faithful_witness: "same_tree sample_one sample_two 0 1"
proof -
  have "frothy_ir_render_code sample_one 0 0 0 = frothy_ir_render_code sample_two 1 0 0" by code_simp
  then show ?thesis
    using core_form_faithful [OF parsed_wf [OF sample_one_parses] sample_two_wf, of 0 0 0 1 0 0]
    by (simp add: sample_one_def sample_two_def)
qed

text \<open>C9. A rendered literal is read back: wherever the surface form of a literal stands in a source, with no
  name byte behind it, the lexer reads exactly its text as one token, and the parser's literal for that token
  is the same literal. This holds for integers that are not negative, for texts of at most 256 bytes, for the
  booleans and nil.\<close>

theorem rendered_literal_lexes:
  assumes "literal_readable (ir_literals g ! k)"
    and "\<not> frothy_name_byte_is_slot_continue (byte_at rest 0)"
  shows "\<exists>text token. frothy_ir_render_surface_literal g k = Some (Inr text) \<and>
    frothy_lex_next (pre @ text @ rest) (length pre) = (Inr (), token, length pre + length text) \<and>
    tk_start token = Some (length pre) \<and> simple_literal token = Some (c_literal (ir_literals g ! k))"
  using lex_literal [OF assms, of pre] by (simp add: frothy_ir_render_surface_literal_def)

theorem rendered_literal_lexes_witness:
  "\<exists>text token. frothy_ir_render_surface_literal sample_one 0 = Some (Inr text) \<and>
    frothy_lex_next ([] @ text @ [32]) 0 = (Inr (), token, length text) \<and>
    simple_literal token = Some (LITERAL_INT 1)"
proof -
  have "literal_readable (ir_literals sample_one ! 0)" by code_simp
  moreover have "\<not> frothy_name_byte_is_slot_continue (byte_at [32] 0)" by code_simp
  ultimately show ?thesis
    using rendered_literal_lexes [of sample_one 0 "[32]" "[]"] by (fastforce simp: sample_one_def)
qed

subsection \<open>What the surface form loses\<close>

text \<open>The surface form of a function that a source binds to a name, as \<^verbatim>\<open>see\<close> shows it, and the core form.\<close>

definition bound_function :: "byte list \<Rightarrow> (frothy_ir_program \<times> byte list \<times> frothy_ir_node) option" where
  "bound_function source =
     (case frothy_parse_top_level source of
        Some (Inr g) \<Rightarrow>
          (case ir_nodes g ! ir_root g of
             NODE_WRITE_SLOT name v existing \<Rightarrow> Some (g, name, ir_nodes g ! v)
           | _ \<Rightarrow> None)
      | _ \<Rightarrow> None)"

definition forms_of :: "string \<Rightarrow> rendering \<times> rendering" where
  "forms_of source =
     (case bound_function (ascii source) of
        Some (g, name, NODE_FN arity local_count body) \<Rightarrow>
          (frothy_ir_render_surface_code g body arity local_count (Some name),
           frothy_ir_render_code g body arity local_count)
      | _ \<Rightarrow> (None, None))"

text \<open>
  The surface form has no parentheses: every infix expression reads from left to right and a prefix operator
  takes the operand beside it, so an operand that was grouped differently is shown as another expression. And
  a write of a local is shown as the declaration of a local.
\<close>

lemma grouped_right:
  "forms_of ''f(a)=1-(a-1)'' = (r_text ''to f with arg0 [ 1 - arg0 - 1 ]'',
     r_text ''(fn arity=1 locals=1 (seq (call (builtin \"-\") (lit 1) (call (builtin \"-\") (read-local 0) (lit 1)))))'')"
  by code_simp

lemma grouped_left:
  "forms_of ''f(a)=1-a-1'' = (r_text ''to f with arg0 [ 1 - arg0 - 1 ]'',
     r_text ''(fn arity=1 locals=1 (seq (call (builtin \"-\") (call (builtin \"-\") (lit 1) (read-local 0)) (lit 1))))'')"
  by code_simp

lemma local_set:
  "forms_of ''f(a){set a to 1}'' = (r_text ''to f with arg0 [ here arg0 is 1 ]'',
     r_text ''(fn arity=1 locals=1 (seq (write-local 0 (lit 1))))'')"
  by code_simp

lemma local_declared:
  "forms_of ''to f with arg0 [ here arg0 is 1 ]'' = (r_text ''to f with arg0 [ here local0 is 1 ]'',
     r_text ''(fn arity=1 locals=2 (seq (write-local 1 (lit 1))))'')"
  by code_simp

text \<open>So the surface form is for reading only: these two functions group an expression differently, have
  different core forms and the same surface form, which reads as one of them; and a function that writes
  its parameter is shown with a declaration that, read back, makes a new local.\<close>

lemma surface_form_examples:
  "fst (forms_of ''f(a)=1-(a-1)'') = fst (forms_of ''f(a)=1-a-1'') \<and>
   snd (forms_of ''f(a)=1-(a-1)'') \<noteq> snd (forms_of ''f(a)=1-a-1'') \<and>
   fst (forms_of ''f(a){set a to 1}'') = r_text ''to f with arg0 [ here arg0 is 1 ]'' \<and>
   snd (forms_of ''f(a){set a to 1}'') \<noteq> snd (forms_of ''to f with arg0 [ here arg0 is 1 ]'')"
  by (simp add: grouped_right grouped_left local_set local_declared r_text_def r_bytes_def ascii_def)

end
