(* ===== verification/Frothy_Cobs.thy ===== *)
theory Frothy_Cobs
  imports Froth_Prelude
begin

section \<open>Byte stuffing of the control link (frothy_control.c)\<close>

text \<open>
  Consistent-overhead byte stuffing: a frame is sent without zero bytes, which delimit frames. The
  encoder keeps a place in the output for the length of the current run and fills it in later; the
  decoder works in place, reading and writing one buffer. Both are shown to agree with a decoder over
  lists, and to be inverse to each other.
\<close>

subsection \<open>The encoder\<close>

text \<open>\<open>out\<close> holds the bytes up to the write position; the byte at the code position is still to be filled
  in. An output that starts empty begins with such a place.\<close>

fun cobs_encode_loop :: "nat \<Rightarrow> byte list \<Rightarrow> byte list \<Rightarrow> nat \<Rightarrow> byte \<Rightarrow> byte list result" where
  "cobs_encode_loop out_cap [] out code_pos code = Inr (out[code_pos := code])"
| "cobs_encode_loop out_cap (b # bs) out code_pos code =
     (if b = 0 then
        (if out_cap \<le> length out then Inl FROTH_ERROR_LINK_OVERFLOW
         else cobs_encode_loop out_cap bs (out[code_pos := code] @ [0]) (length out) 1)
      else if out_cap \<le> length out then Inl FROTH_ERROR_LINK_OVERFLOW
      else if code + 1 = 0xFF then
        (if out_cap \<le> length out + 1 then Inl FROTH_ERROR_LINK_OVERFLOW
         else cobs_encode_loop out_cap bs ((out @ [b])[code_pos := code + 1] @ [0]) (length out + 1) 1)
      else cobs_encode_loop out_cap bs (out @ [b]) code_pos (code + 1))"

definition frothy_control_cobs_encode :: "byte list \<Rightarrow> nat \<Rightarrow> byte list result" where
  "frothy_control_cobs_encode bytes out_cap = cobs_encode_loop out_cap bytes [0] 0 1"

subsection \<open>The decoder, in place\<close>

text \<open>The input is the first \<open>in_len\<close> bytes of the buffer that the output is written to.\<close>

primrec cobs_copy_run :: "nat \<Rightarrow> nat \<Rightarrow> nat \<Rightarrow> nat \<Rightarrow> byte list \<Rightarrow> byte list result" where
  "cobs_copy_run out_cap 0 r w buf = Inr buf"
| "cobs_copy_run out_cap (Suc n) r w buf =
     (if out_cap \<le> w then Inl FROTH_ERROR_LINK_OVERFLOW
      else cobs_copy_run out_cap n (r + 1) (w + 1) (buf[w := buf ! r]))"

function cobs_decode_loop :: "nat \<Rightarrow> nat \<Rightarrow> nat \<Rightarrow> nat \<Rightarrow> byte list \<Rightarrow> (byte list \<times> nat) result" where
  "cobs_decode_loop in_len out_cap r w buf =
     (if in_len \<le> r then Inr (buf, w)
      else
        let code = buf ! r; n = unat code - 1
        in if code = 0 then Inl FROTH_ERROR_LINK_COBS_DECODE
           else if in_len < r + 1 + n then Inl FROTH_ERROR_LINK_COBS_DECODE
           else
             (case cobs_copy_run out_cap n (r + 1) w buf of
                Inl e \<Rightarrow> Inl e
              | Inr buf \<Rightarrow>
                  if code < 0xFF \<and> r + 1 + n < in_len then
                    (if out_cap \<le> w + n then Inl FROTH_ERROR_LINK_OVERFLOW
                     else cobs_decode_loop in_len out_cap (r + 1 + n) (w + n + 1) (buf[w + n := 0]))
                  else cobs_decode_loop in_len out_cap (r + 1 + n) (w + n) buf))"
  by pat_completeness auto
termination by (relation "measure (\<lambda>(in_len, out_cap, r, w, buf). in_len - r)") auto

declare cobs_decode_loop.simps [simp del]

definition frothy_control_cobs_decode :: "byte list \<Rightarrow> nat \<Rightarrow> nat \<Rightarrow> (byte list \<times> nat) result" where
  "frothy_control_cobs_decode buf in_len out_cap = cobs_decode_loop in_len out_cap 0 0 buf"

subsection \<open>Over lists\<close>

function cobs_decoded :: "byte list \<Rightarrow> byte list option" where
  "cobs_decoded [] = Some []"
| "cobs_decoded (code # bs) =
     (let n = unat code - 1; rest = drop n bs
      in if code = 0 \<or> length bs < n then None
         else if code < 0xFF \<and> rest \<noteq> [] then map_option (\<lambda>ys. take n bs @ 0 # ys) (cobs_decoded rest)
         else map_option (\<lambda>ys. take n bs @ ys) (cobs_decoded rest))"
  by pat_completeness auto
termination by (relation "measure length") auto

declare cobs_decoded.simps(2) [simp del]

text \<open>The encoding of a run of bytes that have been read and those that are left.\<close>

fun cobs_encoded :: "byte list \<Rightarrow> byte list \<Rightarrow> byte list" where
  "cobs_encoded run [] = of_nat (Suc (length run)) # run"
| "cobs_encoded run (b # bs) =
     (if b = 0 then of_nat (Suc (length run)) # run @ cobs_encoded [] bs
      else if length run = 253 then 0xFF # run @ b # cobs_encoded [] bs
      else cobs_encoded (run @ [b]) bs)"

lemma cobs_encoded_ne [simp]: "cobs_encoded run bs \<noteq> []"
  by (induction run bs rule: cobs_encoded.induct) auto

lemma run_code: "n < 254 \<Longrightarrow> unat (of_nat (Suc n) :: byte) = Suc n"
  by (simp add: unat_of_nat del: of_nat_Suc)

lemma run_code_simps:
  assumes "n < 254"
  shows "unat (of_nat (Suc n) :: byte) - 1 = n" "(of_nat (Suc n) :: byte) \<noteq> 0" "(of_nat (Suc n) :: byte) < 0xFF"
proof -
  have u: "unat (of_nat (Suc n) :: byte) = Suc n" by (rule run_code [OF assms])
  show "unat (of_nat (Suc n) :: byte) - 1 = n" by (simp only: u diff_Suc_1)
  show "(of_nat (Suc n) :: byte) \<noteq> 0"
  proof
    assume "(of_nat (Suc n) :: byte) = 0"
    then have "unat (of_nat (Suc n) :: byte) = 0" by (simp only: unat_0)
    with u show False by simp
  qed
  show "(of_nat (Suc n) :: byte) < 0xFF"
    using assms by (simp only: word_less_nat_alt u) simp
qed

lemma cobs_decoded_encoded:
  "length run < 254 \<Longrightarrow> cobs_decoded (cobs_encoded run bs) = Some (run @ bs)"
proof (induction run bs rule: cobs_encoded.induct)
  case (1 run)
  then show ?case using run_code_simps [OF 1] by (simp add: cobs_decoded.simps Let_def del: of_nat_Suc)
next
  case (2 run b bs)
  note code = run_code_simps [OF 2(4)]
  show ?case
  proof (cases "b = 0")
    case True
    then show ?thesis using 2 code by (simp add: cobs_decoded.simps Let_def del: of_nat_Suc)
  next
    case False
    then show ?thesis using 2 code by (cases "length run = 253") (simp_all add: cobs_decoded.simps Let_def del: of_nat_Suc)
  qed
qed

lemma cobs_encoded_nonzero:
  "length run < 254 \<Longrightarrow> 0 \<notin> set run \<Longrightarrow> 0 \<notin> set (cobs_encoded run bs)"
proof (induction run bs rule: cobs_encoded.induct)
  case (1 run)
  then show ?case using run_code_simps(2) [OF 1(1)] by (auto simp del: of_nat_Suc)
next
  case (2 run b bs)
  then show ?case using run_code_simps(2) [OF 2(4)] by (auto split: if_splits simp del: of_nat_Suc)
qed

lemma cobs_encoded_length:
  "length run < 254 \<Longrightarrow>
   length run + length bs + 1 \<le> length (cobs_encoded run bs) \<and>
   length (cobs_encoded run bs) \<le> length run + length bs + 1 + (length run + length bs) div 254"
proof (induction run bs rule: cobs_encoded.induct)
  case (2 run b bs)
  show ?case
  proof (cases "b = 0")
    case True
    have "length bs div 254 \<le> (length run + Suc (length bs)) div 254" by (rule div_le_mono) simp
    then show ?thesis using 2(1,4) True by simp
  next
    case False
    show ?thesis
    proof (cases "length run = 253")
      case True
      have "(254 + length bs) div 254 = length bs div 254 + 1" by simp
      then show ?thesis using 2(2) False True by (simp add: add.commute)
    next
      case False2: False
      then show ?thesis using 2(3,4) False by simp
    qed
  qed
qed simp

subsection \<open>The encoder computes the encoding, when it fits\<close>

lemma cobs_encode_loop_encoded:
  "length run < 254 \<Longrightarrow> length pre + length run + 1 \<le> cap \<Longrightarrow>
   cobs_encode_loop cap bs (pre @ x # run) (length pre) (of_nat (Suc (length run))) =
     (if length pre + length (cobs_encoded run bs) \<le> cap then Inr (pre @ cobs_encoded run bs)
      else Inl FROTH_ERROR_LINK_OVERFLOW)"
proof (induction run bs arbitrary: pre x rule: cobs_encoded.induct)
  case (2 run b bs)
  have pos: "1 \<le> length (cobs_encoded [] bs)" using cobs_encoded_ne [of "[]" bs] by (cases "cobs_encoded [] bs") auto
  show ?case
  proof (cases "b = 0")
    case True
    have step: "cobs_encode_loop cap bs (pre' @ [0]) (length pre') 1 =
       (if length pre' + length (cobs_encoded [] bs) \<le> cap then Inr (pre' @ cobs_encoded [] bs)
        else Inl FROTH_ERROR_LINK_OVERFLOW)" if "length pre' < cap" for pre'
      using 2(1) [OF True, of pre' 0] that by simp
    show ?thesis
      using True 2(5) pos step [of "pre @ of_nat (Suc (length run)) # run"]
      by (simp del: of_nat_Suc)
  next
    case False
    have ne: "(of_nat (Suc (length run)) :: byte) + 1 = of_nat (Suc (Suc (length run)))" by simp
    show ?thesis
    proof (cases "length run = 253")
      case True
      have step: "cobs_encode_loop cap bs (pre' @ [0]) (length pre') 1 =
         (if length pre' + length (cobs_encoded [] bs) \<le> cap then Inr (pre' @ cobs_encoded [] bs)
          else Inl FROTH_ERROR_LINK_OVERFLOW)" if "length pre' < cap" for pre'
        using 2(2) [OF \<open>b \<noteq> 0\<close> True, of pre' 0] that by simp
      show ?thesis
        using False True 2(5) pos step [of "pre @ 0xFF # run @ [b]"] by (simp add: ac_simps)
    next
      case more: False
      have "(of_nat (Suc (Suc (length run))) :: byte) \<noteq> 0xFF"
      proof
        assume "(of_nat (Suc (Suc (length run))) :: byte) = 0xFF"
        then have "unat (of_nat (Suc (Suc (length run))) :: byte) = 255" by simp
        then show False using run_code [of "Suc (length run)"] more 2(4) by (simp del: of_nat_Suc)
      qed
      then show ?thesis
        using False more 2(3) [OF False more, of pre x] 2(4,5)
        cobs_encoded_length [of "run @ [b]" bs]
        by (auto simp del: of_nat_Suc simp: ne)
    qed
  qed
qed (simp del: of_nat_Suc)

lemma frothy_control_cobs_encode_encoded:
  assumes "1 \<le> cap"
  shows "frothy_control_cobs_encode bs cap =
    (if length (cobs_encoded [] bs) \<le> cap then Inr (cobs_encoded [] bs) else Inl FROTH_ERROR_LINK_OVERFLOW)"
  using cobs_encode_loop_encoded [of "[]" "[]" cap bs 0] assms by (simp add: frothy_control_cobs_encode_def)

subsection \<open>The decoder in place computes the list decoder\<close>

lemma store_at_update_Cons:
  "w < length buf \<Longrightarrow> store_at (buf[w := b]) (Suc w) xs = store_at buf w (b # xs)"
  by (simp add: store_at_def take_Suc_conv_app_nth drop_update_cancel)

lemma store_at_append:
  "w + length xs \<le> length buf \<Longrightarrow> store_at (store_at buf w xs) (w + length xs) ys = store_at buf w (xs @ ys)"
  by (simp add: store_at_def ac_simps)

lemma drop_store_at: "w + length xs \<le> r \<Longrightarrow> r \<le> length buf \<Longrightarrow> drop r (store_at buf w xs) = drop r buf"
  by (simp add: store_at_def)

lemma cobs_copy_run_eq:
  "w \<le> r \<Longrightarrow> r + n \<le> length buf \<Longrightarrow> w + n \<le> cap \<Longrightarrow>
   cobs_copy_run cap n r w buf = Inr (store_at buf w (take n (drop r buf)))"
proof (induction n arbitrary: r w buf)
  case 0
  then show ?case by (simp add: store_at_def)
next
  case (Suc n)
  have "take (Suc n) (drop r buf) = buf ! r # take n (drop (Suc r) buf)"
    using Suc.prems by (simp add: Cons_nth_drop_Suc [symmetric])
  then show ?case using Suc by (simp add: store_at_update_Cons)
qed

lemma cobs_decoded_le: "cobs_decoded bs = Some ys \<Longrightarrow> length ys \<le> length bs"
proof (induction bs arbitrary: ys rule: cobs_decoded.induct)
  case (2 code bs)
  then show ?case
    by (fastforce simp: cobs_decoded.simps Let_def split: if_splits)
qed simp


lemma cobs_decode_loop_eq:
  "w \<le> r \<Longrightarrow> r \<le> in_len \<Longrightarrow> in_len \<le> length buf \<Longrightarrow> in_len \<le> cap \<Longrightarrow>
   cobs_decode_loop in_len cap r w buf =
     (case cobs_decoded (load_at buf r (in_len - r)) of
        None \<Rightarrow> Inl FROTH_ERROR_LINK_COBS_DECODE
      | Some ys \<Rightarrow> Inr (store_at buf w ys, w + length ys))"
proof (induction in_len cap r w buf rule: cobs_decode_loop.induct)
  case (1 in_len cap r w buf)
  show ?case
  proof (cases "in_len \<le> r")
    case True
    then show ?thesis using 1(4) by (simp add: cobs_decode_loop.simps load_at_def store_at_def)
  next
    case False
    define code where "code = buf ! r"
    define n where "n = unat code - 1"
    define bs where "bs = load_at buf (Suc r) (in_len - Suc r)"
    have input: "load_at buf r (in_len - r) = code # bs"
      using False 1(5) unfolding code_def bs_def load_at_def
      by (metis Cons_nth_drop_Suc Suc_diff_Suc less_le_trans linorder_not_le take_Suc_Cons)
    have len: "length bs = in_len - Suc r" using 1(5) by (simp add: bs_def length_load_at)
    have unfold: "cobs_decode_loop in_len cap r w buf =
       (if code = 0 then Inl FROTH_ERROR_LINK_COBS_DECODE
        else if in_len < r + 1 + n then Inl FROTH_ERROR_LINK_COBS_DECODE
        else (case cobs_copy_run cap n (r + 1) w buf of
                Inl e \<Rightarrow> Inl e
              | Inr buf \<Rightarrow>
                  if code < 0xFF \<and> r + 1 + n < in_len then
                    (if cap \<le> w + n then Inl FROTH_ERROR_LINK_OVERFLOW
                     else cobs_decode_loop in_len cap (r + 1 + n) (w + n + 1) (buf[w + n := 0]))
                  else cobs_decode_loop in_len cap (r + 1 + n) (w + n) buf))"
      using False by (subst cobs_decode_loop.simps) (simp only: Let_def code_def n_def if_False)
    have spec: "cobs_decoded (code # bs) =
       (if code = 0 \<or> length bs < n then None
        else if code < 0xFF \<and> drop n bs \<noteq> [] then map_option (\<lambda>ys. take n bs @ 0 # ys) (cobs_decoded (drop n bs))
        else map_option (\<lambda>ys. take n bs @ ys) (cobs_decoded (drop n bs)))"
      by (simp only: cobs_decoded.simps Let_def n_def)
    show ?thesis
    proof (cases "code = 0 \<or> length bs < n")
      case True
      then show ?thesis using False len unfolding input spec unfold by auto
    next
      case ok: False
      then have fits: "r + 1 + n \<le> in_len" using len False by auto
      define buf1 where "buf1 = store_at buf w (take n bs)"
      have run: "take n (drop (r + 1) buf) = take n bs"
        using fits by (simp add: bs_def load_at_def min_def)
      have copy: "cobs_copy_run cap n (r + 1) w buf = Inr buf1"
        using cobs_copy_run_eq [of w "r + 1" n buf cap] 1(3,5,6) fits run by (simp add: buf1_def)
      have n_bs: "length (take n bs) = n" using ok by simp
      have len1: "length buf1 = length buf" using n_bs fits 1(3,5) by (simp add: buf1_def)
      have rest1: "load_at (store_at buf w xs) (r + 1 + n) (in_len - (r + 1 + n)) = drop n bs"
        if "length xs \<le> Suc n" for xs
        using that fits 1(3,5) by (simp add: load_at_def bs_def drop_store_at drop_take add.commute)
      show ?thesis
      proof (cases "code < 0xFF \<and> r + 1 + n < in_len")
        case True
        then have ne: "drop n bs \<noteq> []" using len by auto
        define buf2 where "buf2 = store_at buf w (take n bs @ [0])"
        have z: "buf1[w + n := 0] = buf2"
          using store_at_append [of w "take n bs" buf "[0]"] n_bs fits 1(3,5) True len1
          by (simp add: buf1_def buf2_def store_at_def upd_conv_take_nth_drop)
        have len2: "length buf2 = length buf" using n_bs fits 1(3,5) True by (simp add: buf2_def)
        have app: "store_at buf2 (w + n + 1) ys = store_at buf w (take n bs @ 0 # ys)" for ys
          using store_at_append [of w "take n bs @ [0]" buf ys] n_bs fits 1(3,5) True by (simp add: buf2_def)
        have IH: "cobs_decode_loop in_len cap (r + 1 + n) (w + n + 1) buf2 =
          (case cobs_decoded (drop n bs) of
             None \<Rightarrow> Inl FROTH_ERROR_LINK_COBS_DECODE
           | Some ys \<Rightarrow> Inr (store_at buf2 (w + n + 1) ys, w + n + 1 + length ys))"
          using 1(1) [OF False code_def n_def _ _ copy True] ok fits True 1(3,5,6) len2 n_bs
            rest1 [of "take n bs @ [0]"] by (simp add: z flip: buf2_def split: option.splits)
        show ?thesis
          using ok fits True 1(3,6) n_bs ne IH app
          unfolding input spec unfold copy
          by (auto simp: z split: option.splits)
      next
        case stop: False
        then have stop': "\<not> (code < 0xFF \<and> drop n bs \<noteq> [])" using len by auto
        have app: "store_at buf1 (w + n) ys = store_at buf w (take n bs @ ys)" for ys
          using store_at_append [of w "take n bs" buf ys] n_bs fits 1(3,5) by (simp add: buf1_def)
        have IH: "cobs_decode_loop in_len cap (r + 1 + n) (w + n) buf1 =
          (case cobs_decoded (drop n bs) of
             None \<Rightarrow> Inl FROTH_ERROR_LINK_COBS_DECODE
           | Some ys \<Rightarrow> Inr (store_at buf1 (w + n) ys, w + n + length ys))"
          using 1(2) [OF False code_def n_def _ _ copy stop] ok fits 1(3,5,6) len1 n_bs
            rest1 [of "take n bs"] by (simp flip: buf1_def split: option.splits)
        show ?thesis
          using ok fits stop stop' n_bs IH app
          unfolding input spec unfold copy
          by (auto split: option.splits)
      qed
    qed
  qed
qed

lemma frothy_control_cobs_decode_eq:
  assumes "in_len \<le> length buf" "in_len \<le> cap"
  shows "frothy_control_cobs_decode buf in_len cap =
    (case cobs_decoded (take in_len buf) of
       None \<Rightarrow> Inl FROTH_ERROR_LINK_COBS_DECODE
     | Some ys \<Rightarrow> Inr (store_at buf 0 ys, length ys))"
  using cobs_decode_loop_eq [of 0 0 in_len buf cap] assms
  by (simp add: frothy_control_cobs_decode_def load_at_def split: option.splits)

lemma cobs_encoded_bound:
  "length bs \<le> 1044 \<Longrightarrow> length (cobs_encoded [] bs) \<le> 1049"
  using cobs_encoded_length [of "[]" bs] div_le_mono [of "length bs" 1044 254] by simp

text \<open>The byte stuffing of the control link is lossless and never overflows on a frame: whatever bytes
  a raw frame of at most 1044 holds, the encoder succeeds within the 1049 bytes of its buffer, its
  output has no zero byte (the frame delimiter) and at least one byte more than the input, and the
  decoder, run in place on a buffer that starts with that output, leaves exactly the raw bytes at the
  front of the buffer, reports their length and touches nothing behind them.\<close>

theorem cobs_roundtrip:
  assumes "length raw \<le> 1044"
  shows "\<exists>cs. frothy_control_cobs_encode raw 1049 = Inr cs \<and>
    0 \<notin> set cs \<and> length raw < length cs \<and> length cs \<le> 1049 \<and>
    (\<forall>rest cap. length cs \<le> cap \<longrightarrow>
       frothy_control_cobs_decode (cs @ rest) (length cs) cap =
         Inr (raw @ drop (length raw) (cs @ rest), length raw))"
proof -
  define cs where "cs = cobs_encoded [] raw"
  have enc: "frothy_control_cobs_encode raw 1049 = Inr cs"
    using cobs_encoded_bound [OF assms] by (simp add: frothy_control_cobs_encode_encoded cs_def)
  have "frothy_control_cobs_decode (cs @ rest) (length cs) cap = Inr (raw @ drop (length raw) (cs @ rest), length raw)"
    if "length cs \<le> cap" for rest cap
    using that cobs_decoded_encoded [of "[]" raw]
    by (simp add: frothy_control_cobs_decode_eq cs_def store_at_def)
  then show ?thesis
    using enc cobs_encoded_nonzero [of "[]" raw] cobs_encoded_length [of "[]" raw] cobs_encoded_bound [OF assms]
    by (auto simp: cs_def)
qed

end
