(* ===== verification/Frothy_Link.thy ===== *)
theory Frothy_Link
  imports Frothy_Cobs Froth_Crc
begin

section \<open>Frames of the control link (frothy_control.c)\<close>

text \<open>
  Payload writers and readers, the frame header with its checksum, the wire form of a frame
  (\<open>0x00\<close>, stuffed bytes, \<open>0x00\<close>), sending and receiving. The line is a record: the bytes that have
  gone out and how many more it takes before a write fails (\<^verbatim>\<open>platform_emit_raw\<close> fails with the I/O
  error). Input is a list of key events, one for each return of \<^verbatim>\<open>platform_key\<close>; a list that runs out while the
  reader waits is a reader that still waits (\<open>None\<close>). Positions and lengths are \<open>nat\<close>: they stay
  below 1050, far from the wrap of the code's 16 bits. The one sum that can wrap, the total length
  computed from a payload length, is kept at its width.
\<close>

definition FROTH_LINK_MAX_PAYLOAD :: nat where "FROTH_LINK_MAX_PAYLOAD = 1024"
definition FROTHY_CONTROL_FRAME_HEADER_SIZE :: nat where "FROTHY_CONTROL_FRAME_HEADER_SIZE = 20"
definition FROTHY_CONTROL_FRAME_MAX_RAW :: nat where
  "FROTHY_CONTROL_FRAME_MAX_RAW = FROTHY_CONTROL_FRAME_HEADER_SIZE + FROTH_LINK_MAX_PAYLOAD"
definition FROTHY_CONTROL_FRAME_MAX_COBS :: nat where
  "FROTHY_CONTROL_FRAME_MAX_COBS = FROTHY_CONTROL_FRAME_MAX_RAW + FROTHY_CONTROL_FRAME_MAX_RAW div 254 + 1"

lemmas link_sizes = FROTH_LINK_MAX_PAYLOAD_def FROTHY_CONTROL_FRAME_HEADER_SIZE_def
  FROTHY_CONTROL_FRAME_MAX_RAW_def FROTHY_CONTROL_FRAME_MAX_COBS_def

subsection \<open>Writing a payload\<close>

text \<open>The bytes written so far, below a capacity; the position is their number.\<close>

record frothy_control_writer_t =
  writer_buf :: "byte list"
  writer_cap :: nat

definition writer_put :: "byte list \<Rightarrow> frothy_control_writer_t \<Rightarrow> frothy_control_writer_t result" where
  "writer_put bytes writer =
     (if writer_cap writer < length (writer_buf writer) + length bytes then Inl FROTH_ERROR_LINK_OVERFLOW
      else Inr (writer\<lparr>writer_buf := writer_buf writer @ bytes\<rparr>))"

definition frothy_control_writer_u8 ::
  "byte \<Rightarrow> frothy_control_writer_t \<Rightarrow> frothy_control_writer_t result" where
  "frothy_control_writer_u8 v writer = writer_put [v] writer"

definition frothy_control_writer_u16 ::
  "16 word \<Rightarrow> frothy_control_writer_t \<Rightarrow> frothy_control_writer_t result" where
  "frothy_control_writer_u16 v writer = writer_put (le16 v) writer"

definition frothy_control_writer_u32 ::
  "32 word \<Rightarrow> frothy_control_writer_t \<Rightarrow> frothy_control_writer_t result" where
  "frothy_control_writer_u32 v writer = writer_put (le32 v) writer"

definition frothy_control_writer_bytes ::
  "byte list \<Rightarrow> frothy_control_writer_t \<Rightarrow> frothy_control_writer_t result" where
  "frothy_control_writer_bytes bytes writer = writer_put bytes writer"

definition frothy_control_writer_str ::
  "byte list \<Rightarrow> frothy_control_writer_t \<Rightarrow> frothy_control_writer_t result" where
  "frothy_control_writer_str s writer =
     (if UINT16_MAX < length s then Inl FROTH_ERROR_LINK_TOO_LARGE
      else FROTH_TRY (frothy_control_writer_u16 (of_nat (length s)) writer)
             (frothy_control_writer_bytes s))"

subsection \<open>Reading a payload\<close>

record frothy_control_reader_t =
  reader_data :: "byte list"
  reader_len :: nat
  reader_pos :: nat

definition frothy_control_reader_u16 ::
  "frothy_control_reader_t \<Rightarrow> (16 word \<times> frothy_control_reader_t) result" where
  "frothy_control_reader_u16 reader =
     (let pos = reader_pos reader in
      if reader_len reader < pos + 2 then Inl FROTH_ERROR_LINK_COBS_DECODE
      else Inr (of_le16 (reader_data reader ! pos) (reader_data reader ! (pos + 1)),
                reader\<lparr>reader_pos := pos + 2\<rparr>))"

text \<open>The copy is the bytes and a closing NUL; \<open>malloc_ok\<close> tells whether an allocation succeeds.\<close>

definition frothy_control_reader_str_dup ::
  "(nat \<Rightarrow> bool) \<Rightarrow> frothy_control_reader_t \<Rightarrow> (byte list \<times> frothy_control_reader_t) result" where
  "frothy_control_reader_str_dup malloc_ok reader =
     FROTH_TRY (frothy_control_reader_u16 reader) (\<lambda>(len, reader).
       if reader_len reader < reader_pos reader + unat len then Inl FROTH_ERROR_LINK_COBS_DECODE
       else if \<not> malloc_ok (unat len + 1) then Inl FROTH_ERROR_HEAP_OUT_OF_MEMORY
       else Inr (load_at (reader_data reader) (reader_pos reader) (unat len) @ [0],
                 reader\<lparr>reader_pos := reader_pos reader + unat len\<rparr>))"

subsection \<open>Frames\<close>

record frothy_control_frame_header_t =
  hdr_magic :: "byte \<times> byte"
  hdr_version :: byte
  hdr_message_type :: byte
  hdr_session_id :: "64 word"
  hdr_seq :: "16 word"
  hdr_payload_length :: "16 word"
  hdr_crc32 :: "32 word"

definition FROTHY_CONTROL_FRAME_MAGIC_0 :: byte where "FROTHY_CONTROL_FRAME_MAGIC_0 = 0x46"
definition FROTHY_CONTROL_FRAME_MAGIC_1 :: byte where "FROTHY_CONTROL_FRAME_MAGIC_1 = 0x4C"
definition FROTHY_CONTROL_FRAME_VERSION :: byte where "FROTHY_CONTROL_FRAME_VERSION = 2"

lemmas frame_constants = FROTHY_CONTROL_FRAME_MAGIC_0_def FROTHY_CONTROL_FRAME_MAGIC_1_def
  FROTHY_CONTROL_FRAME_VERSION_def

definition frothy_control_write_u64 :: "64 word \<Rightarrow> byte list" where
  "frothy_control_write_u64 v =
     [ucast (v AND 0xFF), ucast (drop_bit 8 v AND 0xFF), ucast (drop_bit 16 v AND 0xFF),
      ucast (drop_bit 24 v AND 0xFF), ucast (drop_bit 32 v AND 0xFF), ucast (drop_bit 40 v AND 0xFF),
      ucast (drop_bit 48 v AND 0xFF), ucast (drop_bit 56 v AND 0xFF)]"

definition frothy_control_read_u64 :: "byte list \<Rightarrow> 64 word" where
  "frothy_control_read_u64 b =
     ucast (b ! 0) OR push_bit 8 (ucast (b ! 1)) OR push_bit 16 (ucast (b ! 2)) OR
     push_bit 24 (ucast (b ! 3)) OR push_bit 32 (ucast (b ! 4)) OR push_bit 40 (ucast (b ! 5)) OR
     push_bit 48 (ucast (b ! 6)) OR push_bit 56 (ucast (b ! 7))"

definition frothy_control_read_u16 :: "byte list \<Rightarrow> 16 word" where
  "frothy_control_read_u16 b = of_le16 (b ! 0) (b ! 1)"

definition frothy_control_read_u32 :: "byte list \<Rightarrow> 32 word" where
  "frothy_control_read_u32 b = of_le32 (b ! 0) (b ! 1) (b ! 2) (b ! 3)"

definition frothy_control_frame_crc :: "byte list \<Rightarrow> byte list \<Rightarrow> 32 word" where
  "frothy_control_frame_crc header payload =
     froth_crc32_update (froth_crc32_update 0xFFFFFFFF (take 16 header)) payload XOR 0xFFFFFFFF"

definition frothy_control_frame_parse ::
  "byte list \<Rightarrow> nat \<Rightarrow> (frothy_control_frame_header_t \<times> byte list) result" where
  "frothy_control_frame_parse frame frame_len =
     (if frame_len < FROTHY_CONTROL_FRAME_HEADER_SIZE then Inl FROTH_ERROR_LINK_COBS_DECODE
      else if frame ! 0 \<noteq> FROTHY_CONTROL_FRAME_MAGIC_0 \<or> frame ! 1 \<noteq> FROTHY_CONTROL_FRAME_MAGIC_1
      then Inl FROTH_ERROR_LINK_BAD_MAGIC
      else if frame ! 2 \<noteq> FROTHY_CONTROL_FRAME_VERSION then Inl FROTH_ERROR_LINK_BAD_VERSION
      else
        let header = \<lparr>hdr_magic = (frame ! 0, frame ! 1), hdr_version = frame ! 2, hdr_message_type = frame ! 3,
              hdr_session_id = frothy_control_read_u64 (drop 4 frame),
              hdr_seq = frothy_control_read_u16 (drop 12 frame),
              hdr_payload_length = frothy_control_read_u16 (drop 14 frame),
              hdr_crc32 = frothy_control_read_u32 (drop 16 frame)\<rparr>
        in if FROTH_LINK_MAX_PAYLOAD < unat (hdr_payload_length header) then Inl FROTH_ERROR_LINK_TOO_LARGE
           else if unat (of_nat FROTHY_CONTROL_FRAME_HEADER_SIZE + hdr_payload_length header) \<noteq> frame_len
           then Inl FROTH_ERROR_LINK_COBS_DECODE
           else
             let payload = load_at frame FROTHY_CONTROL_FRAME_HEADER_SIZE (unat (hdr_payload_length header))
             in if frothy_control_frame_crc frame payload \<noteq> hdr_crc32 header then Inl FROTH_ERROR_LINK_BAD_CRC
                else Inr (header, payload))"

text \<open>The first sixteen bytes, over which the checksum runs together with the payload.\<close>

definition frame_prefix :: "64 word \<Rightarrow> byte \<Rightarrow> 16 word \<Rightarrow> 16 word \<Rightarrow> byte list" where
  "frame_prefix sid mtype sq len =
     [FROTHY_CONTROL_FRAME_MAGIC_0, FROTHY_CONTROL_FRAME_MAGIC_1, FROTHY_CONTROL_FRAME_VERSION, mtype] @
     frothy_control_write_u64 sid @ le16 sq @ le16 len"

definition frothy_control_frame_build ::
  "64 word \<Rightarrow> byte \<Rightarrow> 16 word \<Rightarrow> byte list \<Rightarrow> nat \<Rightarrow> byte list result" where
  "frothy_control_frame_build sid mtype sq payload out_cap =
     (let payload_len = of_nat (length payload) :: 16 word;
          total = of_nat FROTHY_CONTROL_FRAME_HEADER_SIZE + payload_len;
          prefix = frame_prefix sid mtype sq payload_len
      in if out_cap < unat total then Inl FROTH_ERROR_LINK_OVERFLOW
         else Inr (prefix @ le32 (frothy_control_frame_crc prefix payload) @ payload))"

subsection \<open>Sending\<close>

record line =
  tx :: "byte list"
  tx_room :: nat

definition platform_emit_raw :: "byte \<Rightarrow> line \<Rightarrow> unit result \<times> line" where
  "platform_emit_raw b ln =
     (if tx_room ln = 0 then (Inl FROTH_ERROR_IO, ln)
      else (Inr (), ln\<lparr>tx := tx ln @ [b], tx_room := tx_room ln - 1\<rparr>))"

fun emit_bytes :: "byte list \<Rightarrow> line \<Rightarrow> unit result \<times> line" where
  "emit_bytes [] ln = (Inr (), ln)"
| "emit_bytes (b # bs) ln =
     (case platform_emit_raw b ln of (Inl e, ln) \<Rightarrow> (Inl e, ln) | (Inr _, ln) \<Rightarrow> emit_bytes bs ln)"

definition frothy_control_send_frame ::
  "64 word \<Rightarrow> byte \<Rightarrow> 16 word \<Rightarrow> byte list \<Rightarrow> line \<Rightarrow> unit result \<times> line" where
  "frothy_control_send_frame sid mtype sq payload ln =
     (case frothy_control_frame_build sid mtype sq payload FROTHY_CONTROL_FRAME_MAX_RAW of
        Inl e \<Rightarrow> (Inl e, ln)
      | Inr raw \<Rightarrow>
         (case frothy_control_cobs_encode raw FROTHY_CONTROL_FRAME_MAX_COBS of
            Inl e \<Rightarrow> (Inl e, ln)
          | Inr stuffed \<Rightarrow>
             (case platform_emit_raw 0 ln of
                (Inl e, ln) \<Rightarrow> (Inl e, ln)
              | (Inr _, ln) \<Rightarrow>
                 (case emit_bytes stuffed ln of
                    (Inl e, ln) \<Rightarrow> (Inl e, ln)
                  | (Inr _, ln) \<Rightarrow> platform_emit_raw 0 ln))))"

subsection \<open>Receiving\<close>

text \<open>One return of \<^verbatim>\<open>platform_key\<close>: a byte, or a failure with what the reader then finds, the interrupt
  flag (which it clears) and whether the input is closed.\<close>

datatype key_event = KEY byte | KEY_FAILED bool bool

record rx_state =
  rx_frame :: "byte list"
  rx_pos :: nat
  rx_overflow :: bool

definition frothy_control_frame_reset :: "rx_state \<Rightarrow> rx_state" where
  "frothy_control_frame_reset rx = rx\<lparr>rx_pos := 0, rx_overflow := False\<rparr>"

definition frothy_control_frame_push_byte :: "byte \<Rightarrow> rx_state \<Rightarrow> rx_state" where
  "frothy_control_frame_push_byte b rx =
     (if FROTHY_CONTROL_FRAME_MAX_COBS \<le> rx_pos rx then rx\<lparr>rx_overflow := True\<rparr>
      else rx\<lparr>rx_frame := (rx_frame rx)[rx_pos rx := b], rx_pos := rx_pos rx + 1\<rparr>)"

definition frothy_control_frame_decode ::
  "rx_state \<Rightarrow> (frothy_control_frame_header_t \<times> byte list) result \<times> rx_state" where
  "frothy_control_frame_decode rx =
     (if rx_overflow rx \<or> rx_pos rx = 0
      then (Inl FROTH_ERROR_LINK_COBS_DECODE, frothy_control_frame_reset rx)
      else
        case frothy_control_cobs_decode (rx_frame rx) (rx_pos rx) FROTHY_CONTROL_FRAME_MAX_COBS of
          Inl e \<Rightarrow> (Inl e, frothy_control_frame_reset rx)
        | Inr (buf, decoded_len) \<Rightarrow>
            let rx = rx\<lparr>rx_frame := buf\<rparr> in
            case frothy_control_frame_parse buf decoded_len of
              Inl e \<Rightarrow> (Inl e, frothy_control_frame_reset rx)
            | Inr parsed \<Rightarrow> (Inr parsed, rx))"

fun read_frame_loop ::
  "bool \<Rightarrow> rx_state \<Rightarrow> key_event list \<Rightarrow>
   ((frothy_control_frame_header_t \<times> byte list) result \<times> rx_state \<times> key_event list) option" where
  "read_frame_loop in_frame rx [] = None"
| "read_frame_loop in_frame rx (KEY_FAILED interrupted input_closed # keys) =
     (if interrupted then Some (Inl FROTH_ERROR_PROGRAM_INTERRUPTED, frothy_control_frame_reset rx, keys)
      else if input_closed then Some (Inl FROTH_ERROR_IO, frothy_control_frame_reset rx, keys)
      else read_frame_loop in_frame rx keys)"
| "read_frame_loop in_frame rx (KEY b # keys) =
     (if \<not> in_frame \<and> b = 0x03
      then Some (Inl FROTH_ERROR_PROGRAM_INTERRUPTED, frothy_control_frame_reset rx, keys)
      else if \<not> in_frame then
        (if b = 0 then read_frame_loop True (frothy_control_frame_reset rx) keys
         else read_frame_loop False rx keys)
      else if b = 0 then
        (let (r, rx) = frothy_control_frame_decode rx; rx = frothy_control_frame_reset rx in
         case r of Inl e \<Rightarrow> read_frame_loop False rx keys | Inr parsed \<Rightarrow> Some (Inr parsed, rx, keys))
      else read_frame_loop True (frothy_control_frame_push_byte b rx) keys)"

definition frothy_control_read_frame ::
  "rx_state \<Rightarrow> key_event list \<Rightarrow>
   ((frothy_control_frame_header_t \<times> byte list) result \<times> rx_state \<times> key_event list) option" where
  "frothy_control_read_frame rx keys = read_frame_loop False (frothy_control_frame_reset rx) keys"

text \<open>The receive buffer is a static array of fixed size.\<close>

definition rx_wf :: "rx_state \<Rightarrow> bool" where
  "rx_wf rx \<longleftrightarrow> length (rx_frame rx) = FROTHY_CONTROL_FRAME_MAX_COBS \<and> rx_pos rx \<le> FROTHY_CONTROL_FRAME_MAX_COBS"

end
