(* ===== verification/Frothy_Link_Frames.thy ===== *)
theory Frothy_Link_Frames
  imports Frothy_Link
begin

section \<open>Which frames are accepted\<close>

lemma half_cases: "n < LENGTH(64) \<Longrightarrow> n < 32 \<or> (\<exists>m. n = m + 32 \<and> m < 32)"
  by (auto simp: le_iff_add add.commute) presburger

text \<open>Eight bytes are two halves of four.\<close>

lemma read_u64_halves:
  "frothy_control_read_u64 b =
     ucast (of_le32 (b ! 0) (b ! 1) (b ! 2) (b ! 3)) OR
     push_bit 32 (ucast (of_le32 (b ! 4) (b ! 5) (b ! 6) (b ! 7)))"
proof (rule bit_word_eqI)
  fix n assume n: "n < LENGTH(64)"
  have byte: "(m < 32 \<and> bit (b ! k) m) = bit (b ! k) m" "(m < 64 \<and> bit (b ! k) m) = bit (b ! k) m" for k m
    using bit_imp_le_length [of "b ! k" m] by auto
  show "bit (frothy_control_read_u64 b) n = bit (ucast (of_le32 (b ! 0) (b ! 1) (b ! 2) (b ! 3)) OR
     push_bit 32 (ucast (of_le32 (b ! 4) (b ! 5) (b ! 6) (b ! 7))) :: 64 word) n"
    using half_cases [OF n] by (elim disjE exE)
      (simp_all add: frothy_control_read_u64_def of_le32_def bit_or_iff bit_push_bit_iff bit_ucast_iff
        byte_bit_high byte)
qed

lemma write_u64_halves:
  "frothy_control_write_u64 v = le32 (ucast v) @ le32 (ucast (drop_bit 32 v))"
proof -
  have low: "(ucast (drop_bit k (ucast v :: 32 word)) :: byte) = ucast (drop_bit k v)" if "k \<le> 24" for k
    using that by (intro bit_word_eqI) (simp add: bit_ucast_iff bit_drop_bit_eq)
  have high: "(ucast (drop_bit k (ucast (drop_bit 32 v) :: 32 word)) :: byte) = ucast (drop_bit (32 + k) v)"
    if "k \<le> 24" for k
    using that by (intro bit_word_eqI) (simp add: bit_ucast_iff bit_drop_bit_eq ac_simps)
  show ?thesis
    using low [of 0] high [of 0]
    by (simp add: frothy_control_write_u64_def le32_def ucast_and_0xFF low high)
qed

lemma halves_join:
  "ucast (ucast v :: 32 word) OR push_bit 32 (ucast (ucast (drop_bit 32 v) :: 32 word)) = (v :: 64 word)"
proof (rule bit_word_eqI)
  fix n assume n: "n < LENGTH(64)"
  show "bit (ucast (ucast v :: 32 word) OR push_bit 32 (ucast (ucast (drop_bit 32 v) :: 32 word)) :: 64 word) n = bit v n"
    using half_cases [OF n] by (elim disjE exE)
      (simp_all add: bit_or_iff bit_push_bit_iff bit_ucast_iff bit_drop_bit_eq add.commute)
qed

lemma halves_split:
  "ucast (ucast x OR push_bit 32 (ucast y) :: 64 word) = (x :: 32 word)"
  "ucast (drop_bit 32 (ucast x OR push_bit 32 (ucast y) :: 64 word)) = (y :: 32 word)"
  by (rule bit_word_eqI; use bit_imp_le_length [of x] in
        \<open>force simp add: bit_or_iff bit_push_bit_iff bit_ucast_iff bit_drop_bit_eq\<close>)+

lemma nth_le32:
  "of_le32 (le32 v ! 0) (le32 v ! Suc 0) (le32 v ! 2) (le32 v ! 3) = v"
  by (simp add: le32_def)

lemma read_write_u64 [simp, word_bytes]: "frothy_control_read_u64 (frothy_control_write_u64 v @ rest) = v"
  using halves_join [of v]
  by (simp add: read_u64_halves write_u64_halves nth_append nth_le32)

lemma write_read_u64:
  assumes "8 \<le> length bs"
  shows "frothy_control_write_u64 (frothy_control_read_u64 bs) = take 8 bs"
proof -
  obtain a b c d e f g h rest where bs: "bs = [a, b, c, d, e, f, g, h] @ rest"
    using assms by (auto simp: numeral_eq_Suc Suc_le_length_iff)
  show ?thesis unfolding read_u64_halves write_u64_halves halves_split by (simp add: bs)
qed

lemma length_write_u64 [simp]: "length (frothy_control_write_u64 v) = 8"
  by (simp add: frothy_control_write_u64_def)

lemma length_frame_prefix [simp]: "length (frame_prefix sid mtype sq len) = 16"
  by (simp add: frame_prefix_def)

subsection \<open>A built frame\<close>

definition frame_of :: "64 word \<Rightarrow> byte \<Rightarrow> 16 word \<Rightarrow> byte list \<Rightarrow> byte list" where
  "frame_of sid mtype sq payload =
     frame_prefix sid mtype sq (of_nat (length payload)) @
     le32 (froth_crc32 (frame_prefix sid mtype sq (of_nat (length payload)) @ payload)) @ payload"

lemma length_frame_of [simp]: "length (frame_of sid mtype sq payload) = 20 + length payload"
  by (simp add: frame_of_def)

lemma frame_crc_eq: "length prefix = 16 \<Longrightarrow> frothy_control_frame_crc (prefix @ rest) payload = froth_crc32 (prefix @ payload)"
  by (simp add: frothy_control_frame_crc_def froth_crc32_def)

lemma payload_len_unat [simp]:
  assumes "n \<le> 1024"
  shows "unat (of_nat n :: 16 word) = n" "unat (20 + of_nat n :: 16 word) = 20 + n"
proof -
  have "20 + of_nat n = (of_nat (20 + n) :: 16 word)" by simp
  then show "unat (of_nat n :: 16 word) = n" "unat (20 + of_nat n :: 16 word) = 20 + n"
    using assms by (simp_all only: unat_of_nat) simp_all
qed

lemma frothy_control_frame_build_eq:
  assumes "length payload \<le> 1024"
  shows "frothy_control_frame_build sid mtype sq payload cap =
    (if cap < 20 + length payload then Inl FROTH_ERROR_LINK_OVERFLOW else Inr (frame_of sid mtype sq payload))"
  using assms frame_crc_eq [of _ "[]"]
  by (simp add: frothy_control_frame_build_def link_sizes Let_def frame_of_def)

definition header_of :: "64 word \<Rightarrow> byte \<Rightarrow> 16 word \<Rightarrow> byte list \<Rightarrow> frothy_control_frame_header_t" where
  "header_of sid mtype sq payload =
     \<lparr>hdr_magic = (FROTHY_CONTROL_FRAME_MAGIC_0, FROTHY_CONTROL_FRAME_MAGIC_1),
      hdr_version = FROTHY_CONTROL_FRAME_VERSION, hdr_message_type = mtype, hdr_session_id = sid,
      hdr_seq = sq, hdr_payload_length = of_nat (length payload),
      hdr_crc32 = froth_crc32 (frame_prefix sid mtype sq (of_nat (length payload)) @ payload)\<rparr>"

lemma header_of_simps [simp]:
  "hdr_message_type (header_of sid mtype sq payload) = mtype"
  "hdr_session_id (header_of sid mtype sq payload) = sid"
  "hdr_seq (header_of sid mtype sq payload) = sq"
  "hdr_payload_length (header_of sid mtype sq payload) = of_nat (length payload)"
  by (simp_all add: header_of_def)

lemma le16_hd: "le16 v @ rest = ucast (v AND 0xFF) # ucast (drop_bit 8 v AND 0xFF) # rest"
  by (simp add: le16_def)

lemma le32_hd: "le32 v @ rest = ucast (v AND 0xFF) # ucast (drop_bit 8 v AND 0xFF) #
    ucast (drop_bit 16 v AND 0xFF) # ucast (drop_bit 24 v AND 0xFF) # rest"
  by (simp add: le32_def)

lemma header_read_written [simp]:
  "frothy_control_read_u16 (le16 v @ rest) = v"
  "frothy_control_read_u32 (le32 w @ rest) = w"
  by (simp_all add: frothy_control_read_u16_def frothy_control_read_u32_def le16_hd le32_hd)

lemma frothy_control_frame_parse_built:
  assumes "length payload \<le> 1024"
  shows "frothy_control_frame_parse (frame_of sid mtype sq payload @ rest) (20 + length payload) =
    Inr (header_of sid mtype sq payload, payload)"
proof -
  let ?len = "of_nat (length payload) :: 16 word"
  let ?crc = "froth_crc32 (frame_prefix sid mtype sq ?len @ payload)"
  let ?f = "frame_of sid mtype sq payload @ rest"
  have f: "?f = frame_prefix sid mtype sq ?len @ le32 ?crc @ payload @ rest"
    by (simp add: frame_of_def)
  have heads: "?f ! 0 = FROTHY_CONTROL_FRAME_MAGIC_0" "?f ! 1 = FROTHY_CONTROL_FRAME_MAGIC_1"
    "?f ! 2 = FROTHY_CONTROL_FRAME_VERSION" "?f ! 3 = mtype"
    by (simp_all add: frame_of_def frame_prefix_def)
  have "drop 4 ?f = frothy_control_write_u64 sid @ le16 sq @ le16 ?len @ le32 ?crc @ payload @ rest"
    "drop 12 ?f = le16 sq @ le16 ?len @ le32 ?crc @ payload @ rest"
    "drop 14 ?f = le16 ?len @ le32 ?crc @ payload @ rest"
    by (simp_all add: frame_of_def frame_prefix_def)
  moreover have "drop 16 ?f = le32 ?crc @ payload @ rest" unfolding f by simp
  ultimately have reads: "frothy_control_read_u64 (drop 4 ?f) = sid"
    "frothy_control_read_u16 (drop 12 ?f) = sq" "frothy_control_read_u16 (drop 14 ?f) = ?len"
    "frothy_control_read_u32 (drop 16 ?f) = ?crc"
    by (simp_all only: read_write_u64 header_read_written)
  have body: "load_at ?f 20 (length payload) = payload"
    by (simp add: f load_at_def)
  have crc: "frothy_control_frame_crc ?f payload = ?crc"
    unfolding f by (simp add: frame_crc_eq)
  show ?thesis
    unfolding frothy_control_frame_parse_def Let_def heads reads
    using assms body crc by (simp add: link_sizes header_of_def)
qed

subsection \<open>An accepted frame is a built one\<close>

lemma write_read_u16: "2 \<le> length bs \<Longrightarrow> le16 (frothy_control_read_u16 bs) = take 2 bs"
  by (auto simp: frothy_control_read_u16_def numeral_eq_Suc Suc_le_length_iff)

lemma write_read_u32: "4 \<le> length bs \<Longrightarrow> le32 (frothy_control_read_u32 bs) = take 4 bs"
  by (auto simp: frothy_control_read_u32_def numeral_eq_Suc Suc_le_length_iff)

lemma take_4_nth: "4 \<le> length bs \<Longrightarrow> take 4 bs = [bs ! 0, bs ! 1, bs ! 2, bs ! 3]"
  by (auto simp: numeral_eq_Suc Suc_le_length_iff)

lemma frothy_control_frame_parse_Inr:
  assumes parse: "frothy_control_frame_parse frame frame_len = Inr (h, payload)"
    and len: "frame_len \<le> length frame"
  shows "length payload \<le> 1024" "frame_len = 20 + length payload"
    "take frame_len frame = frame_of (hdr_session_id h) (hdr_message_type h) (hdr_seq h) payload"
    "h = header_of (hdr_session_id h) (hdr_message_type h) (hdr_seq h) payload"
proof -
  let ?sid = "frothy_control_read_u64 (drop 4 frame)" and ?sq = "frothy_control_read_u16 (drop 12 frame)"
  let ?len = "frothy_control_read_u16 (drop 14 frame)" and ?crc = "frothy_control_read_u32 (drop 16 frame)"
  have facts: "20 \<le> frame_len" "frame ! 0 = FROTHY_CONTROL_FRAME_MAGIC_0" "frame ! 1 = FROTHY_CONTROL_FRAME_MAGIC_1"
    "frame ! 2 = FROTHY_CONTROL_FRAME_VERSION" "unat ?len \<le> 1024" "unat (20 + ?len) = frame_len"
    "payload = load_at frame 20 (unat ?len)" "frothy_control_frame_crc frame payload = ?crc"
    and h: "h = \<lparr>hdr_magic = (frame ! 0, frame ! 1), hdr_version = frame ! 2, hdr_message_type = frame ! 3,
      hdr_session_id = ?sid, hdr_seq = ?sq, hdr_payload_length = ?len, hdr_crc32 = ?crc\<rparr>"
    using parse by (auto simp: frothy_control_frame_parse_def Let_def link_sizes split: if_splits)
  have "20 + ?len = of_nat (20 + unat ?len)" by simp
  then have "unat (20 + ?len) = 20 + unat ?len"
    using facts(5) by (simp only: unat_of_nat) simp
  then have fl: "frame_len = 20 + unat ?len" using facts(6) by simp
  then have lp: "length payload = unat ?len" using len facts(7) by (simp add: length_load_at)
  then have word: "of_nat (length payload) = ?len" by simp
  have prefix: "take 16 frame = frame_prefix ?sid (frame ! 3) ?sq (of_nat (length payload))"
  proof -
    have "take 16 frame = take 4 frame @ take 8 (drop 4 frame) @ take 2 (drop 12 frame) @ take 2 (drop 14 frame)"
      using take_add [of 4 12 frame] take_add [of 8 4 "drop 4 frame"] take_add [of 2 2 "drop 12 frame"] by simp
    then show ?thesis
      using len facts(1-4) by (simp add: frame_prefix_def word write_read_u64 write_read_u16 take_4_nth)
  qed
  have split: "take frame_len frame = take 16 frame @ take 4 (drop 16 frame) @ payload"
    using take_add [of 16 "4 + unat ?len" frame] take_add [of 4 "unat ?len" "drop 16 frame"] facts(7)
    by (simp add: fl load_at_def)
  have crc: "?crc = froth_crc32 (take 16 frame @ payload)"
    using facts(8) frame_crc_eq [of "take 16 frame" "drop 16 frame" payload] len facts(1) by simp
  show "length payload \<le> 1024" "frame_len = 20 + length payload" using lp fl facts(5) by simp_all
  show "take frame_len frame = frame_of (hdr_session_id h) (hdr_message_type h) (hdr_seq h) payload"
    using split prefix crc len facts(1) by (simp add: h frame_of_def flip: write_read_u32)
  show "h = header_of (hdr_session_id h) (hdr_message_type h) (hdr_seq h) payload"
    using prefix crc facts(2-4) by (simp add: h header_of_def word)
qed

text \<open>The parser of a raw frame accepts exactly what the builder writes: the bytes up to the frame's length are
  accepted with a given payload, message type, session identifier and sequence number if and only if
  the payload is within the link's limit and those bytes are the frame built from these four. So a
  built frame is always accepted, with nothing lost, and no accepted frame carries anything that its
  header does not say. The bytes of the receive buffer behind the frame play no part.\<close>

theorem frame_accepted_iff_built:
  assumes "frame_len \<le> length frame"
  shows "(\<exists>h. frothy_control_frame_parse frame frame_len = Inr (h, payload) \<and>
            hdr_session_id h = sid \<and> hdr_message_type h = mtype \<and> hdr_seq h = sq) \<longleftrightarrow>
         length payload \<le> FROTH_LINK_MAX_PAYLOAD \<and>
         frothy_control_frame_build sid mtype sq payload FROTHY_CONTROL_FRAME_MAX_RAW = Inr (take frame_len frame)"
    (is "?parsed \<longleftrightarrow> ?built")
proof
  assume ?parsed
  then obtain h where h: "frothy_control_frame_parse frame frame_len = Inr (h, payload)"
    "hdr_session_id h = sid" "hdr_message_type h = mtype" "hdr_seq h = sq" by blast
  then show ?built
    using frothy_control_frame_parse_Inr [OF h(1) assms] by (simp add: link_sizes frothy_control_frame_build_eq)
next
  assume ?built
  then have small: "length payload \<le> 1024" and f: "take frame_len frame = frame_of sid mtype sq payload"
    by (auto simp: link_sizes frothy_control_frame_build_eq)
  have "length (take frame_len frame) = 20 + length payload" unfolding f by simp
  then have fl: "frame_len = 20 + length payload" using assms by simp
  show ?parsed
    using frothy_control_frame_parse_built [OF small, of sid mtype sq "drop frame_len frame"] f fl
    by (metis append_take_drop_id header_of_simps(1-3))
qed

lemma le32_inject: "le32 v = le32 w \<longleftrightarrow> v = w"
  by (metis nth_le32)

text \<open>A corrupted byte is always noticed: a built frame in which any one byte, of the header, the
  checksum or the payload, has been replaced by a different one is refused by the parser, whatever
  follows it in the receive buffer.\<close>

theorem frame_byte_change_refused:
  assumes built: "frothy_control_frame_build sid mtype sq payload FROTHY_CONTROL_FRAME_MAX_RAW = Inr raw"
    and payload: "length payload \<le> FROTH_LINK_MAX_PAYLOAD"
    and change: "i < length raw" "b \<noteq> raw ! i"
  shows "\<exists>e. frothy_control_frame_parse (raw[i := b] @ rest) (length raw) = Inl e"
proof (rule ccontr)
  assume "\<not> ?thesis"
  then obtain h p where parse: "frothy_control_frame_parse (raw[i := b] @ rest) (length raw) = Inr (h, p)"
    by (metis sum.exhaust surj_pair)
  define pre where "pre = frame_prefix sid mtype sq (of_nat (length payload))"
  define pre' where "pre' = frame_prefix (hdr_session_id h) (hdr_message_type h) (hdr_seq h) (of_nat (length p))"
  have raw: "raw = pre @ le32 (froth_crc32 (pre @ payload)) @ payload"
    using built payload by (simp add: frothy_control_frame_build_eq link_sizes frame_of_def pre_def)
  have len: "length pre = 16" "length pre' = 16" by (simp_all add: pre_def pre'_def)
  have acc: "raw[i := b] = pre' @ le32 (froth_crc32 (pre' @ p)) @ p" and lp: "length p = length payload"
    using frothy_control_frame_parse_Inr(2,3) [OF parse]
    by (simp_all add: frame_of_def pre'_def raw len)
  consider (prefix) "i < 16" | (crc) "16 \<le> i" "i < 20" | (payload) "20 \<le> i" by linarith
  then show False
  proof cases
    case prefix
    then have eq: "pre[i := b] = pre'" "le32 (froth_crc32 (pre @ payload)) = le32 (froth_crc32 (pre' @ p))" "payload = p"
      using acc len by (auto simp: raw list_update_append)
    have "froth_crc32 ((pre @ payload)[i := b]) \<noteq> froth_crc32 (pre @ payload)"
      using prefix change(2) len by (intro crc32_list_update) (simp_all add: raw nth_append)
    then show False
      using eq prefix len by (metis le32_inject list_update_append1)
  next
    case crc
    then have near: "i - 16 < 4" by linarith
    then have "pre = pre'" "payload = p"
      "(le32 (froth_crc32 (pre @ payload)))[i - 16 := b] = le32 (froth_crc32 (pre' @ p))"
      using acc len crc by (auto simp: raw list_update_append)
    then have "(le32 (froth_crc32 (pre @ payload)))[i - 16 := b] ! (i - 16) = raw ! i"
      using crc len near by (simp add: raw nth_append)
    then show False using crc change(2) by simp
  next
    case payload
    then have far: "\<not> i - 16 < 4" "i - 16 - 4 = i - 20" "\<not> i - 4 < 16" "i - 4 - 16 = i - 20" by linarith+
    then have eq: "pre = pre'" "le32 (froth_crc32 (pre @ payload)) = le32 (froth_crc32 (pre' @ p))"
      "payload[i - 20 := b] = p"
      using acc len payload by (auto simp: raw list_update_append)
    have "froth_crc32 ((pre @ payload)[i - 4 := b]) \<noteq> froth_crc32 (pre @ payload)"
      using payload change len far by (intro crc32_list_update) (auto simp add: raw nth_append)
    moreover have "(pre @ payload)[i - 4 := b] = pre @ p"
      using far len eq(3) by (simp add: list_update_append)
    ultimately show False using eq by (metis le32_inject)
  qed
qed

end
