(* ===== verification/Frothy_Link_Receive.thy ===== *)
theory Frothy_Link_Receive
  imports Frothy_Link_Frames
begin

section \<open>The link end to end: what is sent is what is received\<close>

text \<open>
  The receive buffer keeps its size; a sent frame is one delimiter, its stuffed bytes and one more
  delimiter; the reader delivers such a frame from a quiet line, and never finds the frame boundary again
  after one stray delimiter.
\<close>

definition stuffed :: "64 word \<Rightarrow> byte \<Rightarrow> 16 word \<Rightarrow> byte list \<Rightarrow> byte list" where
  "stuffed sid mtype sq payload = cobs_encoded [] (frame_of sid mtype sq payload)"

definition wire_frame :: "64 word \<Rightarrow> byte \<Rightarrow> 16 word \<Rightarrow> byte list \<Rightarrow> byte list" where
  "wire_frame sid mtype sq payload = 0 # stuffed sid mtype sq payload @ [0]"

lemma stuffed_nonzero: "0 \<notin> set (stuffed sid mtype sq payload)"
  by (simp add: stuffed_def cobs_encoded_nonzero)

lemma stuffed_length: "length payload \<le> 1024 \<Longrightarrow> length (stuffed sid mtype sq payload) \<le> 1049"
  by (simp add: stuffed_def cobs_encoded_bound)

lemma stuffed_ne: "stuffed sid mtype sq payload \<noteq> []"
  by (simp add: stuffed_def)

subsection \<open>Sending\<close>

lemma emit_bytes_eq:
  "emit_bytes bs ln =
     (if length bs \<le> tx_room ln then (Inr (), ln\<lparr>tx := tx ln @ bs, tx_room := tx_room ln - length bs\<rparr>)
      else (Inl FROTH_ERROR_IO, ln\<lparr>tx := tx ln @ take (tx_room ln) bs, tx_room := 0\<rparr>))"
  by (induction bs arbitrary: ln) (auto simp: platform_emit_raw_def take_Cons')

lemma platform_emit_raw_eq: "platform_emit_raw b ln = emit_bytes [b] ln"
  by (simp add: platform_emit_raw_def)

lemma emit_bytes_append:
  "emit_bytes (as @ bs) ln =
     (case emit_bytes as ln of (Inl e, ln) \<Rightarrow> (Inl e, ln) | (Inr _, ln) \<Rightarrow> emit_bytes bs ln)"
  by (induction as arbitrary: ln) (auto split: prod.splits sum.splits)

lemma frothy_control_send_frame_eq:
  assumes "length payload \<le> 1024"
  shows "frothy_control_send_frame sid mtype sq payload ln = emit_bytes (wire_frame sid mtype sq payload) ln"
proof -
  have wire: "wire_frame sid mtype sq payload = [0] @ stuffed sid mtype sq payload @ [0]"
    by (simp add: wire_frame_def)
  show ?thesis
    using stuffed_length [OF assms, of sid mtype sq] assms
    unfolding frothy_control_send_frame_def wire emit_bytes_append platform_emit_raw_eq
    by (simp add: frothy_control_frame_build_eq link_sizes frothy_control_cobs_encode_encoded
        del: emit_bytes.simps flip: stuffed_def)
qed

subsection \<open>Receiving\<close>

lemma rx_wf_reset [simp]: "rx_wf rx \<Longrightarrow> rx_wf (frothy_control_frame_reset rx)"
  by (simp add: rx_wf_def frothy_control_frame_reset_def)

lemma rx_wf_push: "rx_wf rx \<Longrightarrow> rx_wf (frothy_control_frame_push_byte b rx)"
  by (auto simp: rx_wf_def frothy_control_frame_push_byte_def)

lemma rx_wf_decode: "rx_wf rx \<Longrightarrow> rx_wf (snd (frothy_control_frame_decode rx))"
proof -
  assume wf: "rx_wf rx"
  then have pos: "rx_pos rx \<le> length (rx_frame rx)" "rx_pos rx \<le> FROTHY_CONTROL_FRAME_MAX_COBS"
    by (simp_all add: rx_wf_def)
  show ?thesis
    using wf cobs_decoded_le [of "take (rx_pos rx) (rx_frame rx)"] pos
    unfolding frothy_control_frame_decode_def frothy_control_cobs_decode_eq [OF pos]
    by (fastforce simp: rx_wf_def frothy_control_frame_reset_def Let_def split: option.splits sum.splits)
qed

lemma read_frame_loop_wf:
  "read_frame_loop in_frame rx keys = Some (r, rx', rest) \<Longrightarrow> rx_wf rx \<Longrightarrow> rx_wf rx'"
proof (induction in_frame rx keys rule: read_frame_loop.induct)
  case (3 in_frame rx b keys)
  obtain d rx1 where d: "frothy_control_frame_decode rx = (d, rx1)" by (meson surj_pair)
  have "rx_wf rx1" using rx_wf_decode [OF 3(6)] d by simp
  then show ?case
    using 3 d by (cases d) (auto simp: rx_wf_push Let_def split: if_splits)
qed (auto split: if_splits)

definition receive :: "byte list \<Rightarrow> rx_state \<Rightarrow> rx_state" where
  "receive bs rx = fold frothy_control_frame_push_byte bs rx"

lemma read_frame_loop_bytes:
  "0 \<notin> set bs \<Longrightarrow> read_frame_loop True rx (map KEY bs @ keys) = read_frame_loop True (receive bs rx) keys"
  by (induction bs arbitrary: rx) (auto simp: receive_def)

lemma receive_fits:
  "rx_pos rx + length bs \<le> FROTHY_CONTROL_FRAME_MAX_COBS \<Longrightarrow> rx_wf rx \<Longrightarrow>
   receive bs rx = rx\<lparr>rx_frame := store_at (rx_frame rx) (rx_pos rx) bs, rx_pos := rx_pos rx + length bs\<rparr>"
proof (induction bs arbitrary: rx)
  case Nil
  then show ?case by (simp add: receive_def store_at_def)
next
  case (Cons b bs)
  have "rx_wf (frothy_control_frame_push_byte b rx)" using Cons.prems(2) by (rule rx_wf_push)
  then show ?case
    using Cons.IH [of "frothy_control_frame_push_byte b rx"] Cons.prems
    by (simp add: receive_def frothy_control_frame_push_byte_def store_at_update_Cons rx_wf_def)
qed


lemma receive_fresh:
  assumes "length bs \<le> 1049" "rx_wf rx"
  shows "receive bs (frothy_control_frame_reset rx) =
    \<lparr>rx_frame = bs @ drop (length bs) (rx_frame rx), rx_pos = length bs, rx_overflow = False\<rparr>"
  using receive_fits [of "frothy_control_frame_reset rx" bs] assms(1) rx_wf_reset [OF assms(2)]
  by (cases rx) (simp add: frothy_control_frame_reset_def link_sizes store_at_def)

lemma decode_stuffed:
  assumes "length payload \<le> 1024" "length rest + length (stuffed sid mtype sq payload) = 1049"
  shows "fst (frothy_control_frame_decode
      \<lparr>rx_frame = stuffed sid mtype sq payload @ rest, rx_pos = length (stuffed sid mtype sq payload), rx_overflow = False\<rparr>) =
    Inr (header_of sid mtype sq payload, payload)"
proof -
  let ?s = "stuffed sid mtype sq payload" and ?f = "frame_of sid mtype sq payload"
  have dec: "cobs_decoded ?s = Some ?f" by (simp add: stuffed_def cobs_decoded_encoded)
  have "frothy_control_cobs_decode (?s @ rest) (length ?s) 1049 =
      Inr (?f @ drop (length ?f) (?s @ rest), length ?f)"
    using stuffed_length [OF assms(1), of sid mtype sq]
    by (simp add: frothy_control_cobs_decode_eq dec store_at_def)
  then show ?thesis
    using stuffed_ne [of sid mtype sq payload] frothy_control_frame_parse_built [OF assms(1), of sid mtype sq]
    by (simp add: frothy_control_frame_decode_def link_sizes)
qed

text \<open>A key event that the reader passes over between frames.\<close>

fun passed_over :: "key_event \<Rightarrow> bool" where
  "passed_over (KEY b) = (b \<noteq> 0 \<and> b \<noteq> 3)"
| "passed_over (KEY_FAILED interrupted input_closed) = (\<not> interrupted \<and> \<not> input_closed)"

lemma read_frame_loop_quiet:
  "\<forall>k \<in> set noise. passed_over k \<Longrightarrow> read_frame_loop False rx (noise @ keys) = read_frame_loop False rx keys"
proof (induction noise)
  case (Cons k noise)
  then show ?case by (cases k) auto
qed simp

lemma read_wire_frame:
  assumes "length payload \<le> 1024" "rx_wf rx" "\<forall>k \<in> set noise. passed_over k"
  shows "\<exists>rx'. rx_wf rx' \<and>
    frothy_control_read_frame rx (noise @ map KEY (wire_frame sid mtype sq payload) @ rest) =
      Some (Inr (header_of sid mtype sq payload, payload), rx', rest)"
proof -
  let ?s = "stuffed sid mtype sq payload"
  let ?rx = "receive ?s (frothy_control_frame_reset (frothy_control_frame_reset rx))"
  have len: "length ?s \<le> 1049" by (rule stuffed_length [OF assms(1)])
  have "fst (frothy_control_frame_decode ?rx) = Inr (header_of sid mtype sq payload, payload)"
    using decode_stuffed [OF assms(1), of "drop (length ?s) (rx_frame rx)" sid mtype sq] len assms(2)
    by (simp add: receive_fresh) (simp add: rx_wf_def link_sizes frothy_control_frame_reset_def)
  then obtain rx1 where "frothy_control_frame_decode ?rx = (Inr (header_of sid mtype sq payload, payload), rx1)"
    by (metis prod.collapse)
  then have "frothy_control_read_frame rx (noise @ map KEY (wire_frame sid mtype sq payload) @ rest) =
      Some (Inr (header_of sid mtype sq payload, payload), frothy_control_frame_reset rx1, rest)"
    using assms(3)
    by (simp add: frothy_control_read_frame_def read_frame_loop_quiet wire_frame_def
        read_frame_loop_bytes stuffed_nonzero)
  then show ?thesis
    using read_frame_loop_wf assms(2) unfolding frothy_control_read_frame_def by (metis rx_wf_reset)
qed


text \<open>C38. A frame that is sent is delivered. Sending a payload within the limit over a line that takes the whole
  frame succeeds and puts one delimiter, stuffed bytes without any delimiter and one more delimiter on
  the wire. A reader that starts between frames, on whatever its receive buffer holds, passes over any
  noise that is neither a delimiter nor the interrupt byte, reads exactly those bytes, returns this
  message type, session identifier, sequence number and payload, and leaves what follows on the line
  unread.\<close>

theorem sent_frame_delivered:
  assumes "length payload \<le> FROTH_LINK_MAX_PAYLOAD" "FROTHY_CONTROL_FRAME_MAX_COBS + 2 \<le> tx_room ln"
    and "rx_wf rx" "\<forall>k \<in> set noise. passed_over k"
  shows "\<exists>cs h rx'. 0 \<notin> set cs \<and>
    frothy_control_send_frame sid mtype sq payload ln =
      (Inr (), ln\<lparr>tx := tx ln @ 0 # cs @ [0], tx_room := tx_room ln - (length cs + 2)\<rparr>) \<and>
    frothy_control_read_frame rx (noise @ map KEY (0 # cs @ [0]) @ rest) = Some (Inr (h, payload), rx', rest) \<and>
    hdr_message_type h = mtype \<and> hdr_session_id h = sid \<and> hdr_seq h = sq \<and>
    unat (hdr_payload_length h) = length payload"
proof -
  have small: "length payload \<le> 1024" using assms(1) by (simp add: link_sizes)
  obtain rx' where "frothy_control_read_frame rx (noise @ map KEY (wire_frame sid mtype sq payload) @ rest) =
      Some (Inr (header_of sid mtype sq payload, payload), rx', rest)"
    using read_wire_frame [OF small assms(3,4)] by blast
  moreover have "frothy_control_send_frame sid mtype sq payload ln =
      (Inr (), ln\<lparr>tx := tx ln @ wire_frame sid mtype sq payload,
                tx_room := tx_room ln - (length (stuffed sid mtype sq payload) + 2)\<rparr>)"
    using stuffed_length [OF small, of sid mtype sq] assms(2)
    by (simp add: frothy_control_send_frame_eq [OF small] emit_bytes_eq wire_frame_def link_sizes)
  ultimately show ?thesis
    using stuffed_nonzero [of sid mtype sq payload] small
    by (intro exI [of _ "stuffed sid mtype sq payload"] exI [of _ "header_of sid mtype sq payload"] exI [of _ rx'])
       (simp add: wire_frame_def)
qed

theorem sent_frame_delivered_witness:
  "\<exists>cs h rx'. frothy_control_send_frame 7 3 1 [2, 0, 49, 0] \<lparr>tx = [], tx_room = 2000\<rparr> =
      (Inr (), \<lparr>tx = 0 # cs @ [0], tx_room = 2000 - (length cs + 2)\<rparr>) \<and>
    frothy_control_read_frame \<lparr>rx_frame = replicate 1049 5, rx_pos = 0, rx_overflow = True\<rparr>
      ([KEY 9, KEY_FAILED False False] @ map KEY (0 # cs @ [0]) @ [KEY 1]) =
      Some (Inr (h, [2, 0, 49, 0]), rx', [KEY 1])"
  using sent_frame_delivered [of "[2, 0, 49, 0]" "\<lparr>tx = [], tx_room = 2000\<rparr>"
      "\<lparr>rx_frame = replicate 1049 5, rx_pos = 0, rx_overflow = True\<rparr>" "[KEY 9, KEY_FAILED False False]" 7 3 1 "[KEY 1]"]
  by (simp add: link_sizes rx_wf_def) blast

subsection \<open>One stray delimiter\<close>

type_synonym request = "64 word \<times> byte \<times> 16 word \<times> byte list"

definition wire_of :: "request \<Rightarrow> byte list" where
  "wire_of req = (case req of (sid, mtype, sq, payload) \<Rightarrow> wire_frame sid mtype sq payload)"

lemma decode_empty: "rx_pos rx = 0 \<Longrightarrow> frothy_control_frame_decode rx = (Inl FROTH_ERROR_LINK_COBS_DECODE, frothy_control_frame_reset rx)"
  by (simp add: frothy_control_frame_decode_def)

lemma skip_bytes:
  "0 \<notin> set cs \<Longrightarrow>
   read_frame_loop False rx (map KEY cs @ keys) =
     (if 3 \<in> set cs
      then Some (Inl FROTH_ERROR_PROGRAM_INTERRUPTED, frothy_control_frame_reset rx,
                 tl (dropWhile (\<lambda>k. k \<noteq> KEY 3) (map KEY cs)) @ keys)
      else read_frame_loop False rx keys)"
  by (induction cs) auto

lemma misaligned_reader:
  "rx_pos rx = 0 \<Longrightarrow>
   (case read_frame_loop True rx (concat (map (\<lambda>req. map KEY (wire_of req)) reqs)) of
      None \<Rightarrow> \<forall>req \<in> set reqs. 3 \<notin> set (wire_of req)
    | Some (r, _, _) \<Rightarrow> r = Inl FROTH_ERROR_PROGRAM_INTERRUPTED \<and> (\<exists>req \<in> set reqs. 3 \<in> set (wire_of req)))"
proof (induction reqs arbitrary: rx)
  case (Cons req reqs)
  obtain sid mtype sq payload where req: "req = (sid, mtype, sq, payload)" by (cases req)
  let ?cs = "stuffed sid mtype sq payload" and ?keys = "concat (map (\<lambda>req. map KEY (wire_of req)) reqs)"
  let ?rx = "frothy_control_frame_reset (frothy_control_frame_reset rx)"
  have fresh: "rx_pos (frothy_control_frame_reset rx') = 0" for rx' by (simp add: frothy_control_frame_reset_def)
  have "read_frame_loop True rx (map KEY (wire_of req) @ ?keys) =
      read_frame_loop False ?rx (map KEY ?cs @ KEY 0 # ?keys)"
    using Cons.prems by (simp add: req wire_of_def wire_frame_def decode_empty)
  moreover have "3 \<in> set (wire_of req) \<longleftrightarrow> 3 \<in> set ?cs" by (simp add: req wire_of_def wire_frame_def)
  ultimately show ?case
    using Cons.IH [OF fresh, of ?rx]
    by (cases "3 \<in> set ?cs"; cases "read_frame_loop True (frothy_control_frame_reset ?rx) ?keys")
       (auto simp: skip_bytes stuffed_nonzero)
qed simp

text \<open>C39. One stray delimiter makes the reader lose every frame that follows. When a delimiter arrives before
  a stream of well-formed frames, as a line glitch or a zero byte inside a damaged frame produces it, the reader takes
  the opening delimiter of the first frame as the end of an empty one and leaves the frame, skips the bytes of the
  frame, and takes its closing delimiter as an opening one; so it goes on, for any number of frames. None of them is
  delivered: the reader is still waiting when the stream ends, or, when the bytes of some frame hold
  the interrupt byte, it gives up there as if the user had interrupted, which ends the session.\<close>

theorem stray_delimiter_loses_frames:
  "case frothy_control_read_frame rx (KEY 0 # concat (map (\<lambda>req. map KEY (wire_of req)) reqs)) of
     None \<Rightarrow> \<forall>req \<in> set reqs. 3 \<notin> set (wire_of req)
   | Some (r, _, _) \<Rightarrow> r = Inl FROTH_ERROR_PROGRAM_INTERRUPTED \<and> (\<exists>req \<in> set reqs. 3 \<in> set (wire_of req))"
  using misaligned_reader [of "frothy_control_frame_reset (frothy_control_frame_reset rx)" reqs]
  by (simp add: frothy_control_read_frame_def frothy_control_frame_reset_def)

theorem stray_delimiter_loses_frames_witness:
  "case frothy_control_read_frame
      \<lparr>rx_frame = replicate 1049 0, rx_pos = 0, rx_overflow = False\<rparr> (KEY 0 # concat (map (\<lambda>req. map KEY (wire_of req)) [(7, 4, 1, []), (7, 4, 2, [])])) of
     None \<Rightarrow> \<forall>req \<in> set [(7, 4, 1, []), (7, 4, 2, [])]. 3 \<notin> set (wire_of req)
   | Some (r, _, _) \<Rightarrow> r = Inl FROTH_ERROR_PROGRAM_INTERRUPTED \<and>
       (\<exists>req \<in> set [(7, 4, 1, []), (7, 4, 2, [])]. 3 \<in> set (wire_of req))"
  by (rule stray_delimiter_loses_frames)

end
