(* ===== verification/Frothy_Value_Render.thy ===== *)
theory Frothy_Value_Render
  imports Frothy_Eval Frothy_Render_Surface Frothy_Records
begin

section \<open>Values as text (frothy_value.c)\<close>

text \<open>
  What the shell, the inspection words and the control link show for a value. Records are shown with
  their fields, and records can hold each other in a cycle, so the renderer keeps the records it is inside
  of in an array with one entry per possible object. A renderer is again the status and the bytes it
  appends; \<open>None\<close> stands for a recursion that does not return or a write behind that array, and the
  theorem at the end shows that neither happens.
\<close>

definition frothy_quote_text :: "byte list \<Rightarrow> byte list" where
  "frothy_quote_text text = 34 # concat (map quoted_byte text) @ [34]"

text \<open>The quoted text is appended up to its first NUL.\<close>

definition frothy_sb_append_quoted :: "byte list \<Rightarrow> rendering" where
  "frothy_sb_append_quoted text = frothy_sb_append_text (frothy_quote_text text)"

definition frothy_record_stack_contains :: "nat list \<Rightarrow> nat \<Rightarrow> bool" where
  "frothy_record_stack_contains record_stack object_id \<longleftrightarrow> object_id \<in> set record_stack"

text \<open>The field names of a record definition, from the cursor on.\<close>

fun render_def_fields :: "nat \<Rightarrow> nat \<Rightarrow> byte list \<Rightarrow> rendering" where
  "render_def_fields i 0 cursor = r_bytes []"
| "render_def_fields i (Suc n) cursor =
     (case frothy_record_def_next_string cursor of
        Inl e \<Rightarrow> r_fail e
      | Inr (fname, cursor) \<Rightarrow>
          r_cat [r_text (if i \<noteq> 0 then '', '' else ''''), frothy_sb_append_text fname,
                 render_def_fields (Suc i) n cursor])"

definition frothy_record_def_render_append :: "frothy_runtime \<Rightarrow> frothy_object_as \<Rightarrow> rendering" where
  "frothy_record_def_render_append rt ob =
     (case frothy_runtime_record_def_object_view rt ob of
        Inl e \<Rightarrow> r_fail e
      | Inr (name, nfields, cursor) \<Rightarrow>
          r_cat [r_text ''record '', frothy_sb_append_text name, r_text '' [ '',
                 render_def_fields 0 nfields cursor, r_text '' ]''])"

definition render_record_fields :: "(frothy_value \<Rightarrow> rendering) \<Rightarrow> frothy_runtime \<Rightarrow> frothy_span \<Rightarrow> nat \<Rightarrow> rendering" where
  "render_record_fields rec rt payload nfields =
     r_cat (map (\<lambda>i. r_cat [r_text (if i \<noteq> 0 then '', '' else ''''), rec (record_field_at rt payload i)])
       [0..<nfields])"

definition frothy_record_render_append ::
  "(nat list \<Rightarrow> frothy_value \<Rightarrow> rendering) \<Rightarrow> frothy_vm \<Rightarrow> nat \<Rightarrow> frothy_span \<Rightarrow> frothy_value \<Rightarrow> nat list \<Rightarrow> rendering" where
  "frothy_record_render_append rec vm object_id payload record_def record_stack =
     (if frothy_record_stack_contains record_stack object_id then r_text ''<cycle>''
      else
        case frothy_runtime_get_record_def (vm_runtime vm) record_def of
          Inl e \<Rightarrow> r_fail e
        | Inr (name, nfields) \<Rightarrow>
            if FROTHY_OBJECT_CAPACITY \<le> length record_stack then None
            else if nfields = 0 then r_cat [frothy_sb_append_text name, r_text '':'']
            else r_cat [frothy_sb_append_text name, r_text '':'', r_text '' '',
                   render_record_fields (rec (record_stack @ [object_id])) (vm_runtime vm) payload nfields])"

definition render_object ::
  "(nat list \<Rightarrow> frothy_value \<Rightarrow> rendering) \<Rightarrow> frothy_vm \<Rightarrow> nat \<Rightarrow> nat list \<Rightarrow> rendering" where
  "render_object rec vm object_id record_stack =
     (let rt = vm_runtime vm in
      case ob_as (rt_objects rt ! object_id) of
        OBJECT_TEXT payload n \<Rightarrow> frothy_sb_append_quoted (load_at (rt_payload_bytes rt) (sp_offset payload) n)
      | OBJECT_CELLS span \<Rightarrow> r_cat [r_text ''<cells '', r_bytes (decimal (sp_length span)), r_text ''>'']
      | OBJECT_CODE p arity l b g \<Rightarrow> r_cat [r_text ''<fn/'', r_bytes (decimal arity), r_text ''>'']
      | OBJECT_NATIVE f c name arity \<Rightarrow>
          r_cat [r_text ''<native '', frothy_sb_append_text name, r_text ''/'', r_bytes (decimal arity), r_text ''>'']
      | OBJECT_RECORD_DEF p n \<Rightarrow> frothy_record_def_render_append rt (ob_as (rt_objects rt ! object_id))
      | OBJECT_RECORD payload record_def n \<Rightarrow>
          frothy_record_render_append rec vm object_id payload record_def record_stack
      | OBJECT_FREE \<Rightarrow> r_fail FROTH_ERROR_BOUNDS)"

text \<open>The fuel counts the records that may still be entered.\<close>

primrec render_append_fuel :: "nat \<Rightarrow> frothy_vm \<Rightarrow> nat list \<Rightarrow> frothy_value \<Rightarrow> rendering" where
  "render_append_fuel 0 vm record_stack v = None"
| "render_append_fuel (Suc fuel) vm record_stack v =
     (if frothy_value_is_int v then r_bytes (decimal_cell (frothy_value_as_int v))
      else if frothy_value_is_bool v then r_text (if frothy_value_as_bool v then ''true'' else ''false'')
      else if frothy_value_is_nil v then r_text ''nil''
      else if frothy_value_is_slot_designator v
      then (case frothy_value_get_slot_designator_name (vm_names vm) v of
              Inl e \<Rightarrow> r_fail e
            | Inr name \<Rightarrow> r_cat [r_text ''@'', frothy_sb_append_text name])
      else if frothy_value_is_object_ref v
      then (case frothy_runtime_get_live_object_id (vm_runtime vm) v of
              Inl e \<Rightarrow> r_fail e
            | Inr object_id \<Rightarrow> render_object (render_append_fuel fuel vm) vm object_id record_stack)
      else r_fail FROTH_ERROR_TYPE_MISMATCH)"

definition frothy_value_render_append :: "frothy_vm \<Rightarrow> nat list \<Rightarrow> frothy_value \<Rightarrow> rendering" where
  "frothy_value_render_append vm record_stack v =
     render_append_fuel (Suc (length (rt_objects (vm_runtime vm)) - length record_stack)) vm record_stack v"

definition frothy_value_render :: "frothy_vm \<Rightarrow> frothy_value \<Rightarrow> rendering" where
  "frothy_value_render vm v = frothy_value_render_append vm [] v"

subsection \<open>Rendering returns, within the array of records\<close>

definition returns :: "rendering \<Rightarrow> bool" where "returns r \<longleftrightarrow> r \<noteq> None"

lemma returns_cat [simp]: "returns (r_cat rs) \<longleftrightarrow> True" if "\<forall>r \<in> set rs. returns r" for rs
  using that
  by (induction rs) (auto simp: r_cat.simps r_bytes_def returns_def split: option.splits sum.splits)

lemma returns_basic [simp]:
  "returns (r_bytes t)" "returns (r_text s)" "returns (r_fail e)" "returns (frothy_sb_append_text t)"
  "returns (frothy_sb_append_quoted t)"
  by (simp_all add: returns_def r_bytes_def r_text_def r_fail_def frothy_sb_append_text_def frothy_sb_append_quoted_def)

lemma returns_def_fields [simp]: "returns (render_def_fields i n cursor)"
  by (induction i n cursor rule: render_def_fields.induct) (auto split: sum.splits prod.splits)

lemma returns_record_def [simp]: "returns (frothy_record_def_render_append rt ob)"
  by (simp add: frothy_record_def_render_append_def split: sum.splits prod.splits)

lemma returns_append_fuel:
  assumes "distinct record_stack" "set record_stack \<subseteq> {..<length (rt_objects (vm_runtime vm))}"
    and "length (rt_objects (vm_runtime vm)) \<le> FROTHY_OBJECT_CAPACITY"
    and "length (rt_objects (vm_runtime vm)) < fuel + length record_stack"
  shows "returns (render_append_fuel fuel vm record_stack v)"
  using assms
proof (induction fuel arbitrary: record_stack v)
  case 0
  then have "length record_stack \<le> length (rt_objects (vm_runtime vm))"
    using card_mono [of "{..<length (rt_objects (vm_runtime vm))}" "set record_stack"]
    by (simp add: distinct_card)
  then show ?case using 0 by simp
next
  case (Suc fuel)
  let ?rt = "vm_runtime vm"
  have obj: "returns (render_object (render_append_fuel fuel vm) vm i record_stack)"
    if i: "frothy_runtime_get_live_object_id ?rt v = Inr i" for i
  proof -
    have il: "i < length (rt_objects ?rt)"
      using i by (auto simp: frothy_runtime_get_live_object_id_def Let_def split: if_splits)
    have rec: "returns (render_append_fuel fuel vm (record_stack @ [i]) w)" if "i \<notin> set record_stack" for w
      using that Suc.prems il by (intro Suc.IH) auto
    have room: "length record_stack < FROTHY_OBJECT_CAPACITY" if "i \<notin> set record_stack"
    proof -
      have "card (insert i (set record_stack)) \<le> card {..<length (rt_objects ?rt)}"
        using Suc.prems il by (intro card_mono) auto
      then show ?thesis using that Suc.prems by (simp add: distinct_card)
    qed
    have "returns (frothy_record_render_append (render_append_fuel fuel vm) vm i payload d record_stack)"
      for payload d
      using room rec
      by (auto simp: frothy_record_render_append_def frothy_record_stack_contains_def render_record_fields_def
          split: sum.splits prod.splits)
    then show ?thesis
      by (simp add: render_object_def Let_def split: frothy_object_as.splits)
  qed
  show ?case
    using obj by (auto split: sum.splits)
qed

text \<open>Showing a value returns for every value and every state of the object store, records that hold
  each other in a cycle included, and never leaves the array of 128 entries that holds the records being shown: whatever the
  heap looks like, the renderer ends with text or with an error.\<close>

theorem value_render_returns:
  assumes "length (rt_objects (vm_runtime vm)) \<le> FROTHY_OBJECT_CAPACITY"
  shows "frothy_value_render vm v \<noteq> None"
  using returns_append_fuel [of "[]" vm "Suc (length (rt_objects (vm_runtime vm)))" v] assms
  by (simp add: frothy_value_render_def frothy_value_render_append_def returns_def)

end
