(* ===== verification/Frothy_Inspect.thy ===== *)
theory Frothy_Inspect
  imports Frothy_Value_Render
begin

section \<open>Inspecting bindings (frothy_inspect.c)\<close>

text \<open>
  What the words \<^verbatim>\<open>words\<close>, \<^verbatim>\<open>see\<close>, \<^verbatim>\<open>core\<close> and \<^verbatim>\<open>slotInfo\<close> show, and the views the control link sends. A text builder is
  the bytes appended to it (its \<^verbatim>\<open>realloc\<close> is taken to succeed). A C string that may be NULL is an
  optional list. What a board knows about its native functions (\<^verbatim>\<open>frothy_ffi.c\<close>) is the record
  \<open>ffi_info\<close>, a parameter. Code that writes to the console is a tree of the bytes it emits, each with a
  continuation that is given the status of the write.
\<close>

subsection \<open>Code that emits\<close>

datatype 'r run = Done 'r | Emit byte "unit result \<Rightarrow> 'r run"

primrec run_try :: "'a result run \<Rightarrow> ('a \<Rightarrow> 'b result run) \<Rightarrow> 'b result run" where
  "run_try (Done r) k = (case r of Inl e \<Rightarrow> Done (Inl e) | Inr x \<Rightarrow> k x)"
| "run_try (Emit b next) k = Emit b (\<lambda>s. run_try (next s) k)"

primrec frothy_emit_text :: "byte list \<Rightarrow> unit result run" where
  "frothy_emit_text [] = Done (Inr ())"
| "frothy_emit_text (b # text) =
     Emit b (\<lambda>s. case s of Inl e \<Rightarrow> Done (Inl e) | Inr _ \<Rightarrow> frothy_emit_text text)"

definition frothy_emit_line :: "byte list \<Rightarrow> unit result run" where
  "frothy_emit_line text = run_try (frothy_emit_text text) (\<lambda>_. Emit 10 Done)"

subsection \<open>Bindings\<close>

record ffi_info =
  frothy_ffi_native_is_foreign :: "nat \<Rightarrow> nat \<Rightarrow> bool"
  frothy_ffi_native_owner :: "nat \<Rightarrow> nat \<Rightarrow> byte list option"
  frothy_ffi_native_effect :: "nat \<Rightarrow> nat \<Rightarrow> byte list option"
  frothy_ffi_native_help :: "nat \<Rightarrow> nat \<Rightarrow> byte list option"

text \<open>The object of a code or native binding is in \<open>ib_as\<close>, for any other binding nothing is.\<close>

record frothy_inspect_binding =
  ib_slot_index :: nat
  ib_is_overlay :: bool
  ib_value :: frothy_value
  ib_class :: frothy_value_class
  ib_has_call_shape :: bool
  ib_in_arity :: byte
  ib_out_arity :: byte
  ib_as :: frothy_object_as

definition frothy_inspect_builtin_docs :: "(byte list \<times> byte list) list" where
  "frothy_inspect_builtin_docs = map (\<lambda>(n, h). (ascii n, ascii h))
    [(''save'', ''Save the current overlay snapshot.''),
     (''restore'', ''Restore the most recently saved snapshot.''),
     (''dangerous.wipe'', ''Erase the saved snapshot and clear overlay bindings.''),
     (''words'', ''List bound top-level slot names.''),
     (''see'', ''Show the readable form of a slot binding.''),
     (''core'', ''Show the normalized core form of a slot binding.''),
     (''slotInfo'', ''Show slot metadata for a binding.'')]"

definition frothy_inspect_lookup_builtin_doc :: "byte list \<Rightarrow> byte list option" where
  "frothy_inspect_lookup_builtin_doc name = map_of frothy_inspect_builtin_docs (c_string name)"

definition frothy_inspect_binding_is_foreign :: "ffi_info \<Rightarrow> frothy_inspect_binding \<Rightarrow> bool" where
  "frothy_inspect_binding_is_foreign ffi b \<longleftrightarrow>
     ib_class b = CLASS_NATIVE \<and>
     frothy_ffi_native_is_foreign ffi (native_fn (ib_as b)) (native_context (ib_as b))"

definition frothy_inspect_binding_owner :: "ffi_info \<Rightarrow> frothy_inspect_binding \<Rightarrow> byte list" where
  "frothy_inspect_binding_owner ffi b =
     (if ib_class b = CLASS_NATIVE \<and> frothy_inspect_binding_is_foreign ffi b then
        (case frothy_ffi_native_owner ffi (native_fn (ib_as b)) (native_context (ib_as b)) of
           Some owner \<Rightarrow> owner
         | None \<Rightarrow> ascii ''foreign binding'')
      else if ib_class b = CLASS_NATIVE \<and> \<not> ib_is_overlay b \<and>
          frothy_inspect_lookup_builtin_doc (native_name (ib_as b)) \<noteq> None
      then ascii ''runtime builtin''
      else if ib_is_overlay b then ascii ''overlay image'' else ascii ''base image'')"

definition frothy_inspect_binding_persistence :: "frothy_inspect_binding \<Rightarrow> byte list" where
  "frothy_inspect_binding_persistence b =
     (if ib_class b = CLASS_NATIVE \<or> \<not> ib_is_overlay b then ascii ''not saved''
      else if ib_class b = CLASS_CELLS then ascii ''saved if contents are persistable''
      else ascii ''saved in snapshot'')"

definition frothy_inspect_binding_effect :: "ffi_info \<Rightarrow> frothy_inspect_binding \<Rightarrow> byte list option" where
  "frothy_inspect_binding_effect ffi b =
     (if ib_class b \<noteq> CLASS_NATIVE then None
      else frothy_ffi_native_effect ffi (native_fn (ib_as b)) (native_context (ib_as b)))"

text \<open>Context 0 is the NULL context.\<close>

definition frothy_inspect_binding_help :: "ffi_info \<Rightarrow> frothy_inspect_binding \<Rightarrow> byte list option" where
  "frothy_inspect_binding_help ffi b =
     (if ib_class b \<noteq> CLASS_NATIVE then None
      else
        case frothy_ffi_native_help ffi (native_fn (ib_as b)) (native_context (ib_as b)) of
          Some help \<Rightarrow>
            if c_string help \<noteq> [] then Some help
            else if native_context (ib_as b) \<noteq> 0 then None
            else frothy_inspect_lookup_builtin_doc (native_name (ib_as b))
        | None \<Rightarrow>
            if native_context (ib_as b) \<noteq> 0 then None
            else frothy_inspect_lookup_builtin_doc (native_name (ib_as b)))"

record frothy_inspect_binding_view =
  vw_is_overlay :: bool
  vw_class :: frothy_value_class
  vw_has_call_shape :: bool
  vw_in_arity :: byte
  vw_out_arity :: byte
  vw_owner :: "byte list"
  vw_persistence :: "byte list"
  vw_effect :: "byte list option"
  vw_help :: "byte list option"

definition frothy_inspect_binding_view_from_binding ::
  "ffi_info \<Rightarrow> frothy_inspect_binding \<Rightarrow> frothy_inspect_binding_view" where
  "frothy_inspect_binding_view_from_binding ffi b =
     \<lparr>vw_is_overlay = ib_is_overlay b, vw_class = ib_class b, vw_has_call_shape = ib_has_call_shape b,
      vw_in_arity = ib_in_arity b, vw_out_arity = ib_out_arity b,
      vw_owner = frothy_inspect_binding_owner ffi b, vw_persistence = frothy_inspect_binding_persistence b,
      vw_effect = frothy_inspect_binding_effect ffi b, vw_help = frothy_inspect_binding_help ffi b\<rparr>"

text \<open>The arities a slot declares, and the call shape they give: known only when both are.\<close>

definition declared_call_shape :: "slot_table \<Rightarrow> nat \<Rightarrow> bool \<times> byte \<times> byte" where
  "declared_call_shape t i =
     (case froth_slot_get_arity t i of
        Inl e \<Rightarrow> (False, FROTH_SLOT_ARITY_UNKNOWN, FROTH_SLOT_ARITY_UNKNOWN)
      | Inr (in_ar, out_ar) \<Rightarrow> (in_ar < FROTH_SLOT_ARITY_UNKNOWN \<and> out_ar < FROTH_SLOT_ARITY_UNKNOWN, in_ar, out_ar))"

text \<open>A callable without a declared shape takes its own arity and gives one value.\<close>

definition callable_shape :: "nat \<Rightarrow> bool \<times> byte \<times> byte \<Rightarrow> bool \<times> byte \<times> byte" where
  "callable_shape arity shape =
     (if \<not> fst shape \<and> arity < unat FROTH_SLOT_ARITY_UNKNOWN then (True, of_nat arity, 1) else shape)"

definition frothy_inspect_resolve_binding ::
  "frothy_vm \<Rightarrow> byte list \<Rightarrow> frothy_inspect_binding result" where
  "frothy_inspect_resolve_binding vm name =
     (let rt = vm_runtime vm; heap = fst (vm_names vm); t = snd (vm_names vm) in
      FROTH_TRY (froth_slot_find_name_n heap t (c_string name)) (\<lambda>slot_index.
      FROTH_TRY (froth_slot_get_impl t slot_index) (\<lambda>impl.
      let value = frothy_value_from_cell impl; shape = declared_call_shape t slot_index;
          binding = \<lambda>cls (has_shape, in_ar, out_ar) ob.
            \<lparr>ib_slot_index = slot_index, ib_is_overlay = froth_slot_is_overlay t slot_index,
             ib_value = value, ib_class = cls, ib_has_call_shape = has_shape,
             ib_in_arity = in_ar, ib_out_arity = out_ar, ib_as = ob\<rparr>
      in FROTH_TRY (Frothy_Records.value_class rt value) (\<lambda>cls.
         if cls = CLASS_CODE then
           FROTH_TRY (frothy_runtime_get_code rt value) (\<lambda>ob.
             Inr (binding cls (callable_shape (code_arity ob) shape) ob))
         else if cls = CLASS_NATIVE then
           FROTH_TRY (frothy_runtime_get_native rt value) (\<lambda>ob.
             Inr (binding cls (callable_shape (native_arity ob) shape) ob))
         else Inr (binding cls shape OBJECT_FREE)))))"

subsection \<open>Rendering a binding\<close>

definition frothy_inspect_render_binding ::
  "frothy_vm \<Rightarrow> byte list \<Rightarrow> frothy_inspect_binding \<Rightarrow> rendering" where
  "frothy_inspect_render_binding vm name b =
     (case ib_as b of
        OBJECT_CODE p arity local_count body program \<Rightarrow>
          if ib_class b = CLASS_CODE
          then frothy_ir_render_surface_code program body arity local_count (Some name)
          else frothy_value_render vm (ib_value b)
      | _ \<Rightarrow> frothy_value_render vm (ib_value b))"

datatype frothy_inspect_render_mode = RENDER_SURFACE | RENDER_CORE

definition frothy_inspect_render_binding_text ::
  "frothy_vm \<Rightarrow> byte list \<Rightarrow> frothy_inspect_render_mode \<Rightarrow> rendering" where
  "frothy_inspect_render_binding_text vm name mode =
     (case frothy_inspect_resolve_binding vm name of
        Inl e \<Rightarrow> r_fail e
      | Inr b \<Rightarrow>
          (case ib_as b of
             OBJECT_CODE p arity local_count body program \<Rightarrow>
               if mode = RENDER_CORE \<and> ib_class b = CLASS_CODE
               then frothy_ir_render_code program body arity local_count
               else frothy_inspect_render_binding vm name b
           | _ \<Rightarrow> frothy_inspect_render_binding vm name b))"

text \<open>The view and the rendered text; the view is for the caller only when the text could be rendered.\<close>

definition frothy_inspect_render_binding_view ::
  "ffi_info \<Rightarrow> frothy_vm \<Rightarrow> byte list \<Rightarrow> (frothy_inspect_binding_view \<times> byte list) result option" where
  "frothy_inspect_render_binding_view ffi vm name =
     (case frothy_inspect_resolve_binding vm name of
        Inl e \<Rightarrow> Some (Inl e)
      | Inr b \<Rightarrow>
          map_option (map_sum id (Pair (frothy_inspect_binding_view_from_binding ffi b)))
            (frothy_inspect_render_binding vm name b))"

end
