(* ===== verification/Frothy_Inspect_Text.thy ===== *)
theory Frothy_Inspect_Text
  imports Frothy_Inspect
begin

section \<open>Inspection reports and the word list (frothy_inspect.c)\<close>

text \<open>
  The text of the reports and of the listing of all bound words, with the words that print them. The
  listing is sorted by group and name, printed in columns that fill at most 80 characters.
\<close>

subsection \<open>Reports\<close>

fun frothy_inspect_class_name :: "frothy_value_class \<Rightarrow> byte list" where
  "frothy_inspect_class_name CLASS_INT = ascii ''int''"
| "frothy_inspect_class_name CLASS_BOOL = ascii ''bool''"
| "frothy_inspect_class_name CLASS_NIL = ascii ''nil''"
| "frothy_inspect_class_name CLASS_TEXT = ascii ''text''"
| "frothy_inspect_class_name CLASS_CELLS = ascii ''cells''"
| "frothy_inspect_class_name CLASS_CODE = ascii ''code''"
| "frothy_inspect_class_name CLASS_NATIVE = ascii ''native''"
| "frothy_inspect_class_name CLASS_RECORD_DEF = ascii ''record-def''"
| "frothy_inspect_class_name CLASS_RECORD = ascii ''record''"

definition frothy_inspect_builder_append_field :: "string \<Rightarrow> byte list option \<Rightarrow> byte list" where
  "frothy_inspect_builder_append_field label value =
     (case value of
        None \<Rightarrow> []
      | Some v \<Rightarrow> if c_string v = [] then []
                  else ascii ''  '' @ ascii label @ ascii '': '' @ c_string v @ [10])"

definition frothy_inspect_builder_append_call :: "frothy_inspect_binding_view \<Rightarrow> byte list" where
  "frothy_inspect_builder_append_call view =
     (if vw_has_call_shape view then
        ascii ''  call: '' @ decimal (unat (vw_in_arity view)) @ ascii '' -> '' @
        decimal (unat (vw_out_arity view)) @ [10]
      else if vw_class view = CLASS_CODE \<or> vw_class view = CLASS_NATIVE
      then ascii ''  call: callable'' @ [10]
      else ascii ''  call: not callable'' @ [10])"

text \<open>Line by line: the first line follows the label, the others are indented.\<close>

function append_rendered_lines :: "string \<Rightarrow> bool \<Rightarrow> byte list \<Rightarrow> byte list" where
  "append_rendered_lines label first_line cursor =
     (let line = takeWhile (\<lambda>b. b \<noteq> 10) cursor;
          head = (if first_line then ascii ''  '' @ ascii label @ ascii '': '' else ascii ''    '')
      in case dropWhile (\<lambda>b. b \<noteq> 10) cursor of
           [] \<Rightarrow> head @ cursor @ [10]
         | _ # rest \<Rightarrow> head @ line @ [10] @ append_rendered_lines label False rest)"
  by pat_completeness auto
termination
proof (relation "measure (\<lambda>(label, first_line, cursor). length cursor)", goal_cases)
  case (2 label first_line cursor x xa x21 x22)
  have "length (dropWhile (\<lambda>b. b \<noteq> 10) cursor) \<le> length cursor" by (rule length_dropWhile_le)
  with 2 show ?case by simp
qed simp

declare append_rendered_lines.simps [simp del]

definition frothy_inspect_builder_append_rendered :: "string \<Rightarrow> byte list \<Rightarrow> byte list" where
  "frothy_inspect_builder_append_rendered label rendered =
     (if rendered = [] then ascii ''  '' @ ascii label @ ascii '':'' @ [10]
      else append_rendered_lines label True rendered)"

datatype frothy_inspect_report_mode = REPORT_SLOT_INFO | REPORT_SEE | REPORT_CORE

text \<open>Taking the text out of its builder drops a closing line feed.\<close>

definition frothy_inspect_text_builder_take :: "byte list \<Rightarrow> byte list" where
  "frothy_inspect_text_builder_take built =
     (if built \<noteq> [] \<and> last built = 10 then butlast built else built)"

definition frothy_inspect_render_report_text ::
  "byte list \<Rightarrow> frothy_inspect_binding_view \<Rightarrow> frothy_inspect_report_mode \<Rightarrow> byte list \<Rightarrow> byte list" where
  "frothy_inspect_render_report_text name view mode rendered =
     frothy_inspect_text_builder_take (
       c_string name @ [10] @
       frothy_inspect_builder_append_field ''slot''
         (Some (ascii (if vw_is_overlay view then ''overlay'' else ''base''))) @
       frothy_inspect_builder_append_field ''kind'' (Some (frothy_inspect_class_name (vw_class view))) @
       frothy_inspect_builder_append_call view @
       frothy_inspect_builder_append_field ''owner'' (Some (vw_owner view)) @
       frothy_inspect_builder_append_field ''persistence'' (Some (vw_persistence view)) @
       frothy_inspect_builder_append_field ''effect'' (vw_effect view) @
       frothy_inspect_builder_append_field ''help'' (vw_help view) @
       (case mode of
          REPORT_SLOT_INFO \<Rightarrow> []
        | REPORT_SEE \<Rightarrow> frothy_inspect_builder_append_rendered ''see'' rendered
        | REPORT_CORE \<Rightarrow> frothy_inspect_builder_append_rendered ''core'' rendered))"

definition frothy_inspect_render_binding_report ::
  "ffi_info \<Rightarrow> frothy_vm \<Rightarrow> byte list \<Rightarrow> frothy_inspect_report_mode \<Rightarrow> rendering" where
  "frothy_inspect_render_binding_report ffi vm name mode =
     (case frothy_inspect_resolve_binding vm name of
        Inl e \<Rightarrow> r_fail e
      | Inr b \<Rightarrow>
          map_option (map_sum id
              (frothy_inspect_render_report_text name (frothy_inspect_binding_view_from_binding ffi b) mode))
            (case mode of
               REPORT_SEE \<Rightarrow> frothy_inspect_render_binding vm name b
             | REPORT_CORE \<Rightarrow> frothy_inspect_render_binding_text vm name RENDER_CORE
             | REPORT_SLOT_INFO \<Rightarrow> r_bytes []))"

subsection \<open>The word list\<close>

definition froth_slot_count :: "slot_table \<Rightarrow> nat" where
  "froth_slot_count t = st_pointer t"

definition collected_word :: "froth_heap \<Rightarrow> slot_table \<Rightarrow> nat \<Rightarrow> byte list option" where
  "collected_word heap t slot_index =
     (case froth_slot_get_name heap t slot_index of
        Inl e \<Rightarrow> None
      | Inr name \<Rightarrow> (case froth_slot_get_impl t slot_index of Inl e \<Rightarrow> None | Inr impl \<Rightarrow> Some name))"

definition frothy_inspect_collect_words :: "frothy_vm \<Rightarrow> byte list list" where
  "frothy_inspect_collect_words vm =
     List.map_filter (collected_word (fst (vm_names vm)) (snd (vm_names vm)))
       [0..<froth_slot_count (snd (vm_names vm))]"

datatype frothy_words_group = WORDS_GROUP_OVERLAY | WORDS_GROUP_BUILTIN | WORDS_GROUP_BASE

fun words_group_number :: "frothy_words_group \<Rightarrow> int" where
  "words_group_number WORDS_GROUP_OVERLAY = 0"
| "words_group_number WORDS_GROUP_BUILTIN = 1"
| "words_group_number WORDS_GROUP_BASE = 2"

definition frothy_inspect_words_group :: "frothy_inspect_binding \<Rightarrow> frothy_words_group" where
  "frothy_inspect_words_group b =
     (if ib_is_overlay b then WORDS_GROUP_OVERLAY
      else if ib_class b = CLASS_NATIVE \<and> frothy_inspect_lookup_builtin_doc (native_name (ib_as b)) \<noteq> None
      then WORDS_GROUP_BUILTIN
      else WORDS_GROUP_BASE)"

fun frothy_inspect_words_group_label :: "frothy_words_group \<Rightarrow> byte list" where
  "frothy_inspect_words_group_label WORDS_GROUP_OVERLAY = ascii ''overlay''"
| "frothy_inspect_words_group_label WORDS_GROUP_BUILTIN = ascii ''runtime builtins''"
| "frothy_inspect_words_group_label WORDS_GROUP_BASE = ascii ''base image''"

type_synonym words_entry = "byte list \<times> frothy_words_group"

fun strcmp :: "byte list \<Rightarrow> byte list \<Rightarrow> int" where
  "strcmp [] [] = 0"
| "strcmp [] (b # bs) = - uint b"
| "strcmp (a # as) [] = uint a"
| "strcmp (a # as) (b # bs) = (if a = b then strcmp as bs else uint a - uint b)"

definition frothy_inspect_words_entry_compare :: "words_entry \<Rightarrow> words_entry \<Rightarrow> int" where
  "frothy_inspect_words_entry_compare left right =
     (if snd left \<noteq> snd right then words_group_number (snd left) - words_group_number (snd right)
      else strcmp (fst left) (fst right))"

text \<open>The library's \<^verbatim>\<open>qsort\<close>, as an insertion sort: names are distinct, so there is one sorted order.\<close>

fun insert_entry :: "words_entry \<Rightarrow> words_entry list \<Rightarrow> words_entry list" where
  "insert_entry e [] = [e]"
| "insert_entry e (x # xs) =
     (if frothy_inspect_words_entry_compare e x \<le> 0 then e # x # xs else x # insert_entry e xs)"

definition qsort_entries :: "words_entry list \<Rightarrow> words_entry list" where
  "qsort_entries entries = foldr insert_entry entries []"

definition frothy_inspect_words_section_columns :: "words_entry list \<Rightarrow> nat \<times> nat" where
  "frothy_inspect_words_section_columns entries =
     (if entries = [] then (0, 0)
      else
        let max_name_length = Max (insert 0 (set (map (length \<circ> fst) entries)))
        in if max_name_length = 0 then (1, 0)
           else let column_width = max_name_length + 2; columns = (80 - 2) div column_width
                in (if columns = 0 then 1 else columns, column_width))"

text \<open>\<^verbatim>\<open>%-*s\<close>: padded with spaces on the right.\<close>

definition pad_right :: "nat \<Rightarrow> byte list \<Rightarrow> byte list" where
  "pad_right width text = text @ replicate (width - length text) 32"

fun words_row :: "nat \<Rightarrow> words_entry list \<Rightarrow> byte list" where
  "words_row column_width [] = []"
| "words_row column_width [e] = fst e @ [10]"
| "words_row column_width (e # es) = pad_right column_width (fst e) @ words_row column_width es"

function words_rows :: "nat \<Rightarrow> nat \<Rightarrow> words_entry list \<Rightarrow> byte list" where
  "words_rows columns column_width entries =
     (if entries = [] \<or> columns = 0 then []
      else ascii ''  '' @ words_row column_width (take columns entries) @
           words_rows columns column_width (drop columns entries))"
  by pat_completeness auto
termination by (relation "measure (\<lambda>(columns, column_width, entries). length entries)") auto

declare words_rows.simps [simp del]

definition frothy_inspect_append_words_section :: "words_entry list \<Rightarrow> byte list" where
  "frothy_inspect_append_words_section entries =
     (if entries = [] then []
      else
        frothy_inspect_words_group_label (snd (hd entries)) @ ascii '' ('' @ decimal (length entries) @
        ascii '')'' @ [10] @
        (let (columns, column_width) = frothy_inspect_words_section_columns entries
         in words_rows (if columns = 0 then 1 else columns) column_width entries))"

function words_sections :: "bool \<Rightarrow> words_entry list \<Rightarrow> byte list" where
  "words_sections first [] = []"
| "words_sections first (e # es) =
     (let same = \<lambda>x. snd x = snd e in
      (if first then [] else [10]) @
      frothy_inspect_append_words_section (e # takeWhile same es) @
      words_sections False (dropWhile same es))"
  by pat_completeness auto
termination
  by (relation "measure (\<lambda>(first, es). length es)") (auto simp: le_imp_less_Suc length_dropWhile_le)

fun words_entries :: "frothy_vm \<Rightarrow> byte list list \<Rightarrow> words_entry list result" where
  "words_entries vm [] = Inr []"
| "words_entries vm (name # names) =
     FROTH_TRY (frothy_inspect_resolve_binding vm name) (\<lambda>b.
     FROTH_TRY (words_entries vm names) (\<lambda>entries.
     Inr ((name, frothy_inspect_words_group b) # entries)))"

definition frothy_inspect_render_words_text :: "frothy_vm \<Rightarrow> byte list result" where
  "frothy_inspect_render_words_text vm =
     (let names = frothy_inspect_collect_words vm in
      if names = [] then Inr (ascii ''no bindings'')
      else FROTH_TRY (words_entries vm names) (\<lambda>entries.
             Inr (frothy_inspect_text_builder_take (words_sections True (qsort_entries entries)))))"

subsection \<open>The words that print them\<close>

definition frothy_inspect_require_name_arg :: "frothy_vm \<Rightarrow> frothy_value list \<Rightarrow> byte list result" where
  "frothy_inspect_require_name_arg vm args =
     (if length args \<noteq> 1 then Inl FROTH_ERROR_SIGNATURE
      else case frothy_runtime_get_text (vm_runtime vm) (args ! 0) of
          Inr text \<Rightarrow> if length text = 0 then Inl FROTH_ERROR_BOUNDS else Inr text
        | Inl e \<Rightarrow>
            if e \<noteq> FROTH_ERROR_TYPE_MISMATCH then Inl e
            else FROTH_TRY (frothy_value_get_slot_designator_name (vm_names vm) (args ! 0)) (\<lambda>name.
              if length name = 0 then Inl FROTH_ERROR_BOUNDS else Inr name))"

text \<open>A builtin gives the value it stores through its result pointer, or the error that leaves it alone.\<close>

definition emit_report :: "rendering \<Rightarrow> frothy_value result run option" where
  "emit_report report =
     (case report of
        None \<Rightarrow> None
      | Some (Inl e) \<Rightarrow> Some (Done (Inl e))
      | Some (Inr text) \<Rightarrow>
          Some (run_try (frothy_emit_line text) (\<lambda>_. Done (Inr frothy_value_make_nil))))"

definition frothy_builtin_words :: "frothy_vm \<Rightarrow> frothy_value list \<Rightarrow> frothy_value result run option" where
  "frothy_builtin_words vm args =
     (if args \<noteq> [] then Some (Done (Inl FROTH_ERROR_SIGNATURE))
      else emit_report (Some (frothy_inspect_render_words_text vm)))"

definition builtin_report ::
  "frothy_inspect_report_mode \<Rightarrow> ffi_info \<Rightarrow> frothy_vm \<Rightarrow> frothy_value list \<Rightarrow> frothy_value result run option" where
  "builtin_report mode ffi vm args =
     (case frothy_inspect_require_name_arg vm args of
        Inl e \<Rightarrow> Some (Done (Inl e))
      | Inr name \<Rightarrow> emit_report (frothy_inspect_render_binding_report ffi vm name mode))"

definition frothy_builtin_see :: "ffi_info \<Rightarrow> frothy_vm \<Rightarrow> frothy_value list \<Rightarrow> frothy_value result run option" where
  "frothy_builtin_see = builtin_report REPORT_SEE"

definition frothy_builtin_core :: "ffi_info \<Rightarrow> frothy_vm \<Rightarrow> frothy_value list \<Rightarrow> frothy_value result run option" where
  "frothy_builtin_core = builtin_report REPORT_CORE"

definition frothy_builtin_slot_info :: "ffi_info \<Rightarrow> frothy_vm \<Rightarrow> frothy_value list \<Rightarrow> frothy_value result run option" where
  "frothy_builtin_slot_info = builtin_report REPORT_SLOT_INFO"

end
