(* ===== verification/Frothy_Inspect_Props.thy ===== *)
theory Frothy_Inspect_Props
  imports Frothy_Inspect_Text
begin

section \<open>What the word list shows\<close>

text \<open>
  In a well-formed slot table the listing collects every bound name, once; the order in which the library sorts
  the entries is determined by the code's comparison; and every row stays within the 80 columns when the
  names do.
\<close>

subsection \<open>Collecting\<close>

lemma collected_word_Some:
  "collected_word heap t i = Some name \<longleftrightarrow>
     index_has_slot_assigned t i \<and> slot_label heap (st_slots t ! i) = Some name \<and>
     (\<exists>impl. froth_slot_get_impl t i = Inr impl)"
  by (auto simp: collected_word_def froth_slot_get_name_def froth_slot_get_impl_def slot_label_def
      index_has_slot_assigned_def split: sum.splits if_splits)

lemma collect_words_set:
  assumes "slots_wf (vm_names vm)"
  shows "set (frothy_inspect_collect_words vm) =
    {name. \<exists>i impl. slot_lookup (vm_names vm) name = Some i \<and> froth_slot_get_impl (snd (vm_names vm)) i = Inr impl}"
proof -
  obtain heap t where names: "vm_names vm = (heap, t)" by (cases "vm_names vm")
  have label: "index_has_slot_assigned t i \<and> slot_label heap (st_slots t ! i) = Some name \<longleftrightarrow>
      slot_lookup (heap, t) name = Some i" for i name
    using slot_lookup_iff [of heap t name i] assms
    by (auto simp: names index_has_slot_assigned_def slot_label_def)
  have "set (frothy_inspect_collect_words vm) =
      {name. \<exists>i < st_pointer t. collected_word heap t i = Some name}"
    by (force simp: frothy_inspect_collect_words_def names froth_slot_count_def List.map_filter_def)
  also have "\<dots> = {name. \<exists>i impl. slot_lookup (heap, t) name = Some i \<and> froth_slot_get_impl t i = Inr impl}"
    unfolding collected_word_Some
    by (auto simp: index_has_slot_assigned_def slot_label_def simp flip: label)
  finally show ?thesis by (simp add: names)
qed

lemma distinct_map_filter:
  "distinct xs \<Longrightarrow> (\<And>i j y. i \<in> set xs \<Longrightarrow> j \<in> set xs \<Longrightarrow> f i = Some y \<Longrightarrow> f j = Some y \<Longrightarrow> i = j) \<Longrightarrow>
   distinct (List.map_filter f xs)"
proof (induction xs)
  case (Cons x xs)
  have mem: "y \<in> set (List.map_filter f xs) \<longleftrightarrow> (\<exists>z \<in> set xs. f z = Some y)" for y
    by (force simp: List.map_filter_def)
  have tail: "distinct (List.map_filter f xs)"
    by (rule Cons.IH) (use Cons.prems in \<open>simp, metis list.set_intros(2)\<close>)
  show ?case
  proof (cases "f x")
    case (Some y)
    have "f z \<noteq> Some y" if "z \<in> set xs" for z
      using Cons.prems(1) Cons.prems(2) [of x z y] Some that by auto
    with Some tail mem show ?thesis by (simp add: List.map_filter_simps)
  qed (simp add: List.map_filter_simps tail)
qed (simp add: List.map_filter_simps)

lemma collect_words_distinct:
  assumes "slots_wf (vm_names vm)"
  shows "distinct (frothy_inspect_collect_words vm)"
proof -
  obtain heap t where names: "vm_names vm = (heap, t)" by (cases "vm_names vm")
  have found: "slot_lookup (heap, t) name = Some i" if "collected_word heap t i = Some name" for i name
  proof -
    have "slots_wf (heap, t)" using assms by (simp add: names)
    moreover have "i < st_pointer t" "slot_label heap (st_slots t ! i) = Some name"
      using that unfolding collected_word_Some index_has_slot_assigned_def by blast+
    ultimately show ?thesis using slot_lookup_iff by blast
  qed
  have one: "i = j" if "collected_word heap t i = Some y" "collected_word heap t j = Some y" for i j y
    using found [OF that(1)] found [OF that(2)] by simp
  show ?thesis
    unfolding frothy_inspect_collect_words_def names fst_conv snd_conv
    by (rule distinct_map_filter [OF distinct_upt]) (rule one)
qed

subsection \<open>Sorting\<close>

lemma strcmp_minus: "strcmp bs as = - strcmp as bs"
  by (induction as bs rule: strcmp.induct) auto

lemma strcmp_zero: "0 \<notin> set as \<Longrightarrow> 0 \<notin> set bs \<Longrightarrow> strcmp as bs = 0 \<longleftrightarrow> as = bs"
  by (induction as bs rule: strcmp.induct) (auto simp: uint_0_iff simp flip: word_uint_eq_iff)

lemma uint_pos: "b \<noteq> 0 \<Longrightarrow> 0 < uint (b :: byte)"
  using uint_0_iff [of b] uint_ge_0 [of b] by linarith

lemma strcmp_trans:
  "0 \<notin> set as \<Longrightarrow> 0 \<notin> set bs \<Longrightarrow> 0 \<notin> set cs \<Longrightarrow> strcmp as bs \<le> 0 \<Longrightarrow> strcmp bs cs \<le> 0 \<Longrightarrow> strcmp as cs \<le> 0"
proof (induction as bs arbitrary: cs rule: strcmp.induct)
  case 1
  then show ?case by simp
next
  case (2 b bs)
  then show ?case by (cases cs) auto
next
  case (3 a as)
  then show ?case using uint_pos [of a] by auto
next
  case (4 a as b bs)
  show ?case
  proof (cases cs)
    case Nil
    then show ?thesis using 4 uint_pos [of b] by auto
  next
    case (Cons c cs')
    then show ?thesis
      using 4 word_uint_eq_iff [of a b] word_uint_eq_iff [of b c]
      by (auto split: if_splits)
  qed
qed

definition named :: "words_entry \<Rightarrow> bool" where "named e \<longleftrightarrow> 0 \<notin> set (fst e)"

abbreviation entry_le :: "words_entry \<Rightarrow> words_entry \<Rightarrow> bool" where
  "entry_le x y \<equiv> frothy_inspect_words_entry_compare x y \<le> 0"

lemma words_group_number_inject: "words_group_number g = words_group_number h \<longleftrightarrow> g = h"
  by (cases g; cases h) simp_all

lemma compare_minus: "frothy_inspect_words_entry_compare y x = - frothy_inspect_words_entry_compare x y"
  by (auto simp: frothy_inspect_words_entry_compare_def strcmp_minus [of "fst y" "fst x"])

lemma entry_le_iff:
  "entry_le x y \<longleftrightarrow> words_group_number (snd x) < words_group_number (snd y) \<or>
     snd x = snd y \<and> strcmp (fst x) (fst y) \<le> 0"
  using words_group_number_inject [of "snd x" "snd y"]
  by (auto simp: frothy_inspect_words_entry_compare_def)

lemma entry_le_trans: "named x \<Longrightarrow> named y \<Longrightarrow> named z \<Longrightarrow> entry_le x y \<Longrightarrow> entry_le y z \<Longrightarrow> entry_le x z"
  using strcmp_trans [of "fst x" "fst y" "fst z"] by (auto simp: entry_le_iff named_def)

lemma entry_le_total: "entry_le x y \<or> entry_le y x"
  using compare_minus [of y x] by linarith

lemma entry_le_antisym: "named x \<Longrightarrow> named y \<Longrightarrow> entry_le x y \<Longrightarrow> entry_le y x \<Longrightarrow> x = y"
  using strcmp_zero [of "fst x" "fst y"] strcmp_minus [of "fst y" "fst x"]
  by (auto simp: entry_le_iff named_def prod_eq_iff)

lemma insert_entry_mset [simp]: "mset (insert_entry e es) = add_mset e (mset es)"
  by (induction e es rule: insert_entry.induct) auto

lemma insert_entry_set [simp]: "set (insert_entry e es) = insert e (set es)"
  by (metis insert_entry_mset set_mset_add_mset_insert set_mset_mset)

lemma insert_entry_sorted:
  "named e \<Longrightarrow> \<forall>x \<in> set es. named x \<Longrightarrow> sorted_wrt entry_le es \<Longrightarrow> sorted_wrt entry_le (insert_entry e es)"
proof (induction e es rule: insert_entry.induct)
  case (2 e x xs)
  show ?case
  proof (cases "entry_le e x")
    case True
    then show ?thesis using 2(2-4) entry_le_trans [of e x] by auto
  next
    case False
    then show ?thesis using 2 entry_le_total [of e x] by auto
  qed
qed simp

lemma qsort_entries_permutes [simp]: "mset (qsort_entries es) = mset es"
  by (induction es) (simp_all add: qsort_entries_def)

lemma qsort_entries_sorted:
  "\<forall>e \<in> set es. named e \<Longrightarrow> sorted_wrt entry_le (qsort_entries es)"
proof (induction es)
  case (Cons e es)
  moreover have "set (qsort_entries es) = set es" by (metis qsort_entries_permutes set_mset_mset)
  ultimately show ?case
    by (simp add: qsort_entries_def insert_entry_sorted)
qed (simp add: qsort_entries_def)

text \<open>Whatever algorithm the library's sort uses, its result is this one.\<close>

lemma sorted_entries_unique:
  "sorted_wrt entry_le xs \<Longrightarrow> sorted_wrt entry_le ys \<Longrightarrow> mset xs = mset ys \<Longrightarrow> \<forall>e \<in> set xs. named e \<Longrightarrow> xs = ys"
proof (induction xs arbitrary: ys)
  case (Cons x xs)
  then obtain y ys' where ys: "ys = y # ys'" by (cases ys) auto
  have sets: "set (x # xs) = set ys" using Cons.prems(3) by (metis set_mset_mset)
  then have "x \<in> set ys" "y \<in> set (x # xs)" using ys by auto
  then have "x = y \<or> entry_le y x \<and> entry_le x y" using Cons.prems(1,2) ys by auto
  moreover have "named x" "named y" using Cons.prems(4) \<open>y \<in> set (x # xs)\<close> by auto
  ultimately have "x = y" using entry_le_antisym [of x y] by blast
  then show ?case using Cons ys by simp
qed simp

theorem qsort_entries_determined:
  assumes "\<forall>e \<in> set es. named e" "mset es' = mset es" "sorted_wrt entry_le es'"
  shows "es' = qsort_entries es"
  using sorted_entries_unique [OF assms(3) qsort_entries_sorted [OF assms(1)]] assms(1,2)
  by (metis qsort_entries_permutes set_mset_mset)

subsection \<open>Columns\<close>

lemma words_row_length:
  "es \<noteq> [] \<Longrightarrow> \<forall>e \<in> set es. length (fst e) + 2 \<le> width \<Longrightarrow>
   length (words_row width es) + 1 \<le> width * length es"
  by (induction width es rule: words_row.induct) (auto simp: pad_right_def)

text \<open>A row is at most 80 characters and its line feed, when no name is longer than 76.\<close>

lemma words_row_fits:
  assumes "frothy_inspect_words_section_columns entries = (columns, width)"
    and "es \<noteq> []" "set es \<subseteq> set entries" "length es \<le> columns"
    and small: "\<forall>e \<in> set entries. length (fst e) \<le> 76"
  shows "length (ascii ''  '' @ words_row width es) \<le> 81"
proof -
  define m where "m = Max (insert 0 (set (map (length \<circ> fst) entries)))"
  have m: "length (fst e) \<le> m" if "e \<in> set entries" for e
    unfolding m_def by (rule Max_ge) (use that in auto)
  have "m \<in> insert 0 (set (map (length \<circ> fst) entries))" unfolding m_def by (rule Max_in) auto
  then have m76: "m \<le> 76" using small by auto
  have ne: "entries \<noteq> []" using assms(2,3) by auto
  have cols: "(columns, width) =
      (if m = 0 then (1, 0) else (if 78 div (m + 2) = 0 then 1 else 78 div (m + 2), m + 2))"
    unfolding assms(1) [symmetric] frothy_inspect_words_section_columns_def Let_def m_def [symmetric]
    by (simp add: ne)
  show ?thesis
  proof (cases "m = 0")
    case True
    then have "columns = 1" "width = 0"
      using cols by simp_all
    then obtain e where "es = [e]" using assms(2,4) by (cases es) auto
    then show ?thesis using m [of e] assms(3) True by (simp add: ascii_def)
  next
    case False
    have "0 < 78 div (m + 2)" using m76 by (simp add: div_greater_zero_iff)
    then have cw: "columns = 78 div (m + 2)" "width = m + 2"
      using cols False by (simp_all split: if_splits)
    have "length (words_row width es) + 1 \<le> width * length es"
    proof (rule words_row_length [OF assms(2)])
      show "\<forall>e \<in> set es. length (fst e) + 2 \<le> width" unfolding cw(2) using m assms(3) by (meson add_le_mono1 subsetD)
    qed
    also have "\<dots> \<le> width * columns" using assms(4) by (rule mult_le_mono2)
    also have "\<dots> \<le> 78" unfolding cw by (rule times_div_less_eq_dividend)
    finally show ?thesis by (simp add: ascii_def)
  qed
qed

end
