(* ===== verification/Spec2Isabelle.thy ===== *)
theory Spec2Isabelle
  imports Froth_Crc Froth_Heap Froth_Cellspace Froth_Slots Frothy_Value Frothy_IR
    Frothy_Objects Frothy_Record_Props Frothy_Overlay Frothy_Snapshot Frothy_Codec_Restore
    Frothy_Eval_Program Frothy_Eval_Arith Frothy_Parse_Props Frothy_Text_Props
    Frothy_Link_Receive Frothy_Inspect_Props
begin

text \<open>
  A model of the Frothy runtime, the core of an interactive language for small devices.

  The program. The values of the language are tagged 32-bit words (\<^verbatim>\<open>src/frothy_value.h\<close>). Small
  integers, booleans and nil are immediate; everything else is an index into the object store of
  \<^verbatim>\<open>src/frothy_value.c\<close>, whose objects are reference counted and keep their data in two arenas: the
  payload arena (texts, packed programs, record definitions and records) and the cell space (arrays
  of values). The top level names of a session are the slots of \<^verbatim>\<open>src/froth_slot_table.c\<close>, whose
  names are strings in the heap of \<^verbatim>\<open>src/froth_heap.c\<close>. Slots are either of the base image or of the
  overlay; the overlay is what a snapshot saves (\<^verbatim>\<open>src/frothy_snapshot_codec.c\<close>) into one of two
  files guarded by a header, a generation number and a CRC (\<^verbatim>\<open>src/frothy_snapshot.c\<close>), and what
  \<^verbatim>\<open>wipe\<close> takes away. Programs are flat arrays of nodes (\<^verbatim>\<open>src/frothy_ir.c\<close>):
  \<^verbatim>\<open>src/frothy_parser.c\<close> makes them from source text, one top-level form at a time, and
  \<^verbatim>\<open>src/frothy_eval.c\<close> evaluates them over an explicit stack of frames. \<^verbatim>\<open>src/frothy_inspect.c\<close>
  shows what a slot is bound to. A host drives a device over a serial link, in frames with a check sum
  and byte stuffing (\<^verbatim>\<open>src/frothy_control.c\<close>).

  Conventions. A C struct is a record and an enum a datatype. A fallible C function returns
  \<open>'a result\<close>, that is \<open>froth_error + 'a\<close>; one that changes a structure returns the structure too,
  also on failure. Fixed-width integers whose wrap-around matters are words; sizes and indices are
  natural numbers, with every overflow check of the source written out against \<open>SIZE_MAX\<close> (2^64 - 1)
  or \<open>UINT32_MAX\<close>. Memory that is reached through spans (the name heap, the payload arena, the cell
  space) is a list of bytes or cells and is read and written at the offsets the code uses. A NUL
  terminated string is the list of its bytes, with \<open>c_string\<close> and \<open>strlen\<close> where the source stops at
  a NUL.

  The theories.
  \<^item> \<open>Froth_Prelude\<close>: the error codes of \<^verbatim>\<open>src/froth_types.h\<close>, results and \<open>FROTH_TRY\<close>, memories as
    lists, the named collections of rewrite rules.
  \<^item> \<open>Froth_Crc\<close>, \<open>Froth_Heap\<close>, \<open>Froth_Cellspace\<close>: \<^verbatim>\<open>froth_crc32.c\<close>, \<^verbatim>\<open>froth_heap.c\<close>,
    \<^verbatim>\<open>froth_cellspace.c\<close>. The CRC is shown to detect every change of one byte; the heap never hands
    out bytes past its end; resetting the cell space gives back exactly the captured base image.
  \<^item> \<open>Froth_Name_Table\<close> and \<open>Froth_Slots\<close>: \<^verbatim>\<open>froth_slot_table.c\<close>. The locale \<open>name_table\<close> states
    what a table of named entries promises to its clients, and is interpreted on the slot table.
  \<^item> \<open>Frothy_Spans\<close>: the free lists of both arenas as one set of operations. The locale
    \<open>span_allocator\<close> says that what is free and what is taken tile the arena; it is interpreted on
    the sorted free list of \<^verbatim>\<open>frothy_value.c\<close>.
  \<^item> \<open>Frothy_Value\<close>: boxing, unboxing and wrapping of integers, booleans and nil.
  \<^item> \<open>Frothy_IR\<close>: the program arrays, their packed size and the packed copy.
  \<^item> \<open>Frothy_Store\<close>, \<open>Frothy_Runtime\<close>, \<open>Frothy_Release\<close>, \<open>Frothy_Refcount\<close>, \<open>Frothy_Clear\<close>,
    \<open>Frothy_Records\<close>, \<open>Frothy_Objects\<close>, \<open>Frothy_Record_Props\<close>: the object store. \<open>Frothy_Store\<close> has
    the records and the invariant of the arenas; \<open>Frothy_Runtime\<close> the operations; \<open>Frothy_Release\<close>
    the recursion that releases an object and what it refers to; \<open>Frothy_Refcount\<close> the invariant
    \<open>count_ok\<close> (the count of an object is the number of references the outside world and live
    objects hold to it); the last theories the allocations, accesses and their properties.
    \<open>runtime_ok e rt\<close> puts them together: the arenas are tiled, the counts are exact for the outside
    references \<open>e\<close>, and no dead object holds storage.
  \<^item> \<open>Frothy_Overlay\<close>: taking the overlay away from slots and store.
  \<^item> \<open>Frothy_Snapshot\<close>: \<^verbatim>\<open>frothy_snapshot.c\<close>, the snapshot files as seen by the posix platform. A write
    can be cut short with an error, or lose bytes when its stream is closed, which the code does not
    notice. A save is atomic under every such fault except the unnoticed loss of the payload;
    \<open>lost_payload_flush\<close> shows what happens then: a reported success, and nothing that loads.
  \<^item> \<open>Frothy_Names\<close>: \<^verbatim>\<open>frothy_name_rules.h\<close>.
  \<^item> \<open>Frothy_Wire\<close>, \<open>Frothy_Symbols\<close>, \<open>Frothy_Codec_Code\<close>, \<open>Frothy_Codec_Wire\<close>,
    \<open>Frothy_Codec_Nodes\<close>, \<open>Frothy_Codec_Program\<close>, \<open>Frothy_Codec_Save\<close>, \<open>Frothy_Codec_Check\<close>,
    \<open>Frothy_Codec_Restore\<close>: \<^verbatim>\<open>frothy_snapshot_codec.c\<close>. The locale \<open>wire\<close> is the round trip of one
    field; the locale \<open>packed_wire\<close> is the contract of an item of a program (what is written is
    accepted, measured and decoded; what is accepted is decoded within the measured space), proved
    once for arrays of items and interpreted on literals, nodes and links.
  \<^item> \<open>Frothy_Lexer\<close>, \<open>Frothy_Build\<close>, \<open>Frothy_Parser\<close>, \<open>Frothy_Parse_Top\<close>: \<^verbatim>\<open>frothy_parser.c\<close>. The source
    is the list of bytes in memory from its first byte on, so that what lies behind the terminating zero
    is part of the input; tokens are places in it. \<open>Frothy_Build\<close> has the parser record, the growth of
    its buffers with their limits, the node constructors, scopes, frames and the resolution of names;
    \<open>Frothy_Parser\<close> the grammar of blocks and expressions, each function with the parser it calls
    recursively as an argument; \<open>Frothy_Parse_Top\<close> the top-level forms, the recursion and the entry points.
  \<^item> \<open>Frothy_Program_Wf\<close>, \<open>Frothy_Parse_Rules\<close>, \<open>Frothy_Parse_Steps\<close>, \<open>Frothy_Parse_Forms\<close>,
    \<open>Frothy_Parse_Total\<close>, \<open>Frothy_Parse_Props\<close>: what a well-formed program is, rules for total correctness
    of the parsing steps over the invariant \<open>parser_ok\<close>, and that the parser returns and yields well-formed
    programs. The locale \<open>goal_contract\<close> states what a recursive call promises, and is interpreted on the
    parser itself. \<open>parser_departure_examples\<close> evaluates the model on sources where the code departs from its grammar.
  \<^item> \<open>Frothy_Render\<close>, \<open>Frothy_Render_Surface\<close>: the core and the surface text of programs
    (\<^verbatim>\<open>frothy_ir.c\<close>). \<open>Frothy_Render_Props\<close>: rendering a well-formed program returns;
    \<open>Frothy_Render_Core\<close>: the core form is the text of an S-expression, and equal texts are of equal
    trees; \<open>Frothy_Render_Lex\<close>: rendered literals (integers that are not negative, texts of at most
    256 bytes, booleans, nil) are read back by the lexer; \<open>Frothy_Text_Props\<close>: the
    claims, with functions whose surface form reads as another function. \<open>Frothy_Parse_Code\<close> has the
    equations with which the parser is evaluated.
  \<^item> \<open>Frothy_Eval\<close>: \<^verbatim>\<open>frothy_eval.c\<close>. The machine is a record of the \<^verbatim>\<open>froth_vm\<close>, the frames, and the
    caller's result variable; the pointers through which results are written are places. One
    function per node kind, \<open>eval_iteration\<close> is one turn of the loop, \<open>eval_loop\<close> a partial function
    whose \<open>None\<close> is a program that does not return. Natives and the interrupt line are parameters.
  \<^item> \<open>Frothy_Eval_Arith\<close>: the arithmetic of the built-in operations against that of the integers.
  \<^item> \<open>Frothy_Frame\<close>, \<open>Frothy_Sound\<close>, \<open>Frothy_Sound_Ops\<close>, \<open>Frothy_Sound_Access\<close>: what the operations on
    objects leave alone, the invariant \<open>rt_sound\<close> (\<open>runtime_ok\<close>, records that fit their definitions,
    and capacities below 2^30, so that no count overflows), and that every operation the evaluator
    uses keeps it, with the reference it yields accounted for.
  \<^item> \<open>Frothy_Eval_Slots\<close>, \<open>Frothy_Eval_Stack\<close>, \<open>Frothy_Eval_Inv\<close>, \<open>Frothy_Eval_Moves\<close>, \<open>Frothy_Eval_Steps\<close>,
    \<open>Frothy_Eval_Writes\<close>, \<open>Frothy_Eval_Nodes\<close>, \<open>Frothy_Eval_Control\<close>, \<open>Frothy_Eval_Call\<close>,
    \<open>Frothy_Eval_Program\<close>: the evaluator owns its references. The references the slots hold, what the
    frames of the stack expect of each other, the invariant of the loop, and its preservation node
    kind by node kind; the last theory has the claim for whole programs.
  \<^item> \<open>Frothy_Value_Render\<close>, \<open>Frothy_Inspect\<close>, \<open>Frothy_Inspect_Text\<close>: values as text
    (\<^verbatim>\<open>frothy_value_render\<close>), and \<^verbatim>\<open>frothy_inspect.c\<close>: bindings and their views, reports, the word list,
    and the words that print them, as trees of emitted bytes. Showing a value returns for cyclic
    records too, within the array that holds the records being shown. \<open>Frothy_Inspect_Props\<close>: the word list
    has every bound name once; the order of its entries is determined by the comparison, whichever
    algorithm the library sorts with; rows fit into 80 columns.
  \<^item> \<open>Frothy_Cobs\<close>, \<open>Frothy_Link\<close>, \<open>Frothy_Link_Frames\<close>, \<open>Frothy_Link_Receive\<close>: the link layer of
    \<^verbatim>\<open>frothy_control.c\<close>. Stuffing and the decoder in place are inverse; the parser of a frame accepts
    exactly what the builder makes, so a changed byte is refused; what is sent is received; and one
    stray delimiter makes the reader lose every frame that follows.

  Fuel. \<open>frothy_value_release\<close> recurses through the object graph; its model takes the sum of all
  reference counts plus one as fuel, and every call takes one count down before it recurses, so the
  fuel is never used up (\<open>Frothy_Release\<close>). The parser recurses with as much fuel as there is source
  left to read, and every recursive call comes after a token, so it is never used up either
  (\<open>Frothy_Parse_Total\<close>). The renderers recurse with one more than the number of nodes, which a
  program without a node inside itself never uses up (\<open>Frothy_Render_Props\<close>); the parser's loops are partial functions shown to return. All other recursions are
  structural or have a termination proof.

  Not modelled. The failure of \<^verbatim>\<open>malloc\<close> in the parser and in the host build; the byte layout of C structs inside the
  payload arena (a packed program is its decoded value, its size is the size the C code computes);
  the workspace buffers of the codec, whose capacities are parameters; the session of the control link (its dispatch and handlers call the
  shell); the shell, boot and FFI tables; terminal I/O and the boards.
\<close>

end
